(* ===== verification/Prelude.thy ===== *)
theory Prelude
  imports Main "HOL-Library.Char_ord" "HOL-Library.List_Lexorder" "HOL-Library.Multiset"
begin

section \<open>Prelude: shared types, hints and generic lemmas\<close>

text \<open>
  Nothing here is about one component.  The theory holds the collections of hints the
  components fill, the result type of fallible operations, association lists that behave
  like a JavaScript \<open>Map\<close> (insertion ordered, one entry per key), the first-match search
  and the comparator sort every component uses, with their lemmas.
\<close>

named_theorems guard_defs "definitions of input checks, to be unfolded together"
named_theorems step_defs "definitions of state-changing operations, to be unfolded together"

subsection \<open>Results of operations that may throw\<close>

text \<open>
  A JavaScript function that may throw returns \<open>'e + 'a\<close>: \<open>Inl e\<close> is the thrown error,
  \<open>Inr a\<close> the returned value.
\<close>

fun is_ok :: "'e + 'a \<Rightarrow> bool" where
  "is_ok (Inl _) = False"
| "is_ok (Inr _) = True"

lemma is_ok_iff: "is_ok r \<longleftrightarrow> (\<exists>a. r = Inr a)"
  by (cases r) auto

text \<open>\<open>mapM f xs\<close>: \<open>xs.map(f)\<close> where \<open>f\<close> may throw; the first error wins.\<close>

text \<open>Sequencing of computations that may raise.\<close>

fun rbind :: "'e + 'a \<Rightarrow> ('a \<Rightarrow> 'e + 'b) \<Rightarrow> 'e + 'b" where
  "rbind (Inl e) f = Inl e"
| "rbind (Inr a) f = f a"

lemma rbind_Inr_iff: "rbind r f = Inr b \<longleftrightarrow> (\<exists>a. r = Inr a \<and> f a = Inr b)"
  by (cases r) auto

lemma rbind_Inr_E [elim!]:
  assumes "rbind r f = Inr b"
  obtains a where "r = Inr a" "f a = Inr b"
  using assms by (cases r) auto

lemma rbind_cong [fundef_cong]:
  "r = r' \<Longrightarrow> (\<And>a. r' = Inr a \<Longrightarrow> f a = g a) \<Longrightarrow> rbind r f = rbind r' g"
  by (cases r') auto

text \<open>A loop over a list that threads a state and may raise.\<close>

fun foldM :: "('a \<Rightarrow> 's \<Rightarrow> 'e + 's) \<Rightarrow> 'a list \<Rightarrow> 's \<Rightarrow> 'e + 's" where
  "foldM f [] s = Inr s"
| "foldM f (x # xs) s = rbind (f x s) (foldM f xs)"

lemma foldM_cong [fundef_cong]:
  "xs = ys \<Longrightarrow> (\<And>x s. x \<in> set ys \<Longrightarrow> f x s = g x s) \<Longrightarrow> s = t \<Longrightarrow> foldM f xs s = foldM g ys t"
proof (induction xs arbitrary: ys s t)
  case (Cons x xs)
  then show ?case by (cases "g x t") auto
qed simp

fun mapM :: "('a \<Rightarrow> 'e + 'b) \<Rightarrow> 'a list \<Rightarrow> 'e + 'b list" where
  "mapM f [] = Inr []"
| "mapM f (x # xs) =
     (case f x of
        Inl e \<Rightarrow> Inl e
      | Inr y \<Rightarrow> (case mapM f xs of Inl e \<Rightarrow> Inl e | Inr ys \<Rightarrow> Inr (y # ys)))"

lemma mapM_Inr_iff: "mapM f xs = Inr ys \<longleftrightarrow> list_all2 (\<lambda>x y. f x = Inr y) xs ys"
proof (induction xs arbitrary: ys)
  case Nil
  then show ?case by (auto split: list.splits)
next
  case (Cons x xs)
  show ?case
  proof (cases "mapM f xs")
    case (Inl e)
    have "\<not> list_all2 (\<lambda>x y. f x = Inr y) xs zs" for zs
      unfolding Cons.IH [symmetric] using Inl by simp
    with Inl show ?thesis by (auto simp: list_all2_Cons1 split: sum.splits)
  next
    case (Inr zs)
    have "list_all2 (\<lambda>x y. f x = Inr y) xs us \<longleftrightarrow> us = zs" for us
      unfolding Cons.IH [symmetric] using Inr by auto
    with Inr show ?thesis by (auto simp: list_all2_Cons1 split: sum.splits)
  qed
qed

lemma mapM_length: "mapM f xs = Inr ys \<Longrightarrow> length ys = length xs"
  by (simp add: mapM_Inr_iff list_all2_lengthD)

lemma mapM_results: "mapM f xs = Inr ys \<Longrightarrow> y \<in> set ys \<Longrightarrow> \<exists>x \<in> set xs. f x = Inr y"
  by (induction xs arbitrary: ys) (auto split: sum.splits)

lemma mapM_covers: "mapM f xs = Inr ys \<Longrightarrow> x \<in> set xs \<Longrightarrow> \<exists>y \<in> set ys. f x = Inr y"
  by (induction xs arbitrary: ys) (auto split: sum.splits)

lemma mapM_total: "(\<And>x. x \<in> set xs \<Longrightarrow> \<exists>y. f x = Inr y) \<Longrightarrow> \<exists>ys. mapM f xs = Inr ys"
proof (induction xs)
  case (Cons x xs)
  then obtain y ys where "f x = Inr y" "mapM f xs = Inr ys" by force
  then show ?case by simp
qed simp

lemma mapM_names:
  assumes "\<And>x y. f x = Inr y \<Longrightarrow> fst y = fst x" "mapM f xs = Inr ys"
  shows "map fst ys = map fst xs"
  using assms(2)
proof (induction xs arbitrary: ys)
  case (Cons x xs)
  then obtain y zs where "f x = Inr y" "mapM f xs = Inr zs" "ys = y # zs" by (auto split: sum.splits)
  with Cons.IH [of zs] assms(1) [of x y] show ?case by simp
qed simp

lemma mapM_cong [fundef_cong]:
  "xs = ys \<Longrightarrow> (\<And>x. x \<in> set ys \<Longrightarrow> f x = g x) \<Longrightarrow> mapM f xs = mapM g ys"
proof -
  have "(\<And>x. x \<in> set ys \<Longrightarrow> f x = g x) \<Longrightarrow> mapM f ys = mapM g ys"
    by (induction ys) (auto split: sum.splits)
  then show "xs = ys \<Longrightarrow> (\<And>x. x \<in> set ys \<Longrightarrow> f x = g x) \<Longrightarrow> mapM f xs = mapM g ys"
    by simp
qed

subsection \<open>Insertion-ordered maps\<close>

text \<open>
  A JavaScript \<open>Map\<close> (and the own string-keyed properties of an object) keeps its entries
  in insertion order; \<open>set\<close> on a present key replaces the value in place.
\<close>

type_synonym ('k, 'v) omap = "('k \<times> 'v) list"

fun om_set :: "'k \<Rightarrow> 'v \<Rightarrow> ('k, 'v) omap \<Rightarrow> ('k, 'v) omap" where
  "om_set k v [] = [(k, v)]"
| "om_set k v ((k', v') # m) = (if k = k' then (k, v) # m else (k', v') # om_set k v m)"

definition om_del :: "'k \<Rightarrow> ('k, 'v) omap \<Rightarrow> ('k, 'v) omap" where
  "om_del k m = filter (\<lambda>p. fst p \<noteq> k) m"

abbreviation om_keys :: "('k, 'v) omap \<Rightarrow> 'k list" where
  "om_keys m \<equiv> map fst m"

abbreviation om_wf :: "('k, 'v) omap \<Rightarrow> bool" where
  "om_wf m \<equiv> distinct (map fst m)"

lemma om_set_keys: "fst ` set (om_set k v m) = insert k (fst ` set m)"
proof (induction m)
  case (Cons p m)
  show ?case by (cases p) (use Cons in \<open>simp add: insert_commute\<close>)
qed simp

lemma om_set_wf [simp]: "om_wf m \<Longrightarrow> om_wf (om_set k v m)"
proof (induction m)
  case (Cons p m)
  then show ?case by (cases p) (simp add: om_set_keys)
qed simp

lemma om_set_map_of [simp]: "map_of (om_set k v m) = (map_of m)(k \<mapsto> v)"
  by (induction m) (auto simp: fun_eq_iff)

lemma set_om_set: "set (om_set k v m) \<subseteq> insert (k, v) (set m)"
  by (induction k v m rule: om_set.induct) auto

lemma om_set_fresh: "k \<notin> fst ` set m \<Longrightarrow> om_set k v m = m @ [(k, v)]"
  by (induction m) auto

lemma om_set_length:
  "length (om_set k v m) = (if k \<in> fst ` set m then length m else Suc (length m))"
proof (induction m)
  case (Cons p m)
  then show ?case by (cases p) simp
qed simp

lemma om_del_wf [simp]: "om_wf m \<Longrightarrow> om_wf (om_del k m)"
  by (induction m) (auto simp: om_del_def)

lemma om_del_map_of [simp]: "map_of (om_del k m) = (map_of m)(k := None)"
  by (induction m) (auto simp: om_del_def fun_eq_iff)

lemma om_del_keys [simp]: "fst ` set (om_del k m) = fst ` set m - {k}"
  by (auto simp: om_del_def)

lemma om_del_length: "length (om_del k m) \<le> length m"
  by (simp add: om_del_def)

lemma om_del_length_mem:
  "om_wf m \<Longrightarrow> k \<in> fst ` set m \<Longrightarrow> Suc (length (om_del k m)) = length m"
proof (induction m)
  case Nil
  then show ?case by simp
next
  case (Cons p m)
  show ?case
  proof (cases "fst p = k")
    case True
    with Cons.prems(1) have "filter (\<lambda>q. fst q \<noteq> k) m = m"
      by (induction m) auto
    with True show ?thesis by (simp add: om_del_def)
  next
    case False
    with Cons show ?thesis by (auto simp: om_del_def)
  qed
qed

subsection \<open>Searching and sorting\<close>

text \<open>
  \<open>isort lt xs\<close> is \<open>Array.prototype.sort\<close> with a comparator: stable, smallest first, where
  \<open>lt a b\<close> stands for "the comparator returns a negative number for a and b".
\<close>

fun ins_by :: "('a \<Rightarrow> 'a \<Rightarrow> bool) \<Rightarrow> 'a \<Rightarrow> 'a list \<Rightarrow> 'a list" where
  "ins_by lt x [] = [x]"
| "ins_by lt x (y # ys) = (if lt y x then y # ins_by lt x ys else x # y # ys)"

fun isort :: "('a \<Rightarrow> 'a \<Rightarrow> bool) \<Rightarrow> 'a list \<Rightarrow> 'a list" where
  "isort lt [] = []"
| "isort lt (x # xs) = ins_by lt x (isort lt xs)"

lemma mset_ins_by [simp]: "mset (ins_by lt x xs) = add_mset x (mset xs)"
  by (induction xs) auto

lemma mset_isort [simp]: "mset (isort lt xs) = mset xs"
  by (induction xs) auto

lemma set_ins_by [simp]: "set (ins_by lt x xs) = insert x (set xs)"
  by (induction xs) auto

lemma set_isort [simp]: "set (isort lt xs) = set xs"
  by (induction xs) auto

lemma length_isort [simp]: "length (isort lt xs) = length xs"
  by (metis mset_isort size_mset)

lemma isort_Nil_iff [simp]: "isort lt xs = [] \<longleftrightarrow> xs = []"
  by (metis length_0_conv length_isort)

lemma distinct_isort [simp]: "distinct (isort lt xs) = distinct xs"
  by (metis mset_isort mset_eq_imp_distinct_iff)

lemma distinct_map_isort: "distinct (map f (isort lt xs)) = distinct (map f xs)"
  by (metis mset_isort mset_map mset_eq_imp_distinct_iff)

definition strict_weak :: "('a \<Rightarrow> 'a \<Rightarrow> bool) \<Rightarrow> bool" where
  "strict_weak lt \<longleftrightarrow> (\<forall>x y. lt x y \<longrightarrow> \<not> lt y x) \<and> (\<forall>x y z. \<not> lt y x \<longrightarrow> \<not> lt z y \<longrightarrow> \<not> lt z x)"

lemma strict_weak_asym: "strict_weak lt \<Longrightarrow> lt x y \<Longrightarrow> \<not> lt y x"
  unfolding strict_weak_def by blast

lemma strict_weak_trans: "strict_weak lt \<Longrightarrow> \<not> lt y x \<Longrightarrow> \<not> lt z y \<Longrightarrow> \<not> lt z x"
  unfolding strict_weak_def by blast

lemma strict_weak_irrefl: "strict_weak lt \<Longrightarrow> \<not> lt x x"
  unfolding strict_weak_def by blast

lemma sorted_ins_by:
  "strict_weak lt \<Longrightarrow> sorted_wrt (\<lambda>a b. \<not> lt b a) xs \<Longrightarrow> sorted_wrt (\<lambda>a b. \<not> lt b a) (ins_by lt x xs)"
proof (induction xs)
  case Nil
  then show ?case by simp
next
  case (Cons y ys)
  show ?case
  proof (cases "lt y x")
    case True
    then have "\<not> lt x y" by (rule strict_weak_asym [OF Cons.prems(1)])
    with True Cons show ?thesis by simp
  next
    case False
    have "\<not> lt z x" if "z \<in> set (y # ys)" for z
      using that False Cons.prems strict_weak_trans [OF Cons.prems(1), of y x z] by auto
    with False Cons.prems show ?thesis by simp
  qed
qed

lemma sorted_isort: "strict_weak lt \<Longrightarrow> sorted_wrt (\<lambda>a b. \<not> lt b a) (isort lt xs)"
  by (induction xs) (auto intro: sorted_ins_by)

text \<open>
  When the comparator tells any two elements of the input apart, the result depends on the
  multiset of elements only: sorting forgets the input order.
\<close>

lemma sorted_wrt_mset_unique:
  assumes "sorted_wrt (\<lambda>a b. \<not> lt b a) xs" "sorted_wrt (\<lambda>a b. \<not> lt b a) ys" "mset xs = mset ys"
    and tot: "\<And>a b. a \<in> set xs \<Longrightarrow> b \<in> set xs \<Longrightarrow> \<not> lt a b \<Longrightarrow> \<not> lt b a \<Longrightarrow> a = b"
  shows "xs = ys"
  using assms
proof (induction xs arbitrary: ys)
  case Nil
  then show ?case by simp
next
  case (Cons x xs)
  from Cons.prems(3) obtain y ys' where ys: "ys = y # ys'"
    by (cases ys) auto
  have sets: "set (x # xs) = set ys" using Cons.prems(3) by (rule mset_eq_setD)
  have "x = y"
  proof (cases "x = y")
    case True
    then show ?thesis .
  next
    case False
    with sets ys have "x \<in> set ys'" "y \<in> set xs" by auto
    with Cons.prems(1,2) ys have "\<not> lt x y" "\<not> lt y x" by auto
    with \<open>y \<in> set xs\<close> Cons.prems(4) show ?thesis by auto
  qed
  with Cons.prems ys have "mset xs = mset ys'" "sorted_wrt (\<lambda>a b. \<not> lt b a) xs"
    "sorted_wrt (\<lambda>a b. \<not> lt b a) ys'" by auto
  moreover have "\<And>a b. a \<in> set xs \<Longrightarrow> b \<in> set xs \<Longrightarrow> \<not> lt a b \<Longrightarrow> \<not> lt b a \<Longrightarrow> a = b"
    using Cons.prems(4) by simp
  ultimately have "xs = ys'" using Cons.IH by blast
  with \<open>x = y\<close> ys show ?case by simp
qed

lemma isort_mset_unique:
  assumes "strict_weak lt" "mset xs = mset ys"
    and "\<And>a b. a \<in> set xs \<Longrightarrow> b \<in> set xs \<Longrightarrow> \<not> lt a b \<Longrightarrow> \<not> lt b a \<Longrightarrow> a = b"
  shows "isort lt xs = isort lt ys"
  by (rule sorted_wrt_mset_unique [where lt = lt]) (use assms in \<open>auto intro: sorted_isort\<close>)

text \<open>A comparator that compares a key in a linear order is a strict weak order.\<close>

lemma strict_weak_key [intro]: "strict_weak (\<lambda>x y. (f x :: 'b :: linorder) < f y)"
  by (auto simp: strict_weak_def)

lemma isort_sorted_id:
  "sorted_wrt (\<lambda>a b. \<not> lt b a) xs \<Longrightarrow> isort lt xs = xs"
proof (induction xs)
  case (Cons x xs)
  then have "isort lt xs = xs" by simp
  with Cons.prems show ?case by (cases xs) simp_all
qed simp

lemma isort_idem: "strict_weak lt \<Longrightarrow> isort lt (isort lt xs) = isort lt xs"
  by (rule isort_sorted_id) (rule sorted_isort)

lemma hd_isort_min:
  "strict_weak lt \<Longrightarrow> isort lt xs = w # ws \<Longrightarrow> x \<in> set xs \<Longrightarrow> \<not> lt x w"
proof -
  assume sw: "strict_weak lt" and w: "isort lt xs = w # ws" and x: "x \<in> set xs"
  have "x \<in> set (w # ws)" using x set_isort [of lt xs] w by simp
  moreover have "\<not> lt z w" if "z \<in> set ws" for z
    using sorted_isort [OF sw, of xs] w that by simp
  ultimately show ?thesis using strict_weak_irrefl [OF sw] by auto
qed

end
