(* ===== verification/JsText.thy ===== *)
theory JsText
  imports Prelude
begin

section \<open>JavaScript strings\<close>

text \<open>
  Strings are lists of \<open>char\<close>; one \<open>char\<close> stands for one UTF-16 code unit below 256, so
  \<open>length\<close>, slicing, \<open>split\<close> and the regular expressions of the code mean the same
  here.  On this range every string is in Unicode normal form NFC, and its UTF-8 encoding
  takes one byte for a unit below 128 and two above.  The theory has the string operations
  the components share (\<open>startsWith\<close>, \<open>includes\<close>, \<open>split\<close>, \<open>join\<close>, the comparator
  \<open>compareText\<close> that several files repeat) and the anchored character-class regular
  expressions that occur in more than one file.
\<close>

subsection \<open>Characters\<close>

abbreviation code :: "char \<Rightarrow> nat" where
  "code c \<equiv> of_char c"

definition is_digit :: "char \<Rightarrow> bool" where
  "is_digit c \<longleftrightarrow> 48 \<le> code c \<and> code c \<le> 57"

definition is_lower :: "char \<Rightarrow> bool" where
  "is_lower c \<longleftrightarrow> 97 \<le> code c \<and> code c \<le> 122"

definition is_upper :: "char \<Rightarrow> bool" where
  "is_upper c \<longleftrightarrow> 65 \<le> code c \<and> code c \<le> 90"

definition is_alnum :: "char \<Rightarrow> bool" where
  "is_alnum c \<longleftrightarrow> is_digit c \<or> is_lower c \<or> is_upper c"

definition is_hex :: "char \<Rightarrow> bool" where
  "is_hex c \<longleftrightarrow> is_digit c \<or> (97 \<le> code c \<and> code c \<le> 102)"

text \<open>Control characters, \<open>[\u0000-\u001f\u007f]\<close>.\<close>

definition is_control :: "char \<Rightarrow> bool" where
  "is_control c \<longleftrightarrow> code c < 32 \<or> code c = 127"

text \<open>The case folding of a regular expression with flag \<open>i\<close> on an ASCII pattern.\<close>

definition lower_c :: "char \<Rightarrow> char" where
  "lower_c c = (if is_upper c then char_of (code c + 32) else c)"

text \<open>\<open>toLocaleLowerCase('en-US')\<close> on code units below 256: also the accented capitals.\<close>

definition locale_lower_c :: "char \<Rightarrow> char" where
  "locale_lower_c c =
     (if is_upper c \<or> (192 \<le> code c \<and> code c \<le> 222 \<and> code c \<noteq> 215)
      then char_of (code c + 32) else c)"

definition locale_lower :: "string \<Rightarrow> string" where
  "locale_lower s = map locale_lower_c s"

subsection \<open>String operations\<close>

fun starts_with :: "string \<Rightarrow> string \<Rightarrow> bool" where
  "starts_with [] s = True"
| "starts_with (p # ps) [] = False"
| "starts_with (p # ps) (c # cs) = (p = c \<and> starts_with ps cs)"

lemma starts_with_iff: "starts_with p s \<longleftrightarrow> (\<exists>r. s = p @ r)"
  by (induction p s rule: starts_with.induct) auto

lemma starts_with_append [simp]: "starts_with p (p @ r)"
  by (auto simp: starts_with_iff)

definition ends_with :: "string \<Rightarrow> string \<Rightarrow> bool" where
  "ends_with p s = starts_with (rev p) (rev s)"

lemma ends_with_iff: "ends_with p s \<longleftrightarrow> (\<exists>r. s = r @ p)"
proof -
  have "rev s = rev p @ r \<longleftrightarrow> s = rev r @ p" for r
    by (metis rev_append rev_rev_ident)
  then show ?thesis
    by (auto simp: ends_with_def starts_with_iff intro: exI [of _ "rev _"])
qed

fun includes_text :: "string \<Rightarrow> string \<Rightarrow> bool" where
  "includes_text p [] = (p = [])"
| "includes_text p (c # cs) = (starts_with p (c # cs) \<or> includes_text p cs)"

lemma includes_text_iff: "includes_text p s \<longleftrightarrow> (\<exists>u v. s = u @ p @ v)"
proof (induction s)
  case Nil
  then show ?case by auto
next
  case (Cons c cs)
  have "(\<exists>u v. c # cs = u @ p @ v) \<longleftrightarrow> (\<exists>v. c # cs = p @ v) \<or> (\<exists>u v. cs = u @ p @ v)"
    by (auto simp: Cons_eq_append_conv)
  with Cons show ?case by (simp add: starts_with_iff)
qed

fun split_on :: "char \<Rightarrow> string \<Rightarrow> string list" where
  "split_on d [] = [[]]"
| "split_on d (c # cs) =
     (if c = d then [] # split_on d cs
      else (case split_on d cs of [] \<Rightarrow> [[c]] | w # ws \<Rightarrow> (c # w) # ws))"

fun join_with :: "string \<Rightarrow> string list \<Rightarrow> string" where
  "join_with d [] = []"
| "join_with d [w] = w"
| "join_with d (w # v # ws) = w @ d @ join_with d (v # ws)"

lemma split_on_ne [simp]: "split_on d s \<noteq> []"
  by (induction s) (auto split: list.splits)

lemma join_split [simp]: "join_with [d] (split_on d s) = s"
proof (induction s)
  case Nil
  then show ?case by simp
next
  case (Cons c cs)
  obtain w ws where w: "split_on d cs = w # ws" by (cases "split_on d cs") auto
  with Cons show ?case by (cases ws) auto
qed

lemma split_on_no_sep: "w \<in> set (split_on d s) \<Longrightarrow> d \<notin> set w"
proof (induction s arbitrary: w)
  case Nil
  then show ?case by simp
next
  case (Cons c cs)
  obtain v vs where "split_on d cs = v # vs" by (cases "split_on d cs") auto
  with Cons show ?case by (auto split: if_splits)
qed

lemma split_on_append_sep:
  "d \<notin> set w \<Longrightarrow> split_on d (w @ d # r) = w # split_on d r"
  by (induction w) auto

lemma split_on_nosep: "d \<notin> set w \<Longrightarrow> split_on d w = [w]"
  by (induction w) auto

lemma split_join:
  "ws \<noteq> [] \<Longrightarrow> \<forall>w \<in> set ws. d \<notin> set w \<Longrightarrow> split_on d (join_with [d] ws) = ws"
proof (induction ws)
  case Nil
  then show ?case by simp
next
  case (Cons w ws)
  then show ?case by (cases ws) (auto simp: split_on_nosep split_on_append_sep)
qed

text \<open>\<open>Buffer.byteLength(s, 'utf8')\<close>.\<close>

fun utf8_length :: "string \<Rightarrow> nat" where
  "utf8_length [] = 0"
| "utf8_length (c # cs) = (if code c < 128 then 1 else 2) + utf8_length cs"

lemma utf8_length_ge: "length s \<le> utf8_length s"
  by (induction s) auto

lemma utf8_length_append [simp]: "utf8_length (s @ t) = utf8_length s + utf8_length t"
  by (induction s) auto

text \<open>\<open>String(n)\<close> for an integer.\<close>

definition digit_char :: "nat \<Rightarrow> char" where
  "digit_char d = char_of (48 + d)"

fun show_nat :: "nat \<Rightarrow> string" where
  "show_nat n = (if n < 10 then [digit_char n] else show_nat (n div 10) @ [digit_char (n mod 10)])"

declare show_nat.simps [simp del]

definition show_int :: "int \<Rightarrow> string" where
  "show_int i = (if i < 0 then CHR ''-'' # show_nat (nat (- i)) else show_nat (nat i))"

text \<open>The value of a run of decimal digits, most significant first.\<close>

definition digit_val :: "char \<Rightarrow> nat" where
  "digit_val c = code c - 48"

definition nat_of_digits :: "string \<Rightarrow> nat" where
  "nat_of_digits s = foldl (\<lambda>n c. 10 * n + digit_val c) 0 s"

lemma digit_char_props:
  assumes "d < 10"
  shows "is_digit (digit_char d)" "digit_val (digit_char d) = d"
  using assms by (simp_all add: digit_char_def is_digit_def digit_val_def)

lemma show_nat_digits: "list_all is_digit (show_nat n)"
proof (induction n rule: show_nat.induct)
  case (1 n)
  then show ?case by (subst show_nat.simps) (simp add: digit_char_props)
qed

lemma show_nat_ne [simp]: "show_nat n \<noteq> []"
  by (subst show_nat.simps) simp

lemma nat_of_show_nat [simp]: "nat_of_digits (show_nat n) = n"
proof (induction n rule: show_nat.induct)
  case (1 n)
  then show ?case
    by (subst show_nat.simps) (simp add: nat_of_digits_def digit_char_props)
qed

lemma show_nat_inj: "show_nat m = show_nat n \<Longrightarrow> m = n"
  by (metis nat_of_show_nat)

subsection \<open>The comparator \<open>compareText\<close>\<close>

text \<open>\<open>left < right\<close> on strings: lexicographic by code unit.\<close>

fun text_lt :: "string \<Rightarrow> string \<Rightarrow> bool" where
  "text_lt s [] = False"
| "text_lt [] (d # ds) = True"
| "text_lt (c # cs) (d # ds) =
     (code c < code d \<or> (c = d \<and> text_lt cs ds))"

lemma text_lt_irrefl [simp]: "\<not> text_lt s s"
  by (induction s) auto

lemma text_lt_trans: "text_lt s t \<Longrightarrow> text_lt t u \<Longrightarrow> text_lt s u"
proof (induction s t arbitrary: u rule: text_lt.induct)
  case (2 d ds)
  then show ?case by (cases u) auto
next
  case (3 c cs d ds)
  then show ?case by (cases u) auto
qed simp

lemma text_lt_asym: "text_lt s t \<Longrightarrow> \<not> text_lt t s"
  using text_lt_trans text_lt_irrefl by blast

lemma text_lt_total: "text_lt s t \<or> s = t \<or> text_lt t s"
proof (induction s t rule: text_lt.induct)
  case (1 s)
  then show ?case by (cases s) auto
next
  case (3 c cs d ds)
  then show ?case by (metis linorder_neqE of_char_eq_iff text_lt.simps(3))
qed simp

lemma strict_weak_text_lt: "strict_weak (\<lambda>x y. text_lt (f x) (f y))"
  unfolding strict_weak_def using text_lt_asym text_lt_trans text_lt_total by metis

text \<open>Records with different keys, sorted by their key.\<close>

lemma sorted_isort_key:
  assumes "distinct (map f xs)"
  shows "sorted_wrt (\<lambda>a b. text_lt (f a) (f b)) (isort (\<lambda>a b. text_lt (f a) (f b)) xs)"
proof -
  let ?lt = "\<lambda>a b. text_lt (f a) (f b)"
  have s: "sorted_wrt (\<lambda>a b. \<not> ?lt b a) (isort ?lt xs)" by (rule sorted_isort) (rule strict_weak_text_lt)
  have "distinct (map f (isort ?lt xs))" using assms by (simp add: distinct_map_isort)
  then have "f (isort ?lt xs ! i) \<noteq> f (isort ?lt xs ! j)" if "i < j" "j < length (isort ?lt xs)" for i j
    using that by (auto simp: distinct_conv_nth)
  with s show ?thesis unfolding sorted_wrt_iff_nth_less using text_lt_total by metis
qed

text \<open>\<open>xs.sort(compareText)\<close>.\<close>

definition sort_text :: "string list \<Rightarrow> string list" where
  "sort_text xs = isort text_lt xs"

lemma sort_text_perm: "mset xs = mset ys \<Longrightarrow> sort_text xs = sort_text ys"
  unfolding sort_text_def using strict_weak_text_lt [of id] text_lt_total
  by (intro isort_mset_unique) auto

lemma set_sort_text [simp]: "set (sort_text xs) = set xs"
  by (simp add: sort_text_def)

lemma distinct_sort_text [simp]: "distinct (sort_text xs) = distinct xs"
  by (simp add: sort_text_def)

lemma sort_text_idem [simp]: "sort_text (sort_text xs) = sort_text xs"
  unfolding sort_text_def using strict_weak_text_lt [of id] by (intro isort_idem) simp

text \<open>
  \<open>left.localeCompare(right)\<close> in the root collation, on the alphabet \<open>[a-z0-9._-]\<close> of the
  names the code compares with it (rule ids and signal codes): every character of that
  alphabet has its own primary weight, the order being \<open>_\<close>, \<open>-\<close>, \<open>.\<close>, digits, letters.
\<close>

definition collation_weight :: "char \<Rightarrow> nat" where
  "collation_weight c =
     (if code c = 95 then 0 else if code c = 45 then 1 else if code c = 46 then 2
      else if is_digit c then code c - 45 else if is_lower c then code c - 84 else 256 + code c)"

definition locale_lt :: "string \<Rightarrow> string \<Rightarrow> bool" where
  "locale_lt s t = text_lt (map (char_of \<circ> collation_weight) s) (map (char_of \<circ> collation_weight) t)"

lemma strict_weak_locale_lt: "strict_weak (\<lambda>x y. locale_lt (f x) (f y))"
  unfolding locale_lt_def by (rule strict_weak_text_lt)

subsection \<open>Regular expressions shared by several files\<close>

text \<open>\<open>/^[first][rest]{0,n}$/\<close>.\<close>

definition head_class :: "(char \<Rightarrow> bool) \<Rightarrow> (char \<Rightarrow> bool) \<Rightarrow> string \<Rightarrow> bool" where
  "head_class f r s = (case s of [] \<Rightarrow> False | c # cs \<Rightarrow> f c \<and> list_all r cs)"

definition is_identifier :: "string \<Rightarrow> bool" where
  "is_identifier s \<longleftrightarrow>
     head_class is_alnum (\<lambda>c. is_alnum c \<or> c \<in> set ''._:@/-'') s \<and> length s \<le> 256"

definition is_reason_code :: "string \<Rightarrow> bool" where
  "is_reason_code s \<longleftrightarrow>
     head_class is_alnum (\<lambda>c. is_alnum c \<or> c \<in> set ''._:-'') s \<and> length s \<le> 256"

definition is_hash :: "string \<Rightarrow> bool" where
  "is_hash s \<longleftrightarrow> length s = 64 \<and> list_all is_hex s"

definition is_digest :: "string \<Rightarrow> bool" where
  "is_digest s \<longleftrightarrow> starts_with ''sha256:'' s \<and> is_hash (drop 7 s)"

text \<open>\<open>[a-z0-9][a-z0-9._-]*\<close>, the shape of rule ids and package name parts.\<close>

definition is_slug :: "string \<Rightarrow> bool" where
  "is_slug s = head_class (\<lambda>c. is_lower c \<or> is_digit c)
                 (\<lambda>c. is_lower c \<or> is_digit c \<or> c \<in> set ''._-'') s"

text \<open>\<open>/^(?:@slug\/)?slug$/\<close>, an npm package name.\<close>

definition is_package_name :: "string \<Rightarrow> bool" where
  "is_package_name s =
     (case s of
        [] \<Rightarrow> False
      | c # cs \<Rightarrow>
          if c = CHR ''@'' then
            (case split_on (CHR ''/'') cs of [a, b] \<Rightarrow> is_slug a \<and> is_slug b | _ \<Rightarrow> False)
          else is_slug s)"

text \<open>A pattern \<open>/(?:w1|w2|...)/i\<close> searched anywhere; the words are lower case.\<close>

definition contains_word_ci :: "string list \<Rightarrow> string \<Rightarrow> bool" where
  "contains_word_ci ws s = list_ex (\<lambda>w. includes_text w (map lower_c s)) ws"

text \<open>
  \<open>/(?:api[_-]?key|authorization|cookie|credential|password|private[_-]?key|secret|token)/i\<close>
\<close>

definition secret_words :: "string list" where
  "secret_words =
     [''apikey'', ''api_key'', ''api-key'', ''authorization'', ''cookie'', ''credential'',
      ''password'', ''privatekey'', ''private_key'', ''private-key'', ''secret'', ''token'']"

text \<open>
  \<open>/^\d+\.\d+\.\d+(?:-[0-9A-Za-z.-]+)?(?:\+[0-9A-Za-z.-]+)?$/\<close>; the classes make each
  greedy step the only possible one.
\<close>

definition take_digits :: "string \<Rightarrow> string option" where
  "take_digits s =
     (if takeWhile is_digit s = [] then None else Some (dropWhile is_digit s))"

definition drop_dot :: "string \<Rightarrow> string option" where
  "drop_dot s = (case s of c # cs \<Rightarrow> if c = CHR ''.'' then Some cs else None | [] \<Rightarrow> None)"

definition version_core_rest :: "string \<Rightarrow> string option" where
  "version_core_rest s =
     Option.bind (take_digits s) (\<lambda>a. Option.bind (drop_dot a) (\<lambda>b.
     Option.bind (take_digits b) (\<lambda>c. Option.bind (drop_dot c) take_digits)))"

definition is_tail_char :: "char \<Rightarrow> bool" where
  "is_tail_char c \<longleftrightarrow> is_alnum c \<or> c = CHR ''.'' \<or> c = CHR ''-''"

definition version_tail :: "char \<Rightarrow> string \<Rightarrow> string option" where
  "version_tail m s =
     (case s of
        [] \<Rightarrow> Some []
      | c # cs \<Rightarrow>
          if c = m then
            (if takeWhile is_tail_char cs = [] then None else Some (dropWhile is_tail_char cs))
          else Some s)"

definition is_exact_version :: "string \<Rightarrow> bool" where
  "is_exact_version s =
     (Option.bind (version_core_rest s) (\<lambda>r.
      Option.bind (version_tail (CHR ''-'') r) (version_tail (CHR ''+''))) = Some [])"

lemma is_hash_length: "is_hash s \<Longrightarrow> length s = 64"
  by (simp add: is_hash_def)

lemma is_identifier_ne: "is_identifier s \<Longrightarrow> s \<noteq> []"
  by (auto simp: is_identifier_def head_class_def)

lemma is_digest_intro: "is_hash h \<Longrightarrow> is_digest (''sha256:'' @ h)"
  by (simp add: is_digest_def)

subsection \<open>The collation tells slugs apart\<close>

definition slug_char :: "char \<Rightarrow> bool" where
  "slug_char c \<longleftrightarrow> is_lower c \<or> is_digit c \<or> c \<in> set ''._-''"

lemma is_slug_chars: "is_slug s \<Longrightarrow> list_all slug_char s"
  by (auto simp: is_slug_def head_class_def slug_char_def list_all_iff split: list.splits)

lemma code_eq_char: "code c = n \<Longrightarrow> c = char_of n"
  by auto

lemma slug_char_code:
  "slug_char c \<Longrightarrow> code c = 95 \<or> code c = 45 \<or> code c = 46 \<or> (48 \<le> code c \<and> code c \<le> 57)
     \<or> (97 \<le> code c \<and> code c \<le> 122)"
  by (auto simp: slug_char_def is_lower_def is_digit_def)

lemma collation_weight_code:
  "slug_char c \<Longrightarrow> (code c = 95 \<and> collation_weight c = 0) \<or> (code c = 45 \<and> collation_weight c = 1)
     \<or> (code c = 46 \<and> collation_weight c = 2)
     \<or> (48 \<le> code c \<and> code c \<le> 57 \<and> collation_weight c + 45 = code c)
     \<or> (97 \<le> code c \<and> code c \<le> 122 \<and> collation_weight c + 84 = code c)"
  using slug_char_code [of c] by (auto simp: collation_weight_def is_digit_def is_lower_def)

lemma collation_weight_inj:
  assumes "slug_char c" "slug_char d" "collation_weight c = collation_weight d"
  shows "c = d"
proof -
  have "code c = code d"
    using collation_weight_code [OF assms(1)] collation_weight_code [OF assms(2)] assms(3) by linarith
  then show ?thesis by simp
qed

lemma collation_weight_bound: "slug_char c \<Longrightarrow> collation_weight c < 256"
  using collation_weight_code [of c] by linarith

lemma collation_map_inj:
  "list_all slug_char s \<Longrightarrow> list_all slug_char t \<Longrightarrow>
   map (char_of \<circ> collation_weight) s = map (char_of \<circ> collation_weight) t \<Longrightarrow> s = t"
proof (induction s arbitrary: t)
  case (Cons c s)
  then obtain d t' where t: "t = d # t'" by (cases t) auto
  with Cons.prems have "code (char_of (collation_weight c)) = code (char_of (collation_weight d))" by simp
  with Cons.prems t have "collation_weight c = collation_weight d"
    using collation_weight_bound [of c] collation_weight_bound [of d] by simp
  with Cons t show ?case using collation_weight_inj by auto
qed simp

lemma locale_lt_total:
  "list_all slug_char s \<Longrightarrow> list_all slug_char t \<Longrightarrow> \<not> locale_lt s t \<Longrightarrow> \<not> locale_lt t s \<Longrightarrow> s = t"
  unfolding locale_lt_def using text_lt_total collation_map_inj by blast

end
