(* ===== verification/JsValue.thy ===== *)
theory JsValue
  imports JsText
begin

section \<open>JavaScript values and canonical JSON\<close>

text \<open>
  \<open>jsval\<close> is a JavaScript value without cycles: what \<open>unknown\<close> ranges over in the code.
  An object is the list of its own enumerable properties in the order
  \<open>Object.entries\<close> gives them, with distinct keys.  Numbers are split by what
  \<open>String(n)\<close> prints: \<open>NInt\<close> is an integer printed in plain decimal digits, \<open>NDec t\<close> any
  other finite number, identified with the text \<open>t\<close> that ECMAScript prints for it, and
  \<open>NNonFinite\<close> is NaN or an infinity.

  Models src/audit/canonical-json.ts: \<open>sortValue\<close> and \<open>canonicalJson\<close>, with the parts of
  \<open>JSON.stringify\<close> they use.  \<open>JSON.stringify\<close> raises on a bigint; \<open>canonicalJson\<close> here
  is meant for values that hold none (\<open>serialisable\<close>), which is what its callers pass
  (the redaction replaces bigints, and \<open>validateJsonValue\<close> rejects them).
\<close>

datatype jnum = NInt int | NDec string | NNonFinite

datatype jsval =
    JUndef
  | JNull
  | JBool bool
  | JNum jnum
  | JBig int
  | JOther string
  | JStr string
  | JArr "jsval list"
  | JObj "(string \<times> jsval) list"

abbreviation JInt :: "int \<Rightarrow> jsval" where
  "JInt i \<equiv> JNum (NInt i)"

subsection \<open>Property order\<close>

text \<open>
  Own properties whose key is an array index (a canonical decimal below 2^32 - 1) come
  first in numeric order, the others follow in insertion order.
\<close>

definition array_index :: "string \<Rightarrow> nat option" where
  "array_index k =
     (if k \<noteq> [] \<and> list_all is_digit k \<and> (hd k \<noteq> CHR ''0'' \<or> k = ''0'') \<and> nat_of_digits k < 4294967295
      then Some (nat_of_digits k) else None)"

definition is_index_key :: "string \<times> 'a \<Rightarrow> bool" where
  "is_index_key p \<longleftrightarrow> array_index (fst p) \<noteq> None"

definition index_lt :: "string \<times> 'a \<Rightarrow> string \<times> 'a \<Rightarrow> bool" where
  "index_lt p q \<longleftrightarrow> the (array_index (fst p)) < the (array_index (fst q))"

definition own_order :: "(string \<times> 'a) list \<Rightarrow> (string \<times> 'a) list" where
  "own_order kvs = isort index_lt (filter is_index_key kvs) @ filter (\<lambda>p. \<not> is_index_key p) kvs"

lemma set_own_order [simp]: "set (own_order kvs) = set kvs"
  by (auto simp: own_order_def)

lemma mset_own_order [simp]: "mset (own_order kvs) = mset kvs"
  by (simp add: own_order_def)

subsection \<open>\<open>sortValue\<close> and \<open>canonicalJson\<close>\<close>

definition key_lt :: "string \<times> 'a \<Rightarrow> string \<times> 'a \<Rightarrow> bool" where
  "key_lt p q = text_lt (fst p) (fst q)"

lemma strict_weak_key_lt [simp]: "strict_weak key_lt"
  unfolding key_lt_def by (rule strict_weak_text_lt)

lemma size_kv_less [termination_simp]:
  "(k, v) \<in> set kvs \<Longrightarrow> size v < Suc (size_list (size_prod (\<lambda>_. 0) size) kvs)"
  by (induction kvs) auto

function sortValue :: "jsval \<Rightarrow> jsval" where
  "sortValue (JArr xs) = JArr (map sortValue xs)"
| "sortValue (JObj kvs) =
     JObj (own_order (map (\<lambda>(k, v). (k, sortValue v)) (isort key_lt kvs)))"
| "sortValue JUndef = JUndef"
| "sortValue JNull = JNull"
| "sortValue (JBool b) = JBool b"
| "sortValue (JNum n) = JNum n"
| "sortValue (JBig i) = JBig i"
| "sortValue (JOther t) = JOther t"
| "sortValue (JStr s) = JStr s"
  by pat_completeness auto
termination
  by (relation "measure size") (auto simp: size_kv_less less_Suc_eq_le size_list_estimation')

text \<open>\<open>JSON.stringify\<close> of strings: the short escapes, and \<open>\u00xx\<close> for other controls.\<close>

definition hex_digit :: "nat \<Rightarrow> char" where
  "hex_digit d = (if d < 10 then char_of (48 + d) else char_of (87 + d))"

definition escape_char :: "char \<Rightarrow> string" where
  "escape_char c =
     (if c = CHR 0x22 then [CHR 0x5C, CHR 0x22]
      else if c = CHR 0x5C then [CHR 0x5C, CHR 0x5C]
      else if code c = 8 then [CHR 0x5C, CHR ''b'']
      else if code c = 9 then [CHR 0x5C, CHR ''t'']
      else if code c = 10 then [CHR 0x5C, CHR ''n'']
      else if code c = 12 then [CHR 0x5C, CHR ''f'']
      else if code c = 13 then [CHR 0x5C, CHR ''r'']
      else if code c < 32 then
        [CHR 0x5C, CHR ''u'', CHR ''0'', CHR ''0'', hex_digit (code c div 16), hex_digit (code c mod 16)]
      else [c])"

definition quote :: "string \<Rightarrow> string" where
  "quote s = CHR 0x22 # concat (map escape_char s) @ [CHR 0x22]"

fun show_num :: "jnum \<Rightarrow> string" where
  "show_num (NInt i) = show_int i"
| "show_num (NDec t) = t"
| "show_num NNonFinite = ''null''"

text \<open>\<open>None\<close>: \<open>JSON.stringify\<close> gives undefined, and the property holding it is left out.\<close>

function json_text :: "jsval \<Rightarrow> string option" where
  "json_text JUndef = None"
| "json_text JNull = Some ''null''"
| "json_text (JBool b) = Some (if b then ''true'' else ''false'')"
| "json_text (JNum n) = Some (show_num n)"
| "json_text (JBig i) = None"
| "json_text (JOther t) = None"
| "json_text (JStr s) = Some (quote s)"
| "json_text (JArr xs) =
     Some (''['' @ join_with '','' (map (\<lambda>x. case json_text x of None \<Rightarrow> ''null'' | Some t \<Rightarrow> t) xs) @ '']'')"
| "json_text (JObj kvs) =
     Some (''{'' @ join_with '','' (concat (map
        (\<lambda>(k, v). case json_text v of None \<Rightarrow> [] | Some t \<Rightarrow> [quote k @ '':'' @ t]) kvs)) @ ''}'')"
  by pat_completeness auto
termination
  by (relation "measure size") (auto simp: size_kv_less less_Suc_eq_le size_list_estimation')

definition canonicalJson :: "jsval \<Rightarrow> string" where
  "canonicalJson v = (case json_text (sortValue v) of None \<Rightarrow> ''null'' | Some t \<Rightarrow> t)"

fun serialisable :: "jsval \<Rightarrow> bool" where
  "serialisable (JBig i) = False"
| "serialisable (JArr xs) = list_all serialisable xs"
| "serialisable (JObj kvs) = list_all (\<lambda>(k, v). serialisable v) kvs"
| "serialisable _ = True"

subsection \<open>The text does not depend on the order of properties\<close>

text \<open>
  Two values are the same data when they differ in the order of object properties only.
\<close>

inductive same_data :: "jsval \<Rightarrow> jsval \<Rightarrow> bool" where
  same_atom: "same_data v v"
| same_arr: "list_all2 same_data xs ys \<Longrightarrow> same_data (JArr xs) (JArr ys)"
| same_obj: "distinct (map fst kvs) \<Longrightarrow>
     list_all2 (\<lambda>p q. fst p = fst q \<and> same_data (snd p) (snd q)) kvs kvs' \<Longrightarrow>
     mset kvs' = mset kvs'' \<Longrightarrow> same_data (JObj kvs) (JObj kvs'')"

definition sort_snd :: "string \<times> jsval \<Rightarrow> string \<times> jsval" where
  "sort_snd p = (fst p, sortValue (snd p))"

lemma sortValue_obj: "sortValue (JObj kvs) = JObj (own_order (map sort_snd (isort key_lt kvs)))"
  by (simp add: sort_snd_def [abs_def] case_prod_beta')

lemma ins_by_map_snd: "map sort_snd (ins_by key_lt p kvs) = ins_by key_lt (sort_snd p) (map sort_snd kvs)"
  by (induction kvs) (auto simp: key_lt_def sort_snd_def)

lemma isort_map_snd: "map sort_snd (isort key_lt kvs) = isort key_lt (map sort_snd kvs)"
  by (induction kvs) (auto simp: ins_by_map_snd)

lemma distinct_keys_eq:
  "distinct (map fst kvs) \<Longrightarrow> p \<in> set kvs \<Longrightarrow> q \<in> set kvs \<Longrightarrow> fst p = fst q \<Longrightarrow> p = q"
  by (auto simp: distinct_map dest: inj_onD)

lemma isort_key_unique:
  assumes "distinct (map fst kvs)" "mset kvs = mset kvs'"
  shows "isort key_lt kvs = isort key_lt kvs'"
proof (rule isort_mset_unique [OF strict_weak_key_lt assms(2)])
  fix p q assume "p \<in> set kvs" "q \<in> set kvs" "\<not> key_lt p q" "\<not> key_lt q p"
  then show "p = q"
    using distinct_keys_eq [OF assms(1)] text_lt_total [of "fst p" "fst q"]
    by (auto simp: key_lt_def)
qed

lemma map_fst_sort_snd [simp]: "map fst (map sort_snd kvs) = map fst kvs"
  by (simp add: sort_snd_def)

lemma same_data_sortValue: "same_data v w \<Longrightarrow> sortValue v = sortValue w"
proof (induction rule: same_data.induct)
  case (same_atom v)
  show ?case ..
next
  case (same_arr xs ys)
  then have "map sortValue xs = map sortValue ys"
    by (induction rule: list_all2_induct) auto
  then show ?case by simp
next
  case (same_obj kvs kvs' kvs'')
  from same_obj.IH have eq: "map sort_snd kvs = map sort_snd kvs'"
    by (induction rule: list_all2_induct) (auto simp: sort_snd_def)
  have m: "mset (map sort_snd kvs) = mset (map sort_snd kvs'')"
    unfolding eq using same_obj.hyps(2) by simp
  have d: "distinct (map fst (map sort_snd kvs))"
    using same_obj.hyps(1) by (simp only: map_fst_sort_snd)
  show ?case
    unfolding sortValue_obj isort_map_snd using isort_key_unique [OF d m] by simp
qed

lemma same_data_canonicalJson: "same_data v w \<Longrightarrow> canonicalJson v = canonicalJson w"
  by (simp add: canonicalJson_def same_data_sortValue)

text \<open>\<open>sortValue\<close> only reorders: every property stays, and keys stay distinct.\<close>

lemma distinct_own_order [simp]: "distinct (map fst (own_order kvs)) = distinct (map fst kvs)"
proof -
  have "mset (map fst (own_order kvs)) = mset (map fst kvs)"
    by (metis mset_map mset_own_order)
  then show ?thesis by (rule mset_eq_imp_distinct_iff)
qed

lemma distinct_fst_isort [simp]: "distinct (map fst (isort lt kvs)) = distinct (map fst kvs)"
proof -
  have "mset (map fst (isort lt kvs)) = mset (map fst kvs)"
    by (metis mset_map mset_isort)
  then show ?thesis by (rule mset_eq_imp_distinct_iff)
qed

lemma own_order_idem [simp]: "own_order (own_order kvs) = own_order kvs"
proof -
  have sw: "strict_weak (index_lt :: string \<times> 'a \<Rightarrow> _)"
    unfolding index_lt_def by (rule strict_weak_key)
  have a: "filter is_index_key (isort index_lt (filter is_index_key kvs)) = isort index_lt (filter is_index_key kvs)"
    by (rule filter_True) simp
  have b: "filter (\<lambda>p. \<not> is_index_key p) (isort index_lt (filter is_index_key kvs)) = []"
    by (rule filter_False) simp
  have c: "filter is_index_key (filter (\<lambda>p. \<not> is_index_key p) kvs) = []"
    by simp
  show ?thesis
    by (simp add: own_order_def a b c isort_idem [OF sw])
qed

subsection \<open>Property access\<close>

text \<open>
  \<open>own_prop\<close> is \<open>o[k]\<close> for an own property, undefined when there is none; \<open>at\<close> is the
  same on any value (\<open>v?.k\<close>).
\<close>

definition own_prop :: "(string \<times> jsval) list \<Rightarrow> string \<Rightarrow> jsval" where
  "own_prop kvs k = (case map_of kvs k of None \<Rightarrow> JUndef | Some v \<Rightarrow> v)"

definition only_keys :: "string list \<Rightarrow> (string \<times> jsval) list \<Rightarrow> bool" where
  "only_keys ks kvs \<longleftrightarrow> list_all (\<lambda>p. fst p \<in> set ks) kvs"

definition at :: "jsval \<Rightarrow> string \<Rightarrow> jsval" where
  "at v k = (case v of JObj kvs \<Rightarrow> own_prop kvs k | _ \<Rightarrow> JUndef)"

lemma at_obj [simp]: "at (JObj kvs) k = own_prop kvs k"
  by (simp add: at_def)

lemma own_prop_Nil [simp]: "own_prop [] k = JUndef"
  by (simp add: own_prop_def)

lemma own_prop_Cons [simp]: "own_prop ((k', v) # kvs) k = (if k' = k then v else own_prop kvs k)"
  by (simp add: own_prop_def)

lemma own_prop_append: "own_prop (xs @ ys) k = (if k \<in> fst ` set xs then own_prop xs k else own_prop ys k)"
  by (induction xs) fastforce+

lemma own_prop_mset:
  "distinct (map fst kvs) \<Longrightarrow> mset kvs = mset kvs' \<Longrightarrow> own_prop kvs k = own_prop kvs' k"
  by (metis own_prop_def map_of_inject_set mset_map mset_eq_imp_distinct_iff mset_eq_setD)

text \<open>An optional property of an object literal: \<open>...(x === undefined ? {} : { k: x })\<close>.\<close>

definition opt_prop :: "string \<Rightarrow> jsval option \<Rightarrow> (string \<times> jsval) list" where
  "opt_prop k x = (case x of None \<Rightarrow> [] | Some v \<Rightarrow> [(k, v)])"

lemma opt_prop_simps [simp]: "opt_prop k None = []" "opt_prop k (Some v) = [(k, v)]"
  by (simp_all add: opt_prop_def)

definition items :: "jsval \<Rightarrow> jsval list" where
  "items v = (case v of JArr xs \<Rightarrow> xs | _ \<Rightarrow> [])"

lemma items_arr [simp]: "items (JArr xs) = xs"
  by (simp add: items_def)

lemma own_prop_sort_snd: "own_prop (map sort_snd kvs) k = sortValue (own_prop kvs k)"
  by (induction kvs) (auto simp: sort_snd_def)

lemma at_sortValue:
  "(\<And>kvs. v = JObj kvs \<Longrightarrow> distinct (map fst kvs)) \<Longrightarrow> at (sortValue v) k = sortValue (at v k)"
proof (cases v)
  case (JObj kvs)
  assume "\<And>kvs. v = JObj kvs \<Longrightarrow> distinct (map fst kvs)"
  with JObj have d: "distinct (map fst kvs)" by simp
  have "own_prop (own_order (map sort_snd (isort key_lt kvs))) k = own_prop (map sort_snd kvs) k"
  proof (rule own_prop_mset)
    show "distinct (map fst (own_order (map sort_snd (isort key_lt kvs))))" 
      using d by (simp only: distinct_own_order map_fst_sort_snd distinct_fst_isort)
    show "mset (own_order (map sort_snd (isort key_lt kvs))) = mset (map sort_snd kvs)"
      by simp
  qed
  with JObj show ?thesis by (simp only: sortValue_obj at_obj own_prop_sort_snd)
qed (auto simp: at_def)

lemma items_sortValue: "items (sortValue v) = map sortValue (items v)"
  by (cases v) (auto simp: items_def)

lemma sortValue_atom [simp]:
  "sortValue v = JStr s \<longleftrightarrow> v = JStr s"
  "sortValue v = JBool b \<longleftrightarrow> v = JBool b"
  "sortValue v = JNum n \<longleftrightarrow> v = JNum n"
  "sortValue v = JNull \<longleftrightarrow> v = JNull"
  "sortValue v = JUndef \<longleftrightarrow> v = JUndef"
  "JStr s = sortValue v \<longleftrightarrow> v = JStr s"
  by (cases v; auto)+

end
