(* ===== verification/Risk.thy ===== *)
theory Risk
  imports JsValue
begin

section \<open>Risk scoring\<close>

text \<open>
  Models src/risk/scorer.ts and src/risk/types.ts.  \<open>scoreRisk\<close> collects at most one signal
  per code from the policy tags, the tool name, the arguments (at any depth) and the tool's
  annotations, and adds their points to a base.  The declarative reading is \<open>risk_codes\<close>, the
  set of codes a call raises; the score is a function of that set and of the base alone.
\<close>

datatype risk_tag =
    local_read | local_write | destructive | external_side_effect | credential_access
  | privileged_target | broad_target | shell_execution | open_world

datatype signal_source = policy_tag | tool_name | argument_key | argument_value | annotation

record risk_signal =
  sig_code :: risk_tag
  sig_points :: nat
  sig_source :: signal_source
  sig_path :: "string option"

datatype risk_band = low | medium | high | critical

record risk_assessment =
  ra_score :: nat
  ra_band :: risk_band
  ra_signals :: "risk_signal list"

record tool_annotations =
  destructiveHint :: "bool option"
  openWorldHint :: "bool option"

record risk_input =
  ri_toolName :: string
  ri_arguments :: jsval
  ri_policyTags :: "risk_tag list"
  ri_annotations :: "tool_annotations option"

text \<open>\<open>SIGNAL_POINTS\<close>; \<open>local_read\<close> has no entry and is never looked up.\<close>

fun signal_points :: "risk_tag \<Rightarrow> nat" where
  "signal_points local_write = 20"
| "signal_points destructive = 30"
| "signal_points external_side_effect = 25"
| "signal_points credential_access = 25"
| "signal_points privileged_target = 25"
| "signal_points broad_target = 20"
| "signal_points shell_execution = 20"
| "signal_points open_world = 10"
| "signal_points local_read = 0"

fun tag_name :: "risk_tag \<Rightarrow> string" where
  "tag_name local_read = ''local_read''"
| "tag_name local_write = ''local_write''"
| "tag_name destructive = ''destructive''"
| "tag_name external_side_effect = ''external_side_effect''"
| "tag_name credential_access = ''credential_access''"
| "tag_name privileged_target = ''privileged_target''"
| "tag_name broad_target = ''broad_target''"
| "tag_name shell_execution = ''shell_execution''"
| "tag_name open_world = ''open_world''"

text \<open>\<open>/(?:^|[._-])(w1|...)(?:$|[._-])/i\<close>: a word between separators or the ends.\<close>

definition is_word_sep :: "char \<Rightarrow> bool" where
  "is_word_sep c \<longleftrightarrow> c \<in> set ''._-''"

definition word_here :: "string list \<Rightarrow> string \<Rightarrow> bool" where
  "word_here ws s =
     list_ex (\<lambda>w. starts_with w s \<and>
       (case drop (length w) s of [] \<Rightarrow> True | c # _ \<Rightarrow> is_word_sep c)) ws"

fun word_search :: "string list \<Rightarrow> bool \<Rightarrow> string \<Rightarrow> bool" where
  "word_search ws bnd [] = (bnd \<and> word_here ws [])"
| "word_search ws bnd (c # cs) = ((bnd \<and> word_here ws (c # cs)) \<or> word_search ws (is_word_sep c) cs)"

definition name_hits :: "string list \<Rightarrow> string \<Rightarrow> bool" where
  "name_hits ws s = word_search ws True (map lower_c s)"

definition tool_name_patterns :: "(risk_tag \<times> string list) list" where
  "tool_name_patterns =
     [(destructive, [''delete'', ''destroy'', ''drop'', ''erase'', ''remove'']),
      (external_side_effect, [''email'', ''post'', ''publish'', ''push'', ''send'']),
      (shell_execution, [''exec'', ''shell'', ''command'', ''script''])]"

definition credential_words :: "string list" where
  "credential_words =
     [''apikey'', ''api_key'', ''api-key'', ''credential'', ''password'',
      ''privatekey'', ''private_key'', ''private-key'', ''secret'', ''token'']"

definition is_credential_key :: "string \<Rightarrow> bool" where
  "is_credential_key k = contains_word_ci credential_words k"

definition is_privileged_value :: "string \<Rightarrow> bool" where
  "is_privileged_value s \<longleftrightarrow> map lower_c s \<in> set
     [''main'', ''master'', ''prod'', ''production'', ''billing'', ''permission'', ''permissions'',
      ''role'', ''roles'', ''auth'']"

definition is_broad_value :: "string \<Rightarrow> bool" where
  "is_broad_value s \<longleftrightarrow> map lower_c s \<in> set
     [''/'', ''*'', ''all'', ''allusers'', ''all_users'', ''all-users'', ''everyone'']"

type_synonym signals = "(risk_tag, risk_signal) omap"

definition addSignal :: "signals \<Rightarrow> risk_tag \<Rightarrow> nat \<Rightarrow> signal_source \<Rightarrow> string option \<Rightarrow> signals" where
  "addSignal m c pts src path =
     (if c \<in> fst ` set m then m
      else om_set c \<lparr>sig_code = c, sig_points = pts, sig_source = src, sig_path = path\<rparr> m)"

fun inspectArguments :: "jsval \<Rightarrow> string \<Rightarrow> signals \<Rightarrow> signals"
  and inspect_items :: "jsval list \<Rightarrow> nat \<Rightarrow> string \<Rightarrow> signals \<Rightarrow> signals"
  and inspect_props :: "(string \<times> jsval) list \<Rightarrow> string \<Rightarrow> signals \<Rightarrow> signals" where
  "inspectArguments (JArr xs) path m = inspect_items xs 0 path m"
| "inspectArguments (JStr s) path m =
     (let m1 = (if is_privileged_value s
                then addSignal m privileged_target (signal_points privileged_target) argument_value (Some path) else m)
      in if is_broad_value s
         then addSignal m1 broad_target (signal_points broad_target) argument_value (Some path) else m1)"
| "inspectArguments (JObj kvs) path m = inspect_props kvs path m"
| "inspectArguments _ path m = m"
| "inspect_items [] i path m = m"
| "inspect_items (x # xs) i path m =
     inspect_items xs (Suc i) path (inspectArguments x (path @ ''['' @ show_nat i @ '']'') m)"
| "inspect_props [] path m = m"
| "inspect_props ((k, v) # kvs) path m =
     (let p = path @ ''.'' @ k;
          m1 = (if is_credential_key k
                then addSignal m credential_access (signal_points credential_access) argument_key (Some p) else m)
      in inspect_props kvs path (inspectArguments v p m1))"

definition bandForScore :: "nat \<Rightarrow> risk_band" where
  "bandForScore s = (if 80 \<le> s then critical else if 60 \<le> s then high else if 30 \<le> s then medium else low)"

definition add_tags :: "signals \<Rightarrow> risk_tag list \<Rightarrow> signals" where
  "add_tags m ts =
     foldl (\<lambda>m t. if t \<noteq> local_read then addSignal m t (signal_points t) policy_tag None else m) m ts"

definition add_name_hits :: "signals \<Rightarrow> string \<Rightarrow> signals" where
  "add_name_hits m n =
     foldl (\<lambda>m d. if name_hits (snd d) n then addSignal m (fst d) (signal_points (fst d)) tool_name None else m)
       m tool_name_patterns"

definition hint_set :: "(tool_annotations \<Rightarrow> bool option) \<Rightarrow> tool_annotations option \<Rightarrow> bool" where
  "hint_set f a = (case a of None \<Rightarrow> False | Some t \<Rightarrow> f t = Some True)"

definition collect_signals :: "risk_input \<Rightarrow> signals" where
  "collect_signals ri =
     (let m1 = add_tags [] (ri_policyTags ri);
          m2 = add_name_hits m1 (ri_toolName ri);
          m3 = inspectArguments (ri_arguments ri) ''$'' m2;
          m4 = (if hint_set destructiveHint (ri_annotations ri)
                then addSignal m3 destructive (signal_points destructive) annotation None else m3)
      in if hint_set openWorldHint (ri_annotations ri)
         then addSignal m4 open_world (signal_points open_world) annotation None else m4)"

definition base_score :: "risk_input \<Rightarrow> nat" where
  "base_score ri = (if local_read \<in> set (ri_policyTags ri) then 10 else 25)"

definition scoreRisk :: "risk_input \<Rightarrow> risk_assessment" where
  "scoreRisk ri =
     (let ordered = isort (\<lambda>a b. locale_lt (tag_name (sig_code a)) (tag_name (sig_code b)))
                      (map snd (collect_signals ri));
          score = min 100 (base_score ri + sum_list (map sig_points ordered))
      in \<lparr>ra_score = score, ra_band = bandForScore score, ra_signals = ordered\<rparr>)"

subsection \<open>The signal map\<close>

text \<open>Well-formed: one entry per code, each with the code's own points.\<close>

definition signals_ok :: "signals \<Rightarrow> bool" where
  "signals_ok m \<longleftrightarrow> om_wf m \<and>
     (\<forall>(c, s) \<in> set m. sig_code s = c \<and> sig_points s = signal_points c \<and> c \<noteq> local_read)"

abbreviation codes :: "signals \<Rightarrow> risk_tag set" where
  "codes m \<equiv> fst ` set m"

lemma codes_addSignal [simp]: "codes (addSignal m c p s e) = insert c (codes m)"
  by (auto simp: addSignal_def om_set_keys)

lemma signals_ok_addSignal [simp]:
  assumes "signals_ok m" "c \<noteq> local_read" "p = signal_points c"
  shows "signals_ok (addSignal m c p s e)"
proof (cases "c \<in> codes m")
  case False
  then show ?thesis
    using assms by (auto simp: addSignal_def signals_ok_def om_set_fresh)
qed (use assms in \<open>simp add: addSignal_def\<close>)

text \<open>What the arguments of a call raise, without the running state.\<close>

fun arg_codes :: "jsval \<Rightarrow> risk_tag set" where
  "arg_codes (JArr xs) = (\<Union>x \<in> set xs. arg_codes x)"
| "arg_codes (JStr s) =
     (if is_privileged_value s then {privileged_target} else {}) \<union>
     (if is_broad_value s then {broad_target} else {})"
| "arg_codes (JObj kvs) =
     (\<Union>(k, v) \<in> set kvs. (if is_credential_key k then {credential_access} else {}) \<union> arg_codes v)"
| "arg_codes _ = {}"

lemma codes_inspect:
  "codes (inspectArguments v path m) = codes m \<union> arg_codes v"
  "codes (inspect_items xs i path m) = codes m \<union> (\<Union>x \<in> set xs. arg_codes x)"
  "codes (inspect_props kvs path m) =
     codes m \<union> (\<Union>(k, v) \<in> set kvs. (if is_credential_key k then {credential_access} else {}) \<union> arg_codes v)"
  by (induction v path m and xs i path m and kvs path m
      rule: inspectArguments_inspect_items_inspect_props.induct) (auto simp: Let_def)

lemma signals_ok_inspect:
  "signals_ok m \<Longrightarrow> signals_ok (inspectArguments v path m)"
  "signals_ok m \<Longrightarrow> signals_ok (inspect_items xs i path m)"
  "signals_ok m \<Longrightarrow> signals_ok (inspect_props kvs path m)"
  by (induction v path m and xs i path m and kvs path m
      rule: inspectArguments_inspect_items_inspect_props.induct) (auto simp: Let_def)

definition risk_codes :: "risk_input \<Rightarrow> risk_tag set" where
  "risk_codes ri =
     (set (ri_policyTags ri) - {local_read})
     \<union> {c. \<exists>ws. (c, ws) \<in> set tool_name_patterns \<and> name_hits ws (ri_toolName ri)}
     \<union> arg_codes (ri_arguments ri)
     \<union> (if hint_set destructiveHint (ri_annotations ri) then {destructive} else {})
     \<union> (if hint_set openWorldHint (ri_annotations ri) then {open_world} else {})"

lemma codes_add_tags: "codes (add_tags m ts) = codes m \<union> (set ts - {local_read})"
  unfolding add_tags_def by (induction ts arbitrary: m) auto

lemma signals_ok_add_tags: "signals_ok m \<Longrightarrow> signals_ok (add_tags m ts)"
  unfolding add_tags_def by (induction ts arbitrary: m) auto

lemma codes_add_name_hits:
  "codes (add_name_hits m n) = codes m \<union> {c. \<exists>ws. (c, ws) \<in> set tool_name_patterns \<and> name_hits ws n}"
  by (auto simp: add_name_hits_def tool_name_patterns_def)

lemma signals_ok_add_name_hits: "signals_ok m \<Longrightarrow> signals_ok (add_name_hits m n)"
  by (simp add: add_name_hits_def tool_name_patterns_def)

lemma codes_collect: "codes (collect_signals ri) = risk_codes ri"
  by (simp add: collect_signals_def Let_def codes_inspect codes_add_name_hits codes_add_tags
      risk_codes_def Un_assoc Un_insert_right)

lemma signals_ok_collect: "signals_ok (collect_signals ri)"
proof -
  have "signals_ok []" by (simp add: signals_ok_def)
  then show ?thesis
    by (simp add: collect_signals_def Let_def signals_ok_inspect signals_ok_add_name_hits signals_ok_add_tags)
qed

subsection \<open>The score as a function of the set of codes\<close>

lemma signals_sum:
  assumes "signals_ok m"
  shows "sum_list (map (sig_points \<circ> snd) m) = (\<Sum>c \<in> codes m. signal_points c)"
proof -
  have "map (sig_points \<circ> snd) m = map (signal_points \<circ> fst) m"
    using assms by (auto simp: signals_ok_def)
  then have "sum_list (map (sig_points \<circ> snd) m) = sum_list (map signal_points (map fst m))"
    by (simp only: map_map)
  also have "\<dots> = (\<Sum>c \<in> set (map fst m). signal_points c)"
    using assms by (intro sum_list_distinct_conv_sum_set) (simp add: signals_ok_def)
  finally show ?thesis by simp
qed

lemma sum_list_isort: "sum_list (map f (isort lt xs)) = sum_list (map (f :: _ \<Rightarrow> nat) xs)"
proof -
  have "mset (map f (isort lt xs)) = mset (map f xs)" by simp
  then show ?thesis by (metis sum_mset_sum_list)
qed

lemma signal_codes: "signals_ok m \<Longrightarrow> map (sig_code \<circ> snd) m = map fst m"
  by (auto simp: signals_ok_def)

lemma score_eq: "ra_score (scoreRisk ri) = min 100 (base_score ri + (\<Sum>c \<in> risk_codes ri. signal_points c))"
  using signals_sum [OF signals_ok_collect [of ri]]
  by (simp add: scoreRisk_def Let_def sum_list_isort codes_collect)

lemma finite_risk_codes: "finite (risk_codes ri)"
proof -
  have "finite (codes (collect_signals ri))" by simp
  then show ?thesis by (simp add: codes_collect)
qed

text \<open>
  The risk assessment is the declarative one: the signal codes are exactly the codes the
  policy tags, the tool name, the arguments at any depth and the annotations raise, each once;
  the score is the base plus the sum of their points, capped at 100, and the band is read off it.
\<close>

theorem scoreRisk_spec:
  "set (map sig_code (ra_signals (scoreRisk ri))) = risk_codes ri
   \<and> distinct (map sig_code (ra_signals (scoreRisk ri)))
   \<and> ra_score (scoreRisk ri) = min 100 (base_score ri + (\<Sum>c \<in> risk_codes ri. signal_points c))
   \<and> ra_band (scoreRisk ri) = bandForScore (ra_score (scoreRisk ri))"
proof -
  let ?m = "collect_signals ri"
  have ok: "signals_ok ?m" by (rule signals_ok_collect)
  have s: "set (map sig_code (ra_signals (scoreRisk ri))) = codes ?m"
    using arg_cong [OF signal_codes [OF ok], of set] by (simp add: scoreRisk_def Let_def image_comp)
  have "mset (map sig_code (ra_signals (scoreRisk ri))) = mset (map (sig_code \<circ> snd) ?m)"
    by (simp add: scoreRisk_def Let_def image_mset.compositionality)
  then have "distinct (map sig_code (ra_signals (scoreRisk ri))) = distinct (map fst ?m)"
    unfolding signal_codes [OF ok] by (rule mset_eq_imp_distinct_iff)
  then have "distinct (map sig_code (ra_signals (scoreRisk ri)))"
    using ok by (simp add: signals_ok_def)
  moreover have "ra_band (scoreRisk ri) = bandForScore (ra_score (scoreRisk ri))"
    by (simp add: scoreRisk_def Let_def)
  ultimately show ?thesis using s unfolding codes_collect score_eq by blast
qed

lemma score_mono:
  assumes "risk_codes a \<subseteq> risk_codes b" "base_score a \<le> base_score b"
  shows "ra_score (scoreRisk a) \<le> ra_score (scoreRisk b)"
proof -
  have "(\<Sum>c \<in> risk_codes a. signal_points c) \<le> (\<Sum>c \<in> risk_codes b. signal_points c)"
    using assms(1) finite_risk_codes by (intro sum_mono2) auto
  with assms(2) show ?thesis unfolding score_eq by (intro min.mono) auto
qed

text \<open>
  Risk only grows with the evidence: more policy tags, with the local-read discount
  unchanged, never give a lower score, and the score always lies between 10 and 100.
\<close>

theorem scoreRisk_monotone:
  assumes "set ts \<subseteq> set us" "local_read \<in> set ts \<longleftrightarrow> local_read \<in> set us"
  shows "ra_score (scoreRisk (ri\<lparr>ri_policyTags := ts\<rparr>)) \<le> ra_score (scoreRisk (ri\<lparr>ri_policyTags := us\<rparr>))
     \<and> 10 \<le> ra_score (scoreRisk ri) \<and> ra_score (scoreRisk ri) \<le> 100"
proof (intro conjI)
  show "ra_score (scoreRisk (ri\<lparr>ri_policyTags := ts\<rparr>)) \<le> ra_score (scoreRisk (ri\<lparr>ri_policyTags := us\<rparr>))"
    using assms by (intro score_mono) (auto simp: risk_codes_def base_score_def)
qed (simp_all add: score_eq base_score_def)

theorem scoreRisk_monotone_witness:
  "ra_score (scoreRisk (\<lparr>ri_toolName = ''read'', ri_arguments = JNull, ri_policyTags = [], ri_annotations = None\<rparr>
     \<lparr>ri_policyTags := [local_write]\<rparr>))
   \<le> ra_score (scoreRisk (\<lparr>ri_toolName = ''read'', ri_arguments = JNull, ri_policyTags = [], ri_annotations = None\<rparr>
     \<lparr>ri_policyTags := [open_world, local_write]\<rparr>))"
  using scoreRisk_monotone [of "[local_write]" "[open_world, local_write]"
      "\<lparr>ri_toolName = ''read'', ri_arguments = JNull, ri_policyTags = [], ri_annotations = None\<rparr>"]
  by simp

end
