(* ===== verification/Sha256.thy ===== *)
theory Sha256
  imports JsText "HOL-Library.Word"
begin

section \<open>SHA-256\<close>

text \<open>
  \<open>createHash('sha256').update(s).digest('hex')\<close> of node:crypto, as FIPS 180-4 defines it,
  on 32-bit words.  A string is hashed in its UTF-8 encoding.  The components use only that
  the digest is 64 lower-case hexadecimal digits; what they promise about tampering is
  stated as "equal, or here is a collision", so nothing is assumed about the function.
\<close>

unbundle bit_operations_syntax

type_synonym byte = "8 word"
type_synonym u32 = "32 word"

text \<open>The round constants and the initial state, in decimal.\<close>

definition sha_k :: "u32 list" where
  "sha_k = [
     1116352408, 1899447441, 3049323471, 3921009573, 961987163, 1508970993,
     2453635748, 2870763221, 3624381080, 310598401, 607225278, 1426881987,
     1925078388, 2162078206, 2614888103, 3248222580, 3835390401, 4022224774,
     264347078, 604807628, 770255983, 1249150122, 1555081692, 1996064986,
     2554220882, 2821834349, 2952996808, 3210313671, 3336571891, 3584528711,
     113926993, 338241895, 666307205, 773529912, 1294757372, 1396182291,
     1695183700, 1986661051, 2177026350, 2456956037, 2730485921, 2820302411,
     3259730800, 3345764771, 3516065817, 3600352804, 4094571909, 275423344,
     430227734, 506948616, 659060556, 883997877, 958139571, 1322822218,
     1537002063, 1747873779, 1955562222, 2024104815, 2227730452, 2361852424,
     2428436474, 2756734187, 3204031479, 3329325298]"

definition sha_init :: "u32 list" where
  "sha_init = [
     1779033703, 3144134277, 1013904242, 2773480762, 1359893119, 2600822924,
     528734635, 1541459225]"

definition rotr :: "nat \<Rightarrow> u32 \<Rightarrow> u32" where
  "rotr n x = (drop_bit n x) OR (push_bit (32 - n) x)"

definition big_s0 :: "u32 \<Rightarrow> u32" where "big_s0 x = (rotr 2 x) XOR (rotr 13 x) XOR (rotr 22 x)"
definition big_s1 :: "u32 \<Rightarrow> u32" where "big_s1 x = (rotr 6 x) XOR (rotr 11 x) XOR (rotr 25 x)"
definition sml_s0 :: "u32 \<Rightarrow> u32" where "sml_s0 x = (rotr 7 x) XOR (rotr 18 x) XOR (drop_bit 3 x)"
definition sml_s1 :: "u32 \<Rightarrow> u32" where "sml_s1 x = (rotr 17 x) XOR (rotr 19 x) XOR (drop_bit 10 x)"
definition sha_ch :: "u32 \<Rightarrow> u32 \<Rightarrow> u32 \<Rightarrow> u32" where "sha_ch x y z = (x AND y) XOR (NOT x AND z)"
definition sha_maj :: "u32 \<Rightarrow> u32 \<Rightarrow> u32 \<Rightarrow> u32" where
  "sha_maj x y z = (x AND y) XOR (x AND z) XOR (y AND z)"

text \<open>The message schedule, newest word first.\<close>

fun sha_schedule :: "nat \<Rightarrow> u32 list \<Rightarrow> u32 list" where
  "sha_schedule 0 w = w"
| "sha_schedule (Suc n) w =
     sha_schedule n ((sml_s1 (w ! 1) + w ! 6 + sml_s0 (w ! 14) + w ! 15) # w)"

fun sha_rounds :: "(u32 \<times> u32) list \<Rightarrow> u32 list \<Rightarrow> u32 list" where
  "sha_rounds ((k, w) # kws) [a, b, c, d, e, f, g, h] =
     (let t1 = h + big_s1 e + sha_ch e f g + k + w; t2 = big_s0 a + sha_maj a b c
      in sha_rounds kws [t1 + t2, a, b, c, d + t1, e, f, g])"
| "sha_rounds _ s = s"

definition sha_block :: "u32 list \<Rightarrow> u32 list \<Rightarrow> u32 list" where
  "sha_block h w =
     map2 (+) h (sha_rounds (zip sha_k (rev (sha_schedule 48 (rev w)))) h)"

definition be_word :: "byte list \<Rightarrow> u32" where
  "be_word bs = foldl (\<lambda>n b. push_bit 8 n OR ucast b) 0 bs"

fun sha_words :: "byte list \<Rightarrow> u32 list" where
  "sha_words (a # b # c # d # r) = be_word [a, b, c, d] # sha_words r"
| "sha_words _ = []"

fun sha_fold :: "nat \<Rightarrow> u32 list \<Rightarrow> u32 list \<Rightarrow> u32 list" where
  "sha_fold 0 h w = h"
| "sha_fold (Suc n) h w = sha_fold n (sha_block h (take 16 w)) (drop 16 w)"

definition sha_pad :: "byte list \<Rightarrow> byte list" where
  "sha_pad m =
     (let l = length m; z = (119 - l mod 64) mod 64; bits = 8 * l
      in m @ [0x80] @ replicate z 0 @ map (\<lambda>i. word_of_nat (bits div 256 ^ i)) (rev [0..<8]))"

definition sha256_words :: "byte list \<Rightarrow> u32 list" where
  "sha256_words m = (let p = sha_pad m in sha_fold (length p div 64) sha_init (sha_words p))"

definition nibble :: "nat \<Rightarrow> char" where
  "nibble d = (if d < 10 then char_of (48 + d) else char_of (87 + d))"

definition hex_word :: "u32 \<Rightarrow> string" where
  "hex_word x = map (\<lambda>i. nibble (unat x div 16 ^ i mod 16)) [7, 6, 5, 4, 3, 2, 1, 0]"

definition sha256_hex :: "byte list \<Rightarrow> string" where
  "sha256_hex m = concat (map hex_word (sha256_words m))"

definition utf8_char :: "char \<Rightarrow> byte list" where
  "utf8_char c =
     (let n = code c in
      if n < 128 then [word_of_nat n] else [word_of_nat (192 + n div 64), word_of_nat (128 + n mod 64)])"

definition utf8_bytes :: "string \<Rightarrow> byte list" where
  "utf8_bytes s = concat (map utf8_char s)"

text \<open>\<open>createHash('sha256').update(s).digest('hex')\<close> and the \<open>sha256:\<close> form of digests.\<close>

definition sha256 :: "string \<Rightarrow> string" where
  "sha256 s = sha256_hex (utf8_bytes s)"

definition sha256_digest :: "string \<Rightarrow> string" where
  "sha256_digest s = ''sha256:'' @ sha256 s"

subsection \<open>The shape of a digest\<close>

lemma length_sha_rounds: "length s = 8 \<Longrightarrow> length (sha_rounds kws s) = 8"
proof (induction kws s rule: sha_rounds.induct)
  case (1 k w kws a b c d e f g h)
  then show ?case by (simp add: Let_def)
qed auto

lemma length_sha_block: "length h = 8 \<Longrightarrow> length (sha_block h w) = 8"
  by (simp add: sha_block_def length_sha_rounds)

lemma length_sha_fold: "length h = 8 \<Longrightarrow> length (sha_fold n h w) = 8"
  by (induction n h w rule: sha_fold.induct) (simp_all add: length_sha_block)

lemma length_sha256_words: "length (sha256_words m) = 8"
  by (simp add: sha256_words_def Let_def length_sha_fold sha_init_def)

lemma nibble_hex: "d < 16 \<Longrightarrow> is_hex (nibble d)"
  by (auto simp: nibble_def is_hex_def is_digit_def)

lemma hex_word_hash: "length (hex_word x) = 8" "list_all is_hex (hex_word x)"
  by (simp_all add: hex_word_def nibble_hex)

lemma sha256_hex_is_hash: "is_hash (sha256_hex m)"
proof -
  have "length (concat (map hex_word ws)) = 8 * length ws" for ws
    by (induction ws) (simp_all add: hex_word_hash)
  moreover have "list_all is_hex (concat (map hex_word ws))" for ws
    by (induction ws) (simp_all add: hex_word_hash)
  ultimately show ?thesis
    by (simp add: is_hash_def sha256_hex_def length_sha256_words)
qed

lemma sha256_is_hash [simp]: "is_hash (sha256 s)"
  by (simp add: sha256_def sha256_hex_is_hash)

lemma sha256_digest_is_digest [simp]: "is_digest (sha256_digest s)"
  unfolding sha256_digest_def by (rule is_digest_intro) simp

text \<open>A collision: two different texts with the same digest.\<close>

definition collision :: "string \<Rightarrow> string \<Rightarrow> bool" where
  "collision s t \<longleftrightarrow> s \<noteq> t \<and> sha256 s = sha256 t"

lemma sha256_eq_cases: "sha256 s = sha256 t \<Longrightarrow> s = t \<or> collision s t"
  by (auto simp: collision_def)

lemma sha256_digest_eq_cases: "sha256_digest s = sha256_digest t \<Longrightarrow> s = t \<or> collision s t"
  by (auto simp: collision_def sha256_digest_def)

end
