(* ===== verification/JsonParse.thy ===== *)
theory JsonParse
  imports JsValue
begin

section \<open>Parsing JSON text\<close>

text \<open>
  \<open>JSON.parse\<close>, which the code applies to stored audit events and to receipt files, as a
  recursive descent parser with fuel: \<open>2 * length s + 2\<close> units are enough because each
  element of a nesting level consumes a character.  The outcome \<open>None\<close> is a SyntaxError.
  Escapes of code units above 255 have no counterpart in the string model and are \<open>None\<close>
  too.  A literal that is not a plain integer within the safe range is kept as its text
  (\<open>NDec\<close>), which is what \<open>JSON.stringify\<close> prints again for literals in shortest form.

  The theorem of interest is that parsing inverts canonical printing, so canonical JSON is
  injective: equal canonical texts come from values with equal sorted forms.
\<close>

definition is_ws :: "char \<Rightarrow> bool" where
  "is_ws c \<longleftrightarrow> code c = 32 \<or> code c = 9 \<or> code c = 10 \<or> code c = 13"

definition skip_ws :: "string \<Rightarrow> string" where
  "skip_ws s = dropWhile is_ws s"

definition hex_val :: "char \<Rightarrow> nat option" where
  "hex_val c =
     (if is_digit c then Some (code c - 48)
      else if 97 \<le> code c \<and> code c \<le> 102 then Some (code c - 87)
      else if 65 \<le> code c \<and> code c \<le> 70 then Some (code c - 55)
      else None)"

definition short_escape :: "char \<Rightarrow> char option" where
  "short_escape e =
     (if e = CHR 0x22 \<or> e = CHR 0x5C \<or> e = CHR ''/'' then Some e
      else if e = CHR ''b'' then Some (char_of (8 :: nat))
      else if e = CHR ''t'' then Some (char_of (9 :: nat))
      else if e = CHR ''n'' then Some (char_of (10 :: nat))
      else if e = CHR ''f'' then Some (char_of (12 :: nat))
      else if e = CHR ''r'' then Some (char_of (13 :: nat))
      else None)"

definition unit_escape :: "char \<Rightarrow> char \<Rightarrow> char \<Rightarrow> char \<Rightarrow> char option" where
  "unit_escape a b c d =
     (case (hex_val a, hex_val b, hex_val c, hex_val d) of
        (Some h1, Some h2, Some h3, Some h4) \<Rightarrow>
          if h1 = 0 \<and> h2 = 0 then Some (char_of (16 * h3 + h4)) else None
      | _ \<Rightarrow> None)"

definition cons_fst :: "char \<Rightarrow> (string \<times> string) option \<Rightarrow> (string \<times> string) option" where
  "cons_fst c r = map_option (\<lambda>(s, t). (c # s, t)) r"

fun parse_str :: "string \<Rightarrow> (string \<times> string) option" where
  "parse_str [] = None"
| "parse_str (c # cs) =
     (if c = CHR 0x22 then Some ([], cs)
      else if c = CHR 0x5C then
        (case cs of
           [] \<Rightarrow> None
         | e # r \<Rightarrow>
             if e = CHR ''u'' then
               (case r of
                  h1 # h2 # h3 # h4 # r' \<Rightarrow>
                    (case unit_escape h1 h2 h3 h4 of None \<Rightarrow> None | Some u \<Rightarrow> cons_fst u (parse_str r'))
                | _ \<Rightarrow> None)
             else (case short_escape e of None \<Rightarrow> None | Some u \<Rightarrow> cons_fst u (parse_str r)))
      else if code c < 32 then None
      else cons_fst c (parse_str cs))"

definition is_num_char :: "char \<Rightarrow> bool" where
  "is_num_char c \<longleftrightarrow> is_digit c \<or> c \<in> set ''+-.eE''"

definition int_literal :: "string \<Rightarrow> bool" where
  "int_literal s \<longleftrightarrow> s \<noteq> [] \<and> list_all is_digit s \<and> (hd s \<noteq> CHR ''0'' \<or> s = ''0'')"

text \<open>\<open>-?(0|[1-9][0-9]*)(\.[0-9]+)?([eE][+-]?[0-9]+)?\<close>\<close>

definition strip_minus :: "string \<Rightarrow> string" where
  "strip_minus s = (case s of c # cs \<Rightarrow> if c = CHR ''-'' then cs else s | [] \<Rightarrow> s)"

definition exp_ok :: "string \<Rightarrow> bool" where
  "exp_ok s =
     (case s of
        [] \<Rightarrow> True
      | e # r \<Rightarrow> e \<in> set ''eE'' \<and>
          (let d = (case r of c # cs \<Rightarrow> if c \<in> set ''+-'' then cs else r | [] \<Rightarrow> r)
           in d \<noteq> [] \<and> list_all is_digit d))"

definition frac_exp_ok :: "string \<Rightarrow> bool" where
  "frac_exp_ok s =
     (case s of
        c # cs \<Rightarrow>
          if c = CHR ''.'' then takeWhile is_digit cs \<noteq> [] \<and> exp_ok (dropWhile is_digit cs)
          else exp_ok s
      | [] \<Rightarrow> True)"

definition num_literal :: "string \<Rightarrow> bool" where
  "num_literal s =
     (let b = strip_minus s
      in int_literal (takeWhile is_digit b) \<and> frac_exp_ok (dropWhile is_digit b))"

definition max_safe :: int where
  "max_safe = 9007199254740991"

definition literal_value :: "string \<Rightarrow> jnum" where
  "literal_value s =
     (let b = strip_minus s; n = int (nat_of_digits b)
      in if list_all is_digit b \<and> n \<le> max_safe
         then NInt (if b = s then n else - n) else NDec s)"

definition parse_num :: "string \<Rightarrow> (jsval \<times> string) option" where
  "parse_num s =
     (let l = takeWhile is_num_char s
      in if num_literal l then Some (JNum (literal_value l), dropWhile is_num_char s) else None)"

text \<open>Properties in the order of the text; a repeated key keeps its place, last value wins.\<close>

definition build_obj :: "(string \<times> jsval) list \<Rightarrow> jsval" where
  "build_obj kvs = JObj (own_order (foldl (\<lambda>m p. om_set (fst p) (snd p) m) [] kvs))"

fun expect :: "string \<Rightarrow> string \<Rightarrow> string option" where
  "expect [] s = Some s"
| "expect (p # ps) [] = None"
| "expect (p # ps) (c # cs) = (if p = c then expect ps cs else None)"

fun parse_val :: "nat \<Rightarrow> string \<Rightarrow> (jsval \<times> string) option"
  and parse_arr :: "nat \<Rightarrow> string \<Rightarrow> (jsval list \<times> string) option"
  and parse_obj :: "nat \<Rightarrow> string \<Rightarrow> ((string \<times> jsval) list \<times> string) option" where
  "parse_val 0 s = None"
| "parse_val (Suc n) s =
     (case skip_ws s of
        [] \<Rightarrow> None
      | c # cs \<Rightarrow>
          if c = CHR 0x22 then map_option (\<lambda>(t, r). (JStr t, r)) (parse_str cs)
          else if c = CHR ''['' then
            (case expect '']'' (skip_ws cs) of
               Some r \<Rightarrow> Some (JArr [], r)
             | None \<Rightarrow> map_option (\<lambda>(xs, r). (JArr xs, r)) (parse_arr n cs))
          else if c = CHR ''{'' then
            (case expect ''}'' (skip_ws cs) of
               Some r \<Rightarrow> Some (JObj [], r)
             | None \<Rightarrow> map_option (\<lambda>(kvs, r). (build_obj kvs, r)) (parse_obj n cs))
          else if c = CHR ''t'' then map_option (\<lambda>r. (JBool True, r)) (expect ''rue'' cs)
          else if c = CHR ''f'' then map_option (\<lambda>r. (JBool False, r)) (expect ''alse'' cs)
          else if c = CHR ''n'' then map_option (\<lambda>r. (JNull, r)) (expect ''ull'' cs)
          else parse_num (c # cs))"
| "parse_arr 0 s = None"
| "parse_arr (Suc n) s =
     (case parse_val n s of
        None \<Rightarrow> None
      | Some (v, r) \<Rightarrow>
          (case skip_ws r of
             [] \<Rightarrow> None
           | c # cs \<Rightarrow>
               if c = CHR '','' then map_option (\<lambda>(vs, r'). (v # vs, r')) (parse_arr n cs)
               else if c = CHR '']'' then Some ([v], cs)
               else None))"
| "parse_obj 0 s = None"
| "parse_obj (Suc n) s =
     (case expect [CHR 0x22] (skip_ws s) of
        None \<Rightarrow> None
      | Some ks \<Rightarrow>
          (case parse_str ks of
             None \<Rightarrow> None
           | Some (k, r) \<Rightarrow>
               (case expect '':'' (skip_ws r) of
                  None \<Rightarrow> None
                | Some vs \<Rightarrow>
                    (case parse_val n vs of
                       None \<Rightarrow> None
                     | Some (v, r') \<Rightarrow>
                         (case skip_ws r' of
                            [] \<Rightarrow> None
                          | c # cs \<Rightarrow>
                              if c = CHR '','' then map_option (\<lambda>(kvs, r''). ((k, v) # kvs, r'')) (parse_obj n cs)
                              else if c = CHR ''}'' then Some ([(k, v)], cs)
                              else None)))))"

definition json_parse :: "string \<Rightarrow> jsval option" where
  "json_parse s =
     (case parse_val (2 * length s + 2) s of
        Some (v, r) \<Rightarrow> if skip_ws r = [] then Some v else None
      | None \<Rightarrow> None)"

subsection \<open>JSON data and its normal form\<close>

text \<open>
  \<open>json_data\<close>: the values JSON text can denote.  \<open>ordered\<close>: every object lists its
  properties in JavaScript's own order, as every object of a running program does.
\<close>

fun valid_num :: "jnum \<Rightarrow> bool" where
  "valid_num (NInt i) = (\<bar>i\<bar> \<le> max_safe)"
| "valid_num (NDec t) = (list_all is_num_char t \<and> num_literal t \<and> literal_value t = NDec t)"
| "valid_num NNonFinite = False"

fun json_data :: "jsval \<Rightarrow> bool" where
  "json_data JNull = True"
| "json_data (JBool b) = True"
| "json_data (JNum n) = valid_num n"
| "json_data (JStr s) = True"
| "json_data (JArr xs) = list_all json_data xs"
| "json_data (JObj kvs) = (distinct (map fst kvs) \<and> list_all (\<lambda>(k, v). json_data v) kvs)"
| "json_data _ = False"

fun ordered :: "jsval \<Rightarrow> bool" where
  "ordered (JArr xs) = list_all ordered xs"
| "ordered (JObj kvs) = (own_order kvs = kvs \<and> list_all (\<lambda>(k, v). ordered v) kvs)"
| "ordered _ = True"

lemma sortValue_normal: "json_data v \<Longrightarrow> json_data (sortValue v) \<and> ordered (sortValue v)"
proof (induction v rule: sortValue.induct)
  case (1 xs)
  then show ?case by (auto simp: list_all_iff)
next
  case (2 kvs)
  have *: "json_data (sortValue w) \<and> ordered (sortValue w)" if "(k, w) \<in> set kvs" for k w
    using "2.IH" [of "(k, w)" k w] "2.prems" that by (auto simp: list_all_iff)
  have "distinct (map fst (map sort_snd (isort key_lt kvs)))"
    using "2.prems" by (simp only: map_fst_sort_snd distinct_fst_isort) simp
  then show ?case
    unfolding sortValue_obj using *
    by (auto simp: list_all_iff sort_snd_def)
qed simp_all

subsection \<open>Round trips of the pieces\<close>

lemma hex_val_digit: "d < 16 \<Longrightarrow> hex_val (hex_digit d) = Some d"
  by (auto simp: hex_val_def hex_digit_def is_digit_def)

lemma escape_control:
  assumes "code c < 32"
  shows "unit_escape (CHR ''0'') (CHR ''0'') (hex_digit (code c div 16)) (hex_digit (code c mod 16)) = Some c"
proof -
  have "hex_val (CHR ''0'') = Some 0" by (simp add: hex_val_def is_digit_def)
  moreover have "hex_val (hex_digit (code c div 16)) = Some (code c div 16)"
    using assms by (intro hex_val_digit) auto
  moreover have "hex_val (hex_digit (code c mod 16)) = Some (code c mod 16)"
    by (intro hex_val_digit) auto
  ultimately show ?thesis by (simp add: unit_escape_def)
qed

lemma parse_str_escape: "parse_str (escape_char c @ r) = cons_fst c (parse_str r)"
proof (cases "c = CHR 0x22 \<or> c = CHR 0x5C \<or> code c \<in> {8, 9, 10, 12, 13}")
  case True
  then show ?thesis
    by (auto simp: escape_char_def short_escape_def dest!: code_eq_char)
next
  case False
  then show ?thesis
    using escape_control [of c] by (auto simp: escape_char_def)
qed

lemma parse_str_quote: "parse_str (concat (map escape_char s) @ CHR 0x22 # r) = Some (s, r)"
  by (induction s) (auto simp: parse_str_escape cons_fst_def)

lemma digit_num_char: "is_digit c \<Longrightarrow> is_num_char c"
  by (simp add: is_num_char_def)

definition stops :: "string \<Rightarrow> bool" where
  "stops r = (case r of [] \<Rightarrow> True | c # _ \<Rightarrow> \<not> is_num_char c)"

lemma stops_takeWhile:
  assumes "list_all is_num_char t" "stops r"
  shows "takeWhile is_num_char (t @ r) = t" "dropWhile is_num_char (t @ r) = r"
  using assms by (cases r; auto simp: stops_def list_all_iff takeWhile_append2 dropWhile_append2)+

lemma show_nat_no_zero: "int_literal (show_nat n)"
proof (induction n rule: show_nat.induct)
  case (1 n)
  show ?case
  proof (cases "n < 10")
    case True
    then show ?thesis
      by (subst show_nat.simps)
        (simp add: int_literal_def digit_char_props; auto simp: digit_char_def)
  next
    case False
    then have ih: "int_literal (show_nat (n div 10))" using 1 by simp
    have "show_nat (n div 10) \<noteq> ''0''"
    proof
      assume "show_nat (n div 10) = ''0''"
      then have "n div 10 = nat_of_digits ''0''" by (metis nat_of_show_nat)
      with False show False by (simp add: nat_of_digits_def digit_val_def)
    qed
    with ih False show ?thesis
      by (subst show_nat.simps) (auto simp: int_literal_def digit_char_props hd_append)
  qed
qed

lemma takeWhile_all: "list_all P xs \<Longrightarrow> takeWhile P xs = xs" "list_all P xs \<Longrightarrow> dropWhile P xs = []"
  by (auto simp: list_all_iff takeWhile_eq_all_conv)

lemma strip_minus_digits: "list_all is_digit s \<Longrightarrow> strip_minus s = s"
  by (cases s) (auto simp: strip_minus_def is_digit_def)

lemma strip_minus_cons [simp]: "strip_minus (CHR ''-'' # s) = s"
  by (simp add: strip_minus_def)

lemma num_literal_int: "num_literal (show_int i)"
  using show_nat_digits show_nat_no_zero
  by (simp add: show_int_def num_literal_def Let_def strip_minus_digits
      takeWhile_all frac_exp_ok_def)

lemma literal_value_int:
  assumes "\<bar>i\<bar> \<le> max_safe" shows "literal_value (show_int i) = NInt i"
proof (cases "i < 0")
  case True
  with assms show ?thesis
    using show_nat_digits [of "nat (- i)"]
    by (auto simp: show_int_def literal_value_def strip_minus_def)
next
  case False
  with assms show ?thesis
    using show_nat_digits [of "nat i"]
    by (auto simp: show_int_def literal_value_def strip_minus_digits)
qed

lemma show_num_chars: "valid_num n \<Longrightarrow> list_all is_num_char (show_num n)"
proof (cases n)
  case (NInt i)
  then show ?thesis
    using show_nat_digits by (auto simp: show_int_def list_all_iff is_num_char_def)
qed auto

lemma show_num_literal:
  "valid_num n \<Longrightarrow> num_literal (show_num n) \<and> literal_value (show_num n) = n"
  by (cases n) (auto simp: num_literal_int literal_value_int)

lemma parse_num_show: "valid_num n \<Longrightarrow> stops r \<Longrightarrow> parse_num (show_num n @ r) = Some (JNum n, r)"
  by (simp add: parse_num_def stops_takeWhile show_num_chars show_num_literal)

lemma num_literal_head:
  assumes "num_literal s" shows "\<exists>c cs. s = c # cs \<and> (is_digit c \<or> c = CHR ''-'')"
proof -
  have "takeWhile is_digit (strip_minus s) \<noteq> []"
    using assms by (auto simp: num_literal_def Let_def int_literal_def)
  then show ?thesis
    by (cases s) (auto simp: strip_minus_def split: if_splits)
qed

subsection \<open>Parsing inverts printing\<close>

definition parses :: "jsval \<Rightarrow> bool" where
  "parses v \<longleftrightarrow> (\<forall>t r n. json_text v = Some t \<longrightarrow> stops r \<longrightarrow> 2 * length t \<le> n \<longrightarrow>
     parse_val n (t @ r) = Some (v, r))"

lemma json_text_head:
  assumes "json_data v"
  shows "\<exists>c cs. json_text v = Some (c # cs) \<and> \<not> is_ws c \<and> c \<notin> set '']},:''"
proof (cases v)
  case (JNum n)
  with assms obtain c cs where "show_num n = c # cs" "is_digit c \<or> c = CHR ''-''"
    using num_literal_head [of "show_num n"] show_num_literal by auto
  with JNum show ?thesis by (auto simp: is_ws_def is_digit_def)
qed (use assms in \<open>auto simp: quote_def is_ws_def\<close>)

lemma json_text_Some: "json_data v \<Longrightarrow> \<exists>t. json_text v = Some t"
  using json_text_head by blast

lemma skip_ws_head [simp]: "\<not> is_ws c \<Longrightarrow> skip_ws (c # cs) = c # cs"
  by (simp add: skip_ws_def)

lemma is_ws_punct [simp]:
  "\<not> is_ws (CHR '','')" "\<not> is_ws (CHR '']'')" "\<not> is_ws (CHR ''}'')" "\<not> is_ws (CHR '':'')"
  "\<not> is_ws (CHR ''['')" "\<not> is_ws (CHR ''{'')" "\<not> is_ws (CHR 0x22)"
  "\<not> is_ws (CHR ''t'')" "\<not> is_ws (CHR ''f'')" "\<not> is_ws (CHR ''n'')"
  by (simp_all add: is_ws_def)

lemma stops_punct [simp]:
  "stops (CHR '','' # r)" "stops (CHR '']'' # r)" "stops (CHR ''}'' # r)" "stops []" "stops (CHR 0x0A # r)"
  by (simp_all add: stops_def is_num_char_def is_digit_def)

definition text_of :: "jsval \<Rightarrow> string" where
  "text_of v = the (json_text v)"

lemma parse_arr_texts:
  assumes "xs \<noteq> []" "\<forall>x \<in> set xs. parses x \<and> json_data x"
    and "2 * length (join_with '','' (map text_of xs)) + 1 \<le> n"
  shows "parse_arr n (join_with '','' (map text_of xs) @ CHR '']'' # r) = Some (xs, r)"
  using assms
proof (induction xs arbitrary: n)
  case Nil
  then show ?case by simp
next
  case (Cons x xs)
  obtain t where t: "json_text x = Some t" using Cons.prems json_text_Some by auto
  obtain m where m: "n = Suc m" using Cons.prems(3) by (cases n) auto
  show ?case
  proof (cases xs)
    case Nil
    with Cons.prems t m have "parse_val m (t @ CHR '']'' # r) = Some (x, CHR '']'' # r)"
      by (auto simp: parses_def text_of_def)
    with Nil t m show ?thesis by (simp add: text_of_def)
  next
    case (Cons y ys)
    let ?j = "join_with '','' (map text_of xs)"
    have j: "join_with '','' (map text_of (x # xs)) = t @ CHR '','' # ?j"
      using Cons t by (simp add: text_of_def)
    have "parse_val m (t @ CHR '','' # ?j @ CHR '']'' # r) = Some (x, CHR '','' # ?j @ CHR '']'' # r)"
      using Cons.prems t m j by (auto simp: parses_def)
    moreover have "parse_arr m (?j @ CHR '']'' # r) = Some (xs, r)"
      using Cons.prems j m Cons by (intro Cons.IH) auto
    ultimately show ?thesis using m j by simp
  qed
qed

definition prop_text :: "string \<times> jsval \<Rightarrow> string" where
  "prop_text p = quote (fst p) @ '':'' @ text_of (snd p)"

lemma parse_obj_texts:
  assumes "kvs \<noteq> []" "\<forall>p \<in> set kvs. parses (snd p) \<and> json_data (snd p)"
    and "2 * length (join_with '','' (map prop_text kvs)) + 1 \<le> n"
  shows "parse_obj n (join_with '','' (map prop_text kvs) @ CHR ''}'' # r) = Some (kvs, r)"
  using assms
proof (induction kvs arbitrary: n)
  case Nil
  then show ?case by simp
next
  case (Cons p kvs)
  obtain k v where p: "p = (k, v)" by (cases p)
  obtain t where t: "json_text v = Some t" using Cons.prems p json_text_Some by auto
  obtain m where m: "n = Suc m" using Cons.prems(3) by (cases n) auto
  have q: "prop_text p = CHR 0x22 # concat (map escape_char k) @ CHR 0x22 # CHR '':'' # t"
    using p t by (simp add: prop_text_def quote_def text_of_def)
  show ?case
  proof (cases kvs)
    case Nil
    with Cons.prems p t m q have "parse_val m (t @ CHR ''}'' # r) = Some (v, CHR ''}'' # r)"
      by (auto simp: parses_def)
    with Nil m q p show ?thesis by (simp add: parse_str_quote)
  next
    case (Cons y ys)
    let ?j = "join_with '','' (map prop_text kvs)"
    have j: "join_with '','' (map prop_text (p # kvs)) = prop_text p @ CHR '','' # ?j"
      using Cons by simp
    have "parse_val m (t @ CHR '','' # ?j @ CHR ''}'' # r) = Some (v, CHR '','' # ?j @ CHR ''}'' # r)"
      using Cons.prems p t m j q by (auto simp: parses_def)
    moreover have "parse_obj m (?j @ CHR ''}'' # r) = Some (kvs, r)"
      using Cons.prems j m Cons q by (intro Cons.IH) auto
    ultimately show ?thesis using m j q p by (simp add: parse_str_quote)
  qed
qed

lemma foldl_om_set:
  "distinct (map fst (m @ kvs)) \<Longrightarrow> foldl (\<lambda>m p. om_set (fst p) (snd p) m) m kvs = m @ kvs"
proof (induction kvs arbitrary: m)
  case (Cons p kvs)
  then have "om_set (fst p) (snd p) m = m @ [p]" by (subst om_set_fresh) auto
  with Cons.IH [of "m @ [p]"] Cons.prems show ?case by simp
qed simp

lemma build_obj_id: "distinct (map fst kvs) \<Longrightarrow> own_order kvs = kvs \<Longrightarrow> build_obj kvs = JObj kvs"
  by (simp add: build_obj_def foldl_om_set)

lemma arr_texts:
  "\<forall>x \<in> set xs. json_data x \<Longrightarrow>
   map (\<lambda>x. case json_text x of None \<Rightarrow> ''null'' | Some t \<Rightarrow> t) xs = map text_of xs"
  using json_text_Some by (fastforce simp: text_of_def)

lemma obj_texts:
  "\<forall>p \<in> set kvs. json_data (snd p) \<Longrightarrow>
   concat (map (\<lambda>(k, v). case json_text v of None \<Rightarrow> [] | Some t \<Rightarrow> [quote k @ '':'' @ t]) kvs) =
   map prop_text kvs"
proof (induction kvs)
  case (Cons p kvs)
  then show ?case using json_text_Some [of "snd p"]
    by (auto simp: prop_text_def text_of_def case_prod_beta')
qed simp

lemma join_head:
  assumes "xs \<noteq> []" "hd xs = c # cs"
  shows "\<exists>r. join_with d xs = c # r"
  using assms by (cases xs rule: remdups_adj.cases) auto

lemma parse_val_lit:
  "parse_val (Suc n) (''true'' @ r) = Some (JBool True, r)"
  "parse_val (Suc n) (''false'' @ r) = Some (JBool False, r)"
  "parse_val (Suc n) (''null'' @ r) = Some (JNull, r)"
  by simp_all

lemma parses_json: "json_data v \<Longrightarrow> ordered v \<Longrightarrow> parses v"
proof (induction v rule: json_data.induct)
  case (1)
  show ?case unfolding parses_def
  proof (intro allI impI)
    fix t r n assume "json_text JNull = Some t" "2 * length t \<le> n"
    then obtain m where "t = ''null''" "n = Suc m" by (cases n) auto
    then show "parse_val n (t @ r) = Some (JNull, r)" using parse_val_lit by simp
  qed
next
  case (2 b)
  show ?case unfolding parses_def
  proof (intro allI impI)
    fix t r n assume "json_text (JBool b) = Some t" "2 * length t \<le> n"
    then obtain m where "t = (if b then ''true'' else ''false'')" "n = Suc m"
      by (cases n; cases b) auto
    then show "parse_val n (t @ r) = Some (JBool b, r)" using parse_val_lit by (cases b) simp_all
  qed
next
  case (3 k)
  then have k: "valid_num k" by simp
  obtain c cs where c: "show_num k = c # cs" "is_digit c \<or> c = CHR ''-''"
    using num_literal_head [of "show_num k"] show_num_literal [OF k] by auto
  show ?case unfolding parses_def
  proof (intro allI impI)
    fix t r n assume t: "json_text (JNum k) = Some t" "stops r" "2 * length t \<le> n"
    then obtain m where m: "n = Suc m" using c by (cases n) auto
    have "parse_num (c # cs @ r) = Some (JNum k, r)"
      using parse_num_show [OF k t(2)] c(1) by simp
    with t c m show "parse_val n (t @ r) = Some (JNum k, r)"
      by (auto simp: is_digit_def skip_ws_def is_ws_def)
  qed
next
  case (4 s)
  show ?case unfolding parses_def
  proof (intro allI impI)
    fix t r n assume "json_text (JStr s) = Some t" "2 * length t \<le> n"
    then obtain m where "t = quote s" "n = Suc m" by (cases n) (auto simp: quote_def)
    then show "parse_val n (t @ r) = Some (JStr s, r)" by (simp add: quote_def parse_str_quote)
  qed
next
  case (5 xs)
  then have d: "\<forall>x \<in> set xs. parses x \<and> json_data x" by (auto simp: list_all_iff)
  show ?case unfolding parses_def
  proof (intro allI impI)
    fix t r n assume t: "json_text (JArr xs) = Some t" and n: "2 * length t \<le> n"
    have t': "t = ''['' @ join_with '','' (map text_of xs) @ '']''"
      using t d arr_texts [of xs] by simp
    then obtain m where m: "n = Suc m" using n by (cases n) auto
    show "parse_val n (t @ r) = Some (JArr xs, r)"
    proof (cases xs)
      case Nil
      with t' m show ?thesis by simp
    next
      case (Cons x ys)
      obtain c cs where c: "text_of x = c # cs" "\<not> is_ws c" "c \<noteq> CHR '']''"
        using json_text_head [of x] d Cons by (auto simp: text_of_def)
      then obtain q where q: "join_with '','' (map text_of xs) = c # q"
        using join_head [of "map text_of xs" c cs] Cons by auto
      have "parse_arr m (join_with '','' (map text_of xs) @ CHR '']'' # r) = Some (xs, r)"
        using d n t' m Cons by (intro parse_arr_texts) auto
      with q c t' m show ?thesis by simp
    qed
  qed
next
  case (6 kvs)
  then have d: "\<forall>p \<in> set kvs. parses (snd p) \<and> json_data (snd p)" by (fastforce simp: list_all_iff)
  show ?case unfolding parses_def
  proof (intro allI impI)
    fix t r n assume t: "json_text (JObj kvs) = Some t" and n: "2 * length t \<le> n"
    have t': "t = ''{'' @ join_with '','' (map prop_text kvs) @ ''}''"
      using t d obj_texts [of kvs] by simp
    then obtain m where m: "n = Suc m" using n by (cases n) auto
    show "parse_val n (t @ r) = Some (JObj kvs, r)"
    proof (cases kvs)
      case Nil
      with t' m show ?thesis by simp
    next
      case (Cons p ps)
      then obtain q where q: "join_with '','' (map prop_text kvs) = CHR 0x22 # q"
        using join_head [of "map prop_text kvs" "CHR 0x22"] by (auto simp: prop_text_def quote_def)
      have "parse_obj m (join_with '','' (map prop_text kvs) @ CHR ''}'' # r) = Some (kvs, r)"
        using d n t' m Cons by (intro parse_obj_texts) auto
      with q t' m 6 show ?thesis by (simp add: build_obj_id)
    qed
  qed
qed simp_all

lemma json_parse_text:
  assumes "json_data v" "ordered v" "json_text v = Some t"
  shows "json_parse t = Some v"
proof -
  have "parse_val (2 * length t + 2) (t @ []) = Some (v, [])"
    using parses_json [OF assms(1,2)] assms(3) stops_punct(4) le_add1 unfolding parses_def by blast
  then show ?thesis by (simp add: json_parse_def skip_ws_def del: parse_val.simps)
qed

lemma json_parse_canonical: "json_data v \<Longrightarrow> json_parse (canonicalJson v) = Some (sortValue v)"
  using sortValue_normal [of v] json_text_Some [of "sortValue v"]
  by (auto simp: canonicalJson_def intro: json_parse_text)

lemma canonicalJson_inj:
  "json_data v \<Longrightarrow> json_data w \<Longrightarrow> canonicalJson v = canonicalJson w \<Longrightarrow> sortValue v = sortValue w"
  by (metis json_parse_canonical option.inject)

subsection \<open>A bound on the size of canonical texts\<close>

fun json_weight :: "jsval \<Rightarrow> nat" where
  "json_weight (JStr s) = 6 * length s + 2"
| "json_weight (JNum n) = utf8_length (show_num n)"
| "json_weight (JArr xs) = 2 + sum_list (map (\<lambda>x. json_weight x + 1) xs)"
| "json_weight (JObj kvs) = 2 + sum_list (map (\<lambda>(k, v). 6 * length k + 4 + json_weight v) kvs)"
| "json_weight _ = 5"

lemma utf8_escape: "utf8_length (escape_char c) \<le> 6"
proof -
  have u: "utf8_length s \<le> 2 * length s" for s by (induction s) auto
  have "utf8_length (escape_char c) \<le> 6" if "code c < 32"
  proof -
    have "code (hex_digit (code c div 16)) < 128" "code (hex_digit (code c mod 16)) < 128"
      using that by (auto simp: hex_digit_def)
    then show ?thesis by (simp add: escape_char_def)
  qed
  moreover have "length (escape_char c) \<le> 2" if "\<not> code c < 32"
    using that by (simp add: escape_char_def)
  ultimately show ?thesis using u [of "escape_char c"] by (cases "code c < 32") auto
qed

lemma utf8_quote: "utf8_length (quote s) \<le> 6 * length s + 2"
proof -
  have "utf8_length (concat (map escape_char s)) \<le> 6 * length s"
    using utf8_escape by (induction s) (auto intro: add_mono)
  then show ?thesis by (simp add: quote_def)
qed

lemma utf8_join: "utf8_length (join_with '','' ts) \<le> sum_list (map (\<lambda>t. utf8_length t + 1) ts)"
  by (induction ts rule: induct_list012) auto

lemma json_weight_text: "json_text v = Some t \<Longrightarrow> utf8_length t \<le> json_weight v"
proof (induction v arbitrary: t rule: json_weight.induct)
  case (3 xs)
  let ?ts = "map (\<lambda>x. case json_text x of None \<Rightarrow> ''null'' | Some t \<Rightarrow> t) xs"
  have w: "utf8_length (case json_text x of None \<Rightarrow> ''null'' | Some t \<Rightarrow> t) \<le> json_weight x" if "x \<in> set xs" for x
    using "3.IH" [OF that] by (cases "json_text x"; cases x) auto
  have "sum_list (map (\<lambda>t. utf8_length t + 1) ?ts) \<le> sum_list (map (\<lambda>x. json_weight x + 1) xs)"
    unfolding map_map by (rule sum_list_mono) (use w in auto)
  with utf8_join [of ?ts] "3.prems" show ?case by (auto simp del: join_with.simps)
next
  case (4 kvs)
  let ?f = "\<lambda>(k, v). case json_text v of None \<Rightarrow> [] | Some t \<Rightarrow> [quote k @ '':'' @ t]"
  let ?g = "\<lambda>(k, v). 6 * length k + 4 + json_weight v"
  have w: "sum_list (map (\<lambda>t. utf8_length t + 1) (?f p)) \<le> ?g p" if p: "p \<in> set kvs" for p
  proof -
    obtain k v where kv: "p = (k, v)" by fastforce
    show ?thesis
    proof (cases "json_text v")
      case (Some t)
      with "4.IH" [OF p [unfolded kv] refl Some] utf8_quote [of k] kv show ?thesis by simp
    qed (simp add: kv)
  qed
  have "sum_list (map (\<lambda>t. utf8_length t + 1) (concat (map ?f kvs))) \<le> sum_list (map ?g kvs)"
    using w by (induction kvs) (auto intro: add_mono)
  with utf8_join [of "concat (map ?f kvs)"] "4.prems" show ?case by (auto simp del: join_with.simps)
qed (auto intro: order_trans [OF utf8_quote])

lemma json_weight_sort: "json_weight (sortValue v) = json_weight v"
proof (induction v rule: sortValue.induct)
  case (1 xs)
  then have "map (\<lambda>x. json_weight (sortValue x) + 1) xs = map (\<lambda>x. json_weight x + 1) xs" by simp
  from arg_cong [OF this, of sum_list] show ?case by (simp add: o_def del: map_eq_conv)
next
  case (2 kvs)
  let ?g = "\<lambda>(k, v). 6 * length k + 4 + json_weight v"
  have "sum_list (map ?g (own_order (map sort_snd (isort key_lt kvs)))) = sum_mset (image_mset ?g (mset (own_order (map sort_snd (isort key_lt kvs)))))"
    by (simp add: sum_mset_sum_list [symmetric])
  also have "\<dots> = sum_list (map ?g (map sort_snd kvs))"
    by (simp add: sum_mset_sum_list [symmetric] image_mset.compositionality)
  also have "\<dots> = sum_list (map ?g kvs)"
    using "2.IH" by (auto simp: sort_snd_def intro!: arg_cong [where f = sum_list])
  finally show ?case by (simp add: sortValue_obj del: sortValue.simps)
qed simp_all

lemma canonical_weight: "utf8_length (canonicalJson v) \<le> max 4 (json_weight v)"
  using json_weight_text [of "sortValue v"] json_weight_sort [of v]
  by (auto simp: canonicalJson_def split: option.splits)

end
