(* ===== verification/Schema.thy ===== *)
theory Schema
  imports JsonParse
begin

section \<open>Schemas\<close>

text \<open>
  The schema language the program builds its validators from (the \<open>z.\<close> constructors it uses)
  and what a value must satisfy to pass \<open>parse\<close>.  Objects are strict: a property the shape
  does not name is an error.  A missing property is validated as undefined, and passes where
  the field is optional.  \<open>SRefine\<close> is \<open>superRefine\<close>: the refinement runs on values the inner
  schema accepts.  Parsing returns the data it was given (the library lists the properties of
  its result in the order of the shape; no code of the program observes that order, which
  canonical JSON sorts away), so a schema is modelled by the values it accepts.

  The formats \<open>z.uuid()\<close> and \<open>z.iso.datetime({ offset: true })\<close> belong to the library: they
  are the parameter \<open>F\<close>.
\<close>

record formats =
  uuid_ok :: "string \<Rightarrow> bool"
  datetime_ok :: "string \<Rightarrow> bool"

datatype schema =
    SStr "string \<Rightarrow> bool"
  | SUuid
  | STime
  | SInt int int
  | SBool
  | SNull
  | SAny
  | SLit jsval
  | SArr nat nat schema
  | SObj "(string \<times> bool \<times> schema) list"
  | SUnion "schema list"
  | SRefine schema "jsval \<Rightarrow> bool"

text \<open>Shapes: a required and an optional field, an enumeration of strings.\<close>

definition req :: "string \<Rightarrow> schema \<Rightarrow> string \<times> bool \<times> schema" where
  "req k s = (k, False, s)"

definition opt :: "string \<Rightarrow> schema \<Rightarrow> string \<times> bool \<times> schema" where
  "opt k s = (k, True, s)"

definition SEnum :: "string list \<Rightarrow> schema" where
  "SEnum vs = SStr (\<lambda>s. s \<in> set vs)"

lemma size_field_less [termination_simp]:
  "(k, b, s) \<in> set fs \<Longrightarrow> size s < Suc (size_list (size_prod (\<lambda>_. 0) (size_prod (\<lambda>_. 0) size)) fs)"
  by (induction fs) auto

fun str_ok :: "(string \<Rightarrow> bool) \<Rightarrow> jsval \<Rightarrow> bool" where
  "str_ok p (JStr s) = p s"
| "str_ok p _ = False"

fun int_ok :: "int \<Rightarrow> int \<Rightarrow> jsval \<Rightarrow> bool" where
  "int_ok lo hi (JNum (NInt i)) = (lo \<le> i \<and> i \<le> hi)"
| "int_ok lo hi _ = False"

fun is_bool :: "jsval \<Rightarrow> bool" where
  "is_bool (JBool b) = True"
| "is_bool _ = False"

definition is_arr :: "jsval \<Rightarrow> bool" where
  "is_arr v = (case v of JArr _ \<Rightarrow> True | _ \<Rightarrow> False)"

definition is_obj :: "jsval \<Rightarrow> bool" where
  "is_obj v = (case v of JObj _ \<Rightarrow> True | _ \<Rightarrow> False)"

definition keys_of :: "jsval \<Rightarrow> string list" where
  "keys_of v = (case v of JObj kvs \<Rightarrow> map fst kvs | _ \<Rightarrow> [])"

function conforms :: "formats \<Rightarrow> schema \<Rightarrow> jsval \<Rightarrow> bool" where
  "conforms F (SStr p) v = str_ok p v"
| "conforms F SUuid v = str_ok (uuid_ok F) v"
| "conforms F STime v = str_ok (datetime_ok F) v"
| "conforms F (SInt lo hi) v = int_ok lo hi v"
| "conforms F SBool v = is_bool v"
| "conforms F SNull v = (v = JNull)"
| "conforms F SAny v = True"
| "conforms F (SLit w) v = (v = w)"
| "conforms F (SArr lo hi s) v =
     (is_arr v \<and> lo \<le> length (items v) \<and> length (items v) \<le> hi \<and> list_all (conforms F s) (items v))"
| "conforms F (SObj fs) v =
     (is_obj v \<and> list_all (\<lambda>(k, b, s). (b \<and> at v k = JUndef) \<or> conforms F s (at v k)) fs
      \<and> list_all (\<lambda>k. k \<in> set (map fst fs)) (keys_of v))"
| "conforms F (SUnion ss) v = list_ex (\<lambda>s. conforms F s v) ss"
| "conforms F (SRefine s p) v = (conforms F s v \<and> p v)"
  by pat_completeness auto
termination
  by (relation "measure (\<lambda>(F, s, v). size s)")
     (auto simp: size_field_less less_Suc_eq_le size_list_estimation')

lemma conforms_field:
  assumes "conforms F (SObj fs) v" "(k, b, s) \<in> set fs"
  shows "(b \<and> at v k = JUndef) \<or> conforms F s (at v k)"
  using assms by (auto simp: list_all_iff)

lemma conforms_only:
  assumes "conforms F (SObj fs) v" "k \<notin> fst ` set fs"
  shows "at v k = JUndef"
proof -
  from assms(1) obtain kvs where v: "v = JObj kvs" by (cases v) (auto simp: is_obj_def)
  with assms have "k \<notin> fst ` set kvs" by (auto simp: list_all_iff keys_of_def)
  then have "map_of kvs k = None" by (simp add: map_of_eq_None_iff)
  with v show ?thesis by (simp add: own_prop_def)
qed

lemma str_ok_iff: "str_ok p v \<longleftrightarrow> (\<exists>s. v = JStr s \<and> p s)"
  by (cases v) auto

lemma conforms_enum: "conforms F (SEnum vs) v \<longleftrightarrow> (\<exists>s. v = JStr s \<and> s \<in> set vs)"
  by (simp add: SEnum_def str_ok_iff)

subsection \<open>The order of properties does not matter\<close>

text \<open>
  A schema is stable when its refinements and literals do not look at the order of
  properties; then a value and its sorted form are accepted alike.
\<close>

inductive stable :: "schema \<Rightarrow> bool" where
  "stable (SStr p)" | "stable SUuid" | "stable STime" | "stable (SInt lo hi)"
| "stable SBool" | "stable SNull" | "stable SAny"
| "(\<And>v. (sortValue v = w) = (v = w)) \<Longrightarrow> stable (SLit w)"
| "stable s \<Longrightarrow> stable (SArr lo hi s)"
| "(\<And>f. f \<in> set fs \<Longrightarrow> stable (snd (snd f))) \<Longrightarrow> stable (SObj fs)"
| "(\<And>s. s \<in> set ss \<Longrightarrow> stable s) \<Longrightarrow> stable (SUnion ss)"
| "stable s \<Longrightarrow> (\<And>v. json_data v \<Longrightarrow> p (sortValue v) = p v) \<Longrightarrow> stable (SRefine s p)"

lemma stable_fields: "list_all (\<lambda>f. stable (snd (snd f))) fs \<Longrightarrow> stable (SObj fs)"
  by (auto simp: list_all_iff intro: stable.intros)

lemma stable_union: "list_all stable ss \<Longrightarrow> stable (SUnion ss)"
  by (auto simp: list_all_iff intro: stable.intros)

lemma stable_enum: "stable (SEnum vs)"
  by (simp add: SEnum_def stable.intros)

lemma stable_lit: "stable (SLit (JStr s))" "stable (SLit (JBool b))" "stable (SLit (JNum n))" "stable (SLit JNull)"
  by (auto intro: stable.intros)

lemmas stable_rules = stable_fields stable_union stable_enum stable_lit stable.intros(1-7,9)

lemma sort_shape [simp]:
  "str_ok p (sortValue v) = str_ok p v" "int_ok lo hi (sortValue v) = int_ok lo hi v"
  "is_bool (sortValue v) = is_bool v" "is_arr (sortValue v) = is_arr v" "is_obj (sortValue v) = is_obj v"
proof -
  show "int_ok lo hi (sortValue v) = int_ok lo hi v"
    by (cases v) (auto split: jnum.splits)
qed (cases v; simp add: is_arr_def is_obj_def)+

lemma json_data_at: "json_data v \<Longrightarrow> at v k = JUndef \<or> json_data (at v k)"
proof (cases v)
  case (JObj kvs)
  assume "json_data v"
  with JObj have *: "\<forall>(k, v) \<in> set kvs. json_data v" by (simp add: list_all_iff)
  show ?thesis
  proof (cases "map_of kvs k")
    case None
    with JObj show ?thesis by (simp add: own_prop_def)
  next
    case (Some w)
    with * have "json_data w" by (auto dest: map_of_SomeD)
    with Some JObj show ?thesis by (simp add: own_prop_def)
  qed
qed (auto simp: at_def)

lemma own_prop_data: "json_data (JObj kvs) \<Longrightarrow> own_prop kvs k = JUndef \<or> json_data (own_prop kvs k)"
  using json_data_at [of "JObj kvs" k] by (simp add: at_def)

lemma json_data_items: "json_data v \<Longrightarrow> x \<in> set (items v) \<Longrightarrow> json_data x"
  by (cases v) (auto simp: list_all_iff items_def)

lemma json_at_sort: "json_data v \<Longrightarrow> at (sortValue v) k = sortValue (at v k)"
  by (rule at_sortValue) simp

lemma keys_sort: "set (keys_of (sortValue v)) = set (keys_of v)"
proof (cases v)
  case (JObj kvs)
  then show ?thesis by (force simp: keys_of_def)
qed (auto simp: keys_of_def)

lemma conforms_undef_sort: "conforms F s (sortValue JUndef) = conforms F s JUndef"
  by simp

lemma conforms_sort:
  "stable s \<Longrightarrow> json_data v \<or> v = JUndef \<Longrightarrow> conforms F s (sortValue v) = conforms F s v"
proof (induction s arbitrary: v rule: stable.induct)
  case (9 s lo hi)
  have "conforms F s (sortValue x) = conforms F s x" if "x \<in> set (items v)" for x
  proof (rule "9.IH")
    show "json_data x \<or> x = JUndef"
      using "9.prems" that json_data_items by (auto simp: items_def)
  qed
  then show ?case by (simp add: items_sortValue list_all_iff)
next
  case (10 fs)
  show ?case
  proof (cases "v = JUndef")
    case False
    with "10.prems" have d: "json_data v" by simp
    have f: "conforms F (snd (snd f)) (at (sortValue v) k) = conforms F (snd (snd f)) (at v k)"
      if "f \<in> set fs" for f k
      unfolding json_at_sort [OF d] using that "10.IH" json_data_at [OF d] by blast
    have "list_all (\<lambda>(k, b, s). (b \<and> at (sortValue v) k = JUndef) \<or> conforms F s (at (sortValue v) k)) fs
        = list_all (\<lambda>(k, b, s). (b \<and> at v k = JUndef) \<or> conforms F s (at v k)) fs"
    proof (rule list.pred_cong [OF refl])
      fix f assume "f \<in> set fs"
      from f [OF this] show "(case f of (k, b, s) \<Rightarrow> (b \<and> at (sortValue v) k = JUndef) \<or> conforms F s (at (sortValue v) k))
          = (case f of (k, b, s) \<Rightarrow> (b \<and> at v k = JUndef) \<or> conforms F s (at v k))"
        by (cases f) (simp add: json_at_sort [OF d])
    qed
    moreover have "list_all (\<lambda>k. k \<in> set (map fst fs)) (keys_of (sortValue v))
        = list_all (\<lambda>k. k \<in> set (map fst fs)) (keys_of v)"
      unfolding list_all_iff keys_sort ..
    ultimately show ?thesis by (simp only: conforms.simps sort_shape)
  qed simp
next
  case (11 ss)
  then show ?case by (simp add: list_ex_iff)
next
  case (12 s p)
  then show ?case by (cases "v = JUndef") simp_all
qed simp_all

end
