(* ===== verification/Clock.thy ===== *)
theory Clock
  imports JsText
begin

section \<open>Dates and their ISO texts\<close>

text \<open>
  The part of JavaScript's \<open>Date\<close> the program uses: an instant is its number of milliseconds
  since 1970 (a natural number: the program's clocks do not run before 1970),
  \<open>toISOString\<close> prints it, raising above 8640000000000000, and \<open>Date.parse\<close> reads the texts
  \<open>toISOString\<close> prints (\<open>parse_iso\<close> is \<open>None\<close>, NaN, on other texts; the program compares
  instants only through texts it printed itself).
\<close>

definition leap :: "nat \<Rightarrow> bool" where
  "leap y \<longleftrightarrow> y mod 4 = 0 \<and> (y mod 100 \<noteq> 0 \<or> y mod 400 = 0)"

definition year_days :: "nat \<Rightarrow> nat" where
  "year_days y = (if leap y then 366 else 365)"

definition month_days :: "nat \<Rightarrow> nat list" where
  "month_days y = [31, if leap y then 29 else 28, 31, 30, 31, 30, 31, 31, 30, 31, 30, 31]"

text \<open>The year, and the day in it, of the day \<open>d\<close> days after the first of January of \<open>y\<close>.\<close>

function year_of :: "nat \<Rightarrow> nat \<Rightarrow> nat \<times> nat" where
  "year_of y d = (if d < year_days y then (y, d) else year_of (Suc y) (d - year_days y))"
  by pat_completeness auto
termination by (relation "measure snd") (auto simp: year_days_def)

declare year_of.simps [simp del]

fun month_of :: "nat list \<Rightarrow> nat \<Rightarrow> nat \<times> nat" where
  "month_of [] d = (0, d)"
| "month_of (l # ls) d =
     (if d < l then (0, d) else let (m, r) = month_of ls (d - l) in (Suc m, r))"

fun years_days :: "nat \<Rightarrow> nat \<Rightarrow> nat" where
  "years_days y 0 = 0"
| "years_days y (Suc k) = year_days y + years_days (Suc y) k"

lemma year_of_spec:
  "year_of y d = (y', r) \<Longrightarrow> y \<le> y' \<and> r < year_days y' \<and> years_days y (y' - y) + r = d"
proof (induction y d rule: year_of.induct)
  case (1 y d)
  show ?case
  proof (cases "d < year_days y")
    case True
    with "1.prems" show ?thesis by (simp add: year_of.simps)
  next
    case False
    with "1.prems" have "year_of (Suc y) (d - year_days y) = (y', r)" by (simp add: year_of.simps)
    with "1.IH" False have *: "Suc y \<le> y'" "r < year_days y'"
      "years_days (Suc y) (y' - Suc y) + r = d - year_days y" by auto
    have "y' - y = Suc (y' - Suc y)" using *(1) by simp
    then have "years_days y (y' - y) = year_days y + years_days (Suc y) (y' - Suc y)"
      by (simp only: years_days.simps)
    with * False show ?thesis by simp
  qed
qed

lemma month_of_spec:
  "d < sum_list ls \<Longrightarrow> month_of ls d = (m, r) \<Longrightarrow>
     m < length ls \<and> r < ls ! m \<and> sum_list (take m ls) + r = d"
proof (induction ls d arbitrary: m rule: month_of.induct)
  case (2 l ls d)
  show ?case
  proof (cases "d < l")
    case True
    with 2 show ?thesis by simp
  next
    case False
    obtain m' r' where m: "month_of ls (d - l) = (m', r')" by fastforce
    with 2 False have "m = Suc m'" "r' = r" "d - l < sum_list ls" by auto
    with "2.IH" m False show ?thesis by auto
  qed
qed simp

lemma sum_month_days: "sum_list (month_days y) = year_days y"
  by (simp add: month_days_def year_days_def)

lemma length_month_days [simp]: "length (month_days y) = 12"
  by (simp add: month_days_def)

text \<open>Fixed-width decimal numbers.\<close>

fun pad :: "nat \<Rightarrow> nat \<Rightarrow> string" where
  "pad 0 n = []"
| "pad (Suc w) n = pad w (n div 10) @ [digit_char (n mod 10)]"

lemma length_pad [simp]: "length (pad w n) = w"
  by (induction w arbitrary: n) auto

lemma pad_digits: "list_all is_digit (pad w n)"
  by (induction w arbitrary: n) (auto simp: digit_char_props)

lemma nat_of_pad: "n < 10 ^ w \<Longrightarrow> nat_of_digits (pad w n) = n"
proof (induction w arbitrary: n)
  case 0
  then show ?case by (simp add: nat_of_digits_def)
next
  case (Suc w)
  then have "n div 10 < 10 ^ w" by (simp add: less_mult_imp_div_less mult.commute)
  with Suc.IH have "nat_of_digits (pad w (n div 10)) = n div 10" .
  then show ?case by (simp add: nat_of_digits_def digit_char_props)
qed

definition read_num :: "nat \<Rightarrow> string \<Rightarrow> (nat \<times> string) option" where
  "read_num w s =
     (if length (take w s) = w \<and> list_all is_digit (take w s)
      then Some (nat_of_digits (take w s), drop w s) else None)"

definition read_char :: "char \<Rightarrow> string \<Rightarrow> string option" where
  "read_char c s = (case s of [] \<Rightarrow> None | d # r \<Rightarrow> if d = c then Some r else None)"

lemma read_num_pad [simp]: "n < 10 ^ w \<Longrightarrow> read_num w (pad w n @ r) = Some (n, r)"
  by (simp add: read_num_def pad_digits nat_of_pad)

lemma read_char_Cons [simp]: "read_char c (c # r) = Some r"
  by (simp add: read_char_def)

definition ms_per_day :: nat where "ms_per_day = 86400000"

definition year_text :: "nat \<Rightarrow> string" where
  "year_text y = (if y < 10000 then pad 4 y else CHR ''+'' # pad 6 y)"

definition iso_text :: "nat \<Rightarrow> string" where
  "iso_text t =
     (let (y, yd) = year_of 1970 (t div ms_per_day); (m, d) = month_of (month_days y) yd;
          ms = t mod ms_per_day
      in year_text y @ ''-'' @ pad 2 (Suc m) @ ''-'' @ pad 2 (Suc d) @ ''T'' @
         pad 2 (ms div 3600000) @ '':'' @ pad 2 (ms div 60000 mod 60) @ '':'' @
         pad 2 (ms div 1000 mod 60) @ ''.'' @ pad 3 (ms mod 1000) @ ''Z'')"

definition max_time :: nat where "max_time = 8640000000000000"

definition toISOString :: "nat \<Rightarrow> string option" where
  "toISOString t = (if t \<le> max_time then Some (iso_text t) else None)"

definition read_year :: "string \<Rightarrow> (nat \<times> string) option" where
  "read_year s = (if s \<noteq> [] \<and> hd s = CHR ''+'' then read_num 6 (tl s) else read_num 4 s)"

definition build_time :: "nat \<Rightarrow> nat \<Rightarrow> nat \<Rightarrow> nat \<Rightarrow> nat \<Rightarrow> nat \<Rightarrow> nat \<Rightarrow> nat option" where
  "build_time y m d h mi s ms =
     (if 1970 \<le> y \<and> 1 \<le> m \<and> m \<le> 12 \<and> 1 \<le> d \<and> d \<le> month_days y ! (m - 1) \<and> h < 24 \<and> mi < 60 \<and> s < 60
      then Some ((years_days 1970 (y - 1970) + sum_list (take (m - 1) (month_days y)) + (d - 1)) * ms_per_day
                 + h * 3600000 + mi * 60000 + s * 1000 + ms)
      else None)"

definition parse_iso :: "string \<Rightarrow> nat option" where
  "parse_iso s0 =
     Option.bind (read_year s0) (\<lambda>(y, s1). Option.bind (read_char (CHR ''-'') s1) (\<lambda>s2.
     Option.bind (read_num 2 s2) (\<lambda>(m, s3). Option.bind (read_char (CHR ''-'') s3) (\<lambda>s4.
     Option.bind (read_num 2 s4) (\<lambda>(d, s5). Option.bind (read_char (CHR ''T'') s5) (\<lambda>s6.
     Option.bind (read_num 2 s6) (\<lambda>(h, s7). Option.bind (read_char (CHR '':'') s7) (\<lambda>s8.
     Option.bind (read_num 2 s8) (\<lambda>(mi, s9). Option.bind (read_char (CHR '':'') s9) (\<lambda>s10.
     Option.bind (read_num 2 s10) (\<lambda>(s, s11). Option.bind (read_char (CHR ''.'') s11) (\<lambda>s12.
     Option.bind (read_num 3 s12) (\<lambda>(ms, s13). Option.bind (read_char (CHR ''Z'') s13) (\<lambda>s14.
       if s14 = [] then build_time y m d h mi s ms else None))))))))))))))"

lemma years_days_ge: "k \<le> years_days y k"
proof (induction k arbitrary: y)
  case (Suc k)
  have "1 \<le> year_days y" by (simp add: year_days_def)
  with Suc [of "Suc y"] show ?case by simp
qed simp

lemma years_days_365: "365 * k \<le> years_days y k"
proof (induction k arbitrary: y)
  case (Suc k)
  have "365 \<le> year_days y" by (simp add: year_days_def)
  with Suc [of "Suc y"] show ?case by simp
qed simp

lemma read_year_text: "y < 1000000 \<Longrightarrow> read_year (year_text y @ r) = Some (y, r)"
proof (cases "y < 10000")
  case True
  then obtain c cs where c: "pad 4 y = c # cs" by (cases "pad 4 y") (auto dest: arg_cong [of _ _ length])
  have "is_digit c" using pad_digits [of 4 y] c by simp
  then have "c \<noteq> CHR ''+''" by (auto simp: is_digit_def)
  then have "read_year (year_text y @ r) = read_num 4 (pad 4 y @ r)"
    using True c by (simp add: read_year_def year_text_def del: pad.simps)
  with True show ?thesis by simp
next
  case False
  moreover assume "y < 1000000"
  ultimately show ?thesis by (simp add: year_text_def read_year_def)
qed

lemma year_bound: "t \<le> max_time \<Longrightarrow> year_of 1970 (t div ms_per_day) = (y, d) \<Longrightarrow> y < 1000000"
proof -
  assume t: "t \<le> max_time" and y: "year_of 1970 (t div ms_per_day) = (y, d)"
  have "365 * (y - 1970) \<le> t div ms_per_day"
    using year_of_spec [OF y] years_days_365 [of "y - 1970" 1970] by linarith
  also have "\<dots> \<le> max_time div ms_per_day" using t by (rule div_le_mono)
  finally show ?thesis by (simp add: max_time_def ms_per_day_def)
qed

text \<open>Parsing the printed text gives the instant back.\<close>

lemma parse_iso_text:
  assumes "t \<le> max_time"
  shows "parse_iso (iso_text t) = Some t"
proof -
  obtain y yd where y: "year_of 1970 (t div ms_per_day) = (y, yd)" by fastforce
  obtain m d where m: "month_of (month_days y) yd = (m, d)" by fastforce
  note ys = year_of_spec [OF y]
  have "yd < sum_list (month_days y)" using ys by (simp add: sum_month_days)
  note ms = month_of_spec [OF this m]
  have small: "y < 1000000" using assms y by (rule year_bound)
  have "month_days y ! m \<le> 31"
    using ms by (auto simp: month_days_def less_Suc_eq numeral_eq_Suc nth_Cons split: nat.splits)
  then have d: "Suc d < 100" using ms by linarith
  have m12: "m < 12" using ms by simp
  let ?r = "t mod ms_per_day"
  have r: "?r < 86400000" by (simp add: ms_per_day_def)
  have h: "?r div 3600000 < 24" using r by (simp add: less_mult_imp_div_less)
  have split: "?r = ?r div 3600000 * 3600000 + ?r div 60000 mod 60 * 60000 + ?r div 1000 mod 60 * 1000 + ?r mod 1000"
  proof -
    have 1: "?r = ?r div 1000 * 1000 + ?r mod 1000" by (rule div_mult_mod_eq [symmetric])
    have 2: "?r div 1000 = ?r div 60000 * 60 + ?r div 1000 mod 60"
      using div_mult_mod_eq [of "?r div 1000" 60] by (simp add: div_mult2_eq [symmetric])
    have 3: "?r div 60000 = ?r div 3600000 * 60 + ?r div 60000 mod 60"
      using div_mult_mod_eq [of "?r div 60000" 60] by (simp add: div_mult2_eq [symmetric])
    from 1 2 3 show ?thesis by linarith
  qed
  have "t div ms_per_day = years_days 1970 (y - 1970) + sum_list (take m (month_days y)) + d"
    using ys ms by simp
  then have "(years_days 1970 (y - 1970) + sum_list (take m (month_days y)) + d) * ms_per_day + ?r = t"
    using div_mult_mod_eq [of t ms_per_day] by (simp only:)
  then have "(years_days 1970 (y - 1970) + sum_list (take m (month_days y)) + d) * ms_per_day
      + (?r div 3600000 * 3600000 + ?r div 60000 mod 60 * 60000 + ?r div 1000 mod 60 * 1000 + ?r mod 1000) = t"
    by (simp only: split [symmetric])
  then have t: "(years_days 1970 (y - 1970) + sum_list (take m (month_days y)) + d) * ms_per_day
      + ?r div 3600000 * 3600000 + ?r div 60000 mod 60 * 60000 + ?r div 1000 mod 60 * 1000 + ?r mod 1000 = t"
    by (simp only: add.assoc)
  have b: "build_time y (Suc m) (Suc d) (?r div 3600000) (?r div 60000 mod 60) (?r div 1000 mod 60) (?r mod 1000) = Some t"
    using ys ms m12 h t by (simp add: build_time_def)
  have e: "iso_text t = year_text y @ CHR ''-'' # pad 2 (Suc m) @ CHR ''-'' # pad 2 (Suc d) @ CHR ''T'' #
         pad 2 (?r div 3600000) @ CHR '':'' # pad 2 (?r div 60000 mod 60) @ CHR '':'' #
         pad 2 (?r div 1000 mod 60) @ CHR ''.'' # pad 3 (?r mod 1000) @ [CHR ''Z'']"
    by (simp only: iso_text_def y m Let_def case_prod_conv append_Cons append_Nil)
  have n: "Suc m < 10 ^ 2" "Suc d < 10 ^ 2" "?r div 3600000 < 10 ^ 2" "?r div 60000 mod 60 < 10 ^ 2"
    "?r div 1000 mod 60 < 10 ^ 2" "?r mod 1000 < 10 ^ 3"
    using m12 d h by (simp_all add: less_trans [of _ 60 100])
  show ?thesis
    unfolding e parse_iso_def read_year_text [OF small]
    by (simp only: Option.bind.simps case_prod_conv read_char_Cons n [THEN read_num_pad] b refl if_True simp_thms)
qed

lemma parse_toISOString: "toISOString t = Some s \<Longrightarrow> parse_iso s = Some t"
  by (auto simp: toISOString_def parse_iso_text split: if_splits)

lemma toISOString_inj: "toISOString t = Some s \<Longrightarrow> toISOString u = Some s \<Longrightarrow> t = u"
  by (metis parse_toISOString option.inject)

end
