(* ===== verification/Policy.thy ===== *)
theory Policy
  imports Risk
begin

section \<open>Policy documents, rule matching and evaluation\<close>

text \<open>
  Models src/policy/schema.ts (the document types and the validator, on the value YAML
  parsing gives), src/policy/matcher.ts and src/policy/evaluator.ts.
\<close>

subsection \<open>Types\<close>

datatype decision = allow | ask | deny

record policy_rule =
  rule_id :: string
  rule_priority :: int
  rule_description :: "string option"
  rule_server :: string
  rule_tools :: "string list"
  rule_decision :: decision
  rule_tags :: "risk_tag list"

record policy_defaults =
  approval_ttl_seconds :: int
  tool_timeout_seconds :: int

record policy_document =
  pol_version :: int
  pol_defaults :: policy_defaults
  pol_rules :: "policy_rule list"

text \<open>\<open>DECISION_RANK\<close> orders decisions from the weakest to the strictest.\<close>

fun decision_rank :: "decision \<Rightarrow> nat" where
  "decision_rank allow = 0"
| "decision_rank ask = 1"
| "decision_rank deny = 2"

instantiation decision :: linorder
begin

definition less_eq_decision :: "decision \<Rightarrow> decision \<Rightarrow> bool" where
  "less_eq_decision a b \<longleftrightarrow> decision_rank a \<le> decision_rank b"

definition less_decision :: "decision \<Rightarrow> decision \<Rightarrow> bool" where
  "less_decision a b \<longleftrightarrow> decision_rank a < decision_rank b"

lemma decision_rank_inj: "decision_rank a = decision_rank b \<Longrightarrow> a = b"
  by (cases a; cases b) auto

instance
  by standard (auto simp: less_eq_decision_def less_decision_def dest: decision_rank_inj)

end

subsection \<open>Validation of the document\<close>

text \<open>
  \<open>PolicyDocumentSchema.parse\<close> on the JavaScript value of the YAML text.  The schema is
  strict: an unknown property is an error; absent properties take their default.  A failure
  is \<open>PolicyInvalid\<close> (the code adds the first issue's path and message to the text of the
  error).  Strings are compared by code unit length.
\<close>

datatype policy_error = PolicyTooLarge | PolicyYaml | PolicyInvalid | PolicyConflict

definition str_between :: "nat \<Rightarrow> nat \<Rightarrow> jsval \<Rightarrow> string option" where
  "str_between lo hi v =
     (case v of JStr s \<Rightarrow> if lo \<le> length s \<and> length s \<le> hi then Some s else None | _ \<Rightarrow> None)"

fun all_some :: "'a option list \<Rightarrow> 'a list option" where
  "all_some [] = Some []"
| "all_some (None # xs) = None"
| "all_some (Some x # xs) = map_option (Cons x) (all_some xs)"

fun parse_decision :: "jsval \<Rightarrow> decision option" where
  "parse_decision (JStr s) =
     (if s = ''allow'' then Some allow else if s = ''ask'' then Some ask
      else if s = ''deny'' then Some deny else None)"
| "parse_decision _ = None"

definition all_tags :: "risk_tag list" where
  "all_tags = [local_read, local_write, destructive, external_side_effect, credential_access,
               privileged_target, broad_target, shell_execution, open_world]"

fun parse_tag :: "jsval \<Rightarrow> risk_tag option" where
  "parse_tag (JStr s) = find (\<lambda>t. tag_name t = s) all_tags"
| "parse_tag _ = None"

fun parse_match :: "jsval \<Rightarrow> (string \<times> string list) option" where
  "parse_match (JObj kvs) =
     (case (str_between 1 256 (own_prop kvs ''server''), own_prop kvs ''tools'') of
        (Some server, JArr ts) \<Rightarrow>
          (case all_some (map (str_between 1 256) ts) of
             Some tools \<Rightarrow>
               if only_keys [''server'', ''tools''] kvs \<and> 1 \<le> length tools \<and> length tools \<le> 256
               then Some (server, tools) else None
           | None \<Rightarrow> None)
      | _ \<Rightarrow> None)"
| "parse_match _ = None"

fun parse_priority :: "jsval \<Rightarrow> int option" where
  "parse_priority JUndef = Some 0"
| "parse_priority (JNum (NInt i)) = (if \<bar>i\<bar> \<le> 9007199254740991 then Some i else None)"
| "parse_priority _ = None"

definition parse_description :: "jsval \<Rightarrow> string option option" where
  "parse_description v =
     (case v of JUndef \<Rightarrow> Some None | _ \<Rightarrow> map_option Some (str_between 1 1000 v))"

fun parse_tags :: "jsval \<Rightarrow> risk_tag list option" where
  "parse_tags JUndef = Some []"
| "parse_tags (JArr vs) = all_some (map parse_tag vs)"
| "parse_tags _ = None"

definition parse_rule_id :: "jsval \<Rightarrow> string option" where
  "parse_rule_id v = (case v of JStr s \<Rightarrow> if is_slug s then Some s else None | _ \<Rightarrow> None)"

fun parse_rule :: "jsval \<Rightarrow> policy_rule option" where
  "parse_rule (JObj kvs) =
     (case (parse_rule_id (own_prop kvs ''id''), parse_priority (own_prop kvs ''priority''),
            parse_description (own_prop kvs ''description''), parse_match (own_prop kvs ''match''),
            parse_decision (own_prop kvs ''decision''), parse_tags (own_prop kvs ''risk_tags'')) of
        (Some i, Some p, Some desc, Some (server, tools), Some d, Some tags) \<Rightarrow>
          if only_keys [''id'', ''priority'', ''description'', ''match'', ''decision'', ''risk_tags''] kvs
          then Some \<lparr>rule_id = i, rule_priority = p, rule_description = desc, rule_server = server,
                     rule_tools = tools, rule_decision = d, rule_tags = tags\<rparr>
          else None
      | _ \<Rightarrow> None)"
| "parse_rule _ = None"

definition parse_seconds :: "int \<Rightarrow> jsval \<Rightarrow> int option" where
  "parse_seconds dflt v =
     (case v of
        JUndef \<Rightarrow> Some dflt
      | JNum (NInt i) \<Rightarrow> if 0 < i \<and> i \<le> 3600 then Some i else None
      | _ \<Rightarrow> None)"

fun parse_defaults :: "jsval \<Rightarrow> policy_defaults option" where
  "parse_defaults JUndef = Some \<lparr>approval_ttl_seconds = 120, tool_timeout_seconds = 60\<rparr>"
| "parse_defaults (JObj kvs) =
     (case (parse_seconds 120 (own_prop kvs ''approval_ttl_seconds''),
            parse_seconds 60 (own_prop kvs ''tool_timeout_seconds'')) of
        (Some a, Some t) \<Rightarrow>
          if only_keys [''decision'', ''approval_ttl_seconds'', ''tool_timeout_seconds''] kvs
             \<and> own_prop kvs ''decision'' \<in> {JUndef, JStr ''ask''}
          then Some \<lparr>approval_ttl_seconds = a, tool_timeout_seconds = t\<rparr> else None
      | _ \<Rightarrow> None)"
| "parse_defaults _ = None"

fun parse_rules :: "jsval \<Rightarrow> policy_rule list option" where
  "parse_rules JUndef = Some []"
| "parse_rules (JArr vs) = (if length vs \<le> 1000 then all_some (map parse_rule vs) else None)"
| "parse_rules _ = None"

fun parse_policy_document :: "jsval \<Rightarrow> policy_error + policy_document" where
  "parse_policy_document (JObj kvs) =
     (case (parse_defaults (own_prop kvs ''defaults''), parse_rules (own_prop kvs ''rules'')) of
        (Some d, Some rs) \<Rightarrow>
          if only_keys [''version'', ''defaults'', ''rules''] kvs \<and> own_prop kvs ''version'' = JInt 1
             \<and> distinct (map rule_id rs)
          then Inr \<lparr>pol_version = 1, pol_defaults = d, pol_rules = rs\<rparr> else Inl PolicyInvalid
      | _ \<Rightarrow> Inl PolicyInvalid)"
| "parse_policy_document _ = Inl PolicyInvalid"

subsection \<open>Matching\<close>

text \<open>
  \<open>matchSpecificity\<close>: 2 for the exact name, 1 for a pattern with \<open>*\<close> whose regular
  expression (every other character literal, \<open>*\<close> read as \<open>.*\<close>, anchored at both ends)
  matches.  The dot of a regular expression matches no line terminator.
\<close>

definition is_dot :: "char \<Rightarrow> bool" where
  "is_dot c \<longleftrightarrow> code c \<noteq> 10 \<and> code c \<noteq> 13"

fun glob :: "string \<Rightarrow> string \<Rightarrow> bool" where
  "glob [] [] = True"
| "glob [] (c # cs) = False"
| "glob (p # ps) [] = (p = CHR ''*'' \<and> glob ps [])"
| "glob (p # ps) (c # cs) =
     (if p = CHR ''*'' then glob ps (c # cs) \<or> (is_dot c \<and> glob (p # ps) cs)
      else p = c \<and> glob ps cs)"

definition matchSpecificity :: "string \<Rightarrow> string \<Rightarrow> nat option" where
  "matchSpecificity pattern v =
     (if pattern = v then Some 2
      else if CHR ''*'' \<notin> set pattern then None
      else if glob pattern v then Some 1 else None)"

record ranked_rule =
  rr_rule :: policy_rule
  rr_specificity :: nat

definition rank_rule :: "string \<Rightarrow> string \<Rightarrow> policy_rule \<Rightarrow> ranked_rule list" where
  "rank_rule serverId toolName r =
     (case matchSpecificity (rule_server r) serverId of
        None \<Rightarrow> []
      | Some s \<Rightarrow>
          (case List.map_filter (\<lambda>p. matchSpecificity p toolName) (rule_tools r) of
             [] \<Rightarrow> []
           | t # ts \<Rightarrow> [\<lparr>rr_rule = r, rr_specificity = s + Max (set (t # ts))\<rparr>]))"

definition ranked_before :: "ranked_rule \<Rightarrow> ranked_rule \<Rightarrow> bool" where
  "ranked_before l r =
     (let a = rr_rule l; b = rr_rule r
      in if rule_priority b \<noteq> rule_priority a then rule_priority b < rule_priority a
         else if rr_specificity r \<noteq> rr_specificity l then rr_specificity r < rr_specificity l
         else if rule_decision b \<noteq> rule_decision a
           then decision_rank (rule_decision b) < decision_rank (rule_decision a)
         else locale_lt (rule_id a) (rule_id b))"

datatype match_reason = matched_rule | default_ask

record policy_match =
  pm_decision :: decision
  pm_rule :: "policy_rule option"
  pm_reason :: match_reason

definition ranked_rules :: "policy_document \<Rightarrow> string \<Rightarrow> string \<Rightarrow> ranked_rule list" where
  "ranked_rules p serverId toolName = concat (map (rank_rule serverId toolName) (pol_rules p))"

definition matchPolicy :: "policy_document \<Rightarrow> string \<Rightarrow> string \<Rightarrow> policy_match" where
  "matchPolicy p serverId toolName =
     (case isort ranked_before (ranked_rules p serverId toolName) of
        [] \<Rightarrow> \<lparr>pm_decision = ask, pm_rule = None, pm_reason = default_ask\<rparr>
      | w # _ \<Rightarrow> \<lparr>pm_decision = rule_decision (rr_rule w), pm_rule = Some (rr_rule w),
                  pm_reason = matched_rule\<rparr>)"

subsection \<open>Evaluation\<close>

record policy_input =
  pi_serverId :: string
  pi_toolName :: string
  pi_arguments :: jsval
  pi_annotations :: "tool_annotations option"

datatype reason_code = Match_reason match_reason | risk_escalation

record policy_evaluation =
  pe_base :: decision
  pe_effective :: decision
  pe_matchedRuleId :: "string option"
  pe_reasonCodes :: "reason_code list"
  pe_risk :: risk_assessment

definition evaluatePolicy :: "policy_document \<Rightarrow> policy_input \<Rightarrow> policy_evaluation" where
  "evaluatePolicy p inp =
     (let m = matchPolicy p (pi_serverId inp) (pi_toolName inp);
          risk = scoreRisk \<lparr>ri_toolName = pi_toolName inp, ri_arguments = pi_arguments inp,
                   ri_policyTags = (case pm_rule m of None \<Rightarrow> [] | Some r \<Rightarrow> rule_tags r),
                   ri_annotations = pi_annotations inp\<rparr>;
          shouldEscalate = (pm_decision m = allow \<and> 60 \<le> ra_score risk)
      in \<lparr>pe_base = pm_decision m,
          pe_effective = (if shouldEscalate then ask else pm_decision m),
          pe_matchedRuleId = map_option rule_id (pm_rule m),
          pe_reasonCodes = Match_reason (pm_reason m) # (if shouldEscalate then [risk_escalation] else []),
          pe_risk = risk\<rparr>)"

subsection \<open>The language of a pattern\<close>

fun glob_lang :: "string \<Rightarrow> string set" where
  "glob_lang [] = {[]}"
| "glob_lang (p # ps) =
     (if p = CHR ''*'' then {u @ w | u w. list_all is_dot u \<and> w \<in> glob_lang ps}
      else {p # w | w. w \<in> glob_lang ps})"

lemma star_lang_Nil: "[] \<in> glob_lang (CHR ''*'' # ps) \<longleftrightarrow> [] \<in> glob_lang ps"
  by auto

lemma star_lang_Cons:
  "c # cs \<in> glob_lang (CHR ''*'' # ps) \<longleftrightarrow>
     c # cs \<in> glob_lang ps \<or> (is_dot c \<and> cs \<in> glob_lang (CHR ''*'' # ps))"
proof
  assume "c # cs \<in> glob_lang (CHR ''*'' # ps)"
  then obtain u w where u: "c # cs = u @ w" "list_all is_dot u" "w \<in> glob_lang ps" by auto
  then show "c # cs \<in> glob_lang ps \<or> (is_dot c \<and> cs \<in> glob_lang (CHR ''*'' # ps))"
    by (cases u) auto
next
  assume "c # cs \<in> glob_lang ps \<or> (is_dot c \<and> cs \<in> glob_lang (CHR ''*'' # ps))"
  then show "c # cs \<in> glob_lang (CHR ''*'' # ps)"
  proof
    assume "is_dot c \<and> cs \<in> glob_lang (CHR ''*'' # ps)"
    then obtain u w where "cs = u @ w" "list_all is_dot (c # u)" "w \<in> glob_lang ps" by auto
    then have "\<exists>u w. c # cs = u @ w \<and> list_all is_dot u \<and> w \<in> glob_lang ps"
      by (intro exI [of _ "c # u"] exI [of _ w]) simp
    then show ?thesis by simp
  qed (auto intro: exI [of _ "[]"])
qed

lemma glob_iff: "glob p v \<longleftrightarrow> v \<in> glob_lang p"
proof (induction p v rule: glob.induct)
  case (4 p ps c cs)
  then show ?case
    by (cases "p = CHR ''*''") (simp_all only: glob.simps star_lang_Cons if_True if_False, auto)
qed auto

text \<open>
  A pattern of a rule matches a name exactly when the name is in the language of the
  pattern, where \<open>*\<close> stands for any run of characters other than line breaks and every other
  character for itself; an equal name ranks as exact (2) even when the pattern has a star.
\<close>

theorem matchSpecificity_lang:
  "matchSpecificity p v =
     (if p = v then Some 2 else if CHR ''*'' \<in> set p \<and> v \<in> glob_lang p then Some 1 else None)"
  by (simp add: matchSpecificity_def glob_iff)

subsection \<open>The order of rules\<close>

lemma strict_weak_ranked_before: "strict_weak ranked_before"
proof -
  have l: "strict_weak (\<lambda>x y. locale_lt (rule_id x) (rule_id y))" by (rule strict_weak_locale_lt)
  show ?thesis
    unfolding strict_weak_def
  proof (intro conjI allI impI)
    fix x y assume "ranked_before x y"
    then show "\<not> ranked_before y x"
      using strict_weak_asym [OF l, of "rr_rule x" "rr_rule y"]
      by (auto simp: ranked_before_def Let_def split: if_splits)
  next
    fix x y z assume "\<not> ranked_before y x" "\<not> ranked_before z y"
    then show "\<not> ranked_before z x"
      using strict_weak_trans [OF l, of "rr_rule y" "rr_rule x" "rr_rule z"] decision_rank_inj
      by (auto simp: ranked_before_def Let_def split: if_splits; fastforce)
  qed
qed

lemma rank_rule_rule: "w \<in> set (rank_rule s t r) \<Longrightarrow> rr_rule w = r"
  by (auto simp: rank_rule_def split: option.splits list.splits)

lemma ranked_rules_mem: "w \<in> set (ranked_rules p s t) \<Longrightarrow> rr_rule w \<in> set (pol_rules p)"
  by (auto simp: ranked_rules_def dest: rank_rule_rule)

text \<open>A rule applies to a call when its server pattern and one of its tool patterns match.\<close>

definition rule_applies :: "policy_rule \<Rightarrow> string \<Rightarrow> string \<Rightarrow> bool" where
  "rule_applies r s t \<longleftrightarrow>
     matchSpecificity (rule_server r) s \<noteq> None \<and> (\<exists>p \<in> set (rule_tools r). matchSpecificity p t \<noteq> None)"

lemma map_filter_ne: "List.map_filter f xs = [] \<longleftrightarrow> (\<forall>x \<in> set xs. f x = None)"
  by (induction xs) (auto simp: List.map_filter_def)

lemma rank_rule_ne: "rank_rule s t r \<noteq> [] \<longleftrightarrow> rule_applies r s t"
  using map_filter_ne [of "\<lambda>p. matchSpecificity p t" "rule_tools r"]
  by (auto simp: rank_rule_def rule_applies_def split: option.splits list.splits)

lemma ranked_rules_applies:
  "(\<exists>w \<in> set (ranked_rules p s t). rr_rule w = r) \<longleftrightarrow> r \<in> set (pol_rules p) \<and> rule_applies r s t"
proof
  assume "\<exists>w \<in> set (ranked_rules p s t). rr_rule w = r"
  then obtain w q where "w \<in> set (rank_rule s t q)" "q \<in> set (pol_rules p)" "rr_rule w = r"
    by (auto simp: ranked_rules_def)
  then show "r \<in> set (pol_rules p) \<and> rule_applies r s t"
    using rank_rule_rule rank_rule_ne [of s t q] by fastforce
next
  assume r: "r \<in> set (pol_rules p) \<and> rule_applies r s t"
  then obtain w where "w \<in> set (rank_rule s t r)"
    using rank_rule_ne [of s t r] by (cases "rank_rule s t r") auto
  with r show "\<exists>w \<in> set (ranked_rules p s t). rr_rule w = r"
    using rank_rule_rule by (fastforce simp: ranked_rules_def)
qed

lemma matchPolicy_None:
  "pm_rule (matchPolicy p s t) = None \<longleftrightarrow> (\<forall>r \<in> set (pol_rules p). \<not> rule_applies r s t)"
proof -
  have "pm_rule (matchPolicy p s t) = None \<longleftrightarrow> ranked_rules p s t = []"
    by (auto simp: matchPolicy_def split: list.splits)
  also have "\<dots> \<longleftrightarrow> (\<forall>r \<in> set (pol_rules p). \<not> rule_applies r s t)"
    using rank_rule_ne by (auto simp: ranked_rules_def)
  finally show ?thesis .
qed

lemma matchPolicy_Some:
  assumes "pm_rule (matchPolicy p s t) = Some r"
  obtains w where "w \<in> set (ranked_rules p s t)" "rr_rule w = r"
    "pm_decision (matchPolicy p s t) = rule_decision r"
    "\<forall>x \<in> set (ranked_rules p s t). \<not> ranked_before x w"
proof -
  obtain w ws where w: "isort ranked_before (ranked_rules p s t) = w # ws"
    using assms by (auto simp: matchPolicy_def split: list.splits)
  have "w \<in> set (isort ranked_before (ranked_rules p s t))" using w by simp
  then have "w \<in> set (ranked_rules p s t)" by simp
  moreover have "rr_rule w = r" "pm_decision (matchPolicy p s t) = rule_decision r"
    using assms w by (auto simp: matchPolicy_def)
  ultimately show thesis
    using that hd_isort_min [OF strict_weak_ranked_before w] by blast
qed

text \<open>
  The winning rule is maximal: it applies to the call, and among the rules that apply no
  rule has a higher priority, none of the same priority is more specific, and none of the same
  priority and specificity has a stricter decision.
\<close>

theorem matchPolicy_dominant:
  assumes "pm_rule (matchPolicy p s t) = Some r"
  shows "r \<in> set (pol_rules p) \<and> rule_applies r s t \<and> pm_decision (matchPolicy p s t) = rule_decision r
    \<and> (\<exists>w \<in> set (ranked_rules p s t). rr_rule w = r \<and>
        (\<forall>x \<in> set (ranked_rules p s t).
           rule_priority (rr_rule x) < rule_priority r
           \<or> (rule_priority (rr_rule x) = rule_priority r \<and>
              (rr_specificity x < rr_specificity w
               \<or> (rr_specificity x = rr_specificity w \<and> rule_decision (rr_rule x) \<le> rule_decision r)))))"
proof -
  obtain w where w: "w \<in> set (ranked_rules p s t)" "rr_rule w = r"
    "pm_decision (matchPolicy p s t) = rule_decision r"
    "\<forall>x \<in> set (ranked_rules p s t). \<not> ranked_before x w"
    using matchPolicy_Some [OF assms] by blast
  have "r \<in> set (pol_rules p) \<and> rule_applies r s t" using w(1,2) ranked_rules_applies by blast
  moreover have "rule_priority (rr_rule x) < rule_priority r
           \<or> (rule_priority (rr_rule x) = rule_priority r \<and>
              (rr_specificity x < rr_specificity w
               \<or> (rr_specificity x = rr_specificity w \<and> rule_decision (rr_rule x) \<le> rule_decision r)))"
    if "x \<in> set (ranked_rules p s t)" for x
    using w(2,4) that by (auto simp: ranked_before_def Let_def less_eq_decision_def split: if_splits)
  ultimately show ?thesis using w by blast
qed

definition demo_rule :: "string \<Rightarrow> decision \<Rightarrow> policy_rule" where
  "demo_rule i d = \<lparr>rule_id = i, rule_priority = 0, rule_description = None, rule_server = ''*'',
     rule_tools = [''read_file''], rule_decision = d, rule_tags = [local_read]\<rparr>"

definition demo_policy :: policy_document where
  "demo_policy = \<lparr>pol_version = 1, pol_defaults = \<lparr>approval_ttl_seconds = 120, tool_timeout_seconds = 60\<rparr>,
     pol_rules = [demo_rule ''a'' allow, demo_rule ''b'' deny]\<rparr>"

lemma demo_match: "pm_rule (matchPolicy demo_policy ''fs'' ''read_file'') = Some (demo_rule ''b'' deny)"
  by code_simp

theorem matchPolicy_dominant_witness:
  "rule_applies (demo_rule ''b'' deny) ''fs'' ''read_file''
   \<and> pm_decision (matchPolicy demo_policy ''fs'' ''read_file'') = deny"
  using matchPolicy_dominant [OF demo_match] by (simp add: demo_rule_def)

subsection \<open>Validated documents\<close>

text \<open>What every accepted document satisfies.\<close>

definition wf_rule :: "policy_rule \<Rightarrow> bool" where
  "wf_rule r \<longleftrightarrow> is_slug (rule_id r) \<and> \<bar>rule_priority r\<bar> \<le> 9007199254740991
     \<and> (case rule_description r of None \<Rightarrow> True | Some d \<Rightarrow> 1 \<le> length d \<and> length d \<le> 1000)
     \<and> 1 \<le> length (rule_server r) \<and> length (rule_server r) \<le> 256
     \<and> 1 \<le> length (rule_tools r) \<and> length (rule_tools r) \<le> 256
     \<and> list_all (\<lambda>t. 1 \<le> length t \<and> length t \<le> 256) (rule_tools r)"

definition wf_policy :: "policy_document \<Rightarrow> bool" where
  "wf_policy p \<longleftrightarrow> pol_version p = 1
     \<and> 0 < approval_ttl_seconds (pol_defaults p) \<and> approval_ttl_seconds (pol_defaults p) \<le> 3600
     \<and> 0 < tool_timeout_seconds (pol_defaults p) \<and> tool_timeout_seconds (pol_defaults p) \<le> 3600
     \<and> length (pol_rules p) \<le> 1000 \<and> list_all wf_rule (pol_rules p) \<and> distinct (map rule_id (pol_rules p))"

text \<open>The document as a JavaScript value, as \<open>policyIdentity\<close> serialises it.\<close>

fun decision_name :: "decision \<Rightarrow> string" where
  "decision_name allow = ''allow''"
| "decision_name ask = ''ask''"
| "decision_name deny = ''deny''"

definition rule_json :: "policy_rule \<Rightarrow> jsval" where
  "rule_json r = JObj
     ([(''id'', JStr (rule_id r)), (''priority'', JInt (rule_priority r))]
      @ (case rule_description r of None \<Rightarrow> [] | Some d \<Rightarrow> [(''description'', JStr d)])
      @ [(''match'', JObj [(''server'', JStr (rule_server r)), (''tools'', JArr (map JStr (rule_tools r)))]),
         (''decision'', JStr (decision_name (rule_decision r))),
         (''risk_tags'', JArr (map (JStr \<circ> tag_name) (rule_tags r)))])"

definition policy_json :: "policy_document \<Rightarrow> jsval" where
  "policy_json p = JObj
     [(''version'', JInt (pol_version p)),
      (''defaults'', JObj
         [(''decision'', JStr ''ask''),
          (''approval_ttl_seconds'', JInt (approval_ttl_seconds (pol_defaults p))),
          (''tool_timeout_seconds'', JInt (tool_timeout_seconds (pol_defaults p)))]),
      (''rules'', JArr (map rule_json (pol_rules p)))]"

lemma all_some_iff: "all_some os = Some xs \<longleftrightarrow> os = map Some xs"
  by (induction os arbitrary: xs rule: all_some.induct) auto

lemma all_some_map: "all_some (map f xs) = Some xs \<longleftrightarrow> (\<forall>x \<in> set xs. f x = Some x)"
  by (simp add: all_some_iff)

lemma str_between_Some:
  "str_between lo hi v = Some s \<longleftrightarrow> v = JStr s \<and> lo \<le> length s \<and> length s \<le> hi"
  by (cases v) (auto simp: str_between_def)

lemma parse_tag_name: "parse_tag (JStr (tag_name t)) = Some t"
  by (cases t) (simp_all add: all_tags_def)

lemma parse_decision_name: "parse_decision (JStr (decision_name d)) = Some d"
  by (cases d) simp_all

lemma parse_match_wf:
  assumes "parse_match v = Some (server, tools)"
  shows "1 \<le> length server \<and> length server \<le> 256 \<and> 1 \<le> length tools \<and> length tools \<le> 256
    \<and> list_all (\<lambda>t. 1 \<le> length t \<and> length t \<le> 256) tools"
proof -
  have "list_all (\<lambda>t. 1 \<le> length t \<and> length t \<le> 256) ts"
    if "map (str_between 1 256) vs = map Some ts" for vs ts
    using that by (induction vs arbitrary: ts) (auto simp: str_between_Some)
  then show ?thesis
    using assms by (cases v) (auto simp: all_some_iff str_between_Some split: option.splits jsval.splits if_splits)
qed

lemma parse_rule_wf:
  assumes "parse_rule v = Some r" shows "wf_rule r"
proof -
  obtain kvs where v: "v = JObj kvs" using assms by (cases v) auto
  obtain server tools where m: "parse_match (own_prop kvs ''match'') = Some (server, tools)"
    "rule_server r = server" "rule_tools r = tools"
    using assms v by (auto split: option.splits if_splits)
  have i: "parse_rule_id (own_prop kvs ''id'') = Some (rule_id r)"
    and p: "parse_priority (own_prop kvs ''priority'') = Some (rule_priority r)"
    and d: "parse_description (own_prop kvs ''description'') = Some (rule_description r)"
    using assms v by (auto split: option.splits if_splits)
  have "is_slug (rule_id r)" using i by (auto simp: parse_rule_id_def split: jsval.splits if_splits)
  moreover have "\<bar>rule_priority r\<bar> \<le> 9007199254740991"
    using p by (auto elim!: parse_priority.elims split: if_splits)
  moreover have "case rule_description r of None \<Rightarrow> True | Some s \<Rightarrow> 1 \<le> length s \<and> length s \<le> 1000"
    using d by (auto simp: parse_description_def str_between_Some split: jsval.splits option.splits)
  ultimately show ?thesis
    using parse_match_wf [OF m(1)] m(2,3) by (simp add: wf_rule_def)
qed

lemma parse_rules_wf: "parse_rules v = Some rs \<Longrightarrow> length rs \<le> 1000 \<and> list_all wf_rule rs"
proof (induction v rule: parse_rules.induct)
  case (2 vs)
  then have len: "length vs \<le> 1000" and eq: "map parse_rule vs = map Some rs"
    by (auto simp: all_some_iff split: if_splits)
  have "list_all wf_rule rs"
    using eq by (induction vs arbitrary: rs) (auto dest: parse_rule_wf)
  moreover have "length rs = length vs" using eq by (metis length_map)
  ultimately show ?case using len by simp
qed auto

lemma parse_seconds_bounds: "parse_seconds d v = Some i \<Longrightarrow> 0 < d \<Longrightarrow> d \<le> 3600 \<Longrightarrow> 0 < i \<and> i \<le> 3600"
  by (auto simp: parse_seconds_def split: jsval.splits jnum.splits if_splits)

lemma parse_policy_wf:
  assumes "parse_policy_document v = Inr p" shows "wf_policy p"
proof -
  obtain kvs where v: "v = JObj kvs" using assms by (cases v) auto
  obtain d rs where d: "parse_defaults (own_prop kvs ''defaults'') = Some d"
    and rs: "parse_rules (own_prop kvs ''rules'') = Some rs"
    and p: "p = \<lparr>pol_version = 1, pol_defaults = d, pol_rules = rs\<rparr>" "distinct (map rule_id rs)"
    using assms v by (auto split: option.splits if_splits)
  have "0 < approval_ttl_seconds d \<and> approval_ttl_seconds d \<le> 3600 \<and>
        0 < tool_timeout_seconds d \<and> tool_timeout_seconds d \<le> 3600"
    using d by (auto elim!: parse_defaults.elims dest!: parse_seconds_bounds split: option.splits if_splits)
  with p parse_rules_wf [OF rs] show ?thesis by (simp add: wf_policy_def)
qed

lemma parse_match_json:
  assumes "wf_rule r"
  shows "parse_match (JObj [(''server'', JStr (rule_server r)), (''tools'', JArr (map JStr (rule_tools r)))])
     = Some (rule_server r, rule_tools r)"
proof -
  have "str_between 1 256 (JStr (rule_server r)) = Some (rule_server r)"
    using assms by (auto simp: wf_rule_def str_between_def)
  moreover have "all_some (map (str_between 1 256) (map JStr (rule_tools r))) = Some (rule_tools r)"
    using assms by (auto simp: all_some_map wf_rule_def list_all_iff str_between_def)
  ultimately show ?thesis
    using assms by (simp add: own_prop_def only_keys_def wf_rule_def)
qed

lemma own_prop_rule_json:
  assumes "rule_json r = JObj kvs"
  shows "own_prop kvs ''id'' = JStr (rule_id r)" "own_prop kvs ''priority'' = JInt (rule_priority r)"
    "own_prop kvs ''description'' = (case rule_description r of None \<Rightarrow> JUndef | Some d \<Rightarrow> JStr d)"
    "own_prop kvs ''match'' =
       JObj [(''server'', JStr (rule_server r)), (''tools'', JArr (map JStr (rule_tools r)))]"
    "own_prop kvs ''decision'' = JStr (decision_name (rule_decision r))"
    "own_prop kvs ''risk_tags'' = JArr (map (JStr \<circ> tag_name) (rule_tags r))"
    "only_keys [''id'', ''priority'', ''description'', ''match'', ''decision'', ''risk_tags''] kvs"
  using assms
  by (cases "rule_description r"; auto simp: rule_json_def own_prop_def only_keys_def)+

lemma parse_rule_json:
  assumes "wf_rule r" shows "parse_rule (rule_json r) = Some r"
proof -
  obtain kvs where k: "rule_json r = JObj kvs" by (simp add: rule_json_def)
  have "parse_rule_id (JStr (rule_id r)) = Some (rule_id r)"
    "parse_priority (JInt (rule_priority r)) = Some (rule_priority r)"
    "parse_description (case rule_description r of None \<Rightarrow> JUndef | Some d \<Rightarrow> JStr d) = Some (rule_description r)"
    using assms by (auto simp: wf_rule_def parse_rule_id_def parse_description_def str_between_def
        split: option.splits)
  moreover have "parse_tags (JArr (map (JStr \<circ> tag_name) (rule_tags r))) = Some (rule_tags r)"
    by (simp add: all_some_iff parse_tag_name del: parse_tag.simps)
  ultimately show ?thesis
    unfolding k parse_rule.simps own_prop_rule_json [OF k]
    using own_prop_rule_json(7) [OF k] parse_match_json [OF assms] parse_decision_name
    by simp
qed

text \<open>
  Writing a well-formed policy as JSON data and validating it again gives the same policy;
  every document the validator accepts is well-formed (bounded times and lengths, slug ids, no
  duplicate id), so the JSON form identifies an accepted policy.
\<close>

theorem policy_json_roundtrip:
  "(wf_policy p \<longrightarrow> parse_policy_document (policy_json p) = Inr p)
   \<and> (parse_policy_document v = Inr q \<longrightarrow> wf_policy q \<and> parse_policy_document (policy_json q) = Inr q)"
proof -
  have rt: "parse_policy_document (policy_json p) = Inr p" if wf: "wf_policy p" for p
  proof -
    have "parse_rules (JArr (map rule_json (pol_rules p))) = Some (pol_rules p)"
      using wf by (auto simp: wf_policy_def all_some_map list_all_iff parse_rule_json)
    moreover have "parse_defaults (JObj
         [(''decision'', JStr ''ask''),
          (''approval_ttl_seconds'', JInt (approval_ttl_seconds (pol_defaults p))),
          (''tool_timeout_seconds'', JInt (tool_timeout_seconds (pol_defaults p)))]) = Some (pol_defaults p)"
      using wf by (simp add: wf_policy_def own_prop_def only_keys_def parse_seconds_def)
    ultimately show ?thesis
      using wf by (simp add: policy_json_def own_prop_def only_keys_def wf_policy_def del: parse_defaults.simps parse_rules.simps)
  qed
  then show ?thesis using parse_policy_wf by blast
qed

theorem policy_json_roundtrip_witness: "parse_policy_document (policy_json demo_policy) = Inr demo_policy"
proof -
  have "wf_policy demo_policy" by code_simp
  then show ?thesis using policy_json_roundtrip [of demo_policy "JNull" demo_policy] by blast
qed

subsection \<open>Order independence and safety of the evaluation\<close>

lemma ranked_rules_mset:
  assumes "mset rs = mset (pol_rules p)"
  shows "mset (ranked_rules (p\<lparr>pol_rules := rs\<rparr>) s t) = mset (ranked_rules p s t)"
proof -
  have "mset (concat (map f xs)) = \<Sum>\<^sub># (image_mset (\<lambda>x. mset (f x)) (mset xs))" for f :: "policy_rule \<Rightarrow> ranked_rule list" and xs
    by (induction xs) auto
  with assms show ?thesis by (simp add: ranked_rules_def)
qed

lemma rank_rule_le1: "x \<in> set (rank_rule s t r) \<Longrightarrow> y \<in> set (rank_rule s t r) \<Longrightarrow> x = y"
proof -
  assume xy: "x \<in> set (rank_rule s t r)" "y \<in> set (rank_rule s t r)"
  have "length (rank_rule s t r) \<le> 1" by (simp add: rank_rule_def split: option.splits list.splits)
  with xy show "x = y" by (cases "rank_rule s t r") auto
qed

text \<open>
  The decision of a validated policy does not depend on the order in which its rules are
  written: any permutation of the rules gives the same match.
\<close>

theorem matchPolicy_order_independent:
  assumes "parse_policy_document v = Inr p" "mset rs = mset (pol_rules p)"
  shows "matchPolicy (p\<lparr>pol_rules := rs\<rparr>) s t = matchPolicy p s t"
proof -
  have wf: "wf_policy p" using assms(1) by (rule parse_policy_wf)
  have "isort ranked_before (ranked_rules p s t) = isort ranked_before (ranked_rules (p\<lparr>pol_rules := rs\<rparr>) s t)"
  proof (rule isort_mset_unique [OF strict_weak_ranked_before])
    show "mset (ranked_rules p s t) = mset (ranked_rules (p\<lparr>pol_rules := rs\<rparr>) s t)"
      using ranked_rules_mset [OF assms(2)] by simp
  next
    fix x y assume x: "x \<in> set (ranked_rules p s t)" and y: "y \<in> set (ranked_rules p s t)"
      and "\<not> ranked_before x y" "\<not> ranked_before y x"
    then have "\<not> locale_lt (rule_id (rr_rule x)) (rule_id (rr_rule y))"
      "\<not> locale_lt (rule_id (rr_rule y)) (rule_id (rr_rule x))"
      using decision_rank_inj [of "rule_decision (rr_rule x)" "rule_decision (rr_rule y)"]
      by (auto simp: ranked_before_def Let_def split: if_splits)
    moreover have "is_slug (rule_id (rr_rule x))" "is_slug (rule_id (rr_rule y))"
      using wf ranked_rules_mem [OF x] ranked_rules_mem [OF y] by (auto simp: wf_policy_def list_all_iff wf_rule_def)
    ultimately have "rule_id (rr_rule x) = rule_id (rr_rule y)"
      using locale_lt_total is_slug_chars by blast
    then have r: "rr_rule x = rr_rule y"
      using wf ranked_rules_mem [OF x] ranked_rules_mem [OF y]
      by (auto simp: wf_policy_def distinct_map dest: inj_onD)
    then show "x = y"
      using x y rank_rule_rule rank_rule_le1 unfolding ranked_rules_def by (auto; metis)
  qed
  then show ?thesis by (simp add: matchPolicy_def)
qed

theorem matchPolicy_order_independent_witness:
  "matchPolicy (demo_policy\<lparr>pol_rules := [demo_rule ''b'' deny, demo_rule ''a'' allow]\<rparr>) ''fs'' ''read_file''
   = matchPolicy demo_policy ''fs'' ''read_file''"
proof -
  have "parse_policy_document (policy_json demo_policy) = Inr demo_policy" by code_simp
  then show ?thesis
    by (rule matchPolicy_order_independent) (simp add: demo_policy_def)
qed

lemma evaluatePolicy_fields:
  "pe_base (evaluatePolicy p inp) = pm_decision (matchPolicy p (pi_serverId inp) (pi_toolName inp))"
  "pe_matchedRuleId (evaluatePolicy p inp) =
     map_option rule_id (pm_rule (matchPolicy p (pi_serverId inp) (pi_toolName inp)))"
  "pe_effective (evaluatePolicy p inp) =
     (if pe_base (evaluatePolicy p inp) = allow \<and> 60 \<le> ra_score (pe_risk (evaluatePolicy p inp))
      then ask else pe_base (evaluatePolicy p inp))"
  by (simp_all add: evaluatePolicy_def Let_def)

lemma matchPolicy_rule:
  "pm_rule (matchPolicy p s t) = None \<Longrightarrow> pm_decision (matchPolicy p s t) = ask"
  "pm_rule (matchPolicy p s t) = Some r \<Longrightarrow>
     r \<in> set (pol_rules p) \<and> rule_applies r s t \<and> pm_decision (matchPolicy p s t) = rule_decision r"
proof -
  show "pm_rule (matchPolicy p s t) = None \<Longrightarrow> pm_decision (matchPolicy p s t) = ask"
    by (auto simp: matchPolicy_def split: list.splits)
  assume "pm_rule (matchPolicy p s t) = Some r"
  then obtain w where w: "w \<in> set (ranked_rules p s t)" "rr_rule w = r"
    "pm_decision (matchPolicy p s t) = rule_decision r" using matchPolicy_Some by blast
  have "r \<in> set (pol_rules p) \<and> rule_applies r s t"
    using iffD1 [OF ranked_rules_applies, OF bexI [of "\<lambda>w. rr_rule w = r", OF w(2) w(1)]] .
  with w(3) show "r \<in> set (pol_rules p) \<and> rule_applies r s t \<and> pm_decision (matchPolicy p s t) = rule_decision r"
    by simp
qed

lemma evaluate_allows:
  assumes "pe_effective (evaluatePolicy p inp) = allow"
  shows "(\<exists>r \<in> set (pol_rules p). rule_applies r (pi_serverId inp) (pi_toolName inp) \<and> rule_decision r = allow
      \<and> pe_matchedRuleId (evaluatePolicy p inp) = Some (rule_id r)) \<and> ra_score (pe_risk (evaluatePolicy p inp)) < 60"
proof -
  let ?m = "matchPolicy p (pi_serverId inp) (pi_toolName inp)"
  have m: "pm_decision ?m = allow \<and> ra_score (pe_risk (evaluatePolicy p inp)) < 60"
    using assms evaluatePolicy_fields by (simp split: if_split_asm)
  then obtain r where "pm_rule ?m = Some r" using matchPolicy_rule(1) by fastforce
  with m matchPolicy_rule(2) [OF this] show ?thesis by (auto simp: evaluatePolicy_fields(2))
qed

text \<open>
  C6: evaluation fails closed.  A call is allowed only when a rule of the policy that applies to
  it says allow and its risk score is below 60; a deny stays a deny, evaluation never weakens
  the matched decision, and when no rule applies the decision is ask.
\<close>

theorem evaluatePolicy_safe:
  "(pe_effective (evaluatePolicy p inp) = allow \<longrightarrow>
      (\<exists>r \<in> set (pol_rules p). rule_applies r (pi_serverId inp) (pi_toolName inp)
         \<and> rule_decision r = allow \<and> pe_matchedRuleId (evaluatePolicy p inp) = Some (rule_id r))
      \<and> ra_score (pe_risk (evaluatePolicy p inp)) < 60)
   \<and> pe_base (evaluatePolicy p inp) \<le> pe_effective (evaluatePolicy p inp)
   \<and> (pe_base (evaluatePolicy p inp) = deny \<longrightarrow> pe_effective (evaluatePolicy p inp) = deny)
   \<and> ((\<forall>r \<in> set (pol_rules p). \<not> rule_applies r (pi_serverId inp) (pi_toolName inp)) \<longrightarrow>
        pe_effective (evaluatePolicy p inp) = ask)"
proof -
  let ?e = "evaluatePolicy p inp"
  have eff: "pe_effective ?e = (if pe_base ?e = allow \<and> 60 \<le> ra_score (pe_risk ?e) then ask else pe_base ?e)"
    by (rule evaluatePolicy_fields(3))
  then have "pe_base ?e \<le> pe_effective ?e" by (simp add: less_eq_decision_def)
  moreover have "pe_base ?e = deny \<Longrightarrow> pe_effective ?e = deny" using eff by simp
  moreover have "pe_effective ?e = ask"
    if "\<forall>r \<in> set (pol_rules p). \<not> rule_applies r (pi_serverId inp) (pi_toolName inp)"
  proof -
    have "pm_rule (matchPolicy p (pi_serverId inp) (pi_toolName inp)) = None"
      using that matchPolicy_rule(2) by (meson not_Some_eq)
    then have "pe_base ?e = ask" using matchPolicy_rule(1) by (simp add: evaluatePolicy_fields(1))
    with eff show ?thesis by simp
  qed
  ultimately show ?thesis using evaluate_allows [of p inp] by blast
qed

theorem evaluatePolicy_safe_witness:
  "pe_effective (evaluatePolicy demo_policy
     \<lparr>pi_serverId = ''fs'', pi_toolName = ''other'', pi_arguments = JObj [], pi_annotations = None\<rparr>) = ask"
proof -
  have "\<forall>r \<in> set (pol_rules demo_policy). \<not> rule_applies r ''fs'' ''other''" by code_simp
  then show ?thesis
    using evaluatePolicy_safe [of demo_policy
      "\<lparr>pi_serverId = ''fs'', pi_toolName = ''other'', pi_arguments = JObj [], pi_annotations = None\<rparr>"]
    by simp
qed

end
