(* ===== verification/Receipt.thy ===== *)
theory Receipt
  imports Schema Sha256 Clock Policy
begin

section \<open>Action receipts\<close>

text \<open>
  Models src/audit/receipt.ts: the receipt schemas with their refinements, the checks of
  \<open>canonicalReceiptJson\<close>, and the construction of authorization and outcome receipts.  A
  receipt is its JSON value; an exception is an \<open>audit_error\<close>.
\<close>

datatype json_error =
  Too_deep | String_too_long | Not_finite | Not_json | Array_too_long | Object_too_big | Key_too_long

datatype audit_error = Json_error json_error | Zod_error | Audit_error string

subsection \<open>\<open>canonicalReceiptJson\<close>\<close>

definition max_depth :: nat where "max_depth = 32"
definition max_collection :: nat where "max_collection = 1000"
definition max_string :: nat where "max_string = 16384"

text \<open>
  \<open>validateJsonValue\<close>.  Values of the model have no cycles and their objects are plain, so
  those two errors do not occur.
\<close>

function validateJsonValue :: "jsval \<Rightarrow> nat \<Rightarrow> json_error + unit" where
  "validateJsonValue v depth =
     (if max_depth < depth then Inl Too_deep
      else case v of
        JNull \<Rightarrow> Inr ()
      | JBool b \<Rightarrow> Inr ()
      | JStr s \<Rightarrow> if max_string < length s then Inl String_too_long else Inr ()
      | JNum n \<Rightarrow> if n = NNonFinite then Inl Not_finite else Inr ()
      | JArr xs \<Rightarrow>
          if max_collection < length xs then Inl Array_too_long
          else (case mapM (\<lambda>x. validateJsonValue x (depth + 1)) xs of Inl e \<Rightarrow> Inl e | Inr _ \<Rightarrow> Inr ())
      | JObj kvs \<Rightarrow>
          if max_collection < length kvs then Inl Object_too_big
          else (case mapM (\<lambda>(k, x). if 256 < length k then Inl Key_too_long
                                    else validateJsonValue x (depth + 1)) kvs of
                  Inl e \<Rightarrow> Inl e | Inr _ \<Rightarrow> Inr ())
      | JUndef \<Rightarrow> Inl Not_json
      | JBig i \<Rightarrow> Inl Not_json
      | JOther t \<Rightarrow> Inl Not_json)"
  by pat_completeness auto
termination
  by (relation "measure (\<lambda>(v, d). size v)")
     (auto simp: size_kv_less less_Suc_eq_le size_list_estimation')

declare validateJsonValue.simps [simp del]

definition canonicalReceiptJson :: "jsval \<Rightarrow> audit_error + string" where
  "canonicalReceiptJson v =
     (case validateJsonValue v 0 of Inl e \<Rightarrow> Inl (Json_error e) | Inr _ \<Rightarrow> Inr (canonicalJson v))"

definition receiptDigest :: "jsval \<Rightarrow> audit_error + string" where
  "receiptDigest r =
     (case canonicalReceiptJson r of Inl e \<Rightarrow> Inl e | Inr t \<Rightarrow> Inr (sha256_digest t))"

definition parse_schema :: "formats \<Rightarrow> schema \<Rightarrow> jsval \<Rightarrow> audit_error + jsval" where
  "parse_schema F s v = (if conforms F s v then Inr v else Inl Zod_error)"

subsection \<open>Schemas of the parts\<close>

definition DigestSchema :: schema where "DigestSchema = SStr is_digest"
definition HashSchema :: schema where "HashSchema = SStr is_hash"
definition IdentifierSchema :: schema where "IdentifierSchema = SStr is_identifier"
definition ReasonCodeSchema :: schema where "ReasonCodeSchema = SStr is_reason_code"

definition SchemaIdentitySchema :: schema where
  "SchemaIdentitySchema = SObj
     [req ''name'' (SLit (JStr ''apg-action-receipt'')),
      req ''majorVersion'' (SLit (JInt 1)),
      req ''minorVersion'' (SUnion [SLit (JInt 0), SLit (JInt 1), SLit (JInt 2)]),
      req ''canonicalization'' (SLit (JStr ''apg-canonical-json-v1''))]"

definition ReceiptIdentitySchema :: "string \<Rightarrow> schema" where
  "ReceiptIdentitySchema type = SObj
     [req ''id'' SUuid, req ''type'' (SLit (JStr type)), req ''issuedAt'' STime,
      req ''assuranceLevel'' (SLit (JStr ''portable_unsigned''))]"

definition SafeIdentityScalarSchema :: schema where
  "SafeIdentityScalarSchema = SUnion
     [SObj [req ''type'' (SLit (JStr ''string'')), req ''value'' (SStr (\<lambda>s. length s \<le> 512))],
      SObj [req ''type'' (SLit (JStr ''enum'')), req ''value'' IdentifierSchema],
      SObj [req ''type'' (SLit (JStr ''integer'')), req ''value'' (SInt (- max_safe) max_safe)],
      SObj [req ''type'' (SLit (JStr ''boolean'')), req ''value'' SBool],
      SObj [req ''type'' (SLit (JStr ''null''))]]"

definition SafeIdentityValueSchema :: schema where
  "SafeIdentityValueSchema = SUnion
     [SafeIdentityScalarSchema,
      SObj [req ''type'' (SLit (JStr ''ordered_list'')),
            req ''items'' (SArr 0 100 SafeIdentityScalarSchema)]]"

definition SafeIdentityClaimSchema :: schema where
  "SafeIdentityClaimSchema = SObj [req ''name'' IdentifierSchema, req ''value'' SafeIdentityValueSchema]"

text \<open>
  The arrays of names must be duplicate-free and sorted.  The code compares the joins of the
  list and of its sorted copy, separated by the NUL character; on identifiers, which cannot
  hold a NUL, that is the comparison of the lists.
\<close>

definition unique_sorted :: "string list \<Rightarrow> bool" where
  "unique_sorted xs \<longleftrightarrow> distinct xs \<and> join_with [CHR 0x00] xs = join_with [CHR 0x00] (sort_text xs)"

definition text_of_str :: "jsval \<Rightarrow> string" where
  "text_of_str v = (case v of JStr s \<Rightarrow> s | _ \<Rightarrow> [])"

definition evidence_rules :: "jsval \<Rightarrow> bool" where
  "evidence_rules e \<longleftrightarrow>
     unique_sorted (map (\<lambda>c. text_of_str (at c ''name'')) (items (at e ''safeClaims'')))
     \<and> unique_sorted (map text_of_str (items (at e ''omittedCategories'')))
     \<and> \<not> (at e ''profileStatus'' = JStr ''projected'' \<and> at e ''failureCode'' \<noteq> JUndef)
     \<and> \<not> (at e ''profileStatus'' = JStr ''projected''
          \<and> (at e ''parameterCoverage'' = JStr ''none''
             \<or> (at e ''parameterCoverage'' = JStr ''complete_action_parameters''
                \<and> items (at e ''omittedCategories'') \<noteq> [])
             \<or> (at e ''parameterCoverage'' = JStr ''declared_subset''
                \<and> items (at e ''omittedCategories'') = [])))
     \<and> \<not> (at e ''profileStatus'' = JStr ''rejected''
          \<and> (at e ''failureCode'' = JUndef \<or> at e ''parameterCoverage'' \<noteq> JStr ''none''
             \<or> items (at e ''safeClaims'') \<noteq> [] \<or> items (at e ''omittedCategories'') = []))"

definition ReceiptIdentityEvidenceSchema :: schema where
  "ReceiptIdentityEvidenceSchema = SRefine (SObj
     [req ''profileStatus'' (SEnum [''projected'', ''rejected'']),
      req ''profileId'' IdentifierSchema,
      req ''profileVersion'' (SInt 1 1000000),
      req ''profileManifestDigest'' DigestSchema,
      req ''serverProvenanceAssurance'' (SLit (JStr ''configured_label_only'')),
      req ''parameterCoverage'' (SEnum [''none'', ''declared_subset'', ''complete_action_parameters'']),
      req ''safeClaims'' (SArr 0 64 SafeIdentityClaimSchema),
      req ''omittedCategories'' (SArr 0 32 IdentifierSchema),
      opt ''observedSchemaDigest'' DigestSchema,
      opt ''failureCode'' ReasonCodeSchema]) evidence_rules"

definition action_rules :: "jsval \<Rightarrow> bool" where
  "action_rules a \<longleftrightarrow>
     (let e = at a ''identityEvidence''; level = at a ''identityAssurance'' in
        \<not> (level = JStr ''adapter_action_exact''
           \<and> (e = JUndef \<or> at e ''profileStatus'' \<noteq> JStr ''projected''
              \<or> at e ''parameterCoverage'' \<noteq> JStr ''complete_action_parameters''
              \<or> items (at e ''omittedCategories'') \<noteq> []))
        \<and> (e = JUndef
           \<or> (\<not> (level = JStr ''structural_only'' \<and> at e ''profileStatus'' \<noteq> JStr ''rejected'')
              \<and> \<not> (level = JStr ''adapter_scoped''
                   \<and> (at e ''profileStatus'' \<noteq> JStr ''projected''
                      \<or> at e ''parameterCoverage'' \<noteq> JStr ''declared_subset''))
              \<and> level \<noteq> JStr ''execution_plan_exact'')))"

definition assurance_levels :: "string list" where
  "assurance_levels = [''structural_only'', ''adapter_scoped'', ''adapter_action_exact'', ''execution_plan_exact'']"

definition ActionSchema :: schema where
  "ActionSchema = SRefine (SObj
     [req ''id'' SUuid, req ''adapter'' IdentifierSchema, req ''adapterVersion'' IdentifierSchema,
      req ''operation'' IdentifierSchema,
      req ''identityAssurance'' (SEnum assurance_levels),
      req ''intentDigest'' DigestSchema,
      opt ''subject'' (SStr (\<lambda>s. 1 \<le> length s \<and> length s \<le> 512)),
      opt ''executionPlanHash'' HashSchema,
      opt ''identityEvidence'' ReceiptIdentityEvidenceSchema]) action_rules"

definition boundaries :: "string list" where
  "boundaries = [''mcp_proxy_call'', ''install_guard_plan'', ''apg_local_control'', ''graph_genesis_plan'']"

definition CoverageSchema :: schema where
  "CoverageSchema = SObj
     [req ''routedThroughApg'' (SLit (JBool True)), req ''boundary'' (SEnum boundaries),
      req ''observed'' (SArr 0 20 IdentifierSchema), req ''notObserved'' (SArr 0 20 IdentifierSchema)]"

definition PolicySchema :: schema where
  "PolicySchema = SObj
     [req ''schemaVersion'' (SInt 0 1000000), req ''contentDigest'' DigestSchema,
      req ''evaluatorName'' IdentifierSchema, req ''evaluatorVersion'' IdentifierSchema,
      opt ''matchedRuleId'' IdentifierSchema]"

definition ReceiptDecisionSchema :: schema where
  "ReceiptDecisionSchema = SObj
     [req ''base'' (SEnum [''allow'', ''ask'', ''deny'']),
      req ''effective'' (SEnum [''allow'', ''ask'', ''deny'']),
      req ''reasonCodes'' (SArr 1 100 ReasonCodeSchema),
      req ''riskScore'' (SInt 0 100),
      req ''riskBand'' (SEnum [''low'', ''medium'', ''high'', ''critical''])]"

definition approval_outcomes :: "string list" where
  "approval_outcomes = [''not_required'', ''not_requested'', ''pending'', ''approved'', ''denied'',
     ''expired'', ''cancelled'', ''unavailable'']"

definition approval_rules :: "jsval \<Rightarrow> bool" where
  "approval_rules a \<longleftrightarrow>
     (let outcome = at a ''outcome''; requestId = at a ''requestId''; requestedAt = at a ''requestedAt'';
          decidedAt = at a ''decidedAt''; expiresAt = at a ''expiresAt''
      in if at a ''required'' = JBool False
         then outcome = JStr ''not_required'' \<and> at a ''principalAssurance'' = JStr ''not_applicable''
              \<and> requestId = JUndef \<and> requestedAt = JUndef \<and> decidedAt = JUndef \<and> expiresAt = JUndef
         else outcome \<noteq> JStr ''not_required''
              \<and> (outcome = JStr ''not_requested'' \<longrightarrow>
                   requestId = JUndef \<and> requestedAt = JUndef \<and> decidedAt = JUndef \<and> expiresAt = JUndef)
              \<and> (outcome = JStr ''pending'' \<longrightarrow>
                   requestId \<noteq> JUndef \<and> requestedAt \<noteq> JUndef \<and> expiresAt \<noteq> JUndef \<and> decidedAt = JUndef)
              \<and> (outcome \<notin> {JStr ''not_required'', JStr ''not_requested'', JStr ''pending'', JStr ''unavailable''} \<longrightarrow>
                   requestId \<noteq> JUndef \<and> requestedAt \<noteq> JUndef \<and> expiresAt \<noteq> JUndef \<and> decidedAt \<noteq> JUndef))"

definition ApprovalSchema :: schema where
  "ApprovalSchema = SRefine (SObj
     [req ''required'' SBool, req ''outcome'' (SEnum approval_outcomes),
      opt ''requestId'' SUuid, opt ''requestedAt'' STime, opt ''decidedAt'' STime, opt ''expiresAt'' STime,
      req ''principalAssurance''
        (SEnum [''not_applicable'', ''local_dashboard_session'', ''local_cli_session'', ''unknown''])])
     approval_rules"

definition IssuerSchema :: schema where
  "IssuerSchema = SObj
     [req ''softwareName'' (SLit (JStr ''agent-permission-guard'')),
      req ''softwareVersion'' IdentifierSchema,
      req ''buildIdentityAssurance'' (SLit (JStr ''package_version_only''))]"

definition LimitationsSchema :: schema where
  "LimitationsSchema = SObj
     [req ''directBypassUnprotected'' (SLit (JBool True)), req ''unobservedEffects'' (SLit (JBool True)),
      req ''clockAssurance'' (SLit (JStr ''local_system_clock'')),
      req ''issuerAuthentication'' (SLit (JStr ''none''))]"

definition AuthorizationSchema :: schema where
  "AuthorizationSchema = SObj
     [req ''status'' (SEnum [''authorized'', ''blocked'', ''failed_pre_dispatch'']),
      req ''reasonCode'' ReasonCodeSchema]"

definition ObservedResultSchema :: schema where
  "ObservedResultSchema = SObj
     [req ''kind'' (SEnum [''mcp'', ''install'', ''generic'', ''graph_genesis'']),
      req ''isError'' SBool,
      opt ''contentTypes'' (SArr 0 20 IdentifierSchema),
      opt ''contentCount'' (SInt 0 1000000),
      opt ''executionStatus'' (SEnum [''completed'', ''failed'', ''timed_out'', ''cancelled'', ''output_overflow'']),
      opt ''exitCode'' (SUnion [SInt (- max_safe) max_safe, SNull]),
      opt ''durationMs'' (SInt 0 86400000),
      opt ''stdoutBytes'' (SInt 0 max_safe),
      opt ''stderrBytes'' (SInt 0 max_safe),
      opt ''outputTruncated'' SBool,
      opt ''verificationStatus'' (SEnum [''verified'', ''failed'', ''limited'']),
      opt ''exactPackageVersionObserved'' SBool,
      opt ''approvedIntegrityObserved'' SBool,
      opt ''changedFiles'' (SArr 0 3 (SEnum [''package.json'', ''package-lock.json'', ''npm-shrinkwrap.json''])),
      opt ''verificationReasonCodes'' (SArr 0 100 ReasonCodeSchema),
      opt ''externalReadStatus'' (SEnum [''not_started'', ''started'', ''validated'', ''incomplete'']),
      opt ''metadataRequestCount'' (SInt 0 512),
      opt ''metadataUniquePackageCount'' (SInt 0 256),
      opt ''metadataResponseBytes'' (SInt 0 134217728),
      opt ''lockDigest'' DigestSchema,
      opt ''candidateDigest'' DigestSchema,
      opt ''candidateArtifactDigest'' DigestSchema,
      opt ''cleanupStatus'' (SEnum [''not_needed'', ''complete'', ''quarantined'', ''incomplete'']),
      opt ''quarantineReferenceDigest'' DigestSchema,
      opt ''terminalAuditStatus'' (SEnum [''complete'', ''failed'', ''unknown'']),
      opt ''errorCode'' ReasonCodeSchema]"

definition RecoverySchema :: schema where
  "RecoverySchema = SObj
     [req ''capability'' (SEnum [''none'', ''manual'', ''bounded_automatic'']),
      opt ''reference'' IdentifierSchema]"

subsection \<open>Receipt schemas\<close>

definition identity_version_rules :: "jsval \<Rightarrow> jsval \<Rightarrow> bool" where
  "identity_version_rules sch a \<longleftrightarrow>
     (let minor = at sch ''minorVersion''; e = at a ''identityEvidence'' in
        \<not> (minor = JInt 0 \<and> e \<noteq> JUndef)
        \<and> \<not> (minor = JInt 1 \<and> e = JUndef)
        \<and> \<not> (minor = JInt 2
             \<and> (at a ''identityAssurance'' \<noteq> JStr ''execution_plan_exact''
                \<or> at a ''executionPlanHash'' = JUndef \<or> e \<noteq> JUndef))
        \<and> \<not> (minor = JInt 0 \<and> at a ''identityAssurance'' = JStr ''adapter_action_exact''))"

definition genesis_boundary_rule :: "jsval \<Rightarrow> bool" where
  "genesis_boundary_rule r \<longleftrightarrow>
     (at (at r ''schema'') ''minorVersion'' = JInt 2)
       = (at (at r ''coverage'') ''boundary'' = JStr ''graph_genesis_plan'')"

definition authorization_rules :: "jsval \<Rightarrow> bool" where
  "authorization_rules r \<longleftrightarrow>
     identity_version_rules (at r ''schema'') (at r ''action'')
     \<and> genesis_boundary_rule r
     \<and> \<not> (at (at r ''authorization'') ''status'' = JStr ''authorized''
          \<and> (at (at r ''decision'') ''effective'' = JStr ''deny''
             \<or> (at (at r ''approval'') ''required'' = JBool True
                \<and> at (at r ''approval'') ''outcome'' \<noteq> JStr ''approved'')))
     \<and> \<not> (at (at r ''authorization'') ''status'' = JStr ''blocked''
          \<and> at (at r ''decision'') ''effective'' \<noteq> JStr ''deny''
          \<and> at (at r ''approval'') ''outcome''
              \<notin> {JStr ''denied'', JStr ''expired'', JStr ''cancelled'', JStr ''unavailable''})"

definition AuthorizationReceiptSchema :: schema where
  "AuthorizationReceiptSchema = SRefine (SObj
     [req ''schema'' SchemaIdentitySchema,
      req ''receipt'' (ReceiptIdentitySchema ''authorization''),
      req ''action'' ActionSchema, req ''coverage'' CoverageSchema, req ''policy'' PolicySchema,
      req ''decision'' ReceiptDecisionSchema, req ''approval'' ApprovalSchema,
      req ''authorization'' AuthorizationSchema, req ''issuer'' IssuerSchema,
      req ''limitations'' LimitationsSchema]) authorization_rules"

definition terminal_statuses :: "string list" where
  "terminal_statuses = [''completed'', ''execution_error'', ''upstream_error'', ''cancelled'', ''failed'',
     ''audit_failed'', ''incomplete_external_read'', ''outcome_unknown_after_interruption'']"

definition outcome_rules :: "jsval \<Rightarrow> bool" where
  "outcome_rules r \<longleftrightarrow>
     identity_version_rules (at r ''schema'') (at r ''action'')
     \<and> genesis_boundary_rule r
     \<and> \<not> (at (at r ''schema'') ''minorVersion'' = JInt 2
          \<and> at (at r ''execution'') ''observedResult'' \<noteq> JUndef
          \<and> at (at (at r ''execution'') ''observedResult'') ''kind'' \<noteq> JStr ''graph_genesis'')"

definition OutcomeReceiptSchema :: schema where
  "OutcomeReceiptSchema = SRefine (SObj
     [req ''schema'' SchemaIdentitySchema,
      req ''receipt'' (ReceiptIdentitySchema ''outcome''),
      req ''action'' ActionSchema, req ''coverage'' CoverageSchema,
      req ''authorizationReceiptDigest'' DigestSchema,
      req ''execution'' (SObj
        [req ''startedAt'' STime, req ''terminalStatus'' (SEnum terminal_statuses),
         opt ''completedAt'' STime, opt ''observedResult'' ObservedResultSchema]),
      req ''recovery'' RecoverySchema, req ''issuer'' IssuerSchema,
      req ''limitations'' LimitationsSchema]) outcome_rules"

lemmas receipt_schemas =
  SchemaIdentitySchema_def ReceiptIdentitySchema_def SafeIdentityScalarSchema_def
  SafeIdentityValueSchema_def SafeIdentityClaimSchema_def ReceiptIdentityEvidenceSchema_def
  ActionSchema_def CoverageSchema_def PolicySchema_def ReceiptDecisionSchema_def ApprovalSchema_def
  IssuerSchema_def LimitationsSchema_def AuthorizationSchema_def ObservedResultSchema_def
  RecoverySchema_def DigestSchema_def HashSchema_def IdentifierSchema_def ReasonCodeSchema_def
  req_def opt_def

subsection \<open>Contexts and approvals\<close>

datatype boundary = Mcp_proxy_call | Install_guard_plan | Apg_local_control | Graph_genesis_plan

fun boundary_name :: "boundary \<Rightarrow> string" where
  "boundary_name Mcp_proxy_call = ''mcp_proxy_call''"
| "boundary_name Install_guard_plan = ''install_guard_plan''"
| "boundary_name Apg_local_control = ''apg_local_control''"
| "boundary_name Graph_genesis_plan = ''graph_genesis_plan''"

datatype assurance = Structural_only | Adapter_scoped | Adapter_action_exact | Execution_plan_exact

fun assurance_name :: "assurance \<Rightarrow> string" where
  "assurance_name Structural_only = ''structural_only''"
| "assurance_name Adapter_scoped = ''adapter_scoped''"
| "assurance_name Adapter_action_exact = ''adapter_action_exact''"
| "assurance_name Execution_plan_exact = ''execution_plan_exact''"

record policy_identity =
  pid_schemaVersion :: int
  pid_contentDigest :: string
  pid_evaluatorName :: string
  pid_evaluatorVersion :: string

record receipt_context =
  rc_adapter :: string
  rc_adapterVersion :: string
  rc_operation :: string
  rc_boundary :: boundary
  rc_assurance :: assurance
  rc_material :: jsval
  rc_evidence :: "jsval option"
  rc_subject :: "string option"
  rc_planHash :: "string option"
  rc_policy :: policy_identity

datatype approval_state =
  Not_required | Not_requested | Pending | Approved | Denied | Expired | Cancelled | Unavailable

fun approval_name :: "approval_state \<Rightarrow> string" where
  "approval_name Not_required = ''not_required''"
| "approval_name Not_requested = ''not_requested''"
| "approval_name Pending = ''pending''"
| "approval_name Approved = ''approved''"
| "approval_name Denied = ''denied''"
| "approval_name Expired = ''expired''"
| "approval_name Cancelled = ''cancelled''"
| "approval_name Unavailable = ''unavailable''"

datatype principal = Not_applicable | Local_dashboard_session | Local_cli_session | Unknown_principal

fun principal_name :: "principal \<Rightarrow> string" where
  "principal_name Not_applicable = ''not_applicable''"
| "principal_name Local_dashboard_session = ''local_dashboard_session''"
| "principal_name Local_cli_session = ''local_cli_session''"
| "principal_name Unknown_principal = ''unknown''"

record receipt_approval =
  ap_required :: bool
  ap_outcome :: approval_state
  ap_requestId :: "string option"
  ap_requestedAt :: "string option"
  ap_decidedAt :: "string option"
  ap_expiresAt :: "string option"
  ap_principal :: principal

definition opt_str :: "string \<Rightarrow> string option \<Rightarrow> (string \<times> jsval) list" where
  "opt_str k x = opt_prop k (map_option JStr x)"

lemma opt_str_simps [simp]: "opt_str k None = []" "opt_str k (Some s) = [(k, JStr s)]"
  by (simp_all add: opt_str_def)

definition approval_json :: "receipt_approval \<Rightarrow> jsval" where
  "approval_json a = JObj
     ([(''required'', JBool (ap_required a)), (''outcome'', JStr (approval_name (ap_outcome a)))]
      @ opt_str ''requestId'' (ap_requestId a) @ opt_str ''requestedAt'' (ap_requestedAt a)
      @ opt_str ''decidedAt'' (ap_decidedAt a) @ opt_str ''expiresAt'' (ap_expiresAt a)
      @ [(''principalAssurance'', JStr (principal_name (ap_principal a)))])"

subsection \<open>Construction\<close>

definition apg_version :: string where "apg_version = ''0.2.0''"

definition schemaIdentity :: "receipt_context \<Rightarrow> jsval" where
  "schemaIdentity c = JObj
     [(''name'', JStr ''apg-action-receipt''), (''majorVersion'', JInt 1),
      (''minorVersion'', JInt (if rc_boundary c = Graph_genesis_plan then 2 else if rc_evidence c = None then 0 else 1)),
      (''canonicalization'', JStr ''apg-canonical-json-v1'')]"

definition issuer :: jsval where
  "issuer = JObj [(''softwareName'', JStr ''agent-permission-guard''), (''softwareVersion'', JStr apg_version),
     (''buildIdentityAssurance'', JStr ''package_version_only'')]"

definition limitations :: jsval where
  "limitations = JObj [(''directBypassUnprotected'', JBool True), (''unobservedEffects'', JBool True),
     (''clockAssurance'', JStr ''local_system_clock''), (''issuerAuthentication'', JStr ''none'')]"

fun coverageFor :: "boundary \<Rightarrow> jsval" where
  "coverageFor Graph_genesis_plan = JObj
     [(''routedThroughApg'', JBool True), (''boundary'', JStr ''graph_genesis_plan''),
      (''observed'', JArr (map JStr
        [''exact_execution_envelope'', ''local_approval'', ''bounded_public_metadata_requests'',
         ''exact_process_dispatch'', ''bounded_post_state'', ''candidate_artifact'', ''terminal_audit''])),
      (''notObserved'', JArr (map JStr
        [''registry_publisher_honesty'', ''package_safety'', ''source_build_equivalence'', ''kernel_integrity'',
         ''same_user_containment'', ''later_artifact_bytes'', ''materialization'', ''startup'', ''direct_npm_npx'']))]"
| "coverageFor Install_guard_plan = JObj
     [(''routedThroughApg'', JBool True), (''boundary'', JStr ''install_guard_plan''),
      (''observed'', JArr (map JStr
        [''policy_evaluation'', ''local_approval'', ''process_dispatch'', ''bounded_postcondition_verification''])),
      (''notObserved'', JArr (map JStr
        [''direct_npm_npx'', ''complete_child_process_effects'', ''complete_network_effects'', ''automatic_rollback'']))]"
| "coverageFor Apg_local_control = JObj
     [(''routedThroughApg'', JBool True), (''boundary'', JStr ''apg_local_control''),
      (''observed'', JArr (map JStr [''local_control_request'', ''bounded_result''])),
      (''notObserved'', JArr (map JStr
        [''same_user_process_identity'', ''human_identity'', ''complete_filesystem_effects'']))]"
| "coverageFor Mcp_proxy_call = JObj
     [(''routedThroughApg'', JBool True), (''boundary'', JStr ''mcp_proxy_call''),
      (''observed'', JArr (map JStr
        [''policy_evaluation'', ''local_approval'', ''upstream_dispatch'', ''bounded_result''])),
      (''notObserved'', JArr (map JStr
        [''direct_tool_bypass'', ''complete_upstream_effects'', ''complete_child_process_effects'']))]"

definition intent_material :: "receipt_context \<Rightarrow> jsval" where
  "intent_material c = JObj
     [(''format'', JStr ''apg-portable-intent-v1''), (''adapter'', JStr (rc_adapter c)),
      (''adapterVersion'', JStr (rc_adapterVersion c)), (''operation'', JStr (rc_operation c)),
      (''material'', rc_material c)]"

definition actionFor :: "formats \<Rightarrow> string \<Rightarrow> receipt_context \<Rightarrow> audit_error + jsval" where
  "actionFor F actionId c =
     rbind (canonicalReceiptJson (intent_material c)) (\<lambda>intent.
       parse_schema F ActionSchema (JObj
         ([(''id'', JStr actionId), (''adapter'', JStr (rc_adapter c)),
           (''adapterVersion'', JStr (rc_adapterVersion c)), (''operation'', JStr (rc_operation c)),
           (''identityAssurance'', JStr (assurance_name (rc_assurance c))),
           (''intentDigest'', JStr (sha256_digest intent))]
          @ opt_str ''subject'' (rc_subject c) @ opt_str ''executionPlanHash'' (rc_planHash c)
          @ opt_prop ''identityEvidence'' (rc_evidence c))))"

datatype auth_status = Authorized | Blocked | Failed_pre_dispatch

fun auth_status_name :: "auth_status \<Rightarrow> string" where
  "auth_status_name Authorized = ''authorized''"
| "auth_status_name Blocked = ''blocked''"
| "auth_status_name Failed_pre_dispatch = ''failed_pre_dispatch''"

fun band_name :: "risk_band \<Rightarrow> string" where
  "band_name low = ''low''"
| "band_name medium = ''medium''"
| "band_name high = ''high''"
| "band_name critical = ''critical''"

record auth_input =
  ai_receiptId :: string
  ai_actionId :: string
  ai_issuedAt :: string
  ai_context :: receipt_context
  ai_base :: decision
  ai_effective :: decision
  ai_matchedRuleId :: "string option"
  ai_reasonCodes :: "string list"
  ai_riskScore :: jnum
  ai_riskBand :: risk_band
  ai_approval :: receipt_approval
  ai_status :: auth_status
  ai_reasonCode :: string

definition receipt_identity :: "string \<Rightarrow> string \<Rightarrow> string \<Rightarrow> jsval" where
  "receipt_identity rid type issuedAt = JObj
     [(''id'', JStr rid), (''type'', JStr type), (''issuedAt'', JStr issuedAt),
      (''assuranceLevel'', JStr ''portable_unsigned'')]"

definition policy_identity_props :: "policy_identity \<Rightarrow> (string \<times> jsval) list" where
  "policy_identity_props q =
     [(''schemaVersion'', JInt (pid_schemaVersion q)), (''contentDigest'', JStr (pid_contentDigest q)),
      (''evaluatorName'', JStr (pid_evaluatorName q)), (''evaluatorVersion'', JStr (pid_evaluatorVersion q))]"

definition createAuthorizationReceipt :: "formats \<Rightarrow> auth_input \<Rightarrow> audit_error + jsval" where
  "createAuthorizationReceipt F i =
     rbind (actionFor F (ai_actionId i) (ai_context i)) (\<lambda>action.
       parse_schema F AuthorizationReceiptSchema (JObj
         [(''schema'', schemaIdentity (ai_context i)),
          (''receipt'', receipt_identity (ai_receiptId i) ''authorization'' (ai_issuedAt i)),
          (''action'', action),
          (''coverage'', coverageFor (rc_boundary (ai_context i))),
          (''policy'', JObj (policy_identity_props (rc_policy (ai_context i))
                              @ opt_str ''matchedRuleId'' (ai_matchedRuleId i))),
          (''decision'', JObj
             [(''base'', JStr (decision_name (ai_base i))),
              (''effective'', JStr (decision_name (ai_effective i))),
              (''reasonCodes'', JArr (map JStr (ai_reasonCodes i))),
              (''riskScore'', JNum (ai_riskScore i)),
              (''riskBand'', JStr (band_name (ai_riskBand i)))]),
          (''approval'', approval_json (ai_approval i)),
          (''authorization'', JObj [(''status'', JStr (auth_status_name (ai_status i))),
                                   (''reasonCode'', JStr (ai_reasonCode i))]),
          (''issuer'', issuer),
          (''limitations'', limitations)]))"

record outcome_input =
  oi_receiptId :: string
  oi_issuedAt :: string
  oi_authorization :: jsval
  oi_authorizationDigest :: string
  oi_startedAt :: string
  oi_terminalStatus :: string
  oi_completedAt :: "string option"
  oi_observedResult :: "jsval option"

definition createOutcomeReceipt :: "formats \<Rightarrow> outcome_input \<Rightarrow> audit_error + jsval" where
  "createOutcomeReceipt F i =
     parse_schema F OutcomeReceiptSchema (JObj
       [(''schema'', at (oi_authorization i) ''schema''),
        (''receipt'', receipt_identity (oi_receiptId i) ''outcome'' (oi_issuedAt i)),
        (''action'', at (oi_authorization i) ''action''),
        (''coverage'', at (oi_authorization i) ''coverage''),
        (''authorizationReceiptDigest'', JStr (oi_authorizationDigest i)),
        (''execution'', JObj
           ([(''startedAt'', JStr (oi_startedAt i)), (''terminalStatus'', JStr (oi_terminalStatus i))]
            @ opt_str ''completedAt'' (oi_completedAt i)
            @ opt_prop ''observedResult'' (oi_observedResult i))),
        (''recovery'', JObj [(''capability'', JStr ''none'')]),
        (''issuer'', issuer),
        (''limitations'', limitations)])"

end
