(* ===== verification/ReceiptFacts.thy ===== *)
theory ReceiptFacts
  imports Receipt
begin

section \<open>What receipts guarantee\<close>

text \<open>
  Facts about the definitions of \<open>Receipt\<close>: which inputs give a receipt and what the receipt
  then states, and that digests bind the data they are computed from.
\<close>

subsection \<open>Checked values are JSON data\<close>

text \<open>
  \<open>js_wf\<close>: what holds of every JavaScript value as the model represents it: property names
  of an object are distinct, and a finite number has the text JavaScript prints for it.
\<close>

fun js_wf :: "jsval \<Rightarrow> bool" where
  "js_wf (JArr xs) = list_all js_wf xs"
| "js_wf (JObj kvs) = (distinct (map fst kvs) \<and> list_all (\<lambda>(k, v). js_wf v) kvs)"
| "js_wf (JNum n) = (n = NNonFinite \<or> valid_num n)"
| "js_wf _ = True"

fun json_depth :: "jsval \<Rightarrow> nat" where
  "json_depth (JArr xs) = Suc (fold max (map json_depth xs) 0)"
| "json_depth (JObj kvs) = Suc (fold max (map (\<lambda>(k, v). json_depth v) kvs) 0)"
| "json_depth _ = 0"

lemma fold_max_le: "fold max ns (m::nat) \<le> b \<longleftrightarrow> m \<le> b \<and> (\<forall>n \<in> set ns. n \<le> b)"
  by (induction ns arbitrary: m) auto

lemma mapM_ok_all: "mapM f xs = Inr ys \<Longrightarrow> x \<in> set xs \<Longrightarrow> \<exists>y. f x = Inr y"
  by (auto simp: mapM_Inr_iff list_all2_conv_all_nth in_set_conv_nth)

lemma validate_arr:
  "validateJsonValue (JArr xs) d = Inr u \<Longrightarrow>
     d \<le> max_depth \<and> length xs \<le> max_collection \<and> (\<forall>x \<in> set xs. \<exists>u. validateJsonValue x (d + 1) = Inr u)"
  by (subst (asm) validateJsonValue.simps) (auto split: if_splits sum.splits dest: mapM_ok_all)

lemma validate_obj:
  "validateJsonValue (JObj kvs) d = Inr u \<Longrightarrow>
     d \<le> max_depth \<and> length kvs \<le> max_collection
     \<and> (\<forall>p \<in> set kvs. length (fst p) \<le> 256 \<and> (\<exists>u. validateJsonValue (snd p) (d + 1) = Inr u))"
  by (subst (asm) validateJsonValue.simps)
     (fastforce split: if_splits sum.splits dest: mapM_ok_all)

lemma validate_json_data:
  "js_wf v \<Longrightarrow> validateJsonValue v d = Inr u \<Longrightarrow> json_data v"
proof (induction v arbitrary: d u rule: js_wf.induct)
  case (1 xs)
  then show ?case using validate_arr [OF "1.prems"(2)] by (fastforce simp: list_all_iff)
next
  case (2 kvs)
  have "json_data w" if "(k, w) \<in> set kvs" for k w
  proof -
    obtain u where "validateJsonValue w (d + 1) = Inr u"
      using bspec [OF conjunct2 [OF conjunct2 [OF validate_obj [OF "2.prems"(2)]]], of "(k, w)"] \<open>(k, w) \<in> set kvs\<close>
      by auto
    moreover have "js_wf w" using "2.prems"(1) that by (auto simp: list_all_iff)
    ultimately show ?thesis using "2.IH" [OF that refl] by blast
  qed
  then show ?case using "2.prems"(1) by (auto simp: list_all_iff)
next
  case (3 n)
  then show ?case by (subst (asm) validateJsonValue.simps) (auto split: if_splits)
qed (auto simp: validateJsonValue.simps split: if_splits)

lemma validate_depth: "validateJsonValue v d = Inr u \<Longrightarrow> json_depth v + d \<le> Suc max_depth"
proof (induction v arbitrary: d u rule: json_depth.induct)
  case (1 xs)
  have "json_depth x \<le> max_depth - d" if x: "x \<in> set xs" for x
  proof -
    obtain u where "validateJsonValue x (d + 1) = Inr u" using validate_arr [OF "1.prems"] x by blast
    from "1.IH" [OF x this] show ?thesis by linarith
  qed
  then have "fold max (map json_depth xs) 0 \<le> max_depth - d" by (simp add: fold_max_le)
  moreover have "d \<le> max_depth" using validate_arr [OF "1.prems"] by blast
  ultimately show ?case by simp
next
  case (2 kvs)
  have "json_depth (snd p) \<le> max_depth - d" if p: "p \<in> set kvs" for p
  proof -
    obtain u where "validateJsonValue (snd p) (d + 1) = Inr u" using validate_obj [OF "2.prems"] p by blast
    from "2.IH" [OF p surjective_pairing [symmetric] this] show ?thesis by linarith
  qed
  then have "fold max (map (\<lambda>(k, v). json_depth v) kvs) 0 \<le> max_depth - d"
    by (auto simp: fold_max_le)
  moreover have "d \<le> max_depth" using validate_obj [OF "2.prems"] by blast
  ultimately show ?case by simp
qed (auto simp: validateJsonValue.simps split: if_splits)

lemma canonicalReceiptJson_ok: "canonicalReceiptJson v = Inr t \<Longrightarrow> t = canonicalJson v \<and> (\<exists>u. validateJsonValue v 0 = Inr u)"
  by (auto simp: canonicalReceiptJson_def split: sum.splits)

lemma canonicalReceiptJson_inj:
  assumes "js_wf v" "js_wf w" "canonicalReceiptJson v = Inr t" "canonicalReceiptJson w = Inr t"
  shows "sortValue v = sortValue w"
proof -
  have "json_data v" "json_data w"
    using assms canonicalReceiptJson_ok validate_json_data by blast+
  then show ?thesis
    using assms canonicalReceiptJson_ok by (metis canonicalJson_inj)
qed

text \<open>
  The digest of a receipt binds its data: two values with the same receipt digest are the
  same data up to the order of properties, unless their canonical texts collide under SHA-256.
\<close>

theorem receiptDigest_binding:
  assumes "js_wf r" "js_wf s" "receiptDigest r = Inr d" "receiptDigest s = Inr d"
  shows "sortValue r = sortValue s \<or> collision (canonicalJson r) (canonicalJson s)"
proof -
  obtain t where t: "canonicalReceiptJson r = Inr t" "d = sha256_digest t"
    using assms(3) by (auto simp: receiptDigest_def split: sum.splits)
  obtain u where u: "canonicalReceiptJson s = Inr u" "d = sha256_digest u"
    using assms(4) by (auto simp: receiptDigest_def split: sum.splits)
  have "t = u \<or> collision t u" using t u sha256_digest_eq_cases by blast
  then show ?thesis
    using canonicalReceiptJson_inj [OF assms(1,2)] t u canonicalReceiptJson_ok by metis
qed

theorem receiptDigest_binding_witness:
  "sortValue (JObj [(''b'', JInt 1), (''a'', JNull)]) = sortValue (JObj [(''a'', JNull), (''b'', JInt 1)])
   \<or> collision (canonicalJson (JObj [(''b'', JInt 1), (''a'', JNull)]))
              (canonicalJson (JObj [(''a'', JNull), (''b'', JInt 1)]))"
proof -
  let ?r = "JObj [(''b'', JInt 1), (''a'', JNull)]" and ?s = "JObj [(''a'', JNull), (''b'', JInt 1)]"
  have j: "canonicalJson ?r = canonicalJson ?s" by code_simp
  have v: "validateJsonValue ?r 0 = Inr ()" "validateJsonValue ?s 0 = Inr ()" by code_simp+
  have "receiptDigest ?r = Inr (sha256_digest (canonicalJson ?r))"
    using v by (simp add: receiptDigest_def canonicalReceiptJson_def)
  moreover have "receiptDigest ?s = Inr (sha256_digest (canonicalJson ?r))"
    unfolding j using v by (simp add: receiptDigest_def canonicalReceiptJson_def)
  moreover have "js_wf ?r" "js_wf ?s" by code_simp+
  ultimately show ?thesis by (intro receiptDigest_binding)
qed

text \<open>
  The intent digest of an action binds what is about to run: two actions with the same
  digest have the same adapter, version and operation and the same identity material.
\<close>

theorem actionFor_intent_binding:
  assumes "actionFor F a c = Inr x" "actionFor G b d = Inr y"
    "at x ''intentDigest'' = at y ''intentDigest''"
    "js_wf (rc_material c)" "js_wf (rc_material d)"
  shows "(rc_adapter c = rc_adapter d \<and> rc_adapterVersion c = rc_adapterVersion d
          \<and> rc_operation c = rc_operation d \<and> sortValue (rc_material c) = sortValue (rc_material d))
         \<or> collision (canonicalJson (intent_material c)) (canonicalJson (intent_material d))"
proof -
  obtain t where t: "canonicalReceiptJson (intent_material c) = Inr t" "at x ''intentDigest'' = JStr (sha256_digest t)"
    using assms(1) by (auto simp: actionFor_def parse_schema_def own_prop_append split: if_splits)
  obtain u where u: "canonicalReceiptJson (intent_material d) = Inr u" "at y ''intentDigest'' = JStr (sha256_digest u)"
    using assms(2) by (auto simp: actionFor_def parse_schema_def own_prop_append split: if_splits)
  have w: "js_wf (intent_material c)" "js_wf (intent_material d)"
    using assms(4,5) by (simp_all add: intent_material_def)
  have e: "t = canonicalJson (intent_material c)" "u = canonicalJson (intent_material d)"
    using t u canonicalReceiptJson_ok by blast+
  have "sha256_digest t = sha256_digest u" using t u assms(3) by simp
  then have "t = u \<or> collision t u" by (rule sha256_digest_eq_cases)
  moreover have "sortValue (intent_material c) = sortValue (intent_material d)" if "t = u"
    using canonicalReceiptJson_inj [OF w] t(1) u(1) that by simp
  then have "t = u \<Longrightarrow> at (sortValue (intent_material c)) k = at (sortValue (intent_material d)) k" for k
    by simp
  then have k: "t = u \<Longrightarrow> sortValue (at (intent_material c) k) = sortValue (at (intent_material d) k)" for k
    using at_sortValue [of "intent_material c" k] at_sortValue [of "intent_material d" k]
    by (simp add: intent_material_def)
  have "t = u \<Longrightarrow> rc_adapter c = rc_adapter d \<and> rc_adapterVersion c = rc_adapterVersion d
          \<and> rc_operation c = rc_operation d \<and> sortValue (rc_material c) = sortValue (rc_material d)"
    using k [of "''adapter''"] k [of "''adapterVersion''"] k [of "''operation''"] k [of "''material''"]
    by (simp add: intent_material_def)
  ultimately show ?thesis using e by blast
qed

subsection \<open>When an authorization receipt is issued\<close>

definition evidence_ok :: "formats \<Rightarrow> assurance \<Rightarrow> jsval option \<Rightarrow> bool" where
  "evidence_ok F level ev =
     (case ev of
        None \<Rightarrow> level \<noteq> Adapter_action_exact
      | Some e \<Rightarrow> conforms F ReceiptIdentityEvidenceSchema e
          \<and> (level = Structural_only \<longrightarrow> at e ''profileStatus'' = JStr ''rejected'')
          \<and> (level = Adapter_scoped \<longrightarrow> at e ''profileStatus'' = JStr ''projected''
               \<and> at e ''parameterCoverage'' = JStr ''declared_subset'')
          \<and> (level = Adapter_action_exact \<longrightarrow> at e ''profileStatus'' = JStr ''projected''
               \<and> at e ''parameterCoverage'' = JStr ''complete_action_parameters''
               \<and> items (at e ''omittedCategories'') = [])
          \<and> level \<noteq> Execution_plan_exact)"

definition action_ok :: "formats \<Rightarrow> string \<Rightarrow> receipt_context \<Rightarrow> bool" where
  "action_ok F a c \<longleftrightarrow>
     uuid_ok F a \<and> is_identifier (rc_adapter c) \<and> is_identifier (rc_adapterVersion c)
     \<and> is_identifier (rc_operation c)
     \<and> pred_option (\<lambda>s. 1 \<le> length s \<and> length s \<le> 512) (rc_subject c)
     \<and> pred_option is_hash (rc_planHash c)
     \<and> evidence_ok F (rc_assurance c) (rc_evidence c)"

definition action_json :: "string \<Rightarrow> receipt_context \<Rightarrow> string \<Rightarrow> jsval" where
  "action_json a c intent = JObj
     ([(''id'', JStr a), (''adapter'', JStr (rc_adapter c)),
       (''adapterVersion'', JStr (rc_adapterVersion c)), (''operation'', JStr (rc_operation c)),
       (''identityAssurance'', JStr (assurance_name (rc_assurance c))),
       (''intentDigest'', JStr (sha256_digest intent))]
      @ opt_str ''subject'' (rc_subject c) @ opt_str ''executionPlanHash'' (rc_planHash c)
      @ opt_prop ''identityEvidence'' (rc_evidence c))"

lemma action_json_at [simp]:
  "at (action_json a c t) ''id'' = JStr a"
  "at (action_json a c t) ''adapter'' = JStr (rc_adapter c)"
  "at (action_json a c t) ''adapterVersion'' = JStr (rc_adapterVersion c)"
  "at (action_json a c t) ''operation'' = JStr (rc_operation c)"
  "at (action_json a c t) ''identityAssurance'' = JStr (assurance_name (rc_assurance c))"
  "at (action_json a c t) ''intentDigest'' = JStr (sha256_digest t)"
  "at (action_json a c t) ''subject'' = (case rc_subject c of None \<Rightarrow> JUndef | Some s \<Rightarrow> JStr s)"
  "at (action_json a c t) ''executionPlanHash'' = (case rc_planHash c of None \<Rightarrow> JUndef | Some s \<Rightarrow> JStr s)"
  "at (action_json a c t) ''identityEvidence'' = (case rc_evidence c of None \<Rightarrow> JUndef | Some e \<Rightarrow> e)"
  by (cases "rc_subject c"; cases "rc_planHash c"; cases "rc_evidence c"; simp add: action_json_def)+

lemma keys_action: "list_all (\<lambda>k. k \<in> {''id'', ''adapter'', ''adapterVersion'', ''operation'', ''identityAssurance'',
    ''intentDigest'', ''subject'', ''executionPlanHash'', ''identityEvidence''}) (keys_of (action_json a c t))"
  by (cases "rc_subject c"; cases "rc_planHash c"; cases "rc_evidence c") (simp_all add: action_json_def keys_of_def)

lemma is_obj_action [simp]: "is_obj (action_json a c t)"
  by (simp add: action_json_def is_obj_def)

lemma conforms_is_obj: "conforms F (SObj fs) v \<Longrightarrow> is_obj v"
  by simp

lemma not_obj_undef [simp]: "\<not> is_obj JUndef"
  by (simp add: is_obj_def)

lemma conforms_evidence_obj: "conforms F ReceiptIdentityEvidenceSchema e \<Longrightarrow> e \<noteq> JUndef"
  unfolding ReceiptIdentityEvidenceSchema_def conforms.simps(12) using conforms_is_obj
  by (metis not_obj_undef)

lemma assurance_name_cases [simp]:
  "assurance_name l = ''adapter_action_exact'' \<longleftrightarrow> l = Adapter_action_exact"
  "assurance_name l = ''structural_only'' \<longleftrightarrow> l = Structural_only"
  "assurance_name l = ''adapter_scoped'' \<longleftrightarrow> l = Adapter_scoped"
  "assurance_name l = ''execution_plan_exact'' \<longleftrightarrow> l = Execution_plan_exact"
  by (cases l; simp)+

lemma assurance_name_level [simp]: "assurance_name l \<in> set assurance_levels"
  by (cases l) (simp_all add: assurance_levels_def)

lemma conforms_action:
  assumes "rc_evidence c \<noteq> Some JUndef"
  shows "conforms F ActionSchema (action_json a c t) = action_ok F a c"
proof -
  have k: "list_all (\<lambda>k. k \<in> set (map fst
     [req ''id'' SUuid, req ''adapter'' IdentifierSchema, req ''adapterVersion'' IdentifierSchema,
      req ''operation'' IdentifierSchema, req ''identityAssurance'' (SEnum assurance_levels),
      req ''intentDigest'' DigestSchema, opt ''subject'' (SStr (\<lambda>s. 1 \<le> length s \<and> length s \<le> 512)),
      opt ''executionPlanHash'' HashSchema, opt ''identityEvidence'' ReceiptIdentityEvidenceSchema]))
       (keys_of (action_json a c t))"
    using keys_action [of a c t] by (simp add: req_def opt_def insert_commute)
  have str: "(case x of None \<Rightarrow> JUndef | Some s \<Rightarrow> JStr s) = JUndef \<or> str_ok p (case x of None \<Rightarrow> JUndef | Some s \<Rightarrow> JStr s)
      \<longleftrightarrow> pred_option p x" for x p
    by (cases x) simp_all
  have ev: "(case rc_evidence c of None \<Rightarrow> JUndef | Some e \<Rightarrow> e) = JUndef
        \<or> conforms F ReceiptIdentityEvidenceSchema (case rc_evidence c of None \<Rightarrow> JUndef | Some e \<Rightarrow> e)
      \<longleftrightarrow> pred_option (conforms F ReceiptIdentityEvidenceSchema) (rc_evidence c)"
    using assms by (cases "rc_evidence c") simp_all
  have s: "conforms F (SObj [req ''id'' SUuid, req ''adapter'' IdentifierSchema, req ''adapterVersion'' IdentifierSchema,
      req ''operation'' IdentifierSchema, req ''identityAssurance'' (SEnum assurance_levels),
      req ''intentDigest'' DigestSchema, opt ''subject'' (SStr (\<lambda>s. 1 \<le> length s \<and> length s \<le> 512)),
      opt ''executionPlanHash'' HashSchema, opt ''identityEvidence'' ReceiptIdentityEvidenceSchema]) (action_json a c t)
     \<longleftrightarrow> uuid_ok F a \<and> is_identifier (rc_adapter c) \<and> is_identifier (rc_adapterVersion c)
       \<and> is_identifier (rc_operation c)
       \<and> pred_option (\<lambda>s. 1 \<le> length s \<and> length s \<le> 512) (rc_subject c)
       \<and> pred_option is_hash (rc_planHash c)
       \<and> pred_option (conforms F ReceiptIdentityEvidenceSchema) (rc_evidence c)"
    unfolding conforms.simps(10) using k
    by (simp add: req_def opt_def conforms_enum str ev IdentifierSchema_def DigestSchema_def HashSchema_def del: list.set)
  have e: "conforms F ReceiptIdentityEvidenceSchema x \<and> action_rules (action_json a c t)
      \<longleftrightarrow> evidence_ok F (rc_assurance c) (Some x)" if "rc_evidence c = Some x" for x
    using that assms conforms_evidence_obj [of F x]
    by (cases "rc_assurance c") (auto simp: action_rules_def evidence_ok_def Let_def)
  have n: "action_rules (action_json a c t) \<longleftrightarrow> evidence_ok F (rc_assurance c) None" if "rc_evidence c = None"
    using that by (auto simp: action_rules_def evidence_ok_def Let_def)
  show ?thesis
    unfolding ActionSchema_def conforms.simps(12) s action_ok_def
    using e n by (cases "rc_evidence c") auto
qed

lemma actionFor_iff:
  assumes "rc_evidence c \<noteq> Some JUndef"
  shows "actionFor F a c = Inr x \<longleftrightarrow>
    (\<exists>t. canonicalReceiptJson (intent_material c) = Inr t \<and> x = action_json a c t) \<and> action_ok F a c"
  unfolding actionFor_def rbind_Inr_iff action_json_def [symmetric] parse_schema_def
  using conforms_action [OF assms] by auto

definition approval_ok :: "formats \<Rightarrow> receipt_approval \<Rightarrow> bool" where
  "approval_ok F a \<longleftrightarrow>
     pred_option (uuid_ok F) (ap_requestId a) \<and> pred_option (datetime_ok F) (ap_requestedAt a)
     \<and> pred_option (datetime_ok F) (ap_decidedAt a) \<and> pred_option (datetime_ok F) (ap_expiresAt a)
     \<and> (if \<not> ap_required a
        then ap_outcome a = Not_required \<and> ap_principal a = Not_applicable
             \<and> ap_requestId a = None \<and> ap_requestedAt a = None \<and> ap_decidedAt a = None \<and> ap_expiresAt a = None
        else ap_outcome a \<noteq> Not_required
             \<and> (ap_outcome a = Not_requested \<longrightarrow>
                  ap_requestId a = None \<and> ap_requestedAt a = None \<and> ap_decidedAt a = None \<and> ap_expiresAt a = None)
             \<and> (ap_outcome a = Pending \<longrightarrow>
                  ap_requestId a \<noteq> None \<and> ap_requestedAt a \<noteq> None \<and> ap_expiresAt a \<noteq> None \<and> ap_decidedAt a = None)
             \<and> (ap_outcome a \<in> {Approved, Denied, Expired, Cancelled} \<longrightarrow>
                  ap_requestId a \<noteq> None \<and> ap_requestedAt a \<noteq> None \<and> ap_expiresAt a \<noteq> None \<and> ap_decidedAt a \<noteq> None))"

lemma approval_json_at [simp]:
  "at (approval_json a) ''required'' = JBool (ap_required a)"
  "at (approval_json a) ''outcome'' = JStr (approval_name (ap_outcome a))"
  "at (approval_json a) ''requestId'' = (case ap_requestId a of None \<Rightarrow> JUndef | Some s \<Rightarrow> JStr s)"
  "at (approval_json a) ''requestedAt'' = (case ap_requestedAt a of None \<Rightarrow> JUndef | Some s \<Rightarrow> JStr s)"
  "at (approval_json a) ''decidedAt'' = (case ap_decidedAt a of None \<Rightarrow> JUndef | Some s \<Rightarrow> JStr s)"
  "at (approval_json a) ''expiresAt'' = (case ap_expiresAt a of None \<Rightarrow> JUndef | Some s \<Rightarrow> JStr s)"
  "at (approval_json a) ''principalAssurance'' = JStr (principal_name (ap_principal a))"
  by (cases "ap_requestId a"; cases "ap_requestedAt a"; cases "ap_decidedAt a"; cases "ap_expiresAt a";
      simp add: approval_json_def)+

lemma keys_approval: "list_all (\<lambda>k. k \<in> {''required'', ''outcome'', ''requestId'', ''requestedAt'', ''decidedAt'',
    ''expiresAt'', ''principalAssurance''}) (keys_of (approval_json a))"
  by (cases "ap_requestId a"; cases "ap_requestedAt a"; cases "ap_decidedAt a"; cases "ap_expiresAt a")
     (simp_all add: approval_json_def keys_of_def)

lemma is_obj_approval [simp]: "is_obj (approval_json a)"
  by (simp add: approval_json_def is_obj_def)

lemma approval_name_eq [simp]: "approval_name x = approval_name y \<longleftrightarrow> x = y"
  by (cases x; cases y; simp)

lemma approval_name_lit [simp]:
  "approval_name x = ''not_required'' \<longleftrightarrow> x = Not_required" "approval_name x = ''not_requested'' \<longleftrightarrow> x = Not_requested"
  "approval_name x = ''pending'' \<longleftrightarrow> x = Pending" "approval_name x = ''unavailable'' \<longleftrightarrow> x = Unavailable"
  "approval_name x = ''approved'' \<longleftrightarrow> x = Approved" "approval_name x = ''denied'' \<longleftrightarrow> x = Denied"
  "approval_name x = ''expired'' \<longleftrightarrow> x = Expired" "approval_name x = ''cancelled'' \<longleftrightarrow> x = Cancelled"
  by (cases x; simp)+

lemma approval_name_member [simp]: "approval_name x \<in> set approval_outcomes"
  by (cases x) (simp_all add: approval_outcomes_def)

lemma principal_name_lit [simp]: "principal_name p = ''not_applicable'' \<longleftrightarrow> p = Not_applicable"
  by (cases p) simp_all

lemma principal_name_member [simp]:
  "principal_name p \<in> set [''not_applicable'', ''local_dashboard_session'', ''local_cli_session'', ''unknown'']"
  by (cases p) simp_all

lemma approval_rules_iff: "approval_rules (approval_json a) \<longleftrightarrow>
     (if \<not> ap_required a
        then ap_outcome a = Not_required \<and> ap_principal a = Not_applicable
             \<and> ap_requestId a = None \<and> ap_requestedAt a = None \<and> ap_decidedAt a = None \<and> ap_expiresAt a = None
        else ap_outcome a \<noteq> Not_required
             \<and> (ap_outcome a = Not_requested \<longrightarrow>
                  ap_requestId a = None \<and> ap_requestedAt a = None \<and> ap_decidedAt a = None \<and> ap_expiresAt a = None)
             \<and> (ap_outcome a = Pending \<longrightarrow>
                  ap_requestId a \<noteq> None \<and> ap_requestedAt a \<noteq> None \<and> ap_expiresAt a \<noteq> None \<and> ap_decidedAt a = None)
             \<and> (ap_outcome a \<in> {Approved, Denied, Expired, Cancelled} \<longrightarrow>
                  ap_requestId a \<noteq> None \<and> ap_requestedAt a \<noteq> None \<and> ap_expiresAt a \<noteq> None \<and> ap_decidedAt a \<noteq> None))"
proof -
  have u: "(case x of None \<Rightarrow> JUndef | Some s \<Rightarrow> JStr s) = JUndef \<longleftrightarrow> x = None" for x
    by (cases x) simp_all
  show ?thesis
    by (cases "ap_required a"; cases "ap_outcome a") (simp_all add: approval_rules_def u Let_def)
qed

lemma conforms_approval: "conforms F ApprovalSchema (approval_json a) = approval_ok F a"
proof -
  have k: "list_all (\<lambda>k. k \<in> set (map fst
     [req ''required'' SBool, req ''outcome'' (SEnum approval_outcomes),
      opt ''requestId'' SUuid, opt ''requestedAt'' STime, opt ''decidedAt'' STime, opt ''expiresAt'' STime,
      req ''principalAssurance''
        (SEnum [''not_applicable'', ''local_dashboard_session'', ''local_cli_session'', ''unknown''])]))
       (keys_of (approval_json a))"
    using keys_approval [of a] by (simp add: req_def opt_def)
  have o: "(case x of None \<Rightarrow> JUndef | Some s \<Rightarrow> JStr s) = JUndef \<or> str_ok p (case x of None \<Rightarrow> JUndef | Some s \<Rightarrow> JStr s)
      \<longleftrightarrow> pred_option p x" for x p
    by (cases x) simp_all
  have s: "conforms F (SObj [req ''required'' SBool, req ''outcome'' (SEnum approval_outcomes),
      opt ''requestId'' SUuid, opt ''requestedAt'' STime, opt ''decidedAt'' STime, opt ''expiresAt'' STime,
      req ''principalAssurance''
        (SEnum [''not_applicable'', ''local_dashboard_session'', ''local_cli_session'', ''unknown''])]) (approval_json a)
     \<longleftrightarrow> pred_option (uuid_ok F) (ap_requestId a) \<and> pred_option (datetime_ok F) (ap_requestedAt a)
     \<and> pred_option (datetime_ok F) (ap_decidedAt a) \<and> pred_option (datetime_ok F) (ap_expiresAt a)"
    unfolding conforms.simps(10) using k principal_name_member [of "ap_principal a"]
    by (simp add: req_def opt_def conforms_enum o del: list.set)
  show ?thesis
    unfolding ApprovalSchema_def conforms.simps(12) approval_rules_iff s approval_ok_def by blast
qed

lemma coverage_names:
  "list_all is_identifier
     [''exact_execution_envelope'', ''local_approval'', ''bounded_public_metadata_requests'',
      ''exact_process_dispatch'', ''bounded_post_state'', ''candidate_artifact'', ''terminal_audit'',
      ''registry_publisher_honesty'', ''package_safety'', ''source_build_equivalence'', ''kernel_integrity'',
      ''same_user_containment'', ''later_artifact_bytes'', ''materialization'', ''startup'', ''direct_npm_npx'',
      ''policy_evaluation'', ''process_dispatch'', ''bounded_postcondition_verification'',
      ''complete_child_process_effects'', ''complete_network_effects'', ''automatic_rollback'',
      ''local_control_request'', ''bounded_result'', ''same_user_process_identity'', ''human_identity'',
      ''complete_filesystem_effects'', ''upstream_dispatch'', ''direct_tool_bypass'', ''complete_upstream_effects'']"
  by code_simp

lemma coverage_ok [simp]: "conforms F CoverageSchema (coverageFor b)"
  using coverage_names
  by (cases b) (simp_all add: CoverageSchema_def req_def IdentifierSchema_def conforms_enum boundaries_def
      is_obj_def is_arr_def keys_of_def)

lemma coverage_boundary [simp]: "at (coverageFor b) ''boundary'' = JStr (boundary_name b)"
  by (cases b) simp_all

lemma boundary_name_lit [simp]: "boundary_name b = ''graph_genesis_plan'' \<longleftrightarrow> b = Graph_genesis_plan"
  by (cases b) simp_all

lemma issuer_ok [simp]: "conforms F IssuerSchema issuer"
proof -
  have "is_identifier apg_version" by code_simp
  then show ?thesis
    by (simp add: IssuerSchema_def req_def issuer_def IdentifierSchema_def is_obj_def keys_of_def)
qed

lemma limitations_ok [simp]: "conforms F LimitationsSchema limitations"
  by (simp add: LimitationsSchema_def req_def limitations_def is_obj_def keys_of_def)

lemma schema_identity_ok [simp]: "conforms F SchemaIdentitySchema (schemaIdentity c)"
  by (simp add: SchemaIdentitySchema_def req_def schemaIdentity_def is_obj_def keys_of_def)

lemma schema_minor [simp]:
  "at (schemaIdentity c) ''minorVersion''
   = JInt (if rc_boundary c = Graph_genesis_plan then 2 else if rc_evidence c = None then 0 else 1)"
  by (simp add: schemaIdentity_def)

lemma receipt_identity_ok [simp]:
  "conforms F (ReceiptIdentitySchema t) (receipt_identity r t' i) \<longleftrightarrow> uuid_ok F r \<and> t = t' \<and> datetime_ok F i"
  by (auto simp: ReceiptIdentitySchema_def req_def receipt_identity_def is_obj_def keys_of_def)

lemma band_name_member: "band_name b \<in> set [''low'', ''medium'', ''high'', ''critical'']"
  by (cases b) simp_all

lemma decision_name_member: "decision_name d \<in> set [''allow'', ''ask'', ''deny'']"
  by (cases d) simp_all

lemma decision_name_deny [simp]: "decision_name d = ''deny'' \<longleftrightarrow> d = deny"
  by (cases d) simp_all

definition policy_ok :: "receipt_context \<Rightarrow> string option \<Rightarrow> bool" where
  "policy_ok c rule \<longleftrightarrow>
     0 \<le> pid_schemaVersion (rc_policy c) \<and> pid_schemaVersion (rc_policy c) \<le> 1000000
     \<and> is_digest (pid_contentDigest (rc_policy c)) \<and> is_identifier (pid_evaluatorName (rc_policy c))
     \<and> is_identifier (pid_evaluatorVersion (rc_policy c)) \<and> pred_option is_identifier rule"

definition version_ok :: "receipt_context \<Rightarrow> bool" where
  "version_ok c \<longleftrightarrow>
     (rc_boundary c = Graph_genesis_plan \<longrightarrow>
        rc_assurance c = Execution_plan_exact \<and> rc_planHash c \<noteq> None \<and> rc_evidence c = None)"

definition decision_ok :: "auth_input \<Rightarrow> bool" where
  "decision_ok i \<longleftrightarrow>
     ai_reasonCodes i \<noteq> [] \<and> length (ai_reasonCodes i) \<le> 100 \<and> list_all is_reason_code (ai_reasonCodes i)
     \<and> (\<exists>n. ai_riskScore i = NInt n \<and> 0 \<le> n \<and> n \<le> 100)"

definition status_ok :: "auth_input \<Rightarrow> bool" where
  "status_ok i \<longleftrightarrow>
     (ai_status i = Authorized \<longrightarrow> ai_effective i \<noteq> deny
        \<and> (ap_required (ai_approval i) \<longrightarrow> ap_outcome (ai_approval i) = Approved))
     \<and> (ai_status i = Blocked \<longrightarrow> ai_effective i = deny
        \<or> ap_outcome (ai_approval i) \<in> {Denied, Expired, Cancelled, Unavailable})"

definition auth_ok :: "formats \<Rightarrow> auth_input \<Rightarrow> bool" where
  "auth_ok F i \<longleftrightarrow>
     action_ok F (ai_actionId i) (ai_context i) \<and> uuid_ok F (ai_receiptId i) \<and> datetime_ok F (ai_issuedAt i)
     \<and> policy_ok (ai_context i) (ai_matchedRuleId i) \<and> decision_ok i \<and> approval_ok F (ai_approval i)
     \<and> is_reason_code (ai_reasonCode i) \<and> version_ok (ai_context i) \<and> status_ok i"

definition policy_json_of :: "receipt_context \<Rightarrow> string option \<Rightarrow> jsval" where
  "policy_json_of c rule = JObj (policy_identity_props (rc_policy c) @ opt_str ''matchedRuleId'' rule)"

definition decision_json :: "auth_input \<Rightarrow> jsval" where
  "decision_json i = JObj
     [(''base'', JStr (decision_name (ai_base i))), (''effective'', JStr (decision_name (ai_effective i))),
      (''reasonCodes'', JArr (map JStr (ai_reasonCodes i))), (''riskScore'', JNum (ai_riskScore i)),
      (''riskBand'', JStr (band_name (ai_riskBand i)))]"

definition authorization_json :: "auth_input \<Rightarrow> string \<Rightarrow> jsval" where
  "authorization_json i intent = JObj
     [(''schema'', schemaIdentity (ai_context i)),
      (''receipt'', receipt_identity (ai_receiptId i) ''authorization'' (ai_issuedAt i)),
      (''action'', action_json (ai_actionId i) (ai_context i) intent),
      (''coverage'', coverageFor (rc_boundary (ai_context i))),
      (''policy'', policy_json_of (ai_context i) (ai_matchedRuleId i)),
      (''decision'', decision_json i),
      (''approval'', approval_json (ai_approval i)),
      (''authorization'', JObj [(''status'', JStr (auth_status_name (ai_status i))),
                               (''reasonCode'', JStr (ai_reasonCode i))]),
      (''issuer'', issuer), (''limitations'', limitations)]"

lemma conforms_policy: "conforms F PolicySchema (policy_json_of c rule) = policy_ok c rule"
  by (cases rule) (auto simp: PolicySchema_def policy_json_of_def policy_ok_def policy_identity_props_def
      req_def opt_def IdentifierSchema_def DigestSchema_def is_obj_def keys_of_def)

lemma conforms_decision: "conforms F ReceiptDecisionSchema (decision_json i) = decision_ok i"
proof -
  have n: "int_ok 0 100 (JNum m) \<longleftrightarrow> (\<exists>n. m = NInt n \<and> 0 \<le> n \<and> n \<le> 100)" for m
    by (cases m) auto
  have l: "list_all (conforms F (SStr is_reason_code)) (map JStr xs) = list_all is_reason_code xs" for xs
    by (induction xs) auto
  have ne: "Suc 0 \<le> length xs \<longleftrightarrow> xs \<noteq> []" for xs :: "string list"
    by (cases xs) auto
  show ?thesis
    using band_name_member [of "ai_riskBand i"] decision_name_member [of "ai_base i"] decision_name_member [of "ai_effective i"]
    by (simp add: ReceiptDecisionSchema_def decision_json_def decision_ok_def req_def ReasonCodeSchema_def
        is_obj_def is_arr_def keys_of_def conforms_enum n l ne conj_assoc del: list.set) simp
qed

lemma conforms_status: "conforms F AuthorizationSchema (JObj [(''status'', JStr (auth_status_name s)), (''reasonCode'', JStr r)])
    = is_reason_code r"
  by (cases s) (simp_all add: AuthorizationSchema_def req_def ReasonCodeSchema_def is_obj_def keys_of_def conforms_enum)

lemma authorization_rules_iff:
  assumes "rc_evidence (ai_context i) \<noteq> Some JUndef" "action_ok F (ai_actionId i) (ai_context i)"
  shows "authorization_rules (authorization_json i t) \<longleftrightarrow> version_ok (ai_context i) \<and> status_ok i"
proof -
  have st: "auth_status_name s = ''authorized'' \<longleftrightarrow> s = Authorized" "auth_status_name s = ''blocked'' \<longleftrightarrow> s = Blocked" for s
    by (cases s; simp)+
  have e: "rc_evidence (ai_context i) = None \<Longrightarrow> rc_assurance (ai_context i) \<noteq> Adapter_action_exact"
    using assms(2) by (simp add: action_ok_def evidence_ok_def)
  have v: "identity_version_rules (schemaIdentity (ai_context i)) (action_json (ai_actionId i) (ai_context i) t)
      \<longleftrightarrow> version_ok (ai_context i)"
    using assms(1) e
    by (cases "rc_evidence (ai_context i)"; cases "rc_planHash (ai_context i)")
       (auto simp: identity_version_rules_def version_ok_def Let_def)
  show ?thesis
    unfolding authorization_rules_def genesis_boundary_rule_def authorization_json_def decision_json_def
    by (simp add: v st) (auto simp: status_ok_def)
qed

lemma conforms_authorization:
  assumes "rc_evidence (ai_context i) \<noteq> Some JUndef"
  shows "conforms F AuthorizationReceiptSchema (authorization_json i t) = auth_ok F i"
proof -
  have "conforms F AuthorizationReceiptSchema (authorization_json i t) \<longleftrightarrow>
     (uuid_ok F (ai_receiptId i) \<and> datetime_ok F (ai_issuedAt i)
      \<and> action_ok F (ai_actionId i) (ai_context i) \<and> policy_ok (ai_context i) (ai_matchedRuleId i)
      \<and> decision_ok i \<and> approval_ok F (ai_approval i) \<and> is_reason_code (ai_reasonCode i))
     \<and> authorization_rules (authorization_json i t)"
    unfolding AuthorizationReceiptSchema_def conforms.simps(10,12) conforms_action [OF assms, symmetric, of F _ t]
      conforms_policy [symmetric, of _ _ F] conforms_decision [symmetric, of _ F] conforms_approval [symmetric]
      conforms_status [symmetric, of _ F "ai_status i"]
    by (simp add: authorization_json_def req_def is_obj_def keys_of_def del: conforms.simps)
  then show ?thesis
    using authorization_rules_iff [OF assms, of F t] unfolding auth_ok_def by blast
qed

lemma createAuthorizationReceipt_unfold:
  assumes "rc_evidence (ai_context i) \<noteq> Some JUndef"
  shows "createAuthorizationReceipt F i = Inr r \<longleftrightarrow>
    (\<exists>t. canonicalReceiptJson (intent_material (ai_context i)) = Inr t \<and> r = authorization_json i t)
    \<and> auth_ok F i"
proof -
  have u: "createAuthorizationReceipt F i =
     rbind (actionFor F (ai_actionId i) (ai_context i)) (\<lambda>action.
       parse_schema F AuthorizationReceiptSchema (JObj
         [(''schema'', schemaIdentity (ai_context i)),
          (''receipt'', receipt_identity (ai_receiptId i) ''authorization'' (ai_issuedAt i)),
          (''action'', action),
          (''coverage'', coverageFor (rc_boundary (ai_context i))),
          (''policy'', policy_json_of (ai_context i) (ai_matchedRuleId i)),
          (''decision'', decision_json i),
          (''approval'', approval_json (ai_approval i)),
          (''authorization'', JObj [(''status'', JStr (auth_status_name (ai_status i))),
                                   (''reasonCode'', JStr (ai_reasonCode i))]),
          (''issuer'', issuer), (''limitations'', limitations)]))"
    unfolding createAuthorizationReceipt_def policy_json_of_def decision_json_def ..
  have a: "createAuthorizationReceipt F i = Inr r \<longleftrightarrow>
     (\<exists>t. canonicalReceiptJson (intent_material (ai_context i)) = Inr t \<and> r = authorization_json i t
        \<and> conforms F AuthorizationReceiptSchema (authorization_json i t))
     \<and> action_ok F (ai_actionId i) (ai_context i)"
    unfolding u rbind_Inr_iff actionFor_iff [OF assms] parse_schema_def authorization_json_def by auto
  show ?thesis
    unfolding a conforms_authorization [OF assms] by (auto simp: auth_ok_def)
qed

lemma authorization_issued:
  assumes "rc_evidence (ai_context i) \<noteq> Some JUndef"
    "canonicalReceiptJson (intent_material (ai_context i)) = Inr t" "auth_ok F i"
  shows "createAuthorizationReceipt F i = Inr (authorization_json i t)"
  using assms createAuthorizationReceipt_unfold by blast

text \<open>
  Exactly which inputs get an authorization receipt: the receipt is the described data,
  and it is issued if and only if the identity material is bounded JSON and every part
  satisfies its rules.
\<close>

theorem createAuthorizationReceipt_iff:
  assumes "rc_evidence (ai_context i) \<noteq> Some JUndef"
  shows "createAuthorizationReceipt F i = Inr r \<longleftrightarrow>
    (\<exists>t. canonicalReceiptJson (intent_material (ai_context i)) = Inr t \<and> r = authorization_json i t)
    \<and> auth_ok F i"
  using createAuthorizationReceipt_unfold [OF assms] .

definition demo_formats :: formats where
  "demo_formats = \<lparr>uuid_ok = (\<lambda>s. length s = 36), datetime_ok = (\<lambda>s. parse_iso s \<noteq> None)\<rparr>"

definition demo_uuid :: string where
  "demo_uuid = ''00000000-0000-4000-8000-000000000001''"

definition demo_context :: receipt_context where
  "demo_context = \<lparr>rc_adapter = ''mcp_proxy'', rc_adapterVersion = ''1'', rc_operation = ''read_file'',
     rc_boundary = Mcp_proxy_call, rc_assurance = Structural_only,
     rc_material = JObj [(''serverId'', JStr ''fs''), (''toolName'', JStr ''read_file'')],
     rc_evidence = None, rc_subject = Some ''fs'', rc_planHash = None,
     rc_policy = \<lparr>pid_schemaVersion = 1, pid_contentDigest = sha256_digest ''policy'',
                  pid_evaluatorName = ''apg_mcp_policy'', pid_evaluatorVersion = ''1''\<rparr>\<rparr>"

definition demo_approval :: receipt_approval where
  "demo_approval = \<lparr>ap_required = True, ap_outcome = Approved, ap_requestId = Some demo_uuid,
     ap_requestedAt = Some (iso_text 0), ap_decidedAt = Some (iso_text 0), ap_expiresAt = Some (iso_text 0),
     ap_principal = Local_dashboard_session\<rparr>"

definition demo_auth :: auth_input where
  "demo_auth = \<lparr>ai_receiptId = demo_uuid, ai_actionId = demo_uuid, ai_issuedAt = iso_text 0,
     ai_context = demo_context, ai_base = ask, ai_effective = ask, ai_matchedRuleId = Some ''read-rule'',
     ai_reasonCodes = [''matched_rule''], ai_riskScore = NInt 25, ai_riskBand = low,
     ai_approval = demo_approval, ai_status = Authorized, ai_reasonCode = ''approval_approved''\<rparr>"

lemma demo_material: "\<exists>t. canonicalReceiptJson (intent_material demo_context) = Inr t"
proof -
  have "validateJsonValue (intent_material
     \<lparr>rc_adapter = ''mcp_proxy'', rc_adapterVersion = ''1'', rc_operation = ''read_file'',
     rc_boundary = Mcp_proxy_call, rc_assurance = Structural_only,
     rc_material = JObj [(''serverId'', JStr ''fs''), (''toolName'', JStr ''read_file'')],
     rc_evidence = None, rc_subject = Some ''fs'', rc_planHash = None,
     rc_policy = p\<rparr>) 0 = Inr ()" for p
    by code_simp
  then show ?thesis by (simp add: canonicalReceiptJson_def demo_context_def)
qed

lemma demo_names:
  "list_all is_identifier [''mcp_proxy'', ''1'', ''read_file'', ''apg_mcp_policy'', ''read-rule'']"
  "list_all is_reason_code [''matched_rule'', ''approval_approved'']"
  by code_simp+

lemma demo_auth_ok: "auth_ok demo_formats demo_auth"
  using demo_names
  by (simp add: auth_ok_def action_ok_def evidence_ok_def policy_ok_def decision_ok_def approval_ok_def
      version_ok_def status_ok_def demo_auth_def demo_context_def demo_approval_def demo_formats_def demo_uuid_def
      parse_iso_text)

theorem createAuthorizationReceipt_iff_witness:
  "\<exists>r. createAuthorizationReceipt demo_formats demo_auth = Inr r"
proof -
  have "rc_evidence (ai_context demo_auth) \<noteq> Some JUndef" by (simp add: demo_auth_def demo_context_def)
  from createAuthorizationReceipt_iff [OF this, of demo_formats] show ?thesis
    using demo_auth_ok demo_material by (auto simp: demo_auth_def)
qed

lemma authorization_receipt_facts:
  assumes "createAuthorizationReceipt F i = Inr r" "rc_evidence (ai_context i) \<noteq> Some JUndef"
  shows "(ai_status i = Authorized \<longrightarrow> ai_effective i \<noteq> deny
            \<and> (ap_required (ai_approval i) \<longrightarrow> ap_outcome (ai_approval i) = Approved
                 \<and> ap_requestId (ai_approval i) \<noteq> None \<and> ap_decidedAt (ai_approval i) \<noteq> None))
         \<and> (ai_status i = Blocked \<longrightarrow> ai_effective i = deny
              \<or> ap_outcome (ai_approval i) \<in> {Denied, Expired, Cancelled, Unavailable})
         \<and> (rc_assurance (ai_context i) = Adapter_action_exact \<longrightarrow>
              (\<exists>e. rc_evidence (ai_context i) = Some e
                 \<and> at e ''parameterCoverage'' = JStr ''complete_action_parameters''))"
proof -
  have ok: "auth_ok F i" using assms createAuthorizationReceipt_unfold by blast
  then have s: "status_ok i" and a: "approval_ok F (ai_approval i)" and e: "evidence_ok F (rc_assurance (ai_context i)) (rc_evidence (ai_context i))"
    by (simp_all add: auth_ok_def action_ok_def)
  from a have "ap_required (ai_approval i) \<Longrightarrow> ap_outcome (ai_approval i) = Approved \<Longrightarrow>
      ap_requestId (ai_approval i) \<noteq> None \<and> ap_decidedAt (ai_approval i) \<noteq> None"
    by (simp add: approval_ok_def)
  moreover from e have "rc_assurance (ai_context i) = Adapter_action_exact \<Longrightarrow>
      \<exists>e. rc_evidence (ai_context i) = Some e \<and> at e ''parameterCoverage'' = JStr ''complete_action_parameters''"
    by (auto simp: evidence_ok_def split: option.splits)
  ultimately show ?thesis using s by (auto simp: status_ok_def)
qed

text \<open>
  C27: no receipt says an action was authorized that the policy denied, or that needed an
  approval it did not get: an authorized receipt with a required approval names the approved
  request and its times, and a blocked receipt has a deny or an approval that failed.
\<close>

theorem authorization_receipt_sound:
  assumes "createAuthorizationReceipt F i = Inr r" "rc_evidence (ai_context i) \<noteq> Some JUndef"
  shows "(ai_status i = Authorized \<longrightarrow> ai_effective i \<noteq> deny
            \<and> (ap_required (ai_approval i) \<longrightarrow> ap_outcome (ai_approval i) = Approved
                 \<and> ap_requestId (ai_approval i) \<noteq> None \<and> ap_decidedAt (ai_approval i) \<noteq> None))
         \<and> (ai_status i = Blocked \<longrightarrow> ai_effective i = deny
              \<or> ap_outcome (ai_approval i) \<in> {Denied, Expired, Cancelled, Unavailable})
         \<and> (rc_assurance (ai_context i) = Adapter_action_exact \<longrightarrow>
              (\<exists>e. rc_evidence (ai_context i) = Some e
                 \<and> at e ''parameterCoverage'' = JStr ''complete_action_parameters''))"
  using authorization_receipt_facts [OF assms] .

theorem authorization_receipt_sound_witness:
  "\<exists>r. createAuthorizationReceipt demo_formats demo_auth = Inr r
     \<and> ap_outcome (ai_approval demo_auth) = Approved"
proof -
  have e: "rc_evidence (ai_context demo_auth) \<noteq> Some JUndef" by (simp add: demo_auth_def demo_context_def)
  obtain t where t: "canonicalReceiptJson (intent_material (ai_context demo_auth)) = Inr t"
    using demo_material by (auto simp: demo_auth_def)
  have "createAuthorizationReceipt demo_formats demo_auth = Inr (authorization_json demo_auth t)"
    using authorization_issued [OF e t demo_auth_ok] .
  with authorization_receipt_sound [OF this e] show ?thesis by (simp add: demo_auth_def demo_approval_def)
qed

theorem actionFor_intent_binding_witness:
  "rc_operation demo_context = rc_operation (demo_context\<lparr>rc_subject := None\<rparr>)
   \<or> collision (canonicalJson (intent_material demo_context))
              (canonicalJson (intent_material (demo_context\<lparr>rc_subject := None\<rparr>)))"
proof -
  let ?c = "demo_context" and ?d = "demo_context\<lparr>rc_subject := None\<rparr>"
  obtain t where t: "canonicalReceiptJson (intent_material ?c) = Inr t" using demo_material by blast
  have i: "intent_material ?d = intent_material ?c" by (simp add: intent_material_def)
  have ok: "action_ok demo_formats demo_uuid ?c" "action_ok demo_formats demo_uuid ?d"
    using demo_names
    by (simp_all add: action_ok_def evidence_ok_def demo_context_def demo_formats_def demo_uuid_def)
  have "actionFor demo_formats demo_uuid ?c = Inr (action_json demo_uuid ?c t)"
    using t ok by (subst actionFor_iff) (auto simp: demo_context_def)
  moreover have "actionFor demo_formats demo_uuid ?d = Inr (action_json demo_uuid ?d t)"
    using t i ok by (subst actionFor_iff) (auto simp: demo_context_def)
  moreover have "js_wf (rc_material ?c)" "js_wf (rc_material ?d)" by (simp_all add: demo_context_def)
  ultimately show ?thesis using actionFor_intent_binding by fastforce
qed

end
