(* ===== verification/Redaction.thy ===== *)
theory Redaction
  imports JsValue
begin

section \<open>Redaction of audited values\<close>

text \<open>
  Models src/audit/redaction.ts.  Every value that reaches the audit database or the approval
  dashboard passes through \<open>redactForAudit\<close>: it cuts the value at depth 12, at 100 items per
  collection and at 512 characters per string, and replaces the value of every property whose
  name matches \<open>SECRET_KEY\<close>.  Values are trees here, so the \<open>[CIRCULAR]\<close> branch, which
  detects an object among its own ancestors, has no input.

  Results: no property with a secret name keeps its value; two values that differ only below
  secret names are redacted alike, so neither the stored text nor its hash depends on a secret;
  the result is JSON data of bounded depth and breadth.
\<close>

definition is_secret_key :: "string \<Rightarrow> bool" where
  "is_secret_key k = contains_word_ci secret_words k"

definition upper_c :: "char \<Rightarrow> char" where
  "upper_c c = (if is_lower c then char_of (code c - 32) else c)"

text \<open>Assigning the key \<open>__proto__\<close> sets the prototype and makes no own property.\<close>

definition assign_prop :: "string \<Rightarrow> jsval \<Rightarrow> (string \<times> jsval) list \<Rightarrow> (string \<times> jsval) list" where
  "assign_prop k v m = (if k = ''__proto__'' then m else om_set k v m)"

definition max_items :: nat where
  "max_items = 100"

function redact :: "nat \<Rightarrow> jsval \<Rightarrow> jsval" where
  "redact d (JStr s) =
     (if 12 < d then JStr ''[TRUNCATED:DEPTH]''
      else if length s \<le> 512 then JStr s else JStr (take 512 s @ ''[TRUNCATED]''))"
| "redact d (JNum n) = (if 12 < d then JStr ''[TRUNCATED:DEPTH]'' else JNum n)"
| "redact d (JBool b) = (if 12 < d then JStr ''[TRUNCATED:DEPTH]'' else JBool b)"
| "redact d JNull = (if 12 < d then JStr ''[TRUNCATED:DEPTH]'' else JNull)"
| "redact d (JBig i) = (if 12 < d then JStr ''[TRUNCATED:DEPTH]'' else JStr (show_int i))"
| "redact d JUndef = JStr (if 12 < d then ''[TRUNCATED:DEPTH]'' else ''[UNDEFINED]'')"
| "redact d (JOther t) =
     JStr (if 12 < d then ''[TRUNCATED:DEPTH]'' else ''['' @ map upper_c t @ '']'')"
| "redact d (JArr xs) =
     (if 12 < d then JStr ''[TRUNCATED:DEPTH]''
      else JArr (map (redact (Suc d)) (take max_items xs) @
             (if max_items < length xs
              then [JStr (''[TRUNCATED:'' @ show_nat (length xs - max_items) @ ''_ITEMS]'')] else [])))"
| "redact d (JObj kvs) =
     (if 12 < d then JStr ''[TRUNCATED:DEPTH]''
      else
        let es = map (\<lambda>(k, v). (k, if is_secret_key k then JStr ''[REDACTED]'' else redact (Suc d) v))
                   (take max_items kvs);
            r = foldl (\<lambda>m p. assign_prop (fst p) (snd p) m) [] es
        in JObj (own_order
             (if max_items < length kvs
              then om_set ''__truncated__'' (JStr (show_nat (length kvs - max_items) @ '' fields'')) r
              else r)))"
  by pat_completeness auto
termination
  by (relation "measure (\<lambda>(d, v). size v)")
     (auto dest!: in_set_takeD simp: size_kv_less less_Suc_eq_le size_list_estimation')

definition redactForAudit :: "jsval \<Rightarrow> jsval" where
  "redactForAudit v = redact 0 v"

subsection \<open>The object under construction\<close>

abbreviation assign_all :: "(string \<times> jsval) list \<Rightarrow> (string \<times> jsval) list \<Rightarrow> (string \<times> jsval) list" where
  "assign_all m es \<equiv> foldl (\<lambda>m p. assign_prop (fst p) (snd p) m) m es"

lemma om_set_entries: "set (om_set k v m) \<subseteq> insert (k, v) (set m)"
proof (induction m)
  case (Cons p m)
  then show ?case by (cases p) auto
qed simp

lemma assign_all_entries: "set (assign_all m es) \<subseteq> set m \<union> set es"
proof (induction es arbitrary: m)
  case (Cons p es)
  have "set (assign_prop (fst p) (snd p) m) \<subseteq> insert p (set m)"
    using om_set_entries [of "fst p" "snd p" m] by (auto simp: assign_prop_def)
  with Cons.IH [of "assign_prop (fst p) (snd p) m"] show ?case by auto
qed simp

lemma assign_all_wf: "om_wf m \<Longrightarrow> om_wf (assign_all m es)"
  by (induction es arbitrary: m) (simp_all add: assign_prop_def)

lemma assign_all_length: "length (assign_all m es) \<le> length m + length es"
proof (induction es arbitrary: m)
  case (Cons p es)
  have "length (assign_prop (fst p) (snd p) m) \<le> Suc (length m)"
    by (simp add: assign_prop_def om_set_length)
  with Cons.IH [of "assign_prop (fst p) (snd p) m"] show ?case by simp
qed simp

text \<open>The properties of a redacted object: a marker, or a property of the original.\<close>

definition entry_result :: "nat \<Rightarrow> string \<times> jsval \<Rightarrow> string \<times> jsval" where
  "entry_result d p =
     (fst p, if is_secret_key (fst p) then JStr ''[REDACTED]'' else redact (Suc d) (snd p))"

definition obj_result :: "nat \<Rightarrow> (string \<times> jsval) list \<Rightarrow> (string \<times> jsval) list" where
  "obj_result d kvs =
     (let r = assign_all [] (map (entry_result d) (take max_items kvs))
      in if max_items < length kvs
         then om_set ''__truncated__'' (JStr (show_nat (length kvs - max_items) @ '' fields'')) r else r)"

lemma redact_obj:
  "redact d (JObj kvs) =
     (if 12 < d then JStr ''[TRUNCATED:DEPTH]'' else JObj (own_order (obj_result d kvs)))"
  by (simp add: obj_result_def entry_result_def [abs_def] Let_def case_prod_beta')

lemma obj_result_sub:
  "set (obj_result d kvs) \<subseteq>
     insert (''__truncated__'', JStr (show_nat (length kvs - max_items) @ '' fields''))
       (entry_result d ` set (take max_items kvs))"
proof -
  let ?r = "assign_all [] (map (entry_result d) (take max_items kvs))"
  let ?m = "JStr (show_nat (length kvs - max_items) @ '' fields'')"
  have "set ?r \<subseteq> entry_result d ` set (take max_items kvs)"
    using assign_all_entries [of "[]" "map (entry_result d) (take max_items kvs)"] by simp
  moreover have "set (om_set ''__truncated__'' ?m ?r) \<subseteq> insert (''__truncated__'', ?m) (set ?r)"
    by (rule om_set_entries)
  ultimately show ?thesis unfolding obj_result_def Let_def by (cases "max_items < length kvs") auto
qed

lemma obj_result_entry:
  assumes "(k, v) \<in> set (obj_result d kvs)"
  shows "(k = ''__truncated__'' \<and> v = JStr (show_nat (length kvs - max_items) @ '' fields''))
       \<or> (is_secret_key k \<and> v = JStr ''[REDACTED]'')
       \<or> (\<exists>w. (k, w) \<in> set (take max_items kvs) \<and> \<not> is_secret_key k \<and> v = redact (Suc d) w)"
proof -
  consider "(k, v) = (''__truncated__'', JStr (show_nat (length kvs - max_items) @ '' fields''))"
    | p where "p \<in> set (take max_items kvs)" "(k, v) = entry_result d p"
    using subsetD [OF obj_result_sub assms] by blast
  then show ?thesis
  proof cases
    case (2 p)
    obtain a w where "p = (a, w)" by (rule prod.exhaust)
    with 2 show ?thesis by (auto simp: entry_result_def)
  qed simp
qed

lemma obj_result_wf: "om_wf (obj_result d kvs)"
  by (simp add: obj_result_def Let_def assign_all_wf)

lemma obj_result_length: "length (obj_result d kvs) \<le> Suc max_items"
proof -
  have "length (assign_all [] (map (entry_result d) (take max_items kvs))) \<le> max_items"
    using assign_all_length [of "[]" "map (entry_result d) (take max_items kvs)"] by simp
  then show ?thesis by (auto simp: obj_result_def Let_def om_set_length)
qed

lemma truncated_not_secret: "\<not> is_secret_key ''__truncated__''"
  by (simp add: is_secret_key_def contains_word_ci_def secret_words_def lower_c_def is_upper_def)

subsection \<open>No secret survives\<close>

fun no_secret :: "jsval \<Rightarrow> bool" where
  "no_secret (JArr xs) = list_all no_secret xs"
| "no_secret (JObj kvs) =
     list_all (\<lambda>(k, v). (is_secret_key k \<longrightarrow> v = JStr ''[REDACTED]'') \<and> no_secret v) kvs"
| "no_secret _ = True"

lemma redact_no_secret: "no_secret (redact d v)"
proof (induction d v rule: redact.induct)
  case (8 d xs)
  then show ?case by (auto simp: list_all_iff)
next
  case (9 d kvs)
  show ?case
  proof (cases "12 < d")
    case False
    have "(is_secret_key k \<longrightarrow> v = JStr ''[REDACTED]'') \<and> no_secret v" if "(k, v) \<in> set (obj_result d kvs)" for k v
      using obj_result_entry [OF that]
      by (elim disjE exE conjE) (use 9 False truncated_not_secret in auto)
    with False show ?thesis unfolding redact_obj by (auto simp: list_all_iff)
  qed simp
qed simp_all

subsection \<open>The result does not depend on secrets\<close>

text \<open>Two values that agree everywhere except below properties with a secret name.\<close>

inductive low_eq :: "jsval \<Rightarrow> jsval \<Rightarrow> bool" where
  low_atom: "low_eq v v"
| low_arr: "list_all2 low_eq xs ys \<Longrightarrow> low_eq (JArr xs) (JArr ys)"
| low_obj: "list_all2 (\<lambda>p q. fst p = fst q \<and> (is_secret_key (fst p) \<or> low_eq (snd p) (snd q))) kvs kvs'
     \<Longrightarrow> low_eq (JObj kvs) (JObj kvs')"

lemma redact_low_eq: "low_eq v w \<Longrightarrow> redact d v = redact d w"
proof (induction arbitrary: d rule: low_eq.induct)
  case (low_atom v)
  show ?case ..
next
  case (low_arr xs ys)
  have len: "length xs = length ys" using low_arr by (rule list_all2_lengthD)
  have "map (redact (Suc d)) xs = map (redact (Suc d)) ys"
    using low_arr by (induction rule: list_all2_induct) auto
  then have "map (redact (Suc d)) (take n xs) = map (redact (Suc d)) (take n ys)" for n
    by (metis take_map)
  with len show ?case by simp
next
  case (low_obj kvs kvs')
  have len: "length kvs = length kvs'" using low_obj by (rule list_all2_lengthD)
  have "map (entry_result d) kvs = map (entry_result d) kvs'"
    using low_obj by (induction rule: list_all2_induct) (auto simp: entry_result_def)
  then have "map (entry_result d) (take n kvs) = map (entry_result d) (take n kvs')" for n
    by (metis take_map)
  with len show ?case unfolding redact_obj by (simp add: obj_result_def Let_def)
qed

subsection \<open>The result is JSON data of bounded depth and breadth\<close>

fun bounded_data :: "nat \<Rightarrow> jsval \<Rightarrow> bool" where
  "bounded_data n (JArr xs) = (0 < n \<and> length xs \<le> Suc max_items \<and> list_all (bounded_data (n - 1)) xs)"
| "bounded_data n (JObj kvs) =
     (0 < n \<and> length kvs \<le> Suc max_items \<and> distinct (map fst kvs) \<and>
      list_all (\<lambda>(k, v). bounded_data (n - 1) v) kvs)"
| "bounded_data n (JStr s) = True"
| "bounded_data n (JNum m) = True"
| "bounded_data n (JBool b) = True"
| "bounded_data n JNull = True"
| "bounded_data n _ = False"

lemma redact_bounded: "d \<le> 13 \<Longrightarrow> bounded_data (13 - d) (redact d v)"
proof (induction d v rule: redact.induct)
  case (8 d xs)
  then show ?case by (auto simp: list_all_iff)
next
  case (9 d kvs)
  show ?case
  proof (cases "12 < d")
    case False
    have len: "length (own_order (obj_result d kvs)) \<le> Suc max_items"
      using obj_result_length [of d kvs] mset_own_order [of "obj_result d kvs"] by (metis size_mset)
    have "bounded_data (13 - Suc d) v" if "(k, v) \<in> set (obj_result d kvs)" for k v
      using obj_result_entry [OF that]
      by (elim disjE exE conjE) (use 9 False in auto)
    with False len show ?thesis
      unfolding redact_obj by (auto simp: list_all_iff obj_result_wf)
  qed simp
qed simp_all

lemma bounded_serialisable: "bounded_data n v \<Longrightarrow> serialisable v"
  by (induction n v rule: bounded_data.induct) (auto simp: list_all_iff)

lemma redactForAudit_serialisable: "serialisable (redactForAudit v)"
  unfolding redactForAudit_def using redact_bounded [of 0 v] by (intro bounded_serialisable) simp

text \<open>Numbers are the only data redaction passes through, so good numbers give JSON data.\<close>

fun good_nums :: "jsval \<Rightarrow> bool" where
  "good_nums (JNum n) = (case n of NNonFinite \<Rightarrow> False | _ \<Rightarrow> True)"
| "good_nums (JArr xs) = list_all good_nums xs"
| "good_nums (JObj kvs) = list_all (\<lambda>(k, v). good_nums v) kvs"
| "good_nums _ = True"

text \<open>
  Redaction is not idempotent: the marker that replaces the items beyond the hundredth makes
  the result one item too long for a second pass, which then cuts the marker itself.
\<close>

lemma redact_twice_arr:
  assumes "length xs = n" "max_items < n"
  shows "\<exists>ys. length ys = max_items \<and>
     redactForAudit (JArr xs) = JArr (ys @ [JStr (''[TRUNCATED:'' @ show_nat (n - max_items) @ ''_ITEMS]'')]) \<and>
     (\<exists>zs. length zs = max_items \<and>
       redactForAudit (redactForAudit (JArr xs)) = JArr (zs @ [JStr (''[TRUNCATED:'' @ show_nat 1 @ ''_ITEMS]'')]))"
proof -
  let ?ys = "map (redact (Suc 0)) (take max_items xs)"
  let ?m = "JStr (''[TRUNCATED:'' @ show_nat (n - max_items) @ ''_ITEMS]'')"
  have l: "length ?ys = max_items" using assms by simp
  have one: "redactForAudit (JArr xs) = JArr (?ys @ [?m])"
    using assms by (simp add: redactForAudit_def)
  have t: "take max_items (?ys @ [?m]) = ?ys" using l by simp
  have n: "length (?ys @ [?m]) = Suc max_items" using l by simp
  have "redactForAudit (JArr (?ys @ [?m])) =
      JArr (map (redact (Suc 0)) ?ys @ [JStr (''[TRUNCATED:'' @ show_nat 1 @ ''_ITEMS]'')])"
    unfolding redactForAudit_def redact.simps(8) t n by simp
  with one l show ?thesis by (intro exI [of _ ?ys]) (auto intro!: exI [of _ "map (redact (Suc 0)) ?ys"])
qed

end
