(* ===== verification/Identity.thy ===== *)
theory Identity
  imports ReceiptFacts Redaction
begin

section \<open>MCP identity profiles\<close>

text \<open>
  Models src/identity/mcp-identity.ts and src/identity/builtin-profiles.ts: the fields a
  reviewed profile may disclose, the definition of profiles, the authority that holds them,
  and the projection of the arguments of a call to identity claims.

  Fields, profiles and results are accepted by the code only when its own constructors made
  them (the \<open>trusted...\<close> sets).  Fields and profiles of the model are made by those constructors
  alone; a result carries the mark as \<open>mi_trusted\<close>, since the recorder also receives contexts
  from callers that bring none.  Numbers given as options are integers.
\<close>

subsection \<open>Safe values\<close>

datatype safe_scalar = Id_string string | Id_enum string | Id_integer int | Id_boolean bool | Id_null

datatype safe_value = Id_scalar safe_scalar | Id_ordered_list "safe_scalar list"

fun scalar_json :: "safe_scalar \<Rightarrow> jsval" where
  "scalar_json (Id_string s) = JObj [(''type'', JStr ''string''), (''value'', JStr s)]"
| "scalar_json (Id_enum s) = JObj [(''type'', JStr ''enum''), (''value'', JStr s)]"
| "scalar_json (Id_integer i) = JObj [(''type'', JStr ''integer''), (''value'', JInt i)]"
| "scalar_json (Id_boolean b) = JObj [(''type'', JStr ''boolean''), (''value'', JBool b)]"
| "scalar_json Id_null = JObj [(''type'', JStr ''null'')]"

fun value_json :: "safe_value \<Rightarrow> jsval" where
  "value_json (Id_scalar s) = scalar_json s"
| "value_json (Id_ordered_list xs) =
     JObj [(''type'', JStr ''ordered_list''), (''items'', JArr (map scalar_json xs))]"

type_synonym safe_claim = "string \<times> safe_value"

definition claim_json :: "safe_claim \<Rightarrow> jsval" where
  "claim_json c = JObj [(''name'', JStr (fst c)), (''value'', value_json (snd c))]"

subsection \<open>Fields\<close>

datatype field_kind =
    F_string int int
  | F_enum "string list"
  | F_integer int int
  | F_boolean
  | F_null
  | F_string_list int int

record identity_field =
  if_kind :: field_kind
  if_optional :: bool

definition id_max_profiles :: nat where "id_max_profiles = 100"
definition id_max_fields :: nat where "id_max_fields = 64"
definition id_max_string :: int where "id_max_string = 512"
definition id_max_list :: int where "id_max_list = 100"
definition id_max_schema_bytes :: nat where "id_max_schema_bytes = 65536"
definition id_max_schema_depth :: nat where "id_max_schema_depth = 32"
definition id_max_schema_nodes :: nat where "id_max_schema_nodes = 10000"

definition safe_int :: "int \<Rightarrow> bool" where
  "safe_int i \<longleftrightarrow> \<bar>i\<bar> \<le> max_safe"

definition field :: "field_kind \<Rightarrow> bool \<Rightarrow> identity_field" where
  "field k optional = \<lparr>if_kind = k, if_optional = optional\<rparr>"

definition or_default :: "'a option \<Rightarrow> 'a \<Rightarrow> 'a" where
  "or_default x d = (case x of None \<Rightarrow> d | Some v \<Rightarrow> v)"

definition publicString :: "int option \<Rightarrow> int option \<Rightarrow> audit_error + identity_field" where
  "publicString minOpt maxOpt =
     (let minLength = or_default minOpt 0; maxLength = or_default maxOpt id_max_string in
        if \<not> safe_int minLength \<or> minLength < 0 then Inl (Audit_error ''String minimum length is invalid'')
        else if \<not> safe_int maxLength \<or> maxLength < minLength \<or> id_max_string < maxLength
          then Inl (Audit_error ''String maximum length is invalid'')
        else Inr (field (F_string minLength maxLength) False))"

definition publicEnum :: "string list \<Rightarrow> audit_error + identity_field" where
  "publicEnum values =
     (if values = [] \<or> 100 < length values then Inl (Audit_error ''Enum values are invalid'')
      else if \<not> distinct values \<or> list_ex (\<lambda>v. \<not> is_identifier v) values
        then Inl (Audit_error ''Enum values must be unique safe identifiers'')
      else Inr (field (F_enum values) False))"

definition publicInteger :: "int option \<Rightarrow> int option \<Rightarrow> audit_error + identity_field" where
  "publicInteger minOpt maxOpt =
     (let minimum = or_default minOpt (- max_safe); maximum = or_default maxOpt max_safe in
        if \<not> safe_int minimum \<or> \<not> safe_int maximum \<or> maximum < minimum
          then Inl (Audit_error ''Integer range is invalid'')
        else Inr (field (F_integer minimum maximum) False))"

definition publicBoolean :: identity_field where "publicBoolean = field F_boolean False"

definition publicNull :: identity_field where "publicNull = field F_null False"

definition publicStringList :: "int option \<Rightarrow> int option \<Rightarrow> audit_error + identity_field" where
  "publicStringList itemsOpt lengthOpt =
     (let maxItems = or_default itemsOpt id_max_list; itemMaxLength = or_default lengthOpt id_max_string in
        if \<not> safe_int maxItems \<or> maxItems < 0 \<or> id_max_list < maxItems
          then Inl (Audit_error ''List item limit is invalid'')
        else if \<not> safe_int itemMaxLength \<or> itemMaxLength < 0 \<or> id_max_string < itemMaxLength
          then Inl (Audit_error ''List string limit is invalid'')
        else Inr (field (F_string_list maxItems itemMaxLength) False))"

definition optionalIdentityField :: "identity_field \<Rightarrow> identity_field" where
  "optionalIdentityField f = field (if_kind f) True"

definition str_in :: "int \<Rightarrow> int \<Rightarrow> string \<Rightarrow> bool" where
  "str_in lo hi s \<longleftrightarrow> lo \<le> int (length s) \<and> int (length s) \<le> hi"

definition field_invalid :: audit_error where "field_invalid = Audit_error ''identity_field_invalid''"

fun parse_item :: "int \<Rightarrow> jsval \<Rightarrow> audit_error + safe_scalar" where
  "parse_item maxLength (JStr s) = (if str_in 0 maxLength s then Inr (Id_string s) else Inl field_invalid)"
| "parse_item maxLength _ = Inl field_invalid"

fun parse_field :: "field_kind \<Rightarrow> jsval \<Rightarrow> audit_error + safe_value" where
  "parse_field (F_string lo hi) (JStr s) =
     (if str_in lo hi s then Inr (Id_scalar (Id_string s)) else Inl field_invalid)"
| "parse_field (F_enum vs) (JStr s) =
     (if s \<in> set vs then Inr (Id_scalar (Id_enum s)) else Inl field_invalid)"
| "parse_field (F_integer lo hi) (JNum (NInt i)) =
     (if safe_int i \<and> lo \<le> i \<and> i \<le> hi then Inr (Id_scalar (Id_integer i)) else Inl field_invalid)"
| "parse_field F_boolean (JBool b) = Inr (Id_scalar (Id_boolean b))"
| "parse_field F_null JNull = Inr (Id_scalar Id_null)"
| "parse_field (F_string_list maxItems maxLength) (JArr xs) =
     (if maxItems < int (length xs) then Inl field_invalid
      else (case mapM (parse_item maxLength) xs of Inl e \<Rightarrow> Inl e | Inr ys \<Rightarrow> Inr (Id_ordered_list ys)))"
| "parse_field _ _ = Inl field_invalid"

fun manifest_props :: "field_kind \<Rightarrow> (string \<times> jsval) list" where
  "manifest_props (F_string lo hi) = [(''kind'', JStr ''string''), (''minLength'', JInt lo), (''maxLength'', JInt hi)]"
| "manifest_props (F_enum vs) = [(''kind'', JStr ''enum''), (''values'', JArr (map JStr vs))]"
| "manifest_props (F_integer lo hi) = [(''kind'', JStr ''integer''), (''minimum'', JInt lo), (''maximum'', JInt hi)]"
| "manifest_props F_boolean = [(''kind'', JStr ''boolean'')]"
| "manifest_props F_null = [(''kind'', JStr ''null'')]"
| "manifest_props (F_string_list n m) =
     [(''kind'', JStr ''ordered_string_list''), (''maxItems'', JInt n), (''itemMaxLength'', JInt m)]"

subsection \<open>Profiles\<close>

datatype coverage = Declared_subset | Complete_action_parameters

fun coverage_name :: "coverage \<Rightarrow> string" where
  "coverage_name Declared_subset = ''declared_subset''"
| "coverage_name Complete_action_parameters = ''complete_action_parameters''"

record profile_input =
  pin_id :: string
  pin_version :: int
  pin_serverId :: string
  pin_toolName :: string
  pin_coverage :: coverage
  pin_omitted :: "string list"
  pin_schemaDigest :: "string option"
  pin_fields :: "(string \<times> identity_field) list"

record identity_profile =
  pr_id :: string
  pr_version :: int
  pr_serverId :: string
  pr_toolName :: string
  pr_coverage :: coverage
  pr_omitted :: "string list"
  pr_schemaDigest :: "string option"
  pr_fields :: "(string \<times> identity_field) list"
  pr_manifestDigest :: string

definition is_forbidden_field :: "string \<Rightarrow> bool" where
  "is_forbidden_field s = contains_word_ci secret_words s"

definition profile_manifest :: "profile_input \<Rightarrow> (string \<times> identity_field) list \<Rightarrow> string list \<Rightarrow> jsval" where
  "profile_manifest i entries omitted = JObj
     ([(''format'', JStr ''apg-mcp-identity-profile-v1''), (''id'', JStr (pin_id i)),
       (''version'', JInt (pin_version i)), (''serverId'', JStr (pin_serverId i)),
       (''toolName'', JStr (pin_toolName i)), (''parameterCoverage'', JStr (coverage_name (pin_coverage i))),
       (''omittedCategories'', JArr (map JStr omitted))]
      @ opt_str ''expectedInputSchemaDigest'' (pin_schemaDigest i)
      @ [(''fields'', JArr (map (\<lambda>(name, f). JObj
            ([(''name'', JStr name), (''optional'', JBool (if_optional f))] @ manifest_props (if_kind f))) entries))])"

fun check_fields :: "(string \<times> identity_field) list \<Rightarrow> audit_error + unit" where
  "check_fields [] = Inr ()"
| "check_fields ((name, f) # fs) =
     (if \<not> is_identifier name then Inl (Audit_error ''Identity profile identifier is invalid'')
      else if is_forbidden_field name
        then Inl (Audit_error ''Identity profile cannot disclose a credential-like field'')
      else check_fields fs)"

definition defineMcpIdentityProfile :: "profile_input \<Rightarrow> audit_error + identity_profile" where
  "defineMcpIdentityProfile i =
     (if list_ex (\<lambda>s. \<not> is_identifier s) [pin_id i, pin_serverId i, pin_toolName i]
        then Inl (Audit_error ''Identity profile identifier is invalid'')
      else if \<not> safe_int (pin_version i) \<or> pin_version i < 1 \<or> 1000000 < pin_version i
        then Inl (Audit_error ''Identity profile version is invalid'')
      else let entries = isort key_lt (pin_fields i) in
      if id_max_fields < length entries then Inl (Audit_error ''Identity profile field count is invalid'')
      else if entries = [] \<and> pin_coverage i \<noteq> Complete_action_parameters
        then Inl (Audit_error ''Only complete identity profiles may have zero fields'')
      else rbind (check_fields entries) (\<lambda>_.
        let omitted = sort_text (pin_omitted i) in
        if list_ex (\<lambda>s. \<not> is_identifier s) omitted
          then Inl (Audit_error ''Omitted categories must be safe identifiers'')
        else if pin_coverage i = Complete_action_parameters \<and> omitted \<noteq> []
          then Inl (Audit_error ''Complete identity profiles cannot declare omitted categories'')
        else if pin_coverage i = Declared_subset \<and> omitted = []
          then Inl (Audit_error ''Partial identity profiles must declare an omitted category'')
        else if \<not> pred_option is_digest (pin_schemaDigest i)
          then Inl (Audit_error ''Expected input schema digest is invalid'')
        else rbind (receiptDigest (profile_manifest i entries omitted)) (\<lambda>d.
          Inr \<lparr>pr_id = pin_id i, pr_version = pin_version i, pr_serverId = pin_serverId i,
               pr_toolName = pin_toolName i, pr_coverage = pin_coverage i, pr_omitted = omitted,
               pr_schemaDigest = pin_schemaDigest i, pr_fields = entries, pr_manifestDigest = d\<rparr>)))"

subsection \<open>The schema a server announces\<close>

definition schema_limit :: audit_error where
  "schema_limit = Audit_error ''MCP input schema exceeds the identity resource limit''"

definition schema_bytes_ok :: "nat \<times> nat \<Rightarrow> audit_error + (nat \<times> nat)" where
  "schema_bytes_ok st = (if id_max_schema_bytes < fst st then Inl schema_limit else Inr st)"

text \<open>\<open>visit\<close>: the state is the pair of bytes and nodes counted so far.\<close>

function visit_schema :: "jsval \<Rightarrow> nat \<Rightarrow> nat \<times> nat \<Rightarrow> audit_error + (nat \<times> nat)" where
  "visit_schema v depth st =
     (let nodes = snd st + 1 in
      if id_max_schema_nodes < nodes \<or> id_max_schema_depth < depth then Inl schema_limit
      else rbind
        (case v of
           JStr s \<Rightarrow> Inr (fst st + utf8_length s, nodes)
         | JNum n \<Rightarrow> Inr (fst st + 16, nodes)
         | JBool b \<Rightarrow> Inr (fst st + 16, nodes)
         | JNull \<Rightarrow> Inr (fst st + 16, nodes)
         | JArr xs \<Rightarrow> foldM (\<lambda>x. visit_schema x (depth + 1)) xs (fst st, nodes)
         | JObj kvs \<Rightarrow>
             foldM (\<lambda>(k, x) (b, n). visit_schema x (depth + 1) (b + utf8_length k, n)) kvs (fst st, nodes)
         | JUndef \<Rightarrow> Inl (Audit_error ''MCP input schema contains an unsupported value'')
         | JBig i \<Rightarrow> Inl (Audit_error ''MCP input schema contains an unsupported value'')
         | JOther t \<Rightarrow> Inl (Audit_error ''MCP input schema contains an unsupported value''))
        schema_bytes_ok)"
  by pat_completeness auto
termination
  by (relation "measure (\<lambda>(v, d, st). size v)")
     (auto simp: size_kv_less less_Suc_eq_le size_list_estimation')

declare visit_schema.simps [simp del]

definition observedInputSchemaDigest :: "jsval \<Rightarrow> audit_error + string" where
  "observedInputSchemaDigest inputSchema =
     rbind (visit_schema inputSchema 0 (0, 0)) (\<lambda>_.
     rbind (canonicalReceiptJson inputSchema) (\<lambda>text.
       if id_max_schema_bytes < utf8_length text then Inl schema_limit
       else receiptDigest (JObj [(''format'', JStr ''apg-observed-mcp-input-schema-v1''), (''inputSchema'', inputSchema)])))"

subsection \<open>Results\<close>

record mcp_identity =
  mi_assurance :: assurance
  mi_material :: jsval
  mi_evidence :: "jsval option"
  mi_view :: jsval
  mi_trusted :: bool

record call_params =
  cp_name :: string
  cp_arguments :: jsval
  cp_meta :: jsval
  cp_task :: jsval

definition trustedResult :: "assurance \<Rightarrow> jsval \<Rightarrow> jsval option \<Rightarrow> jsval \<Rightarrow> mcp_identity" where
  "trustedResult a m e v = \<lparr>mi_assurance = a, mi_material = m, mi_evidence = e, mi_view = v, mi_trusted = True\<rparr>"

definition structuralResult :: "string \<Rightarrow> string \<Rightarrow> mcp_identity" where
  "structuralResult serverId toolName = trustedResult Structural_only
     (JObj [(''serverId'', JStr serverId), (''toolName'', JStr toolName)]) None
     (JObj [(''assurance'', JStr ''structural_only''), (''parameterCoverage'', JStr ''none''),
            (''safeClaims'', JArr []), (''limitation'', JStr ''parameters_unbound'')])"

definition rejectedResult :: "identity_profile \<Rightarrow> string \<Rightarrow> string \<Rightarrow> string \<Rightarrow> string option \<Rightarrow> mcp_identity" where
  "rejectedResult p serverId toolName why schemaDigest = trustedResult Structural_only
     (JObj [(''serverId'', JStr serverId), (''toolName'', JStr toolName), (''profileId'', JStr (pr_id p)),
            (''profileVersion'', JInt (pr_version p)), (''profileStatus'', JStr ''rejected''),
            (''failureCode'', JStr why)])
     (Some (JObj
       ([(''profileStatus'', JStr ''rejected''), (''profileId'', JStr (pr_id p)),
         (''profileVersion'', JInt (pr_version p)), (''profileManifestDigest'', JStr (pr_manifestDigest p)),
         (''serverProvenanceAssurance'', JStr ''configured_label_only''),
         (''parameterCoverage'', JStr ''none''), (''safeClaims'', JArr []),
         (''omittedCategories'', JArr [JStr ''unbound_parameters'']), (''failureCode'', JStr why)]
        @ opt_str ''observedSchemaDigest'' schemaDigest)))
     (JObj [(''assurance'', JStr ''structural_only''), (''parameterCoverage'', JStr ''none''),
            (''profileId'', JStr (pr_id p)), (''profileVersion'', JInt (pr_version p)),
            (''profileStatus'', JStr ''rejected''), (''safeClaims'', JArr []),
            (''limitation'', JStr ''parameters_unbound''), (''failureCode'', JStr why)])"

definition evidenceFor :: "identity_profile \<Rightarrow> safe_claim list \<Rightarrow> string option \<Rightarrow> jsval" where
  "evidenceFor p claims schemaDigest = JObj
     ([(''profileStatus'', JStr ''projected''), (''profileId'', JStr (pr_id p)),
       (''profileVersion'', JInt (pr_version p)), (''profileManifestDigest'', JStr (pr_manifestDigest p)),
       (''serverProvenanceAssurance'', JStr ''configured_label_only''),
       (''parameterCoverage'', JStr (coverage_name (pr_coverage p))),
       (''safeClaims'', JArr (map claim_json claims)),
       (''omittedCategories'', JArr (map JStr (pr_omitted p)))]
      @ opt_str ''observedSchemaDigest'' schemaDigest)"

text \<open>The claims of the fields present; \<open>Inl\<close> is the code of the rejection.\<close>

fun project_fields :: "(string \<times> identity_field) list \<Rightarrow> jsval \<Rightarrow> string + safe_claim list" where
  "project_fields [] args = Inr []"
| "project_fields ((k, f) # fs) args =
     (if k \<notin> set (keys_of args) then
        (if if_optional f then project_fields fs args else Inl ''required_argument_missing'')
      else (case parse_field (if_kind f) (at args k) of
              Inl e \<Rightarrow> Inl ''projection_failed''
            | Inr v \<Rightarrow> (case project_fields fs args of Inl c \<Rightarrow> Inl c | Inr cs \<Rightarrow> Inr ((k, v) # cs))))"

definition arguments_of :: "call_params \<Rightarrow> jsval" where
  "arguments_of ps = (if cp_arguments ps = JUndef \<or> cp_arguments ps = JNull then JObj [] else cp_arguments ps)"

definition project_arguments :: "identity_profile \<Rightarrow> call_params \<Rightarrow> string + safe_claim list" where
  "project_arguments p ps =
     (if pr_coverage p = Complete_action_parameters \<and> (cp_meta ps \<noteq> JUndef \<or> cp_task ps \<noteq> JUndef)
        then Inl ''request_metadata_unsupported''
      else if \<not> is_obj (arguments_of ps) then Inl ''arguments_invalid''
      else if pr_coverage p = Complete_action_parameters
           \<and> list_ex (\<lambda>k. k \<notin> fst ` set (pr_fields p)) (keys_of (arguments_of ps))
        then Inl ''unexpected_argument''
      else project_fields (pr_fields p) (arguments_of ps))"

definition coverage_assurance :: "coverage \<Rightarrow> assurance" where
  "coverage_assurance c = (if c = Complete_action_parameters then Adapter_action_exact else Adapter_scoped)"

definition identity_material :: "identity_profile \<Rightarrow> string \<Rightarrow> string \<Rightarrow> safe_claim list \<Rightarrow> jsval" where
  "identity_material p serverId toolName claims = JObj
     [(''serverId'', JStr serverId), (''toolName'', JStr toolName), (''profileId'', JStr (pr_id p)),
      (''profileVersion'', JInt (pr_version p)), (''profileManifestDigest'', JStr (pr_manifestDigest p)),
      (''safeClaims'', JArr (map claim_json claims))]"

definition projectedResult :: "identity_profile \<Rightarrow> string \<Rightarrow> string \<Rightarrow> safe_claim list \<Rightarrow> string option \<Rightarrow> mcp_identity" where
  "projectedResult p serverId toolName claims schemaDigest =
     trustedResult (coverage_assurance (pr_coverage p))
       (identity_material p serverId toolName claims)
       (Some (evidenceFor p claims schemaDigest))
       (JObj [(''assurance'', JStr (assurance_name (coverage_assurance (pr_coverage p)))),
              (''parameterCoverage'', JStr (coverage_name (pr_coverage p))),
              (''profileId'', JStr (pr_id p)), (''profileVersion'', JInt (pr_version p)),
              (''profileStatus'', JStr ''projected''), (''safeClaims'', JArr (map claim_json claims)),
              (''limitation'', JStr (if pr_coverage p = Complete_action_parameters
                 then ''all_behavior_parameters_bound'' else ''parameters_partially_bound''))])"

definition projectProfile :: "identity_profile \<Rightarrow> string \<Rightarrow> call_params \<Rightarrow> jsval option \<Rightarrow> mcp_identity" where
  "projectProfile p serverId ps inputSchema =
     (let reject = rejectedResult p serverId (cp_name ps);
          go = (\<lambda>schemaDigest. case project_arguments p ps of
                  Inl why \<Rightarrow> reject why schemaDigest
                | Inr claims \<Rightarrow> projectedResult p serverId (cp_name ps) claims schemaDigest)
      in case pr_schemaDigest p of
           None \<Rightarrow> go None
         | Some expected \<Rightarrow>
             (case inputSchema of
                None \<Rightarrow> reject ''input_schema_unavailable'' None
              | Some sch \<Rightarrow>
                  (case observedInputSchemaDigest sch of
                     Inl e \<Rightarrow> reject ''projection_failed'' None
                   | Inr d \<Rightarrow> if d \<noteq> expected then reject ''input_schema_mismatch'' (Some d) else go (Some d))))"

subsection \<open>The authority\<close>

definition profileKey :: "string \<Rightarrow> string \<Rightarrow> string" where
  "profileKey serverId toolName =
     show_nat (length serverId) @ '':'' @ serverId @ show_nat (length toolName) @ '':'' @ toolName"

record identity_authority =
  au_profiles :: "(string, identity_profile) omap"
  au_exact :: "string list"

fun register :: "identity_profile list \<Rightarrow> (string, identity_profile) omap \<Rightarrow> (string, identity_profile) omap
    \<Rightarrow> audit_error + (string, identity_profile) omap \<times> (string, identity_profile) omap" where
  "register [] reg byId = Inr (reg, byId)"
| "register (p # ps) reg byId =
     (let key = profileKey (pr_serverId p) (pr_toolName p) in
        if map_of reg key \<noteq> None then Inl (Audit_error ''Duplicate MCP identity profile assignment'')
        else if map_of byId (pr_id p) \<noteq> None then Inl (Audit_error ''Duplicate MCP identity profile ID'')
        else register ps (om_set key p reg) (om_set (pr_id p) p byId))"

fun require_exact :: "string list \<Rightarrow> (string, identity_profile) omap \<Rightarrow> audit_error + string list" where
  "require_exact [] byId = Inr []"
| "require_exact (i # is) byId =
     (case map_of byId i of
        None \<Rightarrow> Inl (Audit_error ''Exact-required MCP identity profile is unavailable or incomplete'')
      | Some p \<Rightarrow>
          if pr_coverage p \<noteq> Complete_action_parameters
            then Inl (Audit_error ''Exact-required MCP identity profile is unavailable or incomplete'')
          else rbind (require_exact is byId) (\<lambda>ks. Inr (profileKey (pr_serverId p) (pr_toolName p) # ks)))"

definition newAuthority :: "identity_profile list \<Rightarrow> string list \<Rightarrow> audit_error + identity_authority" where
  "newAuthority ps requiredIds =
     (if id_max_profiles < length ps then Inl (Audit_error ''Too many MCP identity profiles'')
      else rbind (register ps [] []) (\<lambda>(reg, byId).
        if id_max_profiles < length requiredIds \<or> \<not> distinct requiredIds
          then Inl (Audit_error ''Exact-required MCP identity profile IDs are invalid'')
        else rbind (require_exact requiredIds byId) (\<lambda>keys.
          Inr \<lparr>au_profiles = reg, au_exact = keys\<rparr>)))"

definition isExactRequired :: "identity_authority \<Rightarrow> string \<Rightarrow> string \<Rightarrow> bool" where
  "isExactRequired au serverId toolName \<longleftrightarrow> profileKey serverId toolName \<in> set (au_exact au)"

definition identity_result :: "identity_authority \<Rightarrow> string \<Rightarrow> call_params \<Rightarrow> jsval option \<Rightarrow> mcp_identity" where
  "identity_result au serverId ps inputSchema =
     (case map_of (au_profiles au) (profileKey serverId (cp_name ps)) of
        None \<Rightarrow> structuralResult serverId (cp_name ps)
      | Some p \<Rightarrow> projectProfile p serverId ps inputSchema)"

text \<open>
  \<open>prepare\<close>: the parameters that are dispatched are a frozen copy of the request, so nothing
  the caller does later changes what was identified.
\<close>

definition prepare :: "identity_authority \<Rightarrow> string \<Rightarrow> call_params \<Rightarrow> jsval option \<Rightarrow> bool
    \<Rightarrow> audit_error + mcp_identity \<times> call_params" where
  "prepare au serverId ps inputSchema exact =
     (let r = identity_result au serverId ps inputSchema in
        if exact \<and> mi_assurance r \<noteq> Adapter_action_exact
          then Inl (Audit_error ''Exact MCP action identity is required but unavailable'')
        else Inr (r, ps))"

record mcp_tool =
  tl_name :: string
  tl_annotations :: "tool_annotations option"
  tl_inputSchema :: "jsval option"

definition preflight_profile :: "identity_authority \<Rightarrow> string \<Rightarrow> mcp_tool list \<Rightarrow> string \<times> identity_profile
    \<Rightarrow> audit_error + unit" where
  "preflight_profile au serverId tools kp =
     (let (key, p) = kp in
      if pr_serverId p \<noteq> serverId \<or> key \<notin> set (au_exact au) then Inr ()
      else case filter (\<lambda>t. tl_name t = pr_toolName p) tools of
             [] \<Rightarrow> Inl (Audit_error ''required_tool_missing'')
           | [t] \<Rightarrow>
               (let r = identity_result au serverId
                          \<lparr>cp_name = pr_toolName p, cp_arguments = JObj [], cp_meta = JUndef, cp_task = JUndef\<rparr>
                          (tl_inputSchema t)
                in if mi_assurance r \<noteq> Adapter_action_exact
                   then Inl (Audit_error (case at (mi_view r) ''failureCode'' of JStr c \<Rightarrow> c | _ \<Rightarrow> ''exact_identity_unavailable''))
                   else Inr ())
           | _ \<Rightarrow> Inl (Audit_error ''required_tool_duplicated''))"

definition preflight :: "identity_authority \<Rightarrow> string \<Rightarrow> mcp_tool list \<Rightarrow> audit_error + unit" where
  "preflight au serverId tools =
     rbind (mapM (preflight_profile au serverId tools) (au_profiles au)) (\<lambda>_. Inr ())"

subsection \<open>The built-in profile\<close>

definition filesystem_profile_id :: string where
  "filesystem_profile_id = ''filesystem.list-allowed-directories.v1''"

definition list_allowed_directories_schema :: jsval where
  "list_allowed_directories_schema = JObj
     [(''type'', JStr ''object''), (''properties'', JObj []),
      (''$schema'', JStr ''http://json-schema.org/draft-07/schema#'')]"

definition filesystem_profile_input :: "string \<Rightarrow> profile_input" where
  "filesystem_profile_input schemaDigest =
     \<lparr>pin_id = filesystem_profile_id, pin_version = 1, pin_serverId = ''local-upstream'',
      pin_toolName = ''list_allowed_directories'', pin_coverage = Complete_action_parameters,
      pin_omitted = [], pin_schemaDigest = Some schemaDigest, pin_fields = []\<rparr>"

definition filesystem_profile :: "audit_error + identity_profile" where
  "filesystem_profile =
     rbind (observedInputSchemaDigest list_allowed_directories_schema)
       (\<lambda>d. defineMcpIdentityProfile (filesystem_profile_input d))"

definition selectBuiltInMcpIdentityProfile :: "string \<Rightarrow> audit_error + identity_authority" where
  "selectBuiltInMcpIdentityProfile profileId =
     (if profileId \<noteq> filesystem_profile_id then Inl (Audit_error ''Unknown or invalid MCP identity profile'')
      else rbind filesystem_profile (\<lambda>p. newAuthority [p] [filesystem_profile_id]))"

section \<open>What an identity guarantees\<close>

lemma scalar_json_inj [simp]: "scalar_json a = scalar_json b \<longleftrightarrow> a = b"
  by (cases a; cases b) auto

lemma map_scalar_json_inj [simp]: "map scalar_json xs = map scalar_json ys \<longleftrightarrow> xs = ys"
  by (rule inj_map_eq_map) (simp add: inj_def)

lemma scalar_not_list: "scalar_json x \<noteq> JObj [(''type'', JStr ''ordered_list''), v]"
  by (cases x) auto

lemma value_json_inj [simp]: "value_json a = value_json b \<longleftrightarrow> a = b"
proof (cases a; cases b)
  fix x xs assume "a = Id_scalar x" "b = Id_ordered_list xs"
  then show ?thesis using scalar_not_list by simp
next
  fix x xs assume "b = Id_scalar x" "a = Id_ordered_list xs"
  then show ?thesis using scalar_not_list [of x] by (metis safe_value.distinct(1) value_json.simps)
qed simp_all

lemma claims_json_inj [simp]: "map claim_json xs = map claim_json ys \<longleftrightarrow> xs = ys"
  by (rule inj_map_eq_map) (auto simp: inj_def claim_json_def prod_eq_iff)

lemma parse_item_ok: "parse_item m v = Inr x \<Longrightarrow> \<exists>s. v = JStr s \<and> x = Id_string s \<and> str_in 0 m s"
  by (cases v) (auto split: if_splits)

lemma parse_items_ok:
  "mapM (parse_item m) xs = Inr ys \<Longrightarrow>
     \<exists>ss. xs = map JStr ss \<and> ys = map Id_string ss \<and> list_all (str_in 0 m) ss"
proof (induction xs arbitrary: ys)
  case (Cons x xs)
  then obtain y zs where y: "parse_item m x = Inr y" "mapM (parse_item m) xs = Inr zs" "ys = y # zs"
    by (auto split: sum.splits)
  obtain s where "x = JStr s" "y = Id_string s" "str_in 0 m s" using parse_item_ok [OF y(1)] by blast
  moreover obtain ss where "xs = map JStr ss" "zs = map Id_string ss" "list_all (str_in 0 m) ss"
    using Cons.IH [OF y(2)] by blast
  ultimately show ?case using y(3) by (intro exI [of _ "s # ss"]) simp
qed simp

lemma parse_list_ok:
  assumes "parse_field (F_string_list n m) v = Inr x"
  shows "\<exists>ss. v = JArr (map JStr ss) \<and> x = Id_ordered_list (map Id_string ss) \<and> int (length ss) \<le> n \<and> list_all (str_in 0 m) ss"
proof (cases v)
  case (JArr xs)
  with assms obtain ys where "mapM (parse_item m) xs = Inr ys" "x = Id_ordered_list ys" "int (length xs) \<le> n"
    by (auto split: if_splits sum.splits)
  with parse_items_ok JArr show ?thesis by fastforce
qed (use assms in auto)

lemma parse_int_ok:
  "parse_field (F_integer lo hi) v = Inr x \<Longrightarrow>
     \<exists>i. v = JInt i \<and> x = Id_scalar (Id_integer i) \<and> safe_int i \<and> lo \<le> i \<and> i \<le> hi"
proof (cases v)
  case (JNum n)
  assume "parse_field (F_integer lo hi) v = Inr x"
  with JNum show ?thesis by (cases n) (auto split: if_splits)
qed auto

lemma parse_atom_ok:
  "parse_field (F_string lo hi) v = Inr x \<Longrightarrow> \<exists>s. v = JStr s \<and> x = Id_scalar (Id_string s) \<and> str_in lo hi s"
  "parse_field (F_enum vs) v = Inr x \<Longrightarrow> \<exists>s. v = JStr s \<and> x = Id_scalar (Id_enum s) \<and> s \<in> set vs"
  "parse_field F_boolean v = Inr x \<Longrightarrow> \<exists>b. v = JBool b \<and> x = Id_scalar (Id_boolean b)"
  "parse_field F_null v = Inr x \<Longrightarrow> v = JNull \<and> x = Id_scalar Id_null"
  by (cases v; auto split: if_splits)+

text \<open>Reading a field loses nothing: the claim determines the argument.\<close>

lemma parse_field_inj: "parse_field k v = Inr x \<Longrightarrow> parse_field k w = Inr x \<Longrightarrow> v = w"
proof (cases k)
  case (F_string_list n m)
  assume "parse_field k v = Inr x" "parse_field k w = Inr x"
  with F_string_list parse_list_ok [of n m v x] parse_list_ok [of n m w x]
  obtain ss ts where "v = JArr (map JStr ss)" "w = JArr (map JStr ts)"
    "x = Id_ordered_list (map Id_string ss)" "x = Id_ordered_list (map Id_string ts)" by blast
  moreover from this have "ss = ts" by (simp add: inj_map_eq_map inj_def)
  ultimately show ?thesis by simp
qed (auto dest!: parse_int_ok parse_atom_ok)

lemma project_fields_spec:
  assumes "project_fields fs args = Inr cs" "distinct (map fst fs)"
  shows "fst ` set cs = {k \<in> fst ` set fs. k \<in> set (keys_of args)}
    \<and> distinct (map fst cs)
    \<and> (\<forall>(k, f) \<in> set fs. k \<in> set (keys_of args) \<longrightarrow>
        (\<exists>v. (k, v) \<in> set cs \<and> parse_field (if_kind f) (at args k) = Inr v))"
  using assms
proof (induction fs arbitrary: cs)
  case (Cons p fs)
  obtain k f where p: "p = (k, f)" by fastforce
  show ?case
  proof (cases "k \<in> set (keys_of args)")
    case False
    with Cons.prems p have "project_fields fs args = Inr cs" by (simp split: if_splits)
    with Cons.IH Cons.prems p have
      "fst ` set cs = {k \<in> fst ` set fs. k \<in> set (keys_of args)}" "distinct (map fst cs)"
      "\<forall>(k, f) \<in> set fs. k \<in> set (keys_of args) \<longrightarrow>
        (\<exists>v. (k, v) \<in> set cs \<and> parse_field (if_kind f) (at args k) = Inr v)" by auto
    with False p show ?thesis by auto
  next
    case True
    with Cons.prems p obtain v ds where v: "parse_field (if_kind f) (at args k) = Inr v"
      "project_fields fs args = Inr ds" "cs = (k, v) # ds" by (auto split: sum.splits)
    with Cons.IH Cons.prems p have ds:
      "fst ` set ds = {k \<in> fst ` set fs. k \<in> set (keys_of args)}" "distinct (map fst ds)"
      "\<forall>(k, f) \<in> set fs. k \<in> set (keys_of args) \<longrightarrow>
        (\<exists>v. (k, v) \<in> set ds \<and> parse_field (if_kind f) (at args k) = Inr v)" by auto
    have "k \<notin> fst ` set fs" using Cons.prems p by simp
    with ds True v p show ?thesis by auto
  qed
qed simp

lemma projectProfile_cases:
  obtains (rejected) why d where "projectProfile p s ps sch = rejectedResult p s (cp_name ps) why d"
  | (projected) cs d where "project_arguments p ps = Inr cs"
      "projectProfile p s ps sch = projectedResult p s (cp_name ps) cs d"
      "pr_schemaDigest p = None \<and> d = None \<or>
       (\<exists>x. sch = Some x \<and> observedInputSchemaDigest x = Inr (the d) \<and> pr_schemaDigest p = d \<and> d \<noteq> None)"
  unfolding projectProfile_def Let_def
  by (cases "pr_schemaDigest p"; cases sch; cases "project_arguments p ps";
      cases "observedInputSchemaDigest (the sch)";
      cases "observedInputSchemaDigest (the sch) = Inr (the (pr_schemaDigest p))") auto

lemma rejected_assurance [simp]: "mi_assurance (rejectedResult p s t why d) = Structural_only"
  by (simp add: rejectedResult_def trustedResult_def)

lemma projected_assurance [simp]: "mi_assurance (projectedResult p s t cs d) = coverage_assurance (pr_coverage p)"
  by (simp add: projectedResult_def trustedResult_def)

lemma projected_material [simp]: "mi_material (projectedResult p s t cs d) = identity_material p s t cs"
  by (simp add: projectedResult_def trustedResult_def)

lemma exact_projection:
  assumes "mi_assurance (projectProfile p s ps sch) = Adapter_action_exact"
  obtains cs d where "pr_coverage p = Complete_action_parameters" "project_arguments p ps = Inr cs"
    "projectProfile p s ps sch = projectedResult p s (cp_name ps) cs d"
    "pr_schemaDigest p = None \<or> (\<exists>x. sch = Some x \<and> observedInputSchemaDigest x = Inr (the (pr_schemaDigest p)))"
proof (rule projectProfile_cases [where p = p and s = s and ps = ps and sch = sch])
  fix why d assume "projectProfile p s ps sch = rejectedResult p s (cp_name ps) why d"
  with assms show ?thesis by simp
next
  fix cs d assume a: "project_arguments p ps = Inr cs"
      "projectProfile p s ps sch = projectedResult p s (cp_name ps) cs d"
      "pr_schemaDigest p = None \<and> d = None \<or>
       (\<exists>x. sch = Some x \<and> observedInputSchemaDigest x = Inr (the d) \<and> pr_schemaDigest p = d \<and> d \<noteq> None)"
  with assms have "pr_coverage p = Complete_action_parameters"
    by (simp add: coverage_assurance_def split: if_splits)
  with a that show ?thesis by auto
qed

lemma exact_arguments:
  assumes "pr_coverage p = Complete_action_parameters" "project_arguments p ps = Inr cs"
  shows "project_fields (pr_fields p) (arguments_of ps) = Inr cs"
    "set (keys_of (arguments_of ps)) \<subseteq> fst ` set (pr_fields p)"
    "cp_meta ps = JUndef" "cp_task ps = JUndef"
  using assms by (auto simp: project_arguments_def list_ex_iff split: if_splits)

lemma at_not_key: "k \<notin> set (keys_of v) \<Longrightarrow> at v k = JUndef"
proof (cases v)
  case (JObj kvs)
  assume "k \<notin> set (keys_of v)"
  with JObj have "map_of kvs k = None" by (simp add: keys_of_def map_of_eq_None_iff)
  with JObj show ?thesis by (simp add: own_prop_def)
qed (auto simp: at_def)

lemma exact_claims_bind:
  assumes "distinct (map fst (pr_fields p))" "pr_coverage p = Complete_action_parameters"
    "project_arguments p ps = Inr cs" "project_arguments p ps' = Inr cs"
  shows "set (keys_of (arguments_of ps)) = set (keys_of (arguments_of ps'))
     \<and> (\<forall>k. at (arguments_of ps) k = at (arguments_of ps') k)"
proof -
  let ?a = "arguments_of ps" and ?b = "arguments_of ps'"
  note a = exact_arguments [OF assms(2,3)] and b = exact_arguments [OF assms(2,4)]
  note sa = project_fields_spec [OF a(1) assms(1)] and sb = project_fields_spec [OF b(1) assms(1)]
  have keys: "set (keys_of ?a) = set (keys_of ?b)" using sa sb a(2) b(2) by auto
  have "at ?a k = at ?b k" for k
  proof (cases "k \<in> set (keys_of ?a)")
    case True
    then obtain f where f: "(k, f) \<in> set (pr_fields p)" using a(2) by force
    obtain v where v: "(k, v) \<in> set cs" "parse_field (if_kind f) (at ?a k) = Inr v" using sa f True by auto
    obtain w where w: "(k, w) \<in> set cs" "parse_field (if_kind f) (at ?b k) = Inr w" using sb f True keys by auto
    have "v = w" using v(1) w(1) conjunct1 [OF conjunct2 [OF sa]] by (metis eq_key_imp_eq_value)
    with v w show ?thesis using parse_field_inj by blast
  next
    case False
    with keys show ?thesis by (simp add: at_not_key)
  qed
  with keys show ?thesis by blast
qed

lemma define_profile_fields:
  assumes "defineMcpIdentityProfile i = Inr p"
  shows "pr_fields p = isort key_lt (pin_fields i)" "pr_coverage p = pin_coverage i"
    "pr_omitted p = sort_text (pin_omitted i)" "is_identifier (pr_id p)" "is_identifier (pr_serverId p)"
    "is_identifier (pr_toolName p)" "1 \<le> pr_version p" "pr_version p \<le> 1000000" "is_digest (pr_manifestDigest p)"
    "length (pr_fields p) \<le> id_max_fields" "check_fields (pr_fields p) = Inr ()"
    "list_all is_identifier (pr_omitted p)" "(pr_coverage p = Complete_action_parameters) = (pr_omitted p = [])"
    "pred_option is_digest (pr_schemaDigest p)"
  using assms unfolding defineMcpIdentityProfile_def Let_def
  by (auto split: if_splits simp: receiptDigest_def list_ex_iff list_all_iff split: sum.splits)
     (cases "pin_coverage i"; auto)+

text \<open>
  C14: an exact identity binds every argument.  Two calls under the same profile whose exact
  identities have the same material name the same tool and have the same arguments: the same
  properties with the same values.
\<close>

theorem exact_identity_binds_arguments:
  assumes "defineMcpIdentityProfile i = Inr p" "distinct (map fst (pin_fields i))"
    "mi_assurance (projectProfile p s ps sch) = Adapter_action_exact"
    "mi_assurance (projectProfile p s ps' sch') = Adapter_action_exact"
    "mi_material (projectProfile p s ps sch) = mi_material (projectProfile p s ps' sch')"
  shows "cp_name ps = cp_name ps'
     \<and> set (keys_of (arguments_of ps)) = set (keys_of (arguments_of ps'))
     \<and> (\<forall>k. at (arguments_of ps) k = at (arguments_of ps') k)"
proof -
  obtain cs d where a: "pr_coverage p = Complete_action_parameters" "project_arguments p ps = Inr cs"
    "projectProfile p s ps sch = projectedResult p s (cp_name ps) cs d"
    using exact_projection [OF assms(3)] by metis
  obtain cs' d' where b: "project_arguments p ps' = Inr cs'"
    "projectProfile p s ps' sch' = projectedResult p s (cp_name ps') cs' d'"
    using exact_projection [OF assms(4)] by metis
  have "identity_material p s (cp_name ps) cs = identity_material p s (cp_name ps') cs'"
    using assms(5) a b by simp
  then have n: "cp_name ps = cp_name ps'" "cs = cs'" by (simp_all add: identity_material_def)
  have "distinct (map fst (pr_fields p))"
    using define_profile_fields(1) [OF assms(1)] assms(2) by simp
  with exact_claims_bind [OF _ a(1,2)] b n show ?thesis by blast
qed

definition demo_profile_input :: profile_input where
  "demo_profile_input = \<lparr>pin_id = ''fs.read.v1'', pin_version = 1, pin_serverId = ''fs'', pin_toolName = ''read_file'',
     pin_coverage = Complete_action_parameters, pin_omitted = [], pin_schemaDigest = None,
     pin_fields = [(''path'', field (F_string 1 100) False)]\<rparr>"

definition demo_fields :: "(string \<times> identity_field) list" where
  "demo_fields = [(''path'', field (F_string 1 100) False)]"

definition demo_manifest :: string where
  "demo_manifest = canonicalJson (profile_manifest demo_profile_input demo_fields [])"

definition demo_profile :: identity_profile where
  "demo_profile = \<lparr>pr_id = ''fs.read.v1'', pr_version = 1, pr_serverId = ''fs'', pr_toolName = ''read_file'',
     pr_coverage = Complete_action_parameters, pr_omitted = [], pr_schemaDigest = None,
     pr_fields = demo_fields, pr_manifestDigest = sha256_digest demo_manifest\<rparr>"

definition demo_params :: call_params where
  "demo_params = \<lparr>cp_name = ''read_file'', cp_arguments = JObj [(''path'', JStr ''/tmp/a'')],
     cp_meta = JUndef, cp_task = JUndef\<rparr>"

lemma demo_profile_defined: "defineMcpIdentityProfile demo_profile_input = Inr demo_profile"
proof -
  have c: "list_all is_identifier [''fs.read.v1'', ''fs'', ''read_file'']" "check_fields demo_fields = Inr ()"
    by code_simp+
  have "validateJsonValue (profile_manifest demo_profile_input demo_fields []) 0 = Inr ()"
    by (simp add: profile_manifest_def demo_profile_input_def demo_fields_def field_def validateJsonValue.simps
        max_depth_def max_string_def max_collection_def)
  then have d: "receiptDigest (profile_manifest demo_profile_input demo_fields []) = Inr (sha256_digest demo_manifest)"
    by (simp add: receiptDigest_def canonicalReceiptJson_def demo_manifest_def)
  have f: "pin_id demo_profile_input = ''fs.read.v1''" "pin_version demo_profile_input = 1"
    "pin_serverId demo_profile_input = ''fs''" "pin_toolName demo_profile_input = ''read_file''"
    "pin_coverage demo_profile_input = Complete_action_parameters" "pin_omitted demo_profile_input = []"
    "pin_schemaDigest demo_profile_input = None" "isort key_lt (pin_fields demo_profile_input) = demo_fields"
    by (simp_all add: demo_profile_input_def demo_fields_def)
  have n: "demo_fields \<noteq> []" "length demo_fields = 1" by (simp_all add: demo_fields_def)
  show ?thesis
    unfolding defineMcpIdentityProfile_def Let_def f
    using c d n by (simp add: demo_profile_def safe_int_def max_safe_def id_max_fields_def sort_text_def)
qed

lemma demo_projected:
  "projectProfile demo_profile s demo_params sch =
     projectedResult demo_profile s ''read_file'' [(''path'', Id_scalar (Id_string ''/tmp/a''))] None"
proof -
  have "project_arguments demo_profile demo_params = Inr [(''path'', Id_scalar (Id_string ''/tmp/a''))]"
    by (simp add: project_arguments_def demo_profile_def demo_fields_def demo_params_def arguments_of_def
        is_obj_def keys_of_def field_def str_in_def)
  moreover have "pr_schemaDigest demo_profile = None" by (simp add: demo_profile_def)
  moreover have "cp_name demo_params = ''read_file''" by (simp add: demo_params_def)
  ultimately show ?thesis by (simp add: projectProfile_def)
qed

lemma demo_exact: "mi_assurance (projectProfile demo_profile s demo_params sch) = Adapter_action_exact"
proof -
  have "pr_coverage demo_profile = Complete_action_parameters" by (simp add: demo_profile_def)
  then show ?thesis by (simp add: demo_projected coverage_assurance_def)
qed

theorem exact_identity_binds_arguments_witness:
  "cp_name demo_params = cp_name (demo_params\<lparr>cp_name := ''read_file''\<rparr>)
   \<and> mi_assurance (projectProfile demo_profile ''fs'' demo_params None) = Adapter_action_exact"
proof -
  note e = demo_exact [of "''fs''" None]
  have "distinct (map fst (pin_fields demo_profile_input))" by (simp add: demo_profile_input_def)
  moreover have q: "demo_params\<lparr>cp_name := ''read_file''\<rparr> = demo_params" by (simp add: demo_params_def)
  ultimately show ?thesis
    unfolding q using exact_identity_binds_arguments [OF demo_profile_defined _ e e refl] e by blast
qed

subsection \<open>The authority keeps profiles apart\<close>

lemma digits_colon_split:
  "list_all is_digit a \<Longrightarrow> list_all is_digit b \<Longrightarrow> a @ CHR '':'' # x = b @ CHR '':'' # y \<Longrightarrow> a = b \<and> x = y"
proof (induction a arbitrary: b)
  case Nil
  then show ?case by (cases b) (auto simp: is_digit_def)
next
  case (Cons c a)
  then show ?case by (cases b) (auto simp: is_digit_def)
qed

lemma profileKey_inj: "profileKey s t = profileKey s' t' \<longleftrightarrow> s = s' \<and> t = t'"
proof
  assume "profileKey s t = profileKey s' t'"
  then have "show_nat (length s) = show_nat (length s')"
    and r: "s @ show_nat (length t) @ CHR '':'' # t = s' @ show_nat (length t') @ CHR '':'' # t'"
    using digits_colon_split [OF show_nat_digits show_nat_digits]
    by (fastforce simp: profileKey_def)+
  then have "length s = length s'" by (metis nat_of_show_nat)
  with r have "s = s'" "show_nat (length t) @ CHR '':'' # t = show_nat (length t') @ CHR '':'' # t'" by simp_all
  then show "s = s' \<and> t = t'" using digits_colon_split [OF show_nat_digits show_nat_digits] by blast
qed simp

definition registry_ok :: "identity_profile list \<Rightarrow> (string, identity_profile) omap \<Rightarrow> (string, identity_profile) omap \<Rightarrow> bool" where
  "registry_ok ps reg byId \<longleftrightarrow>
     (\<forall>k p. map_of reg k = Some p \<longrightarrow> p \<in> set ps \<and> k = profileKey (pr_serverId p) (pr_toolName p))
     \<and> (\<forall>i p. map_of byId i = Some p \<longrightarrow> pr_id p = i \<and> map_of reg (profileKey (pr_serverId p) (pr_toolName p)) = Some p)"

lemma register_ok:
  "register qs reg byId = Inr (reg', byId') \<Longrightarrow> set qs \<subseteq> set ps \<Longrightarrow> registry_ok ps reg byId \<Longrightarrow> registry_ok ps reg' byId'"
proof (induction qs arbitrary: reg byId)
  case (Cons q qs)
  let ?k = "profileKey (pr_serverId q) (pr_toolName q)"
  from Cons.prems have n: "map_of reg ?k = None" "map_of byId (pr_id q) = None"
    and r: "register qs (om_set ?k q reg) (om_set (pr_id q) q byId) = Inr (reg', byId')"
    by (auto simp: Let_def split: if_splits)
  have "registry_ok ps (om_set ?k q reg) (om_set (pr_id q) q byId)"
    unfolding registry_ok_def
  proof (intro conjI allI impI)
    fix k p assume "map_of (om_set ?k q reg) k = Some p"
    then show "p \<in> set ps" "k = profileKey (pr_serverId p) (pr_toolName p)"
      using Cons.prems(2,3) by (auto simp: registry_ok_def split: if_splits)
  next
    fix i p assume p: "map_of (om_set (pr_id q) q byId) i = Some p"
    show "pr_id p = i" using p Cons.prems(3) by (auto simp: registry_ok_def split: if_splits)
    show "map_of (om_set ?k q reg) (profileKey (pr_serverId p) (pr_toolName p)) = Some p"
    proof (cases "i = pr_id q")
      case False
      with p Cons.prems(3) have m: "map_of reg (profileKey (pr_serverId p) (pr_toolName p)) = Some p"
        by (simp add: registry_ok_def)
      with n(1) have "profileKey (pr_serverId p) (pr_toolName p) \<noteq> ?k" by auto
      with m show ?thesis by simp
    qed (use p in simp)
  qed
  then show ?case using Cons.IH [OF r] Cons.prems(2) by simp
qed simp

lemma require_exact_ok:
  "require_exact is byId = Inr ks \<Longrightarrow> k \<in> set ks \<Longrightarrow>
     \<exists>i p. i \<in> set is \<and> map_of byId i = Some p \<and> pr_coverage p = Complete_action_parameters
       \<and> k = profileKey (pr_serverId p) (pr_toolName p)"
proof (induction "is" arbitrary: ks)
  case (Cons i "is")
  then obtain p js where p: "map_of byId i = Some p" "pr_coverage p = Complete_action_parameters"
    "require_exact is byId = Inr js" "ks = profileKey (pr_serverId p) (pr_toolName p) # js"
    by (auto split: option.splits if_splits)
  from Cons.prems(2) p(4) consider "k = profileKey (pr_serverId p) (pr_toolName p)" | "k \<in> set js" by auto
  then show ?case
  proof cases
    case 1
    with p show ?thesis by auto
  next
    case 2
    with Cons.IH [OF p(3)] show ?thesis by (meson list.set_intros(2))
  qed
qed simp

lemma authority_exact_profile:
  assumes "newAuthority ps ids = Inr au" "isExactRequired au s t"
  obtains p where "p \<in> set ps" "pr_id p \<in> set ids" "pr_serverId p = s" "pr_toolName p = t"
    "pr_coverage p = Complete_action_parameters"
    "\<And>call sch. cp_name call = t \<Longrightarrow> identity_result au s call sch = projectProfile p s call sch"
proof -
  obtain reg byId keys where r: "register ps [] [] = Inr (reg, byId)" "require_exact ids byId = Inr keys"
    "au = \<lparr>au_profiles = reg, au_exact = keys\<rparr>"
    using assms(1) by (auto simp: newAuthority_def split: if_splits)
  have ok: "registry_ok ps reg byId" by (rule register_ok [OF r(1)]) (simp_all add: registry_ok_def)
  have "profileKey s t \<in> set keys" using assms(2) r(3) by (simp add: isExactRequired_def)
  then obtain i p where p: "i \<in> set ids" "map_of byId i = Some p" "pr_coverage p = Complete_action_parameters"
    "profileKey s t = profileKey (pr_serverId p) (pr_toolName p)" using require_exact_ok [OF r(2)] by blast
  have q: "pr_id p = i" "map_of reg (profileKey s t) = Some p" "p \<in> set ps"
    using ok p unfolding registry_ok_def by auto
  show thesis
  proof (rule that [of p])
    show "identity_result au s call sch = projectProfile p s call sch" if "cp_name call = t" for call sch
      using q that r(3) by (simp add: identity_result_def)
  qed (use p q in \<open>simp_all add: profileKey_inj\<close>)
qed

text \<open>
  For a tool the operator requires exact identity for, the authority never hands out a
  partial identity: a call either gets the exact identity of the one profile registered for
  that server and tool, or is rejected as structural with a failure code.
\<close>

theorem exact_required_all_or_nothing:
  assumes "newAuthority ps ids = Inr au" "isExactRequired au s (cp_name call)"
  shows "\<exists>p \<in> set ps. pr_serverId p = s \<and> pr_toolName p = cp_name call \<and> pr_id p \<in> set ids
     \<and> (let r = identity_result au s call sch in
          (mi_assurance r = Adapter_action_exact \<and> (\<exists>cs. project_arguments p call = Inr cs
             \<and> mi_material r = identity_material p s (cp_name call) cs))
          \<or> (mi_assurance r = Structural_only \<and> (\<exists>c. at (mi_view r) ''failureCode'' = JStr c)))"
proof -
  obtain p where p: "p \<in> set ps" "pr_id p \<in> set ids" "pr_serverId p = s" "pr_toolName p = cp_name call"
    "pr_coverage p = Complete_action_parameters" "identity_result au s call sch = projectProfile p s call sch"
    using authority_exact_profile [OF assms] by metis
  have "(let r = projectProfile p s call sch in
          (mi_assurance r = Adapter_action_exact \<and> (\<exists>cs. project_arguments p call = Inr cs
             \<and> mi_material r = identity_material p s (cp_name call) cs))
          \<or> (mi_assurance r = Structural_only \<and> (\<exists>c. at (mi_view r) ''failureCode'' = JStr c)))"
  proof (rule projectProfile_cases [where p = p and s = s and ps = call and sch = sch])
    fix why d assume "projectProfile p s call sch = rejectedResult p s (cp_name call) why d"
    then show ?thesis by (simp add: rejectedResult_def trustedResult_def)
  next
    fix cs d assume "project_arguments p call = Inr cs" "projectProfile p s call sch = projectedResult p s (cp_name call) cs d"
    with p(5) show ?thesis by (auto simp: coverage_assurance_def)
  qed
  with p show ?thesis by (intro bexI [of _ p]) simp_all
qed

theorem exact_required_all_or_nothing_witness:
  "\<exists>au. newAuthority [demo_profile] [''fs.read.v1''] = Inr au \<and> isExactRequired au ''fs'' (cp_name demo_params)
     \<and> mi_assurance (identity_result au ''fs'' demo_params None) \<in> {Adapter_action_exact, Structural_only}"
proof -
  have f: "pr_serverId demo_profile = ''fs''" "pr_toolName demo_profile = ''read_file''" "pr_id demo_profile = ''fs.read.v1''"
    "pr_coverage demo_profile = Complete_action_parameters" by (simp_all add: demo_profile_def)
  let ?au = "\<lparr>au_profiles = [(profileKey ''fs'' ''read_file'', demo_profile)], au_exact = [profileKey ''fs'' ''read_file'']\<rparr>"
  have n: "newAuthority [demo_profile] [''fs.read.v1''] = Inr ?au"
    by (simp add: newAuthority_def id_max_profiles_def f Let_def)
  have e: "isExactRequired ?au ''fs'' (cp_name demo_params)"
    by (simp add: isExactRequired_def demo_params_def)
  from exact_required_all_or_nothing [OF n e, of None] n e show ?thesis
    by (auto simp: Let_def)
qed

subsection \<open>Identity evidence is accepted by the receipts\<close>

fun kind_wf :: "field_kind \<Rightarrow> bool" where
  "kind_wf (F_string lo hi) = (hi \<le> id_max_string)"
| "kind_wf (F_enum vs) = list_all is_identifier vs"
| "kind_wf (F_integer lo hi) = True"
| "kind_wf F_boolean = True"
| "kind_wf F_null = True"
| "kind_wf (F_string_list n m) = (n \<le> id_max_list \<and> m \<le> id_max_string)"

text \<open>Every constructor of fields gives a well-formed one.\<close>

lemma constructors_wf:
  "publicString a b = Inr f \<Longrightarrow> kind_wf (if_kind f)"
  "publicEnum vs = Inr f \<Longrightarrow> kind_wf (if_kind f)"
  "publicInteger a b = Inr f \<Longrightarrow> kind_wf (if_kind f)"
  "publicStringList a b = Inr f \<Longrightarrow> kind_wf (if_kind f)"
  "kind_wf (if_kind publicBoolean)" "kind_wf (if_kind publicNull)"
  "kind_wf (if_kind f) \<Longrightarrow> kind_wf (if_kind (optionalIdentityField f))"
  by (auto simp: publicString_def publicEnum_def publicInteger_def publicStringList_def publicBoolean_def
      publicNull_def optionalIdentityField_def field_def Let_def list_ex_iff list_all_iff split: if_splits)

lemma scalar_conforms:
  "length s \<le> 512 \<Longrightarrow> conforms F SafeIdentityScalarSchema (scalar_json (Id_string s))"
  "is_identifier s \<Longrightarrow> conforms F SafeIdentityScalarSchema (scalar_json (Id_enum s))"
  "safe_int i \<Longrightarrow> conforms F SafeIdentityScalarSchema (scalar_json (Id_integer i))"
  "conforms F SafeIdentityScalarSchema (scalar_json (Id_boolean b))"
  "conforms F SafeIdentityScalarSchema (scalar_json Id_null)"
  by (auto simp: SafeIdentityScalarSchema_def IdentifierSchema_def req_def is_obj_def keys_of_def safe_int_def)

lemma value_conforms_scalar:
  "conforms F SafeIdentityScalarSchema (scalar_json x) \<Longrightarrow> conforms F SafeIdentityValueSchema (value_json (Id_scalar x))"
  by (simp add: SafeIdentityValueSchema_def)

lemma parsed_conforms:
  assumes "parse_field k v = Inr x" "kind_wf k"
  shows "conforms F SafeIdentityValueSchema (value_json x)"
proof (cases k)
  case (F_string_list n m)
  with assms parse_list_ok [of n m v x] obtain ss where ss: "x = Id_ordered_list (map Id_string ss)"
    "int (length ss) \<le> n" "list_all (str_in 0 m) ss" by blast
  have "conforms F SafeIdentityScalarSchema (scalar_json (Id_string s))" if "s \<in> set ss" for s
    using that ss assms F_string_list
    by (intro scalar_conforms) (auto simp: list_all_iff str_in_def id_max_string_def)
  then have "list_all (conforms F SafeIdentityScalarSchema) (map scalar_json (map Id_string ss))"
    by (simp add: list_all_iff)
  moreover have "length ss \<le> 100" using ss assms F_string_list by (simp add: id_max_list_def)
  ultimately show ?thesis
    unfolding ss(1) SafeIdentityValueSchema_def conforms.simps(11)
    by (simp add: req_def is_obj_def is_arr_def keys_of_def)
qed (use assms in \<open>auto dest!: parse_int_ok parse_atom_ok intro!: value_conforms_scalar scalar_conforms
      simp: str_in_def id_max_string_def list_all_iff simp del: value_json.simps scalar_json.simps\<close>)

lemma project_fields_names:
  "project_fields fs args = Inr cs \<Longrightarrow> map fst cs = filter (\<lambda>k. k \<in> set (keys_of args)) (map fst fs)"
proof (induction fs arbitrary: cs)
  case (Cons p fs)
  then show ?case by (cases p) (auto split: if_splits sum.splits)
qed simp

lemma project_fields_values:
  "project_fields fs args = Inr cs \<Longrightarrow> (k, x) \<in> set cs \<Longrightarrow>
     \<exists>f. (k, f) \<in> set fs \<and> parse_field (if_kind f) (at args k) = Inr x"
proof (induction fs arbitrary: cs)
  case (Cons p fs)
  obtain q f where p: "p = (q, f)" by fastforce
  show ?case
  proof (cases "q \<in> set (keys_of args)")
    case False
    with Cons.prems p have "project_fields fs args = Inr cs" by (simp split: if_splits)
    with Cons.IH Cons.prems(2) show ?thesis by (meson list.set_intros(2))
  next
    case True
    with Cons.prems p obtain v ds where v: "parse_field (if_kind f) (at args q) = Inr v"
      "project_fields fs args = Inr ds" "cs = (q, v) # ds" by (auto split: sum.splits)
    with Cons.prems(2) consider "k = q" "x = v" | "(k, x) \<in> set ds" by auto
    then show ?thesis
    proof cases
      case 1
      with v p show ?thesis by auto
    next
      case 2
      with Cons.IH [OF v(2)] show ?thesis by (meson list.set_intros(2))
    qed
  qed
qed simp

lemma check_fields_names: "check_fields fs = Inr u \<Longrightarrow> (k, f) \<in> set fs \<Longrightarrow> is_identifier k"
  by (induction fs) (auto split: if_splits)

lemma unique_sorted_sorted: "distinct xs \<Longrightarrow> sort_text xs = xs \<Longrightarrow> unique_sorted xs"
  by (simp add: unique_sorted_def)

lemma sort_text_filter: "sort_text xs = xs \<Longrightarrow> sort_text (filter P xs) = filter P xs"
proof -
  assume "sort_text xs = xs"
  then have "sorted_wrt (\<lambda>a b. \<not> text_lt b a) xs"
    using sorted_isort [of text_lt xs] strict_weak_text_lt [of id] by (simp add: sort_text_def)
  then have "sorted_wrt (\<lambda>a b. \<not> text_lt b a) (filter P xs)" by (rule sorted_wrt_filter)
  then show ?thesis unfolding sort_text_def by (rule isort_sorted_id)
qed

lemma sort_text_keys: "sort_text (map fst (isort key_lt kvs)) = map fst (isort key_lt kvs)"
proof -
  have "sorted_wrt (\<lambda>a b. \<not> key_lt b a) (isort key_lt kvs)" by (rule sorted_isort) simp
  then have "sorted_wrt (\<lambda>a b. \<not> text_lt b a) (map fst (isort key_lt kvs))"
    by (simp add: sorted_wrt_map key_lt_def)
  then show ?thesis unfolding sort_text_def by (rule isort_sorted_id)
qed

definition evidence_props :: "string \<Rightarrow> identity_profile \<Rightarrow> string \<Rightarrow> safe_claim list \<Rightarrow> string list \<Rightarrow> string option \<Rightarrow> string option \<Rightarrow> jsval" where
  "evidence_props status p cover claims omitted schemaDigest failure = JObj
     ([(''profileStatus'', JStr status), (''profileId'', JStr (pr_id p)),
       (''profileVersion'', JInt (pr_version p)), (''profileManifestDigest'', JStr (pr_manifestDigest p)),
       (''serverProvenanceAssurance'', JStr ''configured_label_only''),
       (''parameterCoverage'', JStr cover), (''safeClaims'', JArr (map claim_json claims)),
       (''omittedCategories'', JArr (map JStr omitted))]
      @ opt_str ''failureCode'' failure @ opt_str ''observedSchemaDigest'' schemaDigest)"

lemma evidence_at [simp]:
  "at (evidence_props st p cov cs om sd fl) ''profileStatus'' = JStr st"
  "at (evidence_props st p cov cs om sd fl) ''profileId'' = JStr (pr_id p)"
  "at (evidence_props st p cov cs om sd fl) ''profileVersion'' = JInt (pr_version p)"
  "at (evidence_props st p cov cs om sd fl) ''profileManifestDigest'' = JStr (pr_manifestDigest p)"
  "at (evidence_props st p cov cs om sd fl) ''serverProvenanceAssurance'' = JStr ''configured_label_only''"
  "at (evidence_props st p cov cs om sd fl) ''parameterCoverage'' = JStr cov"
  "at (evidence_props st p cov cs om sd fl) ''safeClaims'' = JArr (map claim_json cs)"
  "at (evidence_props st p cov cs om sd fl) ''omittedCategories'' = JArr (map JStr om)"
  "at (evidence_props st p cov cs om sd fl) ''failureCode'' = (case fl of None \<Rightarrow> JUndef | Some s \<Rightarrow> JStr s)"
  "at (evidence_props st p cov cs om sd fl) ''observedSchemaDigest'' = (case sd of None \<Rightarrow> JUndef | Some s \<Rightarrow> JStr s)"
  by (cases fl; cases sd; simp add: evidence_props_def)+

lemma evidence_keys:
  "list_all (\<lambda>k. k \<in> set [''profileStatus'', ''profileId'', ''profileVersion'', ''profileManifestDigest'',
     ''serverProvenanceAssurance'', ''parameterCoverage'', ''safeClaims'', ''omittedCategories'',
     ''observedSchemaDigest'', ''failureCode'']) (keys_of (evidence_props st p cov cs om sd fl))"
  by (cases fl; cases sd) (simp_all add: evidence_props_def keys_of_def)

lemma is_obj_evidence [simp]: "is_obj (evidence_props st p cov cs om sd fl)"
  by (simp add: evidence_props_def is_obj_def)

lemma conforms_claims:
  "list_all (conforms F SafeIdentityClaimSchema) (map claim_json cs) \<longleftrightarrow>
     (\<forall>(k, x) \<in> set cs. is_identifier k \<and> conforms F SafeIdentityValueSchema (value_json x))"
  by (induction cs) (auto simp: SafeIdentityClaimSchema_def claim_json_def req_def IdentifierSchema_def is_obj_def keys_of_def)

lemma conforms_evidence:
  assumes "is_identifier (pr_id p)" "1 \<le> pr_version p" "pr_version p \<le> 1000000" "is_digest (pr_manifestDigest p)"
    "pred_option is_digest sd" "pred_option is_reason_code fl"
    "length cs \<le> 64" "\<forall>(k, x) \<in> set cs. is_identifier k \<and> conforms F SafeIdentityValueSchema (value_json x)"
    "unique_sorted (map fst cs)" "length om \<le> 32" "list_all is_identifier om" "unique_sorted om"
    "(st = ''projected'' \<and> fl = None \<and> (cov = ''complete_action_parameters'' \<and> om = [] \<or> cov = ''declared_subset'' \<and> om \<noteq> []))
     \<or> (st = ''rejected'' \<and> fl \<noteq> None \<and> cov = ''none'' \<and> cs = [] \<and> om \<noteq> [])"
  shows "conforms F ReceiptIdentityEvidenceSchema (evidence_props st p cov cs om sd fl)"
proof -
  have str: "(case x of None \<Rightarrow> JUndef | Some s \<Rightarrow> JStr s) = JUndef \<or> str_ok q (case x of None \<Rightarrow> JUndef | Some s \<Rightarrow> JStr s)
      \<longleftrightarrow> pred_option q x" for x q
    by (cases x) simp_all
  have ids: "list_all (conforms F (SStr is_identifier)) (map JStr om)"
    using assms(11) by (induction om) auto
  have names: "map (\<lambda>c. text_of_str (at c ''name'')) (map claim_json cs) = map fst cs"
    by (simp add: claim_json_def text_of_str_def)
  have oms: "map text_of_str (map JStr om) = om"
    by (simp add: text_of_str_def o_def)
  have rules: "evidence_rules (evidence_props st p cov cs om sd fl)"
    unfolding evidence_rules_def evidence_at items_arr names oms
    using assms(9,12,13) by (auto split: option.splits)
  have st: "st \<in> set [''projected'', ''rejected'']" "cov \<in> set [''none'', ''declared_subset'', ''complete_action_parameters'']"
    using assms(13) by auto
  show ?thesis
    unfolding ReceiptIdentityEvidenceSchema_def conforms.simps(12) conforms.simps(10)
    using rules evidence_keys [of st p cov cs om sd fl] assms(1-8,10) ids st
    by (simp add: req_def opt_def IdentifierSchema_def DigestSchema_def ReasonCodeSchema_def conforms_enum str
        conforms_claims is_arr_def del: list.set list.pred_map)
qed

lemma evidenceFor_props: "conforms F ReceiptIdentityEvidenceSchema (evidenceFor p cs sd)
   = conforms F ReceiptIdentityEvidenceSchema (evidence_props ''projected'' p (coverage_name (pr_coverage p)) cs (pr_omitted p) sd None)"
  by (simp add: evidenceFor_def evidence_props_def)

lemma failure_codes:
  "list_all is_reason_code [''input_schema_unavailable'', ''input_schema_mismatch'', ''projection_failed'',
     ''request_metadata_unsupported'', ''arguments_invalid'', ''unexpected_argument'', ''required_argument_missing'']"
  by code_simp

lemma project_fields_code:
  "project_fields fs args = Inl c \<Longrightarrow> c \<in> {''required_argument_missing'', ''projection_failed''}"
  by (induction fs args rule: project_fields.induct) (auto split: if_splits sum.splits)

lemma project_arguments_code: "project_arguments p ps = Inl c \<Longrightarrow> is_reason_code c"
  using failure_codes project_fields_code
  by (fastforce simp: project_arguments_def split: if_splits)

lemma observed_digest: "observedInputSchemaDigest v = Inr d \<Longrightarrow> is_digest d"
  by (auto simp: observedInputSchemaDigest_def receiptDigest_def split: if_splits sum.splits)

lemma projectProfile_forms:
  obtains (rejected) why d where "projectProfile p s ps sch = rejectedResult p s (cp_name ps) why d"
      "is_reason_code why" "pred_option is_digest d"
  | (projected) cs d where "project_arguments p ps = Inr cs" "pred_option is_digest d"
      "projectProfile p s ps sch = projectedResult p s (cp_name ps) cs d"
proof (cases "pr_schemaDigest p")
  case None
  then show ?thesis
    using project_arguments_code [of p ps] rejected [of _ None] projected [of _ None]
    by (cases "project_arguments p ps") (auto simp: projectProfile_def)
next
  case (Some e)
  show ?thesis
  proof (cases sch)
    case None
    with Some show ?thesis using rejected [of "''input_schema_unavailable''" None] failure_codes
      by (simp add: projectProfile_def)
  next
    case (Some x)
    note sch = this
    show ?thesis
    proof (cases "observedInputSchemaDigest x")
      case (Inl err)
      with \<open>pr_schemaDigest p = Some e\<close> sch show ?thesis
        using rejected [of "''projection_failed''" None] failure_codes by (simp add: projectProfile_def)
    next
      case (Inr d)
      note dig = observed_digest [OF this]
      show ?thesis
      proof (cases "d = e")
        case False
        with Inr \<open>pr_schemaDigest p = Some e\<close> sch show ?thesis
          using rejected [of "''input_schema_mismatch''" "Some d"] failure_codes dig by (simp add: projectProfile_def)
      next
        case True
        with Inr \<open>pr_schemaDigest p = Some e\<close> sch dig show ?thesis
          using project_arguments_code [of p ps] rejected [of _ "Some d"] projected [of _ "Some d"]
          by (cases "project_arguments p ps") (auto simp: projectProfile_def)
      qed
    qed
  qed
qed

text \<open>
  C38: the evidence of every identity is accepted by the receipt schema.  Under a profile whose
  fields come from the field constructors and whose omitted categories are at most 32 and
  distinct, the identity of any call, projected or rejected, carries evidence that a receipt
  of its assurance level accepts, whatever arguments and schema the caller sends.
\<close>

theorem identity_evidence_accepted:
  assumes "defineMcpIdentityProfile i = Inr p" "distinct (map fst (pin_fields i))"
    "\<forall>(k, f) \<in> set (pin_fields i). kind_wf (if_kind f)"
    "distinct (pin_omitted i)" "length (pin_omitted i) \<le> 32"
  shows "evidence_ok F (mi_assurance (projectProfile p s ps sch)) (mi_evidence (projectProfile p s ps sch))"
proof (rule projectProfile_forms [where p = p and s = s and ps = ps and sch = sch])
  note d = define_profile_fields [OF assms(1)]
  fix why sd assume r: "projectProfile p s ps sch = rejectedResult p s (cp_name ps) why sd"
    "is_reason_code why" "pred_option is_digest sd"
  have "is_identifier ''unbound_parameters''" by code_simp
  then have "conforms F ReceiptIdentityEvidenceSchema (evidence_props ''rejected'' p ''none'' [] [''unbound_parameters''] sd (Some why))"
    using d r by (intro conforms_evidence) (auto simp: unique_sorted_def sort_text_def)
  moreover have "mi_evidence (rejectedResult p s (cp_name ps) why sd)
      = Some (evidence_props ''rejected'' p ''none'' [] [''unbound_parameters''] sd (Some why))"
    by (simp add: rejectedResult_def trustedResult_def evidence_props_def)
  ultimately show ?thesis using r(1) by (simp add: evidence_ok_def)
next
  note d = define_profile_fields [OF assms(1)]
  fix cs sd assume r: "project_arguments p ps = Inr cs" "pred_option is_digest sd"
    "projectProfile p s ps sch = projectedResult p s (cp_name ps) cs sd"
  have f: "project_fields (pr_fields p) (arguments_of ps) = Inr cs"
    using r(1) by (auto simp: project_arguments_def split: if_splits)
  have "sort_text (map fst (pr_fields p)) = map fst (pr_fields p)"
    unfolding d(1) by (rule sort_text_keys)
  then have "sort_text (map fst cs) = map fst cs"
    unfolding project_fields_names [OF f] by (rule sort_text_filter)
  moreover have dn: "distinct (map fst (pr_fields p))" using d(1) assms(2) by simp
  then have "distinct (map fst cs)" unfolding project_fields_names [OF f] by simp
  ultimately have us: "unique_sorted (map fst cs)" by (intro unique_sorted_sorted)
  have "length (map fst cs) \<le> length (map fst (pr_fields p))"
    unfolding project_fields_names [OF f] by (rule length_filter_le)
  then have len: "length cs \<le> 64" using d(10) by (simp add: id_max_fields_def)
  have vals: "\<forall>(k, x) \<in> set cs. is_identifier k \<and> conforms F SafeIdentityValueSchema (value_json x)"
  proof clarify
    fix k x assume "(k, x) \<in> set cs"
    then obtain g where g: "(k, g) \<in> set (pr_fields p)" "parse_field (if_kind g) (at (arguments_of ps) k) = Inr x"
      using project_fields_values [OF f] by blast
    have "kind_wf (if_kind g)" using g(1) d(1) assms(3) by auto
    then show "is_identifier k \<and> conforms F SafeIdentityValueSchema (value_json x)"
      using parsed_conforms [OF g(2)] check_fields_names [OF d(11) g(1)] by blast
  qed
  have om: "unique_sorted (pr_omitted p)" "length (pr_omitted p) \<le> 32"
    unfolding d(3) using assms(4,5) by (simp add: unique_sorted_def, simp add: sort_text_def)
  have "conforms F ReceiptIdentityEvidenceSchema (evidenceFor p cs sd)"
    unfolding evidenceFor_props using d r us len vals om
    by (intro conforms_evidence) (auto intro: coverage.exhaust [of "pr_coverage p"])
  moreover have "mi_evidence (projectedResult p s (cp_name ps) cs sd) = Some (evidenceFor p cs sd)"
    by (simp add: projectedResult_def trustedResult_def)
  moreover have "at (evidenceFor p cs sd) ''profileStatus'' = JStr ''projected''"
    "at (evidenceFor p cs sd) ''parameterCoverage'' = JStr (coverage_name (pr_coverage p))"
    "at (evidenceFor p cs sd) ''omittedCategories'' = JArr (map JStr (pr_omitted p))"
    by (simp_all add: evidenceFor_def)
  ultimately show ?thesis
    using r(3) d(13) by (cases "pr_coverage p") (simp_all add: evidence_ok_def coverage_assurance_def)
qed

theorem identity_evidence_accepted_witness:
  "evidence_ok demo_formats Adapter_action_exact (mi_evidence (projectProfile demo_profile ''fs'' demo_params None))"
proof -
  have f: "pin_fields demo_profile_input = [(''path'', field (F_string 1 100) False)]" "pin_omitted demo_profile_input = []"
    by (simp_all add: demo_profile_input_def)
  have "evidence_ok demo_formats (mi_assurance (projectProfile demo_profile ''fs'' demo_params None))
          (mi_evidence (projectProfile demo_profile ''fs'' demo_params None))"
    by (rule identity_evidence_accepted [OF demo_profile_defined]) (simp_all add: f field_def id_max_string_def)
  then show ?thesis unfolding demo_exact .
qed

end
