(* ===== verification/Recorder.thy ===== *)
theory Recorder
  imports Identity
begin

section \<open>The audit recorder\<close>

text \<open>
  Models src/audit/recorder.ts over the tables of src/db (migrations 001 and 002): a table of
  calls, a table of approvals and the append-only, hash-chained log of events.

  \<open>audit_env\<close> holds what one operation takes from outside: the readings of the clock and the
  random identifiers, each named by the place of the expression that asks for it, the formats
  of the schema library, and whether the database completes the transaction (\<open>en_commit\<close>; when it does not, the
  transaction is rolled back and raises).  An operation maps the call's own variables and the
  database to its result and their new values; an exception leaves the variables as they were
  when it was raised.
\<close>

subsection \<open>Inputs\<close>

record tool_context =
  tc_serverId :: string
  tc_toolName :: string
  tc_arguments :: jsval
  tc_annotations :: "tool_annotations option"
  tc_identity :: "mcp_identity option"

record audit_evaluation =
  ae_base :: decision
  ae_effective :: decision
  ae_rule :: "string option"
  ae_reasons :: "string list"
  ae_score :: int
  ae_band :: risk_band
  ae_signals :: "jsval list"

datatype action = Forward | Ask | Deny

record audit_decision =
  ad_action :: action
  ad_reason :: string
  ad_receipt :: "receipt_context option"
  ad_evaluation :: "audit_evaluation option"

record audit_env =
  en_formats :: formats
  en_tick :: "nat \<Rightarrow> nat"
  en_uuid :: "nat \<Rightarrow> string"
  en_commit :: bool

definition iso :: "audit_env \<Rightarrow> nat \<Rightarrow> audit_error + string" where
  "iso E k = (case toISOString (en_tick E k) of None \<Rightarrow> Inl (Audit_error ''Invalid time value'') | Some s \<Rightarrow> Inr s)"

subsection \<open>The database\<close>

record call_row =
  cr_id :: string
  cr_serverId :: string
  cr_toolName :: string
  cr_arguments :: string
  cr_requestHash :: string
  cr_base :: decision
  cr_effective :: decision
  cr_rule :: "string option"
  cr_reasons :: string
  cr_score :: int
  cr_band :: risk_band
  cr_signals :: string
  cr_status :: string
  cr_startedAt :: string
  cr_completedAt :: "string option"
  cr_latency :: "nat option"
  cr_result :: "string option"
  cr_error :: "string option"

record approval_row =
  al_id :: string
  al_call :: string
  al_status :: string
  al_requestedAt :: string
  al_expiresAt :: string
  al_decidedAt :: "string option"

record event_row =
  er_sequence :: nat
  er_id :: string
  er_call :: string
  er_type :: string
  er_json :: string
  er_previous :: string
  er_hash :: string
  er_createdAt :: string

record audit_db =
  db_calls :: "call_row list"
  db_approvals :: "approval_row list"
  db_events :: "event_row list"

definition empty_db :: audit_db where
  "empty_db = \<lparr>db_calls = [], db_approvals = [], db_events = []\<rparr>"

definition constraint_failed :: audit_error where
  "constraint_failed = Audit_error ''SQLITE_CONSTRAINT''"

definition call_ids :: "audit_db \<Rightarrow> string set" where
  "call_ids db = set (map cr_id (db_calls db))"

definition insert_call :: "call_row \<Rightarrow> audit_db \<Rightarrow> audit_error + audit_db" where
  "insert_call r db =
     (if cr_id r \<in> set (map cr_id (db_calls db)) \<or> cr_score r < 0 \<or> 100 < cr_score r then Inl constraint_failed
      else Inr (db\<lparr>db_calls := db_calls db @ [r]\<rparr>))"

definition insert_approval :: "approval_row \<Rightarrow> audit_db \<Rightarrow> audit_error + audit_db" where
  "insert_approval a db =
     (if al_id a \<in> set (map al_id (db_approvals db)) \<or> al_call a \<in> set (map al_call (db_approvals db))
         \<or> al_call a \<notin> set (map cr_id (db_calls db))
      then Inl constraint_failed
      else Inr (db\<lparr>db_approvals := db_approvals db @ [a]\<rparr>))"

definition insert_event :: "event_row \<Rightarrow> audit_db \<Rightarrow> audit_error + audit_db" where
  "insert_event e db =
     (if er_id e \<in> set (map er_id (db_events db)) \<or> er_hash e \<in> set (map er_hash (db_events db))
         \<or> er_call e \<notin> set (map cr_id (db_calls db))
      then Inl constraint_failed
      else Inr (db\<lparr>db_events := db_events db @ [e]\<rparr>))"

definition map_call :: "string \<Rightarrow> (call_row \<Rightarrow> call_row) \<Rightarrow> audit_db \<Rightarrow> audit_db" where
  "map_call i f db = db\<lparr>db_calls := map (\<lambda>r. if cr_id r = i then f r else r) (db_calls db)\<rparr>"

definition updateStatus :: "string \<Rightarrow> string \<Rightarrow> audit_db \<Rightarrow> audit_error + audit_db" where
  "updateStatus i status db = Inr (map_call i (\<lambda>r. r\<lparr>cr_status := status\<rparr>) db)"

definition finish :: "audit_env \<Rightarrow> string \<Rightarrow> string \<Rightarrow> nat \<Rightarrow> nat \<Rightarrow> jsval option \<Rightarrow> string option \<Rightarrow> audit_db
    \<Rightarrow> audit_error + audit_db" where
  "finish E i status startedAt completedAt summary errorCode db =
     (case toISOString completedAt of
        None \<Rightarrow> Inl (Audit_error ''Invalid time value'')
      | Some t \<Rightarrow> Inr (map_call i (\<lambda>r. r\<lparr>cr_status := status, cr_completedAt := Some t,
            cr_latency := Some (completedAt - startedAt), cr_result := map_option canonicalJson summary,
            cr_error := errorCode\<rparr>) db))"

text \<open>
  \<open>UPDATE approvals ... WHERE id = ? AND tool_call_id = ? AND status = 'pending'\<close>: it raises
  when no row changed.
\<close>

definition resolve_approval :: "string \<Rightarrow> string \<Rightarrow> string \<Rightarrow> string \<Rightarrow> audit_db \<Rightarrow> audit_error + audit_db" where
  "resolve_approval i callId status decidedAt db =
     (let hit = (\<lambda>a. al_id a = i \<and> al_call a = callId \<and> al_status a = ''pending'') in
        if length (filter hit (db_approvals db)) \<noteq> 1 then Inl (Audit_error ''Approval is not pending'')
        else Inr (db\<lparr>db_approvals := map (\<lambda>a. if hit a then a\<lparr>al_status := status, al_decidedAt := Some decidedAt\<rparr> else a)
               (db_approvals db)\<rparr>))"

definition transaction :: "audit_env \<Rightarrow> (audit_db \<Rightarrow> audit_error + audit_db) list \<Rightarrow> audit_db \<Rightarrow> audit_error + audit_db" where
  "transaction E steps db =
     rbind (foldM (\<lambda>f. f) steps db) (\<lambda>db'.
       if en_commit E then Inr db' else Inl (Audit_error ''transaction failed''))"

subsection \<open>The hash chain\<close>

definition genesis_hash :: string where "genesis_hash = replicate 64 (CHR ''0'')"

definition newline :: string where "newline = [CHR 0x0A]"

definition chain_hash :: "string \<Rightarrow> string \<Rightarrow> string" where
  "chain_hash prev json = sha256 (prev @ newline @ json)"

definition chain_tail :: "event_row list \<Rightarrow> string" where
  "chain_tail es = (if es = [] then genesis_hash else er_hash (last es))"

definition is_receipt_event :: "string \<Rightarrow> bool" where
  "is_receipt_event t \<longleftrightarrow> t = ''authorization_receipt_finalized'' \<or> t = ''outcome_receipt_finalized''"

definition event_value :: "string \<Rightarrow> string \<Rightarrow> string \<Rightarrow> jsval \<Rightarrow> string \<Rightarrow> jsval" where
  "event_value eventId callId type details createdAt = JObj
     [(''eventId'', JStr eventId), (''toolCallId'', JStr callId), (''eventType'', JStr type),
      (''details'', if is_receipt_event type then details else redactForAudit details),
      (''createdAt'', JStr createdAt)]"

text \<open>
  \<open>appendEvent\<close>; \<open>u\<close> and \<open>t\<close> are the positions of its random identifier and its clock reading.
  The code reads the identifier and the time back from the event's own text, which holds them
  as they are.
\<close>

definition appendEvent :: "audit_env \<Rightarrow> nat \<Rightarrow> nat \<Rightarrow> string \<Rightarrow> string \<Rightarrow> jsval \<Rightarrow> audit_db \<Rightarrow> audit_error + audit_db" where
  "appendEvent E u t callId type details db =
     rbind (iso E t) (\<lambda>createdAt.
       let previousHash = chain_tail (db_events db);
           eventJson = canonicalJson (event_value (en_uuid E u) callId type details createdAt)
       in insert_event \<lparr>er_sequence = length (db_events db) + 1, er_id = en_uuid E u, er_call = callId,
            er_type = type, er_json = eventJson, er_previous = previousHash,
            er_hash = chain_hash previousHash eventJson, er_createdAt = createdAt\<rparr> db)"

fun verify_from :: "string \<Rightarrow> event_row list \<Rightarrow> bool" where
  "verify_from expected [] = True"
| "verify_from expected (e # es) =
     (if er_previous e \<noteq> expected then False
      else if chain_hash (er_previous e) (er_json e) \<noteq> er_hash e then False
      else verify_from (er_hash e) es)"

definition verifyHashChain :: "audit_db \<Rightarrow> bool" where
  "verifyHashChain db = verify_from genesis_hash (db_events db)"

subsection \<open>Identifiers safe to disclose\<close>

definition safeIdentifier :: "string \<Rightarrow> string" where
  "safeIdentifier v = (if is_identifier v then v else ''opaque:'' @ take 32 (sha256 v))"

definition safeReasonCode :: "string \<Rightarrow> string" where
  "safeReasonCode v = (if is_reason_code v then v else ''opaque_error_'' @ take 32 (sha256 v))"

subsection \<open>Evaluations and receipt contexts\<close>

fun action_decision :: "action \<Rightarrow> decision" where
  "action_decision Forward = allow"
| "action_decision Ask = ask"
| "action_decision Deny = deny"

definition normalizeEvaluation :: "audit_decision \<Rightarrow> audit_evaluation" where
  "normalizeEvaluation d =
     (case ad_evaluation d of
        Some e \<Rightarrow> e
      | None \<Rightarrow> \<lparr>ae_base = action_decision (ad_action d), ae_effective = action_decision (ad_action d),
                 ae_rule = None, ae_reasons = [''interceptor_decision''], ae_score = 0, ae_band = low,
                 ae_signals = []\<rparr>)"

definition structural_material :: "tool_context \<Rightarrow> jsval" where
  "structural_material c = JObj [(''serverId'', JStr (tc_serverId c)), (''toolName'', JStr (tc_toolName c))]"

definition fallback_policy :: policy_identity where
  "fallback_policy =
     \<lparr>pid_schemaVersion = 0,
      pid_contentDigest = sha256_digest (canonicalJson (JObj
        [(''format'', JStr ''apg-interceptor-fallback-v1''),
         (''decisionSource'', JStr ''interceptor_without_policy_identity'')])),
      pid_evaluatorName = ''interceptor_fallback'', pid_evaluatorVersion = ''1''\<rparr>"

definition fallbackReceiptContext :: "tool_context \<Rightarrow> receipt_context" where
  "fallbackReceiptContext c =
     \<lparr>rc_adapter = ''mcp_proxy'', rc_adapterVersion = ''1'', rc_operation = safeIdentifier (tc_toolName c),
      rc_boundary = Mcp_proxy_call, rc_assurance = Structural_only, rc_material = structural_material c,
      rc_evidence = None, rc_subject = None, rc_planHash = None, rc_policy = fallback_policy\<rparr>"

definition trusted_identity :: "tool_context \<Rightarrow> mcp_identity option" where
  "trusted_identity c =
     (case tc_identity c of None \<Rightarrow> None | Some r \<Rightarrow> if mi_trusted r then Some r else None)"

definition trustedReceiptContext :: "tool_context \<Rightarrow> receipt_context option \<Rightarrow> receipt_context" where
  "trustedReceiptContext c proposed =
     (let fallback = (case proposed of Some p \<Rightarrow> p | None \<Rightarrow> fallbackReceiptContext c) in
      if trusted_identity c = None \<and> rc_boundary fallback \<noteq> Mcp_proxy_call then fallback
      else \<lparr>rc_adapter = ''mcp_proxy'', rc_adapterVersion = ''1'', rc_operation = safeIdentifier (tc_toolName c),
            rc_boundary = Mcp_proxy_call,
            rc_assurance = (case trusted_identity c of None \<Rightarrow> Structural_only | Some r \<Rightarrow> mi_assurance r),
            rc_material = (case trusted_identity c of None \<Rightarrow> structural_material c | Some r \<Rightarrow> mi_material r),
            rc_evidence = (case trusted_identity c of None \<Rightarrow> None | Some r \<Rightarrow> mi_evidence r),
            rc_subject = Some (tc_serverId c), rc_planHash = None, rc_policy = rc_policy fallback\<rparr>)"

subsection \<open>The state of one call\<close>

record call_state =
  cs_id :: string
  cs_context :: receipt_context
  cs_evaluation :: audit_evaluation
  cs_startedAt :: nat
  cs_terminal :: bool
  cs_dispatched :: bool
  cs_executionStartedAt :: "string option"
  cs_authorization :: "(jsval \<times> string) option"
  cs_approval :: receipt_approval

definition initial_approval :: "action \<Rightarrow> receipt_approval" where
  "initial_approval a =
     (if a = Ask
      then \<lparr>ap_required = True, ap_outcome = Not_requested, ap_requestId = None, ap_requestedAt = None,
            ap_decidedAt = None, ap_expiresAt = None, ap_principal = Unknown_principal\<rparr>
      else \<lparr>ap_required = False, ap_outcome = Not_required, ap_requestId = None, ap_requestedAt = None,
            ap_decidedAt = None, ap_expiresAt = None, ap_principal = Not_applicable\<rparr>)"

definition js_opt :: "string option \<Rightarrow> jsval" where
  "js_opt x = (case x of None \<Rightarrow> JUndef | Some s \<Rightarrow> JStr s)"

definition evaluation_details :: "tool_context \<Rightarrow> audit_evaluation \<Rightarrow> receipt_context \<Rightarrow> jsval" where
  "evaluation_details c ev rc = JObj
     [(''serverId'', JStr (tc_serverId c)), (''toolName'', JStr (tc_toolName c)),
      (''baseDecision'', JStr (decision_name (ae_base ev))),
      (''effectiveDecision'', JStr (decision_name (ae_effective ev))),
      (''matchedRuleId'', js_opt (ae_rule ev)), (''reasonCodes'', JArr (map JStr (ae_reasons ev))),
      (''risk'', JObj [(''score'', JInt (ae_score ev)), (''band'', JStr (band_name (ae_band ev))),
                      (''signals'', JArr (ae_signals ev))]),
      (''receiptEvidence'', JObj
         [(''adapter'', JStr (rc_adapter rc)), (''adapterVersion'', JStr (rc_adapterVersion rc)),
          (''boundary'', JStr (boundary_name (rc_boundary rc))),
          (''identityAssurance'', JStr (assurance_name (rc_assurance rc))),
          (''policy'', JObj (policy_identity_props (rc_policy rc)))])]"

definition call_record :: "string \<Rightarrow> tool_context \<Rightarrow> audit_evaluation \<Rightarrow> string \<Rightarrow> call_row" where
  "call_record i c ev startedAt =
     (let args = redactForAudit (tc_arguments c) in
      \<lparr>cr_id = i, cr_serverId = tc_serverId c, cr_toolName = tc_toolName c, cr_arguments = canonicalJson args,
       cr_requestHash = sha256 (canonicalJson (JObj
         [(''serverId'', JStr (tc_serverId c)), (''toolName'', JStr (tc_toolName c)), (''arguments'', args)])),
       cr_base = ae_base ev, cr_effective = ae_effective ev, cr_rule = ae_rule ev,
       cr_reasons = canonicalJson (JArr (map JStr (ae_reasons ev))), cr_score = ae_score ev,
       cr_band = ae_band ev, cr_signals = canonicalJson (redactForAudit (JArr (ae_signals ev))),
       cr_status = ''evaluated'', cr_startedAt = startedAt, cr_completedAt = None, cr_latency = None,
       cr_result = None, cr_error = None\<rparr>)"

text \<open>\<open>begin\<close>: the call exists only when its row and its first event are both stored.\<close>

definition begin_call :: "audit_env \<Rightarrow> tool_context \<Rightarrow> audit_decision \<Rightarrow> audit_db
    \<Rightarrow> (audit_error + call_state) \<times> audit_db" where
  "begin_call E c d db =
     (let i = en_uuid E 0; ev = normalizeEvaluation d; rc = trustedReceiptContext c (ad_receipt d) in
      case transaction E
        [\<lambda>db. rbind (iso E 0) (\<lambda>t. insert_call (call_record i c ev t) db),
         appendEvent E 1 1 i ''decision_recorded'' (evaluation_details c ev rc)] db of
        Inl e \<Rightarrow> (Inl e, db)
      | Inr db' \<Rightarrow> (Inr \<lparr>cs_id = i, cs_context = rc, cs_evaluation = ev, cs_startedAt = en_tick E 0,
            cs_terminal = False, cs_dispatched = False, cs_executionStartedAt = None,
            cs_authorization = None, cs_approval = initial_approval (ad_action d)\<rparr>, db'))"

definition buildAuthorization :: "audit_env \<Rightarrow> call_state \<Rightarrow> auth_status \<Rightarrow> string \<Rightarrow> string
    \<Rightarrow> audit_error + jsval \<times> string" where
  "buildAuthorization E s status reasonCode issuedAt =
     rbind (createAuthorizationReceipt (en_formats E)
       \<lparr>ai_receiptId = en_uuid E 0, ai_actionId = cs_id s, ai_issuedAt = issuedAt, ai_context = cs_context s,
        ai_base = ae_base (cs_evaluation s), ai_effective = ae_effective (cs_evaluation s),
        ai_matchedRuleId = ae_rule (cs_evaluation s), ai_reasonCodes = ae_reasons (cs_evaluation s),
        ai_riskScore = NInt (ae_score (cs_evaluation s)), ai_riskBand = ae_band (cs_evaluation s),
        ai_approval = cs_approval s, ai_status = status, ai_reasonCode = reasonCode\<rparr>) (\<lambda>r.
     rbind (receiptDigest r) (\<lambda>d. Inr (r, d)))"

type_synonym op_result = "(audit_error + unit) \<times> call_state \<times> audit_db"

definition raise :: "string \<Rightarrow> call_state \<Rightarrow> audit_db \<Rightarrow> op_result" where
  "raise msg s db = (Inl (Audit_error msg), s, db)"

text \<open>Run a transaction; the call's variables become \<open>s'\<close> when it completes, else stay \<open>s\<close>.\<close>

definition commit_as :: "audit_env \<Rightarrow> (audit_db \<Rightarrow> audit_error + audit_db) list \<Rightarrow> call_state \<Rightarrow> call_state
    \<Rightarrow> audit_db \<Rightarrow> op_result" where
  "commit_as E steps s s' db =
     (case transaction E steps db of Inl e \<Rightarrow> (Inl e, s, db) | Inr db' \<Rightarrow> (Inr (), s', db'))"

definition receipt_details :: "jsval \<Rightarrow> string \<Rightarrow> jsval" where
  "receipt_details r d = JObj [(''receipt'', r), (''receiptDigest'', JStr d)]"

definition append_receipt :: "audit_env \<Rightarrow> nat \<Rightarrow> nat \<Rightarrow> string \<Rightarrow> string \<Rightarrow> jsval \<Rightarrow> audit_db \<Rightarrow> audit_error + audit_db" where
  "append_receipt E u t i type r db = rbind (receiptDigest r) (\<lambda>d. appendEvent E u t i type (receipt_details r d) db)"

definition digest_details :: "string \<Rightarrow> jsval" where
  "digest_details d = JObj [(''receiptDigest'', JStr d)]"

definition plan_hash_prop :: "call_state \<Rightarrow> string \<times> jsval" where
  "plan_hash_prop s = (''executionPlanHash'', js_opt (rc_planHash (cs_context s)))"

subsection \<open>Operations\<close>

definition markAuthorized :: "audit_env \<Rightarrow> call_state \<Rightarrow> audit_db \<Rightarrow> op_result" where
  "markAuthorized E s db =
     (if rc_boundary (cs_context s) \<noteq> Graph_genesis_plan
        then raise ''Separate authorization is reserved for Graph Genesis'' s db
      else if cs_terminal s \<or> cs_authorization s \<noteq> None then raise ''Authorization is already finalized'' s db
      else if ap_required (cs_approval s) \<and> ap_outcome (cs_approval s) \<noteq> Approved
        then raise ''Required approval is not approved'' s db
      else case rbind (iso E 0) (buildAuthorization E s Authorized ''approval_approved'') of
        Inl e \<Rightarrow> (Inl e, s, db)
      | Inr (r, d) \<Rightarrow> commit_as E
          [updateStatus (cs_id s) ''authorized'',
           appendEvent E 1 1 (cs_id s) ''authorization_receipt_finalized'' (receipt_details r d),
           appendEvent E 2 2 (cs_id s) ''graph_genesis_authorization_ready'' (JObj [plan_hash_prop s])]
          s (s\<lparr>cs_authorization := Some (r, d)\<rparr>) db)"

definition markExecutionStarted :: "audit_env \<Rightarrow> call_state \<Rightarrow> audit_db \<Rightarrow> op_result" where
  "markExecutionStarted E s db =
     (if rc_boundary (cs_context s) \<noteq> Graph_genesis_plan
        then raise ''Separate execution start is reserved for Graph Genesis'' s db
      else case (cs_terminal s \<or> cs_dispatched s, cs_authorization s) of
        (False, Some (r, d)) \<Rightarrow>
          (case iso E 0 of
             Inl e \<Rightarrow> (Inl e, s, db)
           | Inr t \<Rightarrow> commit_as E
               [updateStatus (cs_id s) ''forwarding'',
                appendEvent E 1 1 (cs_id s) ''execution_start_recorded'' (digest_details d)]
               s (s\<lparr>cs_executionStartedAt := Some t, cs_dispatched := True\<rparr>) db)
      | _ \<Rightarrow> raise ''Graph Genesis is not ready for execution start'' s db)"

definition markForwarding :: "audit_env \<Rightarrow> call_state \<Rightarrow> audit_db \<Rightarrow> op_result" where
  "markForwarding E s db =
     (if rc_boundary (cs_context s) = Graph_genesis_plan
        then raise ''Graph Genesis requires separate authorization and execution-start records'' s db
      else if cs_terminal s then raise ''Audit call is already terminal'' s db
      else if cs_dispatched s then raise ''Execution dispatch is already recorded'' s db
      else if ap_required (cs_approval s) \<and> ap_outcome (cs_approval s) \<noteq> Approved
        then raise ''Required approval is not approved'' s db
      else case rbind (iso E 0) (\<lambda>t. rbind (buildAuthorization E s Authorized
             (if ap_outcome (cs_approval s) = Approved then ''approval_approved'' else ''policy_allowed'') t)
             (\<lambda>rd. Inr (t, rd))) of
        Inl e \<Rightarrow> (Inl e, s, db)
      | Inr (t, r, d) \<Rightarrow> commit_as E
          [updateStatus (cs_id s) ''forwarding'',
           appendEvent E 1 1 (cs_id s) ''authorization_receipt_finalized'' (receipt_details r d),
           appendEvent E 2 2 (cs_id s) ''execution_start_recorded'' (digest_details d)]
          s (s\<lparr>cs_authorization := Some (r, d), cs_executionStartedAt := Some t, cs_dispatched := True\<rparr>) db)"

definition markApprovalRequested :: "audit_env \<Rightarrow> string \<Rightarrow> string \<Rightarrow> string \<Rightarrow> call_state \<Rightarrow> audit_db \<Rightarrow> op_result" where
  "markApprovalRequested E requestId requestedAt expiresAt s db =
     (if cs_terminal s then raise ''Audit call is already terminal'' s db
      else commit_as E
        [insert_approval \<lparr>al_id = requestId, al_call = cs_id s, al_status = ''pending'',
           al_requestedAt = requestedAt, al_expiresAt = expiresAt, al_decidedAt = None\<rparr>,
         updateStatus (cs_id s) ''approval_pending'',
         appendEvent E 0 0 (cs_id s) ''approval_requested''
           (JObj [(''approvalId'', JStr requestId), (''expiresAt'', JStr expiresAt)])]
        s (s\<lparr>cs_approval := \<lparr>ap_required = True, ap_outcome = Pending, ap_requestId = Some requestId,
             ap_requestedAt = Some requestedAt, ap_decidedAt = None, ap_expiresAt = Some expiresAt,
             ap_principal = Local_dashboard_session\<rparr>\<rparr>) db)"

definition approval_event :: "approval_state \<Rightarrow> string" where
  "approval_event x = ''approval_'' @ approval_name x"

definition markApprovalResolved :: "audit_env \<Rightarrow> string \<Rightarrow> approval_state \<Rightarrow> call_state \<Rightarrow> audit_db \<Rightarrow> op_result" where
  "markApprovalResolved E approvalId x s db =
     (if cs_terminal s then raise ''Audit call is already terminal'' s db
      else case iso E 0 of
        Inl e \<Rightarrow> (Inl e, s, db)
      | Inr decidedAt \<Rightarrow> commit_as E
          [resolve_approval approvalId (cs_id s) (approval_name x) decidedAt,
           updateStatus (cs_id s) (approval_event x),
           appendEvent E 0 1 (cs_id s) (approval_event x) (JObj [(''approvalId'', JStr approvalId)])]
          s (s\<lparr>cs_approval := (cs_approval s)\<lparr>ap_required := True, ap_outcome := x,
               ap_requestId := Some approvalId, ap_decidedAt := Some decidedAt,
               ap_principal := Local_dashboard_session\<rparr>\<rparr>) db)"

datatype block_status =
  B_denied | B_approval_unavailable | B_approval_denied | B_approval_expired | B_approval_cancelled

fun block_name :: "block_status \<Rightarrow> string" where
  "block_name B_denied = ''denied''"
| "block_name B_approval_unavailable = ''approval_unavailable''"
| "block_name B_approval_denied = ''approval_denied''"
| "block_name B_approval_expired = ''approval_expired''"
| "block_name B_approval_cancelled = ''approval_cancelled''"

fun blockedApproval :: "receipt_approval \<Rightarrow> block_status \<Rightarrow> receipt_approval" where
  "blockedApproval a B_denied = a"
| "blockedApproval a B_approval_unavailable = a\<lparr>ap_required := True, ap_outcome := Unavailable\<rparr>"
| "blockedApproval a B_approval_denied = a\<lparr>ap_required := True, ap_outcome := Denied\<rparr>"
| "blockedApproval a B_approval_expired = a\<lparr>ap_required := True, ap_outcome := Expired\<rparr>"
| "blockedApproval a B_approval_cancelled = a\<lparr>ap_required := True, ap_outcome := Cancelled\<rparr>"

text \<open>\<open>markBlocked\<close> changes the approval before it builds the receipt: an error keeps that change.\<close>

definition markBlocked :: "audit_env \<Rightarrow> block_status \<Rightarrow> call_state \<Rightarrow> audit_db \<Rightarrow> op_result" where
  "markBlocked E status s0 db =
     (if cs_terminal s0 then raise ''Audit call is already terminal'' s0 db
      else if cs_dispatched s0
        then raise ''A dispatched action cannot be marked as pre-execution blocked'' s0 db
      else let s = s0\<lparr>cs_approval := blockedApproval (cs_approval s0) status\<rparr> in
      case rbind (iso E 0) (buildAuthorization E s Blocked (block_name status)) of
        Inl e \<Rightarrow> (Inl e, s, db)
      | Inr (r, d) \<Rightarrow> commit_as E
          [finish E (cs_id s) (block_name status) (cs_startedAt s) (en_tick E 0) None None,
           appendEvent E 1 1 (cs_id s) (block_name status) (JObj []),
           appendEvent E 2 2 (cs_id s) ''authorization_receipt_finalized'' (receipt_details r d)]
          s (s\<lparr>cs_authorization := Some (r, d), cs_terminal := True\<rparr>) db)"

subsection \<open>Summaries of results\<close>

text \<open>
  A tool result: whether it says \<open>isError: true\<close>, the type of each content item, and
  the whole value, which goes back to the client untouched.
\<close>

record tool_result =
  tr_isError :: bool
  tr_types :: "string list"
  tr_value :: jsval

definition summarizeResult :: "tool_result \<Rightarrow> jsval" where
  "summarizeResult r = JObj
     [(''isError'', JBool (tr_isError r)), (''contentTypes'', JArr (map JStr (tr_types r))),
      (''contentCount'', JInt (int (length (tr_types r))))]"

definition summarizeMcpReceiptResult :: "tool_result \<Rightarrow> jsval" where
  "summarizeMcpReceiptResult r = JObj
     [(''kind'', JStr ''mcp''), (''isError'', JBool (tr_isError r)),
      (''contentTypes'', JArr (map (\<lambda>t. JStr (safeIdentifier t)) (take 20 (tr_types r)))),
      (''contentCount'', JInt (min (int (length (tr_types r))) 1000000))]"

definition is_execution_status :: "jsval \<Rightarrow> bool" where
  "is_execution_status v \<longleftrightarrow>
     v \<in> JStr ` set [''completed'', ''failed'', ''timed_out'', ''cancelled'', ''output_overflow'']"

definition is_verification_status :: "jsval \<Rightarrow> bool" where
  "is_verification_status v \<longleftrightarrow> v \<in> JStr ` set [''verified'', ''failed'', ''limited'']"

definition is_known_install_file :: "jsval \<Rightarrow> bool" where
  "is_known_install_file v \<longleftrightarrow> v \<in> JStr ` set [''package.json'', ''package-lock.json'', ''npm-shrinkwrap.json'']"

definition is_external_read_status :: "jsval \<Rightarrow> bool" where
  "is_external_read_status v \<longleftrightarrow> v \<in> JStr ` set [''not_started'', ''started'', ''validated'', ''incomplete'']"

definition is_cleanup_status :: "jsval \<Rightarrow> bool" where
  "is_cleanup_status v \<longleftrightarrow> v \<in> JStr ` set [''not_needed'', ''complete'', ''quarantined'', ''incomplete'']"

definition is_terminal_audit_status :: "jsval \<Rightarrow> bool" where
  "is_terminal_audit_status v \<longleftrightarrow> v \<in> JStr ` set [''complete'', ''failed'', ''unknown'']"

definition is_receipt_digest :: "jsval \<Rightarrow> bool" where
  "is_receipt_digest v = str_ok is_digest v"

text \<open>\<open>Number.isInteger\<close>: a number beyond the safe integers is an integer unless its text has a fraction.\<close>

fun is_integer_value :: "jsval \<Rightarrow> bool" where
  "is_integer_value (JNum (NInt i)) = True"
| "is_integer_value (JNum (NDec t)) = (includes_text ''e+'' t \<or> list_all (\<lambda>c. is_digit c \<or> c = CHR ''-'') t)"
| "is_integer_value _ = False"

definition is_number :: "jsval \<Rightarrow> bool" where
  "is_number v = (case v of JNum _ \<Rightarrow> True | _ \<Rightarrow> False)"

definition if_prop :: "bool \<Rightarrow> string \<Rightarrow> jsval \<Rightarrow> (string \<times> jsval) list" where
  "if_prop b k v = (if b then [(k, v)] else [])"

definition bounded_int :: "int \<Rightarrow> jsval \<Rightarrow> bool" where
  "bounded_int hi v = int_ok 0 (min hi max_safe) v"

definition summarizeInstallReceiptResult :: "jsval \<Rightarrow> bool \<Rightarrow> jsval" where
  "summarizeInstallReceiptResult summary isError =
     (let out = at summary ''output''; ver = at summary ''verification'' in JObj
       ([(''kind'', JStr ''install''), (''isError'', JBool isError)]
        @ if_prop (is_execution_status (at summary ''status'')) ''executionStatus'' (at summary ''status'')
        @ if_prop (is_integer_value (at summary ''exitCode'') \<or> at summary ''exitCode'' = JNull)
            ''exitCode'' (at summary ''exitCode'')
        @ if_prop (bounded_int 86400000 (at summary ''durationMs'')) ''durationMs'' (at summary ''durationMs'')
        @ if_prop (bounded_int max_safe (at out ''stdoutBytes'')) ''stdoutBytes'' (at out ''stdoutBytes'')
        @ if_prop (bounded_int max_safe (at out ''stderrBytes'')) ''stderrBytes'' (at out ''stderrBytes'')
        @ if_prop (is_bool (at out ''truncated'')) ''outputTruncated'' (at out ''truncated'')
        @ if_prop (is_verification_status (at ver ''status'')) ''verificationStatus'' (at ver ''status'')
        @ if_prop (is_bool (at ver ''exactPackageVersionObserved'')) ''exactPackageVersionObserved''
            (at ver ''exactPackageVersionObserved'')
        @ if_prop (is_bool (at ver ''approvedIntegrityObserved'')) ''approvedIntegrityObserved''
            (at ver ''approvedIntegrityObserved'')
        @ if_prop (is_arr (at ver ''changedFiles'')) ''changedFiles''
            (JArr (take 3 (filter is_known_install_file (items (at ver ''changedFiles'')))))
        @ if_prop (is_arr (at ver ''reasonCodes'')) ''verificationReasonCodes''
            (JArr (take 100 (map (\<lambda>v. JStr (safeReasonCode (text_of_str v)))
              (filter (str_ok (\<lambda>_. True)) (items (at ver ''reasonCodes''))))))))"

definition summarizeGraphGenesisResult :: "jsval \<Rightarrow> bool \<Rightarrow> jsval" where
  "summarizeGraphGenesisResult summary isError =
     (let proc = at summary ''process''; meta = at summary ''metadata''; cand = at summary ''candidate'';
          clean = at summary ''cleanup''; audit = at summary ''terminalAudit'' in JObj
       ([(''kind'', JStr ''graph_genesis''), (''isError'', JBool isError)]
        @ if_prop (is_external_read_status (at meta ''externalReadStatus'')) ''externalReadStatus''
            (at meta ''externalReadStatus'')
        @ if_prop (bounded_int 512 (at meta ''requestCount'')) ''metadataRequestCount'' (at meta ''requestCount'')
        @ if_prop (bounded_int 256 (at meta ''uniquePackageCount'')) ''metadataUniquePackageCount''
            (at meta ''uniquePackageCount'')
        @ if_prop (bounded_int 134217728 (at meta ''responseBytes'')) ''metadataResponseBytes'' (at meta ''responseBytes'')
        @ if_prop (is_execution_status (at proc ''status'')) ''executionStatus'' (at proc ''status'')
        @ if_prop (is_number (at proc ''exitCode'') \<or> at proc ''exitCode'' = JNull) ''exitCode'' (at proc ''exitCode'')
        @ if_prop (bounded_int max_safe (at proc ''stdoutBytes'')) ''stdoutBytes'' (at proc ''stdoutBytes'')
        @ if_prop (bounded_int max_safe (at proc ''stderrBytes'')) ''stderrBytes'' (at proc ''stderrBytes'')
        @ if_prop (is_receipt_digest (at cand ''lockDigest'')) ''lockDigest'' (at cand ''lockDigest'')
        @ if_prop (is_receipt_digest (at cand ''candidateDigest'')) ''candidateDigest'' (at cand ''candidateDigest'')
        @ if_prop (is_receipt_digest (at cand ''artifactDigest'')) ''candidateArtifactDigest'' (at cand ''artifactDigest'')
        @ if_prop (is_cleanup_status (at clean ''status'')) ''cleanupStatus'' (at clean ''status'')
        @ if_prop (is_receipt_digest (at clean ''quarantineReferenceDigest'')) ''quarantineReferenceDigest''
            (at clean ''quarantineReferenceDigest'')
        @ if_prop (is_terminal_audit_status (at audit ''status'')) ''terminalAuditStatus'' (at audit ''status'')
        @ if_prop (str_ok (\<lambda>_. True) (at summary ''errorCode'')) ''errorCode''
            (JStr (safeReasonCode (text_of_str (at summary ''errorCode''))))))"

definition summarizeExecutionReceiptResult :: "receipt_context \<Rightarrow> jsval \<Rightarrow> bool \<Rightarrow> jsval" where
  "summarizeExecutionReceiptResult c summary isError =
     (if rc_boundary c \<noteq> Graph_genesis_plan then summarizeInstallReceiptResult summary isError
      else summarizeGraphGenesisResult summary isError)"

definition assertGraphGenesisExecutionSummary :: "jsval \<Rightarrow> string \<Rightarrow> audit_error + unit" where
  "assertGraphGenesisExecutionSummary summary terminalStatus =
     (let ob = summarizeGraphGenesisResult summary (terminalStatus \<noteq> ''completed'') in
      if at ob ''externalReadStatus'' = JUndef \<or> at ob ''executionStatus'' = JUndef
         \<or> at ob ''cleanupStatus'' = JUndef \<or> at ob ''terminalAuditStatus'' = JUndef
         \<or> at ob ''metadataRequestCount'' = JUndef \<or> at ob ''metadataUniquePackageCount'' = JUndef
         \<or> at ob ''metadataResponseBytes'' = JUndef \<or> at ob ''stdoutBytes'' = JUndef \<or> at ob ''stderrBytes'' = JUndef
        then Inl (Audit_error ''Graph Genesis terminal summary is incomplete or out of bounds'')
      else if terminalStatus = ''completed''
         \<and> (at ob ''externalReadStatus'' \<noteq> JStr ''validated'' \<or> at ob ''executionStatus'' \<noteq> JStr ''completed''
            \<or> at ob ''exitCode'' \<noteq> JInt 0 \<or> at ob ''lockDigest'' = JUndef \<or> at ob ''candidateDigest'' = JUndef
            \<or> at ob ''candidateArtifactDigest'' = JUndef \<or> at ob ''cleanupStatus'' \<noteq> JStr ''complete''
            \<or> at ob ''terminalAuditStatus'' \<noteq> JStr ''complete'')
        then Inl (Audit_error ''Graph Genesis success summary is not complete'')
      else if terminalStatus = ''incomplete_external_read''
         \<and> at ob ''externalReadStatus'' \<noteq> JStr ''started'' \<and> at ob ''externalReadStatus'' \<noteq> JStr ''incomplete''
        then Inl (Audit_error ''Incomplete external read status lacks external-read evidence'')
      else Inr ())"

fun receiptResultKind :: "boundary \<Rightarrow> string" where
  "receiptResultKind Install_guard_plan = ''install''"
| "receiptResultKind Graph_genesis_plan = ''graph_genesis''"
| "receiptResultKind Mcp_proxy_call = ''mcp''"
| "receiptResultKind Apg_local_control = ''generic''"

definition terminalStatusForFailure :: "string \<Rightarrow> string" where
  "terminalStatusForFailure why =
     (if why = ''upstream_error'' then ''upstream_error''
      else if why = ''cancelled'' then ''cancelled''
      else if includes_text ''audit_completion_failed'' why then ''audit_failed''
      else if why = ''incomplete_external_read'' then ''incomplete_external_read''
      else ''failed'')"

subsection \<open>Terminal operations\<close>

text \<open>
  The outcome receipt of a dispatched call; \<open>ready\<close> is what the code needs of the call's variables.
\<close>

definition ready :: "call_state \<Rightarrow> (jsval \<times> string \<times> string) option" where
  "ready s =
     (case (cs_dispatched s, cs_authorization s, cs_executionStartedAt s) of
        (True, Some (r, d), Some t) \<Rightarrow> Some (r, d, t) | _ \<Rightarrow> None)"

definition buildOutcome :: "audit_env \<Rightarrow> jsval \<times> string \<times> string \<Rightarrow> string \<Rightarrow> jsval \<Rightarrow> string \<Rightarrow> audit_error + jsval" where
  "buildOutcome E rdt terminalStatus observed now =
     createOutcomeReceipt (en_formats E)
       \<lparr>oi_receiptId = en_uuid E 0, oi_issuedAt = now, oi_authorization = fst rdt,
        oi_authorizationDigest = fst (snd rdt), oi_startedAt = snd (snd rdt),
        oi_terminalStatus = terminalStatus, oi_completedAt = Some now, oi_observedResult = Some observed\<rparr>"

definition markCompleted :: "audit_env \<Rightarrow> tool_result \<Rightarrow> call_state \<Rightarrow> audit_db \<Rightarrow> op_result" where
  "markCompleted E result s db =
     (if cs_terminal s then raise ''Audit call is already terminal'' s db
      else case ready s of
        None \<Rightarrow> raise ''Execution was not durably authorized'' s db
      | Some rdt \<Rightarrow>
          (let summary = summarizeResult result;
               status = (if tr_isError result then ''upstream_error'' else ''completed'') in
           case rbind (iso E 0) (buildOutcome E rdt status (summarizeMcpReceiptResult result)) of
             Inl e \<Rightarrow> (Inl e, s, db)
           | Inr out \<Rightarrow> commit_as E
               [finish E (cs_id s) status (cs_startedAt s) (en_tick E 0) (Some summary) None,
                appendEvent E 1 1 (cs_id s) ''execution_completed'' summary,
                append_receipt E 2 2 (cs_id s) ''outcome_receipt_finalized'' out]
               s (s\<lparr>cs_terminal := True\<rparr>) db))"

definition markExecutionResult :: "audit_env \<Rightarrow> jsval \<Rightarrow> bool \<Rightarrow> call_state \<Rightarrow> audit_db \<Rightarrow> op_result" where
  "markExecutionResult E summary isError s db =
     (if cs_terminal s then raise ''Audit call is already terminal'' s db
      else case ready s of
        None \<Rightarrow> raise ''Execution was not durably authorized'' s db
      | Some rdt \<Rightarrow>
          if rc_boundary (cs_context s) = Graph_genesis_plan
            then raise ''Graph Genesis requires the closed terminal API'' s db
          else (let redacted = redactForAudit summary;
                    status = (if isError then ''execution_error'' else ''completed'') in
           case rbind (iso E 0) (buildOutcome E rdt status
                  (summarizeExecutionReceiptResult (cs_context s) summary isError)) of
             Inl e \<Rightarrow> (Inl e, s, db)
           | Inr out \<Rightarrow> commit_as E
               [finish E (cs_id s) status (cs_startedAt s) (en_tick E 0) (Some redacted) None,
                appendEvent E 1 1 (cs_id s) ''execution_completed'' redacted,
                append_receipt E 2 2 (cs_id s) ''outcome_receipt_finalized'' out]
               s (s\<lparr>cs_terminal := True\<rparr>) db))"

definition finalizeGraphGenesisOutcome :: "audit_env \<Rightarrow> jsval \<Rightarrow> string \<Rightarrow> call_state \<Rightarrow> audit_db \<Rightarrow> op_result" where
  "finalizeGraphGenesisOutcome E summary terminalStatus s db =
     (if cs_terminal s then raise ''Audit call is already terminal'' s db
      else if rc_boundary (cs_context s) \<noteq> Graph_genesis_plan
        then raise ''Graph Genesis terminal API requires the Graph Genesis boundary'' s db
      else case ready s of
        None \<Rightarrow> raise ''Execution was not durably authorized'' s db
      | Some rdt \<Rightarrow>
          (let redacted = redactForAudit summary; isError = (terminalStatus \<noteq> ''completed'') in
           case rbind (assertGraphGenesisExecutionSummary summary terminalStatus) (\<lambda>_.
                  rbind (iso E 0) (buildOutcome E rdt terminalStatus
                    (summarizeExecutionReceiptResult (cs_context s) summary isError))) of
             Inl e \<Rightarrow> (Inl e, s, db)
           | Inr out \<Rightarrow> commit_as E
               [finish E (cs_id s) terminalStatus (cs_startedAt s) (en_tick E 0) (Some redacted)
                  (case at summary ''errorCode'' of JStr c \<Rightarrow> Some c | _ \<Rightarrow> None),
                \<lambda>db. rbind (receiptDigest out) (\<lambda>d. appendEvent E 1 1 (cs_id s)
                  (if terminalStatus = ''completed'' then ''graph_genesis_complete'' else ''graph_genesis_incomplete'')
                  (JObj [plan_hash_prop s, (''terminalStatus'', JStr terminalStatus),
                         (''outcomeReceiptDigest'', JStr d)]) db),
                appendEvent E 2 2 (cs_id s) ''execution_completed'' redacted,
                append_receipt E 3 3 (cs_id s) ''outcome_receipt_finalized'' out]
               s (s\<lparr>cs_terminal := True\<rparr>) db))"

text \<open>
  \<open>markFailed\<close>: after dispatch it issues an outcome; before, an authorization receipt that says
  the action failed, unless one exists already.  Random identifiers: 0 for the authorization,
  1 for the outcome, then the events.
\<close>

definition failed_approval :: "receipt_approval \<Rightarrow> string \<Rightarrow> receipt_approval" where
  "failed_approval a why =
     (if ap_required a \<and> (ap_outcome a = Not_requested \<or> ap_outcome a = Pending)
         \<and> includes_text ''approval_unavailable'' why
      then a\<lparr>ap_outcome := Unavailable\<rparr> else a)"

definition failure_authorization :: "audit_env \<Rightarrow> string \<Rightarrow> call_state \<Rightarrow> string \<Rightarrow> audit_error + jsval \<times> string" where
  "failure_authorization E why s now =
     (case cs_authorization s of
        Some rd \<Rightarrow> Inr rd
      | None \<Rightarrow> buildAuthorization E s (if cs_dispatched s then Authorized else Failed_pre_dispatch)
                  (if cs_dispatched s then ''dispatch_recorded'' else why) now)"

definition failure_outcome :: "audit_env \<Rightarrow> string \<Rightarrow> call_state \<Rightarrow> jsval \<times> string \<Rightarrow> string \<Rightarrow> audit_error + jsval option" where
  "failure_outcome E why s rd now =
     (if cs_dispatched s \<and> cs_executionStartedAt s \<noteq> None
      then rbind (buildOutcome (E\<lparr>en_uuid := (\<lambda>k. en_uuid E (k + 1))\<rparr>)
             (fst rd, snd rd, the (cs_executionStartedAt s)) (terminalStatusForFailure why)
             (JObj [(''kind'', JStr (receiptResultKind (rc_boundary (cs_context s)))), (''isError'', JBool True),
                    (''errorCode'', JStr (safeReasonCode why))]) now) (\<lambda>r. Inr (Some r))
      else Inr None)"

definition markFailed :: "audit_env \<Rightarrow> string \<Rightarrow> call_state \<Rightarrow> audit_db \<Rightarrow> op_result" where
  "markFailed E why s0 db =
     (if cs_terminal s0 then (Inr (), s0, db)
      else let s = s0\<lparr>cs_approval := failed_approval (cs_approval s0) why\<rparr> in
      case rbind (iso E 0) (\<lambda>now. rbind (failure_authorization E why s now) (\<lambda>rd.
             rbind (failure_outcome E why s rd now) (\<lambda>out. Inr (rd, out)))) of
        Inl e \<Rightarrow> (Inl e, s, db)
      | Inr (rd, out) \<Rightarrow> commit_as E
          ([finish E (cs_id s) ''failed'' (cs_startedAt s) (en_tick E 0) None (Some why)]
           @ (if rc_boundary (cs_context s) = Graph_genesis_plan
              then [appendEvent E 2 1 (cs_id s) ''graph_genesis_incomplete'' (JObj [plan_hash_prop s, (''code'', JStr why)])]
              else [])
           @ [appendEvent E 3 2 (cs_id s) ''execution_failed'' (JObj [(''code'', JStr why)])]
           @ (case cs_authorization s of
                None \<Rightarrow> [appendEvent E 4 3 (cs_id s) ''authorization_receipt_finalized'' (receipt_details (fst rd) (snd rd))]
              | Some _ \<Rightarrow> [])
           @ (case out of
                None \<Rightarrow> []
              | Some r \<Rightarrow> [append_receipt E 5 4 (cs_id s) ''outcome_receipt_finalized'' r]))
          s (s\<lparr>cs_authorization := Some rd, cs_terminal := True\<rparr>) db)"

definition is_evidence_type :: "string \<Rightarrow> bool" where
  "is_evidence_type t \<longleftrightarrow>
     starts_with ''graph_genesis_'' t
     \<and> (let r = drop 14 t in 1 \<le> length r \<and> length r \<le> 64
          \<and> list_all (\<lambda>c. is_lower c \<or> is_digit c \<or> c = CHR ''_'') r)"

definition appendEvidence :: "audit_env \<Rightarrow> string \<Rightarrow> jsval \<Rightarrow> call_state \<Rightarrow> audit_db \<Rightarrow> op_result" where
  "appendEvidence E type details s db =
     (if cs_terminal s then raise ''Audit call is already terminal'' s db
      else if \<not> is_evidence_type type then raise ''Graph Genesis evidence event type is invalid'' s db
      else let safe = redactForAudit details in
      if 65536 < utf8_length (canonicalJson safe)
        then raise ''Graph Genesis evidence event exceeds the size limit'' s db
      else commit_as E [appendEvent E 0 0 (cs_id s) type safe] s s db)"

end
