(* ===== verification/HashChain.thy ===== *)
theory HashChain
  imports Sha256 Recorder
begin

section \<open>Tamper evidence of the event log\<close>

text \<open>
  A hash chain as an interface: \<open>link p x\<close> is the hash of entry \<open>x\<close> after the hash \<open>p\<close>;
  \<open>good\<close> holds of hashes, and two links agree only on the same entry after the same hash,
  unless their inputs collide.  A list of entries with their hashes is linked from \<open>h\<close> when
  every hash is the link of its entry to the hash before.
\<close>

locale hash_chain =
  fixes link :: "string \<Rightarrow> string \<Rightarrow> string"
    and good :: "string \<Rightarrow> bool"
    and bad :: "string \<times> string \<Rightarrow> string \<times> string \<Rightarrow> bool"
  assumes link_good: "good (link p x)"
    and link_inj: "good p \<Longrightarrow> good q \<Longrightarrow> link p x = link q y \<Longrightarrow> (p = q \<and> x = y) \<or> bad (p, x) (q, y)"
begin

fun linked :: "string \<Rightarrow> (string \<times> string) list \<Rightarrow> bool" where
  "linked h [] = True"
| "linked h ((x, k) # es) = (k = link h x \<and> linked k es)"

fun tip :: "string \<Rightarrow> (string \<times> string) list \<Rightarrow> string" where
  "tip h [] = h"
| "tip h ((x, k) # es) = tip k es"

fun inputs :: "string \<Rightarrow> (string \<times> string) list \<Rightarrow> (string \<times> string) list" where
  "inputs h [] = []"
| "inputs h ((x, k) # es) = (h, x) # inputs k es"

lemma linked_append: "linked h (es @ fs) \<longleftrightarrow> linked h es \<and> linked (tip h es) fs"
  by (induction h es rule: linked.induct) auto

lemma tip_append: "tip h (es @ fs) = tip (tip h es) fs"
  by (induction h es rule: tip.induct) auto

lemma inputs_append: "inputs h (es @ fs) = inputs h es @ inputs (tip h es) fs"
  by (induction h es rule: tip.induct) auto

lemma tip_good: "good h \<Longrightarrow> linked h es \<Longrightarrow> good (tip h es)"
  by (induction h es rule: linked.induct) (auto simp: link_good)

text \<open>
  Two chains from the same start with the same tip are the same, or two of their inputs
  collide, or one of them runs back into its own start.
\<close>

lemma same_tip_same_chain:
  assumes "good h"
  shows "linked h es \<Longrightarrow> linked h fs \<Longrightarrow> tip h es = tip h fs \<Longrightarrow>
    es = fs \<or> (\<exists>a \<in> set (inputs h es). \<exists>b \<in> set (inputs h fs). bad a b)
    \<or> (\<exists>e \<in> set es \<union> set fs. snd e = h)"
proof (induction es arbitrary: fs rule: rev_induct)
  case Nil
  show ?case
  proof (cases fs rule: rev_cases)
    case (snoc gs g)
    obtain y k where g: "g = (y, k)" by fastforce
    with snoc Nil show ?thesis by (auto simp: tip_append)
  qed simp
next
  case (snoc e es)
  obtain x j where e: "e = (x, j)" by fastforce
  with snoc.prems have le: "linked h es" "j = link (tip h es) x" by (simp_all add: linked_append)
  show ?case
  proof (cases fs rule: rev_cases)
    case Nil
    with snoc.prems e show ?thesis by (auto simp: tip_append)
  next
    case f: (snoc gs g)
    obtain y k where g: "g = (y, k)" by fastforce
    with f snoc.prems have lf: "linked h gs" "k = link (tip h gs) y" by (simp_all add: linked_append)
    have "link (tip h es) x = link (tip h gs) y"
      using snoc.prems(3) e f g le lf by (simp add: tip_append)
    from link_inj [OF tip_good [OF assms le(1)] tip_good [OF assms lf(1)] this]
    consider "tip h es = tip h gs" "x = y" | "bad (tip h es, x) (tip h gs, y)" by blast
    then show ?thesis
    proof cases
      case 1
      from snoc.IH [OF le(1) lf(1) 1(1)] 1 e f g le lf show ?thesis
        by (auto simp: inputs_append)
    next
      case 2
      then show ?thesis using e f g by (auto simp: inputs_append)
    qed
  qed
qed

end

subsection \<open>The log of the recorder\<close>

definition hash_ok :: "string \<Rightarrow> bool" where
  "hash_ok h \<longleftrightarrow> length h = 64"

definition chain_text :: "string \<times> string \<Rightarrow> string" where
  "chain_text a = fst a @ newline @ snd a"

lemma hash_length: "length (sha256 s) = 64"
  using sha256_is_hash [of s] by (simp add: is_hash_def)

interpretation ev: hash_chain chain_hash hash_ok "\<lambda>a b. collision (chain_text a) (chain_text b)"
proof
  show "hash_ok (chain_hash p x)" for p x
    by (simp add: hash_ok_def chain_hash_def hash_length)
next
  fix p q x y assume p: "hash_ok p" "hash_ok q" "chain_hash p x = chain_hash q y"
  have "chain_text (p, x) = chain_text (q, y) \<or> collision (chain_text (p, x)) (chain_text (q, y))"
    using p(3) sha256_eq_cases by (auto simp: chain_hash_def chain_text_def)
  moreover have "chain_text (p, x) = chain_text (q, y) \<Longrightarrow> p = q \<and> x = y"
    using p(1,2) by (simp add: chain_text_def hash_ok_def)
  ultimately show "(p = q \<and> x = y) \<or> collision (chain_text (p, x)) (chain_text (q, y))" by blast
qed

definition entries :: "event_row list \<Rightarrow> (string \<times> string) list" where
  "entries es = map (\<lambda>e. (er_json e, er_hash e)) es"

definition hashed_texts :: "event_row list \<Rightarrow> string set" where
  "hashed_texts es = (\<lambda>e. chain_text (er_previous e, er_json e)) ` set es"

lemma verify_from_linked: "verify_from h es \<Longrightarrow> ev.linked h (entries es)"
  by (induction h es rule: verify_from.induct) (auto simp: entries_def split: if_splits)

lemma tip_entries: "ev.tip h (entries es) = (if es = [] then h else er_hash (last es))"
  by (induction es arbitrary: h) (auto simp: entries_def)

lemma verify_from_inputs:
  "verify_from h es \<Longrightarrow> ev.inputs h (entries es) = map (\<lambda>e. (er_previous e, er_json e)) es"
  by (induction h es rule: verify_from.induct) (auto simp: entries_def split: if_splits)

lemma inputs_texts:
  assumes "verify_from h es" "a \<in> set (ev.inputs h (entries es))"
  shows "chain_text a \<in> hashed_texts es"
  using assms by (auto simp: verify_from_inputs hashed_texts_def)

lemma verified_previous_eq:
  "verify_from h es \<Longrightarrow> verify_from h fs \<Longrightarrow> entries es = entries fs \<Longrightarrow>
     map (\<lambda>e. (er_previous e, er_json e, er_hash e)) es = map (\<lambda>e. (er_previous e, er_json e, er_hash e)) fs"
  by (induction h es arbitrary: fs rule: verify_from.induct)
     (auto simp: entries_def Cons_eq_map_conv split: if_splits)

lemma genesis_ok: "hash_ok genesis_hash"
  by (simp add: hash_ok_def genesis_hash_def)

text \<open>
  C4: the log is tamper-evident.  Two logs that both verify and end in the same hash hold
  the same event texts in the same order with the same hashes; otherwise two different
  hashed texts of them have the same SHA-256, or some event hashes to 64 zeros, the start of
  the chain.
\<close>

theorem hash_chain_tamper_evident:
  assumes "verifyHashChain a" "verifyHashChain b" "chain_tail (db_events a) = chain_tail (db_events b)"
  shows "map (\<lambda>e. (er_previous e, er_json e, er_hash e)) (db_events a)
           = map (\<lambda>e. (er_previous e, er_json e, er_hash e)) (db_events b)
    \<or> (\<exists>s \<in> hashed_texts (db_events a). \<exists>t \<in> hashed_texts (db_events b). collision s t)
    \<or> (\<exists>e \<in> set (db_events a) \<union> set (db_events b). er_hash e = genesis_hash)"
proof -
  let ?a = "db_events a" and ?b = "db_events b"
  have v: "verify_from genesis_hash ?a" "verify_from genesis_hash ?b"
    using assms by (simp_all add: verifyHashChain_def)
  have "ev.tip genesis_hash (entries ?a) = ev.tip genesis_hash (entries ?b)"
    using assms(3) by (simp add: tip_entries chain_tail_def)
  from ev.same_tip_same_chain [OF genesis_ok verify_from_linked [OF v(1)] verify_from_linked [OF v(2)] this]
  consider "entries ?a = entries ?b"
    | x y where "x \<in> set (ev.inputs genesis_hash (entries ?a))" "y \<in> set (ev.inputs genesis_hash (entries ?b))"
        "collision (chain_text x) (chain_text y)"
    | e where "e \<in> set (entries ?a) \<union> set (entries ?b)" "snd e = genesis_hash" by blast
  then show ?thesis
  proof cases
    case 1
    then show ?thesis using verified_previous_eq [OF v] by blast
  next
    case 2
    then show ?thesis using inputs_texts [OF v(1)] inputs_texts [OF v(2)] by blast
  next
    case 3
    then show ?thesis by (auto simp: entries_def)
  qed
qed

definition demo_event :: event_row where
  "demo_event = \<lparr>er_sequence = 1, er_id = ''e'', er_call = ''c'', er_type = ''t'', er_json = ''{}'',
     er_previous = genesis_hash, er_hash = chain_hash genesis_hash ''{}'', er_createdAt = ''x''\<rparr>"

theorem hash_chain_tamper_evident_witness:
  "\<exists>a b. a \<noteq> b \<and> verifyHashChain a \<and> verifyHashChain b
     \<and> (map (\<lambda>e. (er_previous e, er_json e, er_hash e)) (db_events a)
           = map (\<lambda>e. (er_previous e, er_json e, er_hash e)) (db_events b)
        \<or> (\<exists>s \<in> hashed_texts (db_events a). \<exists>t \<in> hashed_texts (db_events b). collision s t)
        \<or> (\<exists>e \<in> set (db_events a) \<union> set (db_events b). er_hash e = genesis_hash))"
proof -
  let ?a = "\<lparr>db_calls = [], db_approvals = [], db_events = [demo_event]\<rparr>"
  let ?b = "\<lparr>db_calls = [], db_approvals = [], db_events = [demo_event\<lparr>er_type := ''u''\<rparr>]\<rparr>"
  have v: "verifyHashChain ?a" "verifyHashChain ?b"
    by (simp_all add: verifyHashChain_def demo_event_def)
  have t: "chain_tail (db_events ?a) = chain_tail (db_events ?b)"
    by (simp add: chain_tail_def demo_event_def)
  have "?a \<noteq> ?b" by (simp add: demo_event_def)
  note conjI [OF this conjI [OF v(1) conjI [OF v(2) hash_chain_tamper_evident [OF v t]]]]
  then show ?thesis by (intro exI)
qed

end
