(* ===== verification/Lifecycle.thy ===== *)
theory Lifecycle
  imports HashChain
begin

section \<open>The life of an audited call\<close>

text \<open>
  An abstract specification of one call and the proof that the recorder implements it.  Of
  the events of a call, three are milestones: the authorization receipt, the start of the
  execution and the outcome receipt.  The abstract life of a call is three bits; the log of
  the call shows exactly the milestones its bits say, in that order.
\<close>

subsection \<open>Specification\<close>

record life =
  lf_authorized :: bool
  lf_started :: bool
  lf_closed :: bool

definition AUTH :: string where "AUTH = ''authorization_receipt_finalized''"
definition START :: string where "START = ''execution_start_recorded''"
definition OUTCOME :: string where "OUTCOME = ''outcome_receipt_finalized''"

definition is_milestone :: "string \<Rightarrow> bool" where
  "is_milestone t \<longleftrightarrow> t = AUTH \<or> t = START \<or> t = OUTCOME"

definition log_of :: "life \<Rightarrow> string list" where
  "log_of l = (if lf_authorized l then [AUTH] else []) @ (if lf_started l then [START] else [])
     @ (if lf_started l \<and> lf_closed l then [OUTCOME] else [])"

definition life_ok :: "life \<Rightarrow> bool" where
  "life_ok l \<longleftrightarrow> (lf_started l \<longrightarrow> lf_authorized l) \<and> (lf_closed l \<longrightarrow> lf_authorized l)"

inductive life_step :: "life \<Rightarrow> life \<Rightarrow> bool" where
  life_stay: "life_step l l"
| life_authorize: "\<not> lf_closed l \<Longrightarrow> \<not> lf_authorized l \<Longrightarrow> life_step l (l\<lparr>lf_authorized := True\<rparr>)"
| life_start: "\<not> lf_closed l \<Longrightarrow> \<not> lf_started l \<Longrightarrow>
     life_step l (l\<lparr>lf_authorized := True, lf_started := True\<rparr>)"
| life_close: "\<not> lf_closed l \<Longrightarrow> life_step l (l\<lparr>lf_authorized := True, lf_closed := True\<rparr>)"

inductive_cases life_stepE: "life_step l m"

lemma life_step_ok: "life_step l m \<Longrightarrow> life_ok l \<Longrightarrow> life_ok m"
  by (erule life_stepE) (auto simp: life_ok_def)

text \<open>The log of a call only grows, and a closed call stays as it is.\<close>

lemma life_step_log:
  "life_step l m \<Longrightarrow> life_ok l \<Longrightarrow> \<exists>ts. log_of m = log_of l @ ts"
  by (erule life_stepE) (auto simp: life_ok_def log_of_def)

lemma life_closed: "life_step l m \<Longrightarrow> lf_closed l \<Longrightarrow> m = l"
  by (erule life_stepE) auto

subsection \<open>What a transaction adds\<close>

text \<open>\<open>appends db db' i ts\<close>: \<open>db'\<close> has the events of \<open>db\<close> and after them new ones of call \<open>i\<close>
  with the types \<open>ts\<close>, correctly linked and numbered, and the same calls.\<close>

definition appends :: "audit_db \<Rightarrow> audit_db \<Rightarrow> string \<Rightarrow> string list \<Rightarrow> bool" where
  "appends db db' i ts \<longleftrightarrow>
     (\<exists>es. db_events db' = db_events db @ es \<and> map er_type es = ts \<and> (\<forall>e \<in> set es. er_call e = i)
       \<and> verify_from (chain_tail (db_events db)) es
       \<and> map er_sequence es = [length (db_events db) + 1..<length (db_events db) + 1 + length es]
       \<and> (distinct (map er_id (db_events db)) \<longrightarrow> distinct (map er_id (db_events db'))))
     \<and> map cr_id (db_calls db') = map cr_id (db_calls db)"

lemma appends_refl: "appends db db i []"
  by (auto simp: appends_def)

lemma chain_tail_append: "chain_tail (es @ fs) = (if fs = [] then chain_tail es else er_hash (last fs))"
  by (simp add: chain_tail_def)

lemma verify_from_append:
  "verify_from h (es @ fs) \<longleftrightarrow> verify_from h es \<and> verify_from (if es = [] then h else er_hash (last es)) fs"
  by (induction es arbitrary: h) auto

lemma appends_trans:
  assumes "appends a b i ts" "appends b c i us"
  shows "appends a c i (ts @ us)"
proof -
  obtain es where es: "db_events b = db_events a @ es" "map er_type es = ts" "\<forall>e \<in> set es. er_call e = i"
    "verify_from (chain_tail (db_events a)) es"
    "map er_sequence es = [length (db_events a) + 1..<length (db_events a) + 1 + length es]"
    "distinct (map er_id (db_events a)) \<longrightarrow> distinct (map er_id (db_events b))"
    using assms(1) by (auto simp: appends_def)
  obtain fs where fs: "db_events c = db_events b @ fs" "map er_type fs = us" "\<forall>e \<in> set fs. er_call e = i"
    "verify_from (chain_tail (db_events b)) fs"
    "map er_sequence fs = [length (db_events b) + 1..<length (db_events b) + 1 + length fs]"
    "distinct (map er_id (db_events b)) \<longrightarrow> distinct (map er_id (db_events c))"
    using assms(2) by (auto simp: appends_def)
  have "verify_from (chain_tail (db_events a)) (es @ fs)"
    using es fs by (auto simp: verify_from_append chain_tail_append split: if_splits)
  moreover have "map er_sequence (es @ fs) = [length (db_events a) + 1..<length (db_events a) + 1 + length (es @ fs)]"
    using es(1,5) fs(5) upt_add_eq_append [of "length (db_events a) + 1" "length (db_events a) + 1 + length es" "length fs"]
    by (simp add: add.assoc)
  ultimately show ?thesis
    using es fs assms unfolding appends_def by (intro conjI exI [of _ "es @ fs"]) auto
qed

lemma appendEvent_appends:
  assumes "appendEvent E u t i type details db = Inr db'"
  shows "appends db db' i [type]"
proof -
  obtain at' where at': "iso E t = Inr at'"
    using assms by (auto simp: appendEvent_def)
  define json where "json = canonicalJson (event_value (en_uuid E u) i type details at')"
  define e where "e = \<lparr>er_sequence = length (db_events db) + 1, er_id = en_uuid E u, er_call = i,
     er_type = type, er_json = json, er_previous = chain_tail (db_events db),
     er_hash = chain_hash (chain_tail (db_events db)) json, er_createdAt = at'\<rparr>"
  have "insert_event e db = Inr db'"
    using assms at' by (simp add: appendEvent_def Let_def e_def json_def)
  then have "db' = db\<lparr>db_events := db_events db @ [e]\<rparr>" "er_id e \<notin> set (map er_id (db_events db))"
    by (auto simp: insert_event_def split: if_splits)
  then show ?thesis
    unfolding appends_def by (intro conjI exI [of _ "[e]"]) (auto simp: e_def)
qed

definition silent :: "(audit_db \<Rightarrow> audit_error + audit_db) \<Rightarrow> bool" where
  "silent f \<longleftrightarrow> (\<forall>db db' i. f db = Inr db' \<longrightarrow> appends db db' i [])"

lemma map_call_appends: "(\<And>r. cr_id (f r) = cr_id r) \<Longrightarrow> appends db (map_call j f db) i []"
  by (auto simp: appends_def map_call_def o_def if_distrib cong: if_cong)

lemma silent_steps:
  "silent (updateStatus i st)" "silent (finish E i st a b sm er)" "silent (insert_approval row)"
  "silent (resolve_approval q i st t)"
proof -
  show "silent (updateStatus i st)"
    by (auto simp: silent_def updateStatus_def intro: map_call_appends)
  show "silent (finish E i st a b sm er)"
    by (auto simp: silent_def finish_def intro!: map_call_appends split: option.splits)
  show "silent (insert_approval row)"
    by (auto simp: silent_def insert_approval_def appends_def split: if_splits)
  show "silent (resolve_approval q i st t)"
    by (auto simp: silent_def resolve_approval_def Let_def appends_def split: if_splits)
qed

text \<open>The types a list of steps appends for call \<open>i\<close>.\<close>

inductive emits :: "string \<Rightarrow> (audit_db \<Rightarrow> audit_error + audit_db) list \<Rightarrow> string list \<Rightarrow> bool" for i where
  emits_Nil: "emits i [] []"
| emits_silent: "silent f \<Longrightarrow> emits i fs ts \<Longrightarrow> emits i (f # fs) ts"
| emits_event: "(\<And>db db'. f db = Inr db' \<Longrightarrow> appends db db' i [t]) \<Longrightarrow> emits i fs ts \<Longrightarrow> emits i (f # fs) (t # ts)"

lemma emits_append: "emits i fs ts \<Longrightarrow> emits i gs us \<Longrightarrow> emits i (fs @ gs) (ts @ us)"
  by (induction rule: emits.induct) (auto intro: emits.intros)

lemma emits_appends: "emits i fs ts \<Longrightarrow> foldM (\<lambda>f. f) fs db = Inr db' \<Longrightarrow> appends db db' i ts"
proof (induction arbitrary: db rule: emits.induct)
  case emits_Nil
  then show ?case by (simp add: appends_refl)
next
  case (emits_silent f fs ts)
  then obtain db1 where "f db = Inr db1" "foldM (\<lambda>f. f) fs db1 = Inr db'" by auto
  with emits_silent show ?case using appends_trans [of db db1 i "[]" db' ts] by (auto simp: silent_def)
next
  case (emits_event f t fs ts)
  then obtain db1 where "f db = Inr db1" "foldM (\<lambda>f. f) fs db1 = Inr db'" by auto
  with emits_event show ?case using appends_trans [of db db1 i "[t]" db' ts] by auto
qed

lemma emits_appendEvent: "emits i fs ts \<Longrightarrow> emits i (appendEvent E u t i type details # fs) (type # ts)"
  by (rule emits_event) (auto intro: appendEvent_appends)

lemma emits_append_receipt: "emits i fs ts \<Longrightarrow> emits i (append_receipt E u t i type r # fs) (type # ts)"
  by (rule emits_event) (auto simp: append_receipt_def intro: appendEvent_appends)

lemmas emits_rules = emits_Nil emits_appendEvent emits_append_receipt
  emits_silent [OF silent_steps(1)] emits_silent [OF silent_steps(2)]
  emits_silent [OF silent_steps(3)] emits_silent [OF silent_steps(4)]

lemma commit_as_cases:
  assumes "commit_as E fs s s' db = (r, s2, db')"
  obtains (failed) e where "r = Inl e" "s2 = s" "db' = db"
  | (committed) "r = Inr ()" "s2 = s'" "foldM (\<lambda>f. f) fs db = Inr db'" "en_commit E"
  using assms by (auto simp: commit_as_def transaction_def split: sum.splits if_splits)

subsection \<open>The recorder implements the life of a call\<close>

definition life_of :: "call_state \<Rightarrow> life" where
  "life_of s = \<lparr>lf_authorized = (cs_authorization s \<noteq> None), lf_started = cs_dispatched s, lf_closed = cs_terminal s\<rparr>"

lemma life_of_simps [simp]:
  "lf_authorized (life_of s) = (cs_authorization s \<noteq> None)" "lf_started (life_of s) = cs_dispatched s"
  "lf_closed (life_of s) = cs_terminal s"
  by (simp_all add: life_of_def)

datatype recorder_op =
    Op_authorized
  | Op_started
  | Op_forwarding
  | Op_approval_requested string string string
  | Op_approval_resolved string approval_state
  | Op_blocked block_status
  | Op_completed tool_result
  | Op_execution_result jsval bool
  | Op_finalize jsval string
  | Op_failed string
  | Op_evidence string jsval

fun apply_op :: "recorder_op \<Rightarrow> audit_env \<Rightarrow> call_state \<Rightarrow> audit_db \<Rightarrow> op_result" where
  "apply_op Op_authorized E s db = markAuthorized E s db"
| "apply_op Op_started E s db = markExecutionStarted E s db"
| "apply_op Op_forwarding E s db = markForwarding E s db"
| "apply_op (Op_approval_requested i a b) E s db = markApprovalRequested E i a b s db"
| "apply_op (Op_approval_resolved i x) E s db = markApprovalResolved E i x s db"
| "apply_op (Op_blocked b) E s db = markBlocked E b s db"
| "apply_op (Op_completed r) E s db = markCompleted E r s db"
| "apply_op (Op_execution_result v b) E s db = markExecutionResult E v b s db"
| "apply_op (Op_finalize v t) E s db = finalizeGraphGenesisOutcome E v t s db"
| "apply_op (Op_failed c) E s db = markFailed E c s db"
| "apply_op (Op_evidence t v) E s db = appendEvidence E t v s db"

text \<open>
  The variables of a call agree with each other: a dispatched call has its authorization and
  its start time, a closed call has an authorization, and outside Graph Genesis an
  authorization is only ever taken together with the dispatch or the end.
\<close>

definition call_ok :: "call_state \<Rightarrow> bool" where
  "call_ok s \<longleftrightarrow> life_ok (life_of s)
     \<and> (cs_dispatched s \<longleftrightarrow> cs_executionStartedAt s \<noteq> None)
     \<and> (cs_authorization s \<noteq> None \<and> rc_boundary (cs_context s) \<noteq> Graph_genesis_plan \<longrightarrow> cs_dispatched s \<or> cs_terminal s)"

text \<open>
  \<open>markBlocked\<close> does not ask whether the call was authorized already; only Graph Genesis calls
  can be authorized and not yet dispatched, so it is the one case set apart here.
\<close>

definition late_block :: "recorder_op \<Rightarrow> call_state \<Rightarrow> bool" where
  "late_block op s \<longleftrightarrow> (\<exists>b. op = Op_blocked b) \<and> cs_authorization s \<noteq> None"

definition op_effect :: "call_state \<Rightarrow> audit_db \<Rightarrow> call_state \<Rightarrow> audit_db \<Rightarrow> bool" where
  "op_effect s db s' db' \<longleftrightarrow>
     life_step (life_of s) (life_of s') \<and> call_ok s' \<and> cs_id s' = cs_id s \<and> cs_context s' = cs_context s
     \<and> cs_evaluation s' = cs_evaluation s
     \<and> (\<exists>ts. appends db db' (cs_id s) ts \<and> log_of (life_of s') = log_of (life_of s) @ filter is_milestone ts)"

lemma op_effect_none:
  "call_ok s \<Longrightarrow> op_effect s db s db"
  by (auto simp: op_effect_def intro: life_stay appends_refl exI [of _ "[]"])

lemma call_ok_approval [simp]: "call_ok (s\<lparr>cs_approval := a\<rparr>) = call_ok s"
  by (simp add: call_ok_def life_of_def)

lemma life_of_approval [simp]: "life_of (s\<lparr>cs_approval := a\<rparr>) = life_of s"
  by (simp add: life_of_def)

lemma op_effect_approval: "op_effect s db s' db' \<Longrightarrow> op_effect s db (s'\<lparr>cs_approval := a\<rparr>) db'"
  by (simp add: op_effect_def)

lemma op_effect_from_approval: "op_effect (s\<lparr>cs_approval := a\<rparr>) db s' db' = op_effect s db s' db'"
  by (simp add: op_effect_def)

lemma raise_effect: "raise m s db = (r, s', db') \<Longrightarrow> call_ok s \<Longrightarrow> op_effect s db s' db'"
  by (auto simp: raise_def intro: op_effect_none)

text \<open>The rule every operation is proved with: the transaction emits \<open>ts\<close>, whose milestones are those of the new life.\<close>

lemma commit_effect:
  assumes "commit_as E fs s0 s1 db = (r, s', db')" "emits (cs_id s) fs ts"
    "op_effect s db s0 db" "life_step (life_of s) (life_of s1)" "call_ok s1"
    "cs_id s1 = cs_id s" "cs_context s1 = cs_context s" "cs_evaluation s1 = cs_evaluation s"
    "log_of (life_of s1) = log_of (life_of s) @ filter is_milestone ts"
  shows "op_effect s db s' db'"
  using assms(1)
proof (cases rule: commit_as_cases)
  case committed
  then show ?thesis
    using assms(4-) emits_appends [OF assms(2) committed(3)] by (auto simp: op_effect_def)
qed (use assms(3) in simp)

lemma milestone_lit [simp]:
  "is_milestone ''authorization_receipt_finalized''" "is_milestone ''execution_start_recorded''"
  "is_milestone ''outcome_receipt_finalized''" "\<not> is_milestone ''graph_genesis_authorization_ready''"
  "\<not> is_milestone ''approval_requested''" "\<not> is_milestone ''execution_completed''"
  "\<not> is_milestone ''execution_failed''" "\<not> is_milestone ''graph_genesis_incomplete''"
  "\<not> is_milestone ''graph_genesis_complete''" "\<not> is_milestone ''decision_recorded''"
  by (simp_all add: is_milestone_def AUTH_def START_def OUTCOME_def)

lemma milestone_names [simp]:
  "\<not> is_milestone (block_name b)" "\<not> is_milestone (approval_event x)"
  by (cases b; simp add: is_milestone_def AUTH_def START_def OUTCOME_def)
     (cases x; simp add: approval_event_def is_milestone_def AUTH_def START_def OUTCOME_def)

lemma milestone_evidence: "is_evidence_type t \<Longrightarrow> \<not> is_milestone t"
  by (auto simp: is_evidence_type_def is_milestone_def AUTH_def START_def OUTCOME_def)

lemmas life_simps = log_of_def life_ok_def call_ok_def AUTH_def START_def OUTCOME_def

lemma authorized_effect:
  assumes "call_ok s" "markAuthorized E s db = (r, s', db')"
  shows "op_effect s db s' db'"
proof -
  consider "\<exists>m. raise m s db = (r, s', db')" | e where "(Inl e, s, db) = (r, s', db')"
    | q d where "rc_boundary (cs_context s) = Graph_genesis_plan" "\<not> cs_terminal s" "cs_authorization s = None"
        "commit_as E
          [updateStatus (cs_id s) ''authorized'',
           appendEvent E 1 1 (cs_id s) ''authorization_receipt_finalized'' (receipt_details q d),
           appendEvent E 2 2 (cs_id s) ''graph_genesis_authorization_ready'' (JObj [plan_hash_prop s])]
          s (s\<lparr>cs_authorization := Some (q, d)\<rparr>) db = (r, s', db')"
    using assms(2) unfolding markAuthorized_def
    by (auto simp del: not_None_eq split: if_splits sum.splits prod.splits)
  then show ?thesis
  proof cases
    case 3
    have "\<not> cs_dispatched s" using assms(1) 3 by (auto simp: life_simps)
    with 3 assms(1) show ?thesis
      by (intro commit_effect [OF 3(4) _ op_effect_none [OF assms(1)]])
         (auto intro!: emits_rules simp: life_simps life_of_def life_step.simps)
  qed (use assms(1) in \<open>auto intro: raise_effect op_effect_none\<close>)
qed

lemma started_effect:
  assumes "call_ok s" "markExecutionStarted E s db = (r, s', db')"
  shows "op_effect s db s' db'"
proof -
  consider "\<exists>m. raise m s db = (r, s', db')" | e where "(Inl e, s, db) = (r, s', db')"
    | q d t where "\<not> cs_terminal s" "\<not> cs_dispatched s" "cs_authorization s = Some (q, d)"
        "commit_as E
          [updateStatus (cs_id s) ''forwarding'',
           appendEvent E 1 1 (cs_id s) ''execution_start_recorded'' (digest_details d)]
          s (s\<lparr>cs_executionStartedAt := Some t, cs_dispatched := True\<rparr>) db = (r, s', db')"
    using assms(2) unfolding markExecutionStarted_def by (auto split: if_splits sum.splits option.splits bool.splits prod.splits)
  then show ?thesis
  proof cases
    case 3
    with assms(1) show ?thesis
      by (intro commit_effect [OF 3(4) _ op_effect_none [OF assms(1)]])
         (auto intro!: emits_rules simp: life_simps life_of_def life_step.simps)
  qed (use assms(1) in \<open>auto intro: raise_effect op_effect_none\<close>)
qed

lemma forwarding_effect:
  assumes "call_ok s" "markForwarding E s db = (r, s', db')"
  shows "op_effect s db s' db'"
proof -
  consider "\<exists>m. raise m s db = (r, s', db')" | e where "(Inl e, s, db) = (r, s', db')"
    | q d t where "\<not> cs_terminal s" "\<not> cs_dispatched s" "rc_boundary (cs_context s) \<noteq> Graph_genesis_plan"
        "commit_as E
          [updateStatus (cs_id s) ''forwarding'',
           appendEvent E 1 1 (cs_id s) ''authorization_receipt_finalized'' (receipt_details q d),
           appendEvent E 2 2 (cs_id s) ''execution_start_recorded'' (digest_details d)]
          s (s\<lparr>cs_authorization := Some (q, d), cs_executionStartedAt := Some t, cs_dispatched := True\<rparr>) db = (r, s', db')"
    using assms(2) unfolding markForwarding_def by (auto split: if_splits sum.splits prod.splits)
  then show ?thesis
  proof cases
    case 3
    then have "cs_authorization s = None" using assms(1) by (auto simp: call_ok_def simp del: not_None_eq)
    with 3 assms(1) show ?thesis
      by (intro commit_effect [OF 3(4) _ op_effect_none [OF assms(1)]])
         (auto intro!: emits_rules simp: life_simps life_of_def life_step.simps)
  qed (use assms(1) in \<open>auto intro: raise_effect op_effect_none\<close>)
qed

lemma requested_effect:
  assumes "call_ok s" "markApprovalRequested E i a b s db = (r, s', db')"
  shows "op_effect s db s' db'"
proof (cases "cs_terminal s")
  case True
  with assms show ?thesis by (auto simp: markApprovalRequested_def intro: raise_effect)
next
  case False
  note c = assms(2) [unfolded markApprovalRequested_def if_not_P [OF False]]
  show ?thesis
    using assms(1)
    by (intro commit_effect [OF c _ op_effect_none [OF assms(1)]]) (auto intro!: emits_rules life_stay)
qed

lemma resolved_effect:
  assumes "call_ok s" "markApprovalResolved E i x s db = (r, s', db')"
  shows "op_effect s db s' db'"
proof -
  consider "\<exists>m. raise m s db = (r, s', db')" | e where "(Inl e, s, db) = (r, s', db')"
    | t where "commit_as E
          [resolve_approval i (cs_id s) (approval_name x) t,
           updateStatus (cs_id s) (approval_event x),
           appendEvent E 0 1 (cs_id s) (approval_event x) (JObj [(''approvalId'', JStr i)])]
          s (s\<lparr>cs_approval := (cs_approval s)\<lparr>ap_required := True, ap_outcome := x,
               ap_requestId := Some i, ap_decidedAt := Some t,
               ap_principal := Local_dashboard_session\<rparr>\<rparr>) db = (r, s', db')"
    using assms(2) unfolding markApprovalResolved_def by (auto split: if_splits sum.splits)
  then show ?thesis
  proof cases
    case 3
    with assms(1) show ?thesis
      by (intro commit_effect [OF 3 _ op_effect_none [OF assms(1)]]) (auto intro!: emits_rules life_stay)
  qed (use assms(1) in \<open>auto intro: raise_effect op_effect_none\<close>)
qed

lemma blocked_effect:
  assumes "call_ok s" "markBlocked E b s db = (r, s', db')" "cs_authorization s = None"
  shows "op_effect s db s' db'"
proof -
  let ?s = "s\<lparr>cs_approval := blockedApproval (cs_approval s) b\<rparr>"
  consider "\<exists>m. raise m s db = (r, s', db')" | e where "(Inl e, ?s, db) = (r, s', db')"
    | q d where "\<not> cs_terminal s" "\<not> cs_dispatched s" "commit_as E
          [finish E (cs_id ?s) (block_name b) (cs_startedAt ?s) (en_tick E 0) None None,
           appendEvent E 1 1 (cs_id ?s) (block_name b) (JObj []),
           appendEvent E 2 2 (cs_id ?s) ''authorization_receipt_finalized'' (receipt_details q d)]
          ?s (?s\<lparr>cs_authorization := Some (q, d), cs_terminal := True\<rparr>) db = (r, s', db')"
    using assms(2) unfolding markBlocked_def Let_def by (auto split: if_splits sum.splits prod.splits)
  then show ?thesis
  proof cases
    case 3
    show ?thesis
      using assms 3
      by (intro commit_effect [OF 3(3) _ op_effect_approval [OF op_effect_none [OF assms(1)]]])
         (auto intro!: emits_rules simp: life_simps life_of_def life_step.simps)
  qed (use assms(1) in \<open>auto intro: raise_effect op_effect_none op_effect_approval\<close>)
qed

lemma ready_Some: "ready s = Some x \<Longrightarrow> cs_dispatched s \<and> cs_authorization s \<noteq> None"
  by (auto simp: ready_def split: bool.splits option.splits prod.splits)

text \<open>The three operations that end a dispatched call.\<close>

lemma closing_effect:
  assumes "call_ok s" "\<not> cs_terminal s" "ready s = Some x" "emits (cs_id s) fs ts"
    "filter is_milestone ts = [OUTCOME]" "commit_as E fs s (s\<lparr>cs_terminal := True\<rparr>) db = (r, s', db')"
  shows "op_effect s db s' db'"
  using assms ready_Some [OF assms(3)]
  by (intro commit_effect [OF assms(6,4) op_effect_none [OF assms(1)]])
     (auto simp: life_simps life_of_def life_step.simps)

lemma completed_effect:
  assumes "call_ok s" "markCompleted E res s db = (r, s', db')"
  shows "op_effect s db s' db'"
proof -
  let ?st = "if tr_isError res then ''upstream_error'' else ''completed''"
  consider "\<exists>m. raise m s db = (r, s', db')" | e where "(Inl e, s, db) = (r, s', db')"
    | rdt out where "\<not> cs_terminal s" "ready s = Some rdt" "commit_as E
          [finish E (cs_id s) ?st (cs_startedAt s) (en_tick E 0) (Some (summarizeResult res)) None,
           appendEvent E 1 1 (cs_id s) ''execution_completed'' (summarizeResult res),
           append_receipt E 2 2 (cs_id s) ''outcome_receipt_finalized'' out]
          s (s\<lparr>cs_terminal := True\<rparr>) db = (r, s', db')"
    using assms(2) unfolding markCompleted_def Let_def
    by (cases "cs_terminal s"; cases "ready s"; auto split: sum.splits)
  then show ?thesis
  proof cases
    case 3
    show ?thesis
      by (rule closing_effect [OF assms(1) 3(1,2) _ _ 3(3)]) (auto intro!: emits_rules simp: OUTCOME_def)
  qed (use assms(1) in \<open>auto intro: raise_effect op_effect_none\<close>)
qed

lemma result_effect:
  assumes "call_ok s" "markExecutionResult E v b s db = (r, s', db')"
  shows "op_effect s db s' db'"
proof -
  let ?st = "if b then ''execution_error'' else ''completed''"
  consider "\<exists>m. raise m s db = (r, s', db')" | e where "(Inl e, s, db) = (r, s', db')"
    | rdt out where "\<not> cs_terminal s" "ready s = Some rdt" "commit_as E
          [finish E (cs_id s) ?st (cs_startedAt s) (en_tick E 0) (Some (redactForAudit v)) None,
           appendEvent E 1 1 (cs_id s) ''execution_completed'' (redactForAudit v),
           append_receipt E 2 2 (cs_id s) ''outcome_receipt_finalized'' out]
          s (s\<lparr>cs_terminal := True\<rparr>) db = (r, s', db')"
    using assms(2) unfolding markExecutionResult_def Let_def
    by (cases "cs_terminal s"; cases "ready s"; cases "rc_boundary (cs_context s) = Graph_genesis_plan"; auto split: sum.splits)
  then show ?thesis
  proof cases
    case 3
    show ?thesis
      by (rule closing_effect [OF assms(1) 3(1,2) _ _ 3(3)]) (auto intro!: emits_rules simp: OUTCOME_def)
  qed (use assms(1) in \<open>auto intro: raise_effect op_effect_none\<close>)
qed

lemma emits_bind_event:
  "emits i fs ts \<Longrightarrow> emits i ((\<lambda>db. rbind x (\<lambda>d. appendEvent E u t i type (g d) db)) # fs) (type # ts)"
  by (rule emits_event) (auto intro: appendEvent_appends)

lemma finalize_effect:
  assumes "call_ok s" "finalizeGraphGenesisOutcome E v st s db = (r, s', db')"
  shows "op_effect s db s' db'"
proof -
  consider "\<exists>m. raise m s db = (r, s', db')" | e where "(Inl e, s, db) = (r, s', db')"
    | rdt out where "\<not> cs_terminal s" "ready s = Some rdt" "commit_as E
               [finish E (cs_id s) st (cs_startedAt s) (en_tick E 0) (Some (redactForAudit v))
                  (case at v ''errorCode'' of JStr c \<Rightarrow> Some c | _ \<Rightarrow> None),
                \<lambda>db. rbind (receiptDigest out) (\<lambda>d. appendEvent E 1 1 (cs_id s)
                  (if st = ''completed'' then ''graph_genesis_complete'' else ''graph_genesis_incomplete'')
                  (JObj [plan_hash_prop s, (''terminalStatus'', JStr st),
                         (''outcomeReceiptDigest'', JStr d)]) db),
                appendEvent E 2 2 (cs_id s) ''execution_completed'' (redactForAudit v),
                append_receipt E 3 3 (cs_id s) ''outcome_receipt_finalized'' out]
               s (s\<lparr>cs_terminal := True\<rparr>) db = (r, s', db')"
    using assms(2) unfolding finalizeGraphGenesisOutcome_def Let_def
    by (cases "cs_terminal s"; cases "ready s"; cases "rc_boundary (cs_context s) \<noteq> Graph_genesis_plan"; auto split: sum.splits)
  then show ?thesis
  proof cases
    case 3
    show ?thesis
      by (rule closing_effect [OF assms(1) 3(1,2) _ _ 3(3)], (rule emits_rules emits_bind_event)+) (simp add: OUTCOME_def)
  qed (use assms(1) in \<open>auto intro: raise_effect op_effect_none\<close>)
qed

lemma failed_effect:
  assumes "call_ok s" "markFailed E c s db = (r, s', db')"
  shows "op_effect s db s' db'"
proof (cases "cs_terminal s")
  case True
  with assms show ?thesis by (auto simp: markFailed_def intro: op_effect_none)
next
  case False
  let ?s = "s\<lparr>cs_approval := failed_approval (cs_approval s) c\<rparr>"
  consider e where "(Inl e, ?s, db) = (r, s', db')"
    | rd out now where "failure_outcome E c ?s rd now = Inr out" "commit_as E
          ([finish E (cs_id ?s) ''failed'' (cs_startedAt ?s) (en_tick E 0) None (Some c)]
           @ (if rc_boundary (cs_context ?s) = Graph_genesis_plan
              then [appendEvent E 2 1 (cs_id ?s) ''graph_genesis_incomplete'' (JObj [plan_hash_prop ?s, (''code'', JStr c)])]
              else [])
           @ [appendEvent E 3 2 (cs_id ?s) ''execution_failed'' (JObj [(''code'', JStr c)])]
           @ (case cs_authorization ?s of
                None \<Rightarrow> [appendEvent E 4 3 (cs_id ?s) ''authorization_receipt_finalized'' (receipt_details (fst rd) (snd rd))]
              | Some _ \<Rightarrow> [])
           @ (case out of
                None \<Rightarrow> []
              | Some q \<Rightarrow> [append_receipt E 5 4 (cs_id ?s) ''outcome_receipt_finalized'' q]))
          ?s (?s\<lparr>cs_authorization := Some rd, cs_terminal := True\<rparr>) db = (r, s', db')"
    using assms(2) False unfolding markFailed_def Let_def by (auto split: sum.splits)
  then show ?thesis
  proof cases
    case 2
    have out: "(out \<noteq> None) = cs_dispatched s"
      using 2(1) assms(1) by (auto simp: failure_outcome_def call_ok_def split: if_splits)
    let ?ts = "[] @ (if rc_boundary (cs_context ?s) = Graph_genesis_plan then [''graph_genesis_incomplete''] else [])
        @ [''execution_failed''] @ (case cs_authorization ?s of None \<Rightarrow> [''authorization_receipt_finalized''] | Some _ \<Rightarrow> [])
        @ (case out of None \<Rightarrow> [] | Some q \<Rightarrow> [''outcome_receipt_finalized''])"
    show ?thesis
    proof (rule commit_effect [OF 2(2), of _ ?ts])
      show "emits (cs_id s) ([finish E (cs_id ?s) ''failed'' (cs_startedAt ?s) (en_tick E 0) None (Some c)]
           @ (if rc_boundary (cs_context ?s) = Graph_genesis_plan
              then [appendEvent E 2 1 (cs_id ?s) ''graph_genesis_incomplete'' (JObj [plan_hash_prop ?s, (''code'', JStr c)])]
              else [])
           @ [appendEvent E 3 2 (cs_id ?s) ''execution_failed'' (JObj [(''code'', JStr c)])]
           @ (case cs_authorization ?s of
                None \<Rightarrow> [appendEvent E 4 3 (cs_id ?s) ''authorization_receipt_finalized'' (receipt_details (fst rd) (snd rd))]
              | Some _ \<Rightarrow> [])
           @ (case out of
                None \<Rightarrow> []
              | Some q \<Rightarrow> [append_receipt E 5 4 (cs_id ?s) ''outcome_receipt_finalized'' q])) ?ts"
        by (intro emits_append) (auto intro!: emits_rules split: option.splits)
      show "op_effect s db ?s db" by (rule op_effect_approval [OF op_effect_none [OF assms(1)]])
      show "life_step (life_of s) (life_of (?s\<lparr>cs_authorization := Some rd, cs_terminal := True\<rparr>))"
        using False by (auto simp: life_of_def life_step.simps)
      show "call_ok (?s\<lparr>cs_authorization := Some rd, cs_terminal := True\<rparr>)"
        using assms(1) by (auto simp: call_ok_def life_ok_def)
      show "log_of (life_of (?s\<lparr>cs_authorization := Some rd, cs_terminal := True\<rparr>)) = log_of (life_of s) @ filter is_milestone ?ts"
        using out False assms(1) by (auto simp: life_simps split: option.splits)
    qed simp_all
  qed (use assms(1) in \<open>auto intro: op_effect_none op_effect_approval\<close>)
qed

lemma evidence_effect:
  assumes "call_ok s" "appendEvidence E t v s db = (r, s', db')"
  shows "op_effect s db s' db'"
proof -
  consider "\<exists>m. raise m s db = (r, s', db')"
    | "is_evidence_type t" "commit_as E [appendEvent E 0 0 (cs_id s) t (redactForAudit v)] s s db = (r, s', db')"
    using assms(2) unfolding appendEvidence_def Let_def by (auto split: if_splits)
  then show ?thesis
  proof cases
    case 2
    with assms(1) milestone_evidence show ?thesis
      by (intro commit_effect [OF 2(2) _ op_effect_none [OF assms(1)]]) (auto intro!: emits_rules life_stay)
  qed (use assms(1) in \<open>auto intro: raise_effect op_effect_none\<close>)
qed

text \<open>Every operation, whatever it returns, is a step of the abstract life and logs its milestones.\<close>

lemma op_implements:
  assumes "call_ok s" "apply_op op E s db = (r, s', db')" "\<not> late_block op s"
  shows "op_effect s db s' db'"
proof (cases op)
  case (Op_blocked b)
  then have "cs_authorization s = None" using assms(3) by (auto simp: late_block_def simp del: not_None_eq)
  with assms Op_blocked show ?thesis by (simp add: blocked_effect)
qed (use assms in \<open>auto intro: authorized_effect started_effect forwarding_effect requested_effect
      resolved_effect completed_effect result_effect finalize_effect failed_effect evidence_effect\<close>)

end
