(* ===== verification/AuditLog.thy ===== *)
theory AuditLog
  imports Lifecycle
begin

section \<open>The recorder as a running system\<close>

text \<open>
  The state of a process that records: the database and the calls in progress.  A step begins
  a call, runs one operation of a call in progress, or restarts the process, which forgets
  the calls in progress and keeps the database.
\<close>

record recorder_state =
  rs_db :: audit_db
  rs_live :: "(string \<times> call_state) list"

definition rs_init :: recorder_state where
  "rs_init = \<lparr>rs_db = empty_db, rs_live = []\<rparr>"

inductive rec_step :: "recorder_state \<Rightarrow> recorder_state \<Rightarrow> bool" where
  step_begin: "begin_call E c d (rs_db S) = (Inr s, db') \<Longrightarrow>
     rec_step S (S\<lparr>rs_db := db', rs_live := (cs_id s, s) # rs_live S\<rparr>)"
| step_begin_fails: "begin_call E c d (rs_db S) = (Inl e, db') \<Longrightarrow> rec_step S (S\<lparr>rs_db := db'\<rparr>)"
| step_op: "map_of (rs_live S) i = Some s \<Longrightarrow> apply_op op E s (rs_db S) = (r, s', db') \<Longrightarrow>
     rec_step S (S\<lparr>rs_db := db', rs_live := (i, s') # rs_live S\<rparr>)"
| step_restart: "rec_step S (S\<lparr>rs_live := []\<rparr>)"

inductive rec_reachable :: "recorder_state \<Rightarrow> bool" where
  reach_init: "rec_reachable rs_init"
| reach_step: "rec_reachable S \<Longrightarrow> rec_step S T \<Longrightarrow> rec_reachable T"

inductive_cases rec_stepE: "rec_step S T"

text \<open>The milestones of one call in the log.\<close>

definition call_log :: "audit_db \<Rightarrow> string \<Rightarrow> string list" where
  "call_log db i = filter is_milestone (map er_type (filter (\<lambda>e. er_call e = i) (db_events db)))"

text \<open>
  What the log says of a call: the milestones of its life, or, for a Graph Genesis call
  blocked after it was authorized, two authorizations and an end.
\<close>

definition blocked_twice :: "call_state \<Rightarrow> bool" where
  "blocked_twice s \<longleftrightarrow> rc_boundary (cs_context s) = Graph_genesis_plan \<and> cs_terminal s \<and> \<not> cs_dispatched s"

definition log_agrees :: "audit_db \<Rightarrow> string \<Rightarrow> call_state \<Rightarrow> bool" where
  "log_agrees db i s \<longleftrightarrow>
     call_log db i = log_of (life_of s) \<or> blocked_twice s \<and> call_log db i = [AUTH, AUTH]"

definition log_shape :: "string list \<Rightarrow> bool" where
  "log_shape ts \<longleftrightarrow> ts \<in> {[], [AUTH], [AUTH, START], [AUTH, START, OUTCOME], [AUTH, AUTH]}"

definition db_ok :: "audit_db \<Rightarrow> bool" where
  "db_ok db \<longleftrightarrow> verifyHashChain db \<and> distinct (map er_id (db_events db))
     \<and> map er_sequence (db_events db) = [1..<length (db_events db) + 1]
     \<and> (\<forall>e \<in> set (db_events db). er_call e \<in> call_ids db) \<and> (\<forall>i. log_shape (call_log db i))"

definition rec_inv :: "recorder_state \<Rightarrow> bool" where
  "rec_inv S \<longleftrightarrow> db_ok (rs_db S)
     \<and> (\<forall>i s. map_of (rs_live S) i = Some s \<longrightarrow>
          i \<in> call_ids (rs_db S) \<and> cs_id s = i \<and> call_ok s \<and> log_agrees (rs_db S) i s)"

subsection \<open>Appending keeps the database in order\<close>

lemma appends_log:
  assumes "appends db db' i ts"
  shows "call_log db' j = call_log db j @ (if j = i then filter is_milestone ts else [])"
  using assms by (auto simp: appends_def call_log_def cong: filter_cong)

lemma appends_call_ids: "appends db db' i ts \<Longrightarrow> call_ids db' = call_ids db"
  by (auto simp: appends_def call_ids_def dest: arg_cong [where f = set])

lemma appends_db_ok:
  assumes "appends db db' i ts" "db_ok db" "i \<in> call_ids db" "log_shape (call_log db' i)"
  shows "db_ok db'"
proof -
  obtain es where es: "db_events db' = db_events db @ es" "\<forall>e \<in> set es. er_call e = i"
    "verify_from (chain_tail (db_events db)) es"
    "map er_sequence es = [length (db_events db) + 1..<length (db_events db) + 1 + length es]"
    "distinct (map er_id (db_events db)) \<longrightarrow> distinct (map er_id (db_events db'))"
    using assms(1) by (auto simp: appends_def)
  have "verifyHashChain db'"
    using assms(2) es by (auto simp: db_ok_def verifyHashChain_def verify_from_append chain_tail_def split: if_splits)
  moreover have "distinct (map er_id (db_events db'))"
    using assms(2) es(5) by (simp add: db_ok_def)
  moreover have "map er_sequence (db_events db') = [1..<length (db_events db') + 1]"
    using assms(2) es(1,4) upt_add_eq_append [of 1 "length (db_events db) + 1" "length es"]
    by (simp add: db_ok_def add.commute add.left_commute)
  moreover have "\<forall>e \<in> set (db_events db'). er_call e \<in> call_ids db'"
    using assms(2,3) es(1,2) appends_call_ids [OF assms(1)] by (auto simp: db_ok_def)
  moreover have "log_shape (call_log db' j)" for j
    using assms(2,4) appends_log [OF assms(1), of j] by (cases "j = i") (auto simp: db_ok_def)
  ultimately show ?thesis by (simp add: db_ok_def)
qed

lemma appends_rec_inv:
  assumes "rec_inv S" "appends (rs_db S) db' i ts" "i \<in> call_ids (rs_db S)"
    "cs_id s' = i" "call_ok s'" "log_agrees db' i s'" "log_shape (call_log db' i)"
  shows "rec_inv (S\<lparr>rs_db := db', rs_live := (i, s') # rs_live S\<rparr>)"
  using assms appends_db_ok [OF assms(2) _ assms(3,7)] appends_call_ids [OF assms(2)] appends_log [OF assms(2)]
  by (auto simp: rec_inv_def log_agrees_def)

subsection \<open>Every step keeps the invariant\<close>

lemma log_of_shape: "call_ok s \<Longrightarrow> log_shape (log_of (life_of s))"
  by (auto simp: log_shape_def log_of_def call_ok_def life_ok_def)

lemma agrees_shape: "log_agrees db i s \<Longrightarrow> call_ok s \<Longrightarrow> log_shape (call_log db i)"
  using log_of_shape [of s] by (auto simp: log_agrees_def log_shape_def)

text \<open>A late block: the call ends and a second authorization is logged, or nothing happens.\<close>

lemma late_block_effect:
  assumes "call_ok s" "cs_authorization s \<noteq> None" "markBlocked E b s db = (r, s', db')"
  shows "op_effect s db s' db'
    \<or> rc_boundary (cs_context s) = Graph_genesis_plan \<and> \<not> cs_terminal s \<and> \<not> cs_dispatched s
      \<and> blocked_twice s' \<and> call_ok s' \<and> cs_id s' = cs_id s
      \<and> (\<exists>ts. appends db db' (cs_id s) ts \<and> filter is_milestone ts = [AUTH])"
proof -
  let ?s = "s\<lparr>cs_approval := blockedApproval (cs_approval s) b\<rparr>"
  consider "\<exists>m. raise m s db = (r, s', db')" | e where "(Inl e, ?s, db) = (r, s', db')"
    | q d where "\<not> cs_terminal s" "\<not> cs_dispatched s" "commit_as E
          [finish E (cs_id ?s) (block_name b) (cs_startedAt ?s) (en_tick E 0) None None,
           appendEvent E 1 1 (cs_id ?s) (block_name b) (JObj []),
           appendEvent E 2 2 (cs_id ?s) ''authorization_receipt_finalized'' (receipt_details q d)]
          ?s (?s\<lparr>cs_authorization := Some (q, d), cs_terminal := True\<rparr>) db = (r, s', db')"
    using assms(3) unfolding markBlocked_def Let_def by (auto split: if_splits sum.splits prod.splits)
  then show ?thesis
  proof cases
    case 3
    let ?ts = "[block_name b, ''authorization_receipt_finalized'']"
    have em: "emits (cs_id s) [finish E (cs_id ?s) (block_name b) (cs_startedAt ?s) (en_tick E 0) None None,
           appendEvent E 1 1 (cs_id ?s) (block_name b) (JObj []),
           appendEvent E 2 2 (cs_id ?s) ''authorization_receipt_finalized'' (receipt_details q d)] ?ts"
      by (auto intro!: emits_rules)
    have gg: "rc_boundary (cs_context s) = Graph_genesis_plan"
      using assms(1,2) 3(1,2) by (auto simp: call_ok_def)
    from 3(3) show ?thesis
    proof (cases rule: commit_as_cases)
      case failed
      then show ?thesis using assms(1) by (auto intro: op_effect_approval op_effect_none)
    next
      case committed
      have "call_ok s'" using assms(1) committed(2) by (auto simp: call_ok_def life_ok_def)
      then show ?thesis
        using emits_appends [OF em committed(3)] committed(2) gg 3(1,2)
        by (intro disjI2) (auto simp: blocked_twice_def AUTH_def intro!: exI [of _ ?ts])
    qed
  qed (use assms(1) in \<open>auto intro: raise_effect op_effect_none op_effect_approval\<close>)
qed

lemma effect_agrees:
  assumes "op_effect s db s' db'" "log_agrees db (cs_id s) s" "call_ok s"
  shows "log_agrees db' (cs_id s) s'"
proof -
  obtain ts where ts: "appends db db' (cs_id s) ts"
    "log_of (life_of s') = log_of (life_of s) @ filter is_milestone ts"
    using assms(1) by (auto simp: op_effect_def)
  note l = appends_log [OF ts(1), of "cs_id s"]
  show ?thesis
  proof (cases "call_log db (cs_id s) = log_of (life_of s)")
    case True
    then show ?thesis using l ts(2) by (simp add: log_agrees_def)
  next
    case False
    then have b: "blocked_twice s" "call_log db (cs_id s) = [AUTH, AUTH]"
      using assms(2) by (auto simp: log_agrees_def)
    have "life_of s' = life_of s"
      using assms(1) b(1) life_closed [of "life_of s" "life_of s'"] by (auto simp: op_effect_def blocked_twice_def)
    then have "filter is_milestone ts = []" "blocked_twice s'"
      using ts(2) b(1) assms(1) by (auto simp: blocked_twice_def op_effect_def life_of_def)
    then show ?thesis using l b(2) by (simp add: log_agrees_def)
  qed
qed

lemma op_keeps_inv:
  assumes "rec_inv S" "map_of (rs_live S) i = Some s" "apply_op op E s (rs_db S) = (r, s', db')"
  shows "rec_inv (S\<lparr>rs_db := db', rs_live := (i, s') # rs_live S\<rparr>)"
proof -
  have i: "i \<in> call_ids (rs_db S)" "cs_id s = i" "call_ok s" "log_agrees (rs_db S) i s"
    using assms(1,2) by (auto simp: rec_inv_def)
  have main: ?thesis if e: "op_effect s (rs_db S) s' db'"
  proof -
    obtain ts where ts: "appends (rs_db S) db' i ts" "call_ok s'" "cs_id s' = i"
      using e i(2) by (auto simp: op_effect_def)
    have a: "log_agrees db' i s'" using effect_agrees [OF e] i by simp
    show ?thesis by (rule appends_rec_inv [OF assms(1) ts(1) i(1) ts(3,2) a agrees_shape [OF a ts(2)]])
  qed
  show ?thesis
  proof (cases "late_block op s")
    case False
    then show ?thesis using main op_implements [OF i(3) assms(3)] by blast
  next
    case True
    then obtain b where b: "op = Op_blocked b" "cs_authorization s \<noteq> None" by (auto simp: late_block_def)
    have mb: "markBlocked E b s (rs_db S) = (r, s', db')" using assms(3) b(1) by simp
    from late_block_effect [OF i(3) b(2) mb] main
    consider ?thesis | ts where "\<not> cs_terminal s" "\<not> cs_dispatched s" "blocked_twice s'" "call_ok s'" "cs_id s' = i"
        "appends (rs_db S) db' i ts" "filter is_milestone ts = [AUTH]"
      using i(2) by auto
    then show ?thesis
    proof cases
      case 2
      have "call_log (rs_db S) i = [AUTH]"
        using i(4) 2(1,2) b(2) by (auto simp: log_agrees_def log_of_def blocked_twice_def)
      then have l: "call_log db' i = [AUTH, AUTH]" using appends_log [OF 2(6), of i] 2(7) by simp
      then show ?thesis
        by (intro appends_rec_inv [OF assms(1) 2(6) i(1) 2(5,4)]) (simp_all add: log_agrees_def log_shape_def 2(3))
    qed
  qed
qed

lemma insert_call_fields:
  assumes "insert_call row db = Inr db'"
  shows "db_events db' = db_events db" "call_ids db' = insert (cr_id row) (call_ids db)" "cr_id row \<notin> call_ids db"
  using assms by (auto simp: insert_call_def call_ids_def split: if_splits)

lemma begin_call_cases:
  assumes "begin_call E c d db = (res, db')"
  obtains (failed) e where "res = Inl e" "db' = db"
  | (begun) s db1 where "res = Inr s" "db_events db1 = db_events db" "call_ids db1 = insert (cs_id s) (call_ids db)"
      "cs_id s \<notin> call_ids db" "appends db1 db' (cs_id s) [''decision_recorded'']" "call_ok s" "log_of (life_of s) = []"
proof (cases res)
  case (Inl e)
  with assms show ?thesis by (intro failed) (auto simp: begin_call_def Let_def split: sum.splits)
next
  case (Inr s)
  with assms obtain t db1 row rc ev where x: "insert_call row db = Inr db1" "cr_id row = cs_id s"
    "appendEvent E 1 1 (cs_id s) ''decision_recorded'' (evaluation_details c ev rc) db1 = Inr db'"
    "cs_authorization s = None" "\<not> cs_dispatched s" "\<not> cs_terminal s" "cs_executionStartedAt s = None"
    by (auto simp: begin_call_def Let_def transaction_def call_record_def split: sum.splits if_splits simp: rbind_Inr_iff)
  show ?thesis
    using insert_call_fields [OF x(1)] x appendEvent_appends [OF x(3)]
    by (intro begun [OF Inr, of db1]) (auto simp: call_ok_def life_ok_def log_of_def)
qed

lemma begin_keeps_inv:
  assumes "rec_inv S" "begin_call E c d (rs_db S) = (Inr s, db')"
  shows "rec_inv (S\<lparr>rs_db := db', rs_live := (cs_id s, s) # rs_live S\<rparr>)"
  using assms(2)
proof (cases rule: begin_call_cases)
  case (begun s' db1)
  let ?S = "S\<lparr>rs_db := db1\<rparr>"
  have c: "call_log db1 j = call_log (rs_db S) j" for j using begun(2) by (simp add: call_log_def)
  have "rec_inv ?S"
    using assms(1) begun(2,3) c by (auto simp: rec_inv_def db_ok_def log_agrees_def verifyHashChain_def)
  moreover have "call_log (rs_db S) (cs_id s) = []"
    using assms(1) begun(1,4) by (auto simp: rec_inv_def db_ok_def call_log_def filter_empty_conv)
  then have "call_log db' (cs_id s) = []"
    using appends_log [OF begun(5), of "cs_id s"] c begun(1) by simp
  ultimately have "rec_inv (?S\<lparr>rs_db := db', rs_live := (cs_id s, s) # rs_live ?S\<rparr>)"
    using begun by (intro appends_rec_inv [of ?S]) (auto simp: log_agrees_def log_shape_def)
  then show ?thesis by simp
qed (use assms in simp)

lemma step_keeps_inv: "rec_step S T \<Longrightarrow> rec_inv S \<Longrightarrow> rec_inv T"
proof (induction rule: rec_step.induct)
  case (step_begin E c d S s db')
  then show ?case using begin_keeps_inv by blast
next
  case (step_begin_fails E c d S e db')
  from step_begin_fails(1) have "db' = rs_db S" by (cases rule: begin_call_cases) auto
  with step_begin_fails(2) show ?case by simp
next
  case (step_op S i s op E r s' db')
  then show ?case using op_keeps_inv by blast
qed (simp add: rec_inv_def)

lemma reachable_inv: "rec_reachable S \<Longrightarrow> rec_inv S"
proof (induction rule: rec_reachable.induct)
  case reach_init
  show ?case
    by (auto simp: rec_inv_def rs_init_def db_ok_def empty_db_def verifyHashChain_def call_log_def log_shape_def)
qed (rule step_keeps_inv)

subsection \<open>Properties\<close>

text \<open>
  C3: in every state the recorder can reach, whatever operations ran, failed or were cut
  short, the log verifies, its event identifiers are distinct, its sequence numbers count
  from 1 without a gap and every event belongs to a stored call.
\<close>

theorem audit_log_consistent:
  assumes "rec_reachable S"
  shows "verifyHashChain (rs_db S) \<and> distinct (map er_id (db_events (rs_db S)))
    \<and> map er_sequence (db_events (rs_db S)) = [1..<length (db_events (rs_db S)) + 1]
    \<and> er_call ` set (db_events (rs_db S)) \<subseteq> set (map cr_id (db_calls (rs_db S)))"
  using reachable_inv [OF assms] by (auto simp: rec_inv_def db_ok_def call_ids_def)

text \<open>
  What the log says of any call is one of: nothing, an authorization, an authorization
  and a start, all three milestones in order, or the two authorizations of a Graph Genesis
  call that was blocked after it was authorized.  So an execution never starts without an
  authorization before it, starts once at most, and has one outcome at most, after its start.
\<close>

theorem call_log_lifecycle:
  assumes "rec_reachable S"
  shows "call_log (rs_db S) i \<in>
    {[], [''authorization_receipt_finalized''],
     [''authorization_receipt_finalized'', ''execution_start_recorded''],
     [''authorization_receipt_finalized'', ''execution_start_recorded'', ''outcome_receipt_finalized''],
     [''authorization_receipt_finalized'', ''authorization_receipt_finalized'']}"
  using reachable_inv [OF assms]
  by (simp add: rec_inv_def db_ok_def log_shape_def AUTH_def START_def OUTCOME_def)

text \<open>
  The variables the process keeps of a call in progress agree with the log.  Outside
  Graph Genesis the log of the call shows an authorization exactly when the call holds one, a
  start exactly when it is dispatched, and an outcome exactly when it was dispatched and ended.
\<close>

theorem live_call_agrees_with_log:
  assumes "rec_reachable S" "map_of (rs_live S) i = Some s" "rc_boundary (cs_context s) \<noteq> Graph_genesis_plan"
  shows "call_log (rs_db S) i =
      (if cs_authorization s \<noteq> None then [''authorization_receipt_finalized''] else [])
    @ (if cs_dispatched s then [''execution_start_recorded''] else [])
    @ (if cs_dispatched s \<and> cs_terminal s then [''outcome_receipt_finalized''] else [])"
proof -
  have "log_agrees (rs_db S) i s" using reachable_inv [OF assms(1)] assms(2) by (auto simp: rec_inv_def)
  then have "call_log (rs_db S) i = log_of (life_of s)" using assms(3) by (simp add: log_agrees_def blocked_twice_def)
  then show ?thesis by (simp only: log_of_def AUTH_def START_def OUTCOME_def life_of_simps)
qed

text \<open>An operation that raises leaves the database and the life of the call as they were.\<close>

lemma commit_as_failed: "commit_as E fs s s1 db = (Inl e, s', db') \<Longrightarrow> s' = s \<and> db' = db"
  by (auto simp: commit_as_def split: sum.splits)

lemmas op_defs = markAuthorized_def markExecutionStarted_def markForwarding_def markApprovalRequested_def
  markApprovalResolved_def markBlocked_def markCompleted_def markExecutionResult_def
  finalizeGraphGenesisOutcome_def markFailed_def appendEvidence_def

lemma failed_op:
  "apply_op op E s db = (Inl e, s', db') \<Longrightarrow> db' = db \<and> (\<exists>a. s' = s\<lparr>cs_approval := a\<rparr>)"
proof -
  have r: "\<exists>a. x = x\<lparr>cs_approval := a\<rparr>" for x :: call_state
    by (intro exI [of _ "cs_approval x"]) simp
  assume "apply_op op E s db = (Inl e, s', db')"
  then show ?thesis
    by (cases op)
       (auto simp: op_defs raise_def Let_def intro!: r dest!: commit_as_failed
          split: if_splits sum.splits prod.splits option.splits bool.splits)
qed

text \<open>
  The specification of an operation on the abstract life: when it may be done, given whether the
  call is one of Graph Genesis, and the life it leads to.
\<close>

fun life_op :: "recorder_op \<Rightarrow> bool \<Rightarrow> life \<Rightarrow> life option" where
  "life_op Op_authorized genesis l =
     (if genesis \<and> \<not> lf_closed l \<and> \<not> lf_authorized l then Some (l\<lparr>lf_authorized := True\<rparr>) else None)"
| "life_op Op_started genesis l =
     (if genesis \<and> \<not> lf_closed l \<and> lf_authorized l \<and> \<not> lf_started l then Some (l\<lparr>lf_started := True\<rparr>) else None)"
| "life_op Op_forwarding genesis l =
     (if \<not> genesis \<and> l = \<lparr>lf_authorized = False, lf_started = False, lf_closed = False\<rparr>
      then Some (l\<lparr>lf_authorized := True, lf_started := True\<rparr>) else None)"
| "life_op (Op_blocked _) genesis l =
     (if \<not> lf_closed l \<and> \<not> lf_started l then Some (l\<lparr>lf_authorized := True, lf_closed := True\<rparr>) else None)"
| "life_op (Op_completed _) genesis l = (if lf_started l \<and> \<not> lf_closed l then Some (l\<lparr>lf_closed := True\<rparr>) else None)"
| "life_op (Op_execution_result _ _) genesis l =
     (if \<not> genesis \<and> lf_started l \<and> \<not> lf_closed l then Some (l\<lparr>lf_closed := True\<rparr>) else None)"
| "life_op (Op_finalize _ _) genesis l =
     (if genesis \<and> lf_started l \<and> \<not> lf_closed l then Some (l\<lparr>lf_closed := True\<rparr>) else None)"
| "life_op (Op_failed _) genesis l = Some (if lf_closed l then l else l\<lparr>lf_authorized := True, lf_closed := True\<rparr>)"
| "life_op _ genesis l = (if lf_closed l then None else Some l)"

lemma life_of_updates [simp]:
  "life_of (s\<lparr>cs_authorization := Some x\<rparr>) = (life_of s)\<lparr>lf_authorized := True\<rparr>"
  "life_of (s\<lparr>cs_dispatched := b\<rparr>) = (life_of s)\<lparr>lf_started := b\<rparr>"
  "life_of (s\<lparr>cs_terminal := b\<rparr>) = (life_of s)\<lparr>lf_closed := b\<rparr>"
  "life_of (s\<lparr>cs_executionStartedAt := t\<rparr>) = life_of s"
  by (simp_all add: life_of_def)

lemma op_succeeds:
  assumes "call_ok s" "apply_op op E s db = (Inr u, s', db')"
  shows "life_op op (rc_boundary (cs_context s) = Graph_genesis_plan) (life_of s) = Some (life_of s')"
proof (cases op)
  case Op_forwarding
  then have d: "\<not> cs_terminal s" "\<not> cs_dispatched s" "rc_boundary (cs_context s) \<noteq> Graph_genesis_plan"
    and s': "life_of s' = (life_of s)\<lparr>lf_authorized := True, lf_started := True\<rparr>"
    using assms(2) by (auto simp: markForwarding_def raise_def commit_as_def split: if_splits sum.splits prod.splits)
  then have "cs_authorization s = None" using assms(1) by (auto simp: call_ok_def simp del: not_None_eq)
  then have "life_of s = \<lparr>lf_authorized = False, lf_started = False, lf_closed = False\<rparr>" using d by (simp add: life_of_def)
  then show ?thesis using Op_forwarding d(3) s' by simp
qed (use assms(2) in \<open>auto simp: op_defs raise_def commit_as_def Let_def ready_def
    split: if_splits sum.splits prod.splits option.splits bool.splits\<close>)

text \<open>
  C29: the recorder refines the abstract life of a call.  An operation that returns was one the
  specification allows in this life, and leads to the life the specification gives; one that
  raises changes neither the life nor the database.  The database gets only new events of this
  call, correctly linked, and their milestones are those the step adds to the log of the life.
  The one operation left out is blocking a call that already has its authorization.
\<close>

theorem operation_refines_life:
  assumes "call_ok s" "apply_op op E s db = (r, s', db')" "\<not> late_block op s"
  shows "(case r of
        Inl e \<Rightarrow> life_of s' = life_of s \<and> db' = db
      | Inr u \<Rightarrow> life_op op (rc_boundary (cs_context s) = Graph_genesis_plan) (life_of s) = Some (life_of s'))
    \<and> life_step (life_of s) (life_of s') \<and> call_ok s'
    \<and> (\<exists>ts. appends db db' (cs_id s) ts \<and> log_of (life_of s') = log_of (life_of s) @ filter is_milestone ts)"
proof -
  have "case r of
        Inl e \<Rightarrow> life_of s' = life_of s \<and> db' = db
      | Inr u \<Rightarrow> life_op op (rc_boundary (cs_context s) = Graph_genesis_plan) (life_of s) = Some (life_of s')"
    using assms(2) failed_op [of op E s db] op_succeeds [OF assms(1)] by (cases r) (auto simp del: apply_op.simps)
  with op_implements [OF assms] show ?thesis by (simp add: op_effect_def)
qed

text \<open>
  An operation that raises, for whatever reason, leaves no trace: the database is as it
  was, and of the call's variables only the approval evidence may differ.  A call that
  cannot be recorded does not begin, and leaves the database as it was.
\<close>

theorem failed_operation_rolls_back:
  "(case apply_op op E s db of
      (Inl e, s', db') \<Rightarrow> db' = db \<and> life_of s' = life_of s \<and> cs_authorization s' = cs_authorization s
    | (Inr u, s', db') \<Rightarrow> True)
   \<and> (case begin_call E c d db of (Inl e, db') \<Rightarrow> db' = db | (Inr s, db') \<Rightarrow> True)"
proof
  show "case apply_op op E s db of
     (Inl e, s', db') \<Rightarrow> db' = db \<and> life_of s' = life_of s \<and> cs_authorization s' = cs_authorization s
   | (Inr u, s', db') \<Rightarrow> True"
    using failed_op [of op E s db] by (fastforce split: prod.splits sum.splits)
  show "case begin_call E c d db of (Inl e, db') \<Rightarrow> db' = db | (Inr s, db') \<Rightarrow> True"
    by (auto simp: begin_call_def Let_def split: sum.splits)
qed

text \<open>
  The end of a call is final.  On a call that has ended every operation but the report
  of a failure raises, and the report of a failure does nothing: neither the call nor the
  database changes.
\<close>

theorem closed_call_is_final:
  assumes "cs_terminal s"
  shows "case apply_op op E s db of (r, s', db') \<Rightarrow>
    s' = s \<and> db' = db \<and> is_ok r = (\<exists>why. op = Op_failed why)"
  using assms by (cases op) (auto simp: op_defs raise_def split: option.splits prod.splits)

definition durable_start :: "audit_env \<Rightarrow> call_state \<Rightarrow> audit_db \<Rightarrow> call_state \<Rightarrow> audit_db \<Rightarrow> bool" where
  "durable_start E s db s' db' \<longleftrightarrow> (\<exists>r d e1 e2 t1 t2.
     db_events db' = db_events db @ [e1, e2] \<and> cs_authorization s' = Some (r, d) \<and> receiptDigest r = Inr d
     \<and> at (at r ''authorization'') ''status'' = JStr ''authorized'' \<and> at (at r ''action'') ''id'' = JStr (cs_id s)
     \<and> at (at r ''action'') ''executionPlanHash'' = js_opt (rc_planHash (cs_context s))
     \<and> er_json e1 = canonicalJson (event_value (en_uuid E 1) (cs_id s) ''authorization_receipt_finalized'' (receipt_details r d) t1)
     \<and> er_json e2 = canonicalJson (event_value (en_uuid E 2) (cs_id s) ''execution_start_recorded'' (digest_details d) t2))"

lemma appendEvent_row:
  assumes "appendEvent E u t i type details db = Inr db'"
  obtains e at' where "db_events db' = db_events db @ [e]" "er_type e = type"
    "er_json e = canonicalJson (event_value (en_uuid E u) i type details at')"
  using assms by (auto simp: appendEvent_def Let_def insert_event_def rbind_Inr_iff split: if_splits)

lemma markForwarding_cases:
  assumes "markForwarding E s db = (Inr u, s', db')"
  obtains r d t k where "receiptDigest r = Inr d" "\<not> (ap_required (cs_approval s) \<and> ap_outcome (cs_approval s) \<noteq> Approved)"
    "createAuthorizationReceipt (en_formats E)
       \<lparr>ai_receiptId = en_uuid E 0, ai_actionId = cs_id s, ai_issuedAt = t, ai_context = cs_context s,
        ai_base = ae_base (cs_evaluation s), ai_effective = ae_effective (cs_evaluation s),
        ai_matchedRuleId = ae_rule (cs_evaluation s), ai_reasonCodes = ae_reasons (cs_evaluation s),
        ai_riskScore = NInt (ae_score (cs_evaluation s)), ai_riskBand = ae_band (cs_evaluation s),
        ai_approval = cs_approval s, ai_status = Authorized, ai_reasonCode = k\<rparr> = Inr r"
    "foldM (\<lambda>f. f)
          [updateStatus (cs_id s) ''forwarding'',
           appendEvent E 1 1 (cs_id s) ''authorization_receipt_finalized'' (receipt_details r d),
           appendEvent E 2 2 (cs_id s) ''execution_start_recorded'' (digest_details d)] db = Inr db'"
    "cs_authorization s' = Some (r, d)"
  using assms
  by (auto simp: markForwarding_def raise_def commit_as_def transaction_def buildAuthorization_def rbind_Inr_iff
      simp del: foldM.simps split: if_splits sum.splits prod.splits)

lemma markForwarding_failed: "markForwarding E s db = (Inl e, s', db') \<Longrightarrow> db' = db \<and> s' = s"
  by (auto simp: markForwarding_def raise_def dest!: commit_as_failed split: if_splits sum.splits prod.splits)

lemma markForwarding_started:
  assumes ev: "rc_evidence (cs_context s) \<noteq> Some JUndef" and m: "markForwarding E s db = (Inr u, s', db')"
  shows "durable_start E s db s' db' \<and> ae_effective (cs_evaluation s) \<noteq> deny
        \<and> (\<not> ap_required (cs_approval s) \<or> ap_outcome (cs_approval s) = Approved
             \<and> ap_requestId (cs_approval s) \<noteq> None \<and> ap_decidedAt (cs_approval s) \<noteq> None)"
  using m
proof (cases rule: markForwarding_cases)
  case (1 r d t k)
  from 1(4) obtain db1 db2 where ev1:
    "appendEvent E 1 1 (cs_id s) ''authorization_receipt_finalized'' (receipt_details r d) db1 = Inr db2"
    "appendEvent E 2 2 (cs_id s) ''execution_start_recorded'' (digest_details d) db2 = Inr db'"
    "db_events db1 = db_events db"
    by (auto simp: updateStatus_def map_call_def rbind_Inr_iff)
  obtain e1 t1 where e1: "db_events db2 = db_events db1 @ [e1]"
    "er_json e1 = canonicalJson (event_value (en_uuid E 1) (cs_id s) ''authorization_receipt_finalized'' (receipt_details r d) t1)"
    using appendEvent_row [OF ev1(1)] by metis
  obtain e2 t2 where e2: "db_events db' = db_events db2 @ [e2]"
    "er_json e2 = canonicalJson (event_value (en_uuid E 2) (cs_id s) ''execution_start_recorded'' (digest_details d) t2)"
    using appendEvent_row [OF ev1(2)] by metis
  have r: "at (at r ''authorization'') ''status'' = JStr ''authorized'' \<and> at (at r ''action'') ''id'' = JStr (cs_id s)
      \<and> at (at r ''action'') ''executionPlanHash'' = js_opt (rc_planHash (cs_context s))"
    using createAuthorizationReceipt_unfold [THEN iffD1, OF _ 1(3)] ev by (auto simp: authorization_json_def js_opt_def)
  have "durable_start E s db s' db'"
    unfolding durable_start_def using 1(1,5) ev1(3) e1 e2 r by auto
  with authorization_receipt_facts [OF 1(3)] ev show ?thesis by auto
qed

text \<open>
  C5: an execution is only started behind a durable authorization.  When \<open>markForwarding\<close>
  returns, the database has two new events: first the receipt with its digest, then the start
  that names this digest.  The receipt says that the action, that of this call and with the hash
  of its plan where it has one, is authorized; the decision was not a
  denial, and an approval that was required was given, with its request and its time.
\<close>

theorem markForwarding_durable:
  assumes "rc_evidence (cs_context s) \<noteq> Some JUndef"
  shows "case markForwarding E s db of
      (Inl e, s', db') \<Rightarrow> db' = db \<and> s' = s
    | (Inr u, s', db') \<Rightarrow> durable_start E s db s' db' \<and> ae_effective (cs_evaluation s) \<noteq> deny
        \<and> (\<not> ap_required (cs_approval s) \<or> ap_outcome (cs_approval s) = Approved
             \<and> ap_requestId (cs_approval s) \<noteq> None \<and> ap_decidedAt (cs_approval s) \<noteq> None)"
  using markForwarding_failed markForwarding_started [OF assms]
  by (cases "markForwarding E s db"; cases "fst (markForwarding E s db)") auto

subsection \<open>Concrete runs\<close>

definition demo_env :: audit_env where
  "demo_env = \<lparr>en_formats = demo_formats, en_tick = (\<lambda>_. 0), en_uuid = (\<lambda>k. replicate (36 - k) (CHR ''a'')),
     en_commit = True\<rparr>"

definition demo_tool :: tool_context where
  "demo_tool = \<lparr>tc_serverId = ''fs'', tc_toolName = ''read_file'', tc_arguments = JObj [], tc_annotations = None,
     tc_identity = None\<rparr>"

definition demo_ask :: audit_decision where
  "demo_ask = \<lparr>ad_action = Ask, ad_reason = ''ask'', ad_receipt = None, ad_evaluation = None\<rparr>"

definition demo_call :: call_state where
  "demo_call = \<lparr>cs_id = en_uuid demo_env 0, cs_context = trustedReceiptContext demo_tool None,
     cs_evaluation = normalizeEvaluation demo_ask, cs_startedAt = 0, cs_terminal = False, cs_dispatched = False,
     cs_executionStartedAt = None, cs_authorization = None, cs_approval = initial_approval Ask\<rparr>"

lemma demo_env_simps [simp]: "en_commit demo_env" "en_uuid demo_env k = replicate (36 - k) (CHR ''a'')"
  "en_tick demo_env k = 0"
  by (simp_all add: demo_env_def)

lemma iso_demo: "iso demo_env k = Inr (iso_text 0)"
  by (simp add: iso_def toISOString_def)

lemma demo_begin: "\<exists>db. begin_call demo_env demo_tool demo_ask empty_db = (Inr demo_call, db)"
proof -
  have "\<exists>db. transaction demo_env
        [\<lambda>db. rbind (iso demo_env 0) (\<lambda>t. insert_call (call_record i c ev t) db),
         appendEvent demo_env 1 1 i ''decision_recorded'' v] empty_db = Inr db" if "ae_score ev = 0" for i c ev v
    using that by (auto simp: transaction_def iso_demo insert_call_def empty_db_def call_record_def Let_def appendEvent_def
        insert_event_def)
  moreover have "ae_score (normalizeEvaluation demo_ask) = 0"
    by (simp add: normalizeEvaluation_def demo_ask_def)
  ultimately obtain db where "transaction demo_env
        [\<lambda>db. rbind (iso demo_env 0) (\<lambda>t. insert_call (call_record (en_uuid demo_env 0) demo_tool (normalizeEvaluation demo_ask) t) db),
         appendEvent demo_env 1 1 (en_uuid demo_env 0) ''decision_recorded''
           (evaluation_details demo_tool (normalizeEvaluation demo_ask) (trustedReceiptContext demo_tool None))] empty_db = Inr db"
    by metis
  then show ?thesis
    unfolding begin_call_def Let_def by (simp add: demo_call_def demo_ask_def)
qed

lemma demo_reachable: "\<exists>db. rec_reachable \<lparr>rs_db = db, rs_live = [(cs_id demo_call, demo_call)]\<rparr>"
proof -
  obtain db where b: "begin_call demo_env demo_tool demo_ask (rs_db rs_init) = (Inr demo_call, db)"
    using demo_begin by (auto simp: rs_init_def)
  from reach_step [OF reach_init step_begin [OF b]] show ?thesis by (auto simp: rs_init_def)
qed

theorem audit_log_consistent_witness:
  "\<exists>S. rs_live S \<noteq> [] \<and> rec_reachable S \<and> verifyHashChain (rs_db S)"
proof -
  obtain db where r: "rec_reachable \<lparr>rs_db = db, rs_live = [(cs_id demo_call, demo_call)]\<rparr>" using demo_reachable ..
  with audit_log_consistent [OF r] show ?thesis by (intro exI conjI) auto
qed

theorem call_log_lifecycle_witness:
  "\<exists>S. rs_live S \<noteq> [] \<and> rec_reachable S
     \<and> call_log (rs_db S) ''x'' \<noteq> [''outcome_receipt_finalized'']"
proof -
  obtain db where r: "rec_reachable \<lparr>rs_db = db, rs_live = [(cs_id demo_call, demo_call)]\<rparr>" using demo_reachable ..
  with call_log_lifecycle [OF r, of "''x''"] show ?thesis by (intro exI conjI) auto
qed

lemma demo_boundary: "rc_boundary (cs_context demo_call) \<noteq> Graph_genesis_plan"
  by (simp add: demo_call_def trustedReceiptContext_def Let_def demo_tool_def trusted_identity_def fallbackReceiptContext_def)

theorem live_call_agrees_with_log_witness:
  "\<exists>S. rec_reachable S \<and> rs_live S \<noteq> [] \<and> call_log (rs_db S) (cs_id demo_call) = []"
proof -
  obtain db where r: "rec_reachable \<lparr>rs_db = db, rs_live = [(cs_id demo_call, demo_call)]\<rparr>" using demo_reachable ..
  have "map_of (rs_live \<lparr>rs_db = db, rs_live = [(cs_id demo_call, demo_call)]\<rparr>) (cs_id demo_call) = Some demo_call" by simp
  from live_call_agrees_with_log [OF r this demo_boundary] r show ?thesis
    by (intro exI conjI) (auto simp: demo_call_def)
qed

text \<open>A call row as stored, and an approval request for it.\<close>

definition demo_db :: audit_db where
  "demo_db = \<lparr>db_calls = [call_record (cs_id demo_call) demo_tool (normalizeEvaluation demo_ask) (iso_text 0)],
     db_approvals = [], db_events = []\<rparr>"

theorem operation_refines_life_witness:
  "\<exists>s' db'. apply_op (Op_approval_requested demo_uuid (iso_text 0) (iso_text 1)) demo_env demo_call demo_db = (Inr (), s', db')
     \<and> ap_outcome (cs_approval s') = Pending \<and> life_step (life_of demo_call) (life_of s') \<and> call_ok s'"
proof -
  let ?op = "Op_approval_requested demo_uuid (iso_text 0) (iso_text 1)"
  have ok: "call_ok demo_call" by (simp add: call_ok_def life_ok_def demo_call_def)
  have l: "\<not> late_block ?op demo_call" by (simp add: late_block_def)
  have "\<exists>s' db'. apply_op ?op demo_env demo_call demo_db = (Inr (), s', db') \<and> ap_outcome (cs_approval s') = Pending"
    by (simp add: markApprovalRequested_def commit_as_def transaction_def insert_approval_def updateStatus_def map_call_def
        appendEvent_def iso_demo insert_event_def demo_db_def Let_def call_record_def)
       (simp add: demo_call_def)
  then obtain s' db' where r: "apply_op ?op demo_env demo_call demo_db = (Inr (), s', db')"
    and p: "ap_outcome (cs_approval s') = Pending" by blast
  show ?thesis using operation_refines_life [OF ok r l] r p by (intro exI conjI) auto
qed

theorem closed_call_is_final_witness:
  "case apply_op Op_forwarding demo_env (demo_call\<lparr>cs_terminal := True\<rparr>) demo_db of
     (r, s', db') \<Rightarrow> s' = demo_call\<lparr>cs_terminal := True\<rparr> \<and> db' = demo_db"
  using closed_call_is_final [where s = "demo_call\<lparr>cs_terminal := True\<rparr>" and op = Op_forwarding and E = demo_env and db = demo_db] by auto

theorem markForwarding_durable_witness:
  "case markForwarding demo_env demo_call demo_db of (r, s', db') \<Rightarrow> db' = demo_db \<and> \<not> is_ok r"
proof -
  have e: "rc_evidence (cs_context demo_call) \<noteq> Some JUndef"
    by (simp add: demo_call_def trustedReceiptContext_def Let_def demo_tool_def trusted_identity_def fallbackReceiptContext_def)
  show ?thesis
    using markForwarding_durable [where E = demo_env and db = demo_db, OF e]
    by (auto simp: demo_call_def initial_approval_def split: prod.splits sum.splits)
qed

end
