(* ===== verification/Approval.thy ===== *)
theory Approval
  imports Redaction Clock Receipt
begin

section \<open>Human approval\<close>

text \<open>
  Models src/approval/service.ts: requests wait in a map until a person decides, their time
  runs out, or they are cancelled; each way ends in \<open>settle\<close>, which resolves the promise of
  the request.  A resolved promise is an entry of \<open>as_outcomes\<close>; a JavaScript map is an
  association list in insertion order.  The clock readings and the random identifier of a
  call are its arguments.
\<close>

datatype approval_outcome = O_approved | O_denied | O_expired | O_cancelled

fun outcome_state :: "approval_outcome \<Rightarrow> approval_state" where
  "outcome_state O_approved = Approved"
| "outcome_state O_denied = Denied"
| "outcome_state O_expired = Expired"
| "outcome_state O_cancelled = Cancelled"

record approval_input =
  ain_serverId :: string
  ain_toolName :: string
  ain_arguments :: jsval
  ain_identity :: "jsval option"
  ain_risk :: jsval
  ain_reasonCodes :: "string list"

record approval_request =
  ar_id :: string
  ar_serverId :: string
  ar_toolName :: string
  ar_arguments :: jsval
  ar_identity :: "jsval option"
  ar_risk :: jsval
  ar_reasonCodes :: "string list"
  ar_requestedAt :: string
  ar_expiresAt :: string

record pending_entry =
  pn_request :: approval_request
  pn_deadline :: nat
  pn_visible :: bool

record approval_service =
  as_pending :: "(string, pending_entry) omap"
  as_outcomes :: "(string \<times> approval_outcome) list"
  as_closed :: bool

definition new_service :: approval_service where
  "new_service = \<lparr>as_pending = [], as_outcomes = [], as_closed = False\<rparr>"

datatype approval_error =
  Service_closed | Ttl_not_positive | Time_invalid | Not_pending

definition settle :: "string \<Rightarrow> approval_outcome \<Rightarrow> approval_service \<Rightarrow> approval_service" where
  "settle i x S =
     (case map_of (as_pending S) i of
        None \<Rightarrow> S
      | Some e \<Rightarrow> S\<lparr>as_pending := om_del i (as_pending S), as_outcomes := as_outcomes S @ [(i, x)]\<rparr>)"

text \<open>
  \<open>setTimeout\<close> takes a 32-bit delay: a longer one fires after a millisecond.
\<close>

definition timer_delay :: "int \<Rightarrow> nat" where
  "timer_delay ttl = (if ttl < 2 ^ 31 then nat ttl else 1)"

definition requestHidden :: "string \<Rightarrow> nat \<Rightarrow> approval_input \<Rightarrow> int \<Rightarrow> approval_service
    \<Rightarrow> (approval_error + approval_request) \<times> approval_service" where
  "requestHidden i now inp ttlMs S =
     (if as_closed S then (Inl Service_closed, S)
      else if ttlMs \<le> 0 \<or> max_safe < ttlMs then (Inl Ttl_not_positive, S)
      else case (toISOString now, toISOString (now + nat ttlMs)) of
        (Some requestedAt, Some expiresAt) \<Rightarrow>
          (let r = \<lparr>ar_id = i, ar_serverId = ain_serverId inp, ar_toolName = ain_toolName inp,
                    ar_arguments = redactForAudit (ain_arguments inp),
                    ar_identity = map_option redactForAudit (ain_identity inp), ar_risk = ain_risk inp,
                    ar_reasonCodes = ain_reasonCodes inp, ar_requestedAt = requestedAt, ar_expiresAt = expiresAt\<rparr>
           in (Inr r, S\<lparr>as_pending := om_set i \<lparr>pn_request = r, pn_deadline = now + timer_delay ttlMs,
                 pn_visible = False\<rparr> (as_pending S)\<rparr>))
      | _ \<Rightarrow> (Inl Time_invalid, S))"

definition publish :: "string \<Rightarrow> approval_service \<Rightarrow> (approval_error + unit) \<times> approval_service" where
  "publish i S =
     (case map_of (as_pending S) i of
        None \<Rightarrow> (Inl Not_pending, S)
      | Some e \<Rightarrow> (Inr (), S\<lparr>as_pending := om_set i (e\<lparr>pn_visible := True\<rparr>) (as_pending S)\<rparr>))"

definition request :: "string \<Rightarrow> nat \<Rightarrow> approval_input \<Rightarrow> int \<Rightarrow> approval_service
    \<Rightarrow> (approval_error + approval_request) \<times> approval_service" where
  "request i now inp ttlMs S =
     (case requestHidden i now inp ttlMs S of
        (Inl e, S') \<Rightarrow> (Inl e, S')
      | (Inr r, S') \<Rightarrow> (case publish (ar_id r) S' of (Inl e, S'') \<Rightarrow> (Inl e, S'') | (Inr _, S'') \<Rightarrow> (Inr r, S'')))"

definition listPending :: "approval_service \<Rightarrow> approval_request list" where
  "listPending S = isort (\<lambda>l r. text_lt (ar_requestedAt l) (ar_requestedAt r))
     (map pn_request (filter pn_visible (map snd (as_pending S))))"

text \<open>\<open>Date.parse(entry.request.expiresAt) <= now\<close>; an unreadable time is never reached.\<close>

definition expired_at :: "nat \<Rightarrow> pending_entry \<Rightarrow> bool" where
  "expired_at now e = (case parse_iso (ar_expiresAt (pn_request e)) of None \<Rightarrow> False | Some t \<Rightarrow> t \<le> now)"

definition decide :: "string \<Rightarrow> approval_outcome \<Rightarrow> nat \<Rightarrow> approval_service
    \<Rightarrow> approval_outcome option \<times> approval_service" where
  "decide i d now S =
     (case map_of (as_pending S) i of
        None \<Rightarrow> (None, S)
      | Some e \<Rightarrow>
          if \<not> pn_visible e then (None, S)
          else if expired_at now e then (Some O_expired, settle i O_expired S)
          else (Some d, settle i d S))"

definition cancel :: "string \<Rightarrow> approval_service \<Rightarrow> approval_service" where
  "cancel i S = settle i O_cancelled S"

text \<open>The timer of a request fires.\<close>

definition fire_timer :: "string \<Rightarrow> approval_service \<Rightarrow> approval_service" where
  "fire_timer i S = settle i O_expired S"

definition close_service :: "approval_service \<Rightarrow> approval_service" where
  "close_service S =
     (if as_closed S then S
      else fold (\<lambda>i. settle i O_cancelled) (map fst (as_pending S)) (S\<lparr>as_closed := True\<rparr>))"

subsection \<open>Steps\<close>

text \<open>
  What can happen to the service.  A request gets an identifier the service has not seen; a
  timer fires when its deadline has passed; a person approves or denies.
\<close>

definition pending_ids :: "approval_service \<Rightarrow> string set" where
  "pending_ids S = dom (map_of (as_pending S))"

definition seen :: "approval_service \<Rightarrow> string set" where
  "seen S = pending_ids S \<union> fst ` set (as_outcomes S)"

inductive approval_step :: "nat \<Rightarrow> approval_service \<Rightarrow> approval_service \<Rightarrow> bool" for now where
  ap_request: "i \<notin> seen S \<Longrightarrow> requestHidden i now inp ttl S = (r, S') \<Longrightarrow> approval_step now S S'"
| ap_publish: "publish i S = (r, S') \<Longrightarrow> approval_step now S S'"
| ap_decide: "d \<in> {O_approved, O_denied} \<Longrightarrow> decide i d now S = (r, S') \<Longrightarrow> approval_step now S S'"
| ap_timer: "map_of (as_pending S) i = Some e \<Longrightarrow> pn_deadline e \<le> now \<Longrightarrow> approval_step now S (fire_timer i S)"
| ap_cancel: "approval_step now S (cancel i S)"
| ap_close: "approval_step now S (close_service S)"

inductive approval_reachable :: "approval_service \<Rightarrow> bool" where
  ap_new: "approval_reachable new_service"
| ap_step: "approval_reachable S \<Longrightarrow> approval_step now S T \<Longrightarrow> approval_reachable T"

inductive_cases approval_stepE: "approval_step now S T"

subsection \<open>One-shot promises\<close>

text \<open>
  The contract between who waits for an outcome and who gives it: identifiers are open or
  have outcomes; a step opens fresh identifiers only, and gives outcomes only to open
  identifiers, closing them.  What a client relies on follows: an identifier has at most one
  outcome, and it never changes.
\<close>

locale one_shot =
  fixes open_ids :: "'s \<Rightarrow> string set"
    and outcomes :: "'s \<Rightarrow> (string \<times> 'o) list"
    and step :: "'s \<Rightarrow> 's \<Rightarrow> bool"
    and start :: 's
  assumes start_empty: "open_ids start = {}" "outcomes start = []"
    and step_outcomes: "step s t \<Longrightarrow> \<exists>new. outcomes t = outcomes s @ new \<and> distinct (map fst new)
        \<and> fst ` set new \<subseteq> open_ids s \<and> fst ` set new \<inter> open_ids t = {}"
    and step_opens: "step s t \<Longrightarrow> i \<in> open_ids t \<Longrightarrow> i \<in> open_ids s \<or> i \<notin> fst ` set (outcomes s)"
begin

inductive reach :: "'s \<Rightarrow> bool" where
  reach_start: "reach start"
| reach_next: "reach s \<Longrightarrow> step s t \<Longrightarrow> reach t"

lemma once: "reach s \<Longrightarrow> distinct (map fst (outcomes s)) \<and> fst ` set (outcomes s) \<inter> open_ids s = {}"
proof (induction rule: reach.induct)
  case reach_start
  show ?case by (simp add: start_empty)
next
  case (reach_next s t)
  obtain new where new: "outcomes t = outcomes s @ new" "distinct (map fst new)"
    "fst ` set new \<subseteq> open_ids s" "fst ` set new \<inter> open_ids t = {}"
    using step_outcomes [OF reach_next.hyps(2)] by blast
  have "fst ` set (outcomes s) \<inter> open_ids t = {}"
    using reach_next.IH step_opens [OF reach_next.hyps(2)] by blast
  moreover have "set (map fst (outcomes s)) \<inter> set (map fst new) = {}"
    using reach_next.IH new(3) by auto
  ultimately show ?case using new reach_next.IH by (simp add: Int_Un_distrib2 image_Un)
qed

lemma outcome_stays:
  assumes "reach s" "step s t" "map_of (outcomes s) i = Some x"
  shows "map_of (outcomes t) i = Some x"
proof -
  obtain new where "outcomes t = outcomes s @ new" using step_outcomes [OF assms(2)] by blast
  with assms(3) show ?thesis by (simp add: map_add_dom_app_simps domI)
qed

end

subsection \<open>The service keeps the contract\<close>

lemma pending_ids_iff: "i \<in> pending_ids S \<longleftrightarrow> (\<exists>e. map_of (as_pending S) i = Some e)"
  by (auto simp: pending_ids_def)

lemma pending_ids_keys: "set (map fst (as_pending S)) = pending_ids S"
  by (simp add: pending_ids_def dom_map_of_conv_image_fst)

lemma pending_ids_closed [simp]: "pending_ids (S\<lparr>as_closed := b\<rparr>) = pending_ids S"
  by (simp add: pending_ids_def)

lemma settle_fields:
  "as_closed (settle i x S) = as_closed S"
  "pending_ids (settle i x S) = pending_ids S - {i}"
  "as_outcomes (settle i x S) = as_outcomes S @ (if i \<in> pending_ids S then [(i, x)] else [])"
  by (auto simp: settle_def pending_ids_def split: option.splits)

lemma settle_all:
  "\<exists>new. as_outcomes (fold (\<lambda>i. settle i x) ks S) = as_outcomes S @ new \<and> distinct (map fst new)
     \<and> fst ` set new = pending_ids S \<inter> set ks \<and> snd ` set new \<subseteq> {x}
     \<and> pending_ids (fold (\<lambda>i. settle i x) ks S) = pending_ids S - set ks
     \<and> as_closed (fold (\<lambda>i. settle i x) ks S) = as_closed S"
proof (induction ks arbitrary: S)
  case (Cons i ks)
  obtain new where n: "as_outcomes (fold (\<lambda>i. settle i x) ks (settle i x S)) = as_outcomes (settle i x S) @ new"
    "distinct (map fst new)" "fst ` set new = pending_ids (settle i x S) \<inter> set ks" "snd ` set new \<subseteq> {x}"
    "pending_ids (fold (\<lambda>i. settle i x) ks (settle i x S)) = pending_ids (settle i x S) - set ks"
    "as_closed (fold (\<lambda>i. settle i x) ks (settle i x S)) = as_closed (settle i x S)"
    using Cons.IH by blast
  show ?case
  proof (cases "i \<in> pending_ids S")
    case True
    with n show ?thesis
      by (intro exI [of _ "(i, x) # new"]) (auto simp: settle_fields)
  next
    case False
    with n show ?thesis
      by (intro exI [of _ new]) (auto simp: settle_fields)
  qed
qed simp

lemma close_fields:
  "pending_ids (close_service S) = (if as_closed S then pending_ids S else {})"
  "as_closed (close_service S)"
  "\<exists>new. as_outcomes (close_service S) = as_outcomes S @ new \<and> distinct (map fst new)
     \<and> fst ` set new = (if as_closed S then {} else pending_ids S) \<and> snd ` set new \<subseteq> {O_cancelled}"
proof -
  have k: "fst ` set (as_pending S) = pending_ids S" using pending_ids_keys [of S] by simp
  note f = settle_all [of O_cancelled "map fst (as_pending S)" "S\<lparr>as_closed := True\<rparr>"]
  show "pending_ids (close_service S) = (if as_closed S then pending_ids S else {})" "as_closed (close_service S)"
    using f k by (auto simp: close_service_def)
  show "\<exists>new. as_outcomes (close_service S) = as_outcomes S @ new \<and> distinct (map fst new)
     \<and> fst ` set new = (if as_closed S then {} else pending_ids S) \<and> snd ` set new \<subseteq> {O_cancelled}"
  proof (cases "as_closed S")
    case True
    then show ?thesis by (intro exI [of _ "[]"]) (simp add: close_service_def)
  next
    case False
    with f k show ?thesis by (simp add: close_service_def) blast
  qed
qed

text \<open>Every step settles some open requests, or opens one that was never seen.\<close>

lemma requestHidden_fields:
  assumes "requestHidden i now inp ttl S = (r, S')"
  shows "as_outcomes S' = as_outcomes S" "pending_ids S' \<subseteq> insert i (pending_ids S)" "pending_ids S \<subseteq> pending_ids S'"
    "as_closed S' = as_closed S"
  using assms by (auto simp: requestHidden_def Let_def pending_ids_def split: if_splits option.splits)

lemma publish_fields:
  assumes "publish i S = (r, S')"
  shows "as_outcomes S' = as_outcomes S" "pending_ids S' = pending_ids S" "as_closed S' = as_closed S"
proof -
  have "as_outcomes S' = as_outcomes S \<and> pending_ids S' = pending_ids S \<and> as_closed S' = as_closed S"
  proof (cases "map_of (as_pending S) i")
    case (Some e)
    then have eq: "insert i (dom (map_of (as_pending S))) = dom (map_of (as_pending S))" by auto
    have "S' = S\<lparr>as_pending := om_set i (e\<lparr>pn_visible := True\<rparr>) (as_pending S)\<rparr>"
      using Some assms by (simp add: publish_def)
    then show ?thesis by (simp add: pending_ids_def eq)
  qed (use assms in \<open>simp add: publish_def\<close>)
  then show "as_outcomes S' = as_outcomes S" "pending_ids S' = pending_ids S" "as_closed S' = as_closed S" by simp_all
qed

lemma decide_cases:
  assumes "decide i d now S = (r, S')"
  obtains (ignored) "S' = S" "r = None"
  | (settled) e x where "map_of (as_pending S) i = Some e" "pn_visible e" "S' = settle i x S" "r = Some x"
      "x = (if expired_at now e then O_expired else d)"
proof (cases "map_of (as_pending S) i")
  case None
  with assms show ?thesis by (intro ignored) (simp_all add: decide_def)
next
  case (Some e)
  show ?thesis
  proof (cases "pn_visible e")
    case True
    with Some assms show ?thesis by (intro settled [OF Some True]) (simp_all add: decide_def split: if_splits)
  next
    case False
    with Some assms show ?thesis by (intro ignored) (simp_all add: decide_def)
  qed
qed

definition settles :: "approval_service \<Rightarrow> approval_service \<Rightarrow> bool" where
  "settles S T \<longleftrightarrow> (\<exists>new. as_outcomes T = as_outcomes S @ new \<and> distinct (map fst new)
     \<and> fst ` set new \<subseteq> pending_ids S \<and> pending_ids T = pending_ids S - fst ` set new)"

lemma settle_settles: "settles S (settle i x S)"
  by (auto simp: settles_def settle_fields)

lemma settles_refl: "settles S S"
  unfolding settles_def by (intro exI [of _ "[]"]) simp

lemma step_effect:
  assumes "approval_step now S T"
  shows "settles S T \<or> as_outcomes T = as_outcomes S \<and> (\<exists>i. i \<notin> seen S \<and> pending_ids T \<subseteq> insert i (pending_ids S))"
  using assms
proof (cases rule: approval_step.cases)
  case (ap_request i inp ttl r)
  then show ?thesis using requestHidden_fields by blast
next
  case (ap_publish i r)
  then have "settles S T" using publish_fields unfolding settles_def by (intro exI [of _ "[]"]) auto
  then show ?thesis ..
next
  case (ap_decide d i r)
  from ap_decide(2) show ?thesis
    by (cases rule: decide_cases) (auto intro: settle_settles settles_refl)
next
  case (ap_timer i e)
  then show ?thesis by (simp add: fire_timer_def settle_settles)
next
  case (ap_cancel i)
  then show ?thesis by (simp add: cancel_def settle_settles)
next
  case ap_close
  obtain new where "as_outcomes T = as_outcomes S @ new" "distinct (map fst new)"
    "fst ` set new = (if as_closed S then {} else pending_ids S)" using close_fields(3) [of S] ap_close by blast
  with ap_close close_fields(1) [of S] show ?thesis
    by (intro disjI1) (auto simp: settles_def intro!: exI [of _ new])
qed

definition service_step :: "approval_service \<Rightarrow> approval_service \<Rightarrow> bool" where
  "service_step S T \<longleftrightarrow> (\<exists>now. approval_step now S T)"

interpretation tickets: one_shot pending_ids as_outcomes service_step new_service
proof
  show "pending_ids new_service = {}" "as_outcomes new_service = []" by (simp_all add: new_service_def pending_ids_def)
next
  fix S T i
  assume st: "service_step S T"
  show "\<exists>new. as_outcomes T = as_outcomes S @ new \<and> distinct (map fst new)
        \<and> fst ` set new \<subseteq> pending_ids S \<and> fst ` set new \<inter> pending_ids T = {}"
  proof -
    from st step_effect obtain now where "settles S T \<or> as_outcomes T = as_outcomes S" unfolding service_step_def by blast
    then show ?thesis
    proof
      assume "settles S T"
      then show ?thesis unfolding settles_def by (elim exE conjE) (intro exI conjI, assumption+, blast)
    qed (intro exI [of _ "[]"], simp)
  qed
  show "i \<in> pending_ids T \<Longrightarrow> i \<in> pending_ids S \<or> i \<notin> fst ` set (as_outcomes S)"
    using step_effect st unfolding service_step_def settles_def seen_def by blast
qed

lemma reachable_reach: "approval_reachable S \<Longrightarrow> tickets.reach S"
proof (induction rule: approval_reachable.induct)
  case (ap_step S now T)
  then have "service_step S T" by (auto simp: service_step_def)
  with ap_step.IH show ?case by (rule tickets.reach_next)
qed (rule tickets.reach_start)

subsection \<open>Properties\<close>

text \<open>
  Every request is settled once at most.  In each state the service can reach, no
  identifier has two outcomes, and none that has an outcome is still pending.
\<close>

theorem approval_settled_once:
  assumes "approval_reachable S"
  shows "distinct (map fst (as_outcomes S)) \<and> fst ` set (as_outcomes S) \<inter> pending_ids S = {}"
  using tickets.once [OF reachable_reach [OF assms]] .

text \<open>
  C13: only a person approves, and only in time.  When a step gives a request the outcome
  approved, it is a decision on this request, which was pending, shown to the person and, by
  the clock of the decision, not expired.
\<close>

theorem approval_only_by_decision:
  assumes "approval_step now S T" "as_outcomes T = as_outcomes S @ new" "(i, O_approved) \<in> set new"
  shows "T = snd (decide i O_approved now S)
    \<and> (\<exists>e. map_of (as_pending S) i = Some e \<and> pn_visible e \<and> \<not> expired_at now e)"
  using assms(1)
proof (cases rule: approval_step.cases)
  case (ap_decide d j r)
  from ap_decide(2) show ?thesis
  proof (cases rule: decide_cases)
    case (settled e x)
    have "new = (if j \<in> pending_ids S then [(j, x)] else [])"
      using settled(3) assms(2) by (simp add: settle_fields)
    with assms(3) have "i = j" "x = O_approved" by (auto split: if_splits)
    with settled ap_decide show ?thesis by (auto split: if_splits)
  qed (use assms in simp)
next
  case ap_close
  then show ?thesis using close_fields(3) [of S] assms(2,3) by force
qed (use assms requestHidden_fields(1) publish_fields(1) in \<open>auto simp: fire_timer_def cancel_def settle_fields split: if_splits\<close>)

text \<open>
  C39: closing the service leaves no one waiting: every pending request is cancelled, none
  stays pending, no outcome given before changes, and every later request is refused.
\<close>

theorem close_settles_all:
  assumes "approval_reachable S" "\<not> as_closed S"
  shows "as_pending (close_service S) = []
    \<and> (\<forall>i \<in> pending_ids S. map_of (as_outcomes (close_service S)) i = Some O_cancelled)
    \<and> (\<forall>i x. map_of (as_outcomes S) i = Some x \<longrightarrow> map_of (as_outcomes (close_service S)) i = Some x)
    \<and> fst (request j now inp ttl (close_service S)) = Inl Service_closed"
proof -
  obtain new where n: "as_outcomes (close_service S) = as_outcomes S @ new" "distinct (map fst new)"
    "fst ` set new = pending_ids S" "snd ` set new \<subseteq> {O_cancelled}"
    using close_fields(3) [of S] assms(2) by auto
  have "map_of (as_outcomes (close_service S)) i = Some O_cancelled" if i: "i \<in> pending_ids S" for i
  proof -
    have "(i, O_cancelled) \<in> set new" using i n(3,4) by force
    moreover have "i \<notin> fst ` set (as_outcomes S)"
      using tickets.once [OF reachable_reach [OF assms(1)]] i by blast
    ultimately show ?thesis using n(1,2) by (simp add: map_add_def map_of_eq_None_iff [THEN iffD2] split: option.splits)
  qed
  moreover have "map_of (as_outcomes (close_service S)) i = Some x" if "map_of (as_outcomes S) i = Some x" for i x
    using tickets.outcome_stays [OF reachable_reach [OF assms(1)] _ that, of "close_service S"]
    by (auto simp: service_step_def intro: approval_step.ap_close)
  moreover have "as_pending (close_service S) = []" using close_fields(1) [of S] assms(2) pending_ids_keys [of "close_service S"] by simp
  ultimately show ?thesis using close_fields(2) [of S] by (simp add: request_def requestHidden_def)
qed

text \<open>
  The timer of a request and the time shown with it agree.  As long as the time to live is
  below 2 to the 31 milliseconds, the timer fires exactly at the moment the request says it
  expires, which is the moment of the request plus its time to live.
\<close>

theorem timer_matches_expiry:
  assumes "requestHidden i now inp ttl S = (Inr r, S')" "ttl < 2 ^ 31"
  shows "\<exists>e. map_of (as_pending S') i = Some e \<and> pn_request e = r \<and> pn_deadline e = now + nat ttl
    \<and> parse_iso (ar_expiresAt r) = Some (pn_deadline e) \<and> (\<forall>t. expired_at t e = (pn_deadline e \<le> t))"
  using assms
  by (auto simp: requestHidden_def Let_def timer_delay_def expired_at_def dest: parse_toISOString split: if_splits option.splits)

subsection \<open>Concrete runs\<close>

definition demo_input :: approval_input where
  "demo_input = \<lparr>ain_serverId = ''fs'', ain_toolName = ''read_file'', ain_arguments = JObj [], ain_identity = None,
     ain_risk = JObj [], ain_reasonCodes = []\<rparr>"

lemma demo_request:
  "\<exists>r S. requestHidden ''r1'' 0 demo_input 1000 new_service = (Inr r, S) \<and> as_outcomes S = [] \<and> \<not> as_closed S
     \<and> map_of (as_pending S) ''r1'' = Some \<lparr>pn_request = r, pn_deadline = 1000, pn_visible = False\<rparr>
     \<and> ar_expiresAt r = iso_text 1000 \<and> approval_reachable S"
proof -
  have f: "''r1'' \<notin> seen new_service" by (simp add: seen_def new_service_def pending_ids_def)
  have "\<exists>r S. requestHidden ''r1'' 0 demo_input 1000 new_service = (Inr r, S) \<and> as_outcomes S = [] \<and> \<not> as_closed S
     \<and> map_of (as_pending S) ''r1'' = Some \<lparr>pn_request = r, pn_deadline = 1000, pn_visible = False\<rparr>
     \<and> ar_expiresAt r = iso_text 1000"
    by (simp add: requestHidden_def new_service_def toISOString_def max_time_def max_safe_def timer_delay_def Let_def)
  then show ?thesis using ap_step [OF ap_new ap_request [OF f]] by blast
qed

lemma demo_visible:
  "\<exists>S e. approval_reachable S \<and> as_outcomes S = [] \<and> \<not> as_closed S \<and> map_of (as_pending S) ''r1'' = Some e
     \<and> pn_visible e \<and> \<not> expired_at 500 e"
proof -
  obtain r S where S: "as_outcomes S = []" "\<not> as_closed S" "approval_reachable S"
    "map_of (as_pending S) ''r1'' = Some \<lparr>pn_request = r, pn_deadline = 1000, pn_visible = False\<rparr>"
    "ar_expiresAt r = iso_text 1000" using demo_request by blast
  obtain q T where T: "publish ''r1'' S = (q, T)" by fastforce
  with S(4) have "map_of (as_pending T) ''r1'' = Some \<lparr>pn_request = r, pn_deadline = 1000, pn_visible = True\<rparr>"
    "as_outcomes T = []" "\<not> as_closed T"
    using S(1,2) by (auto simp: publish_def)
  moreover have "approval_reachable T" using ap_step [OF S(3) ap_publish [OF T, of 0]] .
  moreover have "parse_iso (iso_text 1000) = Some 1000"
    by (rule parse_toISOString) (simp add: toISOString_def max_time_def)
  ultimately show ?thesis using S(5) by (intro exI [of _ T] exI) (auto simp: expired_at_def)
qed

theorem approval_settled_once_witness:
  "\<exists>S. approval_reachable S \<and> as_outcomes S = [(''r1'', O_approved)] \<and> ''r1'' \<notin> pending_ids S"
proof -
  obtain S e where S: "approval_reachable S" "as_outcomes S = []" "map_of (as_pending S) ''r1'' = Some e"
    "pn_visible e" "\<not> expired_at 500 e" using demo_visible by blast
  let ?T = "settle ''r1'' O_approved S"
  have "decide ''r1'' O_approved 500 S = (Some O_approved, ?T)" using S by (simp add: decide_def)
  then have r: "approval_reachable ?T" using ap_step [OF S(1) ap_decide] by blast
  have o: "as_outcomes ?T = [(''r1'', O_approved)]" using S by (simp add: settle_fields pending_ids_iff)
  from approval_settled_once [OF r] r o show ?thesis by (intro exI [of _ ?T]) simp
qed

theorem approval_only_by_decision_witness:
  "\<exists>S T. approval_step 500 S T \<and> as_outcomes T = as_outcomes S @ [(''r1'', O_approved)]
     \<and> (\<exists>e. map_of (as_pending S) ''r1'' = Some e \<and> \<not> expired_at 500 e)"
proof -
  obtain S e where "approval_reachable S" "as_outcomes S = []" "\<not> as_closed S"
    and S: "map_of (as_pending S) ''r1'' = Some e" "pn_visible e" "\<not> expired_at 500 e"
    using demo_visible by blast
  let ?T = "settle ''r1'' O_approved S"
  have "decide ''r1'' O_approved 500 S = (Some O_approved, ?T)" using S by (simp add: decide_def)
  then have st: "approval_step 500 S ?T" by (intro ap_decide) auto
  have o: "as_outcomes ?T = as_outcomes S @ [(''r1'', O_approved)]" using S by (simp add: settle_fields pending_ids_iff)
  from approval_only_by_decision [OF st o, of "''r1''"] st o show ?thesis by (intro exI [of _ S] exI [of _ ?T]) auto
qed

theorem close_settles_all_witness:
  "\<exists>S. approval_reachable S \<and> \<not> as_closed S \<and> ''r1'' \<in> pending_ids S
     \<and> map_of (as_outcomes (close_service S)) ''r1'' = Some O_cancelled"
proof -
  obtain S e where S: "approval_reachable S" "\<not> as_closed S" "map_of (as_pending S) ''r1'' = Some e"
    using demo_visible by blast
  then have p: "''r1'' \<in> pending_ids S" by (simp add: pending_ids_iff)
  from close_settles_all [OF S(1,2)] S p show ?thesis by blast
qed

theorem timer_matches_expiry_witness:
  "\<exists>r S' e. requestHidden ''r1'' 0 demo_input 1000 new_service = (Inr r, S') \<and> map_of (as_pending S') ''r1'' = Some e
     \<and> parse_iso (ar_expiresAt r) = Some 1000"
proof -
  obtain r S where S: "requestHidden ''r1'' 0 demo_input 1000 new_service = (Inr r, S)" using demo_request by blast
  from timer_matches_expiry [OF S] obtain e where "map_of (as_pending S) ''r1'' = Some e" "parse_iso (ar_expiresAt r) = Some 1000"
    by auto
  with S show ?thesis by blast
qed

end
