(* ===== verification/LivePolicy.thy ===== *)
theory LivePolicy
  imports Policy Recorder
begin

section \<open>The live policy\<close>

text \<open>
  Models src/policy/loader.ts, identity.ts, policy-interceptor.ts and live-controller.ts: the
  policy file, the document in force, the update of both under optimistic concurrency, and the
  decision the interceptor derives from an evaluation.

  The YAML parser is a package: \<open>yaml\<close> gives the value of the document, or \<open>None\<close> when it
  reports errors.  The file is the text at the policy path; each system call of an update
  can fail.
\<close>

subsection \<open>Loading\<close>

type_synonym yaml_parser = "string \<Rightarrow> jsval option"

definition MAX_POLICY_BYTES :: nat where "MAX_POLICY_BYTES = 1048576"

definition parsePolicyYaml :: "yaml_parser \<Rightarrow> string \<Rightarrow> policy_error + policy_document" where
  "parsePolicyYaml yaml source =
     (if MAX_POLICY_BYTES < utf8_length source then Inl PolicyTooLarge
      else case yaml source of None \<Rightarrow> Inl PolicyYaml | Some v \<Rightarrow> parse_policy_document v)"

subsection \<open>The identity of a policy\<close>

definition policyIdentity :: "policy_document \<Rightarrow> string \<Rightarrow> string \<Rightarrow> audit_error + policy_identity" where
  "policyIdentity policy name version =
     rbind (canonicalReceiptJson (JObj
        [(''format'', JStr ''apg-validated-policy-v1''), (''policy'', policy_json policy)])) (\<lambda>t.
     Inr \<lparr>pid_schemaVersion = pol_version policy, pid_contentDigest = sha256_digest t,
          pid_evaluatorName = name, pid_evaluatorVersion = version\<rparr>)"

definition staticPolicyIdentity :: "int \<Rightarrow> string \<Rightarrow> string \<Rightarrow> jsval \<Rightarrow> audit_error + policy_identity" where
  "staticPolicyIdentity schemaVersion name version model =
     rbind (canonicalReceiptJson (JObj
        [(''format'', JStr ''apg-static-policy-v1''), (''evaluatorName'', JStr name),
         (''evaluatorVersion'', JStr version), (''model'', model)])) (\<lambda>t.
     Inr \<lparr>pid_schemaVersion = schemaVersion, pid_contentDigest = sha256_digest t,
          pid_evaluatorName = name, pid_evaluatorVersion = version\<rparr>)"

subsection \<open>The interceptor\<close>

fun reason_name :: "reason_code \<Rightarrow> string" where
  "reason_name (Match_reason matched_rule) = ''matched_rule''"
| "reason_name (Match_reason default_ask) = ''default_ask''"
| "reason_name risk_escalation = ''risk_escalation''"

fun source_name :: "signal_source \<Rightarrow> string" where
  "source_name policy_tag = ''policy_tag''"
| "source_name tool_name = ''tool_name''"
| "source_name argument_key = ''argument_key''"
| "source_name argument_value = ''argument_value''"
| "source_name annotation = ''annotation''"

definition signal_json :: "risk_signal \<Rightarrow> jsval" where
  "signal_json s = JObj
     ([(''code'', JStr (tag_name (sig_code s))), (''points'', JInt (int (sig_points s))),
       (''source'', JStr (source_name (sig_source s)))]
      @ (case sig_path s of None \<Rightarrow> [] | Some p \<Rightarrow> [(''evidencePath'', JStr p)]))"

definition audit_view :: "policy_evaluation \<Rightarrow> audit_evaluation" where
  "audit_view e =
     \<lparr>ae_base = pe_base e, ae_effective = pe_effective e, ae_rule = pe_matchedRuleId e,
      ae_reasons = map reason_name (pe_reasonCodes e), ae_score = int (ra_score (pe_risk e)),
      ae_band = ra_band (pe_risk e), ae_signals = map signal_json (ra_signals (pe_risk e))\<rparr>"

definition policy_input_of :: "tool_context \<Rightarrow> policy_input" where
  "policy_input_of c =
     \<lparr>pi_serverId = tc_serverId c, pi_toolName = tc_toolName c, pi_arguments = tc_arguments c,
      pi_annotations = tc_annotations c\<rparr>"

fun decision_action :: "decision \<Rightarrow> action" where
  "decision_action allow = Forward"
| "decision_action ask = Ask"
| "decision_action deny = Deny"

definition proxy_context :: "tool_context \<Rightarrow> policy_identity \<Rightarrow> receipt_context" where
  "proxy_context c q =
     \<lparr>rc_adapter = ''mcp_proxy'', rc_adapterVersion = ''1'', rc_operation = tc_toolName c,
      rc_boundary = Mcp_proxy_call, rc_assurance = Structural_only, rc_material = structural_material c,
      rc_evidence = None, rc_subject = Some (tc_serverId c), rc_planHash = None, rc_policy = q\<rparr>"

definition evaluate_call :: "policy_document \<Rightarrow> tool_context \<Rightarrow> audit_error + audit_decision" where
  "evaluate_call policy c =
     (let e = evaluatePolicy policy (policy_input_of c) in
      rbind (policyIdentity policy ''apg_mcp_policy'' ''1'') (\<lambda>q.
      Inr \<lparr>ad_action = decision_action (pe_effective e),
           ad_reason = (if pe_effective e = allow then [] else join_with '', '' (map reason_name (pe_reasonCodes e))),
           ad_receipt = Some (proxy_context c q), ad_evaluation = Some (audit_view e)\<rparr>))"

subsection \<open>The controller\<close>

record live_policy =
  lp_policy :: policy_document
  lp_source :: string
  lp_revision :: string

text \<open>The policy path: a regular file or not, its text, and whether a temporary file is left beside it.\<close>

record policy_disk =
  pd_regular :: bool
  pd_text :: "string option"
  pd_leftover :: bool

text \<open>Which system calls of an update succeed.\<close>

record disk_calls =
  dk_open :: bool
  dk_write :: bool
  dk_sync :: bool
  dk_close :: bool
  dk_rename :: bool
  dk_unlink :: bool

datatype live_error = Policy_failure policy_error | Not_regular | Disk_failure

definition lift_policy :: "policy_error + 'a \<Rightarrow> live_error + 'a" where
  "lift_policy r = (case r of Inl e \<Rightarrow> Inl (Policy_failure e) | Inr x \<Rightarrow> Inr x)"

definition hashSource :: "string \<Rightarrow> string" where
  "hashSource source = sha256 source"

definition open_policy :: "yaml_parser \<Rightarrow> policy_disk \<Rightarrow> live_error + live_policy" where
  "open_policy yaml d =
     (if \<not> pd_regular d then Inl Not_regular
      else case pd_text d of
        None \<Rightarrow> Inl Disk_failure
      | Some source \<Rightarrow>
          rbind (lift_policy (parsePolicyYaml yaml source)) (\<lambda>p.
          Inr \<lparr>lp_policy = p, lp_source = source, lp_revision = hashSource source\<rparr>))"

definition getView :: "live_policy \<Rightarrow> string \<times> string" where
  "getView s = (lp_source s, lp_revision s)"

definition getApprovalTtlMs :: "live_policy \<Rightarrow> int" where
  "getApprovalTtlMs s = approval_ttl_seconds (pol_defaults (lp_policy s)) * 1000"

text \<open>
  The write of an update: a new temporary file is created, written, synchronised and closed,
  and renamed over the policy; on an error before the rename it is removed if that works.
\<close>

definition replace_file :: "disk_calls \<Rightarrow> string \<Rightarrow> policy_disk \<Rightarrow> (live_error + unit) \<times> policy_disk" where
  "replace_file k source d =
     (if \<not> dk_open k then (Inl Disk_failure, d)
      else if \<not> (dk_write k \<and> dk_sync k \<and> dk_close k \<and> dk_rename k)
        then (Inl Disk_failure, if dk_unlink k then d else d\<lparr>pd_leftover := True\<rparr>)
      else (Inr (), d\<lparr>pd_text := Some source, pd_regular := True\<rparr>))"

definition update :: "yaml_parser \<Rightarrow> disk_calls \<Rightarrow> string \<Rightarrow> string \<Rightarrow> live_policy \<Rightarrow> policy_disk
    \<Rightarrow> (live_error + string \<times> string) \<times> live_policy \<times> policy_disk" where
  "update yaml k source expectedRevision s d =
     (if expectedRevision \<noteq> lp_revision s then (Inl (Policy_failure PolicyConflict), s, d)
      else case parsePolicyYaml yaml source of
        Inl e \<Rightarrow> (Inl (Policy_failure e), s, d)
      | Inr p \<Rightarrow>
          (case pd_text d of
             None \<Rightarrow> (Inl Disk_failure, s, d)
           | Some diskSource \<Rightarrow>
               if hashSource diskSource \<noteq> lp_revision s then (Inl (Policy_failure PolicyConflict), s, d)
               else case replace_file k source d of
                 (Inl e, d') \<Rightarrow> (Inl e, s, d')
               | (Inr _, d') \<Rightarrow>
                   (let s' = \<lparr>lp_policy = p, lp_source = source, lp_revision = hashSource source\<rparr>
                    in (Inr (getView s'), s', d'))))"

subsection \<open>Properties\<close>

text \<open>The controller's own state is that of a policy it parsed.\<close>

definition live_ok :: "yaml_parser \<Rightarrow> live_policy \<Rightarrow> bool" where
  "live_ok yaml s \<longleftrightarrow> parsePolicyYaml yaml (lp_source s) = Inr (lp_policy s) \<and> lp_revision s = hashSource (lp_source s)"

lemma parsed_wf:
  assumes "parsePolicyYaml yaml source = Inr p"
  shows "wf_policy p"
  using assms parse_policy_wf by (auto simp: parsePolicyYaml_def split: if_splits option.splits)

lemma open_ok: "open_policy yaml d = Inr s \<Longrightarrow> live_ok yaml s"
  by (auto simp: open_policy_def live_ok_def lift_policy_def rbind_Inr_iff split: if_splits option.splits sum.splits)

lemma update_cases:
  assumes "update yaml k source rv s d = (r, s', d')"
  obtains (refused) e where "r = Inl e" "s' = s" "pd_text d' = pd_text d" "pd_regular d' = pd_regular d"
  | (updated) p old where "r = Inr (source, hashSource source)" "rv = lp_revision s" "parsePolicyYaml yaml source = Inr p"
      "pd_text d = Some old" "hashSource old = lp_revision s" "pd_text d' = Some source"
      "s' = \<lparr>lp_policy = p, lp_source = source, lp_revision = hashSource source\<rparr>"
  using assms
  by (auto simp: update_def replace_file_def getView_def Let_def split: if_splits sum.splits option.splits)

text \<open>
  C36: an update of the policy is atomic and never loses a change.  When it is refused, for a
  conflict, an invalid policy or a failing system call, the policy in force and the file are as
  they were.  When it succeeds, the caller named the revision in force, the file still held the
  text of that revision (or a text with the same SHA-256), and both the file and the policy in
  force are now the new ones.
\<close>

theorem policy_update_atomic:
  assumes "live_ok yaml s"
  shows "case update yaml k source rv s d of
      (Inl e, s', d') \<Rightarrow> s' = s \<and> pd_text d' = pd_text d
    | (Inr v, s', d') \<Rightarrow> v = (source, sha256 source) \<and> rv = sha256 (lp_source s)
        \<and> (\<exists>old. pd_text d = Some old \<and> (old = lp_source s \<or> collision old (lp_source s)))
        \<and> pd_text d' = Some source \<and> live_ok yaml s' \<and> lp_source s' = source"
proof -
  obtain r s' d' where u: "update yaml k source rv s d = (r, s', d')" by (cases "update yaml k source rv s d")
  then show ?thesis
  proof (cases rule: update_cases)
    case (refused e)
    with u show ?thesis by simp
  next
    case (updated p old)
    have "sha256 old = sha256 (lp_source s)" using updated(5) assms by (simp add: live_ok_def hashSource_def)
    then have "old = lp_source s \<or> collision old (lp_source s)" by (rule sha256_eq_cases)
    with u updated assms show ?thesis by (simp add: live_ok_def hashSource_def)
  qed
qed

text \<open>
  Of two updates that start from the same revision at most one takes effect: after the
  first has changed the policy, the second is refused, unless the two texts collide under
  SHA-256.
\<close>

theorem policy_update_no_lost_update:
  assumes "live_ok yaml s" "update yaml k a rv s d = (Inr v, s1, d1)" "a \<noteq> lp_source s"
  shows "fst (update yaml l b rv s1 d1) = Inl (Policy_failure PolicyConflict) \<or> collision a (lp_source s)"
  using assms(2)
proof (cases rule: update_cases)
  case (updated p old)
  show ?thesis
  proof (cases "rv = lp_revision s1")
    case True
    then have "sha256 a = sha256 (lp_source s)"
      using updated assms(1) by (simp add: live_ok_def hashSource_def)
    with assms(3) sha256_eq_cases show ?thesis by blast
  qed (simp add: update_def)
qed simp

text \<open>
  The time an approval may take under any policy in force is at least a second and at
  most an hour, so its timer never exceeds the range of a timeout.
\<close>

theorem approval_ttl_bounds:
  assumes "live_ok yaml s"
  shows "1000 \<le> getApprovalTtlMs s \<and> getApprovalTtlMs s \<le> 3600000 \<and> getApprovalTtlMs s < 2 ^ 31"
  using parsed_wf assms by (fastforce simp: live_ok_def getApprovalTtlMs_def wf_policy_def)

text \<open>
  A call is forwarded without asking only when a rule of the policy in force that applies
  to its server and tool allows it and its risk score is below 60; the decision carries the
  evaluation and the digest of exactly this policy.
\<close>

theorem evaluate_call_forward:
  assumes "evaluate_call policy c = Inr d"
  shows "(ad_action d \<noteq> Forward \<or> (\<exists>r \<in> set (pol_rules policy). rule_applies r (tc_serverId c) (tc_toolName c)
      \<and> rule_decision r = allow) \<and> ae_score (normalizeEvaluation d) < 60)
    \<and> ae_effective (normalizeEvaluation d) = (case ad_action d of Forward \<Rightarrow> allow | Ask \<Rightarrow> ask | Deny \<Rightarrow> deny)
    \<and> (\<exists>q. policyIdentity policy ''apg_mcp_policy'' ''1'' = Inr q \<and> rc_policy (trustedReceiptContext c (ad_receipt d)) = q)"
proof -
  obtain q where q: "policyIdentity policy ''apg_mcp_policy'' ''1'' = Inr q"
    "ad_action d = decision_action (pe_effective (evaluatePolicy policy (policy_input_of c)))"
    "ad_receipt d = Some (proxy_context c q)" "ad_evaluation d = Some (audit_view (evaluatePolicy policy (policy_input_of c)))"
    using assms by (auto simp: evaluate_call_def Let_def rbind_Inr_iff)
  have n: "normalizeEvaluation d = audit_view (evaluatePolicy policy (policy_input_of c))"
    using q(4) by (simp add: normalizeEvaluation_def)
  have "decision_action x = Forward \<longleftrightarrow> x = allow" for x by (cases x) simp_all
  then have "ad_action d \<noteq> Forward \<or> (\<exists>r \<in> set (pol_rules policy). rule_applies r (tc_serverId c) (tc_toolName c)
      \<and> rule_decision r = allow) \<and> ae_score (normalizeEvaluation d) < 60"
    using evaluate_allows [of policy "policy_input_of c"] q(2) n by (auto simp: audit_view_def policy_input_of_def)
  moreover have "ae_effective (normalizeEvaluation d) = (case ad_action d of Forward \<Rightarrow> allow | Ask \<Rightarrow> ask | Deny \<Rightarrow> deny)"
    unfolding n q(2) by (cases "pe_effective (evaluatePolicy policy (policy_input_of c))") (simp_all add: audit_view_def)
  moreover have "rc_policy (trustedReceiptContext c (ad_receipt d)) = q"
    by (simp add: q(3) trustedReceiptContext_def proxy_context_def Let_def)
  ultimately show ?thesis using q(1) by blast
qed

subsection \<open>Concrete runs\<close>

definition demo_yaml :: yaml_parser where
  "demo_yaml s = (if s = ''a'' then Some (policy_json demo_policy)
     else if s = ''b'' then Some (policy_json (demo_policy\<lparr>pol_rules := []\<rparr>)) else None)"

definition demo_live :: live_policy where
  "demo_live = \<lparr>lp_policy = demo_policy, lp_source = ''a'', lp_revision = sha256 ''a''\<rparr>"

definition demo_disk :: policy_disk where
  "demo_disk = \<lparr>pd_regular = True, pd_text = Some ''a'', pd_leftover = False\<rparr>"

definition all_succeed :: disk_calls where
  "all_succeed = \<lparr>dk_open = True, dk_write = True, dk_sync = True, dk_close = True, dk_rename = True, dk_unlink = True\<rparr>"

lemma demo_parse:
  "parsePolicyYaml demo_yaml ''a'' = Inr demo_policy" "is_ok (parsePolicyYaml demo_yaml ''b'')"
proof -
  have "parse_policy_document (policy_json demo_policy) = Inr demo_policy" by code_simp
  then show "parsePolicyYaml demo_yaml ''a'' = Inr demo_policy"
    by (simp add: parsePolicyYaml_def demo_yaml_def MAX_POLICY_BYTES_def)
  have "is_ok (parse_policy_document (policy_json (demo_policy\<lparr>pol_rules := []\<rparr>)))" by code_simp
  then show "is_ok (parsePolicyYaml demo_yaml ''b'')"
    by (simp add: parsePolicyYaml_def demo_yaml_def MAX_POLICY_BYTES_def)
qed

lemma demo_live_ok: "live_ok demo_yaml demo_live"
  by (simp add: live_ok_def demo_live_def demo_parse hashSource_def)

lemma demo_update: "\<exists>v s' d'. update demo_yaml all_succeed ''b'' (sha256 ''a'') demo_live demo_disk = (Inr v, s', d')"
  using demo_parse(2) by (auto simp: update_def demo_live_def demo_disk_def hashSource_def replace_file_def all_succeed_def is_ok_iff Let_def
      getView_def)

theorem policy_update_atomic_witness:
  "\<exists>v s' d'. update demo_yaml all_succeed ''b'' (sha256 ''a'') demo_live demo_disk = (Inr v, s', d') \<and> pd_text d' = Some ''b''"
proof -
  obtain v s' d' where "update demo_yaml all_succeed ''b'' (sha256 ''a'') demo_live demo_disk = (Inr v, s', d')"
    using demo_update by blast
  with policy_update_atomic [OF demo_live_ok, where k = all_succeed and source = "''b''" and rv = "sha256 ''a''" and d = demo_disk]
  show ?thesis by auto
qed

theorem policy_update_no_lost_update_witness:
  "\<exists>s1 d1. fst (update demo_yaml all_succeed ''a'' (sha256 ''a'') s1 d1) = Inl (Policy_failure PolicyConflict)
     \<or> collision ''b'' (lp_source demo_live)"
proof -
  obtain v s' d' where u: "update demo_yaml all_succeed ''b'' (sha256 ''a'') demo_live demo_disk = (Inr v, s', d')"
    using demo_update by blast
  have "''b'' \<noteq> lp_source demo_live" by (simp add: demo_live_def)
  from policy_update_no_lost_update [OF demo_live_ok u this] show ?thesis by blast
qed

theorem approval_ttl_bounds_witness: "getApprovalTtlMs demo_live = 120000 \<and> getApprovalTtlMs demo_live \<le> 3600000"
proof -
  have "getApprovalTtlMs demo_live = 120000"
    by (simp add: getApprovalTtlMs_def demo_live_def demo_policy_def)
  with approval_ttl_bounds [OF demo_live_ok] show ?thesis by simp
qed

theorem evaluate_call_forward_witness:
  "\<exists>d. evaluate_call demo_policy \<lparr>tc_serverId = ''fs'', tc_toolName = ''other'', tc_arguments = JObj [], tc_annotations = None,
       tc_identity = None\<rparr> = Inr d \<and> ad_action d \<noteq> Forward"
proof -
  let ?c = "\<lparr>tc_serverId = ''fs'', tc_toolName = ''other'', tc_arguments = JObj [], tc_annotations = None, tc_identity = None\<rparr>"
  let ?m = "JObj [(''format'', JStr ''apg-validated-policy-v1''), (''policy'', policy_json demo_policy)]"
  have "validateJsonValue ?m 0 = Inr ()"
    by (simp add: policy_json_def demo_policy_def demo_rule_def rule_json_def validateJsonValue.simps max_depth_def
        max_collection_def max_string_def)
  then obtain t where "canonicalReceiptJson ?m = Inr t" by (simp add: canonicalReceiptJson_def)
  then obtain d where d: "evaluate_call demo_policy ?c = Inr d"
    by (simp add: evaluate_call_def Let_def policyIdentity_def)
  have "\<forall>r \<in> set (pol_rules demo_policy). \<not> rule_applies r ''fs'' ''other''" by code_simp
  with evaluate_call_forward [OF d] d show ?thesis by auto
qed

end
