(* ===== verification/Gateway.thy ===== *)
theory Gateway
  imports AuditLog Approval LivePolicy
begin

section \<open>The gateway\<close>

text \<open>
  Models src/gateway/call-interceptor.ts and gateway.ts: the start of the gateway and the
  handler of \<open>tools/call\<close>, over the recorder, the approval service and the policy interceptor.

  The handler waits for other parties three times: for the interceptor, for the outcome of an
  approval, for the upstream server.  \<open>gateway_env\<close> holds what they do and what happens
  meanwhile: \<open>ge_meanwhile\<close> is the effect on the log of the other calls in progress,
  \<open>ge_wait\<close> that on the approvals, \<open>ge_aborted\<close> whether the call is aborted at a point where
  the handler asks.  The upstream server, the projection of results by the protocol library,
  the clock and the random identifiers are outside.  The table of abort controllers is not modelled.
\<close>

datatype gateway_error =
  Audit_failure audit_error | Approval_failure approval_error | Cancelled_waiting | Cancelled_approved
  | Upstream_failed | Projection_failed

subsection \<open>Start\<close>

text \<open>\<open>toolsByName\<close>: of tools with the same name the last is kept.\<close>

definition tools_by_name :: "mcp_tool list \<Rightarrow> (string, mcp_tool) omap" where
  "tools_by_name ts = foldl (\<lambda>m t. om_set (tl_name t) t m) [] ts"

text \<open>The tools the upstream lists, or an error; the second component: the upstream was closed again.\<close>

definition createGateway :: "identity_authority \<Rightarrow> string \<Rightarrow> audit_error + mcp_tool list
    \<Rightarrow> (audit_error + (string, mcp_tool) omap) \<times> bool" where
  "createGateway au serverId listed =
     (case rbind listed (\<lambda>ts. rbind (preflight au serverId ts) (\<lambda>_. Inr ts)) of
        Inl e \<Rightarrow> (Inl e, True)
      | Inr ts \<Rightarrow> (Inr (tools_by_name ts), False))"

subsection \<open>A call and its surroundings\<close>

record gateway_state =
  gs_db :: audit_db
  gs_approvals :: approval_service
  gs_upstream :: "call_params list"

record gateway_env =
  ge_authority :: identity_authority
  ge_serverId :: string
  ge_tools :: "(string, mcp_tool) omap"
  ge_evaluate :: "tool_context \<Rightarrow> audit_error + audit_decision"
  ge_audit :: "nat \<Rightarrow> audit_env"
  ge_coordinator :: bool
  ge_requestId :: string
  ge_now :: nat
  ge_ttl :: int
  ge_wait :: "approval_service \<Rightarrow> approval_service"
  ge_meanwhile :: "nat \<Rightarrow> audit_db \<Rightarrow> audit_db"
  ge_aborted :: "nat \<Rightarrow> bool"
  ge_call :: "call_params \<Rightarrow> tool_result option"
  ge_project :: "mcp_tool option \<Rightarrow> tool_result \<Rightarrow> tool_result option"

text \<open>The handler returns, throws, or waits for an approval nobody settles.\<close>

datatype handler_result = Returned tool_result | Threw gateway_error | Waiting

subsection \<open>Preparing the call\<close>

definition prepareToolCall :: "gateway_env \<Rightarrow> call_params \<Rightarrow> mcp_tool option \<Rightarrow> audit_error + tool_context \<times> call_params" where
  "prepareToolCall E ps tool =
     rbind (prepare (ge_authority E) (ge_serverId E) ps (case tool of None \<Rightarrow> None | Some t \<Rightarrow> tl_inputSchema t) False)
       (\<lambda>(r, ps'). Inr (\<lparr>tc_serverId = ge_serverId E, tc_toolName = cp_name ps', tc_arguments = arguments_of ps',
           tc_annotations = (case tool of None \<Rightarrow> None | Some t \<Rightarrow> tl_annotations t), tc_identity = Some r\<rparr>, ps'))"

definition text_result :: "string \<Rightarrow> tool_result" where
  "text_result msg = \<lparr>tr_isError = True, tr_types = [''text''],
     tr_value = JObj [(''content'', JArr [JObj [(''type'', JStr ''text''), (''text'', JStr msg)]]),
                      (''isError'', JBool True)]\<rparr>"

definition exactIdentityRequiredResult :: tool_result where
  "exactIdentityRequiredResult = text_result
     ''Agent Permission Guard blocked this tool call: the request did not match the required reviewed identity profile. No upstream tool call was made.''"

definition approvalUnavailableResult :: "string \<Rightarrow> tool_result" where
  "approvalUnavailableResult reason = text_result
     (''Agent Permission Guard requires human approval, but approval is unavailable: '' @ reason)"

definition approvalResult :: "approval_outcome \<Rightarrow> string \<Rightarrow> tool_result" where
  "approvalResult outcome reason = text_result
     (''Agent Permission Guard blocked this tool call: ''
      @ (if outcome = O_denied then ''Human approval was denied'' else ''Human approval expired'') @ ''. '' @ reason)"

definition deniedResult :: "string \<Rightarrow> tool_result" where
  "deniedResult reason = text_result (''Agent Permission Guard denied this tool call: '' @ reason)"

definition exactIdentityRequiredDecision :: "jsval \<Rightarrow> audit_decision" where
  "exactIdentityRequiredDecision failureCode =
     \<lparr>ad_action = Deny, ad_reason = ''exact_identity_required'', ad_receipt = None,
      ad_evaluation = Some \<lparr>ae_base = deny, ae_effective = deny, ae_rule = None,
        ae_reasons = ''exact_identity_required''
          # (case failureCode of JStr c \<Rightarrow> [''identity_'' @ c] | _ \<Rightarrow> []),
        ae_score = 0, ae_band = low, ae_signals = []\<rparr>\<rparr>"

subsection \<open>The handler\<close>

type_synonym handler = "handler_result \<times> call_state option \<times> gateway_state"

definition project_result :: "gateway_env \<Rightarrow> mcp_tool option \<Rightarrow> tool_result \<Rightarrow> handler_result" where
  "project_result E tool r = (case ge_project E tool r of None \<Rightarrow> Threw Projection_failed | Some r' \<Rightarrow> Returned r')"

definition throw :: "gateway_error \<Rightarrow> call_state option \<Rightarrow> gateway_state \<Rightarrow> handler" where
  "throw e s S = (Threw e, s, S)"

text \<open>The \<open>k\<close>-th use of the recorder by this call; the rest of the handler runs if it does not throw.\<close>

definition audited :: "gateway_env \<Rightarrow> nat \<Rightarrow> recorder_op \<Rightarrow> call_state \<Rightarrow> gateway_state
    \<Rightarrow> (call_state \<Rightarrow> gateway_state \<Rightarrow> handler) \<Rightarrow> handler" where
  "audited E k op s S rest =
     (case apply_op op (ge_audit E k) s (gs_db S) of
        (Inl e, s', db') \<Rightarrow> throw (Audit_failure e) (Some s') (S\<lparr>gs_db := db'\<rparr>)
      | (Inr _, s', db') \<Rightarrow> rest s' (S\<lparr>gs_db := db'\<rparr>))"

definition meanwhile :: "gateway_env \<Rightarrow> nat \<Rightarrow> gateway_state \<Rightarrow> gateway_state" where
  "meanwhile E k S = S\<lparr>gs_db := ge_meanwhile E k (gs_db S)\<rparr>"

text \<open>\<open>markBlocked\<close>, then the result that tells the client.\<close>

definition block :: "gateway_env \<Rightarrow> nat \<Rightarrow> block_status \<Rightarrow> mcp_tool option \<Rightarrow> tool_result \<Rightarrow> call_state \<Rightarrow> gateway_state \<Rightarrow> handler" where
  "block E k b tool r s S = audited E k (Op_blocked b) s S (\<lambda>s' S'. (project_result E tool r, Some s', S'))"

text \<open>The outcome is recorded; if that or the projection throws, a failure is recorded, whose own error is dropped.\<close>

definition complete :: "gateway_env \<Rightarrow> mcp_tool option \<Rightarrow> tool_result \<Rightarrow> call_state \<Rightarrow> gateway_state \<Rightarrow> handler" where
  "complete E tool r s S =
     (case audited E 5 (Op_completed r) s S (\<lambda>s' S'. (project_result E tool r, Some s', S')) of
        (Threw e, Some s', S') \<Rightarrow>
          (case apply_op (Op_failed ''audit_completion_failed'') (ge_audit E 6) s' (gs_db S') of
             (_, s'', db'') \<Rightarrow> throw e (Some s'') (S'\<lparr>gs_db := db''\<rparr>))
      | res \<Rightarrow> res)"

definition dispatch :: "gateway_env \<Rightarrow> call_params \<Rightarrow> mcp_tool option \<Rightarrow> call_state \<Rightarrow> gateway_state \<Rightarrow> handler" where
  "dispatch E ps tool s S =
     audited E 3 Op_forwarding s S (\<lambda>s1 S1.
       let S2 = meanwhile E 2 (S1\<lparr>gs_upstream := gs_upstream S1 @ [ps]\<rparr>) in
       case ge_call E ps of
         None \<Rightarrow> audited E 4 (Op_failed (if ge_aborted E 2 then ''cancelled'' else ''upstream_error'')) s1 S2
                   (\<lambda>s3 S3. throw Upstream_failed (Some s3) S3)
       | Some r \<Rightarrow> complete E tool r s1 S2)"

fun block_of :: "approval_outcome \<Rightarrow> block_status" where
  "block_of O_denied = B_approval_denied"
| "block_of O_expired = B_approval_expired"
| "block_of O_cancelled = B_approval_cancelled"
| "block_of O_approved = B_approval_cancelled"

definition approval_input_of :: "tool_context \<Rightarrow> audit_decision \<Rightarrow> approval_input" where
  "approval_input_of c d =
     \<lparr>ain_serverId = tc_serverId c, ain_toolName = tc_toolName c, ain_arguments = tc_arguments c,
      ain_identity = map_option mi_view (tc_identity c),
      ain_risk = JObj [(''score'', JInt (ae_score (normalizeEvaluation d))),
                      (''band'', JStr (band_name (ae_band (normalizeEvaluation d)))),
                      (''signals'', JArr (ae_signals (normalizeEvaluation d)))],
      ain_reasonCodes = ae_reasons (normalizeEvaluation d)\<rparr>"

text \<open>After the ticket's promise resolved with \<open>x\<close>.\<close>

definition resolved :: "gateway_env \<Rightarrow> call_params \<Rightarrow> mcp_tool option \<Rightarrow> audit_decision \<Rightarrow> string \<Rightarrow> approval_outcome
    \<Rightarrow> call_state \<Rightarrow> gateway_state \<Rightarrow> handler" where
  "resolved E ps tool d i x s S =
     audited E 2 (Op_approval_resolved i (outcome_state x)) s S (\<lambda>s1 S1.
       if x \<noteq> O_approved then
         audited E 3 (Op_blocked (block_of x)) s1 S1 (\<lambda>s2 S2.
           if x = O_cancelled then throw Cancelled_waiting (Some s2) S2
           else (project_result E tool (approvalResult x (ad_reason d)), Some s2, S2))
       else if ge_aborted E 1 then
         audited E 3 (Op_failed ''cancelled_before_execution'') s1 S1 (\<lambda>s2 S2. throw Cancelled_approved (Some s2) S2)
       else dispatch E ps tool s1 S1)"

definition ask_human :: "gateway_env \<Rightarrow> call_params \<Rightarrow> mcp_tool option \<Rightarrow> tool_context \<Rightarrow> audit_decision
    \<Rightarrow> call_state \<Rightarrow> gateway_state \<Rightarrow> handler" where
  "ask_human E ps tool c d s S =
     (case request (ge_requestId E) (ge_now E) (approval_input_of c d) (ge_ttl E) (gs_approvals S) of
        (Inl e, A) \<Rightarrow> throw (Approval_failure e) (Some s) (S\<lparr>gs_approvals := A\<rparr>)
      | (Inr r, A) \<Rightarrow>
          (case apply_op (Op_approval_requested (ar_id r) (ar_requestedAt r) (ar_expiresAt r)) (ge_audit E 1) s (gs_db S) of
             (Inl e, s', db') \<Rightarrow>
               throw (Audit_failure e) (Some s') (S\<lparr>gs_db := db', gs_approvals := cancel (ar_id r) A\<rparr>)
           | (Inr _, s', db') \<Rightarrow>
               (let A1 = (if ge_aborted E 0 then cancel (ar_id r) A else A);
                    S1 = meanwhile E 1 (S\<lparr>gs_db := db', gs_approvals := ge_wait E A1\<rparr>)
                in case map_of (as_outcomes (gs_approvals S1)) (ar_id r) of
                     None \<Rightarrow> (Waiting, Some s', S1)
                   | Some x \<Rightarrow> resolved E ps tool d (ar_id r) x s' S1)))"

definition begin_audit :: "gateway_env \<Rightarrow> tool_context \<Rightarrow> audit_decision \<Rightarrow> gateway_state
    \<Rightarrow> (call_state \<Rightarrow> gateway_state \<Rightarrow> handler) \<Rightarrow> handler" where
  "begin_audit E c d S rest =
     (case begin_call (ge_audit E 0) c d (gs_db S) of
        (Inl e, db') \<Rightarrow> throw (Audit_failure e) None (S\<lparr>gs_db := db'\<rparr>)
      | (Inr s, db') \<Rightarrow> rest s (S\<lparr>gs_db := db'\<rparr>))"

definition exact_missing :: "gateway_env \<Rightarrow> tool_context \<Rightarrow> bool" where
  "exact_missing E c \<longleftrightarrow> isExactRequired (ge_authority E) (tc_serverId c) (tc_toolName c)
     \<and> (case tc_identity c of None \<Rightarrow> True | Some r \<Rightarrow> mi_assurance r \<noteq> Adapter_action_exact)"

definition handle_call :: "gateway_env \<Rightarrow> call_params \<Rightarrow> gateway_state \<Rightarrow> handler" where
  "handle_call E ps0 S =
     (let tool = map_of (ge_tools E) (cp_name ps0) in
      case prepareToolCall E ps0 tool of
        Inl e \<Rightarrow> throw (Audit_failure e) None S
      | Inr (c, ps) \<Rightarrow>
          if exact_missing E c then
            begin_audit E c (exactIdentityRequiredDecision
                (case tc_identity c of None \<Rightarrow> JUndef | Some r \<Rightarrow> at (mi_view r) ''failureCode'')) S
              (block E 1 B_denied tool exactIdentityRequiredResult)
          else case ge_evaluate E c of
            Inl e \<Rightarrow> throw (Audit_failure e) None S
          | Inr d \<Rightarrow>
              begin_audit E c d (meanwhile E 0 S) (\<lambda>s S1.
                case ad_action d of
                  Deny \<Rightarrow> block E 1 B_denied tool (deniedResult (ad_reason d)) s S1
                | Ask \<Rightarrow>
                    if \<not> ge_coordinator E
                      then block E 1 B_approval_unavailable tool (approvalUnavailableResult (ad_reason d)) s S1
                    else ask_human E ps tool c d s S1
                | Forward \<Rightarrow> dispatch E ps tool s S1))"

end
