(* ===== verification/GatewayFacts.thy ===== *)
theory GatewayFacts
  imports Gateway
begin

section \<open>What the gateway guarantees\<close>

text \<open>
  Properties of the handler of \<open>tools/call\<close>: nothing reaches the upstream server unless the
  decision, the identity and a person allowed it and the log says so first; a call that returns
  is ended; and the handler keeps the log in order.
\<close>

subsection \<open>Handlers\<close>

text \<open>A postcondition of a handler, with the rule for a use of the recorder.\<close>

definition post :: "handler \<Rightarrow> (handler_result \<Rightarrow> call_state option \<Rightarrow> gateway_state \<Rightarrow> bool) \<Rightarrow> bool" where
  "post h P \<longleftrightarrow> P (fst h) (fst (snd h)) (snd (snd h))"

lemma post_triple [simp]: "post (r, s, S) P = P r s S"
  by (simp add: post_def)

lemma post_throw [simp]: "post (throw e s S) P = P (Threw e) s S"
  by (simp add: throw_def)

lemma audited_post:
  assumes "\<And>e s' db'. apply_op op (ge_audit E k) s (gs_db S) = (Inl e, s', db')
      \<Longrightarrow> P (Threw (Audit_failure e)) (Some s') (S\<lparr>gs_db := db'\<rparr>)"
    and "\<And>s' db'. apply_op op (ge_audit E k) s (gs_db S) = (Inr (), s', db') \<Longrightarrow> post (rest s' (S\<lparr>gs_db := db'\<rparr>)) P"
  shows "post (audited E k op s S rest) P"
  using assms by (auto simp: audited_def split: prod.splits sum.splits)

lemma begin_audit_post:
  assumes "\<And>e db'. begin_call (ge_audit E 0) c d (gs_db S) = (Inl e, db')
      \<Longrightarrow> P (Threw (Audit_failure e)) None (S\<lparr>gs_db := db'\<rparr>)"
    and "\<And>s db'. begin_call (ge_audit E 0) c d (gs_db S) = (Inr s, db') \<Longrightarrow> post (rest s (S\<lparr>gs_db := db'\<rparr>)) P"
  shows "post (begin_audit E c d S rest) P"
  using assms by (auto simp: begin_audit_def split: prod.splits sum.splits)

lemma meanwhile_simps [simp]:
  "gs_upstream (meanwhile E k S) = gs_upstream S" "gs_approvals (meanwhile E k S) = gs_approvals S"
  "gs_db (meanwhile E k S) = ge_meanwhile E k (gs_db S)"
  by (simp_all add: meanwhile_def)

lemma projected_cases:
  obtains r' where "project_result E tool r = Returned r'" | "project_result E tool r = Threw Projection_failed"
  by (cases "ge_project E tool r") (auto simp: project_result_def)

subsection \<open>The log only grows\<close>

definition grows :: "audit_db \<Rightarrow> audit_db \<Rightarrow> bool" where
  "grows db db' \<longleftrightarrow> (\<exists>es. db_events db' = db_events db @ es)"

text \<open>The other calls only append to the log; the log is append-only.\<close>

definition append_only :: "gateway_env \<Rightarrow> bool" where
  "append_only E \<longleftrightarrow> (\<forall>k db. grows db (ge_meanwhile E k db))"

lemma grows_refl [simp]: "grows db db"
  by (simp add: grows_def)

lemma grows_trans [trans]: "grows a b \<Longrightarrow> grows b c \<Longrightarrow> grows a c"
  by (auto simp: grows_def)

lemma appends_grows: "appends db db' i ts \<Longrightarrow> grows db db'"
  by (auto simp: appends_def grows_def)

text \<open>What every operation keeps: its call, the variables of it that do not change, and the log.\<close>

lemma op_effect_frame:
  "op_effect s db s' db' \<Longrightarrow> call_ok s' \<and> grows db db' \<and> cs_id s' = cs_id s"
  by (auto simp: op_effect_def intro: appends_grows)

lemma op_frame:
  assumes "call_ok s" "apply_op op E s db = (r, s', db')"
  shows "call_ok s' \<and> grows db db' \<and> cs_id s' = cs_id s"
proof (cases "late_block op s")
  case False
  show ?thesis by (rule op_effect_frame [OF op_implements [OF assms False]])
next
  case True
  then obtain b where b: "op = Op_blocked b" "cs_authorization s \<noteq> None" by (auto simp: late_block_def)
  with assms have "markBlocked E b s db = (r, s', db')" by simp
  from late_block_effect [OF assms(1) b(2) this] show ?thesis
    by (auto intro: op_effect_frame appends_grows dest: op_effect_frame)
qed

lemma op_same:
  assumes "call_ok s" "apply_op op E s db = (r, s', db')" "\<And>b. op \<noteq> Op_blocked b"
  shows "cs_context s' = cs_context s \<and> cs_evaluation s' = cs_evaluation s"
  using op_implements [OF assms(1,2)] assms(3) by (auto simp: op_effect_def late_block_def)

lemma begin_frame:
  assumes "begin_call E c d db = (Inr s, db')"
  shows "call_ok s \<and> grows db db' \<and> cs_context s = trustedReceiptContext c (ad_receipt d)
    \<and> cs_evaluation s = normalizeEvaluation d \<and> cs_id s = en_uuid E 0 \<and> cs_approval s = initial_approval (ad_action d)"
proof -
  have "call_ok s \<and> grows db db'"
    using assms
  proof (cases rule: begin_call_cases)
    case (begun s' db1)
    then have "grows db1 db'" by (blast intro: appends_grows)
    with begun show ?thesis by (auto simp: grows_def)
  qed auto
  moreover have "cs_context s = trustedReceiptContext c (ad_receipt d) \<and> cs_evaluation s = normalizeEvaluation d
      \<and> cs_id s = en_uuid E 0 \<and> cs_approval s = initial_approval (ad_action d)"
    using assms by (auto simp: begin_call_def Let_def split: sum.splits)
  ultimately show ?thesis by simp
qed

lemma prepareToolCall_Inr:
  assumes "prepareToolCall E ps0 tool = Inr (c, ps)"
  obtains r where "tc_identity c = Some r" "ps = ps0" "tc_arguments c = arguments_of ps" "tc_toolName c = cp_name ps"
    "tc_serverId c = ge_serverId E" "mi_evidence r \<noteq> Some JUndef" "mi_trusted r"
    "rc_evidence (trustedReceiptContext c q) \<noteq> Some JUndef"
    "rc_assurance (trustedReceiptContext c q) = mi_assurance r"
proof -
  let ?sch = "case tool of None \<Rightarrow> None | Some t \<Rightarrow> tl_inputSchema t"
  let ?r = "identity_result (ge_authority E) (ge_serverId E) ps0 ?sch"
  have r: "mi_evidence ?r \<noteq> Some JUndef" "mi_trusted ?r"
    by (auto simp: identity_result_def projectProfile_def Let_def structuralResult_def rejectedResult_def
        projectedResult_def evidenceFor_def trustedResult_def split: option.splits sum.splits)
  have c: "tc_identity c = Some ?r" "ps = ps0" "tc_arguments c = arguments_of ps" "tc_toolName c = cp_name ps"
    "tc_serverId c = ge_serverId E"
    using assms by (auto simp: prepareToolCall_def prepare_def Let_def)
  show ?thesis
    using r c by (intro that [of ?r]) (simp_all add: trustedReceiptContext_def trusted_identity_def Let_def)
qed

subsection \<open>What reaches the upstream server\<close>

text \<open>
  A call that was sent: where its parameters come from, the decision behind it, the
  authorization that was logged before, and the one entry of the upstream's input.
\<close>

definition sent :: "gateway_env \<Rightarrow> call_params \<Rightarrow> gateway_state \<Rightarrow> gateway_state \<Rightarrow> bool" where
  "sent E ps0 S S' \<longleftrightarrow> (\<exists>c ps d s db s1 db1.
     prepareToolCall E ps0 (map_of (ge_tools E) (cp_name ps0)) = Inr (c, ps)
     \<and> \<not> exact_missing E c \<and> ge_evaluate E c = Inr d \<and> ad_action d \<noteq> Deny
     \<and> (ad_action d = Ask \<longrightarrow> ge_coordinator E
          \<and> map_of (as_outcomes (gs_approvals S')) (ge_requestId E) = Some O_approved)
     \<and> (\<exists>s0 b b'. begin_call (ge_audit E 0) c d b = (Inr s0, b') \<and> cs_id s = cs_id s0
          \<and> cs_context s = cs_context s0 \<and> cs_evaluation s = cs_evaluation s0)
     \<and> markForwarding (ge_audit E 3) s db = (Inr (), s1, db1) \<and> grows db1 (gs_db S')
     \<and> gs_upstream S' = gs_upstream S @ [ps])"

abbreviation unsent :: "gateway_state \<Rightarrow> gateway_state \<Rightarrow> bool" where
  "unsent S S' \<equiv> gs_upstream S' = gs_upstream S"

lemma block_unsent: "post (block E k b tool r s S) (\<lambda>_ _ S'. unsent S S')"
  by (auto simp: block_def intro!: audited_post)

text \<open>After the call was sent, the upstream's input and the approvals stay, and the log grows.\<close>

definition settled_from :: "gateway_state \<Rightarrow> gateway_state \<Rightarrow> bool" where
  "settled_from S S' \<longleftrightarrow> unsent S S' \<and> gs_approvals S' = gs_approvals S \<and> grows (gs_db S) (gs_db S')"

lemma complete_post:
  assumes "call_ok s"
  shows "post (complete E tool r s S) (\<lambda>_ _ S'. settled_from S S')"
proof -
  have 1: "post (audited E 5 (Op_completed r) s S (\<lambda>s' S'. (project_result E tool r, Some s', S')))
      (\<lambda>_ s' S'. settled_from S S' \<and> (\<exists>s''. s' = Some s'' \<and> call_ok s''))"
    using op_frame [OF assms] by (intro audited_post) (simp_all add: settled_from_def del: apply_op.simps)
  obtain h s' S' where h: "audited E 5 (Op_completed r) s S (\<lambda>s' S'. (project_result E tool r, Some s', S')) = (h, s', S')"
    by (metis surj_pair)
  show ?thesis
  proof (cases h)
    case (Threw e)
    with 1 h obtain s'' where s'': "settled_from S S'" "s' = Some s''" "call_ok s''" by auto
    obtain r2 s2 db2 where o: "apply_op (Op_failed ''audit_completion_failed'') (ge_audit E 6) s'' (gs_db S') = (r2, s2, db2)"
      by (metis surj_pair)
    show ?thesis
      using Threw h s'' o op_frame [OF s''(3) o] by (auto simp: complete_def settled_from_def intro: grows_trans)
  qed (use 1 h in \<open>auto simp: complete_def\<close>)
qed

lemma dispatch_post:
  assumes "call_ok s" "append_only E"
  shows "post (dispatch E ps tool s S) (\<lambda>_ _ S'. unsent S S'
     \<or> (\<exists>s1 db1. markForwarding (ge_audit E 3) s (gs_db S) = (Inr (), s1, db1) \<and> grows db1 (gs_db S')
          \<and> gs_approvals S' = gs_approvals S \<and> gs_upstream S' = gs_upstream S @ [ps]))"
  (is "post _ ?P")
  unfolding dispatch_def
proof (rule audited_post)
  fix s1 db1 assume o: "apply_op Op_forwarding (ge_audit E 3) s (gs_db S) = (Inr (), s1, db1)"
  then have ok: "call_ok s1" and m: "markForwarding (ge_audit E 3) s (gs_db S) = (Inr (), s1, db1)"
    using op_frame [OF assms(1) o] by auto
  let ?S = "S\<lparr>gs_db := db1\<rparr>"
  let ?S2 = "meanwhile E 2 (?S\<lparr>gs_upstream := gs_upstream ?S @ [ps]\<rparr>)"
  have g: "grows db1 (gs_db ?S2)" using assms(2) by (simp add: append_only_def)
  have weak: "?P h s' S'" if "settled_from ?S2 S'" for h s' S'
    using that m g by (auto simp: settled_from_def intro: grows_trans)
  show "post (let S2 = ?S2 in case ge_call E ps of
         None \<Rightarrow> audited E 4 (Op_failed (if ge_aborted E 2 then ''cancelled'' else ''upstream_error'')) s1 S2
                   (\<lambda>s3 S3. throw Upstream_failed (Some s3) S3)
       | Some r \<Rightarrow> complete E tool r s1 S2) ?P"
  proof (cases "ge_call E ps")
    case None
    have "post (audited E 4 op s1 ?S2 (\<lambda>s3 S3. throw Upstream_failed (Some s3) S3)) (\<lambda>_ _ S'. settled_from ?S2 S')" for op
      using op_frame [OF ok] by (intro audited_post) (simp_all add: settled_from_def del: apply_op.simps)
    then show ?thesis using weak by (simp add: None post_def Let_def)
  next
    case (Some r)
    then show ?thesis using complete_post [OF ok, of E tool r ?S2] weak by (simp add: post_def)
  qed
qed simp

text \<open>The two ways to the dispatch: directly, or through an approval.\<close>

lemma resolved_post:
  assumes "call_ok s" "append_only E"
  shows "post (resolved E ps tool d i x s S) (\<lambda>_ _ S'. unsent S S'
     \<or> x = O_approved \<and> (\<exists>s0 db0 s1 db1. markForwarding (ge_audit E 3) s0 db0 = (Inr (), s1, db1)
          \<and> cs_id s0 = cs_id s \<and> cs_context s0 = cs_context s \<and> cs_evaluation s0 = cs_evaluation s
          \<and> grows db1 (gs_db S') \<and> gs_approvals S' = gs_approvals S \<and> gs_upstream S' = gs_upstream S @ [ps]))"
  (is "post _ ?P")
  unfolding resolved_def
proof (rule audited_post)
  fix s' db' assume o: "apply_op (Op_approval_resolved i (outcome_state x)) (ge_audit E 2) s (gs_db S) = (Inr (), s', db')"
  note f = op_frame [OF assms(1) o] op_same [OF assms(1) o]
  let ?S = "S\<lparr>gs_db := db'\<rparr>"
  consider "x \<noteq> O_approved" | "x = O_approved" "ge_aborted E 1" | "x = O_approved" "\<not> ge_aborted E 1" by blast
  then show "post (if x \<noteq> O_approved then
         audited E 3 (Op_blocked (block_of x)) s' ?S (\<lambda>s2 S2.
           if x = O_cancelled then throw Cancelled_waiting (Some s2) S2
           else (project_result E tool (approvalResult x (ad_reason d)), Some s2, S2))
       else if ge_aborted E 1 then
         audited E 3 (Op_failed ''cancelled_before_execution'') s' ?S (\<lambda>s2 S2. throw Cancelled_approved (Some s2) S2)
       else dispatch E ps tool s' ?S) ?P"
  proof cases
    case 3
    have "call_ok s'" using f by simp
    from dispatch_post [OF this assms(2), of ps tool ?S] f 3 show ?thesis
      by (auto simp: post_def)
  qed (auto intro!: audited_post)
qed simp

lemma request_id:
  assumes "request i now inp ttl A = (Inr r, A')"
  shows "ar_id r = i"
  using assms
  by (auto simp: request_def requestHidden_def Let_def split: prod.splits sum.splits if_splits option.splits)

lemma ask_human_post:
  assumes "call_ok s" "append_only E"
  shows "post (ask_human E ps tool c d s S) (\<lambda>_ _ S'. unsent S S'
     \<or> map_of (as_outcomes (gs_approvals S')) (ge_requestId E) = Some O_approved
       \<and> (\<exists>s0 db0 s1 db1. markForwarding (ge_audit E 3) s0 db0 = (Inr (), s1, db1)
          \<and> cs_id s0 = cs_id s \<and> cs_context s0 = cs_context s \<and> cs_evaluation s0 = cs_evaluation s
          \<and> grows db1 (gs_db S') \<and> gs_upstream S' = gs_upstream S @ [ps]))"
  (is "post _ ?P")
proof (cases "request (ge_requestId E) (ge_now E) (approval_input_of c d) (ge_ttl E) (gs_approvals S)")
  case (Pair q A)
  show ?thesis
  proof (cases q)
    case (Inr r)
    obtain res s' db' where o: "apply_op (Op_approval_requested (ar_id r) (ar_requestedAt r) (ar_expiresAt r))
        (ge_audit E 1) s (gs_db S) = (res, s', db')" by (metis surj_pair)
    note f = op_frame [OF assms(1) o] op_same [OF assms(1) o]
    have i: "ar_id r = ge_requestId E" using Pair Inr by (simp add: request_id)
    show ?thesis
    proof (cases res)
      case (Inl e)
      then show ?thesis using Pair Inr o by (simp add: ask_human_def)
    next
      case (Inr u)
      define S1 where "S1 = meanwhile E 1 (S\<lparr>gs_db := db',
         gs_approvals := ge_wait E (if ge_aborted E 0 then cancel (ar_id r) A else A)\<rparr>)"
      have u: "gs_upstream S1 = gs_upstream S" by (simp add: S1_def)
      have eq: "ask_human E ps tool c d s S = (case map_of (as_outcomes (gs_approvals S1)) (ar_id r) of
                     None \<Rightarrow> (Waiting, Some s', S1) | Some x \<Rightarrow> resolved E ps tool d (ar_id r) x s' S1)"
        unfolding ask_human_def S1_def by (simp add: Pair \<open>q = Inr r\<close> o Inr Let_def del: One_nat_def apply_op.simps)
      show ?thesis
      proof (cases "map_of (as_outcomes (gs_approvals S1)) (ar_id r)")
        case None
        then show ?thesis using u by (simp add: eq)
      next
        case (Some x)
        have ok: "call_ok s'" using f(1) by simp
        from resolved_post [OF ok assms(2), of ps tool d "ar_id r" x S1] f u i Some show ?thesis
          by (auto simp: eq post_def)
      qed
    qed
  qed (simp add: ask_human_def Pair)
qed

lemma handle_post:
  assumes "append_only E"
  shows "post (handle_call E ps0 S) (\<lambda>_ _ S'. unsent S S' \<or> sent E ps0 S S')"
proof (cases "prepareToolCall E ps0 (map_of (ge_tools E) (cp_name ps0))")
  case (Inr cp)
  obtain c ps where cp: "prepareToolCall E ps0 (map_of (ge_tools E) (cp_name ps0)) = Inr (c, ps)"
    using Inr by (cases cp) simp
  let ?t = "map_of (ge_tools E) (cp_name ps0)"
  show ?thesis
  proof (cases "exact_missing E c")
    case True
    have b: "post (begin_audit E c x S (block E 1 B_denied t r)) (\<lambda>_ _ S'. unsent S S')" for x t r
    proof (rule begin_audit_post)
      fix s db'
      show "post (block E 1 B_denied t r s (S\<lparr>gs_db := db'\<rparr>)) (\<lambda>_ _ S'. unsent S S')"
        using block_unsent [of E 1 B_denied t r s "S\<lparr>gs_db := db'\<rparr>"] by simp
    qed simp
    show ?thesis using b by (simp add: handle_call_def cp True post_def)
  next
    case False
    show ?thesis
    proof (cases "ge_evaluate E c")
      case (Inr d)
      have "post (begin_audit E c d (meanwhile E 0 S) (\<lambda>s S1.
                case ad_action d of
                  Deny \<Rightarrow> block E 1 B_denied ?t (deniedResult (ad_reason d)) s S1
                | Ask \<Rightarrow>
                    if \<not> ge_coordinator E
                      then block E 1 B_approval_unavailable ?t (approvalUnavailableResult (ad_reason d)) s S1
                    else ask_human E ps ?t c d s S1
                | Forward \<Rightarrow> dispatch E ps ?t s S1)) (\<lambda>_ _ S'. unsent S S' \<or> sent E ps0 S S')"
      proof (rule begin_audit_post)
        fix s db'
        assume b: "begin_call (ge_audit E 0) c d (gs_db (meanwhile E 0 S)) = (Inr s, db')"
        let ?S = "meanwhile E 0 S\<lparr>gs_db := db'\<rparr>"
        have ok: "call_ok s" using begin_frame [OF b] by simp
        note un = block_unsent [of E _ _ ?t _ s ?S, simplified]
        show "post (case ad_action d of
                  Deny \<Rightarrow> block E 1 B_denied ?t (deniedResult (ad_reason d)) s ?S
                | Ask \<Rightarrow>
                    if \<not> ge_coordinator E
                      then block E 1 B_approval_unavailable ?t (approvalUnavailableResult (ad_reason d)) s ?S
                    else ask_human E ps ?t c d s ?S
                | Forward \<Rightarrow> dispatch E ps ?t s ?S) (\<lambda>_ _ S'. unsent S S' \<or> sent E ps0 S S')"
        proof (cases "ad_action d")
          case Deny
          then show ?thesis using un by (simp add: post_def)
        next
          case Forward
          with dispatch_post [OF ok assms, of ps ?t ?S] b cp False Inr show ?thesis
            unfolding post_def sent_def by (fastforce)
        next
          case Ask
          show ?thesis
          proof (cases "ge_coordinator E")
            case True
            with Ask ask_human_post [OF ok assms, of ps ?t c d ?S] b cp False Inr show ?thesis
              unfolding post_def sent_def by fastforce
          qed (use Ask un in \<open>simp add: post_def\<close>)
        qed
      qed simp
      then show ?thesis by (simp add: handle_call_def Let_def cp False Inr)
    qed (simp add: handle_call_def cp False)
  qed
qed (simp add: handle_call_def)

subsection \<open>A call that returns is ended\<close>

text \<open>
  The two ways a call returns: blocked, with a result that says so, or with the result of the
  upstream server.  In both the log has its end.
\<close>

definition answered :: "gateway_env \<Rightarrow> mcp_tool option \<Rightarrow> gateway_state \<Rightarrow> handler_result
    \<Rightarrow> call_state option \<Rightarrow> gateway_state \<Rightarrow> bool" where
  "answered E tool S r s' S' \<longleftrightarrow> (\<forall>x. r = Returned x \<longrightarrow> (\<exists>c. s' = Some c \<and> cs_terminal c
     \<and> (unsent S S' \<and> \<not> cs_dispatched c \<and> cs_authorization c \<noteq> None
          \<and> (\<exists>q. tr_isError q \<and> ge_project E tool q = Some x)
        \<or> (\<exists>ps q. gs_upstream S' = gs_upstream S @ [ps] \<and> cs_dispatched c
             \<and> ge_call E ps = Some q \<and> ge_project E tool q = Some x))))"

lemma answered_not [simp]: "answered E tool S (Threw e) s' S'" "answered E tool S Waiting s' S'"
  by (simp_all add: answered_def)

lemma answered_from: "unsent S0 S \<Longrightarrow> answered E tool S r s' S' \<Longrightarrow> answered E tool S0 r s' S'"
  by (auto simp: answered_def)

lemma markBlocked_ends:
  assumes "markBlocked E b s db = (Inr u, s', db')"
  shows "cs_terminal s' \<and> \<not> cs_dispatched s' \<and> cs_authorization s' \<noteq> None"
  using assms by (auto simp: markBlocked_def raise_def commit_as_def Let_def split: if_splits sum.splits)

lemma markCompleted_ends:
  assumes "markCompleted E r s db = (Inr u, s', db')"
  shows "cs_terminal s' \<and> cs_dispatched s'"
  using assms ready_Some [of s]
  by (auto simp: markCompleted_def raise_def commit_as_def Let_def split: if_splits sum.splits option.splits)

lemma block_answered:
  assumes "tr_isError r"
  shows "post (block E k b tool r s S) (answered E tool S)"
  unfolding block_def
proof (rule audited_post)
  fix s' db' assume "apply_op (Op_blocked b) (ge_audit E k) s (gs_db S) = (Inr (), s', db')"
  then have "cs_terminal s' \<and> \<not> cs_dispatched s' \<and> cs_authorization s' \<noteq> None" by (auto dest: markBlocked_ends)
  then show "post (project_result E tool r, Some s', S\<lparr>gs_db := db'\<rparr>) (answered E tool S)"
    using assms by (auto simp: answered_def project_result_def split: option.splits)
qed simp

lemma dispatch_answered: "post (dispatch E ps tool s S) (answered E tool S)"
  unfolding dispatch_def Let_def
proof (rule audited_post)
  fix s1 db1
  let ?S = "S\<lparr>gs_db := db1\<rparr>"
  let ?S2 = "meanwhile E 2 (?S\<lparr>gs_upstream := gs_upstream ?S @ [ps]\<rparr>)"
  have c: "post (complete E tool r s1 ?S2) (answered E tool S)" if r: "ge_call E ps = Some r" for r
  proof -
    have 1: "post (audited E 5 (Op_completed r) s1 ?S2 (\<lambda>s' S'. (project_result E tool r, Some s', S'))) (answered E tool S)"
    proof (rule audited_post)
      fix s' db' assume "apply_op (Op_completed r) (ge_audit E 5) s1 (gs_db ?S2) = (Inr (), s', db')"
      then have "cs_terminal s' \<and> cs_dispatched s'" by (auto dest: markCompleted_ends)
      then show "post (project_result E tool r, Some s', ?S2\<lparr>gs_db := db'\<rparr>) (answered E tool S)"
        using r by (auto simp: answered_def project_result_def split: option.splits)
    qed simp
    obtain h s' S' where h: "audited E 5 (Op_completed r) s1 ?S2 (\<lambda>s' S'. (project_result E tool r, Some s', S')) = (h, s', S')"
      by (metis surj_pair)
    show ?thesis
      using 1 unfolding complete_def h by (auto split: handler_result.splits option.splits prod.splits)
  qed
  show "post (case ge_call E ps of
         None \<Rightarrow> audited E 4 (Op_failed (if ge_aborted E 2 then ''cancelled'' else ''upstream_error'')) s1 ?S2
                   (\<lambda>s3 S3. throw Upstream_failed (Some s3) S3)
       | Some r \<Rightarrow> complete E tool r s1 ?S2) (answered E tool S)"
    using c by (auto split: option.splits intro!: audited_post)
qed simp

lemma resolved_answered: "post (resolved E ps tool d i x s S) (answered E tool S)"
  unfolding resolved_def
proof (rule audited_post)
  fix s1 db1
  let ?S = "S\<lparr>gs_db := db1\<rparr>"
  have b: "post (audited E 3 (Op_blocked (block_of x)) s1 ?S (\<lambda>s2 S2.
           if x = O_cancelled then throw Cancelled_waiting (Some s2) S2
           else (project_result E tool (approvalResult x (ad_reason d)), Some s2, S2))) (answered E tool S)"
  proof (rule audited_post)
    fix s' db' assume "apply_op (Op_blocked (block_of x)) (ge_audit E 3) s1 (gs_db ?S) = (Inr (), s', db')"
    then have "cs_terminal s' \<and> \<not> cs_dispatched s' \<and> cs_authorization s' \<noteq> None" by (auto dest: markBlocked_ends)
    moreover have "tr_isError (approvalResult x (ad_reason d))" by (simp add: approvalResult_def text_result_def)
    ultimately show "post (if x = O_cancelled then throw Cancelled_waiting (Some s') (?S\<lparr>gs_db := db'\<rparr>)
           else (project_result E tool (approvalResult x (ad_reason d)), Some s', ?S\<lparr>gs_db := db'\<rparr>)) (answered E tool S)"
      by (auto simp: answered_def project_result_def split: option.splits)
  qed simp
  have f: "post (audited E 3 (Op_failed ''cancelled_before_execution'') s1 ?S
      (\<lambda>s2 S2. throw Cancelled_approved (Some s2) S2)) (answered E tool S)"
    by (rule audited_post) simp_all
  have d: "post (dispatch E ps tool s1 ?S) (answered E tool S)"
    using dispatch_answered [of E ps tool s1 ?S] by (auto simp: post_def intro: answered_from [rotated])
  show "post (if x \<noteq> O_approved then audited E 3 (Op_blocked (block_of x)) s1 ?S (\<lambda>s2 S2.
           if x = O_cancelled then throw Cancelled_waiting (Some s2) S2
           else (project_result E tool (approvalResult x (ad_reason d)), Some s2, S2))
       else if ge_aborted E 1 then
         audited E 3 (Op_failed ''cancelled_before_execution'') s1 ?S (\<lambda>s2 S2. throw Cancelled_approved (Some s2) S2)
       else dispatch E ps tool s1 ?S) (answered E tool S)"
    using b f d by simp
qed simp

lemma ask_human_answered: "post (ask_human E ps tool c d s S) (answered E tool S)"
proof -
  obtain q A where q: "request (ge_requestId E) (ge_now E) (approval_input_of c d) (ge_ttl E) (gs_approvals S) = (q, A)"
    by (metis surj_pair)
  have "post (resolved E ps tool d i x s' S1) (answered E tool S)" if "unsent S S1" for i x s' S1
    using that resolved_answered [of E ps tool d i x s' S1] by (auto simp: post_def intro: answered_from)
  then show ?thesis
    unfolding ask_human_def q by (auto simp: Let_def split: sum.splits prod.splits option.splits)
qed

lemma handle_answered: "post (handle_call E ps0 S) (answered E (map_of (ge_tools E) (cp_name ps0)) S)"
proof -
  let ?t = "map_of (ge_tools E) (cp_name ps0)"
  have shift: "post h (answered E ?t S1) \<Longrightarrow> unsent S S1 \<Longrightarrow> post h (answered E ?t S)" for h S1
    by (auto simp: post_def intro: answered_from)
  have err: "tr_isError exactIdentityRequiredResult" "tr_isError (deniedResult m)" "tr_isError (approvalUnavailableResult m)" for m
    by (simp_all add: exactIdentityRequiredResult_def deniedResult_def approvalUnavailableResult_def text_result_def)
  note b = shift [OF block_answered [OF err(1)]] shift [OF block_answered [OF err(2)]] shift [OF block_answered [OF err(3)]]
    shift [OF dispatch_answered] shift [OF ask_human_answered]
  show ?thesis
    unfolding handle_call_def Let_def
    by (auto split: sum.splits prod.splits action.splits intro!: begin_audit_post b)
qed

subsection \<open>The handler as a run of the recorder\<close>

text \<open>The log and the call's variables are those of a state the recorder reaches.\<close>

definition recorded :: "gateway_state \<Rightarrow> call_state option \<Rightarrow> bool" where
  "recorded S s \<longleftrightarrow> (\<exists>L. rec_reachable \<lparr>rs_db = gs_db S, rs_live = L\<rparr>
     \<and> (case s of None \<Rightarrow> True | Some c \<Rightarrow> map_of L (cs_id c) = Some c))"

text \<open>What the other calls do to the log are steps of the recorder that leave this call's variables alone.\<close>

definition others_record :: "gateway_env \<Rightarrow> bool" where
  "others_record E \<longleftrightarrow> (\<forall>k db L. rec_reachable \<lparr>rs_db = db, rs_live = L\<rparr> \<longrightarrow>
     rec_reachable \<lparr>rs_db = ge_meanwhile E k db, rs_live = L\<rparr>)"

lemma recorded_same: "gs_db S' = gs_db S \<Longrightarrow> recorded S' s = recorded S s"
  by (simp add: recorded_def)

lemma recorded_forget: "recorded S s \<Longrightarrow> recorded S None"
  by (auto simp: recorded_def)

lemma recorded_op:
  assumes "recorded S (Some s)" "apply_op op E s (gs_db S) = (r, s', db')"
  shows "recorded (S\<lparr>gs_db := db'\<rparr>) (Some s')"
proof -
  obtain L where L: "rec_reachable \<lparr>rs_db = gs_db S, rs_live = L\<rparr>" "map_of L (cs_id s) = Some s"
    using assms(1) by (auto simp: recorded_def)
  have "call_ok s" using reachable_inv [OF L(1)] L(2) by (auto simp: rec_inv_def)
  then have i: "cs_id s' = cs_id s" using op_frame assms(2) by blast
  have "rec_step \<lparr>rs_db = gs_db S, rs_live = L\<rparr> (\<lparr>rs_db = gs_db S, rs_live = L\<rparr>\<lparr>rs_db := db', rs_live := (cs_id s, s') # L\<rparr>)"
    using step_op [of "\<lparr>rs_db = gs_db S, rs_live = L\<rparr>"] L(2) assms(2) by fastforce
  from reach_step [OF L(1) this] show ?thesis using i by (auto simp: recorded_def)
qed

lemma recorded_begin:
  assumes "recorded S None" "begin_call E c d (gs_db S) = (r, db')"
  shows "recorded (S\<lparr>gs_db := db'\<rparr>) (case r of Inl e \<Rightarrow> None | Inr s \<Rightarrow> Some s)"
proof -
  obtain L where L: "rec_reachable \<lparr>rs_db = gs_db S, rs_live = L\<rparr>" using assms(1) by (auto simp: recorded_def)
  show ?thesis
  proof (cases r)
    case (Inl e)
    with assms(2) have "db' = gs_db S" by (auto elim: begin_call_cases)
    with assms(1) Inl show ?thesis by (simp add: recorded_def)
  next
    case (Inr s)
    have "rec_step \<lparr>rs_db = gs_db S, rs_live = L\<rparr> (\<lparr>rs_db = gs_db S, rs_live = L\<rparr>\<lparr>rs_db := db', rs_live := (cs_id s, s) # L\<rparr>)"
      using step_begin [of E c d "\<lparr>rs_db = gs_db S, rs_live = L\<rparr>" s db'] assms(2) Inr by simp
    from reach_step [OF L this] Inr show ?thesis by (auto simp: recorded_def)
  qed
qed

lemma recorded_meanwhile: "others_record E \<Longrightarrow> recorded S s \<Longrightarrow> recorded (meanwhile E k S) s"
  by (auto simp: recorded_def others_record_def)

abbreviation keeps_recorded :: "handler \<Rightarrow> bool" where
  "keeps_recorded h \<equiv> post h (\<lambda>_ s' S'. recorded S' s')"

lemma audited_recorded:
  assumes "recorded S (Some s)" "\<And>s' S'. recorded S' (Some s') \<Longrightarrow> keeps_recorded (rest s' S')"
  shows "keeps_recorded (audited E k op s S rest)"
  using recorded_op [OF assms(1)] assms(2) by (intro audited_post) blast+

lemma recorded_fields [simp]:
  "recorded (S\<lparr>gs_approvals := A\<rparr>) s = recorded S s" "recorded (S\<lparr>gs_upstream := u\<rparr>) s = recorded S s"
  "recorded (S\<lparr>gs_db := db, gs_approvals := A\<rparr>) s = recorded (S\<lparr>gs_db := db\<rparr>) s"
  by (simp_all add: recorded_def)

lemma block_recorded: "recorded S (Some s) \<Longrightarrow> keeps_recorded (block E k b tool r s S)"
  unfolding block_def by (rule audited_recorded) simp_all

lemma complete_recorded:
  assumes "recorded S (Some s)"
  shows "keeps_recorded (complete E tool r s S)"
proof -
  have 1: "keeps_recorded (audited E 5 (Op_completed r) s S (\<lambda>s' S'. (project_result E tool r, Some s', S')))"
    by (rule audited_recorded [OF assms]) simp
  obtain h s' S' where h: "audited E 5 (Op_completed r) s S (\<lambda>s' S'. (project_result E tool r, Some s', S')) = (h, s', S')"
    by (metis surj_pair)
  show ?thesis
    using 1 recorded_op unfolding complete_def h
    by (auto split: handler_result.splits option.splits prod.splits simp del: apply_op.simps)
qed

lemma dispatch_recorded:
  assumes "recorded S (Some s)" "others_record E"
  shows "keeps_recorded (dispatch E ps tool s S)"
  unfolding dispatch_def Let_def
  by (rule audited_recorded [OF assms(1)])
     (auto split: option.splits intro!: audited_recorded complete_recorded recorded_meanwhile [OF assms(2)])

lemma resolved_recorded:
  assumes "recorded S (Some s)" "others_record E"
  shows "keeps_recorded (resolved E ps tool d i x s S)"
  unfolding resolved_def
  by (rule audited_recorded [OF assms(1)]) (auto intro!: audited_recorded dispatch_recorded [OF _ assms(2)])

lemma ask_human_recorded:
  assumes "recorded S (Some s)" "others_record E"
  shows "keeps_recorded (ask_human E ps tool c d s S)"
proof -
  obtain q A where q: "request (ge_requestId E) (ge_now E) (approval_input_of c d) (ge_ttl E) (gs_approvals S) = (q, A)"
    by (metis surj_pair)
  show ?thesis
    using recorded_op [OF assms(1)] assms(1) unfolding ask_human_def q
    by (auto simp: Let_def simp del: apply_op.simps split: sum.splits prod.splits option.splits
        intro!: resolved_recorded recorded_meanwhile assms(2))
qed

lemma begin_audit_recorded:
  assumes "recorded S None" "\<And>s S'. recorded S' (Some s) \<Longrightarrow> keeps_recorded (rest s S')"
  shows "keeps_recorded (begin_audit E c d S rest)"
proof (rule begin_audit_post)
  fix e db' assume "begin_call (ge_audit E 0) c d (gs_db S) = (Inl e, db')"
  from recorded_begin [OF assms(1) this] show "recorded (S\<lparr>gs_db := db'\<rparr>) None" by simp
next
  fix s db' assume "begin_call (ge_audit E 0) c d (gs_db S) = (Inr s, db')"
  from recorded_begin [OF assms(1) this] show "keeps_recorded (rest s (S\<lparr>gs_db := db'\<rparr>))" by (intro assms(2)) simp
qed

lemma handle_recorded:
  assumes "recorded S None" "others_record E"
  shows "keeps_recorded (handle_call E ps0 S)"
  unfolding handle_call_def Let_def
  by (auto split: sum.splits prod.splits action.splits simp: assms(1)
      intro!: begin_audit_recorded block_recorded dispatch_recorded ask_human_recorded assms recorded_meanwhile)

subsection \<open>Properties\<close>

text \<open>
  C1: nothing is sent to the upstream server without a durable authorization before it, and
  at most once per call.  Whatever fails, whatever the other calls, the people and the upstream
  do, either the handler sends nothing, or exactly one request, and then the log holds, from
  before the sending, the authorization receipt of this call and the start that names its
  digest; nothing that happens afterwards removes them.
\<close>

theorem dispatch_behind_authorization:
  assumes "append_only E" "handle_call E ps0 S = (r, s, S')"
  shows "gs_upstream S' = gs_upstream S
    \<or> (\<exists>ps c db c' db' es. gs_upstream S' = gs_upstream S @ [ps] \<and> cs_id c = en_uuid (ge_audit E 0) 0
         \<and> durable_start (ge_audit E 3) c db c' db' \<and> ae_effective (cs_evaluation c) \<noteq> deny
         \<and> db_events (gs_db S') = db_events db' @ es)"
proof -
  have "unsent S S' \<or> sent E ps0 S S'" using handle_post [OF assms(1), of ps0 S] assms(2) by simp
  then show ?thesis
  proof
    assume "sent E ps0 S S'"
    then obtain c ps d s0 db s1 db1 c0 b b' where
      p: "prepareToolCall E ps0 (map_of (ge_tools E) (cp_name ps0)) = Inr (c, ps)"
      and m: "markForwarding (ge_audit E 3) s0 db = (Inr (), s1, db1)" "grows db1 (gs_db S')"
      and b: "begin_call (ge_audit E 0) c d b = (Inr c0, b')" "cs_id s0 = cs_id c0" "cs_context s0 = cs_context c0"
      and u: "gs_upstream S' = gs_upstream S @ [ps]"
      unfolding sent_def by blast
    have ev: "rc_evidence (cs_context s0) \<noteq> Some JUndef"
      using p begin_frame [OF b(1)] b(3) by (auto elim: prepareToolCall_Inr [where q = "ad_receipt d"])
    have "cs_id s0 = en_uuid (ge_audit E 0) 0" using begin_frame [OF b(1)] b(2) by simp
    with markForwarding_started [OF ev m(1)] m(2) u show ?thesis unfolding grows_def by blast
  qed simp
qed

text \<open>
  C2: what is sent was decided on.  A request that reaches the upstream server is the one the
  client made; the interceptor was given exactly its tool and its arguments and did not deny
  it; when it asked for a person, the coordinator was there and the outcome of the ticket is an
  approval; and when the operator requires an exact identity for the tool, the receipt of the
  call carries one.
\<close>

theorem dispatch_follows_decision:
  assumes "append_only E" "handle_call E ps0 S = (r, s, S')"
  shows "gs_upstream S' = gs_upstream S
    \<or> gs_upstream S' = gs_upstream S @ [ps0]
      \<and> (\<exists>c d. tc_toolName c = cp_name ps0 \<and> tc_arguments c = arguments_of ps0 \<and> tc_serverId c = ge_serverId E
           \<and> ge_evaluate E c = Inr d \<and> ad_action d \<noteq> Deny
           \<and> (ad_action d = Forward \<or> ge_coordinator E
                \<and> map_of (as_outcomes (gs_approvals S')) (ge_requestId E) = Some O_approved)
           \<and> (\<not> isExactRequired (ge_authority E) (ge_serverId E) (cp_name ps0)
              \<or> rc_assurance (trustedReceiptContext c (ad_receipt d)) = Adapter_action_exact))"
proof -
  have "unsent S S' \<or> sent E ps0 S S'" using handle_post [OF assms(1), of ps0 S] assms(2) by simp
  then show ?thesis
  proof
    assume "sent E ps0 S S'"
    then obtain c ps d where
      p: "prepareToolCall E ps0 (map_of (ge_tools E) (cp_name ps0)) = Inr (c, ps)" "\<not> exact_missing E c"
      and d: "ge_evaluate E c = Inr d" "ad_action d \<noteq> Deny" "ad_action d = Ask \<longrightarrow> ge_coordinator E
          \<and> map_of (as_outcomes (gs_approvals S')) (ge_requestId E) = Some O_approved"
      and u: "gs_upstream S' = gs_upstream S @ [ps]"
      unfolding sent_def by blast
    obtain q where q: "tc_identity c = Some q" "ps = ps0" "tc_arguments c = arguments_of ps" "tc_toolName c = cp_name ps"
      "tc_serverId c = ge_serverId E" "rc_assurance (trustedReceiptContext c (ad_receipt d)) = mi_assurance q"
      using p(1) by (rule prepareToolCall_Inr [where q = "ad_receipt d"])
    have "\<not> isExactRequired (ge_authority E) (ge_serverId E) (cp_name ps0)
        \<or> rc_assurance (trustedReceiptContext c (ad_receipt d)) = Adapter_action_exact"
      using p(2) q by (auto simp: exact_missing_def)
    moreover have "ad_action d = Forward \<or> ge_coordinator E
        \<and> map_of (as_outcomes (gs_approvals S')) (ge_requestId E) = Some O_approved"
      using d(2,3) by (cases "ad_action d") auto
    ultimately show ?thesis using d(1,2) q(2-5) u by blast
  qed simp
qed

text \<open>
  The gateway fails closed.  When the transaction that records the decision or the one
  that records the start cannot be committed, the tool is not called.
\<close>

theorem unrecorded_call_not_sent:
  assumes "append_only E" "\<not> en_commit (ge_audit E 0) \<or> \<not> en_commit (ge_audit E 3)"
    and "handle_call E ps0 S = (r, s, S')"
  shows "gs_upstream S' = gs_upstream S"
proof -
  have "unsent S S' \<or> sent E ps0 S S'" using handle_post [OF assms(1), of ps0 S] assms(3) by simp
  moreover have "\<not> sent E ps0 S S'"
  proof
    assume "sent E ps0 S S'"
    then obtain c d s0 db s1 db1 c0 b b' where
      "markForwarding (ge_audit E 3) s0 db = (Inr (), s1, db1)" "begin_call (ge_audit E 0) c d b = (Inr c0, b')"
      unfolding sent_def by blast
    then have "en_commit (ge_audit E 3)" "en_commit (ge_audit E 0)"
      by (auto simp: markForwarding_def raise_def commit_as_def begin_call_def Let_def transaction_def rbind_Inr_iff
          simp del: foldM.simps split: if_splits sum.splits)
    with assms(2) show False by blast
  qed
  ultimately show ?thesis by blast
qed

text \<open>
  An answer to the client ends the call.  When the handler returns a result, the call has
  its end in the log, and either it was blocked with an authorization receipt, nothing was
  sent, and the result says it is an error, or one request was sent and the result is the
  upstream's answer to it, projected on the output schema.
\<close>

theorem returned_call_is_ended:
  "case handle_call E ps0 S of
     (Returned x, None, S') \<Rightarrow> False
   | (Returned x, Some c, S') \<Rightarrow> cs_terminal c
       \<and> (gs_upstream S' = gs_upstream S \<and> \<not> cs_dispatched c \<and> cs_authorization c \<noteq> None
            \<and> (\<exists>q. tr_isError q \<and> ge_project E (map_of (ge_tools E) (cp_name ps0)) q = Some x)
          \<or> (\<exists>ps q. gs_upstream S' = gs_upstream S @ [ps] \<and> cs_dispatched c \<and> ge_call E ps = Some q
               \<and> ge_project E (map_of (ge_tools E) (cp_name ps0)) q = Some x))
   | _ \<Rightarrow> True"
  using handle_answered [of E ps0 S]
  by (auto simp: answered_def post_def split: prod.splits handler_result.splits option.splits)

text \<open>
  The handler makes only steps of the recorder: from a state of the log the recorder reaches, and
  with the other calls doing the recorder's steps too, every end of the handler leaves a state
  the recorder reaches, with the call's variables among the live ones.
\<close>

lemma gateway_runs_recorder:
  assumes "rec_reachable \<lparr>rs_db = gs_db S, rs_live = L\<rparr>" "others_record E"
    and "handle_call E ps0 S = (r, s, S')"
  shows "\<exists>L'. rec_reachable \<lparr>rs_db = gs_db S', rs_live = L'\<rparr>
    \<and> (case s of None \<Rightarrow> True | Some c \<Rightarrow> map_of L' (cs_id c) = Some c)"
proof -
  have "recorded S None" using assms(1) by (auto simp: recorded_def)
  from handle_recorded [OF this assms(2), of ps0] assms(3) show ?thesis by (simp add: recorded_def)
qed

subsection \<open>Concrete runs\<close>

definition demo_params :: call_params where
  "demo_params = \<lparr>cp_name = ''read_file'', cp_arguments = JObj [], cp_meta = JUndef, cp_task = JUndef\<rparr>"

definition demo_decision :: "action \<Rightarrow> audit_decision" where
  "demo_decision a = \<lparr>ad_action = a, ad_reason = ''rule'', ad_receipt = None, ad_evaluation = None\<rparr>"

definition demo_gateway :: "bool \<Rightarrow> action \<Rightarrow> gateway_env" where
  "demo_gateway commit a =
     \<lparr>ge_authority = \<lparr>au_profiles = [], au_exact = []\<rparr>, ge_serverId = ''fs'', ge_tools = [],
      ge_evaluate = (\<lambda>_. Inr (demo_decision a)), ge_audit = (\<lambda>k. demo_env\<lparr>en_commit := commit\<rparr>),
      ge_coordinator = False, ge_requestId = demo_uuid, ge_now = 0, ge_ttl = 1000, ge_wait = id,
      ge_meanwhile = (\<lambda>_ db. db), ge_aborted = (\<lambda>_. False), ge_call = (\<lambda>_. None),
      ge_project = (\<lambda>_ r. Some r)\<rparr>"

definition demo_state :: gateway_state where
  "demo_state = \<lparr>gs_db = empty_db, gs_approvals = new_service, gs_upstream = []\<rparr>"

lemma demo_gateway_ok: "append_only (demo_gateway commit a)" "others_record (demo_gateway commit a)"
  by (simp_all add: append_only_def others_record_def demo_gateway_def)

theorem dispatch_behind_authorization_witness:
  "\<exists>r s S'. handle_call (demo_gateway True Forward) demo_params demo_state = (r, s, S')
     \<and> (gs_upstream S' = [] \<or> length (db_events (gs_db S')) \<ge> 2)"
proof -
  obtain r s S' where h: "handle_call (demo_gateway True Forward) demo_params demo_state = (r, s, S')" by (metis surj_pair)
  from dispatch_behind_authorization [OF demo_gateway_ok(1) h] have "gs_upstream S' = [] \<or> length (db_events (gs_db S')) \<ge> 2"
    by (auto simp: demo_state_def durable_start_def)
  with h show ?thesis by blast
qed

theorem dispatch_follows_decision_witness:
  "\<exists>r s S'. handle_call (demo_gateway True Deny) demo_params demo_state = (r, s, S') \<and> gs_upstream S' = []"
proof -
  obtain r s S' where h: "handle_call (demo_gateway True Deny) demo_params demo_state = (r, s, S')" by (metis surj_pair)
  from dispatch_follows_decision [OF demo_gateway_ok(1) h] have "gs_upstream S' = []"
    by (auto simp: demo_state_def demo_gateway_def demo_decision_def)
  with h show ?thesis by blast
qed

theorem unrecorded_call_not_sent_witness:
  "\<exists>r s S'. handle_call (demo_gateway False Forward) demo_params demo_state = (r, s, S') \<and> gs_upstream S' = []"
proof -
  obtain r s S' where h: "handle_call (demo_gateway False Forward) demo_params demo_state = (r, s, S')" by (metis surj_pair)
  have "\<not> en_commit (ge_audit (demo_gateway False Forward) 0) \<or> \<not> en_commit (ge_audit (demo_gateway False Forward) 3)"
    by (simp add: demo_gateway_def)
  from unrecorded_call_not_sent [OF demo_gateway_ok(1) this h] h show ?thesis by (auto simp: demo_state_def)
qed

end
