(* ===== verification/PortableReceipt.thy ===== *)
theory PortableReceipt
  imports ReceiptFacts Recorder
begin

section \<open>Portable receipts\<close>

text \<open>
  Models src/audit/portable-receipt.ts: the envelope schema, the export of the receipts of an
  action from the database, the serialised file and its verification.  An envelope is its
  JSON value.  A file is a text of the string model, which is always valid UTF-8.
\<close>

definition MAX_RECEIPT_FILE_BYTES :: nat where "MAX_RECEIPT_FILE_BYTES = 1048576"
definition MAX_SOURCE_NESTING :: nat where "MAX_SOURCE_NESTING = 64"

definition require :: "bool \<Rightarrow> string \<Rightarrow> audit_error + unit" where
  "require b msg = (if b then Inr () else Inl (Audit_error msg))"

lemma require_iff [simp]: "require b m = Inr u \<longleftrightarrow> b"
  by (cases u) (simp add: require_def)

subsection \<open>Schemas\<close>

definition receipt_event_types :: "string list" where
  "receipt_event_types = [''authorization_receipt_finalized'', ''outcome_receipt_finalized'']"

definition ReceiptEventProofSchema :: schema where
  "ReceiptEventProofSchema = SObj
     [req ''sequence'' (SInt 1 max_safe), req ''eventType'' (SEnum receipt_event_types),
      req ''eventJson'' (SStr (\<lambda>s. 1 \<le> length s \<and> length s \<le> 524288)),
      req ''previousHash'' HashSchema, req ''eventHash'' HashSchema]"

definition ReceiptRecordSchema :: "schema \<Rightarrow> schema" where
  "ReceiptRecordSchema s = SObj [req ''receipt'' s, req ''digest'' DigestSchema]"

definition ReceiptAuditEventSchema :: schema where
  "ReceiptAuditEventSchema = SObj
     [req ''eventId'' SUuid, req ''toolCallId'' SUuid, req ''eventType'' (SEnum receipt_event_types),
      req ''details'' (SObj [req ''receipt'' SAny, req ''receiptDigest'' DigestSchema]),
      req ''createdAt'' STime]"

definition completeness_values :: "string list" where
  "completeness_values = [''complete'', ''authorization_only'', ''incomplete'', ''legacy_incomplete'']"

definition PortableReceiptEnvelopeSchema :: schema where
  "PortableReceiptEnvelopeSchema = SObj
     [req ''format'' (SObj
        [req ''name'' (SLit (JStr ''apg-portable-evidence'')), req ''majorVersion'' (SLit (JInt 1)),
         req ''minorVersion'' (SUnion [SLit (JInt 0), SLit (JInt 1), SLit (JInt 2)]),
         req ''canonicalization'' (SLit (JStr ''apg-canonical-json-v1''))]),
      req ''actionId'' SUuid, req ''assuranceLevel'' (SLit (JStr ''portable_unsigned'')),
      req ''completeness'' (SEnum completeness_values),
      opt ''authorization'' (ReceiptRecordSchema AuthorizationReceiptSchema),
      opt ''outcome'' (ReceiptRecordSchema OutcomeReceiptSchema),
      opt ''legacy'' (SObj
        [req ''status'' ReasonCodeSchema, req ''startedAt'' STime,
         req ''reason'' (SLit (JStr ''receipt_evidence_unavailable''))]),
      req ''localEvidence'' (SObj
        [req ''chainId'' (SLit (JStr ''apg-local-global-v1'')),
         req ''chainVerifiedAtExport'' (SLit (JBool True)),
         req ''proofs'' (SArr 0 2 ReceiptEventProofSchema),
         req ''continuityToGenesisIncluded'' (SLit (JBool False))]),
      req ''limitations'' (SObj
        [req ''issuerAuthentication'' (SLit (JStr ''none'')),
         req ''localChainRecomputableByDatabaseOwner'' (SLit (JBool True)),
         req ''directBypassUnprotected'' (SLit (JBool True)),
         req ''unobservedEffects'' (SLit (JBool True))])]"

subsection \<open>Relationships within an envelope\<close>

definition isIncompleteOutcome :: "jsval \<Rightarrow> bool" where
  "isIncompleteOutcome r \<longleftrightarrow> at (at r ''execution'') ''terminalStatus'' \<in>
     {JStr ''audit_failed'', JStr ''incomplete_external_read'', JStr ''outcome_unknown_after_interruption''}"

definition minor_version :: "jsval \<Rightarrow> jsval" where
  "minor_version r = at (at r ''schema'') ''minorVersion''"

definition auth_status_of :: "jsval \<Rightarrow> jsval" where
  "auth_status_of r = at (at r ''authorization'') ''status''"

definition action_id_of :: "jsval \<Rightarrow> jsval" where
  "action_id_of r = at (at r ''action'') ''id''"

text \<open>\<open>digestEquals(receiptDigest(receipt), digest)\<close>.\<close>

definition digest_valid :: "jsval \<Rightarrow> jsval \<Rightarrow> string \<Rightarrow> audit_error + unit" where
  "digest_valid receipt digest msg = rbind (receiptDigest receipt) (\<lambda>d. require (JStr d = digest) msg)"

definition json_parse_or :: "string \<Rightarrow> audit_error + jsval" where
  "json_parse_or s = (case json_parse s of None \<Rightarrow> Inl (Audit_error ''SyntaxError'') | Some v \<Rightarrow> Inr v)"

definition verifyProof :: "formats \<Rightarrow> jsval \<Rightarrow> jsval \<Rightarrow> audit_error + unit" where
  "verifyProof F proof rcd =
     (let prev = text_of_str (at proof ''previousHash''); json = text_of_str (at proof ''eventJson'');
          receipt = at rcd ''receipt'' in
      rbind (require (JStr (chain_hash prev json) = at proof ''eventHash'') ''Receipt event proof hash is invalid'') (\<lambda>_.
      rbind (json_parse_or json) (\<lambda>v.
      rbind (parse_schema F ReceiptAuditEventSchema v) (\<lambda>event.
      rbind (require (canonicalJson event = json) ''Receipt event proof is not canonical'') (\<lambda>_.
      rbind (require (at event ''eventType'' = at proof ''eventType''
                \<and> at event ''toolCallId'' = action_id_of receipt
                \<and> at (at event ''details'') ''receiptDigest'' = at rcd ''digest'')
              ''Receipt event proof does not match its receipt'') (\<lambda>_.
      rbind (canonicalReceiptJson (at (at event ''details'') ''receipt'')) (\<lambda>t.
      rbind (canonicalReceiptJson receipt) (\<lambda>u.
        require (t = u) ''Receipt event proof does not match its receipt''))))))))"

definition sequence_of :: "jsval \<Rightarrow> int" where
  "sequence_of proof = (case at proof ''sequence'' of JNum (NInt i) \<Rightarrow> i | _ \<Rightarrow> 0)"

text \<open>The loop over the proofs: each belongs to its record, and the sequence numbers increase.\<close>

fun check_proofs :: "formats \<Rightarrow> int \<Rightarrow> jsval list \<Rightarrow> jsval list \<Rightarrow> audit_error + unit" where
  "check_proofs F prev (p # ps) (r # rs) =
     rbind (verifyProof F p r) (\<lambda>_.
     rbind (require (prev < sequence_of p) ''Receipt event proof sequence is not increasing'') (\<lambda>_.
     check_proofs F (sequence_of p) ps rs))"
| "check_proofs F prev [] rs = Inr ()"
| "check_proofs F prev (p # ps) [] = Inl (Audit_error ''Unexpected receipt event proof'')"

definition check_outcome :: "jsval \<Rightarrow> jsval \<Rightarrow> jsval \<Rightarrow> audit_error + unit" where
  "check_outcome actionId a out =
     (let auth = at a ''receipt''; oc = at out ''receipt'' in
      rbind (require (minor_version oc = minor_version auth) ''Authorization and Outcome Receipt versions do not match'') (\<lambda>_.
      rbind (require (auth_status_of auth = JStr ''authorized'') ''Outcome Receipt cannot extend a blocked authorization'') (\<lambda>_.
      rbind (require (action_id_of oc = actionId) ''Outcome action ID mismatch'') (\<lambda>_.
      rbind (digest_valid oc (at out ''digest'') ''Outcome Receipt digest is invalid'') (\<lambda>_.
      rbind (require (at oc ''authorizationReceiptDigest'' = at a ''digest'')
              ''Outcome Receipt does not extend this Authorization Receipt'') (\<lambda>_.
      rbind (canonicalReceiptJson (at oc ''action'')) (\<lambda>t.
      rbind (canonicalReceiptJson (at auth ''action'')) (\<lambda>u.
        require (t = u) ''Outcome Receipt action does not match authorization''))))))))"

definition expected_completeness :: "jsval \<Rightarrow> jsval \<Rightarrow> string" where
  "expected_completeness auth out =
     (if out \<noteq> JUndef then (if isIncompleteOutcome (at out ''receipt'') then ''incomplete'' else ''complete'')
      else if auth_status_of auth = JStr ''authorized'' then ''incomplete'' else ''authorization_only'')"

definition assertEnvelopeRelationships :: "formats \<Rightarrow> jsval \<Rightarrow> audit_error + unit" where
  "assertEnvelopeRelationships F env =
     (let a = at env ''authorization''; out = at env ''outcome'';
          proofs = items (at (at env ''localEvidence'') ''proofs''); auth = at a ''receipt'';
          minor = at (at env ''format'') ''minorVersion'' in
      if at env ''completeness'' = JStr ''legacy_incomplete'' then
        rbind (require (at env ''legacy'' \<noteq> JUndef \<and> a = JUndef \<and> out = JUndef)
                ''Legacy receipt envelope has inconsistent evidence'') (\<lambda>_.
        rbind (require (proofs = []) ''Legacy evidence cannot contain receipt proofs'') (\<lambda>_.
          require (minor = JInt 0) ''Legacy evidence must use envelope schema 1.0''))
      else
        rbind (require (at env ''legacy'' = JUndef \<and> a \<noteq> JUndef)
                ''Portable receipt envelope is missing Authorization evidence'') (\<lambda>_.
        rbind (require (action_id_of auth = at env ''actionId'') ''Authorization action ID mismatch'') (\<lambda>_.
        rbind (require (minor = minor_version auth) ''Envelope and Authorization Receipt versions do not match'') (\<lambda>_.
        rbind (digest_valid auth (at a ''digest'') ''Authorization Receipt digest is invalid'') (\<lambda>_.
        rbind (if out \<noteq> JUndef then check_outcome (at env ''actionId'') a out else Inr ()) (\<lambda>_.
        rbind (require (at env ''completeness'' = JStr (expected_completeness auth out))
                ''Receipt completeness is inconsistent'') (\<lambda>_.
        (let records = a # (if out = JUndef then [] else [out]) in
         rbind (require (length proofs = length records) ''Receipt event proof count is inconsistent'') (\<lambda>_.
           check_proofs F 0 proofs records)))))))))"

subsection \<open>Serialising and verifying\<close>

definition serializePortableReceipt :: "formats \<Rightarrow> jsval \<Rightarrow> audit_error + string" where
  "serializePortableReceipt F env =
     rbind (parse_schema F PortableReceiptEnvelopeSchema env) (\<lambda>parsed.
     rbind (assertEnvelopeRelationships F parsed) (\<lambda>_.
     rbind (canonicalReceiptJson parsed) (\<lambda>t. Inr (t @ newline))))"

text \<open>\<open>assertSourceNesting\<close>: depth, whether inside a string, whether after a backslash.\<close>

fun nesting :: "nat \<Rightarrow> bool \<Rightarrow> bool \<Rightarrow> string \<Rightarrow> audit_error + unit" where
  "nesting depth inString escaped [] =
     require (\<not> inString \<and> depth = 0) ''Receipt source has invalid nesting''"
| "nesting depth inString escaped (c # cs) =
     (if inString then
        (if escaped then nesting depth True False cs
         else if c = CHR 0x5C then nesting depth True True cs
         else if c = CHR 0x22 then nesting depth False False cs
         else nesting depth True False cs)
      else if c = CHR 0x22 then nesting depth True escaped cs
      else if c = CHR ''{'' \<or> c = CHR ''['' then
        (if MAX_SOURCE_NESTING < depth + 1 then Inl (Audit_error ''Receipt source exceeds the nesting limit'')
         else nesting (depth + 1) False escaped cs)
      else if c = CHR ''}'' \<or> c = CHR '']'' then
        (if depth = 0 then Inl (Audit_error ''Receipt source has invalid nesting'')
         else nesting (depth - 1) False escaped cs)
      else nesting depth False escaped cs)"

definition assertSourceNesting :: "string \<Rightarrow> audit_error + unit" where
  "assertSourceNesting s = nesting 0 False False s"

datatype verification_status = Verified_unsigned | Incomplete_receipt | Legacy_incomplete | Invalid_receipt

text \<open>The result of verification; the message of an invalid file is that of the error.\<close>

record portable_verification =
  pv_valid :: bool
  pv_status :: verification_status
  pv_actionId :: "string option"
  pv_error :: "audit_error option"

definition valid_receipt :: "jsval \<Rightarrow> portable_verification" where
  "valid_receipt env =
     \<lparr>pv_valid = True,
      pv_status = (if at env ''completeness'' = JStr ''legacy_incomplete'' then Legacy_incomplete
                   else if at env ''completeness'' = JStr ''incomplete'' then Incomplete_receipt
                   else Verified_unsigned),
      pv_actionId = Some (text_of_str (at env ''actionId'')), pv_error = None\<rparr>"

definition check_receipt_text :: "formats \<Rightarrow> string \<Rightarrow> audit_error + jsval" where
  "check_receipt_text F text =
     rbind (require (utf8_length text \<le> MAX_RECEIPT_FILE_BYTES) ''Receipt file exceeds the size limit'') (\<lambda>_.
     rbind (assertSourceNesting text) (\<lambda>_.
     rbind (json_parse_or text) (\<lambda>v.
     rbind (parse_schema F PortableReceiptEnvelopeSchema v) (\<lambda>env.
     rbind (canonicalReceiptJson env) (\<lambda>t.
     rbind (require (text = t @ newline) ''Receipt file is not canonical apg-canonical-json-v1'') (\<lambda>_.
     rbind (assertEnvelopeRelationships F env) (\<lambda>_. Inr env)))))))"

definition verifyPortableReceipt :: "formats \<Rightarrow> string \<Rightarrow> portable_verification" where
  "verifyPortableReceipt F text =
     (case check_receipt_text F text of
        Inl e \<Rightarrow> \<lparr>pv_valid = False, pv_status = Invalid_receipt, pv_actionId = None, pv_error = Some e\<rparr>
      | Inr env \<Rightarrow> valid_receipt env)"

subsection \<open>Export\<close>

record receipt_event =
  re_proof :: jsval
  re_receipt :: jsval
  re_digest :: jsval

definition proof_of :: "event_row \<Rightarrow> jsval \<Rightarrow> jsval" where
  "proof_of row type = JObj
     [(''sequence'', JInt (int (er_sequence row))), (''eventType'', type), (''eventJson'', JStr (er_json row)),
      (''previousHash'', JStr (er_previous row)), (''eventHash'', JStr (er_hash row))]"

definition parseReceiptEvent :: "formats \<Rightarrow> event_row \<Rightarrow> audit_error + receipt_event" where
  "parseReceiptEvent F row =
     rbind (json_parse_or (er_json row)) (\<lambda>v.
     rbind (require (canonicalJson v = er_json row) ''Receipt audit event is not canonical'') (\<lambda>_.
     rbind (require (chain_hash (er_previous row) (er_json row) = er_hash row) ''Receipt audit event hash is invalid'') (\<lambda>_.
     rbind (parse_schema F ReceiptAuditEventSchema v) (\<lambda>wrapper.
     rbind (require (at wrapper ''eventType'' = JStr (er_type row)) ''Receipt event type does not match its database row'') (\<lambda>_.
     rbind (parse_schema F (if at wrapper ''eventType'' = JStr ''authorization_receipt_finalized''
                            then AuthorizationReceiptSchema else OutcomeReceiptSchema)
              (at (at wrapper ''details'') ''receipt'')) (\<lambda>receipt.
     rbind (digest_valid receipt (at (at wrapper ''details'') ''receiptDigest'') ''Stored receipt digest is invalid'') (\<lambda>_.
       Inr \<lparr>re_proof = proof_of row (at wrapper ''eventType''), re_receipt = receipt,
            re_digest = at (at wrapper ''details'') ''receiptDigest''\<rparr>)))))))"

definition baseEnvelope :: "string \<Rightarrow> string \<Rightarrow> jsval \<Rightarrow> (string \<times> jsval) list" where
  "baseEnvelope actionId completeness minor =
     [(''format'', JObj
        [(''name'', JStr ''apg-portable-evidence''), (''majorVersion'', JInt 1), (''minorVersion'', minor),
         (''canonicalization'', JStr ''apg-canonical-json-v1'')]),
      (''actionId'', JStr actionId), (''assuranceLevel'', JStr ''portable_unsigned''),
      (''completeness'', JStr completeness),
      (''limitations'', JObj
        [(''issuerAuthentication'', JStr ''none''), (''localChainRecomputableByDatabaseOwner'', JBool True),
         (''directBypassUnprotected'', JBool True), (''unobservedEffects'', JBool True)])]"

definition localEvidence :: "jsval list \<Rightarrow> jsval" where
  "localEvidence proofs = JObj
     [(''chainId'', JStr ''apg-local-global-v1''), (''chainVerifiedAtExport'', JBool True),
      (''proofs'', JArr proofs), (''continuityToGenesisIncluded'', JBool False)]"

definition safeStatus :: "string \<Rightarrow> string" where
  "safeStatus s = (if is_reason_code s then s else ''opaque_status_'' @ take 32 (sha256 s))"

definition legacyEnvelope :: "formats \<Rightarrow> call_row \<Rightarrow> audit_error + jsval" where
  "legacyEnvelope F c = parse_schema F PortableReceiptEnvelopeSchema
     (JObj (baseEnvelope (cr_id c) ''legacy_incomplete'' (JInt 0)
       @ [(''legacy'', JObj [(''status'', JStr (safeStatus (cr_status c))), (''startedAt'', JStr (cr_startedAt c)),
                             (''reason'', JStr ''receipt_evidence_unavailable'')]),
          (''localEvidence'', localEvidence [])]))"

definition record_json :: "receipt_event \<Rightarrow> jsval" where
  "record_json e = JObj [(''receipt'', re_receipt e), (''digest'', re_digest e)]"

definition envelope_json :: "string \<Rightarrow> receipt_event \<Rightarrow> receipt_event option \<Rightarrow> jsval" where
  "envelope_json actionId a out = JObj
     (baseEnvelope actionId
        (case out of
           None \<Rightarrow> if auth_status_of (re_receipt a) = JStr ''authorized'' then ''incomplete'' else ''authorization_only''
         | Some x \<Rightarrow> if isIncompleteOutcome (re_receipt x) then ''incomplete'' else ''complete'')
        (minor_version (re_receipt a))
      @ [(''authorization'', record_json a)]
      @ (case out of None \<Rightarrow> [] | Some x \<Rightarrow> [(''outcome'', record_json x)])
      @ [(''localEvidence'', localEvidence (re_proof a # (case out of None \<Rightarrow> [] | Some x \<Rightarrow> [re_proof x])))])"

definition receiptEnvelope :: "formats \<Rightarrow> call_row \<Rightarrow> receipt_event \<Rightarrow> receipt_event option \<Rightarrow> audit_error + jsval" where
  "receiptEnvelope F c a out =
     rbind (require (action_id_of (re_receipt a) = JStr (cr_id c)) ''Authorization Receipt action mismatch'') (\<lambda>_.
       parse_schema F PortableReceiptEnvelopeSchema (envelope_json (cr_id c) a out))"

definition receipt_type_of :: "receipt_event \<Rightarrow> jsval" where
  "receipt_type_of e = at (at (re_receipt e) ''receipt'') ''type''"

definition first_of :: "'a list \<Rightarrow> 'a option" where
  "first_of xs = (case xs of [] \<Rightarrow> None | x # _ \<Rightarrow> Some x)"

definition exportSnapshot :: "formats \<Rightarrow> audit_db \<Rightarrow> string \<Rightarrow> audit_error + jsval" where
  "exportSnapshot F db actionId =
     (if \<not> verifyHashChain db
        then Inl (Audit_error ''Local audit chain verification failed; refusing to export evidence'')
      else case List.find (\<lambda>c. cr_id c = actionId) (db_calls db) of
        None \<Rightarrow> Inl (Audit_error ''Audit action was not found'')
      | Some c \<Rightarrow>
          rbind (mapM (parseReceiptEvent F)
                   (filter (\<lambda>e. er_call e = actionId \<and> is_receipt_event (er_type e)) (db_events db))) (\<lambda>events.
          let auths = filter (\<lambda>e. receipt_type_of e = JStr ''authorization'') events;
              outs = filter (\<lambda>e. receipt_type_of e = JStr ''outcome'') events in
          rbind (require (length auths \<le> 1 \<and> length outs \<le> 1)
                  ''Audit action contains duplicate receipt finalization events'') (\<lambda>_.
          rbind (require (outs = [] \<or> auths \<noteq> []) ''Outcome receipt is missing its Authorization Receipt'') (\<lambda>_.
          rbind (case first_of auths of
                   None \<Rightarrow> legacyEnvelope F c
                 | Some a \<Rightarrow> receiptEnvelope F c a (first_of outs)) (\<lambda>envelope.
          rbind (parse_schema F PortableReceiptEnvelopeSchema envelope) (\<lambda>parsed.
          rbind (assertEnvelopeRelationships F parsed) (\<lambda>_. Inr parsed)))))))"

definition exportAction :: "formats \<Rightarrow> audit_db \<Rightarrow> string \<Rightarrow> audit_error + jsval" where
  "exportAction F db actionId =
     (if \<not> uuid_ok F actionId then Inl (Audit_error ''Receipt action ID must be a UUID'')
      else exportSnapshot F db actionId)"

end
