(* ===== verification/PortableFacts.thy ===== *)
theory PortableFacts
  imports PortableReceipt
begin

section \<open>What a portable receipt shows\<close>

text \<open>
  Facts on src/audit/portable-receipt.ts: a file that verifies holds receipts that belong together,
  writing an envelope and reading it back gives the same envelope, and what the export of a recorded
  action writes is accepted by the verification.
\<close>

subsection \<open>Sorting the properties changes nothing\<close>

text \<open>A property read from JSON data: undefined, or JSON data itself.\<close>

definition data_opt :: "jsval \<Rightarrow> bool" where
  "data_opt v \<longleftrightarrow> v = JUndef \<or> json_data v"

lemma data_opt_at [simp]: "data_opt v \<Longrightarrow> data_opt (at v k)"
  using json_data_at by (auto simp: data_opt_def at_def)

lemma data_opt_item: "data_opt v \<Longrightarrow> x \<in> set (items v) \<Longrightarrow> data_opt x"
  by (auto simp: data_opt_def items_def dest: json_data_items)

lemma at_sort [simp]: "data_opt v \<Longrightarrow> at (sortValue v) k = sortValue (at v k)"
  unfolding data_opt_def by (auto simp: json_at_sort) (simp add: at_def)

lemma json_data_opt [simp]: "json_data v \<Longrightarrow> data_opt v"
  by (simp add: data_opt_def)

lemma text_sort [simp]: "text_of_str (sortValue v) = text_of_str v"
  by (cases v) (auto simp: text_of_str_def)

lemma JNum_sort [simp]: "JNum n = sortValue v \<longleftrightarrow> v = JNum n"
  by (cases v) auto

lemma same_data_sort: "json_data v \<Longrightarrow> same_data v (sortValue v)"
proof (induction v rule: sortValue.induct)
  case (1 xs)
  then show ?case by (auto simp: list_all_iff list_all2_conv_all_nth intro!: same_arr)
next
  case (2 kvs)
  show ?case
    unfolding sortValue_obj
  proof (rule same_obj [where kvs' = "map sort_snd kvs"])
    show "distinct (map fst kvs)" using "2.prems" by simp
    show "list_all2 (\<lambda>p q. fst p = fst q \<and> same_data (snd p) (snd q)) kvs (map sort_snd kvs)"
    proof (rule list_all2_all_nthI)
      fix n assume n: "n < length kvs"
      obtain k w where p: "kvs ! n = (k, w)" by fastforce
      with n have m: "(k, w) \<in> set kvs" by (metis nth_mem)
      with "2.prems" have "json_data w" by (auto simp: list_all_iff)
      with "2.IH" [of "(k, w)" k w] m p n
      show "fst (kvs ! n) = fst (map sort_snd kvs ! n) \<and> same_data (snd (kvs ! n)) (snd (map sort_snd kvs ! n))"
        by (simp add: sort_snd_def)
    qed simp
    show "mset (map sort_snd kvs) = mset (own_order (map sort_snd (isort key_lt kvs)))" by simp
  qed
qed (auto intro: same_atom)

lemma sortValue_idem: "json_data v \<Longrightarrow> sortValue (sortValue v) = sortValue v"
  using same_data_sortValue [OF same_data_sort] by metis

lemma mapM_ok_iff: "is_ok (mapM f xs) \<longleftrightarrow> (\<forall>x \<in> set xs. is_ok (f x))"
proof (induction xs)
  case (Cons x xs)
  then show ?case by (cases "f x"; cases "mapM f xs") auto
qed simp

lemma ok_drop: "is_ok (case r of Inl e \<Rightarrow> Inl e | Inr _ \<Rightarrow> Inr ()) = is_ok r"
  by (cases r) auto

lemma validate_ok_arr:
  "is_ok (validateJsonValue (JArr xs) d) \<longleftrightarrow>
     d \<le> max_depth \<and> length xs \<le> max_collection \<and> (\<forall>x \<in> set xs. is_ok (validateJsonValue x (d + 1)))"
  by (subst validateJsonValue.simps [of "JArr xs" d]) (auto simp: mapM_ok_iff ok_drop)

lemma validate_ok_obj:
  "is_ok (validateJsonValue (JObj kvs) d) \<longleftrightarrow>
     d \<le> max_depth \<and> length kvs \<le> max_collection
     \<and> (\<forall>p \<in> set kvs. length (fst p) \<le> 256 \<and> is_ok (validateJsonValue (snd p) (d + 1)))"
  by (subst validateJsonValue.simps [of "JObj kvs" d]) (auto simp: mapM_ok_iff ok_drop split: if_splits)

lemmas validate_ok = validate_ok_arr validate_ok_obj

lemma length_own_order [simp]: "length (own_order kvs) = length kvs"
  by (metis mset_own_order size_mset)

lemma validate_sort: "json_data v \<Longrightarrow> is_ok (validateJsonValue (sortValue v) d) = is_ok (validateJsonValue v d)"
proof (induction v arbitrary: d rule: sortValue.induct)
  case (1 xs)
  then show ?case by (simp add: validate_ok list_all_iff)
next
  case (2 kvs)
  have "is_ok (validateJsonValue (sortValue (snd p)) (d + 1)) = is_ok (validateJsonValue (snd p) (d + 1))"
    if "p \<in> set kvs" for p
    using that "2.IH" [of p "fst p" "snd p"] "2.prems" by (cases p) (auto simp: list_all_iff)
  then show ?case
    unfolding sortValue_obj validate_ok by (simp add: sort_snd_def del: sortValue.simps)
qed simp_all

lemma canonicalReceiptJson_sort:
  "json_data v \<Longrightarrow> canonicalReceiptJson (sortValue v) = Inr t \<longleftrightarrow> canonicalReceiptJson v = Inr t"
  using validate_sort [of v 0] same_data_canonicalJson [OF same_data_sort, of v]
  by (auto simp: canonicalReceiptJson_def split: sum.splits)

lemma receiptDigest_iff: "receiptDigest v = Inr d \<longleftrightarrow> (\<exists>t. canonicalReceiptJson v = Inr t \<and> d = sha256_digest t)"
  by (auto simp: receiptDigest_def split: sum.splits)

lemma receiptDigest_sort: "json_data v \<Longrightarrow> receiptDigest (sortValue v) = Inr d \<longleftrightarrow> receiptDigest v = Inr d"
  by (simp add: receiptDigest_iff canonicalReceiptJson_sort)

subsection \<open>The schemas do not look at the order of properties\<close>

lemma evidence_rules_sort:
  assumes "json_data e"
  shows "evidence_rules (sortValue e) = evidence_rules e"
proof -
  have "text_of_str (at (sortValue c) ''name'') = text_of_str (at c ''name'')" if "c \<in> set (items (at e ''safeClaims''))" for c
    using data_opt_item [OF _ that] assms by simp
  then have n: "map (\<lambda>c. text_of_str (at (sortValue c) ''name'')) (items (at e ''safeClaims''))
      = map (\<lambda>c. text_of_str (at c ''name'')) (items (at e ''safeClaims''))"
    by (intro map_cong refl)
  show ?thesis
    unfolding evidence_rules_def using assms by (simp add: items_sortValue o_def n del: map_eq_conv)
qed

lemma rules_sort:
  "json_data v \<Longrightarrow> action_rules (sortValue v) = action_rules v"
  "json_data v \<Longrightarrow> approval_rules (sortValue v) = approval_rules v"
  "json_data v \<Longrightarrow> authorization_rules (sortValue v) = authorization_rules v"
  "json_data v \<Longrightarrow> outcome_rules (sortValue v) = outcome_rules v"
  by (simp_all add: action_rules_def approval_rules_def authorization_rules_def outcome_rules_def
      identity_version_rules_def genesis_boundary_rule_def items_sortValue Let_def)

lemma stable_refine: "stable s \<Longrightarrow> (\<And>v. json_data v \<Longrightarrow> p (sortValue v) = p v) \<Longrightarrow> stable (SRefine s p)"
  by (rule stable.intros)

lemma stable_parts:
  "stable ReceiptIdentityEvidenceSchema" "stable ApprovalSchema"
  by (auto simp: ReceiptIdentityEvidenceSchema_def ApprovalSchema_def receipt_schemas rules_sort evidence_rules_sort
      intro!: stable_rules stable_refine)

lemma stable_action: "stable ActionSchema"
  using stable_parts(1)
  by (auto simp: ActionSchema_def IdentifierSchema_def DigestSchema_def HashSchema_def req_def opt_def rules_sort
      intro!: stable_rules stable_refine)

lemma stable_receipts: "stable AuthorizationReceiptSchema" "stable OutcomeReceiptSchema"
  using stable_parts(2) stable_action
  by (auto simp: AuthorizationReceiptSchema_def OutcomeReceiptSchema_def SchemaIdentitySchema_def
      ReceiptIdentitySchema_def CoverageSchema_def PolicySchema_def ReceiptDecisionSchema_def IssuerSchema_def
      LimitationsSchema_def AuthorizationSchema_def ObservedResultSchema_def RecoverySchema_def DigestSchema_def
      HashSchema_def IdentifierSchema_def ReasonCodeSchema_def req_def opt_def rules_sort
      intro!: stable_rules stable_refine)

lemma stable_envelope: "stable PortableReceiptEnvelopeSchema"
  using stable_receipts
  by (auto simp: PortableReceiptEnvelopeSchema_def ReceiptRecordSchema_def ReceiptEventProofSchema_def
      DigestSchema_def HashSchema_def ReasonCodeSchema_def req_def opt_def intro!: stable_rules)

subsection \<open>The nesting of printed values\<close>

text \<open>\<open>balanced k t\<close>: scanning \<open>t\<close> outside a string returns to the same depth, at most \<open>k\<close> deeper in between.\<close>

definition balanced :: "nat \<Rightarrow> string \<Rightarrow> bool" where
  "balanced k t \<longleftrightarrow> (\<forall>d r. d + k \<le> MAX_SOURCE_NESTING \<longrightarrow> nesting d False False (t @ r) = nesting d False False r)"

lemma balanced_Nil: "balanced k []"
  by (simp add: balanced_def)

lemma balanced_append: "balanced k s \<Longrightarrow> balanced k t \<Longrightarrow> balanced k (s @ t)"
  by (simp add: balanced_def)

lemma balanced_mono: "balanced k t \<Longrightarrow> k \<le> m \<Longrightarrow> balanced m t"
  by (auto simp: balanced_def)

definition plain_char :: "char \<Rightarrow> bool" where
  "plain_char c \<longleftrightarrow> c \<noteq> CHR 0x22 \<and> c \<noteq> CHR ''{'' \<and> c \<noteq> CHR ''['' \<and> c \<noteq> CHR ''}'' \<and> c \<noteq> CHR '']''"

lemma balanced_plain: "list_all plain_char t \<Longrightarrow> balanced k t"
  by (induction t) (auto simp: balanced_def plain_char_def)

lemma balanced_bracket: "balanced k t \<Longrightarrow> balanced (Suc k) (CHR ''['' # t @ '']'')"
  by (auto simp: balanced_def)

lemma balanced_brace: "balanced k t \<Longrightarrow> balanced (Suc k) (CHR ''{'' # t @ ''}'')"
  by (auto simp: balanced_def)

lemma hex_digit_plain:
  assumes "d < 16"
  shows "hex_digit d \<noteq> CHR 0x5C \<and> hex_digit d \<noteq> CHR 0x22"
proof -
  have "code (hex_digit d) = (if d < 10 then 48 + d else 87 + d)"
    using assms by (simp add: hex_digit_def)
  then show ?thesis using assms by (auto split: if_splits)
qed

lemma nesting_escape: "nesting d True False (escape_char c @ r) = nesting d True False r"
proof (cases "code c < 32")
  case True
  have "code c div 16 < 16" "code c mod 16 < 16" using True by auto
  from hex_digit_plain [OF this(1)] hex_digit_plain [OF this(2)] show ?thesis
    by (simp add: escape_char_def)
qed (auto simp: escape_char_def)

lemma nesting_string: "nesting d True False (concat (map escape_char s) @ CHR 0x22 # r) = nesting d False False r"
  by (induction s) (auto simp: nesting_escape)

lemma balanced_quote: "balanced k (quote s)"
  by (simp add: balanced_def quote_def nesting_string)

lemma balanced_join: "\<forall>t \<in> set ts. balanced k t \<Longrightarrow> balanced k (join_with '','' ts)"
proof (induction ts rule: induct_list012)
  case (3 a b ts)
  have "balanced k '',''" by (rule balanced_plain) (simp add: plain_char_def)
  with 3 have "balanced k (a @ '','' @ join_with '','' (b # ts))" by (intro balanced_append) auto
  then show ?case by simp
qed (auto simp: balanced_Nil)

lemma num_char_plain: "is_num_char c \<Longrightarrow> plain_char c"
  by (auto simp: is_num_char_def plain_char_def is_digit_def)

lemma num_text_plain: "valid_num n \<Longrightarrow> list_all plain_char (show_num n)"
  using show_num_chars [of n] num_char_plain by (auto simp: list_all_iff)

lemma balanced_json: "json_data v \<Longrightarrow> json_text v = Some t \<Longrightarrow> balanced (json_depth v) t"
proof (induction v arbitrary: t rule: json_depth.induct)
  case (1 xs)
  let ?k = "fold max (map json_depth xs) 0"
  have "balanced ?k u" if x: "x \<in> set xs" and u: "json_text x = Some u" for x u
  proof -
    have "json_depth x \<le> ?k" using x fold_max_le [of "map json_depth xs" 0 ?k] by auto
    with "1.IH" [OF x _ u] "1.prems"(1) x show ?thesis by (auto simp: list_all_iff intro: balanced_mono)
  qed
  moreover have "\<exists>u. json_text x = Some u" if "x \<in> set xs" for x
    using "1.prems"(1) that json_text_Some by (auto simp: list_all_iff)
  ultimately have "balanced ?k (join_with '','' (map (\<lambda>x. case json_text x of None \<Rightarrow> ''null'' | Some t \<Rightarrow> t) xs))"
    by (intro balanced_join) fastforce
  with "1.prems"(2) show ?case by (auto intro: balanced_bracket)
next
  case (2 kvs)
  let ?k = "fold max (map (\<lambda>(k, v). json_depth v) kvs) 0"
  let ?f = "\<lambda>(k, v). case json_text v of None \<Rightarrow> [] | Some t \<Rightarrow> [quote k @ '':'' @ t]"
  have b: "balanced ?k w" if p: "(k, v) \<in> set kvs" and w: "w \<in> set (?f (k, v))" for k v w
  proof -
    obtain u where u: "json_text v = Some u" "w = quote k @ '':'' @ u" using w by (cases "json_text v") auto
    have "json_depth v \<le> ?k"
      using p fold_max_le [of "map (\<lambda>(k, v). json_depth v) kvs" 0 ?k] by force
    moreover have "json_data v" using "2.prems"(1) p by (auto simp: list_all_iff)
    ultimately have "balanced ?k u" using "2.IH" [OF p refl _ u(1)] balanced_mono by blast
    moreover have "balanced ?k '':''" by (rule balanced_plain) (simp add: plain_char_def)
    ultimately show ?thesis unfolding u(2) by (intro balanced_append balanced_quote)
  qed
  have "balanced ?k (join_with '','' (concat (map ?f kvs)))"
    by (rule balanced_join) (use b in auto)
  with "2.prems"(2) show ?case by (auto intro: balanced_brace)
qed (auto simp: plain_char_def intro: balanced_quote balanced_plain num_text_plain)

lemma newline_balanced: "balanced k newline"
  by (rule balanced_plain) (simp add: newline_def plain_char_def)

subsection \<open>A serialised receipt verifies\<close>

lemma canonical_text:
  assumes "json_data v"
  shows "json_text (sortValue v) = Some (canonicalJson v)"
  using json_text_Some [of "sortValue v"] sortValue_normal [OF assms] by (auto simp: canonicalJson_def)

lemma json_parse_line: "json_data v \<Longrightarrow> json_parse (canonicalJson v @ newline) = Some (sortValue v)"
proof -
  assume v: "json_data v"
  let ?t = "canonicalJson v"
  have "parse_val (2 * length (?t @ newline) + 2) (?t @ newline) = Some (sortValue v, newline)"
    using parses_json [of "sortValue v"] sortValue_normal [OF v]
    by (simp add: parses_def canonical_text [OF v] newline_def del: parse_val.simps)
  then show ?thesis by (simp add: json_parse_def skip_ws_def newline_def is_ws_def del: parse_val.simps)
qed

lemma nesting_line:
  assumes "canonicalReceiptJson v = Inr t" "json_data v"
  shows "assertSourceNesting (t @ newline) = Inr ()"
proof -
  obtain u where u: "validateJsonValue v 0 = Inr u" "t = canonicalJson v" using canonicalReceiptJson_ok [OF assms(1)] by blast
  then obtain u' where "validateJsonValue (sortValue v) 0 = Inr u'"
    using validate_sort [OF assms(2), of 0] by (auto simp: is_ok_iff)
  then have d: "json_depth (sortValue v) \<le> Suc max_depth" using validate_depth by fastforce
  have "balanced (json_depth (sortValue v)) t"
    using balanced_json [OF _ canonical_text [OF assms(2)]] sortValue_normal [OF assms(2)] u(2) by simp
  then have "balanced MAX_SOURCE_NESTING t"
    by (rule balanced_mono) (use d in \<open>simp add: MAX_SOURCE_NESTING_def max_depth_def\<close>)
  with newline_balanced have "balanced MAX_SOURCE_NESTING (t @ newline)" by (intro balanced_append)
  then have "nesting 0 False False ((t @ newline) @ r) = nesting 0 False False r" for r by (simp add: balanced_def)
  from this [of "[]"] show ?thesis by (simp add: assertSourceNesting_def require_def)
qed

text \<open>The relationships of an envelope survive sorting its properties.\<close>

lemma event_fields:
  assumes "conforms F ReceiptAuditEventSchema e"
  shows "\<exists>s. at e ''eventType'' = JStr s" "\<exists>s. at e ''toolCallId'' = JStr s"
    "\<exists>s. at (at e ''details'') ''receiptDigest'' = JStr s"
  using assms
  by (auto simp: ReceiptAuditEventSchema_def req_def SEnum_def DigestSchema_def str_ok_iff)

lemma canonicalReceiptJson_sort_opt:
  "data_opt v \<Longrightarrow> canonicalReceiptJson (sortValue v) = Inr t \<longleftrightarrow> canonicalReceiptJson v = Inr t"
  using canonicalReceiptJson_sort by (auto simp: data_opt_def)

lemma verifyProof_iff:
  "verifyProof F p r = Inr u \<longleftrightarrow> (\<exists>e t.
     JStr (chain_hash (text_of_str (at p ''previousHash'')) (text_of_str (at p ''eventJson''))) = at p ''eventHash''
     \<and> json_parse (text_of_str (at p ''eventJson'')) = Some e \<and> conforms F ReceiptAuditEventSchema e
     \<and> canonicalJson e = text_of_str (at p ''eventJson'')
     \<and> at e ''eventType'' = at p ''eventType'' \<and> at e ''toolCallId'' = action_id_of (at r ''receipt'')
     \<and> at (at e ''details'') ''receiptDigest'' = at r ''digest''
     \<and> canonicalReceiptJson (at (at e ''details'') ''receipt'') = Inr t
     \<and> canonicalReceiptJson (at r ''receipt'') = Inr t)"
  by (auto simp: verifyProof_def Let_def rbind_Inr_iff parse_schema_def json_parse_or_def split: option.splits)

lemma verifyProof_sort:
  assumes "data_opt p" "data_opt r" "verifyProof F p r = Inr u"
  shows "verifyProof F (sortValue p) (sortValue r) = Inr u"
proof -
  obtain e t where e: "json_parse (text_of_str (at p ''eventJson'')) = Some e" "conforms F ReceiptAuditEventSchema e"
    "canonicalJson e = text_of_str (at p ''eventJson'')"
    "JStr (chain_hash (text_of_str (at p ''previousHash'')) (text_of_str (at p ''eventJson''))) = at p ''eventHash''"
    "at e ''eventType'' = at p ''eventType''" "at e ''toolCallId'' = action_id_of (at r ''receipt'')"
    "at (at e ''details'') ''receiptDigest'' = at r ''digest''"
    "canonicalReceiptJson (at (at e ''details'') ''receipt'') = Inr t" "canonicalReceiptJson (at r ''receipt'') = Inr t"
    using assms(3) unfolding verifyProof_iff by blast
  have eq: "x = sortValue y" if "x = y" "\<exists>s. x = JStr s" for x y using that by auto
  note ev = eq [OF e(5) event_fields(1) [OF e(2)]] eq [OF e(6) event_fields(2) [OF e(2)]]
    eq [OF e(7) event_fields(3) [OF e(2)]]
  show ?thesis
    unfolding verifyProof_iff using assms(1,2) e(1-3) e(4) [symmetric] e(8,9) ev
    by (intro exI [of _ e] exI [of _ t]) (simp add: action_id_of_def canonicalReceiptJson_sort_opt)
qed

lemma require_Inr: "require b m = Inr ()  \<longleftrightarrow> b"
  by simp

lemma sequence_sort: "data_opt p \<Longrightarrow> sequence_of (sortValue p) = sequence_of p"
  by (cases "at p ''sequence''") (auto simp: sequence_of_def split: jsval.splits jnum.splits)

lemma check_proofs_sort:
  "\<lbrakk>\<forall>p \<in> set ps. data_opt p; \<forall>r \<in> set rs. data_opt r; check_proofs F n ps rs = Inr u\<rbrakk>
     \<Longrightarrow> check_proofs F n (map sortValue ps) (map sortValue rs) = Inr u"
proof (induction F n ps rs rule: check_proofs.induct)
  case (1 F prev p ps r rs)
  then show ?case
    by (auto simp: rbind_Inr_iff sequence_sort intro: verifyProof_sort)
qed auto

lemma digest_valid_sort:
  "data_opt r \<Longrightarrow> digest_valid r d m = Inr u \<Longrightarrow> digest_valid (sortValue r) (sortValue d) m = Inr u"
  by (auto simp: digest_valid_def rbind_Inr_iff receiptDigest_iff canonicalReceiptJson_sort_opt)

lemma outcome_sort:
  assumes "data_opt a" "data_opt out" "check_outcome i a out = Inr u"
  shows "check_outcome (sortValue i) (sortValue a) (sortValue out) = Inr u"
  using assms
  by (auto simp: check_outcome_def Let_def rbind_Inr_iff minor_version_def auth_status_of_def action_id_of_def
      canonicalReceiptJson_sort_opt intro: digest_valid_sort)

lemma incomplete_sort: "data_opt r \<Longrightarrow> isIncompleteOutcome (sortValue r) = isIncompleteOutcome r"
  by (simp add: isIncompleteOutcome_def)

lemma completeness_sort:
  "data_opt a \<Longrightarrow> data_opt out \<Longrightarrow> expected_completeness (sortValue a) (sortValue out) = expected_completeness a out"
  by (simp add: expected_completeness_def incomplete_sort auth_status_of_def)

lemma relationships_sort:
  assumes "json_data env" "assertEnvelopeRelationships F env = Inr u"
  shows "assertEnvelopeRelationships F (sortValue env) = Inr u"
proof -
  have ev: "data_opt env" using assms(1) by simp
  let ?ps = "items (at (at env ''localEvidence'') ''proofs'')"
  have ps: "\<forall>p \<in> set ?ps. data_opt p"
    using data_opt_item [of "at (at env ''localEvidence'') ''proofs''"] ev by (metis data_opt_at)
  have rs: "\<forall>r \<in> set (at env ''authorization'' # (if at env ''outcome'' = JUndef then [] else [at env ''outcome''])). data_opt r"
    using ev by simp
  show ?thesis
  proof (cases "at env ''completeness'' = JStr ''legacy_incomplete''")
    case True
    with assms(2) ev show ?thesis
      by (auto simp: assertEnvelopeRelationships_def Let_def rbind_Inr_iff items_sortValue)
  next
    case False
    with assms(2) ev ps rs show ?thesis
      unfolding assertEnvelopeRelationships_def Let_def
      using check_proofs_sort [OF ps rs, of F 0]
      by (auto simp: rbind_Inr_iff items_sortValue completeness_sort action_id_of_def minor_version_def
          intro: digest_valid_sort outcome_sort split: if_splits)
  qed
qed

subsection \<open>Parsed values are JSON data\<close>

lemma build_obj_data:
  assumes "\<forall>p \<in> set kvs. json_data (snd p)"
  shows "json_data (build_obj kvs)"
proof -
  have "om_wf (foldl (\<lambda>m p. om_set (fst p) (snd p) m) m kvs)
      \<and> set (foldl (\<lambda>m p. om_set (fst p) (snd p) m) m kvs) \<subseteq> set m \<union> set kvs" if "om_wf m" for m
    using that
  proof (induction kvs arbitrary: m)
    case (Cons p kvs)
    from Cons.IH [of "om_set (fst p) (snd p) m"] Cons.prems set_om_set [of "fst p" "snd p" m] show ?case by auto
  qed simp
  from this [of "[]"] show ?thesis
    using assms by (fastforce simp: build_obj_def list_all_iff)
qed

lemma parse_num_data: "parse_num s = Some (v, r) \<Longrightarrow> json_data v"
proof -
  assume "parse_num s = Some (v, r)"
  then obtain l where l: "l = takeWhile is_num_char s" "num_literal l" "v = JNum (literal_value l)"
    by (auto simp: parse_num_def Let_def split: if_splits)
  have "list_all is_num_char l" using l(1) by (auto simp: list_all_iff dest: set_takeWhileD)
  then have "valid_num (literal_value l)"
    using l(2) by (auto simp: literal_value_def Let_def)
  with l(3) show ?thesis by simp
qed

lemma parse_data:
  "parse_val n s = Some (v, r) \<Longrightarrow> json_data v"
  "parse_arr n s = Some (vs, r) \<Longrightarrow> list_all json_data vs"
  "parse_obj n s = Some (kvs, r) \<Longrightarrow> \<forall>p \<in> set kvs. json_data (snd p)"
proof (induction n s and n s and n s arbitrary: v r and vs r and kvs r rule: parse_val_parse_arr_parse_obj.induct)
  case (2 n s)
  from "2.prems" show ?case
    by (auto split: list.splits option.splits if_splits simp: parse_num_data "2.IH"(1) intro!: build_obj_data)
       (fastforce dest: "2.IH"(2))+
next
  case (4 n s)
  from "4.prems" show ?case
    by (auto split: list.splits option.splits if_splits prod.splits simp: "4.IH")
next
  case (6 n s)
  from "6.prems" show ?case
    by (auto split: list.splits option.splits if_splits prod.splits simp: "6.IH"(1)) (fastforce dest: "6.IH"(2))+
qed simp_all

lemma json_parse_data: "json_parse s = Some v \<Longrightarrow> json_data v"
  unfolding json_parse_def by (auto simp del: parse_val.simps dest: parse_data(1) split: option.splits if_splits)

subsection \<open>Properties\<close>

lemma valid_receipt_sort: "json_data env \<Longrightarrow> valid_receipt (sortValue env) = valid_receipt env"
  by (simp add: valid_receipt_def)

lemma check_text_iff:
  "check_receipt_text F text = Inr env \<longleftrightarrow>
     utf8_length text \<le> MAX_RECEIPT_FILE_BYTES \<and> assertSourceNesting text = Inr () \<and> json_parse text = Some env
     \<and> conforms F PortableReceiptEnvelopeSchema env
     \<and> (\<exists>t. canonicalReceiptJson env = Inr t \<and> text = t @ newline) \<and> assertEnvelopeRelationships F env = Inr ()"
  by (auto simp: check_receipt_text_def rbind_Inr_iff parse_schema_def json_parse_or_def split: option.splits)

lemma canonical_line_verifies:
  assumes "js_wf env" "conforms F PortableReceiptEnvelopeSchema env" "assertEnvelopeRelationships F env = Inr ()"
    "canonicalReceiptJson env = Inr t" "utf8_length (t @ newline) \<le> MAX_RECEIPT_FILE_BYTES"
  shows "check_receipt_text F (t @ newline) = Inr (sortValue env) \<and> json_data env"
proof -
  have t: "t = canonicalJson env" and d: "json_data env"
    using canonicalReceiptJson_ok [OF assms(4)] validate_json_data [OF assms(1)] by auto
  show ?thesis
    unfolding check_text_iff
    using assms d nesting_line [OF assms(4) d] json_parse_line [OF d] conforms_sort [OF stable_envelope, of env F]
      canonicalReceiptJson_sort [OF d] relationships_sort [OF d]
    by (auto simp: t)
qed

lemma serialise_iff:
  "serializePortableReceipt F env = Inr text \<longleftrightarrow>
     conforms F PortableReceiptEnvelopeSchema env \<and> assertEnvelopeRelationships F env = Inr ()
     \<and> (\<exists>t. canonicalReceiptJson env = Inr t \<and> text = t @ newline)"
  by (auto simp: serializePortableReceipt_def rbind_Inr_iff parse_schema_def)

text \<open>
  C31: whatever \<open>serializePortableReceipt\<close> writes, \<open>verifyPortableReceipt\<close> accepts, with the
  status and the action of the envelope, as long as the file is within the size limit: the
  text passes the nesting scan, parses back to the same data and is its canonical form.
\<close>

theorem portable_receipt_roundtrip:
  assumes "js_wf env" "serializePortableReceipt F env = Inr text" "utf8_length text \<le> MAX_RECEIPT_FILE_BYTES"
  shows "verifyPortableReceipt F text = valid_receipt env"
proof -
  obtain t where t: "conforms F PortableReceiptEnvelopeSchema env" "assertEnvelopeRelationships F env = Inr ()"
    "canonicalReceiptJson env = Inr t" "text = t @ newline"
    using assms(2) unfolding serialise_iff by blast
  from canonical_line_verifies [OF assms(1) t(1-3)] assms(3) t(4) show ?thesis
    by (simp add: verifyPortableReceipt_def valid_receipt_sort)
qed

text \<open>
  What the checks of an envelope with receipts establish: its authorization and outcome, each
  with its digest, the link between them, and the action they share.
\<close>

definition evidence_holds :: "formats \<Rightarrow> jsval \<Rightarrow> bool" where
  "evidence_holds F env \<longleftrightarrow>
     (let a = at env ''authorization''; auth = at a ''receipt''; out = at env ''outcome''; oc = at out ''receipt'' in
      conforms F AuthorizationReceiptSchema auth \<and> action_id_of auth = at env ''actionId''
      \<and> (\<exists>d. receiptDigest auth = Inr d \<and> at a ''digest'' = JStr d)
      \<and> (out = JUndef \<or>
           conforms F OutcomeReceiptSchema oc \<and> auth_status_of auth = JStr ''authorized''
           \<and> (\<exists>d. receiptDigest oc = Inr d \<and> at out ''digest'' = JStr d)
           \<and> at oc ''authorizationReceiptDigest'' = at a ''digest''
           \<and> (\<exists>t. canonicalReceiptJson (at oc ''action'') = Inr t \<and> canonicalReceiptJson (at auth ''action'') = Inr t)))"

lemma record_conforms: "conforms F (ReceiptRecordSchema s) v \<Longrightarrow> conforms F s (at v ''receipt'')"
  by (auto simp: ReceiptRecordSchema_def req_def)

lemma envelope_records:
  assumes "conforms F PortableReceiptEnvelopeSchema env"
  shows "at env ''authorization'' = JUndef \<or> conforms F AuthorizationReceiptSchema (at (at env ''authorization'') ''receipt'')"
    "at env ''outcome'' = JUndef \<or> conforms F OutcomeReceiptSchema (at (at env ''outcome'') ''receipt'')"
proof -
  note f = conforms_field [OF assms [unfolded PortableReceiptEnvelopeSchema_def]]
  from f [of "''authorization''" True] f [of "''outcome''" True]
  show "at env ''authorization'' = JUndef \<or> conforms F AuthorizationReceiptSchema (at (at env ''authorization'') ''receipt'')"
    "at env ''outcome'' = JUndef \<or> conforms F OutcomeReceiptSchema (at (at env ''outcome'') ''receipt'')"
    by (auto simp: req_def opt_def simp del: conforms.simps dest: record_conforms)
qed

lemma relationships_evidence:
  assumes "conforms F PortableReceiptEnvelopeSchema env" "assertEnvelopeRelationships F env = Inr ()"
    "at env ''completeness'' \<noteq> JStr ''legacy_incomplete''"
  shows "evidence_holds F env"
  using assms(2,3) envelope_records [OF assms(1)]
  unfolding evidence_holds_def Let_def assertEnvelopeRelationships_def
  by (auto simp: rbind_Inr_iff digest_valid_def check_outcome_def Let_def simp del: conforms.simps split: if_splits)


text \<open>Two verified files whose outcomes have the same digest.\<close>

lemma digest_same:
  assumes "json_data v" "json_data w" "receiptDigest v = Inr d" "receiptDigest w = Inr d"
  shows "sortValue v = sortValue w \<or> collision (canonicalJson v) (canonicalJson w)"
  using assms canonicalJson_inj sha256_digest_eq_cases canonicalReceiptJson_ok unfolding receiptDigest_iff by metis

lemma conforms_receipt_data:
  assumes "json_data env" "conforms F s (at (at env k) l)" "s = AuthorizationReceiptSchema \<or> s = OutcomeReceiptSchema"
  shows "json_data (at (at env k) l)"
proof -
  have "data_opt (at (at env k) l)" using assms(1) by simp
  moreover have "at (at env k) l \<noteq> JUndef"
    using assms(2,3) by (auto simp: AuthorizationReceiptSchema_def OutcomeReceiptSchema_def is_obj_def)
  ultimately show ?thesis by (simp add: data_opt_def)
qed

lemma evidence_not_legacy:
  "assertEnvelopeRelationships F x = Inr u \<Longrightarrow> at x ''outcome'' \<noteq> JUndef \<Longrightarrow> at x ''completeness'' \<noteq> JStr ''legacy_incomplete''"
  by (auto simp: assertEnvelopeRelationships_def Let_def rbind_Inr_iff)

text \<open>
  The digest of an outcome receipt binds the whole record of an action.  If the evidence
  of two envelopes holds, as that of every verified file does, and their outcome receipts have
  the same digest, they hold the same outcome receipt and the same authorization receipt, up
  to the order of properties, unless two canonical texts collide under SHA-256.
\<close>

theorem outcome_digest_binds_record:
  assumes "json_data e" "json_data f" "evidence_holds F e" "evidence_holds F f"
    "at e ''outcome'' \<noteq> JUndef" "at f ''outcome'' \<noteq> JUndef"
    "at (at e ''outcome'') ''digest'' = at (at f ''outcome'') ''digest''"
  shows "(sortValue (at (at e ''outcome'') ''receipt'') = sortValue (at (at f ''outcome'') ''receipt'')
        \<and> sortValue (at (at e ''authorization'') ''receipt'') = sortValue (at (at f ''authorization'') ''receipt''))
    \<or> collision (canonicalJson (at (at e ''outcome'') ''receipt'')) (canonicalJson (at (at f ''outcome'') ''receipt''))
    \<or> collision (canonicalJson (at (at e ''authorization'') ''receipt'')) (canonicalJson (at (at f ''authorization'') ''receipt''))"
proof -
  let ?oe = "at (at e ''outcome'') ''receipt''" and ?of = "at (at f ''outcome'') ''receipt''"
  let ?ae = "at (at e ''authorization'') ''receipt''" and ?af = "at (at f ''authorization'') ''receipt''"
  note h = assms(3,4) [unfolded evidence_holds_def Let_def]
  have data: "json_data ?oe" "json_data ?of" "json_data ?ae" "json_data ?af"
    using h assms(1,2,5,6) by (auto simp del: conforms.simps intro: conforms_receipt_data)
  obtain d where d: "receiptDigest ?oe = Inr d" "receiptDigest ?of = Inr d"
    using h assms(5-7) by (auto simp del: conforms.simps)
  obtain a b where ab: "receiptDigest ?ae = Inr a" "receiptDigest ?af = Inr b"
    "at ?oe ''authorizationReceiptDigest'' = JStr a" "at ?of ''authorizationReceiptDigest'' = JStr b"
    using h assms(5,6) by (auto simp del: conforms.simps)
  consider "sortValue ?oe = sortValue ?of" | "collision (canonicalJson ?oe) (canonicalJson ?of)"
    using digest_same [OF data(1,2) d] by blast
  then show ?thesis
  proof cases
    case 1
    then have "sortValue (at ?oe ''authorizationReceiptDigest'') = sortValue (at ?of ''authorizationReceiptDigest'')"
      using at_sort [of ?oe] at_sort [of ?of] data by (metis json_data_opt)
    then have "a = b" using ab(3,4) by simp
    with 1 digest_same [OF data(3,4) ab(1)] ab(2) show ?thesis by auto
  qed simp
qed

text \<open>An envelope member that is checked has bounded strings.\<close>

lemma validate_at:
  assumes "is_ok (validateJsonValue v d)"
  shows "at v k = JUndef \<or> is_ok (validateJsonValue (at v k) (d + 1))"
proof (cases v)
  case (JObj kvs)
  then show ?thesis
    using assms by (cases "map_of kvs k") (auto simp: own_prop_def validate_ok dest!: map_of_SomeD)
qed (simp_all add: at_def)

lemma validate_item: "is_ok (validateJsonValue v d) \<Longrightarrow> x \<in> set (items v) \<Longrightarrow> is_ok (validateJsonValue x (d + 1))"
  by (cases v) (auto simp: items_def validate_ok)

lemma validate_text: "is_ok (validateJsonValue (JStr s) d) \<Longrightarrow> length s \<le> max_string"
  by (subst (asm) validateJsonValue.simps) (auto split: if_splits)

text \<open>
  A file holds no event text longer than 16384 characters: the general limit of
  \<open>canonicalReceiptJson\<close> applies to the copies of the log in the envelope, whose schema
  would allow 524288.  An envelope with a longer event passes the export and can neither be
  serialised nor verified.
\<close>

theorem serialised_events_bounded:
  assumes "canonicalReceiptJson env = Inr t" "p \<in> set (items (at (at env ''localEvidence'') ''proofs''))"
    "at p ''eventJson'' = JStr s"
  shows "length s \<le> 16384"
proof -
  have "is_ok (validateJsonValue env 0)"
    using canonicalReceiptJson_ok [OF assms(1)] by (auto simp: is_ok_iff)
  moreover have "at (at env ''localEvidence'') ''proofs'' \<noteq> JUndef" using assms(2) by (auto simp: items_def)
  then have "at env ''localEvidence'' \<noteq> JUndef" by (auto simp: at_def)
  ultimately have "is_ok (validateJsonValue (at (at env ''localEvidence'') ''proofs'') (0 + 1 + 1))"
    using validate_at \<open>at (at env ''localEvidence'') ''proofs'' \<noteq> JUndef\<close> by metis
  from validate_at [OF validate_item [OF this assms(2)], of "''eventJson''"] assms(3) validate_text
  show ?thesis by (auto simp: max_string_def)
qed

subsection \<open>Exported envelopes\<close>

lemma json_data_wf: "json_data v \<Longrightarrow> js_wf v"
  by (induction v rule: js_wf.induct) (auto simp: list_all_iff)

lemma data_opt_wf: "data_opt v \<Longrightarrow> js_wf v"
  by (auto simp: data_opt_def json_data_wf)

lemma parsed_event_wf:
  assumes "parseReceiptEvent F row = Inr e"
  shows "data_opt (re_receipt e)" "js_wf (re_digest e)" "\<exists>t. re_proof e = proof_of row t \<and> js_wf t"
  using assms
  by (auto simp: parseReceiptEvent_def rbind_Inr_iff json_parse_or_def parse_schema_def
      dest!: json_parse_data intro!: data_opt_wf split: option.splits if_splits)

lemma proof_wf:
  assumes "conforms F ReceiptEventProofSchema (proof_of row t)" "js_wf t"
  shows "js_wf (proof_of row t)"
  using assms by (auto simp: ReceiptEventProofSchema_def proof_of_def req_def)

lemma envelope_proofs:
  assumes "conforms F PortableReceiptEnvelopeSchema env" "p \<in> set (items (at (at env ''localEvidence'') ''proofs''))"
  shows "conforms F ReceiptEventProofSchema p"
proof -
  from conforms_field [OF assms(1) [unfolded PortableReceiptEnvelopeSchema_def], of "''localEvidence''" False]
  have "conforms F (SArr 0 2 ReceiptEventProofSchema) (at (at env ''localEvidence'') ''proofs'')"
    by (auto simp: req_def opt_def simp del: conforms.simps dest!: conforms_field [where k = "''proofs''" and b = False])
  with assms(2) show ?thesis by (auto simp: list_all_iff)
qed

lemma base_wf: "js_wf m \<Longrightarrow> list_all (\<lambda>(k, v). js_wf v) (baseEnvelope i c m)"
  by (simp add: baseEnvelope_def max_safe_def)

lemma envelope_json_wf:
  assumes "data_opt (re_receipt a)" "js_wf (re_digest a)" "js_wf (re_proof a)"
    "pred_option (\<lambda>x. data_opt (re_receipt x) \<and> js_wf (re_digest x) \<and> js_wf (re_proof x)) out"
  shows "js_wf (envelope_json i a out)"
  using assms data_opt_wf base_wf [of "minor_version (re_receipt a)" i] data_opt_wf [of "minor_version (re_receipt a)"]
  by (cases out) (auto simp: envelope_json_def record_json_def localEvidence_def baseEnvelope_def minor_version_def max_safe_def)

lemma first_of_set: "first_of (filter P xs) = Some x \<Longrightarrow> x \<in> set xs"
  by (cases "filter P xs") (auto simp: first_of_def filter_eq_Cons_iff)

lemma envelope_items:
  "items (at (at (envelope_json i a out) ''localEvidence'') ''proofs'')
     = re_proof a # (case out of None \<Rightarrow> [] | Some x \<Rightarrow> [re_proof x])"
  "at (envelope_json i a out) ''actionId'' = JStr i"
  by (cases out; simp add: envelope_json_def baseEnvelope_def localEvidence_def)+

lemma receiptEnvelope_wf:
  assumes "receiptEnvelope F c a out = Inr env" "parseReceiptEvent F r1 = Inr a"
    "\<And>x. out = Some x \<Longrightarrow> \<exists>r. parseReceiptEvent F r = Inr x"
  shows "js_wf env \<and> at env ''actionId'' = JStr (cr_id c)"
proof -
  have e: "env = envelope_json (cr_id c) a out" "conforms F PortableReceiptEnvelopeSchema env"
    using assms(1) by (auto simp: receiptEnvelope_def rbind_Inr_iff parse_schema_def split: if_splits)
  have pr: "js_wf (re_proof x)" if "parseReceiptEvent F r = Inr x" "re_proof x \<in> set (items (at (at env ''localEvidence'') ''proofs''))" for r x
    using parsed_event_wf(3) [OF that(1)] envelope_proofs [OF e(2) that(2)] proof_wf by metis
  have "js_wf (re_proof a)" by (rule pr [OF assms(2)]) (simp add: e(1) envelope_items)
  moreover have "pred_option (\<lambda>x. data_opt (re_receipt x) \<and> js_wf (re_digest x) \<and> js_wf (re_proof x)) out"
  proof (cases out)
    case (Some x)
    with assms(3) obtain r where r: "parseReceiptEvent F r = Inr x" by blast
    from pr [OF r] parsed_event_wf [OF r] Some show ?thesis by (simp add: e(1) envelope_items)
  qed simp
  ultimately show ?thesis
    using parsed_event_wf [OF assms(2)] e(1) by (simp add: envelope_json_wf envelope_items)
qed

lemma legacy_wf: "legacyEnvelope F c = Inr env \<Longrightarrow> js_wf env \<and> at env ''actionId'' = JStr (cr_id c)"
  by (auto simp: legacyEnvelope_def parse_schema_def baseEnvelope_def localEvidence_def max_safe_def split: if_splits)

lemma exportSnapshot_ok:
  assumes "exportSnapshot F db i = Inr env"
  shows "verifyHashChain db \<and> js_wf env \<and> at env ''actionId'' = JStr i
    \<and> conforms F PortableReceiptEnvelopeSchema env \<and> assertEnvelopeRelationships F env = Inr ()"
proof -
  obtain c where c: "List.find (\<lambda>c. cr_id c = i) (db_calls db) = Some c"
    using assms by (auto simp: exportSnapshot_def split: if_splits option.splits)
  then have i: "cr_id c = i" by (auto simp: find_Some_iff)
  obtain events envelope where ev: "mapM (parseReceiptEvent F)
       (filter (\<lambda>e. er_call e = i \<and> is_receipt_event (er_type e)) (db_events db)) = Inr events"
    and k: "(case first_of (filter (\<lambda>e. receipt_type_of e = JStr ''authorization'') events) of
         None \<Rightarrow> legacyEnvelope F c
       | Some a \<Rightarrow> receiptEnvelope F c a (first_of (filter (\<lambda>e. receipt_type_of e = JStr ''outcome'') events))) = Inr env"
    and r: "conforms F PortableReceiptEnvelopeSchema env" "assertEnvelopeRelationships F env = Inr ()" "verifyHashChain db"
    using assms c
    by (auto simp: exportSnapshot_def rbind_Inr_iff parse_schema_def Let_def simp del: conforms.simps split: if_splits)
  have "js_wf env \<and> at env ''actionId'' = JStr (cr_id c)"
  proof (cases "first_of (filter (\<lambda>e. receipt_type_of e = JStr ''authorization'') events)")
    case None
    with k show ?thesis by (simp add: legacy_wf)
  next
    case (Some a)
    have "\<exists>row. parseReceiptEvent F row = Inr x" if "first_of (filter P events) = Some x" for P x
      using mapM_results [OF ev first_of_set [OF that]] by blast
    note p = this
    obtain row where "parseReceiptEvent F row = Inr a" using p [OF Some] ..
    with k Some p show ?thesis by (intro receiptEnvelope_wf) auto
  qed
  with r i show ?thesis by simp
qed

text \<open>
  C32: what is exported verifies.  An action is exported from a log that verifies as a whole;
  the envelope names the action asked for, and the file written from it is accepted with the
  status of the envelope, as long as it is within the limits of the format.
\<close>

theorem exported_receipt_verifies:
  assumes "exportAction F db i = Inr env" "canonicalReceiptJson env = Inr t"
    "utf8_length (t @ newline) \<le> MAX_RECEIPT_FILE_BYTES"
  shows "verifyHashChain db \<and> serializePortableReceipt F env = Inr (t @ newline)
    \<and> verifyPortableReceipt F (t @ newline) = valid_receipt env \<and> pv_actionId (valid_receipt env) = Some i"
proof -
  from assms(1) have "exportSnapshot F db i = Inr env" by (auto simp: exportAction_def split: if_splits)
  note ok = exportSnapshot_ok [OF this]
  then have "check_receipt_text F (t @ newline) = Inr (sortValue env) \<and> json_data env"
    using canonical_line_verifies [of env F t] assms(2,3) by blast
  with ok assms(2) show ?thesis
    by (simp add: verifyPortableReceipt_def valid_receipt_sort serialise_iff del: conforms.simps)
       (simp add: valid_receipt_def text_of_str_def)
qed

subsection \<open>Concrete receipts\<close>

definition demo_row :: call_row where
  "demo_row = \<lparr>cr_id = demo_uuid, cr_serverId = ''fs'', cr_toolName = ''read_file'', cr_arguments = ''{}'',
     cr_requestHash = [], cr_base = allow, cr_effective = allow, cr_rule = None, cr_reasons = ''[]'', cr_score = 0,
     cr_band = low, cr_signals = ''[]'', cr_status = ''completed'', cr_startedAt = iso_text 0,
     cr_completedAt = None, cr_latency = None, cr_result = None, cr_error = None\<rparr>"

definition demo_legacy :: jsval where
  "demo_legacy = JObj (baseEnvelope demo_uuid ''legacy_incomplete'' (JInt 0)
     @ [(''legacy'', JObj [(''status'', JStr ''completed''), (''startedAt'', JStr (iso_text 0)),
                           (''reason'', JStr ''receipt_evidence_unavailable'')]),
        (''localEvidence'', localEvidence [])])"

lemma demo_status: "is_reason_code ''completed''"
  by code_simp

lemma demo_legacy_ok:
  "conforms demo_formats PortableReceiptEnvelopeSchema demo_legacy"
  "assertEnvelopeRelationships demo_formats demo_legacy = Inr ()"
  "js_wf demo_legacy"
  using demo_status
  by (simp_all add: PortableReceiptEnvelopeSchema_def demo_legacy_def baseEnvelope_def localEvidence_def req_def opt_def
      ReasonCodeSchema_def conforms_enum completeness_values_def demo_formats_def demo_uuid_def is_obj_def is_arr_def keys_of_def
      assertEnvelopeRelationships_def Let_def require_def max_safe_def parse_iso_text)

lemma demo_legacy_text:
  "validateJsonValue demo_legacy 0 = Inr ()"
  "utf8_length (canonicalJson demo_legacy @ newline) \<le> MAX_RECEIPT_FILE_BYTES"
proof -
  have t: "length (iso_text 0) = 24"
    by (simp add: iso_text_def year_text_def year_of.simps month_of.simps month_days_def leap_def year_days_def)
  have "is_ok (validateJsonValue demo_legacy 0)"
    by (simp add: demo_legacy_def baseEnvelope_def localEvidence_def demo_uuid_def validate_ok max_depth_def
        max_collection_def validateJsonValue.simps max_string_def t)
  then show "validateJsonValue demo_legacy 0 = Inr ()" by (auto simp: is_ok_iff)
  have n: "utf8_length (show_int 1) + utf8_length (show_int 0) \<le> 2" by code_simp
  have "json_weight demo_legacy \<le> 10000"
    using n by (simp add: demo_legacy_def baseEnvelope_def localEvidence_def demo_uuid_def t)
  then show "utf8_length (canonicalJson demo_legacy @ newline) \<le> MAX_RECEIPT_FILE_BYTES"
    using canonical_weight [of demo_legacy] by (simp add: MAX_RECEIPT_FILE_BYTES_def newline_def)
qed

lemma demo_legacy_canonical: "canonicalReceiptJson demo_legacy = Inr (canonicalJson demo_legacy)"
  by (simp add: canonicalReceiptJson_def demo_legacy_text)

theorem portable_receipt_roundtrip_witness:
  "\<exists>text. serializePortableReceipt demo_formats demo_legacy = Inr text
     \<and> verifyPortableReceipt demo_formats text = valid_receipt demo_legacy"
proof -
  have s: "serializePortableReceipt demo_formats demo_legacy = Inr (canonicalJson demo_legacy @ newline)"
    using demo_legacy_ok demo_legacy_canonical by (simp add: serialise_iff del: conforms.simps)
  from portable_receipt_roundtrip [OF demo_legacy_ok(3) s demo_legacy_text(2)] s show ?thesis by blast
qed

lemma demo_verifies: "check_receipt_text demo_formats (canonicalJson demo_legacy @ newline) = Inr (sortValue demo_legacy)"
  using canonical_line_verifies [OF demo_legacy_ok(3,1,2) demo_legacy_canonical demo_legacy_text(2)] by blast


theorem serialised_events_bounded_witness:
  "\<exists>env t. canonicalReceiptJson env = Inr t \<and> length ''{}'' \<le> 16384"
proof -
  let ?p = "JObj [(''eventJson'', JStr ''{}'')]"
  let ?e = "JObj [(''localEvidence'', JObj [(''proofs'', JArr [?p])])]"
  have "canonicalReceiptJson ?e = Inr (canonicalJson ?e)"
    by (simp add: canonicalReceiptJson_def validateJsonValue.simps max_depth_def max_collection_def max_string_def)
  from this serialised_events_bounded [OF this, of ?p "''{}''"] show ?thesis by (intro exI conjI) auto
qed

theorem exported_receipt_verifies_witness:
  "\<exists>env t. exportAction demo_formats \<lparr>db_calls = [demo_row], db_approvals = [], db_events = []\<rparr> demo_uuid = Inr env
     \<and> canonicalReceiptJson env = Inr t \<and> pv_valid (verifyPortableReceipt demo_formats (t @ newline))"
proof -
  let ?db = "\<lparr>db_calls = [demo_row], db_approvals = [], db_events = []\<rparr>"
  have l: "legacyEnvelope demo_formats demo_row = Inr demo_legacy"
    using demo_legacy_ok(1) demo_status
    by (simp add: legacyEnvelope_def parse_schema_def demo_legacy_def demo_row_def safeStatus_def del: conforms.simps)
  have "exportAction demo_formats ?db demo_uuid = Inr demo_legacy"
    using l demo_legacy_ok(1,2)
    by (simp add: exportAction_def exportSnapshot_def verifyHashChain_def demo_row_def [of] first_of_def require_def
        parse_schema_def demo_formats_def demo_uuid_def del: conforms.simps)
  from exported_receipt_verifies [OF this demo_legacy_canonical demo_legacy_text(2)] this demo_legacy_canonical
  show ?thesis by (intro exI [of _ demo_legacy] exI [of _ "canonicalJson demo_legacy"]) (simp add: valid_receipt_def)
qed

text \<open>A pair of receipts.\<close>

definition demo_outcome_input :: "jsval \<Rightarrow> string \<Rightarrow> outcome_input" where
  "demo_outcome_input a d = \<lparr>oi_receiptId = demo_uuid, oi_issuedAt = iso_text 0, oi_authorization = a,
     oi_authorizationDigest = d, oi_startedAt = iso_text 0, oi_terminalStatus = ''completed'',
     oi_completedAt = Some (iso_text 0), oi_observedResult = None\<rparr>"

definition outcome_json :: "auth_input \<Rightarrow> string \<Rightarrow> string \<Rightarrow> jsval" where
  "outcome_json i t d = JObj
     [(''schema'', schemaIdentity (ai_context i)), (''receipt'', receipt_identity demo_uuid ''outcome'' (iso_text 0)),
      (''action'', action_json (ai_actionId i) (ai_context i) t), (''coverage'', coverageFor (rc_boundary (ai_context i))),
      (''authorizationReceiptDigest'', JStr d),
      (''execution'', JObj [(''startedAt'', JStr (iso_text 0)), (''terminalStatus'', JStr ''completed''),
                           (''completedAt'', JStr (iso_text 0))]),
      (''recovery'', JObj [(''capability'', JStr ''none'')]), (''issuer'', issuer), (''limitations'', limitations)]"

lemma iso_length: "length (iso_text 0) = 24"
  by (simp add: iso_text_def year_text_def year_of.simps month_of.simps month_days_def leap_def year_days_def)

lemma digest_length: "length (sha256_digest x) = 71"
  using sha256_is_hash [of x] by (simp add: sha256_digest_def is_hash_def)

lemmas demo_unfold = authorization_json_def outcome_json_def demo_auth_def demo_context_def demo_approval_def action_json_def
  schemaIdentity_def receipt_identity_def policy_json_of_def policy_identity_props_def decision_json_def approval_json_def
  issuer_def limitations_def apg_version_def demo_uuid_def

lemma demo_pair_data:
  "is_ok (validateJsonValue (authorization_json demo_auth t) 0)" "js_wf (authorization_json demo_auth t)"
  "is_ok (validateJsonValue (outcome_json demo_auth t (sha256_digest x)) 0)" "js_wf (outcome_json demo_auth t (sha256_digest x))"
  by (simp_all add: demo_unfold validate_ok validateJsonValue.simps max_depth_def max_collection_def max_string_def
      iso_length digest_length max_safe_def)

lemma demo_outcome_conforms: "conforms demo_formats OutcomeReceiptSchema (outcome_json demo_auth t (sha256_digest x))"
proof -
  have e: "rc_evidence demo_context \<noteq> Some JUndef" by (simp add: demo_context_def)
  have a: "action_ok demo_formats demo_uuid demo_context"
    using demo_auth_ok by (simp add: auth_ok_def demo_auth_def)
  have r: "outcome_rules (outcome_json demo_auth t (sha256_digest x))"
    by (simp add: outcome_rules_def identity_version_rules_def genesis_boundary_rule_def outcome_json_def demo_auth_def
        demo_context_def schemaIdentity_def Let_def)
  show ?thesis
    unfolding OutcomeReceiptSchema_def conforms.simps(12)
    using a conforms_action [OF e, of demo_formats demo_uuid t] r
    by (simp add: outcome_json_def demo_auth_def req_def opt_def is_obj_def keys_of_def conforms_enum DigestSchema_def RecoverySchema_def
        terminal_statuses_def ReceiptIdentitySchema_def receipt_identity_def)
       (simp add: demo_formats_def demo_uuid_def parse_iso_text demo_context_def)
qed

definition demo_envelope :: "jsval \<Rightarrow> string \<Rightarrow> jsval \<Rightarrow> string \<Rightarrow> jsval" where
  "demo_envelope a d oc d' = JObj
     [(''actionId'', JStr demo_uuid), (''authorization'', JObj [(''receipt'', a), (''digest'', JStr d)]),
      (''outcome'', JObj [(''receipt'', oc), (''digest'', JStr d')])]"

theorem outcome_digest_binds_record_witness:
  "\<exists>e. at e ''outcome'' \<noteq> JUndef \<and> json_data e \<and> evidence_holds demo_formats e
     \<and> (sortValue (at (at e ''authorization'') ''receipt'') = sortValue (at (at e ''authorization'') ''receipt'')
        \<or> collision (canonicalJson (at (at e ''outcome'') ''receipt'')) (canonicalJson (at (at e ''outcome'') ''receipt''))
        \<or> collision (canonicalJson (at (at e ''authorization'') ''receipt'')) (canonicalJson (at (at e ''authorization'') ''receipt'')))"
proof -
  obtain t where t: "canonicalReceiptJson (intent_material demo_context) = Inr t" using demo_material ..
  let ?a = "authorization_json demo_auth t"
  have digest: "receiptDigest v = Inr (sha256_digest (canonicalJson v))" if "is_ok (validateJsonValue v 0)" for v
    using that by (auto simp: receiptDigest_def canonicalReceiptJson_def split: sum.splits)
  let ?d = "sha256_digest (canonicalJson ?a)"
  let ?o = "outcome_json demo_auth t ?d"
  let ?e = "demo_envelope ?a ?d ?o (sha256_digest (canonicalJson ?o))"
  have c: "conforms demo_formats AuthorizationReceiptSchema ?a"
    using conforms_authorization [of demo_auth demo_formats t] demo_auth_ok by (simp add: demo_auth_def demo_context_def)
  have data: "json_data ?a" "json_data ?o"
    using demo_pair_data validate_json_data by (metis is_ok_iff)+
  have act: "is_ok (validateJsonValue (action_json demo_uuid demo_context t) 0)"
    by (simp add: demo_unfold validate_ok validateJsonValue.simps max_depth_def max_collection_def max_string_def digest_length)
  then have "\<exists>u. canonicalReceiptJson (action_json demo_uuid demo_context t) = Inr u"
    by (auto simp: canonicalReceiptJson_def split: sum.splits)
  then have holds: "evidence_holds demo_formats ?e"
    using c demo_outcome_conforms digest [OF demo_pair_data(1)] digest [OF demo_pair_data(3)]
    unfolding evidence_holds_def Let_def
    by (simp add: demo_envelope_def action_id_of_def auth_status_of_def authorization_json_def outcome_json_def demo_auth_def
        del: conforms.simps)
  have j: "json_data ?e" using data by (simp add: demo_envelope_def)
  have ne: "at ?e ''outcome'' \<noteq> JUndef" by (simp add: demo_envelope_def)
  note outcome_digest_binds_record [OF j j holds holds ne ne refl]
  with j holds ne show ?thesis by blast
qed

end
