(* ===== verification/Install.thy ===== *)
theory Install
  imports Risk Policy
begin

section \<open>Install guard: requests, risk and policy\<close>

text \<open>
  Models src/install/parser.ts, types.ts, risk.ts, policy.ts and metadata.ts, and the pure part
  of service.ts: the parsing of an npm or npx command line, the evidence a registry gives on a
  package, its risk, the built-in policy and the evaluation of an execution.
\<close>

datatype install_runner = Npm | Npx

fun runner_name :: "install_runner \<Rightarrow> string" where
  "runner_name Npm = ''npm''"
| "runner_name Npx = ''npx''"

record install_request =
  iq_runner :: install_runner
  iq_packageName :: string
  iq_specifier :: string
  iq_options :: "string list"
  iq_workingDirectory :: string

subsection \<open>Parsing\<close>

datatype install_parse_error =
  Directory_not_absolute | Unsafe_token | Unsupported_option string | Not_one_target
  | Not_a_registry_name | Unsupported_source | Invalid_package_name string | Invalid_specifier

fun runner_options :: "install_runner \<Rightarrow> string list" where
  "runner_options Npm = [''--save-dev'', ''--save-exact'', ''--ignore-scripts'']"
| "runner_options Npx = [''--yes'']"

definition is_unsafe_char :: "char \<Rightarrow> bool" where
  "is_unsafe_char c \<longleftrightarrow> c \<in> set '';&|`$<>'' \<or> c = CHR 0x0A \<or> c = CHR 0x0D \<or> c = CHR 0x00"

definition is_specifier_char :: "char \<Rightarrow> bool" where
  "is_specifier_char c \<longleftrightarrow> is_alnum c \<or> c \<in> set ''*^~<>=|.+-''"

text \<open>\<open>indexOf\<close> and \<open>lastIndexOf\<close> of one character.\<close>

definition index_of :: "char \<Rightarrow> string \<Rightarrow> int" where
  "index_of c s = (if c \<in> set s then int (length (takeWhile (\<lambda>x. x \<noteq> c) s)) else - 1)"

definition last_index_of :: "char \<Rightarrow> string \<Rightarrow> int" where
  "last_index_of c s =
     (if c \<in> set s then int (length s) - 1 - int (length (takeWhile (\<lambda>x. x \<noteq> c) (List.rev s))) else - 1)"

text \<open>The posix \<open>isAbsolute\<close>.\<close>

definition isAbsolute :: "string \<Rightarrow> bool" where
  "isAbsolute p = starts_with ''/'' p"

fun scan_tokens :: "string list \<Rightarrow> string list \<Rightarrow> string list \<Rightarrow> string list
    \<Rightarrow> install_parse_error + string list \<times> string list" where
  "scan_tokens supported [] options targets = Inr (options, targets)"
| "scan_tokens supported (token # argv) options targets =
     (if token = [] \<or> list_ex is_unsafe_char token then Inl Unsafe_token
      else if token = ''--'' \<or> starts_with ''-'' token then
        (if token \<notin> set supported then Inl (Unsupported_option token)
         else scan_tokens supported argv (if token \<in> set options then options else options @ [token]) targets)
      else scan_tokens supported argv options (targets @ [token]))"

definition names_source :: "string \<Rightarrow> bool" where
  "names_source target \<longleftrightarrow>
     list_ex (\<lambda>p. starts_with p (map lower_c target)) [''file:'', ''git:'', ''http:'', ''https:'', ''github:'']"

definition parseRegistryPackageSpec :: "string \<Rightarrow> install_parse_error + string \<times> string" where
  "parseRegistryPackageSpec target =
     (let scoped = starts_with ''@'' target;
          slash = index_of (CHR ''/'') target;
          separator = (if scoped then last_index_of (CHR ''@'') target else index_of (CHR ''@'') target);
          hasSpecifier = (if scoped then slash < separator else 0 < separator);
          packageName = (if hasSpecifier then take (nat separator) target else target);
          requested = (if hasSpecifier then drop (nat separator + 1) target else ''latest'') in
      if 343 < length target \<or> CHR ''/'' \<in> set target \<and> \<not> scoped then Inl Not_a_registry_name
      else if names_source target \<or> starts_with ''.'' target \<or> starts_with ''/'' target then Inl Unsupported_source
      else if 214 < length packageName \<or> \<not> is_package_name packageName then Inl (Invalid_package_name packageName)
      else if requested = [] \<or> 128 < length requested \<or> \<not> list_all is_specifier_char requested then Inl Invalid_specifier
      else Inr (packageName, requested))"

definition parseInstallRequest :: "install_runner \<Rightarrow> string list \<Rightarrow> string \<Rightarrow> install_parse_error + install_request" where
  "parseInstallRequest runner argv workingDirectory =
     (if \<not> isAbsolute workingDirectory then Inl Directory_not_absolute
      else rbind (scan_tokens (runner_options runner) argv [] []) (\<lambda>(options, targets).
        case targets of
          [target] \<Rightarrow> rbind (parseRegistryPackageSpec target) (\<lambda>(name, specifier).
             Inr \<lparr>iq_runner = runner, iq_packageName = name, iq_specifier = specifier,
                  iq_options = sort_text options, iq_workingDirectory = workingDirectory\<rparr>)
        | _ \<Rightarrow> Inl Not_one_target))"

subsection \<open>Evidence on a package\<close>

datatype advisory_severity = Adv_low | Adv_moderate | Adv_high | Adv_critical

record package_metadata =
  pm_packageName :: string
  pm_version :: string
  pm_registry :: string
  pm_observedAt :: string
  pm_lifecycleScripts :: "string list"
  pm_tarballUrl :: "string option"
  pm_integrity :: "string option"
  pm_executableBins :: "(string, string) omap option"
  pm_advisories :: "(string \<times> advisory_severity) list"
  pm_possibleTyposquat :: bool
  pm_packageIsNew :: bool
  pm_publisherIsNew :: bool
  pm_repositoryMissing :: bool
  pm_provenanceInconsistent :: bool
  pm_mutableSource :: bool
  pm_evidenceComplete :: bool

datatype resolution_failure = Unresolved | Metadata_unavailable | Contradictory

datatype install_resolution = Resolved package_metadata | Not_resolved resolution_failure

text \<open>The provider of offline fixtures: the last entry of a key counts.\<close>

definition requestKey :: "install_runner \<Rightarrow> string \<Rightarrow> string \<Rightarrow> string" where
  "requestKey runner name specifier = runner_name runner @ [CHR 0x00] @ name @ [CHR 0x00] @ specifier"

definition in_memory_resolve :: "((install_runner \<times> string \<times> string) \<times> install_resolution) list
    \<Rightarrow> install_request \<Rightarrow> install_resolution" where
  "in_memory_resolve entries q =
     (case map_of (foldl (\<lambda>m ((r, n, s), x). om_set (requestKey r n s) x m) [] entries)
        (requestKey (iq_runner q) (iq_packageName q) (iq_specifier q)) of
        None \<Rightarrow> Not_resolved Metadata_unavailable
      | Some x \<Rightarrow> x)"

definition validateInstallResolution :: "install_request \<Rightarrow> install_resolution \<Rightarrow> install_resolution" where
  "validateInstallResolution q res =
     (case res of
        Not_resolved why \<Rightarrow>
          if why \<noteq> Unresolved \<and> \<not> is_exact_version (iq_specifier q) then Not_resolved Unresolved else res
      | Resolved m \<Rightarrow>
          if pm_packageName m \<noteq> iq_packageName q \<or> \<not> is_exact_version (pm_version m)
            then Not_resolved Contradictory else Resolved m)"

subsection \<open>Risk\<close>

datatype install_signal =
  exact_version_unresolved | metadata_unavailable | metadata_contradictory | lifecycle_scripts
  | high_advisory | critical_advisory | possible_typosquat | new_package | new_publisher
  | repository_missing | provenance_inconsistent | mutable_source | limited_registry_evidence

fun install_points :: "install_signal \<Rightarrow> nat" where
  "install_points exact_version_unresolved = 100"
| "install_points metadata_unavailable = 50"
| "install_points metadata_contradictory = 50"
| "install_points lifecycle_scripts = 35"
| "install_points high_advisory = 60"
| "install_points critical_advisory = 75"
| "install_points possible_typosquat = 50"
| "install_points new_package = 25"
| "install_points new_publisher = 25"
| "install_points repository_missing = 20"
| "install_points provenance_inconsistent = 20"
| "install_points mutable_source = 45"
| "install_points limited_registry_evidence = 25"

fun install_signal_name :: "install_signal \<Rightarrow> string" where
  "install_signal_name exact_version_unresolved = ''exact_version_unresolved''"
| "install_signal_name metadata_unavailable = ''metadata_unavailable''"
| "install_signal_name metadata_contradictory = ''metadata_contradictory''"
| "install_signal_name lifecycle_scripts = ''lifecycle_scripts''"
| "install_signal_name high_advisory = ''high_advisory''"
| "install_signal_name critical_advisory = ''critical_advisory''"
| "install_signal_name possible_typosquat = ''possible_typosquat''"
| "install_signal_name new_package = ''new_package''"
| "install_signal_name new_publisher = ''new_publisher''"
| "install_signal_name repository_missing = ''repository_missing''"
| "install_signal_name provenance_inconsistent = ''provenance_inconsistent''"
| "install_signal_name mutable_source = ''mutable_source''"
| "install_signal_name limited_registry_evidence = ''limited_registry_evidence''"

datatype install_source = From_resolution | From_metadata | From_advisory | From_heuristic

type_synonym install_signals = "(install_signal, nat \<times> install_source) omap"

definition add_install_signal :: "bool \<Rightarrow> install_signal \<Rightarrow> install_source \<Rightarrow> install_signals \<Rightarrow> install_signals" where
  "add_install_signal present sg source m =
     (if \<not> present \<or> sg \<in> fst ` set m then m else om_set sg (install_points sg, source) m)"

record install_risk =
  ir_score :: nat
  ir_band :: risk_band
  ir_signals :: "(install_signal \<times> nat \<times> install_source) list"

definition installBandForScore :: "nat \<Rightarrow> risk_band" where
  "installBandForScore s = (if 75 \<le> s then critical else if 50 \<le> s then high else if 25 \<le> s then medium else low)"

definition assessmentFor :: "install_signals \<Rightarrow> install_risk" where
  "assessmentFor m =
     (let ordered = isort (\<lambda>a b. locale_lt (install_signal_name (fst a)) (install_signal_name (fst b))) m;
          score = min 100 (sum_list (map (fst \<circ> snd) ordered))
      in \<lparr>ir_score = score, ir_band = installBandForScore score, ir_signals = ordered\<rparr>)"

fun statusCode :: "resolution_failure \<Rightarrow> install_signal" where
  "statusCode Unresolved = exact_version_unresolved"
| "statusCode Contradictory = metadata_contradictory"
| "statusCode Metadata_unavailable = metadata_unavailable"

definition metadata_signals :: "package_metadata \<Rightarrow> install_signals" where
  "metadata_signals m =
     (add_install_signal (\<not> pm_evidenceComplete m) limited_registry_evidence From_metadata \<circ>
      add_install_signal (pm_mutableSource m) mutable_source From_resolution \<circ>
      add_install_signal (pm_provenanceInconsistent m) provenance_inconsistent From_metadata \<circ>
      add_install_signal (pm_repositoryMissing m) repository_missing From_metadata \<circ>
      add_install_signal (pm_publisherIsNew m) new_publisher From_metadata \<circ>
      add_install_signal (pm_packageIsNew m) new_package From_metadata \<circ>
      add_install_signal (pm_possibleTyposquat m) possible_typosquat From_heuristic \<circ>
      add_install_signal (list_ex (\<lambda>a. snd a = Adv_critical) (pm_advisories m)) critical_advisory From_advisory \<circ>
      add_install_signal (list_ex (\<lambda>a. snd a = Adv_high) (pm_advisories m)) high_advisory From_advisory \<circ>
      add_install_signal (pm_lifecycleScripts m \<noteq> []) lifecycle_scripts From_metadata) []"

definition scoreInstallRisk :: "install_resolution \<Rightarrow> install_risk" where
  "scoreInstallRisk res =
     (case res of
        Not_resolved why \<Rightarrow> assessmentFor (add_install_signal True (statusCode why) From_resolution [])
      | Resolved m \<Rightarrow> assessmentFor (metadata_signals m))"

subsection \<open>Policy\<close>

definition denySignals :: "install_signal list" where
  "denySignals = [exact_version_unresolved, critical_advisory]"

definition askSignals :: "install_signal list" where
  "askSignals = [metadata_unavailable, metadata_contradictory, lifecycle_scripts, high_advisory,
     possible_typosquat, mutable_source, limited_registry_evidence]"

definition riskEscalationThreshold :: nat where "riskEscalationThreshold = 50"

definition localExecutionRequiresApproval :: bool where "localExecutionRequiresApproval = True"

record install_evaluation =
  iv_decision :: decision
  iv_reasons :: "string list"
  iv_risk :: install_risk

definition strictestSignalDecision :: "install_signal list \<Rightarrow> decision" where
  "strictestSignalDecision found =
     (if list_ex (\<lambda>c. c \<in> set denySignals) found then deny
      else if list_ex (\<lambda>c. c \<in> set askSignals) found then ask else allow)"

definition evaluateInstallPolicy :: "install_resolution \<Rightarrow> install_evaluation" where
  "evaluateInstallPolicy res =
     (let risk = scoreInstallRisk res;
          found = map fst (ir_signals risk);
          d = strictestSignalDecision found;
          escalate = (d = allow \<and> riskEscalationThreshold \<le> ir_score risk)
      in \<lparr>iv_decision = (if escalate then ask else d),
          iv_reasons = (if found = [] then [''verified_registry_package'']
             else map install_signal_name found @ (if escalate then [''install_risk_escalation''] else [])),
          iv_risk = risk\<rparr>)"

definition executionEvaluation :: "install_evaluation \<Rightarrow> bool \<Rightarrow> install_evaluation" where
  "executionEvaluation ev hasResolved =
     (if iv_decision ev = deny then ev
      else if \<not> hasResolved then
        ev\<lparr>iv_decision := deny, iv_reasons := iv_reasons ev @ [''execution_requires_resolved_metadata'']\<rparr>
      else if \<not> localExecutionRequiresApproval then ev
      else ev\<lparr>iv_decision := ask,
        iv_reasons := (if ''local_install_execution'' \<in> set (iv_reasons ev) then iv_reasons ev
                       else iv_reasons ev @ [''local_install_execution''])\<rparr>)"

subsection \<open>Properties of parsing\<close>

lemma scan_tokens_Inr:
  assumes "scan_tokens supported argv options targets = Inr (options', targets')"
  shows "targets' = targets @ filter (\<lambda>t. \<not> starts_with ''-'' t) argv
    \<and> set options' = set options \<union> set (filter (starts_with ''-'') argv)
    \<and> set (filter (starts_with ''-'') argv) \<subseteq> set supported
    \<and> (distinct options \<longrightarrow> distinct options')
    \<and> (\<forall>t \<in> set argv. t \<noteq> [] \<and> \<not> list_ex is_unsafe_char t)"
  using assms
proof (induction argv arbitrary: options targets)
  case (Cons t argv)
  have t: "t \<noteq> []" "\<not> list_ex is_unsafe_char t" using Cons.prems by (auto split: if_splits)
  have dash: "starts_with ''-'' ''--''" by simp
  show ?case
  proof (cases "starts_with ''-'' t")
    case True
    let ?o = "if t \<in> set options then options else options @ [t]"
    have r: "t \<in> set supported" "scan_tokens supported argv ?o targets = Inr (options', targets')"
      using Cons.prems True t by (auto simp del: starts_with.simps split: if_splits)
    have "set ?o = insert t (set options)" "distinct options \<longrightarrow> distinct ?o" by auto
    with Cons.IH [OF r(2)] r(1) True t show ?thesis by (simp del: starts_with.simps)
  next
    case False
    then have "scan_tokens supported argv options (targets @ [t]) = Inr (options', targets')"
      using Cons.prems t dash by (auto simp del: starts_with.simps split: if_splits)
    from Cons.IH [OF this] False t show ?thesis by (simp del: starts_with.simps)
  qed
qed simp

lemma scan_tokens_accepts:
  assumes "list_all (\<lambda>t. t \<in> set supported \<and> starts_with ''-'' t \<and> \<not> list_ex is_unsafe_char t) opts" "distinct (pre @ opts)"
    and "target \<noteq> []" "\<not> list_ex is_unsafe_char target" "\<not> starts_with ''-'' target"
  shows "scan_tokens supported (opts @ [target]) pre [] = Inr (pre @ opts, [target])"
  using assms(1,2)
proof (induction opts arbitrary: pre)
  case Nil
  have "target \<noteq> ''--''" using assms(5) by auto
  with assms show ?case by (simp del: starts_with.simps)
next
  case (Cons t opts)
  have "t \<noteq> []" using Cons.prems(1) by auto
  with Cons.prems Cons.IH [of "pre @ [t]"] show ?case by (simp del: starts_with.simps)
qed

lemma takeWhile_neq: "c \<notin> set u \<Longrightarrow> takeWhile (\<lambda>x. x \<noteq> c) (u @ c # v) = u"
  by (induction u) auto

lemma index_of_append: "c \<notin> set u \<Longrightarrow> index_of c (u @ c # v) = int (length u)"
  by (simp add: index_of_def takeWhile_neq)

lemma last_index_of_append: "c \<notin> set v \<Longrightarrow> last_index_of c (u @ c # v) = int (length u)"
  by (simp add: last_index_of_def takeWhile_neq)

lemma package_name_chars:
  assumes "is_package_name p"
  shows "list_all (\<lambda>c. slug_char c \<or> c \<in> set ''@/'') p" "p \<noteq> []"
    "starts_with ''@'' p \<longrightarrow> (\<exists>a b. p = CHR ''@'' # a @ CHR ''/'' # b \<and> list_all slug_char a \<and> list_all slug_char b)"
    "\<not> starts_with ''@'' p \<longrightarrow> list_all slug_char p"
proof -
  obtain c cs where p: "p = c # cs" using assms by (cases p) (auto simp: is_package_name_def)
  have main: "c = CHR ''@'' \<and> (\<exists>a b. cs = a @ CHR ''/'' # b \<and> list_all slug_char a \<and> list_all slug_char b)
      \<or> c \<noteq> CHR ''@'' \<and> list_all slug_char p"
  proof (cases "c = CHR ''@''")
    case True
    with assms p obtain a b where ab: "split_on (CHR ''/'') cs = [a, b]" "is_slug a" "is_slug b"
      by (auto simp: is_package_name_def split: list.splits)
    have "cs = a @ CHR ''/'' # b" using join_split [of "CHR ''/''" cs] ab(1) by simp
    with True ab is_slug_chars show ?thesis by blast
  qed (use assms p is_slug_chars [of p] in \<open>simp add: is_package_name_def\<close>)
  with p show "list_all (\<lambda>c. slug_char c \<or> c \<in> set ''@/'') p" "p \<noteq> []"
    "starts_with ''@'' p \<longrightarrow> (\<exists>a b. p = CHR ''@'' # a @ CHR ''/'' # b \<and> list_all slug_char a \<and> list_all slug_char b)"
    "\<not> starts_with ''@'' p \<longrightarrow> list_all slug_char p"
    by (auto simp: list_all_iff)
qed

lemma slug_char_safe:
  "slug_char c \<Longrightarrow> c \<noteq> CHR ''@'' \<and> c \<noteq> CHR ''/'' \<and> c \<noteq> CHR '':'' \<and> \<not> is_unsafe_char c"
  by (auto dest!: slug_char_code simp: is_unsafe_char_def)

lemma starts_with_set: "starts_with p s \<Longrightarrow> set p \<subseteq> set s"
  by (auto simp: starts_with_iff)

lemma names_source_colon: "names_source t \<Longrightarrow> CHR '':'' \<in> set t"
proof -
  assume "names_source t"
  then have "CHR '':'' \<in> set (map lower_c t)"
    by (auto simp: names_source_def simp del: starts_with.simps set_map dest!: starts_with_set)
  then obtain c where c: "c \<in> set t" "lower_c c = CHR '':''" by auto
  then have "c = CHR '':''" by (auto simp: lower_c_def is_upper_def split: if_splits dest: arg_cong [where f = code])
  with c show ?thesis by simp
qed

lemma package_name_head:
  assumes "is_package_name p"
  shows "\<not> starts_with ''.'' p \<and> \<not> starts_with ''/'' p \<and> \<not> starts_with ''-'' p"
  using assms
  by (cases p) (auto simp: is_package_name_def is_slug_def head_class_def is_lower_def is_digit_def split: if_splits)

lemma starts_with_single: "starts_with [c] (p @ q) = (if p = [] then starts_with [c] q else starts_with [c] p)"
  by (cases p) auto

text \<open>A package name with its specifier, as the parser reads it.\<close>

lemma parse_spec_joined:
  assumes "is_package_name p" "length p \<le> 214" "s \<noteq> []" "length s \<le> 128" "list_all is_specifier_char s"
  shows "parseRegistryPackageSpec (p @ CHR ''@'' # s) = Inr (p, s)"
proof -
  let ?t = "p @ CHR ''@'' # s"
  have p: "list_all (\<lambda>c. slug_char c \<or> c \<in> set ''@/'') p" "p \<noteq> []" using package_name_chars [OF assms(1)] by auto
  have s: "CHR ''@'' \<notin> set s" "CHR '':'' \<notin> set s" "CHR ''/'' \<notin> set s"
    using assms(5) by (auto simp: list_all_iff is_specifier_char_def is_alnum_def is_digit_def is_lower_def is_upper_def)
  have colon: "\<not> names_source ?t"
    using names_source_colon [of ?t] s(2) p(1) slug_char_safe by (auto simp: list_all_iff)
  have head: "\<not> starts_with ''.'' ?t" "\<not> starts_with ''/'' ?t"
    using package_name_head [OF assms(1)] p(2) by (auto simp: starts_with_single)
  show ?thesis
  proof (cases "starts_with ''@'' p")
    case True
    then obtain a b where ab: "p = CHR ''@'' # a @ CHR ''/'' # b" "list_all slug_char a" "list_all slug_char b"
      using package_name_chars(3) [OF assms(1)] by blast
    have "index_of (CHR ''/'') ?t = int (length (CHR ''@'' # a))"
      using index_of_append [of "CHR ''/''" "CHR ''@'' # a" "b @ CHR ''@'' # s"] ab slug_char_safe
      by (auto simp: list_all_iff)
    moreover have "last_index_of (CHR ''@'') ?t = int (length p)"
      using last_index_of_append [OF s(1), of p] by simp
    moreover have "int (length (CHR ''@'' # a)) < int (length p)" using ab(1) by simp
    moreover have "starts_with ''@'' ?t" using True p(2) by (simp add: starts_with_single)
    ultimately show ?thesis
      using colon head assms by (simp add: parseRegistryPackageSpec_def Let_def del: starts_with.simps)
  next
    case False
    then have sl: "list_all slug_char p" using package_name_chars(4) [OF assms(1)] by blast
    then have "CHR ''@'' \<notin> set p" "CHR ''/'' \<notin> set ?t" using slug_char_safe s(3) by (auto simp: list_all_iff)
    moreover have "\<not> starts_with ''@'' ?t" using False p(2) by (simp add: starts_with_single)
    moreover have "index_of (CHR ''@'') ?t = int (length p)"
      using index_of_append [of "CHR ''@''" p s] calculation(1) by simp
    ultimately show ?thesis
      using colon head assms p(2) by (simp add: parseRegistryPackageSpec_def Let_def del: starts_with.simps)
  qed
qed

lemma parse_spec_Inr:
  assumes "parseRegistryPackageSpec t = Inr (p, s)"
  shows "is_package_name p \<and> length p \<le> 214 \<and> s \<noteq> [] \<and> length s \<le> 128 \<and> list_all is_specifier_char s"
  using assms by (auto simp: parseRegistryPackageSpec_def Let_def split: if_splits)

lemma parse_spec_chars:
  "parseRegistryPackageSpec t = Inr (p, s) \<Longrightarrow> set s \<subseteq> set t \<union> set ''latest''"
  by (auto simp: parseRegistryPackageSpec_def Let_def split: if_splits dest: in_set_dropD)

lemma parse_request_Inr:
  assumes "parseInstallRequest runner argv wd = Inr q"
  obtains options target where "scan_tokens (runner_options runner) argv [] [] = Inr (options, [target])"
    "parseRegistryPackageSpec target = Inr (iq_packageName q, iq_specifier q)" "isAbsolute wd"
    "iq_runner q = runner" "iq_options q = sort_text options" "iq_workingDirectory q = wd"
proof -
  have wd: "isAbsolute wd" using assms by (auto simp: parseInstallRequest_def split: if_splits)
  with assms obtain options targets where s: "scan_tokens (runner_options runner) argv [] [] = Inr (options, targets)"
    by (auto simp: parseInstallRequest_def rbind_Inr_iff)
  show ?thesis
  proof (cases targets)
    case (Cons target ts)
    then show ?thesis using assms s wd by (cases ts) (auto simp: parseInstallRequest_def intro!: that)
  qed (use assms s wd in \<open>simp add: parseInstallRequest_def\<close>)
qed

text \<open>
  An install request that is parsed names one package of the registry: a package name and
  a version or tag in their alphabets and lengths, none of whose characters means anything to a
  shell; only options on the list for the runner, each once and in order; and every word of
  the command line is one of these options or the one target.
\<close>

theorem parse_install_sound:
  assumes "parseInstallRequest runner argv wd = Inr q"
  shows "is_package_name (iq_packageName q) \<and> length (iq_packageName q) \<le> 214
    \<and> iq_specifier q \<noteq> [] \<and> length (iq_specifier q) \<le> 128 \<and> list_all is_specifier_char (iq_specifier q)
    \<and> \<not> list_ex is_unsafe_char (iq_packageName q) \<and> distinct (iq_options q)
    \<and> set (iq_options q) = set (filter (starts_with ''-'') argv) \<and> set (iq_options q) \<subseteq> set (runner_options runner)
    \<and> length (filter (\<lambda>t. \<not> starts_with ''-'' t) argv) = 1"
  using assms
proof (rule parse_request_Inr)
  fix options target
  assume r: "scan_tokens (runner_options runner) argv [] [] = Inr (options, [target])"
    "parseRegistryPackageSpec target = Inr (iq_packageName q, iq_specifier q)" "iq_options q = sort_text options"
  have "list_all (\<lambda>c. slug_char c \<or> c \<in> set ''@/'') (iq_packageName q)"
    using package_name_chars(1) parse_spec_Inr [OF r(2)] by blast
  moreover have "\<not> is_unsafe_char (CHR ''@'')" "\<not> is_unsafe_char (CHR ''/'')" by (simp_all add: is_unsafe_char_def)
  ultimately have "\<not> list_ex is_unsafe_char (iq_packageName q)"
    using slug_char_safe by (auto simp: list_all_iff list_ex_iff)
  moreover have f: "filter (\<lambda>t. \<not> starts_with ''-'' t) argv = [target]" using scan_tokens_Inr [OF r(1)] by simp
  ultimately show ?thesis using parse_spec_Inr [OF r(2)] scan_tokens_Inr [OF r(1)] r(3) unfolding f by auto
qed

text \<open>
  An accepted request survives being written as a command line and parsed again: its
  options followed by name and specifier give back the same request.
\<close>

theorem parse_install_roundtrip:
  assumes "parseInstallRequest runner argv wd = Inr q"
  shows "parseInstallRequest runner (iq_options q @ [iq_packageName q @ CHR ''@'' # iq_specifier q]) wd = Inr q"
  using assms
proof (rule parse_request_Inr)
  fix options target
  assume r: "scan_tokens (runner_options runner) argv [] [] = Inr (options, [target])"
    "parseRegistryPackageSpec target = Inr (iq_packageName q, iq_specifier q)" "isAbsolute wd"
    "iq_runner q = runner" "iq_options q = sort_text options" "iq_workingDirectory q = wd"
  let ?t = "iq_packageName q @ CHR ''@'' # iq_specifier q"
  have "target \<in> set argv" using scan_tokens_Inr [OF r(1)] by (metis Cons_eq_filterD append_Nil in_set_conv_decomp)
  moreover have "\<not> list_ex is_unsafe_char ''latest''" by (simp add: is_unsafe_char_def)
  ultimately have spec: "\<not> list_ex is_unsafe_char (iq_specifier q)"
    using parse_spec_chars [OF r(2)] scan_tokens_Inr [OF r(1)] by (fastforce simp: list_ex_iff)
  note sp = parse_spec_Inr [OF r(2)]
  have chars: "list_all (\<lambda>c. slug_char c \<or> c \<in> set ''@/'') (iq_packageName q)" "iq_packageName q \<noteq> []"
    using package_name_chars(1,2) sp by blast+
  have un: "\<not> is_unsafe_char (CHR ''@'')" "\<not> is_unsafe_char (CHR ''/'')" by (simp_all add: is_unsafe_char_def)
  have t: "\<not> list_ex is_unsafe_char ?t" "\<not> starts_with ''-'' ?t" "?t \<noteq> []"
  proof -
    have "\<not> list_ex is_unsafe_char (iq_packageName q)" using chars(1) slug_char_safe un by (auto simp: list_all_iff list_ex_iff)
    then show "\<not> list_ex is_unsafe_char ?t" using spec un by simp
    show "\<not> starts_with ''-'' ?t" "?t \<noteq> []"
      using package_name_head [of "iq_packageName q"] sp chars(2) by (simp_all add: starts_with_single)
  qed
  have o: "list_all (\<lambda>t. t \<in> set (runner_options runner) \<and> starts_with ''-'' t \<and> \<not> list_ex is_unsafe_char t) (iq_options q)"
    using scan_tokens_Inr [OF r(1)] r(5) by (auto simp: list_all_iff)
  have d: "distinct ([] @ iq_options q)" using scan_tokens_Inr [OF r(1)] r(5) by simp
  have j: "parseRegistryPackageSpec ?t = Inr (iq_packageName q, iq_specifier q)" using parse_spec_joined sp by blast
  show ?thesis
    using scan_tokens_accepts [OF o d t(3,1,2)] j r(3-6) by (simp add: parseInstallRequest_def)
qed

subsection \<open>Properties of the policy\<close>

lemma add_install_signal_keys:
  "x \<in> fst ` set (add_install_signal present sg source m) \<longleftrightarrow> present \<and> x = sg \<or> x \<in> fst ` set m"
  by (auto simp: add_install_signal_def om_set_keys)

lemma metadata_signals_keys:
  "sg \<in> fst ` set (metadata_signals m) \<longleftrightarrow>
     \<not> pm_evidenceComplete m \<and> sg = limited_registry_evidence
     \<or> pm_mutableSource m \<and> sg = mutable_source
     \<or> pm_provenanceInconsistent m \<and> sg = provenance_inconsistent
     \<or> pm_repositoryMissing m \<and> sg = repository_missing
     \<or> pm_publisherIsNew m \<and> sg = new_publisher
     \<or> pm_packageIsNew m \<and> sg = new_package
     \<or> pm_possibleTyposquat m \<and> sg = possible_typosquat
     \<or> (\<exists>a \<in> set (pm_advisories m). snd a = Adv_critical) \<and> sg = critical_advisory
     \<or> (\<exists>a \<in> set (pm_advisories m). snd a = Adv_high) \<and> sg = high_advisory
     \<or> pm_lifecycleScripts m \<noteq> [] \<and> sg = lifecycle_scripts"
  by (simp only: metadata_signals_def comp_apply add_install_signal_keys list_ex_iff list.set image_empty empty_iff HOL.simp_thms)

lemma assessment_signals: "set (map fst (ir_signals (assessmentFor m))) = fst ` set m"
  by (simp add: assessmentFor_def Let_def)

lemma score_signals:
  "set (map fst (ir_signals (scoreInstallRisk res))) =
     (case res of Not_resolved why \<Rightarrow> {statusCode why} | Resolved m \<Rightarrow> fst ` set (metadata_signals m))"
  unfolding scoreInstallRisk_def
  by (cases res) (simp_all only: install_resolution.case assessment_signals, simp add: add_install_signal_def)

lemma evaluate_deny:
  "iv_decision (evaluateInstallPolicy res) = deny \<longleftrightarrow>
     (case res of Not_resolved why \<Rightarrow> why = Unresolved
      | Resolved m \<Rightarrow> \<exists>a \<in> set (pm_advisories m). snd a = Adv_critical)"
proof -
  have st: "strictestSignalDecision xs = deny \<longleftrightarrow> exact_version_unresolved \<in> set xs \<or> critical_advisory \<in> set xs" for xs
    by (auto simp: strictestSignalDecision_def denySignals_def list_ex_iff)
  have d: "iv_decision (evaluateInstallPolicy res) = deny \<longleftrightarrow>
      exact_version_unresolved \<in> set (map fst (ir_signals (scoreInstallRisk res)))
      \<or> critical_advisory \<in> set (map fst (ir_signals (scoreInstallRisk res)))"
    using st [of "map fst (ir_signals (scoreInstallRisk res))"]
    by (auto simp: evaluateInstallPolicy_def Let_def simp del: set_map)
  show ?thesis
  proof (cases res)
    case (Resolved m)
    show ?thesis unfolding d score_signals by (simp add: Resolved metadata_signals_keys)
  next
    case (Not_resolved why)
    show ?thesis unfolding d score_signals by (cases why) (simp_all add: Not_resolved)
  qed
qed

text \<open>
  No package is installed without a person.  The evaluation of an execution is never an
  allow: it is a denial when the package did not resolve to an exact version of the requested
  name or an advisory is critical, and a question in every other case.
\<close>

theorem install_never_allowed:
  "iv_decision (executionEvaluation (evaluateInstallPolicy (validateInstallResolution q res))
      (case validateInstallResolution q res of Resolved _ \<Rightarrow> True | _ \<Rightarrow> False)) =
   (case res of
      Not_resolved _ \<Rightarrow> deny
    | Resolved m \<Rightarrow>
        if pm_packageName m = iq_packageName q \<and> is_exact_version (pm_version m)
           \<and> \<not> (\<exists>a \<in> set (pm_advisories m). snd a = Adv_critical) then ask else deny)"
proof (cases "validateInstallResolution q res")
  case (Resolved m)
  then have "res = Resolved m" "pm_packageName m = iq_packageName q" "is_exact_version (pm_version m)"
    by (auto simp: validateInstallResolution_def split: install_resolution.splits if_splits)
  with Resolved evaluate_deny [of "Resolved m"] show ?thesis
    by (auto simp: executionEvaluation_def localExecutionRequiresApproval_def)
next
  case (Not_resolved why)
  then have "case res of Not_resolved _ \<Rightarrow> True
      | Resolved m \<Rightarrow> \<not> (pm_packageName m = iq_packageName q \<and> is_exact_version (pm_version m))"
    by (auto simp: validateInstallResolution_def split: install_resolution.splits if_splits)
  with Not_resolved show ?thesis by (auto simp: executionEvaluation_def split: install_resolution.splits)
qed

subsection \<open>Concrete runs\<close>

definition demo_install :: install_request where
  "demo_install = \<lparr>iq_runner = Npm, iq_packageName = ''left-pad'', iq_specifier = ''1.3.0'',
     iq_options = [''--save-dev''], iq_workingDirectory = ''/w''\<rparr>"

lemma demo_install_parse:
  "parseInstallRequest Npm [''left-pad@1.3.0'', ''--save-dev''] ''/w'' = Inr demo_install"
  by code_simp

theorem parse_install_sound_witness: "\<not> list_ex is_unsafe_char (iq_packageName demo_install) \<and> distinct (iq_options demo_install)"
  using parse_install_sound [OF demo_install_parse] by blast

theorem parse_install_roundtrip_witness:
  "parseInstallRequest Npm [''--save-dev'', ''left-pad@1.3.0''] ''/w'' = Inr demo_install"
  using parse_install_roundtrip [OF demo_install_parse] by (simp add: demo_install_def)

end
