(* ===== verification/Base64.thy ===== *)
theory Base64
  imports JsText Sha256
begin

section \<open>Base64 and SHA-512 integrity values\<close>

text \<open>
  Models the use of Buffer's base64 in src/install/execution-plan.ts and src/stage/profile.ts:
  an integrity value is \<open>sha512-\<close> and the canonical base64 text of 64 bytes.  Decoding a text
  without its padding ignores left-over bits, so canonical texts are told by encoding again.
\<close>

definition b64_char :: "nat \<Rightarrow> char" where
  "b64_char n = (if n < 26 then char_of (65 + n) else if n < 52 then char_of (71 + n)
                 else if n < 62 then char_of (n - 4) else if n = 62 then CHR ''+'' else CHR ''/'')"

definition is_b64_char :: "char \<Rightarrow> bool" where
  "is_b64_char c \<longleftrightarrow> is_alnum c \<or> c = CHR ''+'' \<or> c = CHR ''/''"

definition b64_val :: "char \<Rightarrow> nat" where
  "b64_val c = (if is_upper c then code c - 65 else if is_lower c then code c - 71
                else if is_digit c then code c + 4 else if c = CHR ''+'' then 62 else 63)"

fun b64_encode :: "nat list \<Rightarrow> string" where
  "b64_encode [] = []"
| "b64_encode [a] = [b64_char (a div 4), b64_char (a mod 4 * 16), CHR ''='', CHR ''='']"
| "b64_encode [a, b] =
     [b64_char (a div 4), b64_char (a mod 4 * 16 + b div 16), b64_char (b mod 16 * 4), CHR ''='']"
| "b64_encode (a # b # c # bs) =
     b64_char (a div 4) # b64_char (a mod 4 * 16 + b div 16) # b64_char (b mod 16 * 4 + c div 64)
       # b64_char (c mod 64) # b64_encode bs"

fun b64_groups :: "nat list \<Rightarrow> nat list" where
  "b64_groups (w # x # y # z # vs) =
     (w * 4 + x div 16) # (x mod 16 * 16 + y div 4) # (y mod 4 * 64 + z) # b64_groups vs"
| "b64_groups [w, x, y] = [w * 4 + x div 16, x mod 16 * 16 + y div 4]"
| "b64_groups [w, x] = [w * 4 + x div 16]"
| "b64_groups _ = []"

definition b64_decode :: "string \<Rightarrow> nat list" where
  "b64_decode s = b64_groups (map b64_val (takeWhile (\<lambda>c. c \<noteq> CHR ''='') s))"

text \<open>\<open>/^[A-Za-z0-9+/]+={0,2}$/\<close>.\<close>

definition is_b64_text :: "string \<Rightarrow> bool" where
  "is_b64_text s \<longleftrightarrow> takeWhile is_b64_char s \<noteq> [] \<and> dropWhile is_b64_char s \<in> {[], ''='', ''==''}"

definition parseSha512Integrity :: "string \<Rightarrow> nat list option" where
  "parseSha512Integrity s =
     (if \<not> starts_with ''sha512-'' s then None
      else let encoded = drop 7 s; decoded = b64_decode encoded in
        if \<not> is_b64_text encoded then None
        else if length decoded \<noteq> 64 \<or> b64_encode decoded \<noteq> encoded then None
        else Some decoded)"

subsection \<open>Decoding is the inverse of encoding\<close>

lemma b64_val_char: "n < 64 \<Longrightarrow> b64_val (b64_char n) = n"
  by (auto simp: b64_val_def b64_char_def is_upper_def is_lower_def is_digit_def)

lemma b64_char_ok: "n < 64 \<Longrightarrow> is_b64_char (b64_char n)"
  by (auto simp: is_b64_char_def b64_char_def is_alnum_def is_upper_def is_lower_def is_digit_def)

lemma pad_not_b64 [simp]: "\<not> is_b64_char CHR ''=''"
  by (simp add: is_b64_char_def is_alnum_def is_upper_def is_lower_def is_digit_def)

lemma b64_char_not_pad: "is_b64_char c \<Longrightarrow> c \<noteq> CHR ''=''"
  by auto

text \<open>The shape of an encoding: alphabet characters, then at most two signs of padding.\<close>

lemma b64_encode_shape:
  assumes "list_all (\<lambda>b. b < 256) bs"
  shows "\<exists>vs p. b64_encode bs = map b64_char vs @ p \<and> list_all (\<lambda>v. v < 64) vs \<and> p \<in> {[], ''='', ''==''}
    \<and> b64_groups vs = bs \<and> (bs \<noteq> [] \<longrightarrow> vs \<noteq> [])"
  using assms
proof (induction bs rule: b64_encode.induct)
  case 1
  show ?case by (intro exI [of _ "[]"]) simp
next
  case (2 a)
  then show ?case by (intro exI [of _ "[a div 4, a mod 4 * 16]"] exI [of _ "''==''"]) auto
next
  case (3 a b)
  then show ?case
    by (intro exI [of _ "[a div 4, a mod 4 * 16 + b div 16, b mod 16 * 4]"] exI [of _ "''=''"]) auto
next
  case (4 a b c bs)
  then obtain vs p where v: "b64_encode bs = map b64_char vs @ p" "list_all (\<lambda>v. v < 64) vs" "p \<in> {[], ''='', ''==''}"
    "b64_groups vs = bs" by auto
  have b: "a < 256" "b < 256" "c < 256" using 4(2) by simp_all
  have "b64_groups ((a div 4) # (a mod 4 * 16 + b div 16) # (b mod 16 * 4 + c div 64) # (c mod 64) # vs) = a # b # c # bs"
    using v(4) b by auto
  moreover have "b64_encode (a # b # c # bs) = map b64_char
      ((a div 4) # (a mod 4 * 16 + b div 16) # (b mod 16 * 4 + c div 64) # (c mod 64) # vs) @ p"
    using v(1) by simp
  ultimately show ?case using v(2,3) b by (intro exI conjI) (assumption | auto)+
qed

lemma takeWhile_pad:
  assumes "list_all is_b64_char u" "p \<in> {[], ''='', ''==''}"
  shows "takeWhile (\<lambda>c. c \<noteq> CHR ''='') (u @ p) = u" "takeWhile is_b64_char (u @ p) = u" "dropWhile is_b64_char (u @ p) = p"
  using assms by (induction u) auto

lemma b64_roundtrip:
  assumes "list_all (\<lambda>b. b < 256) bs"
  shows "b64_decode (b64_encode bs) = bs" "bs \<noteq> [] \<Longrightarrow> is_b64_text (b64_encode bs)"
proof -
  obtain vs p where v: "b64_encode bs = map b64_char vs @ p" "list_all (\<lambda>v. v < 64) vs" "p \<in> {[], ''='', ''==''}"
    "b64_groups vs = bs" "bs \<noteq> [] \<longrightarrow> vs \<noteq> []" using b64_encode_shape [OF assms] by blast
  have u: "list_all is_b64_char (map b64_char vs)" using v(2) b64_char_ok by (auto simp: list_all_iff)
  have "map b64_val (map b64_char vs) = vs" using v(2) b64_val_char by (auto simp: list_all_iff intro: map_idI)
  then show "b64_decode (b64_encode bs) = bs"
    using takeWhile_pad(1) [OF u v(3)] v(1,4) by (simp add: b64_decode_def)
  show "is_b64_text (b64_encode bs)" if "bs \<noteq> []"
    using takeWhile_pad(2,3) [OF u v(3)] v(1,3,5) that by (simp add: is_b64_text_def)
qed

lemma b64_val_lt: "is_b64_char c \<Longrightarrow> b64_val c < 64"
  by (auto simp: is_b64_char_def b64_val_def is_alnum_def is_upper_def is_lower_def is_digit_def)

lemma b64_groups_lt: "list_all (\<lambda>v. v < 64) vs \<Longrightarrow> list_all (\<lambda>b. b < 256) (b64_groups vs)"
  by (induction vs rule: b64_groups.induct) auto

text \<open>An integrity value is accepted exactly when it is the text of 64 bytes, and these are the result.\<close>

lemma parseSha512Integrity_iff:
  "parseSha512Integrity s = Some bs \<longleftrightarrow>
     length bs = 64 \<and> list_all (\<lambda>b. b < 256) bs \<and> s = ''sha512-'' @ b64_encode bs"
proof
  assume p: "parseSha512Integrity s = Some bs"
  then have d: "starts_with ''sha512-'' s" "is_b64_text (drop 7 s)" "length bs = 64" "b64_encode bs = drop 7 s"
    "bs = b64_decode (drop 7 s)"
    by (auto simp: parseSha512Integrity_def Let_def simp del: starts_with.simps split: if_splits)
  define u p where "u = takeWhile is_b64_char (drop 7 s)" and "p = dropWhile is_b64_char (drop 7 s)"
  have up: "drop 7 s = u @ p" "list_all is_b64_char u" "p \<in> {[], ''='', ''==''}"
    using d(2) by (auto simp: u_def p_def is_b64_text_def list_all_iff dest: set_takeWhileD)
  have "takeWhile (\<lambda>c. c \<noteq> CHR ''='') (drop 7 s) = u" using takeWhile_pad(1) [OF up(2,3)] up(1) by simp
  then have "list_all (\<lambda>v. v < 64) (map b64_val (takeWhile (\<lambda>c. c \<noteq> CHR ''='') (drop 7 s)))"
    using up(2) by (auto simp: list_all_iff intro: b64_val_lt)
  then have "list_all (\<lambda>b. b < 256) bs" using d(5) b64_groups_lt by (simp add: b64_decode_def)
  moreover have "s = ''sha512-'' @ b64_encode bs" using d(1,4) by (auto simp: starts_with_iff simp del: starts_with.simps)
  ultimately show "length bs = 64 \<and> list_all (\<lambda>b. b < 256) bs \<and> s = ''sha512-'' @ b64_encode bs" using d(3) by blast
next
  assume a: "length bs = 64 \<and> list_all (\<lambda>b. b < 256) bs \<and> s = ''sha512-'' @ b64_encode bs"
  then have "bs \<noteq> []" by auto
  with a b64_roundtrip [of bs] show "parseSha512Integrity s = Some bs"
    by (simp add: parseSha512Integrity_def Let_def starts_with_iff del: starts_with.simps)
qed

end
