(* ===== verification/Url.thy ===== *)
theory Url
  imports JsText
begin

section \<open>URLs\<close>

text \<open>
  What the code reads of a parsed URL.  The parser itself, \<open>new URL\<close> of the runtime, is a
  parameter of the definitions that use one: \<open>None\<close> when it throws.
\<close>

record url =
  ur_protocol :: string
  ur_username :: string
  ur_password :: string
  ur_origin :: string
  ur_host :: string
  ur_pathname :: string
  ur_search :: string
  ur_hash :: string

type_synonym url_parser = "string \<Rightarrow> url option"

text \<open>The text of a URL without credentials, query and fragment.\<close>

definition plain_url_text :: "url \<Rightarrow> string" where
  "plain_url_text u = ur_origin u @ ur_pathname u"

definition is_plain_https :: "url \<Rightarrow> bool" where
  "is_plain_https u \<longleftrightarrow> ur_protocol u = ''https:'' \<and> ur_username u = [] \<and> ur_password u = []
     \<and> ur_search u = [] \<and> ur_hash u = []"

end
