(* ===== verification/InstallPlan.thy ===== *)
theory InstallPlan
  imports Install Base64 Clock JsonParse Url
begin

section \<open>Install guard: registry evidence and execution plans\<close>

text \<open>
  Models src/install/npm-registry.ts (the provider and what it concludes from a response),
  execution-plan.ts and verifier.ts.

  Outside are: the URL parser of the runtime (a parameter), the HTTP transport (its answer is
  an argument), the file system (a \<open>host\<close> record of what the calls return) and the clock.
  Paths are posix paths; \<open>join_path\<close> does not normalise, the paths joined here are canonical.
\<close>

subsection \<open>Registry responses\<close>

record registry_response =
  rr_status :: int
  rr_contentType :: string
  rr_body :: jsval

definition strip_slashes :: "string \<Rightarrow> string" where
  "strip_slashes p = List.rev (dropWhile (\<lambda>c. c = CHR ''/'') (List.rev p))"

definition validateRegistryUrl :: "url_parser \<Rightarrow> string \<Rightarrow> url option" where
  "validateRegistryUrl parse input =
     (case parse input of
        None \<Rightarrow> None
      | Some u \<Rightarrow> if is_plain_https u then Some (u\<lparr>ur_pathname := strip_slashes (ur_pathname u) @ ''/''\<rparr>) else None)"

definition trim_text :: "string \<Rightarrow> string" where
  "trim_text s = List.rev (dropWhile is_ws (List.rev (dropWhile is_ws s)))"

definition isJsonContentType :: "string \<Rightarrow> bool" where
  "isJsonContentType v =
     (map lower_c (trim_text (hd (split_on (CHR '';'') v)))
        \<in> {''application/json'', ''application/vnd.npm.install-v1+json''})"

definition asRecord :: "jsval \<Rightarrow> (string \<times> jsval) list option" where
  "asRecord v = (case v of JObj kvs \<Rightarrow> Some kvs | _ \<Rightarrow> None)"

definition is_dist_tag :: "string \<Rightarrow> bool" where
  "is_dist_tag s = head_class (\<lambda>c. is_lower c \<or> is_upper c) (\<lambda>c. is_alnum c \<or> c \<in> set ''._-'') s"

definition resolveVersion :: "string \<Rightarrow> (string \<times> jsval) list \<Rightarrow> (string \<times> jsval) list \<Rightarrow> string option" where
  "resolveVersion requested versions distTags =
     (if is_exact_version requested then (if own_prop versions requested = JUndef then None else Some requested)
      else if \<not> is_dist_tag requested then None
      else case own_prop distTags requested of
        JStr tagged \<Rightarrow> if is_exact_version tagged \<and> own_prop versions tagged \<noteq> JUndef then Some tagged else None
      | _ \<Rightarrow> None)"

definition base_name :: "string \<Rightarrow> string" where
  "base_name name = (if CHR ''/'' \<in> set name then drop (nat (last_index_of (CHR ''/'') name + 1)) name else name)"

definition is_bin_char :: "char \<Rightarrow> bool" where
  "is_bin_char c \<longleftrightarrow> is_alnum c \<or> c \<in> set ''._-''"

definition bin_entry :: "string \<times> jsval \<Rightarrow> (string \<times> string) option" where
  "bin_entry kv = (case snd kv of
     JStr s \<Rightarrow> if fst kv \<noteq> [] \<and> list_all is_bin_char (fst kv) \<and> s \<noteq> [] then Some (fst kv, s) else None
   | _ \<Rightarrow> None)"

definition normalizeExecutableBins :: "string \<Rightarrow> jsval \<Rightarrow> (string, string) omap option" where
  "normalizeExecutableBins name input =
     (let of_record = (case asRecord input of
            None \<Rightarrow> None
          | Some kvs \<Rightarrow> (let bins = List.map_filter bin_entry kvs in if bins = [] then None else Some bins)) in
      case input of
        JStr s \<Rightarrow> if s \<noteq> [] \<and> base_name name \<noteq> [] then Some [(base_name name, s)] else None
      | _ \<Rightarrow> of_record)"

definition str_opt :: "jsval \<Rightarrow> string option" where
  "str_opt v = (case v of JStr s \<Rightarrow> Some s | _ \<Rightarrow> None)"

definition registry_metadata :: "install_request \<Rightarrow> string \<Rightarrow> (string \<times> jsval) list \<Rightarrow> (string \<times> jsval) list
    \<Rightarrow> string \<Rightarrow> string \<Rightarrow> package_metadata" where
  "registry_metadata q version doc dist registry observedAt =
     \<lparr>pm_packageName = iq_packageName q, pm_version = version, pm_registry = registry, pm_observedAt = observedAt,
      pm_lifecycleScripts = (if own_prop doc ''hasInstallScript'' = JBool True then [''install''] else []),
      pm_tarballUrl = str_opt (own_prop dist ''tarball''), pm_integrity = str_opt (own_prop dist ''integrity''),
      pm_executableBins = normalizeExecutableBins (iq_packageName q) (own_prop doc ''bin''),
      pm_advisories = [], pm_possibleTyposquat = False, pm_packageIsNew = False, pm_publisherIsNew = False,
      pm_repositoryMissing = False, pm_provenanceInconsistent = False, pm_mutableSource = False,
      pm_evidenceComplete = False\<rparr>"

definition resolveResponse :: "install_request \<Rightarrow> registry_response \<Rightarrow> string \<Rightarrow> string \<Rightarrow> install_resolution" where
  "resolveResponse q r registry observedAt =
     (if rr_status r = 404 then Not_resolved Unresolved
      else if rr_status r \<noteq> 200 then Not_resolved Metadata_unavailable
      else if \<not> isJsonContentType (rr_contentType r) then Not_resolved Contradictory
      else case asRecord (rr_body r) of
        None \<Rightarrow> Not_resolved Contradictory
      | Some packument \<Rightarrow>
          if own_prop packument ''name'' \<noteq> JStr (iq_packageName q) then Not_resolved Contradictory
          else case (asRecord (own_prop packument ''versions''), asRecord (own_prop packument ''dist-tags'')) of
            (Some versions, Some distTags) \<Rightarrow>
              (case resolveVersion (iq_specifier q) versions distTags of
                 None \<Rightarrow> Not_resolved Unresolved
               | Some version \<Rightarrow>
                   (case asRecord (own_prop versions version) of
                      None \<Rightarrow> Not_resolved Contradictory
                    | Some doc \<Rightarrow>
                        (case asRecord (own_prop doc ''dist'') of
                           None \<Rightarrow> Not_resolved Contradictory
                         | Some dist \<Rightarrow>
                             if own_prop doc ''name'' \<noteq> JStr (iq_packageName q)
                                \<or> own_prop doc ''version'' \<noteq> JStr version \<or> str_opt (own_prop dist ''tarball'') = None
                               then Not_resolved Contradictory
                             else Resolved (registry_metadata q version doc dist registry observedAt))))
          | _ \<Rightarrow> Not_resolved Contradictory)"

subsection \<open>The provider and its cache\<close>

record registry_provider =
  rp_registry :: url
  rp_cacheTtlMs :: nat
  rp_maximumEntries :: nat
  rp_cache :: "(string, nat \<times> install_resolution) omap"

definition new_provider :: "url_parser \<Rightarrow> string \<Rightarrow> int \<Rightarrow> int \<Rightarrow> registry_provider option" where
  "new_provider parse registry cacheTtlMs maximum =
     (case validateRegistryUrl parse registry of
        None \<Rightarrow> None
      | Some u \<Rightarrow>
          if cacheTtlMs < 0 \<or> 3600000 < cacheTtlMs \<or> maximum < 1 \<or> 1000 < maximum then None
          else Some \<lparr>rp_registry = u, rp_cacheTtlMs = nat cacheTtlMs, rp_maximumEntries = nat maximum, rp_cache = []\<rparr>)"

definition store_resolution :: "string \<Rightarrow> install_resolution \<Rightarrow> nat \<Rightarrow> registry_provider \<Rightarrow> registry_provider" where
  "store_resolution key res now P =
     (let c = rp_cache P;
          c1 = (if key \<notin> fst ` set c \<and> rp_maximumEntries P \<le> length c then tl c else c)
      in P\<lparr>rp_cache := om_set key (now + rp_cacheTtlMs P, res) (om_del key c1)\<rparr>)"

text \<open>A percent-encoded path segment; bytes of UTF-8 as in \<open>encodeURIComponent\<close>.\<close>

definition upper_hex :: "nat \<Rightarrow> char" where
  "upper_hex n = (if n < 10 then char_of (48 + n) else char_of (55 + n))"

definition is_uri_char :: "char \<Rightarrow> bool" where
  "is_uri_char c \<longleftrightarrow> is_alnum c \<or> c \<in> set ''-_.!~*()'' \<or> c = CHR 0x27"

definition encodeURIComponent :: "string \<Rightarrow> string" where
  "encodeURIComponent s = concat (map (\<lambda>c. if is_uri_char c then [c]
     else concat (map (\<lambda>b. [CHR ''%'', upper_hex (unat b div 16), upper_hex (unat b mod 16)]) (utf8_char c))) s)"

text \<open>A package that is not in the cache: \<open>transport\<close> gives \<open>None\<close> when the request fails.\<close>

definition fetch_package :: "(string \<Rightarrow> registry_response option) \<Rightarrow> nat \<Rightarrow> string \<Rightarrow> install_request \<Rightarrow> registry_provider
    \<Rightarrow> install_resolution \<times> registry_provider" where
  "fetch_package transport now key q P =
     (case transport (plain_url_text (rp_registry P) @ encodeURIComponent (iq_packageName q)) of
        None \<Rightarrow> (Not_resolved Metadata_unavailable, P)
      | Some r \<Rightarrow>
          (let res = resolveResponse q r (plain_url_text (rp_registry P)) (iso_text now) in
           if (case res of Resolved _ \<Rightarrow> True | Not_resolved why \<Rightarrow> why = Unresolved)
             then (res, store_resolution key res now P) else (res, P)))"

text \<open>\<open>resolve\<close>: the clock is \<open>None\<close> when it is invalid.\<close>

definition resolve_package :: "(string \<Rightarrow> registry_response option) \<Rightarrow> nat option \<Rightarrow> install_request \<Rightarrow> registry_provider
    \<Rightarrow> install_resolution \<times> registry_provider" where
  "resolve_package transport clock q P =
     (case clock of
        None \<Rightarrow> (Not_resolved Metadata_unavailable, P)
      | Some now \<Rightarrow>
          (let key = iq_packageName q @ [CHR 0x00] @ iq_specifier q in
           case map_of (rp_cache P) key of
             Some (expiresAt, res) \<Rightarrow> if now < expiresAt then (res, P) else fetch_package transport now key q P
           | None \<Rightarrow> fetch_package transport now key q P))"

subsection \<open>The host\<close>

record file_stat =
  st_isFile :: bool
  st_isDirectory :: bool
  st_size :: nat
  st_dev :: nat
  st_ino :: nat

text \<open>
  What the file system and the environment answer at the time of a call: \<open>None\<close> where the call
  fails.  \<open>ho_text\<close> is a file read as UTF-8 text.
\<close>

record host =
  ho_realpath :: "string \<Rightarrow> string option"
  ho_stat :: "string \<Rightarrow> file_stat option"
  ho_executable :: "string \<Rightarrow> bool"
  ho_read :: "string \<Rightarrow> byte list option"
  ho_text :: "string \<Rightarrow> string option"
  ho_path :: "string option"
  ho_now :: "nat option"

definition join_path :: "string \<Rightarrow> string \<Rightarrow> string" where
  "join_path d n = (if ends_with ''/'' d then d @ n else d @ ''/'' @ n)"

datatype plan_error = Plan_error string

subsection \<open>Snapshots of the project files\<close>

definition knownInstallFiles :: "string list" where
  "knownInstallFiles = [''package.json'', ''package-lock.json'', ''npm-shrinkwrap.json'']"

record file_snapshot =
  sn_path :: string
  sn_hash :: "string option"

definition snapshot_file :: "host \<Rightarrow> string \<Rightarrow> string \<Rightarrow> plan_error + file_snapshot" where
  "snapshot_file h dir name =
     (case ho_stat h (join_path dir name) of
        None \<Rightarrow> Inr \<lparr>sn_path = name, sn_hash = None\<rparr>
      | Some st \<Rightarrow>
          if \<not> st_isFile st \<or> 5000000 < st_size st then Inl (Plan_error ''unsafe snapshot'')
          else case ho_read h (join_path dir name) of
            None \<Rightarrow> Inl (Plan_error ''unreadable'')
          | Some bytes \<Rightarrow> Inr \<lparr>sn_path = name, sn_hash = Some (sha256_hex bytes)\<rparr>)"

definition snapshotKnownInstallFiles :: "host \<Rightarrow> string \<Rightarrow> plan_error + file_snapshot list" where
  "snapshotKnownInstallFiles h dir = mapM (snapshot_file h dir) knownInstallFiles"

subsection \<open>The plan\<close>

record executable_identity =
  ex_path :: string
  ex_sha256 :: string

record plan_body =
  pb_runner :: install_runner
  pb_executable :: executable_identity
  pb_runtimeExecutable :: executable_identity
  pb_environmentPath :: string
  pb_arguments :: "string list"
  pb_packageName :: string
  pb_originalSpecifier :: string
  pb_resolvedVersion :: string
  pb_tarballUrl :: string
  pb_integrity :: string
  pb_executableBin :: "string option"
  pb_options :: "string list"
  pb_workingDirectory :: string
  pb_workingDirectoryDevice :: nat
  pb_workingDirectoryInode :: nat
  pb_registry :: string
  pb_metadataObservedAt :: string
  pb_lifecycleScripts :: "string list"
  pb_timeoutMs :: int
  pb_beforeFiles :: "file_snapshot list"

record install_plan =
  pl_hash :: string
  pl_body :: plan_body

definition strs :: "string list \<Rightarrow> jsval" where
  "strs xs = JArr (map JStr xs)"

definition executable_json :: "executable_identity \<Rightarrow> jsval" where
  "executable_json e = JObj [(''path'', JStr (ex_path e)), (''sha256'', JStr (ex_sha256 e))]"

definition snapshot_json :: "file_snapshot \<Rightarrow> jsval" where
  "snapshot_json s = (case sn_hash s of
     None \<Rightarrow> JObj [(''relativePath'', JStr (sn_path s)), (''exists'', JBool False)]
   | Some x \<Rightarrow> JObj [(''relativePath'', JStr (sn_path s)), (''exists'', JBool True), (''sha256'', JStr x)])"

definition plan_json :: "plan_body \<Rightarrow> jsval" where
  "plan_json b = JObj
     ([(''runner'', JStr (runner_name (pb_runner b))), (''executable'', executable_json (pb_executable b)),
       (''runtimeExecutable'', executable_json (pb_runtimeExecutable b)),
       (''environmentPath'', JStr (pb_environmentPath b)), (''arguments'', strs (pb_arguments b)),
       (''packageName'', JStr (pb_packageName b)), (''originalSpecifier'', JStr (pb_originalSpecifier b)),
       (''resolvedVersion'', JStr (pb_resolvedVersion b)), (''tarballUrl'', JStr (pb_tarballUrl b)),
       (''integrity'', JStr (pb_integrity b))]
      @ opt_prop ''executableBin'' (map_option JStr (pb_executableBin b))
      @ [(''options'', strs (pb_options b)), (''workingDirectory'', JStr (pb_workingDirectory b)),
         (''workingDirectoryDevice'', JInt (int (pb_workingDirectoryDevice b))),
         (''workingDirectoryInode'', JInt (int (pb_workingDirectoryInode b))),
         (''registry'', JStr (pb_registry b)), (''metadataObservedAt'', JStr (pb_metadataObservedAt b)),
         (''lifecycleScripts'', strs (pb_lifecycleScripts b)), (''timeoutMs'', JInt (pb_timeoutMs b)),
         (''beforeFiles'', JArr (map snapshot_json (pb_beforeFiles b)))])"

definition plan_hash_of :: "plan_body \<Rightarrow> string" where
  "plan_hash_of b = sha256 (canonicalJson (plan_json b))"

definition MAX_METADATA_AGE_MS :: nat where "MAX_METADATA_AGE_MS = 300000"
definition MAX_EXECUTABLE_BYTES :: nat where "MAX_EXECUTABLE_BYTES = 20000000"

definition require :: "string \<Rightarrow> bool \<Rightarrow> plan_error + unit" where
  "require why ok = (if ok then Inr () else Inl (Plan_error why))"

definition needed :: "string \<Rightarrow> 'a option \<Rightarrow> plan_error + 'a" where
  "needed why x = (case x of None \<Rightarrow> Inl (Plan_error why) | Some a \<Rightarrow> Inr a)"

definition options_ok :: "install_request \<Rightarrow> bool" where
  "options_ok q \<longleftrightarrow> set (iq_options q) \<subseteq> set (runner_options (iq_runner q)) \<and> distinct (iq_options q)
     \<and> iq_options q = sort_text (iq_options q)"

definition validateHttpsUrl :: "url_parser \<Rightarrow> string option \<Rightarrow> plan_error + string" where
  "validateHttpsUrl parse input =
     rbind (needed ''evidence is required'' input) (\<lambda>t.
     rbind (needed ''must be a valid HTTPS URL'' (parse t)) (\<lambda>u.
     rbind (require ''must be an HTTPS URL without credentials'' (is_plain_https u)) (\<lambda>_.
     Inr (plain_url_text u))))"

fun find_executable :: "host \<Rightarrow> string \<Rightarrow> string list \<Rightarrow> plan_error + executable_identity" where
  "find_executable h name [] = Inl (Plan_error ''Could not resolve a trusted executable'')"
| "find_executable h name (dir # dirs) =
     (let candidate = join_path dir name in
      if dir = [] \<or> \<not> ho_executable h candidate then find_executable h name dirs
      else case ho_realpath h candidate of
        None \<Rightarrow> find_executable h name dirs
      | Some path \<Rightarrow>
          (case ho_stat h path of
             None \<Rightarrow> find_executable h name dirs
           | Some st \<Rightarrow>
               if \<not> st_isFile st \<or> MAX_EXECUTABLE_BYTES < st_size st then find_executable h name dirs
               else case ho_read h path of
                 None \<Rightarrow> find_executable h name dirs
               | Some bytes \<Rightarrow> Inr \<lparr>ex_path = path, ex_sha256 = sha256_hex bytes\<rparr>))"

definition resolveExecutableIdentity :: "host \<Rightarrow> string \<Rightarrow> string \<Rightarrow> plan_error + executable_identity" where
  "resolveExecutableIdentity h pathValue name = find_executable h name (split_on (CHR '':'') pathValue)"

definition selectExecutableBin :: "string \<Rightarrow> (string, string) omap option \<Rightarrow> plan_error + string" where
  "selectExecutableBin name bins =
     rbind (needed ''npx package metadata did not declare an executable'' bins) (\<lambda>bs.
       let names = sort_text (om_keys bs) in
       if base_name name \<in> set names then Inr (base_name name)
       else case names of [n] \<Rightarrow> Inr n | _ \<Rightarrow> Inl (Plan_error ''npx package exposes multiple ambiguous executables''))"

definition exact_package :: "install_request \<Rightarrow> package_metadata \<Rightarrow> string" where
  "exact_package q m = iq_packageName q @ ''@'' @ pm_version m"

definition buildArguments :: "install_request \<Rightarrow> package_metadata \<Rightarrow> string \<Rightarrow> string option \<Rightarrow> plan_error + string list" where
  "buildArguments q m registry bin =
     (case iq_runner q of
        Npm \<Rightarrow> Inr ([''install'', ''--no-audit'', ''--no-fund'', ''--registry='' @ registry]
                   @ iq_options q @ [exact_package q m])
      | Npx \<Rightarrow> rbind (needed ''npx requires one exact executable binary'' bin) (\<lambda>b.
          Inr [''--yes'', ''--registry='' @ registry, ''--package='' @ exact_package q m, ''--'', b]))"

definition fresh_metadata :: "host \<Rightarrow> package_metadata \<Rightarrow> bool" where
  "fresh_metadata h m =
     (case (ho_now h, parse_iso (pm_observedAt m)) of
        (Some now, Some seen) \<Rightarrow> seen \<le> now \<and> now - seen \<le> MAX_METADATA_AGE_MS
      | _ \<Rightarrow> False)"

definition npm_project :: "host \<Rightarrow> install_runner \<Rightarrow> string \<Rightarrow> bool" where
  "npm_project h r dir \<longleftrightarrow> r = Npx
     \<or> (case ho_stat h (join_path dir ''package.json'') of None \<Rightarrow> False | Some st \<Rightarrow> st_isFile st)"

definition create_plan :: "url_parser \<Rightarrow> host \<Rightarrow> install_request \<Rightarrow> package_metadata \<Rightarrow> int \<Rightarrow> plan_error + install_plan" where
  "create_plan parse h q m timeoutMs =
     rbind (require ''timeout'' (1000 \<le> timeoutMs \<and> timeoutMs \<le> 900000)) (\<lambda>_.
     rbind (require ''matching exact package metadata'' (is_package_name (iq_packageName q)
        \<and> iq_packageName q = pm_packageName m \<and> is_exact_version (pm_version m))) (\<lambda>_.
     rbind (require ''options'' (options_ok q)) (\<lambda>_.
     rbind (require ''expired'' (fresh_metadata h m)) (\<lambda>_.
     rbind (validateHttpsUrl parse (Some (pm_registry m))) (\<lambda>registry.
     rbind (validateHttpsUrl parse (pm_tarballUrl m)) (\<lambda>tarballUrl.
     rbind (needed ''integrity'' (pm_integrity m)) (\<lambda>integrity.
     rbind (require ''integrity'' (parseSha512Integrity integrity \<noteq> None)) (\<lambda>_.
     rbind (needed ''directory'' (ho_realpath h (iq_workingDirectory q))) (\<lambda>dir.
     rbind (needed ''directory'' (ho_stat h dir)) (\<lambda>st.
     rbind (require ''directory'' (st_isDirectory st)) (\<lambda>_.
     rbind (require ''npmrc'' (ho_stat h (join_path dir ''.npmrc'') = None)) (\<lambda>_.
     rbind (require ''package.json'' (npm_project h (iq_runner q) dir)) (\<lambda>_.
     rbind (needed ''PATH'' (ho_path h)) (\<lambda>path.
     rbind (resolveExecutableIdentity h path (runner_name (iq_runner q))) (\<lambda>exe.
     rbind (resolveExecutableIdentity h path ''node'') (\<lambda>node.
     rbind (if iq_runner q = Npx then rbind (selectExecutableBin (iq_packageName q) (pm_executableBins m)) (\<lambda>b. Inr (Some b))
            else Inr None) (\<lambda>bin.
     rbind (buildArguments q m registry bin) (\<lambda>args.
     rbind (snapshotKnownInstallFiles h dir) (\<lambda>before.
     let body = \<lparr>pb_runner = iq_runner q, pb_executable = exe, pb_runtimeExecutable = node, pb_environmentPath = path,
           pb_arguments = args, pb_packageName = iq_packageName q, pb_originalSpecifier = iq_specifier q,
           pb_resolvedVersion = pm_version m, pb_tarballUrl = tarballUrl, pb_integrity = integrity,
           pb_executableBin = bin, pb_options = iq_options q, pb_workingDirectory = dir,
           pb_workingDirectoryDevice = st_dev st, pb_workingDirectoryInode = st_ino st, pb_registry = registry,
           pb_metadataObservedAt = pm_observedAt m, pb_lifecycleScripts = pm_lifecycleScripts m,
           pb_timeoutMs = timeoutMs, pb_beforeFiles = before\<rparr>
     in Inr \<lparr>pl_hash = plan_hash_of body, pl_body = body\<rparr>)))))))))))))))))))"

subsection \<open>Checks before and after the execution\<close>

definition executable_unchanged :: "host \<Rightarrow> executable_identity \<Rightarrow> bool" where
  "executable_unchanged h e = (case ho_read h (ex_path e) of None \<Rightarrow> False | Some bytes \<Rightarrow> sha256_hex bytes = ex_sha256 e)"

definition validateInstallPlanPreconditions :: "host \<Rightarrow> install_plan \<Rightarrow> plan_error + unit" where
  "validateInstallPlanPreconditions h p =
     (let b = pl_body p in
     rbind (require ''identity is invalid'' (plan_hash_of b = pl_hash p)) (\<lambda>_.
     rbind (needed ''directory'' (ho_realpath h (pb_workingDirectory b))) (\<lambda>dir.
     rbind (needed ''directory'' (ho_stat h dir)) (\<lambda>st.
     rbind (require ''directory identity changed'' (dir = pb_workingDirectory b
        \<and> st_dev st = pb_workingDirectoryDevice b \<and> st_ino st = pb_workingDirectoryInode b)) (\<lambda>_.
     rbind (require ''executable changed'' (executable_unchanged h (pb_executable b))) (\<lambda>_.
     rbind (require ''executable changed'' (executable_unchanged h (pb_runtimeExecutable b))) (\<lambda>_.
     rbind (snapshotKnownInstallFiles h (pb_workingDirectory b)) (\<lambda>now.
     rbind (require ''manifest or lockfile changed'' (now = pb_beforeFiles b)) (\<lambda>_.
     require ''npmrc appeared'' (ho_stat h (join_path (pb_workingDirectory b) ''.npmrc'') = None))))))))))"

datatype verification_status = V_verified | V_failed | V_limited

record install_verification =
  vf_status :: verification_status
  vf_version :: bool
  vf_integrity :: bool
  vf_changed :: "string list"
  vf_reasons :: "string list"

definition entry_of :: "jsval \<Rightarrow> string \<Rightarrow> jsval" where
  "entry_of v k = (case asRecord v of None \<Rightarrow> JUndef | Some kvs \<Rightarrow> own_prop kvs k)"

definition inspect_lockfile :: "plan_body \<Rightarrow> jsval \<Rightarrow> (bool \<times> bool) option" where
  "inspect_lockfile b v =
     (let e = entry_of (entry_of v ''packages'') (''node_modules/'' @ pb_packageName b);
          d = entry_of (entry_of v ''dependencies'') (pb_packageName b) in
      if entry_of e ''version'' = JStr (pb_resolvedVersion b)
        then Some (True, entry_of e ''integrity'' = JStr (pb_integrity b))
      else if entry_of d ''version'' = JStr (pb_resolvedVersion b)
        then Some (True, entry_of d ''integrity'' = JStr (pb_integrity b))
      else None)"

definition read_lockfile :: "host \<Rightarrow> plan_body \<Rightarrow> string \<Rightarrow> (bool \<times> bool) option" where
  "read_lockfile h b name =
     Option.bind (ho_text h (join_path (pb_workingDirectory b) name)) (\<lambda>t.
     Option.bind (json_parse t) (inspect_lockfile b))"

definition inspectLockfileIdentity :: "host \<Rightarrow> plan_body \<Rightarrow> bool \<times> bool" where
  "inspectLockfileIdentity h b =
     (case read_lockfile h b ''npm-shrinkwrap.json'' of
        Some r \<Rightarrow> r
      | None \<Rightarrow> (case read_lockfile h b ''package-lock.json'' of Some r \<Rightarrow> r | None \<Rightarrow> (False, False)))"

definition changed_files :: "file_snapshot list \<Rightarrow> file_snapshot list \<Rightarrow> string list" where
  "changed_files before after = map (sn_path \<circ> fst) (filter (\<lambda>(a, b). a \<noteq> b) (zip after before))"

definition verifyInstallExecution :: "host \<Rightarrow> install_plan \<Rightarrow> bool \<Rightarrow> plan_error + install_verification" where
  "verifyInstallExecution h p processCompleted =
     rbind (snapshotKnownInstallFiles h (pb_workingDirectory (pl_body p))) (\<lambda>after.
       let changed = changed_files (pb_beforeFiles (pl_body p)) after in
       if \<not> processCompleted then
         Inr \<lparr>vf_status = V_limited, vf_version = False, vf_integrity = False, vf_changed = changed,
              vf_reasons = [''process_not_completed'']\<rparr>
       else if pb_runner (pl_body p) = Npx then
         Inr \<lparr>vf_status = V_limited, vf_version = False, vf_integrity = False, vf_changed = changed,
              vf_reasons = [''npx_effects_not_contained'']\<rparr>
       else (case inspectLockfileIdentity h (pl_body p) of (ver, integ) \<Rightarrow>
         Inr \<lparr>vf_status = (if ver \<and> integ then V_verified else V_failed), vf_version = ver, vf_integrity = integ,
              vf_changed = changed,
              vf_reasons = (if ver then [] else [''exact_version_not_observed''])
                @ (if integ then [] else [''approved_integrity_not_observed''])\<rparr>))"

subsection \<open>Properties of the registry provider\<close>

lemma resolveVersion_exact: "resolveVersion requested versions tags = Some v \<Longrightarrow> is_exact_version v"
  by (auto simp: resolveVersion_def split: if_splits jsval.splits)

lemma resolveVersion_same: "resolveVersion requested versions tags = Some v \<Longrightarrow> is_exact_version requested \<Longrightarrow> v = requested"
  by (auto simp: resolveVersion_def split: if_splits)

lemma resolveResponse_Resolved:
  assumes "resolveResponse q r registry t = Resolved m"
  shows "pm_packageName m = iq_packageName q \<and> is_exact_version (pm_version m)
    \<and> (is_exact_version (iq_specifier q) \<longrightarrow> pm_version m = iq_specifier q)
    \<and> pm_registry m = registry \<and> pm_observedAt m = t \<and> \<not> pm_evidenceComplete m"
proof -
  obtain version doc dist versions tags where
    "m = registry_metadata q version doc dist registry t" "resolveVersion (iq_specifier q) versions tags = Some version"
    using assms by (auto simp: resolveResponse_def split: if_splits option.splits)
  then show ?thesis using resolveVersion_exact resolveVersion_same by (auto simp: registry_metadata_def)
qed

text \<open>
  The cache holds at most its maximum of entries, and a resolution is filed under the name it
  resolves.
\<close>

definition filed_right :: "string \<Rightarrow> package_metadata \<Rightarrow> bool" where
  "filed_right k m \<longleftrightarrow> is_exact_version (pm_version m) \<and> CHR 0x00 \<notin> set (pm_packageName m)
     \<and> (\<exists>s. k = pm_packageName m @ CHR 0x00 # s)"

definition provider_ok :: "registry_provider \<Rightarrow> bool" where
  "provider_ok P \<longleftrightarrow> 1 \<le> rp_maximumEntries P \<and> length (rp_cache P) \<le> rp_maximumEntries P
     \<and> (\<forall>(k, t, res) \<in> set (rp_cache P). \<forall>m. res = Resolved m \<longrightarrow>
          filed_right k m)"

lemma new_provider_ok: "new_provider parse registry ttl n = Some P \<Longrightarrow> provider_ok P"
  by (auto simp: new_provider_def provider_ok_def split: option.splits if_splits)

lemma store_ok:
  assumes "provider_ok P" "\<And>m. res = Resolved m \<Longrightarrow> filed_right key m"
  shows "provider_ok (store_resolution key res now P)"
proof -
  let ?c = "rp_cache P"
  let ?c1 = "if key \<notin> fst ` set ?c \<and> rp_maximumEntries P \<le> length ?c then tl ?c else ?c"
  let ?d = "om_del key ?c1"
  have "key \<notin> fst ` set ?d" by simp
  then have l: "length (om_set key (now + rp_cacheTtlMs P, res) ?d) = length ?d + 1" by (simp add: om_set_fresh)
  have "length ?d + 1 \<le> rp_maximumEntries P"
  proof (cases "key \<in> fst ` set ?c")
    case True
    then have "length (om_del key ?c) < length ?c" by (auto simp: om_del_def intro: length_filter_less)
    with True assms(1) show ?thesis by (simp add: provider_ok_def)
  next
    case False
    have "length ?c1 + 1 \<le> rp_maximumEntries P" using False assms(1) by (auto simp: provider_ok_def)
    then show ?thesis using om_del_length [of key ?c1] by linarith
  qed
  moreover have "set (om_set key (now + rp_cacheTtlMs P, res) ?d) \<subseteq> insert (key, now + rp_cacheTtlMs P, res) (set ?c)"
  proof -
    have "set ?d \<subseteq> set ?c" by (auto simp: om_del_def dest: list.set_sel(2) in_set_butlastD split: if_splits)
       (metis list.sel(2) list.set_sel(2))+
    then show ?thesis using set_om_set [of key "(now + rp_cacheTtlMs P, res)" ?d] by blast
  qed
  ultimately show ?thesis
    using assms l unfolding store_resolution_def Let_def provider_ok_def by fastforce
qed

lemma fetch_ok:
  assumes "provider_ok P" "key = iq_packageName q @ CHR 0x00 # s" "CHR 0x00 \<notin> set (iq_packageName q)"
    "fetch_package transport now key q P = (res, P')"
  shows "provider_ok P' \<and> (\<forall>m. res = Resolved m \<longrightarrow> pm_packageName m = iq_packageName q \<and> is_exact_version (pm_version m))"
proof (cases "transport (plain_url_text (rp_registry P) @ encodeURIComponent (iq_packageName q))")
  case (Some r)
  let ?r = "resolveResponse q r (plain_url_text (rp_registry P)) (iso_text now)"
  have m: "filed_right key m" if "?r = Resolved m" for m
    using resolveResponse_Resolved [OF that] assms(2,3) by (auto simp: filed_right_def)
  have "res = ?r" "P' = P \<or> P' = store_resolution key ?r now P"
    using assms(4) Some by (auto simp: fetch_package_def Let_def split: if_splits)
  then show ?thesis
    using store_ok [OF assms(1) m, where now = now] assms(1) resolveResponse_Resolved [of q r] by auto
qed (use assms in \<open>auto simp: fetch_package_def\<close>)

lemma nul_split: "CHR 0x00 \<notin> set a \<Longrightarrow> CHR 0x00 \<notin> set b \<Longrightarrow> a @ CHR 0x00 # s = b @ CHR 0x00 # t \<Longrightarrow> a = b"
proof (induction a arbitrary: b)
  case Nil
  then show ?case by (cases b) auto
next
  case (Cons x a)
  then show ?case by (cases b) auto
qed

text \<open>
  What the provider calls resolved is an exact version of the requested package, whether
  it comes from the registry's answer or from the cache, and the cache never outgrows its
  maximum.
\<close>

theorem resolve_package_sound:
  assumes "provider_ok P" "CHR 0x00 \<notin> set (iq_packageName q)" "resolve_package transport clock q P = (res, P')"
  shows "provider_ok P' \<and> length (rp_cache P') \<le> rp_maximumEntries P'
    \<and> (case res of Resolved m \<Rightarrow> pm_packageName m = iq_packageName q \<and> is_exact_version (pm_version m) | _ \<Rightarrow> True)"
proof -
  let ?key = "iq_packageName q @ CHR 0x00 # iq_specifier q"
  have "provider_ok P' \<and> (\<forall>m. res = Resolved m \<longrightarrow> pm_packageName m = iq_packageName q \<and> is_exact_version (pm_version m))"
  proof (cases "\<exists>now t. clock = Some now \<and> map_of (rp_cache P) ?key = Some (t, res) \<and> P' = P")
    case True
    then obtain t where t: "(?key, t, res) \<in> set (rp_cache P)" "P' = P" by (auto dest: map_of_SomeD)
    have "pm_packageName m = iq_packageName q \<and> is_exact_version (pm_version m)" if "res = Resolved m" for m
    proof -
      have "filed_right ?key m" using assms(1) t(1) that unfolding provider_ok_def by fastforce
      then obtain s where "is_exact_version (pm_version m)" "CHR 0x00 \<notin> set (pm_packageName m)"
        "?key = pm_packageName m @ CHR 0x00 # s" by (auto simp: filed_right_def)
      with nul_split [OF assms(2), of "pm_packageName m"] show ?thesis by metis
    qed
    with assms(1) t(2) show ?thesis by blast
  next
    case False
    show ?thesis
    proof (cases clock)
      case (Some now)
      then have "fetch_package transport now ?key q P = (res, P')"
        using False assms(3) by (auto simp: resolve_package_def Let_def split: option.splits if_splits)
      from fetch_ok [OF assms(1) refl assms(2) this] show ?thesis .
    qed (use assms in \<open>auto simp: resolve_package_def\<close>)
  qed
  then show ?thesis by (auto simp: provider_ok_def split: install_resolution.splits)
qed

subsection \<open>Properties of plans\<close>

lemma plan_require_Inr [simp]: "require why b = Inr u \<longleftrightarrow> b"
  by (simp add: require_def)

lemma needed_Inr [simp]: "needed why x = Inr a \<longleftrightarrow> x = Some a"
  by (auto simp: needed_def split: option.splits)

lemma find_executable_Inr:
  "find_executable h name dirs = Inr e \<Longrightarrow> \<exists>bytes. ho_read h (ex_path e) = Some bytes \<and> ex_sha256 e = sha256_hex bytes"
  by (induction dirs) (auto simp: Let_def split: if_splits option.splits)

lemma validateHttpsUrl_Inr:
  "validateHttpsUrl parse x = Inr t \<longleftrightarrow> (\<exists>s u. x = Some s \<and> parse s = Some u \<and> is_plain_https u \<and> t = plain_url_text u)"
  by (auto simp: validateHttpsUrl_def rbind_Inr_iff)

text \<open>What holds of every plan that is created.\<close>

lemma create_plan_facts:
  assumes "create_plan parse h q m timeoutMs = Inr p"
  shows "pl_hash p = plan_hash_of (pl_body p)"
    "pb_packageName (pl_body p) = iq_packageName q" "pm_packageName m = iq_packageName q"
    "pb_resolvedVersion (pl_body p) = pm_version m" "is_exact_version (pm_version m)"
    "pb_runner (pl_body p) = iq_runner q" "pb_timeoutMs (pl_body p) = timeoutMs" "1000 \<le> timeoutMs" "timeoutMs \<le> 900000"
    "pm_integrity m = Some (pb_integrity (pl_body p))" "parseSha512Integrity (pb_integrity (pl_body p)) \<noteq> None"
    "fresh_metadata h m" "options_ok q"
    "validateHttpsUrl parse (Some (pm_registry m)) = Inr (pb_registry (pl_body p))"
    "validateHttpsUrl parse (pm_tarballUrl m) = Inr (pb_tarballUrl (pl_body p))"
    "buildArguments q m (pb_registry (pl_body p)) (pb_executableBin (pl_body p)) = Inr (pb_arguments (pl_body p))"
    "snapshotKnownInstallFiles h (pb_workingDirectory (pl_body p)) = Inr (pb_beforeFiles (pl_body p))"
    "ho_realpath h (iq_workingDirectory q) = Some (pb_workingDirectory (pl_body p))"
    "\<exists>st. ho_stat h (pb_workingDirectory (pl_body p)) = Some st \<and> st_dev st = pb_workingDirectoryDevice (pl_body p)
       \<and> st_ino st = pb_workingDirectoryInode (pl_body p)"
    "\<exists>dirs. find_executable h (runner_name (iq_runner q)) dirs = Inr (pb_executable (pl_body p))"
    "\<exists>dirs. find_executable h ''node'' dirs = Inr (pb_runtimeExecutable (pl_body p))"
    "ho_stat h (join_path (pb_workingDirectory (pl_body p)) ''.npmrc'') = None"
  using assms unfolding create_plan_def rbind_Inr_iff plan_require_Inr needed_Inr Let_def resolveExecutableIdentity_def
  by (elim exE conjE; force)+

text \<open>The hash of a plan determines it.\<close>

definition plan_numbers_ok :: "plan_body \<Rightarrow> bool" where
  "plan_numbers_ok b \<longleftrightarrow> int (pb_workingDirectoryDevice b) \<le> max_safe \<and> int (pb_workingDirectoryInode b) \<le> max_safe
     \<and> \<bar>pb_timeoutMs b\<bar> \<le> max_safe"

lemma json_data_strs [simp]: "json_data (strs xs)"
  by (simp add: strs_def list_all_iff)

lemma json_data_parts [simp]: "json_data (executable_json e)" "json_data (snapshot_json s)"
  by (simp_all add: executable_json_def snapshot_json_def split: option.splits)

lemma plan_json_data: "plan_numbers_ok b \<Longrightarrow> json_data (plan_json b)"
  by (cases "pb_executableBin b") (simp_all add: plan_json_def plan_numbers_ok_def list_all_iff)

lemma plan_json_at:
  "at (plan_json b) ''runner'' = JStr (runner_name (pb_runner b))"
  "at (plan_json b) ''executable'' = executable_json (pb_executable b)"
  "at (plan_json b) ''runtimeExecutable'' = executable_json (pb_runtimeExecutable b)"
  "at (plan_json b) ''environmentPath'' = JStr (pb_environmentPath b)"
  "at (plan_json b) ''arguments'' = strs (pb_arguments b)"
  "at (plan_json b) ''packageName'' = JStr (pb_packageName b)"
  "at (plan_json b) ''originalSpecifier'' = JStr (pb_originalSpecifier b)"
  "at (plan_json b) ''resolvedVersion'' = JStr (pb_resolvedVersion b)"
  "at (plan_json b) ''tarballUrl'' = JStr (pb_tarballUrl b)"
  "at (plan_json b) ''integrity'' = JStr (pb_integrity b)"
  "at (plan_json b) ''executableBin'' = (case pb_executableBin b of None \<Rightarrow> JUndef | Some x \<Rightarrow> JStr x)"
  "at (plan_json b) ''options'' = strs (pb_options b)"
  "at (plan_json b) ''workingDirectory'' = JStr (pb_workingDirectory b)"
  "at (plan_json b) ''workingDirectoryDevice'' = JInt (int (pb_workingDirectoryDevice b))"
  "at (plan_json b) ''workingDirectoryInode'' = JInt (int (pb_workingDirectoryInode b))"
  "at (plan_json b) ''registry'' = JStr (pb_registry b)"
  "at (plan_json b) ''metadataObservedAt'' = JStr (pb_metadataObservedAt b)"
  "at (plan_json b) ''lifecycleScripts'' = strs (pb_lifecycleScripts b)"
  "at (plan_json b) ''timeoutMs'' = JInt (pb_timeoutMs b)"
  "at (plan_json b) ''beforeFiles'' = JArr (map snapshot_json (pb_beforeFiles b))"
  by (cases "pb_executableBin b"; simp add: plan_json_def)+

lemma strs_inj: "sortValue (strs xs) = sortValue (strs ys) \<Longrightarrow> xs = ys"
  by (auto simp: strs_def comp_def inj_on_def dest!: map_inj_on intro: inj_onI)

lemma sort_at:
  assumes "sortValue v = sortValue w" "json_data v" "json_data w"
  shows "sortValue (at v k) = sortValue (at w k)"
proof -
  have "at (sortValue u) k = sortValue (at u k)" if "json_data u" for u
    by (rule at_sortValue) (use that in auto)
  with assms show ?thesis by metis
qed

lemma part_at:
  "at (executable_json e) ''path'' = JStr (ex_path e)" "at (executable_json e) ''sha256'' = JStr (ex_sha256 e)"
  "at (snapshot_json s) ''relativePath'' = JStr (sn_path s)"
  "at (snapshot_json s) ''sha256'' = (case sn_hash s of None \<Rightarrow> JUndef | Some x \<Rightarrow> JStr x)"
  by (simp_all add: executable_json_def snapshot_json_def split: option.splits)

lemma executable_json_inj:
  assumes "sortValue (executable_json e) = sortValue (executable_json f)"
  shows "e = f"
  using sort_at [OF assms json_data_parts(1) json_data_parts(1), of "''path''"]
    sort_at [OF assms json_data_parts(1) json_data_parts(1), of "''sha256''"]
  by (simp add: part_at)

lemma snapshot_json_inj:
  assumes "sortValue (snapshot_json s) = sortValue (snapshot_json t)"
  shows "s = t"
  using sort_at [OF assms json_data_parts(2) json_data_parts(2), of "''relativePath''"]
    sort_at [OF assms json_data_parts(2) json_data_parts(2), of "''sha256''"]
  by (auto simp: part_at split: option.splits)

lemma runner_name_inj: "runner_name r = runner_name s \<Longrightarrow> r = s"
  by (cases r; cases s) simp_all

lemma plan_json_inj:
  assumes "sortValue (plan_json a) = sortValue (plan_json b)" "plan_numbers_ok a" "plan_numbers_ok b"
  shows "a = b"
proof -
  note e = sort_at [OF assms(1) plan_json_data [OF assms(2)] plan_json_data [OF assms(3)]]
  have snaps: "pb_beforeFiles a = pb_beforeFiles b"
    using e [of "''beforeFiles''"] snapshot_json_inj
    by (auto simp: plan_json_at comp_def intro!: inj_onI dest!: map_inj_on)
  have bin: "pb_executableBin a = pb_executableBin b"
    using e [of "''executableBin''"] by (auto simp: plan_json_at split: option.splits)
  show ?thesis
    by (rule plan_body.equality)
       (use e [of "''runner''"] e [of "''executable''"] e [of "''runtimeExecutable''"] e [of "''environmentPath''"]
          e [of "''arguments''"] e [of "''packageName''"] e [of "''originalSpecifier''"] e [of "''resolvedVersion''"]
          e [of "''tarballUrl''"] e [of "''integrity''"] e [of "''options''"] e [of "''workingDirectory''"]
          e [of "''workingDirectoryDevice''"] e [of "''workingDirectoryInode''"] e [of "''registry''"]
          e [of "''metadataObservedAt''"] e [of "''lifecycleScripts''"] e [of "''timeoutMs''"] snaps bin
        in \<open>simp_all add: plan_json_at runner_name_inj strs_inj executable_json_inj\<close>)
qed

text \<open>
  The hash a person approves determines the whole plan: two plans with the same hash have
  the same runner, executables with their digests, arguments, package, version, integrity,
  directory, registry, timeout and project files, unless two texts collide under SHA-256.
\<close>

theorem plan_hash_binds:
  assumes "create_plan parse h q m t = Inr p" "create_plan parse' h' q' m' t' = Inr p'" "pl_hash p = pl_hash p'"
    and "plan_numbers_ok (pl_body p)" "plan_numbers_ok (pl_body p')"
  shows "pl_body p = pl_body p' \<or> collision (canonicalJson (plan_json (pl_body p))) (canonicalJson (plan_json (pl_body p')))"
proof -
  have "sha256 (canonicalJson (plan_json (pl_body p))) = sha256 (canonicalJson (plan_json (pl_body p')))"
    using assms(3) create_plan_facts(1) [OF assms(1)] create_plan_facts(1) [OF assms(2)] by (simp add: plan_hash_of_def)
  then show ?thesis
    using sha256_eq_cases canonicalJson_inj plan_json_data plan_json_inj assms(4,5) by metis
qed

subsection \<open>What runs is what was approved\<close>

definition byte_collision :: "byte list \<Rightarrow> byte list \<Rightarrow> bool" where
  "byte_collision x y \<longleftrightarrow> x \<noteq> y \<and> sha256_hex x = sha256_hex y"

text \<open>The file has the same bytes on both hosts, up to a collision, or it is missing on both.\<close>

definition same_bytes :: "host \<Rightarrow> host \<Rightarrow> string \<Rightarrow> bool" where
  "same_bytes h h' f \<longleftrightarrow> (\<exists>x y. ho_read h f = Some x \<and> ho_read h' f = Some y \<and> (x = y \<or> byte_collision x y))"

definition same_file :: "host \<Rightarrow> host \<Rightarrow> string \<Rightarrow> bool" where
  "same_file h h' f \<longleftrightarrow> same_bytes h h' f \<or> ho_stat h f = None \<and> ho_stat h' f = None"

lemma snapshot_same:
  assumes "snapshot_file h dir n = Inr s" "snapshot_file h' dir n = Inr s"
  shows "same_file h h' (join_path dir n)"
  using assms
  by (auto simp: snapshot_file_def same_file_def same_bytes_def byte_collision_def split: option.splits if_splits)

lemma snapshots_same:
  assumes "snapshotKnownInstallFiles h dir = Inr ss" "snapshotKnownInstallFiles h' dir = Inr ss"
  shows "list_all (\<lambda>n. same_file h h' (join_path dir n)) knownInstallFiles"
proof -
  have "list_all (\<lambda>n. same_file h h' (join_path dir n)) ns"
    if "list_all2 (\<lambda>n s. snapshot_file h dir n = Inr s) ns ss" "list_all2 (\<lambda>n s. snapshot_file h' dir n = Inr s) ns ss" for ns
    using that by (induction ns ss rule: list_all2_induct) (auto intro: snapshot_same)
  then show ?thesis using assms by (simp add: snapshotKnownInstallFiles_def mapM_Inr_iff)
qed

text \<open>
  C28: nothing the approval covers changes unnoticed before the package runner starts.  When a
  plan passes its checks on the host at the time of the execution, the runner, the Node
  runtime, the manifest and the lockfiles have the bytes they had when the plan was made, up to
  a collision of SHA-256, the directory is the same directory, and no .npmrc has appeared.
\<close>

theorem approved_state_is_run:
  assumes "create_plan parse h q m timeoutMs = Inr p" "validateInstallPlanPreconditions h' p = Inr ()"
  shows "same_bytes h h' (ex_path (pb_executable (pl_body p)))
    \<and> same_bytes h h' (ex_path (pb_runtimeExecutable (pl_body p)))
    \<and> list_all (\<lambda>n. same_file h h' (join_path (pb_workingDirectory (pl_body p)) n))
        [''package.json'', ''package-lock.json'', ''npm-shrinkwrap.json'']
    \<and> ho_realpath h' (pb_workingDirectory (pl_body p)) = Some (pb_workingDirectory (pl_body p))
    \<and> (\<exists>st st'. ho_stat h (pb_workingDirectory (pl_body p)) = Some st \<and> ho_stat h' (pb_workingDirectory (pl_body p)) = Some st'
         \<and> st_dev st = st_dev st' \<and> st_ino st = st_ino st')
    \<and> ho_stat h' (join_path (pb_workingDirectory (pl_body p)) ''.npmrc'') = None"
proof -
  let ?b = "pl_body p"
  have v: "executable_unchanged h' (pb_executable ?b)" "executable_unchanged h' (pb_runtimeExecutable ?b)"
    "snapshotKnownInstallFiles h' (pb_workingDirectory ?b) = Inr (pb_beforeFiles ?b)"
    "ho_realpath h' (pb_workingDirectory ?b) = Some (pb_workingDirectory ?b)"
    "\<exists>st. ho_stat h' (pb_workingDirectory ?b) = Some st \<and> st_dev st = pb_workingDirectoryDevice ?b
       \<and> st_ino st = pb_workingDirectoryInode ?b"
    "ho_stat h' (join_path (pb_workingDirectory ?b) ''.npmrc'') = None"
    using assms(2) by (auto simp: validateInstallPlanPreconditions_def Let_def rbind_Inr_iff)
  have same: "same_bytes h h' (ex_path e)"
    if "find_executable h n ds = Inr e" "executable_unchanged h' e" for n ds e
    using find_executable_Inr [OF that(1)] that(2)
    by (auto simp: same_bytes_def byte_collision_def executable_unchanged_def split: option.splits)
  note f = create_plan_facts [OF assms(1)]
  have "same_bytes h h' (ex_path (pb_executable ?b))" "same_bytes h h' (ex_path (pb_runtimeExecutable ?b))"
    using f(20,21) v(1,2) same by blast+
  moreover have "list_all (\<lambda>n. same_file h h' (join_path (pb_workingDirectory ?b) n))
        [''package.json'', ''package-lock.json'', ''npm-shrinkwrap.json'']"
    using snapshots_same [OF f(17) v(3)] by (simp only: knownInstallFiles_def)
  moreover have "\<exists>st st'. ho_stat h (pb_workingDirectory ?b) = Some st \<and> ho_stat h' (pb_workingDirectory ?b) = Some st'
         \<and> st_dev st = st_dev st' \<and> st_ino st = st_ino st'"
    using f(19) v(5) by metis
  ultimately show ?thesis using v(4,6) by blast
qed

text \<open>
  An execution is called verified only when one of the two lockfiles, parsed as JSON, has
  an entry of the approved package with exactly the approved version and integrity; npx runs
  and runs that did not complete are never called verified.
\<close>

theorem verified_install_observed:
  assumes "verifyInstallExecution h p completed = Inr v" "vf_status v = V_verified"
  shows "completed \<and> pb_runner (pl_body p) = Npm
    \<and> (\<exists>name text j e. name \<in> {''npm-shrinkwrap.json'', ''package-lock.json''}
         \<and> ho_text h (join_path (pb_workingDirectory (pl_body p)) name) = Some text \<and> json_parse text = Some j
         \<and> e \<in> {entry_of (entry_of j ''packages'') (''node_modules/'' @ pb_packageName (pl_body p)),
                entry_of (entry_of j ''dependencies'') (pb_packageName (pl_body p))}
         \<and> entry_of e ''version'' = JStr (pb_resolvedVersion (pl_body p))
         \<and> entry_of e ''integrity'' = JStr (pb_integrity (pl_body p)))"
proof -
  have r: "completed" "pb_runner (pl_body p) \<noteq> Npx" "inspectLockfileIdentity h (pl_body p) = (True, True)"
    using assms by (auto simp: verifyInstallExecution_def Let_def rbind_Inr_iff split: if_splits prod.splits)
  obtain name where n: "name \<in> {''npm-shrinkwrap.json'', ''package-lock.json''}"
    "read_lockfile h (pl_body p) name = Some (True, True)"
    using r(3) by (auto simp: inspectLockfileIdentity_def split: option.splits)
  obtain content j where t: "ho_text h (join_path (pb_workingDirectory (pl_body p)) name) = Some content" "json_parse content = Some j"
    "inspect_lockfile (pl_body p) j = Some (True, True)"
    using n(2) by (auto simp: read_lockfile_def bind_eq_Some_conv)
  from t(3) have "\<exists>e. e \<in> {entry_of (entry_of j ''packages'') (''node_modules/'' @ pb_packageName (pl_body p)),
                entry_of (entry_of j ''dependencies'') (pb_packageName (pl_body p))}
         \<and> entry_of e ''version'' = JStr (pb_resolvedVersion (pl_body p))
         \<and> entry_of e ''integrity'' = JStr (pb_integrity (pl_body p))"
    unfolding inspect_lockfile_def Let_def by (auto split: if_splits)
  moreover have "pb_runner (pl_body p) = Npm" using r(2) by (cases "pb_runner (pl_body p)") auto
  ultimately show ?thesis using r(1) n(1) t(1,2) by blast
qed

subsection \<open>Concrete runs\<close>

definition demo_urls :: url_parser where
  "demo_urls t = Some \<lparr>ur_protocol = ''https:'', ur_username = [], ur_password = [],
     ur_origin = t, ur_host = t, ur_pathname = [], ur_search = [], ur_hash = []\<rparr>"

definition demo_stat :: "bool \<Rightarrow> file_stat" where
  "demo_stat file = \<lparr>st_isFile = file, st_isDirectory = \<not> file, st_size = 0, st_dev = 1, st_ino = 2\<rparr>"

definition demo_host :: host where
  "demo_host = \<lparr>ho_realpath = Some,
     ho_stat = (\<lambda>f. if f = ''/w'' then Some (demo_stat False)
        else if f \<in> {''/w/package.json'', ''/b/npm'', ''/b/node''} then Some (demo_stat True) else None),
     ho_executable = (\<lambda>f. f \<in> {''/b/npm'', ''/b/node''}), ho_read = (\<lambda>_. Some []),
     ho_text = (\<lambda>_. None), ho_path = Some ''/b'', ho_now = Some 0\<rparr>"

definition demo_metadata :: package_metadata where
  "demo_metadata = \<lparr>pm_packageName = ''left-pad'', pm_version = ''1.3.0'', pm_registry = ''https://r/'',
     pm_observedAt = iso_text 0, pm_lifecycleScripts = [], pm_tarballUrl = Some ''https://r/l.tgz'',
     pm_integrity = Some (''sha512-'' @ b64_encode (replicate 64 0)), pm_executableBins = None, pm_advisories = [],
     pm_possibleTyposquat = False, pm_packageIsNew = False, pm_publisherIsNew = False, pm_repositoryMissing = False,
     pm_provenanceInconsistent = False, pm_mutableSource = False, pm_evidenceComplete = False\<rparr>"

lemma demo_plan: "\<exists>p. create_plan demo_urls demo_host demo_install demo_metadata 1000 = Inr p
   \<and> plan_numbers_ok (pl_body p) \<and> validateInstallPlanPreconditions demo_host p = Inr ()"
proof -
  have i: "parseSha512Integrity (''sha512-'' @ b64_encode (replicate 64 0)) = Some (replicate 64 0)"
    by (subst parseSha512Integrity_iff) (simp add: list_all_iff)
  have ok: "options_ok demo_install" "is_package_name (iq_packageName demo_install)" "is_exact_version ''1.3.0''"
    "split_on (CHR '':'') ''/b'' = [''/b'']"
    by code_simp+
  have x: "executable_unchanged demo_host e" if "ex_sha256 e = sha256_hex []" for e
    using that by (simp add: executable_unchanged_def demo_host_def)
  show ?thesis
    using i ok
    by (simp add: create_plan_def require_def needed_def demo_install_def demo_metadata_def validateHttpsUrl_def demo_urls_def
        is_plain_https_def fresh_metadata_def demo_host_def demo_stat_def join_path_def ends_with_def
        npm_project_def resolveExecutableIdentity_def MAX_EXECUTABLE_BYTES_def buildArguments_def
        snapshotKnownInstallFiles_def knownInstallFiles_def snapshot_file_def Let_def parse_iso_text
        plan_numbers_ok_def max_safe_def validateInstallPlanPreconditions_def executable_unchanged_def)
qed

theorem plan_hash_binds_witness:
  "\<exists>p. create_plan demo_urls demo_host demo_install demo_metadata 1000 = Inr p
     \<and> (pl_body p = pl_body p \<or> collision (canonicalJson (plan_json (pl_body p))) (canonicalJson (plan_json (pl_body p))))"
proof -
  obtain p where p: "create_plan demo_urls demo_host demo_install demo_metadata 1000 = Inr p" "plan_numbers_ok (pl_body p)"
    using demo_plan by blast
  from plan_hash_binds [OF p(1) p(1) refl p(2) p(2)] p show ?thesis by blast
qed

theorem approved_state_is_run_witness:
  "\<exists>p. create_plan demo_urls demo_host demo_install demo_metadata 1000 = Inr p
     \<and> same_bytes demo_host demo_host (ex_path (pb_executable (pl_body p)))"
proof -
  obtain p where p: "create_plan demo_urls demo_host demo_install demo_metadata 1000 = Inr p"
    "validateInstallPlanPreconditions demo_host p = Inr ()"
    using demo_plan by blast
  from approved_state_is_run [OF p] p(1) show ?thesis by blast
qed

definition demo_lock :: jsval where
  "demo_lock = JObj [(''dependencies'', JObj [(''left-pad'', JObj [(''integrity'', JStr ''i''), (''version'', JStr ''1.3.0'')])])]"

definition demo_body :: plan_body where
  "demo_body = \<lparr>pb_runner = Npm, pb_executable = \<lparr>ex_path = ''/b/npm'', ex_sha256 = []\<rparr>,
     pb_runtimeExecutable = \<lparr>ex_path = ''/b/node'', ex_sha256 = []\<rparr>, pb_environmentPath = ''/b'', pb_arguments = [],
     pb_packageName = ''left-pad'', pb_originalSpecifier = ''1.3.0'', pb_resolvedVersion = ''1.3.0'', pb_tarballUrl = [],
     pb_integrity = ''i'', pb_executableBin = None, pb_options = [], pb_workingDirectory = ''/w'',
     pb_workingDirectoryDevice = 1, pb_workingDirectoryInode = 2, pb_registry = [], pb_metadataObservedAt = [],
     pb_lifecycleScripts = [], pb_timeoutMs = 1000, pb_beforeFiles = []\<rparr>"

theorem verified_install_observed_witness:
  "\<exists>v. verifyInstallExecution (demo_host\<lparr>ho_text := \<lambda>_. Some (canonicalJson demo_lock)\<rparr>) \<lparr>pl_hash = [], pl_body = demo_body\<rparr> True = Inr v
     \<and> vf_status v = V_verified \<and> (\<exists>content. json_parse content = Some demo_lock)"
proof -
  let ?h = "demo_host\<lparr>ho_text := \<lambda>_. Some (canonicalJson demo_lock)\<rparr>" and ?p = "\<lparr>pl_hash = [], pl_body = demo_body\<rparr>"
  have s: "sortValue demo_lock = demo_lock" by code_simp
  have "json_data demo_lock" by (simp add: demo_lock_def)
  then have j: "json_parse (canonicalJson demo_lock) = Some demo_lock" using json_parse_canonical s by metis
  have "inspect_lockfile demo_body demo_lock = Some (True, True)"
    by (simp add: inspect_lockfile_def Let_def entry_of_def asRecord_def demo_lock_def demo_body_def own_prop_def)
  then have i: "inspectLockfileIdentity ?h demo_body = (True, True)"
    by (simp add: inspectLockfileIdentity_def read_lockfile_def j)
  have "\<exists>v. verifyInstallExecution ?h ?p True = Inr v \<and> vf_status v = V_verified"
    using i by (simp add: verifyInstallExecution_def snapshotKnownInstallFiles_def knownInstallFiles_def snapshot_file_def
        demo_host_def demo_stat_def join_path_def ends_with_def demo_body_def Let_def)
  then obtain v where v: "verifyInstallExecution ?h ?p True = Inr v" "vf_status v = V_verified" by blast
  from verified_install_observed [OF v] v j show ?thesis by blast
qed

theorem resolve_package_sound_witness:
  "\<exists>P. new_provider demo_urls ''https://r'' 1000 1 = Some P
     \<and> length (rp_cache (snd (resolve_package (\<lambda>_. None) (Some 0) demo_install P))) \<le> 1"
proof -
  obtain P where P: "new_provider demo_urls ''https://r'' 1000 1 = Some P"
    by (simp add: new_provider_def validateRegistryUrl_def demo_urls_def is_plain_https_def)
  have n: "CHR 0x00 \<notin> set (iq_packageName demo_install)" by (simp add: demo_install_def)
  obtain res P' where r: "resolve_package (\<lambda>_. None) (Some 0) demo_install P = (res, P')" by (metis surj_pair)
  have "P' = P" using r by (auto simp: resolve_package_def fetch_package_def Let_def split: option.splits if_splits)
  moreover have "rp_maximumEntries P = 1" using P by (auto simp: new_provider_def split: option.splits if_splits)
  ultimately show ?thesis using resolve_package_sound [OF new_provider_ok [OF P] n r] P r by auto
qed

end
