(* ===== verification/InstallGuard.thy ===== *)
theory InstallGuard
  imports InstallPlan GatewayFacts PortableFacts
begin

section \<open>Install guard: the service\<close>

text \<open>
  Models src/install/audit.ts, service.ts and runner.ts: the adapter to the recorder, the
  controlled runner and the run of one install request.

  As in the gateway, the recorder and the approval service are those of their theories; what
  other parties do meanwhile, the metadata provider's answer, the planner and the child process
  are fields of \<open>install_env\<close>.  The preview text of the process output is not modelled.
\<close>

subsection \<open>The audit adapter\<close>

datatype install_subject = On_request install_request | On_plan install_plan

definition INSTALL_POLICY_MODEL :: jsval where
  "INSTALL_POLICY_MODEL = JObj
     [(''id'', JStr ''install_guard_builtin_v0''),
      (''denySignals'', strs (map install_signal_name denySignals)),
      (''askSignals'', strs (map install_signal_name askSignals)),
      (''riskEscalationThreshold'', JInt (int riskEscalationThreshold)),
      (''localExecutionRequiresApproval'', JBool localExecutionRequiresApproval)]"

definition INSTALL_POLICY_IDENTITY :: "audit_error + policy_identity" where
  "INSTALL_POLICY_IDENTITY = staticPolicyIdentity 1 ''install_guard_builtin'' ''1'' INSTALL_POLICY_MODEL"

text \<open>The constant of the module; \<open>install_policy_identity_ok\<close> shows that computing it does not fail.\<close>

definition install_policy_identity :: policy_identity where
  "install_policy_identity = projr INSTALL_POLICY_IDENTITY"

fun subject_runner :: "install_subject \<Rightarrow> install_runner" where
  "subject_runner (On_request q) = iq_runner q"
| "subject_runner (On_plan p) = pb_runner (pl_body p)"

definition install_operation :: "install_subject \<Rightarrow> string" where
  "install_operation s = runner_name (subject_runner s) @ ''_install''"

fun approvalArguments :: "install_subject \<Rightarrow> jsval" where
  "approvalArguments (On_plan p) =
     (let b = pl_body p in JObj
       [(''runner'', JStr (runner_name (pb_runner b))),
        (''package'', JStr (pb_packageName b @ ''@'' @ pb_resolvedVersion b)),
        (''originalSpecifier'', JStr (pb_originalSpecifier b)), (''options'', strs (pb_options b)),
        (''workingDirectory'', JStr (pb_workingDirectory b)), (''executable'', JStr (ex_path (pb_executable b))),
        (''runtimeExecutable'', JStr (ex_path (pb_runtimeExecutable b))), (''arguments'', strs (pb_arguments b)),
        (''planHash'', JStr (pl_hash p)), (''integrity'', JStr (pb_integrity b)), (''registry'', JStr (pb_registry b)),
        (''lifecycleScripts'', strs (pb_lifecycleScripts b)), (''packageDownload'', JBool True),
        (''localProjectMutation'', JBool (pb_runner b = Npm)),
        (''packageCodeExecution'', JBool (pb_runner b = Npx \<or> pb_lifecycleScripts b \<noteq> []))])"
| "approvalArguments (On_request q) = JObj
     [(''runner'', JStr (runner_name (iq_runner q))),
      (''package'', JStr (iq_packageName q @ ''@'' @ iq_specifier q)),
      (''options'', strs (iq_options q)), (''workingDirectory'', JStr (iq_workingDirectory q))]"

fun installReceiptContext :: "policy_identity \<Rightarrow> install_subject \<Rightarrow> receipt_context" where
  "installReceiptContext pid (On_plan p) =
     \<lparr>rc_adapter = ''install_guard'', rc_adapterVersion = ''1'', rc_operation = install_operation (On_plan p),
      rc_boundary = Install_guard_plan, rc_assurance = Execution_plan_exact,
      rc_material = JObj [(''planHash'', JStr (pl_hash p))], rc_evidence = None,
      rc_subject = Some (pb_packageName (pl_body p) @ ''@'' @ pb_resolvedVersion (pl_body p)),
      rc_planHash = Some (pl_hash p), rc_policy = pid\<rparr>"
| "installReceiptContext pid (On_request q) =
     \<lparr>rc_adapter = ''install_guard'', rc_adapterVersion = ''1'', rc_operation = install_operation (On_request q),
      rc_boundary = Install_guard_plan, rc_assurance = Adapter_scoped,
      rc_material = JObj [(''runner'', JStr (runner_name (iq_runner q))), (''packageName'', JStr (iq_packageName q)),
        (''requestedSpecifier'', JStr (iq_specifier q)), (''options'', strs (iq_options q))],
      rc_evidence = None, rc_subject = Some (iq_packageName q @ ''@'' @ iq_specifier q),
      rc_planHash = None, rc_policy = pid\<rparr>"

fun install_source_name :: "install_source \<Rightarrow> string" where
  "install_source_name From_resolution = ''resolution''"
| "install_source_name From_metadata = ''metadata''"
| "install_source_name From_advisory = ''advisory''"
| "install_source_name From_heuristic = ''heuristic''"

definition install_signal_json :: "install_signal \<times> nat \<times> install_source \<Rightarrow> jsval" where
  "install_signal_json s = JObj
     [(''code'', JStr (install_signal_name (fst s))), (''points'', JInt (int (fst (snd s)))),
      (''source'', JStr (install_source_name (snd (snd s))))]"

definition install_context :: "install_subject \<Rightarrow> tool_context" where
  "install_context s =
     \<lparr>tc_serverId = ''install-guard'', tc_toolName = install_operation s, tc_arguments = approvalArguments s,
      tc_annotations = None, tc_identity = None\<rparr>"

definition install_decision :: "policy_identity \<Rightarrow> install_subject \<Rightarrow> install_evaluation \<Rightarrow> audit_decision" where
  "install_decision pid s ev =
     \<lparr>ad_action = decision_action (iv_decision ev), ad_reason = [], ad_receipt = Some (installReceiptContext pid s),
      ad_evaluation = Some \<lparr>ae_base = iv_decision ev, ae_effective = iv_decision ev,
        ae_rule = Some ''install_guard_builtin_v0'', ae_reasons = iv_reasons ev,
        ae_score = int (ir_score (iv_risk ev)), ae_band = ir_band (iv_risk ev),
        ae_signals = map install_signal_json (ir_signals (iv_risk ev))\<rparr>\<rparr>"

subsection \<open>The controlled runner\<close>

datatype run_status = R_completed | R_failed | R_timed_out | R_cancelled

fun run_status_name :: "run_status \<Rightarrow> string" where
  "run_status_name R_completed = ''completed''"
| "run_status_name R_failed = ''failed''"
| "run_status_name R_timed_out = ''timed_out''"
| "run_status_name R_cancelled = ''cancelled''"

text \<open>\<open>BoundedOutput\<close>: the bytes of a stream that are kept, and how many there were.\<close>

record bounded_output =
  bo_total :: nat
  bo_truncated :: bool
  bo_kept :: "byte list"

definition MAX_CAPTURE_BYTES :: nat where "MAX_CAPTURE_BYTES = 65536"

definition empty_output :: bounded_output where
  "empty_output = \<lparr>bo_total = 0, bo_truncated = False, bo_kept = []\<rparr>"

definition add_chunk :: "bounded_output \<Rightarrow> byte list \<Rightarrow> bounded_output" where
  "add_chunk b chunk =
     (let b1 = b\<lparr>bo_total := bo_total b + length chunk\<rparr>; captured = length (bo_kept b) in
      if MAX_CAPTURE_BYTES \<le> captured then b1\<lparr>bo_truncated := True\<rparr>
      else let kept = take (MAX_CAPTURE_BYTES - captured) chunk in
        b1\<lparr>bo_kept := bo_kept b @ kept, bo_truncated := bo_truncated b \<or> length kept \<noteq> length chunk\<rparr>)"

text \<open>
  The events of the child process, in order: a chunk of output, the timeout, an abort, an
  error, its end.  \<open>terminate\<close> notes the first reason; \<open>finish\<close> settles the run once.
\<close>

datatype child_event =
  Out_chunk "byte list" | Err_chunk "byte list" | Timeout_fires | Abort_fires | Child_error
  | Child_close "int option" "string option"

record child_state =
  ch_stdout :: bounded_output
  ch_stderr :: bounded_output
  ch_termination :: "run_status option"
  ch_finished :: "(run_status \<times> int option \<times> string option) option"
  ch_signals :: nat

definition child_start :: child_state where
  "child_start = \<lparr>ch_stdout = empty_output, ch_stderr = empty_output, ch_termination = None, ch_finished = None,
     ch_signals = 0\<rparr>"

definition terminate :: "run_status \<Rightarrow> child_state \<Rightarrow> child_state" where
  "terminate why s =
     (if ch_termination s \<noteq> None \<or> ch_finished s \<noteq> None then s
      else s\<lparr>ch_termination := Some why, ch_signals := ch_signals s + 1\<rparr>)"

definition finish_child :: "int option \<Rightarrow> string option \<Rightarrow> run_status option \<Rightarrow> child_state \<Rightarrow> child_state" where
  "finish_child exitCode exitSignal forced s =
     (if ch_finished s \<noteq> None then s
      else s\<lparr>ch_finished := Some (case forced of Some r \<Rightarrow> r | None \<Rightarrow> if exitCode = Some 0 then R_completed else R_failed,
               exitCode, exitSignal)\<rparr>)"

fun child_step :: "child_event \<Rightarrow> child_state \<Rightarrow> child_state" where
  "child_step (Out_chunk c) s = s\<lparr>ch_stdout := add_chunk (ch_stdout s) c\<rparr>"
| "child_step (Err_chunk c) s = s\<lparr>ch_stderr := add_chunk (ch_stderr s) c\<rparr>"
| "child_step Timeout_fires s = terminate R_timed_out s"
| "child_step Abort_fires s = terminate R_cancelled s"
| "child_step Child_error s = finish_child None None (Some R_failed) s"
| "child_step (Child_close exitCode exitSignal) s = finish_child exitCode exitSignal (ch_termination s) s"

record run_result =
  rn_status :: run_status
  rn_exitCode :: "int option"
  rn_signal :: "string option"
  rn_durationMs :: nat
  rn_output :: "(nat \<times> nat \<times> bool) option"
  rn_verification :: "install_verification option"

definition failed_result :: "nat \<Rightarrow> run_result" where
  "failed_result ms = \<lparr>rn_status = R_failed, rn_exitCode = None, rn_signal = None, rn_durationMs = ms,
     rn_output = None, rn_verification = None\<rparr>"

text \<open>The outcome of a child that ran; \<open>after\<close> is the host when it is verified.\<close>

definition child_result :: "host \<Rightarrow> install_plan \<Rightarrow> nat \<Rightarrow> child_state \<Rightarrow> run_result option" where
  "child_result after p ms s =
     (case ch_finished s of
        None \<Rightarrow> None
      | Some (status, exitCode, exitSignal) \<Rightarrow>
          (case verifyInstallExecution after p (status = R_completed) of
             Inl _ \<Rightarrow> Some (failed_result ms)
           | Inr v \<Rightarrow> Some \<lparr>rn_status = status, rn_exitCode = exitCode, rn_signal = exitSignal, rn_durationMs = ms,
               rn_output = Some (bo_total (ch_stdout s), bo_total (ch_stderr s),
                 bo_truncated (ch_stdout s) \<or> bo_truncated (ch_stderr s)),
               rn_verification = Some v\<rparr>))"

text \<open>
  \<open>run\<close>: whether a process is started, and the result; \<open>Inl\<close> when it throws.  A process is
  started with the plan's executable and arguments in the plan's directory.
\<close>

definition controlled_run :: "host \<Rightarrow> host \<Rightarrow> bool \<Rightarrow> bool \<Rightarrow> nat \<Rightarrow> child_event list \<Rightarrow> install_plan
    \<Rightarrow> (string \<times> string list \<times> string) option \<times> (plan_error + run_result)" where
  "controlled_run before after aborted spawns ms events p =
     (case validateInstallPlanPreconditions before p of
        Inl e \<Rightarrow> (None, Inl e)
      | Inr _ \<Rightarrow>
          if aborted then
            (case verifyInstallExecution after p False of
               Inl e \<Rightarrow> (None, Inl e)
             | Inr v \<Rightarrow> (None, Inr \<lparr>rn_status = R_cancelled, rn_exitCode = None, rn_signal = None, rn_durationMs = ms,
                 rn_output = None, rn_verification = Some v\<rparr>))
          else if \<not> spawns then (None, Inr (failed_result ms))
          else (Some (ex_path (pb_executable (pl_body p)), pb_arguments (pl_body p), pb_workingDirectory (pl_body p)),
                case child_result after p ms (fold child_step events child_start) of
                  None \<Rightarrow> Inl (Plan_error ''still running'') | Some r \<Rightarrow> Inr r))"

text \<open>
  \<open>minimalInstallEnvironment\<close>: the whole environment of the process.  \<open>outer\<close> is the
  environment of this program, of which only three variables of Windows are passed on.
\<close>

record private_paths =
  pp_privateDirectory :: string
  pp_userConfig :: string
  pp_globalConfig :: string
  pp_cache :: string

definition inherited :: "(string \<Rightarrow> string option) \<Rightarrow> string \<Rightarrow> (string \<times> string) list" where
  "inherited outer k = (case outer k of None \<Rightarrow> [] | Some v \<Rightarrow> [(k, v)])"

definition minimalInstallEnvironment :: "(string \<Rightarrow> string option) \<Rightarrow> string \<Rightarrow> private_paths \<Rightarrow> (string \<times> string) list" where
  "minimalInstallEnvironment outer environmentPath pp =
     [(''PATH'', environmentPath), (''HOME'', pp_privateDirectory pp), (''TMPDIR'', pp_privateDirectory pp),
      (''TEMP'', pp_privateDirectory pp), (''TMP'', pp_privateDirectory pp),
      (''NPM_CONFIG_USERCONFIG'', pp_userConfig pp), (''NPM_CONFIG_GLOBALCONFIG'', pp_globalConfig pp),
      (''NPM_CONFIG_CACHE'', pp_cache pp), (''NPM_CONFIG_UPDATE_NOTIFIER'', ''false''),
      (''NPM_CONFIG_AUDIT'', ''false''), (''NPM_CONFIG_FUND'', ''false'')]
     @ inherited outer ''SystemRoot'' @ inherited outer ''ComSpec'' @ inherited outer ''PATHEXT''"

text \<open>No other variable of the environment, a token in particular, reaches the process.\<close>

lemma environment_isolated:
  assumes "\<And>k. k \<in> {''SystemRoot'', ''ComSpec'', ''PATHEXT''} \<Longrightarrow> outer k = outer' k"
  shows "minimalInstallEnvironment outer p pp = minimalInstallEnvironment outer' p pp"
  using assms by (simp add: minimalInstallEnvironment_def inherited_def)

subsection \<open>The service\<close>

datatype install_status =
  I_run run_status | I_verification_failed | I_audit_failed | I_denied
  | I_approval_denied | I_approval_expired | I_approval_cancelled

record install_state =
  is_db :: audit_db
  is_approvals :: approval_service
  is_runs :: "install_plan list"

record install_env =
  ie_resolution :: install_resolution
  ie_plan :: "install_request \<Rightarrow> package_metadata \<Rightarrow> plan_error + install_plan"
  ie_audit :: "nat \<Rightarrow> audit_env"
  ie_requestId :: string
  ie_now :: nat
  ie_ttl :: int
  ie_wait :: "approval_service \<Rightarrow> approval_service"
  ie_meanwhile :: "nat \<Rightarrow> audit_db \<Rightarrow> audit_db"
  ie_aborted :: bool
  ie_run :: "install_plan \<Rightarrow> run_result option"

datatype install_result = Install_returned install_status | Install_threw gateway_error | Install_waiting

type_synonym installing = "install_result \<times> call_state option \<times> install_state"

definition verification_json :: "install_verification \<Rightarrow> jsval" where
  "verification_json v = JObj
     [(''status'', JStr (case vf_status v of V_verified \<Rightarrow> ''verified'' | V_failed \<Rightarrow> ''failed'' | V_limited \<Rightarrow> ''limited'')),
      (''exactPackageVersionObserved'', JBool (vf_version v)), (''approvedIntegrityObserved'', JBool (vf_integrity v)),
      (''changedFiles'', strs (vf_changed v)), (''reasonCodes'', strs (vf_reasons v))]"

definition run_summary :: "run_result \<Rightarrow> jsval" where
  "run_summary r = JObj
     [(''status'', JStr (run_status_name (rn_status r))),
      (''exitCode'', (case rn_exitCode r of None \<Rightarrow> JNull | Some i \<Rightarrow> JInt i)),
      (''signal'', js_opt (rn_signal r)), (''durationMs'', JInt (int (rn_durationMs r))),
      (''output'', (case rn_output r of None \<Rightarrow> JUndef | Some (n, m, t) \<Rightarrow>
         JObj [(''stdoutBytes'', JInt (int n)), (''stderrBytes'', JInt (int m)), (''truncated'', JBool t)])),
      (''verification'', (case rn_verification r of None \<Rightarrow> JUndef | Some v \<Rightarrow> verification_json v))]"

definition verification_failed :: "run_result \<Rightarrow> bool" where
  "verification_failed r = (case rn_verification r of None \<Rightarrow> False | Some v \<Rightarrow> vf_status v = V_failed)"

definition run_is_error :: "run_result \<Rightarrow> bool" where
  "run_is_error r \<longleftrightarrow> rn_status r \<noteq> R_completed \<or> verification_failed r"

text \<open>The \<open>k\<close>-th use of the recorder; the rest runs if it does not throw.\<close>

definition ia_audited :: "install_env \<Rightarrow> nat \<Rightarrow> recorder_op \<Rightarrow> call_state \<Rightarrow> install_state
    \<Rightarrow> (call_state \<Rightarrow> install_state \<Rightarrow> installing) \<Rightarrow> installing" where
  "ia_audited E k op s S rest =
     (case apply_op op (ie_audit E k) s (is_db S) of
        (Inl e, s', db') \<Rightarrow> (Install_threw (Audit_failure e), Some s', S\<lparr>is_db := db'\<rparr>)
      | (Inr _, s', db') \<Rightarrow> rest s' (S\<lparr>is_db := db'\<rparr>))"

definition ia_begin :: "install_env \<Rightarrow> install_subject \<Rightarrow> install_evaluation \<Rightarrow> install_state
    \<Rightarrow> (call_state \<Rightarrow> install_state \<Rightarrow> installing) \<Rightarrow> installing" where
  "ia_begin E subj ev S rest =
     (case begin_call (ie_audit E 0) (install_context subj) (install_decision install_policy_identity subj ev) (is_db S) of
        (Inl e, db') \<Rightarrow> (Install_threw (Audit_failure e), None, S\<lparr>is_db := db'\<rparr>)
      | (Inr s, db') \<Rightarrow> rest s (S\<lparr>is_db := db'\<rparr>))"

definition returned :: "install_status \<Rightarrow> call_state \<Rightarrow> install_state \<Rightarrow> installing" where
  "returned st s S = (Install_returned st, Some s, S)"

definition execute_plan :: "install_env \<Rightarrow> install_plan \<Rightarrow> call_state \<Rightarrow> install_state \<Rightarrow> installing" where
  "execute_plan E p s S =
     ia_audited E 3 Op_forwarding s S (\<lambda>s1 S1.
       let S2 = S1\<lparr>is_runs := is_runs S1 @ [p], is_db := ie_meanwhile E 1 (is_db S1)\<rparr> in
       case ie_run E p of
         None \<Rightarrow> ia_audited E 4 (Op_failed ''install_runner_failed'') s1 S2 (returned (I_run R_failed))
       | Some r \<Rightarrow>
           (case apply_op (Op_execution_result (run_summary r) (run_is_error r)) (ie_audit E 5) s1 (is_db S2) of
              (Inl _, s2, db2) \<Rightarrow>
                (case apply_op (Op_failed ''install_audit_completion_failed'') (ie_audit E 6) s2 db2 of
                   (_, s3, db3) \<Rightarrow> returned I_audit_failed s3 (S2\<lparr>is_db := db3\<rparr>))
            | (Inr _, s2, db2) \<Rightarrow>
                returned (if rn_status r = R_completed \<and> verification_failed r then I_verification_failed
                          else I_run (rn_status r)) s2 (S2\<lparr>is_db := db2\<rparr>)))"

fun outcomeStatus :: "approval_outcome \<Rightarrow> install_status" where
  "outcomeStatus O_denied = I_approval_denied"
| "outcomeStatus O_expired = I_approval_expired"
| "outcomeStatus O_cancelled = I_approval_cancelled"
| "outcomeStatus O_approved = I_approval_cancelled"

definition install_approval_input :: "install_plan \<Rightarrow> install_evaluation \<Rightarrow> approval_input" where
  "install_approval_input p ev =
     \<lparr>ain_serverId = ''install-guard'', ain_toolName = runner_name (pb_runner (pl_body p)) @ '' install'',
      ain_arguments = approvalArguments (On_plan p), ain_identity = None,
      ain_risk = JObj [(''score'', JInt (int (ir_score (iv_risk ev)))), (''band'', JStr (band_name (ir_band (iv_risk ev)))),
        (''signals'', JArr (map install_signal_json (ir_signals (iv_risk ev))))],
      ain_reasonCodes = iv_reasons ev\<rparr>"

text \<open>A request that could not be shown or recorded: cancelled if there is one, a failure recorded, the error thrown.\<close>

definition approval_unavailable :: "install_env \<Rightarrow> gateway_error \<Rightarrow> call_state \<Rightarrow> install_state \<Rightarrow> installing" where
  "approval_unavailable E e s S =
     ia_audited E 2 (Op_failed ''install_approval_unavailable'') s S (\<lambda>s' S'. (Install_threw e, Some s', S'))"

definition approve_plan :: "install_env \<Rightarrow> install_plan \<Rightarrow> install_evaluation \<Rightarrow> call_state \<Rightarrow> install_state \<Rightarrow> installing" where
  "approve_plan E p ev s S =
     (case request (ie_requestId E) (ie_now E) (install_approval_input p ev) (ie_ttl E) (is_approvals S) of
        (Inl e, A) \<Rightarrow> approval_unavailable E (Approval_failure e) s (S\<lparr>is_approvals := A\<rparr>)
      | (Inr r, A) \<Rightarrow>
          (case apply_op (Op_approval_requested (ar_id r) (ar_requestedAt r) (ar_expiresAt r)) (ie_audit E 1) s (is_db S) of
             (Inl e, s', db') \<Rightarrow>
               approval_unavailable E (Audit_failure e) s' (S\<lparr>is_db := db', is_approvals := cancel (ar_id r) A\<rparr>)
           | (Inr _, s', db') \<Rightarrow>
               (let A1 = (if ie_aborted E then cancel (ar_id r) A else A);
                    S1 = S\<lparr>is_db := ie_meanwhile E 0 db', is_approvals := ie_wait E A1\<rparr>
                in case map_of (as_outcomes (is_approvals S1)) (ar_id r) of
                     None \<Rightarrow> (Install_waiting, Some s', S1)
                   | Some x \<Rightarrow>
                       ia_audited E 2 (Op_approval_resolved (ar_id r) (outcome_state x)) s' S1 (\<lambda>s2 S2.
                         if x \<noteq> O_approved
                           then ia_audited E 3 (Op_blocked (block_of x)) s2 S2 (returned (outcomeStatus x))
                         else execute_plan E p s2 S2))))"

definition is_resolved :: "install_resolution \<Rightarrow> bool" where
  "is_resolved res = (case res of Resolved _ \<Rightarrow> True | _ \<Rightarrow> False)"

definition run_install :: "install_env \<Rightarrow> install_request \<Rightarrow> install_state \<Rightarrow> installing" where
  "run_install E q S =
     (let res = validateInstallResolution q (ie_resolution E);
          ev = executionEvaluation (evaluateInstallPolicy res) (is_resolved res) in
      if iv_decision ev = deny then
        ia_begin E (On_request q) ev S (\<lambda>s S1. ia_audited E 1 (Op_blocked B_denied) s S1 (returned I_denied))
      else case res of
        Not_resolved _ \<Rightarrow> (Install_threw Upstream_failed, None, S)
      | Resolved m \<Rightarrow>
          (case ie_plan E q m of
             Inl _ \<Rightarrow> ia_begin E (On_request q) ev S (\<lambda>s S1.
               ia_audited E 1 (Op_failed ''install_plan_failed'') s S1 (returned (I_run R_failed)))
           | Inr p \<Rightarrow> ia_begin E (On_plan p) ev S (\<lambda>s S1.
               if iv_decision ev = ask then approve_plan E p ev s S1 else execute_plan E p s S1)))"

subsection \<open>Bounded output\<close>

lemma install_policy_identity_ok: "INSTALL_POLICY_IDENTITY = Inr install_policy_identity"
proof -
  have "is_ok (validateJsonValue (JObj
        [(''format'', JStr ''apg-static-policy-v1''), (''evaluatorName'', JStr ''install_guard_builtin''),
         (''evaluatorVersion'', JStr ''1''), (''model'', INSTALL_POLICY_MODEL)]) 0)"
    by (simp add: INSTALL_POLICY_MODEL_def strs_def denySignals_def askSignals_def riskEscalationThreshold_def
        localExecutionRequiresApproval_def validate_ok validateJsonValue.simps max_depth_def max_collection_def
        max_string_def max_safe_def)
  then have "is_ok INSTALL_POLICY_IDENTITY"
    by (auto simp: INSTALL_POLICY_IDENTITY_def staticPolicyIdentity_def canonicalReceiptJson_def is_ok_iff)
  then obtain i where i: "INSTALL_POLICY_IDENTITY = Inr i" unfolding is_ok_iff by blast
  show ?thesis unfolding install_policy_identity_def i sum.sel ..
qed

lemma add_chunk_spec:
  assumes "bo_kept b = take MAX_CAPTURE_BYTES xs" "bo_total b = length xs" "\<not> bo_truncated b \<longrightarrow> length xs \<le> MAX_CAPTURE_BYTES"
    "bo_truncated b \<longrightarrow> MAX_CAPTURE_BYTES \<le> length xs"
  shows "bo_kept (add_chunk b c) = take MAX_CAPTURE_BYTES (xs @ c) \<and> bo_total (add_chunk b c) = length (xs @ c)
    \<and> (\<not> bo_truncated (add_chunk b c) \<longrightarrow> length (xs @ c) \<le> MAX_CAPTURE_BYTES)
    \<and> (bo_truncated (add_chunk b c) \<longrightarrow> MAX_CAPTURE_BYTES \<le> length (xs @ c))"
proof (cases "MAX_CAPTURE_BYTES \<le> length (bo_kept b)")
  case True
  then have "MAX_CAPTURE_BYTES \<le> length xs" using assms(1) by simp
  with True assms show ?thesis by (simp add: add_chunk_def Let_def)
next
  case False
  then have x: "length xs < MAX_CAPTURE_BYTES" "bo_kept b = xs" using assms(1) by auto
  then have "\<not> bo_truncated b" using assms(4) by auto
  with False x assms(2) show ?thesis by (auto simp: add_chunk_def Let_def)
qed

text \<open>
  C40: of each output stream exactly the first 65,536 bytes are kept, however the stream is cut
  into chunks, every byte is counted, and an output that is not marked as truncated is complete.
\<close>

theorem bounded_output_spec:
  "bo_kept (fold (\<lambda>c b. add_chunk b c) cs empty_output) = take 65536 (concat cs)
   \<and> bo_total (fold (\<lambda>c b. add_chunk b c) cs empty_output) = length (concat cs)
   \<and> (bo_truncated (fold (\<lambda>c b. add_chunk b c) cs empty_output)
      \<or> bo_kept (fold (\<lambda>c b. add_chunk b c) cs empty_output) = concat cs)"
proof -
  have "bo_kept (fold (\<lambda>c b. add_chunk b c) cs empty_output) = take MAX_CAPTURE_BYTES (concat cs)
   \<and> bo_total (fold (\<lambda>c b. add_chunk b c) cs empty_output) = length (concat cs)
   \<and> (\<not> bo_truncated (fold (\<lambda>c b. add_chunk b c) cs empty_output) \<longrightarrow> length (concat cs) \<le> MAX_CAPTURE_BYTES)
   \<and> (bo_truncated (fold (\<lambda>c b. add_chunk b c) cs empty_output) \<longrightarrow> MAX_CAPTURE_BYTES \<le> length (concat cs))"
  proof (induction cs rule: rev_induct)
    case Nil
    show ?case by (simp add: empty_output_def)
  next
    case (snoc c cs)
    then show ?case using add_chunk_spec [of "fold (\<lambda>c b. add_chunk b c) cs empty_output" "concat cs" c] by simp
  qed
  then show ?thesis by (auto simp: MAX_CAPTURE_BYTES_def)
qed

subsection \<open>What is run\<close>

definition ia_post :: "installing \<Rightarrow> (install_state \<Rightarrow> bool) \<Rightarrow> bool" where
  "ia_post h P \<longleftrightarrow> P (snd (snd h))"

lemma ia_post_triple [simp]: "ia_post (r, s, S) P = P S" "ia_post (returned st s' S) P = P S"
  by (simp_all add: ia_post_def returned_def)

lemma ia_audited_post:
  assumes "\<And>e s' db'. apply_op op (ie_audit E k) s (is_db S) = (Inl e, s', db') \<Longrightarrow> P (S\<lparr>is_db := db'\<rparr>)"
    and "\<And>s' db'. apply_op op (ie_audit E k) s (is_db S) = (Inr (), s', db') \<Longrightarrow> ia_post (rest s' (S\<lparr>is_db := db'\<rparr>)) P"
  shows "ia_post (ia_audited E k op s S rest) P"
  using assms by (auto simp: ia_audited_def split: prod.splits sum.splits)

lemma ia_begin_post:
  assumes "\<And>e db'. P (S\<lparr>is_db := db'\<rparr>)"
    and "\<And>s db'. begin_call (ie_audit E 0) (install_context subj) (install_decision install_policy_identity subj ev) (is_db S)
        = (Inr s, db') \<Longrightarrow> ia_post (rest s (S\<lparr>is_db := db'\<rparr>)) P"
  shows "ia_post (ia_begin E subj ev S rest) P"
  using assms by (auto simp: ia_begin_def split: prod.splits sum.splits)

abbreviation not_run :: "install_state \<Rightarrow> install_state \<Rightarrow> bool" where
  "not_run S S' \<equiv> is_runs S' = is_runs S"

definition others_append :: "install_env \<Rightarrow> bool" where
  "others_append E \<longleftrightarrow> (\<forall>k db. grows db (ie_meanwhile E k db))"

text \<open>The plan was started behind a durable authorization of a call with these variables.\<close>

definition started :: "install_env \<Rightarrow> install_plan \<Rightarrow> call_state \<Rightarrow> install_state \<Rightarrow> install_state \<Rightarrow> bool" where
  "started E p s S S' \<longleftrightarrow> (\<exists>c db c' db'. markForwarding (ie_audit E 3) c db = (Inr (), c', db')
     \<and> cs_context c = cs_context s \<and> cs_id c = cs_id s \<and> grows db' (is_db S') \<and> is_runs S' = is_runs S @ [p])"

abbreviation run_from :: "install_env \<Rightarrow> install_plan \<Rightarrow> call_state \<Rightarrow> install_state \<Rightarrow> install_state \<Rightarrow> bool" where
  "run_from E p s S S' \<equiv> not_run S S' \<or> started E p s S S' \<and> is_approvals S' = is_approvals S"

lemma execute_plan_post:
  assumes "call_ok s" "others_append E"
  shows "ia_post (execute_plan E p s S) (run_from E p s S)"
  unfolding execute_plan_def
proof (rule ia_audited_post)
  fix s1 db1 assume o1: "apply_op Op_forwarding (ie_audit E 3) s (is_db S) = (Inr (), s1, db1)"
  let ?S2 = "S\<lparr>is_db := db1\<rparr>\<lparr>is_runs := is_runs (S\<lparr>is_db := db1\<rparr>) @ [p], is_db := ie_meanwhile E 1 (is_db (S\<lparr>is_db := db1\<rparr>))\<rparr>"
  have ok: "call_ok s1" using op_frame [OF assms(1) o1] by simp
  have g: "grows db1 (is_db ?S2)" using assms(2) by (simp add: others_append_def)
  have weak: "run_from E p s S (?S2\<lparr>is_db := d\<rparr>)" if "grows (is_db ?S2) d" for d
  proof -
    have "grows db1 d" using g that grows_trans by blast
    then have "started E p s S (?S2\<lparr>is_db := d\<rparr>)"
      unfolding started_def using o1 by (intro exI conjI) (simp, simp_all)
    then show ?thesis by simp
  qed
  have fails: "ia_post (ia_audited E 4 op s1 ?S2 (returned st)) (run_from E p s S)" for op st
  proof (rule ia_audited_post)
    fix e s' db' assume a: "apply_op op (ie_audit E 4) s1 (is_db ?S2) = (Inl e, s', db')"
    show "run_from E p s S (?S2\<lparr>is_db := db'\<rparr>)" by (rule weak) (use op_frame [OF ok a] in blast)
  next
    fix s' db' assume a: "apply_op op (ie_audit E 4) s1 (is_db ?S2) = (Inr (), s', db')"
    show "ia_post (returned st s' (?S2\<lparr>is_db := db'\<rparr>)) (run_from E p s S)"
      unfolding ia_post_triple by (rule weak) (use op_frame [OF ok a] in blast)
  qed
  show "ia_post (let S2 = ?S2 in case ie_run E p of
         None \<Rightarrow> ia_audited E 4 (Op_failed ''install_runner_failed'') s1 S2 (returned (I_run R_failed))
       | Some r \<Rightarrow>
           (case apply_op (Op_execution_result (run_summary r) (run_is_error r)) (ie_audit E 5) s1 (is_db S2) of
              (Inl _, s2, db2) \<Rightarrow>
                (case apply_op (Op_failed ''install_audit_completion_failed'') (ie_audit E 6) s2 db2 of
                   (_, s3, db3) \<Rightarrow> returned I_audit_failed s3 (S2\<lparr>is_db := db3\<rparr>))
            | (Inr _, s2, db2) \<Rightarrow>
                returned (if rn_status r = R_completed \<and> verification_failed r then I_verification_failed
                          else I_run (rn_status r)) s2 (S2\<lparr>is_db := db2\<rparr>))) (run_from E p s S)"
  proof (cases "ie_run E p")
    case None
    show ?thesis using fails by (simp only: Let_def None option.case)
  next
    case (Some r)
    obtain x s2 db2 where x: "apply_op (Op_execution_result (run_summary r) (run_is_error r)) (ie_audit E 5) s1 (is_db ?S2)
        = (x, s2, db2)" by (metis surj_pair)
    obtain y s3 db3 where y: "apply_op (Op_failed ''install_audit_completion_failed'') (ie_audit E 6) s2 db2 = (y, s3, db3)"
      by (metis surj_pair)
    have f: "call_ok s2" "grows (is_db ?S2) db2" using op_frame [OF ok x] by blast+
    then have "grows (is_db ?S2) db3" using op_frame [OF f(1) y] grows_trans by blast
    from weak [OF f(2)] weak [OF this]
    have P: "ia_post (returned st s' (?S2\<lparr>is_db := db2\<rparr>)) (run_from E p s S)"
      "ia_post (returned st s' (?S2\<lparr>is_db := db3\<rparr>)) (run_from E p s S)" for st s'
      unfolding ia_post_triple .
    show ?thesis
      unfolding Let_def Some option.case x prod.case y
      by (cases x) (simp_all only: sum.case P)
  qed
qed simp

lemma unavailable_post: "ia_post (approval_unavailable E e s S) (not_run S)"
  unfolding approval_unavailable_def by (rule ia_audited_post) simp_all

lemma approve_plan_post:
  assumes "call_ok s" "others_append E"
  shows "ia_post (approve_plan E p ev s S) (\<lambda>S'. not_run S S'
     \<or> started E p s S S' \<and> map_of (as_outcomes (is_approvals S')) (ie_requestId E) = Some O_approved)"
  (is "ia_post _ ?P")
proof (cases "request (ie_requestId E) (ie_now E) (install_approval_input p ev) (ie_ttl E) (is_approvals S)")
  case (Pair q A)
  show ?thesis
  proof (cases q)
    case (Inl e)
    then show ?thesis
      using unavailable_post [of E "Approval_failure e" s "S\<lparr>is_approvals := A\<rparr>"]
      by (simp add: approve_plan_def Pair ia_post_def)
  next
    case (Inr r)
    have i: "ar_id r = ie_requestId E" using Pair Inr by (simp add: request_id)
    obtain res s' db' where o: "apply_op (Op_approval_requested (ar_id r) (ar_requestedAt r) (ar_expiresAt r))
        (ie_audit E 1) s (is_db S) = (res, s', db')" by (metis surj_pair)
    have ok: "call_ok s'" and c: "cs_context s' = cs_context s \<and> cs_id s' = cs_id s"
      using op_frame [OF assms(1) o] op_same [OF assms(1) o] by simp_all
    show ?thesis
    proof (cases res)
      case (Inl e)
      then show ?thesis
        using unavailable_post [of E "Audit_failure e" s' "S\<lparr>is_db := db', is_approvals := cancel (ar_id r) A\<rparr>"]
        by (simp add: approve_plan_def Pair \<open>q = Inr r\<close> o Inl ia_post_def del: One_nat_def apply_op.simps)
    next
      case (Inr u)
      define S1 where "S1 = S\<lparr>is_db := ie_meanwhile E 0 db',
         is_approvals := ie_wait E (if ie_aborted E then cancel (ar_id r) A else A)\<rparr>"
      have u: "is_runs S1 = is_runs S" by (simp add: S1_def)
      have eq: "approve_plan E p ev s S = (case map_of (as_outcomes (is_approvals S1)) (ar_id r) of
                     None \<Rightarrow> (Install_waiting, Some s', S1)
                   | Some x \<Rightarrow>
                       ia_audited E 2 (Op_approval_resolved (ar_id r) (outcome_state x)) s' S1 (\<lambda>s2 S2.
                         if x \<noteq> O_approved
                           then ia_audited E 3 (Op_blocked (block_of x)) s2 S2 (returned (outcomeStatus x))
                         else execute_plan E p s2 S2))"
        unfolding approve_plan_def S1_def by (simp add: Pair \<open>q = Inr r\<close> o Inr Let_def del: One_nat_def apply_op.simps)
      show ?thesis
      proof (cases "map_of (as_outcomes (is_approvals S1)) (ar_id r)")
        case None
        then show ?thesis using u by (simp add: eq)
      next
        case (Some x)
        show ?thesis
          unfolding eq Some option.case
        proof (rule ia_audited_post)
          fix s2 db2
          assume o2: "apply_op (Op_approval_resolved (ar_id r) (outcome_state x)) (ie_audit E 2) s' (is_db S1) = (Inr (), s2, db2)"
          have ok2: "call_ok s2" and c2: "cs_context s2 = cs_context s" "cs_id s2 = cs_id s"
            using op_frame [OF ok o2] op_same [OF ok o2] c by simp_all
          let ?S = "S1\<lparr>is_db := db2\<rparr>"
          show "ia_post (if x \<noteq> O_approved
                           then ia_audited E 3 (Op_blocked (block_of x)) s2 ?S (returned (outcomeStatus x))
                         else execute_plan E p s2 ?S) ?P"
          proof (cases "x = O_approved")
            case True
            with execute_plan_post [OF ok2 assms(2), of p ?S] Some i u c2 show ?thesis
              by (auto simp: ia_post_def started_def)
          next
            case False
            have "ia_post (ia_audited E 3 (Op_blocked (block_of x)) s2 ?S (returned (outcomeStatus x))) (not_run ?S)"
              by (rule ia_audited_post) simp_all
            with False u show ?thesis by (simp add: ia_post_def)
          qed
        qed (simp add: u)
      qed
    qed
  qed
qed

lemma executionEvaluation_asks:
  "iv_decision (executionEvaluation ev (is_resolved res)) \<noteq> deny
    \<Longrightarrow> iv_decision (executionEvaluation ev (is_resolved res)) = ask \<and> (\<exists>m. res = Resolved m)"
  by (auto simp: executionEvaluation_def localExecutionRequiresApproval_def is_resolved_def
      split: if_splits install_resolution.splits)

lemma validate_Resolved:
  "validateInstallResolution q res = Resolved m
    \<Longrightarrow> res = Resolved m \<and> pm_packageName m = iq_packageName q \<and> is_exact_version (pm_version m)"
  by (auto simp: validateInstallResolution_def split: install_resolution.splits if_splits)

lemma install_context_planHash:
  "rc_planHash (trustedReceiptContext (install_context s) (Some (installReceiptContext pid s)))
     = (case s of On_plan p \<Rightarrow> Some (pl_hash p) | On_request q \<Rightarrow> None)"
  by (cases s) (simp_all add: trustedReceiptContext_def install_context_def trusted_identity_def)

lemma run_install_post:
  assumes "others_append E"
  shows "ia_post (run_install E q S) (\<lambda>S'. not_run S S'
     \<or> (\<exists>m p s. ie_resolution E = Resolved m \<and> pm_packageName m = iq_packageName q \<and> is_exact_version (pm_version m)
          \<and> ie_plan E q m = Inr p \<and> rc_planHash (cs_context s) = Some (pl_hash p) \<and> rc_evidence (cs_context s) = None
          \<and> cs_id s = en_uuid (ie_audit E 0) 0
          \<and> started E p s S S' \<and> map_of (as_outcomes (is_approvals S')) (ie_requestId E) = Some O_approved))"
  (is "ia_post _ ?P")
proof -
  let ?res = "validateInstallResolution q (ie_resolution E)"
  let ?ev = "executionEvaluation (evaluateInstallPolicy ?res) (is_resolved ?res)"
  have refused: "ia_post (ia_begin E subj ev S (\<lambda>s S1. ia_audited E 1 op s S1 (returned st))) ?P" for subj ev op st
    by (intro ia_begin_post ia_audited_post) simp_all
  show ?thesis
  proof (cases "iv_decision ?ev = deny")
    case True
    show ?thesis using refused True by (simp only: run_install_def Let_def simp_thms if_True)
  next
    case False
    then have a: "iv_decision ?ev = ask" using executionEvaluation_asks by blast
    obtain m where m: "?res = Resolved m" using False executionEvaluation_asks by blast
    note v = validate_Resolved [OF m]
    have eq: "run_install E q S = (case ie_plan E q m of
             Inl _ \<Rightarrow> ia_begin E (On_request q) ?ev S (\<lambda>s S1.
               ia_audited E 1 (Op_failed ''install_plan_failed'') s S1 (returned (I_run R_failed)))
           | Inr p \<Rightarrow> ia_begin E (On_plan p) ?ev S (\<lambda>s S1. approve_plan E p ?ev s S1))"
      using a by (simp add: run_install_def Let_def m split: sum.split)
    show ?thesis
    proof (cases "ie_plan E q m")
      case (Inl e)
      show ?thesis unfolding eq Inl sum.case by (rule refused)
    next
      case (Inr p)
      show ?thesis
        unfolding eq Inr sum.case
      proof (rule ia_begin_post)
        fix s db'
        assume b: "begin_call (ie_audit E 0) (install_context (On_plan p))
          (install_decision install_policy_identity (On_plan p) ?ev) (is_db S) = (Inr s, db')"
        let ?S = "S\<lparr>is_db := db'\<rparr>"
        have ok: "call_ok s" and c: "cs_context s = installReceiptContext install_policy_identity (On_plan p)"
            "cs_id s = en_uuid (ie_audit E 0) 0"
          using begin_frame [OF b]
          by (simp_all add: install_decision_def trustedReceiptContext_def install_context_def trusted_identity_def)
        from approve_plan_post [OF ok assms, of p ?ev ?S]
        show "ia_post (approve_plan E p ?ev s ?S) ?P"
          unfolding ia_post_def
        proof
          assume st: "started E p s ?S (snd (snd (approve_plan E p ?ev s ?S)))
            \<and> map_of (as_outcomes (is_approvals (snd (snd (approve_plan E p ?ev s ?S))))) (ie_requestId E) = Some O_approved"
          then have "started E p s S (snd (snd (approve_plan E p ?ev s ?S)))" by (simp add: started_def)
          with st c v Inr show "?P (snd (snd (approve_plan E p ?ev s ?S)))"
            by (intro disjI2 exI [of _ m] exI [of _ p] exI [of _ s]) simp
        qed simp
      qed simp
    qed
  qed
qed

text \<open>
  C12: nothing is installed that a person did not approve and the log does not hold.  Whatever
  fails, a request hands at most one plan to the runner.  It is the plan made from the resolution of the
  request, to an exact version of the requested name; the outcome of its ticket is an approval;
  and the log holds, from before the start and with nothing of it removed since, the
  authorization receipt of this call and the start that names its digest.  The receipt that is
  stored says that the action with the hash of this very plan is authorized.
\<close>

theorem install_runs_only_approved:
  assumes "others_append E" "run_install E q S = (r, s, S')"
  shows "is_runs S' = is_runs S
    \<or> (\<exists>m p c db c' db' es receipt digest e1 e2 t1 t2.
         ie_resolution E = Resolved m \<and> pm_packageName m = iq_packageName q
         \<and> is_exact_version (pm_version m) \<and> ie_plan E q m = Inr p \<and> is_runs S' = is_runs S @ [p]
         \<and> map_of (as_outcomes (is_approvals S')) (ie_requestId E) = Some O_approved
         \<and> markForwarding (ie_audit E 3) c db = (Inr (), c', db') \<and> cs_id c = en_uuid (ie_audit E 0) 0
         \<and> db_events (is_db S') = db_events db @ [e1, e2] @ es
         \<and> er_json e1 = canonicalJson (event_value (en_uuid (ie_audit E 3) 1) (cs_id c)
             ''authorization_receipt_finalized'' (receipt_details receipt digest) t1)
         \<and> er_json e2 = canonicalJson (event_value (en_uuid (ie_audit E 3) 2) (cs_id c)
             ''execution_start_recorded'' (digest_details digest) t2)
         \<and> receiptDigest receipt = Inr digest \<and> at (at receipt ''authorization'') ''status'' = JStr ''authorized''
         \<and> at (at receipt ''action'') ''id'' = JStr (cs_id c)
         \<and> at (at receipt ''action'') ''executionPlanHash'' = JStr (pl_hash p))"
proof -
  have "is_runs S' = is_runs S \<or> (\<exists>m p (s0 :: call_state). ie_resolution E = Resolved m \<and> pm_packageName m = iq_packageName q
     \<and> is_exact_version (pm_version m) \<and> ie_plan E q m = Inr p \<and> rc_planHash (cs_context s0) = Some (pl_hash p)
     \<and> rc_evidence (cs_context s0) = None \<and> cs_id s0 = en_uuid (ie_audit E 0) 0 \<and> started E p s0 S S'
     \<and> map_of (as_outcomes (is_approvals S')) (ie_requestId E) = Some O_approved)"
    using run_install_post [OF assms(1), of q S] by (simp add: assms(2))
  then show ?thesis
  proof (elim disjE exE conjE)
    fix m p and s0 :: call_state
    assume a: "ie_resolution E = Resolved m" "pm_packageName m = iq_packageName q" "is_exact_version (pm_version m)"
      "ie_plan E q m = Inr p" "map_of (as_outcomes (is_approvals S')) (ie_requestId E) = Some O_approved"
      and h: "rc_planHash (cs_context s0) = Some (pl_hash p)" "rc_evidence (cs_context s0) = None" "cs_id s0 = en_uuid (ie_audit E 0) 0"
    assume "started E p s0 S S'"
    then obtain c db c' db' es where m: "markForwarding (ie_audit E 3) c db = (Inr (), c', db')"
      "cs_context c = cs_context s0" "cs_id c = cs_id s0" "db_events (is_db S') = db_events db' @ es" "is_runs S' = is_runs S @ [p]"
      unfolding started_def grows_def by blast
    have "rc_evidence (cs_context c) \<noteq> Some JUndef" using m(2) h(2) by simp
    from markForwarding_started [OF this m(1)]
    have "durable_start (ie_audit E 3) c db c' db'" by blast
    then obtain receipt digest e1 e2 t1 t2 where d: "db_events db' = db_events db @ [e1, e2]" "receiptDigest receipt = Inr digest"
      "at (at receipt ''authorization'') ''status'' = JStr ''authorized''" "at (at receipt ''action'') ''id'' = JStr (cs_id c)"
      "at (at receipt ''action'') ''executionPlanHash'' = js_opt (rc_planHash (cs_context c))"
      "er_json e1 = canonicalJson (event_value (en_uuid (ie_audit E 3) 1) (cs_id c) ''authorization_receipt_finalized'' (receipt_details receipt digest) t1)"
      "er_json e2 = canonicalJson (event_value (en_uuid (ie_audit E 3) 2) (cs_id c) ''execution_start_recorded'' (digest_details digest) t2)"
      unfolding durable_start_def by blast
    have "db_events (is_db S') = db_events db @ [e1, e2] @ es" using m(4) d(1) by simp
    moreover have "at (at receipt ''action'') ''executionPlanHash'' = JStr (pl_hash p)" using d(5) h(1) m(2) by (simp add: js_opt_def)
    moreover have "cs_id c = en_uuid (ie_audit E 0) 0" using m(3) h(3) by simp
    ultimately show ?thesis using a m(1,5) d(2-4,6,7) by blast
  qed simp
qed

subsection \<open>What is answered\<close>

text \<open>The answer of an installation that ended well: one plan was run, and its result is the one answered.\<close>

definition answers_run :: "install_env \<Rightarrow> install_state \<Rightarrow> installing \<Rightarrow> bool" where
  "answers_run E S h \<longleftrightarrow> (fst h = Install_returned (I_run R_completed) \<longrightarrow>
     (\<exists>p r. is_runs (snd (snd h)) = is_runs S @ [p] \<and> ie_run E p = Some r \<and> rn_status r = R_completed
        \<and> \<not> verification_failed r))"

lemma ia_audited_answers:
  assumes "\<And>s' db'. answers_run E S0 (rest s' (S\<lparr>is_db := db'\<rparr>))"
  shows "answers_run E S0 (ia_audited E k op s S rest)"
  using assms by (auto simp: ia_audited_def answers_run_def split: prod.splits sum.splits)

lemma ia_begin_answers:
  assumes "\<And>s db'. answers_run E S0 (rest s (S\<lparr>is_db := db'\<rparr>))"
  shows "answers_run E S0 (ia_begin E subj ev S rest)"
  using assms by (auto simp: ia_begin_def answers_run_def split: prod.splits sum.splits)

lemma answers_other: "st \<noteq> I_run R_completed \<Longrightarrow> answers_run E S (returned st s S')"
  by (simp add: answers_run_def returned_def)

lemma execute_plan_answers:
  assumes "is_runs S = is_runs S0"
  shows "answers_run E S0 (execute_plan E p s S)"
  unfolding execute_plan_def Let_def
proof (rule ia_audited_answers)
  fix s1 db1
  let ?S2 = "S\<lparr>is_db := db1\<rparr>\<lparr>is_runs := is_runs (S\<lparr>is_db := db1\<rparr>) @ [p], is_db := ie_meanwhile E 1 (is_db (S\<lparr>is_db := db1\<rparr>))\<rparr>"
  have ok: "answers_run E S0 (returned (if rn_status r = R_completed \<and> verification_failed r then I_verification_failed
      else I_run (rn_status r)) s (?S2\<lparr>is_db := d\<rparr>))" if "ie_run E p = Some r" for r s d
    using that assms by (simp add: answers_run_def returned_def)
  show "answers_run E S0 (case ie_run E p of
         None \<Rightarrow> ia_audited E 4 (Op_failed ''install_runner_failed'') s1 ?S2 (returned (I_run R_failed))
       | Some r \<Rightarrow>
           (case apply_op (Op_execution_result (run_summary r) (run_is_error r)) (ie_audit E 5) s1 (is_db ?S2) of
              (Inl _, s2, db2) \<Rightarrow>
                (case apply_op (Op_failed ''install_audit_completion_failed'') (ie_audit E 6) s2 db2 of
                   (_, s3, db3) \<Rightarrow> returned I_audit_failed s3 (?S2\<lparr>is_db := db3\<rparr>))
            | (Inr _, s2, db2) \<Rightarrow>
                returned (if rn_status r = R_completed \<and> verification_failed r then I_verification_failed
                          else I_run (rn_status r)) s2 (?S2\<lparr>is_db := db2\<rparr>)))"
  proof (cases "ie_run E p")
    case None
    show ?thesis unfolding None option.case by (intro ia_audited_answers answers_other) simp
  next
    case (Some r)
    obtain x s2 db2 where x: "apply_op (Op_execution_result (run_summary r) (run_is_error r)) (ie_audit E 5) s1 (is_db ?S2)
        = (x, s2, db2)" by (metis surj_pair)
    obtain y s3 db3 where y: "apply_op (Op_failed ''install_audit_completion_failed'') (ie_audit E 6) s2 db2 = (y, s3, db3)"
      by (metis surj_pair)
    show ?thesis
      unfolding Some option.case x prod.case y
      by (cases x) (simp_all only: sum.case ok [OF Some] answers_other install_status.distinct not_False_eq_True simp_thms)
  qed
qed

lemma approve_plan_answers:
  assumes "is_runs S = is_runs S0"
  shows "answers_run E S0 (approve_plan E p ev s S)"
proof -
  have u: "answers_run E S0 (approval_unavailable E e s S)" for e s S
    unfolding approval_unavailable_def by (rule ia_audited_answers) (simp add: answers_run_def)
  have o: "outcomeStatus x \<noteq> I_run R_completed" for x by (cases x) simp_all
  have w: "answers_run E S0 (Install_waiting, t)" for t by (simp add: answers_run_def)
  show ?thesis
    unfolding approve_plan_def Let_def
    by (auto split: prod.split sum.split option.split intro!: u w ia_audited_answers answers_other o execute_plan_answers
        simp: assms simp del: apply_op.simps)
qed

text \<open>
  An installation is reported as completed only when one plan was handed to the runner, its
  result has the status completed, and the verification of what it left did not fail.
\<close>

theorem completed_install_was_run:
  "case run_install E q S of
     (Install_returned (I_run R_completed), _, S') \<Rightarrow>
       (\<exists>p r. is_runs S' = is_runs S @ [p] \<and> ie_run E p = Some r \<and> rn_status r = R_completed \<and> \<not> verification_failed r)
   | _ \<Rightarrow> True"
proof -
  have "answers_run E S (run_install E q S)"
    unfolding run_install_def Let_def
    by (auto split: install_resolution.split sum.split intro!: ia_begin_answers ia_audited_answers answers_other
        approve_plan_answers execute_plan_answers simp: answers_run_def [of E S "(Install_threw _, _)"])
  then show ?thesis
    by (auto simp: answers_run_def split: prod.split install_result.split install_status.split run_status.split)
qed

subsection \<open>A concrete run\<close>

definition demo_install_env :: install_env where
  "demo_install_env = \<lparr>ie_resolution = Resolved demo_metadata,
     ie_plan = (\<lambda>q m. create_plan demo_urls demo_host q m 1000), ie_audit = (\<lambda>_. demo_env), ie_requestId = demo_uuid,
     ie_now = 0, ie_ttl = 1000, ie_wait = id, ie_meanwhile = (\<lambda>_ db. db), ie_aborted = False, ie_run = (\<lambda>_. None)\<rparr>"

definition demo_install_state :: install_state where
  "demo_install_state = \<lparr>is_db = empty_db, is_approvals = new_service, is_runs = []\<rparr>"

text \<open>
  A run to the end: the person approves, the runner returns a result.  The clock stands still and
  the identifiers differ.  The log cannot hold two events of the same hash, and the hashes of the
  five events up to the start are not computed here, so what is shown is that the plan is run
  unless two of these five hashes are equal.
\<close>

definition run_id :: "nat \<Rightarrow> nat \<Rightarrow> string" where
  "run_id k j = digit_char k # digit_char j # replicate 34 (CHR ''a'')"

definition run_result_ok :: run_result where
  "run_result_ok = \<lparr>rn_status = R_completed, rn_exitCode = Some 0, rn_signal = None, rn_durationMs = 5,
     rn_output = Some (0, 0, False), rn_verification = None\<rparr>"

definition approving_env :: install_env where
  "approving_env = demo_install_env\<lparr>ie_audit := (\<lambda>k. demo_env\<lparr>en_uuid := run_id k\<rparr>),
     ie_wait := (\<lambda>A. snd (decide demo_uuid O_approved 5 A)), ie_run := (\<lambda>_. Some run_result_ok)\<rparr>"

lemma run_plan_parts:
  "\<exists>p. create_plan demo_urls demo_host demo_install demo_metadata 1000 = Inr p \<and> is_hash (pl_hash p)
     \<and> pb_runner (pl_body p) = Npm \<and> pb_packageName (pl_body p) = ''left-pad'' \<and> pb_resolvedVersion (pl_body p) = ''1.3.0''"
proof -
  obtain p where p: "create_plan demo_urls demo_host demo_install demo_metadata 1000 = Inr p" using demo_plan by blast
  note f = create_plan_facts [OF p]
  have "is_hash (pl_hash p)" using f(1) by (simp add: plan_hash_of_def sha256_is_hash)
  with p f show ?thesis by (auto simp: demo_install_def demo_metadata_def)
qed

lemma demo_resolution: "validateInstallResolution demo_install (Resolved demo_metadata) = Resolved demo_metadata"
proof -
  have "is_exact_version ''1.3.0''" by code_simp
  then show ?thesis by (simp add: validateInstallResolution_def demo_install_def demo_metadata_def)
qed

definition demo_ev :: install_evaluation where
  "demo_ev = executionEvaluation (evaluateInstallPolicy (Resolved demo_metadata)) True"

lemma demo_ev_eq: "iv_decision demo_ev = ask \<and> iv_reasons demo_ev = [''limited_registry_evidence'', ''local_install_execution'']
    \<and> ir_score (iv_risk demo_ev) \<le> 100"
  by (simp add: demo_ev_def executionEvaluation_def evaluateInstallPolicy_def Let_def scoreInstallRisk_def metadata_signals_def
      demo_metadata_def add_install_signal_def assessmentFor_def strictestSignalDecision_def denySignals_def askSignals_def
      localExecutionRequiresApproval_def)


definition demo_p :: install_plan where
  "demo_p = projr (create_plan demo_urls demo_host demo_install demo_metadata 1000)"

lemma demo_p_facts: "create_plan demo_urls demo_host demo_install demo_metadata 1000 = Inr demo_p" "is_hash (pl_hash demo_p)"
  "pb_runner (pl_body demo_p) = Npm" "pb_packageName (pl_body demo_p) = ''left-pad''" "pb_resolvedVersion (pl_body demo_p) = ''1.3.0''"
  using run_plan_parts by (auto simp: demo_p_def)

definition demo_receipt_context :: receipt_context where
  "demo_receipt_context = installReceiptContext install_policy_identity (On_plan demo_p)"

definition demo_evaluation :: audit_evaluation where
  "demo_evaluation = normalizeEvaluation (install_decision install_policy_identity (On_plan demo_p) demo_ev)"

definition demo_approved :: receipt_approval where
  "demo_approved = \<lparr>ap_required = True, ap_outcome = Approved, ap_requestId = Some demo_uuid, ap_requestedAt = Some (iso_text 0),
     ap_decidedAt = Some (iso_text 0), ap_expiresAt = Some (iso_text 1000), ap_principal = Local_dashboard_session\<rparr>"

definition demo_authorization :: auth_input where
  "demo_authorization = \<lparr>ai_receiptId = run_id 3 0, ai_actionId = run_id 0 0, ai_issuedAt = iso_text 0, ai_context = demo_receipt_context,
        ai_base = ae_base demo_evaluation, ai_effective = ae_effective demo_evaluation,
        ai_matchedRuleId = ae_rule demo_evaluation, ai_reasonCodes = ae_reasons demo_evaluation,
        ai_riskScore = NInt (ae_score demo_evaluation), ai_riskBand = ae_band demo_evaluation,
        ai_approval = demo_approved, ai_status = Authorized, ai_reasonCode = ''approval_approved''\<rparr>"

definition demo_receipt :: jsval where
  "demo_receipt = authorization_json demo_authorization (canonicalJson (intent_material demo_receipt_context))"

definition demo_digest :: string where
  "demo_digest = sha256_digest (canonicalJson demo_receipt)"

lemma iso1000: "parse_iso (iso_text 1000) = Some 1000"
  by (rule parse_iso_text) (simp add: max_time_def)

lemma iso1000_length: "length (iso_text 1000) = 24"
proof -
  have "1000 div ms_per_day = 0" "1000 mod ms_per_day = 1000" by (simp_all add: ms_per_day_def)
  then show ?thesis
    by (simp add: iso_text_def year_text_def year_of.simps month_of.simps month_days_def leap_def year_days_def)
qed

lemma run_id_length [simp]: "length (run_id k j) = 36"
  by (simp add: run_id_def)

lemma demo_policy_parts: "pid_schemaVersion install_policy_identity = 1" "pid_evaluatorName install_policy_identity = ''install_guard_builtin''"
  "pid_evaluatorVersion install_policy_identity = ''1''" "\<exists>x. pid_contentDigest install_policy_identity = sha256_digest x"
proof -
  obtain a where e: "install_policy_identity = \<lparr>pid_schemaVersion = 1, pid_contentDigest = sha256_digest a,
      pid_evaluatorName = ''install_guard_builtin'', pid_evaluatorVersion = ''1''\<rparr>"
    using install_policy_identity_ok unfolding INSTALL_POLICY_IDENTITY_def staticPolicyIdentity_def rbind_Inr_iff sum.inject by metis
  show "pid_schemaVersion install_policy_identity = 1" "pid_evaluatorName install_policy_identity = ''install_guard_builtin''"
    "pid_evaluatorVersion install_policy_identity = ''1''" "\<exists>x. pid_contentDigest install_policy_identity = sha256_digest x"
    unfolding e by auto
qed

lemma demo_evaluation_parts: "ae_base demo_evaluation = ask" "ae_effective demo_evaluation = ask"
  "ae_rule demo_evaluation = Some ''install_guard_builtin_v0''" "ae_reasons demo_evaluation = [''limited_registry_evidence'', ''local_install_execution'']"
  "0 \<le> ae_score demo_evaluation" "ae_score demo_evaluation \<le> 100"
  using demo_ev_eq by (simp_all add: demo_evaluation_def normalizeEvaluation_def install_decision_def)

lemma demo_receipt_context_eq: "demo_receipt_context = \<lparr>rc_adapter = ''install_guard'', rc_adapterVersion = ''1'', rc_operation = ''npm_install'',
      rc_boundary = Install_guard_plan, rc_assurance = Execution_plan_exact, rc_material = JObj [(''planHash'', JStr (pl_hash demo_p))],
      rc_evidence = None, rc_subject = Some ''left-pad@1.3.0'', rc_planHash = Some (pl_hash demo_p), rc_policy = install_policy_identity\<rparr>"
  by (simp add: demo_receipt_context_def demo_p_facts install_operation_def)

lemma run_receipt_issued: "createAuthorizationReceipt demo_formats demo_authorization = Inr demo_receipt" "receiptDigest demo_receipt = Inr demo_digest"
proof -
  have names: "list_all is_identifier [''install_guard'', ''1'', ''npm_install'', ''install_guard_builtin'', ''install_guard_builtin_v0'']"
    "list_all is_reason_code [''approval_approved'', ''limited_registry_evidence'', ''local_install_execution'']"
    by code_simp+
  have band: "length (band_name b) \<le> 16" for b by (cases b) simp_all
  have band: "\<not> 16384 < length (band_name b)" for b using band [of b] by simp
  have h: "length (pl_hash demo_p) = 64" using demo_p_facts(2) by (simp add: is_hash_def)
  obtain x where x: "pid_contentDigest install_policy_identity = sha256_digest x" using demo_policy_parts(4) ..
  have "is_ok (validateJsonValue (intent_material demo_receipt_context) 0)"
    by (simp add: intent_material_def demo_receipt_context_eq validate_ok validateJsonValue.simps max_depth_def max_collection_def
        max_string_def h)
  then have t: "canonicalReceiptJson (intent_material demo_receipt_context) = Inr (canonicalJson (intent_material demo_receipt_context))"
    by (auto simp: canonicalReceiptJson_def split: sum.splits)
  have "auth_ok demo_formats demo_authorization"
    using names demo_p_facts(2)
    by (simp add: auth_ok_def action_ok_def evidence_ok_def policy_ok_def decision_ok_def approval_ok_def iso1000
      version_ok_def status_ok_def demo_authorization_def demo_receipt_context_eq demo_approved_def demo_formats_def demo_uuid_def
      parse_iso_text demo_policy_parts demo_evaluation_parts x)
  then show "createAuthorizationReceipt demo_formats demo_authorization = Inr demo_receipt"
    unfolding demo_receipt_def using t
    by (intro authorization_issued) (simp_all add: demo_authorization_def, simp add: demo_receipt_context_eq)
  have "is_ok (validateJsonValue demo_receipt 0)"
    by (simp add: demo_receipt_def demo_unfold demo_authorization_def demo_receipt_context_eq demo_approved_def validate_ok
        validateJsonValue.simps max_depth_def max_collection_def max_string_def iso_length digest_length max_safe_def
        demo_policy_parts demo_evaluation_parts x h iso1000_length band)
  then show "receiptDigest demo_receipt = Inr demo_digest"
    by (auto simp: demo_digest_def receiptDigest_def canonicalReceiptJson_def split: sum.splits)
qed


subsection \<open>The events of the run\<close>

text \<open>The rows of a list of events, each with its identifier, type and details, chained from \<open>prev\<close>.\<close>

fun rows_from :: "string \<Rightarrow> nat \<Rightarrow> string \<Rightarrow> (string \<times> string \<times> jsval) list \<Rightarrow> event_row list" where
  "rows_from prev n i [] = []"
| "rows_from prev n i ((u, type, details) # xs) =
     (let json = canonicalJson (event_value u i type details (iso_text 0)); h = chain_hash prev json in
      \<lparr>er_sequence = n, er_id = u, er_call = i, er_type = type, er_json = json, er_previous = prev, er_hash = h,
       er_createdAt = iso_text 0\<rparr> # rows_from h (n + 1) i xs)"

lemma rows_from_snoc:
  "rows_from prev n i (xs @ [(u, type, details)]) = rows_from prev n i xs @
     (let prev' = (if xs = [] then prev else er_hash (last (rows_from prev n i xs)));
          json = canonicalJson (event_value u i type details (iso_text 0)) in
      [\<lparr>er_sequence = n + length xs, er_id = u, er_call = i, er_type = type, er_json = json, er_previous = prev',
        er_hash = chain_hash prev' json, er_createdAt = iso_text 0\<rparr>])"
proof (induction xs arbitrary: prev n)
  case (Cons x xs)
  then show ?case by (cases x; cases xs) (auto simp: Let_def)
qed (simp add: Let_def)

lemma rows_from_simps: "map er_id (rows_from prev n i xs) = map fst xs" "length (rows_from prev n i xs) = length xs"
  "rows_from prev n i xs = [] \<longleftrightarrow> xs = []"
  by (induction xs arbitrary: prev n) (auto simp: Let_def)

definition log_is :: "string \<Rightarrow> (string \<times> string \<times> jsval) list \<Rightarrow> audit_db \<Rightarrow> bool" where
  "log_is i xs db \<longleftrightarrow> db_events db = rows_from genesis_hash 1 i xs \<and> map cr_id (db_calls db) = [i]"

lemma append_next:
  assumes "log_is i xs db" "iso E t = Inr (iso_text 0)" "distinct (map fst (xs @ [(en_uuid E u, type, details)]))"
    "distinct (map er_hash (rows_from genesis_hash 1 i (xs @ [(en_uuid E u, type, details)])))"
  shows "\<exists>db'. appendEvent E u t i type details db = Inr db' \<and> log_is i (xs @ [(en_uuid E u, type, details)]) db'
     \<and> db_approvals db' = db_approvals db"
proof -
  have e: "db_events db = rows_from genesis_hash 1 i xs" and c: "set (map cr_id (db_calls db)) = {i}" "map cr_id (db_calls db) = [i]"
    using assms(1) by (simp_all add: log_is_def)
  have tail: "chain_tail (rows_from genesis_hash (Suc 0) i xs)
      = (if xs = [] then genesis_hash else er_hash (last (rows_from genesis_hash (Suc 0) i xs)))"
    by (simp add: chain_tail_def rows_from_simps)
  show ?thesis
    using assms(2-4) c
    by (simp add: appendEvent_def Let_def insert_event_def tail rows_from_snoc log_is_def e rows_from_simps image_iff
        flip: set_map)
qed


lemma rows_from_take: "rows_from prev n i (take k xs) = take k (rows_from prev n i xs)"
proof (induction xs arbitrary: prev n k)
  case (Cons x xs)
  then show ?case by (cases x; cases k) (auto simp: Let_def)
qed simp

definition fresh_log :: "string \<Rightarrow> (string \<times> string \<times> jsval) list \<Rightarrow> bool" where
  "fresh_log i L \<longleftrightarrow> distinct (map fst L) \<and> distinct (map er_hash (rows_from genesis_hash 1 i L))"

lemma append_nth:
  assumes "fresh_log i L" "log_is i (take k L) db" "k < length L" "L ! k = (en_uuid E u, type, details)" "iso E t = Inr (iso_text 0)"
  shows "\<exists>db'. appendEvent E u t i type details db = Inr db' \<and> log_is i (take (Suc k) L) db' \<and> db_approvals db' = db_approvals db"
proof -
  have s: "take (Suc k) L = take k L @ [(en_uuid E u, type, details)]" using assms(3,4) by (simp add: take_Suc_conv_app_nth)
  have "distinct (map fst (take (Suc k) L))" "distinct (map er_hash (rows_from genesis_hash 1 i (take (Suc k) L)))"
    using assms(1) by (auto simp: fresh_log_def rows_from_take take_map [symmetric] simp del: take_Suc_conv_app_nth)
  then show ?thesis unfolding s by (intro append_next [OF assms(2,5)])
qed

definition run_audit :: "nat \<Rightarrow> audit_env" where
  "run_audit k = demo_env\<lparr>en_uuid := run_id k\<rparr>"

lemma run_audit_simps [simp]: "en_commit (run_audit k)" "en_uuid (run_audit k) = run_id k" "en_tick (run_audit k) j = 0"
  "en_formats (run_audit k) = demo_formats" "iso (run_audit k) j = Inr (iso_text 0)"
  by (simp_all add: run_audit_def demo_env_def iso_def toISOString_def)

text \<open>The five events up to the start of the installation.\<close>

definition demo_log :: "(string \<times> string \<times> jsval) list" where
  "demo_log =
     [(run_id 0 1, ''decision_recorded'', evaluation_details (install_context (On_plan demo_p)) demo_evaluation demo_receipt_context),
      (run_id 1 0, ''approval_requested'', JObj [(''approvalId'', JStr demo_uuid), (''expiresAt'', JStr (iso_text 1000))]),
      (run_id 2 0, ''approval_approved'', JObj [(''approvalId'', JStr demo_uuid)]),
      (run_id 3 1, ''authorization_receipt_finalized'', receipt_details demo_receipt demo_digest),
      (run_id 3 2, ''execution_start_recorded'', digest_details demo_digest)]"

definition demo_begun :: "receipt_approval \<Rightarrow> call_state" where
  "demo_begun a = \<lparr>cs_id = run_id 0 0, cs_context = demo_receipt_context, cs_evaluation = demo_evaluation, cs_startedAt = 0,
     cs_terminal = False, cs_dispatched = False, cs_executionStartedAt = None, cs_authorization = None, cs_approval = a\<rparr>"

definition demo_pending :: receipt_approval where
  "demo_pending = \<lparr>ap_required = True, ap_outcome = Pending, ap_requestId = Some demo_uuid, ap_requestedAt = Some (iso_text 0),
     ap_decidedAt = None, ap_expiresAt = Some (iso_text 1000), ap_principal = Local_dashboard_session\<rparr>"

definition demo_approval_row :: approval_row where
  "demo_approval_row = \<lparr>al_id = demo_uuid, al_call = run_id 0 0, al_status = ''pending'', al_requestedAt = iso_text 0,
     al_expiresAt = iso_text 1000, al_decidedAt = None\<rparr>"

lemma log_is_status: "log_is i xs (map_call j (\<lambda>r. r\<lparr>cr_status := st\<rparr>) db) = log_is i xs db"
  by (simp add: log_is_def map_call_def o_def if_distrib cong: if_cong)

lemma run_begins:
  assumes "fresh_log (run_id 0 0) demo_log"
  shows "\<exists>db. begin_call (run_audit 0) (install_context (On_plan demo_p)) (install_decision install_policy_identity (On_plan demo_p) demo_ev) empty_db
      = (Inr (demo_begun (initial_approval Ask)), db) \<and> log_is (run_id 0 0) (take 1 demo_log) db \<and> db_approvals db = []"
proof -
  let ?d = "install_decision install_policy_identity (On_plan demo_p) demo_ev"
  let ?row = "call_record (run_id 0 0) (install_context (On_plan demo_p)) demo_evaluation (iso_text 0)"
  let ?db = "empty_db\<lparr>db_calls := [?row]\<rparr>"
  have r: "cr_id ?row = run_id 0 0" "cr_score ?row = ae_score demo_evaluation" by (simp_all add: call_record_def Let_def)
  have ins: "insert_call ?row empty_db = Inr ?db" using demo_evaluation_parts by (simp add: insert_call_def r) (simp add: empty_db_def)
  have l: "log_is (run_id 0 0) (take 0 demo_log) ?db" by (simp add: log_is_def r empty_db_def)
  obtain db' where a: "appendEvent (run_audit 0) 1 1 (run_id 0 0) ''decision_recorded''
      (evaluation_details (install_context (On_plan demo_p)) demo_evaluation demo_receipt_context) ?db = Inr db'"
    "log_is (run_id 0 0) (take (Suc 0) demo_log) db'" "db_approvals db' = []"
    using append_nth [OF assms l, where E = "run_audit 0" and u = 1 and t = 1] by (auto simp: demo_log_def empty_db_def)
  have c: "trustedReceiptContext (install_context (On_plan demo_p)) (ad_receipt ?d) = demo_receipt_context"
    by (simp add: install_decision_def trustedReceiptContext_def install_context_def trusted_identity_def demo_receipt_context_def)
  have n: "normalizeEvaluation ?d = demo_evaluation" "ad_action ?d = Ask"
    using demo_ev_eq by (simp_all add: demo_evaluation_def install_decision_def)
  have "begin_call (run_audit 0) (install_context (On_plan demo_p)) ?d empty_db = (Inr (demo_begun (initial_approval Ask)), db')"
    unfolding begin_call_def Let_def c n run_audit_simps
    using ins a(1) by (simp add: transaction_def demo_begun_def)
  with a(2,3) show ?thesis by auto
qed

lemma run_requests:
  assumes "fresh_log (run_id 0 0) demo_log" "log_is (run_id 0 0) (take 1 demo_log) db" "db_approvals db = []"
  shows "\<exists>db'. markApprovalRequested (run_audit 1) demo_uuid (iso_text 0) (iso_text 1000) (demo_begun a) db
      = (Inr (), demo_begun demo_pending, db') \<and> log_is (run_id 0 0) (take 2 demo_log) db' \<and> db_approvals db' = [demo_approval_row]"
proof -
  let ?db = "map_call (run_id 0 0) (\<lambda>r. r\<lparr>cr_status := ''approval_pending''\<rparr>) (db\<lparr>db_approvals := [demo_approval_row]\<rparr>)"
  have c: "map cr_id (db_calls db) = [run_id 0 0]" using assms(2) by (simp add: log_is_def)
  have ins: "insert_approval demo_approval_row db = Inr (db\<lparr>db_approvals := [demo_approval_row]\<rparr>)"
    using assms(3) c by (simp add: insert_approval_def demo_approval_row_def flip: set_map)
  have l: "log_is (run_id 0 0) (take 1 demo_log) ?db" using assms(2) unfolding log_is_status by (simp add: log_is_def)
  obtain db' where a: "appendEvent (run_audit 1) 0 0 (run_id 0 0) ''approval_requested''
      (JObj [(''approvalId'', JStr demo_uuid), (''expiresAt'', JStr (iso_text 1000))]) ?db = Inr db'"
    "log_is (run_id 0 0) (take (Suc 1) demo_log) db'" "db_approvals db' = [demo_approval_row]"
    using append_nth [OF assms(1) l, where E = "run_audit 1" and u = 0 and t = 0] by (auto simp: demo_log_def map_call_def)
  show ?thesis
    using ins a unfolding markApprovalRequested_def demo_approval_row_def
    by (simp add: demo_begun_def commit_as_def transaction_def updateStatus_def demo_pending_def numeral_2_eq_2)
qed


lemma run_resolves:
  assumes "fresh_log (run_id 0 0) demo_log" "log_is (run_id 0 0) (take 2 demo_log) db" "db_approvals db = [demo_approval_row]"
  shows "\<exists>db'. markApprovalResolved (run_audit 2) demo_uuid Approved (demo_begun demo_pending) db
      = (Inr (), demo_begun demo_approved, db') \<and> log_is (run_id 0 0) (take 3 demo_log) db'"
proof -
  let ?rows = "[demo_approval_row\<lparr>al_status := ''approved'', al_decidedAt := Some (iso_text 0)\<rparr>]"
  let ?db = "map_call (run_id 0 0) (\<lambda>r. r\<lparr>cr_status := ''approval_approved''\<rparr>) (db\<lparr>db_approvals := ?rows\<rparr>)"
  have res: "resolve_approval demo_uuid (run_id 0 0) ''approved'' (iso_text 0) db = Inr (db\<lparr>db_approvals := ?rows\<rparr>)"
    using assms(3) by (simp add: resolve_approval_def Let_def demo_approval_row_def)
  have l: "log_is (run_id 0 0) (take 2 demo_log) ?db" using assms(2) unfolding log_is_status by (simp add: log_is_def)
  obtain db' where a: "appendEvent (run_audit 2) 0 1 (run_id 0 0) ''approval_approved''
      (JObj [(''approvalId'', JStr demo_uuid)]) ?db = Inr db'" "log_is (run_id 0 0) (take (Suc 2) demo_log) db'"
    using append_nth [OF assms(1) l, where E = "run_audit 2" and u = 0 and t = 1] by (auto simp: demo_log_def)
  show ?thesis
    using res a unfolding markApprovalResolved_def approval_event_def
    by (simp add: demo_begun_def commit_as_def transaction_def updateStatus_def demo_pending_def demo_approved_def numeral_3_eq_3
        numeral_2_eq_2)
qed

lemma run_starts:
  assumes "fresh_log (run_id 0 0) demo_log" "log_is (run_id 0 0) (take 3 demo_log) db"
  shows "\<exists>s db'. markForwarding (run_audit 3) (demo_begun demo_approved) db = (Inr (), s, db')"
proof -
  let ?db = "map_call (run_id 0 0) (\<lambda>r. r\<lparr>cr_status := ''forwarding''\<rparr>) db"
  have l: "log_is (run_id 0 0) (take 3 demo_log) ?db" using assms(2) unfolding log_is_status .
  obtain db4 where a: "appendEvent (run_audit 3) 1 1 (run_id 0 0) ''authorization_receipt_finalized''
      (receipt_details demo_receipt demo_digest) ?db = Inr db4" "log_is (run_id 0 0) (take (Suc 3) demo_log) db4"
    using append_nth [OF assms(1) l, where E = "run_audit 3" and u = 1 and t = 1] by (auto simp: demo_log_def)
  obtain db5 where b: "appendEvent (run_audit 3) 2 2 (run_id 0 0) ''execution_start_recorded'' (digest_details demo_digest) db4 = Inr db5"
    using append_nth [OF assms(1) a(2), where E = "run_audit 3" and u = 2 and t = 2] by (auto simp: demo_log_def)
  have "buildAuthorization (run_audit 3) (demo_begun demo_approved) Authorized ''approval_approved'' (iso_text 0) = Inr (demo_receipt, demo_digest)"
    using run_receipt_issued by (simp add: buildAuthorization_def demo_begun_def demo_authorization_def)
  then have c: "buildAuthorization (run_audit 3) (demo_begun demo_approved) Authorized
      (if ap_outcome (cs_approval (demo_begun demo_approved)) = Approved then ''approval_approved'' else ''policy_allowed'') (iso_text 0)
        = Inr (demo_receipt, demo_digest)" by (simp add: demo_begun_def demo_approved_def)
  have st: "rc_boundary (cs_context (demo_begun demo_approved)) \<noteq> Graph_genesis_plan" "\<not> cs_terminal (demo_begun demo_approved)"
    "\<not> cs_dispatched (demo_begun demo_approved)" "ap_outcome (cs_approval (demo_begun demo_approved)) = Approved"
    "cs_id (demo_begun demo_approved) = run_id 0 0"
    by (simp_all add: demo_begun_def demo_receipt_context_eq demo_approved_def)
  show ?thesis
    unfolding markForwarding_def run_audit_simps rbind.simps c using st a(1) b
    by (simp add: commit_as_def transaction_def updateStatus_def)
qed


lemma execute_runs:
  assumes "apply_op Op_forwarding (ie_audit E 3) s (is_db S) = (Inr (), s', db')"
  shows "is_runs (snd (snd (execute_plan E p s S))) = is_runs S @ [p]"
proof -
  have "ia_post (ia_audited E k op s1 S1 (returned st)) (\<lambda>S'. is_runs S' = is_runs S1)" for k op s1 S1 st
    by (rule ia_audited_post) simp_all
  then show ?thesis
    using assms unfolding execute_plan_def ia_audited_def [of E 3]
    by (auto simp: ia_post_def returned_def Let_def split: option.split prod.split sum.split)
qed

lemma approving_env_simps: "ie_audit approving_env = run_audit" "ie_requestId approving_env = demo_uuid" "ie_now approving_env = 0"
  "ie_ttl approving_env = 1000" "ie_meanwhile approving_env = (\<lambda>_ db. db)" "\<not> ie_aborted approving_env"
  "ie_wait approving_env = (\<lambda>A. snd (decide demo_uuid O_approved 5 A))" "ie_resolution approving_env = Resolved demo_metadata"
  "ie_plan approving_env demo_install demo_metadata = Inr demo_p"
  by (simp_all add: approving_env_def demo_install_env_def run_audit_def fun_eq_iff demo_p_facts)

lemma run_approved:
  "\<exists>r A. request demo_uuid 0 inp 1000 new_service = (Inr r, A) \<and> ar_id r = demo_uuid \<and> ar_requestedAt r = iso_text 0
     \<and> ar_expiresAt r = iso_text 1000 \<and> map_of (as_outcomes (snd (decide demo_uuid O_approved 5 A))) demo_uuid = Some O_approved"
  using iso1000
  by (simp add: request_def requestHidden_def new_service_def toISOString_def max_time_def max_safe_def publish_def Let_def decide_def
      expired_at_def settle_def)

lemma run_runs:
  assumes "fresh_log (run_id 0 0) demo_log"
  shows "is_runs (snd (snd (run_install approving_env demo_install demo_install_state))) = [demo_p]"
proof -
  let ?E = approving_env and ?S = demo_install_state
  obtain db1 where b: "begin_call (run_audit 0) (install_context (On_plan demo_p)) (install_decision install_policy_identity (On_plan demo_p) demo_ev) empty_db
      = (Inr (demo_begun (initial_approval Ask)), db1)" "log_is (run_id 0 0) (take 1 demo_log) db1" "db_approvals db1 = []"
    using run_begins [OF assms] by blast
  obtain db2 where q: "markApprovalRequested (run_audit 1) demo_uuid (iso_text 0) (iso_text 1000) (demo_begun (initial_approval Ask)) db1
      = (Inr (), demo_begun demo_pending, db2)" "log_is (run_id 0 0) (take 2 demo_log) db2" "db_approvals db2 = [demo_approval_row]"
    using run_requests [OF assms b(2,3)] by blast
  obtain db3 where v: "markApprovalResolved (run_audit 2) demo_uuid Approved (demo_begun demo_pending) db2
      = (Inr (), demo_begun demo_approved, db3)" "log_is (run_id 0 0) (take 3 demo_log) db3"
    using run_resolves [OF assms q(2,3)] by blast
  obtain s db4 where f: "markForwarding (run_audit 3) (demo_begun demo_approved) db3 = (Inr (), s, db4)"
    using run_starts [OF assms v(2)] by blast
  obtain r A where a: "request demo_uuid 0 (install_approval_input demo_p demo_ev) 1000 new_service = (Inr r, A)" "ar_id r = demo_uuid"
    "ar_requestedAt r = iso_text 0" "ar_expiresAt r = iso_text 1000"
    "map_of (as_outcomes (snd (decide demo_uuid O_approved 5 A))) demo_uuid = Some O_approved"
    using run_approved by blast
  have i: "is_resolved (Resolved demo_metadata)" by (simp add: is_resolved_def)
  have ex: "is_runs (snd (snd (execute_plan ?E demo_p (demo_begun demo_approved) S))) = is_runs S @ [demo_p]" if "is_db S = db3" for S
    using f that by (intro execute_runs) (simp add: approving_env_simps)
  have "run_install ?E demo_install ?S = ia_begin ?E (On_plan demo_p) demo_ev ?S (\<lambda>s S1. approve_plan ?E demo_p demo_ev s S1)"
    using demo_ev_eq i by (simp add: run_install_def Let_def approving_env_simps demo_resolution demo_ev_def)
  also have "\<dots> = approve_plan ?E demo_p demo_ev (demo_begun (initial_approval Ask)) (?S\<lparr>is_db := db1\<rparr>)"
    using b(1) by (simp add: ia_begin_def approving_env_simps demo_install_state_def)
  finally have run: "run_install ?E demo_install ?S = approve_plan ?E demo_p demo_ev (demo_begun (initial_approval Ask)) (?S\<lparr>is_db := db1\<rparr>)" .
  show ?thesis
    unfolding run approve_plan_def
    using a q(1) v(1) ex
    by (simp add: approving_env_simps demo_install_state_def Let_def ia_audited_def)
qed

theorem install_runs_only_approved_witness:
  "(\<exists>r s S' receipt digest t e. run_install approving_env demo_install demo_install_state = (r, s, S') \<and> is_runs S' = [demo_p]
      \<and> map_of (as_outcomes (is_approvals S')) demo_uuid = Some O_approved \<and> e \<in> set (db_events (is_db S'))
      \<and> er_json e = canonicalJson (event_value (run_id 3 1) (run_id 0 0) ''authorization_receipt_finalized''
          (receipt_details receipt digest) t)
      \<and> at (at receipt ''authorization'') ''status'' = JStr ''authorized''
      \<and> at (at receipt ''action'') ''executionPlanHash'' = JStr (pl_hash demo_p))
   \<or> length (remdups (map er_hash (rows_from genesis_hash 1 (run_id 0 0) demo_log))) < 5"
proof (cases "fresh_log (run_id 0 0) demo_log")
  case True
  have e: "others_append approving_env" by (simp add: others_append_def approving_env_simps)
  obtain r s S' where h: "run_install approving_env demo_install demo_install_state = (r, s, S')" by (metis surj_pair)
  have runs: "is_runs S' = [demo_p]" using run_runs [OF True] h by simp
  from install_runs_only_approved [OF e h] show ?thesis
  proof (elim disjE exE conjE)
    assume "is_runs S' = is_runs demo_install_state"
    then show ?thesis using runs by (simp add: demo_install_state_def)
  next
    fix m p db es receipt digest e1 e2 t1 and c :: call_state
    assume w: "ie_plan approving_env demo_install m = Inr p" "ie_resolution approving_env = Resolved m"
      "map_of (as_outcomes (is_approvals S')) (ie_requestId approving_env) = Some O_approved"
      "cs_id c = en_uuid (ie_audit approving_env 0) 0" "db_events (is_db S') = db_events db @ [e1, e2] @ es"
      "er_json e1 = canonicalJson (event_value (en_uuid (ie_audit approving_env 3) 1) (cs_id c)
          ''authorization_receipt_finalized'' (receipt_details receipt digest) t1)"
      "at (at receipt ''authorization'') ''status'' = JStr ''authorized''"
      "at (at receipt ''action'') ''executionPlanHash'' = JStr (pl_hash p)"
    have "p = demo_p" "e1 \<in> set (db_events (is_db S'))" using w(1,2,5) by (auto simp: approving_env_simps)
    moreover have "er_json e1 = canonicalJson (event_value (run_id 3 1) (run_id 0 0) ''authorization_receipt_finalized''
          (receipt_details receipt digest) t1)" using w(4,6) by (simp add: approving_env_simps)
    moreover have "map_of (as_outcomes (is_approvals S')) demo_uuid = Some O_approved" using w(3) by (simp add: approving_env_simps)
    ultimately show ?thesis using h runs w(7,8) by blast
  qed
next
  case False
  let ?hs = "map er_hash (rows_from genesis_hash 1 (run_id 0 0) demo_log)"
  have "distinct (map fst demo_log)" by (simp add: demo_log_def run_id_def digit_char_def)
  with False have "remdups ?hs \<noteq> ?hs" using distinct_remdups [of ?hs] by (metis fresh_log_def)
  moreover have "length ?hs = 5" by (simp add: rows_from_simps) (simp add: demo_log_def)
  ultimately have "length (remdups ?hs) < 5" using length_remdups_leq [of ?hs] length_remdups_eq [of ?hs] by linarith
  then show ?thesis ..
qed

end
