(* ===== verification/Stage.thy ===== *)
theory Stage
  imports Schema Sha256 "HOL-Library.Sublist"
begin

section \<open>Package staging: errors, limits, paths and the state machine\<close>

text \<open>
  Models the shared part of src/stage: the error codes, the limits of a stage and the checks on
  text of profile.ts and types.ts, and the state machine of state-machine.ts.
\<close>

datatype stage_error =
  profile_unknown | profile_invalid | profile_digest_mismatch | profile_not_authenticated
  | plan_invalid | plan_not_authenticated | approval_invalid | approval_consumed
  | integrity_invalid | integrity_mismatch | artifact_too_large | artifact_cancelled
  | archive_invalid | archive_limit_exceeded | archive_worker_failed | archive_worker_timeout
  | archive_protocol_invalid | materialization_failed | stage_seal_invalid | tree_invalid
  | tree_changed | state_transition_invalid | stage_not_authenticated | stage_audit_incomplete
  | graph_lock_invalid | graph_metadata_invalid | graph_metadata_incomplete | metadata_expired
  | artifact_plan_invalid | artifact_file_invalid | artifact_cleanup_incomplete | manifest_invalid
  | manifest_mismatch | acceptance_incomplete

text \<open>\<open>if (!ok) throw new PackageStageError(e)\<close>.\<close>

definition guard :: "stage_error \<Rightarrow> bool \<Rightarrow> stage_error + unit" where
  "guard e ok = (if ok then Inr () else Inl e)"

lemma guard_Inr [simp]: "guard e ok = Inr u \<longleftrightarrow> ok"
  by (simp add: guard_def)

lemma guard_True [simp]: "guard e True = Inr ()"
  by (simp add: guard_def)

lemma guard_False [simp]: "guard e False = Inl e"
  by (simp add: guard_def)

subsection \<open>Limits\<close>

record stage_limits =
  sl_graphNodes :: nat
  sl_compressedArtifactBytes :: nat
  sl_totalCompressedBytes :: nat
  sl_uncompressedArtifactBytes :: nat
  sl_totalUncompressedBytes :: nat
  sl_regularFileBytes :: nat
  sl_archiveEntries :: nat
  sl_relativePathBytes :: nat
  sl_pathDepth :: nat

definition PACKAGE_STAGE_HARD_CEILINGS :: stage_limits where
  "PACKAGE_STAGE_HARD_CEILINGS =
     \<lparr>sl_graphNodes = 256, sl_compressedArtifactBytes = 50 * 1024 * 1024,
      sl_totalCompressedBytes = 512 * 1024 * 1024, sl_uncompressedArtifactBytes = 256 * 1024 * 1024,
      sl_totalUncompressedBytes = 1024 * 1024 * 1024, sl_regularFileBytes = 64 * 1024 * 1024,
      sl_archiveEntries = 100000, sl_relativePathBytes = 512, sl_pathDepth = 32\<rparr>"

text \<open>The limits as the object with these keys.\<close>

definition limit_entries :: "stage_limits \<Rightarrow> (string \<times> nat) list" where
  "limit_entries l =
     [(''graphNodes'', sl_graphNodes l), (''compressedArtifactBytes'', sl_compressedArtifactBytes l),
      (''totalCompressedBytes'', sl_totalCompressedBytes l),
      (''uncompressedArtifactBytes'', sl_uncompressedArtifactBytes l),
      (''totalUncompressedBytes'', sl_totalUncompressedBytes l), (''regularFileBytes'', sl_regularFileBytes l),
      (''archiveEntries'', sl_archiveEntries l), (''relativePathBytes'', sl_relativePathBytes l),
      (''pathDepth'', sl_pathDepth l)]"

definition limits_json :: "stage_limits \<Rightarrow> jsval" where
  "limits_json l = JObj (map (\<lambda>(k, n). (k, JInt (int n))) (limit_entries l))"

definition within_ceilings :: "stage_limits \<Rightarrow> bool" where
  "within_ceilings l \<longleftrightarrow>
     list_all2 (\<lambda>(k, n) (k', c). 0 < n \<and> n \<le> c) (limit_entries l) (limit_entries PACKAGE_STAGE_HARD_CEILINGS)"

definition limits_consistent :: "stage_limits \<Rightarrow> bool" where
  "limits_consistent l \<longleftrightarrow>
     sl_compressedArtifactBytes l \<le> sl_totalCompressedBytes l
     \<and> sl_uncompressedArtifactBytes l \<le> sl_totalUncompressedBytes l
     \<and> sl_regularFileBytes l \<le> sl_uncompressedArtifactBytes l"

definition isPositiveInteger :: "jsval \<Rightarrow> bool" where
  "isPositiveInteger v = (case v of JNum (NInt i) \<Rightarrow> 0 < i \<and> i \<le> max_safe | _ \<Rightarrow> False)"

definition nat_at :: "jsval \<Rightarrow> string \<Rightarrow> nat" where
  "nat_at v k = (case at v k of JNum (NInt i) \<Rightarrow> nat i | _ \<Rightarrow> 0)"

text \<open>\<open>assertRecord\<close> and \<open>assertExactKeys\<close>.\<close>

definition exact_keys :: "string list \<Rightarrow> jsval \<Rightarrow> bool" where
  "exact_keys ks v \<longleftrightarrow> is_obj v \<and> sort_text (keys_of v) = sort_text ks"

definition read_limits :: "jsval \<Rightarrow> stage_limits" where
  "read_limits v =
     \<lparr>sl_graphNodes = nat_at v ''graphNodes'', sl_compressedArtifactBytes = nat_at v ''compressedArtifactBytes'',
      sl_totalCompressedBytes = nat_at v ''totalCompressedBytes'',
      sl_uncompressedArtifactBytes = nat_at v ''uncompressedArtifactBytes'',
      sl_totalUncompressedBytes = nat_at v ''totalUncompressedBytes'',
      sl_regularFileBytes = nat_at v ''regularFileBytes'', sl_archiveEntries = nat_at v ''archiveEntries'',
      sl_relativePathBytes = nat_at v ''relativePathBytes'', sl_pathDepth = nat_at v ''pathDepth''\<rparr>"

definition normalizeLimits :: "jsval \<Rightarrow> stage_error + stage_limits" where
  "normalizeLimits v =
     (let l = read_limits v; keys = map fst (limit_entries PACKAGE_STAGE_HARD_CEILINGS) in
     rbind (guard profile_invalid (exact_keys keys v)) (\<lambda>_.
     rbind (guard profile_invalid (list_all (\<lambda>k. isPositiveInteger (at v k)) keys \<and> within_ceilings l)) (\<lambda>_.
     rbind (guard profile_invalid (limits_consistent l)) (\<lambda>_. Inr l))))"

text \<open>\<open>assertArchiveLimits\<close> of tar-archive-parser.ts.\<close>

definition assertArchiveLimits :: "stage_limits \<Rightarrow> stage_error + unit" where
  "assertArchiveLimits l = guard archive_limit_exceeded (within_ceilings l \<and> limits_consistent l)"

subsection \<open>Text\<close>

definition isSafeText :: "nat \<Rightarrow> string \<Rightarrow> bool" where
  "isSafeText n s \<longleftrightarrow> s \<noteq> [] \<and> length s \<le> n \<and> \<not> list_ex is_control s"

definition isScriptName :: "string \<Rightarrow> bool" where
  "isScriptName s \<longleftrightarrow> isSafeText 128 s \<and> CHR ''/'' \<notin> set s"

definition isStageIdentifier :: "string \<Rightarrow> bool" where
  "isStageIdentifier s \<longleftrightarrow> is_slug s \<and> length s \<le> 128"

definition isPackageName :: "string \<Rightarrow> bool" where
  "isPackageName s \<longleftrightarrow> length s \<le> 214 \<and> is_package_name s"

text \<open>The versions of a stage have no build metadata.\<close>

definition isExactVersion :: "string \<Rightarrow> bool" where
  "isExactVersion s =
     (Option.bind (version_core_rest s) (version_tail (CHR ''-'')) = Some [])"

subsection \<open>Portable relative paths\<close>

definition portable_text :: "stage_limits \<Rightarrow> string \<Rightarrow> bool" where
  "portable_text l path \<longleftrightarrow>
     path \<noteq> [] \<and> \<not> starts_with ''/'' path \<and> CHR 0x5C \<notin> set path \<and> CHR 0x00 \<notin> set path
     \<and> \<not> list_ex is_control path \<and> utf8_length path \<le> sl_relativePathBytes l"

definition plain_segment :: "string \<Rightarrow> bool" where
  "plain_segment s \<longleftrightarrow> s \<noteq> [] \<and> s \<noteq> ''.'' \<and> s \<noteq> ''..''"

definition validatePortableRelativePath :: "stage_limits \<Rightarrow> string \<Rightarrow> stage_error + string list" where
  "validatePortableRelativePath l path =
     (let segments = split_on (CHR ''/'') path in
     rbind (guard profile_invalid (portable_text l path)) (\<lambda>_.
     rbind (guard profile_invalid (length segments \<le> sl_pathDepth l \<and> list_all plain_segment segments)) (\<lambda>_.
     Inr segments)))"

text \<open>
  What such a path means below a directory: \<open>walk\<close> follows the segments from the stack of
  directories above a place, as the file system does without links.
\<close>

fun walk :: "string list \<Rightarrow> string list \<Rightarrow> string list" where
  "walk d [] = d"
| "walk d (s # ss) = walk (if s = '''' \<or> s = ''.'' then d else if s = ''..'' then tl d else s # d) ss"

lemma walk_plain: "list_all plain_segment ss \<Longrightarrow> walk d ss = List.rev ss @ d"
  by (induction ss arbitrary: d) (auto simp: plain_segment_def)

text \<open>A valid path stays below the directory it is used in, at the depth of its segments, and names what it spells.\<close>

lemma portable_path_stays_below:
  assumes "validatePortableRelativePath l path = Inr ss"
  shows "walk d (split_on (CHR ''/'') path) = List.rev ss @ d \<and> ss \<noteq> [] \<and> length ss \<le> sl_pathDepth l
    \<and> join_with ''/'' ss = path \<and> length path \<le> sl_relativePathBytes l"
proof -
  have "ss = split_on (CHR ''/'') path" "list_all plain_segment ss" "length ss \<le> sl_pathDepth l"
    "utf8_length path \<le> sl_relativePathBytes l"
    using assms by (auto simp: validatePortableRelativePath_def portable_text_def Let_def)
  then show ?thesis using walk_plain utf8_length_ge [of path] by (auto intro: le_trans)
qed

subsection \<open>The state machine\<close>

datatype stage_state =
  PROFILE_SELECTED | METADATA_CONFIRMING | PLAN_READY | STAGE_APPROVAL_PENDING | DOWNLOADING
  | ARTIFACTS_VERIFIED | PASS_A_RUNNING | ARCHIVES_PREFLIGHTED | PASS_B_RUNNING | MATERIALIZING
  | TREE_VERIFIED | READY_TO_COMMIT | SEALED_PENDING_AUDIT | READY | STARTUP_APPROVAL_PENDING
  | STARTING | ACTIVE | STOPPED | FAILED_QUARANTINE | INVALID | ACTIVE_UNKNOWN | TERMINATED_INCOMPLETE

fun NEXT_STATES :: "stage_state \<Rightarrow> stage_state list" where
  "NEXT_STATES PROFILE_SELECTED = [METADATA_CONFIRMING, FAILED_QUARANTINE]"
| "NEXT_STATES METADATA_CONFIRMING = [PLAN_READY, FAILED_QUARANTINE]"
| "NEXT_STATES PLAN_READY = [STAGE_APPROVAL_PENDING, FAILED_QUARANTINE]"
| "NEXT_STATES STAGE_APPROVAL_PENDING = [DOWNLOADING, FAILED_QUARANTINE]"
| "NEXT_STATES DOWNLOADING = [ARTIFACTS_VERIFIED, FAILED_QUARANTINE]"
| "NEXT_STATES ARTIFACTS_VERIFIED = [PASS_A_RUNNING, ARCHIVES_PREFLIGHTED, FAILED_QUARANTINE]"
| "NEXT_STATES PASS_A_RUNNING = [ARCHIVES_PREFLIGHTED, FAILED_QUARANTINE]"
| "NEXT_STATES ARCHIVES_PREFLIGHTED = [PASS_B_RUNNING, MATERIALIZING, FAILED_QUARANTINE]"
| "NEXT_STATES PASS_B_RUNNING = [MATERIALIZING, FAILED_QUARANTINE]"
| "NEXT_STATES MATERIALIZING = [TREE_VERIFIED, FAILED_QUARANTINE]"
| "NEXT_STATES TREE_VERIFIED = [READY_TO_COMMIT, FAILED_QUARANTINE]"
| "NEXT_STATES READY_TO_COMMIT = [SEALED_PENDING_AUDIT, READY, FAILED_QUARANTINE]"
| "NEXT_STATES SEALED_PENDING_AUDIT = [READY, FAILED_QUARANTINE]"
| "NEXT_STATES READY = [STARTUP_APPROVAL_PENDING, INVALID]"
| "NEXT_STATES STARTUP_APPROVAL_PENDING = [STARTING, INVALID]"
| "NEXT_STATES STARTING = [ACTIVE, TERMINATED_INCOMPLETE, INVALID]"
| "NEXT_STATES ACTIVE = [STOPPED, ACTIVE_UNKNOWN, TERMINATED_INCOMPLETE]"
| "NEXT_STATES STOPPED = []"
| "NEXT_STATES FAILED_QUARANTINE = []"
| "NEXT_STATES INVALID = []"
| "NEXT_STATES ACTIVE_UNKNOWN = [STOPPED, TERMINATED_INCOMPLETE]"
| "NEXT_STATES TERMINATED_INCOMPLETE = []"

definition transition :: "stage_state \<Rightarrow> stage_state \<Rightarrow> stage_error + stage_state" where
  "transition s next = (if next \<notin> set (NEXT_STATES s) then Inl state_transition_invalid else Inr next)"

text \<open>A use of the machine: the transitions requested of it, in order, until one throws.\<close>

definition stage_run :: "stage_state \<Rightarrow> stage_state list \<Rightarrow> stage_error + stage_state" where
  "stage_run s ts = foldM (\<lambda>next s. transition s next) ts s"

lemma stage_run_simps [simp]:
  "stage_run s [] = Inr s"
  "stage_run s (t # ts) = rbind (transition s t) (\<lambda>s'. stage_run s' ts)"
  by (simp_all add: stage_run_def)

lemma stage_run_append: "stage_run s (us @ ts) = rbind (stage_run s us) (\<lambda>s'. stage_run s' ts)"
proof (induction us arbitrary: s)
  case (Cons u us)
  then show ?case by (cases "transition s u") simp_all
qed simp

lemma transition_Inr [simp]: "transition s t = Inr s' \<longleftrightarrow> t \<in> set (NEXT_STATES s) \<and> s' = t"
  by (auto simp: transition_def)

text \<open>How far a stage has come: every transition goes on.\<close>

fun stage_rank :: "stage_state \<Rightarrow> nat" where
  "stage_rank PROFILE_SELECTED = 0"
| "stage_rank METADATA_CONFIRMING = 1"
| "stage_rank PLAN_READY = 2"
| "stage_rank STAGE_APPROVAL_PENDING = 3"
| "stage_rank DOWNLOADING = 4"
| "stage_rank ARTIFACTS_VERIFIED = 5"
| "stage_rank PASS_A_RUNNING = 6"
| "stage_rank ARCHIVES_PREFLIGHTED = 7"
| "stage_rank PASS_B_RUNNING = 8"
| "stage_rank MATERIALIZING = 9"
| "stage_rank TREE_VERIFIED = 10"
| "stage_rank READY_TO_COMMIT = 11"
| "stage_rank SEALED_PENDING_AUDIT = 12"
| "stage_rank READY = 13"
| "stage_rank STARTUP_APPROVAL_PENDING = 14"
| "stage_rank STARTING = 15"
| "stage_rank ACTIVE = 16"
| "stage_rank ACTIVE_UNKNOWN = 17"
| "stage_rank _ = 18"

lemma transition_rank: "t \<in> set (NEXT_STATES s) \<Longrightarrow> stage_rank s < stage_rank t"
  by (cases s) auto

lemma stage_rank_max: "stage_rank s \<le> 18"
  by (cases s) simp_all

lemma run_rank: "stage_run s ts = Inr s' \<Longrightarrow> stage_rank s + length ts \<le> stage_rank s'"
proof (induction ts arbitrary: s)
  case (Cons t ts)
  then have "t \<in> set (NEXT_STATES s)" "stage_rank t + length ts \<le> stage_rank s'" by auto
  with transition_rank [of t s] show ?case by simp
qed simp

text \<open>
  C18: a stage ends.  However the machine is driven, it makes at most eighteen transitions from
  its start, and where no transition is left the stage is stopped, quarantined, invalid or
  terminated.
\<close>

theorem stage_run_ends:
  assumes "stage_run PROFILE_SELECTED ts = Inr s"
  shows "length ts \<le> 18 \<and> (\<exists>us t. stage_run s us = Inr t \<and> NEXT_STATES t = []
    \<and> t \<in> {STOPPED, FAILED_QUARANTINE, INVALID, TERMINATED_INCOMPLETE})"
proof
  show "length ts \<le> 18" using run_rank [OF assms] stage_rank_max [of s] by simp
  consider "NEXT_STATES s = []" "s \<in> {STOPPED, FAILED_QUARANTINE, INVALID, TERMINATED_INCOMPLETE}"
    | t where "t \<in> set (NEXT_STATES s)" "t \<in> {STOPPED, FAILED_QUARANTINE, INVALID, TERMINATED_INCOMPLETE}"
    by (cases s) auto
  then show "\<exists>us t. stage_run s us = Inr t \<and> NEXT_STATES t = []
    \<and> t \<in> {STOPPED, FAILED_QUARANTINE, INVALID, TERMINATED_INCOMPLETE}"
  proof cases
    case 1
    then show ?thesis by (intro exI [of _ "[]"] exI [of _ s]) simp
  next
    case (2 t)
    then show ?thesis by (intro exI [of _ "[t]"] exI [of _ t]) (auto simp: transition_def)
  qed
qed

text \<open>The states every stage passes on its way, newest last.\<close>

definition milestones :: "stage_state list" where
  "milestones = [METADATA_CONFIRMING, PLAN_READY, STAGE_APPROVAL_PENDING, DOWNLOADING, ARTIFACTS_VERIFIED,
     ARCHIVES_PREFLIGHTED, MATERIALIZING, TREE_VERIFIED, READY_TO_COMMIT, READY, STARTUP_APPROVAL_PENDING,
     STARTING, ACTIVE]"

text \<open>A failure is possible before every milestone.\<close>

fun passed :: "stage_state \<Rightarrow> nat" where
  "passed PROFILE_SELECTED = 0"
| "passed METADATA_CONFIRMING = 1"
| "passed PLAN_READY = 2"
| "passed STAGE_APPROVAL_PENDING = 3"
| "passed DOWNLOADING = 4"
| "passed ARTIFACTS_VERIFIED = 5"
| "passed PASS_A_RUNNING = 5"
| "passed ARCHIVES_PREFLIGHTED = 6"
| "passed PASS_B_RUNNING = 6"
| "passed MATERIALIZING = 7"
| "passed TREE_VERIFIED = 8"
| "passed READY_TO_COMMIT = 9"
| "passed SEALED_PENDING_AUDIT = 9"
| "passed READY = 10"
| "passed STARTUP_APPROVAL_PENDING = 11"
| "passed STARTING = 12"
| "passed ACTIVE = 13"
| "passed ACTIVE_UNKNOWN = 13"
| "passed STOPPED = 13"
| "passed FAILED_QUARANTINE = 0"
| "passed INVALID = 10"
| "passed TERMINATED_INCOMPLETE = 12"

lemma milestone_next: "t \<in> set (NEXT_STATES s) \<Longrightarrow>
    passed t \<le> passed s \<or> passed t = passed s + 1 \<and> passed s < 13 \<and> milestones ! passed s = t"
  by (cases s) (auto simp: milestones_def)

lemma run_milestones: "stage_run PROFILE_SELECTED ts = Inr s \<Longrightarrow> subseq (take (passed s) milestones) ts"
proof (induction ts arbitrary: s rule: rev_induct)
  case (snoc t ts)
  then obtain u where u: "stage_run PROFILE_SELECTED ts = Inr u" "t \<in> set (NEXT_STATES u)" "s = t"
    by (auto simp: stage_run_append rbind_Inr_iff)
  have IH: "subseq (take (passed u) milestones) ts" by (rule snoc.IH [OF u(1)])
  show ?case
    using milestone_next [OF u(2)]
  proof
    assume le: "passed t \<le> passed u"
    then have "take (passed t) milestones = take (passed t) (take (passed u) milestones)" by simp
    then have "subseq (take (passed t) milestones) (take (passed u) milestones)"
      by (metis list_emb_append2 append_take_drop_id subseq_order.order_refl subseq_append_le_same_iff list_emb_prefix)
    with IH u(3) show ?thesis by (metis subseq_order.trans list_emb_append2 subseq_rev_drop_many list_emb_prefix)
  next
    assume n: "passed t = passed u + 1 \<and> passed u < 13 \<and> milestones ! passed u = t"
    have "length milestones = 13" by (simp add: milestones_def)
    with n have "take (passed t) milestones = take (passed u) milestones @ [t]" by (simp add: take_Suc_conv_app_nth)
    with IH u(3) show ?thesis by (simp add: list_emb_append_mono)
  qed
qed simp

text \<open>
  A stage gets nowhere without its approvals and its checks.  When the machine is active, it
  was asked, in this order, to confirm the metadata, to plan, to wait for the approval of the
  stage, to download, to verify the artifacts, to preflight the archives, to materialise, to
  verify the tree, to commit, and to wait for the approval of the start; and when it is ready,
  all of these up to the commit.
\<close>

theorem stage_passes_approvals:
  assumes "stage_run PROFILE_SELECTED ts = Inr s"
  shows "(s \<in> {ACTIVE, ACTIVE_UNKNOWN, STOPPED} \<longrightarrow> subseq milestones ts)
    \<and> (s = READY \<longrightarrow> subseq [METADATA_CONFIRMING, PLAN_READY, STAGE_APPROVAL_PENDING, DOWNLOADING, ARTIFACTS_VERIFIED,
         ARCHIVES_PREFLIGHTED, MATERIALIZING, TREE_VERIFIED, READY_TO_COMMIT, READY] ts)"
  using run_milestones [OF assms] by (auto simp: milestones_def)

theorem stage_run_ends_witness:
  "stage_run PROFILE_SELECTED [METADATA_CONFIRMING, FAILED_QUARANTINE] = Inr FAILED_QUARANTINE
    \<and> (\<exists>us t. stage_run FAILED_QUARANTINE us = Inr t \<and> NEXT_STATES t = [])"
proof -
  have "stage_run PROFILE_SELECTED [METADATA_CONFIRMING, FAILED_QUARANTINE] = Inr FAILED_QUARANTINE"
    by (simp add: transition_def)
  with stage_run_ends [OF this] show ?thesis by blast
qed

theorem stage_passes_approvals_witness:
  "stage_run PROFILE_SELECTED milestones = Inr ACTIVE \<and> subseq milestones milestones"
proof -
  have "stage_run PROFILE_SELECTED milestones = Inr ACTIVE" by (simp add: milestones_def transition_def)
  with stage_passes_approvals [OF this] show ?thesis by blast
qed

end
