(* ===== verification/Graph.thy ===== *)
theory Graph
  imports JsText
begin

section \<open>Directed graphs\<close>

text \<open>
  The searches that src/stage runs over package graphs: the depth-first search for cycles
  (profile.ts, \<open>validateGraph\<close>, and peer-dependency-semantics.ts, \<open>assertOrdinaryDag\<close>) and the
  collection of everything reachable.  A graph lists its nodes, install paths, with their successors.
\<close>

type_synonym graph = "(string \<times> string list) list"

definition graph_nodes :: "graph \<Rightarrow> string set" where
  "graph_nodes g = fst ` set g"

definition targets :: "graph \<Rightarrow> string \<Rightarrow> string list" where
  "targets g p = (case map_of g p of None \<Rightarrow> [] | Some ts \<Rightarrow> ts)"

definition graph_edges :: "graph \<Rightarrow> (string \<times> string) set" where
  "graph_edges g = {(p, q). \<exists>ts. map_of g p = Some ts \<and> q \<in> set ts}"

lemma graph_edges_targets: "graph_edges g `` {p} = set (targets g p)"
  by (cases "map_of g p") (auto simp: graph_edges_def targets_def)

lemma graph_node_None: "map_of g p = None \<longleftrightarrow> p \<notin> graph_nodes g"
  by (simp add: graph_nodes_def map_of_eq_None_iff)

lemma graph_node_Some: "map_of g p = Some ts \<Longrightarrow> p \<in> graph_nodes g"
  using graph_node_None [of g p] by simp

lemma finite_graph_nodes [simp]: "finite (graph_nodes g)"
  by (simp add: graph_nodes_def)

subsection \<open>The depth-first search\<close>

definition unvisited :: "graph \<Rightarrow> string list \<Rightarrow> nat" where
  "unvisited g visiting = card (graph_nodes g - set visiting)"

lemma unvisited_less:
  assumes "p \<in> graph_nodes g" "p \<notin> set visiting"
  shows "unvisited g (p # visiting) < unvisited g visiting"
  unfolding unvisited_def using assms by (intro psubset_card_mono) auto

text \<open>
  The nodes being visited and those visited as lists; \<open>None\<close> when a node being visited is met
  again, or one the graph does not have.  The recursion ends because the nodes being visited are
  different nodes of the graph.
\<close>

function dfs :: "graph \<Rightarrow> string list \<Rightarrow> string list \<Rightarrow> string \<Rightarrow> string list option"
  and dfs_all :: "graph \<Rightarrow> string list \<Rightarrow> string list \<Rightarrow> string list \<Rightarrow> string list option" where
  "dfs g visiting visited p =
     (if p \<in> set visiting then None
      else if p \<in> set visited then Some visited
      else case map_of g p of
        None \<Rightarrow> None
      | Some ts \<Rightarrow> map_option (List.insert p) (dfs_all g (p # visiting) visited ts))"
| "dfs_all g visiting visited [] = Some visited"
| "dfs_all g visiting visited (p # ps) =
     (case dfs g visiting visited p of None \<Rightarrow> None | Some visited' \<Rightarrow> dfs_all g visiting visited' ps)"
  by pat_completeness auto
termination
  by (relation "measures [
      \<lambda>x. case x of Inl (g, visiting, _, _) \<Rightarrow> unvisited g visiting | Inr (g, visiting, _, _) \<Rightarrow> unvisited g visiting,
      \<lambda>x. case x of Inl _ \<Rightarrow> 0 | Inr (_, _, _, ps) \<Rightarrow> Suc (length ps)]")
     (auto intro!: unvisited_less dest: graph_node_Some)

declare dfs.simps [simp del]

text \<open>A set of visited paths is settled: closed under edges, without a cycle.\<close>

definition settled :: "graph \<Rightarrow> string set \<Rightarrow> bool" where
  "settled g V \<longleftrightarrow> graph_edges g `` V \<subseteq> V \<and> (\<forall>x \<in> V. (x, x) \<notin> (graph_edges g)\<^sup>+)"

text \<open>What a visit that returns has done.\<close>

definition dfs_effect :: "graph \<Rightarrow> string list \<Rightarrow> string list \<Rightarrow> string set \<Rightarrow> string list \<Rightarrow> bool" where
  "dfs_effect g visiting V ps V' \<longleftrightarrow> settled g (set V') \<and> set V \<subseteq> set V' \<and> ps \<subseteq> set V'
     \<and> set V' \<subseteq> set V \<union> (graph_edges g)\<^sup>* `` ps \<and> set V' \<inter> set visiting \<subseteq> set V
     \<and> set V' \<subseteq> set V \<union> graph_nodes g \<and> (distinct V \<longrightarrow> distinct V')"

lemma closed_trancl: "(x, y) \<in> R\<^sup>+ \<Longrightarrow> R `` V \<subseteq> V \<Longrightarrow> x \<in> V \<Longrightarrow> y \<in> V"
  by (induction rule: trancl_induct) auto

lemma settled_insert:
  assumes s: "settled g V" and e: "graph_edges g `` {p} \<subseteq> V" and p: "p \<notin> V"
  shows "settled g (insert p V)"
proof -
  let ?R = "graph_edges g"
  have c: "?R `` V \<subseteq> V" using s by (simp add: settled_def)
  have "(p, p) \<notin> ?R\<^sup>+"
  proof
    assume "(p, p) \<in> ?R\<^sup>+"
    then obtain q where q: "(p, q) \<in> ?R" "q = p \<or> (q, p) \<in> ?R\<^sup>+" by (meson tranclD rtranclD)
    with e have "q \<in> V" by blast
    with q closed_trancl [OF _ c] p show False by blast
  qed
  with s e show ?thesis by (auto simp: settled_def)
qed

lemma dfs_sound:
  "dfs g visiting V p = Some V' \<Longrightarrow> settled g (set V) \<Longrightarrow> dfs_effect g visiting V {p} V'"
  "dfs_all g visiting V ps = Some V' \<Longrightarrow> settled g (set V) \<Longrightarrow> dfs_effect g visiting V (set ps) V'"
proof (induction g visiting V p and g visiting V ps arbitrary: V' and V' rule: dfs_dfs_all.induct)
  case (1 g visiting V p)
  let ?R = "graph_edges g"
  show ?case
  proof (cases "p \<in> set V")
    case True
    with "1.prems" show ?thesis by (auto simp: dfs.simps [of g] dfs_effect_def split: if_splits)
  next
    case False
    from "1.prems"(1) False obtain n W where n: "p \<notin> set visiting" "map_of g p = Some n"
      "dfs_all g (p # visiting) V n = Some W" "V' = List.insert p W"
      by (auto simp: dfs.simps [of g visiting V p] split: if_splits option.splits)
    from "1.IH" [OF n(1) False n(2) n(3) "1.prems"(2)]
    have W: "settled g (set W)" "set V \<subseteq> set W" "set n \<subseteq> set W"
      "set W \<subseteq> set V \<union> ?R\<^sup>* `` set n"
      "set W \<inter> set (p # visiting) \<subseteq> set V" "set W \<subseteq> set V \<union> graph_nodes g" "distinct V \<longrightarrow> distinct W"
      by (auto simp: dfs_effect_def)
    have e: "?R `` {p} = set n" using n(2) by (auto simp: graph_edges_def)
    have "p \<notin> set W" using W(5) False by auto
    with W(1,3) e have s: "settled g (set V')" using settled_insert n(4) by simp
    have "?R\<^sup>* `` set n \<subseteq> ?R\<^sup>* `` {p}"
      unfolding e [symmetric] by (auto intro: converse_rtrancl_into_rtrancl)
    moreover have "set V' = insert p (set W)" using n(4) by simp
    moreover have "set W \<subseteq> set V \<union> ?R\<^sup>* `` {p}" using W(4) calculation(1) by (meson Un_mono order_refl order_trans)
    ultimately have "set V' \<subseteq> set V \<union> ?R\<^sup>* `` {p}" by auto
    moreover have "p \<in> graph_nodes g" using n(2) by (rule graph_node_Some)
    ultimately show ?thesis
      unfolding dfs_effect_def using s W n by auto
  qed
next
  case (2 g visiting V)
  then show ?case by (simp add: dfs_effect_def)
next
  case (3 g visiting V p ps)
  from "3.prems"(1) obtain W where W: "dfs g visiting V p = Some W" "dfs_all g visiting W ps = Some V'"
    by (auto split: option.splits)
  have a: "dfs_effect g visiting V {p} W" by (rule "3.IH"(1) [OF W(1) "3.prems"(2)])
  then have "settled g (set W)" by (simp add: dfs_effect_def)
  from "3.IH"(2) [OF W(1) W(2) this] have c: "dfs_effect g visiting W (set ps) V'" .
  have e: "(graph_edges g)\<^sup>* `` set (p # ps) = (graph_edges g)\<^sup>* `` {p} \<union> (graph_edges g)\<^sup>* `` set ps" by auto
  have chain: "B \<subseteq> U \<union> S \<Longrightarrow> A \<subseteq> B \<union> T \<Longrightarrow> A \<subseteq> U \<union> (S \<union> T)" for A B U S T :: "string set" by blast
  have A: "set V \<subseteq> set W" "p \<in> set W" "set W \<subseteq> set V \<union> (graph_edges g)\<^sup>* `` {p}"
    "set W \<inter> set visiting \<subseteq> set V" "set W \<subseteq> set V \<union> graph_nodes g" "distinct V \<longrightarrow> distinct W"
    using a by (simp_all add: dfs_effect_def)
  have C: "settled g (set V')" "set W \<subseteq> set V'" "set ps \<subseteq> set V'"
    "set V' \<subseteq> set W \<union> (graph_edges g)\<^sup>* `` set ps" "set V' \<inter> set visiting \<subseteq> set W"
    "set V' \<subseteq> set W \<union> graph_nodes g" "distinct W \<longrightarrow> distinct V'"
    using c by (simp_all add: dfs_effect_def)
  show ?case
    unfolding dfs_effect_def
  proof (intro conjI)
    show "set V' \<subseteq> set V \<union> (graph_edges g)\<^sup>* `` set (p # ps)" unfolding e by (rule chain [OF A(3) C(4)])
    show "set V' \<inter> set visiting \<subseteq> set V" using A(4) C(5) by blast
    show "set V' \<subseteq> set V \<union> graph_nodes g" using A(5) C(6) by blast
    show "set (p # ps) \<subseteq> set V'" using A(2) C(2,3) by auto
  qed (use A C in auto)
qed

lemma dfs_complete:
  "acyclic (graph_edges g) \<Longrightarrow> (graph_edges g)\<^sup>* `` {p} \<subseteq> graph_nodes g - set visiting
    \<Longrightarrow> \<exists>V'. dfs g visiting V p = Some V'"
  "acyclic (graph_edges g) \<Longrightarrow> (graph_edges g)\<^sup>* `` set ps \<subseteq> graph_nodes g - set visiting
    \<Longrightarrow> \<exists>V'. dfs_all g visiting V ps = Some V'"
proof (induction g visiting V p and g visiting V ps rule: dfs_dfs_all.induct)
  case (1 g visiting V p)
  let ?R = "graph_edges g"
  have p: "p \<notin> set visiting" "p \<in> graph_nodes g" using "1.prems"(2) by auto
  then obtain n where n: "map_of g p = Some n" using graph_node_None by (cases "map_of g p") auto
  show ?case
  proof (cases "p \<in> set V")
    case True
    with p show ?thesis by (simp add: dfs.simps [of g visiting V p])
  next
    case False
    have e: "?R `` {p} = set n" using n by (auto simp: graph_edges_def)
    have "?R\<^sup>* `` set n \<subseteq> graph_nodes g - set (p # visiting)"
    proof
      fix y assume "y \<in> ?R\<^sup>* `` set n"
      then obtain x where x: "(p, x) \<in> ?R" "(x, y) \<in> ?R\<^sup>*" unfolding e [symmetric] by blast
      then have "(p, y) \<in> ?R\<^sup>+" by (rule rtrancl_into_trancl2)
      then have "y \<noteq> p" using "1.prems"(1) by (auto simp: acyclic_def)
      with \<open>(p, y) \<in> ?R\<^sup>+\<close> "1.prems"(2) show "y \<in> graph_nodes g - set (p # visiting)"
        by (auto dest: trancl_into_rtrancl)
    qed
    from "1.IH" [OF p(1) False n "1.prems"(1) this] p False n show ?thesis
      by (auto simp: dfs.simps [of g visiting V p])
  qed
next
  case (3 g visiting V p ps)
  have "(graph_edges g)\<^sup>* `` {p} \<subseteq> graph_nodes g - set visiting"
    "(graph_edges g)\<^sup>* `` set ps \<subseteq> graph_nodes g - set visiting"
    using "3.prems"(2) by auto
  with "3.IH" "3.prems"(1) show ?case by (auto split: option.splits)
qed simp

text \<open>The search from the top accepts the graphs without a cycle in which the top reaches every node.\<close>

lemma search_spec:
  assumes "graph_edges g `` UNIV \<subseteq> graph_nodes g" "tp \<in> graph_nodes g" "distinct (map fst g)"
  shows "(\<exists>V. dfs g [] [] tp = Some V \<and> length V = length g)
     \<longleftrightarrow> acyclic (graph_edges g) \<and> graph_nodes g \<subseteq> (graph_edges g)\<^sup>* `` {tp}"
    (is "?L \<longleftrightarrow> ?A \<and> ?C")
proof
  let ?R = "graph_edges g"
  have n: "card (graph_nodes g) = length g" "finite (graph_nodes g)"
    using assms(3) distinct_card [of "map fst g"] by (auto simp: graph_nodes_def)
  have s0: "settled g (set [])" by (simp add: settled_def)
  {
    assume ?L
    then obtain V where V: "dfs g [] [] tp = Some V" "length V = length g" by blast
    from dfs_sound(1) [OF V(1) s0]
    have e: "settled g (set V)" "set V \<subseteq> ?R\<^sup>* `` {tp}" "set V \<subseteq> graph_nodes g" "distinct V"
      by (auto simp: dfs_effect_def)
    have all: "set V = graph_nodes g"
      using e(3,4) V(2) n distinct_card [of V] by (intro card_subset_eq) auto
    have "x \<in> graph_nodes g" if "(x, x) \<in> ?R\<^sup>+" for x
      using that assms(1) by (meson Image_iff UNIV_I subsetD tranclD2)
    with all e(1) have ?A by (auto simp: acyclic_def settled_def)
    with all e(2) show "?A \<and> ?C" by blast
  }
  assume r: "?A \<and> ?C"
  have "?R\<^sup>* `` {tp} \<subseteq> graph_nodes g"
  proof
    fix y assume "y \<in> ?R\<^sup>* `` {tp}"
    then have "(tp, y) \<in> ?R\<^sup>*" by blast
    then show "y \<in> graph_nodes g" using assms(1,2) by (cases rule: rtranclE) auto
  qed
  then obtain V where V: "dfs g [] [] tp = Some V" using dfs_complete(1) [of g tp "[]" "[]"] r by auto
  from dfs_sound(1) [OF V s0]
  have e: "settled g (set V)" "tp \<in> set V" "set V \<subseteq> graph_nodes g" "distinct V"
    by (auto simp: dfs_effect_def)
  have "?R\<^sup>* `` {tp} \<subseteq> set V"
    using e(1,2) by (auto simp: settled_def) (metis Image_closed_trancl Image_singleton_iff rev_ImageI)
  with r e(3) have "set V = graph_nodes g" by blast
  with e(4) n V show ?L using distinct_card [of V] by auto
qed

subsection \<open>Everything reachable\<close>

text \<open>The nodes reachable from the pending ones are added to those seen; the pending ones are a stack.\<close>

lemma fresh_less:
  "p \<notin> set seen \<Longrightarrow> unvisited g (seen @ [p]) < unvisited g seen \<or> unvisited g (seen @ [p]) = unvisited g seen \<and> targets g p = []"
proof (cases "p \<in> graph_nodes g")
  case True
  moreover assume "p \<notin> set seen"
  ultimately show ?thesis using unvisited_less [of p g seen] by (simp add: unvisited_def)
next
  case False
  then have "targets g p = []" "graph_nodes g - insert p (set seen) = graph_nodes g - set seen"
    using graph_node_None [of g p] by (auto simp: targets_def)
  then show ?thesis by (simp add: unvisited_def)
qed

function collect :: "graph \<Rightarrow> string list \<Rightarrow> string list \<Rightarrow> string list" where
  "collect g seen [] = seen"
| "collect g seen (p # ps) =
     (if p \<in> set seen then collect g seen ps else collect g (seen @ [p]) (targets g p @ ps))"
  by pat_completeness auto
termination
  by (relation "measures [\<lambda>(g, seen, _). unvisited g seen, \<lambda>(_, _, ps). length ps]") (auto dest: fresh_less)

text \<open>The same with a queue that is kept sorted.\<close>

function closure :: "graph \<Rightarrow> string list \<Rightarrow> string list \<Rightarrow> string list" where
  "closure g seen [] = seen"
| "closure g seen (p # ps) =
     (if p \<in> set seen then closure g seen ps
      else closure g (seen @ [p]) (sort_text (ps @ filter (\<lambda>q. q \<notin> set (seen @ [p])) (targets g p))))"
  by pat_completeness auto
termination
  by (relation "measures [\<lambda>(g, seen, _). unvisited g seen, \<lambda>(_, _, ps). length ps]")
     (auto dest: fresh_less simp: sort_text_def)

text \<open>
  What a search keeps: the successors of what it has seen are seen or pending.  Then what it will
  have seen in the end is what is reachable from both.
\<close>

definition search_ok :: "graph \<Rightarrow> string set \<Rightarrow> string set \<Rightarrow> bool" where
  "search_ok g seen pending \<longleftrightarrow> graph_edges g `` seen \<subseteq> seen \<union> pending"

lemma reach_closed: "search_ok g S {} \<Longrightarrow> (graph_edges g)\<^sup>* `` S = S"
  unfolding search_ok_def by (simp add: Image_closed_trancl)

lemma search_ok_insert: "p \<in> S \<Longrightarrow> search_ok g S (insert p P) = search_ok g S P"
  by (auto simp: search_ok_def)

lemma reach_absorb: "A \<subseteq> B \<Longrightarrow> B \<subseteq> R\<^sup>* `` A \<Longrightarrow> R\<^sup>* `` A = R\<^sup>* `` B"
  by (auto intro: rtrancl_trans) (meson ImageE rtrancl_trans subsetD rev_ImageI)

lemma search_step:
  assumes "search_ok g S (insert p P)" "graph_edges g `` {p} \<subseteq> insert p S \<union> Q" "P \<subseteq> insert p S \<union> Q"
    "Q \<subseteq> P \<union> graph_edges g `` {p}"
  shows "search_ok g (insert p S) Q"
    "(graph_edges g)\<^sup>* `` (insert p S \<union> Q) = (graph_edges g)\<^sup>* `` (S \<union> insert p P)"
proof -
  show "search_ok g (insert p S) Q" using assms(1-3) unfolding search_ok_def by blast
  have "graph_edges g `` {p} \<subseteq> (graph_edges g)\<^sup>* `` (S \<union> insert p P)" by blast
  then have "insert p S \<union> Q \<union> (S \<union> insert p P) \<subseteq> (graph_edges g)\<^sup>* `` (S \<union> insert p P)" using assms(4) by blast
  moreover have "insert p S \<union> Q \<union> (S \<union> insert p P) \<subseteq> (graph_edges g)\<^sup>* `` (insert p S \<union> Q)" using assms(3) by blast
  ultimately show "(graph_edges g)\<^sup>* `` (insert p S \<union> Q) = (graph_edges g)\<^sup>* `` (S \<union> insert p P)"
    using reach_absorb [of "insert p S \<union> Q" "insert p S \<union> Q \<union> (S \<union> insert p P)" "graph_edges g"]
      reach_absorb [of "S \<union> insert p P" "insert p S \<union> Q \<union> (S \<union> insert p P)" "graph_edges g"] by blast
qed

lemma collect_spec:
  "search_ok g (set seen) (set ps) \<Longrightarrow> set (collect g seen ps) = (graph_edges g)\<^sup>* `` (set seen \<union> set ps)"
proof (induction g seen ps rule: collect.induct)
  case (2 g seen p ps)
  show ?case
  proof (cases "p \<in> set seen")
    case True
    with 2 show ?thesis by (simp add: insert_absorb search_ok_insert)
  next
    case False
    have "search_ok g (set seen) (insert p (set ps))" using 2(3) by simp
    from search_step [OF this, of "set (targets g p @ ps)"] 2(2) [OF False] False show ?thesis
      by (auto simp: graph_edges_targets)
  qed
qed (simp add: reach_closed)

lemma closure_spec:
  "search_ok g (set seen) (set ps) \<Longrightarrow> set (closure g seen ps) = (graph_edges g)\<^sup>* `` (set seen \<union> set ps)"
proof (induction g seen ps rule: closure.induct)
  case (2 g seen p ps)
  show ?case
  proof (cases "p \<in> set seen")
    case True
    with 2 show ?thesis by (simp add: insert_absorb search_ok_insert)
  next
    case False
    have "search_ok g (set seen) (insert p (set ps))" using 2(3) by simp
    from search_step [OF this, of "set (ps @ filter (\<lambda>q. q \<notin> set (seen @ [p])) (targets g p))"] 2(2) [OF False] False show ?thesis
      by (auto simp: graph_edges_targets)
  qed
qed (simp add: reach_closed)

lemma collect_extends: "\<exists>new. collect g seen ps = seen @ new"
  by (induction g seen ps rule: collect.induct) auto

lemma distinct_collect: "distinct seen \<Longrightarrow> distinct (collect g seen ps)"
  by (induction g seen ps rule: collect.induct) auto

lemma distinct_closure: "distinct seen \<Longrightarrow> distinct (closure g seen ps)"
  by (induction g seen ps rule: closure.induct) auto

end
