(* ===== verification/StageProfile.thy ===== *)
theory StageProfile
  imports Stage Base64 Url Graph
begin

section \<open>Package staging: graph profiles\<close>

text \<open>
  Models src/stage/profile.ts: what a definition of a package graph must be to be registered, its
  normal form and digest, the check of the graph, and the authority that registers profiles.

  A definition is untrusted data, a \<open>jsval\<close>.  The URL parser is a parameter; \<open>new URL\<close> takes
  any value, so the parser is applied to a \<open>jsval\<close>.  An object is a pair of an address and a
  value: the \<open>WeakSet\<close> of an authority holds addresses, so that a copy is told from the original.
\<close>

type_synonym value_url_parser = "jsval \<Rightarrow> url option"

type_synonym 'a object = "nat \<times> 'a"

subsection \<open>Profiles\<close>

record dependency_edge =
  de_packageName :: string
  de_installPath :: string
  de_declaredSpecifier :: string

record graph_node =
  gn_installPath :: string
  gn_packageName :: string
  gn_exactVersion :: string
  gn_tarballUrl :: jsval
  gn_sha512Integrity :: string
  gn_edges :: "dependency_edge list"
  gn_scripts :: "string list"

record graph_profile =
  gp_profileId :: string
  gp_profileVersion :: int
  gp_topName :: string
  gp_topVersion :: string
  gp_entrypoint :: string
  gp_registryOrigin :: string
  gp_os :: string
  gp_architecture :: string
  gp_nodeMajor :: int
  gp_npmVersion :: string
  gp_nodes :: "graph_node list"
  gp_materializationRules :: int
  gp_archiveRules :: int
  gp_limits :: stage_limits

subsection \<open>Reading a definition\<close>

text \<open>A property that must be a string with a certain shape.\<close>

definition text_at :: "(string \<Rightarrow> bool) \<Rightarrow> jsval \<Rightarrow> string \<Rightarrow> stage_error + string" where
  "text_at ok v k = (case at v k of JStr s \<Rightarrow> if ok s then Inr s else Inl profile_invalid | _ \<Rightarrow> Inl profile_invalid)"

definition positive_at :: "jsval \<Rightarrow> string \<Rightarrow> stage_error + int" where
  "positive_at v k = (case at v k of
     JNum (NInt i) \<Rightarrow> if 0 < i \<and> i \<le> max_safe then Inr i else Inl profile_invalid | _ \<Rightarrow> Inl profile_invalid)"

definition array_at :: "jsval \<Rightarrow> string \<Rightarrow> stage_error + jsval list" where
  "array_at v k = (case at v k of JArr xs \<Rightarrow> Inr xs | _ \<Rightarrow> Inl profile_invalid)"

definition path_at :: "stage_limits \<Rightarrow> jsval \<Rightarrow> string \<Rightarrow> stage_error + string" where
  "path_at l v k = rbind (text_at (\<lambda>_. True) v k) (\<lambda>p. rbind (validatePortableRelativePath l p) (\<lambda>_. Inr p))"

definition normalizeRegistryOrigin :: "value_url_parser \<Rightarrow> jsval \<Rightarrow> stage_error + string" where
  "normalizeRegistryOrigin parse v =
     (case parse v of
        None \<Rightarrow> Inl profile_invalid
      | Some u \<Rightarrow> if is_plain_https u \<and> ur_pathname u = ''/'' then Inr (ur_origin u @ ''/'') else Inl profile_invalid)"

text \<open>\<open>new URL(registryOrigin)\<close> throws a \<open>TypeError\<close> when it does not parse; that is no profile either.\<close>

definition validateTarballUrl :: "value_url_parser \<Rightarrow> string \<Rightarrow> jsval \<Rightarrow> stage_error + unit" where
  "validateTarballUrl parse registryOrigin v =
     (case parse v of
        None \<Rightarrow> Inl profile_invalid
      | Some u \<Rightarrow> guard profile_invalid
          (is_plain_https u \<and> map_option ur_origin (parse (JStr registryOrigin)) = Some (ur_origin u)
           \<and> ends_with ''.tgz'' (ur_pathname u)))"

definition normalizeEdge :: "stage_limits \<Rightarrow> jsval \<Rightarrow> stage_error + dependency_edge" where
  "normalizeEdge l v =
     rbind (guard profile_invalid (exact_keys [''packageName'', ''installPath'', ''declaredSpecifier''] v)) (\<lambda>_.
     rbind (path_at l v ''installPath'') (\<lambda>p.
     rbind (text_at isPackageName v ''packageName'') (\<lambda>n.
     rbind (text_at (isSafeText 256) v ''declaredSpecifier'') (\<lambda>s.
     Inr \<lparr>de_packageName = n, de_installPath = p, de_declaredSpecifier = s\<rparr>))))"

definition script_name :: "jsval \<Rightarrow> stage_error + string" where
  "script_name v = (case v of JStr s \<Rightarrow> if isScriptName s then Inr s else Inl profile_invalid | _ \<Rightarrow> Inl profile_invalid)"

definition edge_lt :: "dependency_edge \<Rightarrow> dependency_edge \<Rightarrow> bool" where
  "edge_lt a b = text_lt (de_packageName a) (de_packageName b)"

definition node_lt :: "graph_node \<Rightarrow> graph_node \<Rightarrow> bool" where
  "node_lt a b = text_lt (gn_installPath a) (gn_installPath b)"

definition node_keys :: "string list" where
  "node_keys = [''installPath'', ''packageName'', ''exactVersion'', ''tarballUrl'', ''sha512Integrity'',
     ''dependencyEdges'', ''expectedLifecycleScriptNames'']"

definition normalizeNode :: "value_url_parser \<Rightarrow> string \<Rightarrow> stage_limits \<Rightarrow> jsval \<Rightarrow> stage_error + graph_node" where
  "normalizeNode parse origin l v =
     rbind (guard profile_invalid (exact_keys node_keys v)) (\<lambda>_.
     rbind (path_at l v ''installPath'') (\<lambda>path.
     rbind (guard profile_invalid (starts_with ''node_modules/'' path)) (\<lambda>_.
     rbind (text_at isPackageName v ''packageName'') (\<lambda>name.
     rbind (text_at isExactVersion v ''exactVersion'') (\<lambda>version.
     rbind (validateTarballUrl parse origin (at v ''tarballUrl'')) (\<lambda>_.
     rbind (case at v ''sha512Integrity'' of
              JStr s \<Rightarrow> if parseSha512Integrity s = None then Inl integrity_invalid else Inr s
            | _ \<Rightarrow> Inl integrity_invalid) (\<lambda>integrity.
     rbind (array_at v ''dependencyEdges'') (\<lambda>es.
     rbind (array_at v ''expectedLifecycleScriptNames'') (\<lambda>ns.
     rbind (mapM (normalizeEdge l) es) (\<lambda>edges.
     rbind (mapM script_name ns) (\<lambda>names.
     rbind (guard profile_invalid (distinct names)) (\<lambda>_.
     rbind (guard profile_invalid (distinct (map de_packageName edges))) (\<lambda>_.
     Inr \<lparr>gn_installPath = path, gn_packageName = name, gn_exactVersion = version,
          gn_tarballUrl = at v ''tarballUrl'', gn_sha512Integrity = integrity,
          gn_edges = isort edge_lt edges, gn_scripts = sort_text names\<rparr>)))))))))))))"

subsection \<open>The graph\<close>

definition find_node :: "graph_node list \<Rightarrow> string \<Rightarrow> graph_node option" where
  "find_node nodes p = map_of (map (\<lambda>n. (gn_installPath n, n)) nodes) p"

lemma find_node_Some: "find_node nodes p = Some n \<Longrightarrow> n \<in> set nodes \<and> gn_installPath n = p"
  by (auto simp: find_node_def dest: map_of_SomeD)

lemma find_node_iff:
  "distinct (map gn_installPath nodes) \<Longrightarrow> find_node nodes p = Some n \<longleftrightarrow> n \<in> set nodes \<and> gn_installPath n = p"
  by (auto simp: find_node_def map_of_eq_Some_iff comp_def image_iff)

lemma find_node_None: "find_node nodes p = None \<longleftrightarrow> p \<notin> gn_installPath ` set nodes"
  by (auto simp: find_node_def map_of_eq_None_iff image_image)

text \<open>The nodes with the ends of their edges, and the search of \<open>visit\<close> through them.\<close>

definition adjacency :: "graph_node list \<Rightarrow> graph" where
  "adjacency nodes = map (\<lambda>n. (gn_installPath n, map de_installPath (gn_edges n))) nodes"

definition visit :: "graph_node list \<Rightarrow> string list \<Rightarrow> string list \<Rightarrow> string \<Rightarrow> string list option" where
  "visit nodes visiting visited path = dfs (adjacency nodes) visiting visited path"

definition edge_targets_ok :: "graph_node list \<Rightarrow> bool" where
  "edge_targets_ok nodes \<longleftrightarrow> list_all (\<lambda>n. list_all (\<lambda>e.
     map_option gn_packageName (find_node nodes (de_installPath e)) = Some (de_packageName e)) (gn_edges n)) nodes"

definition validateGraph :: "graph_node list \<Rightarrow> string \<Rightarrow> string \<Rightarrow> stage_error + unit" where
  "validateGraph nodes topName topVersion =
     (let paths = map gn_installPath nodes; topPath = ''node_modules/'' @ topName in
     rbind (guard profile_invalid (distinct paths)) (\<lambda>_.
     rbind (guard profile_invalid (distinct (map locale_lower paths))) (\<lambda>_.
     rbind (guard profile_invalid (case find_node nodes topPath of
         None \<Rightarrow> False | Some t \<Rightarrow> gn_packageName t = topName \<and> gn_exactVersion t = topVersion)) (\<lambda>_.
     rbind (guard profile_invalid (edge_targets_ok nodes)) (\<lambda>_.
     case visit nodes [] [] topPath of
       None \<Rightarrow> Inl profile_invalid
     | Some visited \<Rightarrow> guard profile_invalid (length visited = length nodes))))))"

subsection \<open>The normal form of a definition\<close>

definition profile_keys :: "string list" where
  "profile_keys = [''profileId'', ''profileVersion'', ''topPackage'', ''registryOrigin'', ''runtimeConstraint'',
     ''graphNodes'', ''materializationRulesVersion'', ''archiveRulesVersion'', ''limits'']"

definition read_nodes :: "value_url_parser \<Rightarrow> string \<Rightarrow> stage_limits \<Rightarrow> jsval list \<Rightarrow> stage_error + graph_node list" where
  "read_nodes parse origin l ns =
     rbind (guard profile_invalid (ns \<noteq> [] \<and> length ns \<le> sl_graphNodes l)) (\<lambda>_.
     rbind (mapM (normalizeNode parse origin l) ns) (\<lambda>nodes. Inr (isort node_lt nodes)))"

definition normalizeUnsignedProfile :: "value_url_parser \<Rightarrow> jsval \<Rightarrow> stage_error + graph_profile" where
  "normalizeUnsignedProfile parse v =
     (let t = at v ''topPackage''; r = at v ''runtimeConstraint'' in
     rbind (guard profile_invalid (exact_keys profile_keys v)) (\<lambda>_.
     rbind (text_at isStageIdentifier v ''profileId'') (\<lambda>pid.
     rbind (positive_at v ''profileVersion'') (\<lambda>version.
     rbind (guard profile_invalid (exact_keys [''name'', ''exactVersion'', ''exactEntrypointRelativePath''] t)) (\<lambda>_.
     rbind (text_at isPackageName t ''name'') (\<lambda>topName.
     rbind (text_at isExactVersion t ''exactVersion'') (\<lambda>topVersion.
     rbind (guard profile_invalid (exact_keys [''os'', ''architecture'', ''nodeMajor'', ''npmGraphGeneratorVersion''] r)) (\<lambda>_.
     rbind (text_at (\<lambda>s. s \<in> {''darwin'', ''linux''}) r ''os'') (\<lambda>system.
     rbind (text_at (\<lambda>s. s \<in> {''arm64'', ''x64''}) r ''architecture'') (\<lambda>architecture.
     rbind (positive_at r ''nodeMajor'') (\<lambda>nodeMajor.
     rbind (text_at isExactVersion r ''npmGraphGeneratorVersion'') (\<lambda>npm.
     rbind (normalizeRegistryOrigin parse (at v ''registryOrigin'')) (\<lambda>origin.
     rbind (normalizeLimits (at v ''limits'')) (\<lambda>l.
     rbind (path_at l t ''exactEntrypointRelativePath'') (\<lambda>entry.
     rbind (positive_at v ''materializationRulesVersion'') (\<lambda>materialization.
     rbind (positive_at v ''archiveRulesVersion'') (\<lambda>archive.
     rbind (array_at v ''graphNodes'') (\<lambda>ns.
     rbind (read_nodes parse origin l ns) (\<lambda>nodes.
     rbind (validateGraph nodes topName topVersion) (\<lambda>_.
     Inr \<lparr>gp_profileId = pid, gp_profileVersion = version, gp_topName = topName, gp_topVersion = topVersion,
          gp_entrypoint = entry, gp_registryOrigin = origin, gp_os = system, gp_architecture = architecture,
          gp_nodeMajor = nodeMajor, gp_npmVersion = npm, gp_nodes = nodes,
          gp_materializationRules = materialization, gp_archiveRules = archive, gp_limits = l\<rparr>))))))))))))))))))))"

definition edge_json :: "dependency_edge \<Rightarrow> jsval" where
  "edge_json e = JObj [(''packageName'', JStr (de_packageName e)), (''installPath'', JStr (de_installPath e)),
     (''declaredSpecifier'', JStr (de_declaredSpecifier e))]"

definition node_json :: "graph_node \<Rightarrow> jsval" where
  "node_json n = JObj [(''installPath'', JStr (gn_installPath n)), (''packageName'', JStr (gn_packageName n)),
     (''exactVersion'', JStr (gn_exactVersion n)), (''tarballUrl'', gn_tarballUrl n),
     (''sha512Integrity'', JStr (gn_sha512Integrity n)), (''dependencyEdges'', JArr (map edge_json (gn_edges n))),
     (''expectedLifecycleScriptNames'', JArr (map JStr (gn_scripts n)))]"

definition profile_json :: "graph_profile \<Rightarrow> jsval" where
  "profile_json p = JObj
     [(''profileId'', JStr (gp_profileId p)), (''profileVersion'', JInt (gp_profileVersion p)),
      (''topPackage'', JObj [(''name'', JStr (gp_topName p)), (''exactVersion'', JStr (gp_topVersion p)),
         (''exactEntrypointRelativePath'', JStr (gp_entrypoint p))]),
      (''registryOrigin'', JStr (gp_registryOrigin p)),
      (''runtimeConstraint'', JObj [(''os'', JStr (gp_os p)), (''architecture'', JStr (gp_architecture p)),
         (''nodeMajor'', JInt (gp_nodeMajor p)), (''npmGraphGeneratorVersion'', JStr (gp_npmVersion p))]),
      (''graphNodes'', JArr (map node_json (gp_nodes p))),
      (''materializationRulesVersion'', JInt (gp_materializationRules p)),
      (''archiveRulesVersion'', JInt (gp_archiveRules p)), (''limits'', limits_json (gp_limits p))]"

definition profile_digest :: "graph_profile \<Rightarrow> string" where
  "profile_digest p = sha256 (canonicalJson (profile_json p))"

definition computeGraphProfileDigest :: "value_url_parser \<Rightarrow> jsval \<Rightarrow> stage_error + string" where
  "computeGraphProfileDigest parse v = rbind (normalizeUnsignedProfile parse v) (\<lambda>p. Inr (profile_digest p))"

subsection \<open>The authority\<close>

text \<open>
  A registered profile is a new object: its address, its normal form and its digest.  The code
  marks it in a \<open>WeakSet\<close>, and it is frozen, so an object with the mark still has that value.
\<close>

record profile_authority =
  pa_profiles :: "(string, (graph_profile \<times> string) object) omap"

definition definition_unsigned :: "jsval \<Rightarrow> jsval" where
  "definition_unsigned v = (case v of JObj kvs \<Rightarrow> JObj (filter (\<lambda>p. fst p \<noteq> ''manifestDigest'') kvs) | _ \<Rightarrow> v)"

definition register_profile :: "value_url_parser \<Rightarrow> nat \<times> jsval \<Rightarrow> (string, (graph_profile \<times> string) object) omap
    \<Rightarrow> stage_error + (string, (graph_profile \<times> string) object) omap" where
  "register_profile parse d m =
     rbind (guard profile_invalid (exact_keys (profile_keys @ [''manifestDigest'']) (snd d))) (\<lambda>_.
     rbind (normalizeUnsignedProfile parse (definition_unsigned (snd d))) (\<lambda>p.
     rbind (text_at is_hash (snd d) ''manifestDigest'') (\<lambda>manifestDigest.
     rbind (guard profile_digest_mismatch (profile_digest p = manifestDigest)) (\<lambda>_.
     rbind (guard profile_invalid (gp_profileId p \<notin> fst ` set m)) (\<lambda>_.
     Inr (om_set (gp_profileId p) (fst d, p, profile_digest p) m))))))"

text \<open>\<open>new VerifiedMcpGraphProfileAuthority(definitions)\<close>; the new objects get the addresses from \<open>base\<close>.\<close>

definition new_profile_authority :: "value_url_parser \<Rightarrow> nat \<Rightarrow> jsval list \<Rightarrow> stage_error + profile_authority" where
  "new_profile_authority parse base definitions =
     rbind (foldM (register_profile parse) (zip [base..<base + length definitions] definitions) [])
       (\<lambda>m. Inr \<lparr>pa_profiles = m\<rparr>)"

definition select_profile :: "string \<Rightarrow> profile_authority \<Rightarrow> stage_error + (graph_profile \<times> string) object" where
  "select_profile i A = (case map_of (pa_profiles A) i of None \<Rightarrow> Inl profile_unknown | Some p \<Rightarrow> Inr p)"

definition authenticates_profile :: "profile_authority \<Rightarrow> (graph_profile \<times> string) object \<Rightarrow> bool" where
  "authenticates_profile A p \<longleftrightarrow> p \<in> snd ` set (pa_profiles A)"

subsection \<open>The search through the graph\<close>

text \<open>The edges of the graph, and the nodes it has.\<close>

definition edge_rel :: "graph_node list \<Rightarrow> (string \<times> string) set" where
  "edge_rel nodes = {(p, q). \<exists>n. find_node nodes p = Some n \<and> q \<in> de_installPath ` set (gn_edges n)}"

definition node_paths :: "graph_node list \<Rightarrow> string set" where
  "node_paths nodes = gn_installPath ` set nodes"

lemma graph_adjacency: "graph_edges (adjacency nodes) = edge_rel nodes" "graph_nodes (adjacency nodes) = node_paths nodes"
proof -
  have "map_of (adjacency nodes) p = map_option (\<lambda>n. map de_installPath (gn_edges n)) (find_node nodes p)" for p
    unfolding adjacency_def find_node_def by (induction nodes) auto
  then show "graph_edges (adjacency nodes) = edge_rel nodes" by (auto simp: graph_edges_def edge_rel_def)
  show "graph_nodes (adjacency nodes) = node_paths nodes" by (simp add: graph_nodes_def node_paths_def adjacency_def image_image)
qed

lemma edge_targets_spec:
  assumes "distinct (map gn_installPath nodes)"
  shows "edge_targets_ok nodes \<longleftrightarrow> (\<forall>n \<in> set nodes. \<forall>e \<in> set (gn_edges n).
     \<exists>m \<in> set nodes. gn_installPath m = de_installPath e \<and> gn_packageName m = de_packageName e)"
proof -
  have f: "find_node nodes q = Some m \<longleftrightarrow> m \<in> set nodes \<and> gn_installPath m = q" for q m
    using assms by (rule find_node_iff)
  show ?thesis
    unfolding edge_targets_ok_def list_all_iff map_option_eq_Some f by blast
qed

lemma visit_spec:
  assumes "edge_rel nodes `` UNIV \<subseteq> node_paths nodes" "tp \<in> node_paths nodes" "distinct (map gn_installPath nodes)"
  shows "(\<exists>V. visit nodes [] [] tp = Some V \<and> length V = length nodes)
     \<longleftrightarrow> acyclic (edge_rel nodes) \<and> node_paths nodes \<subseteq> (edge_rel nodes)\<^sup>* `` {tp}"
  using search_spec [of "adjacency nodes" tp] assms
  unfolding graph_adjacency visit_def by (simp add: adjacency_def comp_def)

lemma validateGraph_spec:
  "validateGraph nodes topName topVersion = Inr () \<longleftrightarrow>
     distinct (map gn_installPath nodes)
     \<and> distinct (map (locale_lower \<circ> gn_installPath) nodes)
     \<and> (\<exists>t \<in> set nodes. gn_installPath t = ''node_modules/'' @ topName
          \<and> gn_packageName t = topName \<and> gn_exactVersion t = topVersion)
     \<and> (\<forall>n \<in> set nodes. \<forall>e \<in> set (gn_edges n).
          \<exists>m \<in> set nodes. gn_installPath m = de_installPath e \<and> gn_packageName m = de_packageName e)
     \<and> acyclic (edge_rel nodes)
     \<and> (\<forall>n \<in> set nodes. (''node_modules/'' @ topName, gn_installPath n) \<in> (edge_rel nodes)\<^sup>*)"
proof (cases "distinct (map gn_installPath nodes)")
  case True
  have f: "find_node nodes q = Some m \<longleftrightarrow> m \<in> set nodes \<and> gn_installPath m = q" for q m
    using True by (rule find_node_iff)
  let ?top = "''node_modules/'' @ topName"
  have t: "(case find_node nodes ?top of None \<Rightarrow> False | Some t \<Rightarrow> gn_packageName t = topName \<and> gn_exactVersion t = topVersion)
      \<longleftrightarrow> (\<exists>t \<in> set nodes. gn_installPath t = ?top \<and> gn_packageName t = topName \<and> gn_exactVersion t = topVersion)"
    (is "?L \<longleftrightarrow> ?R")
  proof
    assume ?R
    then obtain t where "t \<in> set nodes" "gn_installPath t = ?top" "gn_packageName t = topName" "gn_exactVersion t = topVersion"
      by blast
    then show ?L using f [of ?top t] by simp
  qed (use f in \<open>auto split: option.splits\<close>)
  have "edge_rel nodes `` UNIV \<subseteq> node_paths nodes" if "edge_targets_ok nodes"
  proof
    fix q assume "q \<in> edge_rel nodes `` UNIV"
    then obtain n e where "n \<in> set nodes" "e \<in> set (gn_edges n)" "q = de_installPath e"
      unfolding edge_rel_def f by blast
    with that show "q \<in> node_paths nodes"
      unfolding edge_targets_spec [OF True] node_paths_def by (metis image_eqI)
  qed
  moreover have "?top \<in> node_paths nodes" if "\<exists>t \<in> set nodes. gn_installPath t = ?top \<and> P t" for P
    using that unfolding node_paths_def by (metis image_eqI)
  ultimately have s: "(\<exists>V. visit nodes [] [] ?top = Some V \<and> length V = length nodes)
     \<longleftrightarrow> acyclic (edge_rel nodes) \<and> (\<forall>n \<in> set nodes. (?top, gn_installPath n) \<in> (edge_rel nodes)\<^sup>*)"
    if "edge_targets_ok nodes" "\<exists>t \<in> set nodes. gn_installPath t = ?top \<and> gn_packageName t = topName \<and> gn_exactVersion t = topVersion"
    using visit_spec [of nodes ?top] True that by (auto simp: node_paths_def)
  have "validateGraph nodes topName topVersion = Inr () \<longleftrightarrow> distinct (map (locale_lower \<circ> gn_installPath) nodes)
     \<and> (\<exists>t \<in> set nodes. gn_installPath t = ?top \<and> gn_packageName t = topName \<and> gn_exactVersion t = topVersion)
     \<and> edge_targets_ok nodes \<and> (\<exists>V. visit nodes [] [] ?top = Some V \<and> length V = length nodes)"
    unfolding validateGraph_def Let_def rbind_Inr_iff guard_Inr t using True
    by (auto split: option.splits)
  with s True show ?thesis unfolding edge_targets_spec [OF True] by blast
qed (simp add: validateGraph_def Let_def)

text \<open>
  C17: the check of a dependency graph is exact.  It accepts a list of nodes if and only if no
  install path occurs twice, not even in another case; the top package is there with its name
  and version; every edge leads to a node with the name it gives; there is no dependency cycle;
  and every node is reached from the top package, so that nothing is staged that the top
  package does not need.
\<close>

theorem validateGraph_iff:
  "validateGraph nodes topName topVersion = Inr () \<longleftrightarrow>
     distinct (map gn_installPath nodes)
     \<and> distinct (map (locale_lower \<circ> gn_installPath) nodes)
     \<and> (\<exists>t \<in> set nodes. gn_installPath t = ''node_modules/'' @ topName
          \<and> gn_packageName t = topName \<and> gn_exactVersion t = topVersion)
     \<and> (\<forall>n \<in> set nodes. \<forall>e \<in> set (gn_edges n).
          \<exists>m \<in> set nodes. gn_installPath m = de_installPath e \<and> gn_packageName m = de_packageName e)
     \<and> acyclic (edge_rel nodes)
     \<and> (\<forall>n \<in> set nodes. (''node_modules/'' @ topName, gn_installPath n) \<in> (edge_rel nodes)\<^sup>*)"
  by (rule validateGraph_spec)

subsection \<open>What a registered profile is\<close>

text \<open>A node a profile may hold.\<close>

definition node_wf :: "value_url_parser \<Rightarrow> string \<Rightarrow> stage_limits \<Rightarrow> graph_node \<Rightarrow> bool" where
  "node_wf parse origin l n \<longleftrightarrow>
     (\<exists>ss. validatePortableRelativePath l (gn_installPath n) = Inr ss) \<and> starts_with ''node_modules/'' (gn_installPath n)
     \<and> isPackageName (gn_packageName n) \<and> isExactVersion (gn_exactVersion n)
     \<and> validateTarballUrl parse origin (gn_tarballUrl n) = Inr ()
     \<and> parseSha512Integrity (gn_sha512Integrity n) \<noteq> None
     \<and> distinct (map de_packageName (gn_edges n)) \<and> distinct (gn_scripts n) \<and> list_all isScriptName (gn_scripts n)"

definition profile_wf :: "value_url_parser \<Rightarrow> graph_profile \<Rightarrow> bool" where
  "profile_wf parse p \<longleftrightarrow> within_ceilings (gp_limits p) \<and> limits_consistent (gp_limits p)
     \<and> gp_nodes p \<noteq> [] \<and> length (gp_nodes p) \<le> sl_graphNodes (gp_limits p)
     \<and> list_all (node_wf parse (gp_registryOrigin p) (gp_limits p)) (gp_nodes p)
     \<and> sorted_wrt node_lt (gp_nodes p) \<and> validateGraph (gp_nodes p) (gp_topName p) (gp_topVersion p) = Inr ()"

lemma text_at_Inr: "text_at ok v k = Inr s \<longleftrightarrow> at v k = JStr s \<and> ok s"
  by (auto simp: text_at_def split: jsval.splits)

lemma path_at_Inr: "path_at l v k = Inr s \<longleftrightarrow> at v k = JStr s \<and> (\<exists>ss. validatePortableRelativePath l s = Inr ss)"
  by (auto simp: path_at_def rbind_Inr_iff text_at_Inr)

lemma mapM_script: "mapM script_name ns = Inr names \<Longrightarrow> list_all isScriptName names"
  by (auto simp: list_all_iff script_name_def dest!: mapM_results split: jsval.splits if_splits)

lemma normalizeNode_wf: "normalizeNode parse origin l v = Inr n \<Longrightarrow> node_wf parse origin l n"
  unfolding normalizeNode_def
  by (auto simp: node_wf_def text_at_Inr path_at_Inr distinct_map_isort list_all_iff dest: mapM_script
      split: jsval.splits if_splits)

lemma isort_sorted_distinct:
  "distinct (map gn_installPath ns) \<Longrightarrow> sorted_wrt node_lt (isort node_lt ns)"
  using sorted_isort_key [of gn_installPath ns] by (simp add: node_lt_def [abs_def])

lemma read_nodes_wf:
  assumes "read_nodes parse origin l ns = Inr nodes"
  shows "nodes \<noteq> [] \<and> length nodes \<le> sl_graphNodes l \<and> list_all (node_wf parse origin l) nodes
    \<and> (\<exists>xs. nodes = isort node_lt xs)"
  using assms normalizeNode_wf
  by (auto simp: read_nodes_def list_all_iff dest: mapM_results mapM_length)

lemma normalizeUnsignedProfile_wf:
  assumes "normalizeUnsignedProfile parse v = Inr p"
  shows "profile_wf parse p"
proof -
  from assms obtain l ns nodes xs where n: "normalizeLimits (at v ''limits'') = Inr l"
    "read_nodes parse (gp_registryOrigin p) l ns = Inr nodes" "validateGraph nodes (gp_topName p) (gp_topVersion p) = Inr ()"
    "gp_nodes p = nodes" "gp_limits p = l"
    unfolding normalizeUnsignedProfile_def Let_def rbind_Inr_iff by auto
  have l: "within_ceilings l" "limits_consistent l"
    using n(1) by (auto simp: normalizeLimits_def Let_def)
  note r = read_nodes_wf [OF n(2)]
  then obtain xs where xs: "nodes = isort node_lt xs" by blast
  have "distinct (map gn_installPath nodes)" using n(3) by (auto simp: validateGraph_def Let_def)
  then have "sorted_wrt node_lt nodes" using isort_sorted_distinct [of xs] xs by (simp add: distinct_map_isort)
  with l r n show ?thesis by (simp add: profile_wf_def)
qed

lemma register_keeps:
  assumes "register_profile parse d m = Inr m'" "om_wf m"
    "\<forall>(i, a, p, g) \<in> set m. i = gp_profileId p \<and> profile_wf parse p \<and> g = profile_digest p"
  shows "om_wf m' \<and> (\<forall>(i, a, p, g) \<in> set m'. i = gp_profileId p \<and> profile_wf parse p \<and> g = profile_digest p)
    \<and> length m' = Suc (length m)"
  using assms normalizeUnsignedProfile_wf by (auto simp: register_profile_def om_set_fresh)

lemma authority_profiles:
  assumes "new_profile_authority parse base ds = Inr A"
  shows "om_wf (pa_profiles A) \<and> (\<forall>(i, a, p, g) \<in> set (pa_profiles A). i = gp_profileId p \<and> profile_wf parse p \<and> g = profile_digest p)
    \<and> length (pa_profiles A) = length ds"
proof -
  have "foldM (register_profile parse) xs m = Inr m' \<Longrightarrow> om_wf m
      \<Longrightarrow> \<forall>(i, a, p, g) \<in> set m. i = gp_profileId p \<and> profile_wf parse p \<and> g = profile_digest p
      \<Longrightarrow> om_wf m' \<and> (\<forall>(i, a, p, g) \<in> set m'. i = gp_profileId p \<and> profile_wf parse p \<and> g = profile_digest p)
        \<and> length m' = length m + length xs" for xs m m'
  proof (induction xs arbitrary: m)
    case (Cons x xs)
    from Cons.prems(1) obtain m1 where m1: "register_profile parse x m = Inr m1" "foldM (register_profile parse) xs m1 = Inr m'"
      by auto
    from register_keeps [OF m1(1) Cons.prems(2,3)] Cons.IH [OF m1(2)] show ?case by auto
  qed simp
  from this [of "zip [base..<base + length ds] ds" "[]" "pa_profiles A"] assms show ?thesis
    by (auto simp: new_profile_authority_def)
qed

text \<open>
  A profile an authority authenticates is in order.  Its digest is that of its normal form;
  the limits lie below the hard ceilings; it has between one and 256 nodes, sorted by install
  path, each below \<open>node_modules/\<close> on a path that stays there, with a tarball on the origin of
  the registry and an integrity of SHA-512; its graph passes the check; and it is the only one
  with its id.
\<close>

theorem authenticated_profile_wf:
  assumes "new_profile_authority parse base ds = Inr A" "authenticates_profile A (a, p, g)"
  shows "g = profile_digest p \<and> profile_wf parse p \<and> length (gp_nodes p) \<le> 256
    \<and> select_profile (gp_profileId p) A = Inr (a, p, g)"
proof -
  note w = authority_profiles [OF assms(1)]
  obtain i where i: "(i, a, p, g) \<in> set (pa_profiles A)" using assms(2) by (auto simp: authenticates_profile_def)
  with w have p: "i = gp_profileId p" "profile_wf parse p" "g = profile_digest p" by auto
  have "sl_graphNodes l \<le> 256" if "within_ceilings l" for l
    using that by (simp add: within_ceilings_def limit_entries_def PACKAGE_STAGE_HARD_CEILINGS_def)
  with p(2) have "length (gp_nodes p) \<le> 256" by (fastforce simp: profile_wf_def)
  moreover have "map_of (pa_profiles A) i = Some (a, p, g)" using w i by (simp add: map_of_eq_Some_iff)
  ultimately show ?thesis using p by (simp add: select_profile_def)
qed

subsection \<open>A concrete profile\<close>

definition demo_value_urls :: value_url_parser where
  "demo_value_urls v =
     (if v = JStr ''https://r/'' then Some \<lparr>ur_protocol = ''https:'', ur_username = [], ur_password = [],
        ur_origin = ''https://r'', ur_host = ''r'', ur_pathname = ''/'', ur_search = [], ur_hash = []\<rparr>
      else if v = JStr ''https://r/a.tgz'' then Some \<lparr>ur_protocol = ''https:'', ur_username = [], ur_password = [],
        ur_origin = ''https://r'', ur_host = ''r'', ur_pathname = ''/a.tgz'', ur_search = [], ur_hash = []\<rparr>
      else None)"

definition demo_integrity :: "nat list \<Rightarrow> string" where
  "demo_integrity h = ''sha512-'' @ b64_encode h"

definition demo_node :: "nat list \<Rightarrow> graph_node" where
  "demo_node h = \<lparr>gn_installPath = ''node_modules/a'', gn_packageName = ''a'', gn_exactVersion = ''1.0.0'',
     gn_tarballUrl = JStr ''https://r/a.tgz'', gn_sha512Integrity = demo_integrity h, gn_edges = [], gn_scripts = []\<rparr>"

definition demo_graph_profile :: "nat list \<Rightarrow> graph_profile" where
  "demo_graph_profile h = \<lparr>gp_profileId = ''p'', gp_profileVersion = 1, gp_topName = ''a'', gp_topVersion = ''1.0.0'',
     gp_entrypoint = ''i.js'', gp_registryOrigin = ''https://r/'', gp_os = ''linux'', gp_architecture = ''x64'',
     gp_nodeMajor = 22, gp_npmVersion = ''10.0.0'', gp_nodes = [demo_node h], gp_materializationRules = 1,
     gp_archiveRules = 1, gp_limits = PACKAGE_STAGE_HARD_CEILINGS\<rparr>"

definition demo_definition :: "nat list \<Rightarrow> jsval" where
  "demo_definition h = (case profile_json (demo_graph_profile h) of
     JObj kvs \<Rightarrow> JObj (kvs @ [(''manifestDigest'', JStr (profile_digest (demo_graph_profile h)))]) | v \<Rightarrow> v)"

lemma demo_profile_normal:
  assumes "length h = 64" "list_all (\<lambda>b. b < 256) h"
  shows "normalizeUnsignedProfile demo_value_urls (profile_json (demo_graph_profile h)) = Inr (demo_graph_profile h)"
proof -
  have i: "parseSha512Integrity (demo_integrity h) = Some h"
    using assms by (simp add: parseSha512Integrity_iff demo_integrity_def)
  have t: "isStageIdentifier ''p''" "isPackageName ''a''" "isExactVersion ''1.0.0''" "isExactVersion ''10.0.0''"
    by code_simp+
  have k: "exact_keys profile_keys (profile_json (demo_graph_profile h))"
    by (simp add: exact_keys_def profile_json_def keys_of_def profile_keys_def is_obj_def sort_text_def)
  have k2: "exact_keys node_keys (node_json (demo_node h))"
    by (simp add: exact_keys_def node_json_def keys_of_def node_keys_def is_obj_def sort_text_def)
  have l: "normalizeLimits (limits_json PACKAGE_STAGE_HARD_CEILINGS) = Inr PACKAGE_STAGE_HARD_CEILINGS"
    by (simp add: normalizeLimits_def read_limits_def limits_json_def limit_entries_def PACKAGE_STAGE_HARD_CEILINGS_def
        exact_keys_def keys_of_def is_obj_def sort_text_def isPositiveInteger_def nat_at_def within_ceilings_def
        limits_consistent_def max_safe_def)
  have p: "validatePortableRelativePath PACKAGE_STAGE_HARD_CEILINGS ''node_modules/a'' = Inr [''node_modules'', ''a'']"
    "validatePortableRelativePath PACKAGE_STAGE_HARD_CEILINGS ''i.js'' = Inr [''i.js'']"
    by (simp_all add: validatePortableRelativePath_def portable_text_def plain_segment_def is_control_def
        PACKAGE_STAGE_HARD_CEILINGS_def)
  have n: "normalizeNode demo_value_urls ''https://r/'' PACKAGE_STAGE_HARD_CEILINGS (node_json (demo_node h)) = Inr (demo_node h)"
    using k2 t i p
    by (simp add: normalizeNode_def path_at_def text_at_def node_json_def demo_node_def array_at_def validateTarballUrl_def
        demo_value_urls_def is_plain_https_def ends_with_def sort_text_def)
  have g: "validateGraph [demo_node h] ''a'' ''1.0.0'' = Inr ()"
    by (simp add: validateGraph_def Let_def find_node_def demo_node_def edge_targets_ok_def visit_def adjacency_def dfs.simps)
  have o: "normalizeRegistryOrigin demo_value_urls (JStr ''https://r/'') = Inr ''https://r/''"
    by (simp add: normalizeRegistryOrigin_def demo_value_urls_def is_plain_https_def)
  have e: "exact_keys [''name'', ''exactVersion'', ''exactEntrypointRelativePath'']
      (JObj [(''name'', JStr ''a''), (''exactVersion'', JStr ''1.0.0''), (''exactEntrypointRelativePath'', JStr ''i.js'')])"
    "exact_keys [''os'', ''architecture'', ''nodeMajor'', ''npmGraphGeneratorVersion'']
      (JObj [(''os'', JStr ''linux''), (''architecture'', JStr ''x64''), (''nodeMajor'', JInt 22),
         (''npmGraphGeneratorVersion'', JStr ''10.0.0'')])"
    by code_simp+
  have c: "sl_graphNodes PACKAGE_STAGE_HARD_CEILINGS = 256" by (simp add: PACKAGE_STAGE_HARD_CEILINGS_def)
  show ?thesis
    using k n l t g o e p c
    by (simp add: normalizeUnsignedProfile_def profile_json_def demo_graph_profile_def text_at_def positive_at_def
        array_at_def path_at_def read_nodes_def max_safe_def)
qed

lemma demo_authority:
  assumes "length h = 64" "list_all (\<lambda>b. b < 256) h"
  shows "new_profile_authority demo_value_urls 7 [demo_definition h]
    = Inr \<lparr>pa_profiles = [(''p'', 7, demo_graph_profile h, profile_digest (demo_graph_profile h))]\<rparr>"
proof -
  have u: "definition_unsigned (demo_definition h) = profile_json (demo_graph_profile h)"
    by (simp add: definition_unsigned_def demo_definition_def profile_json_def)
  have k: "exact_keys (profile_keys @ [''manifestDigest'']) (demo_definition h)"
    by (simp add: exact_keys_def demo_definition_def profile_json_def keys_of_def profile_keys_def is_obj_def sort_text_def)
  have d: "at (demo_definition h) ''manifestDigest'' = JStr (profile_digest (demo_graph_profile h))"
    by (simp add: demo_definition_def profile_json_def)
  have h: "is_hash (profile_digest (demo_graph_profile h))" by (simp add: profile_digest_def sha256_is_hash)
  have "register_profile demo_value_urls (7, demo_definition h) []
     = Inr [(''p'', 7, demo_graph_profile h, profile_digest (demo_graph_profile h))]"
    using demo_profile_normal [OF assms] u k d h
    by (simp add: register_profile_def text_at_def) (simp add: demo_graph_profile_def)
  then show ?thesis by (simp add: new_profile_authority_def)
qed

theorem authenticated_profile_wf_witness:
  "\<exists>A p g. new_profile_authority demo_value_urls 7 [demo_definition (replicate 64 0)] = Inr A
     \<and> authenticates_profile A (7, p, g) \<and> profile_wf demo_value_urls p \<and> gp_nodes p \<noteq> []"
proof -
  let ?h = "replicate 64 (0 :: nat)"
  have h: "length ?h = 64" "list_all (\<lambda>b. b < 256) ?h" by (simp_all add: list_all_iff)
  note a = demo_authority [OF h]
  have "authenticates_profile \<lparr>pa_profiles = [(''p'', 7, demo_graph_profile ?h, profile_digest (demo_graph_profile ?h))]\<rparr>
     (7, demo_graph_profile ?h, profile_digest (demo_graph_profile ?h))"
    by (simp add: authenticates_profile_def)
  from authenticated_profile_wf [OF a this] a this show ?thesis by (auto simp: demo_graph_profile_def)
qed

definition demo_graph :: "graph_node list" where
  "demo_graph = [(demo_node []) \<lparr>gn_edges := [\<lparr>de_packageName = ''b'', de_installPath = ''node_modules/b'',
       de_declaredSpecifier = ''*''\<rparr>]\<rparr>,
     (demo_node []) \<lparr>gn_installPath := ''node_modules/b'', gn_packageName := ''b''\<rparr>]"

theorem validateGraph_iff_witness:
  "validateGraph demo_graph ''a'' ''1.0.0'' = Inr () \<and> acyclic (edge_rel demo_graph)
     \<and> (''node_modules/a'', ''node_modules/b'') \<in> (edge_rel demo_graph)\<^sup>*"
proof -
  have v: "validateGraph demo_graph ''a'' ''1.0.0'' = Inr ()"
    by (simp add: validateGraph_def Let_def find_node_def demo_node_def demo_graph_def edge_targets_ok_def visit_def adjacency_def dfs.simps
        locale_lower_def locale_lower_c_def is_upper_def)
  have "\<exists>n \<in> set demo_graph. gn_installPath n = ''node_modules/b''" by (simp add: demo_graph_def)
  with v show ?thesis
    using validateGraph_iff [of demo_graph "''a''" "''1.0.0''"] by fastforce
qed

end
