(* ===== verification/Sha512.thy ===== *)
theory Sha512
  imports Sha256
begin

section \<open>SHA-512\<close>

text \<open>
  \<open>createHash('sha512')\<close> of node:crypto, as FIPS 180-4 defines it, on 64-bit words.  As for
  SHA-256 only the length of the digest is used; nothing is assumed about collisions.
\<close>

type_synonym u64 = "64 word"

definition sha512_k :: "u64 list" where
  "sha512_k = [
     4794697086780616226, 8158064640168781261, 13096744586834688815, 16840607885511220156,
     4131703408338449720, 6480981068601479193, 10538285296894168987, 12329834152419229976,
     15566598209576043074, 1334009975649890238, 2608012711638119052, 6128411473006802146,
     8268148722764581231, 9286055187155687089, 11230858885718282805, 13951009754708518548,
     16472876342353939154, 17275323862435702243, 1135362057144423861, 2597628984639134821,
     3308224258029322869, 5365058923640841347, 6679025012923562964, 8573033837759648693,
     10970295158949994411, 12119686244451234320, 12683024718118986047, 13788192230050041572,
     14330467153632333762, 15395433587784984357, 489312712824947311, 1452737877330783856,
     2861767655752347644, 3322285676063803686, 5560940570517711597, 5996557281743188959,
     7280758554555802590, 8532644243296465576, 9350256976987008742, 10552545826968843579,
     11727347734174303076, 12113106623233404929, 14000437183269869457, 14369950271660146224,
     15101387698204529176, 15463397548674623760, 17586052441742319658, 1182934255886127544,
     1847814050463011016, 2177327727835720531, 2830643537854262169, 3796741975233480872,
     4115178125766777443, 5681478168544905931, 6601373596472566643, 7507060721942968483,
     8399075790359081724, 8693463985226723168, 9568029438360202098, 10144078919501101548,
     10430055236837252648, 11840083180663258601, 13761210420658862357, 14299343276471374635,
     14566680578165727644, 15097957966210449927, 16922976911328602910, 17689382322260857208,
     500013540394364858, 748580250866718886, 1242879168328830382, 1977374033974150939,
     2944078676154940804, 3659926193048069267, 4368137639120453308, 4836135668995329356,
     5532061633213252278, 6448918945643986474, 6902733635092675308, 7801388544844847127]"

definition sha512_init :: "u64 list" where
  "sha512_init = [
     7640891576956012808, 13503953896175478587, 4354685564936845355, 11912009170470909681,
     5840696475078001361, 11170449401992604703, 2270897969802886507, 6620516959819538809]"

definition rotr64 :: "nat \<Rightarrow> u64 \<Rightarrow> u64" where
  "rotr64 n x = (drop_bit n x) OR (push_bit (64 - n) x)"

definition sum0_512 :: "u64 \<Rightarrow> u64" where "sum0_512 x = (rotr64 28 x) XOR (rotr64 34 x) XOR (rotr64 39 x)"
definition sum1_512 :: "u64 \<Rightarrow> u64" where "sum1_512 x = (rotr64 14 x) XOR (rotr64 18 x) XOR (rotr64 41 x)"
definition sig0_512 :: "u64 \<Rightarrow> u64" where "sig0_512 x = (rotr64 1 x) XOR (rotr64 8 x) XOR (drop_bit 7 x)"
definition sig1_512 :: "u64 \<Rightarrow> u64" where "sig1_512 x = (rotr64 19 x) XOR (rotr64 61 x) XOR (drop_bit 6 x)"
definition ch_512 :: "u64 \<Rightarrow> u64 \<Rightarrow> u64 \<Rightarrow> u64" where "ch_512 x y z = (x AND y) XOR (NOT x AND z)"
definition maj_512 :: "u64 \<Rightarrow> u64 \<Rightarrow> u64 \<Rightarrow> u64" where
  "maj_512 x y z = (x AND y) XOR (x AND z) XOR (y AND z)"

text \<open>The message schedule, newest word first.\<close>

fun schedule_512 :: "nat \<Rightarrow> u64 list \<Rightarrow> u64 list" where
  "schedule_512 0 w = w"
| "schedule_512 (Suc n) w =
     schedule_512 n ((sig1_512 (w ! 1) + w ! 6 + sig0_512 (w ! 14) + w ! 15) # w)"

fun rounds_512 :: "(u64 \<times> u64) list \<Rightarrow> u64 list \<Rightarrow> u64 list" where
  "rounds_512 ((k, w) # kws) [a, b, c, d, e, f, g, h] =
     (let t1 = h + sum1_512 e + ch_512 e f g + k + w; t2 = sum0_512 a + maj_512 a b c
      in rounds_512 kws [t1 + t2, a, b, c, d + t1, e, f, g])"
| "rounds_512 _ s = s"

definition block_512 :: "u64 list \<Rightarrow> u64 list \<Rightarrow> u64 list" where
  "block_512 h w = map2 (+) h (rounds_512 (zip sha512_k (rev (schedule_512 64 (rev w)))) h)"

definition be_word64 :: "byte list \<Rightarrow> u64" where
  "be_word64 bs = foldl (\<lambda>n b. push_bit 8 n OR ucast b) 0 bs"

fun words_512 :: "byte list \<Rightarrow> u64 list" where
  "words_512 (a # b # c # d # e # f # g # h # r) = be_word64 [a, b, c, d, e, f, g, h] # words_512 r"
| "words_512 _ = []"

fun fold_512 :: "nat \<Rightarrow> u64 list \<Rightarrow> u64 list \<Rightarrow> u64 list" where
  "fold_512 0 h w = h"
| "fold_512 (Suc n) h w = fold_512 n (block_512 h (take 16 w)) (drop 16 w)"

definition pad_512 :: "byte list \<Rightarrow> byte list" where
  "pad_512 m =
     (let l = length m; z = (239 - l mod 128) mod 128; bits = 8 * l
      in m @ [0x80] @ replicate z 0 @ map (\<lambda>i. word_of_nat (bits div 256 ^ i)) (rev [0..<16]))"

definition sha512_words :: "byte list \<Rightarrow> u64 list" where
  "sha512_words m = (let p = pad_512 m in fold_512 (length p div 128) sha512_init (words_512 p))"

text \<open>The 64 bytes of the digest.\<close>

definition word_bytes :: "u64 \<Rightarrow> nat list" where
  "word_bytes x = map (\<lambda>i. unat x div 256 ^ i mod 256) [7, 6, 5, 4, 3, 2, 1, 0]"

definition sha512 :: "byte list \<Rightarrow> nat list" where
  "sha512 m = concat (map word_bytes (sha512_words m))"

lemma length_rounds_512: "length s = 8 \<Longrightarrow> length (rounds_512 kws s) = 8"
  by (induction kws s rule: rounds_512.induct) (auto simp: Let_def)

lemma length_block_512: "length h = 8 \<Longrightarrow> length (block_512 h w) = 8"
  by (simp add: block_512_def length_rounds_512)

lemma length_fold_512: "length h = 8 \<Longrightarrow> length (fold_512 n h w) = 8"
  by (induction n arbitrary: h w) (simp_all add: length_block_512)

lemma sha512_length [simp]: "length (sha512 m) = 64"
proof -
  have "length (sha512_words m) = 8"
    by (simp add: sha512_words_def Let_def length_fold_512 sha512_init_def)
  moreover have "length (concat (map word_bytes ws)) = 8 * length ws" for ws
    by (induction ws) (simp_all add: word_bytes_def)
  ultimately show ?thesis by (simp add: sha512_def)
qed

lemma sha512_bytes: "b \<in> set (sha512 m) \<Longrightarrow> b < 256"
  by (auto simp: sha512_def word_bytes_def)

end
