(* ===== verification/OneTime.thy ===== *)
theory OneTime
  imports Prelude
begin

section \<open>Tokens that serve once\<close>

text \<open>
  The contract of an authority that spends tokens: a token is named by the address of its object,
  an attempt either fails and changes nothing or records the name, and a recorded name never
  serves again.  Approvals of stages and of acceptances are such tokens.
\<close>

locale one_time =
  fixes spend :: "'t \<Rightarrow> 's \<Rightarrow> 'e + 's"
    and spent :: "'s \<Rightarrow> nat list"
    and name :: "'t \<Rightarrow> nat"
  assumes spend_new: "spend t s = Inr s' \<Longrightarrow> name t \<notin> set (spent s) \<and> spent s' = name t # spent s"
begin

text \<open>A sequence of attempts, with the tokens that served.\<close>

fun attempts :: "'t list \<Rightarrow> 's \<Rightarrow> 't list \<times> 's" where
  "attempts [] s = ([], s)"
| "attempts (t # ts) s = (case spend t s of
     Inl e \<Rightarrow> attempts ts s
   | Inr s' \<Rightarrow> (let r = attempts ts s' in (t # fst r, snd r)))"

lemma attempts_spent: "spent (snd (attempts ts s)) = rev (map name (fst (attempts ts s))) @ spent s"
proof (induction ts arbitrary: s)
  case (Cons t ts)
  show ?case
  proof (cases "spend t s")
    case (Inr s')
    then show ?thesis using Cons [of s'] spend_new [OF Inr] by (simp add: Let_def)
  qed (simp add: Cons)
qed simp

lemma attempts_fresh:
  "distinct (map name (fst (attempts ts s))) \<and> set (map name (fst (attempts ts s))) \<inter> set (spent s) = {}"
proof (induction ts arbitrary: s)
  case (Cons t ts)
  show ?case
  proof (cases "spend t s")
    case (Inr s')
    then show ?thesis using Cons [of s'] spend_new [OF Inr] by (auto simp: Let_def)
  qed (use Cons in simp)
qed simp

text \<open>However often a token is offered, and whatever else is, it serves at most once.\<close>

lemma serves_once: "length (filter (\<lambda>t. name t = a) (fst (attempts ts s))) \<le> 1"
proof -
  have d: "distinct (map name (fst (attempts ts s)))" using attempts_fresh by blast
  have "length (filter (\<lambda>t. name t = a) xs) \<le> 1" if "distinct (map name xs)" for xs
    using that
  proof (induction xs)
    case (Cons x xs)
    then show ?case by (auto simp: filter_empty_conv image_iff)
  qed simp
  with d show ?thesis by blast
qed

lemma second_fails: "spend t s = Inr s' \<Longrightarrow> name u = name t \<Longrightarrow> spent s'' = spent s' \<Longrightarrow> \<exists>e. spend u s'' = Inl e"
  using spend_new [of t s s'] spend_new [of u s''] by (cases "spend u s''") auto

lemma distinct_spent: "distinct (spent s) \<Longrightarrow> distinct (spent (snd (attempts ts s)))"
  using attempts_fresh [of ts s] by (auto simp: attempts_spent)

end

end
