(* ===== verification/StagePlan.thy ===== *)
theory StagePlan
  imports StageProfile Sha512 Clock OneTime
begin

section \<open>Package staging: plans, approvals, artifacts and the seal\<close>

text \<open>
  Models src/stage/plan.ts, integrity.ts, foundation.ts and authority.ts: the plan of a stage,
  its one-time approval, the verification of downloaded artifacts, the run that downloads and
  verifies them all, and the sealing of a finished stage.

  Objects have addresses, as in the theory of profiles; the new objects of an operation get the
  address it is given.  The downloader and the archive inspector are interfaces the code is
  handed: what they answer is an argument.
\<close>

subsection \<open>Plans\<close>

record stage_plan =
  sn_stageId :: string
  sn_profileId :: string
  sn_profileDigest :: string
  sn_registryOrigin :: string
  sn_observationDigest :: string
  sn_expiresAt :: string
  sn_nodes :: "graph_node list"
  sn_hosts :: "string list"
  sn_limits :: stage_limits
  sn_rootBinding :: string

text \<open>A plan is an object with its hash.\<close>

type_synonym planned = "(stage_plan \<times> string) object"

definition stage_plan_json :: "stage_plan \<Rightarrow> jsval" where
  "stage_plan_json p = JObj
     [(''planVersion'', JInt 1), (''stageId'', JStr (sn_stageId p)), (''graphProfileId'', JStr (sn_profileId p)),
      (''graphProfileDigest'', JStr (sn_profileDigest p)), (''registryOrigin'', JStr (sn_registryOrigin p)),
      (''metadataObservationDigest'', JStr (sn_observationDigest p)), (''metadataExpiresAt'', JStr (sn_expiresAt p)),
      (''graphNodes'', JArr (map node_json (sn_nodes p))), (''approvedNetworkHosts'', JArr (map JStr (sn_hosts p))),
      (''limits'', limits_json (sn_limits p)), (''packageScripts'', JStr ''disabled''),
      (''stageRootBinding'', JStr (sn_rootBinding p))]"

definition stage_plan_hash :: "stage_plan \<Rightarrow> string" where
  "stage_plan_hash p = sha256 (canonicalJson (stage_plan_json p))"

definition isCanonicalTimestamp :: "string \<Rightarrow> nat option" where
  "isCanonicalTimestamp s =
     (case parse_iso s of None \<Rightarrow> None | Some t \<Rightarrow> if toISOString t = Some s then Some t else None)"

definition hex_text :: "nat \<Rightarrow> jsval \<Rightarrow> string \<Rightarrow> bool" where
  "hex_text n v k = (case at v k of JStr s \<Rightarrow> length s = n \<and> list_all is_hex s | _ \<Rightarrow> False)"

definition validateInput :: "jsval \<Rightarrow> nat \<Rightarrow> stage_error + unit" where
  "validateInput v now = guard plan_invalid
     (is_obj v
      \<and> join_with '','' (sort_text (keys_of v))
        = join_with '','' [''metadataExpiresAt'', ''metadataObservationDigest'', ''stageId'', ''stageRootBinding'']
      \<and> hex_text 32 v ''stageId'' \<and> hex_text 64 v ''metadataObservationDigest'' \<and> hex_text 64 v ''stageRootBinding''
      \<and> (case at v ''metadataExpiresAt'' of
           JStr s \<Rightarrow> (case isCanonicalTimestamp s of None \<Rightarrow> False | Some t \<Rightarrow> now < t)
         | _ \<Rightarrow> False))"

definition str_of :: "jsval \<Rightarrow> string" where
  "str_of v = (case v of JStr s \<Rightarrow> s | _ \<Rightarrow> [])"

text \<open>The plans an authority has made: the marked objects.  The host is read from the URL of the origin.\<close>

definition create_stage_plan :: "value_url_parser \<Rightarrow> profile_authority \<Rightarrow> nat \<Rightarrow> nat \<Rightarrow> (graph_profile \<times> string) object \<Rightarrow> jsval
    \<Rightarrow> planned list \<Rightarrow> stage_error + planned \<times> planned list" where
  "create_stage_plan parse A addr now profile v made =
     rbind (guard profile_not_authenticated (authenticates_profile A profile)) (\<lambda>_.
     rbind (validateInput v now) (\<lambda>_.
     case parse (JStr (gp_registryOrigin (fst (snd profile)))) of
       None \<Rightarrow> Inl plan_invalid
     | Some u \<Rightarrow>
         (let p = fst (snd profile);
              plan = \<lparr>sn_stageId = str_of (at v ''stageId''), sn_profileId = gp_profileId p,
                sn_profileDigest = snd (snd profile), sn_registryOrigin = gp_registryOrigin p,
                sn_observationDigest = str_of (at v ''metadataObservationDigest''),
                sn_expiresAt = str_of (at v ''metadataExpiresAt''), sn_nodes = gp_nodes p, sn_hosts = [ur_host u],
                sn_limits = gp_limits p, sn_rootBinding = str_of (at v ''stageRootBinding'')\<rparr>;
              ob = (addr, plan, stage_plan_hash plan)
          in Inr (ob, ob # made))))"

definition authenticates_plan :: "planned list \<Rightarrow> planned \<Rightarrow> bool" where
  "authenticates_plan made p \<longleftrightarrow> p \<in> set made"

subsection \<open>One-time approvals\<close>

record stage_approval =
  sa_stageId :: string
  sa_planHash :: string

record approval_authority =
  aa_issued :: "stage_approval object list"
  aa_consumed :: "nat list"

definition new_approval_authority :: approval_authority where
  "new_approval_authority = \<lparr>aa_issued = [], aa_consumed = []\<rparr>"

definition issueForTest :: "planned list \<Rightarrow> nat \<Rightarrow> planned \<Rightarrow> approval_authority
    \<Rightarrow> stage_error + stage_approval object \<times> approval_authority" where
  "issueForTest made addr p A =
     rbind (guard plan_not_authenticated (authenticates_plan made p)) (\<lambda>_.
       let a = (addr, \<lparr>sa_stageId = sn_stageId (fst (snd p)), sa_planHash = snd (snd p)\<rparr>)
       in Inr (a, A\<lparr>aa_issued := a # aa_issued A\<rparr>))"

definition consume :: "planned list \<Rightarrow> stage_approval object \<Rightarrow> planned \<Rightarrow> approval_authority
    \<Rightarrow> stage_error + approval_authority" where
  "consume made a p A =
     rbind (guard plan_not_authenticated (authenticates_plan made p)) (\<lambda>_.
     rbind (guard approval_invalid (a \<in> set (aa_issued A) \<and> sa_stageId (snd a) = sn_stageId (fst (snd p))
        \<and> sa_planHash (snd a) = snd (snd p))) (\<lambda>_.
     rbind (guard approval_consumed (fst a \<notin> set (aa_consumed A))) (\<lambda>_.
     Inr (A\<lparr>aa_consumed := fst a # aa_consumed A\<rparr>))))"

interpretation approvals: one_time "\<lambda>(made, a, p) A. consume made a p A" aa_consumed "\<lambda>(made, a, p). fst a"
  by unfold_locales (auto simp: consume_def rbind_Inr_iff)

subsection \<open>Artifacts\<close>

record verified_artifact =
  va_installPath :: string
  va_tarballUrl :: jsval
  va_sha512Integrity :: string
  va_compressedBytes :: nat

text \<open>
  What a download gives, piece by piece, each with whether the signal is aborted by then: bytes,
  something that is no bytes, or a failure of the stream.
\<close>

datatype stream_piece = Bytes "byte list" | Not_bytes | Stream_failed

type_synonym byte_stream = "(bool \<times> stream_piece) list"

record integrity_authority =
  it_limits :: stage_limits
  it_paths :: "string list"
  it_bytes :: nat
  it_made :: "verified_artifact object list"

definition new_integrity_authority :: "stage_limits \<Rightarrow> stage_error + integrity_authority" where
  "new_integrity_authority l =
     (if sl_compressedArtifactBytes l = 0 \<or> sl_totalCompressedBytes l < sl_compressedArtifactBytes l then Inl plan_invalid
      else Inr \<lparr>it_limits = l, it_paths = [], it_bytes = 0, it_made = []\<rparr>)"

fun read_stream :: "stage_limits \<Rightarrow> nat \<Rightarrow> byte list \<Rightarrow> byte_stream \<Rightarrow> stage_error + byte list" where
  "read_stream l sofar got [] = Inr got"
| "read_stream l sofar got ((aborted, piece) # s) =
     (case piece of
        Stream_failed \<Rightarrow> Inl (if aborted then artifact_cancelled else integrity_invalid)
      | Not_bytes \<Rightarrow> Inl (if aborted then artifact_cancelled else integrity_invalid)
      | Bytes c \<Rightarrow>
          if aborted then Inl artifact_cancelled
          else let n = length got + length c in
            if sl_compressedArtifactBytes l < n \<or> sl_totalCompressedBytes l < sofar + n then Inl artifact_too_large
            else read_stream l sofar (got @ c) s)"

definition verify_artifact :: "nat \<Rightarrow> graph_node \<Rightarrow> byte_stream \<Rightarrow> bool \<Rightarrow> integrity_authority
    \<Rightarrow> stage_error + verified_artifact object \<times> integrity_authority" where
  "verify_artifact addr n s aborted A =
     rbind (guard integrity_invalid (gn_installPath n \<notin> set (it_paths A))) (\<lambda>_.
     case parseSha512Integrity (gn_sha512Integrity n) of
       None \<Rightarrow> Inl integrity_invalid
     | Some expected \<Rightarrow>
         rbind (read_stream (it_limits A) (it_bytes A) [] s) (\<lambda>bytes.
         rbind (guard artifact_cancelled (\<not> aborted)) (\<lambda>_.
         rbind (guard integrity_mismatch (sha512 bytes = expected)) (\<lambda>_.
           let a = (addr, \<lparr>va_installPath = gn_installPath n, va_tarballUrl = gn_tarballUrl n,
                 va_sha512Integrity = gn_sha512Integrity n, va_compressedBytes = length bytes\<rparr>)
           in Inr (a, A\<lparr>it_bytes := it_bytes A + length bytes, it_paths := gn_installPath n # it_paths A,
                 it_made := a # it_made A\<rparr>)))))"

subsection \<open>Downloading and verifying a whole plan\<close>

record download =
  dl_finalUrl :: string
  dl_redirected :: bool
  dl_body :: byte_stream
  dl_abortedAfter :: bool

text \<open>
  The interfaces of a run: what the downloader answers for a node (\<open>Inl\<close> whether the signal is
  aborted when it fails), and what the archive inspector makes of a verified artifact.
\<close>

record 'p stage_env =
  se_download :: "graph_node \<Rightarrow> bool + download"
  se_preflight :: "verified_artifact object \<Rightarrow> graph_node \<Rightarrow> stage_limits \<Rightarrow> stage_error + 'p"

text \<open>One node: the state is the address of the next artifact, the authority, the artifacts and the preflights.\<close>

type_synonym 'p preflight_state = "nat \<times> integrity_authority \<times> verified_artifact object list \<times> 'p list"

definition stage_node :: "'p stage_env \<Rightarrow> stage_limits \<Rightarrow> graph_node \<Rightarrow> 'p preflight_state \<Rightarrow> stage_error + 'p preflight_state" where
  "stage_node E l n = (\<lambda>(addr, A, arts, pre).
     case se_download E n of
       Inl aborted \<Rightarrow> Inl (if aborted then artifact_cancelled else integrity_invalid)
     | Inr d \<Rightarrow>
         rbind (guard integrity_invalid (\<not> dl_redirected d \<and> JStr (dl_finalUrl d) = gn_tarballUrl n)) (\<lambda>_.
         rbind (verify_artifact addr n (dl_body d) (dl_abortedAfter d) A) (\<lambda>(a, A').
         rbind (guard integrity_invalid (a \<in> set (it_made A'))) (\<lambda>_.
         rbind (se_preflight E a n l) (\<lambda>p.
         Inr (addr + 1, A', arts @ [a], pre @ [p]))))))"

record 'p artifact_preflight =
  sp_artifacts :: "verified_artifact object list"
  sp_preflights :: "'p list"
  sp_compressedBytes :: nat

definition stage_artifacts :: "'p stage_env \<Rightarrow> nat \<Rightarrow> planned \<Rightarrow> stage_error + 'p artifact_preflight" where
  "stage_artifacts E addr p =
     (let plan = fst (snd p) in
     rbind (new_integrity_authority (sn_limits plan)) (\<lambda>A.
     rbind (foldM (stage_node E (sn_limits plan)) (sn_nodes plan) (addr, A, [], [])) (\<lambda>(_, A', arts, pre).
     Inr \<lparr>sp_artifacts = arts, sp_preflights = pre, sp_compressedBytes = it_bytes A'\<rparr>)))"

text \<open>The result and the approval authority, which keeps the consumption whatever comes after.\<close>

definition runSyntheticArtifactPreflight :: "'p stage_env \<Rightarrow> nat \<Rightarrow> planned list \<Rightarrow> planned \<Rightarrow> stage_approval object
    \<Rightarrow> approval_authority \<Rightarrow> (stage_error + 'p artifact_preflight) \<times> approval_authority" where
  "runSyntheticArtifactPreflight E addr made p a A =
     (if \<not> authenticates_plan made p then (Inl plan_not_authenticated, A)
      else case consume made a p A of
        Inl e \<Rightarrow> (Inl e, A)
      | Inr A' \<Rightarrow> (stage_artifacts E addr p, A'))"

subsection \<open>The seal\<close>

record tree_manifest =
  tm_version :: int
  tm_records :: "jsval list"
  tm_digest :: string

definition isTreeManifest :: "tree_manifest \<Rightarrow> bool" where
  "isTreeManifest t \<longleftrightarrow> tm_version t = 1 \<and> is_hash (tm_digest t)"

record commit_evidence =
  ce_stageId :: string
  ce_planHash :: string
  ce_treeDigest :: string

definition recordCommittedForTest :: "planned list \<Rightarrow> nat \<Rightarrow> planned \<Rightarrow> tree_manifest \<Rightarrow> commit_evidence object list
    \<Rightarrow> stage_error + commit_evidence object \<times> commit_evidence object list" where
  "recordCommittedForTest made addr p t recorded =
     rbind (guard plan_not_authenticated (authenticates_plan made p)) (\<lambda>_.
     rbind (guard tree_invalid (isTreeManifest t)) (\<lambda>_.
       let e = (addr, \<lparr>ce_stageId = sn_stageId (fst (snd p)), ce_planHash = snd (snd p), ce_treeDigest = tm_digest t\<rparr>)
       in Inr (e, e # recorded)))"

record sealed_stage =
  ss_stageId :: string
  ss_profileId :: string
  ss_profileDigest :: string
  ss_planHash :: string
  ss_treeDigest :: string

definition sealForTest :: "profile_authority \<Rightarrow> planned list \<Rightarrow> commit_evidence object list \<Rightarrow> nat
    \<Rightarrow> (graph_profile \<times> string) object \<Rightarrow> planned \<Rightarrow> tree_manifest \<Rightarrow> commit_evidence object \<Rightarrow> sealed_stage object list
    \<Rightarrow> stage_error + sealed_stage object \<times> sealed_stage object list" where
  "sealForTest A made recorded addr profile p t e sealed =
     (let plan = fst (snd p) in
     rbind (guard profile_not_authenticated (authenticates_profile A profile)) (\<lambda>_.
     rbind (guard plan_not_authenticated (authenticates_plan made p)) (\<lambda>_.
     rbind (guard tree_invalid (isTreeManifest t)) (\<lambda>_.
     rbind (guard stage_audit_incomplete (e \<in> set recorded)) (\<lambda>_.
     rbind (guard stage_audit_incomplete
       (sn_profileId plan = gp_profileId (fst (snd profile)) \<and> sn_profileDigest plan = snd (snd profile)
        \<and> ce_stageId (snd e) = sn_stageId plan \<and> ce_planHash (snd e) = snd (snd p)
        \<and> ce_treeDigest (snd e) = tm_digest t)) (\<lambda>_.
       let s = (addr, \<lparr>ss_stageId = sn_stageId plan, ss_profileId = gp_profileId (fst (snd profile)),
             ss_profileDigest = snd (snd profile), ss_planHash = snd (snd p), ss_treeDigest = tm_digest t\<rparr>)
       in Inr (s, s # sealed)))))))"

subsection \<open>Verified artifacts\<close>

text \<open>The bytes of a stream that is read to its end.\<close>

definition stream_bytes :: "byte_stream \<Rightarrow> byte list" where
  "stream_bytes s = concat (map (\<lambda>x. case snd x of Bytes c \<Rightarrow> c | _ \<Rightarrow> []) s)"

lemma read_stream_Inr:
  "read_stream l sofar got s = Inr bytes \<Longrightarrow> length got \<le> sl_compressedArtifactBytes l
    \<Longrightarrow> sofar + length got \<le> sl_totalCompressedBytes l
    \<Longrightarrow> bytes = got @ stream_bytes s \<and> length bytes \<le> sl_compressedArtifactBytes l
        \<and> sofar + length bytes \<le> sl_totalCompressedBytes l"
  by (induction l sofar got s rule: read_stream.induct)
     (auto simp: stream_bytes_def Let_def split: stream_piece.splits if_splits)

text \<open>The state of an integrity authority: what it has verified adds up and stays within the limit.\<close>

definition integrity_ok :: "integrity_authority \<Rightarrow> bool" where
  "integrity_ok A \<longleftrightarrow> it_bytes A = sum_list (map (va_compressedBytes \<circ> snd) (it_made A))
     \<and> it_bytes A \<le> sl_totalCompressedBytes (it_limits A)
     \<and> it_paths A = map (va_installPath \<circ> snd) (it_made A) \<and> distinct (it_paths A)
     \<and> list_all (\<lambda>a. va_compressedBytes (snd a) \<le> sl_compressedArtifactBytes (it_limits A)) (it_made A)"

lemma new_integrity_ok: "new_integrity_authority l = Inr A \<Longrightarrow> integrity_ok A \<and> it_limits A = l"
  by (auto simp: new_integrity_authority_def integrity_ok_def split: if_splits)

text \<open>What a verified artifact is: the bytes that came have the digest the node names.\<close>

definition artifact_of :: "graph_node \<Rightarrow> byte list \<Rightarrow> verified_artifact \<Rightarrow> bool" where
  "artifact_of n bytes a \<longleftrightarrow> va_installPath a = gn_installPath n \<and> va_tarballUrl a = gn_tarballUrl n
     \<and> va_sha512Integrity a = gn_sha512Integrity n \<and> va_compressedBytes a = length bytes
     \<and> gn_sha512Integrity n = ''sha512-'' @ b64_encode (sha512 bytes)"

lemma verify_artifact_Inr:
  assumes "verify_artifact addr n s aborted A = Inr (a, A')" "integrity_ok A"
  shows "artifact_of n (stream_bytes s) (snd a) \<and> integrity_ok A' \<and> it_limits A' = it_limits A
    \<and> it_made A' = a # it_made A \<and> gn_installPath n \<notin> set (it_paths A) \<and> \<not> aborted"
proof -
  obtain expected bytes where e: "gn_installPath n \<notin> set (it_paths A)" "parseSha512Integrity (gn_sha512Integrity n) = Some expected"
    "read_stream (it_limits A) (it_bytes A) [] s = Inr bytes" "\<not> aborted" "sha512 bytes = expected"
    "a = (addr, \<lparr>va_installPath = gn_installPath n, va_tarballUrl = gn_tarballUrl n,
                 va_sha512Integrity = gn_sha512Integrity n, va_compressedBytes = length bytes\<rparr>)"
    "A' = A\<lparr>it_bytes := it_bytes A + length bytes, it_paths := gn_installPath n # it_paths A, it_made := a # it_made A\<rparr>"
    using assms(1) by (auto simp: verify_artifact_def Let_def rbind_Inr_iff split: option.splits)
  have "bytes = stream_bytes s \<and> length bytes \<le> sl_compressedArtifactBytes (it_limits A)
      \<and> it_bytes A + length bytes \<le> sl_totalCompressedBytes (it_limits A)"
    using read_stream_Inr [OF e(3)] assms(2) by (auto simp: integrity_ok_def)
  moreover have "gn_sha512Integrity n = ''sha512-'' @ b64_encode expected" using e(2) by (simp add: parseSha512Integrity_iff)
  ultimately show ?thesis using e assms(2) by (auto simp: artifact_of_def integrity_ok_def)
qed

text \<open>What the run has done for a node.\<close>

definition node_staged :: "'p stage_env \<Rightarrow> graph_node \<Rightarrow> verified_artifact object \<Rightarrow> bool" where
  "node_staged E n a \<longleftrightarrow> (\<exists>d. se_download E n = Inr d \<and> \<not> dl_redirected d \<and> gn_tarballUrl n = JStr (dl_finalUrl d)
     \<and> artifact_of n (stream_bytes (dl_body d)) (snd a))"

lemma stage_node_Inr:
  assumes "stage_node E l n (addr, A, arts, pre) = Inr (addr', A', arts', pre')" "integrity_ok A"
  shows "integrity_ok A' \<and> it_limits A' = it_limits A \<and> (\<exists>a p. arts' = arts @ [a] \<and> pre' = pre @ [p] \<and> it_made A' = a # it_made A
    \<and> node_staged E n a \<and> se_preflight E a n l = Inr p)"
proof -
  obtain d a p where d: "se_download E n = Inr d" "\<not> dl_redirected d" "JStr (dl_finalUrl d) = gn_tarballUrl n"
    "verify_artifact addr n (dl_body d) (dl_abortedAfter d) A = Inr (a, A')" "se_preflight E a n l = Inr p"
    "arts' = arts @ [a]" "pre' = pre @ [p]"
    using assms(1) by (auto simp: stage_node_def rbind_Inr_iff split: sum.splits)
  note v = verify_artifact_Inr [OF d(4) assms(2)]
  then have "node_staged E n a" unfolding node_staged_def using d(1-3) by metis
  with v d show ?thesis by blast
qed

lemma stage_nodes_Inr:
  assumes "foldM (stage_node E l) ns (addr, A, arts, pre) = Inr (addr', A', arts', pre')" "integrity_ok A"
    "it_made A = List.rev arts"
  shows "integrity_ok A' \<and> it_limits A' = it_limits A \<and> it_made A' = List.rev arts'
    \<and> (\<exists>new ps. arts' = arts @ new \<and> pre' = pre @ ps \<and> list_all2 (node_staged E) ns new
        \<and> list_all2 (\<lambda>(n, a) p. se_preflight E a n l = Inr p) (zip ns new) ps)"
  using assms
proof (induction ns arbitrary: addr A arts pre)
  case (Cons n ns)
  from Cons.prems(1) obtain addr1 A1 arts1 pre1 where
    1: "stage_node E l n (addr, A, arts, pre) = Inr (addr1, A1, arts1, pre1)"
    and r: "foldM (stage_node E l) ns (addr1, A1, arts1, pre1) = Inr (addr', A', arts', pre')"
    by (auto simp: rbind_Inr_iff)
  note s = stage_node_Inr [OF 1 Cons.prems(2)]
  then have "it_made A1 = List.rev arts1" using Cons.prems(3) by auto
  from Cons.IH [OF r _ this] s show ?case by fastforce
qed auto



text \<open>
  A seal is backed by everything it names.  A stage is sealed only for an authenticated
  profile and an authenticated plan of that profile, with audit evidence that was recorded for
  this stage, this plan hash and this tree.
\<close>

theorem seal_is_backed:
  assumes "sealForTest A made recorded addr profile p t e sealed = Inr (s, sealed')"
  shows "authenticates_profile A profile \<and> authenticates_plan made p \<and> isTreeManifest t \<and> e \<in> set recorded
    \<and> ss_profileDigest (snd s) = snd (snd profile) \<and> sn_profileDigest (fst (snd p)) = snd (snd profile)
    \<and> ss_planHash (snd s) = snd (snd p) \<and> ce_planHash (snd e) = snd (snd p)
    \<and> ss_treeDigest (snd s) = tm_digest t \<and> ce_treeDigest (snd e) = tm_digest t
    \<and> ss_stageId (snd s) = sn_stageId (fst (snd p)) \<and> ce_stageId (snd e) = sn_stageId (fst (snd p))
    \<and> sealed' = s # sealed"
  using assms by (auto simp: sealForTest_def Let_def rbind_Inr_iff)

subsection \<open>A concrete stage\<close>

definition demo_hash :: "nat list" where "demo_hash = sha512 [1]"

definition demo_profile_object :: "(graph_profile \<times> string) object" where
  "demo_profile_object = (7, demo_graph_profile demo_hash, profile_digest (demo_graph_profile demo_hash))"

definition demo_profiles :: profile_authority where
  "demo_profiles = \<lparr>pa_profiles = [(''p'', demo_profile_object)]\<rparr>"

definition demo_stage_input :: jsval where
  "demo_stage_input = JObj [(''stageId'', JStr (replicate 32 (CHR ''0''))),
     (''metadataObservationDigest'', JStr (replicate 64 (CHR ''1''))), (''metadataExpiresAt'', JStr (iso_text 1000)),
     (''stageRootBinding'', JStr (replicate 64 (CHR ''2'')))]"

definition demo_stage_plan :: stage_plan where
  "demo_stage_plan = \<lparr>sn_stageId = replicate 32 (CHR ''0''), sn_profileId = ''p'',
     sn_profileDigest = profile_digest (demo_graph_profile demo_hash), sn_registryOrigin = ''https://r/'',
     sn_observationDigest = replicate 64 (CHR ''1''), sn_expiresAt = iso_text 1000, sn_nodes = [demo_node demo_hash],
     sn_hosts = [''r''], sn_limits = PACKAGE_STAGE_HARD_CEILINGS, sn_rootBinding = replicate 64 (CHR ''2'')\<rparr>"

definition demo_planned :: planned where
  "demo_planned = (8, demo_stage_plan, stage_plan_hash demo_stage_plan)"

lemma demo_profiles_made:
  "new_profile_authority demo_value_urls 7 [demo_definition demo_hash] = Inr demo_profiles"
  using demo_authority [of demo_hash] sha512_bytes [of _ "[1]"]
  by (simp add: demo_profiles_def demo_profile_object_def demo_hash_def list_all_iff)

lemma demo_plan_made: "create_stage_plan demo_value_urls demo_profiles 8 0 demo_profile_object demo_stage_input [] = Inr (demo_planned, [demo_planned])"
proof -
  have a: "authenticates_profile demo_profiles demo_profile_object"
    by (simp add: authenticates_profile_def demo_profiles_def)
  have t: "isCanonicalTimestamp (iso_text 1000) = Some 1000"
    by (simp add: isCanonicalTimestamp_def parse_iso_text toISOString_def max_time_def)
  have k: "join_with '','' (sort_text (keys_of demo_stage_input))
      = join_with '','' [''metadataExpiresAt'', ''metadataObservationDigest'', ''stageId'', ''stageRootBinding'']"
    by (simp add: keys_of_def demo_stage_input_def sort_text_def)
  have "validateInput demo_stage_input 0 = Inr ()"
    using t k by (simp add: validateInput_def hex_text_def demo_stage_input_def is_obj_def list_all_iff is_hex_def is_digit_def)
  with a show ?thesis
    by (simp add: create_stage_plan_def demo_profile_object_def demo_graph_profile_def demo_value_urls_def demo_planned_def
        demo_stage_plan_def Let_def demo_stage_input_def str_of_def)
qed

definition demo_stage_env :: "unit stage_env" where
  "demo_stage_env = \<lparr>se_download = (\<lambda>_. Inr \<lparr>dl_finalUrl = ''https://r/a.tgz'', dl_redirected = False,
     dl_body = [(False, Bytes [1])], dl_abortedAfter = False\<rparr>), se_preflight = (\<lambda>_ _ _. Inr ())\<rparr>"

definition demo_stage_approval :: "stage_approval object" where
  "demo_stage_approval = (9, \<lparr>sa_stageId = replicate 32 (CHR ''0''), sa_planHash = stage_plan_hash demo_stage_plan\<rparr>)"

lemma demo_approved: "issueForTest [demo_planned] 9 demo_planned new_approval_authority
    = Inr (demo_stage_approval, \<lparr>aa_issued = [demo_stage_approval], aa_consumed = []\<rparr>)"
  by (simp add: issueForTest_def authenticates_plan_def demo_stage_approval_def demo_planned_def demo_stage_plan_def
      new_approval_authority_def Let_def)

lemma demo_consumed: "consume [demo_planned] demo_stage_approval demo_planned \<lparr>aa_issued = [demo_stage_approval], aa_consumed = []\<rparr>
    = Inr \<lparr>aa_issued = [demo_stage_approval], aa_consumed = [9]\<rparr>"
  by (simp add: consume_def authenticates_plan_def demo_stage_approval_def demo_planned_def demo_stage_plan_def)

lemma demo_run: "\<exists>r. runSyntheticArtifactPreflight demo_stage_env 10 [demo_planned] demo_planned demo_stage_approval
    \<lparr>aa_issued = [demo_stage_approval], aa_consumed = []\<rparr> = (Inr r, \<lparr>aa_issued = [demo_stage_approval], aa_consumed = [9]\<rparr>)"
proof -
  have "parseSha512Integrity (demo_integrity demo_hash) = Some demo_hash"
    using sha512_bytes [of _ "[1]"] by (simp add: parseSha512Integrity_iff demo_integrity_def demo_hash_def list_all_iff)
  then have "\<exists>r. stage_artifacts demo_stage_env 10 demo_planned = Inr r"
    by (simp add: stage_artifacts_def demo_planned_def demo_stage_plan_def new_integrity_authority_def
        PACKAGE_STAGE_HARD_CEILINGS_def stage_node_def demo_stage_env_def demo_node_def verify_artifact_def Let_def demo_hash_def)
  then show ?thesis
    using demo_consumed by (auto simp: runSyntheticArtifactPreflight_def authenticates_plan_def)
qed



theorem seal_is_backed_witness:
  "\<exists>s e. sealForTest demo_profiles [demo_planned] [e] 13 demo_profile_object demo_planned
      \<lparr>tm_version = 1, tm_records = [], tm_digest = sha256 []\<rparr> e [] = Inr (s, [s]) \<and> ce_treeDigest (snd e) = sha256 []"
proof -
  let ?t = "\<lparr>tm_version = 1, tm_records = [], tm_digest = sha256 []\<rparr>"
  let ?e = "(12, \<lparr>ce_stageId = sn_stageId demo_stage_plan, ce_planHash = stage_plan_hash demo_stage_plan, ce_treeDigest = sha256 []\<rparr>)"
  have "\<exists>s. sealForTest demo_profiles [demo_planned] [?e] 13 demo_profile_object demo_planned ?t ?e [] = Inr (s, [s])"
    by (simp add: sealForTest_def authenticates_profile_def authenticates_plan_def demo_profiles_def isTreeManifest_def
        sha256_is_hash demo_planned_def demo_profile_object_def Let_def) (simp add: demo_stage_plan_def demo_graph_profile_def)
  then obtain s where s: "sealForTest demo_profiles [demo_planned] [?e] 13 demo_profile_object demo_planned ?t ?e [] = Inr (s, [s])"
    by blast
  from seal_is_backed [OF s] s show ?thesis by (intro exI [of _ s] exI [of _ ?e]) simp
qed

end
