(* ===== verification/ArchivePolicy.thy ===== *)
theory ArchivePolicy
  imports Stage
begin

unbundle bit_operations_syntax

section \<open>What an archive may hold\<close>

text \<open>
  Models src/stage/archive-policy.ts: the check of the entries of an archive before anything is
  written, with the totals that one policy keeps over all the archives of a stage.  A description
  is data of any shape; modes are numbers, \<open>0o7777\<close> is 4095, \<open>0o6000\<close> is 3072 and \<open>0o111\<close> is 73.
\<close>

datatype entry_type = Entry_file | Entry_directory

record valid_entry =
  ve_path :: string
  ve_type :: entry_type
  ve_size :: nat
  ve_mode :: nat

record archive_policy =
  ap_limits :: stage_limits
  ap_bytes :: nat
  ap_entries :: nat

record archive_preflight =
  af_entries :: "valid_entry list"
  af_count :: nat
  af_bytes :: nat

definition new_archive_policy :: "stage_limits \<Rightarrow> archive_policy" where
  "new_archive_policy l = \<lparr>ap_limits = l, ap_bytes = 0, ap_entries = 0\<rparr>"

definition ENTRY_KEYS :: "string list" where
  "ENTRY_KEYS = [''path'', ''type'', ''size'', ''mode'', ''linkTarget'', ''sparse'', ''hasExtendedAttributes'']"

text \<open>\<open>assertEntryShape\<close>.\<close>

definition entry_shape :: "jsval \<Rightarrow> bool" where
  "entry_shape v \<longleftrightarrow> is_obj v \<and> list_all (\<lambda>k. k \<in> set (keys_of v)) [''path'', ''type'', ''size'', ''mode'']
     \<and> list_all (\<lambda>k. k \<in> set ENTRY_KEYS) (keys_of v)"

definition safe_nat_at :: "jsval \<Rightarrow> string \<Rightarrow> nat option" where
  "safe_nat_at v k = (case at v k of
     JNum (NInt i) \<Rightarrow> if 0 \<le> i \<and> i \<le> max_safe then Some (nat i) else None | _ \<Rightarrow> None)"

definition entry_type_at :: "jsval \<Rightarrow> entry_type option" where
  "entry_type_at v =
     (if at v ''type'' = JStr ''file'' then Some Entry_file
      else if at v ''type'' = JStr ''directory'' then Some Entry_directory else None)"

definition plain_entry :: "jsval \<Rightarrow> entry_type \<Rightarrow> nat \<Rightarrow> nat \<Rightarrow> bool" where
  "plain_entry v t n mode \<longleftrightarrow> at v ''sparse'' \<noteq> JBool True \<and> at v ''hasExtendedAttributes'' \<noteq> JBool True
     \<and> at v ''linkTarget'' = JUndef \<and> mode \<le> 4095 \<and> mode AND 3072 = 0 \<and> (t = Entry_directory \<longrightarrow> n = 0)"

definition archiveRelativePath :: "stage_limits \<Rightarrow> jsval \<Rightarrow> stage_error + string" where
  "archiveRelativePath l v =
     (case v of
        JStr path \<Rightarrow> let segments = split_on (CHR ''/'') path in
          rbind (guard archive_invalid (portable_text l path)) (\<lambda>_.
          rbind (guard archive_invalid (hd segments = ''package'' \<and> 2 \<le> length segments
            \<and> length segments - 1 \<le> sl_pathDepth l \<and> list_all plain_segment segments)) (\<lambda>_.
          Inr (join_with ''/'' (tl segments))))
      | _ \<Rightarrow> Inl archive_invalid)"

definition normalizedMode :: "entry_type \<Rightarrow> nat \<Rightarrow> nat" where
  "normalizedMode t mode = (if t = Entry_directory then 493 else if mode AND 73 = 0 then 420 else 493)"

definition check_entry :: "stage_limits \<Rightarrow> jsval \<Rightarrow> stage_error + valid_entry" where
  "check_entry l v =
     rbind (guard archive_invalid (entry_shape v)) (\<lambda>_.
     case (entry_type_at v, safe_nat_at v ''size'', safe_nat_at v ''mode'') of
       (Some t, Some n, Some mode) \<Rightarrow>
         rbind (guard archive_invalid (plain_entry v t n mode)) (\<lambda>_.
         rbind (archiveRelativePath l (at v ''path'')) (\<lambda>path.
         rbind (guard archive_invalid (''node_modules'' \<notin> set (split_on (CHR ''/'') path)
           \<and> ''.npmrc'' \<notin> set (split_on (CHR ''/'') path))) (\<lambda>_.
         Inr \<lparr>ve_path = path, ve_type = t, ve_size = n, ve_mode = normalizedMode t mode\<rparr>)))
     | _ \<Rightarrow> Inl archive_invalid)"

definition portable_key :: "valid_entry \<Rightarrow> string" where
  "portable_key e = locale_lower (ve_path e)"

text \<open>One round of the loop: the entries so far and \<open>expandedBytes\<close>.\<close>

definition add_entry :: "archive_policy \<Rightarrow> jsval \<Rightarrow> valid_entry list \<times> nat \<Rightarrow> stage_error + valid_entry list \<times> nat" where
  "add_entry P v = (\<lambda>(es, bytes).
     rbind (check_entry (ap_limits P) v) (\<lambda>e.
     let bytes' = (if ve_type e = Entry_file then bytes + ve_size e else bytes) in
     rbind (guard archive_invalid (ve_path e \<notin> set (map ve_path es) \<and> portable_key e \<notin> set (map portable_key es))) (\<lambda>_.
     rbind (guard archive_limit_exceeded (ve_type e = Entry_file \<longrightarrow> ve_size e \<le> sl_regularFileBytes (ap_limits P))) (\<lambda>_.
     rbind (guard archive_limit_exceeded (bytes' \<le> sl_uncompressedArtifactBytes (ap_limits P)
       \<and> ap_bytes P + bytes' \<le> sl_totalUncompressedBytes (ap_limits P))) (\<lambda>_.
     Inr (es @ [e], bytes'))))))"

definition entry_lt :: "valid_entry \<Rightarrow> valid_entry \<Rightarrow> bool" where
  "entry_lt a b = text_lt (ve_path a) (ve_path b)"

definition preflight :: "archive_policy \<Rightarrow> jsval \<Rightarrow> stage_error + archive_preflight \<times> archive_policy" where
  "preflight P v =
     (case v of
        JArr xs \<Rightarrow>
          rbind (guard archive_invalid (xs \<noteq> [])) (\<lambda>_.
          rbind (foldM (add_entry P) xs ([], 0)) (\<lambda>(es, bytes).
          rbind (guard archive_limit_exceeded (length es \<le> sl_archiveEntries (ap_limits P)
            \<and> ap_entries P + length es \<le> sl_archiveEntries (ap_limits P))) (\<lambda>_.
          Inr (\<lparr>af_entries = isort entry_lt es, af_count = length es, af_bytes = bytes\<rparr>,
               P\<lparr>ap_bytes := ap_bytes P + bytes, ap_entries := ap_entries P + length es\<rparr>))))
      | _ \<Rightarrow> Inl archive_invalid)"

text \<open>One policy is asked about the archives of a stage in turn.\<close>

fun preflights :: "archive_policy \<Rightarrow> jsval list \<Rightarrow> stage_error + archive_preflight list \<times> archive_policy" where
  "preflights P [] = Inr ([], P)"
| "preflights P (v # vs) = rbind (preflight P v) (\<lambda>(r, P'). rbind (preflights P' vs) (\<lambda>(rs, P''). Inr (r # rs, P'')))"

subsection \<open>When it accepts\<close>

definition entry_bytes :: "valid_entry list \<Rightarrow> nat" where
  "entry_bytes es = sum_list (map ve_size (filter (\<lambda>e. ve_type e = Entry_file) es))"

lemma entry_bytes_simps:
  "entry_bytes [] = 0" "entry_bytes (xs @ ys) = entry_bytes xs + entry_bytes ys"
  "entry_bytes (e # es) = (if ve_type e = Entry_file then ve_size e else 0) + entry_bytes es"
  by (simp_all add: entry_bytes_def)

lemma entry_bytes_mset: "entry_bytes es = \<Sum>\<^sub># (image_mset ve_size (filter_mset (\<lambda>e. ve_type e = Entry_file) (mset es)))"
  by (simp add: entry_bytes_def sum_mset_sum_list flip: mset_filter mset_map)

lemma mapM_Cons_Inr: "mapM f (x # xs) = Inr ys \<longleftrightarrow> (\<exists>z zs. f x = Inr z \<and> mapM f xs = Inr zs \<and> ys = z # zs)"
  by (auto split: sum.splits)

text \<open>The checks that concern the entries together, after the entries \<open>es\<close>.\<close>

definition entries_fit :: "archive_policy \<Rightarrow> valid_entry list \<Rightarrow> bool" where
  "entries_fit P es \<longleftrightarrow> distinct (map portable_key es)
     \<and> list_all (\<lambda>e. ve_type e = Entry_file \<longrightarrow> ve_size e \<le> sl_regularFileBytes (ap_limits P)) es
     \<and> entry_bytes es \<le> sl_uncompressedArtifactBytes (ap_limits P)
     \<and> ap_bytes P + entry_bytes es \<le> sl_totalUncompressedBytes (ap_limits P)"

lemma entries_fit_prefix: "entries_fit P (es @ fs) \<Longrightarrow> entries_fit P es"
  by (auto simp: entries_fit_def entry_bytes_simps)

lemma add_entry_Inr:
  assumes "entries_fit P es \<or> es = []"
  shows "add_entry P v (es, entry_bytes es) = Inr s \<longleftrightarrow>
    (\<exists>e. check_entry (ap_limits P) v = Inr e \<and> entries_fit P (es @ [e]) \<and> s = (es @ [e], entry_bytes (es @ [e])))"
proof -
  have "portable_key e \<in> portable_key ` set es" if "ve_path e \<in> ve_path ` set es" for e
    using that by (auto simp: portable_key_def)
  with assms show ?thesis
    by (auto simp: add_entry_def rbind_Inr_iff entries_fit_def Let_def entry_bytes_simps)
qed

lemma add_entries_Inr:
  "entries_fit P es \<Longrightarrow> foldM (add_entry P) vs (es, entry_bytes es) = Inr s \<longleftrightarrow>
     (\<exists>fs. mapM (check_entry (ap_limits P)) vs = Inr fs \<and> entries_fit P (es @ fs) \<and> s = (es @ fs, entry_bytes (es @ fs)))"
proof (induction vs arbitrary: es)
  case (Cons v vs)
  have "foldM (add_entry P) (v # vs) (es, entry_bytes es) = Inr s \<longleftrightarrow>
    (\<exists>e. check_entry (ap_limits P) v = Inr e \<and> entries_fit P (es @ [e])
       \<and> foldM (add_entry P) vs (es @ [e], entry_bytes (es @ [e])) = Inr s)"
    using add_entry_Inr [OF disjI1 [OF Cons.prems]] by (auto simp: rbind_Inr_iff)
  also have "\<dots> \<longleftrightarrow> (\<exists>e fs. check_entry (ap_limits P) v = Inr e \<and> entries_fit P (es @ [e])
       \<and> mapM (check_entry (ap_limits P)) vs = Inr fs \<and> entries_fit P ((es @ [e]) @ fs)
       \<and> s = ((es @ [e]) @ fs, entry_bytes ((es @ [e]) @ fs)))"
    using Cons.IH by blast
  also have "\<dots> \<longleftrightarrow> (\<exists>fs. mapM (check_entry (ap_limits P)) (v # vs) = Inr fs \<and> entries_fit P (es @ fs)
       \<and> s = (es @ fs, entry_bytes (es @ fs)))"
    using entries_fit_prefix [of P "es @ [e]" for e] unfolding mapM_Cons_Inr by fastforce
  finally show ?case .
qed auto

lemma preflight_spec:
  "preflight P v = Inr (r, P') \<longleftrightarrow>
     (\<exists>xs es. v = JArr xs \<and> xs \<noteq> [] \<and> mapM (check_entry (ap_limits P)) xs = Inr es \<and> entries_fit P es
        \<and> ap_entries P + length es \<le> sl_archiveEntries (ap_limits P)
        \<and> r = \<lparr>af_entries = isort entry_lt es, af_count = length es, af_bytes = entry_bytes es\<rparr>
        \<and> P' = P\<lparr>ap_bytes := ap_bytes P + entry_bytes es, ap_entries := ap_entries P + length es\<rparr>)"
proof -
  have "foldM (add_entry P) xs ([], 0) = Inr s \<longleftrightarrow>
      (\<exists>es. mapM (check_entry (ap_limits P)) xs = Inr es \<and> entries_fit P es \<and> s = (es, entry_bytes es))"
    if ne: "xs \<noteq> []" for xs s
  proof -
    obtain y ys where xs: "xs = y # ys" using ne by (cases xs) auto
    have more: "foldM (add_entry P) ys ([e], entry_bytes [e]) = Inr s \<longleftrightarrow>
        (\<exists>es. mapM (check_entry (ap_limits P)) ys = Inr es \<and> entries_fit P (e # es) \<and> s = (e # es, entry_bytes (e # es)))"
      if "entries_fit P [e]" for e
      using add_entries_Inr [OF that, of ys s] by simp
    have "foldM (add_entry P) xs ([], 0) = Inr s \<longleftrightarrow> (\<exists>e. check_entry (ap_limits P) y = Inr e \<and> entries_fit P [e]
        \<and> foldM (add_entry P) ys ([e], entry_bytes [e]) = Inr s)"
      using add_entry_Inr [of P "[]" y, unfolded entry_bytes_simps(1)] unfolding xs by (auto simp: rbind_Inr_iff)
    also have "\<dots> \<longleftrightarrow> (\<exists>e es. check_entry (ap_limits P) y = Inr e \<and> entries_fit P [e]
        \<and> mapM (check_entry (ap_limits P)) ys = Inr es \<and> entries_fit P (e # es) \<and> s = (e # es, entry_bytes (e # es)))"
      using more by blast
    also have "\<dots> \<longleftrightarrow> (\<exists>es. mapM (check_entry (ap_limits P)) xs = Inr es \<and> entries_fit P es \<and> s = (es, entry_bytes es))"
      using entries_fit_prefix [of P "[e]" for e] unfolding xs mapM_Cons_Inr by fastforce
    finally show ?thesis .
  qed
  then show ?thesis
    by (auto simp: preflight_def rbind_Inr_iff split: jsval.splits)
qed

text \<open>What every accepted entry is.\<close>

definition entry_contained :: "stage_limits \<Rightarrow> valid_entry \<Rightarrow> bool" where
  "entry_contained l e \<longleftrightarrow>
     (let segments = split_on (CHR ''/'') (ve_path e) in
      (\<forall>d. walk d segments = List.rev segments @ d) \<and> length segments \<le> sl_pathDepth l
      \<and> length (ve_path e) \<le> sl_relativePathBytes l
      \<and> ''node_modules'' \<notin> set segments \<and> ''.npmrc'' \<notin> set segments
      \<and> ve_mode e \<in> {420, 493} \<and> (ve_type e = Entry_directory \<longrightarrow> ve_size e = 0 \<and> ve_mode e = 493))"

lemma archiveRelativePath_Inr:
  assumes "archiveRelativePath l v = Inr p"
  shows "v = JStr (''package/'' @ p) \<and> list_all plain_segment (split_on (CHR ''/'') p)
    \<and> length (split_on (CHR ''/'') p) \<le> sl_pathDepth l \<and> length p \<le> sl_relativePathBytes l"
proof -
  obtain path where v: "v = JStr path" using assms by (auto simp: archiveRelativePath_def split: jsval.splits)
  let ?s = "split_on (CHR ''/'') path"
  have e: "utf8_length path \<le> sl_relativePathBytes l" "hd ?s = ''package''" "2 \<le> length ?s"
    "length ?s - 1 \<le> sl_pathDepth l" "list_all plain_segment ?s" "p = join_with ''/'' (tl ?s)"
    using assms by (auto simp: archiveRelativePath_def v Let_def portable_text_def)
  then obtain t ts where s: "?s = ''package'' # t # ts" by (cases ?s; cases "tl ?s") auto
  have "split_on (CHR ''/'') p = t # ts"
    using split_join [of "t # ts" "CHR ''/''"] split_on_no_sep [of _ "CHR ''/''" path] e(6) unfolding s by auto
  moreover have "path = ''package/'' @ p"
    using join_split [of "CHR ''/''" path] e(6) unfolding s by simp
  moreover have "length path \<le> sl_relativePathBytes l" using utf8_length_ge [of path] e(1) by linarith
  ultimately show ?thesis using e(4,5) unfolding v s by simp
qed

lemma check_entry_contained: "check_entry l v = Inr e \<Longrightarrow> entry_contained l e"
  by (auto simp: check_entry_def rbind_Inr_iff entry_contained_def plain_entry_def normalizedMode_def Let_def walk_plain
      split: option.splits if_splits dest!: archiveRelativePath_Inr)

definition preflight_contained :: "stage_limits \<Rightarrow> archive_preflight \<Rightarrow> bool" where
  "preflight_contained l r \<longleftrightarrow> af_entries r \<noteq> [] \<and> list_all (entry_contained l) (af_entries r)
     \<and> sorted_wrt entry_lt (af_entries r) \<and> distinct (map portable_key (af_entries r))
     \<and> af_count r = length (af_entries r) \<and> af_bytes r = entry_bytes (af_entries r)
     \<and> af_bytes r \<le> sl_uncompressedArtifactBytes l"

lemma preflight_Inr:
  assumes "preflight P v = Inr (r, P')"
  shows "preflight_contained (ap_limits P) r \<and> ap_limits P' = ap_limits P
    \<and> ap_bytes P' = ap_bytes P + af_bytes r \<and> ap_bytes P' \<le> sl_totalUncompressedBytes (ap_limits P)
    \<and> ap_entries P' = ap_entries P + af_count r \<and> ap_entries P' \<le> sl_archiveEntries (ap_limits P)"
proof -
  obtain xs es where e: "v = JArr xs" "xs \<noteq> []" "mapM (check_entry (ap_limits P)) xs = Inr es" "entries_fit P es"
    "ap_entries P + length es \<le> sl_archiveEntries (ap_limits P)"
    "r = \<lparr>af_entries = isort entry_lt es, af_count = length es, af_bytes = entry_bytes es\<rparr>"
    "P' = P\<lparr>ap_bytes := ap_bytes P + entry_bytes es, ap_entries := ap_entries P + length es\<rparr>"
    using assms unfolding preflight_spec by blast
  have k: "distinct (map portable_key es)" using e(4) by (simp add: entries_fit_def)
  then have "distinct (map (locale_lower \<circ> ve_path) es)" by (simp add: portable_key_def [abs_def] comp_def)
  then have "distinct (map ve_path es)" using distinct_map by (metis map_map)
  then have "sorted_wrt entry_lt (isort entry_lt es)"
    using sorted_isort_key [of ve_path es] by (simp add: entry_lt_def [abs_def])
  moreover have "list_all (entry_contained (ap_limits P)) (isort entry_lt es)"
    using e(3) by (auto simp: list_all_iff dest: mapM_results check_entry_contained)
  moreover have "entry_bytes (isort entry_lt es) = entry_bytes es"
    by (simp add: entry_bytes_mset)
  moreover have "es \<noteq> []" using e(2) mapM_length [OF e(3)] by auto
  ultimately show ?thesis
    using e(4-7) k by (simp add: preflight_contained_def entries_fit_def distinct_map_isort)
qed

lemma preflights_Inr:
  assumes "preflights P vs = Inr (rs, P')"
    "ap_bytes P \<le> sl_totalUncompressedBytes (ap_limits P)" "ap_entries P \<le> sl_archiveEntries (ap_limits P)"
  shows "list_all (preflight_contained (ap_limits P)) rs \<and> length rs = length vs
    \<and> ap_bytes P + sum_list (map af_bytes rs) \<le> sl_totalUncompressedBytes (ap_limits P)
    \<and> ap_entries P + sum_list (map af_count rs) \<le> sl_archiveEntries (ap_limits P)"
  using assms
proof (induction P vs arbitrary: rs P' rule: preflights.induct)
  case (2 P v vs)
  then obtain r P1 rs1 where r: "preflight P v = Inr (r, P1)" "preflights P1 vs = Inr (rs1, P')" "rs = r # rs1"
    by (auto simp: rbind_Inr_iff)
  note p = preflight_Inr [OF r(1)]
  from 2(1) [OF r(1) refl r(2)] p show ?case by (auto simp: r(3) add.assoc)
qed simp

text \<open>
  The policy accepts exactly the lists of descriptions that are plain one by one, have
  different paths even on a file system that ignores case, and fit the limits together with all
  that the policy has accepted before; the result lists them in the order of their paths.
\<close>

theorem preflight_iff:
  "preflight P v = Inr (r, P') \<longleftrightarrow>
     (\<exists>xs es. v = JArr xs \<and> xs \<noteq> [] \<and> mapM (check_entry (ap_limits P)) xs = Inr es \<and> entries_fit P es
        \<and> ap_entries P + length es \<le> sl_archiveEntries (ap_limits P)
        \<and> r = \<lparr>af_entries = isort entry_lt es, af_count = length es, af_bytes = entry_bytes es\<rparr>
        \<and> P' = P\<lparr>ap_bytes := ap_bytes P + entry_bytes es, ap_entries := ap_entries P + length es\<rparr>)"
  by (rule preflight_spec)


subsection \<open>A concrete archive\<close>

definition demo_entry :: "string \<Rightarrow> jsval" where
  "demo_entry path = JObj [(''path'', JStr path), (''type'', JStr ''file''), (''size'', JInt 5), (''mode'', JInt 420)]"

lemma demo_entry_checked:
  "check_entry PACKAGE_STAGE_HARD_CEILINGS (demo_entry ''package/b'') =
     Inr \<lparr>ve_path = ''b'', ve_type = Entry_file, ve_size = 5, ve_mode = 420\<rparr>"
  "check_entry PACKAGE_STAGE_HARD_CEILINGS (demo_entry ''package/a/b'') =
     Inr \<lparr>ve_path = ''a/b'', ve_type = Entry_file, ve_size = 5, ve_mode = 420\<rparr>"
  by (simp_all add: check_entry_def entry_shape_def demo_entry_def is_obj_def keys_of_def ENTRY_KEYS_def entry_type_at_def
      safe_nat_at_def max_safe_def plain_entry_def archiveRelativePath_def portable_text_def is_control_def
      PACKAGE_STAGE_HARD_CEILINGS_def plain_segment_def normalizedMode_def)

lemma demo_preflight:
  "preflight (new_archive_policy PACKAGE_STAGE_HARD_CEILINGS) (JArr [demo_entry ''package/b'', demo_entry ''package/a/b''])
     = Inr (\<lparr>af_entries = [\<lparr>ve_path = ''a/b'', ve_type = Entry_file, ve_size = 5, ve_mode = 420\<rparr>,
           \<lparr>ve_path = ''b'', ve_type = Entry_file, ve_size = 5, ve_mode = 420\<rparr>], af_count = 2, af_bytes = 10\<rparr>,
         \<lparr>ap_limits = PACKAGE_STAGE_HARD_CEILINGS, ap_bytes = 10, ap_entries = 2\<rparr>)"
proof -
  have "5 \<le> sl_regularFileBytes PACKAGE_STAGE_HARD_CEILINGS" "5 \<le> sl_uncompressedArtifactBytes PACKAGE_STAGE_HARD_CEILINGS"
    "10 \<le> sl_uncompressedArtifactBytes PACKAGE_STAGE_HARD_CEILINGS" "5 \<le> sl_totalUncompressedBytes PACKAGE_STAGE_HARD_CEILINGS"
    "10 \<le> sl_totalUncompressedBytes PACKAGE_STAGE_HARD_CEILINGS" "2 \<le> sl_archiveEntries PACKAGE_STAGE_HARD_CEILINGS"
    by (simp_all add: PACKAGE_STAGE_HARD_CEILINGS_def)
  then show ?thesis
    by (simp add: preflight_def add_entry_def new_archive_policy_def demo_entry_checked Let_def entry_lt_def portable_key_def
        locale_lower_def locale_lower_c_def is_upper_def)
qed


end
