(* ===== verification/Ustar.thy ===== *)
theory Ustar
  imports ArchivePolicy Sha256
begin

section \<open>The tar format\<close>

text \<open>
  Models the reading of a tar file in src/stage/tar-archive-parser.ts: header fields, checksum,
  and the loop \<open>inspectExactUstar\<close> over the blocks of the expanded archive.
\<close>

record raw_entry =
  re_path :: string
  re_type :: entry_type
  re_size :: nat
  re_mode :: nat
  re_body :: "byte list"

definition subarray :: "nat \<Rightarrow> nat \<Rightarrow> 'a list \<Rightarrow> 'a list" where
  "subarray a b xs = take (b - a) (drop a xs)"

text \<open>\<open>isZeroBlock\<close> and \<open>isZeroFilledField\<close>.\<close>

definition is_zero :: "byte list \<Rightarrow> bool" where
  "is_zero bytes = list_all (\<lambda>b. b = 0) bytes"

lemma is_zero_replicate: "is_zero bytes \<longleftrightarrow> bytes = replicate (length bytes) 0"
  unfolding is_zero_def list_all_iff by (metis in_set_replicate replicate_eqI)

text \<open>
  \<open>TextDecoder('utf-8', fatal)\<close>: a byte order mark is dropped; \<open>None\<close> when it throws.  A
  character above U+00FF has no place in the strings of the model and counts as an error too.
\<close>

fun utf8_units :: "byte list \<Rightarrow> string option" where
  "utf8_units [] = Some []"
| "utf8_units (b # bs) =
     (if b < 0x80 then map_option (Cons (char_of (unat b))) (utf8_units bs)
      else if b = 0xc2 \<or> b = 0xc3 then
        (case bs of
           [] \<Rightarrow> None
         | c # cs \<Rightarrow> if 0x80 \<le> c \<and> c \<le> 0xbf
             then map_option (Cons (char_of ((unat b - 0xc0) * 64 + (unat c - 0x80)))) (utf8_units cs) else None)
      else None)"

definition utf8_decode :: "byte list \<Rightarrow> string option" where
  "utf8_decode bytes = utf8_units (if take 3 bytes = [0xef, 0xbb, 0xbf] then drop 3 bytes else bytes)"

definition decodeCanonicalTextField :: "byte list \<Rightarrow> stage_error + string" where
  "decodeCanonicalTextField field =
     rbind (guard archive_invalid (is_zero (dropWhile (\<lambda>b. b \<noteq> 0) field))) (\<lambda>_.
     case utf8_decode (takeWhile (\<lambda>b. b \<noteq> 0) field) of None \<Rightarrow> Inl archive_invalid | Some s \<Rightarrow> Inr s)"

definition octal_digits :: "byte list \<Rightarrow> byte list" where
  "octal_digits field = List.rev (dropWhile (\<lambda>b. b = 0 \<or> b = 0x20) (List.rev field))"

definition octal_value :: "byte list \<Rightarrow> nat" where
  "octal_value digits = foldl (\<lambda>v b. v * 8 + (unat b - 0x30)) 0 digits"

definition parseCanonicalOctal :: "byte list \<Rightarrow> stage_error + nat" where
  "parseCanonicalOctal field =
     (let digits = octal_digits field in
     rbind (guard archive_invalid (digits \<noteq> [] \<and> list_all (\<lambda>b. 0x30 \<le> b \<and> b \<le> 0x37) digits
       \<and> list_all (\<lambda>b. b = 0 \<or> b = 0x20) (drop (length digits) field))) (\<lambda>_.
     rbind (guard archive_invalid (int (octal_value digits) \<le> max_safe)) (\<lambda>_. Inr (octal_value digits))))"

definition checksumIsValid :: "byte list \<Rightarrow> bool" where
  "checksumIsValid header =
     (case parseCanonicalOctal (subarray 148 156 header) of
        Inl _ \<Rightarrow> False
      | Inr stored \<Rightarrow> sum_list (map unat (take 148 header @ replicate 8 0x20 @ drop 156 header)) = stored)"

definition type_of_flag :: "byte \<Rightarrow> entry_type option" where
  "type_of_flag b = (if b = 0 \<or> b = 0x30 then Some Entry_file else if b = 0x35 then Some Entry_directory else None)"

definition is_ustar_header :: "byte list \<Rightarrow> bool" where
  "is_ustar_header header \<longleftrightarrow> subarray 257 263 header = [0x75, 0x73, 0x74, 0x61, 0x72, 0]
     \<and> subarray 263 265 header = [0x30, 0x30] \<and> checksumIsValid header \<and> is_zero (subarray 157 257 header)"

definition header_path :: "byte list \<Rightarrow> stage_error + string" where
  "header_path header =
     rbind (decodeCanonicalTextField (subarray 0 100 header)) (\<lambda>name.
     rbind (decodeCanonicalTextField (subarray 345 500 header)) (\<lambda>prefix.
     Inr (if prefix = [] then name else prefix @ ''/'' @ name)))"

text \<open>The fields of a header, without the body.\<close>

definition read_header :: "byte list \<Rightarrow> stage_error + raw_entry" where
  "read_header header =
     rbind (guard archive_invalid (is_ustar_header header)) (\<lambda>_.
     case type_of_flag (header ! 156) of
       None \<Rightarrow> Inl archive_invalid
     | Some t \<Rightarrow>
         rbind (header_path header) (\<lambda>path.
         rbind (parseCanonicalOctal (subarray 124 136 header)) (\<lambda>n.
         rbind (parseCanonicalOctal (subarray 100 108 header)) (\<lambda>mode.
         rbind (guard archive_invalid (path \<noteq> [] \<and> \<not> (t = Entry_directory \<and> n \<noteq> 0))) (\<lambda>_.
         Inr \<lparr>re_path = path, re_type = t, re_size = n, re_mode = mode, re_body = []\<rparr>)))))"

definition padded :: "nat \<Rightarrow> nat" where
  "padded n = (n + 511) div 512 * 512"

text \<open>One entry at an offset, and the offset after it.\<close>

definition read_entry :: "byte list \<Rightarrow> nat \<Rightarrow> stage_error + raw_entry \<times> nat" where
  "read_entry expanded offset =
     rbind (read_header (subarray offset (offset + 512) expanded)) (\<lambda>e.
     let bodyOffset = offset + 512; nextOffset = bodyOffset + padded (re_size e) in
     rbind (guard archive_invalid (int nextOffset \<le> max_safe \<and> int nextOffset \<le> int (length expanded) - 1024)) (\<lambda>_.
     rbind (guard archive_invalid (is_zero (subarray (bodyOffset + re_size e) nextOffset expanded))) (\<lambda>_.
     Inr (e\<lparr>re_body := subarray bodyOffset (bodyOffset + re_size e) expanded\<rparr>, nextOffset))))"

lemma read_entry_advances: "read_entry expanded offset = Inr (e, next) \<Longrightarrow> offset + 512 \<le> next"
  by (auto simp: read_entry_def Let_def rbind_Inr_iff)

definition add_file :: "nat \<Rightarrow> raw_entry \<Rightarrow> nat" where
  "add_file fileBytes e = (if re_type e = Entry_file then fileBytes + re_size e else fileBytes)"

function inspect_from :: "byte list \<Rightarrow> stage_limits \<Rightarrow> nat \<Rightarrow> raw_entry list \<Rightarrow> nat \<Rightarrow> stage_error + raw_entry list" where
  "inspect_from expanded l offset es fileBytes =
     (if \<not> offset + 512 \<le> length expanded then Inl archive_invalid
      else if is_zero (subarray offset (offset + 512) expanded) then
        rbind (guard archive_invalid (offset + 1024 = length expanded
          \<and> is_zero (subarray (offset + 512) (offset + 1024) expanded))) (\<lambda>_.
        rbind (guard archive_invalid (es \<noteq> [])) (\<lambda>_. Inr es))
      else case read_entry expanded offset of
        Inl e \<Rightarrow> Inl e
      | Inr (e, next) \<Rightarrow>
          if sl_regularFileBytes l < re_size e \<or> sl_uncompressedArtifactBytes l < add_file fileBytes e
             \<or> sl_archiveEntries l < length es + 1
          then Inl archive_limit_exceeded
          else inspect_from expanded l next (es @ [e]) (add_file fileBytes e))"
  by pat_completeness auto
termination
  by (relation "measure (\<lambda>(expanded, l, offset, es, b). length expanded - offset)")
     (auto dest: read_entry_advances)

declare inspect_from.simps [simp del]

definition inspectExactUstar :: "byte list \<Rightarrow> stage_limits \<Rightarrow> stage_error + raw_entry list" where
  "inspectExactUstar expanded l =
     rbind (guard archive_invalid (1024 \<le> length expanded \<and> length expanded mod 512 = 0)) (\<lambda>_.
     inspect_from expanded l 0 [] 0)"

subsection \<open>The format\<close>

text \<open>A header and an entry that belong together, and the blocks they take in the archive.\<close>

definition ustar_entry :: "byte list \<Rightarrow> raw_entry \<Rightarrow> bool" where
  "ustar_entry h e \<longleftrightarrow> length h = 512 \<and> \<not> is_zero h \<and> read_header h = Inr (e\<lparr>re_body := []\<rparr>)
     \<and> length (re_body e) = re_size e"

definition entry_blocks :: "byte list \<Rightarrow> raw_entry \<Rightarrow> byte list" where
  "entry_blocks h e = h @ re_body e @ replicate (padded (re_size e) - re_size e) 0"

definition raw_bytes :: "raw_entry list \<Rightarrow> nat" where
  "raw_bytes es = sum_list (map re_size (filter (\<lambda>e. re_type e = Entry_file) es))"

definition raw_fit :: "stage_limits \<Rightarrow> raw_entry list \<Rightarrow> bool" where
  "raw_fit l es \<longleftrightarrow> list_all (\<lambda>e. re_size e \<le> sl_regularFileBytes l) es
     \<and> raw_bytes es \<le> sl_uncompressedArtifactBytes l \<and> length es \<le> sl_archiveEntries l"

definition archive_blocks :: "byte list list \<Rightarrow> raw_entry list \<Rightarrow> byte list" where
  "archive_blocks hs es = concat (map2 entry_blocks hs es) @ replicate 1024 0"

lemma padded_ge: "n \<le> padded n"
  using div_mult_mod_eq [of "n + 511" 512] mod_less_divisor [of 512 "n + 511"] by (simp add: padded_def)

lemma length_entry_blocks: "ustar_entry h e \<Longrightarrow> length (entry_blocks h e) = 512 + padded (re_size e)"
  using padded_ge [of "re_size e"] by (simp add: ustar_entry_def entry_blocks_def)

lemma read_header_body: "read_header h = Inr e \<Longrightarrow> re_body e = []"
  by (auto simp: read_header_def rbind_Inr_iff split: option.splits)

lemma subarray_drop: "off \<le> a \<Longrightarrow> subarray a b xs = take (b - a) (drop (a - off) (drop off xs))"
  by (simp add: subarray_def)

lemma take_pieces: "xs = take a xs @ take b (drop a xs) @ take c (drop (a + b) xs) @ drop (a + b + c) xs"
  using append_take_drop_id [of c "drop (a + b) xs"] append_take_drop_id [of b "drop a xs"]
  by (simp add: add.commute add.left_commute)

lemma read_entry_Inr:
  assumes "off + 512 \<le> length bytes" "\<not> is_zero (subarray off (off + 512) bytes)"
  shows "read_entry bytes off = Inr (e, nxt) \<longleftrightarrow> (\<exists>h rest. ustar_entry h e \<and> drop off bytes = entry_blocks h e @ rest
    \<and> 1024 \<le> length rest \<and> nxt = off + length (entry_blocks h e) \<and> int nxt \<le> max_safe)" (is "?L \<longleftrightarrow> ?R")
proof
  let ?d = "drop off bytes" let ?n = "re_size e" let ?p = "padded (re_size e)"
  assume ?L
  then obtain e0 where e0: "read_header (take 512 ?d) = Inr e0" "nxt = off + 512 + padded (re_size e0)"
    "int nxt \<le> max_safe" "int nxt \<le> int (length bytes) - 1024"
    "is_zero (subarray (off + 512 + re_size e0) nxt bytes)"
    "e = e0\<lparr>re_body := subarray (off + 512) (off + 512 + re_size e0) bytes\<rparr>"
    by (auto simp: read_entry_def rbind_Inr_iff Let_def subarray_def)
  have n: "re_size e0 = ?n" using e0(6) by simp
  have b: "re_body e = take ?n (drop 512 ?d)" using arg_cong [OF e0(6), of re_body] by (simp add: subarray_drop [of off] n)
  have z: "take (?p - ?n) (drop (512 + ?n) ?d) = replicate (?p - ?n) 0"
    using e0(2,4,5) padded_ge [of ?n] by (simp add: is_zero_replicate subarray_drop [of off] n add.commute)
  have l: "512 + ?p + 1024 \<le> length ?d" unfolding length_drop using e0(2,4) unfolding n by arith
  have "length (take 512 ?d) = 512 \<and> \<not> is_zero (take 512 ?d)" using assms by (simp add: subarray_def)
  moreover have "e\<lparr>re_body := []\<rparr> = e0" using e0(6) read_header_body [OF e0(1)] by simp
  ultimately have u: "ustar_entry (take 512 ?d) e"
    using e0(1) b l padded_ge [of ?n] by (simp add: ustar_entry_def)
  have "?d = take 512 ?d @ take ?n (drop 512 ?d) @ take (?p - ?n) (drop (512 + ?n) ?d) @ drop (512 + ?p) ?d"
    using take_pieces [of ?d 512 ?n "?p - ?n"] padded_ge [of ?n] by simp
  then have "?d = entry_blocks (take 512 ?d) e @ drop (512 + ?p) ?d" using b z by (simp add: entry_blocks_def)
  with u l e0(2,3) n show ?R
    by (intro exI [of _ "take 512 ?d"] exI [of _ "drop (512 + ?p) ?d"]) (simp add: length_entry_blocks)
next
  let ?n = "re_size e" let ?p = "padded (re_size e)"
  assume ?R
  then obtain h rest where u: "ustar_entry h e" and d: "drop off bytes = entry_blocks h e @ rest" and r: "1024 \<le> length rest"
    "nxt = off + length (entry_blocks h e)" "int nxt \<le> max_safe" by blast
  have h: "length h = 512" "read_header h = Inr (e\<lparr>re_body := []\<rparr>)" "length (re_body e) = ?n"
    using u by (auto simp: ustar_entry_def)
  have x: "nxt = off + 512 + ?p" using r(2) u by (simp add: length_entry_blocks)
  have s: "subarray off (off + 512) bytes = h" "subarray (off + 512) (off + 512 + ?n) bytes = re_body e"
    "subarray (off + 512 + ?n) nxt bytes = replicate (?p - ?n) 0"
    using d h x padded_ge [of ?n] by (simp_all add: subarray_drop [of off] entry_blocks_def)
  have "length bytes = off + length (drop off bytes)" using assms(1) by simp
  then have "int nxt \<le> int (length bytes) - 1024" using r(1,2) unfolding d by simp
  then show ?L using s h(2) r(3) x by (simp add: read_entry_def Let_def is_zero_def list_all_iff)
qed

lemma entry_blocks_head: "ustar_entry h e \<Longrightarrow> take 512 (entry_blocks h e @ r) = h \<and> \<not> is_zero h"
  by (simp add: ustar_entry_def entry_blocks_def)

lemma archive_blocks_simps [simp]:
  "archive_blocks [] es = replicate 1024 0" "archive_blocks hs [] = replicate 1024 0"
  "archive_blocks (h # hs) (e # es) = entry_blocks h e @ archive_blocks hs es"
  by (simp_all add: archive_blocks_def)

lemma archive_blocks_length: "1024 \<le> length (archive_blocks hs es)"
  by (simp add: archive_blocks_def)

lemma raw_bytes_Cons: "fb + raw_bytes (e # es) = add_file fb e + raw_bytes es"
  by (simp add: raw_bytes_def add_file_def)

text \<open>What the loop accepts from an offset on: the entries \<open>new\<close>, with the headers \<open>hs\<close>.\<close>

definition rest_ok :: "byte list \<Rightarrow> stage_limits \<Rightarrow> nat \<Rightarrow> nat \<Rightarrow> nat \<Rightarrow> byte list list \<Rightarrow> raw_entry list \<Rightarrow> bool" where
  "rest_ok bytes l off fb k hs new \<longleftrightarrow> list_all2 ustar_entry hs new \<and> drop off bytes = archive_blocks hs new
     \<and> list_all (\<lambda>e. re_size e \<le> sl_regularFileBytes l) new
     \<and> (new \<noteq> [] \<longrightarrow> fb + raw_bytes new \<le> sl_uncompressedArtifactBytes l \<and> k + length new \<le> sl_archiveEntries l
          \<and> int (length bytes) - 1024 \<le> max_safe)"

lemma rest_ok_Nil:
  "rest_ok bytes l off fb k [] [] \<longleftrightarrow> drop off bytes = replicate 1024 0"
  by (simp add: rest_ok_def)

lemma rest_ok_Cons:
  assumes "off \<le> length bytes"
  shows "rest_ok bytes l off fb k (h # hs) (e # new) \<longleftrightarrow>
    (\<exists>nxt rest. ustar_entry h e \<and> drop off bytes = entry_blocks h e @ rest \<and> 1024 \<le> length rest
       \<and> nxt = off + length (entry_blocks h e) \<and> int nxt \<le> max_safe
       \<and> re_size e \<le> sl_regularFileBytes l \<and> add_file fb e \<le> sl_uncompressedArtifactBytes l
       \<and> k + 1 \<le> sl_archiveEntries l
       \<and> rest_ok bytes l nxt (add_file fb e) (k + 1) hs new)" (is "?L \<longleftrightarrow> ?R")
proof
  assume ?L
  then have d: "drop off bytes = entry_blocks h e @ archive_blocks hs new" "int (length bytes) - 1024 \<le> max_safe"
    by (auto simp: rest_ok_def)
  then have "drop (off + length (entry_blocks h e)) bytes = archive_blocks hs new"
    by (metis add.commute append_eq_conv_conj drop_drop)
  moreover have "length bytes = off + length (entry_blocks h e) + length (archive_blocks hs new)"
    using arg_cong [OF d(1), of length] assms by simp
  then have "int (off + length (entry_blocks h e)) \<le> max_safe"
    using d(2) archive_blocks_length [of hs new] by linarith
  ultimately show ?R
    using \<open>?L\<close> archive_blocks_length [of hs new] d(1)
    by (intro exI [of _ "off + length (entry_blocks h e)"] exI [of _ "archive_blocks hs new"])
       (auto simp: rest_ok_def raw_bytes_Cons)
next
  assume ?R
  then obtain nxt rest where r: "ustar_entry h e" "drop off bytes = entry_blocks h e @ rest" "1024 \<le> length rest"
    "nxt = off + length (entry_blocks h e)" "int nxt \<le> max_safe" "re_size e \<le> sl_regularFileBytes l"
    "add_file fb e \<le> sl_uncompressedArtifactBytes l" "k + 1 \<le> sl_archiveEntries l"
    "rest_ok bytes l nxt (add_file fb e) (k + 1) hs new"
    by blast
  have d: "drop nxt bytes = rest" using r(2,4) by (metis add.commute append_eq_conv_conj drop_drop)
  then have a: "rest = archive_blocks hs new" using r(9) by (simp add: rest_ok_def)
  have "int (length bytes) - 1024 \<le> max_safe"
  proof (cases "new = []")
    case True
    then have "length rest = 1024" using a by simp
    then have "length bytes = nxt + 1024" using arg_cong [OF r(2), of length] assms r(4) by simp
    then show ?thesis using r(5) by simp
  next
    case False
    then show ?thesis using r(9) by (simp add: rest_ok_def)
  qed
  moreover have "new \<noteq> [] \<Longrightarrow> fb + raw_bytes (e # new) \<le> sl_uncompressedArtifactBytes l \<and> k + length (e # new) \<le> sl_archiveEntries l"
    using r(9) by (simp add: rest_ok_def raw_bytes_Cons add.assoc)
  moreover have "new = [] \<Longrightarrow> fb + raw_bytes (e # new) = add_file fb e"
    by (simp add: raw_bytes_def add_file_def)
  ultimately show ?L
    using r a by (cases "new = []") (auto simp: rest_ok_def)
qed

lemma zero_end:
  assumes "off + 512 \<le> length bytes" "is_zero (take 512 (drop off bytes))"
  shows "drop off bytes = replicate 1024 0 \<longleftrightarrow> off + 1024 = length bytes \<and> is_zero (take 512 (drop (off + 512) bytes))"
proof
  assume d: "drop off bytes = replicate 1024 0"
  then have "length bytes - off = 1024" by (metis length_drop length_replicate)
  moreover have "drop (off + 512) bytes = replicate 512 0"
    using arg_cong [OF d, of "drop 512"] by (simp add: add.commute)
  ultimately show "off + 1024 = length bytes \<and> is_zero (take 512 (drop (off + 512) bytes))"
    using assms(1) by (simp add: is_zero_def list_all_iff)
next
  assume z: "off + 1024 = length bytes \<and> is_zero (take 512 (drop (off + 512) bytes))"
  have "length (drop (off + 512) bytes) = 512" unfolding length_drop conjunct1 [OF z, symmetric] by simp
  then have "drop off bytes = take 512 (drop off bytes) @ take 512 (drop (off + 512) bytes)"
    using append_take_drop_id [of 512 "drop off bytes"] by (simp only: take_all drop_drop add.commute [of 512] order.refl)
  then have "is_zero (drop off bytes)" using assms(2) z unfolding is_zero_def by (metis list_all_append)
  moreover have "length (drop off bytes) = 1024" unfolding length_drop conjunct1 [OF z, symmetric] by simp
  ultimately show "drop off bytes = replicate 1024 0" using is_zero_replicate by metis
qed

lemma inspect_from_Inr:
  "inspect_from bytes l off es fb = Inr res \<longleftrightarrow>
     (\<exists>hs new. rest_ok bytes l off fb (length es) hs new \<and> res = es @ new \<and> res \<noteq> [])"
proof (induction bytes l off es fb rule: inspect_from.induct)
  case (1 bytes l off es fb)
  let ?h = "subarray off (off + 512) bytes"
  have h: "?h = take 512 (drop off bytes)" by (simp add: subarray_def)
  show ?case
  proof (cases "off + 512 \<le> length bytes")
    case False
    have "\<not> rest_ok bytes l off fb (length es) hs new" for hs new
    proof
      assume "rest_ok bytes l off fb (length es) hs new"
      then have "length (drop off bytes) = length (archive_blocks hs new)" by (simp only: rest_ok_def)
      with False archive_blocks_length [of hs new] show False by simp
    qed
    with False show ?thesis by (auto simp: inspect_from.simps)
  next
    case off: True
    show ?thesis
    proof (cases "is_zero ?h")
      case True
      have "rest_ok bytes l off fb (length es) hs new \<longleftrightarrow> hs = [] \<and> new = [] \<and> drop off bytes = replicate 1024 0" for hs new
      proof (cases hs; cases new)
        fix h' hs' e new' assume "hs = h' # hs'" "new = e # new'"
        then show ?thesis using True entry_blocks_head unfolding h rest_ok_def by (metis archive_blocks_simps(3) list.simps(11) neq_Nil_conv)
      qed (simp_all add: rest_ok_def)
      moreover have "drop off bytes = replicate 1024 0 \<longleftrightarrow>
          off + 1024 = length bytes \<and> is_zero (subarray (off + 512) (off + 1024) bytes)"
        using zero_end [OF off True [unfolded h]] by (simp add: subarray_def add.commute)
      ultimately show ?thesis using off True by (auto simp: inspect_from.simps [of bytes] rbind_Inr_iff)
    next
      case False
      note r = read_entry_Inr [OF off False]
      have ne: "rest_ok bytes l off fb (length es) hs new \<Longrightarrow> \<exists>h hs' e new'. hs = h # hs' \<and> new = e # new'" for hs new
        using False unfolding h by (cases hs; cases new) (auto simp: rest_ok_def is_zero_def list_all_iff)
      have "inspect_from bytes l off es fb = Inr res \<longleftrightarrow> (\<exists>e nxt. read_entry bytes off = Inr (e, nxt)
          \<and> re_size e \<le> sl_regularFileBytes l \<and> add_file fb e \<le> sl_uncompressedArtifactBytes l \<and> length es + 1 \<le> sl_archiveEntries l
          \<and> inspect_from bytes l nxt (es @ [e]) (add_file fb e) = Inr res)"
        using off False by (auto simp: inspect_from.simps [of bytes l off] Let_def not_less split: sum.splits)
      also have "\<dots> \<longleftrightarrow> (\<exists>e nxt. read_entry bytes off = Inr (e, nxt)
          \<and> re_size e \<le> sl_regularFileBytes l \<and> add_file fb e \<le> sl_uncompressedArtifactBytes l \<and> length es + 1 \<le> sl_archiveEntries l
          \<and> (\<exists>hs new. rest_ok bytes l nxt (add_file fb e) (length es + 1) hs new \<and> res = es @ e # new))"
      proof -
        have "inspect_from bytes l nxt (es @ [e]) (add_file fb e) = Inr res \<longleftrightarrow>
            (\<exists>hs new. rest_ok bytes l nxt (add_file fb e) (length es + 1) hs new \<and> res = es @ e # new)"
          if "read_entry bytes off = Inr (e, nxt)" "re_size e \<le> sl_regularFileBytes l"
            "add_file fb e \<le> sl_uncompressedArtifactBytes l" "length es + 1 \<le> sl_archiveEntries l" for e nxt
          using 1 [of "(e, nxt)" e nxt] that off False by auto
        then show ?thesis by blast
      qed
      also have "\<dots> \<longleftrightarrow> (\<exists>h hs e new. rest_ok bytes l off fb (length es) (h # hs) (e # new) \<and> res = es @ e # new)"
        unfolding r rest_ok_Cons [OF le_trans [OF le_add1 off]] by blast
      also have "\<dots> \<longleftrightarrow> (\<exists>hs new. rest_ok bytes l off fb (length es) hs new \<and> res = es @ new \<and> res \<noteq> [])"
        using ne by fastforce
      finally show ?thesis .
    qed
  qed
qed

lemma ustar_spec:
  "inspectExactUstar bytes l = Inr es \<longleftrightarrow>
     (\<exists>hs. list_all2 ustar_entry hs es \<and> es \<noteq> [] \<and> bytes = archive_blocks hs es \<and> raw_fit l es
        \<and> int (length bytes) - 1024 \<le> max_safe)"
proof -
  have p: "padded n mod 512 = 0" for n by (simp add: padded_def)
  have m: "1024 \<le> length (archive_blocks hs es) \<and> length (archive_blocks hs es) mod 512 = 0" if "list_all2 ustar_entry hs es" for hs
    using that archive_blocks_length [of hs es]
    by (induction rule: list_all2_induct) (auto simp: length_entry_blocks archive_blocks_length p mod_add_eq [symmetric])
  have r: "es \<noteq> [] \<Longrightarrow> rest_ok bytes l 0 0 0 hs es \<longleftrightarrow> list_all2 ustar_entry hs es \<and> bytes = archive_blocks hs es \<and> raw_fit l es
      \<and> int (length bytes) - 1024 \<le> max_safe" for hs
    by (auto simp: rest_ok_def raw_fit_def)
  have "inspectExactUstar bytes l = Inr es \<longleftrightarrow>
      1024 \<le> length bytes \<and> length bytes mod 512 = 0 \<and> es \<noteq> [] \<and> (\<exists>hs. rest_ok bytes l 0 0 0 hs es)"
    by (auto simp: inspectExactUstar_def rbind_Inr_iff inspect_from_Inr)
  with r m show ?thesis by blast
qed

text \<open>
  C21: The tar reader accepts exactly the archives in the format, and leaves no byte of them
  unread.  The expanded bytes are the blocks of the entries, one after the other, each a valid
  header, the body and zeros up to the next block, and then the two zero blocks of the end; no
  entry is missing and none is made up.
\<close>

theorem inspectExactUstar_iff:
  "inspectExactUstar bytes l = Inr es \<longleftrightarrow>
     (\<exists>hs. list_all2 ustar_entry hs es \<and> es \<noteq> [] \<and> bytes = archive_blocks hs es \<and> raw_fit l es
        \<and> int (length bytes) - 1024 \<le> max_safe)"
  by (rule ustar_spec)

end
