(* ===== verification/Crc32.thy ===== *)
theory Crc32
  imports Sha256
begin

section \<open>CRC-32\<close>

text \<open>
  The checksum of a gzip member, as tar-archive-parser.ts computes it: byte by byte with a
  table of 256 words.  The reference takes the bits of the message one at a time, least
  significant first, through the shift register of the standard.
\<close>

definition crc_poly :: u32 where "crc_poly = 0xedb88320"

text \<open>One round of the loop that fills the table.\<close>

definition crc_step :: "u32 \<Rightarrow> u32" where
  "crc_step v = (if bit v 0 then crc_poly XOR drop_bit 1 v else drop_bit 1 v)"

definition CRC32_TABLE :: "u32 list" where
  "CRC32_TABLE = map (\<lambda>i. (crc_step ^^ 8) (word_of_nat i)) [0..<256]"

definition crc_byte :: "u32 \<Rightarrow> byte \<Rightarrow> u32" where
  "crc_byte v b = (CRC32_TABLE ! unat ((v XOR ucast b) AND 0xff)) XOR drop_bit 8 v"

definition crc32 :: "byte list \<Rightarrow> u32" where
  "crc32 bytes = foldl crc_byte 0xffffffff bytes XOR 0xffffffff"

subsection \<open>The reference\<close>

definition crc_bit :: "u32 \<Rightarrow> bool \<Rightarrow> u32" where
  "crc_bit r b = (if bit r 0 \<noteq> b then drop_bit 1 r XOR crc_poly else drop_bit 1 r)"

definition message_bits :: "byte list \<Rightarrow> bool list" where
  "message_bits bytes = concat (map (\<lambda>b. map (bit b) [0..<8]) bytes)"

definition crc_reference :: "byte list \<Rightarrow> u32" where
  "crc_reference bytes = NOT (foldl crc_bit (NOT 0) (message_bits bytes))"

subsection \<open>The table is linear\<close>

lemma crc_step_xor: "crc_step (x XOR y) = crc_step x XOR crc_step y"
  by (rule bit_word_eqI) (auto simp: crc_step_def bit_simps)

lemma crc_steps_xor: "(crc_step ^^ n) (x XOR y) = (crc_step ^^ n) x XOR (crc_step ^^ n) y"
  by (induction n arbitrary: x y) (simp_all add: crc_step_xor)

lemma crc_steps_high:
  fixes y :: u32
  shows "(\<And>i. i < n \<Longrightarrow> \<not> bit y i) \<Longrightarrow> (crc_step ^^ n) y = drop_bit n y"
proof (induction n arbitrary: y)
  case (Suc n)
  have "crc_step y = drop_bit 1 y" using Suc.prems [of 0] by (simp add: crc_step_def)
  moreover have "(crc_step ^^ n) (drop_bit 1 y) = drop_bit n (drop_bit 1 y)"
    using Suc.prems by (intro Suc.IH) (simp add: bit_drop_bit_eq)
  ultimately show ?case by (simp add: funpow_swap1)
qed simp

lemma split_low_byte: "(x :: u32) = (x AND 0xff) XOR (x AND NOT 0xff)"
  by (rule bit_word_eqI) (auto simp: bit_simps)

lemma bit_ff: "bit (0xff :: u32) i \<longleftrightarrow> i < 8"
proof -
  have m: "(0xff :: u32) = mask 8" by (simp add: mask_eq_exp_minus_1)
  have "bit (mask n :: u32) i \<longleftrightarrow> i < 32 \<and> i < n" for n by (simp add: bit_mask_iff)
  from this [of 8] show ?thesis unfolding m by auto
qed

lemma crc_steps_table: "(crc_step ^^ 8) x = (crc_step ^^ 8) (x AND 0xff) XOR drop_bit 8 x"
proof -
  have "(crc_step ^^ 8) (x AND NOT 0xff) = drop_bit 8 (x AND NOT 0xff)"
    by (rule crc_steps_high) (simp only: bit_and_iff bit_not_iff bit_ff, simp)
  also have "\<dots> = drop_bit 8 x"
    by (rule bit_word_eqI) (simp only: bit_drop_bit_eq comp_def bit_and_iff bit_not_iff bit_ff, auto dest: bit_imp_le_length)
  finally show ?thesis using crc_steps_xor [of 8 "x AND 0xff" "x AND NOT 0xff"] split_low_byte [of x] by metis
qed

lemma table_entry: "CRC32_TABLE ! unat (w AND 0xff) = (crc_step ^^ 8) (w AND 0xff)"
proof -
  have m: "w AND 0xff = take_bit 8 w" by (simp add: take_bit_eq_mask mask_eq_exp_minus_1)
  have "unat (take_bit 8 w) < 2 ^ 8" by (simp only: unsigned_take_bit_eq take_bit_nat_less_exp)
  then have "unat (w AND 0xff) < 256" unfolding m by simp
  then show ?thesis by (simp add: CRC32_TABLE_def)
qed

lemma crc_byte_steps: "crc_byte v b = (crc_step ^^ 8) (v XOR ucast b)"
proof -
  have "drop_bit 8 (v XOR ucast b) = drop_bit 8 v"
    by (rule bit_word_eqI) (auto simp: bit_simps dest: bit_imp_le_length)
  with crc_steps_table [of "v XOR ucast b"] show ?thesis by (simp add: crc_byte_def table_entry)
qed

subsection \<open>A byte is eight bits\<close>

lemma crc_step_bit: "crc_step (r XOR m) = crc_bit r (bit m 0) XOR drop_bit 1 m"
  by (rule bit_word_eqI) (auto simp: crc_step_def crc_bit_def bit_simps)

lemma crc_steps_bits:
  "(crc_step ^^ n) (r XOR m) = foldl crc_bit r (map (bit m) [0..<n]) XOR drop_bit n m"
proof (induction n arbitrary: r m)
  case (Suc n)
  have "map (bit m) [0..<Suc n] = bit m 0 # map (bit (drop_bit 1 m)) [0..<n]"
    by (simp add: upt_conv_Cons map_Suc_upt [symmetric] bit_drop_bit_eq comp_def del: upt_Suc)
  with Suc.IH [of "crc_bit r (bit m 0)" "drop_bit 1 m"] show ?case
    by (simp add: funpow_swap1 crc_step_bit del: upt_Suc)
qed simp

lemma crc_byte_bits: "crc_byte v b = foldl crc_bit v (map (bit b) [0..<8])"
proof -
  have "drop_bit 8 (ucast b :: u32) = 0"
    by (rule bit_word_eqI) (auto simp: bit_simps dest: bit_imp_le_length)
  moreover have "map (bit (ucast b :: u32)) [0..<8] = map (bit b) [0..<8]"
    by (rule map_cong) (auto simp: bit_simps)
  ultimately show ?thesis
    using crc_byte_steps [of v b] crc_steps_bits [of 8 v "ucast b"] by (metis xor.right_neutral)
qed

text \<open>
  C33: the table-driven checksum is CRC-32.  For every message it is the complement of the
  register of the standard, started with ones and fed with the bits of the message one by one.
\<close>

theorem crc32_reference: "crc32 bytes = crc_reference bytes"
proof -
  have "foldl crc_byte v bytes = foldl crc_bit v (message_bits bytes)" for v
    by (induction bytes arbitrary: v) (simp_all add: message_bits_def crc_byte_bits del: upt_rec_numeral)
  moreover have "(0xffffffff :: u32) = NOT 0" by simp
  moreover have "x XOR NOT 0 = NOT x" for x :: u32 by simp
  ultimately show ?thesis unfolding crc32_def crc_reference_def by metis
qed

end
