(* ===== verification/TarArchive.thy ===== *)
theory TarArchive
  imports Ustar Crc32 Sha512 StageProfile
begin

section \<open>The inspection of an archive\<close>

text \<open>
  Models the rest of src/stage/tar-archive-parser.ts: the exact gzip member, the comparison with
  a second parser, the transcript and its authority.  Two pieces of code are not in the
  repository and are parameters: the inflater of zlib, and the parser of the package tar, which is
  what it does to its handlers, a list of events.  Nothing is assumed of either.
\<close>

subsection \<open>The gzip member\<close>

datatype inflate_result = Inflated "byte list" nat | Inflate_too_large | Inflate_failed

text \<open>\<open>inflateRawSync(bytes, { info, maxOutputLength })\<close>: the output and the bytes read.\<close>

type_synonym inflater = "byte list \<Rightarrow> nat \<Rightarrow> inflate_result"

definition readUInt32LE :: "byte list \<Rightarrow> nat \<Rightarrow> nat" where
  "readUInt32LE bytes i = unat (bytes ! i) + 256 * unat (bytes ! (i + 1)) + 65536 * unat (bytes ! (i + 2))
     + 16777216 * unat (bytes ! (i + 3))"

definition maximumTarBytes :: "stage_limits \<Rightarrow> nat" where
  "maximumTarBytes l = sl_uncompressedArtifactBytes l + sl_archiveEntries l * (512 * 2 - 1) + 1024"

definition decodeExactGzipMember :: "inflater \<Rightarrow> byte list \<Rightarrow> stage_limits \<Rightarrow> stage_error + byte list" where
  "decodeExactGzipMember inflate compressed l =
     rbind (guard archive_limit_exceeded (length compressed \<le> sl_compressedArtifactBytes l)) (\<lambda>_.
     rbind (guard archive_invalid (10 + 8 \<le> length compressed \<and> take 4 compressed = [0x1f, 0x8b, 0x08, 0x00])) (\<lambda>_.
     rbind (guard archive_limit_exceeded (int (maximumTarBytes l) \<le> max_safe)) (\<lambda>_.
     case inflate (drop 10 compressed) (maximumTarBytes l + 1) of
       Inflate_too_large \<Rightarrow> Inl archive_limit_exceeded
     | Inflate_failed \<Rightarrow> Inl archive_invalid
     | Inflated expanded deflateBytes \<Rightarrow>
         rbind (guard archive_invalid (0 < deflateBytes \<and> 10 + deflateBytes + 8 = length compressed)) (\<lambda>_.
         rbind (guard archive_limit_exceeded (length expanded \<le> maximumTarBytes l
           \<and> length expanded \<le> 20 * length compressed)) (\<lambda>_.
         rbind (guard archive_invalid (readUInt32LE compressed (10 + deflateBytes) = unat (crc32 expanded)
           \<and> readUInt32LE compressed (10 + deflateBytes + 4) = length expanded mod 2 ^ 32)) (\<lambda>_.
         Inr expanded))))))"

subsection \<open>The second parser\<close>

text \<open>What the handlers read of an entry of the parser; a flag is set when its property is not \<open>undefined\<close>.\<close>

record parsed_entry =
  pe_type :: string
  pe_path :: string
  pe_size :: jnum
  pe_mode :: "jnum option"
  pe_meta :: bool
  pe_ignore :: bool
  pe_unsupported :: bool
  pe_extended :: bool
  pe_globalExtended :: bool
  pe_linkpath :: bool

datatype tar_event =
  Read_entry nat parsed_entry | Entry_data nat "byte list" | Entry_error nat | Entry_end nat
  | Parser_warn | Parser_error | Parser_ignored | Parser_meta | Null_block | Parser_eof | Parser_end

text \<open>\<open>new Parser(...)\<close> and \<open>end(expanded)\<close>: the events it emits, and whether it throws in the end.\<close>

type_synonym tar_parser = "byte list \<Rightarrow> tar_event list \<times> bool"

record candidate_entry =
  cd_path :: string
  cd_type :: entry_type
  cd_size :: jnum
  cd_mode :: jnum
  cd_observed :: nat
  cd_sha :: "string option"

text \<open>An entry being read: its data so far, and whether the hash has been finished, after which it throws.\<close>

record reading =
  rd_entry :: parsed_entry
  rd_data :: "byte list"
  rd_hashed :: bool

record parser_state =
  ps_open :: "(nat, reading) omap"
  ps_entries :: "candidate_entry list"
  ps_failed :: bool
  ps_ended :: bool
  ps_nullBlocks :: nat
  ps_eofEvents :: nat

definition candidate_type :: "parsed_entry \<Rightarrow> entry_type option" where
  "candidate_type p =
     (if pe_type p = ''File'' \<or> pe_type p = ''OldFile'' then Some Entry_file
      else if pe_type p = ''Directory'' then Some Entry_directory else None)"

text \<open>The handler of the end of an entry.\<close>

definition entry_ended :: "stage_limits \<Rightarrow> nat \<Rightarrow> reading \<Rightarrow> parser_state \<Rightarrow> parser_state" where
  "entry_ended l i r s =
     (let p = rd_entry r in
      case candidate_type p of
        None \<Rightarrow> s\<lparr>ps_failed := True\<rparr>
      | Some t \<Rightarrow>
          if pe_meta p \<or> pe_ignore p \<or> pe_unsupported p \<or> pe_extended p \<or> pe_globalExtended p \<or> pe_linkpath p
             \<or> sl_regularFileBytes l < length (rd_data r) \<or> (t = Entry_file \<and> rd_hashed r)
          then s\<lparr>ps_failed := True\<rparr>
          else s\<lparr>ps_entries := ps_entries s @ [\<lparr>cd_path = pe_path p, cd_type = t, cd_size = pe_size p,
                   cd_mode = (case pe_mode p of None \<Rightarrow> NInt 0 | Some m \<Rightarrow> m), cd_observed = length (rd_data r),
                   cd_sha = (if t = Entry_directory then None else Some (sha256_hex (rd_data r)))\<rparr>],
                 ps_open := om_set i (r\<lparr>rd_hashed := t = Entry_file\<rparr>) (ps_open s)\<rparr>)"

fun parser_step :: "stage_limits \<Rightarrow> parser_state \<Rightarrow> tar_event \<Rightarrow> parser_state" where
  "parser_step l s (Read_entry i p) = s\<lparr>ps_open := om_set i \<lparr>rd_entry = p, rd_data = [], rd_hashed = False\<rparr> (ps_open s)\<rparr>"
| "parser_step l s (Entry_data i d) =
     (case map_of (ps_open s) i of
        None \<Rightarrow> s
      | Some r \<Rightarrow> if rd_hashed r then s\<lparr>ps_failed := True\<rparr>
          else s\<lparr>ps_open := om_set i (r\<lparr>rd_data := rd_data r @ d\<rparr>) (ps_open s)\<rparr>)"
| "parser_step l s (Entry_error i) = s\<lparr>ps_failed := True\<rparr>"
| "parser_step l s (Entry_end i) = (case map_of (ps_open s) i of None \<Rightarrow> s | Some r \<Rightarrow> entry_ended l i r s)"
| "parser_step l s Parser_warn = s\<lparr>ps_failed := True\<rparr>"
| "parser_step l s Parser_error = s\<lparr>ps_failed := True\<rparr>"
| "parser_step l s Parser_ignored = s\<lparr>ps_failed := True\<rparr>"
| "parser_step l s Parser_meta = s\<lparr>ps_failed := True\<rparr>"
| "parser_step l s Null_block = s\<lparr>ps_nullBlocks := ps_nullBlocks s + 1\<rparr>"
| "parser_step l s Parser_eof = s\<lparr>ps_eofEvents := ps_eofEvents s + 1\<rparr>"
| "parser_step l s Parser_end = s\<lparr>ps_ended := True\<rparr>"

definition parseWithCandidate :: "tar_parser \<Rightarrow> byte list \<Rightarrow> stage_limits \<Rightarrow> stage_error + candidate_entry list" where
  "parseWithCandidate parser expanded l =
     (let (events, threw) = parser expanded;
          s = foldl (parser_step l) \<lparr>ps_open = [], ps_entries = [], ps_failed = False, ps_ended = False,
                ps_nullBlocks = 0, ps_eofEvents = 0\<rparr> events in
      rbind (guard archive_invalid (\<not> ps_failed s \<and> \<not> threw \<and> ps_ended s \<and> ps_nullBlocks s = 1 \<and> ps_eofEvents s = 1)) (\<lambda>_.
      Inr (ps_entries s)))"

definition candidate_matches :: "raw_entry \<Rightarrow> candidate_entry \<Rightarrow> bool" where
  "candidate_matches raw c \<longleftrightarrow> cd_path c = re_path raw \<and> cd_type c = re_type raw \<and> cd_size c = NInt (int (re_size raw))
     \<and> cd_mode c = NInt (int (re_mode raw)) \<and> cd_observed c = re_size raw
     \<and> cd_sha c = (if re_type raw = Entry_directory then None else Some (sha256_hex (re_body raw)))"

definition assertCandidateMatchesRaw :: "raw_entry list \<Rightarrow> candidate_entry list \<Rightarrow> stage_error + unit" where
  "assertCandidateMatchesRaw raws cs =
     guard archive_invalid (length raws = length cs \<and> list_all (\<lambda>(r, c). candidate_matches r c) (zip raws cs))"

subsection \<open>The transcript\<close>

record transcript_entry =
  te_archivePath :: string
  te_relativePath :: string
  te_type :: entry_type
  te_declaredSize :: jnum
  te_observedSize :: nat
  te_mode :: nat
  te_sha :: "string option"

record transcript_body =
  tb_sha512 :: string
  tb_compressedBytes :: nat
  tb_expandedBytes :: nat
  tb_entries :: "transcript_entry list"

record transcript = transcript_body +
  tr_digest :: string

definition type_name :: "entry_type \<Rightarrow> string" where
  "type_name t = (case t of Entry_file \<Rightarrow> ''file'' | Entry_directory \<Rightarrow> ''directory'')"

definition transcript_entry_json :: "transcript_entry \<Rightarrow> jsval" where
  "transcript_entry_json e = JObj
     [(''archivePath'', JStr (te_archivePath e)), (''relativePath'', JStr (te_relativePath e)),
      (''type'', JStr (type_name (te_type e))), (''declaredSize'', JNum (te_declaredSize e)),
      (''observedSize'', JInt (int (te_observedSize e))), (''normalizedMode'', JInt (int (te_mode e))),
      (''bodySha256'', case te_sha e of None \<Rightarrow> JNull | Some h \<Rightarrow> JStr h)]"

definition transcript_json :: "'a transcript_body_scheme \<Rightarrow> jsval" where
  "transcript_json t = JObj
     [(''adapterContractVersion'', JInt 1), (''candidatePackage'', JStr ''tar''), (''candidateVersion'', JStr ''7.5.22''),
      (''candidateEntrypoint'', JStr ''tar/parse''), (''archiveRulesVersion'', JInt 1), (''format'', JStr ''gzip_ustar_v0''),
      (''artifactSha512'', JStr (tb_sha512 t)), (''compressedBytes'', JInt (int (tb_compressedBytes t))),
      (''expandedBytes'', JInt (int (tb_expandedBytes t))), (''entries'', JArr (map transcript_entry_json (tb_entries t))),
      (''entryCount'', JInt (int (length (tb_entries t))))]"

definition stripPackageRoot :: "string \<Rightarrow> stage_error + string" where
  "stripPackageRoot path = rbind (guard archive_invalid (starts_with ''package/'' path)) (\<lambda>_. Inr (drop 8 path))"

definition entry_description :: "raw_entry \<Rightarrow> jsval" where
  "entry_description e = JObj [(''path'', JStr (re_path e)), (''type'', JStr (type_name (re_type e))),
     (''size'', JInt (int (re_size e))), (''mode'', JInt (int (re_mode e)))]"

definition transcript_entry_of :: "valid_entry list \<Rightarrow> candidate_entry \<Rightarrow> stage_error + transcript_entry" where
  "transcript_entry_of normalized c =
     rbind (stripPackageRoot (cd_path c)) (\<lambda>path.
     case map_of (map (\<lambda>e. (ve_path e, e)) normalized) path of
       None \<Rightarrow> Inl archive_invalid
     | Some n \<Rightarrow>
         rbind (guard archive_invalid (ve_type n = cd_type c \<and> NInt (int (ve_size n)) = cd_size c)) (\<lambda>_.
         Inr \<lparr>te_archivePath = cd_path c, te_relativePath = path, te_type = cd_type c, te_declaredSize = cd_size c,
              te_observedSize = cd_observed c, te_mode = ve_mode n, te_sha = cd_sha c\<rparr>))"

definition sealed_transcript :: "byte list \<Rightarrow> nat \<Rightarrow> transcript_entry list \<Rightarrow> transcript" where
  "sealed_transcript compressed expandedBytes entries =
     (let unsigned = \<lparr>tb_sha512 = ''sha512-'' @ b64_encode (sha512 compressed), tb_compressedBytes = length compressed,
            tb_expandedBytes = expandedBytes, tb_entries = entries\<rparr>
      in transcript_body.extend unsigned (transcript.fields (sha256 (canonicalJson (transcript_json unsigned)))))"

definition inspectArchive :: "inflater \<Rightarrow> tar_parser \<Rightarrow> byte list \<Rightarrow> stage_limits \<Rightarrow> bool
    \<Rightarrow> stage_error + transcript \<times> raw_entry list" where
  "inspectArchive inflate parser compressed l aborted =
     rbind (assertArchiveLimits l) (\<lambda>_.
     rbind (guard artifact_cancelled (\<not> aborted)) (\<lambda>_.
     rbind (decodeExactGzipMember inflate compressed l) (\<lambda>expanded.
     rbind (inspectExactUstar expanded l) (\<lambda>raws.
     rbind (parseWithCandidate parser expanded l) (\<lambda>candidates.
     rbind (assertCandidateMatchesRaw raws candidates) (\<lambda>_.
     rbind (preflight (new_archive_policy l) (JArr (map entry_description raws))) (\<lambda>(checked, _).
     rbind (mapM (transcript_entry_of (af_entries checked)) candidates) (\<lambda>entries.
     Inr (sealed_transcript compressed (af_bytes checked) entries, raws)))))))))"

definition inspectTarArchiveForWorker :: "inflater \<Rightarrow> tar_parser \<Rightarrow> byte list \<Rightarrow> stage_limits \<Rightarrow> bool
    \<Rightarrow> stage_error + transcript \<times> (transcript_entry \<times> byte list) list" where
  "inspectTarArchiveForWorker inflate parser compressed l aborted =
     rbind (inspectArchive inflate parser compressed l aborted) (\<lambda>(t, raws).
     Inr (t, map2 (\<lambda>e raw. (e, re_body raw)) (tb_entries t) raws))"

text \<open>The authority: the transcripts it has made, each a new object.\<close>

definition inspect_tar :: "inflater \<Rightarrow> tar_parser \<Rightarrow> nat \<Rightarrow> byte list \<Rightarrow> stage_limits \<Rightarrow> bool \<Rightarrow> transcript object list
    \<Rightarrow> stage_error + transcript object \<times> transcript object list" where
  "inspect_tar inflate parser addr compressed l aborted made =
     rbind (inspectArchive inflate parser compressed l aborted) (\<lambda>(t, _). Inr ((addr, t), (addr, t) # made))"

definition full_transcript_json :: "transcript \<Rightarrow> jsval" where
  "full_transcript_json t =
     (case transcript_json t of JObj kvs \<Rightarrow> JObj (kvs @ [(''transcriptDigest'', JStr (tr_digest t))]) | v \<Rightarrow> v)"

definition assertMatching :: "transcript object list \<Rightarrow> transcript object \<Rightarrow> transcript object \<Rightarrow> stage_error + unit" where
  "assertMatching made a b =
     rbind (guard archive_invalid (a \<in> set made \<and> b \<in> set made)) (\<lambda>_.
     guard archive_invalid (tr_digest (snd a) = tr_digest (snd b)
       \<and> canonicalJson (full_transcript_json (snd a)) = canonicalJson (full_transcript_json (snd b))))"

subsection \<open>What an inspected archive is\<close>

lemma gzip_Inr:
  assumes "decodeExactGzipMember inflate b l = Inr x"
  shows "\<exists>n. inflate (drop 10 b) (maximumTarBytes l + 1) = Inflated x n \<and> 0 < n \<and> length b = 18 + n
    \<and> readUInt32LE b (10 + n) = unat (crc32 x) \<and> readUInt32LE b (14 + n) = length x mod 2 ^ 32"
  using assms by (auto simp: decodeExactGzipMember_def rbind_Inr_iff add.commute split: inflate_result.splits)

lemma candidates_match: "assertCandidateMatchesRaw raws cs = Inr u \<Longrightarrow> list_all2 candidate_matches raws cs"
  by (auto simp: assertCandidateMatchesRaw_def list_all2_iff list_all_iff)

lemma check_description:
  assumes "check_entry l (entry_description r) = Inr e"
  shows "re_path r = ''package/'' @ ve_path e \<and> ve_type e = re_type r \<and> ve_size e = re_size r
    \<and> ve_mode e = normalizedMode (re_type r) (re_mode r)"
  using assms
  by (auto simp: check_entry_def rbind_Inr_iff entry_description_def entry_type_at_def safe_nat_at_def type_name_def
      split: option.splits if_splits entry_type.splits dest!: archiveRelativePath_Inr)

text \<open>What the transcript says of an entry.\<close>

definition transcribes :: "stage_limits \<Rightarrow> raw_entry \<Rightarrow> transcript_entry \<Rightarrow> bool" where
  "transcribes l raw e \<longleftrightarrow> te_archivePath e = re_path raw \<and> re_path raw = ''package/'' @ te_relativePath e
     \<and> te_type e = re_type raw \<and> te_declaredSize e = NInt (int (re_size raw)) \<and> te_observedSize e = re_size raw
     \<and> te_mode e = normalizedMode (re_type raw) (re_mode raw)
     \<and> te_sha e = (if re_type raw = Entry_directory then None else Some (sha256_hex (re_body raw)))
     \<and> (\<forall>d. walk d (split_on (CHR ''/'') (te_relativePath e)) = List.rev (split_on (CHR ''/'') (te_relativePath e)) @ d)"

lemma transcribes_unique: "transcribes l raw e \<Longrightarrow> transcribes l raw f \<Longrightarrow> e = f"
  by (simp add: transcribes_def)

lemma transcribes_all_unique: "list_all2 (transcribes l) rs es \<Longrightarrow> list_all2 (transcribes l) rs fs \<Longrightarrow> es = fs"
proof (induction rs arbitrary: es fs)
  case (Cons r rs)
  then obtain e es' f fs' where c: "es = e # es'" "fs = f # fs'" "transcribes l r e" "transcribes l r f"
    "list_all2 (transcribes l) rs es'" "list_all2 (transcribes l) rs fs'"
    by (auto simp: list_all2_Cons1)
  show ?case unfolding c(1,2) transcribes_unique [OF c(3,4)] Cons.IH [OF c(5,6)] by (rule refl)
qed simp

lemma transcript_entry_transcribes:
  assumes "check_entry l (entry_description raw) = Inr v" "candidate_matches raw c" "transcript_entry_of ns c = Inr e"
    "v \<in> set ns" "distinct (map ve_path ns)"
  shows "transcribes l raw e \<and> te_relativePath e = ve_path v"
proof -
  note d = check_description [OF assms(1)]
  have p: "cd_path c = ''package/'' @ ve_path v" using assms(2) d by (simp add: candidate_matches_def)
  have "map_of (map (\<lambda>e. (ve_path e, e)) ns) (ve_path v) = Some v"
    using assms(4,5) by (intro map_of_is_SomeI) (auto simp: comp_def)
  then have e: "e = \<lparr>te_archivePath = cd_path c, te_relativePath = ve_path v, te_type = cd_type c, te_declaredSize = cd_size c,
      te_observedSize = cd_observed c, te_mode = ve_mode v, te_sha = cd_sha c\<rparr>"
    using assms(3) p by (auto simp: transcript_entry_of_def stripPackageRoot_def rbind_Inr_iff)
  have "entry_contained l v" using assms(1) by (rule check_entry_contained)
  with e d assms(2) show ?thesis by (simp add: transcribes_def candidate_matches_def entry_contained_def Let_def)
qed

lemma transcript_entries_transcribe:
  assumes "list_all2 (\<lambda>r v. check_entry l (entry_description r) = Inr v) raws vs" "list_all2 candidate_matches raws cs"
    "list_all2 (\<lambda>c e. transcript_entry_of ns c = Inr e) cs es" "set vs \<subseteq> set ns" "distinct (map ve_path ns)"
  shows "list_all2 (transcribes l) raws es \<and> map te_relativePath es = map ve_path vs"
  using assms
proof (induction raws arbitrary: vs cs es)
  case (Cons raw raws)
  from Cons.prems(1-3) obtain v vs' c cs' e es' where x: "vs = v # vs'" "cs = c # cs'" "es = e # es'"
    by (auto simp: list_all2_Cons1)
  from transcript_entry_transcribes [of l raw v c ns e] Cons.prems x
  have "transcribes l raw e \<and> te_relativePath e = ve_path v" by simp
  with Cons.IH [of vs' cs' es'] Cons.prems show ?case by (simp add: x)
qed auto

lemma entry_bytes_raw:
  "list_all2 (\<lambda>r v. check_entry l (entry_description r) = Inr v) raws vs \<Longrightarrow> entry_bytes vs = raw_bytes raws"
  by (induction rule: list_all2_induct) (auto simp: entry_bytes_simps raw_bytes_def dest!: check_description)

text \<open>Everything but the second parser, which leaves no trace.\<close>

lemma inspectArchive_Inr:
  assumes "inspectArchive inflate parser bytes l aborted = Inr (t, raws)"
  shows "\<exists>expanded. decodeExactGzipMember inflate bytes l = Inr expanded \<and> inspectExactUstar expanded l = Inr raws
    \<and> list_all2 (transcribes l) raws (tb_entries t) \<and> distinct (map (locale_lower \<circ> te_relativePath) (tb_entries t))
    \<and> t = sealed_transcript bytes (raw_bytes raws) (tb_entries t)"
proof -
  obtain expanded cs u r P es where i: "decodeExactGzipMember inflate bytes l = Inr expanded"
    "inspectExactUstar expanded l = Inr raws" "assertCandidateMatchesRaw raws cs = Inr u"
    "preflight (new_archive_policy l) (JArr (map entry_description raws)) = Inr (r, P)"
    "mapM (transcript_entry_of (af_entries r)) cs = Inr es" "t = sealed_transcript bytes (af_bytes r) es"
    using assms by (auto simp: inspectArchive_def rbind_Inr_iff)
  obtain vs where v: "mapM (check_entry l) (map entry_description raws) = Inr vs" "entries_fit (new_archive_policy l) vs"
    "r = \<lparr>af_entries = isort entry_lt vs, af_count = length vs, af_bytes = entry_bytes vs\<rparr>"
    using i(4) unfolding preflight_spec by (auto simp: new_archive_policy_def)
  have c: "list_all2 (\<lambda>r v. check_entry l (entry_description r) = Inr v) raws vs"
    using v(1) by (simp add: mapM_Inr_iff list_all2_map1)
  have d: "distinct (map portable_key vs)" using v(2) by (simp add: entries_fit_def)
  then have "distinct (map locale_lower (map ve_path vs))" by (simp add: portable_key_def [abs_def] comp_def)
  then have "distinct (map ve_path (isort entry_lt vs))" unfolding distinct_map_isort using distinct_map by blast
  then have e: "list_all2 (transcribes l) raws es \<and> map te_relativePath es = map ve_path vs"
    using transcript_entries_transcribe [OF c candidates_match [OF i(3)], of "af_entries r" es] i(5) v(3)
    by (simp add: mapM_Inr_iff)
  have "tb_entries t = es" by (simp add: i(6) sealed_transcript_def Let_def transcript_body.defs transcript.defs)
  moreover have "distinct (map (locale_lower \<circ> te_relativePath) es)"
    using d arg_cong [OF conjunct2 [OF e], of "map locale_lower"] by (simp add: portable_key_def [abs_def] comp_def)
  moreover have "af_bytes r = raw_bytes raws" using v(3) entry_bytes_raw [OF c] by simp
  ultimately show ?thesis using i e by auto
qed

text \<open>
  C20: An inspected archive is exactly what its transcript says.  Whatever the inflater and the
  second parser do, the file is one gzip member whose checksum and length match the expanded
  bytes; these are the blocks of the entries and the end of the archive and nothing else; and
  the transcript lists these entries in order, each below the package, with its size, its
  normalised mode and the SHA-256 of its body, together with the SHA-512 of the file.
\<close>

theorem inspected_archive_exact:
  assumes "inspectArchive inflate parser bytes l aborted = Inr (t, raws)"
  shows "\<exists>expanded n hs. inflate (drop 10 bytes) (maximumTarBytes l + 1) = Inflated expanded n \<and> length bytes = 18 + n
    \<and> readUInt32LE bytes (10 + n) = unat (crc32 expanded) \<and> readUInt32LE bytes (14 + n) = length expanded mod 2 ^ 32
    \<and> list_all2 ustar_entry hs raws \<and> expanded = archive_blocks hs raws \<and> raw_fit l raws
    \<and> list_all2 (transcribes l) raws (tb_entries t) \<and> distinct (map (locale_lower \<circ> te_relativePath) (tb_entries t))
    \<and> t = sealed_transcript bytes (raw_bytes raws) (tb_entries t)"
proof -
  obtain expanded where e: "decodeExactGzipMember inflate bytes l = Inr expanded" "inspectExactUstar expanded l = Inr raws"
    "list_all2 (transcribes l) raws (tb_entries t)" "distinct (map (locale_lower \<circ> te_relativePath) (tb_entries t))"
    "t = sealed_transcript bytes (raw_bytes raws) (tb_entries t)"
    using inspectArchive_Inr [OF assms] by blast
  with gzip_Inr [OF e(1)] show ?thesis unfolding ustar_spec by blast
qed

text \<open>
  The second parser can only reject.  Two inspections of a file under the same limits that
  both succeed have the same transcript and the same entries, whatever parsers they used.
\<close>

theorem second_parser_only_rejects:
  assumes "inspectArchive inflate parser bytes l aborted = Inr (t, raws)"
    "inspectArchive inflate parser' bytes l aborted' = Inr (t', raws')"
  shows "t' = t \<and> raws' = raws"
proof -
  obtain x where x: "decodeExactGzipMember inflate bytes l = Inr x" "inspectExactUstar x l = Inr raws"
    "list_all2 (transcribes l) raws (tb_entries t)" "t = sealed_transcript bytes (raw_bytes raws) (tb_entries t)"
    using inspectArchive_Inr [OF assms(1)] by blast
  obtain y where y: "decodeExactGzipMember inflate bytes l = Inr y" "inspectExactUstar y l = Inr raws'"
    "list_all2 (transcribes l) raws' (tb_entries t')" "t' = sealed_transcript bytes (raw_bytes raws') (tb_entries t')"
    using inspectArchive_Inr [OF assms(2)] by blast
  have r: "raws' = raws" using x(1,2) y(1,2) by simp
  have q: "tb_entries t = tb_entries t'" using x(3) y(3) unfolding r by (rule transcribes_all_unique)
  have "t' = sealed_transcript bytes (raw_bytes raws) (tb_entries t)" using y(4) unfolding q [symmetric] r .
  also have "\<dots> = t" using x(4) by (rule sym)
  finally show ?thesis using r by simp
qed

subsection \<open>A concrete archive\<close>

definition demo_header :: "byte list" where
  "demo_header = [112, 97, 99, 107, 97, 103, 101, 47, 97] @ replicate 91 0 @ [48, 48, 48, 48, 54, 52, 52, 0] @ replicate 16 0 @ [48, 48, 48, 48, 48, 48, 48, 48, 48, 48, 48, 0] @ replicate 12 0 @ [48, 48, 53, 50, 49, 49, 0, 32] @ [0x30] @ replicate 100 0
     @ [117, 115, 116, 97, 114, 0, 48, 48] @ replicate 247 0"

lemma demo_header_read: "read_header demo_header =
    Inr \<lparr>re_path = ''package/a'', re_type = Entry_file, re_size = 0, re_mode = 420, re_body = []\<rparr>"
proof -
  have f: "subarray 257 263 demo_header = [117, 115, 116, 97, 114, 0]" "subarray 263 265 demo_header = [48, 48]"
    "subarray 157 257 demo_header = replicate 100 0" "demo_header ! 156 = 48"
    "subarray 0 100 demo_header = [112, 97, 99, 107, 97, 103, 101, 47, 97] @ replicate 91 0"
    "subarray 345 500 demo_header = replicate 155 0"
    "subarray 124 136 demo_header = [48, 48, 48, 48, 48, 48, 48, 48, 48, 48, 48, 0]"
    "subarray 100 108 demo_header = [48, 48, 48, 48, 54, 52, 52, 0]"
    "subarray 148 156 demo_header = [48, 48, 53, 50, 49, 49, 0, 32]"
    by (simp_all add: subarray_def demo_header_def nth_append nth_Cons')
  have o: "parseCanonicalOctal [48, 48, 48, 48, 48, 48, 48, 48, 48, 48, 48, 0] = Inr 0"
    "parseCanonicalOctal [48, 48, 48, 48, 54, 52, 52, 0] = Inr 420"
    "parseCanonicalOctal [48, 48, 53, 50, 49, 49, 0, 32] = Inr 2697"
    by (simp_all add: parseCanonicalOctal_def octal_digits_def octal_value_def max_safe_def Let_def)
  have c: "checksumIsValid demo_header"
    unfolding checksumIsValid_def f o by (simp add: demo_header_def sum_list_replicate)
  have "decodeCanonicalTextField (replicate 155 0) = Inr []"
    by (simp add: decodeCanonicalTextField_def is_zero_def list_all_iff utf8_decode_def)
  moreover have "decodeCanonicalTextField ([112, 97, 99, 107, 97, 103, 101, 47, 97] @ replicate 91 0) = Inr ''package/a''"
    by (simp add: decodeCanonicalTextField_def is_zero_def list_all_iff utf8_decode_def) code_simp
  ultimately show ?thesis
    using c f o by (simp add: read_header_def is_ustar_header_def type_of_flag_def header_path_def is_zero_def list_all_iff)
qed

definition demo_raw :: raw_entry where
  "demo_raw = \<lparr>re_path = ''package/a'', re_type = Entry_file, re_size = 0, re_mode = 420, re_body = []\<rparr>"

definition demo_expanded :: "byte list" where
  "demo_expanded = demo_header @ replicate 1024 0"

lemma demo_header_length: "length demo_header = 512" "length demo_expanded = 1536"
  by (simp_all add: demo_header_def demo_expanded_def)

lemma demo_ustar: "inspectExactUstar demo_expanded PACKAGE_STAGE_HARD_CEILINGS = Inr [demo_raw]"
proof -
  have "ustar_entry demo_header demo_raw"
    using demo_header_length demo_header_read by (simp add: ustar_entry_def demo_raw_def) (simp add: demo_header_def is_zero_def)
  moreover have "archive_blocks [demo_header] [demo_raw] = demo_expanded"
    by (simp add: demo_expanded_def entry_blocks_def demo_raw_def padded_def)
  moreover have "raw_fit PACKAGE_STAGE_HARD_CEILINGS [demo_raw]"
    by (simp add: raw_fit_def raw_bytes_def demo_raw_def PACKAGE_STAGE_HARD_CEILINGS_def)
  ultimately show ?thesis
    unfolding ustar_spec using demo_header_length by (intro exI [of _ "[demo_header]"]) (simp add: max_safe_def)
qed

definition le_bytes :: "nat \<Rightarrow> byte list" where
  "le_bytes n = map (\<lambda>i. word_of_nat (n div 256 ^ i mod 256)) [0, 1, 2, 3]"

lemma le_bytes_read: "n < 2 ^ 32 \<Longrightarrow> readUInt32LE (xs @ le_bytes n @ ys) (length xs) = n"
proof -
  assume n: "n < 2 ^ 32"
  have b: "unat (word_of_nat m :: byte) = m mod 256" for m
    by (simp add: unat_of_nat take_bit_nat_def)
  have "n mod 256 + 256 * (n div 256 mod 256) + 65536 * (n div 65536 mod 256) + 16777216 * (n div 16777216 mod 256) = n"
  proof -
    let ?a = "n div 256" let ?b = "?a div 256" let ?c = "?b div 256"
    have d: "n div 65536 = ?b" "n div 16777216 = ?c" by (simp_all flip: div_mult2_eq)
    have "?c < 256" using n by (simp flip: div_mult2_eq)
    then have "?c mod 256 = ?c" by simp
    then show ?thesis
      unfolding d using div_mult_mod_eq [of n 256] div_mult_mod_eq [of ?a 256] div_mult_mod_eq [of ?b 256] by linarith
  qed
  moreover have "n div 16777216 mod 256 = n div 16777216" using n by simp
  ultimately show ?thesis by (simp add: readUInt32LE_def le_bytes_def nth_append b)
qed

definition demo_file :: "byte list" where
  "demo_file = ([0x1f, 0x8b, 8, 0, 0, 0, 0, 0, 0, 0] @ replicate 60 0) @ le_bytes (unat (crc32 demo_expanded)) @ le_bytes 1536"

definition demo_inflate :: inflater where
  "demo_inflate _ _ = Inflated demo_expanded 60"

definition demo_parsed :: parsed_entry where
  "demo_parsed = \<lparr>pe_type = ''File'', pe_path = ''package/a'', pe_size = NInt 0, pe_mode = Some (NInt 420), pe_meta = False,
     pe_ignore = False, pe_unsupported = False, pe_extended = False, pe_globalExtended = False, pe_linkpath = False\<rparr>"

definition demo_parser :: "tar_event list \<Rightarrow> tar_parser" where
  "demo_parser body _ = ([Read_entry 1 demo_parsed] @ body @ [Entry_end 1, Null_block, Parser_eof, Parser_end], False)"

lemma demo_gzip: "decodeExactGzipMember demo_inflate demo_file PACKAGE_STAGE_HARD_CEILINGS = Inr demo_expanded"
proof -
  have l: "length demo_file = 78" by (simp add: demo_file_def le_bytes_def)
  have c: "readUInt32LE demo_file 70 = unat (crc32 demo_expanded)"
    using le_bytes_read [of "unat (crc32 demo_expanded)" "[0x1f, 0x8b, 8, 0, 0, 0, 0, 0, 0, 0] @ replicate 60 0"]
      unsigned_less [of "crc32 demo_expanded"] by (simp add: demo_file_def)
  have n: "readUInt32LE demo_file 74 = 1536"
    using le_bytes_read [of 1536 "([0x1f, 0x8b, 8, 0, 0, 0, 0, 0, 0, 0] @ replicate 60 0) @ le_bytes (unat (crc32 demo_expanded))" "[]"]
    by (simp add: demo_file_def le_bytes_def)
  have t: "take 4 demo_file = [0x1f, 0x8b, 8, 0]" by (simp add: demo_file_def)
  show ?thesis
    using l c n t demo_header_length
    by (simp add: decodeExactGzipMember_def demo_inflate_def maximumTarBytes_def PACKAGE_STAGE_HARD_CEILINGS_def max_safe_def)
qed

lemma demo_inspected:
  assumes "body = [] \<or> body = [Entry_data 1 []]"
  shows "\<exists>t. inspectArchive demo_inflate (demo_parser body) demo_file PACKAGE_STAGE_HARD_CEILINGS False = Inr (t, [demo_raw])"
proof -
  let ?l = PACKAGE_STAGE_HARD_CEILINGS
  have a: "assertArchiveLimits ?l = Inr ()"
    by (simp add: assertArchiveLimits_def within_ceilings_def limit_entries_def limits_consistent_def PACKAGE_STAGE_HARD_CEILINGS_def)
  have p: "parseWithCandidate (demo_parser body) demo_expanded ?l = Inr [\<lparr>cd_path = ''package/a'', cd_type = Entry_file,
      cd_size = NInt 0, cd_mode = NInt 420, cd_observed = 0, cd_sha = Some (sha256_hex [])\<rparr>]" (is "_ = Inr [?c]")
    using assms by (auto simp: parseWithCandidate_def demo_parser_def entry_ended_def demo_parsed_def candidate_type_def Let_def)
  have m: "assertCandidateMatchesRaw [demo_raw] [?c] = Inr ()"
    by (simp add: assertCandidateMatchesRaw_def candidate_matches_def demo_raw_def)
  have e: "check_entry ?l (entry_description demo_raw) = Inr \<lparr>ve_path = ''a'', ve_type = Entry_file, ve_size = 0, ve_mode = 420\<rparr>"
    (is "_ = Inr ?v")
    by (simp add: check_entry_def entry_shape_def entry_description_def demo_raw_def is_obj_def keys_of_def ENTRY_KEYS_def
        entry_type_at_def type_name_def safe_nat_at_def max_safe_def plain_entry_def archiveRelativePath_def portable_text_def
        is_control_def PACKAGE_STAGE_HARD_CEILINGS_def plain_segment_def normalizedMode_def)
  have "\<exists>P. preflight (new_archive_policy ?l) (JArr (map entry_description [demo_raw]))
      = Inr (\<lparr>af_entries = [?v], af_count = 1, af_bytes = 0\<rparr>, P)"
    unfolding preflight_spec using e
    by (auto simp: entries_fit_def new_archive_policy_def entry_bytes_simps PACKAGE_STAGE_HARD_CEILINGS_def)
  moreover have "transcript_entry_of [?v] ?c = Inr \<lparr>te_archivePath = ''package/a'', te_relativePath = ''a'', te_type = Entry_file,
      te_declaredSize = NInt 0, te_observedSize = 0, te_mode = 420, te_sha = Some (sha256_hex [])\<rparr>"
    by (simp add: transcript_entry_of_def stripPackageRoot_def)
  ultimately show ?thesis
    using a demo_gzip demo_ustar p m by (auto simp: inspectArchive_def)
qed

theorem inspected_archive_exact_witness:
  "\<exists>t hs. inspectArchive demo_inflate (demo_parser []) demo_file PACKAGE_STAGE_HARD_CEILINGS False = Inr (t, [demo_raw])
     \<and> demo_expanded = archive_blocks hs [demo_raw] \<and> list_all2 (transcribes PACKAGE_STAGE_HARD_CEILINGS) [demo_raw] (tb_entries t)"
proof -
  obtain t where t: "inspectArchive demo_inflate (demo_parser []) demo_file PACKAGE_STAGE_HARD_CEILINGS False = Inr (t, [demo_raw])"
    using demo_inspected [of "[]"] by blast
  from inspected_archive_exact [OF t] t show ?thesis unfolding demo_inflate_def by blast
qed

theorem second_parser_only_rejects_witness:
  "\<exists>t. inspectArchive demo_inflate (demo_parser []) demo_file PACKAGE_STAGE_HARD_CEILINGS False = Inr (t, [demo_raw])
     \<and> inspectArchive demo_inflate (demo_parser [Entry_data 1 []]) demo_file PACKAGE_STAGE_HARD_CEILINGS False = Inr (t, [demo_raw])"
proof -
  obtain t where t: "inspectArchive demo_inflate (demo_parser []) demo_file PACKAGE_STAGE_HARD_CEILINGS False = Inr (t, [demo_raw])"
    using demo_inspected [of "[]"] by blast
  obtain u where u: "inspectArchive demo_inflate (demo_parser [Entry_data 1 []]) demo_file PACKAGE_STAGE_HARD_CEILINGS False = Inr (u, [demo_raw])"
    using demo_inspected [of "[Entry_data 1 []]"] by blast
  from second_parser_only_rejects [OF t u] t u show ?thesis by auto
qed

end
