(* ===== verification/ExactGraph.thy ===== *)
theory ExactGraph
  imports StageProfile
begin

section \<open>Package staging: candidates compiled from a lock file\<close>

text \<open>
  Models \<open>ExactGraphCandidateAuthority\<close> of src/stage/exact-production-graph.ts: the checks on the
  input, the compilation of a package lock into the nodes of a graph, and the authority that
  hands out candidates and the reasons of rejections.

  The input is untrusted data; the URL parser is a parameter.  \<open>fail\<close> throws with a predicate,
  which is the error here.
\<close>

datatype exact_failure =
  candidate_input_rejected | lock_document_shape_rejected | root_package_shape_rejected
  | root_dependency_identity_rejected | graph_size_rejected | install_path_rejected
  | package_record_shape_rejected | package_dev_flag_rejected | package_optional_flag_rejected
  | package_peer_flag_rejected | package_dev_optional_flag_rejected | package_install_script_flag_rejected
  | package_link_flag_rejected | package_in_bundle_flag_rejected | package_peer_dependencies_rejected
  | package_peer_dependencies_meta_rejected | package_optional_dependencies_rejected
  | package_bundle_dependencies_rejected | package_bundled_dependencies_rejected
  | package_os_selector_rejected | package_cpu_selector_rejected | package_artifact_identity_rejected
  | dependency_specifier_rejected | dependency_resolution_rejected | target_identity_rejected
  | graph_connectivity_rejected

text \<open>The profile id is what \<open>RegExp.test\<close> accepts, which need not be a string.\<close>

record exact_candidate =
  ec_profileId :: jsval
  ec_profileVersion :: int
  ec_topName :: string
  ec_topVersion :: string
  ec_entrypoint :: string
  ec_registryOrigin :: string
  ec_nodeVersion :: string
  ec_npmVersion :: string
  ec_materializationRules :: int
  ec_archiveRules :: int
  ec_limits :: stage_limits
  ec_nodes :: "graph_node list"

definition ARCHIVE_WORKER_PROTOCOL_VERSION :: int where
  "ARCHIVE_WORKER_PROTOCOL_VERSION = 2"

subsection \<open>Reading values\<close>

definition ensure :: "'e \<Rightarrow> bool \<Rightarrow> 'e + unit" where
  "ensure e ok = (if ok then Inr () else Inl e)"

lemma ensure_simps [simp]: "ensure e ok = Inr u \<longleftrightarrow> ok" "ensure e True = Inr ()" "ensure e False = Inl e"
  by (simp_all add: ensure_def)

definition want_text :: "'e \<Rightarrow> (string \<Rightarrow> bool) \<Rightarrow> jsval \<Rightarrow> 'e + string" where
  "want_text e ok v = (case v of JStr s \<Rightarrow> if ok s then Inr s else Inl e | _ \<Rightarrow> Inl e)"

definition want_positive :: "'e \<Rightarrow> jsval \<Rightarrow> 'e + int" where
  "want_positive e v = (case v of JNum (NInt i) \<Rightarrow> if 0 < i \<and> i \<le> max_safe then Inr i else Inl e | _ \<Rightarrow> Inl e)"

lemma want_text_Inr [simp]: "want_text e ok v = Inr s \<longleftrightarrow> v = JStr s \<and> ok s"
  by (auto simp: want_text_def split: jsval.splits)

lemma want_positive_Inr: "want_positive e v = Inr i \<longleftrightarrow> v = JInt i \<and> 0 < i \<and> i \<le> max_safe"
  by (auto simp: want_positive_def split: jsval.splits jnum.splits)

text \<open>
  \<open>String(v)\<close>, which \<open>RegExp.test\<close> applies to its argument.  The infinities and a symbol, whose
  conversion throws, count as texts no pattern here matches.
\<close>

fun js_string :: "jsval \<Rightarrow> string" where
  "js_string (JStr s) = s"
| "js_string (JNum n) = (case n of NInt i \<Rightarrow> show_int i | NDec t \<Rightarrow> t | NNonFinite \<Rightarrow> ''NaN'')"
| "js_string (JBool b) = (if b then ''true'' else ''false'')"
| "js_string JNull = ''null''"
| "js_string JUndef = ''undefined''"
| "js_string (JBig i) = show_int i"
| "js_string (JOther t) = ''[object Object]''"
| "js_string (JArr vs) = join_with '','' (map (\<lambda>v. case v of JUndef \<Rightarrow> [] | JNull \<Rightarrow> [] | _ \<Rightarrow> js_string v) vs)"
| "js_string (JObj kvs) = ''[object Object]''"

subsection \<open>The input of a candidate\<close>

definition input_keys :: "string list" where
  "input_keys = [''profileId'', ''profileVersion'', ''topPackage'', ''registryOrigin'', ''runtimeConstraint'',
     ''materializationRulesVersion'', ''archiveRulesVersion'', ''workerProtocolVersion'', ''limits'', ''packageLock'']"

definition runtime_keys :: "string list" where
  "runtime_keys = [''os'', ''architecture'', ''nodeMajor'', ''nodeVersion'', ''npmGraphGeneratorVersion'', ''lockfileVersion'']"

definition top_keys :: "string list" where
  "top_keys = [''name'', ''exactVersion'', ''exactEntrypointRelativePath'']"

definition candidate_limits :: "jsval \<Rightarrow> exact_failure + stage_limits" where
  "candidate_limits v = (case Stage.normalizeLimits v of Inl _ \<Rightarrow> Inl candidate_input_rejected | Inr l \<Rightarrow> Inr l)"

definition candidate_origin :: "value_url_parser \<Rightarrow> jsval \<Rightarrow> exact_failure + string" where
  "candidate_origin parse v =
     (case parse v of
        None \<Rightarrow> Inl candidate_input_rejected
      | Some u \<Rightarrow> if is_plain_https u \<and> ur_pathname u = ''/'' then Inr (ur_origin u @ ''/'') else Inl candidate_input_rejected)"

definition portable_path :: "stage_limits \<Rightarrow> string \<Rightarrow> bool" where
  "portable_path l p = is_ok (validatePortableRelativePath l p)"

text \<open>The checks on the input; the candidate has no nodes yet.\<close>

definition normalizeCandidateInput :: "value_url_parser \<Rightarrow> jsval \<Rightarrow> exact_failure + exact_candidate" where
  "normalizeCandidateInput parse v =
     (let bad = candidate_input_rejected; t = at v ''topPackage''; r = at v ''runtimeConstraint'' in
     rbind (ensure bad (exact_keys input_keys v)) (\<lambda>_.
     rbind (ensure bad (isStageIdentifier (js_string (at v ''profileId'')))) (\<lambda>_.
     rbind (want_positive bad (at v ''profileVersion'')) (\<lambda>version.
     rbind (ensure bad (exact_keys top_keys t)) (\<lambda>_.
     rbind (want_text bad isPackageName (at t ''name'')) (\<lambda>topName.
     rbind (want_text bad isExactVersion (at t ''exactVersion'')) (\<lambda>topVersion.
     rbind (candidate_limits (at v ''limits'')) (\<lambda>l.
     rbind (want_text bad (portable_path l) (at t ''exactEntrypointRelativePath'')) (\<lambda>entry.
     rbind (candidate_origin parse (at v ''registryOrigin'')) (\<lambda>origin.
     rbind (ensure bad (exact_keys runtime_keys r)) (\<lambda>_.
     rbind (ensure bad (at r ''os'' = JStr ''darwin'' \<and> at r ''architecture'' = JStr ''arm64'' \<and> at r ''nodeMajor'' = JInt 26)) (\<lambda>_.
     rbind (want_text bad isExactVersion (at r ''nodeVersion'')) (\<lambda>node.
     rbind (want_text bad isExactVersion (at r ''npmGraphGeneratorVersion'')) (\<lambda>npm.
     rbind (ensure bad (at r ''lockfileVersion'' = JInt 3
        \<and> at v ''workerProtocolVersion'' = JInt ARCHIVE_WORKER_PROTOCOL_VERSION)) (\<lambda>_.
     rbind (want_positive bad (at v ''materializationRulesVersion'')) (\<lambda>materialization.
     rbind (want_positive bad (at v ''archiveRulesVersion'')) (\<lambda>archive.
     Inr \<lparr>ec_profileId = at v ''profileId'', ec_profileVersion = version, ec_topName = topName, ec_topVersion = topVersion,
          ec_entrypoint = entry, ec_registryOrigin = origin, ec_nodeVersion = node, ec_npmVersion = npm,
          ec_materializationRules = materialization, ec_archiveRules = archive, ec_limits = l, ec_nodes = []\<rparr>)))))))))))))))))"

subsection \<open>Package records\<close>

definition other_sources :: "string list" where
  "other_sources = [''file:'', ''git+'', ''git:'', ''http:'', ''https:'', ''workspace:'', ''npm:'']"

definition is_specifier_text :: "string \<Rightarrow> bool" where
  "is_specifier_text s \<longleftrightarrow> isSafeText 256 s \<and> list_all (\<lambda>p. \<not> starts_with p s) other_sources"

definition parseDependencies :: "exact_failure \<Rightarrow> jsval \<Rightarrow> exact_failure + (string \<times> string) list" where
  "parseDependencies e v =
     (case v of
        JUndef \<Rightarrow> Inr []
      | JObj kvs \<Rightarrow> mapM (\<lambda>(name, x). rbind (ensure e (isPackageName name)) (\<lambda>_.
            rbind (want_text e is_specifier_text x) (\<lambda>s. Inr (name, s)))) kvs
      | _ \<Rightarrow> Inl e)"

text \<open>The loop over the segments of a path; \<open>None\<close> where it fails.\<close>

fun last_package :: "string list \<Rightarrow> string option \<Rightarrow> string option" where
  "last_package [] name = name"
| "last_package [m] name = None"
| "last_package (m # f # ss) name =
     (if m \<noteq> ''node_modules'' then None
      else if starts_with ''@'' f then (case ss of [] \<Rightarrow> None | s # r \<Rightarrow> last_package r (Some (f @ ''/'' @ s)))
      else last_package ss (Some f))"

definition packageNameFromInstallPath :: "string \<Rightarrow> exact_failure + string" where
  "packageNameFromInstallPath path =
     (case last_package (split_on (CHR ''/'') path) None of
        None \<Rightarrow> Inl install_path_rejected
      | Some name \<Rightarrow> if isPackageName name then Inr name else Inl install_path_rejected)"

definition validateLockTarball :: "value_url_parser \<Rightarrow> string \<Rightarrow> string \<Rightarrow> exact_failure + unit" where
  "validateLockTarball parse origin s =
     (case parse (JStr s) of
        None \<Rightarrow> Inl package_artifact_identity_rejected
      | Some u \<Rightarrow> ensure package_artifact_identity_rejected
          (is_plain_https u \<and> map_option ur_origin (parse (JStr origin)) = Some (ur_origin u)
           \<and> ends_with ''.tgz'' (ur_pathname u)))"

definition record_keys :: "string list" where
  "record_keys = [''version'', ''resolved'', ''integrity'', ''dependencies'', ''bin'', ''engines'', ''license'', ''funding'',
     ''dev'', ''optional'', ''peer'', ''devOptional'', ''peerDependencies'', ''peerDependenciesMeta'',
     ''optionalDependencies'', ''bundleDependencies'', ''bundledDependencies'', ''hasInstallScript'',
     ''link'', ''inBundle'', ''os'', ''cpu'']"

text \<open>The flags that must not be \<open>true\<close> and the fields that must not be there, in the order of the checks.\<close>

definition forbidden_flags :: "(string \<times> exact_failure) list" where
  "forbidden_flags = [(''dev'', package_dev_flag_rejected), (''optional'', package_optional_flag_rejected),
     (''peer'', package_peer_flag_rejected), (''devOptional'', package_dev_optional_flag_rejected),
     (''hasInstallScript'', package_install_script_flag_rejected), (''link'', package_link_flag_rejected),
     (''inBundle'', package_in_bundle_flag_rejected)]"

definition forbidden_fields :: "(string \<times> exact_failure) list" where
  "forbidden_fields = [(''peerDependencies'', package_peer_dependencies_rejected),
     (''peerDependenciesMeta'', package_peer_dependencies_meta_rejected),
     (''optionalDependencies'', package_optional_dependencies_rejected),
     (''bundleDependencies'', package_bundle_dependencies_rejected),
     (''bundledDependencies'', package_bundled_dependencies_rejected),
     (''os'', package_os_selector_rejected), (''cpu'', package_cpu_selector_rejected)]"

definition readLockRecord :: "value_url_parser \<Rightarrow> exact_candidate \<Rightarrow> string \<Rightarrow> jsval \<Rightarrow> exact_failure + graph_node" where
  "readLockRecord parse c path v =
     (let bad = package_artifact_identity_rejected in
     rbind (ensure package_record_shape_rejected (is_obj v \<and> list_all (\<lambda>k. k \<in> set record_keys) (keys_of v))) (\<lambda>_.
     rbind (mapM (\<lambda>(k, e). ensure e (at v k \<noteq> JBool True)) forbidden_flags) (\<lambda>_.
     rbind (mapM (\<lambda>(k, e). ensure e (at v k = JUndef)) forbidden_fields) (\<lambda>_.
     rbind (want_text bad isExactVersion (at v ''version'')) (\<lambda>version.
     rbind (want_text bad (\<lambda>_. True) (at v ''resolved'')) (\<lambda>resolved.
     rbind (want_text bad (\<lambda>_. True) (at v ''integrity'')) (\<lambda>integrity.
     rbind (validateLockTarball parse (ec_registryOrigin c) resolved) (\<lambda>_.
     rbind (ensure bad (parseSha512Integrity integrity \<noteq> None)) (\<lambda>_.
     rbind (packageNameFromInstallPath path) (\<lambda>name.
     rbind (parseDependencies dependency_specifier_rejected (at v ''dependencies'')) (\<lambda>deps.
     Inr \<lparr>gn_installPath = path, gn_packageName = name, gn_exactVersion = version, gn_tarballUrl = JStr resolved,
          gn_sha512Integrity = integrity,
          gn_edges = map (\<lambda>(n, s). \<lparr>de_packageName = n, de_installPath = [], de_declaredSpecifier = s\<rparr>) deps,
          gn_scripts = []\<rparr>)))))))))))"

text \<open>One round of the loop over the paths.\<close>

definition addLockNode :: "value_url_parser \<Rightarrow> exact_candidate \<Rightarrow> jsval \<Rightarrow> string \<Rightarrow> graph_node list \<Rightarrow> exact_failure + graph_node list" where
  "addLockNode parse c packages path nodes =
     rbind (ensure install_path_rejected (portable_path (ec_limits c) path)) (\<lambda>_.
     rbind (ensure install_path_rejected (starts_with ''node_modules/'' path)) (\<lambda>_.
     rbind (ensure install_path_rejected (locale_lower path \<notin> set (map (locale_lower \<circ> gn_installPath) nodes))) (\<lambda>_.
     rbind (readLockRecord parse c path (at packages path)) (\<lambda>n. Inr (nodes @ [n])))))"

subsection \<open>Resolution\<close>

text \<open>The part of a text before the last occurrence of another.\<close>

fun cut_last :: "string \<Rightarrow> string \<Rightarrow> string option" where
  "cut_last d [] = None"
| "cut_last d (c # s) = (case cut_last d s of
     Some p \<Rightarrow> Some (c # p) | None \<Rightarrow> if starts_with d (c # s) then Some [] else None)"

lemma cut_last_less: "cut_last d s = Some p \<Longrightarrow> length p < length s"
  by (induction s arbitrary: p) (auto split: option.splits if_splits)

text \<open>From a path upwards to the package that holds the dependency.\<close>

function nearest :: "(string \<Rightarrow> bool) \<Rightarrow> string \<Rightarrow> string \<Rightarrow> string option" where
  "nearest has cursor name =
     (let p = cursor @ ''/node_modules/'' @ name in
      if has p then Some p
      else (case cut_last ''/node_modules/'' cursor of
          Some c \<Rightarrow> nearest has c name
        | None \<Rightarrow> let q = ''node_modules/'' @ name in if has q then Some q else None))"
  by pat_completeness auto
termination
  by (relation "measure (\<lambda>(has, cursor, name). length cursor)") (auto dest: cut_last_less)

declare nearest.simps [simp del]

definition resolveNodeDependency :: "graph_node list \<Rightarrow> string \<Rightarrow> string \<Rightarrow> exact_failure + string" where
  "resolveNodeDependency nodes path name =
     (case nearest (\<lambda>p. find_node nodes p \<noteq> None) path name of None \<Rightarrow> Inl dependency_resolution_rejected | Some p \<Rightarrow> Inr p)"

definition resolveEdge :: "graph_node list \<Rightarrow> graph_node \<Rightarrow> dependency_edge \<Rightarrow> exact_failure + dependency_edge" where
  "resolveEdge nodes n e =
     rbind (resolveNodeDependency nodes (gn_installPath n) (de_packageName e)) (\<lambda>p.
     rbind (ensure dependency_resolution_rejected
         (map_option gn_packageName (find_node nodes p) = Some (de_packageName e))) (\<lambda>_.
     Inr (e\<lparr>de_installPath := p\<rparr>)))"

definition resolveNode :: "graph_node list \<Rightarrow> graph_node \<Rightarrow> exact_failure + graph_node" where
  "resolveNode nodes n = rbind (mapM (resolveEdge nodes n) (gn_edges n)) (\<lambda>es. Inr (n\<lparr>gn_edges := isort edge_lt es\<rparr>))"

subsection \<open>Compilation\<close>

definition assertConnectedAcyclic :: "graph_node list \<Rightarrow> string \<Rightarrow> exact_failure + unit" where
  "assertConnectedAcyclic nodes topPath =
     (case visit nodes [] [] topPath of
        None \<Rightarrow> Inl graph_connectivity_rejected
      | Some visited \<Rightarrow> ensure graph_connectivity_rejected (length visited = length nodes))"

definition lock_keys :: "string list" where
  "lock_keys = [''name'', ''version'', ''lockfileVersion'', ''requires'', ''packages'']"

definition is_text :: "jsval \<Rightarrow> bool" where
  "is_text v = (case v of JStr _ \<Rightarrow> True | _ \<Rightarrow> False)"

definition lock_shape :: "jsval \<Rightarrow> bool" where
  "lock_shape v \<longleftrightarrow> exact_keys lock_keys v \<and> is_text (at v ''name'') \<and> is_text (at v ''version'')
     \<and> at v ''lockfileVersion'' = JInt 3 \<and> at v ''requires'' = JBool True \<and> is_obj (at v ''packages'')"

definition root_shape :: "jsval \<Rightarrow> bool" where
  "root_shape r \<longleftrightarrow> is_obj r \<and> list_all (\<lambda>k. k \<in> {''name'', ''version'', ''dependencies'', ''engines''}) (keys_of r)
     \<and> is_text (at r ''name'') \<and> is_text (at r ''version'')"

definition compileLockGraph :: "value_url_parser \<Rightarrow> exact_candidate \<Rightarrow> jsval \<Rightarrow> exact_failure + graph_node list" where
  "compileLockGraph parse c v =
     (let packages = at v ''packages''; root = at packages []; paths = sort_text (filter (\<lambda>p. p \<noteq> []) (keys_of packages));
          topPath = ''node_modules/'' @ ec_topName c in
     rbind (ensure lock_document_shape_rejected (lock_shape v)) (\<lambda>_.
     rbind (ensure root_package_shape_rejected (root_shape root)) (\<lambda>_.
     rbind (parseDependencies root_dependency_identity_rejected (at root ''dependencies'')) (\<lambda>deps.
     rbind (ensure root_dependency_identity_rejected (deps = [(ec_topName c, ec_topVersion c)])) (\<lambda>_.
     rbind (ensure graph_size_rejected (paths \<noteq> [] \<and> length paths \<le> sl_graphNodes (ec_limits c))) (\<lambda>_.
     rbind (foldM (addLockNode parse c packages) paths []) (\<lambda>raw.
     rbind (mapM (resolveNode raw) raw) (\<lambda>resolved.
     let nodes = isort node_lt resolved in
     rbind (ensure target_identity_rejected (case find_node raw topPath of
         None \<Rightarrow> False | Some t \<Rightarrow> gn_packageName t = ec_topName c \<and> gn_exactVersion t = ec_topVersion c)) (\<lambda>_.
     rbind (assertConnectedAcyclic nodes topPath) (\<lambda>_. Inr nodes))))))))))"

definition compile_candidate :: "value_url_parser \<Rightarrow> jsval \<Rightarrow> exact_failure + exact_candidate" where
  "compile_candidate parse v =
     rbind (normalizeCandidateInput parse v) (\<lambda>c.
     rbind (compileLockGraph parse c (at v ''packageLock'')) (\<lambda>nodes. Inr (c\<lparr>ec_nodes := nodes\<rparr>)))"

subsection \<open>What a compiled graph is\<close>

text \<open>
  A node says what the record of its path in the lock says: its version, tarball and integrity,
  and as its edges the dependencies that the record lists, all of them and no others.
\<close>

definition mirrors :: "jsval \<Rightarrow> graph_node \<Rightarrow> bool" where
  "mirrors packages n \<longleftrightarrow> (let v = at packages (gn_installPath n) in
     at v ''version'' = JStr (gn_exactVersion n) \<and> at v ''resolved'' = gn_tarballUrl n
     \<and> at v ''integrity'' = JStr (gn_sha512Integrity n)
     \<and> de_packageName ` set (gn_edges n) = set (keys_of (at v ''dependencies''))
     \<and> (\<forall>e \<in> set (gn_edges n). at (at v ''dependencies'') (de_packageName e) = JStr (de_declaredSpecifier e)))"

lemma parseDependencies_Inr:
  assumes "parseDependencies e v = Inr deps" "json_data v \<or> v = JUndef"
  shows "distinct (map fst deps) \<and> map fst deps = keys_of v \<and> (\<forall>(name, s) \<in> set deps. at v name = JStr s)"
proof (cases v)
  case (JObj kvs)
  then have m: "mapM (\<lambda>(name, x). rbind (ensure e (isPackageName name)) (\<lambda>_.
        rbind (want_text e is_specifier_text x) (\<lambda>s. Inr (name, s)))) kvs = Inr deps" and d: "distinct (map fst kvs)"
    using assms by (simp_all add: parseDependencies_def)
  have "map fst deps = map fst kvs" by (rule mapM_names [OF _ m]) (auto simp: rbind_Inr_iff)
  moreover have "at v name = JStr s" if "(name, s) \<in> set deps" for name s
    using mapM_results [OF m that] d by (auto simp: rbind_Inr_iff JObj own_prop_def)
  ultimately show ?thesis using d by (auto simp: JObj keys_of_def)
qed (use assms in \<open>auto simp: parseDependencies_def keys_of_def\<close>)

lemma readLockRecord_Inr:
  assumes "readLockRecord parse c path v = Inr n" "json_data v"
  shows "gn_installPath n = path" "isPackageName (gn_packageName n)" "isExactVersion (gn_exactVersion n)"
    "validateTarballUrl parse (ec_registryOrigin c) (gn_tarballUrl n) = Inr ()" "parseSha512Integrity (gn_sha512Integrity n) \<noteq> None"
    "gn_scripts n = []" "distinct (map de_packageName (gn_edges n))"
    "at v ''version'' = JStr (gn_exactVersion n)" "at v ''resolved'' = gn_tarballUrl n" "at v ''integrity'' = JStr (gn_sha512Integrity n)"
    "\<forall>e \<in> set (gn_edges n). at (at v ''dependencies'') (de_packageName e) = JStr (de_declaredSpecifier e)"
    "de_packageName ` set (gn_edges n) = set (keys_of (at v ''dependencies''))"
proof -
  from assms(1) obtain version resolved integrity name deps where r:
    "at v ''version'' = JStr version" "isExactVersion version" "at v ''resolved'' = JStr resolved" "at v ''integrity'' = JStr integrity"
    "validateLockTarball parse (ec_registryOrigin c) resolved = Inr ()" "parseSha512Integrity integrity \<noteq> None"
    "packageNameFromInstallPath path = Inr name" "parseDependencies dependency_specifier_rejected (at v ''dependencies'') = Inr deps"
    "n = \<lparr>gn_installPath = path, gn_packageName = name, gn_exactVersion = version, gn_tarballUrl = JStr resolved,
          gn_sha512Integrity = integrity,
          gn_edges = map (\<lambda>(n, s). \<lparr>de_packageName = n, de_installPath = [], de_declaredSpecifier = s\<rparr>) deps, gn_scripts = []\<rparr>"
    unfolding readLockRecord_def Let_def rbind_Inr_iff by auto
  have d: "json_data (at v ''dependencies'') \<or> at v ''dependencies'' = JUndef" using json_data_at [OF assms(2)] by blast
  note p = parseDependencies_Inr [OF r(8) d]
  have f: "de_packageName \<circ> (\<lambda>(n, s). \<lparr>de_packageName = n, de_installPath = [], de_declaredSpecifier = s\<rparr>) = fst" by auto
  show "gn_installPath n = path" "isExactVersion (gn_exactVersion n)" "parseSha512Integrity (gn_sha512Integrity n) \<noteq> None" "gn_scripts n = []"
    "at v ''version'' = JStr (gn_exactVersion n)" "at v ''resolved'' = gn_tarballUrl n" "at v ''integrity'' = JStr (gn_sha512Integrity n)"
    using r by simp_all
  show "isPackageName (gn_packageName n)" using r(7,9) by (auto simp: packageNameFromInstallPath_def split: option.splits if_splits)
  show "validateTarballUrl parse (ec_registryOrigin c) (gn_tarballUrl n) = Inr ()"
    using r(5,9) by (auto simp: validateLockTarball_def validateTarballUrl_def split: option.splits)
  show "distinct (map de_packageName (gn_edges n))" using p [THEN conjunct1] by (simp add: r(9) f)
  show "\<forall>e \<in> set (gn_edges n). at (at v ''dependencies'') (de_packageName e) = JStr (de_declaredSpecifier e)"
    using p by (auto simp: r(9))
  have "map de_packageName (gn_edges n) = keys_of (at v ''dependencies'')" using p by (simp add: r(9) f)
  then show "de_packageName ` set (gn_edges n) = set (keys_of (at v ''dependencies''))" by (metis list.set_map)
qed

definition lock_node_ok :: "value_url_parser \<Rightarrow> exact_candidate \<Rightarrow> jsval \<Rightarrow> graph_node \<Rightarrow> bool" where
  "lock_node_ok parse c packages n \<longleftrightarrow> node_wf parse (ec_registryOrigin c) (ec_limits c) n \<and> gn_scripts n = [] \<and> mirrors packages n"

lemma addLockNodes:
  assumes "foldM (addLockNode parse c packages) paths nodes = Inr ns" "json_data packages"
    "distinct (map (locale_lower \<circ> gn_installPath) nodes)" "\<forall>n \<in> set nodes. lock_node_ok parse c packages n"
  shows "map gn_installPath ns = map gn_installPath nodes @ paths \<and> distinct (map (locale_lower \<circ> gn_installPath) ns)
    \<and> (\<forall>n \<in> set ns. lock_node_ok parse c packages n)"
  using assms
proof (induction paths arbitrary: nodes)
  case (Cons path paths)
  from Cons.prems(1) obtain ms where ms: "addLockNode parse c packages path nodes = Inr ms"
    "foldM (addLockNode parse c packages) paths ms = Inr ns"
    by (auto simp: rbind_Inr_iff)
  then obtain n where n: "portable_path (ec_limits c) path" "starts_with ''node_modules/'' path"
    "locale_lower path \<notin> set (map (locale_lower \<circ> gn_installPath) nodes)"
    "readLockRecord parse c path (at packages path) = Inr n" "foldM (addLockNode parse c packages) paths (nodes @ [n]) = Inr ns"
    by (auto simp: addLockNode_def rbind_Inr_iff)
  have "at packages path \<noteq> JUndef" using n(4) by (auto simp: readLockRecord_def rbind_Inr_iff is_obj_def)
  then have d: "json_data (at packages path)" using json_data_at [OF Cons.prems(2)] by blast
  note r = readLockRecord_Inr [OF n(4) d]
  obtain ss where ss: "validatePortableRelativePath (ec_limits c) path = Inr ss"
    using n(1) by (cases "validatePortableRelativePath (ec_limits c) path") (auto simp: portable_path_def)
  have ok: "lock_node_ok parse c packages n"
    using r n(2) ss by (simp add: lock_node_ok_def node_wf_def mirrors_def Let_def)
  have "distinct (map (locale_lower \<circ> gn_installPath) (nodes @ [n]))" "\<forall>m \<in> set (nodes @ [n]). lock_node_ok parse c packages m"
    using Cons.prems(3,4) n(3) r(1) ok by (auto simp: comp_def)
  from Cons.IH [OF n(5) Cons.prems(2) this] r(1) show ?case by simp
qed simp

text \<open>Resolution keeps a node and finds the nearest package for every edge.\<close>

lemma resolveEdge_Inr:
  "resolveEdge nodes n e = Inr e' \<longleftrightarrow> (\<exists>p m. nearest (\<lambda>p. find_node nodes p \<noteq> None) (gn_installPath n) (de_packageName e) = Some p
     \<and> find_node nodes p = Some m \<and> gn_packageName m = de_packageName e \<and> e' = e\<lparr>de_installPath := p\<rparr>)"
  by (auto simp: resolveEdge_def resolveNodeDependency_def rbind_Inr_iff split: option.splits)

lemma resolveNode_Inr:
  assumes "resolveNode nodes n = Inr n'"
  shows "\<exists>es. n' = n\<lparr>gn_edges := isort edge_lt es\<rparr> \<and> map de_packageName es = map de_packageName (gn_edges n)
    \<and> (\<forall>e' \<in> set es. \<exists>e \<in> set (gn_edges n). resolveEdge nodes n e = Inr e')"
proof -
  obtain es where es: "mapM (resolveEdge nodes n) (gn_edges n) = Inr es" "n' = n\<lparr>gn_edges := isort edge_lt es\<rparr>"
    using assms by (auto simp: resolveNode_def rbind_Inr_iff)
  have "mapM (resolveEdge nodes n) xs = Inr ys \<Longrightarrow> map de_packageName ys = map de_packageName xs" for xs ys
    by (induction xs arbitrary: ys) (auto simp: resolveEdge_Inr split: sum.splits)
  with es mapM_results [OF es(1)] show ?thesis by auto
qed

definition same_identity :: "graph_node \<Rightarrow> graph_node \<Rightarrow> bool" where
  "same_identity n m \<longleftrightarrow> gn_installPath n = gn_installPath m \<and> gn_packageName n = gn_packageName m \<and> gn_exactVersion n = gn_exactVersion m"

lemma resolveNode_ok:
  assumes "resolveNode nodes n = Inr n'" "lock_node_ok parse c packages n"
  shows "same_identity n' n \<and> lock_node_ok parse c packages n'
    \<and> (\<forall>e \<in> set (gn_edges n'). nearest (\<lambda>p. find_node nodes p \<noteq> None) (gn_installPath n') (de_packageName e) = Some (de_installPath e)
        \<and> map_option gn_packageName (find_node nodes (de_installPath e)) = Some (de_packageName e))"
proof -
  obtain es where es: "n' = n\<lparr>gn_edges := isort edge_lt es\<rparr>" "map de_packageName es = map de_packageName (gn_edges n)"
    "\<forall>e' \<in> set es. \<exists>e \<in> set (gn_edges n). resolveEdge nodes n e = Inr e'" using resolveNode_Inr [OF assms(1)] by blast
  have "distinct (map de_packageName es)" using assms(2) es(2) by (simp add: lock_node_ok_def node_wf_def)
  then have "distinct (map de_packageName (gn_edges n'))" by (simp add: es(1) distinct_map_isort)
  moreover have "mirrors packages n'"
  proof -
    have m: "mirrors packages n" using assms(2) by (simp add: lock_node_ok_def)
    have "de_packageName ` set es = de_packageName ` set (gn_edges n)" using es(2) by (metis list.set_map)
    moreover have "\<forall>e' \<in> set es. \<exists>e \<in> set (gn_edges n). de_packageName e' = de_packageName e
        \<and> de_declaredSpecifier e' = de_declaredSpecifier e" using es(3) by (fastforce simp: resolveEdge_Inr)
    ultimately show ?thesis using m by (fastforce simp: es(1) mirrors_def Let_def)
  qed
  ultimately have "lock_node_ok parse c packages n'" using assms(2) by (simp add: es(1) lock_node_ok_def node_wf_def)
  with es(3) show ?thesis by (fastforce simp: es(1) same_identity_def resolveEdge_Inr)
qed


text \<open>The nodes before and after resolution correspond one to one.\<close>

lemma resolveNodes_ok:
  assumes "mapM (resolveNode nodes) xs = Inr ys" "\<forall>n \<in> set xs. lock_node_ok parse c packages n"
  shows "list_all2 same_identity ys xs \<and> (\<forall>n \<in> set ys. lock_node_ok parse c packages n
    \<and> (\<forall>e \<in> set (gn_edges n). nearest (\<lambda>p. find_node nodes p \<noteq> None) (gn_installPath n) (de_packageName e) = Some (de_installPath e)
        \<and> map_option gn_packageName (find_node nodes (de_installPath e)) = Some (de_packageName e)))"
  using assms
proof (induction xs arbitrary: ys)
  case (Cons x xs)
  from Cons.prems(1) obtain z zs where z: "resolveNode nodes x = Inr z" "mapM (resolveNode nodes) xs = Inr zs" "ys = z # zs"
    by (auto split: sum.splits)
  with Cons.IH [OF z(2)] resolveNode_ok [OF z(1), of parse c packages] Cons.prems(2) show ?case by simp
qed simp

lemma find_same_identity:
  "list_all2 same_identity ys xs \<Longrightarrow> map_option gn_packageName (find_node ys p) = map_option gn_packageName (find_node xs p)
     \<and> map_option gn_exactVersion (find_node ys p) = map_option gn_exactVersion (find_node xs p)
     \<and> map gn_installPath ys = map gn_installPath xs"
  by (induction ys xs rule: list_all2_induct) (auto simp: find_node_def same_identity_def)

lemma find_node_mset:
  assumes "mset ns = mset ms" "distinct (map gn_installPath ns)"
  shows "find_node ns p = find_node ms p"
proof -
  have d: "distinct (map gn_installPath ms)" using assms by (metis mset_eq_imp_distinct_iff mset_map)
  have "set ns = set ms" using assms(1) by (rule mset_eq_setD)
  then show ?thesis using find_node_iff [OF assms(2), of p] find_node_iff [OF d, of p] by (metis not_Some_eq)
qed

text \<open>A compiled graph passes the check that profiles must pass.\<close>

definition lock_graph_ok :: "value_url_parser \<Rightarrow> exact_candidate \<Rightarrow> jsval \<Rightarrow> graph_node list \<Rightarrow> bool" where
  "lock_graph_ok parse c packages nodes \<longleftrightarrow>
     nodes \<noteq> [] \<and> length nodes \<le> sl_graphNodes (ec_limits c) \<and> sorted_wrt node_lt nodes
     \<and> gn_installPath ` set nodes = set (keys_of packages) - {[]}
     \<and> (\<forall>n \<in> set nodes. lock_node_ok parse c packages n
         \<and> (\<forall>e \<in> set (gn_edges n). nearest (\<lambda>p. p \<in> node_paths nodes) (gn_installPath n) (de_packageName e) = Some (de_installPath e)))
     \<and> validateGraph nodes (ec_topName c) (ec_topVersion c) = Inr ()"

lemma compileLockGraph_ok:
  assumes "compileLockGraph parse c v = Inr nodes" "json_data v"
  shows "lock_graph_ok parse c (at v ''packages'') nodes"
proof -
  let ?pk = "at v ''packages''" and ?top = "''node_modules/'' @ ec_topName c"
  let ?paths = "sort_text (filter (\<lambda>p. p \<noteq> []) (keys_of ?pk))"
  obtain raw resolved where r: "lock_shape v" "?paths \<noteq> []" "length ?paths \<le> sl_graphNodes (ec_limits c)"
    "foldM (addLockNode parse c ?pk) ?paths [] = Inr raw" "mapM (resolveNode raw) raw = Inr resolved"
    "case find_node raw ?top of None \<Rightarrow> False | Some t \<Rightarrow> gn_packageName t = ec_topName c \<and> gn_exactVersion t = ec_topVersion c"
    "assertConnectedAcyclic nodes ?top = Inr ()" "nodes = isort node_lt resolved"
    using assms(1) by (auto simp: compileLockGraph_def Let_def rbind_Inr_iff)
  have "?pk \<noteq> JUndef" using r(1) by (auto simp: lock_shape_def is_obj_def)
  then have d: "json_data ?pk" using json_data_at [OF assms(2)] by blast
  from addLockNodes [OF r(4) d] have raw: "map gn_installPath raw = ?paths" "distinct (map (locale_lower \<circ> gn_installPath) raw)"
    "\<forall>n \<in> set raw. lock_node_ok parse c ?pk n" by auto
  note ok = resolveNodes_ok [OF r(5) raw(3)]
  then have same: "list_all2 same_identity resolved raw" by blast
  note f = find_same_identity [OF same]
  have low: "distinct (map (locale_lower \<circ> gn_installPath) resolved)"
    using raw(2) f by (metis list.map_comp)
  then have dp: "distinct (map gn_installPath resolved)" by (metis distinct_map list.map_comp)
  have m: "find_node nodes p = find_node resolved p" for p
    unfolding r(8) using dp by (intro find_node_mset) (simp_all add: distinct_map_isort)
  have names: "map_option gn_packageName (find_node nodes p) = map_option gn_packageName (find_node raw p)"
    "map_option gn_exactVersion (find_node nodes p) = map_option gn_exactVersion (find_node raw p)" for p
    using f m by simp_all
  have paths: "gn_installPath ` set nodes = set ?paths" "gn_installPath ` set raw = set ?paths"
    using f raw(1) by (simp_all add: r(8) flip: set_map)
  have has: "find_node raw p \<noteq> None \<longleftrightarrow> p \<in> node_paths nodes" for p
    using find_node_None [of raw p] paths by (simp add: node_paths_def)
  have edges: "\<forall>n \<in> set nodes. lock_node_ok parse c ?pk n
      \<and> (\<forall>e \<in> set (gn_edges n). nearest (\<lambda>p. p \<in> node_paths nodes) (gn_installPath n) (de_packageName e) = Some (de_installPath e)
          \<and> map_option gn_packageName (find_node nodes (de_installPath e)) = Some (de_packageName e))"
  proof -
    have "\<forall>n \<in> set nodes. lock_node_ok parse c ?pk n
      \<and> (\<forall>e \<in> set (gn_edges n). nearest (\<lambda>p. find_node raw p \<noteq> None) (gn_installPath n) (de_packageName e) = Some (de_installPath e)
          \<and> map_option gn_packageName (find_node raw (de_installPath e)) = Some (de_packageName e))"
      using ok by (simp add: r(8))
    then show ?thesis unfolding has by (simp only: names)
  qed
  have len: "length nodes = length ?paths" using arg_cong [OF raw(1), of length] list_all2_lengthD [OF same] by (simp add: r(8))
  have top: "case find_node nodes ?top of None \<Rightarrow> False | Some t \<Rightarrow> gn_packageName t = ec_topName c \<and> gn_exactVersion t = ec_topVersion c"
    using r(6) names [of ?top] by (auto split: option.splits)
  have "validateGraph nodes (ec_topName c) (ec_topVersion c) = Inr ()"
  proof -
    have "distinct (map gn_installPath nodes)" "distinct (map locale_lower (map gn_installPath nodes))"
      using dp low by (simp_all add: r(8) distinct_map_isort)
    moreover have "edge_targets_ok nodes" using edges by (simp add: edge_targets_ok_def list_all_iff)
    moreover obtain V where "visit nodes [] [] ?top = Some V" "length V = length nodes"
      using r(7) by (auto simp: assertConnectedAcyclic_def split: option.splits)
    ultimately show ?thesis using top by (simp add: validateGraph_def Let_def)
  qed
  moreover have "sorted_wrt node_lt nodes" using isort_sorted_distinct [OF dp] by (simp add: r(8))
  ultimately show ?thesis
    using edges paths(1) len r(2,3) by (auto simp: lock_graph_ok_def)
qed

text \<open>
  C24: a candidate compiled from a lock is exactly what the lock pins.  Its nodes are the packages of
  the lock, sorted by path, each with the version, tarball and integrity the lock records for its
  path, on the origin of the registry; the edges of a node are the dependencies its record lists, with
  their specifiers, none dropped and none added, and each leads to the nearest
  installation of that name; and the graph passes the check of profiles: no two paths that a
  file system without case would merge, no cycle, and everything reached from the top package,
  which has the name and version that were asked for.
\<close>

theorem exact_candidate_sound:
  assumes "compile_candidate parse v = Inr c" "json_data (at v ''packageLock'')"
  shows "within_ceilings (ec_limits c) \<and> limits_consistent (ec_limits c)
    \<and> lock_graph_ok parse c (at (at v ''packageLock'') ''packages'') (ec_nodes c)"
proof -
  obtain c' nodes where c: "normalizeCandidateInput parse v = Inr c'" "compileLockGraph parse c' (at v ''packageLock'') = Inr nodes"
    "c = c'\<lparr>ec_nodes := nodes\<rparr>"
    using assms(1) by (auto simp: compile_candidate_def rbind_Inr_iff)
  have "within_ceilings (ec_limits c') \<and> limits_consistent (ec_limits c')"
    using c(1) by (auto simp: normalizeCandidateInput_def Let_def rbind_Inr_iff candidate_limits_def normalizeLimits_def split: sum.splits)
  with compileLockGraph_ok [OF c(2) assms(2)] show ?thesis
    by (simp add: c(3) lock_graph_ok_def lock_node_ok_def)
qed

subsection \<open>A concrete lock\<close>

definition demo_lock :: "nat list \<Rightarrow> jsval" where
  "demo_lock h = JObj [(''name'', JStr ''x''), (''version'', JStr ''0''), (''lockfileVersion'', JInt 3), (''requires'', JBool True),
     (''packages'', JObj [([], JObj [(''name'', JStr ''x''), (''version'', JStr ''0''), (''dependencies'', JObj [(''a'', JStr ''1.0.0'')])]),
        (''node_modules/a'', JObj [(''version'', JStr ''1.0.0''), (''resolved'', JStr ''https://r/a.tgz''),
           (''integrity'', JStr (demo_integrity h))])])]"

definition demo_input_with :: "jsval \<Rightarrow> jsval" where
  "demo_input_with lock = JObj [(''profileId'', JStr ''p''), (''profileVersion'', JInt 1),
     (''topPackage'', JObj [(''name'', JStr ''a''), (''exactVersion'', JStr ''1.0.0''), (''exactEntrypointRelativePath'', JStr ''i.js'')]),
     (''registryOrigin'', JStr ''https://r/''),
     (''runtimeConstraint'', JObj [(''os'', JStr ''darwin''), (''architecture'', JStr ''arm64''), (''nodeMajor'', JInt 26),
        (''nodeVersion'', JStr ''26.0.0''), (''npmGraphGeneratorVersion'', JStr ''11.0.0''), (''lockfileVersion'', JInt 3)]),
     (''materializationRulesVersion'', JInt 1), (''archiveRulesVersion'', JInt 1), (''workerProtocolVersion'', JInt 2),
     (''limits'', limits_json PACKAGE_STAGE_HARD_CEILINGS), (''packageLock'', lock)]"

definition demo_input :: "nat list \<Rightarrow> jsval" where
  "demo_input h = demo_input_with (demo_lock h)"

definition demo_exact :: "nat list \<Rightarrow> exact_candidate" where
  "demo_exact h = \<lparr>ec_profileId = JStr ''p'', ec_profileVersion = 1, ec_topName = ''a'', ec_topVersion = ''1.0.0'',
     ec_entrypoint = ''i.js'', ec_registryOrigin = ''https://r/'', ec_nodeVersion = ''26.0.0'', ec_npmVersion = ''11.0.0'',
     ec_materializationRules = 1, ec_archiveRules = 1, ec_limits = PACKAGE_STAGE_HARD_CEILINGS, ec_nodes = [demo_node h]\<rparr>"

lemma demo_normalized:
  "normalizeCandidateInput demo_value_urls (demo_input_with lock) = Inr ((demo_exact h)\<lparr>ec_nodes := []\<rparr>)"
proof -
  let ?c = "(demo_exact h)\<lparr>ec_nodes := []\<rparr>"
  have k: "exact_keys input_keys (demo_input_with lock)"
    by (simp add: exact_keys_def demo_input_with_def keys_of_def input_keys_def is_obj_def sort_text_def)
  have t: "isStageIdentifier ''p''" "isPackageName ''a''" "isExactVersion ''1.0.0''" "isExactVersion ''26.0.0''" "isExactVersion ''11.0.0''"
    "is_specifier_text ''1.0.0''"
    by code_simp+
  have pp: "portable_path PACKAGE_STAGE_HARD_CEILINGS ''i.js''"
    by (simp add: portable_path_def validatePortableRelativePath_def portable_text_def plain_segment_def is_control_def
        PACKAGE_STAGE_HARD_CEILINGS_def)
  have e: "exact_keys top_keys (at (demo_input_with lock) ''topPackage'')" "exact_keys runtime_keys (at (demo_input_with lock) ''runtimeConstraint'')"
    by (simp_all add: exact_keys_def demo_input_with_def keys_of_def top_keys_def runtime_keys_def is_obj_def sort_text_def)
  have l: "Stage.normalizeLimits (limits_json PACKAGE_STAGE_HARD_CEILINGS) = Inr PACKAGE_STAGE_HARD_CEILINGS"
    by (simp add: Stage.normalizeLimits_def read_limits_def limits_json_def limit_entries_def PACKAGE_STAGE_HARD_CEILINGS_def
        exact_keys_def keys_of_def is_obj_def sort_text_def isPositiveInteger_def nat_at_def within_ceilings_def
        limits_consistent_def max_safe_def)
  show ?thesis
    using k t pp e l
    by (simp add: normalizeCandidateInput_def demo_input_with_def demo_exact_def want_text_def want_positive_def candidate_limits_def
        candidate_origin_def demo_value_urls_def is_plain_https_def max_safe_def ARCHIVE_WORKER_PROTOCOL_VERSION_def)
qed

lemma demo_compiled:
  assumes "length h = 64" "list_all (\<lambda>b. b < 256) h"
  shows "compile_candidate demo_value_urls (demo_input h) = Inr (demo_exact h)"
proof -
  let ?c = "(demo_exact h)\<lparr>ec_nodes := []\<rparr>" and ?rec = "at (at (demo_lock h) ''packages'') ''node_modules/a''"
  have i: "parseSha512Integrity (demo_integrity h) = Some h"
    using assms by (simp add: parseSha512Integrity_iff demo_integrity_def)
  have n: "normalizeCandidateInput demo_value_urls (demo_input h) = Inr ?c" by (simp add: demo_input_def demo_normalized)
  have t: "isPackageName ''a''" "isExactVersion ''1.0.0''" "is_specifier_text ''1.0.0''"
    "packageNameFromInstallPath ''node_modules/a'' = Inr ''a''" "sort_text [''node_modules/a''] = [''node_modules/a'']"
    by code_simp+
  have pp: "portable_path PACKAGE_STAGE_HARD_CEILINGS ''node_modules/a''"
    by (simp add: portable_path_def validatePortableRelativePath_def portable_text_def plain_segment_def is_control_def
        PACKAGE_STAGE_HARD_CEILINGS_def)
  have r: "readLockRecord demo_value_urls ?c ''node_modules/a'' ?rec = Inr (demo_node h)"
    using i t
    by (simp add: readLockRecord_def demo_lock_def demo_exact_def is_obj_def keys_of_def record_keys_def forbidden_flags_def
        forbidden_fields_def want_text_def validateLockTarball_def demo_value_urls_def is_plain_https_def ends_with_def
        parseDependencies_def demo_node_def)
  have s: "lock_shape (demo_lock h)" "root_shape (at (at (demo_lock h) ''packages'') [])"
    by (simp_all add: lock_shape_def root_shape_def demo_lock_def exact_keys_def keys_of_def lock_keys_def is_obj_def sort_text_def is_text_def)
  have dep: "parseDependencies root_dependency_identity_rejected (at (at (at (demo_lock h) ''packages'') []) ''dependencies'') = Inr [(''a'', ''1.0.0'')]"
    using t by (simp add: parseDependencies_def demo_lock_def want_text_def)
  have ks: "sort_text (filter (\<lambda>p. p \<noteq> []) (keys_of (at (demo_lock h) ''packages''))) = [''node_modules/a'']"
    using t by (simp add: demo_lock_def keys_of_def)
  have g: "compileLockGraph demo_value_urls ?c (demo_lock h) = Inr [demo_node h]"
    using s dep ks r t pp
    by (simp add: compileLockGraph_def Let_def addLockNode_def demo_exact_def PACKAGE_STAGE_HARD_CEILINGS_def resolveNode_def
        demo_node_def find_node_def assertConnectedAcyclic_def visit_def adjacency_def dfs.simps)
  have "at (demo_input h) ''packageLock'' = demo_lock h" by (simp add: demo_input_def demo_input_with_def)
  with n g show ?thesis by (simp add: compile_candidate_def) (simp add: demo_exact_def)
qed

lemma demo_lock_data: "json_data (demo_lock h)"
  by (simp add: demo_lock_def max_safe_def)

text \<open>A lock of two packages: the package asked for depends on another one beside it.\<close>

definition demo_pair_lock :: "nat list \<Rightarrow> jsval" where
  "demo_pair_lock h = JObj [(''name'', JStr ''x''), (''version'', JStr ''0''), (''lockfileVersion'', JInt 3), (''requires'', JBool True),
     (''packages'', JObj [([], JObj [(''name'', JStr ''x''), (''version'', JStr ''0''), (''dependencies'', JObj [(''a'', JStr ''1.0.0'')])]),
        (''node_modules/a'', JObj [(''version'', JStr ''1.0.0''), (''resolved'', JStr ''https://r/a.tgz''),
           (''integrity'', JStr (demo_integrity h)), (''dependencies'', JObj [(''b'', JStr ''1.0.0'')])]),
        (''node_modules/b'', JObj [(''version'', JStr ''1.0.0''), (''resolved'', JStr ''https://r/a.tgz''),
           (''integrity'', JStr (demo_integrity h))])])]"

definition demo_pair_nodes :: "nat list \<Rightarrow> graph_node list" where
  "demo_pair_nodes h =
     [(demo_node h)\<lparr>gn_edges := [\<lparr>de_packageName = ''b'', de_installPath = ''node_modules/b'', de_declaredSpecifier = ''1.0.0''\<rparr>]\<rparr>,
      (demo_node h)\<lparr>gn_installPath := ''node_modules/b'', gn_packageName := ''b''\<rparr>]"

lemma demo_pair_compiled:
  assumes "length h = 64" "list_all (\<lambda>b. b < 256) h"
  shows "compile_candidate demo_value_urls (demo_input_with (demo_pair_lock h)) = Inr ((demo_exact h)\<lparr>ec_nodes := demo_pair_nodes h\<rparr>)"
proof -
  let ?c = "(demo_exact h)\<lparr>ec_nodes := []\<rparr>" and ?recs = "at (demo_pair_lock h) ''packages''"
  let ?na = "(demo_node h)\<lparr>gn_edges := [\<lparr>de_packageName = ''b'', de_installPath = [], de_declaredSpecifier = ''1.0.0''\<rparr>]\<rparr>"
  let ?nb = "(demo_node h)\<lparr>gn_installPath := ''node_modules/b'', gn_packageName := ''b''\<rparr>"
  have i: "parseSha512Integrity (demo_integrity h) = Some h"
    using assms by (simp add: parseSha512Integrity_iff demo_integrity_def)
  have n: "normalizeCandidateInput demo_value_urls (demo_input_with (demo_pair_lock h)) = Inr ?c"
    by (rule demo_normalized)
  have t: "isPackageName ''a''" "isPackageName ''b''" "isExactVersion ''1.0.0''" "is_specifier_text ''1.0.0''"
    "packageNameFromInstallPath ''node_modules/a'' = Inr ''a''" "packageNameFromInstallPath ''node_modules/b'' = Inr ''b''"
    "sort_text [''node_modules/a'', ''node_modules/b''] = [''node_modules/a'', ''node_modules/b'']"
    "locale_lower ''node_modules/a'' = ''node_modules/a''" "locale_lower ''node_modules/b'' = ''node_modules/b''"
    by code_simp+
  have pp: "portable_path PACKAGE_STAGE_HARD_CEILINGS ''node_modules/a''" "portable_path PACKAGE_STAGE_HARD_CEILINGS ''node_modules/b''"
    by (simp_all add: portable_path_def validatePortableRelativePath_def portable_text_def plain_segment_def is_control_def
        PACKAGE_STAGE_HARD_CEILINGS_def)
  have r: "readLockRecord demo_value_urls ?c ''node_modules/a'' (at ?recs ''node_modules/a'') = Inr ?na"
    "readLockRecord demo_value_urls ?c ''node_modules/b'' (at ?recs ''node_modules/b'') = Inr ?nb"
    using i t
    by (simp_all add: readLockRecord_def demo_pair_lock_def demo_exact_def is_obj_def keys_of_def record_keys_def forbidden_flags_def
        forbidden_fields_def want_text_def validateLockTarball_def demo_value_urls_def is_plain_https_def ends_with_def
        parseDependencies_def demo_node_def)
  have s: "lock_shape (demo_pair_lock h)" "root_shape (at ?recs [])"
    by (simp_all add: lock_shape_def root_shape_def demo_pair_lock_def exact_keys_def keys_of_def lock_keys_def is_obj_def sort_text_def is_text_def)
  have dep: "parseDependencies root_dependency_identity_rejected (at (at ?recs []) ''dependencies'') = Inr [(''a'', ''1.0.0'')]"
    using t by (simp add: parseDependencies_def demo_pair_lock_def want_text_def)
  have ks: "sort_text (filter (\<lambda>p. p \<noteq> []) (keys_of ?recs)) = [''node_modules/a'', ''node_modules/b'']"
    using t by (simp add: demo_pair_lock_def keys_of_def)
  have lim: "ec_limits ?c = PACKAGE_STAGE_HARD_CEILINGS" "ec_topName ?c = ''a''" "ec_topVersion ?c = ''1.0.0''"
    by (simp_all add: demo_exact_def)
  have e: "mapM (resolveNode [?na, ?nb]) [?na, ?nb] = Inr (demo_pair_nodes h)"
    by (simp add: resolveNode_def resolveEdge_def resolveNodeDependency_def nearest.simps find_node_def demo_node_def demo_pair_nodes_def)
  have o: "isort node_lt (demo_pair_nodes h) = demo_pair_nodes h" "assertConnectedAcyclic (demo_pair_nodes h) ''node_modules/a'' = Inr ()"
    by (simp_all add: demo_pair_nodes_def demo_node_def node_lt_def assertConnectedAcyclic_def visit_def adjacency_def dfs.simps)
  have f: "foldM (addLockNode demo_value_urls ?c ?recs) [''node_modules/a'', ''node_modules/b''] [] = Inr [?na, ?nb]"
    using t(8,9) pp r by (simp add: addLockNode_def lim demo_node_def)
  have top: "find_node [?na, ?nb] ''node_modules/a'' = Some ?na" "gn_packageName ?na = ''a''" "gn_exactVersion ?na = ''1.0.0''"
    by (simp_all add: find_node_def demo_node_def)
  have g: "compileLockGraph demo_value_urls ?c (demo_pair_lock h) = Inr (demo_pair_nodes h)"
    unfolding compileLockGraph_def Let_def ks dep f lim
    by (simp add: s e o top PACKAGE_STAGE_HARD_CEILINGS_def del: mapM.simps)
  have "at (demo_input_with (demo_pair_lock h)) ''packageLock'' = demo_pair_lock h" by (simp add: demo_input_with_def)
  with n g show ?thesis by (simp add: compile_candidate_def)
qed

theorem exact_candidate_sound_witness:
  "\<exists>c. compile_candidate demo_value_urls (demo_input_with (demo_pair_lock (replicate 64 0))) = Inr c
     \<and> map (map de_installPath \<circ> gn_edges) (ec_nodes c) = [[''node_modules/b''], []]
     \<and> validateGraph (ec_nodes c) ''a'' ''1.0.0'' = Inr ()"
proof -
  let ?h = "replicate 64 (0 :: nat)"
  let ?c = "(demo_exact ?h)\<lparr>ec_nodes := demo_pair_nodes ?h\<rparr>"
  have c: "compile_candidate demo_value_urls (demo_input_with (demo_pair_lock ?h)) = Inr ?c"
    by (intro demo_pair_compiled) (simp_all add: list_all_iff)
  have d: "json_data (at (demo_input_with (demo_pair_lock ?h)) ''packageLock'')" by (simp add: demo_input_with_def demo_pair_lock_def max_safe_def)
  have "map (map de_installPath \<circ> gn_edges) (ec_nodes ?c) = [[''node_modules/b''], []]" by (simp add: demo_pair_nodes_def demo_node_def)
  with c exact_candidate_sound [OF c d] show ?thesis
    by (simp add: lock_graph_ok_def) (simp add: demo_exact_def)
qed

end
