(* ===== verification/PeerRange.thy ===== *)
theory PeerRange
  imports Schema
begin

section \<open>Versions and ranges of peer dependencies\<close>

text \<open>
  Models the version and range language of src/stage/peer-dependency-semantics.ts: \<open>parseVersion\<close>,
  \<open>parseRange\<close>, \<open>increment\<close>, \<open>satisfies\<close> and \<open>compare\<close>.  An error is the text of its predicate.
\<close>

type_synonym version = "nat \<times> nat \<times> nat"

datatype operator = Op_lt | Op_le | Op_gt | Op_ge | Op_eq

type_synonym comparison = "operator \<times> version"
type_synonym range = "comparison list list"

definition require :: "string \<Rightarrow> bool \<Rightarrow> string + unit" where
  "require p ok = (if ok then Inr () else Inl p)"

lemma require_simps [simp]: "require p ok = Inr u \<longleftrightarrow> ok" "require p True = Inr ()" "require p False = Inl p"
  by (simp_all add: require_def)

subsection \<open>Versions\<close>

text \<open>\<open>0|[1-9]\d*\<close>.\<close>

definition is_number_part :: "string \<Rightarrow> bool" where
  "is_number_part s \<longleftrightarrow> s \<noteq> [] \<and> list_all is_digit s \<and> (hd s \<noteq> CHR ''0'' \<or> s = ''0'')"

definition version_parts :: "string \<Rightarrow> (string \<times> string \<times> string) option" where
  "version_parts s = (case split_on (CHR ''.'') s of
     [a, b, c] \<Rightarrow> if is_number_part a \<and> is_number_part b \<and> is_number_part c then Some (a, b, c) else None
   | _ \<Rightarrow> None)"

definition safe_part :: "string \<Rightarrow> bool" where
  "safe_part s \<longleftrightarrow> int (nat_of_digits s) \<le> max_safe"

definition parseVersion :: "string \<Rightarrow> string + version" where
  "parseVersion s =
     (case version_parts s of
        None \<Rightarrow> Inl ''version''
      | Some (a, b, c) \<Rightarrow>
          rbind (require ''version'' (safe_part a \<and> safe_part b \<and> safe_part c)) (\<lambda>_.
          Inr (nat_of_digits a, nat_of_digits b, nat_of_digits c)))"

text \<open>The three-way comparison of \<open>compare\<close>, and its use with an operator.\<close>

definition version_ordering :: "version \<Rightarrow> version \<Rightarrow> int" where
  "version_ordering l r = (case (l, r) of ((a, b, c), (x, y, z)) \<Rightarrow>
     if a = x then if b = y then int c - int z else int b - int y else int a - int x)"

definition compare :: "version \<Rightarrow> version \<Rightarrow> operator \<Rightarrow> bool" where
  "compare l r oper = (let k = version_ordering l r in
     case oper of Op_eq \<Rightarrow> k = 0 | Op_lt \<Rightarrow> k < 0 | Op_le \<Rightarrow> k \<le> 0 | Op_gt \<Rightarrow> k > 0 | Op_ge \<Rightarrow> k \<ge> 0)"

definition satisfies :: "version \<Rightarrow> range \<Rightarrow> bool" where
  "satisfies v r = list_ex (list_all (\<lambda>(oper, w). compare v w oper)) r"

subsection \<open>Ranges\<close>

definition bumped :: "nat \<Rightarrow> string + nat" where
  "bumped n = rbind (require ''specifier'' (int n \<noteq> max_safe)) (\<lambda>_. Inr (n + 1))"

definition increment :: "version \<Rightarrow> nat \<Rightarrow> string + version" where
  "increment v i = (case v of (a, b, c) \<Rightarrow>
     if i = 0 then rbind (bumped a) (\<lambda>a'. Inr (a', 0, 0))
     else if i = 1 then rbind (bumped b) (\<lambda>b'. Inr (a, b', 0))
     else rbind (bumped c) (\<lambda>c'. Inr (a, b, c')))"

datatype range_op = Plain operator | Caret | Tilde

text \<open>The operator in front of an atom, \<open>=\<close> when there is none.\<close>

definition split_op :: "string \<Rightarrow> range_op \<times> string" where
  "split_op s =
     (if starts_with ''='' s then (Plain Op_eq, drop 1 s)
      else if starts_with ''<='' s then (Plain Op_le, drop 2 s)
      else if starts_with ''>='' s then (Plain Op_ge, drop 2 s)
      else if starts_with ''<'' s then (Plain Op_lt, drop 1 s)
      else if starts_with ''>'' s then (Plain Op_gt, drop 1 s)
      else if starts_with ''^'' s then (Caret, drop 1 s)
      else if starts_with ''~'' s then (Tilde, drop 1 s)
      else (Plain Op_eq, s))"

definition expand :: "range_op \<Rightarrow> version \<Rightarrow> string + comparison list" where
  "expand r v =
     (case r of
        Plain oper \<Rightarrow> Inr [(oper, v)]
      | Tilde \<Rightarrow> rbind (increment v 1) (\<lambda>u. Inr [(Op_ge, v), (Op_lt, u)])
      | Caret \<Rightarrow> rbind (increment v (if 0 < fst v then 0 else if 0 < fst (snd v) then 1 else 2))
          (\<lambda>u. Inr [(Op_ge, v), (Op_lt, u)]))"

definition parse_atom :: "string \<Rightarrow> string + comparison list" where
  "parse_atom s = (case split_op s of (r, t) \<Rightarrow>
     rbind (require ''specifier'' (version_parts t \<noteq> None)) (\<lambda>_.
     rbind (parseVersion t) (\<lambda>v. expand r v)))"

text \<open>\<open>split(/ +/)\<close> and \<open>split(/ *\|\| */)\<close>.\<close>

definition skip_spaces :: "string \<Rightarrow> string" where
  "skip_spaces s = dropWhile (\<lambda>c. c = CHR '' '') s"

lemma skip_spaces_length: "length (skip_spaces s) \<le> length s"
  by (simp add: skip_spaces_def length_dropWhile_le)

function split_spaces :: "string \<Rightarrow> string list" where
  "split_spaces [] = [[]]"
| "split_spaces (c # cs) =
     (if c = CHR '' '' then [] # split_spaces (skip_spaces cs)
      else (case split_spaces cs of [] \<Rightarrow> [[c]] | w # ws \<Rightarrow> (c # w) # ws))"
  by pat_completeness auto
termination
  by (relation "measure length") (auto simp: less_Suc_eq_le skip_spaces_length)

definition match_or :: "string \<Rightarrow> string option" where
  "match_or s = (case skip_spaces s of c # d # t \<Rightarrow>
     if c = CHR ''|'' \<and> d = CHR ''|'' then Some (skip_spaces t) else None | _ \<Rightarrow> None)"

lemma match_or_length:
  assumes "match_or s = Some t"
  shows "length t < length s"
proof -
  obtain c d u where "skip_spaces s = c # d # u" "t = skip_spaces u"
    using assms by (auto simp: match_or_def split: list.splits if_splits)
  with skip_spaces_length [of s] skip_spaces_length [of u] show ?thesis by simp
qed

function split_or :: "string \<Rightarrow> string list" where
  "split_or s =
     (case match_or s of
        Some t \<Rightarrow> [] # split_or t
      | None \<Rightarrow> (case s of
            [] \<Rightarrow> [[]]
          | c # cs \<Rightarrow> (case split_or cs of [] \<Rightarrow> [[c]] | w # ws \<Rightarrow> (c # w) # ws)))"
  by pat_completeness auto
termination
  by (relation "measure length") (auto dest: match_or_length)

declare split_or.simps [simp del]

definition is_specifier :: "string \<Rightarrow> bool" where
  "is_specifier s \<longleftrightarrow> utf8_length s \<le> 256 \<and> s \<noteq> [] \<and> hd s \<noteq> CHR '' '' \<and> last s \<noteq> CHR '' ''
     \<and> list_all (\<lambda>c. 0x20 \<le> code c \<and> code c \<le> 0x7e) s"

text \<open>One atom, with the numbers of atoms and comparisons so far.\<close>

definition add_atom :: "string \<Rightarrow> comparison list \<times> nat \<times> nat \<Rightarrow> string + comparison list \<times> nat \<times> nat" where
  "add_atom s = (\<lambda>(out, atoms, comparisons).
     rbind (require ''budget'' (atoms + 1 \<le> 16)) (\<lambda>_.
     rbind (parse_atom s) (\<lambda>cs.
     rbind (require ''budget'' (comparisons + length cs \<le> 32)) (\<lambda>_.
     Inr (out @ cs, atoms + 1, comparisons + length cs)))))"

definition add_branch :: "string \<Rightarrow> range \<times> nat \<times> nat \<Rightarrow> string + range \<times> nat \<times> nat" where
  "add_branch b = (\<lambda>(out, atoms, comparisons).
     rbind (foldM add_atom (split_spaces b) ([], atoms, comparisons)) (\<lambda>(cs, atoms', comparisons').
     Inr (out @ [cs], atoms', comparisons')))"

definition parseRange :: "string \<Rightarrow> string + range" where
  "parseRange s =
     rbind (require ''specifier'' (is_specifier s)) (\<lambda>_.
     if s = ''*'' then Inr [[]]
     else let branches = split_or s in
       rbind (require ''specifier'' (length branches \<le> 8 \<and> list_all (\<lambda>b. b \<noteq> [] \<and> \<not> includes_text ''||'' b) branches)) (\<lambda>_.
       rbind (foldM add_branch branches ([], 0, 0)) (\<lambda>(r, _). Inr r)))"

subsection \<open>What a range means\<close>

text \<open>The order of versions, and the meaning of an atom as package managers document it.\<close>

definition version_less :: "version \<Rightarrow> version \<Rightarrow> bool" where
  "version_less v w \<longleftrightarrow> (case (v, w) of ((x, y, z), (a, b, c)) \<Rightarrow> x < a \<or> x = a \<and> (y < b \<or> y = b \<and> z < c))"

fun meets :: "version \<Rightarrow> range_op \<times> version \<Rightarrow> bool" where
  "meets v (Plain Op_lt, w) = version_less v w"
| "meets v (Plain Op_le, w) = (version_less v w \<or> v = w)"
| "meets v (Plain Op_gt, w) = version_less w v"
| "meets v (Plain Op_ge, w) = (version_less w v \<or> v = w)"
| "meets v (Plain Op_eq, w) = (v = w)"
| "meets (x, y, z) (Tilde, (a, b, c)) = (x = a \<and> y = b \<and> c \<le> z)"
| "meets (x, y, z) (Caret, (a, b, c)) =
     (if 0 < a then x = a \<and> (b < y \<or> b = y \<and> c \<le> z)
      else if 0 < b then x = 0 \<and> y = b \<and> c \<le> z
      else x = 0 \<and> y = 0 \<and> z = c)"

lemma compare_meets: "compare v w oper \<longleftrightarrow> meets v (Plain oper, w)"
  by (cases v; cases w; cases oper) (auto simp: compare_def version_ordering_def version_less_def)

lemma expand_meets:
  assumes "expand r w = Inr cs"
  shows "list_all (\<lambda>(oper, u). compare v u oper) cs \<longleftrightarrow> meets v (r, w)"
proof (cases r)
  case Plain
  with assms show ?thesis by (auto simp: expand_def compare_meets)
next
  case Caret
  obtain a b c where w: "w = (a, b, c)" by (cases w) auto
  with Caret assms show ?thesis
    by (cases v) (auto simp: expand_def increment_def bumped_def rbind_Inr_iff compare_meets version_less_def split: if_splits)
next
  case Tilde
  obtain a b c where w: "w = (a, b, c)" by (cases w) auto
  with Tilde assms show ?thesis
    by (cases v) (auto simp: expand_def increment_def bumped_def rbind_Inr_iff compare_meets version_less_def)
qed

subsection \<open>Writing a range\<close>

definition op_text :: "range_op \<Rightarrow> string" where
  "op_text r = (case r of Plain Op_eq \<Rightarrow> ''='' | Plain Op_lt \<Rightarrow> ''<'' | Plain Op_le \<Rightarrow> ''<='' | Plain Op_gt \<Rightarrow> ''>''
     | Plain Op_ge \<Rightarrow> ''>='' | Caret \<Rightarrow> ''^'' | Tilde \<Rightarrow> ''~'')"

definition version_text :: "version \<Rightarrow> string" where
  "version_text v = (case v of (a, b, c) \<Rightarrow> join_with ''.'' [show_nat a, show_nat b, show_nat c])"

definition atom_text :: "range_op \<times> version \<Rightarrow> string" where
  "atom_text = (\<lambda>(r, v). op_text r @ version_text v)"

definition branch_text :: "(range_op \<times> version) list \<Rightarrow> string" where
  "branch_text b = join_with '' '' (map atom_text b)"

definition range_text :: "(range_op \<times> version) list list \<Rightarrow> string" where
  "range_text bs = join_with '' || '' (map branch_text bs)"

definition small_version :: "version \<Rightarrow> bool" where
  "small_version v = (case v of (a, b, c) \<Rightarrow> int a < max_safe \<and> int b < max_safe \<and> int c < max_safe)"

lemma number_part_show: "is_number_part (show_nat n)"
  using show_nat_digits [of n] show_nat_no_zero [of n] by (auto simp: is_number_part_def int_literal_def)

lemma show_nat_no_dot: "CHR ''.'' \<notin> set (show_nat n)"
  using show_nat_digits [of n] by (auto simp: list_all_iff is_digit_def)

lemma version_parts_text: "version_parts (version_text (a, b, c)) = Some (show_nat a, show_nat b, show_nat c)"
  using split_join [of "[show_nat a, show_nat b, show_nat c]" "CHR ''.''"]
  by (simp add: version_parts_def version_text_def number_part_show show_nat_no_dot)

lemma parseVersion_text: "small_version v \<Longrightarrow> parseVersion (version_text v) = Inr v"
  by (cases v) (simp add: parseVersion_def version_parts_text small_version_def safe_part_def)

lemma version_text_chars: "c \<in> set (version_text v) \<Longrightarrow> is_digit c \<or> c = CHR ''.''"
  using show_nat_digits by (cases v) (auto simp: version_text_def list_all_iff)

lemma version_text_head: "\<exists>c cs. version_text v = c # cs \<and> is_digit c"
proof -
  obtain a b c where "v = (a, b, c)" by (cases v) auto
  moreover obtain d ds where "show_nat a = d # ds" by (cases "show_nat a") auto
  ultimately show ?thesis using show_nat_digits [of a] by (simp add: version_text_def)
qed

lemma split_op_text: "split_op (op_text r @ version_text v) = (r, version_text v)"
proof -
  obtain c cs where c: "version_text v = c # cs" "is_digit c" using version_text_head by blast
  then have "c \<noteq> CHR ''=''" "c \<noteq> CHR ''<''" "c \<noteq> CHR ''>''" "c \<noteq> CHR ''^''" "c \<noteq> CHR ''~''"
    by (auto simp: is_digit_def)
  with c(1) show ?thesis by (auto simp: op_text_def split_op_def split: range_op.splits operator.splits)
qed

lemma expand_small: "small_version v \<Longrightarrow> \<exists>cs. expand r v = Inr cs \<and> length cs \<le> 2"
  by (cases v; cases r) (auto simp: small_version_def expand_def increment_def bumped_def)

lemma parse_atom_text:
  assumes "small_version v"
  shows "parse_atom (atom_text (r, v)) = expand r v"
proof -
  have "version_parts (version_text v) \<noteq> None" using version_parts_text by (cases v) auto
  then show ?thesis using assms by (simp add: parse_atom_def atom_text_def split_op_text parseVersion_text)
qed

subsection \<open>Reading it back\<close>

lemma skip_spaces_head: "c \<noteq> CHR '' '' \<Longrightarrow> skip_spaces (c # cs) = c # cs"
  by (simp add: skip_spaces_def)

lemma split_spaces_word:
  "CHR '' '' \<notin> set w \<Longrightarrow> split_spaces w = [w]"
  "CHR '' '' \<notin> set w \<Longrightarrow> skip_spaces r = r \<Longrightarrow> split_spaces (w @ CHR '' '' # r) = w # split_spaces r"
  by (induction w) auto

lemma split_spaces_join:
  "ws \<noteq> [] \<Longrightarrow> \<forall>w \<in> set ws. w \<noteq> [] \<and> CHR '' '' \<notin> set w \<Longrightarrow> split_spaces (join_with '' '' ws) = ws"
proof (induction ws)
  case (Cons w ws)
  show ?case
  proof (cases ws)
    case Nil
    with Cons show ?thesis by (simp add: split_spaces_word)
  next
    case (Cons v vs)
    then obtain c cs where v: "v = c # cs" "c \<noteq> CHR '' ''" using Cons.prems by (cases v) auto
    have "skip_spaces (join_with '' '' (v # vs)) = join_with '' '' (v # vs)"
      using v by (cases vs) (simp_all add: skip_spaces_head)
    with Cons Cons.IH Cons.prems show ?thesis by (simp add: split_spaces_word)
  qed
qed simp

text \<open>A branch of a range: no bar, and no space at its ends.\<close>

definition is_branch :: "string \<Rightarrow> bool" where
  "is_branch b \<longleftrightarrow> b \<noteq> [] \<and> last b \<noteq> CHR '' '' \<and> CHR ''|'' \<notin> set b"

lemma match_or_branch:
  assumes "is_branch b"
  shows "match_or (b @ r) = None"
proof -
  obtain u c where b: "b = u @ [c]" "c \<noteq> CHR '' ''" using assms by (cases b rule: rev_cases) (auto simp: is_branch_def)
  have "\<exists>d ds. skip_spaces (u @ c # r) = d # ds \<and> d \<in> set (u @ [c])"
    using b(2) by (induction u) (auto simp: skip_spaces_def)
  then obtain d ds where d: "skip_spaces (b @ r) = d # ds" "d \<in> set b" unfolding b by auto
  then have "d \<noteq> CHR ''|''" using assms by (auto simp: is_branch_def)
  with d(1) show ?thesis by (simp add: match_or_def split: list.splits)
qed

lemma match_or_end: "match_or [] = None"
  by (simp add: match_or_def skip_spaces_def)

lemma match_or_sep: "skip_spaces r = r \<Longrightarrow> match_or ('' || '' @ r) = Some r"
  by (simp add: match_or_def skip_spaces_def)

lemma is_branch_tl: "is_branch (c # cs) \<Longrightarrow> cs = [] \<or> is_branch cs"
  by (auto simp: is_branch_def)

lemma split_or_nil: "split_or [] = [[]]"
  by (subst split_or.simps) (simp add: match_or_end)

lemma split_or_cons:
  "match_or (c # cs) = None \<Longrightarrow> split_or (c # cs) = (case split_or cs of [] \<Rightarrow> [[c]] | w # ws \<Rightarrow> (c # w) # ws)"
  by (subst split_or.simps) simp

lemma split_or_last: "is_branch b \<Longrightarrow> split_or b = [b]"
proof (induction b)
  case (Cons c b)
  have "split_or b = [b]" using is_branch_tl [OF Cons.prems] Cons.IH by (auto simp: split_or_nil)
  with match_or_branch [OF Cons.prems, of "[]"] show ?case by (simp add: split_or_cons)
qed (simp add: split_or_nil)

lemma split_or_sep:
  assumes "skip_spaces r = r"
  shows "is_branch b \<Longrightarrow> split_or (b @ '' || '' @ r) = b # split_or r"
proof (induction b)
  case (Cons c b)
  have "split_or (b @ '' || '' @ r) = b # split_or r"
  proof (cases "b = []")
    case True
    then show ?thesis using match_or_sep [OF assms] by (subst split_or.simps) simp
  next
    case False
    then show ?thesis using is_branch_tl [OF Cons.prems] Cons.IH by simp
  qed
  with match_or_branch [OF Cons.prems, of "'' || '' @ r"] show ?case by (simp add: split_or_cons)
qed (simp add: is_branch_def)

lemma split_or_join:
  "bs \<noteq> [] \<Longrightarrow> \<forall>b \<in> set bs. is_branch b \<and> hd b \<noteq> CHR '' '' \<Longrightarrow> split_or (join_with '' || '' bs) = bs"
proof (induction bs)
  case (Cons b bs)
  show ?case
  proof (cases bs)
    case Nil
    with Cons show ?thesis by (simp add: split_or_last)
  next
    case (Cons c cs)
    then obtain x xs where v: "c = x # xs" "x \<noteq> CHR '' ''" using Cons.prems by (cases c) (auto simp: is_branch_def)
    have "skip_spaces (join_with '' || '' (c # cs)) = join_with '' || '' (c # cs)"
      using v by (cases cs) (simp_all add: skip_spaces_head)
    from split_or_sep [OF this] Cons Cons.IH Cons.prems show ?thesis by simp
  qed
qed simp

lemma op_text_chars: "c \<in> set (op_text r) \<Longrightarrow> c \<in> set ''=<>^~''"
  by (auto simp: op_text_def split: range_op.splits operator.splits)

lemma atom_text_chars: "c \<in> set (atom_text a) \<Longrightarrow> is_digit c \<or> c \<in> set ''.=<>^~''"
  using op_text_chars version_text_chars by (cases a) (fastforce simp: atom_text_def)

lemma atom_text_plain: "atom_text a \<noteq> [] \<and> CHR '' '' \<notin> set (atom_text a) \<and> CHR ''|'' \<notin> set (atom_text a)"
proof -
  have "atom_text a \<noteq> []" using version_text_head [of "snd a"] by (cases a) (auto simp: atom_text_def)
  then show ?thesis using atom_text_chars [of "CHR '' ''" a] atom_text_chars [of "CHR ''|''" a] by (auto simp: is_digit_def)
qed

lemma set_join: "c \<in> set (join_with d ws) \<Longrightarrow> c \<in> set d \<or> (\<exists>w \<in> set ws. c \<in> set w)"
  by (induction d ws rule: join_with.induct) auto

lemma join_ends:
  "ws \<noteq> [] \<Longrightarrow> \<forall>w \<in> set ws. w \<noteq> [] \<Longrightarrow> join_with d ws \<noteq> [] \<and> hd (join_with d ws) = hd (hd ws) \<and> last (join_with d ws) = last (last ws)"
proof (induction d ws rule: join_with.induct)
  case (3 d w v ws)
  then have "join_with d (v # ws) \<noteq> []" "last (join_with d (v # ws)) = last (last (v # ws))" by auto
  with 3 show ?case by simp
qed auto

lemma branch_text_ok:
  assumes "b \<noteq> []"
  shows "is_branch (branch_text b) \<and> hd (branch_text b) \<noteq> CHR '' ''"
proof -
  have e: "branch_text b \<noteq> [] \<and> hd (branch_text b) = hd (hd (map atom_text b)) \<and> last (branch_text b) = last (last (map atom_text b))"
    unfolding branch_text_def using assms atom_text_plain by (intro join_ends) auto
  have s: "c \<noteq> CHR '' ''" if "c \<in> set (atom_text a)" for c a using that atom_text_plain [of a] by auto
  have "last (atom_text (last b)) \<noteq> CHR '' ''" "hd (atom_text (hd b)) \<noteq> CHR '' ''"
    using s [of _ "last b"] s [of _ "hd b"] atom_text_plain last_in_set hd_in_set by blast+
  moreover have "CHR ''|'' \<notin> set (branch_text b)"
    using atom_text_plain by (auto simp: branch_text_def dest!: set_join)
  ultimately show ?thesis using e assms by (simp add: is_branch_def last_map hd_map)
qed

lemma add_atoms:
  assumes "list_all (\<lambda>a. small_version (snd a)) b" "n + length b \<le> 16" "k \<le> 2 * n"
  shows "\<exists>cs k'. foldM add_atom (map atom_text b) (out, n, k) = Inr (out @ cs, n + length b, k') \<and> k' \<le> 2 * (n + length b)
    \<and> (\<forall>v. list_all (\<lambda>(oper, u). compare v u oper) cs \<longleftrightarrow> list_all (meets v) b)"
  using assms
proof (induction b arbitrary: out n k)
  case (Cons a b)
  obtain r w where a: "a = (r, w)" by (cases a)
  obtain cs where cs: "expand r w = Inr cs" "length cs \<le> 2" using expand_small [of w r] Cons.prems(1) a by auto
  have "add_atom (atom_text a) (out, n, k) = Inr (out @ cs, n + 1, k + length cs)"
    using Cons.prems cs by (simp add: add_atom_def a parse_atom_text)
  moreover obtain ds k' where d: "foldM add_atom (map atom_text b) (out @ cs, n + 1, k + length cs) = Inr ((out @ cs) @ ds, n + 1 + length b, k')"
    "k' \<le> 2 * (n + 1 + length b)" "\<forall>v. list_all (\<lambda>(oper, u). compare v u oper) ds \<longleftrightarrow> list_all (meets v) b"
    using Cons.IH [of "n + 1" "k + length cs" "out @ cs"] Cons.prems cs(2) by auto
  moreover have "list_all (\<lambda>(oper, u). compare v u oper) (cs @ ds) \<longleftrightarrow> list_all (meets v) (a # b)" for v
    using expand_meets [OF cs(1), of v] spec [OF d(3), of v] by (simp add: a)
  ultimately show ?case by (intro exI [of _ "cs @ ds"] exI [of _ k']) simp
qed auto

lemma add_branches:
  assumes "list_all (\<lambda>b. b \<noteq> [] \<and> list_all (\<lambda>a. small_version (snd a)) b) bs" "n + length (concat bs) \<le> 16" "k \<le> 2 * n"
  shows "\<exists>r n' k'. foldM add_branch (map branch_text bs) (out, n, k) = Inr (out @ r, n', k')
    \<and> (\<forall>v. satisfies v r \<longleftrightarrow> list_ex (list_all (meets v)) bs)"
  using assms
proof (induction bs arbitrary: out n k)
  case (Cons b bs)
  have s: "split_spaces (branch_text b) = map atom_text b"
    unfolding branch_text_def using Cons.prems(1) atom_text_plain by (intro split_spaces_join) auto
  obtain cs k1 where c: "foldM add_atom (map atom_text b) ([], n, k) = Inr (cs, n + length b, k1)" "k1 \<le> 2 * (n + length b)"
    "\<forall>v. list_all (\<lambda>(oper, u). compare v u oper) cs \<longleftrightarrow> list_all (meets v) b"
    using add_atoms [of b n k "[]"] Cons.prems by (auto simp del: split_paired_All)
  obtain r n' k' where r: "foldM add_branch (map branch_text bs) (out @ [cs], n + length b, k1) = Inr ((out @ [cs]) @ r, n', k')"
    "\<forall>v. satisfies v r \<longleftrightarrow> list_ex (list_all (meets v)) bs"
    using Cons.IH [of "n + length b" k1 "out @ [cs]"] Cons.prems c(2) by (auto simp: add.assoc simp del: split_paired_All)
  have "add_branch (branch_text b) (out, n, k) = Inr (out @ [cs], n + length b, k1)"
    using s c(1) by (simp add: add_branch_def)
  moreover have "satisfies v (cs # r) \<longleftrightarrow> list_ex (list_all (meets v)) (b # bs)" for v
    using spec [OF c(3), of v] spec [OF r(2), of v] by (simp add: satisfies_def)
  ultimately show ?case using r(1) by (intro exI [of _ "cs # r"]) auto
qed (simp add: satisfies_def)

text \<open>
  C26: ranges mean what package managers document.  A range written out of at most eight
  alternatives with at most sixteen atoms and versions below the largest safe integer is read
  back, and a version satisfies what was read if it meets every atom of an alternative: a caret
  keeps the leftmost part that is not zero, a tilde keeps major and minor, and the operators
  compare versions part by part.
\<close>

theorem range_meaning:
  assumes "bs \<noteq> []" "length bs \<le> 8" "list_all (\<lambda>b. b \<noteq> [] \<and> list_all (\<lambda>a. small_version (snd a)) b) bs" "length (concat bs) \<le> 16"
    "length (range_text bs) \<le> 256"
  shows "\<exists>r. parseRange (range_text bs) = Inr r \<and> (\<forall>v. satisfies v r \<longleftrightarrow> list_ex (list_all (meets v)) bs)"
proof -
  have b: "\<forall>b \<in> set (map branch_text bs). is_branch b \<and> hd b \<noteq> CHR '' ''"
    using assms(3) branch_text_ok by (auto simp: list_all_iff)
  have s: "split_or (range_text bs) = map branch_text bs"
    unfolding range_text_def using assms(1) b by (intro split_or_join) auto
  have e: "range_text bs \<noteq> [] \<and> hd (range_text bs) = hd (hd (map branch_text bs)) \<and> last (range_text bs) = last (last (map branch_text bs))"
    unfolding range_text_def using assms(1) b by (intro join_ends) (auto simp: is_branch_def)
  have ch: "is_digit c \<or> c \<in> set ''.=<>^~ |''" if "c \<in> set (range_text bs)" for c
    using that atom_text_chars unfolding range_text_def branch_text_def by (fastforce dest!: set_join)
  have "utf8_length (range_text bs) = length (range_text bs)"
  proof -
    have "\<forall>c \<in> set t. code c < 128 \<Longrightarrow> utf8_length t = length t" for t :: string by (induction t) auto
    moreover have "\<forall>c \<in> set (range_text bs). code c < 128" using ch by (fastforce simp: is_digit_def)
    ultimately show ?thesis by blast
  qed
  moreover have "hd (range_text bs) \<noteq> CHR '' ''" "last (range_text bs) \<noteq> CHR '' ''"
    using e b assms(1) by (auto simp: is_branch_def hd_map last_map)
  moreover have "list_all (\<lambda>c. 0x20 \<le> code c \<and> code c \<le> 0x7e) (range_text bs)"
    using ch by (fastforce simp: list_all_iff is_digit_def)
  ultimately have sp: "is_specifier (range_text bs)" using e assms(5) by (simp add: is_specifier_def)
  have st: "range_text bs \<noteq> ''*''"
  proof
    assume "range_text bs = ''*''"
    then show False using ch [of "CHR ''*''"] by (auto simp: is_digit_def)
  qed
  have "list_all (\<lambda>b. b \<noteq> [] \<and> \<not> includes_text ''||'' b) (map branch_text bs)"
    using b by (auto simp: list_all_iff is_branch_def includes_text_iff)
  moreover obtain r n' k' where "foldM add_branch (map branch_text bs) ([], 0, 0) = Inr (r, n', k')"
    "\<forall>v. satisfies v r \<longleftrightarrow> list_ex (list_all (meets v)) bs"
    using add_branches [OF assms(3), of 0 0 "[]"] assms(4) by auto
  ultimately show ?thesis using sp st s assms(2) by (simp add: parseRange_def Let_def)
qed

theorem range_meaning_witness:
  "\<exists>r. parseRange ''^1.2.0 || ~0.3.1 <0.3.9'' = Inr r \<and> satisfies (1, 9, 0) r \<and> satisfies (0, 3, 4) r
     \<and> \<not> satisfies (0, 3, 9) r \<and> \<not> satisfies (2, 0, 0) r"
proof -
  let ?bs = "[[(Caret, (1, 2, 0))], [(Tilde, (0, 3, 1)), (Plain Op_lt, (0, 3, 9))]]"
  have t: "range_text ?bs = ''^1.2.0 || ~0.3.1 <0.3.9''"
    by (simp add: range_text_def branch_text_def atom_text_def op_text_def version_text_def show_nat.simps digit_char_def) code_simp
  have l: "length (range_text ?bs) \<le> 256" unfolding t by simp
  have s: "list_all (\<lambda>b. b \<noteq> [] \<and> list_all (\<lambda>a. small_version (snd a)) b) ?bs" by (simp add: small_version_def max_safe_def)
  have "\<exists>r. parseRange (range_text ?bs) = Inr r \<and> (\<forall>v. satisfies v r \<longleftrightarrow> list_ex (list_all (meets v)) ?bs)"
    by (rule range_meaning [OF _ _ s _ l]) simp_all
  then show ?thesis unfolding t by (auto simp: version_less_def)
qed

end
