(* ===== verification/PeerSemantics.thy ===== *)
theory PeerSemantics
  imports PeerRange Graph
begin

section \<open>Peer dependency semantics\<close>

text \<open>
  Models \<open>analyzePeerDependencySemantics\<close> of src/stage/peer-dependency-semantics.ts: reading the
  nodes, resolving ordinary dependencies and peers to the nearest node, and the closure of what
  is required.  A node is known by its install path.  An object is one of plain data properties;
  errors are the texts of their predicates.
\<close>

record peer =
  pr_range :: string
  pr_optional :: bool

record peer_node =
  pn_path :: string
  pn_name :: string
  pn_version :: version
  pn_deps :: "(string \<times> string) list"
  pn_peers :: "(string \<times> peer) list"
  pn_peerFlag :: "bool option"

record peer_outcome =
  po_from :: string
  po_name :: string
  po_optional :: bool
  po_target :: "string option"

record peer_analysis =
  pa_production :: "string list"
  pa_required :: "string list"
  pa_outcomes :: "peer_outcome list"

definition ROLE_FLAGS :: "string list" where
  "ROLE_FLAGS = [''dev'', ''optional'', ''peer'', ''devOptional'', ''link'', ''inBundle'']"

definition FIELD_REJECTIONS :: "string list" where
  "FIELD_REJECTIONS = [''hasInstallScript'', ''optionalDependencies'', ''bundleDependencies'', ''bundledDependencies'', ''os'', ''cpu'']"

definition NODE_KEYS :: "string list" where
  "NODE_KEYS = [''installPath'', ''packageName'', ''version'', ''dependencies'', ''peerDependencies'', ''peerDependenciesMeta'']
     @ ROLE_FLAGS @ FIELD_REJECTIONS"

subsection \<open>Reading records\<close>

definition ownRecord :: "string \<Rightarrow> jsval \<Rightarrow> string + (string \<times> jsval) list" where
  "ownRecord p v = (case v of JObj kvs \<Rightarrow> Inr kvs | _ \<Rightarrow> Inl p)"

definition boundedString :: "string \<Rightarrow> jsval \<Rightarrow> string + string" where
  "boundedString p v = (case v of JStr s \<Rightarrow> if utf8_length s \<le> 256 then Inr s else Inl p | _ \<Rightarrow> Inl p)"

definition packageName :: "jsval \<Rightarrow> string + string" where
  "packageName v = rbind (boundedString ''shape'' v) (\<lambda>s. rbind (require ''shape'' (is_package_name s)) (\<lambda>_. Inr s))"

text \<open>A record that may be missing.\<close>

definition optional_record :: "string \<Rightarrow> jsval \<Rightarrow> string + (string \<times> jsval) list" where
  "optional_record p v = (if v = JUndef then Inr [] else ownRecord p v)"

definition stringMap :: "string \<Rightarrow> (string \<times> jsval) list \<Rightarrow> string + (string \<times> string) list" where
  "stringMap p kvs = mapM (\<lambda>(k, v). rbind (boundedString p v) (\<lambda>s. Inr (k, s))) kvs"

definition by_name :: "(string \<times> 'a) list \<Rightarrow> (string \<times> 'a) list" where
  "by_name = isort key_lt"

subsection \<open>Install paths\<close>

definition is_scope :: "string \<Rightarrow> bool" where
  "is_scope s \<longleftrightarrow> starts_with ''@'' s \<and> 2 \<le> length s"

text \<open>The segments of \<open>(node_modules/(@scope/)?name)(/node_modules/(@scope/)?name)*\<close>.\<close>

fun valid_segments :: "string list \<Rightarrow> bool" where
  "valid_segments [] = False"
| "valid_segments [s] = False"
| "valid_segments [m, s] = (m = ''node_modules'' \<and> s \<noteq> [])"
| "valid_segments (m # s # t # ss) =
     (m = ''node_modules'' \<and> (s \<noteq> [] \<and> valid_segments (t # ss) \<or> is_scope s \<and> t \<noteq> [] \<and> (ss = [] \<or> valid_segments ss)))"

definition validPath :: "string \<Rightarrow> bool" where
  "validPath p \<longleftrightarrow> p = [] \<or> valid_segments (split_on (CHR ''/'') p)"

definition path_depth :: "string \<Rightarrow> nat" where
  "path_depth p = (if p = [] then 0 else length (split_on (CHR ''/'') p))"

definition pathName :: "string \<Rightarrow> string" where
  "pathName p = (case List.rev (split_on (CHR ''/'') p) of
     [] \<Rightarrow> [] | [s] \<Rightarrow> s | s # t # _ \<Rightarrow> if starts_with ''@'' t then t @ ''/'' @ s else s)"

text \<open>The segments above the last package of a path, \<open>None\<close> when the path does not end in one.\<close>

definition above_package :: "string list \<Rightarrow> string list option" where
  "above_package ss = (case List.rev ss of
     s # m # r \<Rightarrow> if m = ''node_modules'' \<and> s \<noteq> [] then Some (List.rev r)
       else (case r of
           m' # r' \<Rightarrow> if m' = ''node_modules'' \<and> is_scope m \<and> s \<noteq> [] then Some (List.rev r') else None
         | [] \<Rightarrow> None)
   | _ \<Rightarrow> None)"

text \<open>\<open>(.*)\<close> in the pattern of \<open>parentPath\<close> stops at a line break.\<close>

definition parentPath :: "string \<Rightarrow> string option" where
  "parentPath p =
     (if p = [] then None
      else case above_package (split_on (CHR ''/'') p) of
        None \<Rightarrow> None
      | Some r \<Rightarrow> if CHR 0x0A \<in> set (join_with ''/'' r) \<or> CHR 0x0D \<in> set (join_with ''/'' r) then None
          else Some (join_with ''/'' r))"

definition childPath :: "string \<Rightarrow> string \<Rightarrow> string" where
  "childPath context name = (if context = [] then ''node_modules/'' @ name else context @ ''/node_modules/'' @ name)"

lemma split_join_prefix: "split_on d p = xs @ ys \<Longrightarrow> xs \<noteq> [] \<Longrightarrow> ys \<noteq> [] \<Longrightarrow> length (join_with [d] xs) < length p"
proof (induction xs arbitrary: p)
  case (Cons x xs)
  have "p = join_with [d] (x # xs @ ys)" using join_split [of d p] Cons.prems(1) by simp
  moreover have "length (join_with [d] (x # xs)) < length (join_with [d] ((x # xs) @ ys))"
    using Cons.prems(3)
  proof (induction xs arbitrary: x)
    case Nil
    then show ?case by (cases ys) simp_all
  next
    case (Cons y xs)
    then show ?case by simp
  qed
  ultimately show ?case by simp
qed simp

lemma above_package_prefix: "above_package ss = Some r \<Longrightarrow> \<exists>t. ss = r @ t \<and> 2 \<le> length t"
proof -
  assume a: "above_package ss = Some r"
  then obtain s m q where q: "List.rev ss = s # m # q" by (auto simp: above_package_def split: list.splits)
  then have ss: "ss = List.rev q @ [m, s]" by (metis append_Cons append_Nil append_assoc rev.simps(2) rev_rev_ident)
  show ?thesis
  proof (cases "m = ''node_modules'' \<and> s \<noteq> []")
    case True
    then show ?thesis using a q ss by (simp add: above_package_def)
  next
    case False
    then obtain m' q' where "q = m' # q'" "r = List.rev q'" using a q by (auto simp: above_package_def split: list.splits if_splits)
    then show ?thesis using ss by simp
  qed
qed

lemma parentPath_less:
  assumes "parentPath p = Some q"
  shows "length q < length p"
proof -
  obtain r where r: "above_package (split_on (CHR ''/'') p) = Some r" "q = join_with ''/'' r" "p \<noteq> []"
    using assms by (auto simp: parentPath_def split: if_splits option.splits)
  then obtain t where t: "split_on (CHR ''/'') p = r @ t" "2 \<le> length t" using above_package_prefix by blast
  show ?thesis
  proof (cases "r = []")
    case True
    with r show ?thesis by simp
  next
    case False
    moreover have "t \<noteq> []" using t(2) by auto
    ultimately show ?thesis using split_join_prefix [OF t(1)] r(2) by simp
  qed
qed

subsection \<open>Nodes\<close>

text \<open>One flag of a role; every flag but \<open>peer\<close> must not be set.\<close>

definition check_flag :: "(string \<times> jsval) list \<Rightarrow> string \<Rightarrow> string + unit" where
  "check_flag kvs k =
     (case own_prop kvs k of
        JUndef \<Rightarrow> Inr ()
      | JBool b \<Rightarrow> require ''prohibited_role'' (\<not> b \<or> k = ''peer'')
      | _ \<Rightarrow> Inl ''role_type'')"

definition peer_meta_ok :: "(string \<times> jsval) list \<Rightarrow> bool" where
  "peer_meta_ok d \<longleftrightarrow> list_all (\<lambda>(k, v). k = ''optional'' \<and> is_bool v) d"

text \<open>One round over the sorted peers.\<close>

definition read_peer :: "(string \<times> string) list \<Rightarrow> (string \<times> jsval) list \<Rightarrow> string \<times> string \<Rightarrow> string + string \<times> peer" where
  "read_peer deps meta = (\<lambda>(name, range).
     rbind (packageName (JStr name)) (\<lambda>_.
     rbind (require ''overlap'' (name \<notin> fst ` set deps)) (\<lambda>_.
     if own_prop meta name = JUndef then Inr (name, \<lparr>pr_range = range, pr_optional = False\<rparr>)
     else rbind (ownRecord ''peer_meta'' (own_prop meta name)) (\<lambda>d.
       rbind (require ''peer_meta'' (peer_meta_ok d)) (\<lambda>_.
       Inr (name, \<lparr>pr_range = range, pr_optional = own_prop d ''optional'' = JBool True\<rparr>))))))"

definition peerMap :: "jsval \<Rightarrow> jsval \<Rightarrow> (string \<times> string) list \<Rightarrow> string + (string \<times> peer) list" where
  "peerMap rawPeers rawMeta deps =
     rbind (require ''peer_meta'' (\<not> (rawPeers = JUndef \<and> rawMeta \<noteq> JUndef))) (\<lambda>_.
     rbind (rbind (optional_record ''peer_shape'' rawPeers) (stringMap ''peer_shape'')) (\<lambda>peers.
     rbind (require ''budget'' (length peers \<le> 64)) (\<lambda>_.
     rbind (optional_record ''peer_meta'' rawMeta) (\<lambda>meta.
     rbind (mapM (read_peer deps meta) (by_name peers)) (\<lambda>out.
     rbind (require ''peer_meta'' (list_all (\<lambda>k. k \<in> fst ` set peers) (map fst meta))) (\<lambda>_. Inr out))))))"

definition parseNode :: "(string \<times> jsval) list \<Rightarrow> string + peer_node" where
  "parseNode kvs =
     rbind (require ''shape'' (list_all (\<lambda>k. k \<in> set NODE_KEYS) (map fst kvs))) (\<lambda>_.
     rbind (boundedString ''shape'' (own_prop kvs ''installPath'')) (\<lambda>path.
     rbind (packageName (own_prop kvs ''packageName'')) (\<lambda>name.
     rbind (require ''shape'' (validPath path \<and> utf8_length path \<le> 512 \<and> path_depth path \<le> 32)) (\<lambda>_.
     rbind (require ''shape'' (pathName path = name)) (\<lambda>_.
     rbind (rbind (boundedString ''version'' (own_prop kvs ''version'')) parseVersion) (\<lambda>v.
     rbind (mapM (check_flag kvs) ROLE_FLAGS) (\<lambda>_.
     rbind (require ''prohibited_field'' (list_all (\<lambda>k. k \<notin> fst ` set kvs) FIELD_REJECTIONS)) (\<lambda>_.
     rbind (rbind (optional_record ''shape'' (own_prop kvs ''dependencies'')) (stringMap ''shape'')) (\<lambda>deps.
     rbind (peerMap (own_prop kvs ''peerDependencies'') (own_prop kvs ''peerDependenciesMeta'') deps) (\<lambda>peers.
     Inr \<lparr>pn_path = path, pn_name = name, pn_version = v, pn_deps = deps, pn_peers = peers,
          pn_peerFlag = (case own_prop kvs ''peer'' of JBool b \<Rightarrow> Some b | _ \<Rightarrow> None)\<rparr>))))))))))"

subsection \<open>The budget\<close>

definition add_requirements :: "(string \<times> jsval) list \<Rightarrow> nat \<times> nat \<Rightarrow> string + nat \<times> nat" where
  "add_requirements kvs = (\<lambda>(peers, all).
     rbind (optional_record ''shape'' (own_prop kvs ''dependencies'')) (\<lambda>d.
     rbind (optional_record ''peer_shape'' (own_prop kvs ''peerDependencies'')) (\<lambda>p.
     rbind (require ''budget'' (length p \<le> 64)) (\<lambda>_.
     rbind (require ''budget'' (peers + length p \<le> 2048 \<and> all + (length d + length p) \<le> 4096)) (\<lambda>_.
     Inr (peers + length p, all + (length d + length p)))))))"

subsection \<open>Resolution\<close>

definition node_at :: "peer_node list \<Rightarrow> string \<Rightarrow> peer_node option" where
  "node_at nodes p = map_of (map (\<lambda>n. (pn_path n, n)) nodes) p"

function resolveNearest :: "peer_node list \<Rightarrow> string \<Rightarrow> string \<Rightarrow> peer_node option" where
  "resolveNearest nodes context name =
     (case node_at nodes (childPath context name) of
        Some n \<Rightarrow> Some n
      | None \<Rightarrow> (case parentPath context of None \<Rightarrow> None | Some c \<Rightarrow> resolveNearest nodes c name))"
  by pat_completeness auto
termination
  by (relation "measure (\<lambda>(nodes, context, name). length context)") (auto dest: parentPath_less)

declare resolveNearest.simps [simp del]

text \<open>A dependency that resolves to a node whose version its range admits.\<close>

definition resolve_ordinary :: "(string \<Rightarrow> peer_node option) \<Rightarrow> string \<times> range \<Rightarrow> string + string" where
  "resolve_ordinary lookup = (\<lambda>(name, r).
     case lookup name of
       None \<Rightarrow> Inl ''ordinary_resolution''
     | Some t \<Rightarrow> rbind (require ''ordinary_range'' (satisfies (pn_version t) r)) (\<lambda>_. Inr (pn_path t)))"

definition parse_ranges :: "(string \<times> string) list \<Rightarrow> string + (string \<times> range) list" where
  "parse_ranges deps = mapM (\<lambda>(name, s). rbind (parseRange s) (\<lambda>r. Inr (name, r))) (by_name deps)"

text \<open>A node with the ranges of its dependencies and of its peers.\<close>

type_synonym ranged = "peer_node \<times> (string \<times> range) list \<times> (string \<times> range) list"

definition range_node :: "peer_node \<Rightarrow> string + ranged" where
  "range_node n =
     rbind (parse_ranges (pn_deps n)) (\<lambda>d.
     rbind (parse_ranges (map (\<lambda>(name, p). (name, pr_range p)) (pn_peers n))) (\<lambda>p. Inr (n, d, p)))"

definition resolve_node :: "peer_node list \<Rightarrow> ranged \<Rightarrow> string + string \<times> string list" where
  "resolve_node nodes = (\<lambda>(n, d, _).
     rbind (mapM (resolve_ordinary (resolveNearest nodes (pn_path n))) d) (\<lambda>ts. Inr (pn_path n, ts)))"

text \<open>\<open>assertOrdinaryDag\<close>: the search over the nodes of a set, along the edges within it.\<close>

definition restricted :: "string list \<Rightarrow> graph \<Rightarrow> graph" where
  "restricted ps g = map (\<lambda>p. (p, filter (\<lambda>q. q \<in> set ps) (targets g p))) (sort_text ps)"

definition assertOrdinaryDag :: "string list \<Rightarrow> graph \<Rightarrow> string + unit" where
  "assertOrdinaryDag ps g = require ''ordinary_cycle'' (dfs_all (restricted ps g) [] [] (sort_text ps) \<noteq> None)"

subsection \<open>Peers\<close>

record peer_search =
  rs_required :: "string list"
  rs_queue :: "string list"
  rs_processed :: "string list"
  rs_outcomes :: "peer_outcome list"

text \<open>\<open>includeRequired\<close>: a node and all it depends on, those that are new also into the queue.\<close>

definition includeRequired :: "graph \<Rightarrow> string \<Rightarrow> peer_search \<Rightarrow> peer_search" where
  "includeRequired g p S =
     (let r = collect g (rs_required S) [p] in
      S\<lparr>rs_required := r, rs_queue := rs_queue S @ drop (length (rs_required S)) r\<rparr>)"

definition peer_context :: "peer_node \<Rightarrow> string" where
  "peer_context n = (case parentPath (pn_path n) of None \<Rightarrow> [] | Some c \<Rightarrow> c)"

definition one_peer :: "peer_node list \<Rightarrow> graph \<Rightarrow> peer_node \<Rightarrow> (string \<times> range) list \<Rightarrow> string \<times> peer \<Rightarrow> peer_search
    \<Rightarrow> string + peer_search" where
  "one_peer nodes g n ranges = (\<lambda>(name, p) S.
     rbind (require ''self_peer'' (name \<noteq> pn_name n)) (\<lambda>_.
     rbind (require ''peer_local'' (node_at nodes (childPath (pn_path n) name) = None)) (\<lambda>_.
     let outcome = \<lparr>po_from = pn_path n, po_name = name, po_optional = True, po_target = None\<rparr> in
     case resolveNearest nodes (peer_context n) name of
       None \<Rightarrow> rbind (require ''peer_missing'' (pr_optional p)) (\<lambda>_.
         Inr (S\<lparr>rs_outcomes := rs_outcomes S @ [outcome]\<rparr>))
     | Some t \<Rightarrow>
         rbind (require ''self_peer'' (pn_path t \<noteq> pn_path n)) (\<lambda>_.
         rbind (require ''peer_conflict'' (case map_of ranges name of None \<Rightarrow> False | Some r \<Rightarrow> satisfies (pn_version t) r)) (\<lambda>_.
         let S' = S\<lparr>rs_outcomes := rs_outcomes S @
               [outcome\<lparr>po_optional := pr_optional p, po_target := Some (pn_path t)\<rparr>]\<rparr> in
         Inr (if pr_optional p then S' else includeRequired g (pn_path t) S'))))))"

definition find_ranged :: "ranged list \<Rightarrow> string \<Rightarrow> ranged option" where
  "find_ranged rs p = map_of (map (\<lambda>r. (pn_path (fst r), r)) rs) p"

text \<open>
  The loop over the queue.  \<open>processed\<close> grows with every node that has peers to look at, so it
  ends; a path that is no node, which the queue never holds, counts as a node without peers.
\<close>

definition process_node :: "ranged list \<Rightarrow> graph \<Rightarrow> string \<Rightarrow> peer_search \<Rightarrow> string + peer_search" where
  "process_node rs g p S =
     (let S' = S\<lparr>rs_processed := rs_processed S @ [p]\<rparr> in
      case find_ranged rs p of
        None \<Rightarrow> Inr S'
      | Some (n, _, ranges) \<Rightarrow> foldM (one_peer (map fst rs) g n ranges) (pn_peers n) S')"

lemma one_peer_frame:
  assumes "one_peer nodes g n ranges x S = Inr S'"
  shows "rs_processed S' = rs_processed S"
  using assms by (auto simp: one_peer_def includeRequired_def Let_def rbind_Inr_iff split: prod.splits option.splits if_splits)

lemma one_peers_frame: "foldM (one_peer nodes g n ranges) xs S = Inr S' \<Longrightarrow> rs_processed S' = rs_processed S"
  by (induction xs arbitrary: S) (auto simp: rbind_Inr_iff dest: one_peer_frame)

lemma process_frame:
  assumes "process_node rs g p S = Inr S'"
  shows "rs_processed S' = rs_processed S @ [p]"
  using assms by (auto simp: process_node_def Let_def split: option.splits dest: one_peers_frame)

definition unprocessed :: "ranged list \<Rightarrow> string list \<Rightarrow> nat" where
  "unprocessed rs processed = card ((\<lambda>r. pn_path (fst r)) ` set rs - set processed)"

lemma find_ranged_None: "find_ranged rs p = None \<longleftrightarrow> p \<notin> (\<lambda>r. pn_path (fst r)) ` set rs"
  by (auto simp: find_ranged_def map_of_eq_None_iff image_image)

lemma process_less:
  assumes "process_node rs g p (S\<lparr>rs_queue := q\<rparr>) = Inr S'" "p \<notin> set (rs_processed S)"
  shows "unprocessed rs (rs_processed S') < unprocessed rs (rs_processed S)
    \<or> unprocessed rs (rs_processed S') = unprocessed rs (rs_processed S) \<and> rs_queue S' = q"
proof (cases "find_ranged rs p")
  case None
  then have "(\<lambda>r. pn_path (fst r)) ` set rs - set (rs_processed S @ [p]) = (\<lambda>r. pn_path (fst r)) ` set rs - set (rs_processed S)"
    by (auto simp: find_ranged_None)
  then show ?thesis using None process_frame [OF assms(1)] assms(1) by (auto simp: unprocessed_def process_node_def)
next
  case (Some r)
  then have "p \<in> (\<lambda>r. pn_path (fst r)) ` set rs" using find_ranged_None [of rs p] by auto
  then have "unprocessed rs (rs_processed S @ [p]) < unprocessed rs (rs_processed S)"
    unfolding unprocessed_def using assms(2) by (intro psubset_card_mono) auto
  then show ?thesis using process_frame [OF assms(1)] by simp
qed

function run_queue :: "ranged list \<Rightarrow> graph \<Rightarrow> peer_search \<Rightarrow> string + peer_search" where
  "run_queue rs g S =
     (case sort_text (rs_queue S) of
        [] \<Rightarrow> Inr S
      | p # q \<Rightarrow>
          if p \<in> set (rs_processed S) then run_queue rs g (S\<lparr>rs_queue := q\<rparr>)
          else rbind (process_node rs g p (S\<lparr>rs_queue := q\<rparr>)) (run_queue rs g))"
  by pat_completeness auto
termination
proof (relation "measures [\<lambda>(rs, g, S). unprocessed rs (rs_processed S), \<lambda>(rs, g, S). length (rs_queue S)]")
  fix rs :: "ranged list" and g :: graph and S :: peer_search and p q
  assume q: "sort_text (rs_queue S) = p # q"
  then have l: "length q < length (rs_queue S)" by (metis sort_text_def length_isort length_Cons lessI)
  then show "((rs, g, S\<lparr>rs_queue := q\<rparr>), rs, g, S) \<in> measures
    [\<lambda>(rs, g, S). unprocessed rs (rs_processed S), \<lambda>(rs, g, S). length (rs_queue S)]" by simp
  fix S' :: peer_search
  assume "p \<notin> set (rs_processed S)" "process_node rs g p (S\<lparr>rs_queue := q\<rparr>) = Inr S'"
  from process_less [OF this(2,1)] l show "((rs, g, S'), rs, g, S) \<in> measures
    [\<lambda>(rs, g, S). unprocessed rs (rs_processed S), \<lambda>(rs, g, S). length (rs_queue S)]" by auto
qed simp

declare run_queue.simps [simp del]

subsection \<open>The analysis\<close>

definition node_lt :: "peer_node \<Rightarrow> peer_node \<Rightarrow> bool" where
  "node_lt a b = text_lt (pn_path a) (pn_path b)"

text \<open>The records of the nodes with their paths, sorted by path.\<close>

definition shallow_node :: "jsval \<Rightarrow> string + string \<times> (string \<times> jsval) list" where
  "shallow_node v = rbind (ownRecord ''shape'' v) (\<lambda>kvs. rbind (boundedString ''shape'' (own_prop kvs ''installPath'')) (\<lambda>p.
     Inr (p, kvs)))"

definition add_node :: "string \<times> (string \<times> jsval) list \<Rightarrow> peer_node list \<Rightarrow> string + peer_node list" where
  "add_node x nodes = rbind (parseNode (snd x)) (\<lambda>n.
     rbind (require ''shape'' (pn_path n \<notin> pn_path ` set nodes)) (\<lambda>_. Inr (nodes @ [n])))"

definition parent_known :: "peer_node list \<Rightarrow> peer_node \<Rightarrow> bool" where
  "parent_known nodes n = (case parentPath (pn_path n) of None \<Rightarrow> True | Some p \<Rightarrow> p = [] \<or> p \<in> pn_path ` set nodes)"

definition read_graph :: "jsval \<Rightarrow> string + (string \<times> string) list \<times> peer_node list" where
  "read_graph input =
     rbind (ownRecord ''shape'' input) (\<lambda>kvs.
     rbind (require ''shape'' (list_all (\<lambda>k. k = ''rootDependencies'' \<or> k = ''nodes'') (map fst kvs))) (\<lambda>_.
     rbind (ownRecord ''shape'' (own_prop kvs ''rootDependencies'')) (\<lambda>rootRecord.
     rbind (case own_prop kvs ''nodes'' of JArr vs \<Rightarrow> Inr vs | _ \<Rightarrow> Inl ''shape'') (\<lambda>raw.
     rbind (require ''budget'' (length raw \<le> 256)) (\<lambda>_.
     rbind (mapM shallow_node raw) (\<lambda>shallow.
     rbind (require ''budget'' (length rootRecord \<le> 4096)) (\<lambda>_.
     rbind (foldM (\<lambda>x. add_requirements (snd x)) shallow (0, length rootRecord)) (\<lambda>_.
     rbind (stringMap ''shape'' rootRecord) (\<lambda>root.
     rbind (mapM (\<lambda>d. packageName (JStr (fst d))) root) (\<lambda>_.
     rbind (foldM add_node (isort key_lt shallow) []) (\<lambda>nodes.
     let ordered = isort node_lt nodes in
     rbind (require ''shape'' (list_all (parent_known ordered) ordered)) (\<lambda>_. Inr (root, ordered)))))))))))))"

definition outcome_lt :: "peer_outcome \<Rightarrow> peer_outcome \<Rightarrow> bool" where
  "outcome_lt a b = text_lt (po_from a @ CHR 0x00 # po_name a) (po_from b @ CHR 0x00 # po_name b)"

definition role_ok :: "string list \<Rightarrow> string list \<Rightarrow> peer_node \<Rightarrow> bool" where
  "role_ok required production n = (case pn_peerFlag n of None \<Rightarrow> True
     | Some b \<Rightarrow> b = (pn_path n \<in> set required \<and> pn_path n \<notin> set production))"

definition include_all :: "graph \<Rightarrow> string list \<Rightarrow> peer_search \<Rightarrow> peer_search" where
  "include_all g ps S = foldl (\<lambda>S p. includeRequired g p S) S ps"

definition start_search :: "graph \<Rightarrow> string list \<Rightarrow> peer_search" where
  "start_search g production = include_all g production \<lparr>rs_required = [], rs_queue = [], rs_processed = [], rs_outcomes = []\<rparr>"

definition analyse_graph :: "(string \<times> string) list \<Rightarrow> peer_node list \<Rightarrow> string + peer_analysis" where
  "analyse_graph root nodes =
     rbind (parse_ranges root) (\<lambda>rootRanges.
     rbind (mapM range_node nodes) (\<lambda>rs.
     rbind (mapM (resolve_node nodes) rs) (\<lambda>g.
     rbind (mapM (resolve_ordinary (\<lambda>name. node_at nodes (childPath [] name))) rootRanges) (\<lambda>rootTargets.
     let production = closure g [] (sort_text rootTargets) in
     rbind (assertOrdinaryDag production g) (\<lambda>_.
     rbind (run_queue rs g (start_search g production)) (\<lambda>S.
     let required = rs_required S in
     rbind (assertOrdinaryDag required g) (\<lambda>_.
     rbind (require ''closure'' (length required = length nodes)) (\<lambda>_.
     rbind (require ''role'' (list_all (role_ok required production) nodes)) (\<lambda>_.
     Inr \<lparr>pa_production = sort_text production, pa_required = sort_text required,
          pa_outcomes = isort outcome_lt (rs_outcomes S)\<rparr>)))))))))"

definition analyzePeerDependencySemantics :: "jsval \<Rightarrow> string + peer_analysis" where
  "analyzePeerDependencySemantics input = rbind (read_graph input) (\<lambda>(root, nodes). analyse_graph root nodes)"

subsection \<open>What the resolution finds\<close>

text \<open>The places a name is looked for, from a context upwards.\<close>

function contexts :: "string \<Rightarrow> string list" where
  "contexts c = c # (case parentPath c of None \<Rightarrow> [] | Some d \<Rightarrow> contexts d)"
  by pat_completeness auto
termination
  by (relation "measure length") (auto dest: parentPath_less)

declare contexts.simps [simp del]

text \<open>The nearest place that has the name decides.\<close>

lemma resolveNearest_contexts:
  "resolveNearest nodes c name = (case dropWhile (\<lambda>d. node_at nodes (childPath d name) = None) (contexts c) of
     [] \<Rightarrow> None | d # _ \<Rightarrow> node_at nodes (childPath d name))"
proof (induction nodes c name rule: resolveNearest.induct)
  case (1 nodes c name)
  show ?case
  proof (cases "node_at nodes (childPath c name)")
    case None
    with 1 show ?thesis by (subst resolveNearest.simps, subst contexts.simps) (auto split: option.splits)
  next
    case (Some n)
    then show ?thesis by (subst resolveNearest.simps, subst contexts.simps) simp
  qed
qed

lemma node_at_Some: "node_at nodes p = Some n \<Longrightarrow> n \<in> set nodes \<and> pn_path n = p"
  by (auto simp: node_at_def dest: map_of_SomeD)

lemma resolveNearest_Some: "resolveNearest nodes c name = Some n \<Longrightarrow> n \<in> set nodes"
  by (auto simp: resolveNearest_contexts split: list.splits dest: node_at_Some)

definition peer_target :: "peer_node list \<Rightarrow> peer_node \<Rightarrow> string \<Rightarrow> peer_node option" where
  "peer_target nodes n name = resolveNearest nodes (peer_context n) name"

text \<open>The edges of ordinary dependencies and of required peers, and the nodes the root names.\<close>

definition ordinary_rel :: "peer_node list \<Rightarrow> (string \<times> string) set" where
  "ordinary_rel nodes = {(p, q). \<exists>n \<in> set nodes. pn_path n = p
     \<and> (\<exists>name \<in> fst ` set (pn_deps n). \<exists>t. resolveNearest nodes p name = Some t \<and> q = pn_path t)}"

definition peer_rel :: "peer_node list \<Rightarrow> (string \<times> string) set" where
  "peer_rel nodes = {(p, q). \<exists>n \<in> set nodes. pn_path n = p
     \<and> (\<exists>(name, pr) \<in> set (pn_peers n). \<not> pr_optional pr \<and> (\<exists>t. peer_target nodes n name = Some t \<and> q = pn_path t))}"

definition root_paths :: "(string \<times> string) list \<Rightarrow> peer_node list \<Rightarrow> string set" where
  "root_paths root nodes = {q. \<exists>name \<in> fst ` set root. \<exists>t. node_at nodes (childPath [] name) = Some t \<and> q = pn_path t}"

text \<open>A dependency is satisfied by the node it resolves to; a peer is settled.\<close>

definition admitted :: "peer_node option \<Rightarrow> string \<Rightarrow> bool" where
  "admitted t s \<longleftrightarrow> (\<exists>n r. t = Some n \<and> parseRange s = Inr r \<and> satisfies (pn_version n) r)"

definition peer_settled :: "peer_node list \<Rightarrow> peer_node \<Rightarrow> string \<times> peer \<Rightarrow> bool" where
  "peer_settled nodes n = (\<lambda>(name, p). name \<noteq> pn_name n \<and> node_at nodes (childPath (pn_path n) name) = None
     \<and> (case peer_target nodes n name of None \<Rightarrow> pr_optional p
         | Some t \<Rightarrow> pn_path t \<noteq> pn_path n \<and> admitted (Some t) (pr_range p)))"

definition outcome_of :: "peer_node list \<Rightarrow> peer_node \<Rightarrow> string \<times> peer \<Rightarrow> peer_outcome" where
  "outcome_of nodes n = (\<lambda>(name, p). \<lparr>po_from = pn_path n, po_name = name,
     po_optional = (peer_target nodes n name = None \<or> pr_optional p), po_target = map_option pn_path (peer_target nodes n name)\<rparr>)"

lemma parse_ranges_Inr:
  assumes "parse_ranges deps = Inr d"
  shows "fst ` set d = fst ` set deps" "(name, r) \<in> set d \<Longrightarrow> \<exists>s. (name, s) \<in> set deps \<and> parseRange s = Inr r"
    "(name, s) \<in> set deps \<Longrightarrow> \<exists>r. (name, r) \<in> set d \<and> parseRange s = Inr r"
proof -
  let ?f = "\<lambda>(name, s). rbind (parseRange s) (\<lambda>r. Inr (name, r))"
  have m: "mapM ?f xs = Inr ys \<Longrightarrow> map fst ys = map fst xs
      \<and> (\<forall>(name, r) \<in> set ys. \<exists>s. (name, s) \<in> set xs \<and> parseRange s = Inr r)
      \<and> (\<forall>(name, s) \<in> set xs. \<exists>r. (name, r) \<in> set ys \<and> parseRange s = Inr r)" for xs ys
    by (induction xs arbitrary: ys) (fastforce simp: rbind_Inr_iff split: sum.splits prod.splits)+
  have s: "set (by_name deps) = set deps" by (simp add: by_name_def)
  from m [OF assms [unfolded parse_ranges_def]] show "fst ` set d = fst ` set deps"
    "(name, r) \<in> set d \<Longrightarrow> \<exists>s. (name, s) \<in> set deps \<and> parseRange s = Inr r"
    "(name, s) \<in> set deps \<Longrightarrow> \<exists>r. (name, r) \<in> set d \<and> parseRange s = Inr r"
    unfolding s by (metis list.set_map s, fastforce, fastforce)
qed

lemma resolve_all_Inr:
  assumes "mapM (resolve_ordinary look) d = Inr ts"
  shows "(name, r) \<in> set d \<Longrightarrow> \<exists>t. look name = Some t \<and> satisfies (pn_version t) r"
    "set ts = {q. \<exists>name \<in> fst ` set d. \<exists>t. look name = Some t \<and> q = pn_path t}"
proof -
  have m: "(\<forall>(name, r) \<in> set d. \<exists>t. look name = Some t \<and> satisfies (pn_version t) r)
      \<and> set ts = {q. \<exists>name \<in> fst ` set d. \<exists>t. look name = Some t \<and> q = pn_path t}"
    using assms
  proof (induction d arbitrary: ts)
    case (Cons x d)
    then obtain t ts' where "look (fst x) = Some t" "satisfies (pn_version t) (snd x)" "ts = pn_path t # ts'"
      "mapM (resolve_ordinary look) d = Inr ts'"
      by (auto simp: resolve_ordinary_def rbind_Inr_iff split: sum.splits option.splits prod.splits)
    with Cons.IH [of ts'] show ?case by auto
  qed simp
  then show "(name, r) \<in> set d \<Longrightarrow> \<exists>t. look name = Some t \<and> satisfies (pn_version t) r"
    "set ts = {q. \<exists>name \<in> fst ` set d. \<exists>t. look name = Some t \<and> q = pn_path t}" by auto
qed

lemma resolved_admitted:
  assumes "parse_ranges deps = Inr d" "mapM (resolve_ordinary look) d = Inr ts"
  shows "\<forall>(name, s) \<in> set deps. admitted (look name) s"
    "set ts = {q. \<exists>name \<in> fst ` set deps. \<exists>t. look name = Some t \<and> q = pn_path t}"
proof -
  show "set ts = {q. \<exists>name \<in> fst ` set deps. \<exists>t. look name = Some t \<and> q = pn_path t}"
    using resolve_all_Inr(2) [OF assms(2)] parse_ranges_Inr(1) [OF assms(1)] by simp
  show "\<forall>(name, s) \<in> set deps. admitted (look name) s"
  proof safe
    fix name s assume "(name, s) \<in> set deps"
    then obtain r where r: "(name, r) \<in> set d" "parseRange s = Inr r" using parse_ranges_Inr(3) [OF assms(1)] by blast
    then obtain t where "look name = Some t" "satisfies (pn_version t) r" using resolve_all_Inr(1) [OF assms(2)] by blast
    with r(2) show "admitted (look name) s" by (simp add: admitted_def)
  qed
qed

lemma range_node_Inr:
  "range_node n = Inr x \<longleftrightarrow> (\<exists>d p. x = (n, d, p) \<and> parse_ranges (pn_deps n) = Inr d
     \<and> parse_ranges (map (\<lambda>(name, p). (name, pr_range p)) (pn_peers n)) = Inr p)"
  by (auto simp: range_node_def rbind_Inr_iff)

lemma range_nodes_fst: "mapM range_node nodes = Inr rs \<Longrightarrow> map fst rs = nodes"
  by (induction nodes arbitrary: rs) (auto simp: range_node_Inr split: sum.splits)

lemma resolve_nodes_fst: "mapM (resolve_node nodes) rs = Inr g \<Longrightarrow> map fst g = map (pn_path \<circ> fst) rs"
  by (induction rs arbitrary: g) (auto simp: resolve_node_def rbind_Inr_iff split: sum.splits prod.splits)

lemma ordinary_graph:
  assumes "mapM range_node nodes = Inr rs" "mapM (resolve_node nodes) rs = Inr g" "distinct (map pn_path nodes)"
  shows "graph_edges g = ordinary_rel nodes" "graph_nodes g = pn_path ` set nodes"
    "\<forall>n \<in> set nodes. \<forall>(name, s) \<in> set (pn_deps n). admitted (resolveNearest nodes (pn_path n) name) s"
proof -
  note f = range_nodes_fst [OF assms(1)] resolve_nodes_fst [OF assms(2)]
  have fg: "map fst g = map pn_path nodes" using f by (metis map_map)
  then show "graph_nodes g = pn_path ` set nodes" by (metis graph_nodes_def list.set_map)
  have x: "\<exists>ts. (pn_path n, ts) \<in> set g \<and> (\<forall>(name, s) \<in> set (pn_deps n). admitted (resolveNearest nodes (pn_path n) name) s)
      \<and> set ts = {q. \<exists>name \<in> fst ` set (pn_deps n). \<exists>t. resolveNearest nodes (pn_path n) name = Some t \<and> q = pn_path t}"
    if n: "n \<in> set nodes" for n
  proof -
    obtain d p where r: "(n, d, p) \<in> set rs" "parse_ranges (pn_deps n) = Inr d"
      using mapM_covers [OF assms(1) n] unfolding range_node_Inr by blast
    obtain y where y: "y \<in> set g" "resolve_node nodes (n, d, p) = Inr y" using mapM_covers [OF assms(2) r(1)] by blast
    then obtain ts where t: "mapM (resolve_ordinary (resolveNearest nodes (pn_path n))) d = Inr ts" "y = (pn_path n, ts)"
      by (auto simp: resolve_node_def rbind_Inr_iff)
    from resolved_admitted [OF r(2) t(1)] y(1) t(2) show ?thesis by blast
  qed
  then show "\<forall>n \<in> set nodes. \<forall>(name, s) \<in> set (pn_deps n). admitted (resolveNearest nodes (pn_path n) name) s" by blast
  have d: "distinct (map fst g)" using fg assms(3) by simp
  have m: "map_of g p = Some ts \<longleftrightarrow> (p, ts) \<in> set g" for p ts using d by (simp add: map_of_eq_Some_iff)
  have u: "ts = us" if "(p, ts) \<in> set g" "(p, us) \<in> set g" for p ts us using that m by (metis option.inject)
  show "graph_edges g = ordinary_rel nodes"
  proof (intro set_eqI iffI; clarify)
    fix p q assume "(p, q) \<in> graph_edges g"
    then obtain ts where ts: "(p, ts) \<in> set g" "q \<in> set ts" by (auto simp: graph_edges_def m)
    then have "p \<in> fst ` set g" by force
    then obtain n where n: "n \<in> set nodes" "p = pn_path n" using fg by (metis imageE list.set_map)
    obtain us where us: "(pn_path n, us) \<in> set g"
      "set us = {q. \<exists>name \<in> fst ` set (pn_deps n). \<exists>t. resolveNearest nodes (pn_path n) name = Some t \<and> q = pn_path t}"
      using x [OF n(1)] by blast
    have "ts = us" using u [of p ts us] ts(1) us(1) n(2) by simp
    with ts(2) us(2) n show "(p, q) \<in> ordinary_rel nodes" unfolding ordinary_rel_def by blast
  next
    fix p q assume "(p, q) \<in> ordinary_rel nodes"
    then obtain n where n: "n \<in> set nodes" "p = pn_path n"
      "\<exists>name \<in> fst ` set (pn_deps n). \<exists>t. resolveNearest nodes p name = Some t \<and> q = pn_path t"
      unfolding ordinary_rel_def by blast
    then obtain us where us: "(p, us) \<in> set g" "q \<in> set us" using x [OF n(1)] by blast
    then show "(p, q) \<in> graph_edges g" by (auto simp: graph_edges_def m)
  qed
qed

lemma ordinary_targets: "ordinary_rel nodes `` X \<subseteq> pn_path ` set nodes"
  by (auto simp: ordinary_rel_def dest: resolveNearest_Some)

lemma dag_acyclic:
  assumes "assertOrdinaryDag ps g = Inr u" "graph_nodes g \<subseteq> set ps"
  shows "acyclic (graph_edges g)"
proof -
  let ?h = "restricted ps g"
  obtain V where V: "dfs_all ?h [] [] (sort_text ps) = Some V" using assms(1) by (auto simp: assertOrdinaryDag_def)
  have "settled ?h (set [])" by (simp add: settled_def)
  from dfs_sound(2) [OF V this] have s: "settled ?h (set V)" "set ps \<subseteq> set V" by (auto simp: dfs_effect_def)
  have mo: "map_of ?h p = (if p \<in> set ps then Some (filter (\<lambda>q. q \<in> set ps) (targets g p)) else None)" for p
    by (simp add: restricted_def map_of_map_restrict restrict_map_def)
  have e: "(p, q) \<in> graph_edges ?h" if "(p, q) \<in> graph_edges g" "q \<in> set ps" for p q
  proof -
    have "p \<in> graph_nodes g" "q \<in> set (targets g p)"
      using that(1) graph_edges_targets [of g p] by (auto simp: graph_edges_def dest: graph_node_Some)
    then show ?thesis using assms(2) that(2) by (auto simp: graph_edges_def mo)
  qed
  show ?thesis
    unfolding acyclic_def
  proof (intro allI notI)
    fix x assume x: "(x, x) \<in> (graph_edges g)\<^sup>+"
    have src: "p \<in> set ps" if "(p, q) \<in> graph_edges g" for p q
      using that assms(2) by (auto simp: graph_edges_def dest: graph_node_Some)
    have "(x, y) \<in> (graph_edges g)\<^sup>+ \<Longrightarrow> y \<in> set ps \<Longrightarrow> (x, y) \<in> (graph_edges ?h)\<^sup>+" for y
    proof (induction rule: trancl_induct)
      case (base y)
      then show ?case using e by blast
    next
      case (step y z)
      then show ?case using e src by (meson trancl.trancl_into_trancl)
    qed
    moreover have "x \<in> set ps" using x src by (meson tranclD)
    ultimately have "(x, x) \<in> (graph_edges ?h)\<^sup>+" "x \<in> set V" using x s(2) by auto
    with s(1) show False by (auto simp: settled_def)
  qed
qed

subsection \<open>What the search for peers keeps\<close>

text \<open>
  Between two nodes: what is required is closed under ordinary dependencies, is either processed
  or in the queue, is reached from the root, and the peers of what is processed are settled.
\<close>

definition requires :: "peer_node list \<Rightarrow> (string \<times> string) set" where
  "requires nodes = ordinary_rel nodes \<union> peer_rel nodes"

definition search_inv :: "peer_node list \<Rightarrow> graph \<Rightarrow> string set \<Rightarrow> peer_search \<Rightarrow> bool" where
  "search_inv nodes g start S \<longleftrightarrow> graph_edges g `` set (rs_required S) \<subseteq> set (rs_required S)
     \<and> distinct (rs_required S)
     \<and> set (rs_required S) = set (rs_processed S) \<union> set (rs_queue S)
     \<and> set (rs_required S) \<subseteq> (requires nodes)\<^sup>* `` start"

definition processed_ok :: "peer_node list \<Rightarrow> peer_search \<Rightarrow> string set \<Rightarrow> bool" where
  "processed_ok nodes S P \<longleftrightarrow>
     (\<forall>n \<in> set nodes. pn_path n \<in> P \<longrightarrow> list_all (peer_settled nodes n) (pn_peers n))
     \<and> peer_rel nodes `` P \<subseteq> set (rs_required S)
     \<and> set (rs_outcomes S) = {outcome_of nodes n x |n x. n \<in> set nodes \<and> pn_path n \<in> P \<and> x \<in> set (pn_peers n)}"

lemma includeRequired_inv:
  assumes "search_inv nodes g start S" "graph_edges g = ordinary_rel nodes" "p \<in> (requires nodes)\<^sup>* `` start"
  shows "search_inv nodes g start (includeRequired g p S) \<and> p \<in> set (rs_required (includeRequired g p S))
    \<and> set (rs_required S) \<subseteq> set (rs_required (includeRequired g p S))"
proof -
  let ?r = "rs_required S" let ?c = "collect g (rs_required S) [p]"
  have i: "graph_edges g `` set ?r \<subseteq> set ?r" "distinct ?r" "set ?r = set (rs_processed S) \<union> set (rs_queue S)"
    "set ?r \<subseteq> (requires nodes)\<^sup>* `` start"
    using assms(1) unfolding search_inv_def by blast+
  have "search_ok g (set ?r) (set [p])" using i(1) by (auto simp: search_ok_def)
  then have c: "set ?c = (graph_edges g)\<^sup>* `` (set ?r \<union> {p})" using collect_spec by fastforce
  obtain new where n: "?c = ?r @ new" using collect_extends by blast
  have "(ordinary_rel nodes)\<^sup>* \<subseteq> (requires nodes)\<^sup>*" unfolding requires_def by (intro rtrancl_mono) blast
  then have "set ?c \<subseteq> (requires nodes)\<^sup>* `` ((requires nodes)\<^sup>* `` start)" using c i(4) assms(2,3) by auto
  then have "set ?c \<subseteq> (requires nodes)\<^sup>* `` start" by (simp flip: relcomp_Image)
  moreover have "graph_edges g `` set ?c \<subseteq> set ?c" unfolding c by (auto intro: rtrancl_into_rtrancl)
  moreover have "distinct ?c" using i(2) by (rule distinct_collect)
  moreover have "p \<in> set ?c" "set ?r \<subseteq> set ?c" using c n by auto
  ultimately show ?thesis using i(3) n by (auto simp: search_inv_def includeRequired_def Let_def)
qed

lemma includeRequired_fields [simp]:
  "rs_processed (includeRequired g p S) = rs_processed S" "rs_outcomes (includeRequired g p S) = rs_outcomes S"
  by (simp_all add: includeRequired_def Let_def)

lemma include_all_inv:
  assumes "search_inv nodes g start S" "graph_edges g = ordinary_rel nodes" "set ps \<subseteq> (requires nodes)\<^sup>* `` start"
  shows "search_inv nodes g start (include_all g ps S) \<and> set ps \<subseteq> set (rs_required (include_all g ps S))
    \<and> rs_processed (include_all g ps S) = rs_processed S \<and> rs_outcomes (include_all g ps S) = rs_outcomes S
    \<and> set (rs_required S) \<subseteq> set (rs_required (include_all g ps S))"
  using assms
proof (induction ps arbitrary: S)
  case (Cons p ps)
  from includeRequired_inv [OF Cons.prems(1,2), of p] Cons.prems(3)
  have i: "search_inv nodes g start (includeRequired g p S)" "p \<in> set (rs_required (includeRequired g p S))"
    "set (rs_required S) \<subseteq> set (rs_required (includeRequired g p S))" by auto
  from Cons.IH [OF i(1) Cons.prems(2)] Cons.prems(3) i(2,3) show ?case by (auto simp: include_all_def)
qed (simp add: include_all_def)

lemma search_inv_outcomes [simp]: "search_inv nodes g start (S\<lparr>rs_outcomes := x\<rparr>) = search_inv nodes g start S"
  by (simp add: search_inv_def)

definition recorded :: "peer_node list \<Rightarrow> peer_node \<Rightarrow> string \<times> peer \<Rightarrow> peer_search \<Rightarrow> peer_search" where
  "recorded nodes n x S = S\<lparr>rs_outcomes := rs_outcomes S @ [outcome_of nodes n x]\<rparr>"

lemma peer_range:
  assumes "parse_ranges (map (\<lambda>(name, p). (name, pr_range p)) ps) = Inr ranges" "distinct (map fst ps)" "(name, p) \<in> set ps"
    "map_of ranges name = Some r"
  shows "parseRange (pr_range p) = Inr r"
proof -
  obtain s where "(name, s) \<in> set (map (\<lambda>(name, p). (name, pr_range p)) ps)" "parseRange s = Inr r"
    using parse_ranges_Inr(2) [OF assms(1) map_of_SomeD [OF assms(4)]] by blast
  moreover from this(1) obtain p' where "(name, p') \<in> set ps" "s = pr_range p'" by auto
  ultimately show ?thesis using assms(2,3) by (metis eq_key_imp_eq_value)
qed

lemma one_peer_Inr:
  assumes "one_peer nodes g n ranges x S = Inr S'" "x \<in> set (pn_peers n)" "distinct (map fst (pn_peers n))"
    "parse_ranges (map (\<lambda>(name, p). (name, pr_range p)) (pn_peers n)) = Inr ranges"
  shows "peer_settled nodes n x \<and> (case peer_target nodes n (fst x) of
      None \<Rightarrow> S' = recorded nodes n x S
    | Some t \<Rightarrow> S' = (if pr_optional (snd x) then recorded nodes n x S else includeRequired g (pn_path t) (recorded nodes n x S)))"
proof -
  obtain name p where x: "x = (name, p)" by (cases x) auto
  have r: "parseRange (pr_range p) = Inr r" if "map_of ranges name = Some r" for r
    using peer_range [OF assms(4,3) _ that] assms(2) x by blast
  show ?thesis
    using assms(1)
    by (auto simp: x one_peer_def rbind_Inr_iff peer_settled_def peer_target_def Let_def admitted_def recorded_def outcome_of_def r
        split: option.splits if_splits)
qed

lemma requires_peer:
  "n \<in> set nodes \<Longrightarrow> (name, p) \<in> set (pn_peers n) \<Longrightarrow> \<not> pr_optional p \<Longrightarrow> peer_target nodes n name = Some t
    \<Longrightarrow> pn_path n \<in> (requires nodes)\<^sup>* `` start \<Longrightarrow> pn_path t \<in> (requires nodes)\<^sup>* `` start"
proof -
  assume "n \<in> set nodes" "(name, p) \<in> set (pn_peers n)" "\<not> pr_optional p" "peer_target nodes n name = Some t"
  then have "(pn_path n, pn_path t) \<in> requires nodes" unfolding requires_def peer_rel_def by blast
  moreover assume "pn_path n \<in> (requires nodes)\<^sup>* `` start"
  ultimately show ?thesis by (meson Image_iff rtrancl_into_rtrancl)
qed

lemma one_peers_Inr:
  assumes "foldM (one_peer nodes g n ranges) xs S = Inr S'" "set xs \<subseteq> set (pn_peers n)" "distinct (map fst (pn_peers n))"
    "parse_ranges (map (\<lambda>(name, p). (name, pr_range p)) (pn_peers n)) = Inr ranges"
    "search_inv nodes g start S" "graph_edges g = ordinary_rel nodes" "n \<in> set nodes" "pn_path n \<in> (requires nodes)\<^sup>* `` start"
  shows "search_inv nodes g start S' \<and> set (rs_required S) \<subseteq> set (rs_required S') \<and> list_all (peer_settled nodes n) xs
    \<and> set (rs_outcomes S') = set (rs_outcomes S) \<union> outcome_of nodes n ` set xs
    \<and> (\<forall>(name, p) \<in> set xs. \<not> pr_optional p \<longrightarrow> (\<forall>t. peer_target nodes n name = Some t \<longrightarrow> pn_path t \<in> set (rs_required S')))"
  using assms(1,2,5)
proof (induction xs arbitrary: S)
  case (Cons x xs)
  obtain name p where x: "x = (name, p)" by (cases x) auto
  from Cons.prems(1) obtain T where T: "one_peer nodes g n ranges x S = Inr T" "foldM (one_peer nodes g n ranges) xs T = Inr S'"
    by (auto simp: rbind_Inr_iff)
  have m: "x \<in> set (pn_peers n)" using Cons.prems(2) by simp
  note o = one_peer_Inr [OF T(1) m assms(3,4)]
  have i: "search_inv nodes g start (recorded nodes n x S)" using Cons.prems(3) by (simp add: recorded_def)
  have t: "search_inv nodes g start T \<and> set (rs_required S) \<subseteq> set (rs_required T)
    \<and> rs_outcomes T = rs_outcomes S @ [outcome_of nodes n x]
    \<and> (\<not> pr_optional p \<longrightarrow> (\<forall>t. peer_target nodes n name = Some t \<longrightarrow> pn_path t \<in> set (rs_required T)))"
  proof (cases "peer_target nodes n name")
    case None
    with o i show ?thesis by (simp add: x recorded_def)
  next
    case (Some t)
    show ?thesis
    proof (cases "pr_optional p")
      case True
      with o i Some show ?thesis by (simp add: x recorded_def)
    next
      case False
      have "pn_path t \<in> (requires nodes)\<^sup>* `` start"
        using requires_peer [OF assms(7) m [unfolded x] False Some assms(8)] .
      from includeRequired_inv [OF i assms(6) this] o Some False show ?thesis by (simp add: x recorded_def)
    qed
  qed
  from Cons.IH [OF T(2)] Cons.prems(2) t have u: "search_inv nodes g start S'" "set (rs_required T) \<subseteq> set (rs_required S')"
    "list_all (peer_settled nodes n) xs" "set (rs_outcomes S') = set (rs_outcomes T) \<union> outcome_of nodes n ` set xs"
    "\<forall>(name, p) \<in> set xs. \<not> pr_optional p \<longrightarrow> (\<forall>t. peer_target nodes n name = Some t \<longrightarrow> pn_path t \<in> set (rs_required S'))"
    by auto
  show ?case using u t o by (auto simp: x)
qed simp

text \<open>A graph of nodes with their parsed ranges and their resolved dependencies.\<close>

definition graph_ready :: "peer_node list \<Rightarrow> ranged list \<Rightarrow> graph \<Rightarrow> bool" where
  "graph_ready nodes rs g \<longleftrightarrow> mapM range_node nodes = Inr rs \<and> graph_edges g = ordinary_rel nodes
     \<and> distinct (map pn_path nodes) \<and> (\<forall>n \<in> set nodes. distinct (map fst (pn_peers n)))"

lemma find_ranged_Some:
  assumes "find_ranged rs p = Some (n, d, ranges)" "mapM range_node nodes = Inr rs"
  shows "n \<in> set nodes \<and> pn_path n = p \<and> parse_ranges (map (\<lambda>(name, p). (name, pr_range p)) (pn_peers n)) = Inr ranges"
proof -
  have m: "(n, d, ranges) \<in> set rs" "pn_path n = p" using assms(1) by (auto simp: find_ranged_def dest!: map_of_SomeD)
  from mapM_results [OF assms(2) m(1)] m show ?thesis unfolding range_node_Inr by auto
qed

lemma process_inv:
  assumes "graph_ready nodes rs g" "search_inv nodes g start S" "sort_text (rs_queue S) = p # q"
    "process_node rs g p (S\<lparr>rs_queue := q\<rparr>) = Inr S'" "processed_ok nodes S (set (rs_processed S))"
  shows "search_inv nodes g start S' \<and> processed_ok nodes S' (set (rs_processed S')) \<and> set (rs_required S) \<subseteq> set (rs_required S')"
proof -
  let ?S = "S\<lparr>rs_queue := q, rs_processed := rs_processed S @ [p]\<rparr>"
  have sq: "set (rs_queue S) = insert p (set q)" using arg_cong [OF assms(3), of set] by simp
  have i: "search_inv nodes g start ?S" using assms(2) sq by (auto simp: search_inv_def)
  have pr: "p \<in> (requires nodes)\<^sup>* `` start" using assms(2) sq by (auto simp: search_inv_def)
  have f: "map fst rs = nodes" using assms(1) range_nodes_fst by (simp add: graph_ready_def)
  have P: "set (rs_processed S') = insert p (set (rs_processed S))" using process_frame [OF assms(4)] by simp
  show ?thesis
  proof (cases "find_ranged rs p")
    case None
    then have S': "S' = ?S" using assms(4) by (simp add: process_node_def Let_def)
    have no: "n \<in> set nodes \<Longrightarrow> pn_path n \<noteq> p" for n using None f by (auto simp: find_ranged_None)
    then have "peer_rel nodes `` insert p X = peer_rel nodes `` X" for X by (auto simp: peer_rel_def)
    with no i assms(5) show ?thesis by (auto simp: S' processed_ok_def)
  next
    case (Some r)
    obtain n d ranges where r: "r = (n, d, ranges)" by (cases r) auto
    have n: "n \<in> set nodes" "pn_path n = p" "parse_ranges (map (\<lambda>(name, p). (name, pr_range p)) (pn_peers n)) = Inr ranges"
      using find_ranged_Some [OF Some [unfolded r]] assms(1) by (auto simp: graph_ready_def)
    have run: "foldM (one_peer nodes g n ranges) (pn_peers n) ?S = Inr S'"
      using assms(4) Some r f by (simp add: process_node_def Let_def)
    have "pn_path n \<in> (requires nodes)\<^sup>* `` start" using pr n(2) by simp
    from one_peers_Inr [OF run subset_refl _ n(3) i _ n(1) this] assms(1) n(1)
    have o: "search_inv nodes g start S'" "set (rs_required S) \<subseteq> set (rs_required S')" "list_all (peer_settled nodes n) (pn_peers n)"
      "set (rs_outcomes S') = set (rs_outcomes S) \<union> outcome_of nodes n ` set (pn_peers n)"
      "\<forall>(name, p) \<in> set (pn_peers n). \<not> pr_optional p \<longrightarrow> (\<forall>t. peer_target nodes n name = Some t \<longrightarrow> pn_path t \<in> set (rs_required S'))"
      by (auto simp: graph_ready_def)
    have u: "m = n" if "m \<in> set nodes" "pn_path m = p" for m
      using that n assms(1) by (auto simp: graph_ready_def distinct_map dest: inj_onD)
    have "peer_rel nodes `` {p} \<subseteq> set (rs_required S')"
      using o(5) u by (fastforce simp: peer_rel_def)
    then have "peer_rel nodes `` insert p (set (rs_processed S)) \<subseteq> set (rs_required S')"
      using assms(5) o(2) unfolding processed_ok_def by blast
    moreover have "set (rs_outcomes S') = {outcome_of nodes m x |m x. m \<in> set nodes
        \<and> pn_path m \<in> insert p (set (rs_processed S)) \<and> x \<in> set (pn_peers m)}"
    proof -
      have "{outcome_of nodes m x |m x. m \<in> set nodes \<and> pn_path m \<in> insert p A \<and> x \<in> set (pn_peers m)}
          = {outcome_of nodes m x |m x. m \<in> set nodes \<and> pn_path m \<in> A \<and> x \<in> set (pn_peers m)} \<union> outcome_of nodes n ` set (pn_peers n)" for A
        using u n(1,2) by blast
      moreover have "set (rs_outcomes S) = {outcome_of nodes m x |m x. m \<in> set nodes \<and> pn_path m \<in> set (rs_processed S) \<and> x \<in> set (pn_peers m)}"
        using assms(5) by (simp add: processed_ok_def)
      ultimately show ?thesis using o(4) by simp
    qed
    moreover have "\<forall>m \<in> set nodes. pn_path m \<in> insert p (set (rs_processed S)) \<longrightarrow> list_all (peer_settled nodes m) (pn_peers m)"
      using assms(5) o(3) u unfolding processed_ok_def by blast
    ultimately show ?thesis using o(1,2) by (simp add: processed_ok_def P)
  qed
qed

lemma run_queue_inv:
  assumes "run_queue rs g S = Inr S'" "graph_ready nodes rs g" "search_inv nodes g start S" "processed_ok nodes S (set (rs_processed S))"
  shows "search_inv nodes g start S' \<and> processed_ok nodes S' (set (rs_required S')) \<and> set (rs_required S) \<subseteq> set (rs_required S')"
  using assms
proof (induction rs g S rule: run_queue.induct)
  case (1 rs g S)
  show ?case
  proof (cases "sort_text (rs_queue S)")
    case Nil
    then have "rs_queue S = []" by (simp add: sort_text_def)
    moreover have "S' = S" using "1.prems"(1) Nil by (simp add: run_queue.simps [of rs g S])
    moreover have "set (rs_required S) = set (rs_processed S)"
      using "1.prems"(3) \<open>rs_queue S = []\<close> by (simp add: search_inv_def)
    ultimately show ?thesis using "1.prems"(3,4) by simp
  next
    case (Cons p q)
    have sq: "set (rs_queue S) = insert p (set q)" using arg_cong [OF Cons, of set] by simp
    show ?thesis
    proof (cases "p \<in> set (rs_processed S)")
      case True
      have "search_inv nodes g start (S\<lparr>rs_queue := q\<rparr>)" using "1.prems"(3) sq True by (auto simp: search_inv_def)
      moreover have "processed_ok nodes (S\<lparr>rs_queue := q\<rparr>) (set (rs_processed (S\<lparr>rs_queue := q\<rparr>)))"
        using "1.prems"(4) by (simp add: processed_ok_def)
      moreover have "run_queue rs g (S\<lparr>rs_queue := q\<rparr>) = Inr S'"
        using "1.prems"(1) Cons True by (simp add: run_queue.simps [of rs g S])
      ultimately show ?thesis using "1.IH"(1) [OF Cons True _ "1.prems"(2)] by simp
    next
      case False
      then obtain T where T: "process_node rs g p (S\<lparr>rs_queue := q\<rparr>) = Inr T" "run_queue rs g T = Inr S'"
        using "1.prems"(1) Cons by (auto simp: run_queue.simps [of rs g S] rbind_Inr_iff)
      note i = process_inv [OF "1.prems"(2,3) Cons T(1) "1.prems"(4)]
      then show ?thesis using "1.IH"(2) [OF Cons False T(1) T(2) "1.prems"(2)] by blast
    qed
  qed
qed

subsection \<open>What an accepted graph is\<close>

text \<open>
  A graph is consistent when every dependency of the root and of a node, and every peer, is
  settled by the node it resolves to; ordinary dependencies have no cycle; the root requires
  every node; and a node marked as a peer is one that ordinary dependencies do not reach.
\<close>

definition role_consistent :: "(string \<times> string) list \<Rightarrow> peer_node list \<Rightarrow> peer_node \<Rightarrow> bool" where
  "role_consistent root nodes n \<longleftrightarrow> (\<forall>b. pn_peerFlag n = Some b \<longrightarrow>
     b = (pn_path n \<notin> (ordinary_rel nodes)\<^sup>* `` root_paths root nodes))"

definition ranges_parse :: "peer_node \<Rightarrow> bool" where
  "ranges_parse n \<longleftrightarrow> (\<forall>(name, p) \<in> set (pn_peers n). \<exists>r. parseRange (pr_range p) = Inr r)"

definition consistent_graph :: "(string \<times> string) list \<Rightarrow> peer_node list \<Rightarrow> bool" where
  "consistent_graph root nodes \<longleftrightarrow>
     (\<forall>(name, s) \<in> set root. admitted (node_at nodes (childPath [] name)) s)
     \<and> (\<forall>n \<in> set nodes. \<forall>(name, s) \<in> set (pn_deps n). admitted (resolveNearest nodes (pn_path n) name) s)
     \<and> (\<forall>n \<in> set nodes. ranges_parse n \<and> list_all (peer_settled nodes n) (pn_peers n) \<and> role_consistent root nodes n)
     \<and> acyclic (ordinary_rel nodes) \<and> (requires nodes)\<^sup>* `` root_paths root nodes = pn_path ` set nodes"

lemma requires_paths: "(requires nodes)\<^sup>* `` root_paths root nodes \<subseteq> pn_path ` set nodes"
proof -
  have "root_paths root nodes \<subseteq> pn_path ` set nodes" by (auto simp: root_paths_def dest: node_at_Some)
  moreover have "requires nodes `` (pn_path ` set nodes) \<subseteq> pn_path ` set nodes"
    using ordinary_targets [of nodes] by (auto simp: requires_def peer_rel_def peer_target_def dest: resolveNearest_Some)
  ultimately show ?thesis using Image_closed_trancl by blast
qed

text \<open>What the searches have found when they are done.\<close>

lemma production_found:
  assumes "graph_ready nodes rs g" "set ts = root_paths root nodes"
  shows "set (closure g [] (sort_text ts)) = (ordinary_rel nodes)\<^sup>* `` root_paths root nodes"
  using closure_spec [of g "[]" "sort_text ts"] assms by (simp add: search_ok_def graph_ready_def)

lemma start_inv:
  assumes "graph_ready nodes rs g" "set ps = (ordinary_rel nodes)\<^sup>* `` start"
  shows "search_inv nodes g start (start_search g ps) \<and> start \<subseteq> set (rs_required (start_search g ps))
    \<and> processed_ok nodes (start_search g ps) (set (rs_processed (start_search g ps)))"
proof -
  have "(ordinary_rel nodes)\<^sup>* \<subseteq> (requires nodes)\<^sup>*" unfolding requires_def by (intro rtrancl_mono) blast
  then have "set ps \<subseteq> (requires nodes)\<^sup>* `` start" unfolding assms(2) by blast
  moreover have "search_inv nodes g start \<lparr>rs_required = [], rs_queue = [], rs_processed = [], rs_outcomes = []\<rparr>"
    by (simp add: search_inv_def)
  moreover have "graph_edges g = ordinary_rel nodes" using assms(1) by (simp add: graph_ready_def)
  moreover have "start \<subseteq> set ps" unfolding assms(2) by blast
  ultimately show ?thesis
    using include_all_inv [of nodes g start "\<lparr>rs_required = [], rs_queue = [], rs_processed = [], rs_outcomes = []\<rparr>" ps]
    by (auto simp: start_search_def processed_ok_def)
qed

lemma required_found:
  assumes "graph_ready nodes rs g" "set ps = (ordinary_rel nodes)\<^sup>* `` start" "run_queue rs g (start_search g ps) = Inr S"
  shows "set (rs_required S) = (requires nodes)\<^sup>* `` start \<and> distinct (rs_required S) \<and> processed_ok nodes S (set (rs_required S))"
proof -
  note i = start_inv [OF assms(1,2)]
  with run_queue_inv [OF assms(3,1)] have f: "search_inv nodes g start S" "processed_ok nodes S (set (rs_required S))"
    "start \<subseteq> set (rs_required S)" by blast+
  have inv: "graph_edges g `` set (rs_required S) \<subseteq> set (rs_required S)" "distinct (rs_required S)"
    "set (rs_required S) \<subseteq> (requires nodes)\<^sup>* `` start"
    using f(1) unfolding search_inv_def by blast+
  moreover have "peer_rel nodes `` set (rs_required S) \<subseteq> set (rs_required S)" using f(2) by (simp add: processed_ok_def)
  ultimately have closed: "requires nodes `` set (rs_required S) \<subseteq> set (rs_required S)"
    unfolding requires_def Un_Image using assms(1) by (simp add: graph_ready_def)
  have "(requires nodes)\<^sup>* `` start \<subseteq> set (rs_required S)" using f(3) Image_closed_trancl [OF closed] by blast
  then show ?thesis using inv f(2) by blast
qed

subsection \<open>A consistent graph is accepted\<close>

lemma parse_ranges_total: "(\<And>name s. (name, s) \<in> set deps \<Longrightarrow> \<exists>r. parseRange s = Inr r) \<Longrightarrow> \<exists>d. parse_ranges deps = Inr d"
  unfolding parse_ranges_def by (intro mapM_total) (fastforce simp: by_name_def rbind_Inr_iff)

lemma resolve_total:
  assumes "parse_ranges deps = Inr d" "\<forall>(name, s) \<in> set deps. admitted (look name) s"
  shows "\<exists>ts. mapM (resolve_ordinary look) d = Inr ts"
proof (rule mapM_total)
  fix x assume x: "x \<in> set d"
  obtain name r where n: "x = (name, r)" by (cases x) auto
  obtain s where s: "(name, s) \<in> set deps" "parseRange s = Inr r" using parse_ranges_Inr(2) [OF assms(1)] x n by blast
  then have "admitted (look name) s" using assms(2) by auto
  with s(2) show "\<exists>y. resolve_ordinary look x = Inr y" by (auto simp: n admitted_def resolve_ordinary_def)
qed

lemma dag_total:
  assumes "acyclic (graph_edges g)"
  shows "\<exists>u. assertOrdinaryDag ps g = Inr u"
proof -
  let ?h = "restricted ps g"
  have mo: "map_of ?h p = (if p \<in> set ps then Some (filter (\<lambda>q. q \<in> set ps) (targets g p)) else None)" for p
    by (simp add: restricted_def map_of_map_restrict restrict_map_def)
  have "graph_edges ?h \<subseteq> graph_edges g"
  proof clarify
    fix p q assume "(p, q) \<in> graph_edges ?h"
    then have "q \<in> set (targets g p)" by (auto simp: graph_edges_def mo split: if_splits)
    then show "(p, q) \<in> graph_edges g" using graph_edges_targets [of g p] by blast
  qed
  then have ac: "acyclic (graph_edges ?h)" by (rule acyclic_subset [OF assms])
  have nodes: "graph_nodes ?h = set ps" by (auto simp: graph_nodes_def restricted_def image_image)
  have "graph_edges ?h `` set ps \<subseteq> set ps" by (auto simp: graph_edges_def mo split: if_splits)
  then have "(graph_edges ?h)\<^sup>* `` set (sort_text ps) \<subseteq> graph_nodes ?h - set []"
    using Image_closed_trancl [of "graph_edges ?h" "set ps"] nodes by simp
  from dfs_complete(2) [OF ac this, of "[]"] show ?thesis by (auto simp: assertOrdinaryDag_def)
qed

lemma one_peer_total:
  assumes "peer_settled nodes n x" "x \<in> set (pn_peers n)" "distinct (map fst (pn_peers n))"
    "parse_ranges (map (\<lambda>(name, p). (name, pr_range p)) (pn_peers n)) = Inr ranges"
  shows "\<exists>S'. one_peer nodes g n ranges x S = Inr S'"
proof -
  obtain name p where x: "x = (name, p)" by (cases x) auto
  have "name \<in> fst ` set ranges" using parse_ranges_Inr(1) [OF assms(4)] assms(2) x by force
  then obtain r where r: "map_of ranges name = Some r" by (metis map_of_eq_None_iff not_None_eq)
  have p: "parseRange (pr_range p) = Inr r" using peer_range [OF assms(4,3) _ r] assms(2) x by blast
  show ?thesis
    using assms(1) r p
    by (auto simp: x one_peer_def peer_settled_def peer_target_def admitted_def Let_def split: option.splits)
qed

lemma one_peers_total:
  assumes "list_all (peer_settled nodes n) xs" "set xs \<subseteq> set (pn_peers n)" "distinct (map fst (pn_peers n))"
    "parse_ranges (map (\<lambda>(name, p). (name, pr_range p)) (pn_peers n)) = Inr ranges"
  shows "\<exists>S'. foldM (one_peer nodes g n ranges) xs S = Inr S'"
  using assms(1,2)
proof (induction xs arbitrary: S)
  case (Cons x xs)
  have "peer_settled nodes n x" "x \<in> set (pn_peers n)" using Cons.prems by simp_all
  then obtain T where "one_peer nodes g n ranges x S = Inr T"
    using one_peer_total [OF _ _ assms(3,4)] by blast
  with Cons show ?case by auto
qed simp

lemma process_total:
  assumes "graph_ready nodes rs g" "\<forall>n \<in> set nodes. list_all (peer_settled nodes n) (pn_peers n)"
  shows "\<exists>S'. process_node rs g p S = Inr S'"
proof (cases "find_ranged rs p")
  case (Some r)
  obtain n d ranges where r: "r = (n, d, ranges)" by (cases r) auto
  have f: "map fst rs = nodes" using assms(1) range_nodes_fst by (simp add: graph_ready_def)
  have "n \<in> set nodes \<and> parse_ranges (map (\<lambda>(name, p). (name, pr_range p)) (pn_peers n)) = Inr ranges"
    using find_ranged_Some [OF Some [unfolded r]] assms(1) by (auto simp: graph_ready_def)
  then show ?thesis
    using one_peers_total [of nodes n "pn_peers n" ranges] assms Some r f
    by (simp add: process_node_def Let_def graph_ready_def)
qed (simp add: process_node_def Let_def)

lemma run_queue_total:
  assumes "graph_ready nodes rs g" "\<forall>n \<in> set nodes. list_all (peer_settled nodes n) (pn_peers n)"
  shows "\<exists>S'. run_queue rs g S = Inr S'"
  using assms
proof (induction rs g S rule: run_queue.induct)
  case (1 rs g S)
  show ?case
  proof (cases "sort_text (rs_queue S)")
    case (Cons p q)
    obtain T where T: "process_node rs g p (S\<lparr>rs_queue := q\<rparr>) = Inr T" using process_total [OF "1.prems"] by blast
    show ?thesis
    proof (cases "p \<in> set (rs_processed S)")
      case True
      with "1.IH"(1) [OF Cons True "1.prems"] Cons show ?thesis by (simp add: run_queue.simps [of rs g S])
    next
      case False
      with "1.IH"(2) [OF Cons False T "1.prems"] Cons T show ?thesis by (simp add: run_queue.simps [of rs g S])
    qed
  qed (simp add: run_queue.simps [of rs g S])
qed

text \<open>The steps of an analysis that succeeds.\<close>

definition analysis_run :: "(string \<times> string) list \<Rightarrow> peer_node list \<Rightarrow> ranged list \<Rightarrow> graph \<Rightarrow> string list \<Rightarrow> peer_search \<Rightarrow> bool" where
  "analysis_run root nodes rs g ts S \<longleftrightarrow> (\<exists>d. parse_ranges root = Inr d
     \<and> mapM (resolve_ordinary (\<lambda>name. node_at nodes (childPath [] name))) d = Inr ts)
   \<and> mapM range_node nodes = Inr rs \<and> mapM (resolve_node nodes) rs = Inr g
   \<and> run_queue rs g (start_search g (closure g [] (sort_text ts))) = Inr S"

definition run_accepted :: "peer_node list \<Rightarrow> graph \<Rightarrow> string list \<Rightarrow> string list \<Rightarrow> bool" where
  "run_accepted nodes g production required \<longleftrightarrow>
     assertOrdinaryDag production g = Inr () \<and> assertOrdinaryDag required g = Inr ()
     \<and> length required = length nodes \<and> list_all (role_ok required production) nodes"

definition analysis_result :: "graph \<Rightarrow> string list \<Rightarrow> peer_search \<Rightarrow> peer_analysis" where
  "analysis_result g ts S = \<lparr>pa_production = sort_text (closure g [] (sort_text ts)),
     pa_required = sort_text (rs_required S), pa_outcomes = isort outcome_lt (rs_outcomes S)\<rparr>"

lemma analyse_graph_Inr:
  "analyse_graph root nodes = Inr A \<longleftrightarrow> (\<exists>rs g ts S. analysis_run root nodes rs g ts S
     \<and> run_accepted nodes g (closure g [] (sort_text ts)) (rs_required S) \<and> A = analysis_result g ts S)"
  by (auto simp: analyse_graph_def rbind_Inr_iff Let_def analysis_run_def run_accepted_def analysis_result_def assertOrdinaryDag_def)

definition distinct_graph :: "peer_node list \<Rightarrow> bool" where
  "distinct_graph nodes \<longleftrightarrow> distinct (map pn_path nodes) \<and> (\<forall>n \<in> set nodes. distinct (map fst (pn_peers n)))"

text \<open>What the searches of a run hold.\<close>

lemma run_found:
  assumes "analysis_run root nodes rs g ts S" "distinct_graph nodes"
  shows "set (closure g [] (sort_text ts)) = (ordinary_rel nodes)\<^sup>* `` root_paths root nodes"
    "set (rs_required S) = (requires nodes)\<^sup>* `` root_paths root nodes" "distinct (rs_required S)"
    "processed_ok nodes S (set (rs_required S))" "graph_edges g = ordinary_rel nodes" "graph_nodes g = pn_path ` set nodes"
    "\<forall>(name, s) \<in> set root. admitted (node_at nodes (childPath [] name)) s"
    "\<forall>n \<in> set nodes. \<forall>(name, s) \<in> set (pn_deps n). admitted (resolveNearest nodes (pn_path n) name) s"
proof -
  obtain d where r: "parse_ranges root = Inr d" "mapM (resolve_ordinary (\<lambda>name. node_at nodes (childPath [] name))) d = Inr ts"
    and n: "mapM range_node nodes = Inr rs" "mapM (resolve_node nodes) rs = Inr g"
    and q: "run_queue rs g (start_search g (closure g [] (sort_text ts))) = Inr S"
    using assms(1) unfolding analysis_run_def by blast
  have ds: "distinct (map pn_path nodes)" using assms(2) by (simp add: distinct_graph_def)
  note o = ordinary_graph [OF n ds]
  have ready: "graph_ready nodes rs g" using n(1) o(1) assms(2) by (simp add: graph_ready_def distinct_graph_def)
  have "set ts = root_paths root nodes" using resolved_admitted(2) [OF r] by (simp add: root_paths_def)
  from production_found [OF ready this]
  show pr: "set (closure g [] (sort_text ts)) = (ordinary_rel nodes)\<^sup>* `` root_paths root nodes" .
  from required_found [OF ready pr q]
  show "set (rs_required S) = (requires nodes)\<^sup>* `` root_paths root nodes" "distinct (rs_required S)"
    "processed_ok nodes S (set (rs_required S))" by blast+
  show "graph_edges g = ordinary_rel nodes" "graph_nodes g = pn_path ` set nodes"
    "\<forall>n \<in> set nodes. \<forall>(name, s) \<in> set (pn_deps n). admitted (resolveNearest nodes (pn_path n) name) s" by (fact o)+
  show "\<forall>(name, s) \<in> set root. admitted (node_at nodes (childPath [] name)) s" by (rule resolved_admitted(1) [OF r])
qed

lemma ranges_parsed:
  assumes "mapM range_node nodes = Inr rs"
  shows "\<forall>n \<in> set nodes. ranges_parse n"
proof
  fix n assume "n \<in> set nodes"
  then obtain p where p: "parse_ranges (map (\<lambda>(name, p). (name, pr_range p)) (pn_peers n)) = Inr p"
    using mapM_covers [OF assms] unfolding range_node_Inr by blast
  show "ranges_parse n"
    unfolding ranges_parse_def using parse_ranges_Inr(3) [OF p] by fastforce
qed

lemma analysis_sound:
  assumes run: "analysis_run root nodes rs g ts S" and acc: "run_accepted nodes g (closure g [] (sort_text ts)) (rs_required S)"
    and d: "distinct_graph nodes"
  shows "consistent_graph root nodes"
    "set (rs_required S) = pn_path ` set nodes"
    "set (rs_outcomes S) = {outcome_of nodes n x |n x. n \<in> set nodes \<and> x \<in> set (pn_peers n)}"
proof -
  note f = run_found [OF run d]
  have c: "card (set (rs_required S)) = card (pn_path ` set nodes)"
    using acc d f(3) by (simp add: run_accepted_def distinct_graph_def distinct_card card_image distinct_map)
  have sub: "set (rs_required S) \<subseteq> pn_path ` set nodes" using requires_paths f(2) by simp
  show req: "set (rs_required S) = pn_path ` set nodes"
    using card_subset_eq [OF _ sub c] by simp
  have p: "processed_ok nodes S (pn_path ` set nodes)" using f(4) req by simp
  show "set (rs_outcomes S) = {outcome_of nodes n x |n x. n \<in> set nodes \<and> x \<in> set (pn_peers n)}"
    using p by (auto simp: processed_ok_def)
  have "assertOrdinaryDag (rs_required S) g = Inr ()" using acc by (simp add: run_accepted_def)
  from dag_acyclic [OF this] req f(5,6) have a: "acyclic (ordinary_rel nodes)" by simp
  have role: "role_consistent root nodes n" if n: "n \<in> set nodes" for n
  proof -
    have "role_ok (rs_required S) (closure g [] (sort_text ts)) n" using acc n by (auto simp: run_accepted_def list_all_iff)
    then show ?thesis using n req f(1) by (auto simp: role_ok_def role_consistent_def)
  qed
  have rp: "\<forall>n \<in> set nodes. ranges_parse n" using run ranges_parsed by (auto simp: analysis_run_def)
  have st: "\<forall>n \<in> set nodes. list_all (peer_settled nodes n) (pn_peers n)" using p by (simp add: processed_ok_def)
  have rq: "(requires nodes)\<^sup>* `` root_paths root nodes = pn_path ` set nodes" using f(2) req by simp
  show "consistent_graph root nodes"
    unfolding consistent_graph_def using f(7,8) rp st role a rq by blast
qed

lemma analysis_complete:
  assumes "consistent_graph root nodes" "distinct_graph nodes"
  shows "\<exists>A. analyse_graph root nodes = Inr A"
proof -
  have c: "\<forall>(name, s) \<in> set root. admitted (node_at nodes (childPath [] name)) s"
    "\<And>n. n \<in> set nodes \<Longrightarrow> \<forall>(name, s) \<in> set (pn_deps n). admitted (resolveNearest nodes (pn_path n) name) s"
    "\<And>n. n \<in> set nodes \<Longrightarrow> ranges_parse n" "\<forall>n \<in> set nodes. list_all (peer_settled nodes n) (pn_peers n)"
    "\<And>n. n \<in> set nodes \<Longrightarrow> role_consistent root nodes n" "acyclic (ordinary_rel nodes)"
    "(requires nodes)\<^sup>* `` root_paths root nodes = pn_path ` set nodes"
    using assms(1) unfolding consistent_graph_def by blast+
  have parses: "\<exists>d. parse_ranges deps = Inr d" if "\<forall>(name, s) \<in> set deps. admitted (look name) s" for deps look
    using that by (intro parse_ranges_total) (fastforce simp: admitted_def)
  obtain d where d: "parse_ranges root = Inr d" using parses [OF c(1)] by blast
  obtain ts where ts: "mapM (resolve_ordinary (\<lambda>name. node_at nodes (childPath [] name))) d = Inr ts"
    using resolve_total [OF d c(1)] by blast
  have "\<exists>x. range_node n = Inr x" if n: "n \<in> set nodes" for n
  proof -
    obtain d' where "parse_ranges (pn_deps n) = Inr d'" using parses [OF c(2) [OF n]] by blast
    moreover obtain p' where "parse_ranges (map (\<lambda>(name, p). (name, pr_range p)) (pn_peers n)) = Inr p'"
      using parse_ranges_total [of "map (\<lambda>(name, p). (name, pr_range p)) (pn_peers n)"] c(3) [OF n]
      unfolding ranges_parse_def by fastforce
    ultimately show ?thesis by (simp add: range_node_def)
  qed
  then obtain rs where rs: "mapM range_node nodes = Inr rs" using mapM_total [of nodes range_node] by blast
  have "\<exists>y. resolve_node nodes x = Inr y" if x: "x \<in> set rs" for x
  proof -
    from mapM_results [OF rs x] obtain n d' p' where n: "n \<in> set nodes" "x = (n, d', p')" "parse_ranges (pn_deps n) = Inr d'"
      unfolding range_node_Inr by blast
    then obtain us where "mapM (resolve_ordinary (resolveNearest nodes (pn_path n))) d' = Inr us"
      using resolve_total [OF n(3) c(2) [OF n(1)]] by blast
    then show ?thesis by (simp add: n(2) resolve_node_def)
  qed
  then obtain g where g: "mapM (resolve_node nodes) rs = Inr g" using mapM_total [of rs "resolve_node nodes"] by blast
  have ds: "distinct (map pn_path nodes)" using assms(2) by (simp add: distinct_graph_def)
  note o = ordinary_graph [OF rs g ds]
  have ready: "graph_ready nodes rs g" using rs o(1) assms(2) by (simp add: graph_ready_def distinct_graph_def)
  obtain S where S: "run_queue rs g (start_search g (closure g [] (sort_text ts))) = Inr S"
    using run_queue_total [OF ready c(4)] by blast
  have run: "analysis_run root nodes rs g ts S" using d ts rs g S by (auto simp: analysis_run_def)
  note f = run_found [OF run assms(2)]
  have dag: "assertOrdinaryDag ps g = Inr ()" for ps
    using dag_total [of g ps] c(6) o(1) by (auto simp: assertOrdinaryDag_def split: if_splits)
  have req: "set (rs_required S) = pn_path ` set nodes" using f(2) c(7) by simp
  have "length (rs_required S) = length nodes"
    using req f(3) ds by (metis distinct_card distinct_map card_image)
  moreover have "list_all (role_ok (rs_required S) (closure g [] (sort_text ts))) nodes"
    using c(5) req f(1) by (auto simp: list_all_iff role_ok_def role_consistent_def split: option.splits)
  ultimately have "run_accepted nodes g (closure g [] (sort_text ts)) (rs_required S)"
    using dag by (simp add: run_accepted_def)
  with run show ?thesis unfolding analyse_graph_Inr by blast
qed

lemma analyse_graph_spec:
  assumes "distinct_graph nodes"
  shows "(\<exists>A. analyse_graph root nodes = Inr A) \<longleftrightarrow> consistent_graph root nodes"
    "analyse_graph root nodes = Inr A \<Longrightarrow> set (pa_production A) = (ordinary_rel nodes)\<^sup>* `` root_paths root nodes
      \<and> set (pa_required A) = pn_path ` set nodes
      \<and> set (pa_outcomes A) = {outcome_of nodes n x |n x. n \<in> set nodes \<and> x \<in> set (pn_peers n)}"
proof -
  show "(\<exists>A. analyse_graph root nodes = Inr A) \<longleftrightarrow> consistent_graph root nodes"
    using analysis_complete [OF _ assms] analysis_sound(1) [OF _ _ assms] unfolding analyse_graph_Inr by blast
  assume "analyse_graph root nodes = Inr A"
  then obtain rs g ts S where r: "analysis_run root nodes rs g ts S"
    "run_accepted nodes g (closure g [] (sort_text ts)) (rs_required S)" "A = analysis_result g ts S"
    unfolding analyse_graph_Inr by blast
  show "set (pa_production A) = (ordinary_rel nodes)\<^sup>* `` root_paths root nodes
      \<and> set (pa_required A) = pn_path ` set nodes
      \<and> set (pa_outcomes A) = {outcome_of nodes n x |n x. n \<in> set nodes \<and> x \<in> set (pn_peers n)}"
    using analysis_sound(2,3) [OF r(1,2) assms] run_found(1) [OF r(1) assms] by (simp add: r(3) analysis_result_def)
qed


subsection \<open>What reading a graph gives\<close>

text \<open>The peers of a node have different names, since the keys of an object differ.\<close>

lemma stringMap_names: "stringMap p kvs = Inr m \<Longrightarrow> map fst m = map fst kvs"
  unfolding stringMap_def by (rule mapM_names) (auto simp: rbind_Inr_iff)

lemma read_peer_name: "read_peer deps meta x = Inr y \<Longrightarrow> fst y = fst x"
  by (auto simp: read_peer_def rbind_Inr_iff split: prod.splits if_splits)

lemma optional_record_distinct: "optional_record p v = Inr kvs \<Longrightarrow> v = JUndef \<or> json_data v \<Longrightarrow> distinct (map fst kvs)"
  by (cases v) (auto simp: optional_record_def ownRecord_def split: if_splits)

lemma peerMap_distinct:
  assumes "peerMap v meta deps = Inr ps" "v = JUndef \<or> json_data v"
  shows "distinct (map fst ps)"
proof -
  obtain kvs peers m where p: "optional_record ''peer_shape'' v = Inr kvs" "stringMap ''peer_shape'' kvs = Inr peers"
    "mapM (read_peer deps m) (by_name peers) = Inr ps"
    using assms(1) by (auto simp: peerMap_def rbind_Inr_iff)
  have "distinct (map fst peers)" using optional_record_distinct [OF p(1) assms(2)] stringMap_names [OF p(2)] by simp
  then have "distinct (map fst (by_name peers))" by (simp add: by_name_def distinct_map_isort)
  with mapM_names [OF read_peer_name p(3)] show ?thesis by simp
qed

lemma parseNode_distinct: "parseNode kvs = Inr n \<Longrightarrow> json_data (JObj kvs) \<Longrightarrow> distinct (map fst (pn_peers n))"
proof -
  assume n: "parseNode kvs = Inr n" and d: "json_data (JObj kvs)"
  obtain deps where "peerMap (own_prop kvs ''peerDependencies'') (own_prop kvs ''peerDependenciesMeta'') deps = Inr (pn_peers n)"
    using n by (auto simp: parseNode_def rbind_Inr_iff)
  then show ?thesis by (rule peerMap_distinct [OF _ own_prop_data [OF d]])
qed

lemma add_nodes_distinct:
  assumes "foldM add_node xs nodes = Inr ns" "distinct_graph nodes" "\<forall>x \<in> set xs. json_data (JObj (snd x))"
  shows "distinct_graph ns"
  using assms
proof (induction xs arbitrary: nodes)
  case (Cons x xs)
  from Cons.prems(1) obtain ms where ms: "add_node x nodes = Inr ms" "foldM add_node xs ms = Inr ns"
    by (auto simp: rbind_Inr_iff)
  then obtain n where n: "parseNode (snd x) = Inr n" "pn_path n \<notin> pn_path ` set nodes" "foldM add_node xs (nodes @ [n]) = Inr ns"
    by (auto simp: add_node_def rbind_Inr_iff)
  have "json_data (JObj (snd x))" using Cons.prems(3) by (simp del: json_data.simps)
  from parseNode_distinct [OF n(1) this] have "distinct_graph (nodes @ [n])"
    using Cons.prems(2) n(2) by (auto simp: distinct_graph_def)
  with Cons.IH [OF n(3)] Cons.prems(3) show ?case by (simp del: json_data.simps)
qed simp

lemma read_graph_distinct:
  assumes "read_graph input = Inr (root, nodes)" "json_data input"
  shows "distinct_graph nodes"
proof -
  obtain kvs raw sh ns where g: "input = JObj kvs" "own_prop kvs ''nodes'' = JArr raw" "mapM shallow_node raw = Inr sh"
    "foldM add_node (isort key_lt sh) [] = Inr ns" "nodes = isort node_lt ns"
    using assms(1) by (auto simp: read_graph_def rbind_Inr_iff Let_def ownRecord_def split: jsval.splits)
  have "json_data (JArr raw)" using own_prop_data [of kvs "''nodes''"] assms(2) g(1,2) by (simp del: json_data.simps)
  then have wr: "\<forall>x \<in> set raw. json_data x" by (simp add: list_all_iff)
  have "json_data (JObj (snd x))" if x: "x \<in> set sh" for x
  proof -
    obtain v where "v \<in> set raw" "shallow_node v = Inr x" using mapM_results [OF g(3) x] by blast
    with wr show ?thesis by (auto simp: shallow_node_def ownRecord_def rbind_Inr_iff simp del: json_data.simps split: jsval.splits)
  qed
  then have "distinct_graph ns" using add_nodes_distinct [OF g(4)] by (simp add: distinct_graph_def del: json_data.simps)
  then show "distinct_graph nodes" by (simp add: g(5) distinct_graph_def distinct_map_isort)
qed

lemma analyze_Inr:
  "analyzePeerDependencySemantics input = Inr A \<longleftrightarrow>
     (\<exists>root nodes. read_graph input = Inr (root, nodes) \<and> analyse_graph root nodes = Inr A)"
  by (auto simp: analyzePeerDependencySemantics_def rbind_Inr_iff)

lemma sorted_sort_text: "distinct xs \<Longrightarrow> sorted_wrt text_lt (sort_text xs)"
  using sorted_isort_key [of "\<lambda>x. x" xs] by (simp add: sort_text_def)

subsection \<open>Properties\<close>

text \<open>
  C25: a dependency graph is accepted exactly when it is consistent: every ordinary dependency and
  every peer that is not an absent optional one resolves to the nearest node of its name, with a
  version its range admits; no node has itself or a nested copy for a peer; ordinary dependencies
  have no cycle; the root requires every node; and the nodes marked as peers are those that
  ordinary dependencies do not reach.  In particular the searches end.
\<close>

theorem peer_semantics_iff:
  assumes "json_data input"
  shows "(\<exists>A. analyzePeerDependencySemantics input = Inr A) \<longleftrightarrow>
     (\<exists>root nodes. read_graph input = Inr (root, nodes) \<and> consistent_graph root nodes)"
  using read_graph_distinct [OF _ assms] analyse_graph_spec(1) unfolding analyze_Inr by blast

text \<open>
  What the analysis reports: the production paths are what ordinary dependencies reach from
  the root, the required paths are all nodes, both sorted, and there is one outcome for every peer
  of every node, naming the nearest node of that name above it.
\<close>

theorem peer_analysis_exact:
  assumes "json_data input" "analyzePeerDependencySemantics input = Inr A"
  shows "\<exists>root nodes. read_graph input = Inr (root, nodes)
     \<and> set (pa_production A) = (ordinary_rel nodes)\<^sup>* `` root_paths root nodes \<and> sorted_wrt text_lt (pa_production A)
     \<and> set (pa_required A) = pn_path ` set nodes \<and> sorted_wrt text_lt (pa_required A)
     \<and> set (pa_outcomes A) = {outcome_of nodes n x |n x. n \<in> set nodes \<and> x \<in> set (pn_peers n)}"
proof -
  obtain root nodes where r: "read_graph input = Inr (root, nodes)" "analyse_graph root nodes = Inr A"
    using assms(2) unfolding analyze_Inr by blast
  note d = read_graph_distinct [OF r(1) assms(1)]
  from r(2) obtain rs g ts S where a: "analysis_run root nodes rs g ts S" "A = analysis_result g ts S"
    unfolding analyse_graph_Inr by blast
  have "sorted_wrt text_lt (pa_production A)" "sorted_wrt text_lt (pa_required A)"
    using run_found(3) [OF a(1) d] by (simp_all add: a(2) analysis_result_def sorted_sort_text distinct_closure)
  with r(1) analyse_graph_spec(2) [OF d r(2)] show ?thesis by (intro exI [of _ root] exI [of _ nodes] conjI) simp_all
qed

definition demo_node :: "string \<Rightarrow> string \<Rightarrow> string \<Rightarrow> (string \<times> jsval) list \<Rightarrow> jsval" where
  "demo_node path name version extra = JObj ([(''installPath'', JStr path), (''packageName'', JStr name), (''version'', JStr version)] @ extra)"

definition demo_graph_input :: jsval where
  "demo_graph_input = JObj [(''rootDependencies'', JObj [(''a'', JStr ''^1.0.0'')]), (''nodes'', JArr [
     demo_node ''node_modules/a'' ''a'' ''1.2.0'' [(''dependencies'', JObj [(''b'', JStr ''~2.0.0'')]),
       (''peerDependencies'', JObj [(''c'', JStr ''*'')])],
     demo_node ''node_modules/b'' ''b'' ''2.0.9'' [],
     demo_node ''node_modules/c'' ''c'' ''3.0.0'' [(''peer'', JBool True)]])]"

definition demo_analysis :: peer_analysis where
  "demo_analysis = \<lparr>pa_production = [''node_modules/a'', ''node_modules/b''],
     pa_required = [''node_modules/a'', ''node_modules/b'', ''node_modules/c''],
     pa_outcomes = [\<lparr>po_from = ''node_modules/a'', po_name = ''c'', po_optional = False, po_target = Some ''node_modules/c''\<rparr>]\<rparr>"

lemma demo_graph_data: "json_data demo_graph_input"
  by code_simp

lemma demo_graph_accepted: "analyzePeerDependencySemantics demo_graph_input = Inr demo_analysis"
  by code_simp

theorem peer_semantics_iff_witness:
  "\<exists>root nodes. read_graph demo_graph_input = Inr (root, nodes) \<and> consistent_graph root nodes"
  using peer_semantics_iff [OF demo_graph_data] demo_graph_accepted by blast

theorem peer_analysis_exact_witness:
  "\<exists>root nodes. read_graph demo_graph_input = Inr (root, nodes)
     \<and> {''node_modules/a'', ''node_modules/b''} = (ordinary_rel nodes)\<^sup>* `` root_paths root nodes"
  using peer_analysis_exact [OF demo_graph_data demo_graph_accepted] by (auto simp: demo_analysis_def)

end
