(* ===== verification/ExactGraphV2.thy ===== *)
theory ExactGraphV2
  imports ExactGraph PeerSemantics
begin

section \<open>Package staging: candidates with peer dependencies\<close>

text \<open>
  Models src/stage/exact-production-graph-v2.ts: the compilation of a package lock with peer
  dependencies, which rests on the analysis of peer-dependency-semantics.ts, and the validation
  of a candidate that comes as a payload.

  Every failure is the same error.  A value is a tree of plain data, so no object contains itself
  and arrays have no holes.
\<close>

datatype v2_error = exact_candidate_v2_invalid

abbreviation must :: "bool \<Rightarrow> v2_error + unit" where
  "must ok \<equiv> ensure exact_candidate_v2_invalid ok"

subsection \<open>Plain data\<close>

text \<open>\<open>ownRecord\<close>: an object without undefined properties.\<close>

definition own_record :: "jsval \<Rightarrow> v2_error + (string \<times> jsval) list" where
  "own_record v = (case v of
     JObj kvs \<Rightarrow> rbind (must (list_all (\<lambda>p. snd p \<noteq> JUndef) kvs)) (\<lambda>_. Inr kvs)
   | _ \<Rightarrow> Inl exact_candidate_v2_invalid)"

definition exact_props :: "string list \<Rightarrow> string list \<Rightarrow> (string \<times> jsval) list \<Rightarrow> bool" where
  "exact_props required optional kvs \<longleftrightarrow> list_all (\<lambda>k. k \<in> fst ` set kvs) required
     \<and> list_all (\<lambda>p. fst p \<in> set required \<or> fst p \<in> set optional) kvs"

text \<open>
  \<open>cloneJsonEvidence\<close>: the copy is equal to the value, so only the numbers of visits and of bytes
  are computed; the numbers themselves are not counted in bytes until the canonical text is.
\<close>

definition count_bytes :: "nat \<Rightarrow> nat \<Rightarrow> nat \<times> nat \<Rightarrow> v2_error + nat \<times> nat" where
  "count_bytes limit n st = rbind (must (snd st + n \<le> limit)) (\<lambda>_. Inr (fst st, snd st + n))"

definition count_visit :: "nat \<Rightarrow> nat \<times> nat \<Rightarrow> v2_error + nat \<times> nat" where
  "count_visit depth st = rbind (must (fst st + 1 \<le> 50000 \<and> depth \<le> 64)) (\<lambda>_. Inr (fst st + 1, snd st))"

fun clone_val :: "nat \<Rightarrow> nat \<Rightarrow> jsval \<Rightarrow> nat \<times> nat \<Rightarrow> v2_error + nat \<times> nat"
and clone_items :: "nat \<Rightarrow> nat \<Rightarrow> jsval list \<Rightarrow> nat \<times> nat \<Rightarrow> v2_error + nat \<times> nat"
and clone_props :: "nat \<Rightarrow> nat \<Rightarrow> (string \<times> jsval) list \<Rightarrow> nat \<times> nat \<Rightarrow> v2_error + nat \<times> nat" where
  "clone_val limit depth v st = rbind (count_visit depth st) (\<lambda>st.
     case v of
       JNull \<Rightarrow> count_bytes limit 1 st
     | JBool b \<Rightarrow> count_bytes limit 1 st
     | JStr s \<Rightarrow> count_bytes limit (utf8_length s) st
     | JNum n \<Rightarrow> (case n of NInt i \<Rightarrow> rbind (must (\<bar>i\<bar> \<le> max_safe)) (\<lambda>_. Inr st) | _ \<Rightarrow> Inl exact_candidate_v2_invalid)
     | JArr vs \<Rightarrow> rbind (must (list_all (\<lambda>x. x \<noteq> JUndef) vs)) (\<lambda>_. clone_items limit (depth + 1) vs st)
     | JObj kvs \<Rightarrow> rbind (must (list_all (\<lambda>p. snd p \<noteq> JUndef) kvs)) (\<lambda>_. clone_props limit (depth + 1) kvs st)
     | _ \<Rightarrow> Inl exact_candidate_v2_invalid)"
| "clone_items limit depth [] st = Inr st"
| "clone_items limit depth (v # vs) st = rbind (clone_val limit depth v st) (clone_items limit depth vs)"
| "clone_props limit depth [] st = Inr st"
| "clone_props limit depth ((k, v) # kvs) st =
     rbind (count_bytes limit (utf8_length k) st) (\<lambda>st. rbind (clone_val limit depth v st) (clone_props limit depth kvs))"

definition cloneJsonEvidence :: "nat \<Rightarrow> jsval \<Rightarrow> v2_error + jsval" where
  "cloneJsonEvidence limit v = rbind (clone_val limit 0 v (0, 0)) (\<lambda>_.
     rbind (must (utf8_length (canonicalJson v) \<le> limit)) (\<lambda>_. Inr v))"

subsection \<open>The parts of a lock\<close>

definition is_v2_version :: "string \<Rightarrow> bool" where
  "is_v2_version s \<longleftrightarrow> version_parts s \<noteq> None"

record raw_node =
  rn_path :: string
  rn_name :: string
  rn_version :: string
  rn_tarballUrl :: string
  rn_integrity :: string
  rn_deps :: "(string \<times> string) list option"
  rn_peers :: "(string \<times> string) list option"
  rn_meta :: "(string \<times> bool option) list option"
  rn_peerFlag :: "jsval option"

text \<open>What is there of an optional map.\<close>

definition entries :: "'a list option \<Rightarrow> 'a list" where
  "entries m = (case m of None \<Rightarrow> [] | Some kvs \<Rightarrow> kvs)"

definition v2_string :: "string \<times> jsval \<Rightarrow> v2_error + string \<times> string" where
  "v2_string = (\<lambda>(k, v). rbind (must (isPackageName k)) (\<lambda>_.
     rbind (want_text exact_candidate_v2_invalid (\<lambda>s. utf8_length s \<le> 256) v) (\<lambda>s. Inr (k, s))))"

text \<open>\<open>stringMap\<close> and \<open>normalizeMeta\<close> on a property that may be missing.\<close>

definition v2_stringMap :: "jsval \<Rightarrow> v2_error + (string \<times> string) list option" where
  "v2_stringMap v = (if v = JUndef then Inr None
     else rbind (own_record v) (\<lambda>kvs. rbind (mapM v2_string (isort key_lt kvs)) (\<lambda>m. Inr (Some m))))"

definition v2_meta :: "(string \<times> string) list \<Rightarrow> string \<times> jsval \<Rightarrow> v2_error + string \<times> bool option" where
  "v2_meta peers = (\<lambda>(k, v). rbind (must (k \<in> fst ` set peers)) (\<lambda>_. rbind (own_record v) (\<lambda>e.
     rbind (must (exact_props [] [''optional''] e)) (\<lambda>_.
     case own_prop e ''optional'' of
       JUndef \<Rightarrow> Inr (k, None) | JBool b \<Rightarrow> Inr (k, Some b) | _ \<Rightarrow> Inl exact_candidate_v2_invalid))))"

text \<open>
  Without peers the code looks the key up in an object with a prototype, so that names such as
  \<open>constructor\<close> are found; the analysis of peers then rejects the node, as it does here.
\<close>

definition normalizeMeta :: "jsval \<Rightarrow> (string \<times> string) list \<Rightarrow> v2_error + (string \<times> bool option) list option" where
  "normalizeMeta v peers = (if v = JUndef then Inr None
     else rbind (own_record v) (\<lambda>kvs. rbind (mapM (v2_meta peers) (isort key_lt kvs)) (\<lambda>m. Inr (Some m))))"

definition nameFromPath :: "string \<Rightarrow> v2_error + string" where
  "nameFromPath path = rbind (must (isPackageName (pathName path))) (\<lambda>_. Inr (pathName path))"

definition validateTarball :: "value_url_parser \<Rightarrow> string \<Rightarrow> string \<Rightarrow> v2_error + unit" where
  "validateTarball parse registry s =
     (case parse (JStr s) of
        None \<Rightarrow> Inl exact_candidate_v2_invalid
      | Some u \<Rightarrow> must (is_plain_https u \<and> map_option ur_origin (parse (JStr registry)) = Some (ur_origin u)
          \<and> ends_with ''.tgz'' (ur_pathname u)))"

definition normalizeRegistry :: "value_url_parser \<Rightarrow> jsval \<Rightarrow> v2_error + string" where
  "normalizeRegistry parse v =
     rbind (want_text exact_candidate_v2_invalid (\<lambda>_. True) v) (\<lambda>s.
     case parse (JStr s) of
       None \<Rightarrow> Inl exact_candidate_v2_invalid
     | Some u \<Rightarrow> rbind (must (is_plain_https u \<and> ur_pathname u = ''/'')) (\<lambda>_. Inr (ur_origin u @ ''/'')))"

definition v2_limits :: "jsval \<Rightarrow> v2_error + stage_limits" where
  "v2_limits v = rbind (own_record v) (\<lambda>kvs.
     (let l = read_limits v; keys = map fst (limit_entries PACKAGE_STAGE_HARD_CEILINGS) in
     rbind (must (exact_props keys [] kvs)) (\<lambda>_.
     rbind (must (list_all (\<lambda>k. isPositiveInteger (at v k)) keys \<and> within_ceilings l)) (\<lambda>_.
     rbind (must (limits_consistent l)) (\<lambda>_. Inr l)))))"

definition v2_flags :: "string list" where
  "v2_flags = [''dev'', ''optional'', ''devOptional'', ''hasInstallScript'', ''link'', ''inBundle'']"

definition v2_fields :: "string list" where
  "v2_fields = [''optionalDependencies'', ''bundleDependencies'', ''bundledDependencies'', ''os'', ''cpu'']"

definition read_raw_node :: "value_url_parser \<Rightarrow> string \<Rightarrow> string \<Rightarrow> jsval \<Rightarrow> v2_error + raw_node" where
  "read_raw_node parse registry path v =
     rbind (own_record v) (\<lambda>kvs.
     rbind (must (list_all (\<lambda>p. fst p \<in> set record_keys) kvs)) (\<lambda>_.
     rbind (must (list_all (\<lambda>k. own_prop kvs k \<noteq> JBool True) v2_flags)) (\<lambda>_.
     rbind (must (list_all (\<lambda>k. k \<notin> fst ` set kvs) v2_fields)) (\<lambda>_.
     rbind (want_text exact_candidate_v2_invalid is_v2_version (own_prop kvs ''version'')) (\<lambda>version.
     rbind (want_text exact_candidate_v2_invalid (\<lambda>_. True) (own_prop kvs ''resolved'')) (\<lambda>resolved.
     rbind (want_text exact_candidate_v2_invalid (\<lambda>_. True) (own_prop kvs ''integrity'')) (\<lambda>integrity.
     rbind (validateTarball parse registry resolved) (\<lambda>_.
     rbind (must (parseSha512Integrity integrity \<noteq> None)) (\<lambda>_.
     rbind (nameFromPath path) (\<lambda>name.
     rbind (v2_stringMap (own_prop kvs ''dependencies'')) (\<lambda>deps.
     rbind (v2_stringMap (own_prop kvs ''peerDependencies'')) (\<lambda>peers.
     rbind (normalizeMeta (own_prop kvs ''peerDependenciesMeta'') (entries peers)) (\<lambda>meta.
     Inr \<lparr>rn_path = path, rn_name = name, rn_version = version, rn_tarballUrl = resolved, rn_integrity = integrity,
          rn_deps = deps, rn_peers = peers, rn_meta = meta, rn_peerFlag = map_of kvs ''peer''\<rparr>)))))))))))))"

definition add_raw_node :: "value_url_parser \<Rightarrow> string \<Rightarrow> stage_limits \<Rightarrow> (string \<times> jsval) list \<Rightarrow> string
    \<Rightarrow> raw_node list \<Rightarrow> v2_error + raw_node list" where
  "add_raw_node parse registry l packages path nodes =
     rbind (must (portable_path l path)) (\<lambda>_.
     rbind (must (starts_with ''node_modules/'' path \<and> locale_lower path \<notin> set (map (locale_lower \<circ> rn_path) nodes))) (\<lambda>_.
     rbind (read_raw_node parse registry path (own_prop packages path)) (\<lambda>n. Inr (nodes @ [n]))))"

definition parseLock :: "value_url_parser \<Rightarrow> string \<Rightarrow> string \<Rightarrow> string \<Rightarrow> stage_limits \<Rightarrow> jsval
    \<Rightarrow> v2_error + (string \<times> string) list \<times> raw_node list" where
  "parseLock parse topName topVersion registry l v =
     rbind (own_record v) (\<lambda>lock.
     rbind (must (exact_props lock_keys [] lock)) (\<lambda>_.
     rbind (must (is_text (own_prop lock ''name'') \<and> is_text (own_prop lock ''version'')
        \<and> own_prop lock ''lockfileVersion'' = JInt 3 \<and> own_prop lock ''requires'' = JBool True)) (\<lambda>_.
     rbind (own_record (own_prop lock ''packages'')) (\<lambda>packages.
     rbind (own_record (own_prop packages [])) (\<lambda>root.
     rbind (must (list_all (\<lambda>p. fst p \<in> {''name'', ''version'', ''dependencies'', ''engines''}) root)) (\<lambda>_.
     rbind (must (is_text (own_prop root ''name'') \<and> is_text (own_prop root ''version''))) (\<lambda>_.
     rbind (v2_stringMap (own_prop root ''dependencies'')) (\<lambda>deps.
     rbind (must (entries deps = [(topName, topVersion)])) (\<lambda>_.
     let paths = sort_text (filter (\<lambda>p. p \<noteq> []) (map fst packages)) in
     rbind (must (paths \<noteq> [] \<and> length paths \<le> sl_graphNodes l)) (\<lambda>_.
     rbind (foldM (add_raw_node parse registry l packages) paths []) (\<lambda>raws. Inr (entries deps, raws))))))))))))"

subsection \<open>The candidate\<close>

record peer_requirement =
  pq_name :: string
  pq_specifier :: string
  pq_optional :: bool
  pq_resolution :: "(string \<times> string) option"

record v2_node =
  vn_raw :: raw_node
  vn_edges :: "dependency_edge list"
  vn_peers :: "peer_requirement list"

record v2_candidate =
  vc_profileId :: string
  vc_profileVersion :: int
  vc_topName :: string
  vc_topVersion :: string
  vc_entrypoint :: string
  vc_registryOrigin :: string
  vc_nodeVersion :: string
  vc_npmVersion :: string
  vc_materializationRules :: int
  vc_archiveRules :: int
  vc_limits :: stage_limits
  vc_root :: "(string \<times> string) list"
  vc_nodes :: "v2_node list"

definition texts_json :: "(string \<times> string) list \<Rightarrow> jsval" where
  "texts_json m = JObj (map (\<lambda>(k, s). (k, JStr s)) m)"

definition meta_json :: "(string \<times> bool option) list \<Rightarrow> jsval" where
  "meta_json m = JObj (map (\<lambda>(k, b). (k, JObj (opt_prop ''optional'' (map_option JBool b)))) m)"

text \<open>What the analysis of peers is given.\<close>

definition peer_props :: "raw_node \<Rightarrow> (string \<times> jsval) list" where
  "peer_props n = [(''installPath'', JStr (rn_path n)), (''packageName'', JStr (rn_name n)), (''version'', JStr (rn_version n))]
     @ opt_prop ''dependencies'' (map_option texts_json (rn_deps n))
     @ opt_prop ''peerDependencies'' (map_option texts_json (rn_peers n))
     @ opt_prop ''peerDependenciesMeta'' (map_option meta_json (rn_meta n)) @ opt_prop ''peer'' (rn_peerFlag n)"

definition peer_node_json :: "raw_node \<Rightarrow> jsval" where
  "peer_node_json n = JObj (peer_props n)"

definition peer_input :: "(string \<times> string) list \<Rightarrow> raw_node list \<Rightarrow> jsval" where
  "peer_input root raws = JObj [(''rootDependencies'', texts_json root), (''nodes'', JArr (map peer_node_json raws))]"

definition raw_at :: "raw_node list \<Rightarrow> string \<Rightarrow> raw_node option" where
  "raw_at raws p = map_of (map (\<lambda>n. (rn_path n, n)) raws) p"

text \<open>One outcome of the analysis as a requirement of the node it is from.\<close>

definition requirement_of :: "raw_node list \<Rightarrow> peer_outcome \<Rightarrow> v2_error + string \<times> peer_requirement" where
  "requirement_of raws r =
     (case raw_at raws (po_from r) of
        None \<Rightarrow> Inl exact_candidate_v2_invalid
      | Some owner \<Rightarrow> (case map_of (entries (rn_peers owner)) (po_name r) of
            None \<Rightarrow> Inl exact_candidate_v2_invalid
          | Some s \<Rightarrow>
              rbind (case po_target r of
                  None \<Rightarrow> Inr None
                | Some p \<Rightarrow> (case raw_at raws p of None \<Rightarrow> Inl exact_candidate_v2_invalid
                    | Some t \<Rightarrow> Inr (Some (rn_path t, rn_version t)))) (\<lambda>resolution.
              Inr (po_from r, \<lparr>pq_name = po_name r, pq_specifier = s, pq_optional = po_optional r, pq_resolution = resolution\<rparr>))))"

definition v2_edge :: "raw_node list \<Rightarrow> string \<Rightarrow> string \<times> string \<Rightarrow> v2_error + dependency_edge" where
  "v2_edge raws path = (\<lambda>(name, s).
     case nearest (\<lambda>p. raw_at raws p \<noteq> None) path name of
       None \<Rightarrow> Inl exact_candidate_v2_invalid
     | Some p \<Rightarrow> Inr \<lparr>de_packageName = name, de_installPath = p, de_declaredSpecifier = s\<rparr>)"

definition requirement_lt :: "peer_requirement \<Rightarrow> peer_requirement \<Rightarrow> bool" where
  "requirement_lt a b = text_lt (pq_name a) (pq_name b)"

definition v2_graph_node :: "raw_node list \<Rightarrow> (string \<times> peer_requirement) list \<Rightarrow> raw_node \<Rightarrow> v2_error + v2_node" where
  "v2_graph_node raws required n =
     rbind (mapM (v2_edge raws (rn_path n)) (isort key_lt (entries (rn_deps n)))) (\<lambda>es.
     Inr \<lparr>vn_raw = n, vn_edges = es,
          vn_peers = isort requirement_lt (map snd (filter (\<lambda>r. fst r = rn_path n) required))\<rparr>)"

definition v2_node_lt :: "v2_node \<Rightarrow> v2_node \<Rightarrow> bool" where
  "v2_node_lt a b = text_lt (rn_path (vn_raw a)) (rn_path (vn_raw b))"

definition v2_graph :: "(string \<times> string) list \<Rightarrow> raw_node list \<Rightarrow> v2_error + v2_node list" where
  "v2_graph root raws =
     (case analyzePeerDependencySemantics (peer_input root raws) of
        Inl _ \<Rightarrow> Inl exact_candidate_v2_invalid
      | Inr analysis \<Rightarrow>
          rbind (mapM (requirement_of raws) (pa_outcomes analysis)) (\<lambda>required.
          rbind (mapM (v2_graph_node raws required) raws) (\<lambda>nodes. Inr (isort v2_node_lt nodes))))"

subsection \<open>Compilation\<close>

definition V2_CANDIDATE_BYTES :: nat where
  "V2_CANDIDATE_BYTES = 4 * 1024 * 1024"

definition PEER_SEMANTICS_V2_CONTRACT :: jsval where
  "PEER_SEMANTICS_V2_CONTRACT = JObj
     [(''candidateSchemaVersion'', JInt 2), (''peerSemanticsVersion'', JInt 1),
      (''grammar'', JStr ''stable-triplet-multi-u0020-v1''), (''resolver'', JStr ''nearest-ancestor-v1''),
      (''closure'', JStr ''ordinary-required-peer-fixed-point-v1''),
      (''limits'', JObj [(''candidateBytes'', JInt (int V2_CANDIDATE_BYTES)), (''rangeBytes'', JInt 256), (''branches'', JInt 8),
         (''atoms'', JInt 16), (''comparisons'', JInt 32), (''nodes'', JInt 256), (''pathBytes'', JInt 512),
         (''pathSegments'', JInt 32), (''peersPerNode'', JInt 64), (''peers'', JInt 2048), (''combinedRequirements'', JInt 4096)])]"

definition candidateByteLimit :: "jsval \<Rightarrow> v2_error + nat" where
  "candidateByteLimit v = (case v of
     JUndef \<Rightarrow> Inr V2_CANDIDATE_BYTES
   | JNum (NInt i) \<Rightarrow> rbind (must (0 < i \<and> i \<le> int V2_CANDIDATE_BYTES)) (\<lambda>_. Inr (nat i))
   | _ \<Rightarrow> Inl exact_candidate_v2_invalid)"

definition resolution_json :: "(string \<times> string) option \<Rightarrow> jsval" where
  "resolution_json r = JObj (case r of None \<Rightarrow> [(''kind'', JStr ''absent'')]
     | Some (p, v) \<Rightarrow> [(''kind'', JStr ''present''), (''installPath'', JStr p), (''exactVersion'', JStr v)])"

definition requirement_json :: "peer_requirement \<Rightarrow> jsval" where
  "requirement_json q = JObj [(''packageName'', JStr (pq_name q)), (''declaredSpecifier'', JStr (pq_specifier q)),
     (''optional'', JBool (pq_optional q)), (''resolution'', resolution_json (pq_resolution q))]"

definition v2_node_json :: "v2_node \<Rightarrow> jsval" where
  "v2_node_json n = (let r = vn_raw n in JObj
     ([(''installPath'', JStr (rn_path r)), (''packageName'', JStr (rn_name r)), (''exactVersion'', JStr (rn_version r)),
       (''tarballUrl'', JStr (rn_tarballUrl r)), (''sha512Integrity'', JStr (rn_integrity r)),
       (''expectedLifecycleScriptNames'', JArr []), (''dependenciesPresent'', JBool (rn_deps r \<noteq> None)),
       (''dependencyDeclarations'', texts_json (entries (rn_deps r))), (''dependencyEdges'', JArr (map edge_json (vn_edges n))),
       (''peerDependenciesPresent'', JBool (rn_peers r \<noteq> None)),
       (''peerDependencyDeclarations'', texts_json (entries (rn_peers r))),
       (''peerDependenciesMetaPresent'', JBool (rn_meta r \<noteq> None)), (''peerDependenciesMeta'', meta_json (entries (rn_meta r))),
       (''peerFlagPresent'', JBool (rn_peerFlag r \<noteq> None))]
      @ opt_prop ''peerFlag'' (rn_peerFlag r) @ [(''peerRequirements'', JArr (map requirement_json (vn_peers n)))]))"

definition v2_json :: "v2_candidate \<Rightarrow> (string \<times> jsval) list" where
  "v2_json c =
     [(''candidateSchemaVersion'', JInt 2), (''semanticContract'', PEER_SEMANTICS_V2_CONTRACT),
      (''profileId'', JStr (vc_profileId c)), (''profileVersion'', JInt (vc_profileVersion c)),
      (''topPackage'', JObj [(''name'', JStr (vc_topName c)), (''exactVersion'', JStr (vc_topVersion c)),
         (''exactEntrypointRelativePath'', JStr (vc_entrypoint c))]),
      (''registryOrigin'', JStr (vc_registryOrigin c)),
      (''runtimeConstraint'', JObj [(''os'', JStr ''darwin''), (''architecture'', JStr ''arm64''), (''nodeMajor'', JInt 26),
         (''nodeVersion'', JStr (vc_nodeVersion c)), (''npmGraphGeneratorVersion'', JStr (vc_npmVersion c)),
         (''lockfileVersion'', JInt 3)]),
      (''materializationRulesVersion'', JInt (vc_materializationRules c)), (''archiveRulesVersion'', JInt (vc_archiveRules c)),
      (''workerProtocolVersion'', JInt ARCHIVE_WORKER_PROTOCOL_VERSION), (''limits'', limits_json (vc_limits c)),
      (''rootDependencies'', texts_json (vc_root c)), (''graphNodes'', JArr (map v2_node_json (vc_nodes c)))]"

definition v2_digest :: "v2_candidate \<Rightarrow> string" where
  "v2_digest c = sha256 (canonicalJson (JObj (v2_json c)))"

definition compileUnsignedCandidateV2 :: "value_url_parser \<Rightarrow> jsval \<Rightarrow> v2_error + v2_candidate" where
  "compileUnsignedCandidateV2 parse v =
     rbind (own_record v) (\<lambda>source.
     rbind (must (exact_props input_keys [''lowerCandidateByteLimit''] source)) (\<lambda>_.
     rbind (want_text exact_candidate_v2_invalid isStageIdentifier (own_prop source ''profileId'')) (\<lambda>pid.
     rbind (want_positive exact_candidate_v2_invalid (own_prop source ''profileVersion'')) (\<lambda>pversion.
     rbind (v2_limits (own_prop source ''limits'')) (\<lambda>l.
     rbind (own_record (own_prop source ''topPackage'')) (\<lambda>top.
     rbind (must (exact_props top_keys [] top)) (\<lambda>_.
     rbind (want_text exact_candidate_v2_invalid isPackageName (own_prop top ''name'')) (\<lambda>topName.
     rbind (want_text exact_candidate_v2_invalid is_v2_version (own_prop top ''exactVersion'')) (\<lambda>topVersion.
     rbind (want_text exact_candidate_v2_invalid (portable_path l) (own_prop top ''exactEntrypointRelativePath'')) (\<lambda>entry.
     rbind (normalizeRegistry parse (own_prop source ''registryOrigin'')) (\<lambda>origin.
     rbind (own_record (own_prop source ''runtimeConstraint'')) (\<lambda>runtime.
     rbind (must (exact_props runtime_keys [] runtime)) (\<lambda>_.
     rbind (must (own_prop runtime ''os'' = JStr ''darwin'' \<and> own_prop runtime ''architecture'' = JStr ''arm64''
        \<and> own_prop runtime ''nodeMajor'' = JInt 26 \<and> own_prop runtime ''lockfileVersion'' = JInt 3)) (\<lambda>_.
     rbind (want_text exact_candidate_v2_invalid is_v2_version (own_prop runtime ''nodeVersion'')) (\<lambda>node.
     rbind (want_text exact_candidate_v2_invalid is_v2_version (own_prop runtime ''npmGraphGeneratorVersion'')) (\<lambda>npm.
     rbind (want_positive exact_candidate_v2_invalid (own_prop source ''materializationRulesVersion'')) (\<lambda>materialization.
     rbind (want_positive exact_candidate_v2_invalid (own_prop source ''archiveRulesVersion'')) (\<lambda>archive.
     rbind (must (own_prop source ''workerProtocolVersion'' = JInt ARCHIVE_WORKER_PROTOCOL_VERSION)) (\<lambda>_.
     rbind (candidateByteLimit (own_prop source ''lowerCandidateByteLimit'')) (\<lambda>limit.
     rbind (cloneJsonEvidence limit (own_prop source ''packageLock'')) (\<lambda>lock.
     rbind (parseLock parse topName topVersion origin l lock) (\<lambda>(root, raws).
     rbind (v2_graph root raws) (\<lambda>nodes.
     let c = \<lparr>vc_profileId = pid, vc_profileVersion = pversion, vc_topName = topName, vc_topVersion = topVersion,
          vc_entrypoint = entry, vc_registryOrigin = origin, vc_nodeVersion = node, vc_npmVersion = npm,
          vc_materializationRules = materialization, vc_archiveRules = archive, vc_limits = l, vc_root = root, vc_nodes = nodes\<rparr>
     in rbind (must (utf8_length (canonicalJson (JObj (v2_json c))) \<le> limit)) (\<lambda>_. Inr c))))))))))))))))))))))))"

text \<open>\<open>compile\<close> of the authority: the candidate and its digest, marked as the authority's own object.\<close>

definition v2_signed :: "v2_candidate \<times> string \<Rightarrow> jsval" where
  "v2_signed = (\<lambda>(c, d). JObj (v2_json c @ [(''candidateDigest'', JStr d)]))"

definition compile_v2 :: "value_url_parser \<Rightarrow> nat \<Rightarrow> jsval \<Rightarrow> (v2_candidate \<times> string) object list
    \<Rightarrow> v2_error + (v2_candidate \<times> string) object \<times> (v2_candidate \<times> string) object list" where
  "compile_v2 parse addr v owned =
     rbind (compileUnsignedCandidateV2 parse v) (\<lambda>c.
     rbind (candidateByteLimit (at v ''lowerCandidateByteLimit'')) (\<lambda>limit.
     rbind (must (utf8_length (canonicalJson (v2_signed (c, v2_digest c))) \<le> limit)) (\<lambda>_.
     let ob = (addr, c, v2_digest c) in Inr (ob, ob # owned))))"

definition authenticates_v2 :: "(v2_candidate \<times> string) object list \<Rightarrow> (v2_candidate \<times> string) object \<Rightarrow> bool" where
  "authenticates_v2 owned c \<longleftrightarrow> c \<in> set owned"

subsection \<open>Validation of a payload\<close>

definition candidate_keys :: "string list" where
  "candidate_keys = [''candidateSchemaVersion'', ''semanticContract'', ''profileId'', ''profileVersion'', ''topPackage'',
     ''registryOrigin'', ''runtimeConstraint'', ''materializationRulesVersion'', ''archiveRulesVersion'',
     ''workerProtocolVersion'', ''limits'', ''rootDependencies'', ''graphNodes'', ''candidateDigest'']"

definition v2_node_keys :: "string list" where
  "v2_node_keys = [''installPath'', ''packageName'', ''exactVersion'', ''tarballUrl'', ''sha512Integrity'',
     ''expectedLifecycleScriptNames'', ''dependenciesPresent'', ''dependencyDeclarations'', ''dependencyEdges'',
     ''peerDependenciesPresent'', ''peerDependencyDeclarations'', ''peerDependenciesMetaPresent'', ''peerDependenciesMeta'',
     ''peerFlagPresent'', ''peerRequirements'']"

text \<open>A property that is there if a flag says so.\<close>

definition flagged :: "(string \<times> jsval) list \<Rightarrow> string \<Rightarrow> string \<Rightarrow> string \<Rightarrow> v2_error + (string \<times> jsval) list" where
  "flagged node flag key field = (case own_prop node flag of
     JBool True \<Rightarrow> Inr [(key, own_prop node field)] | JBool False \<Rightarrow> Inr [] | _ \<Rightarrow> Inl exact_candidate_v2_invalid)"

definition retained_record :: "jsval \<Rightarrow> (string \<times> jsval) list \<Rightarrow> v2_error + (string \<times> jsval) list" where
  "retained_record v packages =
     rbind (own_record v) (\<lambda>node.
     rbind (must (exact_props v2_node_keys [''peerFlag''] node)) (\<lambda>_.
     rbind (want_text exact_candidate_v2_invalid (\<lambda>p. p \<notin> fst ` set packages) (own_prop node ''installPath'')) (\<lambda>path.
     rbind (flagged node ''dependenciesPresent'' ''dependencies'' ''dependencyDeclarations'') (\<lambda>d.
     rbind (flagged node ''peerDependenciesPresent'' ''peerDependencies'' ''peerDependencyDeclarations'') (\<lambda>p.
     rbind (flagged node ''peerDependenciesMetaPresent'' ''peerDependenciesMeta'' ''peerDependenciesMeta'') (\<lambda>m.
     rbind (flagged node ''peerFlagPresent'' ''peer'' ''peerFlag'') (\<lambda>f.
     Inr (packages @ [(path, JObj ([(''version'', own_prop node ''exactVersion''), (''resolved'', own_prop node ''tarballUrl''),
        (''integrity'', own_prop node ''sha512Integrity'')] @ d @ p @ m @ f))]))))))))"

definition retained_input :: "(string \<times> jsval) list \<Rightarrow> (string \<times> jsval) list \<Rightarrow> jsval" where
  "retained_input candidate packages = JObj
     (map (\<lambda>k. (k, own_prop candidate k)) [''profileId'', ''profileVersion'', ''topPackage'', ''registryOrigin'',
        ''runtimeConstraint'', ''materializationRulesVersion'', ''archiveRulesVersion'', ''workerProtocolVersion'', ''limits'']
      @ [(''packageLock'', JObj [(''name'', JStr ''candidate-v2''), (''version'', JStr ''0.0.0''), (''lockfileVersion'', JInt 3),
           (''requires'', JBool True), (''packages'', JObj packages)])])"

definition retained_root :: "(string \<times> jsval) list \<Rightarrow> string \<times> jsval" where
  "retained_root candidate = ([], JObj [(''name'', JStr ''candidate-v2''), (''version'', JStr ''0.0.0''),
     (''dependencies'', own_prop candidate ''rootDependencies'')])"

definition validateCandidateV2Payload :: "value_url_parser \<Rightarrow> jsval \<Rightarrow> v2_error + v2_candidate \<times> string" where
  "validateCandidateV2Payload parse v =
     rbind (rbind (cloneJsonEvidence V2_CANDIDATE_BYTES v) own_record) (\<lambda>candidate.
     rbind (must (exact_props candidate_keys [] candidate)) (\<lambda>_.
     rbind (want_text exact_candidate_v2_invalid is_hash (own_prop candidate ''candidateDigest'')) (\<lambda>digest.
     rbind (must (canonicalJson (own_prop candidate ''semanticContract'') = canonicalJson PEER_SEMANTICS_V2_CONTRACT)) (\<lambda>_.
     rbind (case own_prop candidate ''graphNodes'' of JArr vs \<Rightarrow> Inr vs | _ \<Rightarrow> Inl exact_candidate_v2_invalid) (\<lambda>nodes.
     rbind (foldM retained_record nodes [retained_root candidate]) (\<lambda>packages.
     rbind (compileUnsignedCandidateV2 parse (retained_input candidate packages)) (\<lambda>c.
     rbind (must (canonicalJson (JObj (filter (\<lambda>p. fst p \<noteq> ''candidateDigest'') candidate)) = canonicalJson (JObj (v2_json c)))) (\<lambda>_.
     rbind (must (digest = v2_digest c)) (\<lambda>_.
     Inr (c, digest))))))))))"

end
