(* ===== verification/V2Facts.thy ===== *)
theory V2Facts
  imports ExactGraphV2
begin

section \<open>What a candidate with peer dependencies is\<close>

text \<open>
  The two searches for the nearest package agree, so that the edges a candidate lists are those
  the analysis of peers has checked; and a payload that is validated is the candidate compiled
  from the declarations it retains.
\<close>

subsection \<open>The last package of a path\<close>

lemma join_append: "xs \<noteq> [] \<Longrightarrow> ys \<noteq> [] \<Longrightarrow> join_with d (xs @ ys) = join_with d xs @ d @ join_with d ys"
proof (induction d xs rule: join_with.induct)
  case (2 d w)
  then show ?case by (cases ys) simp_all
qed simp_all

text \<open>The segments of one package.\<close>

definition package_segments :: "string list \<Rightarrow> bool" where
  "package_segments w \<longleftrightarrow> (\<exists>s. w = [s] \<and> s \<noteq> []) \<or> (\<exists>s t. w = [s, t] \<and> is_scope s \<and> t \<noteq> [])"

lemma valid_segments_last:
  "valid_segments ss \<Longrightarrow> \<exists>r w. ss = r @ ''node_modules'' # w \<and> (r = [] \<or> valid_segments r) \<and> package_segments w"
proof (induction ss rule: valid_segments.induct)
  case (3 m s)
  then show ?case by (intro exI [of _ "[]"] exI [of _ "[s]"]) (simp add: package_segments_def)
next
  case (4 m s t ss)
  have m: "m = ''node_modules''" using "4.prems" by simp
  consider "s \<noteq> []" "valid_segments (t # ss)" | "is_scope s" "t \<noteq> []" "ss = []" | "is_scope s" "t \<noteq> []" "valid_segments ss"
    using "4.prems" by auto
  then show ?case
  proof cases
    case 1
    then obtain r w where r: "t # ss = r @ ''node_modules'' # w" "r = [] \<or> valid_segments r" "package_segments w"
      using "4.IH"(1) m by blast
    have "valid_segments (m # s # r)" using 1(1) r(2) m by (cases r) auto
    with r show ?thesis by (intro exI [of _ "m # s # r"] exI [of _ w]) simp
  next
    case 2
    then show ?thesis by (intro exI [of _ "[]"] exI [of _ "[s, t]"]) (simp add: package_segments_def m)
  next
    case 3
    then obtain r w where r: "ss = r @ ''node_modules'' # w" "r = [] \<or> valid_segments r" "package_segments w"
      using "4.IH"(2) m by blast
    have "valid_segments (m # s # t # r)" using 3(1,2) r(2) m by auto
    with r show ?thesis by (intro exI [of _ "m # s # t # r"] exI [of _ w]) simp
  qed
qed simp_all

lemma above_package_last: "package_segments w \<Longrightarrow> above_package (r @ ''node_modules'' # w) = Some r"
  by (auto simp: package_segments_def above_package_def is_scope_def)

abbreviation slash_modules :: string where
  "slash_modules \<equiv> ''/node_modules/''"

lemma cut_last_append: "cut_last d s = Some p \<Longrightarrow> cut_last d (q @ s) = Some (q @ p)"
  by (induction q) simp_all

lemma no_cut: "CHR ''/'' \<notin> set s \<Longrightarrow> cut_last slash_modules s = None"
  by (induction s) auto

lemma no_cut_sep:
  assumes "CHR ''/'' \<notin> set u" "cut_last slash_modules w = None" "\<not> starts_with ''node_modules/'' w"
  shows "cut_last slash_modules (u @ CHR ''/'' # w) = None"
  using assms by (induction u) auto

lemma no_start: "CHR ''/'' \<notin> set s \<Longrightarrow> \<not> starts_with ''node_modules/'' s"
  by (auto simp: starts_with_iff)

lemma cut_package:
  assumes "package_segments w" "\<forall>s \<in> set w. CHR ''/'' \<notin> set s"
  shows "cut_last slash_modules (''node_modules/'' @ join_with ''/'' w) = None"
proof -
  have "cut_last slash_modules (join_with ''/'' w) = None \<and> \<not> starts_with ''node_modules/'' (join_with ''/'' w)"
    using assms(1) unfolding package_segments_def
  proof
    assume "\<exists>s. w = [s] \<and> s \<noteq> []"
    with assms(2) show ?thesis using no_cut no_start by auto
  next
    assume "\<exists>s t. w = [s, t] \<and> is_scope s \<and> t \<noteq> []"
    then obtain s t where w: "w = [s, t]" "is_scope s" by blast
    then have "join_with ''/'' w = s @ CHR ''/'' # t" "CHR ''/'' \<notin> set s" "CHR ''/'' \<notin> set t" using assms(2) by simp_all
    with no_cut_sep [of s t] no_cut [of t] no_start [of t] w(2) show ?thesis by (cases s) (auto simp: is_scope_def)
  qed
  moreover have "CHR ''/'' \<notin> set ''node_modules''" by simp
  ultimately have "cut_last slash_modules (''node_modules'' @ CHR ''/'' # join_with ''/'' w) = None"
    using no_cut_sep by blast
  then show ?thesis by simp
qed

text \<open>A valid path without line breaks: its parent, cut off before the last package, is valid or the root.\<close>

lemma valid_path_parent:
  assumes "validPath p" "p \<noteq> []" "CHR 0x0A \<notin> set p" "CHR 0x0D \<notin> set p"
  shows "parentPath p = Some [] \<and> cut_last slash_modules p = None
    \<or> (\<exists>q. q \<noteq> [] \<and> validPath q \<and> set q \<subseteq> set p \<and> parentPath p = Some q \<and> cut_last slash_modules p = Some q)"
proof -
  let ?ss = "split_on (CHR ''/'') p"
  obtain r w where r: "?ss = r @ ''node_modules'' # w" "r = [] \<or> valid_segments r" "package_segments w"
    using valid_segments_last [of ?ss] assms(1,2) by (auto simp: validPath_def)
  have seg: "\<forall>s \<in> set ?ss. CHR ''/'' \<notin> set s" using split_on_no_sep [of _ "CHR ''/''" p] by blast
  have p: "p = join_with ''/'' (r @ ''node_modules'' # w)" using join_split [of "CHR ''/''" p] r(1) by simp
  have wn: "w \<noteq> []" using r(3) by (auto simp: package_segments_def)
  have tail: "join_with ''/'' (''node_modules'' # w) = ''node_modules/'' @ join_with ''/'' w"
    using join_append [of "[''node_modules'']" w "''/''"] wn by simp
  have cut: "cut_last slash_modules (''node_modules/'' @ join_with ''/'' w) = None"
    using r(1,3) seg by (intro cut_package) auto
  have above: "above_package ?ss = Some r" unfolding r(1) by (rule above_package_last [OF r(3)])
  show ?thesis
  proof (cases "r = []")
    case True
    then have "p = ''node_modules/'' @ join_with ''/'' w" using p tail by simp
    with cut above True assms(2) show ?thesis by (simp add: parentPath_def del: cut_last.simps)
  next
    case False
    let ?q = "join_with ''/'' r"
    have pq: "p = ?q @ slash_modules @ join_with ''/'' w"
      using p join_append [OF False, of "''node_modules'' # w" "''/''"] tail by simp
    have "cut_last slash_modules (slash_modules @ join_with ''/'' w) = Some []" using cut by simp
    then have c: "cut_last slash_modules p = Some ?q" unfolding pq using cut_last_append by fastforce
    have "split_on (CHR ''/'') ?q = r" using False seg r(1) by (intro split_join) auto
    then have v: "validPath ?q" using r(2) False by (simp add: validPath_def)
    have "?q \<noteq> []" using v r(2) False \<open>split_on (CHR ''/'') ?q = r\<close> by (cases r rule: valid_segments.cases) auto
    moreover have "set ?q \<subseteq> set p" unfolding pq by auto
    moreover have "parentPath p = Some ?q" using above assms(2-4) calculation(2) by (auto simp: parentPath_def)
    ultimately show ?thesis using v c by blast
  qed
qed

lemma root_has_no_parent [simp]: "parentPath [] = None"
  by (simp add: parentPath_def)

text \<open>The search of the compiler is the resolution of the analysis.\<close>

lemma nearest_resolve:
  assumes "validPath p" "p \<noteq> []" "CHR 0x0A \<notin> set p" "CHR 0x0D \<notin> set p"
  shows "nearest (\<lambda>q. node_at nodes q \<noteq> None) p name = map_option pn_path (resolveNearest nodes p name)"
  using assms
proof (induction "length p" arbitrary: p rule: less_induct)
  case less
  have child: "p @ ''/node_modules/'' @ name = childPath p name" using less.prems(2) by (simp add: childPath_def)
  have at: "map_option pn_path (node_at nodes q) = (if node_at nodes q = None then None else Some q)" for q
    by (cases "node_at nodes q") (auto dest: node_at_Some)
  show ?case
  proof (cases "node_at nodes (childPath p name)")
    case (Some n)
    then show ?thesis using child by (subst nearest.simps, subst resolveNearest.simps) (auto simp: Let_def dest: node_at_Some)
  next
    case None
    from valid_path_parent [OF less.prems] show ?thesis
    proof
      assume a: "parentPath p = Some [] \<and> cut_last slash_modules p = None"
      have "resolveNearest nodes [] name = node_at nodes (''node_modules/'' @ name)"
        by (subst resolveNearest.simps) (simp add: childPath_def split: option.splits)
      with None child a at show ?thesis
        by (subst nearest.simps, subst resolveNearest.simps) (simp add: Let_def)
    next
      assume "\<exists>q. q \<noteq> [] \<and> validPath q \<and> set q \<subseteq> set p \<and> parentPath p = Some q \<and> cut_last slash_modules p = Some q"
      then obtain q where q: "q \<noteq> []" "validPath q" "set q \<subseteq> set p" "parentPath p = Some q" "cut_last slash_modules p = Some q" by blast
      have "nearest (\<lambda>q. node_at nodes q \<noteq> None) q name = map_option pn_path (resolveNearest nodes q name)"
        using less.hyps [OF parentPath_less [OF q(4)] q(2,1)] less.prems(3,4) q(3) by blast
      with None child q(4,5) show ?thesis
        by (subst nearest.simps, subst resolveNearest.simps) (simp add: Let_def)
    qed
  qed
qed

subsection \<open>What the analysis reads\<close>

lemma stringMap_texts: "stringMap e (map (\<lambda>(k, s). (k, JStr s)) m) = Inr m' \<Longrightarrow> m' = m"
  unfolding stringMap_def
  by (induction m arbitrary: m') (auto simp: boundedString_def rbind_Inr_iff split: sum.splits if_splits)

lemma own_opt_prop: "own_prop (opt_prop k x @ kvs) k' = (if k = k' \<and> x \<noteq> None then the x else own_prop kvs k')"
  by (cases x) auto

lemma own_opt_prop_end: "own_prop (opt_prop k x) k' = (if k = k' \<and> x \<noteq> None then the x else JUndef)"
  by (cases x) auto

lemma peer_props_at:
  "own_prop (peer_props n) ''installPath'' = JStr (rn_path n)" "own_prop (peer_props n) ''packageName'' = JStr (rn_name n)"
  "own_prop (peer_props n) ''version'' = JStr (rn_version n)"
  "own_prop (peer_props n) ''dependencies'' = (case rn_deps n of None \<Rightarrow> JUndef | Some m \<Rightarrow> texts_json m)"
  "own_prop (peer_props n) ''peerDependencies'' = (case rn_peers n of None \<Rightarrow> JUndef | Some m \<Rightarrow> texts_json m)"
  "own_prop (peer_props n) ''peerDependenciesMeta'' = (case rn_meta n of None \<Rightarrow> JUndef | Some m \<Rightarrow> meta_json m)"
  by (cases "rn_deps n"; cases "rn_peers n"; cases "rn_meta n"; cases "rn_peerFlag n"; simp add: peer_props_def)+

text \<open>A node of the analysis and the declarations it comes from.\<close>

definition reads_raw :: "raw_node \<Rightarrow> peer_node \<Rightarrow> bool" where
  "reads_raw n m \<longleftrightarrow> pn_path m = rn_path n \<and> pn_name m = rn_name n \<and> parseVersion (rn_version n) = Inr (pn_version m)
     \<and> pn_deps m = entries (rn_deps n) \<and> validPath (rn_path n)
     \<and> map (\<lambda>(name, p). (name, pr_range p)) (pn_peers m) = by_name (entries (rn_peers n))"

lemma optional_texts:
  assumes "rbind (optional_record e (case x of None \<Rightarrow> JUndef | Some m \<Rightarrow> texts_json m)) (stringMap e) = Inr m'"
  shows "m' = entries x"
  using assms by (cases x) (auto simp: optional_record_def ownRecord_def texts_json_def entries_def stringMap_def [of e "[]"] dest: stringMap_texts)

lemma read_peer_range: "read_peer deps meta x = Inr y \<Longrightarrow> (\<lambda>(name, p). (name, pr_range p)) y = x"
  by (auto simp: read_peer_def rbind_Inr_iff split: prod.splits if_splits)

lemma mapM_image:
  assumes "\<And>x y. f x = Inr y \<Longrightarrow> g y = x" "mapM f xs = Inr ys"
  shows "map g ys = xs"
  using assms(2)
proof (induction xs arbitrary: ys)
  case (Cons x xs)
  then obtain y zs where "f x = Inr y" "mapM f xs = Inr zs" "ys = y # zs" by (auto split: sum.splits)
  with Cons.IH [of zs] assms(1) [of x y] show ?case by simp
qed simp

lemma peerMap_ranges:
  assumes "peerMap (case x of None \<Rightarrow> JUndef | Some m \<Rightarrow> texts_json m) meta deps = Inr ps"
  shows "map (\<lambda>(name, p). (name, pr_range p)) ps = by_name (entries x)"
proof -
  obtain peers m where p: "rbind (optional_record ''peer_shape'' (case x of None \<Rightarrow> JUndef | Some m \<Rightarrow> texts_json m)) (stringMap ''peer_shape'') = Inr peers"
    "mapM (read_peer deps m) (by_name peers) = Inr ps"
    using assms by (auto simp: peerMap_def rbind_Inr_iff)
  show ?thesis using mapM_image [OF read_peer_range p(2)] optional_texts [OF p(1)] by simp
qed

lemma parseNode_raw:
  assumes "parseNode (peer_props n) = Inr m"
  shows "reads_raw n m"
proof -
  from assms obtain path v deps peers where r: "path = rn_path n" "validPath path"
    "packageName (JStr (rn_name n)) = Inr (pn_name m)" "parseVersion (rn_version n) = Inr v"
    "rbind (optional_record ''shape'' (own_prop (peer_props n) ''dependencies'')) (stringMap ''shape'') = Inr deps"
    "peerMap (own_prop (peer_props n) ''peerDependencies'') (own_prop (peer_props n) ''peerDependenciesMeta'') deps = Inr peers"
    "pn_path m = path" "pn_version m = v" "pn_deps m = deps" "pn_peers m = peers"
    by (auto simp: parseNode_def rbind_Inr_iff peer_props_at boundedString_def split: if_splits)
  have "pn_name m = rn_name n" using r(3) by (auto simp: packageName_def boundedString_def split: if_splits)
  with r optional_texts [OF r(5) [unfolded peer_props_at]] peerMap_ranges [OF r(6) [unfolded peer_props_at(5)]]
  show ?thesis by (simp add: reads_raw_def)
qed

lemma add_nodes_read:
  "foldM add_node xs nodes = Inr ns \<Longrightarrow> \<exists>ms. ns = nodes @ ms \<and> list_all2 (\<lambda>x m. parseNode (snd x) = Inr m) xs ms"
proof (induction xs arbitrary: nodes)
  case (Cons x xs)
  from Cons.prems obtain ms where ms: "add_node x nodes = Inr ms" "foldM add_node xs ms = Inr ns" by (auto simp: rbind_Inr_iff)
  then obtain n where n: "parseNode (snd x) = Inr n" "ms = nodes @ [n]" by (auto simp: add_node_def rbind_Inr_iff)
  from Cons.IH [OF ms(2)] obtain ms' where "ns = ms @ ms'" "list_all2 (\<lambda>x m. parseNode (snd x) = Inr m) xs ms'" by blast
  with n show ?case by (intro exI [of _ "n # ms'"]) simp
qed simp

lemma list_all2_left: "list_all2 P xs ys \<Longrightarrow> x \<in> set xs \<Longrightarrow> \<exists>y \<in> set ys. P x y"
  by (induction xs ys rule: list_all2_induct) auto

lemma list_all2_right: "list_all2 P xs ys \<Longrightarrow> y \<in> set ys \<Longrightarrow> \<exists>x \<in> set xs. P x y"
  by (induction xs ys rule: list_all2_induct) auto

lemma read_graph_raws:
  assumes "read_graph (peer_input root raws) = Inr (root', nodes)"
  shows "root' = root" "\<forall>n \<in> set raws. \<exists>m \<in> set nodes. reads_raw n m" "\<forall>m \<in> set nodes. \<exists>n \<in> set raws. reads_raw n m"
proof -
  obtain sh ns where g: "mapM shallow_node (map peer_node_json raws) = Inr sh"
    "stringMap ''shape'' (map (\<lambda>(k, s). (k, JStr s)) root) = Inr root'"
    "foldM add_node (isort key_lt sh) [] = Inr ns" "nodes = isort node_lt ns"
    using assms unfolding read_graph_def peer_input_def Let_def rbind_Inr_iff
    by (elim exE conjE, simp add: ownRecord_def texts_json_def, hypsubst, simp)
  show "root' = root" by (rule stringMap_texts [OF g(2)])
  have sh: "shallow_node (peer_node_json n) = Inr x \<Longrightarrow> snd x = peer_props n" for n x
    by (auto simp: shallow_node_def peer_node_json_def ownRecord_def rbind_Inr_iff)
  have l: "list_all2 (\<lambda>x m. parseNode (snd x) = Inr m) (isort key_lt sh) ns" using add_nodes_read [OF g(3)] by auto
  show "\<forall>n \<in> set raws. \<exists>m \<in> set nodes. reads_raw n m"
  proof
    fix n assume "n \<in> set raws"
    then have "peer_node_json n \<in> set (map peer_node_json raws)" by simp
    from mapM_covers [OF g(1) this] obtain x where x: "x \<in> set sh" "shallow_node (peer_node_json n) = Inr x" by blast
    then obtain m where "m \<in> set ns" "parseNode (snd x) = Inr m" using list_all2_left [OF l, of x] by auto
    then have "m \<in> set nodes" "reads_raw n m" using sh [OF x(2)] parseNode_raw [of n m] g(4) by simp_all
    then show "\<exists>m \<in> set nodes. reads_raw n m" by blast
  qed
  show "\<forall>m \<in> set nodes. \<exists>n \<in> set raws. reads_raw n m"
  proof
    fix m assume "m \<in> set nodes"
    then obtain x where x: "x \<in> set sh" "parseNode (snd x) = Inr m" using list_all2_right [OF l, of m] g(4) by auto
    then obtain n where "n \<in> set raws" "shallow_node (peer_node_json n) = Inr x" using mapM_results [OF g(1) x(1)] by auto
    then have "n \<in> set raws" "reads_raw n m" using sh [of n x] parseNode_raw [of n m] x(2) by simp_all
    then show "\<exists>n \<in> set raws. reads_raw n m" by blast
  qed
qed

subsection \<open>What reading a lock gives\<close>

definition raw_ok :: "stage_limits \<Rightarrow> raw_node \<Rightarrow> bool" where
  "raw_ok l n \<longleftrightarrow> portable_path l (rn_path n) \<and> distinct (map fst (entries (rn_deps n))) \<and> distinct (map fst (entries (rn_peers n)))
     \<and> distinct (map fst (entries (rn_meta n))) \<and> (\<forall>v. rn_peerFlag n = Some v \<longrightarrow> json_data v)"

lemma own_record_Inr: "own_record v = Inr kvs \<Longrightarrow> v = JObj kvs \<and> (\<forall>(k, x) \<in> set kvs. x \<noteq> JUndef)"
  by (cases v) (auto simp: own_record_def rbind_Inr_iff list_all_iff)

lemma own_record_data: "own_record v = Inr kvs \<Longrightarrow> v = JUndef \<or> json_data v \<Longrightarrow> json_data (JObj kvs)"
  using own_record_Inr [of v kvs] by auto

lemma v2_stringMap_distinct:
  assumes "v2_stringMap v = Inr m" "v = JUndef \<or> json_data v"
  shows "distinct (map fst (entries m))"
proof (cases "v = JUndef")
  case False
  then obtain kvs xs where k: "own_record v = Inr kvs" "mapM v2_string (isort key_lt kvs) = Inr xs" "m = Some xs"
    using assms(1) by (auto simp: v2_stringMap_def rbind_Inr_iff)
  have "map fst xs = map fst (isort key_lt kvs)" by (rule mapM_names [OF _ k(2)]) (auto simp: v2_string_def rbind_Inr_iff)
  moreover have "distinct (map fst kvs)" using own_record_data [OF k(1) assms(2)] by simp
  ultimately show ?thesis by (simp add: entries_def k(3) distinct_map_isort)
qed (use assms(1) in \<open>simp add: v2_stringMap_def entries_def\<close>)

lemma normalizeMeta_distinct:
  assumes "normalizeMeta v peers = Inr m" "v = JUndef \<or> json_data v"
  shows "distinct (map fst (entries m))"
proof (cases "v = JUndef")
  case False
  then obtain kvs xs where k: "own_record v = Inr kvs" "mapM (v2_meta peers) (isort key_lt kvs) = Inr xs" "m = Some xs"
    using assms(1) by (auto simp: normalizeMeta_def rbind_Inr_iff)
  have "map fst xs = map fst (isort key_lt kvs)"
    by (rule mapM_names [OF _ k(2)]) (auto simp: v2_meta_def rbind_Inr_iff split: jsval.splits)
  moreover have "distinct (map fst kvs)" using own_record_data [OF k(1) assms(2)] by simp
  ultimately show ?thesis by (simp add: entries_def k(3) distinct_map_isort)
qed (use assms(1) in \<open>simp add: normalizeMeta_def entries_def\<close>)

lemma read_raw_node_ok:
  assumes "read_raw_node parse registry path v = Inr n" "v = JUndef \<or> json_data v" "portable_path l path"
  shows "rn_path n = path \<and> raw_ok l n"
proof -
  from assms(1) obtain kvs peers deps meta where r: "own_record v = Inr kvs" "v2_stringMap (own_prop kvs ''dependencies'') = Inr deps"
    "v2_stringMap (own_prop kvs ''peerDependencies'') = Inr peers"
    "normalizeMeta (own_prop kvs ''peerDependenciesMeta'') (entries peers) = Inr meta"
    "rn_path n = path" "rn_deps n = deps" "rn_peers n = peers" "rn_meta n = meta" "rn_peerFlag n = map_of kvs ''peer''"
    unfolding read_raw_node_def rbind_Inr_iff by auto
  have d: "json_data (JObj kvs)" by (rule own_record_data [OF r(1) assms(2)])
  have "json_data x" if "map_of kvs ''peer'' = Some x" for x
    using d map_of_SomeD [OF that] by (auto simp: list_all_iff)
  then show ?thesis
    using r(5-9) assms(3) v2_stringMap_distinct [OF r(2) own_prop_data [OF d]] v2_stringMap_distinct [OF r(3) own_prop_data [OF d]]
      normalizeMeta_distinct [OF r(4) own_prop_data [OF d]]
    by (simp add: raw_ok_def)
qed

lemma add_raw_nodes:
  assumes "foldM (add_raw_node parse registry l packages) paths raws = Inr rs" "json_data (JObj packages)" "\<forall>n \<in> set raws. raw_ok l n"
  shows "map rn_path rs = map rn_path raws @ paths \<and> (\<forall>n \<in> set rs. raw_ok l n)"
  using assms
proof (induction paths arbitrary: raws)
  case (Cons path paths)
  from Cons.prems(1) obtain ms where ms: "add_raw_node parse registry l packages path raws = Inr ms"
    "foldM (add_raw_node parse registry l packages) paths ms = Inr rs" by (auto simp: rbind_Inr_iff)
  then obtain n where n: "portable_path l path" "read_raw_node parse registry path (own_prop packages path) = Inr n" "ms = raws @ [n]"
    by (auto simp: add_raw_node_def rbind_Inr_iff)
  note r = read_raw_node_ok [OF n(2) own_prop_data [OF Cons.prems(2)] n(1)]
  have "\<forall>m \<in> set ms. raw_ok l m" using r Cons.prems(3) n(3) by auto
  from Cons.IH [OF ms(2) Cons.prems(2) this] r show ?case by (simp add: n(3))
qed simp

lemma parseLock_ok:
  assumes "parseLock parse topName topVersion registry l v = Inr (root, raws)" "json_data v"
  shows "root = [(topName, topVersion)] \<and> sorted_wrt text_lt (map rn_path raws) \<and> (\<forall>n \<in> set raws. raw_ok l n)"
proof -
  from assms(1) obtain lock packages where p: "own_record v = Inr lock" "own_record (own_prop lock ''packages'') = Inr packages"
    "foldM (add_raw_node parse registry l packages) (sort_text (filter (\<lambda>p. p \<noteq> []) (map fst packages))) [] = Inr raws"
    "root = [(topName, topVersion)]"
    unfolding parseLock_def Let_def rbind_Inr_iff by auto
  have "json_data (JObj lock)" using own_record_data [OF p(1)] assms(2) by blast
  then have d: "json_data (JObj packages)" using own_record_data [OF p(2) own_prop_data] by blast
  then have "distinct (filter (\<lambda>p. p \<noteq> []) (map fst packages))" by simp
  with add_raw_nodes [OF p(3) d] p(4) show ?thesis by (simp add: sorted_sort_text)
qed

lemma texts_data: "distinct (map fst m) \<Longrightarrow> json_data (texts_json m)"
  by (auto simp: texts_json_def list_all_iff comp_def case_prod_unfold)

lemma meta_data: "distinct (map fst m) \<Longrightarrow> json_data (meta_json m)"
  by (auto simp: meta_json_def list_all_iff comp_def case_prod_unfold opt_prop_def split: option.splits)

lemma peer_input_data:
  assumes "\<forall>n \<in> set raws. raw_ok l n" "distinct (map fst root)"
  shows "json_data (peer_input root raws)"
proof -
  have "json_data (peer_node_json n)" if n: "raw_ok l n" for n
  proof -
    have "\<forall>m. rn_deps n = Some m \<longrightarrow> json_data (texts_json m)" "\<forall>m. rn_peers n = Some m \<longrightarrow> json_data (texts_json m)"
      "\<forall>m. rn_meta n = Some m \<longrightarrow> json_data (meta_json m)"
      using n by (auto simp: raw_ok_def entries_def intro!: texts_data meta_data)
    with n show ?thesis
      by (cases "rn_deps n"; cases "rn_peers n"; cases "rn_meta n"; cases "rn_peerFlag n")
        (simp_all add: peer_node_json_def peer_props_def raw_ok_def)
  qed
  with assms show ?thesis by (simp add: peer_input_def texts_data list_all_iff)
qed

subsection \<open>Compiled candidates\<close>

text \<open>The edges of a node are its declared dependencies, led to the nodes the analysis has checked.\<close>

definition edges_checked :: "peer_node list \<Rightarrow> v2_node \<Rightarrow> bool" where
  "edges_checked nodes n \<longleftrightarrow>
     map (\<lambda>e. (de_packageName e, de_declaredSpecifier e)) (vn_edges n) = by_name (entries (rn_deps (vn_raw n)))
     \<and> (\<forall>e \<in> set (vn_edges n). \<exists>t. resolveNearest nodes (rn_path (vn_raw n)) (de_packageName e) = Some t
         \<and> pn_path t = de_installPath e \<and> admitted (Some t) (de_declaredSpecifier e))"

text \<open>
  The requirements of a node are its declared peers: absent ones are optional, those present are
  settled by the node the analysis has found, named with its version.
\<close>

definition requirement_checked :: "peer_node list \<Rightarrow> v2_node \<Rightarrow> peer_requirement \<Rightarrow> bool" where
  "requirement_checked nodes n q \<longleftrightarrow> (pq_name q, pq_specifier q) \<in> set (entries (rn_peers (vn_raw n)))
     \<and> (\<exists>m \<in> set nodes. pn_path m = rn_path (vn_raw n) \<and> (case peer_target nodes m (pq_name q) of
           None \<Rightarrow> pq_resolution q = None \<and> pq_optional q
         | Some t \<Rightarrow> admitted (Some t) (pq_specifier q)
             \<and> (\<exists>s. pq_resolution q = Some (pn_path t, s) \<and> parseVersion s = Inr (pn_version t))))"

definition peers_checked :: "peer_node list \<Rightarrow> v2_node \<Rightarrow> bool" where
  "peers_checked nodes n \<longleftrightarrow> pq_name ` set (vn_peers n) = fst ` set (entries (rn_peers (vn_raw n)))
     \<and> (\<forall>q \<in> set (vn_peers n). requirement_checked nodes n q)"

definition checked_graph :: "(string \<times> string) list \<Rightarrow> v2_node list \<Rightarrow> bool" where
  "checked_graph root ns \<longleftrightarrow> (\<exists>nodes. read_graph (peer_input root (map vn_raw ns)) = Inr (root, nodes)
     \<and> consistent_graph root nodes \<and> (\<forall>n \<in> set ns. edges_checked nodes n \<and> peers_checked nodes n))"

text \<open>Raw nodes and the nodes the analysis reads from them.\<close>

definition reading :: "raw_node list \<Rightarrow> peer_node list \<Rightarrow> (string \<times> string) list \<Rightarrow> stage_limits \<Rightarrow> bool" where
  "reading raws nodes root l \<longleftrightarrow> sorted_wrt text_lt (map rn_path raws) \<and> (\<forall>n \<in> set raws. raw_ok l n)
     \<and> (\<forall>n \<in> set raws. \<exists>m \<in> set nodes. reads_raw n m) \<and> (\<forall>m \<in> set nodes. \<exists>n \<in> set raws. reads_raw n m)
     \<and> distinct_graph nodes \<and> consistent_graph root nodes"

lemma sorted_distinct: "sorted_wrt text_lt xs \<Longrightarrow> distinct xs"
  by (induction xs) auto

lemma raws_distinct: "reading raws nodes root l \<Longrightarrow> distinct (map rn_path raws)"
  by (simp add: reading_def sorted_distinct)

lemma raw_at_iff: "reading raws nodes root l \<Longrightarrow> raw_at raws p = Some n \<longleftrightarrow> n \<in> set raws \<and> rn_path n = p"
  using raws_distinct [of raws nodes root l] by (auto simp: raw_at_def map_of_eq_Some_iff comp_def image_iff)

lemma raw_read: "reading raws nodes root l \<Longrightarrow> n \<in> set raws \<Longrightarrow> \<exists>m \<in> set nodes. reads_raw n m"
  by (simp add: reading_def)

lemma node_read: "reading raws nodes root l \<Longrightarrow> m \<in> set nodes \<Longrightarrow> \<exists>n \<in> set raws. reads_raw n m"
  by (simp add: reading_def)

lemma raws_ok: "reading raws nodes root l \<Longrightarrow> n \<in> set raws \<Longrightarrow> raw_ok l n"
  by (simp add: reading_def)

lemma same_paths:
  assumes "reading raws nodes root l"
  shows "raw_at raws p \<noteq> None \<longleftrightarrow> node_at nodes p \<noteq> None"
proof -
  have "raw_at raws p \<noteq> None \<longleftrightarrow> p \<in> rn_path ` set raws"
    by (auto simp: raw_at_def map_of_eq_None_iff image_image)
  moreover have "node_at nodes p \<noteq> None \<longleftrightarrow> p \<in> pn_path ` set nodes"
    by (auto simp: node_at_def map_of_eq_None_iff image_image)
  moreover have "rn_path ` set raws = pn_path ` set nodes"
  proof (intro set_eqI iffI)
    fix p assume "p \<in> rn_path ` set raws"
    then obtain n where "n \<in> set raws" "p = rn_path n" by blast
    with raw_read [OF assms, of n] show "p \<in> pn_path ` set nodes" unfolding reads_raw_def by (metis image_eqI)
  next
    fix p assume "p \<in> pn_path ` set nodes"
    then obtain m where "m \<in> set nodes" "p = pn_path m" by blast
    with node_read [OF assms, of m] show "p \<in> rn_path ` set raws" unfolding reads_raw_def by (metis image_eqI)
  qed
  ultimately show ?thesis by simp
qed

lemma reads_at:
  assumes "reading raws nodes root l" "n \<in> set raws" "m \<in> set nodes" "rn_path n = pn_path m"
  shows "reads_raw n m"
proof -
  obtain m' where m': "m' \<in> set nodes" "reads_raw n m'" using raw_read [OF assms(1,2)] by blast
  then have "pn_path m' = pn_path m" using assms(4) by (simp add: reads_raw_def)
  then have "m' = m" using assms(1,3) m'(1) by (auto simp: reading_def distinct_graph_def distinct_map dest: inj_onD)
  with m'(2) show ?thesis by simp
qed

lemma nearest_node:
  assumes rd: "reading raws nodes root l" and n: "n \<in> set raws"
  shows "nearest (\<lambda>p. raw_at raws p \<noteq> None) (rn_path n) name = map_option pn_path (resolveNearest nodes (rn_path n) name)"
proof -
  have p: "portable_path l (rn_path n)" using raws_ok [OF rd n] by (simp add: raw_ok_def)
  then have "rn_path n \<noteq> []" "\<not> list_ex is_control (rn_path n)"
    by (auto simp: portable_path_def validatePortableRelativePath_def portable_text_def Let_def guard_def split: if_splits)
  moreover have "is_control (CHR 0x0A)" "is_control (CHR 0x0D)" by code_simp+
  moreover have "validPath (rn_path n)" using raw_read [OF rd n] by (auto simp: reads_raw_def)
  ultimately show ?thesis unfolding same_paths [OF rd] by (intro nearest_resolve) (auto simp: list_ex_iff)
qed

lemma edges_ok:
  assumes rd: "reading raws nodes root l" and a: "n \<in> set raws" "mapM (v2_edge raws (rn_path n)) (isort key_lt (entries (rn_deps n))) = Inr es" "vn_raw g = n" "vn_edges g = es"
  shows "edges_checked nodes g"
proof -
  have "map (\<lambda>e. (de_packageName e, de_declaredSpecifier e)) es = isort key_lt (entries (rn_deps n))"
    by (rule mapM_image [OF _ a(2)]) (auto simp: v2_edge_def split: option.splits)
  moreover have "\<exists>t. resolveNearest nodes (rn_path n) (de_packageName e) = Some t \<and> pn_path t = de_installPath e
      \<and> admitted (Some t) (de_declaredSpecifier e)" if e: "e \<in> set es" for e
  proof -
    obtain name s where x: "(name, s) \<in> set (entries (rn_deps n))" "v2_edge raws (rn_path n) (name, s) = Inr e"
      using mapM_results [OF a(2) e] by auto
    then obtain t where t: "resolveNearest nodes (rn_path n) name = Some t" "e = \<lparr>de_packageName = name, de_installPath = pn_path t, de_declaredSpecifier = s\<rparr>"
      using nearest_node [OF rd a(1), of name] by (auto simp: v2_edge_def split: option.splits)
    obtain m where m: "m \<in> set nodes" "reads_raw n m" using raw_read [OF rd a(1)] by blast
    then have "(name, s) \<in> set (pn_deps m)" "pn_path m = rn_path n" using x(1) by (simp_all add: reads_raw_def)
    with m(1) t(1) rd have "admitted (Some t) s" unfolding reading_def consistent_graph_def by fastforce
    with t show ?thesis by simp
  qed
  ultimately show ?thesis by (simp add: edges_checked_def a(3,4) by_name_def)
qed

lemma peer_declared:
  assumes rd: "reading raws nodes root l" and a: "n \<in> set raws" "m \<in> set nodes" "reads_raw n m" "(name, p) \<in> set (pn_peers m)"
  shows "(name, pr_range p) \<in> set (entries (rn_peers n))"
proof -
  have "(name, pr_range p) \<in> (\<lambda>(name, p). (name, pr_range p)) ` set (pn_peers m)" using a(4) by force
  also have "\<dots> = set (entries (rn_peers n))" using a(3) by (simp add: reads_raw_def by_name_def flip: set_map)
  finally show ?thesis .
qed

lemma requirement_ok:
  assumes rd: "reading raws nodes root l" and a: "n \<in> set raws" "requirement_of raws o' = Inr (rn_path n, q)" "o' = outcome_of nodes m (name, p)"
    "m \<in> set nodes" "(name, p) \<in> set (pn_peers m)" "vn_raw g = n"
  shows "pq_name q = name \<and> requirement_checked nodes g q"
proof -
  let ?t = "peer_target nodes m name"
  from a(2,3) have pm: "pn_path m = rn_path n"
    by (auto simp: requirement_of_def outcome_of_def rbind_Inr_iff split: option.splits)
  have rn: "reads_raw n m" using reads_at [OF rd a(1,4)] pm by simp
  have decl: "(name, pr_range p) \<in> set (entries (rn_peers n))" by (rule peer_declared [OF rd a(1,4) rn a(5)])
  moreover have "distinct (map fst (entries (rn_peers n)))" using raws_ok [OF rd a(1)] by (simp add: raw_ok_def)
  ultimately have spec: "map_of (entries (rn_peers n)) name = Some (pr_range p)" by simp
  have own: "raw_at raws (pn_path m) = Some n" using raw_at_iff [OF rd] a(1) pm by simp
  have settled: "peer_settled nodes m (name, p)"
    using rd a(4,5) by (auto simp: reading_def consistent_graph_def list_all_iff)
  show ?thesis
  proof (cases ?t)
    case None
    then have "q = \<lparr>pq_name = name, pq_specifier = pr_range p, pq_optional = True, pq_resolution = None\<rparr>"
      using a(2,3) own spec by (auto simp: requirement_of_def outcome_of_def)
    with None decl a(4) pm a(6) show ?thesis by (auto simp: requirement_checked_def)
  next
    case (Some t)
    have tn: "t \<in> set nodes" using Some by (simp add: peer_target_def resolveNearest_Some)
    then obtain n' where n': "n' \<in> set raws" "reads_raw n' t" using node_read [OF rd] by blast
    then have at: "raw_at raws (pn_path t) = Some n'" using raw_at_iff [OF rd] by (simp add: reads_raw_def)
    have "q = \<lparr>pq_name = name, pq_specifier = pr_range p, pq_optional = pr_optional p, pq_resolution = Some (pn_path t, rn_version n')\<rparr>"
      using a(2,3) own spec Some at n' by (auto simp: requirement_of_def outcome_of_def reads_raw_def)
    moreover have "admitted (Some t) (pr_range p)" using settled Some by (simp add: peer_settled_def)
    ultimately show ?thesis using Some decl a(4) pm a(6) n'(2) by (auto simp: requirement_checked_def reads_raw_def)
  qed
qed

lemma peers_ok:
  assumes rd: "reading raws nodes root l" and a: "n \<in> set raws" "mapM (requirement_of raws) outcomes = Inr required"
    "set outcomes = {outcome_of nodes m x |m x. m \<in> set nodes \<and> x \<in> set (pn_peers m)}"
    "vn_raw g = n" "set (vn_peers g) = snd ` {r \<in> set required. fst r = rn_path n}"
  shows "peers_checked nodes g"
proof -
  have ok: "\<exists>name p. pq_name q = name \<and> requirement_checked nodes g q \<and> name \<in> fst ` set (entries (rn_peers n))" if q: "q \<in> set (vn_peers g)" for q
  proof -
    have "(rn_path n, q) \<in> set required" using q a(5) by auto
    then obtain o' where o': "o' \<in> set outcomes" "requirement_of raws o' = Inr (rn_path n, q)" using mapM_results [OF a(2)] by blast
    then obtain m name p where m: "m \<in> set nodes" "(name, p) \<in> set (pn_peers m)" "o' = outcome_of nodes m (name, p)"
      using a(3) by auto
    from requirement_ok [OF rd a(1) o'(2) m(3,1,2) a(4)] have "pq_name q = name" "requirement_checked nodes g q" by blast+
    moreover from this have "name \<in> fst ` set (entries (rn_peers n))" using a(4) by (force simp: requirement_checked_def)
    ultimately show ?thesis by blast
  qed
  moreover have "\<exists>q \<in> set (vn_peers g). pq_name q = name" if name: "name \<in> fst ` set (entries (rn_peers n))" for name
  proof -
    obtain m where m: "m \<in> set nodes" "reads_raw n m" using raw_read [OF rd a(1)] by blast
    have "fst ` set (pn_peers m) = fst ` set (map (\<lambda>(name, p). (name, pr_range p)) (pn_peers m))" by force
    also have "\<dots> = fst ` set (entries (rn_peers n))" using m(2) by (simp add: reads_raw_def by_name_def del: set_map)
    finally obtain p where p: "(name, p) \<in> set (pn_peers m)" using name by force
    then have "outcome_of nodes m (name, p) \<in> set outcomes" using m(1) a(3) by blast
    from mapM_covers [OF a(2) this] obtain from' q where r: "(from', q) \<in> set required"
      "requirement_of raws (outcome_of nodes m (name, p)) = Inr (from', q)" by (metis surj_pair)
    then have f: "from' = rn_path n"
      using m(2) by (auto simp: requirement_of_def outcome_of_def rbind_Inr_iff reads_raw_def split: option.splits)
    then have "q \<in> set (vn_peers g)" using r(1) a(5) by force
    moreover have "pq_name q = name" using requirement_ok [OF rd a(1) r(2) [unfolded f] refl m(1) p a(4)] by blast
    ultimately show ?thesis by blast
  qed
  ultimately show ?thesis unfolding peers_checked_def a(4) by (auto simp: image_iff) force+
qed

lemma v2_graph_ok:
  assumes "v2_graph root raws = Inr ns" "sorted_wrt text_lt (map rn_path raws)" "\<forall>n \<in> set raws. raw_ok l n" "distinct (map fst root)"
  shows "map vn_raw ns = raws \<and> checked_graph root ns"
proof -
  obtain A required gs where g: "analyzePeerDependencySemantics (peer_input root raws) = Inr A"
    "mapM (requirement_of raws) (pa_outcomes A) = Inr required" "mapM (v2_graph_node raws required) raws = Inr gs" "ns = isort v2_node_lt gs"
    using assms(1) by (auto simp: v2_graph_def rbind_Inr_iff split: sum.splits)
  obtain root' nodes where r: "read_graph (peer_input root raws) = Inr (root', nodes)" "analyse_graph root' nodes = Inr A"
    using g(1) unfolding analyze_Inr by blast
  note rr = read_graph_raws [OF r(1)]
  have d: "distinct_graph nodes" by (rule read_graph_distinct [OF r(1) peer_input_data [OF assms(3,4)]])
  have cons: "consistent_graph root nodes" using analyse_graph_spec(1) [OF d] r(2) rr(1) by blast
  have out: "set (pa_outcomes A) = {outcome_of nodes m x |m x. m \<in> set nodes \<and> x \<in> set (pn_peers m)}"
    using analyse_graph_spec(2) [OF d r(2)] by blast
  have rd: "reading raws nodes root l" using assms(2,3) rr(2,3) d cons by (simp add: reading_def)
  have raw: "map vn_raw gs = raws" by (rule mapM_image [OF _ g(3)]) (auto simp: v2_graph_node_def rbind_Inr_iff)
  have "sorted_wrt (\<lambda>a b. text_lt (rn_path (vn_raw a)) (rn_path (vn_raw b))) gs"
    using assms(2) unfolding raw [symmetric] by (simp add: sorted_wrt_map)
  then have "sorted_wrt (\<lambda>a b. \<not> v2_node_lt b a) gs"
    by (rule sorted_wrt_mono_rel [rotated]) (auto simp: v2_node_lt_def dest: text_lt_asym)
  then have ns: "ns = gs" unfolding g(4) by (rule isort_sorted_id)
  have "edges_checked nodes n \<and> peers_checked nodes n" if n: "n \<in> set gs" for n
  proof -
    obtain x where x: "x \<in> set raws" "v2_graph_node raws required x = Inr n" using mapM_results [OF g(3) n] by blast
    then obtain es where es: "mapM (v2_edge raws (rn_path x)) (isort key_lt (entries (rn_deps x))) = Inr es" "vn_raw n = x" "vn_edges n = es"
      "set (vn_peers n) = snd ` {r \<in> set required. fst r = rn_path x}"
      by (auto simp: v2_graph_node_def rbind_Inr_iff)
    from edges_ok [OF rd x(1) es(1-3)] peers_ok [OF rd x(1) g(2) out es(2,4)] show ?thesis by blast
  qed
  with r(1) rr(1) cons raw ns show ?thesis by (auto simp: checked_graph_def)
qed

text \<open>The keys of an object differ, in every object of a value, as they do in the language.\<close>

fun keys_differ :: "jsval \<Rightarrow> bool" where
  "keys_differ (JArr vs) = list_all keys_differ vs"
| "keys_differ (JObj kvs) = (distinct (map fst kvs) \<and> list_all (\<lambda>(k, v). keys_differ v) kvs)"
| "keys_differ v = True"

lemma keys_differ_prop: "keys_differ (JObj kvs) \<Longrightarrow> keys_differ (own_prop kvs k)"
  by (induction kvs) auto

text \<open>What is cloned is JSON.\<close>

lemma clone_data:
  "clone_val limit depth v st = Inr st' \<Longrightarrow> keys_differ v \<Longrightarrow> json_data v"
  "clone_items limit depth vs st = Inr st' \<Longrightarrow> list_all keys_differ vs \<Longrightarrow> list_all json_data vs"
  "clone_props limit depth kvs st = Inr st' \<Longrightarrow> list_all (\<lambda>(k, v). keys_differ v) kvs \<Longrightarrow> list_all (\<lambda>(k, v). json_data v) kvs"
proof (induction limit depth v st and limit depth vs st and limit depth kvs st arbitrary: st' and st' and st'
    rule: clone_val_clone_items_clone_props.induct)
  case (1 limit depth v st)
  from "1.prems"(1) obtain st1 where c: "count_visit depth st = Inr st1" by (auto simp: rbind_Inr_iff)
  show ?case
  proof (cases v)
    case (JArr vs)
    with "1.prems" c have "clone_items limit (depth + 1) vs st1 = Inr st'" "list_all (\<lambda>x. x \<noteq> JUndef) vs" by (auto simp: rbind_Inr_iff)
    with "1.IH"(1) [OF c JArr] "1.prems"(2) JArr show ?thesis by simp
  next
    case (JObj kvs)
    with "1.prems" c have "clone_props limit (depth + 1) kvs st1 = Inr st'" "list_all (\<lambda>p. snd p \<noteq> JUndef) kvs" by (auto simp: rbind_Inr_iff)
    with "1.IH"(2) [OF c JObj] "1.prems"(2) JObj show ?thesis by simp
  next
    case (JNum n)
    with "1.prems" c show ?thesis by (cases n) (auto simp: rbind_Inr_iff)
  qed (use "1.prems" c in auto)
next
  case (3 limit depth v vs st)
  from "3.prems"(1) obtain st1 where c: "clone_val limit depth v st = Inr st1" "clone_items limit depth vs st1 = Inr st'"
    by (auto simp: rbind_Inr_iff simp del: clone_val.simps)
  with "3.IH"(1) [OF c(1)] "3.IH"(2) [OF c] "3.prems"(2) show ?case by simp
next
  case (5 limit depth k v kvs st)
  from "5.prems"(1) obtain st1 st2 where c: "count_bytes limit (utf8_length k) st = Inr st1" "clone_val limit depth v st1 = Inr st2"
    "clone_props limit depth kvs st2 = Inr st'"
    by (auto simp: rbind_Inr_iff simp del: clone_val.simps)
  with "5.IH"(1) [OF c(1,2)] "5.IH"(2) [OF c] "5.prems"(2) show ?case by simp
qed simp_all

lemma cloneJsonEvidence_Inr:
  "cloneJsonEvidence limit v = Inr w \<Longrightarrow> w = v \<and> (keys_differ v \<longrightarrow> json_data v)"
  by (auto simp: cloneJsonEvidence_def rbind_Inr_iff intro: clone_data(1) simp del: clone_val.simps)

lemma compiled_v2_checked:
  assumes "compileUnsignedCandidateV2 parse v = Inr c" "keys_differ (at v ''packageLock'')"
  shows "vc_root c = [(vc_topName c, vc_topVersion c)] \<and> checked_graph (vc_root c) (vc_nodes c)
    \<and> sorted_wrt text_lt (map rn_path (map vn_raw (vc_nodes c))) \<and> (\<forall>n \<in> set (vc_nodes c). raw_ok (vc_limits c) (vn_raw n))"
proof -
  from assms(1) obtain source limit lock root raws where c: "own_record v = Inr source"
    "cloneJsonEvidence limit (own_prop source ''packageLock'') = Inr lock"
    "parseLock parse (vc_topName c) (vc_topVersion c) (vc_registryOrigin c) (vc_limits c) lock = Inr (root, raws)"
    "v2_graph root raws = Inr (vc_nodes c)" "vc_root c = root"
    unfolding compileUnsignedCandidateV2_def Let_def rbind_Inr_iff by (elim exE conjE) (auto simp: rbind_Inr_iff)
  have "at v ''packageLock'' = own_prop source ''packageLock''" using own_record_Inr [OF c(1)] by simp
  with cloneJsonEvidence_Inr [OF c(2)] assms(2) have "json_data lock" by simp
  from parseLock_ok [OF c(3) this] have p: "root = [(vc_topName c, vc_topVersion c)]" "sorted_wrt text_lt (map rn_path raws)"
    "\<forall>n \<in> set raws. raw_ok (vc_limits c) n" by blast+
  have "distinct (map fst root)" by (simp add: p(1))
  from v2_graph_ok [OF c(4) p(2,3) this] p c(5) show ?thesis by (auto simp del: map_map)
qed

text \<open>
  C23: a compiled candidate is checked through and through.  The graph of its nodes is consistent
  for the analysis of peers: every dependency and every peer is settled by the nearest package of
  its name with an admitted version, there is no cycle, and the one dependency of the root, the
  top package, requires every node.  The edges it lists are exactly the declared dependencies, each
  led to the package the analysis has checked, and the peer requirements it lists are exactly the
  declared peers with what settles them.
\<close>

theorem candidate_v2_checked:
  assumes "compileUnsignedCandidateV2 parse v = Inr c" "keys_differ (at v ''packageLock'')"
  shows "vc_root c = [(vc_topName c, vc_topVersion c)] \<and> checked_graph (vc_root c) (vc_nodes c)"
  using compiled_v2_checked [OF assms] by blast


text \<open>The packages a payload retains.\<close>

lemma flagged_keys:
  assumes "flagged node flag key field = Inr kvs" "keys_differ (JObj node)"
  shows "map fst kvs \<in> {[], [key]} \<and> list_all (\<lambda>(k, v). keys_differ v) kvs"
  using assms(1) keys_differ_prop [OF assms(2), of field] by (auto simp: flagged_def split: jsval.splits bool.splits)

lemma retained_record_keys:
  assumes "retained_record v packages = Inr packages'" "keys_differ v" "keys_differ (JObj packages)"
  shows "keys_differ (JObj packages')"
proof -
  from assms(1) obtain node path d p m f where r: "own_record v = Inr node" "path \<notin> fst ` set packages"
    "flagged node ''dependenciesPresent'' ''dependencies'' ''dependencyDeclarations'' = Inr d"
    "flagged node ''peerDependenciesPresent'' ''peerDependencies'' ''peerDependencyDeclarations'' = Inr p"
    "flagged node ''peerDependenciesMetaPresent'' ''peerDependenciesMeta'' ''peerDependenciesMeta'' = Inr m"
    "flagged node ''peerFlagPresent'' ''peer'' ''peerFlag'' = Inr f"
    "packages' = packages @ [(path, JObj ([(''version'', own_prop node ''exactVersion''), (''resolved'', own_prop node ''tarballUrl''),
        (''integrity'', own_prop node ''sha512Integrity'')] @ d @ p @ m @ f))]"
    unfolding retained_record_def rbind_Inr_iff want_text_Inr sum.inject by blast
  have n: "keys_differ (JObj node)" using own_record_Inr [OF r(1)] assms(2) by simp
  note fl = flagged_keys [OF r(3) n] flagged_keys [OF r(4) n] flagged_keys [OF r(5) n] flagged_keys [OF r(6) n]
  have "distinct ([''version'', ''resolved'', ''integrity''] @ map fst d @ map fst p @ map fst m @ map fst f)"
    using fl [THEN conjunct1] by (elim insertE emptyE) simp_all
  then show ?thesis using r(2,7) assms(3) fl keys_differ_prop [OF n] by auto
qed

lemma retained_keys:
  "foldM retained_record vs packages = Inr packages' \<Longrightarrow> list_all keys_differ vs \<Longrightarrow> keys_differ (JObj packages) \<Longrightarrow> keys_differ (JObj packages')"
proof (induction vs arbitrary: packages)
  case (Cons v vs)
  from Cons.prems(1) obtain ps where "retained_record v packages = Inr ps" "foldM retained_record vs ps = Inr packages'"
    by (auto simp: rbind_Inr_iff simp del: keys_differ.simps)
  with Cons.IH [of ps] retained_record_keys [of v packages ps] Cons.prems(2,3) show ?case by (simp del: keys_differ.simps)
qed simp

lemma items_Inr: "(case x of JArr vs \<Rightarrow> Inr vs | _ \<Rightarrow> Inl e) = Inr vs \<longleftrightarrow> x = JArr vs"
  by (cases x) auto

text \<open>What the compiler has checked of the nodes of a candidate, before it asks how they are connected.\<close>

definition pinned_raw :: "value_url_parser \<Rightarrow> string \<Rightarrow> stage_limits \<Rightarrow> raw_node \<Rightarrow> bool" where
  "pinned_raw parse registry l n \<longleftrightarrow> portable_path l (rn_path n) \<and> starts_with ''node_modules/'' (rn_path n)
     \<and> rn_name n = pathName (rn_path n) \<and> isPackageName (rn_name n) \<and> is_v2_version (rn_version n)
     \<and> validateTarball parse registry (rn_tarballUrl n) = Inr () \<and> parseSha512Integrity (rn_integrity n) \<noteq> None"

definition pinned_candidate :: "value_url_parser \<Rightarrow> v2_candidate \<Rightarrow> bool" where
  "pinned_candidate parse c \<longleftrightarrow> within_ceilings (vc_limits c) \<and> limits_consistent (vc_limits c)
     \<and> vc_nodes c \<noteq> [] \<and> length (vc_nodes c) \<le> sl_graphNodes (vc_limits c)
     \<and> distinct (map locale_lower (map rn_path (map vn_raw (vc_nodes c))))
     \<and> (\<forall>n \<in> set (vc_nodes c). pinned_raw parse (vc_registryOrigin c) (vc_limits c) (vn_raw n))"

lemma add_raw_nodes_pinned:
  assumes "foldM (add_raw_node parse registry l packages) paths raws = Inr rs" "\<forall>n \<in> set raws. pinned_raw parse registry l n"
    "distinct (map locale_lower (map rn_path raws))"
  shows "(\<forall>n \<in> set rs. pinned_raw parse registry l n) \<and> distinct (map locale_lower (map rn_path rs))
    \<and> length rs = length raws + length paths"
  using assms
proof (induction paths arbitrary: raws)
  case (Cons path paths)
  from Cons.prems(1) obtain ms where ms: "add_raw_node parse registry l packages path raws = Inr ms"
    "foldM (add_raw_node parse registry l packages) paths ms = Inr rs" by (auto simp: rbind_Inr_iff)
  then obtain n where n: "portable_path l path" "starts_with ''node_modules/'' path"
    "locale_lower path \<notin> set (map (locale_lower \<circ> rn_path) raws)"
    "read_raw_node parse registry path (own_prop packages path) = Inr n" "ms = raws @ [n]"
    by (auto simp: add_raw_node_def rbind_Inr_iff)
  have r: "rn_path n = path \<and> rn_name n = pathName path \<and> isPackageName (rn_name n) \<and> is_v2_version (rn_version n)
      \<and> validateTarball parse registry (rn_tarballUrl n) = Inr () \<and> parseSha512Integrity (rn_integrity n) \<noteq> None"
    using n(4) unfolding read_raw_node_def nameFromPath_def rbind_Inr_iff want_text_Inr by auto
  then have "\<forall>m \<in> set ms. pinned_raw parse registry l m" "distinct (map locale_lower (map rn_path ms))"
    using Cons.prems(2,3) n by (auto simp: pinned_raw_def comp_def)
  from Cons.IH [OF ms(2) this] show ?case by (simp add: n(5))
qed simp

lemma v2_graph_mset:
  assumes "v2_graph root raws = Inr ns"
  shows "mset (map vn_raw ns) = mset raws"
proof -
  obtain required gs where g: "mapM (v2_graph_node raws required) raws = Inr gs" "ns = isort v2_node_lt gs"
    using assms by (auto simp: v2_graph_def rbind_Inr_iff split: sum.splits)
  have "map vn_raw gs = raws" by (rule mapM_image [OF _ g(1)]) (auto simp: v2_graph_node_def rbind_Inr_iff)
  then show ?thesis by (metis g(2) mset_isort mset_map)
qed

lemma compiled_v2_pinned:
  assumes "compileUnsignedCandidateV2 parse v = Inr c"
  shows "pinned_candidate parse c"
proof -
  from assms obtain source lock root raws where c: "v2_limits (own_prop source ''limits'') = Inr (vc_limits c)"
    "parseLock parse (vc_topName c) (vc_topVersion c) (vc_registryOrigin c) (vc_limits c) lock = Inr (root, raws)"
    "v2_graph root raws = Inr (vc_nodes c)"
    unfolding compileUnsignedCandidateV2_def Let_def rbind_Inr_iff by (elim exE conjE) (auto simp: rbind_Inr_iff)
  from c(2) obtain packages paths where p: "paths \<noteq> []" "length paths \<le> sl_graphNodes (vc_limits c)"
    "foldM (add_raw_node parse (vc_registryOrigin c) (vc_limits c) packages) paths [] = Inr raws"
    unfolding parseLock_def Let_def rbind_Inr_iff by auto
  note m = v2_graph_mset [OF c(3)]
  from add_raw_nodes_pinned [OF p(3)] have raws: "\<forall>n \<in> set raws. pinned_raw parse (vc_registryOrigin c) (vc_limits c) n"
    "distinct (map locale_lower (map rn_path raws))" "length raws = length paths" by simp_all
  have s: "vn_raw ` set (vc_nodes c) = set raws" using mset_eq_setD [OF m] by simp
  have len: "length (vc_nodes c) = length paths" using mset_eq_length [OF m] raws(3) by simp
  have d: "distinct (map locale_lower (map rn_path (map vn_raw (vc_nodes c))))"
    using raws(2) m by (metis mset_eq_imp_distinct_iff mset_map)
  have l: "within_ceilings (vc_limits c) \<and> limits_consistent (vc_limits c)"
    using c(1) unfolding v2_limits_def Let_def rbind_Inr_iff by auto
  show ?thesis using s len d l p(1,2) raws(1) by (fastforce simp: pinned_candidate_def)
qed

text \<open>
  C22: a payload cannot assert what the compiler has not derived.  A payload that is validated
  carries the digest of its candidate; the packages it retains, read back from its graph nodes,
  compile to this candidate; and the rest of the payload is, as canonical text, what this
  candidate is written as.  So its nodes are within the limits, on the origin of its registry and
  pinned by an integrity, and its edges and the outcomes of its peers are those the analysis finds
  for the declarations the payload retains.
\<close>

theorem payload_v2_rederived:
  assumes "validateCandidateV2Payload parse v = Inr (c, d)" "keys_differ v"
  shows "d = v2_digest c \<and> at v ''candidateDigest'' = JStr d
    \<and> (\<exists>kvs nodes packages. v = JObj kvs \<and> own_prop kvs ''graphNodes'' = JArr nodes
         \<and> foldM retained_record nodes [retained_root kvs] = Inr packages
         \<and> compileUnsignedCandidateV2 parse (retained_input kvs packages) = Inr c
         \<and> canonicalJson (JObj (filter (\<lambda>p. fst p \<noteq> ''candidateDigest'') kvs)) = canonicalJson (JObj (v2_json c)))
    \<and> pinned_candidate parse c
    \<and> vc_root c = [(vc_topName c, vc_topVersion c)] \<and> checked_graph (vc_root c) (vc_nodes c)"
proof -
  from assms(1) obtain kvs nodes packages w where p: "cloneJsonEvidence V2_CANDIDATE_BYTES v = Inr w" "own_record w = Inr kvs"
    "own_prop kvs ''candidateDigest'' = JStr d" "own_prop kvs ''graphNodes'' = JArr nodes"
    "foldM retained_record nodes [retained_root kvs] = Inr packages"
    "compileUnsignedCandidateV2 parse (retained_input kvs packages) = Inr c" "d = v2_digest c"
    "canonicalJson (JObj (filter (\<lambda>p. fst p \<noteq> ''candidateDigest'') kvs)) = canonicalJson (JObj (v2_json c))"
    unfolding validateCandidateV2Payload_def rbind_Inr_iff want_text_Inr items_Inr ensure_simps sum.inject prod.inject by blast
  have v: "v = JObj kvs" using cloneJsonEvidence_Inr [OF p(1)] own_record_Inr [OF p(2)] by simp
  have k: "keys_differ (JObj kvs)" using assms(2) v by simp
  have "keys_differ (JArr nodes)" using keys_differ_prop [OF k, of "''graphNodes''"] p(4) by simp
  moreover have "keys_differ (JObj [retained_root kvs])" using keys_differ_prop [OF k] by (simp add: retained_root_def)
  ultimately have "keys_differ (JObj packages)" using retained_keys [OF p(5)] by (simp del: keys_differ.simps(2))
  then have "keys_differ (at (retained_input kvs packages) ''packageLock'')" by (simp add: retained_input_def)
  from compiled_v2_checked [OF p(6) this]
  have "vc_root c = [(vc_topName c, vc_topVersion c)] \<and> checked_graph (vc_root c) (vc_nodes c)" by blast
  moreover have "at v ''candidateDigest'' = JStr d" using p(3) v by simp
  moreover note compiled_v2_pinned [OF p(6)]
  ultimately show ?thesis using p(4-8) v by blast
qed


subsection \<open>A concrete candidate\<close>

definition demo2_integrity :: string where
  "demo2_integrity = demo_integrity (replicate 64 0)"

definition demo2_a :: raw_node where
  "demo2_a = \<lparr>rn_path = ''node_modules/a'', rn_name = ''a'', rn_version = ''1.0.0'', rn_tarballUrl = ''https://r/a.tgz'',
     rn_integrity = demo2_integrity, rn_deps = None, rn_peers = Some [(''c'', ''*'')], rn_meta = None, rn_peerFlag = None\<rparr>"

definition demo2_c :: raw_node where
  "demo2_c = \<lparr>rn_path = ''node_modules/c'', rn_name = ''c'', rn_version = ''3.0.0'', rn_tarballUrl = ''https://r/a.tgz'',
     rn_integrity = demo2_integrity, rn_deps = None, rn_peers = None, rn_meta = None, rn_peerFlag = Some (JBool True)\<rparr>"

definition demo2_nodes :: "v2_node list" where
  "demo2_nodes = [\<lparr>vn_raw = demo2_a, vn_edges = [], vn_peers = [\<lparr>pq_name = ''c'', pq_specifier = ''*'', pq_optional = False,
      pq_resolution = Some (''node_modules/c'', ''3.0.0'')\<rparr>]\<rparr>, \<lparr>vn_raw = demo2_c, vn_edges = [], vn_peers = []\<rparr>]"

definition demo2_lock :: jsval where
  "demo2_lock = JObj [(''name'', JStr ''candidate-v2''), (''version'', JStr ''0.0.0''), (''lockfileVersion'', JInt 3), (''requires'', JBool True),
     (''packages'', JObj [([], JObj [(''name'', JStr ''candidate-v2''), (''version'', JStr ''0.0.0''), (''dependencies'', JObj [(''a'', JStr ''1.0.0'')])]),
        (''node_modules/a'', JObj [(''version'', JStr ''1.0.0''), (''resolved'', JStr ''https://r/a.tgz''),
           (''integrity'', JStr demo2_integrity), (''peerDependencies'', JObj [(''c'', JStr ''*'')])]),
        (''node_modules/c'', JObj [(''version'', JStr ''3.0.0''), (''resolved'', JStr ''https://r/a.tgz''),
           (''integrity'', JStr demo2_integrity), (''peer'', JBool True)])])]"

lemma b64_zero_char: "b64_char 0 = CHR ''A''"
  by code_simp

lemma b64_zeros: "b64_encode (replicate (3 * n) 0 @ r) = replicate (4 * n) (CHR ''A'') @ b64_encode r"
proof (induction n)
  case (Suc n)
  have "3 * Suc n = Suc (Suc (Suc (3 * n)))" "4 * Suc n = Suc (Suc (Suc (Suc (4 * n))))" by simp_all
  then show ?case using Suc by (simp only: replicate_Suc append_Cons b64_encode.simps b64_zero_char div_0 mod_0 mult_0 add_0)
qed simp

lemma utf8_length_letters: "utf8_length (replicate n (CHR ''A'')) = n"
  by (induction n) simp_all

lemma demo2_length: "utf8_length demo2_integrity = 95" "length demo2_integrity = 95"
proof -
  have "replicate 64 0 = replicate (3 * 21) 0 @ [0 :: nat]" by (simp add: replicate_append_same flip: replicate_Suc)
  then have i: "demo2_integrity = ''sha512-'' @ replicate 84 (CHR ''A'') @ ''AA==''"
    unfolding demo2_integrity_def demo_integrity_def using b64_zeros [of 21 "[0]"] by (simp add: b64_zero_char)
  show "utf8_length demo2_integrity = 95" "length demo2_integrity = 95"
    unfolding i by (simp_all add: utf8_length_append utf8_length_letters)
qed

lemma demo2_text: "utf8_length (canonicalJson demo2_lock) \<le> 20000"
proof -
  have "json_weight demo2_lock \<le> 20000"
    by (simp add: demo2_lock_def demo2_length show_int_def show_nat.simps digit_char_def)
  then show ?thesis using canonical_weight [of demo2_lock] by (simp del: json_weight.simps)
qed

lemma demo2_graph: "v2_graph [(''a'', ''1.0.0'')] [demo2_a, demo2_c] = Inr demo2_nodes"
  by code_simp

lemma demo2_clone: "cloneJsonEvidence V2_CANDIDATE_BYTES demo2_lock = Inr demo2_lock"
proof -
  have "\<exists>st. clone_val V2_CANDIDATE_BYTES 0 demo2_lock (0, 0) = Inr st"
    by (simp add: demo2_lock_def count_visit_def count_bytes_def V2_CANDIDATE_BYTES_def demo2_length max_safe_def)
  moreover have "utf8_length (canonicalJson demo2_lock) \<le> V2_CANDIDATE_BYTES" using demo2_text by (simp add: V2_CANDIDATE_BYTES_def)
  ultimately show ?thesis by (auto simp: cloneJsonEvidence_def simp del: clone_val.simps)
qed

definition demo2_input :: jsval where
  "demo2_input = JObj [(''profileId'', JStr ''p''), (''profileVersion'', JInt 1),
     (''topPackage'', JObj [(''name'', JStr ''a''), (''exactVersion'', JStr ''1.0.0''), (''exactEntrypointRelativePath'', JStr ''i.js'')]),
     (''registryOrigin'', JStr ''https://r/''),
     (''runtimeConstraint'', JObj [(''os'', JStr ''darwin''), (''architecture'', JStr ''arm64''), (''nodeMajor'', JInt 26),
        (''nodeVersion'', JStr ''26.0.0''), (''npmGraphGeneratorVersion'', JStr ''11.0.0''), (''lockfileVersion'', JInt 3)]),
     (''materializationRulesVersion'', JInt 1), (''archiveRulesVersion'', JInt 1), (''workerProtocolVersion'', JInt 2),
     (''limits'', limits_json PACKAGE_STAGE_HARD_CEILINGS), (''packageLock'', demo2_lock)]"

definition demo2 :: v2_candidate where
  "demo2 = \<lparr>vc_profileId = ''p'', vc_profileVersion = 1, vc_topName = ''a'', vc_topVersion = ''1.0.0'', vc_entrypoint = ''i.js'',
     vc_registryOrigin = ''https://r/'', vc_nodeVersion = ''26.0.0'', vc_npmVersion = ''11.0.0'', vc_materializationRules = 1,
     vc_archiveRules = 1, vc_limits = PACKAGE_STAGE_HARD_CEILINGS, vc_root = [(''a'', ''1.0.0'')], vc_nodes = demo2_nodes\<rparr>"

lemma demo2_data: "json_data demo2_lock"
  by (simp add: demo2_lock_def max_safe_def)

lemma demo2_texts:
  "isStageIdentifier ''p''" "isPackageName ''a''" "isPackageName ''c''" "is_v2_version ''1.0.0''" "is_v2_version ''3.0.0''"
  "is_v2_version ''26.0.0''" "is_v2_version ''11.0.0''" "nameFromPath ''node_modules/a'' = Inr ''a''" "nameFromPath ''node_modules/c'' = Inr ''c''"
  "sort_text [''node_modules/a'', ''node_modules/c''] = [''node_modules/a'', ''node_modules/c'']"
  "utf8_length ''1.0.0'' \<le> 256" "utf8_length ''*'' \<le> 256"
  by code_simp+

lemma demo2_integrity_ok: "parseSha512Integrity demo2_integrity \<noteq> None"
proof -
  have "parseSha512Integrity (demo_integrity (replicate 64 0)) = Some (replicate 64 0)"
    by (simp add: parseSha512Integrity_iff demo_integrity_def list_all_iff)
  then show ?thesis by (simp add: demo2_integrity_def)
qed

lemma demo2_paths:
  "portable_path PACKAGE_STAGE_HARD_CEILINGS ''i.js''" "portable_path PACKAGE_STAGE_HARD_CEILINGS ''node_modules/a''"
  "portable_path PACKAGE_STAGE_HARD_CEILINGS ''node_modules/c''"
  by (simp_all add: portable_path_def validatePortableRelativePath_def portable_text_def plain_segment_def is_control_def
      PACKAGE_STAGE_HARD_CEILINGS_def)

lemma demo2_lower: "locale_lower ''node_modules/c'' \<noteq> locale_lower ''node_modules/a''"
  by code_simp

lemma demo2_tarball: "validateTarball demo_value_urls ''https://r/'' ''https://r/a.tgz'' = Inr ()"
  by (simp add: validateTarball_def demo_value_urls_def is_plain_https_def ends_with_def)

lemma demo2_raw:
  "read_raw_node demo_value_urls ''https://r/'' ''node_modules/a'' (JObj [(''version'', JStr ''1.0.0''), (''resolved'', JStr ''https://r/a.tgz''),
     (''integrity'', JStr demo2_integrity), (''peerDependencies'', JObj [(''c'', JStr ''*'')])]) = Inr demo2_a"
  "read_raw_node demo_value_urls ''https://r/'' ''node_modules/c'' (JObj [(''version'', JStr ''3.0.0''), (''resolved'', JStr ''https://r/a.tgz''),
     (''integrity'', JStr demo2_integrity), (''peer'', JBool True)]) = Inr demo2_c"
  using demo2_texts demo2_integrity_ok demo2_tarball
  by (simp_all add: read_raw_node_def own_record_def record_keys_def v2_flags_def v2_fields_def want_text_def v2_stringMap_def
      v2_string_def normalizeMeta_def entries_def demo2_a_def demo2_c_def)

lemma demo2_parsed: "parseLock demo_value_urls ''a'' ''1.0.0'' ''https://r/'' PACKAGE_STAGE_HARD_CEILINGS demo2_lock
    = Inr ([(''a'', ''1.0.0'')], [demo2_a, demo2_c])"
proof -
  have k: "sl_graphNodes PACKAGE_STAGE_HARD_CEILINGS = 256" by (simp add: PACKAGE_STAGE_HARD_CEILINGS_def)
  have l: "locale_lower (rn_path demo2_a) = locale_lower ''node_modules/a''" by (simp add: demo2_a_def)
  show ?thesis
    using demo2_texts demo2_paths demo2_raw demo2_lower k l
    by (simp add: parseLock_def Let_def demo2_lock_def own_record_def exact_props_def lock_keys_def is_text_def v2_stringMap_def
        v2_string_def want_text_def entries_def add_raw_node_def)
qed

lemma demo2_limits: "v2_limits (limits_json PACKAGE_STAGE_HARD_CEILINGS) = Inr PACKAGE_STAGE_HARD_CEILINGS"
  by (simp add: v2_limits_def own_record_def exact_props_def read_limits_def limits_json_def limit_entries_def
      PACKAGE_STAGE_HARD_CEILINGS_def isPositiveInteger_def nat_at_def within_ceilings_def limits_consistent_def max_safe_def)

lemma demo2_size: "json_weight (JObj (v2_json demo2)) \<le> 20000"
  by (simp add: v2_json_def demo2_def demo2_nodes_def v2_node_json_def demo2_a_def demo2_c_def texts_json_def meta_json_def entries_def
      requirement_json_def resolution_json_def limits_json_def limit_entries_def PACKAGE_STAGE_HARD_CEILINGS_def
      PEER_SEMANTICS_V2_CONTRACT_def V2_CANDIDATE_BYTES_def show_int_def show_nat.simps digit_char_def ARCHIVE_WORKER_PROTOCOL_VERSION_def demo2_length)

lemma demo2_compiled: "compileUnsignedCandidateV2 demo_value_urls demo2_input = Inr demo2"
proof -
  have size: "utf8_length (canonicalJson (JObj (v2_json demo2))) \<le> V2_CANDIDATE_BYTES"
    using canonical_weight [of "JObj (v2_json demo2)"] demo2_size by (simp add: V2_CANDIDATE_BYTES_def del: json_weight.simps)
  have e: "own_record demo2_input = Inr (case demo2_input of JObj kvs \<Rightarrow> kvs | _ \<Rightarrow> [])"
    by (simp add: demo2_input_def own_record_def demo2_lock_def limits_json_def)
  have k: "exact_props input_keys [''lowerCandidateByteLimit''] (case demo2_input of JObj kvs \<Rightarrow> kvs | _ \<Rightarrow> [])"
    by (simp add: demo2_input_def exact_props_def input_keys_def)
  have o: "normalizeRegistry demo_value_urls (JStr ''https://r/'') = Inr ''https://r/''"
    by (simp add: normalizeRegistry_def want_text_def demo_value_urls_def is_plain_https_def)
  show ?thesis
    using e k o size demo2_texts demo2_paths(1) demo2_limits demo2_clone demo2_parsed demo2_graph
    by (simp add: compileUnsignedCandidateV2_def demo2_input_def want_text_def want_positive_def own_record_def exact_props_def top_keys_def
        runtime_keys_def max_safe_def candidateByteLimit_def ARCHIVE_WORKER_PROTOCOL_VERSION_def demo2_def)
qed

theorem candidate_v2_checked_witness:
  "compileUnsignedCandidateV2 demo_value_urls demo2_input = Inr demo2 \<and> checked_graph [(''a'', ''1.0.0'')] demo2_nodes"
proof -
  have "keys_differ (at demo2_input ''packageLock'')" by (simp add: demo2_input_def demo2_lock_def)
  with candidate_v2_checked [OF demo2_compiled] demo2_compiled show ?thesis by (simp add: demo2_def)
qed

text \<open>Its payload.\<close>

definition demo2_payload :: jsval where
  "demo2_payload = v2_signed (demo2, v2_digest demo2)"

lemma hex_utf8: "list_all is_hex s \<Longrightarrow> utf8_length s = length s"
  by (induction s) (auto simp: is_hex_def is_digit_def)

lemma v2_digest_hash: "is_hash (v2_digest c)" "length (v2_digest c) = 64" "utf8_length (v2_digest c) = 64"
proof -
  show h: "is_hash (v2_digest c)" by (simp add: v2_digest_def sha256_is_hash)
  then show "length (v2_digest c) = 64" "utf8_length (v2_digest c) = 64" using hex_utf8 [of "v2_digest c"] by (simp_all add: is_hash_def)
qed

lemma demo2_payload_size: "json_weight demo2_payload \<le> 21000"
  using demo2_size by (simp add: demo2_payload_def v2_signed_def v2_digest_hash)

lemma demo2_payload_clone: "\<exists>st. clone_val V2_CANDIDATE_BYTES 0 demo2_payload (0, 0) = Inr st"
  by (simp add: demo2_payload_def v2_signed_def v2_json_def demo2_def demo2_nodes_def v2_node_json_def demo2_a_def demo2_c_def
      texts_json_def meta_json_def entries_def requirement_json_def resolution_json_def limits_json_def limit_entries_def
      PACKAGE_STAGE_HARD_CEILINGS_def PEER_SEMANTICS_V2_CONTRACT_def V2_CANDIDATE_BYTES_def ARCHIVE_WORKER_PROTOCOL_VERSION_def
      count_visit_def count_bytes_def demo2_length v2_digest_hash max_safe_def)

lemma demo2_retained:
  "foldM retained_record (map v2_node_json demo2_nodes) [retained_root (v2_json demo2 @ [(''candidateDigest'', JStr d)])]
     = Inr (case at demo2_lock ''packages'' of JObj kvs \<Rightarrow> kvs | _ \<Rightarrow> [])"
  by (simp add: demo2_nodes_def v2_node_json_def demo2_a_def demo2_c_def texts_json_def meta_json_def entries_def
      requirement_json_def resolution_json_def retained_record_def own_record_def exact_props_def v2_node_keys_def want_text_def
      flagged_def retained_root_def v2_json_def demo2_def demo2_lock_def)

lemma demo2_retained_input:
  "retained_input (v2_json demo2 @ [(''candidateDigest'', JStr d)]) (case at demo2_lock ''packages'' of JObj kvs \<Rightarrow> kvs | _ \<Rightarrow> []) = demo2_input"
  by (simp add: retained_input_def v2_json_def demo2_def demo2_input_def demo2_lock_def ARCHIVE_WORKER_PROTOCOL_VERSION_def)

lemma demo2_validated: "validateCandidateV2Payload demo_value_urls demo2_payload = Inr (demo2, v2_digest demo2)"
proof -
  let ?kvs = "v2_json demo2 @ [(''candidateDigest'', JStr (v2_digest demo2))]"
  have p: "demo2_payload = JObj ?kvs" by (simp add: demo2_payload_def v2_signed_def)
  have "utf8_length (canonicalJson demo2_payload) \<le> V2_CANDIDATE_BYTES"
    using canonical_weight [of demo2_payload] demo2_payload_size by (simp add: V2_CANDIDATE_BYTES_def del: json_weight.simps)
  then have c: "cloneJsonEvidence V2_CANDIDATE_BYTES demo2_payload = Inr demo2_payload"
    using demo2_payload_clone by (auto simp: cloneJsonEvidence_def simp del: clone_val.simps)
  have o: "own_record demo2_payload = Inr ?kvs" by (simp add: p own_record_def v2_json_def PEER_SEMANTICS_V2_CONTRACT_def texts_json_def limits_json_def)
  have k: "exact_props candidate_keys [] ?kvs" by (simp add: exact_props_def candidate_keys_def v2_json_def)
  have f: "own_prop ?kvs ''candidateDigest'' = JStr (v2_digest demo2)" "own_prop ?kvs ''semanticContract'' = PEER_SEMANTICS_V2_CONTRACT"
    "own_prop ?kvs ''graphNodes'' = JArr (map v2_node_json demo2_nodes)"
    "filter (\<lambda>p. fst p \<noteq> ''candidateDigest'') ?kvs = v2_json demo2"
    by (simp_all add: v2_json_def demo2_def)
  show ?thesis
    unfolding validateCandidateV2Payload_def
    using c o k f v2_digest_hash(1) demo2_retained demo2_retained_input demo2_compiled
    by (simp add: want_text_def)
qed

theorem payload_v2_rederived_witness:
  "validateCandidateV2Payload demo_value_urls demo2_payload = Inr (demo2, v2_digest demo2)
   \<and> (\<exists>kvs packages. demo2_payload = JObj kvs \<and> compileUnsignedCandidateV2 demo_value_urls (retained_input kvs packages) = Inr demo2)
   \<and> pinned_candidate demo_value_urls demo2 \<and> checked_graph [(''a'', ''1.0.0'')] demo2_nodes"
proof -
  have "keys_differ demo2_payload"
    by (simp add: demo2_payload_def v2_signed_def v2_json_def demo2_def demo2_nodes_def v2_node_json_def demo2_a_def demo2_c_def
        texts_json_def meta_json_def entries_def requirement_json_def resolution_json_def limits_json_def limit_entries_def
        PEER_SEMANTICS_V2_CONTRACT_def)
  note p = payload_v2_rederived [OF demo2_validated this]
  then have "checked_graph [(''a'', ''1.0.0'')] demo2_nodes" by (simp add: demo2_def)
  with p demo2_validated show ?thesis by blast
qed

end
