(* ===== verification/AcceptPlan.thy ===== *)
theory AcceptPlan
  imports ExactGraph Clock OneTime
begin

section \<open>Package staging: confirmation, plan and approval of an acceptance\<close>

text \<open>
  Models the authorities of src/stage/exact-production-graph.ts that follow the compilation of a
  candidate: the authority of candidates and of the reasons of their rejections, the confirmation
  of a candidate against the metadata of its registry, the plan to fetch and inspect its artifacts,
  the one-time approval of a plan, and the review that makes an accepted profile.

  Objects have addresses.  The transport, the clock and the abort signal are inputs, and so is the
  reader of dates, since an approval carries any text as its expiry.
\<close>

text \<open>A failure of a stage, or the \<open>RangeError\<close> that an instant beyond the last one raises.\<close>

datatype accept_error = Failed stage_error | Range_error

abbreviation must :: "stage_error \<Rightarrow> bool \<Rightarrow> accept_error + unit" where
  "must e ok \<equiv> ensure (Failed e) ok"

subsection \<open>Candidates\<close>

definition exact_json :: "exact_candidate \<Rightarrow> jsval" where
  "exact_json c = JObj
     [(''candidateSchemaVersion'', JInt 1), (''profileId'', ec_profileId c), (''profileVersion'', JInt (ec_profileVersion c)),
      (''topPackage'', JObj [(''name'', JStr (ec_topName c)), (''exactVersion'', JStr (ec_topVersion c)),
         (''exactEntrypointRelativePath'', JStr (ec_entrypoint c))]),
      (''registryOrigin'', JStr (ec_registryOrigin c)),
      (''runtimeConstraint'', JObj [(''os'', JStr ''darwin''), (''architecture'', JStr ''arm64''), (''nodeMajor'', JInt 26),
         (''nodeVersion'', JStr (ec_nodeVersion c)), (''npmGraphGeneratorVersion'', JStr (ec_npmVersion c)),
         (''lockfileVersion'', JInt 3)]),
      (''materializationRulesVersion'', JInt (ec_materializationRules c)), (''archiveRulesVersion'', JInt (ec_archiveRules c)),
      (''workerProtocolVersion'', JInt ARCHIVE_WORKER_PROTOCOL_VERSION), (''limits'', limits_json (ec_limits c)),
      (''graphNodes'', JArr (map node_json (ec_nodes c)))]"

definition exact_digest :: "exact_candidate \<Rightarrow> string" where
  "exact_digest c = sha256 (canonicalJson (exact_json c))"

type_synonym signed_candidate = "(exact_candidate \<times> string) object"

text \<open>The objects an authority has made: candidates, errors with their reasons, and the errors claimed.\<close>

record candidate_authority =
  ca_candidates :: "signed_candidate list"
  ca_errors :: "(nat \<times> exact_failure) list"
  ca_claimed :: "nat list"

definition new_candidate_authority :: candidate_authority where
  "new_candidate_authority = \<lparr>ca_candidates = [], ca_errors = [], ca_claimed = []\<rparr>"

text \<open>\<open>compile\<close>: the new object is the candidate or, on the left, the error that is thrown.\<close>

definition compile_exact :: "value_url_parser \<Rightarrow> nat \<Rightarrow> jsval \<Rightarrow> candidate_authority
    \<Rightarrow> (nat + signed_candidate) \<times> candidate_authority" where
  "compile_exact parse addr v A =
     (case compile_candidate parse v of
        Inl e \<Rightarrow> (Inl addr, A\<lparr>ca_errors := (addr, e) # ca_errors A\<rparr>)
      | Inr c \<Rightarrow> let ob = (addr, c, exact_digest c) in (Inr ob, A\<lparr>ca_candidates := ob # ca_candidates A\<rparr>))"

definition authenticates_candidate :: "candidate_authority \<Rightarrow> signed_candidate \<Rightarrow> bool" where
  "authenticates_candidate A c \<longleftrightarrow> c \<in> set (ca_candidates A)"

definition claimFailure :: "nat \<Rightarrow> candidate_authority \<Rightarrow> exact_failure option \<times> candidate_authority" where
  "claimFailure e A =
     (if e \<in> set (ca_claimed A) then (None, A)
      else case map_of (ca_errors A) e of
        None \<Rightarrow> (None, A)
      | Some f \<Rightarrow> (Some f, A\<lparr>ca_claimed := e # ca_claimed A\<rparr>))"

subsection \<open>The artifacts of a graph\<close>

record artifact_id =
  ai_packageName :: string
  ai_exactVersion :: string
  ai_tarballUrl :: jsval
  ai_sha512Integrity :: string

definition identity_of :: "graph_node \<Rightarrow> artifact_id" where
  "identity_of n = \<lparr>ai_packageName = gn_packageName n, ai_exactVersion = gn_exactVersion n,
     ai_tarballUrl = gn_tarballUrl n, ai_sha512Integrity = gn_sha512Integrity n\<rparr>"

definition identity_json :: "artifact_id \<Rightarrow> jsval" where
  "identity_json i = JObj [(''packageName'', JStr (ai_packageName i)), (''exactVersion'', JStr (ai_exactVersion i)),
     (''tarballUrl'', ai_tarballUrl i), (''sha512Integrity'', JStr (ai_sha512Integrity i))]"

text \<open>The text \<open>compareArtifactIdentity\<close> compares.\<close>

definition artifact_key :: "string \<Rightarrow> string \<Rightarrow> jsval \<Rightarrow> string" where
  "artifact_key name version url = name @ [CHR 0x00] @ version @ [CHR 0x00] @ js_string url"

definition compareArtifactIdentity :: "artifact_id \<Rightarrow> artifact_id \<Rightarrow> bool" where
  "compareArtifactIdentity a b \<longleftrightarrow> text_lt (artifact_key (ai_packageName a) (ai_exactVersion a) (ai_tarballUrl a))
     (artifact_key (ai_packageName b) (ai_exactVersion b) (ai_tarballUrl b))"

text \<open>A map from the canonical text of an identity to the identity, in the order of insertion.\<close>

definition identity_map :: "graph_node list \<Rightarrow> (string, artifact_id) omap" where
  "identity_map nodes = fold (\<lambda>n m. om_set (canonicalJson (identity_json (identity_of n))) (identity_of n) m) nodes []"

definition uniqueArtifactIdentities :: "graph_node list \<Rightarrow> artifact_id list" where
  "uniqueArtifactIdentities nodes = isort compareArtifactIdentity (map snd (identity_map nodes))"

subsection \<open>Confirmation of the metadata\<close>

record metadata_limits =
  ml_responseBytes :: int
  ml_aggregateBytes :: int
  ml_freshnessMs :: int
  ml_requestTimeoutMs :: int
  ml_totalTimeoutMs :: int

definition isBoundedInteger :: "int \<Rightarrow> int \<Rightarrow> jsval \<Rightarrow> bool" where
  "isBoundedInteger lo hi v = (case v of JNum (NInt i) \<Rightarrow> \<bar>i\<bar> \<le> max_safe \<and> lo \<le> i \<and> i \<le> hi | _ \<Rightarrow> False)"

definition int_at :: "jsval \<Rightarrow> string \<Rightarrow> int" where
  "int_at v k = (case at v k of JNum (NInt i) \<Rightarrow> i | _ \<Rightarrow> 0)"

definition read_metadata_limits :: "jsval \<Rightarrow> metadata_limits" where
  "read_metadata_limits v = \<lparr>ml_responseBytes = int_at v ''responseBytes'', ml_aggregateBytes = int_at v ''aggregateBytes'',
     ml_freshnessMs = int_at v ''freshnessMs'', ml_requestTimeoutMs = int_at v ''requestTimeoutMs'',
     ml_totalTimeoutMs = int_at v ''totalTimeoutMs''\<rparr>"

definition assertMetadataLimits :: "jsval \<Rightarrow> accept_error + metadata_limits" where
  "assertMetadataLimits v =
     (let l = read_metadata_limits v in
     rbind (must graph_metadata_invalid
        (isBoundedInteger 1 (16 * 1024 * 1024) (at v ''responseBytes'')
         \<and> isBoundedInteger (ml_responseBytes l) (128 * 1024 * 1024) (at v ''aggregateBytes'')
         \<and> isBoundedInteger 1 (24 * 60 * 60 * 1000) (at v ''freshnessMs'')
         \<and> isBoundedInteger 1 30000 (at v ''requestTimeoutMs'')
         \<and> isBoundedInteger (ml_requestTimeoutMs l) (5 * 60 * 1000) (at v ''totalTimeoutMs''))) (\<lambda>_. Inr l))"

record metadata_response =
  mr_status :: int
  mr_contentType :: string
  mr_responseBytes :: jnum
  mr_redirected :: bool
  mr_finalUrl :: string
  mr_packageName :: string
  mr_exactVersion :: string
  mr_tarballUrl :: string
  mr_sha512Integrity :: string

text \<open>
  What becomes of a request: an answer, a failure of the stage raised by the transport, another
  failure or the timeout, these with whether the outer signal is aborted by then.
\<close>

datatype fetch_outcome =
  Answered metadata_response | Stage_failure stage_error | Fetch_failure bool | Timed_out bool

fun fetchMetadataWithTimeout :: "fetch_outcome \<Rightarrow> accept_error + metadata_response" where
  "fetchMetadataWithTimeout (Answered r) = Inr r"
| "fetchMetadataWithTimeout (Stage_failure e) = Inl (Failed e)"
| "fetchMetadataWithTimeout (Fetch_failure aborted) = Inl (Failed (if aborted then artifact_cancelled else graph_metadata_incomplete))"
| "fetchMetadataWithTimeout (Timed_out aborted) = Inl (Failed (if aborted then artifact_cancelled else graph_metadata_incomplete))"

text \<open>
  The surroundings of a confirmation, by the number of the artifact: whether the signal is aborted
  before it, the milliseconds since the start, and what becomes of a request with a timeout.
\<close>

record metadata_env =
  me_aborted :: "nat \<Rightarrow> bool"
  me_elapsed :: "nat \<Rightarrow> int"
  me_fetch :: "nat \<Rightarrow> artifact_id \<Rightarrow> int \<Rightarrow> fetch_outcome"

text \<open>\<open>name.replace('/', '%2f')\<close>: the first one only.\<close>

definition escape_slash :: "string \<Rightarrow> string" where
  "escape_slash s = (case dropWhile (\<lambda>c. c \<noteq> CHR ''/'') s of
     [] \<Rightarrow> s | c # r \<Rightarrow> takeWhile (\<lambda>c. c \<noteq> CHR ''/'') s @ ''%2f'' @ r)"

definition metadataUrl :: "string \<Rightarrow> string \<Rightarrow> string \<Rightarrow> string" where
  "metadataUrl origin name version = origin @ escape_slash name @ ''/'' @ version"

text \<open>The media type before the first semicolon, in lower case.\<close>

definition media_type :: "string \<Rightarrow> string" where
  "media_type s = hd (split_on (CHR '';'') (map lower_c s))"

definition response_ok :: "string \<Rightarrow> metadata_limits \<Rightarrow> artifact_id \<Rightarrow> int \<Rightarrow> metadata_response \<Rightarrow> bool" where
  "response_ok origin l i sofar r \<longleftrightarrow> mr_status r = 200 \<and> media_type (mr_contentType r) = ''application/json''
     \<and> (case mr_responseBytes r of
          NInt n \<Rightarrow> \<bar>n\<bar> \<le> max_safe \<and> 0 < n \<and> n \<le> ml_responseBytes l \<and> sofar + n \<le> ml_aggregateBytes l | _ \<Rightarrow> False)
     \<and> \<not> mr_redirected r \<and> mr_finalUrl r = metadataUrl origin (ai_packageName i) (ai_exactVersion i)
     \<and> mr_packageName r = ai_packageName i \<and> mr_exactVersion r = ai_exactVersion i
     \<and> JStr (mr_tarballUrl r) = ai_tarballUrl i \<and> mr_sha512Integrity r = ai_sha512Integrity i"

record metadata_observation = artifact_id +
  mo_responseBytes :: int

definition observe :: "artifact_id \<Rightarrow> int \<Rightarrow> metadata_observation" where
  "observe i n = \<lparr>ai_packageName = ai_packageName i, ai_exactVersion = ai_exactVersion i, ai_tarballUrl = ai_tarballUrl i,
     ai_sha512Integrity = ai_sha512Integrity i, mo_responseBytes = n\<rparr>"

definition bytes_of :: "jnum \<Rightarrow> int" where
  "bytes_of n = (case n of NInt i \<Rightarrow> i | _ \<Rightarrow> 0)"

text \<open>One round of the loop: the number of the artifact, the bytes so far and the observations.\<close>

definition confirm_one :: "metadata_env \<Rightarrow> string \<Rightarrow> metadata_limits \<Rightarrow> artifact_id
    \<Rightarrow> nat \<times> int \<times> metadata_observation list \<Rightarrow> accept_error + nat \<times> int \<times> metadata_observation list" where
  "confirm_one E origin l i = (\<lambda>(k, sofar, obs).
     (let remaining = ml_totalTimeoutMs l - me_elapsed E k in
     rbind (must artifact_cancelled (\<not> me_aborted E k)) (\<lambda>_.
     rbind (must graph_metadata_incomplete (0 < remaining)) (\<lambda>_.
     rbind (fetchMetadataWithTimeout (me_fetch E k i (min (ml_requestTimeoutMs l) remaining))) (\<lambda>r.
     rbind (must graph_metadata_invalid (response_ok origin l i sofar r)) (\<lambda>_.
     let n = bytes_of (mr_responseBytes r) in Inr (k + 1, sofar + n, obs @ [observe i n])))))))"

record observation_set =
  os_candidateDigest :: string
  os_registryOrigin :: string
  os_observedAt :: string
  os_expiresAt :: string
  os_observations :: "metadata_observation list"

definition observation_json :: "metadata_observation \<Rightarrow> jsval" where
  "observation_json ob = JObj [(''packageName'', JStr (ai_packageName ob)), (''exactVersion'', JStr (ai_exactVersion ob)),
     (''tarballUrl'', ai_tarballUrl ob), (''sha512Integrity'', JStr (ai_sha512Integrity ob)),
     (''responseBytes'', JInt (mo_responseBytes ob))]"

definition observations_json :: "observation_set \<Rightarrow> jsval" where
  "observations_json s = JObj [(''observationSchemaVersion'', JInt 1), (''candidateDigest'', JStr (os_candidateDigest s)),
     (''registryOrigin'', JStr (os_registryOrigin s)), (''observedAt'', JStr (os_observedAt s)),
     (''expiresAt'', JStr (os_expiresAt s)), (''observations'', JArr (map observation_json (os_observations s)))]"

definition observation_digest :: "observation_set \<Rightarrow> string" where
  "observation_digest s = sha256 (canonicalJson (observations_json s))"

type_synonym signed_observations = "(observation_set \<times> string) object"

definition observation_lt :: "metadata_observation \<Rightarrow> metadata_observation \<Rightarrow> bool" where
  "observation_lt a b \<longleftrightarrow> text_lt (artifact_key (ai_packageName a) (ai_exactVersion a) (ai_tarballUrl a))
     (artifact_key (ai_packageName b) (ai_exactVersion b) (ai_tarballUrl b))"

definition iso_or_raise :: "nat \<Rightarrow> accept_error + string" where
  "iso_or_raise t = (case toISOString t of None \<Rightarrow> Inl Range_error | Some s \<Rightarrow> Inr s)"

text \<open>\<open>confirm\<close>; the clock reads \<open>None\<close> for an invalid date.\<close>

definition confirm :: "metadata_env \<Rightarrow> candidate_authority \<Rightarrow> nat \<Rightarrow> nat option \<Rightarrow> jsval \<Rightarrow> signed_candidate
    \<Rightarrow> signed_observations list \<Rightarrow> accept_error + signed_observations \<times> signed_observations list" where
  "confirm E A addr now v candidate made =
     (let c = fst (snd candidate); expected = uniqueArtifactIdentities (ec_nodes c) in
     rbind (must profile_not_authenticated (authenticates_candidate A candidate)) (\<lambda>_.
     rbind (assertMetadataLimits v) (\<lambda>l.
     rbind (must graph_metadata_invalid (now \<noteq> None)) (\<lambda>_.
     rbind (foldM (confirm_one E (ec_registryOrigin c) l) expected (0, 0, [])) (\<lambda>(k, sofar, obs).
     rbind (must graph_metadata_incomplete (length obs = length expected)) (\<lambda>_.
     rbind (iso_or_raise (the now)) (\<lambda>observedAt.
     rbind (iso_or_raise (the now + nat (ml_freshnessMs l))) (\<lambda>expiresAt.
       let s = \<lparr>os_candidateDigest = snd (snd candidate), os_registryOrigin = ec_registryOrigin c,
             os_observedAt = observedAt, os_expiresAt = expiresAt, os_observations = isort observation_lt obs\<rparr>;
           ob = (addr, s, observation_digest s)
       in Inr (ob, ob # made)))))))))"

definition authenticates_metadata :: "signed_observations list \<Rightarrow> signed_observations \<Rightarrow> bool" where
  "authenticates_metadata made s \<longleftrightarrow> s \<in> set made"

subsection \<open>The plan\<close>

record artifact_identity = artifact_id +
  ar_installPaths :: "string list"

record acceptance_plan =
  ap_sessionId :: string
  ap_candidateDigest :: string
  ap_observationDigest :: string
  ap_metadataExpiresAt :: string
  ap_registryOrigin :: string
  ap_artifacts :: "artifact_identity list"
  ap_limits :: stage_limits
  ap_runtimeDigest :: string
  ap_rootBinding :: string
  ap_requestTimeoutMs :: int
  ap_totalTimeoutMs :: int

definition artifact_json :: "artifact_identity \<Rightarrow> jsval" where
  "artifact_json a = JObj [(''packageName'', JStr (ai_packageName a)), (''exactVersion'', JStr (ai_exactVersion a)),
     (''tarballUrl'', ai_tarballUrl a), (''sha512Integrity'', JStr (ai_sha512Integrity a)),
     (''installPaths'', JArr (map JStr (ar_installPaths a)))]"

definition acceptance_plan_json :: "acceptance_plan \<Rightarrow> jsval" where
  "acceptance_plan_json p = JObj
     [(''planVersion'', JInt 1), (''acceptanceSessionId'', JStr (ap_sessionId p)),
      (''candidateDigest'', JStr (ap_candidateDigest p)), (''metadataObservationDigest'', JStr (ap_observationDigest p)),
      (''metadataExpiresAt'', JStr (ap_metadataExpiresAt p)), (''registryOrigin'', JStr (ap_registryOrigin p)),
      (''artifacts'', JArr (map artifact_json (ap_artifacts p))), (''limits'', limits_json (ap_limits p)),
      (''runtimeDigest'', JStr (ap_runtimeDigest p)), (''workerProtocolVersion'', JInt ARCHIVE_WORKER_PROTOCOL_VERSION),
      (''quarantineRootBinding'', JStr (ap_rootBinding p)), (''artifactRequestTimeoutMs'', JInt (ap_requestTimeoutMs p)),
      (''totalArtifactTimeoutMs'', JInt (ap_totalTimeoutMs p)),
      (''consequence'', JStr ''exact_artifact_download_and_read_only_inspection'')]"

definition acceptance_hash :: "acceptance_plan \<Rightarrow> string" where
  "acceptance_hash p = sha256 (canonicalJson (acceptance_plan_json p))"

type_synonym signed_plan = "(acceptance_plan \<times> string) object"

definition sameArtifact :: "graph_node \<Rightarrow> artifact_id \<Rightarrow> bool" where
  "sameArtifact n i \<longleftrightarrow> gn_packageName n = ai_packageName i \<and> gn_exactVersion n = ai_exactVersion i
     \<and> gn_tarballUrl n = ai_tarballUrl i \<and> gn_sha512Integrity n = ai_sha512Integrity i"

definition with_paths :: "graph_node list \<Rightarrow> artifact_id \<Rightarrow> artifact_identity" where
  "with_paths nodes i = \<lparr>ai_packageName = ai_packageName i, ai_exactVersion = ai_exactVersion i, ai_tarballUrl = ai_tarballUrl i,
     ai_sha512Integrity = ai_sha512Integrity i,
     ar_installPaths = sort_text (map gn_installPath (filter (\<lambda>n. sameArtifact n i) nodes))\<rparr>"

text \<open>
  Reading of a date (\<open>None\<close> is NaN), and the comparison \<open>new Date(text) <= now\<close>, which an invalid
  date makes false.
\<close>

type_synonym date_reader = "string \<Rightarrow> int option"

definition expired_by :: "date_reader \<Rightarrow> string \<Rightarrow> nat option \<Rightarrow> bool" where
  "expired_by dates s now = (case (dates s, now) of (Some e, Some n) \<Rightarrow> e \<le> int n | _ \<Rightarrow> False)"

record plan_input =
  pi_sessionId :: "string option"
  pi_runtimeDigest :: string
  pi_rootBinding :: string
  pi_requestTimeoutMs :: jsval
  pi_totalTimeoutMs :: jsval
  pi_now :: "nat option"

definition int_of :: "jsval \<Rightarrow> int" where
  "int_of v = (case v of JNum (NInt i) \<Rightarrow> i | _ \<Rightarrow> 0)"

definition plan_input_ok :: "plan_input \<Rightarrow> bool" where
  "plan_input_ok inp \<longleftrightarrow> is_hash (pi_runtimeDigest inp) \<and> is_hash (pi_rootBinding inp)
     \<and> isBoundedInteger 100 120000 (pi_requestTimeoutMs inp)
     \<and> isBoundedInteger (int_of (pi_requestTimeoutMs inp)) (30 * 60 * 1000) (pi_totalTimeoutMs inp)"

definition is_session_id :: "string \<Rightarrow> bool" where
  "is_session_id s \<longleftrightarrow> length s = 32 \<and> list_all is_hex s"

text \<open>\<open>create\<close>; a session id that is not given is random.\<close>

definition create_acceptance_plan :: "date_reader \<Rightarrow> candidate_authority \<Rightarrow> signed_observations list \<Rightarrow> nat \<Rightarrow> string
    \<Rightarrow> signed_candidate \<Rightarrow> signed_observations \<Rightarrow> plan_input \<Rightarrow> signed_plan list
    \<Rightarrow> accept_error + signed_plan \<times> signed_plan list" where
  "create_acceptance_plan dates A observed addr random candidate metadata inp made =
     (let c = fst (snd candidate); m = fst (snd metadata); expired = expired_by dates (os_expiresAt m) (pi_now inp);
          session = (case pi_sessionId inp of None \<Rightarrow> random | Some s \<Rightarrow> s) in
     rbind (must profile_not_authenticated (authenticates_candidate A candidate)) (\<lambda>_.
     rbind (must graph_metadata_incomplete (authenticates_metadata observed metadata)) (\<lambda>_.
     rbind (must (if expired then metadata_expired else artifact_plan_invalid)
        (os_candidateDigest m = snd (snd candidate) \<and> \<not> expired \<and> plan_input_ok inp)) (\<lambda>_.
     rbind (must artifact_plan_invalid (is_session_id session)) (\<lambda>_.
       let p = \<lparr>ap_sessionId = session, ap_candidateDigest = snd (snd candidate), ap_observationDigest = snd (snd metadata),
             ap_metadataExpiresAt = os_expiresAt m, ap_registryOrigin = ec_registryOrigin c,
             ap_artifacts = map (with_paths (ec_nodes c)) (uniqueArtifactIdentities (ec_nodes c)), ap_limits = ec_limits c,
             ap_runtimeDigest = pi_runtimeDigest inp, ap_rootBinding = pi_rootBinding inp,
             ap_requestTimeoutMs = int_of (pi_requestTimeoutMs inp), ap_totalTimeoutMs = int_of (pi_totalTimeoutMs inp)\<rparr>;
           ob = (addr, p, acceptance_hash p)
       in Inr (ob, ob # made))))))"

definition authenticates_acceptance :: "signed_plan list \<Rightarrow> signed_plan \<Rightarrow> bool" where
  "authenticates_acceptance made p \<longleftrightarrow> p \<in> set made"

subsection \<open>The approval of a plan\<close>

text \<open>The consequence of a plan is always the same, and so is that of an approval.\<close>

record acceptance_approval =
  xa_approvalId :: string
  xa_planHash :: string
  xa_expiresAt :: string

record acceptance_approvals =
  xs_issued :: "acceptance_approval object list"
  xs_consumed :: "nat list"

definition issue_acceptance :: "date_reader \<Rightarrow> signed_plan list \<Rightarrow> nat \<Rightarrow> string \<Rightarrow> signed_plan \<Rightarrow> string option \<Rightarrow> string
    \<Rightarrow> acceptance_approvals \<Rightarrow> accept_error + acceptance_approval object \<times> acceptance_approvals" where
  "issue_acceptance dates made addr random p given expiresAt X =
     (let i = (case given of None \<Rightarrow> random | Some s \<Rightarrow> s) in
     rbind (must plan_not_authenticated (authenticates_acceptance made p)) (\<lambda>_.
     rbind (must approval_invalid (is_session_id i \<and> dates expiresAt \<noteq> None)) (\<lambda>_.
       let a = (addr, \<lparr>xa_approvalId = i, xa_planHash = snd (snd p), xa_expiresAt = expiresAt\<rparr>)
       in Inr (a, X\<lparr>xs_issued := a # xs_issued X\<rparr>))))"

definition consume_acceptance :: "date_reader \<Rightarrow> signed_plan list \<Rightarrow> acceptance_approval object \<Rightarrow> signed_plan \<Rightarrow> nat option
    \<Rightarrow> acceptance_approvals \<Rightarrow> accept_error + acceptance_approvals" where
  "consume_acceptance dates made a p now X =
     rbind (must plan_not_authenticated (authenticates_acceptance made p)) (\<lambda>_.
     rbind (must approval_invalid (a \<in> set (xs_issued X) \<and> xa_planHash (snd a) = snd (snd p))) (\<lambda>_.
     rbind (must approval_consumed (fst a \<notin> set (xs_consumed X))) (\<lambda>_.
     rbind (must metadata_expired (\<not> expired_by dates (xa_expiresAt (snd a)) now
        \<and> \<not> expired_by dates (ap_metadataExpiresAt (fst (snd p))) now)) (\<lambda>_.
     Inr (X\<lparr>xs_consumed := fst a # xs_consumed X\<rparr>)))))"

text \<open>What is attempted: the plans that are known, the approval, the plan and the time.\<close>

interpretation acceptances: one_time
  "\<lambda>(dates, made, a, p, now) X. consume_acceptance dates made a p now X" xs_consumed "\<lambda>(dates, made, a, p, now). fst a"
  by unfold_locales (auto simp: consume_acceptance_def rbind_Inr_iff)

subsection \<open>Evidence and the review of a profile\<close>

record accepted_artifact = artifact_identity +
  ae_compressedBytes :: nat
  ae_expandedBytes :: nat
  ae_entryCount :: nat
  ae_transcriptDigest :: string
  ae_manifestSha256 :: string
  ae_projectionDigest :: string

record acceptance_evidence =
  av_candidateDigest :: string
  av_planHash :: string
  av_artifacts :: "accepted_artifact list"

definition accepted_json :: "accepted_artifact \<Rightarrow> jsval" where
  "accepted_json a = JObj [(''installPaths'', JArr (map JStr (ar_installPaths a))), (''packageName'', JStr (ai_packageName a)),
     (''exactVersion'', JStr (ai_exactVersion a)), (''tarballUrl'', ai_tarballUrl a),
     (''sha512Integrity'', JStr (ai_sha512Integrity a)), (''compressedBytes'', JInt (int (ae_compressedBytes a))),
     (''expandedBytes'', JInt (int (ae_expandedBytes a))), (''archiveEntryCount'', JInt (int (ae_entryCount a))),
     (''archiveTranscriptDigest'', JStr (ae_transcriptDigest a)), (''packageJsonBodySha256'', JStr (ae_manifestSha256 a)),
     (''packageManifestProjectionDigest'', JStr (ae_projectionDigest a))]"

text \<open>The authority of evidence is an interface here; \<open>cleanupComplete\<close> is \<open>true\<close> in all evidence it makes.\<close>

definition production_profile_json :: "signed_candidate \<Rightarrow> accepted_artifact list \<Rightarrow> jsval" where
  "production_profile_json candidate arts = JObj
     [(''productionProfileSchemaVersion'', JInt 1),
      (''candidate'', (case exact_json (fst (snd candidate)) of
          JObj kvs \<Rightarrow> JObj (kvs @ [(''candidateDigest'', JStr (snd (snd candidate)))]) | v \<Rightarrow> v)),
      (''artifactAcceptance'', JArr (map accepted_json arts))]"

record production_profile =
  pp_candidate :: signed_candidate
  pp_artifacts :: "accepted_artifact list"
  pp_digest :: string

definition acceptForTest :: "candidate_authority \<Rightarrow> (acceptance_evidence object \<Rightarrow> bool) \<Rightarrow> nat \<Rightarrow> signed_candidate
    \<Rightarrow> acceptance_evidence object \<Rightarrow> production_profile object list
    \<Rightarrow> accept_error + production_profile object \<times> production_profile object list" where
  "acceptForTest A authentic addr candidate evidence made =
     rbind (must profile_not_authenticated (authenticates_candidate A candidate)) (\<lambda>_.
     rbind (must acceptance_incomplete
        (authentic evidence \<and> av_candidateDigest (snd evidence) = snd (snd candidate)
         \<and> length (av_artifacts (snd evidence)) = length (uniqueArtifactIdentities (ec_nodes (fst (snd candidate)))))) (\<lambda>_.
       let arts = av_artifacts (snd evidence);
           ob = (addr, \<lparr>pp_candidate = candidate, pp_artifacts = arts,
             pp_digest = sha256 (canonicalJson (production_profile_json candidate arts))\<rparr>)
       in Inr (ob, ob # made)))"

end
