(* ===== verification/ReadOnlyFile.thy ===== *)
theory ReadOnlyFile
  imports AcceptPlan Sha512
begin

section \<open>Package staging: artifact files\<close>

text \<open>
  Models src/stage/read-only-artifact-file.ts: the private root directory, the download of the
  artifacts of an approved plan into files of that root, their removal, and the source that
  hands the bytes of a file to the archive worker.

  What the file system, the transport, the clock and the abort signal answer is an input: each
  call can fail, and the answer to \<open>stat\<close> is whatever the file has become.  The paths that were
  created and not removed are recorded, so that leftovers can be spoken of.

  An exception is \<open>Some e\<close> for a failure of the stage and \<open>None\<close> for any other.
\<close>

type_synonym raised = "stage_error option"

definition ensure_file :: "bool \<Rightarrow> raised + unit" where
  "ensure_file ok = ensure (Some artifact_file_invalid) ok"

lemma ensure_file_Inr [simp]: "ensure_file ok = Inr u \<longleftrightarrow> ok"
  by (simp add: ensure_file_def)

text \<open>A system call: what it gives, or an exception that is no failure of the stage.\<close>

definition call :: "'a option \<Rightarrow> raised + 'a" where
  "call x = (case x of None \<Rightarrow> Inl None | Some a \<Rightarrow> Inr a)"

lemma call_Inr [simp]: "call x = Inr a \<longleftrightarrow> x = Some a"
  by (auto simp: call_def split: option.splits)

subsection \<open>Identities of files\<close>

text \<open>
  \<open>BigIntStats\<close>; the numbers are compared as texts in the code and as numbers here.  The user id
  of the process is \<open>None\<close> where the platform has none.
\<close>

record file_stat =
  fst_isFile :: bool
  fst_isDirectory :: bool
  fst_isLink :: bool
  fst_dev :: nat
  fst_ino :: nat
  fst_uid :: nat
  fst_mode :: nat
  fst_nlink :: nat
  fst_size :: nat
  fst_mtime :: nat
  fst_ctime :: nat

record file_identity =
  fi_device :: nat
  fi_inode :: nat
  fi_owner :: nat
  fi_mode :: nat
  fi_links :: nat
  fi_size :: nat
  fi_modified :: nat
  fi_changed :: nat

text \<open>\<open>mode & 0o777\<close>: the nine low bits.\<close>

definition permissions :: "nat \<Rightarrow> nat" where
  "permissions m = m mod 512"

definition uid_matches :: "nat option \<Rightarrow> file_stat \<Rightarrow> bool" where
  "uid_matches uid s = (case uid of None \<Rightarrow> True | Some u \<Rightarrow> fst_uid s = u)"

definition matchesStableFileIdentity :: "nat option \<Rightarrow> file_stat \<Rightarrow> file_identity \<Rightarrow> bool" where
  "matchesStableFileIdentity uid s i \<longleftrightarrow> fst_isFile s \<and> \<not> fst_isLink s \<and> uid_matches uid s
     \<and> permissions (fst_mode s) = 384 \<and> fst_nlink s = 1 \<and> fst_dev s = fi_device i \<and> fst_ino s = fi_inode i
     \<and> fst_uid s = fi_owner i \<and> fst_mode s = fi_mode i \<and> fst_nlink s = fi_links i"

definition matchesFileIdentity :: "nat option \<Rightarrow> file_stat \<Rightarrow> file_identity \<Rightarrow> bool" where
  "matchesFileIdentity uid s i \<longleftrightarrow> fst_isFile s \<and> \<not> fst_isLink s \<and> uid_matches uid s
     \<and> permissions (fst_mode s) = 384 \<and> fst_nlink s = 1 \<and> fst_dev s = fi_device i \<and> fst_ino s = fi_inode i
     \<and> fst_uid s = fi_owner i \<and> fst_mode s = fi_mode i \<and> fst_nlink s = fi_links i \<and> fst_size s = fi_size i
     \<and> fst_mtime s = fi_modified i \<and> fst_ctime s = fi_changed i"

definition identity_of_stat :: "file_stat \<Rightarrow> file_identity" where
  "identity_of_stat s = \<lparr>fi_device = fst_dev s, fi_inode = fst_ino s, fi_owner = fst_uid s, fi_mode = fst_mode s,
     fi_links = fst_nlink s, fi_size = fst_size s, fi_modified = fst_mtime s, fi_changed = fst_ctime s\<rparr>"

definition captureFileIdentity :: "nat option \<Rightarrow> nat \<Rightarrow> file_stat \<Rightarrow> raised + file_identity" where
  "captureFileIdentity uid expectedBytes s =
     (let i = identity_of_stat s in
     rbind (ensure_file (matchesFileIdentity uid s i)) (\<lambda>_.
     rbind (ensure_file (fst_size s = expectedBytes)) (\<lambda>_. Inr i)))"

definition sameExactStat :: "file_stat \<Rightarrow> file_stat \<Rightarrow> bool" where
  "sameExactStat a b \<longleftrightarrow> fst_dev a = fst_dev b \<and> fst_ino a = fst_ino b \<and> fst_uid a = fst_uid b \<and> fst_mode a = fst_mode b
     \<and> fst_nlink a = fst_nlink b \<and> fst_size a = fst_size b \<and> fst_mtime a = fst_mtime b \<and> fst_ctime a = fst_ctime b"

subsection \<open>The private root\<close>

record private_root =
  pr_path :: string
  pr_device :: nat
  pr_inode :: nat
  pr_owner :: nat
  pr_mode :: nat

definition root_json :: "private_root \<Rightarrow> jsval" where
  "root_json r = JObj [(''path'', JStr (pr_path r)), (''device'', JStr (show_nat (pr_device r))),
     (''inode'', JStr (show_nat (pr_inode r))), (''owner'', JStr (show_nat (pr_owner r))), (''mode'', JStr (show_nat (pr_mode r)))]"

definition root_binding :: "private_root \<Rightarrow> string" where
  "root_binding r = sha256 (canonicalJson (root_json r))"

type_synonym bound_root = "(private_root \<times> string) object"

definition private_root_stat :: "nat option \<Rightarrow> file_stat \<Rightarrow> bool" where
  "private_root_stat uid s \<longleftrightarrow> fst_isDirectory s \<and> \<not> fst_isLink s \<and> uid_matches uid s \<and> permissions (fst_mode s) = 448"

text \<open>A failure that is none of the stage becomes \<open>e\<close>.\<close>

definition stage_or :: "stage_error \<Rightarrow> raised \<Rightarrow> stage_error" where
  "stage_or e r = (case r of None \<Rightarrow> e | Some e' \<Rightarrow> e')"

definition settle :: "stage_error \<Rightarrow> raised + 'a \<Rightarrow> stage_error + 'a" where
  "settle e r = (case r of Inl x \<Rightarrow> Inl (stage_or e x) | Inr a \<Rightarrow> Inr a)"

lemma settle_Inr [simp]: "settle e r = Inr a \<longleftrightarrow> r = Inr a"
  by (auto simp: settle_def split: sum.splits)

text \<open>\<open>capture\<close>: the canonical path (\<open>realpath\<close>) and what \<open>lstat\<close> finds there.\<close>

definition capture_root :: "nat option \<Rightarrow> nat \<Rightarrow> string option \<Rightarrow> file_stat option \<Rightarrow> bound_root list
    \<Rightarrow> stage_error + bound_root \<times> bound_root list" where
  "capture_root uid addr canonical observed made = settle artifact_file_invalid
     (rbind (call canonical) (\<lambda>path. rbind (call observed) (\<lambda>s.
      rbind (ensure_file (private_root_stat uid s)) (\<lambda>_.
        let r = \<lparr>pr_path = path, pr_device = fst_dev s, pr_inode = fst_ino s, pr_owner = fst_uid s, pr_mode = fst_mode s\<rparr>;
            ob = (addr, r, root_binding r)
        in Inr (ob, ob # made)))))"

definition revalidate :: "nat option \<Rightarrow> bound_root list \<Rightarrow> bound_root \<Rightarrow> file_stat option \<Rightarrow> raised + unit" where
  "revalidate uid made root observed =
     (let r = fst (snd root) in
     rbind (ensure_file (root \<in> set made)) (\<lambda>_.
     case observed of
       None \<Rightarrow> Inl (Some artifact_file_invalid)
     | Some s \<Rightarrow> ensure_file (private_root_stat uid s \<and> fst_dev s = pr_device r \<and> fst_ino s = pr_inode r
         \<and> fst_uid s = pr_owner r \<and> fst_mode s = pr_mode r)))"

subsection \<open>Writing\<close>

text \<open>\<open>handle.write\<close> at a position of the file; a gap would be filled with zeros.\<close>

definition write_at :: "nat \<Rightarrow> byte list \<Rightarrow> byte list \<Rightarrow> byte list" where
  "write_at pos bytes file = take pos (file @ replicate (pos - length file) 0) @ bytes @ drop (pos + length bytes) file"

text \<open>
  The loop that writes a chunk from a position on: each call answers how many bytes were written
  (\<open>None\<close> when it throws).  When the answers end, so does the model, as if the call threw.
\<close>

fun write_chunk :: "byte list \<Rightarrow> nat \<Rightarrow> int option list \<Rightarrow> byte list \<Rightarrow> raised + byte list" where
  "write_chunk [] pos answers file = Inr file"
| "write_chunk rest pos [] file = Inl None"
| "write_chunk rest pos (None # answers) file = Inl None"
| "write_chunk rest pos (Some n # answers) file =
     (if n \<le> 0 then Inl (Some artifact_file_invalid)
      else write_chunk (drop (nat n) rest) (pos + nat n) answers (write_at pos (take (nat n) rest) file))"

text \<open>
  What \<open>waitUntilDeadline\<close> gives: the value, an exception of the promise, or the end by the
  deadline or the abort of the download, with whether the outer signal is aborted.
\<close>

datatype 'a awaited = Delivered 'a | Thrown raised | Ended bool

fun waitUntilDeadline :: "'a awaited \<Rightarrow> raised + 'a" where
  "waitUntilDeadline (Delivered a) = Inr a"
| "waitUntilDeadline (Thrown x) = Inl x"
| "waitUntilDeadline (Ended aborted) = Inl (Some (if aborted then artifact_cancelled else artifact_file_invalid))"

text \<open>
  One piece of a body: the awaited value, whether the signal is aborted then, and the answers to the
  writes.  A value may be no bytes at all.
\<close>

type_synonym body_piece = "byte list option awaited \<times> bool \<times> int option list"

text \<open>The loop over a body: the bytes so far are those hashed; the file is what was written.\<close>

fun receive :: "stage_limits \<Rightarrow> nat \<Rightarrow> body_piece list \<Rightarrow> byte list \<Rightarrow> byte list \<Rightarrow> raised + byte list \<times> byte list" where
  "receive l before [] got file = Inr (got, file)"
| "receive l before ((piece, aborted, answers) # ps) got file =
     rbind (waitUntilDeadline piece) (\<lambda>value.
     rbind (ensure (Some artifact_cancelled) (\<not> aborted)) (\<lambda>_.
     case value of
       None \<Rightarrow> Inl (Some artifact_file_invalid)
     | Some chunk \<Rightarrow>
         (let n = length got + length chunk in
         rbind (ensure (Some artifact_too_large) (n \<le> sl_compressedArtifactBytes l \<and> before + n \<le> sl_totalCompressedBytes l)) (\<lambda>_.
         rbind (write_chunk chunk (length got) answers file) (\<lambda>file'. receive l before ps (got @ chunk) file')))))"

subsection \<open>One artifact\<close>

record file_response =
  fr_status :: int
  fr_redirected :: bool
  fr_finalUrl :: string
  fr_contentType :: string
  fr_contentEncoding :: string
  fr_contentLength :: "int option"
  fr_body :: "body_piece list"

definition file_response_ok :: "stage_limits \<Rightarrow> artifact_identity \<Rightarrow> file_response \<Rightarrow> bool" where
  "file_response_ok l a r \<longleftrightarrow> fr_status r = 200 \<and> \<not> fr_redirected r \<and> JStr (fr_finalUrl r) = ai_tarballUrl a
     \<and> fr_contentEncoding r = ''identity''
     \<and> media_type (fr_contentType r) \<in> {''application/octet-stream'', ''application/gzip''}
     \<and> (case fr_contentLength r of None \<Rightarrow> True
        | Some n \<Rightarrow> \<bar>n\<bar> \<le> max_safe \<and> 0 < n \<and> n \<le> int (sl_compressedArtifactBytes l))"

datatype unlink_answer = Unlinked | No_entry | Unlink_failed

text \<open>The answers of the surroundings of one download, in the order of the calls.\<close>

record file_host =
  fh_rootStat :: "file_stat option"
  fh_random :: string
  fh_opened :: bool
  fh_firstStat :: "file_stat option"
  fh_response :: "file_response awaited"
  fh_synced :: bool
  fh_stat :: "file_stat option"
  fh_closed :: bool
  fh_pathStat :: "file_stat option"
  fh_cleanupStat :: "file_stat option"
  fh_unlink :: unlink_answer
  fh_aborted :: bool

record artifact_file =
  af_artifact :: artifact_identity
  af_path :: string
  af_compressedBytes :: nat
  af_identity :: file_identity

text \<open>\<open>join\<close> of a canonical path and a name.\<close>

definition artifact_path :: "private_root \<Rightarrow> string \<Rightarrow> string" where
  "artifact_path r random = (if pr_path r = ''/'' then [] else pr_path r) @ ''/artifact-'' @ random @ ''.tgz''"

text \<open>The part after the file is open: the identity of the complete file, the number of bytes and its content.\<close>

definition fill_file :: "nat option \<Rightarrow> file_host \<Rightarrow> stage_limits \<Rightarrow> nat \<Rightarrow> artifact_identity
    \<Rightarrow> raised + byte list \<times> byte list" where
  "fill_file uid H l before a =
     rbind (waitUntilDeadline (fh_response H)) (\<lambda>r.
     rbind (ensure_file (file_response_ok l a r)) (\<lambda>_.
     rbind (case parseSha512Integrity (ai_sha512Integrity a) of None \<Rightarrow> Inl (Some integrity_invalid) | Some h \<Rightarrow> Inr h) (\<lambda>expected.
     rbind (receive l before (fr_body r) [] []) (\<lambda>(bytes, file).
     rbind (ensure_file (fr_contentLength r \<in> {None, Some (int (length bytes))})) (\<lambda>_.
     rbind (ensure (Some integrity_mismatch) (sha512 bytes = expected)) (\<lambda>_.
     rbind (call (if fh_synced H then Some () else None)) (\<lambda>_. Inr (bytes, file))))))))"

text \<open>
  The removal of a failed download.  A file whose identity is known is only removed while it is
  still that file.  The result is the exception and whether the path is gone.
\<close>

definition discard_file :: "nat option \<Rightarrow> file_host \<Rightarrow> file_identity option \<Rightarrow> raised \<Rightarrow> stage_error \<times> bool" where
  "discard_file uid H known x =
     (if (case known of None \<Rightarrow> False
         | Some i \<Rightarrow> (case fh_cleanupStat H of None \<Rightarrow> True | Some s \<Rightarrow> \<not> matchesStableFileIdentity uid s i))
      then (artifact_cleanup_incomplete, False)
      else if fh_unlink H = Unlink_failed then (artifact_cleanup_incomplete, False)
      else (stage_or (if fh_aborted H then artifact_cancelled else artifact_file_invalid) x, True))"

text \<open>
  \<open>#downloadOne\<close>: the file and its content, and the paths on disk.  The first check is outside
  the \<open>try\<close>.
\<close>

definition downloadOne :: "nat option \<Rightarrow> bound_root list \<Rightarrow> file_host \<Rightarrow> stage_limits \<Rightarrow> bound_root \<Rightarrow> nat \<Rightarrow> artifact_identity
    \<Rightarrow> string list \<Rightarrow> (raised + artifact_file \<times> byte list) \<times> string list" where
  "downloadOne uid roots H l root before a disk =
     (let path = artifact_path (fst (snd root)) (fh_random H);
          failed = (\<lambda>known x disk. let (e, gone) = discard_file uid H known x in (Inl (Some e), if gone then removeAll path disk else disk))
      in case revalidate uid roots root (fh_rootStat H) of
        Inl x \<Rightarrow> (Inl x, disk)
      | Inr _ \<Rightarrow>
          if \<not> fh_opened H then failed None None disk
          else let disk1 = path # disk in
            case rbind (call (fh_firstStat H)) (captureFileIdentity uid 0) of
              Inl x \<Rightarrow> failed None x disk1
            | Inr first \<Rightarrow>
                (case fill_file uid H l before a of
                   Inl x \<Rightarrow> failed (Some first) x disk1
                 | Inr (bytes, file) \<Rightarrow>
                     (case rbind (call (fh_stat H)) (captureFileIdentity uid (length bytes)) of
                        Inl x \<Rightarrow> failed (Some first) x disk1
                      | Inr i \<Rightarrow>
                          (case rbind (call (if fh_closed H then Some () else None)) (\<lambda>_.
                              rbind (call (fh_pathStat H)) (\<lambda>s. ensure_file (matchesFileIdentity uid s i))) of
                             Inl x \<Rightarrow> failed (Some i) x disk1
                           | Inr _ \<Rightarrow> (Inr (\<lparr>af_artifact = a, af_path = path, af_compressedBytes = length bytes, af_identity = i\<rparr>, file),
                               disk1)))))"

subsection \<open>All artifacts of a plan\<close>

text \<open>
  Files are marked by the path and identity they were created with; the authority holds the files
  and the sets it has made.
\<close>

record file_set =
  fs_planHash :: string
  fs_rootBinding :: string
  fs_files :: "artifact_file list"

record file_authority =
  fa_files :: "artifact_file list"
  fa_sets :: "file_set object list"

definition new_file_authority :: file_authority where
  "new_file_authority = \<lparr>fa_files = [], fa_sets = []\<rparr>"

text \<open>The answers to the removal of files: the root, and for each file its \<open>lstat\<close> and whether \<open>unlink\<close> succeeds.\<close>

record cleanup_host =
  ch_rootStat :: "file_stat option"
  ch_stat :: "artifact_file \<Rightarrow> file_stat option"
  ch_unlink :: "artifact_file \<Rightarrow> bool"

fun remove_files :: "nat option \<Rightarrow> cleanup_host \<Rightarrow> file_authority \<Rightarrow> private_root \<Rightarrow> artifact_file list \<Rightarrow> string list
    \<Rightarrow> bool \<times> string list" where
  "remove_files uid H F r [] disk = (True, disk)"
| "remove_files uid H F r (f # fs) disk =
     (if f \<notin> set (fa_files F) \<or> \<not> starts_with (pr_path r @ ''/'') (af_path f) then (False, disk)
      else if (case ch_stat H f of None \<Rightarrow> True | Some s \<Rightarrow> \<not> matchesFileIdentity uid s (af_identity f)) then (False, disk)
      else if \<not> ch_unlink H f then (False, disk)
      else remove_files uid H F r fs (removeAll (af_path f) disk))"

definition cleanupFiles :: "nat option \<Rightarrow> bound_root list \<Rightarrow> cleanup_host \<Rightarrow> file_authority \<Rightarrow> bound_root \<Rightarrow> artifact_file list
    \<Rightarrow> string list \<Rightarrow> bool \<times> string list" where
  "cleanupFiles uid roots H F root files disk =
     (case revalidate uid roots root (ch_rootStat H) of
        Inl x \<Rightarrow> (False, disk)
      | Inr _ \<Rightarrow> remove_files uid H F (fst (snd root)) files disk)"

definition cleanup_set :: "nat option \<Rightarrow> bound_root list \<Rightarrow> cleanup_host \<Rightarrow> file_authority \<Rightarrow> file_set object \<Rightarrow> bound_root
    \<Rightarrow> string list \<Rightarrow> (stage_error + unit) \<times> string list" where
  "cleanup_set uid roots H F fileSet root disk =
     (if fileSet \<notin> set (fa_sets F) \<or> fs_rootBinding (snd fileSet) \<noteq> snd (snd root) then (Inl artifact_cleanup_incomplete, disk)
      else let (ok, disk') = cleanupFiles uid roots H F root (fs_files (snd fileSet)) disk
        in (if ok then Inr () else Inl artifact_cleanup_incomplete, disk'))"

text \<open>The surroundings of a whole download, by the number of the artifact.\<close>

record download_host =
  dh_rootStat :: "file_stat option"
  dh_aborted :: "nat \<Rightarrow> bool"
  dh_elapsed :: "nat \<Rightarrow> int"
  dh_file :: "nat \<Rightarrow> file_host"
  dh_cleanup :: cleanup_host
  dh_abortedLate :: bool

text \<open>
  The loop over the artifacts: their number, the bytes so far, the files with their content, the
  authority and the paths on disk.  The state at a failure is kept with the exception.
\<close>

record download_state =
  ds_files :: "(artifact_file \<times> byte list) list"
  ds_authority :: file_authority
  ds_disk :: "string list"

fun download_all :: "nat option \<Rightarrow> bound_root list \<Rightarrow> download_host \<Rightarrow> acceptance_plan \<Rightarrow> bound_root \<Rightarrow> nat \<Rightarrow> artifact_identity list
    \<Rightarrow> nat \<Rightarrow> download_state \<Rightarrow> (raised option) \<times> download_state" where
  "download_all uid roots H p root k [] before D = (None, D)"
| "download_all uid roots H p root k (a # as) before D =
     (if dh_aborted H k then (Some (Some artifact_cancelled), D)
      else if ap_totalTimeoutMs p - dh_elapsed H k \<le> 0 then (Some (Some artifact_file_invalid), D)
      else case downloadOne uid roots (dh_file H k) (ap_limits p) root before a (ds_disk D) of
        (Inl x, disk) \<Rightarrow> (Some x, D\<lparr>ds_disk := disk\<rparr>)
      | (Inr (f, content), disk) \<Rightarrow>
          download_all uid roots H p root (k + 1) as (before + af_compressedBytes f)
            \<lparr>ds_files = ds_files D @ [(f, content)],
             ds_authority = (ds_authority D)\<lparr>fa_files := f # fa_files (ds_authority D)\<rparr>, ds_disk = disk\<rparr>)"

text \<open>
  \<open>downloadForTest\<close>: the set and the contents of its files, the approvals, the authority and the
  paths on disk.
\<close>

definition downloadForTest :: "date_reader \<Rightarrow> nat option \<Rightarrow> bound_root list \<Rightarrow> signed_plan list \<Rightarrow> download_host \<Rightarrow> nat \<Rightarrow> signed_plan
    \<Rightarrow> acceptance_approval object \<Rightarrow> bound_root \<Rightarrow> nat option \<Rightarrow> acceptance_approvals \<Rightarrow> file_authority \<Rightarrow> string list
    \<Rightarrow> (accept_error + file_set object \<times> byte list list) \<times> acceptance_approvals \<times> file_authority \<times> string list" where
  "downloadForTest dates uid roots made H addr p a root now X F disk =
     (case rbind (must plan_not_authenticated (authenticates_acceptance made p)) (\<lambda>_.
           rbind (must artifact_plan_invalid (root \<in> set roots \<and> snd (snd root) = ap_rootBinding (fst (snd p)))) (\<lambda>_.
           case settle artifact_file_invalid (revalidate uid roots root (dh_rootStat H)) of
             Inl e \<Rightarrow> Inl (Failed e) | Inr _ \<Rightarrow> consume_acceptance dates made a p now X)) of
        Inl e \<Rightarrow> (Inl e, X, F, disk)
      | Inr X' \<Rightarrow>
          (case download_all uid roots H (fst (snd p)) root 0 (ap_artifacts (fst (snd p))) 0
               \<lparr>ds_files = [], ds_authority = F, ds_disk = disk\<rparr> of
             (None, D) \<Rightarrow>
               (let ob = (addr, \<lparr>fs_planHash = snd (snd p), fs_rootBinding = snd (snd root), fs_files = map fst (ds_files D)\<rparr>)
                in (Inr (ob, map snd (ds_files D)), X', (ds_authority D)\<lparr>fa_sets := ob # fa_sets (ds_authority D)\<rparr>, ds_disk D))
           | (Some x, D) \<Rightarrow>
               (let (ok, disk') = cleanupFiles uid roots (dh_cleanup H) (ds_authority D) root (map fst (ds_files D)) (ds_disk D)
                in (Inl (Failed (if \<not> ok then artifact_cleanup_incomplete
                      else stage_or (if dh_abortedLate H then artifact_cancelled else artifact_file_invalid) x)),
                    X', ds_authority D, disk'))))"

subsection \<open>The source of a file\<close>

text \<open>
  A source is used once: the file is opened and must still have its identity, its bytes are read
  in pieces, and after the reading it must be unchanged.  The answers: \<open>open\<close>, the first \<open>stat\<close>,
  for each read whether the signal is aborted and what is read (\<open>None\<close> when it throws), and the
  last \<open>stat\<close>.
\<close>

record source_host =
  sh_opened :: bool
  sh_before :: "file_stat option"
  sh_reads :: "(bool \<times> byte list option) list"
  sh_after :: "file_stat option"

record source_state =
  so_used :: bool
  so_completed :: bool
  so_before :: "file_stat option"

definition new_source :: source_state where
  "new_source = \<lparr>so_used = False, so_completed = False, so_before = None\<rparr>"

text \<open>The loop over the reads; the model ends as if a read threw when the answers end.\<close>

fun read_chunks :: "nat \<Rightarrow> (bool \<times> byte list option) list \<Rightarrow> byte list list \<Rightarrow> raised + byte list list" where
  "read_chunks wanted answers got =
     (if wanted \<le> length (concat got) then Inr got
      else case answers of
        [] \<Rightarrow> Inl None
      | (aborted, x) # as \<Rightarrow>
          if aborted then Inl (Some artifact_cancelled)
          else (case x of
              None \<Rightarrow> Inl None
            | Some bytes \<Rightarrow> if bytes = [] then Inl (Some artifact_file_invalid) else read_chunks wanted as (got @ [bytes])))"

declare read_chunks.simps [simp del]

text \<open>\<open>chunks\<close>; a second use throws, and leaves the first one's handle closed only if it had not completed.\<close>

definition source_chunks :: "nat option \<Rightarrow> source_host \<Rightarrow> artifact_file \<Rightarrow> source_state \<Rightarrow> (raised + byte list list) \<times> source_state" where
  "source_chunks uid H f S =
     (if so_used S then (Inl (Some artifact_file_invalid), if so_completed S then S else S\<lparr>so_before := None\<rparr>)
      else case rbind (call (if sh_opened H then Some () else None)) (\<lambda>_. rbind (call (sh_before H)) (\<lambda>s.
           rbind (ensure_file (matchesFileIdentity uid s (af_identity f))) (\<lambda>_.
           rbind (read_chunks (af_compressedBytes f) (sh_reads H) []) (\<lambda>got. Inr (s, got))))) of
        Inl x \<Rightarrow> (Inl x, S\<lparr>so_used := True\<rparr>)
      | Inr (s, got) \<Rightarrow> (Inr got, \<lparr>so_used = True, so_completed = True, so_before = Some s\<rparr>))"

definition validateAfterRead :: "nat option \<Rightarrow> source_host \<Rightarrow> artifact_file \<Rightarrow> source_state \<Rightarrow> (raised + unit) \<times> source_state" where
  "validateAfterRead uid H f S =
     ((if \<not> so_completed S then Inr ()
       else case so_before S of
         None \<Rightarrow> Inl (Some artifact_file_invalid)
       | Some before \<Rightarrow> rbind (call (sh_after H)) (\<lambda>after.
           rbind (ensure_file (matchesFileIdentity uid after (af_identity f))) (\<lambda>_.
           ensure_file (sameExactStat before after)))), S\<lparr>so_before := None\<rparr>)"

definition sourceFor :: "file_authority \<Rightarrow> artifact_file \<Rightarrow> stage_error + source_state" where
  "sourceFor F f = (if f \<in> set (fa_files F) then Inr new_source else Inl artifact_file_invalid)"

end
