(* ===== verification/Manifest.thy ===== *)
theory Manifest
  imports AcceptPlan TarArchive StagePlan
begin

section \<open>Package staging: the manifest of an artifact\<close>

text \<open>
  Models src/stage/package-manifest-projection.ts: the \<open>package.json\<close> an archive was found to hold is
  decoded, scanned for repeated keys, parsed, and compared with the nodes of the graph that the
  artifact is for.

  The scanner works on what is left of the text and a number of keys so far.  It has fuel: as each
  level and each member takes a character, \<open>2 * length + 2\<close> is enough.  \<open>None\<close> is a failure.
\<close>

subsection \<open>The scanner\<close>

text \<open>\<open>\s\<close> of a regular expression, for code units below 256.\<close>

definition is_space :: "char \<Rightarrow> bool" where
  "is_space c \<longleftrightarrow> (9 \<le> code c \<and> code c \<le> 13) \<or> code c = 32 \<or> code c = 160"

definition skip_space :: "string \<Rightarrow> string" where
  "skip_space s = dropWhile is_space s"

text \<open>The text of a string up to and with the closing quote, after the opening one, and the rest.\<close>

fun string_end :: "bool \<Rightarrow> string \<Rightarrow> (string \<times> string) option" where
  "string_end escaped [] = None"
| "string_end escaped (c # s) =
     (if \<not> escaped \<and> c = CHR 0x22 then Some ([c], s)
      else if \<not> escaped \<and> code c < 32 then None
      else map_option (\<lambda>(t, r). (c # t, r)) (string_end (\<not> escaped \<and> c = CHR 0x5C) s))"

definition scan_string :: "string \<Rightarrow> (string \<times> string) option" where
  "scan_string s = (case s of
     [] \<Rightarrow> None
   | q # s' \<Rightarrow> (case string_end False s' of
       None \<Rightarrow> None
     | Some (t, r) \<Rightarrow> (case json_parse (q # t) of Some (JStr k) \<Rightarrow> Some (k, r) | _ \<Rightarrow> None)))"

text \<open>\<open>^-?(?:0|[1-9][0-9]*)(?:\.[0-9]+)?(?:[eE][+-]?[0-9]+)?\<close>: what is left after the longest match.\<close>

definition skip_exponent :: "string \<Rightarrow> string" where
  "skip_exponent s = (case s of
     e # r \<Rightarrow> (let d = (case r of c # cs \<Rightarrow> if c \<in> set ''+-'' then cs else r | [] \<Rightarrow> r) in
        if e \<in> set ''eE'' \<and> d \<noteq> [] \<and> is_digit (hd d) then dropWhile is_digit d else s)
   | [] \<Rightarrow> s)"

definition skip_fraction :: "string \<Rightarrow> string" where
  "skip_fraction s = (case s of
     c # d # r \<Rightarrow> if c = CHR ''.'' \<and> is_digit d then dropWhile is_digit r else s
   | _ \<Rightarrow> s)"

definition scan_number :: "string \<Rightarrow> string option" where
  "scan_number s = (case strip_minus s of
     [] \<Rightarrow> None
   | c # cs \<Rightarrow> if c = CHR ''0'' then Some (skip_exponent (skip_fraction cs))
       else if is_digit c then Some (skip_exponent (skip_fraction (dropWhile is_digit cs))) else None)"

definition MAX_JSON_DEPTH :: nat where "MAX_JSON_DEPTH = 64"

definition MAX_JSON_KEYS :: nat where "MAX_JSON_KEYS = 10000"

text \<open>How a value starts: a value without parts, or an object or array with a first part.\<close>

datatype scan_token = Plain_value string | Members string | Items string | Bad_token

definition scan_token :: "string \<Rightarrow> scan_token" where
  "scan_token s =
     (if starts_with ''{'' s then
        (let r = skip_space (drop 1 s) in if starts_with ''}'' r then Plain_value (drop 1 r) else Members r)
      else if starts_with ''['' s then
        (let r = skip_space (drop 1 s) in if starts_with '']'' r then Plain_value (drop 1 r) else Items r)
      else if starts_with [CHR 0x22] s then (case scan_string s of None \<Rightarrow> Bad_token | Some (k, r) \<Rightarrow> Plain_value r)
      else if starts_with ''true'' s then Plain_value (drop 4 s)
      else if starts_with ''false'' s then Plain_value (drop 5 s)
      else if starts_with ''null'' s then Plain_value (drop 4 s)
      else (case scan_number s of None \<Rightarrow> Bad_token | Some r \<Rightarrow> Plain_value r))"

text \<open>A key that has not been seen, its colon, and the start of the value.\<close>

definition scan_key :: "string list \<Rightarrow> nat \<Rightarrow> string \<Rightarrow> (string \<times> string) option" where
  "scan_key seen keys s =
     (if \<not> starts_with [CHR 0x22] s then None
      else case scan_string s of
        None \<Rightarrow> None
      | Some (k, r) \<Rightarrow>
          if MAX_JSON_KEYS < keys + 1 \<or> k \<in> set seen \<or> \<not> starts_with '':'' (skip_space r) then None
          else Some (k, skip_space (drop 1 (skip_space r))))"

text \<open>After a part: the end of the whole (\<open>Inl\<close>) or the start of the next part.\<close>

definition scan_separator :: "string \<Rightarrow> string \<Rightarrow> (string + string) option" where
  "scan_separator close s =
     (let r = skip_space s in
      if starts_with close r then Some (Inl (drop 1 r))
      else if starts_with '','' r then Some (Inr (skip_space (drop 1 r))) else None)"

fun scan_value :: "nat \<Rightarrow> nat \<Rightarrow> nat \<Rightarrow> string \<Rightarrow> (nat \<times> string) option"
and scan_members :: "nat \<Rightarrow> nat \<Rightarrow> string list \<Rightarrow> nat \<Rightarrow> string \<Rightarrow> (nat \<times> string) option"
and scan_items :: "nat \<Rightarrow> nat \<Rightarrow> nat \<Rightarrow> string \<Rightarrow> (nat \<times> string) option" where
  "scan_value 0 depth keys s = None"
| "scan_value (Suc n) depth keys s =
     (if MAX_JSON_DEPTH < depth then None
      else case scan_token s of
        Bad_token \<Rightarrow> None
      | Plain_value r \<Rightarrow> Some (keys, r)
      | Members r \<Rightarrow> scan_members n (depth + 1) [] keys r
      | Items r \<Rightarrow> scan_items n (depth + 1) keys r)"
| "scan_members 0 depth seen keys s = None"
| "scan_members (Suc n) depth seen keys s =
     (case scan_key seen keys s of
        None \<Rightarrow> None
      | Some (k, r) \<Rightarrow> (case scan_value n depth (keys + 1) r of
          None \<Rightarrow> None
        | Some (keys', r') \<Rightarrow> (case scan_separator ''}'' r' of
            None \<Rightarrow> None
          | Some (Inl rest) \<Rightarrow> Some (keys', rest)
          | Some (Inr next) \<Rightarrow> scan_members n depth (k # seen) keys' next)))"
| "scan_items 0 depth keys s = None"
| "scan_items (Suc n) depth keys s =
     (case scan_value n depth keys s of
        None \<Rightarrow> None
      | Some (keys', r) \<Rightarrow> (case scan_separator '']'' r of
          None \<Rightarrow> None
        | Some (Inl rest) \<Rightarrow> Some (keys', rest)
        | Some (Inr next) \<Rightarrow> scan_items n depth keys' next))"

definition scanJsonWithoutDuplicateKeys :: "string \<Rightarrow> bool" where
  "scanJsonWithoutDuplicateKeys s =
     (case scan_value (2 * length s + 2) 0 0 (skip_space s) of None \<Rightarrow> False | Some (_, r) \<Rightarrow> skip_space r = [])"

subsection \<open>Reading the manifest\<close>

text \<open>\<open>/^[A-Za-z0-9+/]*={0,2}$/\<close> and the canonical form.\<close>

definition decodeCanonicalBase64 :: "string \<Rightarrow> stage_error + nat list" where
  "decodeCanonicalBase64 s =
     (if dropWhile is_b64_char s \<in> {[], ''='', ''==''} \<and> b64_encode (b64_decode s) = s then Inr (b64_decode s)
      else Inl manifest_invalid)"

definition map_text_ok :: "nat \<Rightarrow> string \<Rightarrow> bool" where
  "map_text_ok n s \<longleftrightarrow> s \<noteq> [] \<and> length s \<le> n \<and> \<not> list_ex is_control s"

definition parseStringMap :: "stage_error \<Rightarrow> jsval \<Rightarrow> stage_error + (string \<times> string) list" where
  "parseStringMap e v = (case v of
     JUndef \<Rightarrow> Inr []
   | JObj kvs \<Rightarrow> mapM (\<lambda>(k, x). rbind (guard e (map_text_ok 214 k)) (\<lambda>_.
         case x of JStr s \<Rightarrow> if map_text_ok 1024 s then Inr (k, s) else Inl e | _ \<Rightarrow> Inl e)) kvs
   | _ \<Rightarrow> Inl e)"

text \<open>
  The numbers of the model are those of the text: a literal beyond the range of doubles, which the
  code rejects here as infinite, is kept and accepted.
\<close>

function normalizeJsonField :: "jsval \<Rightarrow> stage_error + jsval" where
  "normalizeJsonField JUndef = Inr JNull"
| "normalizeJsonField JNull = Inr JNull"
| "normalizeJsonField (JStr s) = Inr (JStr s)"
| "normalizeJsonField (JBool b) = Inr (JBool b)"
| "normalizeJsonField (JNum n) = (if n = NNonFinite then Inl manifest_invalid else Inr (JNum n))"
| "normalizeJsonField (JArr xs) = rbind (mapM normalizeJsonField xs) (\<lambda>ys. Inr (JArr ys))"
| "normalizeJsonField (JObj kvs) =
     rbind (mapM (\<lambda>(k, v). rbind (normalizeJsonField v) (\<lambda>w. Inr (k, w))) (isort key_lt kvs)) (\<lambda>ws. Inr (JObj (own_order ws)))"
| "normalizeJsonField (JBig i) = Inl manifest_invalid"
| "normalizeJsonField (JOther t) = Inl manifest_invalid"
  by pat_completeness auto
termination
  by (relation "measure size") (auto simp: size_kv_less less_Suc_eq_le size_list_estimation')

record dependency_claim =
  dc_packageName :: string
  dc_declaredSpecifier :: string

definition dependency_json :: "dependency_claim \<Rightarrow> jsval" where
  "dependency_json d = JObj [(''packageName'', JStr (dc_packageName d)), (''declaredSpecifier'', JStr (dc_declaredSpecifier d))]"

definition dependency_lt :: "dependency_claim \<Rightarrow> dependency_claim \<Rightarrow> bool" where
  "dependency_lt a b = text_lt (dc_packageName a) (dc_packageName b)"

definition claimed_dependencies :: "(string \<times> string) list \<Rightarrow> dependency_claim list" where
  "claimed_dependencies m = isort dependency_lt (map (\<lambda>(n, s). \<lparr>dc_packageName = n, dc_declaredSpecifier = s\<rparr>) m)"

definition expected_dependencies :: "graph_node \<Rightarrow> dependency_claim list" where
  "expected_dependencies n = isort dependency_lt
     (map (\<lambda>e. \<lparr>dc_packageName = de_packageName e, dc_declaredSpecifier = de_declaredSpecifier e\<rparr>) (gn_edges n))"

definition samePackageIdentity :: "graph_node \<Rightarrow> graph_node \<Rightarrow> bool" where
  "samePackageIdentity a b \<longleftrightarrow> gn_packageName a = gn_packageName b \<and> gn_exactVersion a = gn_exactVersion b
     \<and> gn_tarballUrl a = gn_tarballUrl b \<and> gn_sha512Integrity a = gn_sha512Integrity b"

definition manifest_forbidden :: "string list" where
  "manifest_forbidden = [''optionalDependencies'', ''peerDependencies'', ''peerDependenciesMeta'', ''bundleDependencies'',
     ''bundledDependencies'', ''workspaces'', ''os'', ''cpu'']"

definition INSTALL_LIFECYCLE_NAMES :: "string list" where
  "INSTALL_LIFECYCLE_NAMES = [''preinstall'', ''install'', ''postinstall'']"

record manifest_projection =
  mp_packageName :: string
  mp_exactVersion :: string
  mp_dependencies :: "dependency_claim list"
  mp_lifecycle :: "string list"
  mp_packageType :: "string option"
  mp_entrypointDigest :: string
  mp_bodySha256 :: string

definition type_json :: "string option \<Rightarrow> jsval" where
  "type_json t = (case t of None \<Rightarrow> JNull | Some s \<Rightarrow> JStr s)"

definition projection_json :: "manifest_projection \<Rightarrow> jsval" where
  "projection_json p = JObj
     [(''projectionVersion'', JInt 1), (''packageName'', JStr (mp_packageName p)), (''exactVersion'', JStr (mp_exactVersion p)),
      (''dependencies'', JArr (map dependency_json (mp_dependencies p))), (''lifecycleScriptNames'', JArr (map JStr (mp_lifecycle p))),
      (''packageType'', type_json (mp_packageType p)), (''entrypointFieldsDigest'', JStr (mp_entrypointDigest p)),
      (''packageJsonBodySha256'', JStr (mp_bodySha256 p))]"

definition projection_digest :: "manifest_projection \<Rightarrow> string" where
  "projection_digest p = sha256 (canonicalJson (projection_json p))"

definition package_type :: "jsval \<Rightarrow> stage_error + string option" where
  "package_type v = (if v = JUndef then Inr None
     else if v = JStr ''module'' \<or> v = JStr ''commonjs'' then Inr (Some (str_of v)) else Inl manifest_invalid)"

text \<open>The one entry of the manifest in a transcript: its hash.\<close>

definition manifest_sha :: "transcript \<Rightarrow> stage_error + string" where
  "manifest_sha t = (case filter (\<lambda>e. te_relativePath e = ''package.json'') (tb_entries t) of
     [e] \<Rightarrow> (case te_sha e of Some h \<Rightarrow> if te_type e = Entry_file then Inr h else Inl manifest_invalid | None \<Rightarrow> Inl manifest_invalid)
   | _ \<Rightarrow> Inl manifest_invalid)"

definition has_entrypoint :: "transcript \<Rightarrow> string \<Rightarrow> bool" where
  "has_entrypoint t path \<longleftrightarrow> list_ex (\<lambda>e. te_relativePath e = path \<and> te_type e = Entry_file) (tb_entries t)"

text \<open>The text of the manifest: its bytes are those the transcript names.\<close>

definition manifest_text :: "string \<Rightarrow> transcript \<Rightarrow> stage_error + string \<times> string" where
  "manifest_text encoded t =
     rbind (manifest_sha t) (\<lambda>h.
     rbind (decodeCanonicalBase64 encoded) (\<lambda>bytes.
     rbind (guard manifest_invalid (bytes \<noteq> [] \<and> length bytes \<le> 1024 * 1024)) (\<lambda>_.
     (let b = map of_nat bytes in
     rbind (guard manifest_mismatch (sha256_hex b = h)) (\<lambda>_.
     case utf8_decode b of None \<Rightarrow> Inl manifest_invalid | Some s \<Rightarrow> Inr (h, s))))))"

text \<open>The checks on the parsed manifest of the node \<open>n\<close>; \<open>h\<close> is the hash of its text.\<close>

definition project_manifest :: "graph_node \<Rightarrow> string \<Rightarrow> jsval \<Rightarrow> stage_error + manifest_projection" where
  "project_manifest n h v =
     rbind (guard manifest_invalid (is_obj v)) (\<lambda>_.
     rbind (guard manifest_mismatch (at v ''name'' = JStr (gn_packageName n) \<and> at v ''version'' = JStr (gn_exactVersion n))) (\<lambda>_.
     rbind (guard manifest_mismatch (list_all (\<lambda>k. k \<notin> set (keys_of v)) manifest_forbidden)) (\<lambda>_.
     rbind (guard manifest_mismatch (at v ''gypfile'' \<noteq> JBool True)) (\<lambda>_.
     rbind (parseStringMap manifest_mismatch (at v ''dependencies'')) (\<lambda>deps.
     let ds = claimed_dependencies deps in
     rbind (guard manifest_mismatch (canonicalJson (JArr (map dependency_json ds))
        = canonicalJson (JArr (map dependency_json (expected_dependencies n))))) (\<lambda>_.
     rbind (parseStringMap manifest_invalid (at v ''scripts'')) (\<lambda>scripts.
     let names = sort_text (filter (\<lambda>k. k \<in> set INSTALL_LIFECYCLE_NAMES) (map fst scripts)) in
     rbind (guard manifest_mismatch (canonicalJson (JArr (map JStr names)) = canonicalJson (JArr (map JStr (gn_scripts n))))) (\<lambda>_.
     rbind (package_type (at v ''type'')) (\<lambda>t.
     rbind (normalizeJsonField (at v ''main'')) (\<lambda>main.
     rbind (normalizeJsonField (at v ''exports'')) (\<lambda>exports.
     rbind (normalizeJsonField (at v ''bin'')) (\<lambda>bin.
     Inr \<lparr>mp_packageName = gn_packageName n, mp_exactVersion = gn_exactVersion n, mp_dependencies = ds, mp_lifecycle = names,
          mp_packageType = t, mp_entrypointDigest = sha256 (canonicalJson (JObj
             [(''type'', type_json t), (''main'', main), (''exports'', exports), (''bin'', bin)])),
          mp_bodySha256 = h\<rparr>))))))))))))"

definition projectAndValidatePackageManifest :: "string \<Rightarrow> transcript \<Rightarrow> exact_candidate \<Rightarrow> graph_node list
    \<Rightarrow> stage_error + manifest_projection \<times> string" where
  "projectAndValidatePackageManifest encoded t c nodes =
     (case nodes of
        [] \<Rightarrow> Inl manifest_mismatch
      | n # _ \<Rightarrow>
          rbind (guard manifest_mismatch (list_all (\<lambda>m. samePackageIdentity m n) nodes)) (\<lambda>_.
          rbind (manifest_text encoded t) (\<lambda>(h, s).
          rbind (guard manifest_invalid (scanJsonWithoutDuplicateKeys s)) (\<lambda>_.
          rbind (case json_parse s of None \<Rightarrow> Inl manifest_invalid | Some v \<Rightarrow> Inr v) (\<lambda>v.
          rbind (project_manifest n h v) (\<lambda>p.
          rbind (guard manifest_mismatch (list_all (\<lambda>m. gn_installPath m = ''node_modules/'' @ ec_topName c
             \<longrightarrow> has_entrypoint t (ec_entrypoint c)) nodes)) (\<lambda>_.
          Inr (p, projection_digest p))))))))"

end
