(* ===== verification/Acceptance.thy ===== *)
theory Acceptance
  imports ReadOnlyFile Manifest
begin

section \<open>Package staging: the read-only acceptance of a graph\<close>

text \<open>
  Models src/stage/read-only-artifact-acceptance.ts: one run that downloads the artifacts of an
  approved plan, has the archive worker inspect each of them twice, compares the inspections and the
  manifest with the graph, removes the files, and gives evidence or a report of what failed.

  The worker is an interface: what it answers for a file, the first and the second time.  The version
  of its protocol is one constant, the same in every candidate and every plan, so it is compared with
  the answers only.
\<close>

datatype acceptance_phase =
  ARTIFACT_ACCEPTANCE_APPROVAL_PENDING | DOWNLOADING_READ_ONLY | ARTIFACTS_VERIFIED | PASS_A_ACCEPTING
  | CLEANUP_PENDING | ACCEPTANCE_COMPLETE | ACCEPTANCE_INCOMPLETE_QUARANTINE

datatype acceptance_event =
  artifact_acceptance_authorized | artifact_download_started | artifact_integrity_verified
  | artifact_pass_a_verified | artifact_second_pass_a_verified | cleanup_complete | acceptance_complete
  | acceptance_incomplete_event

fun next_phases :: "acceptance_phase \<Rightarrow> acceptance_phase list" where
  "next_phases ARTIFACT_ACCEPTANCE_APPROVAL_PENDING = [DOWNLOADING_READ_ONLY]"
| "next_phases DOWNLOADING_READ_ONLY = [ARTIFACTS_VERIFIED]"
| "next_phases ARTIFACTS_VERIFIED = [PASS_A_ACCEPTING]"
| "next_phases PASS_A_ACCEPTING = [CLEANUP_PENDING]"
| "next_phases CLEANUP_PENDING = [ACCEPTANCE_COMPLETE]"
| "next_phases ACCEPTANCE_COMPLETE = []"
| "next_phases ACCEPTANCE_INCOMPLETE_QUARANTINE = []"

definition transition_phase :: "acceptance_phase \<Rightarrow> acceptance_phase \<Rightarrow> raised + acceptance_phase" where
  "transition_phase current target =
     (if target \<in> set (next_phases current) then Inr target else Inl (Some state_transition_invalid))"

record acceptance_report =
  rp_candidateDigest :: string
  rp_planHash :: string
  rp_terminal :: acceptance_phase
  rp_events :: "acceptance_event list"
  rp_accepted :: nat
  rp_cleanup :: bool

subsection \<open>The inspections\<close>

record inspection =
  wi_protocol :: int
  wi_runtime :: string
  wi_transcript :: transcript
  wi_manifest :: string

definition inspection_json :: "inspection \<Rightarrow> jsval" where
  "inspection_json i = JObj [(''workerProtocolVersion'', JInt (wi_protocol i)), (''runtimeDigest'', JStr (wi_runtime i)),
     (''transcript'', full_transcript_json (wi_transcript i)), (''packageManifestBase64'', JStr (wi_manifest i))]"

record archive_worker =
  aw_runtime :: string
  aw_inspect :: "artifact_file \<Rightarrow> nat \<Rightarrow> raised + inspection"

text \<open>What a run has recorded so far: its events and the accepted artifacts.\<close>

record acceptance_log =
  al_events :: "acceptance_event list"
  al_accepted :: "accepted_artifact list"

definition log_event :: "acceptance_event \<Rightarrow> acceptance_log \<Rightarrow> acceptance_log" where
  "log_event e L = L\<lparr>al_events := al_events L @ [e]\<rparr>"

definition accepted_of :: "artifact_file \<Rightarrow> inspection \<Rightarrow> manifest_projection \<times> string \<Rightarrow> accepted_artifact" where
  "accepted_of f i pr = (let a = af_artifact f; t = wi_transcript i in
     \<lparr>ai_packageName = ai_packageName a, ai_exactVersion = ai_exactVersion a, ai_tarballUrl = ai_tarballUrl a,
      ai_sha512Integrity = ai_sha512Integrity a, ar_installPaths = ar_installPaths a,
      ae_compressedBytes = af_compressedBytes f, ae_expandedBytes = tb_expandedBytes t, ae_entryCount = length (tb_entries t),
      ae_transcriptDigest = tr_digest t, ae_manifestSha256 = mp_bodySha256 (fst pr), ae_projectionDigest = snd pr\<rparr>)"

definition nodes_of_file :: "exact_candidate \<Rightarrow> artifact_file \<Rightarrow> graph_node list" where
  "nodes_of_file c f = filter (\<lambda>n. gn_installPath n \<in> set (ar_installPaths (af_artifact f))) (ec_nodes c)"

definition stage_result :: "stage_error + 'a \<Rightarrow> raised + 'a" where
  "stage_result r = (case r of Inl e \<Rightarrow> Inl (Some e) | Inr a \<Rightarrow> Inr a)"

lemma stage_result_Inr [simp]: "stage_result r = Inr a \<longleftrightarrow> r = Inr a"
  by (auto simp: stage_result_def split: sum.splits)

text \<open>The checks on two inspections of a file.\<close>

definition judge_file :: "exact_candidate \<Rightarrow> acceptance_plan \<Rightarrow> artifact_file \<Rightarrow> inspection \<Rightarrow> inspection \<Rightarrow> raised + unit" where
  "judge_file c p f first second =
     ensure (Some acceptance_incomplete)
       (canonicalJson (inspection_json first) = canonicalJson (inspection_json second) \<and> wi_runtime first = ap_runtimeDigest p
        \<and> wi_protocol first = ARCHIVE_WORKER_PROTOCOL_VERSION)"

definition project_file :: "exact_candidate \<Rightarrow> artifact_file \<Rightarrow> inspection \<Rightarrow> raised + manifest_projection \<times> string" where
  "project_file c f first =
     (let nodes = nodes_of_file c f in
     rbind (ensure (Some acceptance_incomplete) (length nodes = length (ar_installPaths (af_artifact f)))) (\<lambda>_.
     stage_result (projectAndValidatePackageManifest (wi_manifest first) (wi_transcript first) c nodes)))"

text \<open>The loop over the files; the log is kept at a failure.\<close>

fun accept_files :: "file_authority \<Rightarrow> archive_worker \<Rightarrow> exact_candidate \<Rightarrow> acceptance_plan \<Rightarrow> artifact_file list \<Rightarrow> acceptance_log
    \<Rightarrow> raised option \<times> acceptance_log" where
  "accept_files F W c p [] L = (None, L)"
| "accept_files F W c p (f # fs) L =
     (case rbind (stage_result (sourceFor F f)) (\<lambda>_. aw_inspect W f 0) of
        Inl x \<Rightarrow> (Some x, L)
      | Inr first \<Rightarrow>
          (let L1 = log_event artifact_pass_a_verified L in
           case rbind (aw_inspect W f 1) (judge_file c p f first) of
             Inl x \<Rightarrow> (Some x, L1)
           | Inr _ \<Rightarrow>
               (let L2 = log_event artifact_second_pass_a_verified L1 in
                case project_file c f first of
                  Inl x \<Rightarrow> (Some x, L2)
                | Inr pr \<Rightarrow> accept_files F W c p fs (L2\<lparr>al_accepted := al_accepted L2 @ [accepted_of f first pr]\<rparr>))))"

subsection \<open>A run\<close>

definition evidence_json :: "acceptance_evidence \<Rightarrow> jsval" where
  "evidence_json e = JObj [(''evidenceVersion'', JInt 1), (''candidateDigest'', JStr (av_candidateDigest e)),
     (''planHash'', JStr (av_planHash e)), (''artifacts'', JArr (map accepted_json (av_artifacts e))), (''cleanupComplete'', JBool True)]"

definition evidence_digest :: "acceptance_evidence \<Rightarrow> string" where
  "evidence_digest e = sha256 (canonicalJson (evidence_json e))"

text \<open>The authority of evidence, with its last report.\<close>

record evidence_authority =
  ev_made :: "acceptance_evidence object list"
  ev_report :: "acceptance_report option"

text \<open>The state a run works on: the approvals, the files, what is on disk, the evidence.\<close>

record acceptance_run =
  ar_approvals :: acceptance_approvals
  ar_files :: file_authority
  ar_disk :: "string list"
  ar_evidence :: evidence_authority

text \<open>The surroundings of a run: the download, the two removals, and the abort signal at a failure.\<close>

record acceptance_host =
  xh_download :: download_host
  xh_cleanup :: cleanup_host
  xh_cleanupAgain :: cleanup_host
  xh_aborted :: bool

definition quarantine :: "signed_candidate \<Rightarrow> signed_plan \<Rightarrow> acceptance_log \<Rightarrow> bool \<Rightarrow> acceptance_report" where
  "quarantine c p L cleaned = \<lparr>rp_candidateDigest = snd (snd c), rp_planHash = snd (snd p),
     rp_terminal = ACCEPTANCE_INCOMPLETE_QUARANTINE,
     rp_events = al_events L @ (if cleaned then [cleanup_complete] else []) @ [acceptance_incomplete_event],
     rp_accepted = length (al_accepted L), rp_cleanup = cleaned\<rparr>"

definition late_error :: "bool \<Rightarrow> raised \<Rightarrow> stage_error" where
  "late_error aborted x = stage_or (if aborted then artifact_cancelled else acceptance_incomplete) x"

definition raised_of :: "accept_error \<Rightarrow> raised" where
  "raised_of e = (case e of Failed s \<Rightarrow> Some s | Range_error \<Rightarrow> None)"

definition report_with :: "acceptance_report \<Rightarrow> acceptance_run \<Rightarrow> acceptance_run" where
  "report_with r R = R\<lparr>ar_evidence := (ar_evidence R)\<lparr>ev_report := Some r\<rparr>\<rparr>"

text \<open>The \<open>catch\<close> once there are files: they are removed, again if need be.\<close>

definition abandon :: "nat option \<Rightarrow> bound_root list \<Rightarrow> acceptance_host \<Rightarrow> signed_candidate \<Rightarrow> signed_plan \<Rightarrow> bound_root
    \<Rightarrow> file_set object \<Rightarrow> acceptance_log \<Rightarrow> raised \<Rightarrow> acceptance_run \<Rightarrow> (stage_error + 'a) \<times> acceptance_run" where
  "abandon uid roots H c p root files L x R =
     (let (r, disk) = cleanup_set uid roots (xh_cleanupAgain H) (ar_files R) files root (ar_disk R)
      in (Inl (late_error (xh_aborted H) x), report_with (quarantine c p L (is_ok r)) (R\<lparr>ar_disk := disk\<rparr>)))"

text \<open>
  The phase is a local variable: only the last one is seen, in the report.  A run makes the
  transitions below in this order, one after each part, and none of them throws.
\<close>

definition run_phases :: "acceptance_phase list \<Rightarrow> acceptance_phase \<Rightarrow> raised + acceptance_phase" where
  "run_phases phases start = foldM (\<lambda>t s. transition_phase s t) phases start"

lemma phases_allowed:
  "run_phases [DOWNLOADING_READ_ONLY, ARTIFACTS_VERIFIED, PASS_A_ACCEPTING, CLEANUP_PENDING, ACCEPTANCE_COMPLETE]
     ARTIFACT_ACCEPTANCE_APPROVAL_PENDING = Inr ACCEPTANCE_COMPLETE"
  by (simp add: run_phases_def transition_phase_def)

definition acceptCompleteForTest :: "date_reader \<Rightarrow> nat option \<Rightarrow> bound_root list \<Rightarrow> candidate_authority \<Rightarrow> signed_plan list
    \<Rightarrow> acceptance_host \<Rightarrow> archive_worker \<Rightarrow> nat \<times> nat \<Rightarrow> signed_candidate \<Rightarrow> signed_plan \<Rightarrow> acceptance_approval object \<Rightarrow> bound_root
    \<Rightarrow> nat option \<Rightarrow> acceptance_run \<Rightarrow> (stage_error + acceptance_evidence object) \<times> acceptance_run" where
  "acceptCompleteForTest dates uid roots A made H W addrs candidate p a root now R =
     (let c = fst (snd candidate); plan = fst (snd p) in
      case rbind (guard profile_not_authenticated (authenticates_candidate A candidate)) (\<lambda>_.
           rbind (guard plan_not_authenticated (authenticates_acceptance made p)) (\<lambda>_.
           guard artifact_plan_invalid (ap_candidateDigest plan = snd (snd candidate) \<and> ap_runtimeDigest plan = aw_runtime W))) of
        Inl e \<Rightarrow> (Inl e, R)
      | Inr _ \<Rightarrow>
          (let L0 = \<lparr>al_events = [artifact_acceptance_authorized, artifact_download_started], al_accepted = []\<rparr>;
               (d, X, F, disk) = downloadForTest dates uid roots made (xh_download H) (fst addrs) p a root now
                 (ar_approvals R) (ar_files R) (ar_disk R);
               R1 = R\<lparr>ar_approvals := X, ar_files := F, ar_disk := disk\<rparr> in
           case d of
             Inl e \<Rightarrow> (Inl (late_error (xh_aborted H) (raised_of e)), report_with (quarantine candidate p L0 False) R1)
           | Inr (files, contents) \<Rightarrow>
               (case accept_files F W c plan (fs_files (snd files)) (log_event artifact_integrity_verified L0) of
                  (Some x, L) \<Rightarrow> abandon uid roots H candidate p root files L x R1
                | (None, L) \<Rightarrow>
                    if length (al_accepted L) \<noteq> length (ap_artifacts plan)
                    then abandon uid roots H candidate p root files L (Some acceptance_incomplete) R1
                    else case cleanup_set uid roots (xh_cleanup H) F files root disk of
                      (Inl e, disk1) \<Rightarrow> abandon uid roots H candidate p root files L (Some e) (R1\<lparr>ar_disk := disk1\<rparr>)
                    | (Inr _, disk1) \<Rightarrow>
                        (let ev = \<lparr>av_candidateDigest = snd (snd candidate), av_planHash = snd (snd p), av_artifacts = al_accepted L\<rparr>;
                             ob = (snd addrs, ev);
                             rep = \<lparr>rp_candidateDigest = snd (snd candidate), rp_planHash = snd (snd p), rp_terminal = ACCEPTANCE_COMPLETE,
                               rp_events = al_events L @ [cleanup_complete, acceptance_complete], rp_accepted = length (al_accepted L),
                               rp_cleanup = True\<rparr>
                         in (Inr ob, R1\<lparr>ar_disk := disk1,
                              ar_evidence := \<lparr>ev_made = ob # ev_made (ar_evidence R), ev_report = Some rep\<rparr>\<rparr>)))))"

definition authenticates_evidence :: "evidence_authority \<Rightarrow> acceptance_evidence object \<Rightarrow> bool" where
  "authenticates_evidence V e \<longleftrightarrow> e \<in> set (ev_made V)"

end
