(* ===== verification/AcceptFacts.thy ===== *)
theory AcceptFacts
  imports ReadOnlyFile
begin

section \<open>Facts on the acceptance of a production graph\<close>

text \<open>
  The artifacts of a plan are those of the graph, every one of them confirmed by its registry, and
  an approval that is consumed is for such a plan: an invariant of every run of the authorities.
\<close>

subsection \<open>The artifacts of a graph\<close>

definition identity_key :: "artifact_id \<Rightarrow> string" where
  "identity_key i = canonicalJson (identity_json i)"

lemma identity_map_snoc:
  "identity_map (ns @ [n]) = om_set (identity_key (identity_of n)) (identity_of n) (identity_map ns)"
  by (simp add: identity_map_def identity_key_def)

lemma identity_map_wf:
  "om_wf (identity_map ns) \<and> (\<forall>(k, i) \<in> set (identity_map ns). k = identity_key i \<and> i \<in> identity_of ` set ns)
    \<and> fst ` set (identity_map ns) = identity_key ` identity_of ` set ns"
proof (induction ns rule: rev_induct)
  case Nil
  then show ?case by (simp add: identity_map_def)
next
  case (snoc n ns)
  have "set (identity_map (ns @ [n])) \<subseteq> insert (identity_key (identity_of n), identity_of n) (set (identity_map ns))"
    using set_om_set by (simp add: identity_map_snoc)
  then show ?case using snoc by (force simp: identity_map_snoc om_set_keys)
qed

definition text_urls :: "graph_node list \<Rightarrow> bool" where
  "text_urls ns \<longleftrightarrow> (\<forall>n \<in> set ns. is_text (gn_tarballUrl n))"

lemma identity_key_inj:
  assumes "identity_key i = identity_key j" "is_text (ai_tarballUrl i)" "is_text (ai_tarballUrl j)"
  shows "i = j"
proof -
  have d: "json_data (identity_json i)" "json_data (identity_json j)"
    using assms(2,3) by (auto simp: identity_json_def is_text_def split: jsval.splits)
  then have "sortValue (identity_json i) = sortValue (identity_json j)"
    using assms(1) by (auto simp: identity_key_def intro: canonicalJson_inj)
  then have "sortValue (at (identity_json i) k) = sortValue (at (identity_json j) k)" for k
    using json_at_sort [OF d(1), of k] json_at_sort [OF d(2), of k] by simp
  from this [of "''packageName''"] this [of "''exactVersion''"] this [of "''tarballUrl''"] this [of "''sha512Integrity''"]
  show ?thesis using assms(2,3)
    by (auto simp: identity_json_def is_text_def intro!: artifact_id.equality split: jsval.splits)
qed

lemma uniqueArtifactIdentities_spec:
  assumes "text_urls ns"
  shows "set (uniqueArtifactIdentities ns) = identity_of ` set ns \<and> distinct (uniqueArtifactIdentities ns)"
proof -
  note w = identity_map_wf [of ns]
  have "set (map snd (identity_map ns)) = identity_of ` set ns"
  proof
    show "set (map snd (identity_map ns)) \<subseteq> identity_of ` set ns" using w by auto
    show "identity_of ` set ns \<subseteq> set (map snd (identity_map ns))"
    proof
      fix i assume i: "i \<in> identity_of ` set ns"
      then have "identity_key i \<in> fst ` set (identity_map ns)" using w by blast
      then obtain j where j: "(identity_key i, j) \<in> set (identity_map ns)" by auto
      with w have "identity_key i = identity_key j" "j \<in> identity_of ` set ns" by auto
      with i assms have "i = j" by (intro identity_key_inj) (auto simp: text_urls_def identity_of_def)
      with j show "i \<in> set (map snd (identity_map ns))" by force
    qed
  qed
  moreover have "map fst (identity_map ns) = map identity_key (map snd (identity_map ns))" using w by auto
  then have "distinct (map snd (identity_map ns))" using w by (metis distinct_map)
  ultimately show ?thesis by (simp add: uniqueArtifactIdentities_def)
qed

text \<open>A plan covers a graph: its artifacts are the identities of the nodes, each once, with the paths of its nodes.\<close>

definition covers :: "graph_node list \<Rightarrow> artifact_identity list \<Rightarrow> bool" where
  "covers nodes arts \<longleftrightarrow> artifact_id.truncate ` set arts = identity_of ` set nodes \<and> distinct (map artifact_id.truncate arts)
     \<and> (\<forall>a \<in> set arts. ar_installPaths a
          = sort_text (map gn_installPath (filter (\<lambda>n. identity_of n = artifact_id.truncate a) nodes)))"

lemma sameArtifact_iff: "sameArtifact n i \<longleftrightarrow> identity_of n = artifact_id.truncate i"
  by (cases i) (auto simp: sameArtifact_def identity_of_def artifact_id.truncate_def)

lemma truncate_with_paths: "artifact_id.truncate (with_paths nodes i) = artifact_id.truncate i"
  by (simp add: with_paths_def artifact_id.truncate_def)

lemma truncate_id [simp]: "artifact_id.truncate (i :: artifact_id) = i"
  by (cases i) (simp add: artifact_id.truncate_def)

lemma with_paths_covers: "text_urls ns \<Longrightarrow> covers ns (map (with_paths ns) (uniqueArtifactIdentities ns))"
  using uniqueArtifactIdentities_spec [of ns]
  by (auto simp: covers_def image_image truncate_with_paths comp_def sameArtifact_iff) (simp add: with_paths_def sameArtifact_iff)

text \<open>Every node of a covered graph is in one artifact, the one of its own identity.\<close>

lemma covers_node:
  assumes "covers nodes arts" "n \<in> set nodes"
  shows "\<exists>!a. a \<in> set arts \<and> artifact_id.truncate a = identity_of n"
    "a \<in> set arts \<Longrightarrow> artifact_id.truncate a = identity_of n \<Longrightarrow> gn_installPath n \<in> set (ar_installPaths a)"
proof -
  obtain a where a: "a \<in> set arts" "artifact_id.truncate a = identity_of n" using assms by (force simp: covers_def)
  have "inj_on artifact_id.truncate (set arts)" using assms(1) by (simp add: covers_def distinct_map)
  then show "\<exists>!a. a \<in> set arts \<and> artifact_id.truncate a = identity_of n" using a by (metis inj_onD)
  show "gn_installPath n \<in> set (ar_installPaths a)" if "a \<in> set arts" "artifact_id.truncate a = identity_of n" for a
    using assms that by (auto simp: covers_def sort_text_def)
qed

subsection \<open>Compiled candidates have text URLs\<close>

lemma readLockRecord_text: "readLockRecord parse c path v = Inr n \<Longrightarrow> is_text (gn_tarballUrl n)"
  unfolding readLockRecord_def Let_def rbind_Inr_iff by (auto simp: is_text_def)

lemma addLockNodes_text:
  "foldM (addLockNode parse c packages) paths nodes = Inr ns \<Longrightarrow> text_urls nodes \<Longrightarrow> text_urls ns"
proof (induction paths arbitrary: nodes)
  case (Cons path paths)
  then obtain ms where ms: "addLockNode parse c packages path nodes = Inr ms"
    "foldM (addLockNode parse c packages) paths ms = Inr ns" by (auto simp: rbind_Inr_iff)
  have "text_urls ms" using ms(1) Cons.prems(2) by (auto simp: addLockNode_def rbind_Inr_iff text_urls_def dest: readLockRecord_text)
  with Cons.IH ms(2) show ?case by blast
qed simp

lemma compiled_text:
  assumes "compile_candidate parse v = Inr c"
  shows "text_urls (ec_nodes c)"
proof -
  obtain c' nodes where c: "compileLockGraph parse c' (at v ''packageLock'') = Inr nodes" "c = c'\<lparr>ec_nodes := nodes\<rparr>"
    using assms by (auto simp: compile_candidate_def rbind_Inr_iff)
  let ?lk = "at v ''packageLock''"
  obtain raw resolved where r: "foldM (addLockNode parse c' (at ?lk ''packages'')) (sort_text (filter (\<lambda>p. p \<noteq> []) (keys_of (at ?lk ''packages'')))) [] = Inr raw"
    "mapM (resolveNode raw) raw = Inr resolved" "nodes = isort node_lt resolved"
    using c(1) by (auto simp: compileLockGraph_def Let_def rbind_Inr_iff)
  have "text_urls raw" using addLockNodes_text [OF r(1)] by (simp add: text_urls_def)
  then have "text_urls resolved"
    using mapM_results [OF r(2)] by (fastforce simp: text_urls_def resolveNode_def rbind_Inr_iff)
  then show ?thesis by (simp add: c(2) r(3) text_urls_def)
qed

subsection \<open>Confirmation\<close>

lemma assertMetadataLimits_Inr:
  "assertMetadataLimits v = Inr l \<Longrightarrow> 1 \<le> ml_responseBytes l \<and> ml_responseBytes l \<le> ml_aggregateBytes l
    \<and> ml_aggregateBytes l \<le> 128 * 1024 * 1024 \<and> 1 \<le> ml_freshnessMs l \<and> ml_freshnessMs l \<le> 24 * 60 * 60 * 1000
    \<and> 1 \<le> ml_requestTimeoutMs l \<and> ml_requestTimeoutMs l \<le> ml_totalTimeoutMs l"
  by (auto simp: assertMetadataLimits_def Let_def rbind_Inr_iff isBoundedInteger_def read_metadata_limits_def int_at_def
      split: jsval.splits jnum.splits)

text \<open>The registry has answered for an artifact: with its identity, from its own metadata URL, within a positive timeout.\<close>

definition vouched :: "metadata_env \<Rightarrow> string \<Rightarrow> metadata_observation \<Rightarrow> bool" where
  "vouched E origin ob \<longleftrightarrow> (\<exists>k t r. 0 < t \<and> me_fetch E k (artifact_id.truncate ob) t = Answered r \<and> mr_status r = 200
     \<and> \<not> mr_redirected r \<and> mr_finalUrl r = metadataUrl origin (ai_packageName ob) (ai_exactVersion ob)
     \<and> mr_packageName r = ai_packageName ob \<and> mr_exactVersion r = ai_exactVersion ob
     \<and> JStr (mr_tarballUrl r) = ai_tarballUrl ob \<and> mr_sha512Integrity r = ai_sha512Integrity ob
     \<and> mr_responseBytes r = NInt (mo_responseBytes ob))"

lemma confirm_one_Inr:
  assumes "confirm_one E origin l i (k, sofar, obs) = Inr (k', sofar', obs')" "1 \<le> ml_requestTimeoutMs l"
  shows "\<exists>n. obs' = obs @ [observe i n] \<and> vouched E origin (observe i n) \<and> sofar' = sofar + n \<and> 0 < n \<and> sofar' \<le> ml_aggregateBytes l"
proof -
  let ?t = "min (ml_requestTimeoutMs l) (ml_totalTimeoutMs l - me_elapsed E k)"
  obtain r where r: "0 < ml_totalTimeoutMs l - me_elapsed E k" "fetchMetadataWithTimeout (me_fetch E k i ?t) = Inr r"
    "response_ok origin l i sofar r" "sofar' = sofar + bytes_of (mr_responseBytes r)"
    "obs' = obs @ [observe i (bytes_of (mr_responseBytes r))]"
    using assms(1) by (auto simp: confirm_one_def Let_def rbind_Inr_iff)
  have a: "me_fetch E k i ?t = Answered r" using r(2) by (cases "me_fetch E k i ?t") auto
  obtain n where n: "mr_responseBytes r = NInt n" "0 < n" "sofar + n \<le> ml_aggregateBytes l"
    using r(3) by (auto simp: response_ok_def split: jnum.splits)
  have "artifact_id.truncate (observe i n) = i" by (simp add: observe_def artifact_id.truncate_def)
  then have "vouched E origin (observe i n)"
    unfolding vouched_def using a r(1,3) n(1) assms(2)
    by (intro exI [of _ k] exI [of _ ?t] exI [of _ r]) (auto simp: response_ok_def observe_def)
  with r(4,5) n show ?thesis by (auto simp: bytes_of_def)
qed

lemma confirm_all:
  assumes "foldM (confirm_one E origin l) is (k, sofar, obs) = Inr (k', sofar', obs')" "1 \<le> ml_requestTimeoutMs l"
    "sofar = sum_list (map mo_responseBytes obs)" "sofar \<le> ml_aggregateBytes l"
  shows "\<exists>new. obs' = obs @ new \<and> map artifact_id.truncate new = is \<and> (\<forall>ob \<in> set new. vouched E origin ob \<and> 0 < mo_responseBytes ob)
    \<and> sofar' = sum_list (map mo_responseBytes obs') \<and> sofar' \<le> ml_aggregateBytes l"
  using assms
proof (induction "is" arbitrary: k sofar obs)
  case (Cons i "is")
  from Cons.prems(1) obtain k1 s1 obs1 where 1: "confirm_one E origin l i (k, sofar, obs) = Inr (k1, s1, obs1)"
    "foldM (confirm_one E origin l) is (k1, s1, obs1) = Inr (k', sofar', obs')" by (auto simp: rbind_Inr_iff)
  from confirm_one_Inr [OF 1(1) assms(2)] obtain n where n: "obs1 = obs @ [observe i n]" "vouched E origin (observe i n)"
    "s1 = sofar + n" "0 < n" "s1 \<le> ml_aggregateBytes l" by blast
  have m: "mo_responseBytes (observe i n) = n" "artifact_id.truncate (observe i n) = i"
    by (simp_all add: observe_def artifact_id.truncate_def)
  from Cons.IH [OF 1(2) assms(2) _ n(5)] Cons.prems(3) n m obtain new where "obs' = obs1 @ new"
    "map artifact_id.truncate new = is" "\<forall>ob \<in> set new. vouched E origin ob \<and> 0 < mo_responseBytes ob"
    "sofar' = sum_list (map mo_responseBytes obs')" "sofar' \<le> ml_aggregateBytes l" by auto
  with n m show ?case by (intro exI [of _ "observe i n # new"]) auto
qed auto

text \<open>A set of observations confirms a candidate.\<close>

definition confirms :: "metadata_env \<Rightarrow> exact_candidate \<Rightarrow> observation_set \<Rightarrow> bool" where
  "confirms E c s \<longleftrightarrow> os_registryOrigin s = ec_registryOrigin c
     \<and> artifact_id.truncate ` set (os_observations s) = identity_of ` set (ec_nodes c)
     \<and> (\<forall>ob \<in> set (os_observations s). vouched E (ec_registryOrigin c) ob)
     \<and> sum_list (map mo_responseBytes (os_observations s)) \<le> 128 * 1024 * 1024
     \<and> (\<exists>t u. toISOString t = Some (os_observedAt s) \<and> toISOString u = Some (os_expiresAt s) \<and> t < u \<and> u \<le> t + 24 * 60 * 60 * 1000)"

lemma confirm_Inr:
  assumes "confirm E A addr now v candidate made = Inr (ob, made')" "text_urls (ec_nodes (fst (snd candidate)))"
  shows "made' = ob # made \<and> fst ob = addr \<and> candidate \<in> set (ca_candidates A)
    \<and> os_candidateDigest (fst (snd ob)) = snd (snd candidate) \<and> snd (snd ob) = observation_digest (fst (snd ob))
    \<and> confirms E (fst (snd candidate)) (fst (snd ob))"
proof -
  let ?c = "fst (snd candidate)"
  obtain l t obs k sofar t1 t2 where c: "candidate \<in> set (ca_candidates A)" "assertMetadataLimits v = Inr l" "now = Some t"
    "foldM (confirm_one E (ec_registryOrigin ?c) l) (uniqueArtifactIdentities (ec_nodes ?c)) (0, 0, []) = Inr (k, sofar, obs)"
    "toISOString t = Some t1" "toISOString (t + nat (ml_freshnessMs l)) = Some t2" "made' = ob # made"
    and ob: "ob = (let s = \<lparr>os_candidateDigest = snd (snd candidate), os_registryOrigin = ec_registryOrigin ?c,
             os_observedAt = t1, os_expiresAt = t2, os_observations = isort observation_lt obs\<rparr> in (addr, s, observation_digest s))"
    using assms(1) by (auto simp: confirm_def Let_def rbind_Inr_iff authenticates_candidate_def iso_or_raise_def split: option.splits)
  note l = assertMetadataLimits_Inr [OF c(2)]
  from confirm_all [OF c(4)] l have o: "map artifact_id.truncate obs = uniqueArtifactIdentities (ec_nodes ?c)"
    "\<forall>ob \<in> set obs. vouched E (ec_registryOrigin ?c) ob" "sum_list (map mo_responseBytes obs) \<le> ml_aggregateBytes l"
    by auto
  have "mset (map mo_responseBytes (isort observation_lt obs)) = mset (map mo_responseBytes obs)" by simp
  then have s: "sum_list (map mo_responseBytes (isort observation_lt obs)) = sum_list (map mo_responseBytes obs)"
    by (metis sum_mset_sum_list)
  have i: "artifact_id.truncate ` set obs = identity_of ` set (ec_nodes ?c)"
    using arg_cong [OF o(1), of set] uniqueArtifactIdentities_spec [OF assms(2)] by simp
  have t: "t < t + nat (ml_freshnessMs l)" "t + nat (ml_freshnessMs l) \<le> t + 24 * 60 * 60 * 1000" using l by auto
  have e: "\<exists>t u. toISOString t = Some t1 \<and> toISOString u = Some t2 \<and> t < u \<and> u \<le> t + 24 * 60 * 60 * 1000"
    using c(5,6) t by blast
  have "confirms E ?c (fst (snd ob))"
    unfolding confirms_def ob Let_def using o(2,3) i s l e by simp
  with c ob show ?thesis by (simp add: Let_def)
qed

subsection \<open>Runs of the authorities\<close>

text \<open>The state: the next address and what each authority has made.  Everything is reached by its operations.\<close>

record acceptance_state =
  as_next :: nat
  as_candidates :: candidate_authority
  as_observed :: "signed_observations list"
  as_plans :: "signed_plan list"
  as_approvals :: acceptance_approvals

definition start_state :: acceptance_state where
  "start_state = \<lparr>as_next = 0, as_candidates = new_candidate_authority, as_observed = [], as_plans = [],
     as_approvals = \<lparr>xs_issued = [], xs_consumed = []\<rparr>\<rparr>"

text \<open>
  One operation.  The surroundings of a confirmation are named by the address of what it makes.
  A failed operation changes nothing, except that a rejected compilation leaves its reason.
\<close>

inductive acceptance_step :: "value_url_parser \<Rightarrow> date_reader \<Rightarrow> (nat \<Rightarrow> metadata_env) \<Rightarrow> acceptance_state \<Rightarrow> acceptance_state \<Rightarrow> bool"
  for parse dates env where
  compiled: "compile_exact parse (as_next S) v (as_candidates S) = (r, A) \<Longrightarrow>
     acceptance_step parse dates env S (S\<lparr>as_next := as_next S + 1, as_candidates := A\<rparr>)"
| claimed: "claimFailure e (as_candidates S) = (f, A) \<Longrightarrow> acceptance_step parse dates env S (S\<lparr>as_candidates := A\<rparr>)"
| confirmed: "confirm (env (as_next S)) (as_candidates S) (as_next S) now v c (as_observed S) = Inr (s, made) \<Longrightarrow>
     acceptance_step parse dates env S (S\<lparr>as_next := as_next S + 1, as_observed := made\<rparr>)"
| planned: "create_acceptance_plan dates (as_candidates S) (as_observed S) (as_next S) random c m inp (as_plans S) = Inr (p, made) \<Longrightarrow>
     acceptance_step parse dates env S (S\<lparr>as_next := as_next S + 1, as_plans := made\<rparr>)"
| issued: "issue_acceptance dates (as_plans S) (as_next S) random p given expiresAt (as_approvals S) = Inr (a, X) \<Longrightarrow>
     acceptance_step parse dates env S (S\<lparr>as_next := as_next S + 1, as_approvals := X\<rparr>)"
| consumed: "consume_acceptance dates (as_plans S) a p now (as_approvals S) = Inr X \<Longrightarrow>
     acceptance_step parse dates env S (S\<lparr>as_approvals := X\<rparr>)"

inductive acceptance_reachable :: "value_url_parser \<Rightarrow> date_reader \<Rightarrow> (nat \<Rightarrow> metadata_env) \<Rightarrow> acceptance_state \<Rightarrow> bool"
  for parse dates env where
  start: "acceptance_reachable parse dates env start_state"
| step: "acceptance_reachable parse dates env S \<Longrightarrow> acceptance_step parse dates env S T \<Longrightarrow> acceptance_reachable parse dates env T"

text \<open>What a candidate, a set of observations and a plan are in a reachable state.\<close>

definition candidate_made :: "value_url_parser \<Rightarrow> signed_candidate \<Rightarrow> bool" where
  "candidate_made parse c \<longleftrightarrow> (\<exists>v. compile_candidate parse v = Inr (fst (snd c))) \<and> snd (snd c) = exact_digest (fst (snd c))"

definition observed_for :: "(nat \<Rightarrow> metadata_env) \<Rightarrow> signed_candidate list \<Rightarrow> signed_observations \<Rightarrow> bool" where
  "observed_for env cs s \<longleftrightarrow> snd (snd s) = observation_digest (fst (snd s))
     \<and> (\<exists>c \<in> set cs. os_candidateDigest (fst (snd s)) = snd (snd c) \<and> confirms (env (fst s)) (fst (snd c)) (fst (snd s)))"

definition planned_for :: "signed_candidate list \<Rightarrow> signed_observations list \<Rightarrow> signed_plan \<Rightarrow> bool" where
  "planned_for cs obs p \<longleftrightarrow> snd (snd p) = acceptance_hash (fst (snd p))
     \<and> (\<exists>c \<in> set cs. \<exists>s \<in> set obs. ap_candidateDigest (fst (snd p)) = snd (snd c) \<and> os_candidateDigest (fst (snd s)) = snd (snd c)
         \<and> ap_observationDigest (fst (snd p)) = snd (snd s) \<and> ap_metadataExpiresAt (fst (snd p)) = os_expiresAt (fst (snd s))
         \<and> ap_limits (fst (snd p)) = ec_limits (fst (snd c)) \<and> ap_registryOrigin (fst (snd p)) = ec_registryOrigin (fst (snd c))
         \<and> covers (ec_nodes (fst (snd c))) (ap_artifacts (fst (snd p))))"

definition acceptance_inv :: "value_url_parser \<Rightarrow> (nat \<Rightarrow> metadata_env) \<Rightarrow> acceptance_state \<Rightarrow> bool" where
  "acceptance_inv parse env S \<longleftrightarrow> (let cs = ca_candidates (as_candidates S) in
     (\<forall>c \<in> set cs. candidate_made parse c) \<and> (\<forall>s \<in> set (as_observed S). observed_for env cs s)
     \<and> (\<forall>p \<in> set (as_plans S). planned_for cs (as_observed S) p)
     \<and> (\<forall>a \<in> set (xs_issued (as_approvals S)). \<exists>p \<in> set (as_plans S). xa_planHash (snd a) = snd (snd p))
     \<and> distinct (xs_consumed (as_approvals S)))"

lemma observed_for_mono: "observed_for env cs s \<Longrightarrow> set cs \<subseteq> set cs' \<Longrightarrow> observed_for env cs' s"
  by (auto simp: observed_for_def)

lemma planned_for_mono: "planned_for cs obs p \<Longrightarrow> set cs \<subseteq> set cs' \<Longrightarrow> set obs \<subseteq> set obs' \<Longrightarrow> planned_for cs' obs' p"
  unfolding planned_for_def by blast

lemma candidate_made_text: "candidate_made parse c \<Longrightarrow> text_urls (ec_nodes (fst (snd c)))"
  by (auto simp: candidate_made_def dest: compiled_text)

lemma compile_exact_candidates:
  "compile_exact parse addr v A = (r, A') \<Longrightarrow> set (ca_candidates A) \<subseteq> set (ca_candidates A')
    \<and> (\<forall>c \<in> set (ca_candidates A'). c \<in> set (ca_candidates A) \<or> candidate_made parse c)"
  by (auto simp: compile_exact_def candidate_made_def Let_def split: sum.splits)

lemma claimFailure_candidates: "claimFailure e A = (f, A') \<Longrightarrow> ca_candidates A' = ca_candidates A"
  by (auto simp: claimFailure_def split: if_splits option.splits)

lemma create_plan_Inr:
  assumes "create_acceptance_plan dates A observed addr random c m inp made = Inr (p, made')" "text_urls (ec_nodes (fst (snd c)))"
  shows "made' = p # made \<and> planned_for (ca_candidates A) observed p \<and> \<not> expired_by dates (ap_metadataExpiresAt (fst (snd p))) (pi_now inp)"
proof -
  have i: "c \<in> set (ca_candidates A)" "m \<in> set observed"
    using assms(1) by (auto simp: create_acceptance_plan_def Let_def rbind_Inr_iff authenticates_candidate_def authenticates_metadata_def)
  have p: "made' = p # made" "snd (snd p) = acceptance_hash (fst (snd p))" "ap_candidateDigest (fst (snd p)) = snd (snd c)"
    "os_candidateDigest (fst (snd m)) = snd (snd c)" "ap_observationDigest (fst (snd p)) = snd (snd m)"
    "ap_metadataExpiresAt (fst (snd p)) = os_expiresAt (fst (snd m))" "ap_limits (fst (snd p)) = ec_limits (fst (snd c))"
    "ap_registryOrigin (fst (snd p)) = ec_registryOrigin (fst (snd c))" "\<not> expired_by dates (os_expiresAt (fst (snd m))) (pi_now inp)"
    "ap_artifacts (fst (snd p)) = map (with_paths (ec_nodes (fst (snd c)))) (uniqueArtifactIdentities (ec_nodes (fst (snd c))))"
    using assms(1) by (auto simp: create_acceptance_plan_def Let_def rbind_Inr_iff)
  then have "planned_for (ca_candidates A) observed p"
    unfolding planned_for_def using i with_paths_covers [OF assms(2)] by metis
  with p show ?thesis by simp
qed

lemma acceptance_step_inv:
  assumes "acceptance_step parse dates env S T" "acceptance_inv parse env S"
  shows "acceptance_inv parse env T"
  using assms(1)
proof cases
  case (compiled v r A)
  note c = compile_exact_candidates [OF compiled(2)]
  have "\<forall>s \<in> set (as_observed S). observed_for env (ca_candidates A) s" "\<forall>p \<in> set (as_plans S). planned_for (ca_candidates A) (as_observed S) p"
    using assms(2) c by (auto simp: acceptance_inv_def Let_def intro: observed_for_mono planned_for_mono)
  with assms(2) c compiled(1) show ?thesis by (auto simp: acceptance_inv_def Let_def)
next
  case (claimed e f A)
  with assms(2) claimFailure_candidates [OF claimed(2)] show ?thesis by (simp add: acceptance_inv_def)
next
  case (confirmed now v c s made)
  have "c \<in> set (ca_candidates (as_candidates S))"
    using confirmed(2) by (auto simp: confirm_def Let_def rbind_Inr_iff authenticates_candidate_def)
  with assms(2) have "text_urls (ec_nodes (fst (snd c)))" by (auto simp: acceptance_inv_def Let_def intro: candidate_made_text)
  note d = confirm_Inr [OF confirmed(2) this]
  then have o: "observed_for env (ca_candidates (as_candidates S)) s" by (auto simp: observed_for_def)
  have "\<forall>p \<in> set (as_plans S). planned_for (ca_candidates (as_candidates S)) made p"
    using assms(2) d by (auto simp: acceptance_inv_def Let_def intro: planned_for_mono)
  with assms(2) d o confirmed(1) show ?thesis by (auto simp: acceptance_inv_def Let_def)
next
  case (planned random c m inp p made)
  have "c \<in> set (ca_candidates (as_candidates S))"
    using planned(2) by (auto simp: create_acceptance_plan_def Let_def rbind_Inr_iff authenticates_candidate_def)
  with assms(2) have "text_urls (ec_nodes (fst (snd c)))" by (auto simp: acceptance_inv_def Let_def intro: candidate_made_text)
  from create_plan_Inr [OF planned(2) this] assms(2) planned(1) show ?thesis by (auto simp: acceptance_inv_def Let_def)
next
  case (issued random p given expiresAt a X)
  have "p \<in> set (as_plans S)" "xa_planHash (snd a) = snd (snd p)" "X = as_approvals S\<lparr>xs_issued := a # xs_issued (as_approvals S)\<rparr>"
    using issued(2) by (auto simp: issue_acceptance_def rbind_Inr_iff authenticates_acceptance_def Let_def)
  with assms(2) issued(1) show ?thesis by (simp add: acceptance_inv_def Let_def) blast
next
  case (consumed a p now X)
  with assms(2) show ?thesis by (auto simp: acceptance_inv_def Let_def consume_acceptance_def rbind_Inr_iff)
qed

lemma acceptance_reachable_inv: "acceptance_reachable parse dates env S \<Longrightarrow> acceptance_inv parse env S"
proof (induction rule: acceptance_reachable.induct)
  case start
  show ?case by (simp add: acceptance_inv_def start_state_def new_candidate_authority_def)
next
  case (step S T)
  then show ?case by (blast intro: acceptance_step_inv)
qed

text \<open>
  C9: an approval that is consumed opens exactly the confirmed artifacts.  In every run of the
  authorities, when the approval of a plan is consumed, it had not been consumed before; the plan
  is that of a candidate compiled from a lock; its artifacts are those of the graph of the
  candidate, each once with all its paths; the registry has answered for every one of them from
  its metadata URL with the version, tarball and integrity of the lock; and neither the approval
  nor these answers, which last a day at most, have expired.
\<close>

theorem approved_plan_confirmed:
  assumes "acceptance_reachable parse dates env S" "consume_acceptance dates (as_plans S) a p now (as_approvals S) = Inr X"
  shows "fst a \<notin> set (xs_consumed (as_approvals S)) \<and> xs_consumed X = fst a # xs_consumed (as_approvals S)
    \<and> xa_planHash (snd a) = acceptance_hash (fst (snd p))
    \<and> \<not> expired_by dates (xa_expiresAt (snd a)) now \<and> \<not> expired_by dates (ap_metadataExpiresAt (fst (snd p))) now
    \<and> (\<exists>v c w c' s. compile_candidate parse v = Inr c \<and> ap_candidateDigest (fst (snd p)) = exact_digest c
        \<and> covers (ec_nodes c) (ap_artifacts (fst (snd p))) \<and> ap_limits (fst (snd p)) = ec_limits c
        \<and> s \<in> set (as_observed S) \<and> ap_observationDigest (fst (snd p)) = observation_digest (fst (snd s))
        \<and> ap_metadataExpiresAt (fst (snd p)) = os_expiresAt (fst (snd s))
        \<and> compile_candidate parse w = Inr c' \<and> exact_digest c' = exact_digest c \<and> confirms (env (fst s)) c' (fst (snd s)))"
proof -
  note inv = acceptance_reachable_inv [OF assms(1), unfolded acceptance_inv_def Let_def]
  have c: "p \<in> set (as_plans S)" "xa_planHash (snd a) = snd (snd p)" "fst a \<notin> set (xs_consumed (as_approvals S))"
    "\<not> expired_by dates (xa_expiresAt (snd a)) now" "\<not> expired_by dates (ap_metadataExpiresAt (fst (snd p))) now"
    "xs_consumed X = fst a # xs_consumed (as_approvals S)"
    using assms(2) by (auto simp: consume_acceptance_def rbind_Inr_iff authenticates_acceptance_def)
  then obtain k s where k: "k \<in> set (ca_candidates (as_candidates S))" "s \<in> set (as_observed S)"
    "snd (snd p) = acceptance_hash (fst (snd p))" "ap_candidateDigest (fst (snd p)) = snd (snd k)"
    "os_candidateDigest (fst (snd s)) = snd (snd k)" "ap_observationDigest (fst (snd p)) = snd (snd s)"
    "ap_metadataExpiresAt (fst (snd p)) = os_expiresAt (fst (snd s))" "ap_limits (fst (snd p)) = ec_limits (fst (snd k))"
    "covers (ec_nodes (fst (snd k))) (ap_artifacts (fst (snd p)))"
    using inv unfolding planned_for_def by metis
  from k(2) inv obtain k' where k': "k' \<in> set (ca_candidates (as_candidates S))" "snd (snd s) = observation_digest (fst (snd s))"
    "os_candidateDigest (fst (snd s)) = snd (snd k')" "confirms (env (fst s)) (fst (snd k')) (fst (snd s))"
    unfolding observed_for_def by metis
  obtain v w where "compile_candidate parse v = Inr (fst (snd k))" "snd (snd k) = exact_digest (fst (snd k))"
    "compile_candidate parse w = Inr (fst (snd k'))" "snd (snd k') = exact_digest (fst (snd k'))"
    using inv k(1) k'(1) unfolding candidate_made_def by metis
  with c k k' show ?thesis by (metis (no_types, lifting))
qed

subsection \<open>A concrete run\<close>

definition demo_dates :: date_reader where
  "demo_dates s = map_option int (parse_iso s)"

definition demo_sha :: "nat list" where "demo_sha = sha512 [1]"

lemma demo_sha_bytes: "length demo_sha = 64" "list_all (\<lambda>b. b < 256) demo_sha"
  using sha512_bytes [of _ "[1]"] by (auto simp: demo_sha_def list_all_iff)

abbreviation demo_c :: exact_candidate where
  "demo_c \<equiv> demo_exact demo_sha"

abbreviation demo_signed :: signed_candidate where
  "demo_signed \<equiv> (0, demo_c, exact_digest demo_c)"

abbreviation demo_id :: artifact_id where
  "demo_id \<equiv> identity_of (demo_node demo_sha)"

definition demo_env :: "nat \<Rightarrow> metadata_env" where
  "demo_env a = \<lparr>me_aborted = (\<lambda>_. False), me_elapsed = (\<lambda>_. 0),
     me_fetch = (\<lambda>_ i _. Answered \<lparr>mr_status = 200, mr_contentType = ''application/json'', mr_responseBytes = NInt 9,
        mr_redirected = False, mr_finalUrl = metadataUrl ''https://r/'' ''a'' ''1.0.0'', mr_packageName = ''a'',
        mr_exactVersion = ''1.0.0'', mr_tarballUrl = ''https://r/a.tgz'', mr_sha512Integrity = ai_sha512Integrity i\<rparr>)\<rparr>"

definition demo_limits :: jsval where
  "demo_limits = JObj [(''responseBytes'', JInt 100), (''aggregateBytes'', JInt 100), (''freshnessMs'', JInt 1000),
     (''requestTimeoutMs'', JInt 10), (''totalTimeoutMs'', JInt 10)]"

definition demo_observed :: signed_observations where
  "demo_observed = (let s = \<lparr>os_candidateDigest = exact_digest demo_c, os_registryOrigin = ''https://r/'',
     os_observedAt = iso_text 5, os_expiresAt = iso_text 1005, os_observations = [observe demo_id 9]\<rparr> in (1, s, observation_digest s))"

definition demo_root :: bound_root where
  "demo_root = (let r = \<lparr>pr_path = ''/q'', pr_device = 1, pr_inode = 2, pr_owner = 501, pr_mode = 16832\<rparr> in (7, r, root_binding r))"

lemma demo_binding: "is_hash (snd (snd demo_root))"
  by (simp add: demo_root_def root_binding_def sha256_is_hash Let_def)

definition demo_plan_input :: plan_input where
  "demo_plan_input = \<lparr>pi_sessionId = None, pi_runtimeDigest = replicate 64 (CHR ''0''), pi_rootBinding = snd (snd demo_root),
     pi_requestTimeoutMs = JInt 100, pi_totalTimeoutMs = JInt 100, pi_now = Some 6\<rparr>"

definition demo_acceptance_plan :: signed_plan where
  "demo_acceptance_plan = (let p = \<lparr>ap_sessionId = replicate 32 (CHR ''a''), ap_candidateDigest = exact_digest demo_c,
     ap_observationDigest = snd (snd demo_observed), ap_metadataExpiresAt = iso_text 1005, ap_registryOrigin = ''https://r/'',
     ap_artifacts = [with_paths [demo_node demo_sha] demo_id], ap_limits = PACKAGE_STAGE_HARD_CEILINGS,
     ap_runtimeDigest = replicate 64 (CHR ''0''), ap_rootBinding = snd (snd demo_root), ap_requestTimeoutMs = 100,
     ap_totalTimeoutMs = 100\<rparr> in (2, p, acceptance_hash p))"

definition demo_acceptance_approval :: "acceptance_approval object" where
  "demo_acceptance_approval = (3, \<lparr>xa_approvalId = replicate 32 (CHR ''b''), xa_planHash = snd (snd demo_acceptance_plan),
     xa_expiresAt = iso_text 2000\<rparr>)"

lemma demo_signed_compiled:
  "compile_exact demo_value_urls 0 (demo_input demo_sha) new_candidate_authority
     = (Inr demo_signed, \<lparr>ca_candidates = [demo_signed], ca_errors = [], ca_claimed = []\<rparr>)"
  using demo_compiled [OF demo_sha_bytes]
  by (simp add: compile_exact_def new_candidate_authority_def Let_def)

lemma demo_unique: "uniqueArtifactIdentities (ec_nodes demo_c) = [demo_id]"
  "uniqueArtifactIdentities [demo_node demo_sha] = [demo_id]"
  by (simp_all add: uniqueArtifactIdentities_def identity_map_def demo_exact_def)

lemma demo_iso: "t \<le> 5000 \<Longrightarrow> toISOString t = Some (iso_text t)" "t \<le> 5000 \<Longrightarrow> demo_dates (iso_text t) = Some (int t)"
  by (simp_all add: toISOString_def demo_dates_def parse_iso_text max_time_def)

lemma demo_confirmed:
  "confirm (demo_env 1) \<lparr>ca_candidates = [demo_signed], ca_errors = [], ca_claimed = []\<rparr> 1 (Some 5) demo_limits demo_signed []
     = Inr (demo_observed, [demo_observed])"
proof -
  have m: "media_type ''application/json'' = ''application/json''" by code_simp
  have l: "assertMetadataLimits demo_limits = Inr (read_metadata_limits demo_limits)"
    by (simp add: assertMetadataLimits_def demo_limits_def isBoundedInteger_def read_metadata_limits_def int_at_def Let_def max_safe_def)
  have o: "ec_registryOrigin demo_c = ''https://r/''" by (simp add: demo_exact_def)
  have f: "confirm_one (demo_env a) ''https://r/'' (read_metadata_limits demo_limits) demo_id (0, 0, []) = Inr (1, 9, [observe demo_id 9])" for a
    using m by (simp add: confirm_one_def demo_env_def response_ok_def identity_of_def demo_node_def read_metadata_limits_def
        demo_limits_def int_at_def max_safe_def bytes_of_def Let_def)
  have i: "iso_or_raise 5 = Inr (iso_text 5)" "iso_or_raise 1005 = Inr (iso_text 1005)"
    by (simp_all add: iso_or_raise_def demo_iso)
  have n: "nat (ml_freshnessMs (read_metadata_limits demo_limits)) = 1000"
    by (simp add: read_metadata_limits_def demo_limits_def int_at_def)
  show ?thesis
    by (simp add: confirm_def authenticates_candidate_def l demo_unique o f i n demo_observed_def Let_def)
qed

lemma demo_planned_acceptance:
  "create_acceptance_plan demo_dates \<lparr>ca_candidates = [demo_signed], ca_errors = [], ca_claimed = []\<rparr> [demo_observed] 2
     (replicate 32 (CHR ''a'')) demo_signed demo_observed demo_plan_input [] = Inr (demo_acceptance_plan, [demo_acceptance_plan])"
proof -
  have e: "\<not> expired_by demo_dates (iso_text 1005) (Some 6)" by (simp add: expired_by_def demo_iso)
  have s: "is_session_id (replicate 32 (CHR ''a''))" by (simp add: is_session_id_def list_all_iff is_hex_def)
  have h: "plan_input_ok demo_plan_input"
    using demo_binding
    by (simp add: plan_input_ok_def demo_plan_input_def) (simp add: is_hash_def list_all_iff is_hex_def is_digit_def isBoundedInteger_def int_of_def max_safe_def)
  have o: "os_candidateDigest (fst (snd demo_observed)) = exact_digest demo_c" "os_expiresAt (fst (snd demo_observed)) = iso_text 1005"
    by (simp_all add: demo_observed_def Let_def)
  have c: "ec_registryOrigin demo_c = ''https://r/''" "ec_limits demo_c = PACKAGE_STAGE_HARD_CEILINGS" "ec_nodes demo_c = [demo_node demo_sha]"
    by (simp_all add: demo_exact_def)
  show ?thesis
    using e s h
    by (simp add: create_acceptance_plan_def authenticates_candidate_def authenticates_metadata_def o demo_unique c
        demo_acceptance_plan_def Let_def) (simp add: demo_plan_input_def int_of_def Let_def)
qed

lemma demo_issued:
  "issue_acceptance demo_dates [demo_acceptance_plan] 3 (replicate 32 (CHR ''b'')) demo_acceptance_plan None (iso_text 2000)
     \<lparr>xs_issued = [], xs_consumed = []\<rparr> = Inr (demo_acceptance_approval, \<lparr>xs_issued = [demo_acceptance_approval], xs_consumed = []\<rparr>)"
  by (simp add: issue_acceptance_def authenticates_acceptance_def is_session_id_def list_all_iff is_hex_def demo_iso
      demo_acceptance_approval_def Let_def)

definition demo_acceptance_state :: acceptance_state where
  "demo_acceptance_state = \<lparr>as_next = 4, as_candidates = \<lparr>ca_candidates = [demo_signed], ca_errors = [], ca_claimed = []\<rparr>,
     as_observed = [demo_observed], as_plans = [demo_acceptance_plan],
     as_approvals = \<lparr>xs_issued = [demo_acceptance_approval], xs_consumed = []\<rparr>\<rparr>"

lemma demo_acceptance_reached: "acceptance_reachable demo_value_urls demo_dates demo_env demo_acceptance_state"
proof -
  let ?A = "\<lparr>ca_candidates = [demo_signed], ca_errors = [], ca_claimed = []\<rparr>"
  let ?S = "\<lambda>n obs ps xs. \<lparr>as_next = n, as_candidates = ?A, as_observed = obs, as_plans = ps, as_approvals = \<lparr>xs_issued = xs, xs_consumed = []\<rparr>\<rparr>"
  note st = acceptance_reachable.step [of demo_value_urls demo_dates demo_env]
  have 1: "acceptance_reachable demo_value_urls demo_dates demo_env (?S 1 [] [] [])"
    using st [OF acceptance_reachable.start acceptance_step.compiled, of "demo_input demo_sha" "Inr demo_signed" ?A]
      demo_signed_compiled by (simp add: start_state_def)
  have 2: "acceptance_reachable demo_value_urls demo_dates demo_env (?S 2 [demo_observed] [] [])"
    using st [OF 1 acceptance_step.confirmed, of "Some 5" demo_limits demo_signed demo_observed "[demo_observed]"] demo_confirmed
    by (simp add: numeral_2_eq_2)
  have 3: "acceptance_reachable demo_value_urls demo_dates demo_env (?S 3 [demo_observed] [demo_acceptance_plan] [])"
    using st [OF 2 acceptance_step.planned, of "replicate 32 (CHR ''a'')" demo_signed demo_observed demo_plan_input demo_acceptance_plan
        "[demo_acceptance_plan]"] demo_planned_acceptance
    by simp
  show ?thesis
    using st [OF 3 acceptance_step.issued, of "replicate 32 (CHR ''b'')" demo_acceptance_plan None "iso_text 2000" demo_acceptance_approval
        "\<lparr>xs_issued = [demo_acceptance_approval], xs_consumed = []\<rparr>"] demo_issued
    by (simp add: demo_acceptance_state_def)
qed

lemma demo_consumed_acceptance:
  "consume_acceptance demo_dates [demo_acceptance_plan] demo_acceptance_approval demo_acceptance_plan (Some 7)
     (as_approvals demo_acceptance_state) = Inr \<lparr>xs_issued = [demo_acceptance_approval], xs_consumed = [3]\<rparr>"
proof -
  have "\<not> expired_by demo_dates (iso_text 2000) (Some 7)" "\<not> expired_by demo_dates (iso_text 1005) (Some 7)"
    by (simp_all add: expired_by_def demo_iso)
  moreover have "ap_metadataExpiresAt (fst (snd demo_acceptance_plan)) = iso_text 1005"
    by (simp add: demo_acceptance_plan_def Let_def)
  ultimately show ?thesis
    by (simp add: consume_acceptance_def authenticates_acceptance_def demo_acceptance_state_def)
       (simp add: demo_acceptance_approval_def)
qed

theorem approved_plan_confirmed_witness:
  "\<exists>X (c :: exact_candidate). consume_acceptance demo_dates [demo_acceptance_plan] demo_acceptance_approval demo_acceptance_plan (Some 7)
       (as_approvals demo_acceptance_state) = Inr X \<and> xs_consumed X = [3]
     \<and> covers (ec_nodes c) [with_paths [demo_node demo_sha] demo_id]"
proof -
  have p: "ap_artifacts (fst (snd demo_acceptance_plan)) = [with_paths [demo_node demo_sha] demo_id]"
    by (simp add: demo_acceptance_plan_def Let_def)
  have a: "as_plans demo_acceptance_state = [demo_acceptance_plan]" by (simp add: demo_acceptance_state_def)
  from approved_plan_confirmed [OF demo_acceptance_reached demo_consumed_acceptance [folded a]]
  obtain c :: exact_candidate where "covers (ec_nodes c) [with_paths [demo_node demo_sha] demo_id]" unfolding p by blast
  with demo_consumed_acceptance show ?thesis by (metis acceptance_approvals.select_convs(2))
qed

end
