(* ===== verification/ReadOnlyFileFacts.thy ===== *)
theory ReadOnlyFileFacts
  imports AcceptFacts
begin

section \<open>Facts on artifact files\<close>

text \<open>
  A download that returns has written and hashed the bytes of every artifact of the approved plan;
  one that fails leaves no file behind or says so; and a source hands out exactly the bytes of an
  unchanged data.
\<close>

subsection \<open>Writing\<close>

lemma write_at_end: "length data = pos \<Longrightarrow> write_at pos bytes data = data @ bytes"
  by (simp add: write_at_def)

text \<open>However the writes are cut, the chunk ends up behind what was there.\<close>

lemma write_chunk_appends: "write_chunk rest pos ws data = Inr data' \<Longrightarrow> length data = pos \<Longrightarrow> data' = data @ rest"
proof (induction rest pos ws data rule: write_chunk.induct)
  case (4 c cs pos n ws data)
  have n: "0 < n" "write_chunk (drop (nat n) (c # cs)) (pos + nat n) ws (write_at pos (take (nat n) (c # cs)) data) = Inr data'"
    using "4.prems"(1) by (auto split: if_splits)
  have w: "write_at pos (take (nat n) (c # cs)) data = data @ take (nat n) (c # cs)" using "4.prems"(2) by (rule write_at_end)
  show ?case
  proof (cases "nat n \<le> length (c # cs)")
    case True
    then have "length (write_at pos (take (nat n) (c # cs)) data) = pos + nat n" using "4.prems"(2) by (simp add: w)
    from "4.IH" [OF _ n(2) this] n(1) have "data' = data @ take (nat n) (c # cs) @ drop (nat n) (c # cs)" by (simp add: w)
    then show ?thesis by (simp only: append_take_drop_id)
  next
    case False
    with n(2) w show ?thesis by simp
  qed
qed auto

definition within :: "stage_limits \<Rightarrow> nat \<Rightarrow> byte list \<Rightarrow> bool" where
  "within l before bytes \<longleftrightarrow> length bytes \<le> sl_compressedArtifactBytes l \<and> before + length bytes \<le> sl_totalCompressedBytes l"

lemma receive_Inr:
  "receive l before ps got data = Inr (bytes, data') \<Longrightarrow> data = got \<Longrightarrow> within l before got \<Longrightarrow> data' = bytes \<and> within l before bytes"
proof (induction l before ps got data rule: receive.induct)
  case (2 l before piece aborted answers ps got data)
  obtain chunk data1 where c: "waitUntilDeadline piece = Inr (Some chunk)" "\<not> aborted" "within l before (got @ chunk)"
    "write_chunk chunk (length got) answers data = Inr data1" "receive l before ps (got @ chunk) data1 = Inr (bytes, data')"
    using "2.prems"(1) by (auto simp: rbind_Inr_iff Let_def within_def split: option.splits)
  have "data1 = got @ chunk" using write_chunk_appends [OF c(4)] "2.prems"(2) by simp
  with "2.IH" c show ?case by (auto simp: Let_def within_def)
qed auto

subsection \<open>One artifact\<close>

text \<open>What a downloaded file is: the named bytes, written as they were hashed, in a private file of that size.\<close>

definition holds_artifact :: "nat option \<Rightarrow> artifact_identity \<Rightarrow> artifact_file \<Rightarrow> byte list \<Rightarrow> bool" where
  "holds_artifact uid a f bytes \<longleftrightarrow> af_artifact f = a \<and> af_compressedBytes f = length bytes
     \<and> ai_sha512Integrity a = ''sha512-'' @ b64_encode (sha512 bytes)
     \<and> fi_size (af_identity f) = length bytes \<and> permissions (fi_mode (af_identity f)) = 384 \<and> fi_links (af_identity f) = 1
     \<and> (\<forall>u. uid = Some u \<longrightarrow> fi_owner (af_identity f) = u)"

lemma fill_file_Inr:
  assumes "fill_file uid H l before a = Inr (bytes, data)" "before \<le> sl_totalCompressedBytes l"
  shows "data = bytes \<and> within l before bytes \<and> ai_sha512Integrity a = ''sha512-'' @ b64_encode (sha512 bytes)"
proof -
  obtain ps where r: "parseSha512Integrity (ai_sha512Integrity a) = Some (sha512 bytes)"
    "receive l before ps [] [] = Inr (bytes, data)"
    using assms(1) by (auto simp: fill_file_def rbind_Inr_iff split: option.splits if_splits)
  have "within l before []" using assms(2) by (simp add: within_def)
  from receive_Inr [OF r(2) refl this] r(1) show ?thesis by (simp add: parseSha512Integrity_iff)
qed

lemma captureFileIdentity_Inr:
  "captureFileIdentity uid n s = Inr i \<Longrightarrow> fi_size i = n \<and> permissions (fi_mode i) = 384 \<and> fi_links i = 1
    \<and> (\<forall>u. uid = Some u \<longrightarrow> fi_owner i = u)"
  by (auto simp: captureFileIdentity_def Let_def rbind_Inr_iff matchesFileIdentity_def identity_of_stat_def uid_matches_def)

lemma discard_file_gone:
  "discard_file uid H known x = (e, gone) \<Longrightarrow> gone \<or> e = artifact_cleanup_incomplete"
  by (auto simp: discard_file_def split: if_splits)

text \<open>Both ways a download of one artifact can end.\<close>

definition one_ended :: "nat option \<Rightarrow> artifact_identity \<Rightarrow> stage_limits \<Rightarrow> nat \<Rightarrow> string list
    \<Rightarrow> (raised + artifact_file \<times> byte list) \<times> string list \<Rightarrow> bool" where
  "one_ended uid a l before disk R \<longleftrightarrow> (case R of
     (Inr (f, bytes), disk') \<Rightarrow> holds_artifact uid a f bytes \<and> within l before bytes \<and> disk' = af_path f # disk
   | (Inl x, disk') \<Rightarrow> x = Some artifact_cleanup_incomplete \<or> set disk' \<subseteq> set disk)"

lemma failed_ended:
  assumes "discard_file uid H known x = (e, gone)" "set disk1 \<subseteq> insert path (set disk)"
  shows "one_ended uid a l before disk (Inl (Some e), if gone then removeAll path disk1 else disk1)"
  using discard_file_gone [OF assms(1)] assms(2) by (auto simp: one_ended_def)

lemma downloadOne_ended:
  assumes "before \<le> sl_totalCompressedBytes l"
  shows "one_ended uid a l before disk (downloadOne uid roots H l root before a disk)"
proof -
  let ?path = "artifact_path (fst (snd root)) (fh_random H)"
  let ?disk = "?path # disk"
  have fail: "one_ended uid a l before disk
      (let (e, gone) = discard_file uid H known x in (Inl (Some e), if gone then removeAll ?path d else d))"
    if "set d \<subseteq> insert ?path (set disk)" for known x d
    using failed_ended [OF _ that] by (cases "discard_file uid H known x") (simp add: Let_def)
  show ?thesis
  proof (cases "revalidate uid roots root (fh_rootStat H)")
    case (Inl x)
    then show ?thesis by (simp add: downloadOne_def Let_def one_ended_def)
  next
    case r: (Inr u)
    show ?thesis
    proof (cases "fh_opened H")
      case False
      with r show ?thesis using fail [of disk None None] by (auto simp: downloadOne_def)
    next
      case o: True
      show ?thesis
      proof (cases "rbind (call (fh_firstStat H)) (captureFileIdentity uid 0)")
        case (Inl x)
        with r o show ?thesis using fail [of ?disk None x] by (auto simp: downloadOne_def Let_def)
      next
        case fst: (Inr first)
        show ?thesis
        proof (cases "fill_file uid H l before a")
          case (Inl x)
          with r o fst show ?thesis using fail [of ?disk "Some first" x] by (auto simp: downloadOne_def Let_def)
        next
          case fill: (Inr w)
          obtain bytes data where w: "w = (bytes, data)" by fastforce
          note b = fill_file_Inr [OF fill [unfolded w] assms]
          show ?thesis
          proof (cases "rbind (call (fh_stat H)) (captureFileIdentity uid (length bytes))")
            case (Inl x)
            with r o fst fill w show ?thesis using fail [of ?disk "Some first" x] by (auto simp: downloadOne_def Let_def)
          next
            case id: (Inr i)
            then have i: "fi_size i = length bytes" "permissions (fi_mode i) = 384" "fi_links i = 1" "\<forall>u. uid = Some u \<longrightarrow> fi_owner i = u"
              by (auto simp: rbind_Inr_iff dest: captureFileIdentity_Inr)
            let ?last = "rbind (call (if fh_closed H then Some () else None)) (\<lambda>_.
                rbind (call (fh_pathStat H)) (\<lambda>s. ensure_file (matchesFileIdentity uid s i)))"
            show ?thesis
            proof (cases ?last)
              case (Inl x)
              with r o fst fill w id show ?thesis using fail [of ?disk "Some i" x] by (auto simp: downloadOne_def Let_def)
            next
              case (Inr v)
              with r o fst fill w id b i show ?thesis by (simp add: downloadOne_def Let_def one_ended_def holds_artifact_def)
            qed
          qed
        qed
      qed
    qed
  qed
qed

subsection \<open>All artifacts\<close>

definition file_paths :: "(artifact_file \<times> byte list) list \<Rightarrow> string set" where
  "file_paths fs = (\<lambda>p. af_path (fst p)) ` set fs"

lemma download_all_ended:
  assumes "download_all uid roots H p root k as before D = (r, D')" "before \<le> sl_totalCompressedBytes (ap_limits p)"
  shows "\<exists>new. ds_files D' = ds_files D @ new
    \<and> (r = Some (Some artifact_cleanup_incomplete) \<or> set (ds_disk D') \<subseteq> set (ds_disk D) \<union> file_paths new)
    \<and> (r = None \<longrightarrow> list_all2 (\<lambda>a (f, bytes). holds_artifact uid a f bytes \<and> length bytes \<le> sl_compressedArtifactBytes (ap_limits p)) as new
        \<and> before + sum_list (map (\<lambda>p. length (snd p)) new) \<le> sl_totalCompressedBytes (ap_limits p))"
  using assms
proof (induction "as" arbitrary: k before D)
  case (Cons a "as")
  let ?O = "downloadOne uid roots (dh_file H k) (ap_limits p) root before a (ds_disk D)"
  show ?case
  proof (cases "dh_aborted H k \<or> ap_totalTimeoutMs p - dh_elapsed H k \<le> 0")
    case True
    with Cons.prems(1) have "r \<noteq> None \<and> D' = D" by (auto split: if_splits)
    then show ?thesis by (auto simp: file_paths_def)
  next
    case False
    note e = downloadOne_ended [OF Cons.prems(2), of uid a "ds_disk D" roots "dh_file H k" root]
    show ?thesis
    proof (cases ?O)
      case (Pair q disk)
      show ?thesis
      proof (cases q)
        case (Inl x)
        with False Pair Cons.prems(1) have "r = Some x" "D' = D\<lparr>ds_disk := disk\<rparr>" by auto
        with e Pair Inl show ?thesis by (auto simp: one_ended_def file_paths_def)
      next
        case (Inr w)
        obtain f bytes where w: "w = (f, bytes)" by fastforce
        let ?D = "\<lparr>ds_files = ds_files D @ [(f, bytes)],
             ds_authority = (ds_authority D)\<lparr>fa_files := f # fa_files (ds_authority D)\<rparr>, ds_disk = disk\<rparr>"
        have h: "holds_artifact uid a f bytes" "within (ap_limits p) before bytes" "disk = af_path f # ds_disk D"
          using e Pair Inr w by (simp_all add: one_ended_def)
        have "download_all uid roots H p root (k + 1) as (before + af_compressedBytes f) ?D = (r, D')"
          using Cons.prems(1) False Pair Inr w by simp
        moreover have n: "af_compressedBytes f = length bytes" using h(1) by (simp add: holds_artifact_def)
        ultimately obtain new where new: "ds_files D' = ds_files ?D @ new"
          "r = Some (Some artifact_cleanup_incomplete) \<or> set (ds_disk D') \<subseteq> set (ds_disk ?D) \<union> file_paths new"
          "r = None \<longrightarrow> list_all2 (\<lambda>a (f, bytes). holds_artifact uid a f bytes \<and> length bytes \<le> sl_compressedArtifactBytes (ap_limits p)) as new
            \<and> before + length bytes + sum_list (map (\<lambda>p. length (snd p)) new) \<le> sl_totalCompressedBytes (ap_limits p)"
          using Cons.IH [of "k + 1" "before + af_compressedBytes f" ?D] h(2) by (auto simp: within_def)
        then show ?thesis
          using h by (intro exI [of _ "(f, bytes) # new"]) (auto simp: file_paths_def within_def)
      qed
    qed
  qed
qed (auto simp: file_paths_def)

lemma remove_files_True:
  "remove_files uid H F r fs disk = (True, disk') \<Longrightarrow> set disk' = set disk - af_path ` set fs"
  by (induction uid H F r fs disk rule: remove_files.induct) (auto split: if_splits)

lemma cleanupFiles_True:
  "cleanupFiles uid roots H F root fs disk = (True, disk') \<Longrightarrow> set disk' = set disk - af_path ` set fs"
  by (auto simp: cleanupFiles_def split: sum.splits dest: remove_files_True)

lemma downloadForTest_cases:
  assumes "downloadForTest dates uid roots made H addr p a root now X F disk = (r, X', F', disk')"
  obtains (refused) e where "r = Inl e" "X' = X" "disk' = disk"
  | (ran) D x where "consume_acceptance dates made a p now X = Inr X'" "root \<in> set roots" "snd (snd root) = ap_rootBinding (fst (snd p))"
    "download_all uid roots H (fst (snd p)) root 0 (ap_artifacts (fst (snd p))) 0 \<lparr>ds_files = [], ds_authority = F, ds_disk = disk\<rparr> = (x, D)"
    "x = None \<Longrightarrow> r = Inr ((addr, \<lparr>fs_planHash = snd (snd p), fs_rootBinding = snd (snd root), fs_files = map fst (ds_files D)\<rparr>), map snd (ds_files D))
       \<and> disk' = ds_disk D"
    "\<And>y. x = Some y \<Longrightarrow> \<exists>ok. cleanupFiles uid roots (dh_cleanup H) (ds_authority D) root (map fst (ds_files D)) (ds_disk D) = (ok, disk')
       \<and> r = Inl (Failed (if \<not> ok then artifact_cleanup_incomplete
            else stage_or (if dh_abortedLate H then artifact_cancelled else artifact_file_invalid) y))"
proof -
  let ?pre = "rbind (must plan_not_authenticated (authenticates_acceptance made p)) (\<lambda>_.
           rbind (must artifact_plan_invalid (root \<in> set roots \<and> snd (snd root) = ap_rootBinding (fst (snd p)))) (\<lambda>_.
           case settle artifact_file_invalid (revalidate uid roots root (dh_rootStat H)) of
             Inl e \<Rightarrow> Inl (Failed e) | Inr _ \<Rightarrow> consume_acceptance dates made a p now X))"
  let ?all = "download_all uid roots H (fst (snd p)) root 0 (ap_artifacts (fst (snd p))) 0 \<lparr>ds_files = [], ds_authority = F, ds_disk = disk\<rparr>"
  show ?thesis
  proof (cases ?pre)
    case (Inl e)
    with assms have "r = Inl e" "X' = X" "disk' = disk" by (auto simp: downloadForTest_def)
    then show ?thesis by (rule refused)
  next
    case (Inr X1)
    then have c: "consume_acceptance dates made a p now X = Inr X1" "root \<in> set roots" "snd (snd root) = ap_rootBinding (fst (snd p))"
      by (auto simp: rbind_Inr_iff split: sum.splits)
    obtain x D where d: "?all = (x, D)" by fastforce
    show ?thesis
    proof (cases x)
      case None
      with assms Inr d have "r = Inr ((addr, \<lparr>fs_planHash = snd (snd p), fs_rootBinding = snd (snd root), fs_files = map fst (ds_files D)\<rparr>), map snd (ds_files D))"
        "disk' = ds_disk D" "X' = X1" by (auto simp: downloadForTest_def Let_def)
      then show ?thesis using c d None by (intro ran [of x D]) auto
    next
      case (Some y)
      obtain ok disk1 where k: "cleanupFiles uid roots (dh_cleanup H) (ds_authority D) root (map fst (ds_files D)) (ds_disk D) = (ok, disk1)"
        by fastforce
      with assms Inr d Some have "r = Inl (Failed (if \<not> ok then artifact_cleanup_incomplete
            else stage_or (if dh_abortedLate H then artifact_cancelled else artifact_file_invalid) y))" "disk' = disk1" "X' = X1"
        by (auto simp: downloadForTest_def Let_def)
      then show ?thesis using c d Some k by (intro ran [of x D]) auto
    qed
  qed
qed

lemma downloaded_spec:
  assumes "downloadForTest dates uid roots made H addr p a root now X F disk = (Inr (files, contents), X', F', disk')"
  shows "p \<in> set made \<and> a \<in> set (xs_issued X) \<and> xa_planHash (snd a) = snd (snd p) \<and> fst a \<in> set (xs_consumed X') - set (xs_consumed X)
    \<and> fs_planHash (snd files) = snd (snd p) \<and> fs_rootBinding (snd files) = ap_rootBinding (fst (snd p))
    \<and> list_all2 (\<lambda>art (f, bytes). holds_artifact uid art f bytes \<and> length bytes \<le> sl_compressedArtifactBytes (ap_limits (fst (snd p))))
        (ap_artifacts (fst (snd p))) (zip (fs_files (snd files)) contents)
    \<and> length (fs_files (snd files)) = length contents
    \<and> sum_list (map length contents) \<le> sl_totalCompressedBytes (ap_limits (fst (snd p)))
    \<and> set disk' \<subseteq> set disk \<union> af_path ` set (fs_files (snd files))"
proof (rule downloadForTest_cases [OF assms])
  fix D x
  let ?p = "fst (snd p)"
  assume c: "consume_acceptance dates made a p now X = Inr X'" and b: "snd (snd root) = ap_rootBinding ?p"
    and d: "download_all uid roots H ?p root 0 (ap_artifacts ?p) 0 \<lparr>ds_files = [], ds_authority = F, ds_disk = disk\<rparr> = (x, D)"
    and n: "x = None \<Longrightarrow> Inr (files, contents) = Inr ((addr, \<lparr>fs_planHash = snd (snd p), fs_rootBinding = snd (snd root), fs_files = map fst (ds_files D)\<rparr>), map snd (ds_files D))
       \<and> disk' = ds_disk D"
    and f: "\<And>y. x = Some y \<Longrightarrow> \<exists>ok. cleanupFiles uid roots (dh_cleanup H) (ds_authority D) root (map fst (ds_files D)) (ds_disk D) = (ok, disk')
       \<and> Inr (files, contents) = Inl (Failed (if \<not> ok then artifact_cleanup_incomplete
            else stage_or (if dh_abortedLate H then artifact_cancelled else artifact_file_invalid) y))"
  have x: "x = None" using f by (cases x) auto
  note r = n [OF x]
  from download_all_ended [OF d] x
  have e: "set (ds_disk D) \<subseteq> set disk \<union> file_paths (ds_files D)"
    "list_all2 (\<lambda>art (f, bytes). holds_artifact uid art f bytes \<and> length bytes \<le> sl_compressedArtifactBytes (ap_limits ?p)) (ap_artifacts ?p) (ds_files D)"
    "sum_list (map (\<lambda>q. length (snd q)) (ds_files D)) \<le> sl_totalCompressedBytes (ap_limits ?p)" by auto
  have z: "zip (map fst (ds_files D)) (map snd (ds_files D)) = ds_files D" by (rule zip_map_fst_snd)
  show ?thesis
    using c r b e by (auto simp: consume_acceptance_def rbind_Inr_iff authenticates_acceptance_def z file_paths_def comp_def)
qed simp

text \<open>
  C10: what a download returns is what was approved.  The approval was valid and is used up; there is
  one file for every artifact of the plan, in order; the bytes in it are the bytes that were hashed,
  their SHA-512 digest is the integrity of the artifact, and the file is private, has one link and
  exactly that size; every artifact and their total stay within the limits of the plan; and nothing
  else was left on disk.
\<close>

theorem downloaded_files_verified:
  assumes "downloadForTest dates uid roots made H addr p a root now X F disk = (Inr (files, contents), X', F', disk')"
  shows "p \<in> set made \<and> a \<in> set (xs_issued X) \<and> xa_planHash (snd a) = snd (snd p) \<and> fst a \<in> set (xs_consumed X') - set (xs_consumed X)
    \<and> fs_planHash (snd files) = snd (snd p) \<and> fs_rootBinding (snd files) = ap_rootBinding (fst (snd p))
    \<and> list_all2 (\<lambda>art (f, bytes). holds_artifact uid art f bytes \<and> length bytes \<le> sl_compressedArtifactBytes (ap_limits (fst (snd p))))
        (ap_artifacts (fst (snd p))) (zip (fs_files (snd files)) contents)
    \<and> length (fs_files (snd files)) = length contents
    \<and> sum_list (map length contents) \<le> sl_totalCompressedBytes (ap_limits (fst (snd p)))
    \<and> set disk' \<subseteq> set disk \<union> af_path ` set (fs_files (snd files))"
  using assms by (rule downloaded_spec)

lemma leaves_nothing_spec:
  assumes "downloadForTest dates uid roots made H addr p a root now X F disk = (Inl e, X', F', disk')"
  shows "e = Failed artifact_cleanup_incomplete \<or> set disk' \<subseteq> set disk"
proof (rule downloadForTest_cases [OF assms])
  fix D x
  let ?p = "fst (snd p)"
  assume d: "download_all uid roots H ?p root 0 (ap_artifacts ?p) 0 \<lparr>ds_files = [], ds_authority = F, ds_disk = disk\<rparr> = (x, D)"
    and n: "x = None \<Longrightarrow> Inl e = Inr ((addr, \<lparr>fs_planHash = snd (snd p), fs_rootBinding = snd (snd root), fs_files = map fst (ds_files D)\<rparr>), map snd (ds_files D))
       \<and> disk' = ds_disk D"
    and f: "\<And>y. x = Some y \<Longrightarrow> \<exists>ok. cleanupFiles uid roots (dh_cleanup H) (ds_authority D) root (map fst (ds_files D)) (ds_disk D) = (ok, disk')
       \<and> Inl e = Inl (Failed (if \<not> ok then artifact_cleanup_incomplete
            else stage_or (if dh_abortedLate H then artifact_cancelled else artifact_file_invalid) y))"
  obtain y where y: "x = Some y" using n by (cases x) auto
  from f [OF y] obtain ok where ok: "cleanupFiles uid roots (dh_cleanup H) (ds_authority D) root (map fst (ds_files D)) (ds_disk D) = (ok, disk')"
    "e = Failed (if \<not> ok then artifact_cleanup_incomplete else stage_or (if dh_abortedLate H then artifact_cancelled else artifact_file_invalid) y)"
    by auto
  show ?thesis
  proof (cases "ok \<and> y \<noteq> Some artifact_cleanup_incomplete")
    case True
    then have "cleanupFiles uid roots (dh_cleanup H) (ds_authority D) root (map fst (ds_files D)) (ds_disk D) = (True, disk')"
      using ok(1) by simp
    then have c: "set disk' = set (ds_disk D) - af_path ` set (map fst (ds_files D))" by (rule cleanupFiles_True)
    from download_all_ended [OF d] y True have "set (ds_disk D) \<subseteq> set disk \<union> file_paths (ds_files D)" by auto
    with c show ?thesis by (auto simp: file_paths_def image_image)
  next
    case False
    with ok(2) show ?thesis by (auto simp: stage_or_def)
  qed
qed simp

text \<open>
  C34: a failed download leaves nothing behind.  Unless the failure is the one that says that the
  removal was incomplete, every path on disk afterwards was there before, whatever call failed.
\<close>

theorem download_leaves_nothing:
  assumes "downloadForTest dates uid roots made H addr p a root now X F disk = (Inl e, X', F', disk')"
  shows "e = Failed artifact_cleanup_incomplete \<or> set disk' \<subseteq> set disk"
  using assms by (rule leaves_nothing_spec)

subsection \<open>A concrete download\<close>

definition demo_stat :: "nat \<Rightarrow> file_stat" where
  "demo_stat n = \<lparr>fst_isFile = True, fst_isDirectory = False, fst_isLink = False, fst_dev = 1, fst_ino = 3, fst_uid = 501,
     fst_mode = 33152, fst_nlink = 1, fst_size = n, fst_mtime = 0, fst_ctime = 0\<rparr>"

definition demo_root_stat :: file_stat where
  "demo_root_stat = \<lparr>fst_isFile = False, fst_isDirectory = True, fst_isLink = False, fst_dev = 1, fst_ino = 2, fst_uid = 501,
     fst_mode = 16832, fst_nlink = 2, fst_size = 0, fst_mtime = 0, fst_ctime = 0\<rparr>"

definition demo_response :: file_response where
  "demo_response = \<lparr>fr_status = 200, fr_redirected = False, fr_finalUrl = ''https://r/a.tgz'',
     fr_contentType = ''application/gzip'', fr_contentEncoding = ''identity'', fr_contentLength = Some 1,
     fr_body = [(Delivered (Some [1]), False, [Some 1])]\<rparr>"

text \<open>The answers; the last \<open>lstat\<close> of the file is given, so that it can be another file.\<close>

definition demo_file_host :: "file_stat option \<Rightarrow> file_host" where
  "demo_file_host seen = \<lparr>fh_rootStat = Some demo_root_stat, fh_random = ''x'', fh_opened = True, fh_firstStat = Some (demo_stat 0),
     fh_response = Delivered demo_response, fh_synced = True, fh_stat = Some (demo_stat 1), fh_closed = True,
     fh_pathStat = seen, fh_cleanupStat = Some (demo_stat 1), fh_unlink = Unlinked, fh_aborted = False\<rparr>"

definition demo_seen :: "file_stat option" where
  "demo_seen = Some (demo_stat 1)"

definition demo_download :: "file_stat option \<Rightarrow> download_host" where
  "demo_download seen = \<lparr>dh_rootStat = Some demo_root_stat, dh_aborted = (\<lambda>_. False), dh_elapsed = (\<lambda>_. 0),
     dh_file = (\<lambda>_. demo_file_host seen), dh_cleanup = \<lparr>ch_rootStat = Some demo_root_stat, ch_stat = (\<lambda>_. None), ch_unlink = (\<lambda>_. False)\<rparr>,
     dh_abortedLate = False\<rparr>"

definition demo_artifact :: artifact_identity where
  "demo_artifact = with_paths [demo_node demo_sha] demo_id"

lemma demo_revalidated: "revalidate (Some 501) [demo_root] demo_root (Some demo_root_stat) = Inr ()"
  by (simp add: revalidate_def demo_root_def demo_root_stat_def private_root_stat_def uid_matches_def permissions_def ensure_file_def Let_def)

lemma demo_one:
  "downloadOne (Some 501) [demo_root] (demo_file_host demo_seen) PACKAGE_STAGE_HARD_CEILINGS demo_root 0 demo_artifact []
     = (Inr (\<lparr>af_artifact = demo_artifact, af_path = ''/q/artifact-x.tgz'', af_compressedBytes = 1,
          af_identity = identity_of_stat (demo_stat 1)\<rparr>, [1]), [''/q/artifact-x.tgz''])" (is ?ok)
  and demo_one_replaced:
  "downloadOne (Some 501) [demo_root] (demo_file_host None) PACKAGE_STAGE_HARD_CEILINGS demo_root 0 demo_artifact []
     = (Inl (Some artifact_file_invalid), [])" (is ?bad)
proof -
  have m: "media_type ''application/gzip'' = ''application/gzip''" by code_simp
  have i: "parseSha512Integrity (ai_sha512Integrity demo_artifact) = Some (sha512 [1])"
    using demo_sha_bytes by (simp add: parseSha512Integrity_iff demo_artifact_def with_paths_def identity_of_def demo_node_def
        demo_integrity_def demo_sha_def)
  have u: "ai_tarballUrl demo_artifact = JStr ''https://r/a.tgz''"
    by (simp add: demo_artifact_def with_paths_def identity_of_def demo_node_def)
  have f: "fill_file (Some 501) (demo_file_host seen) PACKAGE_STAGE_HARD_CEILINGS 0 demo_artifact = Inr ([1], [1])" for seen
    using m i u
    by (simp add: fill_file_def demo_file_host_def demo_response_def file_response_ok_def max_safe_def PACKAGE_STAGE_HARD_CEILINGS_def
        write_at_def ensure_file_def call_def)
  have s: "captureFileIdentity (Some 501) n (demo_stat n) = Inr (identity_of_stat (demo_stat n))" for n
    by (simp add: captureFileIdentity_def matchesFileIdentity_def identity_of_stat_def demo_stat_def uid_matches_def permissions_def ensure_file_def)
  have p: "matchesFileIdentity (Some 501) (demo_stat 1) (identity_of_stat (demo_stat 1))"
    "matchesStableFileIdentity (Some 501) (demo_stat 1) (identity_of_stat (demo_stat 1))"
    by (simp_all add: matchesFileIdentity_def matchesStableFileIdentity_def identity_of_stat_def demo_stat_def uid_matches_def permissions_def)
  have a: "artifact_path (fst (snd demo_root)) ''x'' = ''/q/artifact-x.tgz''" by (simp add: artifact_path_def demo_root_def Let_def)
  have h: "fh_rootStat (demo_file_host seen) = Some demo_root_stat" "fh_random (demo_file_host seen) = ''x''" "fh_opened (demo_file_host seen)"
    "fh_firstStat (demo_file_host seen) = Some (demo_stat 0)" "fh_stat (demo_file_host seen) = Some (demo_stat 1)"
    "fh_closed (demo_file_host seen)" "fh_pathStat (demo_file_host seen) = seen" "fh_cleanupStat (demo_file_host seen) = Some (demo_stat 1)"
    "fh_unlink (demo_file_host seen) = Unlinked" "\<not> fh_aborted (demo_file_host seen)" for seen
    by (simp_all add: demo_file_host_def)
  show ?ok using s [of 1] p by (simp add: demo_seen_def downloadOne_def demo_revalidated f s p a h ensure_file_def call_def Let_def)
  show ?bad using s [of 1] p
    by (simp add: downloadOne_def demo_revalidated f s a h ensure_file_def call_def Let_def discard_file_def stage_or_def)
qed

lemma demo_plan_parts:
  "ap_artifacts (fst (snd demo_acceptance_plan)) = [demo_artifact]" "ap_limits (fst (snd demo_acceptance_plan)) = PACKAGE_STAGE_HARD_CEILINGS"
  "ap_totalTimeoutMs (fst (snd demo_acceptance_plan)) = 100" "ap_rootBinding (fst (snd demo_acceptance_plan)) = snd (snd demo_root)"
  by (simp_all add: demo_acceptance_plan_def demo_artifact_def Let_def)

abbreviation demo_run_download :: "file_stat option \<Rightarrow> (accept_error + file_set object \<times> byte list list) \<times> acceptance_approvals \<times> file_authority \<times> string list" where
  "demo_run_download seen \<equiv> downloadForTest demo_dates (Some 501) [demo_root] [demo_acceptance_plan] (demo_download seen) 9 demo_acceptance_plan
     demo_acceptance_approval demo_root (Some 7) (as_approvals demo_acceptance_state) new_file_authority []"

definition demo_got_file :: artifact_file where
  "demo_got_file = \<lparr>af_artifact = demo_artifact, af_path = ''/q/artifact-x.tgz'', af_compressedBytes = 1,
     af_identity = identity_of_stat (demo_stat 1)\<rparr>"

definition demo_files :: "file_set object" where
  "demo_files = (9, \<lparr>fs_planHash = snd (snd demo_acceptance_plan), fs_rootBinding = snd (snd demo_root), fs_files = [demo_got_file]\<rparr>)"

lemma demo_downloaded:
  "\<exists>X. demo_run_download demo_seen = (Inr (demo_files, [[1]]), X, \<lparr>fa_files = [demo_got_file], fa_sets = [demo_files]\<rparr>, [''/q/artifact-x.tgz''])"
  "\<exists>X F. demo_run_download None = (Inl (Failed artifact_file_invalid), X, F, [])"
proof -
  have d: "dh_rootStat (demo_download seen) = Some demo_root_stat" "\<not> dh_aborted (demo_download seen) 0" "dh_elapsed (demo_download seen) 0 = 0"
    "dh_file (demo_download seen) 0 = demo_file_host seen" "\<not> dh_abortedLate (demo_download seen)"
    "ch_rootStat (dh_cleanup (demo_download seen)) = Some demo_root_stat" for seen
    by (simp_all add: demo_download_def)
  show "\<exists>X. demo_run_download demo_seen = (Inr (demo_files, [[1]]), X, \<lparr>fa_files = [demo_got_file], fa_sets = [demo_files]\<rparr>, [''/q/artifact-x.tgz''])"
    by (simp add: downloadForTest_def authenticates_acceptance_def demo_plan_parts d demo_revalidated settle_def demo_consumed_acceptance demo_one
        demo_got_file_def demo_files_def new_file_authority_def Let_def)
  show "\<exists>X F. demo_run_download None = (Inl (Failed artifact_file_invalid), X, F, [])"
    by (simp add: downloadForTest_def authenticates_acceptance_def demo_plan_parts d demo_revalidated settle_def demo_consumed_acceptance demo_one_replaced
        cleanupFiles_def stage_or_def Let_def)
qed

theorem downloaded_files_verified_witness:
  "\<exists>s X F. demo_run_download demo_seen = (Inr (s, [[1]]), X, F, [''/q/artifact-x.tgz'']) \<and> length (fs_files (snd s)) = 1"
proof -
  obtain s X F where r: "demo_run_download demo_seen = (Inr (s, [[1]]), X, F, [''/q/artifact-x.tgz''])" using demo_downloaded by blast
  from downloaded_files_verified [OF r] have "length (fs_files (snd s)) = 1" by simp
  with r show ?thesis by blast
qed

theorem download_leaves_nothing_witness:
  "\<exists>X F. demo_run_download None = (Inl (Failed artifact_file_invalid), X, F, []) \<and> set [] \<subseteq> (set [] :: string set)"
proof -
  obtain X F where r: "demo_run_download None = (Inl (Failed artifact_file_invalid), X, F, [])" using demo_downloaded by blast
  from download_leaves_nothing [OF r] r show ?thesis by auto
qed

end
