(* ===== verification/ManifestFacts.thy ===== *)
theory ManifestFacts
  imports Manifest AcceptFacts
begin

section \<open>Facts on manifests\<close>

text \<open>
  A manifest that is projected says exactly what the graph says of the package: its name, version
  and dependencies, with no field the graph does not cover and no install script it does not expect.
\<close>

text \<open>Arrays whose items are told apart by their canonical form are told apart by theirs.\<close>

lemma array_inj:
  assumes "canonicalJson (JArr (map f xs)) = canonicalJson (JArr (map f ys))" "\<And>x. json_data (f x)"
    "\<And>x y. sortValue (f x) = sortValue (f y) \<Longrightarrow> x = y"
  shows "xs = ys"
proof -
  have "sortValue (JArr (map f xs)) = sortValue (JArr (map f ys))"
    by (rule canonicalJson_inj [OF _ _ assms(1)]) (simp_all add: list_all_iff assms(2))
  then have "map (\<lambda>x. sortValue (f x)) xs = map (\<lambda>x. sortValue (f x)) ys" by (simp add: comp_def)
  moreover have "inj (\<lambda>x. sortValue (f x))" using assms(3) by (rule injI)
  ultimately show ?thesis by (metis inj_map_eq_map)
qed

lemma texts_inj: "canonicalJson (JArr (map JStr xs)) = canonicalJson (JArr (map JStr ys)) \<Longrightarrow> xs = ys"
  by (erule array_inj) simp_all

lemma dependency_json_data: "json_data (dependency_json d)"
  by (simp add: dependency_json_def)

lemma dependency_json_inj: assumes "sortValue (dependency_json d) = sortValue (dependency_json e)" shows "d = e"
proof -
  have "sortValue (at (dependency_json d) k) = sortValue (at (dependency_json e) k)" for k
    using assms json_at_sort [OF dependency_json_data, of d k] json_at_sort [OF dependency_json_data, of e k] by simp
  from this [of "''packageName''"] this [of "''declaredSpecifier''"] show ?thesis by (simp add: dependency_json_def)
qed

lemma dependencies_inj:
  "canonicalJson (JArr (map dependency_json ds)) = canonicalJson (JArr (map dependency_json es)) \<Longrightarrow> ds = es"
  by (erule array_inj) (rule dependency_json_data, rule dependency_json_inj)

text \<open>The pairs of a map that is read, as properties.\<close>

lemma parseStringMap_Inr:
  assumes "parseStringMap e v = Inr m"
  shows "v = JUndef \<and> m = [] \<or> (\<exists>kvs. v = JObj kvs \<and> kvs = map (\<lambda>(k, s). (k, JStr s)) m)"
proof (cases v)
  case (JObj kvs)
  have "mapM (\<lambda>(k, x). rbind (guard e (map_text_ok 214 k)) (\<lambda>_.
         case x of JStr s \<Rightarrow> if map_text_ok 1024 s then Inr (k, s) else Inl e | _ \<Rightarrow> Inl e)) xs = Inr ys
      \<Longrightarrow> xs = map (\<lambda>(k, s). (k, JStr s)) ys" for xs ys
    by (induction xs arbitrary: ys) (auto simp: rbind_Inr_iff split: sum.splits jsval.splits if_splits prod.splits)
  with assms JObj show ?thesis by (auto simp: parseStringMap_def)
qed (use assms in \<open>auto simp: parseStringMap_def\<close>)

lemma claimed_expected:
  assumes "claimed_dependencies m = expected_dependencies n"
  shows "set m = (\<lambda>e. (de_packageName e, de_declaredSpecifier e)) ` set (gn_edges n)"
proof -
  let ?f = "\<lambda>(n, s). \<lparr>dc_packageName = n, dc_declaredSpecifier = s\<rparr>" and ?g = "\<lambda>d. (dc_packageName d, dc_declaredSpecifier d)"
  have "?g ` set (claimed_dependencies m) = ?g ` set (expected_dependencies n)" using assms by simp
  moreover have "?g ` ?f ` set m = set m" by (force simp: image_image)
  ultimately show ?thesis by (simp add: claimed_dependencies_def expected_dependencies_def image_image)
qed

text \<open>What a manifest agrees with.\<close>

definition manifest_agrees :: "graph_node \<Rightarrow> jsval \<Rightarrow> bool" where
  "manifest_agrees n v \<longleftrightarrow> at v ''name'' = JStr (gn_packageName n) \<and> at v ''version'' = JStr (gn_exactVersion n)
     \<and> (at v ''dependencies'' = JUndef \<and> gn_edges n = []
        \<or> (\<exists>kvs. at v ''dependencies'' = JObj kvs \<and> set kvs = (\<lambda>e. (de_packageName e, JStr (de_declaredSpecifier e))) ` set (gn_edges n)))
     \<and> set manifest_forbidden \<inter> set (keys_of v) = {} \<and> at v ''gypfile'' \<noteq> JBool True
     \<and> set (gn_scripts n) = set INSTALL_LIFECYCLE_NAMES \<inter> set (keys_of (at v ''scripts''))"

lemma project_manifest_Inr:
  assumes "project_manifest n h v = Inr p"
  shows "manifest_agrees n v \<and> mp_packageName p = gn_packageName n \<and> mp_exactVersion p = gn_exactVersion n
    \<and> mp_dependencies p = expected_dependencies n \<and> mp_lifecycle p = gn_scripts n \<and> mp_bodySha256 p = h"
proof -
  obtain deps scripts t e where r: "at v ''name'' = JStr (gn_packageName n)" "at v ''version'' = JStr (gn_exactVersion n)"
    "list_all (\<lambda>k. k \<notin> set (keys_of v)) manifest_forbidden" "at v ''gypfile'' \<noteq> JBool True"
    "parseStringMap manifest_mismatch (at v ''dependencies'') = Inr deps"
    "canonicalJson (JArr (map dependency_json (claimed_dependencies deps))) = canonicalJson (JArr (map dependency_json (expected_dependencies n)))"
    "parseStringMap manifest_invalid (at v ''scripts'') = Inr scripts"
    "canonicalJson (JArr (map JStr (sort_text (filter (\<lambda>k. k \<in> set INSTALL_LIFECYCLE_NAMES) (map fst scripts))))) = canonicalJson (JArr (map JStr (gn_scripts n)))"
    "p = \<lparr>mp_packageName = gn_packageName n, mp_exactVersion = gn_exactVersion n, mp_dependencies = claimed_dependencies deps,
       mp_lifecycle = sort_text (filter (\<lambda>k. k \<in> set INSTALL_LIFECYCLE_NAMES) (map fst scripts)), mp_packageType = t,
       mp_entrypointDigest = e, mp_bodySha256 = h\<rparr>"
    using assms unfolding project_manifest_def rbind_Inr_iff guard_Inr Let_def sum.inject by blast
  note ds = dependencies_inj [OF r(6)] and ns = texts_inj [OF r(8)]
  note s = claimed_expected [OF ds]
  have dep: "at v ''dependencies'' = JUndef \<and> gn_edges n = []
     \<or> (\<exists>kvs. at v ''dependencies'' = JObj kvs \<and> set kvs = (\<lambda>e. (de_packageName e, JStr (de_declaredSpecifier e))) ` set (gn_edges n))"
    using parseStringMap_Inr [OF r(5)] s by (auto simp: image_image)
  have "keys_of (at v ''scripts'') = map fst scripts"
    using parseStringMap_Inr [OF r(7)] by (auto simp: keys_of_def)
  then have "set (gn_scripts n) = set INSTALL_LIFECYCLE_NAMES \<inter> set (keys_of (at v ''scripts''))"
    unfolding ns [symmetric] by (auto simp: sort_text_def)
  moreover have "set manifest_forbidden \<inter> set (keys_of v) = {}" using r(3) by (auto simp: list_all_iff)
  ultimately have "manifest_agrees n v" using r(1,2,4) dep unfolding manifest_agrees_def by blast
  with ds ns show ?thesis by (simp add: r(9))
qed

lemma manifest_text_Inr:
  assumes "manifest_text encoded t = Inr (h, s)"
  shows "\<exists>bytes e. filter (\<lambda>e. te_relativePath e = ''package.json'') (tb_entries t) = [e] \<and> te_type e = Entry_file
    \<and> encoded = b64_encode bytes \<and> te_sha e = Some (sha256_hex (map of_nat bytes)) \<and> h = sha256_hex (map of_nat bytes)
    \<and> utf8_decode (map of_nat bytes) = Some s"
proof -
  let ?b = "b64_decode encoded"
  have r: "manifest_sha t = Inr h" "b64_encode ?b = encoded" "sha256_hex (map of_nat ?b) = h" "utf8_decode (map of_nat ?b) = Some s"
    using assms by (auto simp: manifest_text_def rbind_Inr_iff Let_def decodeCanonicalBase64_def split: if_splits option.splits)
  obtain e where e: "filter (\<lambda>e. te_relativePath e = ''package.json'') (tb_entries t) = [e]" "te_sha e = Some h" "te_type e = Entry_file"
    using r(1) by (auto simp: manifest_sha_def split: list.splits option.splits if_splits)
  from r e show ?thesis by (intro exI [of _ ?b] exI [of _ e]) simp
qed

lemma manifest_matches_spec:
  assumes "projectAndValidatePackageManifest encoded t c nodes = Inr (p, d)"
  shows "nodes \<noteq> [] \<and> (\<forall>n \<in> set nodes. identity_of n = identity_of (hd nodes))
    \<and> (\<exists>bytes e s v. filter (\<lambda>e. te_relativePath e = ''package.json'') (tb_entries t) = [e] \<and> encoded = b64_encode bytes
        \<and> te_sha e = Some (sha256_hex (map of_nat bytes)) \<and> mp_bodySha256 p = sha256_hex (map of_nat bytes)
        \<and> utf8_decode (map of_nat bytes) = Some s \<and> scanJsonWithoutDuplicateKeys s \<and> json_parse s = Some v
        \<and> manifest_agrees (hd nodes) v)
    \<and> mp_dependencies p = expected_dependencies (hd nodes) \<and> d = projection_digest p
    \<and> (\<forall>n \<in> set nodes. gn_installPath n = ''node_modules/'' @ ec_topName c \<longrightarrow> has_entrypoint t (ec_entrypoint c))"
proof -
  obtain n ns where ns: "nodes = n # ns" using assms by (cases nodes) (auto simp: projectAndValidatePackageManifest_def)
  obtain h s v where r: "list_all (\<lambda>m. samePackageIdentity m n) nodes" "manifest_text encoded t = Inr (h, s)"
    "scanJsonWithoutDuplicateKeys s" "json_parse s = Some v" "project_manifest n h v = Inr p" "d = projection_digest p"
    "list_all (\<lambda>m. gn_installPath m = ''node_modules/'' @ ec_topName c \<longrightarrow> has_entrypoint t (ec_entrypoint c)) nodes"
    using assms by (auto simp: projectAndValidatePackageManifest_def ns rbind_Inr_iff split: option.splits)
  note p = project_manifest_Inr [OF r(5)]
  from manifest_text_Inr [OF r(2)] obtain bytes e where b: "filter (\<lambda>e. te_relativePath e = ''package.json'') (tb_entries t) = [e]"
    "encoded = b64_encode bytes" "te_sha e = Some (sha256_hex (map of_nat bytes))" "h = sha256_hex (map of_nat bytes)"
    "utf8_decode (map of_nat bytes) = Some s" by blast
  have i: "\<forall>m \<in> set nodes. identity_of m = identity_of n" using r(1) by (auto simp: list_all_iff samePackageIdentity_def identity_of_def)
  have e: "\<forall>m \<in> set nodes. gn_installPath m = ''node_modules/'' @ ec_topName c \<longrightarrow> has_entrypoint t (ec_entrypoint c)"
    using r(7) by (simp only: list_all_iff)
  have "mp_bodySha256 p = sha256_hex (map of_nat bytes)" "manifest_agrees n v" "mp_dependencies p = expected_dependencies n"
    using p b(4) by simp_all
  then show ?thesis using b i e r(3,4,6) unfolding ns list.sel by blast
qed


subsection \<open>A concrete manifest\<close>

definition demo_manifest_text :: string where
  "demo_manifest_text = CHR ''{'' # quote ''name'' @ '':'' @ quote ''a'' @ '','' @ quote ''version'' @ '': '' @ quote ''1.0.0'' @ ''}''"

definition demo_manifest_bytes :: "nat list" where
  "demo_manifest_bytes = map code demo_manifest_text"

definition demo_manifest_entry :: "string \<Rightarrow> nat list \<Rightarrow> transcript_entry" where
  "demo_manifest_entry name bytes = \<lparr>te_archivePath = ''package/'' @ name, te_relativePath = name, te_type = Entry_file,
     te_declaredSize = NInt 30, te_observedSize = 30, te_mode = 420, te_sha = Some (sha256_hex (map of_nat bytes))\<rparr>"

definition demo_package_transcript :: transcript where
  "demo_package_transcript = \<lparr>tb_sha512 = [], tb_compressedBytes = 0, tb_expandedBytes = 0,
     tb_entries = [demo_manifest_entry ''i.js'' [], demo_manifest_entry ''package.json'' demo_manifest_bytes], tr_digest = []\<rparr>"

lemma demo_manifest_parts:
  "scanJsonWithoutDuplicateKeys demo_manifest_text"
  "json_parse demo_manifest_text = Some (JObj [(''name'', JStr ''a''), (''version'', JStr ''1.0.0'')])"
  "utf8_decode (map of_nat demo_manifest_bytes) = Some demo_manifest_text"
  by code_simp+

lemma demo_manifest_encoded:
  "b64_decode (b64_encode demo_manifest_bytes) = demo_manifest_bytes"
  "dropWhile is_b64_char (b64_encode demo_manifest_bytes) \<in> {[], ''='', ''==''}"
  "demo_manifest_bytes \<noteq> []" "length demo_manifest_bytes \<le> 100"
  by code_simp+

lemma demo_manifest_projected:
  "\<exists>p d. projectAndValidatePackageManifest (b64_encode demo_manifest_bytes) demo_package_transcript demo_c [demo_node demo_sha] = Inr (p, d)"
proof -
  have m: "manifest_text (b64_encode demo_manifest_bytes) demo_package_transcript = Inr (sha256_hex (map of_nat demo_manifest_bytes), demo_manifest_text)"
    using demo_manifest_encoded demo_manifest_parts(3)
    by (simp add: manifest_text_def manifest_sha_def demo_package_transcript_def demo_manifest_entry_def decodeCanonicalBase64_def Let_def)
  have e: "has_entrypoint demo_package_transcript (ec_entrypoint demo_c)"
    by (simp add: has_entrypoint_def demo_package_transcript_def demo_manifest_entry_def demo_exact_def)
  have "\<exists>p. project_manifest (demo_node demo_sha) h (JObj [(''name'', JStr ''a''), (''version'', JStr ''1.0.0'')]) = Inr p" for h
    by (simp add: project_manifest_def is_obj_def keys_of_def manifest_forbidden_def parseStringMap_def claimed_dependencies_def
        expected_dependencies_def demo_node_def sort_text_def package_type_def Let_def)
  then obtain p where "project_manifest (demo_node demo_sha) (sha256_hex (map of_nat demo_manifest_bytes))
      (JObj [(''name'', JStr ''a''), (''version'', JStr ''1.0.0'')]) = Inr p" by blast
  then show ?thesis using m e demo_manifest_parts(1,2)
    by (simp add: projectAndValidatePackageManifest_def samePackageIdentity_def)
qed


end
