(* ===== verification/AcceptanceFacts.thy ===== *)
theory AcceptanceFacts
  imports Acceptance ReadOnlyFileFacts ManifestFacts
begin

section \<open>Facts on the acceptance of a graph\<close>

text \<open>
  Evidence of a complete acceptance is for the very bytes the plan names, inspected twice with the
  same outcome and projected onto the nodes of the candidate, and no file is left; a run that fails
  says so in its report.
\<close>

lemma remove_files_subset: "remove_files uid H F r fs disk = (b, disk') \<Longrightarrow> set disk' \<subseteq> set disk"
  by (induction uid H F r fs disk rule: remove_files.induct) (fastforce split: if_splits)+

lemma cleanup_set_cases:
  assumes "cleanup_set uid roots H F files root disk = (r, disk')"
  shows "set disk' \<subseteq> set disk \<and> (is_ok r \<longrightarrow> set disk' = set disk - af_path ` set (fs_files (snd files)))"
proof (cases "files \<notin> set (fa_sets F) \<or> fs_rootBinding (snd files) \<noteq> snd (snd root)")
  case True
  with assms show ?thesis by (auto simp: cleanup_set_def split: if_splits)
next
  case False
  obtain b d where c: "cleanupFiles uid roots H F root (fs_files (snd files)) disk = (b, d)" by fastforce
  with assms False have r: "r = (if b then Inr () else Inl artifact_cleanup_incomplete)" "disk' = d"
    by (auto simp: cleanup_set_def)
  have "set d \<subseteq> set disk" using c remove_files_subset by (auto simp: cleanupFiles_def split: sum.splits)
  moreover have "b \<longrightarrow> set d = set disk - af_path ` set (fs_files (snd files))" using c by (cases b) (simp_all add: cleanupFiles_True)
  ultimately show ?thesis by (simp add: r)
qed

subsection \<open>The inspections\<close>

text \<open>What an accepted artifact rests on: a file of these bytes, two equal inspections, and its manifest.\<close>

definition inspected_twice :: "archive_worker \<Rightarrow> exact_candidate \<Rightarrow> acceptance_plan \<Rightarrow> artifact_file \<Rightarrow> accepted_artifact \<Rightarrow> bool" where
  "inspected_twice W c p f acc \<longleftrightarrow> (\<exists>first second pr. aw_inspect W f 0 = Inr first \<and> aw_inspect W f 1 = Inr second
     \<and> canonicalJson (inspection_json first) = canonicalJson (inspection_json second) \<and> wi_runtime first = ap_runtimeDigest p
     \<and> length (nodes_of_file c f) = length (ar_installPaths (af_artifact f))
     \<and> projectAndValidatePackageManifest (wi_manifest first) (wi_transcript first) c (nodes_of_file c f) = Inr pr
     \<and> acc = accepted_of f first pr)"

lemma accept_files_ok:
  assumes "accept_files F W c p fs L = (None, L')"
  shows "\<exists>new. al_accepted L' = al_accepted L @ new \<and> list_all2 (inspected_twice W c p) fs new"
  using assms
proof (induction fs arbitrary: L)
  case (Cons f fs)
  let ?L2 = "log_event artifact_second_pass_a_verified (log_event artifact_pass_a_verified L)"
  from Cons.prems obtain first second pr where r: "aw_inspect W f 0 = Inr first" "aw_inspect W f 1 = Inr second"
    "judge_file c p f first second = Inr ()" "project_file c f first = Inr pr"
    "accept_files F W c p fs (?L2\<lparr>al_accepted := al_accepted ?L2 @ [accepted_of f first pr]\<rparr>) = (None, L')"
    by (auto simp: rbind_Inr_iff Let_def split: sum.splits)
  from r(3,4) have "canonicalJson (inspection_json first) = canonicalJson (inspection_json second)" "wi_runtime first = ap_runtimeDigest p"
    "length (nodes_of_file c f) = length (ar_installPaths (af_artifact f))"
    "projectAndValidatePackageManifest (wi_manifest first) (wi_transcript first) c (nodes_of_file c f) = Inr pr"
    by (simp_all add: judge_file_def project_file_def rbind_Inr_iff Let_def)
  with r(1,2) have "inspected_twice W c p f (accepted_of f first pr)" unfolding inspected_twice_def by blast
  moreover from Cons.IH [OF r(5)] obtain new where "al_accepted L' = al_accepted L @ accepted_of f first pr # new"
    "list_all2 (inspected_twice W c p) fs new" by (auto simp: log_event_def)
  ultimately show ?case by (intro exI [of _ "accepted_of f first pr # new"]) simp
qed simp

subsection \<open>A run\<close>

text \<open>The ways a run can end.\<close>

lemma run_cases:
  assumes "acceptCompleteForTest dates uid roots A made H W addrs candidate p a root now R = (r, R')"
  obtains (refused) e where "r = Inl e" "R' = R"
  | (stopped) e X F disk where "downloadForTest dates uid roots made (xh_download H) (fst addrs) p a root now (ar_approvals R) (ar_files R) (ar_disk R)
        = (Inl e, X, F, disk)" "r = Inl (late_error (xh_aborted H) (raised_of e))"
      "\<exists>L :: acceptance_log. R' = report_with (quarantine candidate p L False) (R\<lparr>ar_approvals := X, ar_files := F, ar_disk := disk\<rparr>)"
  | (abandoned) files contents X F disk disk1 and L :: acceptance_log and x where
      "downloadForTest dates uid roots made (xh_download H) (fst addrs) p a root now (ar_approvals R) (ar_files R) (ar_disk R)
        = (Inr (files, contents), X, F, disk)" "set disk1 \<subseteq> set disk"
      "(r, R') = abandon uid roots H candidate p root files L x (R\<lparr>ar_approvals := X, ar_files := F, ar_disk := disk1\<rparr>)"
  | (complete) files contents X F disk disk1 and L :: acceptance_log where
      "candidate \<in> set (ca_candidates A)" "p \<in> set made" "ap_candidateDigest (fst (snd p)) = snd (snd candidate)"
      "ap_runtimeDigest (fst (snd p)) = aw_runtime W"
      "downloadForTest dates uid roots made (xh_download H) (fst addrs) p a root now (ar_approvals R) (ar_files R) (ar_disk R)
        = (Inr (files, contents), X, F, disk)"
      "list_all2 (inspected_twice W (fst (snd candidate)) (fst (snd p))) (fs_files (snd files)) (al_accepted L)"
      "cleanup_set uid roots (xh_cleanup H) F files root disk = (Inr (), disk1)"
      "r = Inr (snd addrs, \<lparr>av_candidateDigest = snd (snd candidate), av_planHash = snd (snd p), av_artifacts = al_accepted L\<rparr>)"
      "ar_approvals R' = X" "ar_disk R' = disk1" "ev_made (ar_evidence R') = projr r # ev_made (ar_evidence R)"
proof -
  let ?c = "fst (snd candidate)" and ?plan = "fst (snd p)"
  let ?pre = "rbind (guard profile_not_authenticated (authenticates_candidate A candidate)) (\<lambda>_.
           rbind (guard plan_not_authenticated (authenticates_acceptance made p)) (\<lambda>_.
           guard artifact_plan_invalid (ap_candidateDigest ?plan = snd (snd candidate) \<and> ap_runtimeDigest ?plan = aw_runtime W)))"
  let ?L0 = "\<lparr>al_events = [artifact_acceptance_authorized, artifact_download_started], al_accepted = []\<rparr>"
  obtain d X F disk where D: "downloadForTest dates uid roots made (xh_download H) (fst addrs) p a root now (ar_approvals R) (ar_files R) (ar_disk R)
        = (d, X, F, disk)" by (metis prod_cases4)
  show ?thesis
  proof (cases ?pre)
    case (Inl e)
    with assms show ?thesis by (intro refused [of e]) (auto simp: acceptCompleteForTest_def Let_def)
  next
    case pre: (Inr u)
    then have ok: "candidate \<in> set (ca_candidates A)" "p \<in> set made" "ap_candidateDigest ?plan = snd (snd candidate)"
      "ap_runtimeDigest ?plan = aw_runtime W"
      by (auto simp: rbind_Inr_iff authenticates_candidate_def authenticates_acceptance_def)
    show ?thesis
    proof (cases d)
      case (Inl e)
      with assms pre D have "r = Inl (late_error (xh_aborted H) (raised_of e))"
        "R' = report_with (quarantine candidate p ?L0 False) (R\<lparr>ar_approvals := X, ar_files := F, ar_disk := disk\<rparr>)"
        by (simp_all add: acceptCompleteForTest_def Let_def)
      with Inl D show ?thesis by (intro stopped [of e X F disk]) auto
    next
      case (Inr fc)
      obtain files contents where fc: "fc = (files, contents)" by fastforce
      obtain y L where L: "accept_files F W ?c ?plan (fs_files (snd files)) (log_event artifact_integrity_verified ?L0) = (y, L)" by fastforce
      note D' = D [unfolded Inr fc]
      show ?thesis
      proof (cases y)
        case (Some x)
        with assms pre D' L have "(r, R') = abandon uid roots H candidate p root files L x (R\<lparr>ar_approvals := X, ar_files := F, ar_disk := disk\<rparr>)"
          by (simp add: acceptCompleteForTest_def Let_def)
        then show ?thesis by (intro abandoned [OF D', of disk]) auto
      next
        case None
        obtain b disk1 where c: "cleanup_set uid roots (xh_cleanup H) F files root disk = (b, disk1)" by fastforce
        show ?thesis
        proof (cases "length (al_accepted L) \<noteq> length (ap_artifacts ?plan)")
          case True
          with assms pre D' L None have "(r, R') = abandon uid roots H candidate p root files L (Some acceptance_incomplete)
              (R\<lparr>ar_approvals := X, ar_files := F, ar_disk := disk\<rparr>)"
            by (simp add: acceptCompleteForTest_def Let_def)
          then show ?thesis by (intro abandoned [OF D', of disk]) auto
        next
          case len: False
          show ?thesis
          proof (cases b)
            case (Inl e)
            with assms pre D' L None len c have "(r, R') = abandon uid roots H candidate p root files L (Some e)
                (R\<lparr>ar_approvals := X, ar_files := F, ar_disk := disk1\<rparr>)"
              by (simp add: acceptCompleteForTest_def Let_def)
            moreover have "set disk1 \<subseteq> set disk" using cleanup_set_cases [OF c] by blast
            ultimately show ?thesis by (intro abandoned [OF D', of disk1])
          next
            case (Inr v)
            from accept_files_ok [OF L [unfolded None]]
            have "list_all2 (inspected_twice W ?c ?plan) (fs_files (snd files)) (al_accepted L)" by (auto simp: log_event_def)
            with assms pre D' L None len c Inr ok show ?thesis
              by (intro complete [of files contents X F disk L disk1]) (auto simp: acceptCompleteForTest_def Let_def)
          qed
        qed
      qed
    qed
  qed
qed

text \<open>
  C8: evidence of acceptance is what it says.  When a run returns evidence, the candidate and the
  plan are authentic and belong together, the archive worker is the one the plan names, the approval
  was for this plan and is now used up; every artifact of the plan was downloaded to a private file
  with the planned integrity, inspected twice with the same outcome, and its manifest projected onto
  all of its nodes; the evidence lists exactly these artifacts; and the files are gone again.
\<close>

theorem accepted_evidence_sound:
  assumes "acceptCompleteForTest dates uid roots A made H W addrs candidate p a root now R = (Inr ev, R')"
  shows "candidate \<in> set (ca_candidates A) \<and> p \<in> set made \<and> ap_candidateDigest (fst (snd p)) = snd (snd candidate)
    \<and> ap_runtimeDigest (fst (snd p)) = aw_runtime W
    \<and> xa_planHash (snd a) = snd (snd p) \<and> fst a \<in> set (xs_consumed (ar_approvals R')) - set (xs_consumed (ar_approvals R))
    \<and> authenticates_evidence (ar_evidence R') ev
    \<and> av_candidateDigest (snd ev) = snd (snd candidate) \<and> av_planHash (snd ev) = snd (snd p)
    \<and> (\<exists>files contents. list_all2 (\<lambda>art (f, bytes). holds_artifact uid art f bytes) (ap_artifacts (fst (snd p))) (zip files contents)
         \<and> length files = length contents
         \<and> list_all2 (inspected_twice W (fst (snd candidate)) (fst (snd p))) files (av_artifacts (snd ev)))
    \<and> set (ar_disk R') \<subseteq> set (ar_disk R)"
proof (rule run_cases [OF assms])
  fix files contents X F disk disk1 and L :: acceptance_log
  assume ok: "candidate \<in> set (ca_candidates A)" "p \<in> set made" "ap_candidateDigest (fst (snd p)) = snd (snd candidate)"
      "ap_runtimeDigest (fst (snd p)) = aw_runtime W"
    and D: "downloadForTest dates uid roots made (xh_download H) (fst addrs) p a root now (ar_approvals R) (ar_files R) (ar_disk R)
        = (Inr (files, contents), X, F, disk)"
    and I: "list_all2 (inspected_twice W (fst (snd candidate)) (fst (snd p))) (fs_files (snd files)) (al_accepted L)"
    and c: "cleanup_set uid roots (xh_cleanup H) F files root disk = (Inr (), disk1)"
    and r: "Inr ev = Inr (snd addrs, \<lparr>av_candidateDigest = snd (snd candidate), av_planHash = snd (snd p), av_artifacts = al_accepted L\<rparr>)"
      "ar_approvals R' = X" "ar_disk R' = disk1" "ev_made (ar_evidence R') = projr (Inr ev) # ev_made (ar_evidence R)"
  from downloaded_spec [OF D] have d: "xa_planHash (snd a) = snd (snd p)" "fst a \<in> set (xs_consumed X) - set (xs_consumed (ar_approvals R))"
    "length (fs_files (snd files)) = length contents" "set disk \<subseteq> set (ar_disk R) \<union> af_path ` set (fs_files (snd files))"
    and h: "list_all2 (\<lambda>art (f, bytes). holds_artifact uid art f bytes \<and> length bytes \<le> sl_compressedArtifactBytes (acceptance_plan.ap_limits (fst (snd p))))
        (ap_artifacts (fst (snd p))) (zip (fs_files (snd files)) contents)" by blast+
  from h have "list_all2 (\<lambda>art (f, bytes). holds_artifact uid art f bytes) (ap_artifacts (fst (snd p))) (zip (fs_files (snd files)) contents)"
    by (rule list_all2_mono) auto
  moreover from cleanup_set_cases [OF c] d(4) have "set disk1 \<subseteq> set (ar_disk R)" by auto
  ultimately show ?thesis using ok d I r by (auto simp: authenticates_evidence_def)
qed (simp_all add: abandon_def split: prod.splits)

text \<open>
  C35: a failed acceptance gives no evidence and says so.  Either nothing was started and nothing
  changed, or the last report ends in quarantine, with the event of an incomplete acceptance as its
  last; and when that report says that the files were cleaned up, nothing new is on disk.
\<close>

theorem acceptance_failure_reported:
  assumes "acceptCompleteForTest dates uid roots A made H W addrs candidate p a root now R = (Inl e, R')"
  shows "R' = R \<or> (ev_made (ar_evidence R') = ev_made (ar_evidence R)
    \<and> (\<exists>rep. ev_report (ar_evidence R') = Some rep \<and> rp_terminal rep = ACCEPTANCE_INCOMPLETE_QUARANTINE
         \<and> rp_planHash rep = snd (snd p) \<and> last (rp_events rep) = acceptance_incomplete_event
         \<and> (rp_cleanup rep \<longrightarrow> set (ar_disk R') \<subseteq> set (ar_disk R))))"
proof (rule run_cases [OF assms])
  fix e' X F disk
  assume "\<exists>L :: acceptance_log. R' = report_with (quarantine candidate p L False) (R\<lparr>ar_approvals := X, ar_files := F, ar_disk := disk\<rparr>)"
  then show ?thesis by (auto simp: report_with_def quarantine_def)
next
  fix files contents X F disk disk1 and L :: acceptance_log and x
  assume D: "downloadForTest dates uid roots made (xh_download H) (fst addrs) p a root now (ar_approvals R) (ar_files R) (ar_disk R)
        = (Inr (files, contents), X, F, disk)" and s: "set disk1 \<subseteq> set disk"
    and r: "(Inl e, R') = abandon uid roots H candidate p root files L x (R\<lparr>ar_approvals := X, ar_files := F, ar_disk := disk1\<rparr>)"
  obtain y disk2 where c: "cleanup_set uid roots (xh_cleanupAgain H) F files root disk1 = (y, disk2)" by fastforce
  with r have R': "R' = report_with (quarantine candidate p L (is_ok y)) (R\<lparr>ar_approvals := X, ar_files := F, ar_disk := disk2\<rparr>)"
    by (simp add: abandon_def)
  have "is_ok y \<longrightarrow> set disk2 \<subseteq> set (ar_disk R)"
    using cleanup_set_cases [OF c] s downloaded_spec [OF D] by auto
  then show ?thesis by (simp add: R' report_with_def quarantine_def)
qed simp_all

subsection \<open>A concrete run\<close>

definition demo_inspection :: inspection where
  "demo_inspection = \<lparr>wi_protocol = ARCHIVE_WORKER_PROTOCOL_VERSION, wi_runtime = replicate 64 (CHR ''0''),
     wi_transcript = demo_package_transcript, wi_manifest = b64_encode demo_manifest_bytes\<rparr>"

text \<open>A worker that answers the same both times, or whose answer is spoilt the second time.\<close>

definition demo_worker :: "bool \<Rightarrow> archive_worker" where
  "demo_worker good = \<lparr>aw_runtime = replicate 64 (CHR ''0''),
     aw_inspect = (\<lambda>f i. if good \<or> i = 0 then Inr demo_inspection else Inl None)\<rparr>"

definition demo_removal :: cleanup_host where
  "demo_removal = \<lparr>ch_rootStat = Some demo_root_stat, ch_stat = (\<lambda>f. Some (demo_stat 1)), ch_unlink = (\<lambda>f. True)\<rparr>"

definition demo_acceptance_host :: acceptance_host where
  "demo_acceptance_host = \<lparr>xh_download = demo_download demo_seen, xh_cleanup = demo_removal, xh_cleanupAgain = demo_removal, xh_aborted = False\<rparr>"

definition demo_run_start :: acceptance_run where
  "demo_run_start = \<lparr>ar_approvals = as_approvals demo_acceptance_state, ar_files = new_file_authority, ar_disk = [],
     ar_evidence = \<lparr>ev_made = [], ev_report = None\<rparr>\<rparr>"

abbreviation demo_accept :: "bool \<Rightarrow> (stage_error + acceptance_evidence object) \<times> acceptance_run" where
  "demo_accept good \<equiv> acceptCompleteForTest demo_dates (Some 501) [demo_root] \<lparr>ca_candidates = [demo_signed], ca_errors = [], ca_claimed = []\<rparr>
     [demo_acceptance_plan] demo_acceptance_host (demo_worker good) (9, 10) demo_signed demo_acceptance_plan demo_acceptance_approval demo_root
     (Some 7) demo_run_start"

lemma demo_accepted:
  "\<exists>ev R'. demo_accept True = (Inr ev, R') \<and> ar_disk R' = []"
  "\<exists>R'. demo_accept False = (Inl acceptance_incomplete, R') \<and> R' \<noteq> demo_run_start"
proof -
  obtain X where D: "demo_run_download demo_seen = (Inr (demo_files, [[1]]), X, \<lparr>fa_files = [demo_got_file], fa_sets = [demo_files]\<rparr>, [''/q/artifact-x.tgz''])"
    using demo_downloaded by blast
  obtain pr where pr: "projectAndValidatePackageManifest (b64_encode demo_manifest_bytes) demo_package_transcript demo_c [demo_node demo_sha] = Inr pr"
    using demo_manifest_projected by fastforce
  have n: "nodes_of_file demo_c demo_got_file = [demo_node demo_sha]" "length (ar_installPaths demo_artifact) = 1" "af_artifact demo_got_file = demo_artifact"
    by (simp_all add: nodes_of_file_def demo_got_file_def demo_artifact_def with_paths_def demo_exact_def identity_of_def demo_node_def sameArtifact_def sort_text_def)
  have p: "ap_candidateDigest (fst (snd demo_acceptance_plan)) = exact_digest demo_c"
    "ap_runtimeDigest (fst (snd demo_acceptance_plan)) = replicate 64 (CHR ''0'')"
    by (simp_all add: demo_acceptance_plan_def Let_def)
  have f: "af_path demo_got_file = ''/q/artifact-x.tgz''" "matchesFileIdentity (Some 501) (demo_stat 1) (af_identity demo_got_file)"
    "fs_files (snd demo_files) = [demo_got_file]" "fs_rootBinding (snd demo_files) = snd (snd demo_root)" "pr_path (fst (snd demo_root)) = ''/q''"
    by (simp_all add: demo_got_file_def demo_files_def matchesFileIdentity_def identity_of_stat_def demo_stat_def uid_matches_def permissions_def
        demo_root_def Let_def)
  have c: "cleanup_set (Some 501) [demo_root] demo_removal \<lparr>fa_files = [demo_got_file], fa_sets = [demo_files]\<rparr> demo_files demo_root
      [''/q/artifact-x.tgz''] = (Inr (), [])"
    using f by (simp add: cleanup_set_def cleanupFiles_def demo_removal_def demo_revalidated)
  have w: "aw_runtime (demo_worker g) = replicate 64 (CHR ''0'')" "aw_inspect (demo_worker g) q 0 = Inr demo_inspection"
    "aw_inspect (demo_worker True) q i = Inr demo_inspection" "aw_inspect (demo_worker False) q 1 = Inl None" for g q i
    by (simp_all add: demo_worker_def)
  have h: "xh_download demo_acceptance_host = demo_download demo_seen" "xh_cleanup demo_acceptance_host = demo_removal"
    "xh_cleanupAgain demo_acceptance_host = demo_removal" "\<not> xh_aborted demo_acceptance_host"
    by (simp_all add: demo_acceptance_host_def)
  have s: "ar_approvals demo_run_start = as_approvals demo_acceptance_state" "ar_files demo_run_start = new_file_authority" "ar_disk demo_run_start = []"
    by (simp_all add: demo_run_start_def)
  have j: "judge_file demo_c (fst (snd demo_acceptance_plan)) demo_got_file demo_inspection demo_inspection = Inr ()"
    by (simp add: judge_file_def demo_inspection_def p ensure_def)
  have g: "project_file demo_c demo_got_file demo_inspection = Inr pr"
    using pr by (simp add: project_file_def n demo_inspection_def ensure_def)
  have a: "authenticates_candidate \<lparr>ca_candidates = [demo_signed], ca_errors = [], ca_claimed = []\<rparr> demo_signed"
    "authenticates_acceptance [demo_acceptance_plan] demo_acceptance_plan"
    by (simp_all add: authenticates_candidate_def authenticates_acceptance_def)
  show "\<exists>ev R'. demo_accept True = (Inr ev, R') \<and> ar_disk R' = []"
    by (simp add: acceptCompleteForTest_def a p w h s D f sourceFor_def stage_result_def j g c log_event_def demo_plan_parts guard_def Let_def)
  show "\<exists>R'. demo_accept False = (Inl acceptance_incomplete, R') \<and> R' \<noteq> demo_run_start"
    using w(4)
    by (simp add: acceptCompleteForTest_def a p w h s D f sourceFor_def stage_result_def c log_event_def demo_plan_parts guard_def abandon_def late_error_def
        stage_or_def report_with_def demo_run_start_def Let_def)
qed

theorem accepted_evidence_sound_witness:
  "\<exists>ev R'. demo_accept True = (Inr ev, R') \<and> av_planHash (snd ev) = snd (snd demo_acceptance_plan)"
proof -
  obtain ev R' where r: "demo_accept True = (Inr ev, R')" using demo_accepted(1) by blast
  from accepted_evidence_sound [OF r] r show ?thesis by blast
qed

theorem acceptance_failure_reported_witness:
  "\<exists>R'. demo_accept False = (Inl acceptance_incomplete, R') \<and> ev_made (ar_evidence R') = []"
proof -
  obtain R' where r: "demo_accept False = (Inl acceptance_incomplete, R')" "R' \<noteq> demo_run_start" using demo_accepted(2) by blast
  from acceptance_failure_reported [OF r(1)] r show ?thesis by (auto simp: demo_run_start_def)
qed

end
