(* ===== verification/TreeManifest.thy ===== *)
theory TreeManifest
  imports ReadOnlyFile ArchivePolicy StagePlan Ustar
begin

section \<open>Package staging: the materialized tree\<close>

text \<open>
  Models src/stage/tree-manifest.ts: the walk over a materialized directory that gives its manifest,
  the comparison of a tree with an earlier manifest, and the check of a tree against the package graph of a profile.

  What the file system answers is an input, and has the shape of the walk: for a directory the names
  \<open>readdir\<close> lists, for each of them what is found there, and below a directory its own answers.  Two
  walks over the same path have answers of their own, so the tree may change at any time.  A name
  \<open>readdir\<close> lists is one path segment.
\<close>

unbundle bit_operations_syntax

text \<open>Reading a file: \<open>open\<close>, the \<open>stat\<close> before, what each read gives, the \<open>stat\<close> after.\<close>

record hashing =
  hh_opened :: bool
  hh_before :: "file_stat option"
  hh_reads :: "byte list option list"
  hh_after :: "file_stat option"

datatype visit = Visit (listing: "(string \<times> found) list option")
  and found = Found (canonical_of: "string option") (stat_of: "file_stat option") (hashing_of: hashing) (below: visit)

subsection \<open>A file\<close>

definition sameFileStat :: "file_stat \<Rightarrow> file_stat \<Rightarrow> bool" where
  "sameFileStat a b \<longleftrightarrow> fst_dev a = fst_dev b \<and> fst_ino a = fst_ino b \<and> fst_size a = fst_size b
     \<and> fst_mode a = fst_mode b \<and> fst_mtime a = fst_mtime b \<and> fst_ctime a = fst_ctime b"

definition READ_BYTES :: nat where
  "READ_BYTES = 64 * 1024"

text \<open>The loop over the reads, up to the size; a read gives at most the bytes it was asked for.\<close>

fun read_all :: "nat \<Rightarrow> byte list option list \<Rightarrow> byte list \<Rightarrow> stage_error + byte list" where
  "read_all n [] got = (if n \<le> length got then Inr got else Inl tree_invalid)"
| "read_all n (x # xs) got =
     (if n \<le> length got then Inr got
      else case x of
        None \<Rightarrow> Inl tree_invalid
      | Some b \<Rightarrow> (let piece = take (min READ_BYTES (n - length got)) b in
          if piece = [] then Inl tree_changed else read_all n xs (got @ piece)))"

definition wanted :: "'a option \<Rightarrow> stage_error + 'a" where
  "wanted x = (case x of None \<Rightarrow> Inl tree_invalid | Some a \<Rightarrow> Inr a)"

lemma wanted_Inr [simp]: "wanted x = Inr a \<longleftrightarrow> x = Some a"
  by (auto simp: wanted_def split: option.splits)

definition hashRegularFile :: "hashing \<Rightarrow> file_stat \<Rightarrow> nat \<Rightarrow> stage_error + string" where
  "hashRegularFile h expected maxBytes =
     rbind (guard tree_invalid (hh_opened h)) (\<lambda>_.
     rbind (wanted (hh_before h)) (\<lambda>before.
     rbind (guard tree_invalid (fst_isFile before \<and> fst_nlink before = 1 \<and> fst_size before \<le> maxBytes)) (\<lambda>_.
     rbind (read_all (fst_size before) (hh_reads h) []) (\<lambda>bytes.
     rbind (wanted (hh_after h)) (\<lambda>after.
     rbind (guard tree_changed (sameFileStat expected before \<and> sameFileStat before after)) (\<lambda>_.
     Inr (sha256_hex bytes)))))))"

subsection \<open>The walk\<close>

record tree_record =
  mr_relativePath :: string
  mr_type :: entry_type
  mr_mode :: nat
  mr_size :: nat
  mr_sha256 :: "string option"

definition join_path :: "string \<Rightarrow> string \<Rightarrow> string" where
  "join_path d n = (if d = ''/'' then d @ n else d @ ''/'' @ n)"

definition assertCanonicalContained :: "string \<Rightarrow> string \<Rightarrow> string option \<Rightarrow> stage_error + unit" where
  "assertCanonicalContained root path answer =
     rbind (wanted answer) (\<lambda>canonical.
     guard tree_invalid (canonical = path \<and> (canonical = root \<or> starts_with (root @ ''/'') canonical)))"

definition below_path :: "string \<Rightarrow> string \<Rightarrow> string" where
  "below_path rel name = (if rel = [] then name else rel @ ''/'' @ name)"

definition portable_rel :: "stage_limits \<Rightarrow> string \<Rightarrow> stage_error + unit" where
  "portable_rel l rel = guard tree_invalid (is_ok (validatePortableRelativePath l rel))"

text \<open>What is checked of an entry before its type matters, with its status.\<close>

definition check_found :: "stage_limits \<Rightarrow> string \<Rightarrow> string \<Rightarrow> string \<Rightarrow> found \<Rightarrow> stage_error + file_stat" where
  "check_found l root dir rel f =
     rbind (portable_rel l rel) (\<lambda>_.
     rbind (assertCanonicalContained root dir (canonical_of f)) (\<lambda>_.
     rbind (wanted (stat_of f)) (\<lambda>s.
     rbind (guard tree_invalid (fst_mode s AND 3072 = 0)) (\<lambda>_.
     rbind (guard tree_invalid (\<not> fst_isLink s \<and> (fst_isDirectory s \<or> fst_isFile s))) (\<lambda>_.
     Inr s)))))"

text \<open>The record of a directory and of a file; the number is the bytes of all files up to here.\<close>

definition directory_record :: "string \<Rightarrow> file_stat \<Rightarrow> stage_error + tree_record" where
  "directory_record rel s =
     rbind (guard tree_invalid (permissions (fst_mode s) = 493)) (\<lambda>_.
     Inr \<lparr>mr_relativePath = rel, mr_type = Entry_directory, mr_mode = 493, mr_size = 0, mr_sha256 = None\<rparr>)"

definition file_record :: "stage_limits \<Rightarrow> string \<Rightarrow> file_stat \<Rightarrow> hashing \<Rightarrow> nat \<Rightarrow> stage_error + tree_record \<times> nat" where
  "file_record l rel s h bytes =
     rbind (guard tree_invalid (fst_nlink s = 1 \<and> fst_size s \<le> sl_regularFileBytes l)) (\<lambda>_.
     let mode = normalizedMode Entry_file (fst_mode s); sum = bytes + fst_size s in
     rbind (guard tree_invalid (permissions (fst_mode s) = mode)) (\<lambda>_.
     rbind (guard tree_invalid (sum \<le> sl_totalUncompressedBytes l)) (\<lambda>_.
     rbind (hashRegularFile h s (sl_regularFileBytes l)) (\<lambda>d.
     Inr (\<lparr>mr_relativePath = rel, mr_type = Entry_file, mr_mode = mode, mr_size = fst_size s, mr_sha256 = Some d\<rparr>, sum)))))"

definition push_record :: "stage_limits \<Rightarrow> tree_record list \<Rightarrow> tree_record \<Rightarrow> stage_error + tree_record list" where
  "push_record l rs r = rbind (guard tree_invalid (length rs + 1 \<le> sl_archiveEntries l)) (\<lambda>_. Inr (rs @ [r]))"

text \<open>The entries of a directory, in the order of their names.\<close>

definition sorted_listing :: "visit \<Rightarrow> (string \<times> found) list option" where
  "sorted_listing v = map_option (isort (\<lambda>a b. text_lt (fst a) (fst b))) (listing v)"

definition entries_size :: "(string \<times> found) list \<Rightarrow> nat" where
  "entries_size es = (\<Sum>e\<leftarrow>es. Suc (size (snd e)))"

lemma entries_size_le: "entries_size ys \<le> size_list (size_prod (\<lambda>_. 0) size) ys"
  by (induction ys) (auto simp: entries_size_def)

lemma entries_size_isort: "entries_size (isort lt xs) = entries_size xs"
  unfolding entries_size_def sum_mset_sum_list [symmetric] mset_map mset_isort by (rule refl)

lemma entries_size_listing:
  assumes "sorted_listing v = Some es"
  shows "entries_size es < size v"
proof -
  obtain xs where xs: "listing v = Some xs" "entries_size es = entries_size xs"
    using assms by (auto simp: sorted_listing_def entries_size_isort)
  then show ?thesis using entries_size_le [of xs] by (cases v) auto
qed

lemma size_below: "size (below f) < size f"
  by (cases f) simp

type_synonym walked = "tree_record list \<times> nat"

function walk_entries :: "stage_limits \<Rightarrow> string \<Rightarrow> string \<Rightarrow> string \<Rightarrow> (string \<times> found) list \<Rightarrow> walked \<Rightarrow> stage_error + walked" where
  "walk_entries l root dir rel [] st = Inr st"
| "walk_entries l root dir rel ((n, f) # es) st =
     (let path = join_path dir n; here = below_path rel n in
     rbind (check_found l root path here f) (\<lambda>s.
     if fst_isDirectory s then
       rbind (directory_record here s) (\<lambda>r.
       rbind (push_record l (fst st) r) (\<lambda>rs.
       case sorted_listing (below f) of
         None \<Rightarrow> Inl tree_invalid
       | Some sub \<Rightarrow> rbind (walk_entries l root path here sub (rs, snd st)) (\<lambda>st'. walk_entries l root dir rel es st')))
     else
       rbind (file_record l here s (hashing_of f) (snd st)) (\<lambda>(r, bytes).
       rbind (push_record l (fst st) r) (\<lambda>rs. walk_entries l root dir rel es (rs, bytes)))))"
  by pat_completeness auto
termination
  by (relation "measure (\<lambda>(l, root, dir, rel, es, st). entries_size es)")
     (use size_below entries_size_listing less_trans in \<open>fastforce simp: entries_size_def\<close>)+

text \<open>\<open>canonicalDirectory\<close>: the status of the path, its canonical form, and the status of that.\<close>

record directory_host =
  dr_before :: "file_stat option"
  dr_canonical :: "string option"
  dr_after :: "file_stat option"

definition canonicalDirectory :: "directory_host \<Rightarrow> stage_error + string" where
  "canonicalDirectory H =
     rbind (wanted (dr_before H)) (\<lambda>before.
     rbind (guard tree_invalid (fst_isDirectory before \<and> \<not> fst_isLink before)) (\<lambda>_.
     rbind (wanted (dr_canonical H)) (\<lambda>canonical.
     rbind (wanted (dr_after H)) (\<lambda>after.
     rbind (guard tree_invalid (fst_isDirectory after \<and> fst_dev before = fst_dev after \<and> fst_ino before = fst_ino after)) (\<lambda>_.
     Inr canonical)))))"

fun type_text :: "entry_type \<Rightarrow> string" where
  "type_text Entry_file = ''file''"
| "type_text Entry_directory = ''directory''"

definition tree_record_json :: "tree_record \<Rightarrow> jsval" where
  "tree_record_json r = JObj ([(''relativePath'', JStr (mr_relativePath r)), (''type'', JStr (type_text (mr_type r))),
     (''normalizedMode'', JInt (int (mr_mode r))), (''size'', JInt (int (mr_size r)))]
     @ (case mr_sha256 r of None \<Rightarrow> [] | Some d \<Rightarrow> [(''sha256'', JStr d)]))"

definition tree_digest :: "tree_record list \<Rightarrow> string" where
  "tree_digest rs = sha256 (canonicalJson (JArr (map tree_record_json rs)))"

definition manifest_of :: "tree_record list \<Rightarrow> tree_manifest" where
  "manifest_of rs = \<lparr>tm_version = 1, tm_records = map tree_record_json rs, tm_digest = tree_digest rs\<rparr>"

text \<open>A walk: the root, and what is found below it.\<close>

record tree_host =
  th_root :: directory_host
  th_tree :: visit

definition sort_records :: "tree_record list \<Rightarrow> tree_record list" where
  "sort_records rs = isort (\<lambda>a b. text_lt (mr_relativePath a) (mr_relativePath b)) rs"

text \<open>The records in order; \<open>manifest_of\<close> makes the manifest of them.\<close>

definition createMaterializedTreeManifest :: "tree_host \<Rightarrow> stage_limits \<Rightarrow> stage_error + tree_record list" where
  "createMaterializedTreeManifest H l =
     rbind (canonicalDirectory (th_root H)) (\<lambda>root.
     case sorted_listing (th_tree H) of
       None \<Rightarrow> Inl tree_invalid
     | Some es \<Rightarrow> rbind (walk_entries l root root [] es ([], 0)) (\<lambda>(rs, _). Inr (sort_records rs)))"

definition revalidateMaterializedTree :: "tree_host \<Rightarrow> tree_manifest \<Rightarrow> stage_limits \<Rightarrow> stage_error + tree_record list" where
  "revalidateMaterializedTree H expected l =
     rbind (createMaterializedTreeManifest H l) (\<lambda>current.
     rbind (guard tree_changed (tm_version expected = 1 \<and> tm_digest expected = tree_digest current
        \<and> canonicalJson (JArr (tm_records expected)) = canonicalJson (JArr (map tree_record_json current)))) (\<lambda>_.
     Inr current))"

subsection \<open>The tree and the package graph\<close>

text \<open>Reading a manifest: \<open>open\<close>, \<open>stat\<close>, the bytes.  Bytes that are no text of the model are no JSON.\<close>

record json_reading =
  jr_opened :: bool
  jr_stat :: "file_stat option"
  jr_bytes :: "byte list option"

definition readJsonObject :: "json_reading \<Rightarrow> stage_error + jsval" where
  "readJsonObject h =
     rbind (guard tree_invalid (jr_opened h)) (\<lambda>_.
     rbind (wanted (jr_stat h)) (\<lambda>s.
     rbind (guard tree_invalid (fst_isFile s \<and> fst_size s \<le> 1024 * 1024)) (\<lambda>_.
     rbind (wanted (jr_bytes h)) (\<lambda>bytes.
     rbind (wanted (utf8_units bytes)) (\<lambda>text.
     rbind (wanted (json_parse text)) (\<lambda>v.
     rbind (guard tree_invalid (is_obj v)) (\<lambda>_. Inr v)))))))"

definition normalizeStringMap :: "jsval \<Rightarrow> stage_error + (string \<times> string) list" where
  "normalizeStringMap v =
     (if v = JUndef then Inr []
      else case v of
        JObj kvs \<Rightarrow> rbind (mapM (\<lambda>(k, x). case x of JStr s \<Rightarrow> if k = [] then Inl tree_invalid else Inr (k, s) | _ \<Rightarrow> Inl tree_invalid) kvs)
          (\<lambda>m. Inr (isort (\<lambda>a b. text_lt (fst a) (fst b)) m))
      | _ \<Rightarrow> Inl tree_invalid)"

definition text_map :: "(string \<times> string) list \<Rightarrow> jsval" where
  "text_map m = JObj (map (\<lambda>(k, s). (k, JStr s)) m)"

definition expected_map :: "graph_node \<Rightarrow> (string \<times> string) list" where
  "expected_map n = foldl (\<lambda>m e. om_set (de_packageName e) (de_declaredSpecifier e) m) [] (gn_edges n)"

text \<open>What is above and what is below the last \<open>node_modules\<close> of a path.\<close>

definition after_marker :: "string list \<Rightarrow> string list" where
  "after_marker segments = List.rev (takeWhile (\<lambda>s. s \<noteq> ''node_modules'') (List.rev segments))"

definition layout_ok :: "string list \<Rightarrow> tree_record \<Rightarrow> bool" where
  "layout_ok declared r \<longleftrightarrow>
     (let path = mr_relativePath r; segments = split_on (CHR ''/'') path; inside = after_marker segments;
          outside = take (length segments - length inside) segments;
          leads_on = (mr_type r = Entry_directory \<and> list_ex (starts_with (path @ ''/'')) declared) in
      if outside = [] then True
      else case inside of
        [] \<Rightarrow> leads_on
      | first # others \<Rightarrow>
          if starts_with ''@'' first \<and> others = [] then leads_on
          else join_with ''/'' (outside @ take (if starts_with ''@'' first then 2 else 1) inside) \<in> set declared)"

definition package_json :: "graph_node \<Rightarrow> string" where
  "package_json n = gn_installPath n @ ''/package.json''"

definition record_allowed :: "graph_node list \<Rightarrow> tree_record \<Rightarrow> bool" where
  "record_allowed nodes r \<longleftrightarrow>
     \<not> (mr_type r = Entry_file \<and> ends_with ''/package.json'' (mr_relativePath r) \<and> mr_relativePath r \<notin> package_json ` set nodes)
     \<and> \<not> ends_with ''/binding.gyp'' (mr_relativePath r)
     \<and> layout_ok (map gn_installPath nodes) r"

text \<open>\<open>recordsByPath\<close>: of records with the same path the last.\<close>

definition record_at :: "tree_record list \<Rightarrow> string \<Rightarrow> tree_record option" where
  "record_at rs p = map_of (List.rev (map (\<lambda>r. (mr_relativePath r, r)) rs)) p"

definition node_manifest_ok :: "graph_node \<Rightarrow> jsval \<Rightarrow> stage_error + unit" where
  "node_manifest_ok n v =
     rbind (guard tree_invalid (at v ''name'' = JStr (gn_packageName n) \<and> at v ''version'' = JStr (gn_exactVersion n))) (\<lambda>_.
     rbind (normalizeStringMap (at v ''dependencies'')) (\<lambda>deps.
     rbind (guard tree_invalid (canonicalJson (text_map deps) = canonicalJson (text_map (expected_map n)))) (\<lambda>_.
     rbind (normalizeStringMap (at v ''optionalDependencies'')) (\<lambda>opts.
     rbind (guard tree_invalid (opts = [])) (\<lambda>_.
     rbind (normalizeStringMap (at v ''peerDependencies'')) (\<lambda>peers.
     rbind (guard tree_invalid (peers = [])) (\<lambda>_.
     rbind (normalizeStringMap (at v ''scripts'')) (\<lambda>scripts.
     guard tree_invalid (canonicalJson (JArr (map JStr (sort_text (map fst scripts)))) = canonicalJson (JArr (map JStr (gn_scripts n))))))))))))"

definition validate_node :: "(string \<Rightarrow> json_reading) \<Rightarrow> tree_record list \<Rightarrow> graph_node \<Rightarrow> stage_error + unit" where
  "validate_node files rs n =
     rbind (guard tree_invalid (case record_at rs (package_json n) of
        None \<Rightarrow> False | Some r \<Rightarrow> mr_type r = Entry_file \<and> mr_size r \<le> 1024 * 1024)) (\<lambda>_.
     rbind (readJsonObject (files (package_json n))) (\<lambda>v. node_manifest_ok n v))"

text \<open>The two walks, the root in between, and the manifests by their path.\<close>

record graph_host =
  gh_first :: tree_host
  gh_root :: directory_host
  gh_files :: "string \<Rightarrow> json_reading"
  gh_second :: tree_host

record graph_validation =
  gr_tree :: "tree_record list"
  gr_entrypoint :: string
  gr_entrypointSha :: string

definition is_top_node :: "graph_profile \<Rightarrow> graph_node \<Rightarrow> bool" where
  "is_top_node g n \<longleftrightarrow> gn_packageName n = gp_topName g \<and> gn_exactVersion n = gp_topVersion g
     \<and> gn_installPath n = ''node_modules/'' @ gp_topName g"

definition validateMaterializedPackageGraph :: "profile_authority \<Rightarrow> graph_host \<Rightarrow> (graph_profile \<times> string) object
    \<Rightarrow> stage_error + graph_validation" where
  "validateMaterializedPackageGraph A H profile =
     (let g = fst (snd profile) in
     rbind (guard profile_not_authenticated (authenticates_profile A profile)) (\<lambda>_.
     rbind (createMaterializedTreeManifest (gh_first H) (gp_limits g)) (\<lambda>rs.
     rbind (guard tree_invalid (list_all (record_allowed (gp_nodes g)) rs)) (\<lambda>_.
     rbind (canonicalDirectory (gh_root H)) (\<lambda>_.
     rbind (mapM (validate_node (gh_files H) rs) (gp_nodes g)) (\<lambda>_.
     rbind (wanted (List.find (is_top_node g) (gp_nodes g))) (\<lambda>t.
     let path = gn_installPath t @ ''/'' @ gp_entrypoint g in
     rbind (wanted (case record_at rs path of None \<Rightarrow> None | Some r \<Rightarrow> if mr_type r = Entry_file then mr_sha256 r else None)) (\<lambda>d.
     rbind (createMaterializedTreeManifest (gh_second H) (gp_limits g)) (\<lambda>rs'.
     rbind (guard tree_changed (tree_digest rs' = tree_digest rs
        \<and> canonicalJson (JArr (map tree_record_json rs')) = canonicalJson (JArr (map tree_record_json rs)))) (\<lambda>_.
     Inr \<lparr>gr_tree = rs', gr_entrypoint = path, gr_entrypointSha = d\<rparr>))))))))))"

end
