(* ===== verification/TreeFacts.thy ===== *)
theory TreeFacts
  imports TreeManifest ManifestFacts PortableFacts
begin

section \<open>Facts on materialized trees\<close>

text \<open>
  A manifest lists every entry of the tree and nothing else, each file with the digest of bytes that
  did not change while they were read; a tree that is compared with its manifest is the same; and a tree that
  is checked against a package graph holds the packages of the graph where the graph says, and no other.
\<close>

subsection \<open>The walk\<close>

definition file_hashed :: "file_stat \<Rightarrow> hashing \<Rightarrow> string \<Rightarrow> bool" where
  "file_hashed s h d \<longleftrightarrow> (\<exists>before after bytes. hh_before h = Some before \<and> hh_after h = Some after
     \<and> sameFileStat s before \<and> sameFileStat before after
     \<and> read_all (fst_size s) (hh_reads h) [] = Inr bytes \<and> length bytes = fst_size s \<and> d = sha256_hex bytes)"

definition directory_recorded :: "found \<Rightarrow> file_stat \<Rightarrow> tree_record \<Rightarrow> bool" where
  "directory_recorded f s r \<longleftrightarrow> fst_isDirectory s \<and> listing (below f) \<noteq> None \<and> permissions (fst_mode s) = 493
     \<and> mr_type r = Entry_directory \<and> mr_mode r = 493 \<and> mr_size r = 0 \<and> mr_sha256 r = None"

definition file_recorded :: "stage_limits \<Rightarrow> found \<Rightarrow> file_stat \<Rightarrow> tree_record \<Rightarrow> bool" where
  "file_recorded l f s r \<longleftrightarrow> \<not> fst_isDirectory s \<and> fst_isFile s \<and> fst_nlink s = 1
     \<and> permissions (fst_mode s) = normalizedMode Entry_file (fst_mode s)
     \<and> mr_type r = Entry_file \<and> mr_mode r = permissions (fst_mode s) \<and> mr_size r = fst_size s \<and> fst_size s \<le> sl_regularFileBytes l
     \<and> (\<exists>d. mr_sha256 r = Some d \<and> file_hashed s (hashing_of f) d)"

text \<open>What a record says of what was found: a real path below the root, and what is there.\<close>

definition entry_recorded :: "stage_limits \<Rightarrow> string \<Rightarrow> string \<times> string \<times> found \<Rightarrow> tree_record \<Rightarrow> bool" where
  "entry_recorded l root e r \<longleftrightarrow> (case e of (path, rel, f) \<Rightarrow>
     mr_relativePath r = rel \<and> is_ok (validatePortableRelativePath l rel)
     \<and> canonical_of f = Some path \<and> (path = root \<or> starts_with (root @ ''/'') path)
     \<and> (\<exists>s. stat_of f = Some s \<and> \<not> fst_isLink s \<and> fst_mode s AND 3072 = 0 \<and> (directory_recorded f s r \<or> file_recorded l f s r)))"

definition is_directory :: "found \<Rightarrow> bool" where
  "is_directory f \<longleftrightarrow> (case stat_of f of None \<Rightarrow> False | Some s \<Rightarrow> fst_isDirectory s)"

text \<open>Every entry of the tree: its path, its path below the root, and what is found there.\<close>

function tree_entries :: "string \<Rightarrow> string \<Rightarrow> (string \<times> found) list \<Rightarrow> (string \<times> string \<times> found) list" where
  "tree_entries dir rel [] = []"
| "tree_entries dir rel ((n, f) # es) =
     (join_path dir n, below_path rel n, f)
     # (if is_directory f then (case sorted_listing (below f) of None \<Rightarrow> []
          | Some sub \<Rightarrow> tree_entries (join_path dir n) (below_path rel n) sub) else [])
     @ tree_entries dir rel es"
  by pat_completeness auto
termination
  by (relation "measure (\<lambda>(dir, rel, es). entries_size es)")
     (use size_below entries_size_listing less_trans in \<open>fastforce simp: entries_size_def\<close>)+

lemma read_all_length: "read_all n xs got = Inr bytes \<Longrightarrow> length got \<le> n \<Longrightarrow> length bytes = n"
  by (induction n xs got rule: read_all.induct) (auto simp: Let_def split: if_splits option.splits)

lemma read_all_Inr: "read_all n xs [] = Inr bytes \<Longrightarrow> length bytes = n"
  using read_all_length [of n xs "[]" bytes] by simp

lemma hashRegularFile_Inr: "hashRegularFile h s m = Inr d \<Longrightarrow> file_hashed s h d"
  by (auto simp: hashRegularFile_def file_hashed_def rbind_Inr_iff sameFileStat_def dest: read_all_Inr)

lemma check_found_Inr:
  "check_found l root path rel f = Inr s \<longleftrightarrow> is_ok (validatePortableRelativePath l rel)
     \<and> canonical_of f = Some path \<and> (path = root \<or> starts_with (root @ ''/'') path)
     \<and> stat_of f = Some s \<and> fst_mode s AND 3072 = 0 \<and> \<not> fst_isLink s \<and> (fst_isDirectory s \<or> fst_isFile s)"
  by (auto simp: check_found_def portable_rel_def assertCanonicalContained_def rbind_Inr_iff)

text \<open>The records of a walk are those of the entries, in their order, within the limits.\<close>

definition walk_adds :: "stage_limits \<Rightarrow> string \<Rightarrow> (string \<times> string \<times> found) list \<Rightarrow> walked \<Rightarrow> walked \<Rightarrow> bool" where
  "walk_adds l root es st st' \<longleftrightarrow> (\<exists>new. fst st' = fst st @ new \<and> list_all2 (entry_recorded l root) es new
     \<and> snd st' = snd st + sum_list (map mr_size new)
     \<and> (length (fst st) \<le> sl_archiveEntries l \<longrightarrow> length (fst st') \<le> sl_archiveEntries l)
     \<and> (snd st \<le> sl_totalUncompressedBytes l \<longrightarrow> snd st' \<le> sl_totalUncompressedBytes l))"

lemma walk_adds_nil: "walk_adds l root [] st st"
  by (simp add: walk_adds_def)

lemma walk_adds_append:
  assumes "walk_adds l root es st st'" "walk_adds l root es' st' st''"
  shows "walk_adds l root (es @ es') st st''"
proof -
  from assms obtain new new' where "fst st' = fst st @ new" "list_all2 (entry_recorded l root) es new"
    "fst st'' = fst st' @ new'" "list_all2 (entry_recorded l root) es' new'"
    and rest: "snd st' = snd st + sum_list (map mr_size new)" "snd st'' = snd st' + sum_list (map mr_size new')"
      "length (fst st) \<le> sl_archiveEntries l \<longrightarrow> length (fst st') \<le> sl_archiveEntries l"
      "length (fst st') \<le> sl_archiveEntries l \<longrightarrow> length (fst st'') \<le> sl_archiveEntries l"
      "snd st \<le> sl_totalUncompressedBytes l \<longrightarrow> snd st' \<le> sl_totalUncompressedBytes l"
      "snd st' \<le> sl_totalUncompressedBytes l \<longrightarrow> snd st'' \<le> sl_totalUncompressedBytes l"
    unfolding walk_adds_def by blast
  then have "fst st'' = fst st @ new @ new'" "list_all2 (entry_recorded l root) (es @ es') (new @ new')"
    by (auto intro: list_all2_appendI)
  with rest show ?thesis unfolding walk_adds_def by (intro exI [of _ "new @ new'"]) auto
qed

lemma push_record_Inr: "push_record l rs r = Inr rs' \<longleftrightarrow> rs' = rs @ [r] \<and> length rs' \<le> sl_archiveEntries l"
  by (auto simp: push_record_def rbind_Inr_iff)

lemma walk_adds_directory:
  assumes "check_found l root path here f = Inr s" "fst_isDirectory s" "directory_record here s = Inr r"
    "push_record l (fst st) r = Inr rs" "sorted_listing (below f) = Some sub"
  shows "walk_adds l root [(path, here, f)] st (rs, snd st)"
  using assms unfolding walk_adds_def
  by (intro exI [of _ "[r]"]) (auto simp: check_found_Inr push_record_Inr directory_record_def rbind_Inr_iff
      entry_recorded_def directory_recorded_def sorted_listing_def)

lemma walk_adds_file:
  assumes "check_found l root path here f = Inr s" "\<not> fst_isDirectory s" "file_record l here s (hashing_of f) (snd st) = Inr (r, bytes)"
    "push_record l (fst st) r = Inr rs"
  shows "walk_adds l root [(path, here, f)] st (rs, bytes)"
  using assms unfolding walk_adds_def
  by (intro exI [of _ "[r]"]) (auto simp: check_found_Inr push_record_Inr file_record_def rbind_Inr_iff Let_def
      entry_recorded_def file_recorded_def dest: hashRegularFile_Inr)

lemma walk_entries_adds: "walk_entries l root dir rel es st = Inr st' \<Longrightarrow> walk_adds l root (tree_entries dir rel es) st st'"
proof (induction l root dir rel es st arbitrary: st' rule: walk_entries.induct)
  case (2 l root dir rel n f es st)
  let ?path = "join_path dir n" and ?here = "below_path rel n"
  from "2.prems" obtain s where s: "check_found l root ?path ?here f = Inr s" by (auto simp: rbind_Inr_iff Let_def)
  then have d: "is_directory f \<longleftrightarrow> fst_isDirectory s" by (simp add: check_found_Inr is_directory_def)
  show ?case
  proof (cases "fst_isDirectory s")
    case True
    with "2.prems" s obtain r rs sub mid where w: "directory_record ?here s = Inr r" "push_record l (fst st) r = Inr rs"
      "sorted_listing (below f) = Some sub" "walk_entries l root ?path ?here sub (rs, snd st) = Inr mid"
      "walk_entries l root dir rel es mid = Inr st'"
      by (auto simp: rbind_Inr_iff Let_def split: option.splits)
    have sub: "walk_adds l root (tree_entries ?path ?here sub) (rs, snd st) mid"
      by (rule "2.IH"(1) [OF refl refl s True w(1,2,3,4)])
    have more: "walk_adds l root (tree_entries dir rel es) mid st'"
      by (rule "2.IH"(2) [OF refl refl s True w(1,2,3,4,5)])
    from walk_adds_append [OF walk_adds_append [OF walk_adds_directory [OF s True w(1-3)] sub] more]
    show ?thesis using True w(3) by (simp add: d)
  next
    case False
    with "2.prems" s obtain r bytes rs where w: "file_record l ?here s (hashing_of f) (snd st) = Inr (r, bytes)"
      "push_record l (fst st) r = Inr rs" "walk_entries l root dir rel es (rs, bytes) = Inr st'"
      by (auto simp: rbind_Inr_iff Let_def)
    have more: "walk_adds l root (tree_entries dir rel es) (rs, bytes) st'"
      by (rule "2.IH"(3) [OF refl refl s False w(1) refl w(2,3)])
    from walk_adds_append [OF walk_adds_file [OF s False w(1,2)] more] show ?thesis using False by (simp add: d)
  qed
qed (simp add: walk_adds_nil)

lemma sort_records_spec: "mset (sort_records rs) = mset rs
    \<and> sorted_wrt (\<lambda>a b. \<not> text_lt (mr_relativePath b) (mr_relativePath a)) (sort_records rs)"
  unfolding sort_records_def using sorted_isort [OF strict_weak_text_lt, of mr_relativePath rs] by simp

lemma tree_manifest_spec:
  assumes "createMaterializedTreeManifest H l = Inr rs"
  shows "(\<exists>root es new. canonicalDirectory (th_root H) = Inr root \<and> sorted_listing (th_tree H) = Some es
      \<and> list_all2 (entry_recorded l root) (tree_entries root [] es) new \<and> mset rs = mset new)
    \<and> sorted_wrt (\<lambda>a b. \<not> text_lt (mr_relativePath b) (mr_relativePath a)) rs
    \<and> length rs \<le> sl_archiveEntries l \<and> sum_list (map mr_size rs) \<le> sl_totalUncompressedBytes l"
proof -
  from assms obtain root es st where w: "canonicalDirectory (th_root H) = Inr root" "sorted_listing (th_tree H) = Some es"
    "walk_entries l root root [] es ([], 0) = Inr st" and rs: "rs = sort_records (fst st)"
    by (auto simp: createMaterializedTreeManifest_def rbind_Inr_iff split: option.splits)
  from walk_entries_adds [OF w(3)] have a: "list_all2 (entry_recorded l root) (tree_entries root [] es) (fst st)"
    "length (fst st) \<le> sl_archiveEntries l" "sum_list (map mr_size (fst st)) \<le> sl_totalUncompressedBytes l"
    by (auto simp: walk_adds_def)
  have m: "mset rs = mset (fst st)" using sort_records_spec by (simp add: rs)
  have "length rs = length (fst st)" "sum_list (map mr_size rs) = sum_list (map mr_size (fst st))"
    using m by (metis size_mset, metis mset_map sum_mset_sum_list)
  then show ?thesis using w a m sort_records_spec [of "fst st"] rs by auto
qed

text \<open>
  C16: a manifest is the tree.  Its records are, up to their order, exactly those of the entries found,
  one for each: at a portable path within the limits whose real path is the one spelled,
  with plain permissions and no link; a directory that could be listed, or a file with one link whose
  digest is that of as many bytes as its size and whose status did not change while they were
  read.  The records are in order, and their number and total size stay within the limits.
\<close>

theorem tree_manifest_exact:
  assumes "createMaterializedTreeManifest H l = Inr rs"
  shows "(\<exists>root es new. canonicalDirectory (th_root H) = Inr root \<and> sorted_listing (th_tree H) = Some es
      \<and> list_all2 (entry_recorded l root) (tree_entries root [] es) new \<and> mset rs = mset new)
    \<and> sorted_wrt (\<lambda>a b. \<not> text_lt (mr_relativePath b) (mr_relativePath a)) rs
    \<and> length rs \<le> sl_archiveEntries l \<and> sum_list (map mr_size rs) \<le> sl_totalUncompressedBytes l"
  using assms by (rule tree_manifest_spec)

subsection \<open>Comparing manifests\<close>

lemma type_text_inj [simp]: "type_text a = type_text b \<longleftrightarrow> a = b"
  by (cases a; cases b) auto

text \<open>Sizes and modes that are exact as numbers of the code; limits below the safe integers give such records.\<close>

definition exact_record :: "tree_record \<Rightarrow> bool" where
  "exact_record r \<longleftrightarrow> int (mr_mode r) \<le> max_safe \<and> int (mr_size r) \<le> max_safe"

lemma recorded_exact:
  assumes "entry_recorded l root e r" "int (sl_regularFileBytes l) \<le> max_safe"
  shows "exact_record r"
proof -
  have m: "normalizedMode t m \<le> 493" for t m by (simp add: normalizedMode_def)
  obtain path rel f where e: "e = (path, rel, f)" by (cases e) auto
  with assms(1) obtain s where s: "directory_recorded f s r \<or> file_recorded l f s r" by (auto simp: entry_recorded_def)
  then have "mr_mode r \<le> 493" using m by (auto simp: directory_recorded_def file_recorded_def)
  moreover from s have "int (mr_size r) \<le> max_safe"
    using assms(2) by (auto simp: directory_recorded_def file_recorded_def max_safe_def)
  ultimately show ?thesis by (simp add: exact_record_def max_safe_def)
qed

lemma created_exact:
  assumes "createMaterializedTreeManifest H l = Inr rs" "int (sl_regularFileBytes l) \<le> max_safe"
  shows "list_all exact_record rs"
proof -
  from tree_manifest_spec [OF assms(1)] obtain root es new where "list_all2 (entry_recorded l root) (tree_entries root [] es) new"
    "mset rs = mset new" by blast
  then have "\<forall>r \<in> set rs. \<exists>e. entry_recorded l root e r"
    by (metis in_set_conv_nth list_all2_conv_all_nth mset_eq_setD)
  then show ?thesis using recorded_exact assms(2) by (auto simp: list_all_iff)
qed

lemma tree_record_json_data: "exact_record r \<Longrightarrow> json_data (tree_record_json r)"
  by (auto simp: exact_record_def tree_record_json_def split: option.splits)

lemma tree_record_json_inj:
  assumes "exact_record a" "exact_record b" "sortValue (tree_record_json a) = sortValue (tree_record_json b)"
  shows "a = b"
proof -
  have "sortValue (at (tree_record_json a) k) = sortValue (at (tree_record_json b) k)" for k
    using assms(3) json_at_sort [OF tree_record_json_data [OF assms(1)], of k] json_at_sort [OF tree_record_json_data [OF assms(2)], of k]
    by simp
  from this [of "''relativePath''"] this [of "''type''"] this [of "''normalizedMode''"] this [of "''size''"] this [of "''sha256''"]
  have "mr_relativePath a = mr_relativePath b" "mr_type a = mr_type b" "mr_mode a = mr_mode b" "mr_size a = mr_size b"
    "mr_sha256 a = mr_sha256 b"
    by (simp_all add: tree_record_json_def own_prop_append own_prop_def split: option.splits)
  then show ?thesis by simp
qed

lemma records_inj:
  assumes "list_all exact_record rs" "list_all exact_record rs'"
    "canonicalJson (JArr (map tree_record_json rs)) = canonicalJson (JArr (map tree_record_json rs'))"
  shows "rs = rs'"
proof -
  have "sortValue (JArr (map tree_record_json rs)) = sortValue (JArr (map tree_record_json rs'))"
    by (rule canonicalJson_inj [OF _ _ assms(3)]) (use assms(1,2) in \<open>auto simp: list_all_iff intro: tree_record_json_data\<close>)
  then have m: "map (\<lambda>r. sortValue (tree_record_json r)) rs = map (\<lambda>r. sortValue (tree_record_json r)) rs'" by (simp add: comp_def)
  have n: "length rs = length rs'" using m by (metis length_map)
  have "rs ! i = rs' ! i" if "i < length rs" for i
  proof (rule tree_record_json_inj)
    show "exact_record (rs ! i)" "exact_record (rs' ! i)" using that assms(1,2) n by (auto simp: list_all_length)
    show "sortValue (tree_record_json (rs ! i)) = sortValue (tree_record_json (rs' ! i))"
      using m that n by (metis (no_types, lifting) nth_map)
  qed
  with n show ?thesis by (simp add: list_eq_iff_nth_eq)
qed

lemma revalidated_spec:
  assumes "createMaterializedTreeManifest H l = Inr rs" "int (sl_regularFileBytes l) \<le> max_safe"
    "revalidateMaterializedTree H' (manifest_of rs) l = Inr rs'"
  shows "rs' = rs \<and> createMaterializedTreeManifest H' l = Inr rs"
proof -
  from assms(3) have c: "createMaterializedTreeManifest H' l = Inr rs'"
    "canonicalJson (JArr (map tree_record_json rs)) = canonicalJson (JArr (map tree_record_json rs'))"
    by (auto simp: revalidateMaterializedTree_def manifest_of_def rbind_Inr_iff)
  from records_inj [OF created_exact [OF assms(1,2)] created_exact [OF c(1) assms(2)] c(2)] c(1) show ?thesis by simp
qed

text \<open>
  A tree that passes the comparison with the manifest of an earlier tree has the same records: the same
  paths, types, modes, sizes and digests.  The limit on the size of a file must be a safe integer.
\<close>

theorem revalidated_tree_same:
  assumes "createMaterializedTreeManifest H l = Inr rs" "int (sl_regularFileBytes l) \<le> max_safe"
    "revalidateMaterializedTree H' (manifest_of rs) l = Inr rs'"
  shows "rs' = rs \<and> createMaterializedTreeManifest H' l = Inr rs"
  using assms by (rule revalidated_spec)

subsection \<open>The tree of a package graph\<close>

lemma record_at_mem: "record_at rs p = Some r \<Longrightarrow> r \<in> set rs \<and> mr_relativePath r = p"
  by (auto simp: record_at_def dest: map_of_SomeD)

lemma normalizeStringMap_Inr:
  assumes "normalizeStringMap v = Inr m" "json_data v \<or> v = JUndef"
  shows "json_data (text_map m) \<and> set (keys_of v) = fst ` set m \<and> (\<forall>k. at v k = at (text_map m) k)"
proof (cases v)
  case (JObj kvs)
  let ?f = "\<lambda>(k, x). case x of JStr s \<Rightarrow> if k = [] then Inl tree_invalid else Inr (k, s) | _ \<Rightarrow> Inl tree_invalid"
  from assms JObj obtain m' where m': "mapM ?f kvs = Inr m'" "m = isort (\<lambda>a b. text_lt (fst a) (fst b)) m'"
    by (auto simp: normalizeStringMap_def rbind_Inr_iff)
  have k: "mapM ?f xs = Inr ys \<Longrightarrow> xs = map (\<lambda>(k, s). (k, JStr s)) ys" for xs ys
    by (induction xs arbitrary: ys) (auto simp: rbind_Inr_iff split: sum.splits jsval.splits if_splits prod.splits)
  note kvs = k [OF m'(1)]
  have d: "distinct (map fst m')" using assms(2) JObj by (simp add: kvs comp_def case_prod_beta)
  then have dm: "distinct (map fst m)" by (simp add: m'(2) distinct_map_isort)
  have "map_of m' = map_of m" using d dm by (intro map_of_inject_set [THEN iffD2]) (simp_all add: m'(2))
  then have "own_prop kvs k = own_prop (map (\<lambda>(k, s). (k, JStr s)) m) k" for k
    by (simp add: kvs own_prop_def map_of_map)
  then show ?thesis using dm JObj by (auto simp: text_map_def kvs m'(2) keys_of_def comp_def case_prod_beta list_all_iff image_image)
qed (use assms in \<open>auto simp: normalizeStringMap_def text_map_def keys_of_def own_prop_def at_def\<close>)

text \<open>What a manifest in the tree agrees with.\<close>

definition tree_manifest_agrees :: "graph_node \<Rightarrow> jsval \<Rightarrow> bool" where
  "tree_manifest_agrees n v \<longleftrightarrow> at v ''name'' = JStr (gn_packageName n) \<and> at v ''version'' = JStr (gn_exactVersion n)
     \<and> (\<forall>k. at (at v ''dependencies'') k = (case map_of (expected_map n) k of None \<Rightarrow> JUndef | Some s \<Rightarrow> JStr s))
     \<and> keys_of (at v ''optionalDependencies'') = [] \<and> keys_of (at v ''peerDependencies'') = []
     \<and> set (keys_of (at v ''scripts'')) = set (gn_scripts n)"

lemma at_text_map: "at (text_map m) k = (case map_of m k of None \<Rightarrow> JUndef | Some s \<Rightarrow> JStr s)"
  by (auto simp: text_map_def own_prop_def map_of_map split: option.splits)

lemma expected_map_wf: "om_wf (expected_map n)"
proof -
  have "om_wf m \<Longrightarrow> om_wf (foldl (\<lambda>m e. om_set (de_packageName e) (de_declaredSpecifier e) m) m es)" for m and es :: "dependency_edge list"
    by (induction es arbitrary: m) simp_all
  then show ?thesis by (simp add: expected_map_def)
qed

lemma text_map_data: "om_wf m \<Longrightarrow> json_data (text_map m)"
  by (auto simp: text_map_def comp_def case_prod_beta list_all_iff)

lemma node_manifest_agrees:
  assumes "node_manifest_ok n v = Inr ()" "json_data v"
  shows "tree_manifest_agrees n v"
proof -
  obtain deps opts peers scripts where r: "at v ''name'' = JStr (gn_packageName n)" "at v ''version'' = JStr (gn_exactVersion n)"
    "normalizeStringMap (at v ''dependencies'') = Inr deps" "canonicalJson (text_map deps) = canonicalJson (text_map (expected_map n))"
    "normalizeStringMap (at v ''optionalDependencies'') = Inr opts" "opts = []"
    "normalizeStringMap (at v ''peerDependencies'') = Inr peers" "peers = []"
    "normalizeStringMap (at v ''scripts'') = Inr scripts"
    "canonicalJson (JArr (map JStr (sort_text (map fst scripts)))) = canonicalJson (JArr (map JStr (gn_scripts n)))"
    using assms(1) unfolding node_manifest_ok_def rbind_Inr_iff guard_Inr by blast
  have d: "json_data (at v k) \<or> at v k = JUndef" for k using json_data_at [OF assms(2)] by blast
  note N = normalizeStringMap_Inr [OF _ d]
  note deps = N [OF r(3)]
  have "sortValue (text_map deps) = sortValue (text_map (expected_map n))"
    using canonicalJson_inj [OF _ text_map_data [OF expected_map_wf] r(4)] deps by blast
  then have "sortValue (at (text_map deps) k) = sortValue (at (text_map (expected_map n)) k)" for k
    using json_at_sort [of "text_map deps" k] json_at_sort [OF text_map_data [OF expected_map_wf], of n k] deps by simp
  moreover have "sortValue (at (text_map m) k) = at (text_map m) k" for m k by (simp add: at_text_map split: option.splits)
  ultimately have "at (at v ''dependencies'') k = (case map_of (expected_map n) k of None \<Rightarrow> JUndef | Some s \<Rightarrow> JStr s)" for k
    using deps by (metis at_text_map)
  moreover have "keys_of (at v ''optionalDependencies'') = []" "keys_of (at v ''peerDependencies'') = []"
    using N [OF r(5)] N [OF r(7)] r(6,8) by simp_all
  moreover have "set (keys_of (at v ''scripts'')) = set (gn_scripts n)"
    using N [OF r(9)] unfolding texts_inj [OF r(10), symmetric] by simp
  ultimately show ?thesis using r(1,2) unfolding tree_manifest_agrees_def by blast
qed

text \<open>Where a record may lie: a file below a \<open>node_modules\<close> belongs to a declared package.\<close>

lemma after_marker_split:
  assumes "segments = outer @ ''node_modules'' # inner" "''node_modules'' \<notin> set inner"
  shows "after_marker segments = inner" "take (length segments - length (after_marker segments)) segments = outer @ [''node_modules'']"
proof -
  have "takeWhile (\<lambda>s. s \<noteq> ''node_modules'') (List.rev inner @ ''node_modules'' # List.rev outer) = List.rev inner"
    using assms(2) by (subst takeWhile_append2) auto
  then show i: "after_marker segments = inner" by (simp add: after_marker_def assms(1))
  show "take (length segments - length (after_marker segments)) segments = outer @ [''node_modules'']"
    unfolding i by (simp add: assms(1))
qed

lemma file_in_package:
  assumes "layout_ok declared r" "mr_type r = Entry_file"
    "split_on (CHR ''/'') (mr_relativePath r) = outer @ ''node_modules'' # inner" "''node_modules'' \<notin> set inner"
  shows "\<exists>k p. k \<in> {1, 2} \<and> k \<le> length inner \<and> p \<in> set declared \<and> p = join_with ''/'' (outer @ ''node_modules'' # take k inner)"
proof -
  note a = after_marker_split [OF assms(3,4)]
  from assms(1,2) obtain first others where i: "inner = first # others" "\<not> (starts_with ''@'' first \<and> others = [])"
    "join_with ''/'' (outer @ ''node_modules'' # take (if starts_with ''@'' first then 2 else 1) inner) \<in> set declared"
    unfolding layout_ok_def Let_def a by (cases inner) (auto simp: assms(3) split: if_splits)
  then show ?thesis
    by (intro exI [of _ "if starts_with ''@'' first then 2 else 1"]) (cases others; auto)
qed

lemma profile_limits_exact:
  assumes "new_profile_authority parse base ds = Inr A" "authenticates_profile A profile"
  shows "int (sl_regularFileBytes (gp_limits (fst (snd profile)))) \<le> max_safe"
proof -
  obtain a p g where p: "profile = (a, p, g)" by (cases profile) auto
  with assms(2) obtain i where "(i, a, p, g) \<in> set (pa_profiles A)" by (auto simp: authenticates_profile_def)
  with authority_profiles [OF assms(1)] have "within_ceilings (gp_limits p)" by (auto simp: profile_wf_def)
  then show ?thesis by (simp add: p within_ceilings_def limit_entries_def PACKAGE_STAGE_HARD_CEILINGS_def max_safe_def)
qed

lemma validate_nodes_agree:
  assumes "mapM (validate_node files rs) nodes = Inr us" "n \<in> set nodes"
  shows "\<exists>r v. r \<in> set rs \<and> mr_relativePath r = package_json n \<and> mr_type r = Entry_file
    \<and> readJsonObject (files (package_json n)) = Inr v \<and> tree_manifest_agrees n v"
proof -
  from assms obtain u where "validate_node files rs n = Inr u" by (metis mapM_covers)
  then obtain r v where r: "record_at rs (package_json n) = Some r" "mr_type r = Entry_file"
    "readJsonObject (files (package_json n)) = Inr v" "node_manifest_ok n v = Inr ()"
    by (auto simp: validate_node_def rbind_Inr_iff split: option.splits)
  from r(3) have "json_data v" by (auto simp: readJsonObject_def rbind_Inr_iff dest: json_parse_data)
  with r node_manifest_agrees record_at_mem show ?thesis by blast
qed

text \<open>
  C15: a tree that passes the check against a profile is the tree of its graph.  The profile is authentic, and
  the two walks before and after the check found the same records; every node of the graph has, at its
  install path, a manifest with its name, version, dependencies and scripts and without optional
  or peer dependencies; no other manifest and no native build file is in a subdirectory; every file below a
  \<open>node_modules\<close> belongs to a node; and the entry point is a file with the digest that is returned.
\<close>

theorem materialized_graph_exact:
  assumes "new_profile_authority parse base ds = Inr A" "validateMaterializedPackageGraph A H profile = Inr v"
  shows "authenticates_profile A profile
    \<and> createMaterializedTreeManifest (gh_first H) (gp_limits (fst (snd profile))) = Inr (gr_tree v)
    \<and> createMaterializedTreeManifest (gh_second H) (gp_limits (fst (snd profile))) = Inr (gr_tree v)
    \<and> (\<forall>n \<in> set (gp_nodes (fst (snd profile))). \<exists>r w. r \<in> set (gr_tree v) \<and> mr_relativePath r = package_json n
         \<and> mr_type r = Entry_file \<and> readJsonObject (gh_files H (package_json n)) = Inr w \<and> tree_manifest_agrees n w)
    \<and> (\<forall>r \<in> set (gr_tree v). \<not> ends_with ''/binding.gyp'' (mr_relativePath r)
         \<and> (mr_type r = Entry_file \<longrightarrow>
              (ends_with ''/package.json'' (mr_relativePath r) \<longrightarrow> mr_relativePath r \<in> package_json ` set (gp_nodes (fst (snd profile))))
              \<and> (\<forall>outer inner. split_on (CHR ''/'') (mr_relativePath r) = outer @ ''node_modules'' # inner
                   \<and> ''node_modules'' \<notin> set inner \<longrightarrow>
                   (\<exists>k p. k \<in> {1, 2} \<and> k \<le> length inner \<and> p \<in> gn_installPath ` set (gp_nodes (fst (snd profile)))
                      \<and> p = join_with ''/'' (outer @ ''node_modules'' # take k inner)))))
    \<and> (\<exists>r \<in> set (gr_tree v). mr_relativePath r = gr_entrypoint v \<and> mr_type r = Entry_file \<and> mr_sha256 r = Some (gr_entrypointSha v)
         \<and> gr_entrypoint v = ''node_modules/'' @ gp_topName (fst (snd profile)) @ ''/'' @ gp_entrypoint (fst (snd profile)))"
proof -
  let ?g = "fst (snd profile)"
  from assms(2) obtain rs root us t d rs' where r: "authenticates_profile A profile"
    "createMaterializedTreeManifest (gh_first H) (gp_limits ?g) = Inr rs" "list_all (record_allowed (gp_nodes ?g)) rs"
    "mapM (validate_node (gh_files H) rs) (gp_nodes ?g) = Inr us" "List.find (is_top_node ?g) (gp_nodes ?g) = Some t"
    "(case record_at rs (gn_installPath t @ ''/'' @ gp_entrypoint ?g) of None \<Rightarrow> None
       | Some r \<Rightarrow> if mr_type r = Entry_file then mr_sha256 r else None) = Some d"
    "createMaterializedTreeManifest (gh_second H) (gp_limits ?g) = Inr rs'"
    "canonicalJson (JArr (map tree_record_json rs')) = canonicalJson (JArr (map tree_record_json rs))"
    and v: "v = \<lparr>gr_tree = rs', gr_entrypoint = gn_installPath t @ ''/'' @ gp_entrypoint ?g, gr_entrypointSha = d\<rparr>"
    unfolding validateMaterializedPackageGraph_def rbind_Inr_iff guard_Inr wanted_Inr Let_def sum.inject by blast
  note l = profile_limits_exact [OF assms(1) r(1)]
  have same: "rs' = rs" by (rule records_inj [OF created_exact [OF r(7) l] created_exact [OF r(2) l] r(8)])
  from r(6) obtain e where "record_at rs (gn_installPath t @ ''/'' @ gp_entrypoint ?g) = Some e" "mr_type e = Entry_file" "mr_sha256 e = Some d"
    by (auto split: option.splits if_splits)
  then have e: "e \<in> set rs" "mr_relativePath e = gn_installPath t @ ''/'' @ gp_entrypoint ?g" "mr_type e = Entry_file" "mr_sha256 e = Some d"
    using record_at_mem by blast+
  have t: "gn_installPath t = ''node_modules/'' @ gp_topName ?g" using r(5) by (auto simp: find_Some_iff is_top_node_def)
  have a: "record_allowed (gp_nodes ?g) q" if "q \<in> set rs" for q using r(3) that by (simp add: list_all_iff)
  have ends: "\<not> ends_with ''/binding.gyp'' (mr_relativePath q)" "mr_type q = Entry_file \<Longrightarrow> ends_with ''/package.json'' (mr_relativePath q)
      \<Longrightarrow> mr_relativePath q \<in> package_json ` set (gp_nodes ?g)" "layout_ok (map gn_installPath (gp_nodes ?g)) q" if "q \<in> set rs" for q
    using a [OF that] unfolding record_allowed_def by blast+
  show ?thesis
    using r(1,2) r(7) [unfolded same] validate_nodes_agree [OF r(4)] ends file_in_package [OF ends(3)] e t
    unfolding v same graph_validation.select_convs set_map by auto
qed

subsection \<open>A concrete tree\<close>

definition demo_entry_stat :: "bool \<Rightarrow> nat \<Rightarrow> file_stat" where
  "demo_entry_stat dir n = \<lparr>fst_isFile = \<not> dir, fst_isDirectory = dir, fst_isLink = False, fst_dev = 1, fst_ino = 3, fst_uid = 501,
     fst_mode = (if dir then 493 else 420), fst_nlink = 1, fst_size = n, fst_mtime = 0, fst_ctime = 0\<rparr>"

definition demo_directory :: "string \<Rightarrow> (string \<times> found) list \<Rightarrow> found" where
  "demo_directory path es = Found (Some path) (Some (demo_entry_stat True 0))
     \<lparr>hh_opened = False, hh_before = None, hh_reads = [], hh_after = None\<rparr> (Visit (Some es))"

definition demo_file_found :: "string \<Rightarrow> byte list \<Rightarrow> found" where
  "demo_file_found path bytes = Found (Some path) (Some (demo_entry_stat False (length bytes)))
     \<lparr>hh_opened = True, hh_before = Some (demo_entry_stat False (length bytes)), hh_reads = [Some bytes],
      hh_after = Some (demo_entry_stat False (length bytes))\<rparr> (Visit None)"

definition demo_root_host :: directory_host where
  "demo_root_host = \<lparr>dr_before = Some (demo_entry_stat True 0), dr_canonical = Some ''/t'', dr_after = Some (demo_entry_stat True 0)\<rparr>"

definition demo_package_bytes :: "byte list" where
  "demo_package_bytes = map of_nat demo_manifest_bytes"

definition demo_tree_host :: tree_host where
  "demo_tree_host = \<lparr>th_root = demo_root_host, th_tree = Visit (Some [(''node_modules'', demo_directory ''/t/node_modules''
     [(''a'', demo_directory ''/t/node_modules/a''
        [(''package.json'', demo_file_found ''/t/node_modules/a/package.json'' demo_package_bytes),
         (''i.js'', demo_file_found ''/t/node_modules/a/i.js'' [])])])])\<rparr>"

definition demo_tree_records :: "tree_record list" where
  "demo_tree_records =
     [\<lparr>mr_relativePath = ''node_modules'', mr_type = Entry_directory, mr_mode = 493, mr_size = 0, mr_sha256 = None\<rparr>,
      \<lparr>mr_relativePath = ''node_modules/a'', mr_type = Entry_directory, mr_mode = 493, mr_size = 0, mr_sha256 = None\<rparr>,
      \<lparr>mr_relativePath = ''node_modules/a/i.js'', mr_type = Entry_file, mr_mode = 420, mr_size = 0, mr_sha256 = Some (sha256_hex [])\<rparr>,
      \<lparr>mr_relativePath = ''node_modules/a/package.json'', mr_type = Entry_file, mr_mode = 420, mr_size = length demo_package_bytes,
       mr_sha256 = Some (sha256_hex demo_package_bytes)\<rparr>]"

lemma demo_package_length: "length demo_package_bytes \<le> 100" "demo_package_bytes \<noteq> []"
  using demo_manifest_encoded(3,4) by (simp_all add: demo_package_bytes_def)

lemma demo_tree_paths:
  "is_ok (validatePortableRelativePath PACKAGE_STAGE_HARD_CEILINGS ''node_modules'')"
  "is_ok (validatePortableRelativePath PACKAGE_STAGE_HARD_CEILINGS ''node_modules/a'')"
  "is_ok (validatePortableRelativePath PACKAGE_STAGE_HARD_CEILINGS ''node_modules/a/i.js'')"
  "is_ok (validatePortableRelativePath PACKAGE_STAGE_HARD_CEILINGS ''node_modules/a/package.json'')"
  by (simp_all add: validatePortableRelativePath_def portable_text_def plain_segment_def is_control_def PACKAGE_STAGE_HARD_CEILINGS_def)

lemma demo_hashed:
  assumes "length bytes \<le> 100"
  shows "file_record PACKAGE_STAGE_HARD_CEILINGS rel (demo_entry_stat False (length bytes)) (hashing_of (demo_file_found path bytes)) 0
    = Inr (\<lparr>mr_relativePath = rel, mr_type = Entry_file, mr_mode = 420, mr_size = length bytes, mr_sha256 = Some (sha256_hex bytes)\<rparr>,
        length bytes)"
proof -
  have r: "read_all (length bytes) [Some bytes] [] = Inr bytes" using assms by (simp add: READ_BYTES_def Let_def)
  show ?thesis using assms
    by (simp add: file_record_def hashRegularFile_def demo_file_found_def r demo_entry_stat_def normalizedMode_def permissions_def
        sameFileStat_def wanted_def PACKAGE_STAGE_HARD_CEILINGS_def Let_def del: read_all.simps)
qed

lemma demo_tree_created: "createMaterializedTreeManifest demo_tree_host PACKAGE_STAGE_HARD_CEILINGS = Inr demo_tree_records"
proof -
  have s: "stat_of (demo_directory p es) = Some (demo_entry_stat True 0)" "canonical_of (demo_directory p es) = Some p"
    "below (demo_directory p es) = Visit (Some es)" "stat_of (demo_file_found p b) = Some (demo_entry_stat False (length b))"
    "canonical_of (demo_file_found p b) = Some p" for p es b
    by (simp_all add: demo_directory_def demo_file_found_def)
  have m: "\<not> fst_isLink (demo_entry_stat d n)" "fst_isDirectory (demo_entry_stat d n) = d" "fst_isFile (demo_entry_stat d n) = (\<not> d)"
    "fst_mode (demo_entry_stat d n) AND 3072 = 0" for d n
    by (simp_all add: demo_entry_stat_def)
  have c: "check_found PACKAGE_STAGE_HARD_CEILINGS ''/t'' p rel (demo_directory p es) = Inr (demo_entry_stat True 0)"
    "check_found PACKAGE_STAGE_HARD_CEILINGS ''/t'' p rel (demo_file_found p b) = Inr (demo_entry_stat False (length b))"
    if "is_ok (validatePortableRelativePath PACKAGE_STAGE_HARD_CEILINGS rel)" "starts_with ''/t/'' p" for p rel es b
    using that s m by (simp_all add: check_found_Inr)
  have d: "directory_record rel (demo_entry_stat True 0) = Inr \<lparr>mr_relativePath = rel, mr_type = Entry_directory, mr_mode = 493, mr_size = 0, mr_sha256 = None\<rparr>" for rel
    by (simp add: directory_record_def demo_entry_stat_def permissions_def)
  have e: "sl_archiveEntries PACKAGE_STAGE_HARD_CEILINGS = 100000" by (simp add: PACKAGE_STAGE_HARD_CEILINGS_def)
  have r: "canonicalDirectory demo_root_host = Inr ''/t''" by (simp add: canonicalDirectory_def demo_root_host_def demo_entry_stat_def wanted_def)
  show ?thesis
    using demo_tree_paths demo_hashed [of "[]", simplified] demo_hashed [OF demo_package_length(1)]
    by (simp add: createMaterializedTreeManifest_def demo_tree_host_def r sorted_listing_def s m d c
        join_path_def below_path_def push_record_def e sort_records_def demo_tree_records_def Let_def)
qed

theorem tree_manifest_exact_witness:
  "createMaterializedTreeManifest demo_tree_host PACKAGE_STAGE_HARD_CEILINGS = Inr demo_tree_records
     \<and> length demo_tree_records \<le> sl_archiveEntries PACKAGE_STAGE_HARD_CEILINGS"
  using tree_manifest_exact [OF demo_tree_created] demo_tree_created by blast

theorem revalidated_tree_same_witness:
  "revalidateMaterializedTree demo_tree_host (manifest_of demo_tree_records) PACKAGE_STAGE_HARD_CEILINGS = Inr demo_tree_records
     \<and> demo_tree_records \<noteq> []"
proof -
  have r: "revalidateMaterializedTree demo_tree_host (manifest_of demo_tree_records) PACKAGE_STAGE_HARD_CEILINGS = Inr demo_tree_records"
    by (simp add: revalidateMaterializedTree_def demo_tree_created manifest_of_def)
  have "int (sl_regularFileBytes PACKAGE_STAGE_HARD_CEILINGS) \<le> max_safe" by (simp add: PACKAGE_STAGE_HARD_CEILINGS_def max_safe_def)
  from revalidated_tree_same [OF demo_tree_created this r] r show ?thesis by (simp add: demo_tree_records_def)
qed

definition demo_graph_host :: graph_host where
  "demo_graph_host = \<lparr>gh_first = demo_tree_host, gh_root = demo_root_host,
     gh_files = (\<lambda>p. \<lparr>jr_opened = True, jr_stat = Some (demo_entry_stat False (length demo_package_bytes)), jr_bytes = Some demo_package_bytes\<rparr>),
     gh_second = demo_tree_host\<rparr>"

abbreviation demo_tree_profile :: "(graph_profile \<times> string) object" where
  "demo_tree_profile \<equiv> (7, demo_graph_profile demo_sha, profile_digest (demo_graph_profile demo_sha))"

abbreviation demo_tree_authority :: profile_authority where
  "demo_tree_authority \<equiv> \<lparr>pa_profiles = [(''p'', demo_tree_profile)]\<rparr>"

lemma demo_tree_json: "readJsonObject (gh_files demo_graph_host p) = Inr (JObj [(''name'', JStr ''a''), (''version'', JStr ''1.0.0'')])"
proof -
  have "take 3 demo_package_bytes \<noteq> [0xef, 0xbb, 0xbf]" by code_simp
  then have "utf8_units demo_package_bytes = Some demo_manifest_text"
    using demo_manifest_parts(3) by (simp add: utf8_decode_def demo_package_bytes_def)
  then show ?thesis using demo_manifest_parts(2) demo_package_length(1)
    by (simp add: readJsonObject_def demo_graph_host_def demo_entry_stat_def wanted_def is_obj_def)
qed

lemma demo_tree_validated:
  "\<exists>v. validateMaterializedPackageGraph demo_tree_authority demo_graph_host demo_tree_profile = Inr v"
proof -
  have n: "package_json (demo_node demo_sha) = ''node_modules/a/package.json''" by (simp add: package_json_def demo_node_def)
  have m: "node_manifest_ok (demo_node demo_sha) (JObj [(''name'', JStr ''a''), (''version'', JStr ''1.0.0'')]) = Inr ()"
    by (simp add: node_manifest_ok_def normalizeStringMap_def expected_map_def demo_node_def sort_text_def)
  have a: "list_all (record_allowed [demo_node demo_sha]) demo_tree_records"
    by (simp add: demo_tree_records_def record_allowed_def n ends_with_def layout_ok_def after_marker_def) (simp add: demo_node_def)
  have v: "validate_node (gh_files demo_graph_host) demo_tree_records (demo_node demo_sha) = Inr ()"
    using demo_package_length(1)
    by (simp add: validate_node_def n record_at_def demo_tree_json m) (simp add: demo_tree_records_def)
  have e: "record_at demo_tree_records ''node_modules/a/i.js'' = Some (demo_tree_records ! 2)" "mr_type (demo_tree_records ! 2) = Entry_file"
    "mr_sha256 (demo_tree_records ! 2) = Some (sha256_hex [])"
    by (simp_all add: record_at_def demo_tree_records_def)
  have t: "is_top_node (demo_graph_profile demo_sha) (demo_node demo_sha)"
    by (simp add: is_top_node_def demo_graph_profile_def demo_node_def)
  have r: "canonicalDirectory demo_root_host = Inr ''/t''"
    by (simp add: canonicalDirectory_def demo_root_host_def demo_entry_stat_def wanted_def)
  have h: "gh_first demo_graph_host = demo_tree_host" "gh_second demo_graph_host = demo_tree_host" "gh_root demo_graph_host = demo_root_host"
    by (simp_all add: demo_graph_host_def)
  have g: "gp_limits (demo_graph_profile demo_sha) = PACKAGE_STAGE_HARD_CEILINGS" "gp_nodes (demo_graph_profile demo_sha) = [demo_node demo_sha]"
    "gp_entrypoint (demo_graph_profile demo_sha) = ''i.js''" "gn_installPath (demo_node demo_sha) = ''node_modules/a''"
    by (simp_all add: demo_graph_profile_def demo_node_def)
  show ?thesis
    by (simp add: validateMaterializedPackageGraph_def authenticates_profile_def h g demo_tree_created a r v t e wanted_def Let_def)
qed

theorem materialized_graph_exact_witness:
  "\<exists>v. validateMaterializedPackageGraph demo_tree_authority demo_graph_host demo_tree_profile = Inr v
     \<and> gr_tree v = demo_tree_records \<and> gr_entrypoint v = ''node_modules/a/i.js''"
proof -
  obtain v where v: "validateMaterializedPackageGraph demo_tree_authority demo_graph_host demo_tree_profile = Inr v"
    using demo_tree_validated by blast
  note m = materialized_graph_exact [OF demo_authority [OF demo_sha_bytes] v]
  then have "createMaterializedTreeManifest (gh_first demo_graph_host) (gp_limits (demo_graph_profile demo_sha)) = Inr (gr_tree v)" by simp
  then have "gr_tree v = demo_tree_records" by (simp add: demo_graph_host_def demo_graph_profile_def demo_tree_created)
  moreover from m have "gr_entrypoint v = ''node_modules/a/i.js''" by (auto simp: demo_graph_profile_def)
  ultimately show ?thesis using v by blast
qed

end
