(* ===== verification/AuditQuery.thy ===== *)
theory AuditQuery
  imports AuditLog
begin

section \<open>Queries on the audit log\<close>

text \<open>
  Models src/audit/query-service.ts: the calls the dashboard lists, newest first, each with the
  status of its approval and its stored JSON parsed again, beside the verdict on the hash chain.  A
  query is the result of its SQL: the left join of calls and approvals, the order by start and
  identifier, the limit.
\<close>

record call_view =
  cv_id :: string
  cv_serverId :: string
  cv_toolName :: string
  cv_arguments :: jsval
  cv_base :: decision
  cv_effective :: decision
  cv_rule :: "string option"
  cv_reasons :: jsval
  cv_score :: int
  cv_band :: risk_band
  cv_signals :: jsval
  cv_status :: string
  cv_startedAt :: string
  cv_completedAt :: "string option"
  cv_latency :: "nat option"
  cv_result :: "jsval option"
  cv_error :: "string option"
  cv_approval :: "string option"

datatype query_error = Limit_out_of_range | Not_a_uuid | Stored_json_invalid

text \<open>A row of the join.\<close>

type_synonym audit_row = "call_row \<times> string option"

definition parseStoredJson :: "string \<Rightarrow> query_error + jsval" where
  "parseStoredJson s = (case json_parse s of None \<Rightarrow> Inl Stored_json_invalid | Some v \<Rightarrow> Inr v)"

definition toView :: "audit_row \<Rightarrow> query_error + call_view" where
  "toView row = (let r = fst row in
     rbind (parseStoredJson (cr_arguments r)) (\<lambda>arguments.
     rbind (parseStoredJson (cr_reasons r)) (\<lambda>reasons.
     rbind (parseStoredJson (cr_signals r)) (\<lambda>signals.
     rbind (case cr_result r of None \<Rightarrow> Inr None | Some s \<Rightarrow> rbind (parseStoredJson s) (\<lambda>v. Inr (Some v))) (\<lambda>summary.
     Inr \<lparr>cv_id = cr_id r, cv_serverId = cr_serverId r, cv_toolName = cr_toolName r, cv_arguments = arguments,
       cv_base = cr_base r, cv_effective = cr_effective r, cv_rule = cr_rule r, cv_reasons = reasons, cv_score = cr_score r,
       cv_band = cr_band r, cv_signals = signals, cv_status = cr_status r, cv_startedAt = cr_startedAt r,
       cv_completedAt = cr_completedAt r, cv_latency = cr_latency r, cv_result = summary, cv_error = cr_error r,
       cv_approval = snd row\<rparr>)))))"

definition approvals_of :: "audit_db \<Rightarrow> call_row \<Rightarrow> audit_row list" where
  "approvals_of db r =
     (case filter (\<lambda>a. al_call a = cr_id r) (db_approvals db) of
        [] \<Rightarrow> [(r, None)]
      | as \<Rightarrow> map (\<lambda>a. (r, Some (al_status a))) as)"

definition joined :: "audit_db \<Rightarrow> audit_row list" where
  "joined db = concat (map (approvals_of db) (db_calls db))"

text \<open>\<open>ORDER BY started_at DESC, id DESC\<close>.\<close>

definition newer :: "call_row \<Rightarrow> call_row \<Rightarrow> bool" where
  "newer a b \<longleftrightarrow> text_lt (cr_startedAt b) (cr_startedAt a)
     \<or> (cr_startedAt a = cr_startedAt b \<and> text_lt (cr_id b) (cr_id a))"

definition newest_first :: "audit_row list \<Rightarrow> audit_row list" where
  "newest_first rows = isort (\<lambda>a b. newer (fst a) (fst b)) rows"

definition listRecent :: "jnum \<Rightarrow> audit_db \<Rightarrow> query_error + call_view list \<times> bool" where
  "listRecent limit db =
     (case limit of
        NInt n \<Rightarrow>
          if n < 1 \<or> 100 < n then Inl Limit_out_of_range
          else rbind (mapM toView (take (nat n) (newest_first (joined db)))) (\<lambda>calls. Inr (calls, verifyHashChain db))
      | _ \<Rightarrow> Inl Limit_out_of_range)"

text \<open>\<open>/^[0-9a-f]{8}-[0-9a-f]{4}-[1-8][0-9a-f]{3}-[89ab][0-9a-f]{3}-[0-9a-f]{12}$/iu\<close>.\<close>

definition hex_any_case :: "char \<Rightarrow> bool" where
  "hex_any_case c \<longleftrightarrow> is_hex c \<or> (65 \<le> code c \<and> code c \<le> 70)"

definition is_uuid_text :: "string \<Rightarrow> bool" where
  "is_uuid_text s \<longleftrightarrow> (case split_on (CHR ''-'') s of
     [a, b, c, d, e] \<Rightarrow> map length [a, b, c, d, e] = [8, 4, 4, 4, 12] \<and> list_all (list_all hex_any_case) [a, b, c, d, e]
       \<and> hd c \<in> set ''12345678'' \<and> hd d \<in> set ''89abAB''
   | _ \<Rightarrow> False)"

definition getAction :: "string \<Rightarrow> audit_db \<Rightarrow> query_error + call_view list \<times> bool" where
  "getAction i db =
     (if \<not> is_uuid_text i then Inl Not_a_uuid
      else rbind (mapM toView (take 1 (filter (\<lambda>row. cr_id (fst row) = i) (joined db)))) (\<lambda>calls. Inr (calls, verifyHashChain db)))"

subsection \<open>What a query shows\<close>

text \<open>The keys of the tables: the identifier of a call, and one approval for a call.\<close>

definition keys_unique :: "audit_db \<Rightarrow> bool" where
  "keys_unique db \<longleftrightarrow> distinct (map cr_id (db_calls db)) \<and> distinct (map al_call (db_approvals db))"

definition approval_status :: "audit_db \<Rightarrow> call_row \<Rightarrow> string option" where
  "approval_status db r = map_option al_status (List.find (\<lambda>a. al_call a = cr_id r) (db_approvals db))"

lemma filter_key: "distinct (map f xs) \<Longrightarrow> filter (\<lambda>x. f x = k) xs = (case List.find (\<lambda>x. f x = k) xs of None \<Rightarrow> [] | Some x \<Rightarrow> [x])"
proof (induction xs)
  case (Cons x xs)
  show ?case
  proof (cases "f x = k")
    case True
    then have "filter (\<lambda>x. f x = k) xs = []" using Cons.prems by (auto simp: filter_empty_conv image_iff)
    then show ?thesis using True by simp
  qed (use Cons in simp)
qed simp

lemma joined_rows:
  assumes "keys_unique db"
  shows "joined db = map (\<lambda>r. (r, approval_status db r)) (db_calls db)"
proof -
  have "distinct (map al_call (db_approvals db))" using assms by (simp add: keys_unique_def)
  note f = filter_key [OF this]
  have "approvals_of db = (\<lambda>r. [(r, approval_status db r)])"
  proof
    fix r
    show "approvals_of db r = [(r, approval_status db r)]"
      unfolding approvals_of_def f approval_status_def by (cases "List.find (\<lambda>a. al_call a = cr_id r) (db_approvals db)") auto
  qed
  then show ?thesis by (simp add: joined_def)
qed

lemma newer_trans_weak: "\<not> newer y x \<Longrightarrow> \<not> newer z y \<Longrightarrow> \<not> newer z x"
  using text_lt_total [of "cr_startedAt x" "cr_startedAt y"] text_lt_total [of "cr_startedAt y" "cr_startedAt z"]
    text_lt_total [of "cr_id x" "cr_id y"] text_lt_total [of "cr_id y" "cr_id z"]
    text_lt_trans [of "cr_startedAt z" "cr_startedAt y" "cr_startedAt x"] text_lt_trans [of "cr_id z" "cr_id y" "cr_id x"]
    text_lt_asym [of "cr_startedAt x" "cr_startedAt z"] text_lt_asym [of "cr_id x" "cr_id z"]
  unfolding newer_def by (elim disjE) auto

lemma newer_asym: "newer x y \<Longrightarrow> \<not> newer y x"
  using text_lt_asym [of "cr_startedAt y" "cr_startedAt x"] text_lt_asym [of "cr_id y" "cr_id x"] by (auto simp: newer_def)

lemma newer_strict_weak: "strict_weak (\<lambda>a b. newer (fst a) (fst b))"
  unfolding strict_weak_def using newer_trans_weak newer_asym by blast

text \<open>A view is the view of its row.\<close>

definition shows_row :: "audit_db \<Rightarrow> call_row \<Rightarrow> call_view \<Rightarrow> bool" where
  "shows_row db r v \<longleftrightarrow> toView (r, approval_status db r) = Inr v"

lemma shows_row_id: "shows_row db r v \<Longrightarrow> cv_id v = cr_id r \<and> cv_status v = cr_status r \<and> cv_approval v = approval_status db r
    \<and> json_parse (cr_arguments r) = Some (cv_arguments v)"
  by (auto simp: shows_row_def toView_def parseStoredJson_def rbind_Inr_iff Let_def split: option.splits)

lemma shown_ids: "list_all2 (shows_row db) rs vs \<Longrightarrow> map cv_id vs = map cr_id rs"
  by (induction rule: list_all2_induct) (auto dest: shows_row_id)

text \<open>
  The list of recent calls is exact.  It has as many calls as were asked for, or all there are; each is
  shown once, with its own approval; they are in order, newest first; no call that is left out
  is newer than one that is shown; and the verdict is that of the chain.
\<close>

theorem recent_calls_exact:
  assumes "keys_unique db" "listRecent limit db = Inr (views, ok)"
  shows "\<exists>n shown. limit = NInt n \<and> 1 \<le> n \<and> n \<le> 100 \<and> list_all2 (shows_row db) shown views
    \<and> length shown = min (nat n) (length (db_calls db)) \<and> set shown \<subseteq> set (db_calls db) \<and> distinct (map cv_id views)
    \<and> sorted_wrt (\<lambda>a b. \<not> newer b a) shown
    \<and> (\<forall>r \<in> set (db_calls db) - set shown. \<forall>s \<in> set shown. \<not> newer r s) \<and> ok = verifyHashChain db"
proof -
  let ?rows = "newest_first (joined db)"
  obtain n where n: "limit = NInt n" "1 \<le> n" "n \<le> 100" "mapM toView (take (nat n) ?rows) = Inr views" "ok = verifyHashChain db"
    using assms(2) by (auto simp: listRecent_def rbind_Inr_iff split: jnum.splits if_splits)
  let ?shown = "map fst (take (nat n) ?rows)"
  have m: "mset ?rows = mset (map (\<lambda>r. (r, approval_status db r)) (db_calls db))"
    by (simp add: newest_first_def joined_rows [OF assms(1)])
  have "mset (map fst ?rows) = mset (map fst (map (\<lambda>r. (r, approval_status db r)) (db_calls db)))" unfolding mset_map m by simp
  then have ms: "mset (map fst ?rows) = mset (db_calls db)" by (simp only: map_map comp_def fst_conv map_ident)
  have app: "row \<in> set ?rows \<Longrightarrow> row = (fst row, approval_status db (fst row))" for row
    using mset_eq_setD [OF m] by auto
  have l: "list_all2 (\<lambda>row v. toView row = Inr v) (take (nat n) ?rows) views" using n(4) by (simp add: mapM_Inr_iff)
  have sh: "list_all2 (shows_row db) ?shown views"
    unfolding list_all2_map1 shows_row_def by (rule list.rel_mono_strong [OF l]) (metis app in_set_takeD)
  have sorted: "sorted_wrt (\<lambda>a b. \<not> newer b a) (map fst ?rows)"
    unfolding newest_first_def sorted_wrt_map by (rule sorted_isort [OF newer_strict_weak])
  have "distinct (map cr_id (map fst ?rows))"
    using assms(1) ms by (metis keys_unique_def mset_eq_imp_distinct_iff mset_map)
  then have "distinct (map cr_id ?shown)" by (metis distinct_take take_map)
  moreover have "map cv_id views = map cr_id ?shown" using sh by (rule shown_ids)
  ultimately have d: "distinct (map cv_id views)" by simp
  let ?rest = "map fst (drop (nat n) ?rows)"
  have split: "map fst ?rows = ?shown @ ?rest" by (simp only: map_append [symmetric] append_take_drop_id)
  have s: "sorted_wrt (\<lambda>a b. \<not> newer b a) ?shown" "\<forall>s \<in> set ?shown. \<forall>r \<in> set ?rest. \<not> newer r s"
    using sorted unfolding split sorted_wrt_append by blast+
  have all: "set (db_calls db) = set ?shown \<union> set ?rest" unfolding mset_eq_setD [OF ms, symmetric] split by simp
  have "length ?shown = min (nat n) (length (db_calls db))" using arg_cong [OF ms, of size] by (simp add: min.commute)
  then show ?thesis using n(1-3,5) sh d s all by (intro exI [of _ n] exI [of _ ?shown]) blast
qed

subsection \<open>A concrete log\<close>

definition demo_call_row :: "string \<Rightarrow> string \<Rightarrow> call_row" where
  "demo_call_row i t = \<lparr>cr_id = i, cr_serverId = ''fs'', cr_toolName = ''read_file'', cr_arguments = ''[]'',
     cr_requestHash = [], cr_base = allow, cr_effective = allow, cr_rule = None, cr_reasons = ''[]'', cr_score = 0,
     cr_band = low, cr_signals = ''[]'', cr_status = ''completed'', cr_startedAt = t,
     cr_completedAt = None, cr_latency = None, cr_result = None, cr_error = None\<rparr>"

definition demo_query_db :: audit_db where
  "demo_query_db = \<lparr>db_calls = [demo_call_row ''a'' ''1'', demo_call_row ''b'' ''2''], db_approvals = [], db_events = []\<rparr>"

theorem recent_calls_exact_witness:
  "\<exists>v. listRecent (NInt 1) demo_query_db = Inr ([v], True) \<and> cv_id v = ''b'' \<and> distinct (map cv_id [v])"
proof -
  have p: "json_parse ''[]'' = Some (JArr [])" by code_simp
  have k: "keys_unique demo_query_db" by (simp add: keys_unique_def demo_query_db_def demo_call_row_def)
  have n: "newest_first (joined demo_query_db) = [(demo_call_row ''b'' ''2'', None), (demo_call_row ''a'' ''1'', None)]"
    by (simp add: joined_rows [OF k] newest_first_def) (simp add: demo_query_db_def approval_status_def newer_def demo_call_row_def)
  have t: "\<exists>v. toView (demo_call_row ''b'' ''2'', None) = Inr v \<and> cv_id v = ''b''"
    by (simp add: toView_def parseStoredJson_def demo_call_row_def p Let_def)
  have c: "verifyHashChain demo_query_db" by (simp add: verifyHashChain_def demo_query_db_def)
  from t obtain v where v: "toView (demo_call_row ''b'' ''2'', None) = Inr v" "cv_id v = ''b''" by blast
  have r: "listRecent (NInt 1) demo_query_db = Inr ([v], True)" using v(1) by (simp add: listRecent_def n c)
  from recent_calls_exact [OF k r] have "distinct (map cv_id [v])" by blast
  with r v(2) show ?thesis by blast
qed

end
