(* ===== verification/Spec2Isabelle.thy ===== *)
theory Spec2Isabelle
  imports Risk GatewayFacts PortableFacts HashChain InstallGuard StagePlan TarArchive V2Facts AcceptanceFacts TreeFacts AuditQuery
begin

text \<open>
  A verification library for Agent Permission Guard, the gateway between an agent and its MCP
  servers that allows, denies or asks about every tool call, records each call in a tamper-evident
  log, guards package installations the same way, and stages packages for later activation.  The
  library models the code under src/ of the repository and proves what makes it safe.

  \<^bold>\<open>How the parts interact.\<close>  A tool call reaches the handler of the gateway (src/gateway).  The policy
  interceptor (src/policy) projects the call to an identity (src/identity), scores its risk (src/risk),
  matches it against the rules in force and decides.  The decision is recorded (src/audit/recorder.ts);
  where it is to ask, the approval service (src/approval) waits for a person; only after the recorder
  has stored the authorization receipt (src/audit/receipt.ts) and the start of the execution is the
  call sent, and its outcome is recorded after it.  Receipts can be exported and verified elsewhere
  (src/audit/portable-receipt.ts).  The install guard (src/install) sends an installation through
  the same recorder and approval service.  Staging (src/stage) goes from a reviewed package graph through
  a plan, a one-time approval, the download, the inspection of archives and the check of manifests to
  evidence that the packages are those that were reviewed.

  \<^bold>\<open>How the code is represented.\<close>
  A value of type \<open>unknown\<close> is a \<open>jsval\<close>; objects of known shape are records; unions are datatypes.  A
  function that may throw gives \<open>'e + 'a\<close>, with \<open>Inl\<close> for the exception; state is passed in and
  returned, also when a function throws.  Where the code keeps its own objects in a \<open>WeakSet\<close>,
  an object is a pair of an address and a value and the authority keeps pairs, so a copy is told from
  the original.  What comes from outside in one operation, the readings of the clock, random
  identifiers, the answers of system calls and of other parties, is a record of inputs of that
  operation; every call in it can fail at any time, and no theorem assumes that one succeeds.
  Strings are lists of characters, each a UTF-16 code unit below 256.  On these every text is in Unicode
  normal form, and text with other units is outside the model.  Numbers the code computes
  exactly are \<open>int\<close> or \<open>nat\<close> with the bound of safe integers written where the code tests it; a number
  of unknown data may be any number; the hash functions and the checksum work on words of 32 and 64 bits.

  \<^bold>\<open>The theories.\<close>

  Shared ground.
  \<^item> \<open>Prelude\<close>: results of fallible operations and their rules, maps in insertion order, first matches, orders.
  \<^item> \<open>JsText\<close>, \<open>JsValue\<close>, \<open>JsonParse\<close>: strings and anchored patterns; values, \<open>sortValue\<close> and
    \<open>canonicalJson\<close> of src/audit/canonical-json.ts; \<open>JSON.parse\<close>.  Parsing inverts canonical printing, so
    equal canonical texts come from equal data.
  \<^item> \<open>Sha256\<close>, \<open>Sha512\<close>, \<open>Base64\<close>, \<open>Crc32\<close>, \<open>Clock\<close>, \<open>Url\<close>, \<open>Schema\<close>: the hash functions, the
    encoding of integrity values, the checksum of src/stage/tar-archive-parser.ts and its equality with the bitwise one,
    dates in ISO format, what the code reads of a URL, and the schema language the validators are written in.

  Gateway and audit.
  \<^item> \<open>Risk\<close>, \<open>Policy\<close>, \<open>LivePolicy\<close>: src/risk/scorer.ts; schema.ts, matcher.ts and evaluator.ts; loader.ts,
    identity.ts, live-controller.ts and policy-interceptor.ts of src/policy.  A call is allowed only by a rule that
    allows it and a low score, the order of the rules does not matter, and an update of the policy is
    all or nothing.
  \<^item> \<open>Identity\<close>: src/identity.  Exact identities bind the arguments they disclose.
  \<^item> \<open>Redaction\<close>, \<open>Receipt\<close>, \<open>ReceiptFacts\<close>: redaction.ts and receipt.ts of src/audit.  No receipt authorizes
    what was denied or not approved.
  \<^item> \<open>Recorder\<close>, \<open>HashChain\<close>, \<open>Lifecycle\<close>, \<open>AuditLog\<close>: src/audit/recorder.ts over its tables.  The
    locale \<open>hash_chain\<close> is a chain of hashes, interpreted on the log; \<open>Lifecycle\<close> describes a call as three bits;
    \<open>AuditLog\<close> is the step relation of a process with its invariants, and the specification of each operation on
    the three bits, which the recorder refines.
  \<^item> \<open>AuditQuery\<close>: src/audit/query-service.ts.  The recent calls are exactly the newest, each with its approval.
  \<^item> \<open>PortableReceipt\<close>, \<open>PortableFacts\<close>: export, serialisation and verification of receipts.
  \<^item> \<open>Approval\<close>: src/approval/service.ts.  The locale \<open>one_shot\<close> is a service whose requests are settled once,
    interpreted on it.
  \<^item> \<open>Gateway\<close>, \<open>GatewayFacts\<close>: src/gateway.  The handler is a program over the recorder; a call is sent at most
    once and only behind its authorization, and the handler touches the log only by steps of the recorder.

  Install guard.
  \<^item> \<open>Install\<close>, \<open>InstallPlan\<close>, \<open>InstallGuard\<close>: the files of src/install.  Parsing and risk; provider, plan,
    preconditions and verification; audit, bounded output and the run of a request.  A package manager is started only
    for an approved plan whose project is unchanged, behind a stored receipt that names the plan.

  Staging.
  \<^item> \<open>Stage\<close>, \<open>Graph\<close>, \<open>StageProfile\<close>, \<open>OneTime\<close>, \<open>StagePlan\<close>: state-machine.ts, profile.ts, plan.ts,
    integrity.ts, foundation.ts and authority.ts of src/stage.  The locale \<open>one_time\<close> is an authority that spends tokens,
    interpreted on the approvals of stages here and on those of acceptances in \<open>AcceptPlan\<close>.
  \<^item> \<open>ArchivePolicy\<close>, \<open>Ustar\<close>, \<open>TarArchive\<close>: archive-policy.ts and tar-archive-parser.ts.  The block parser
    accepts exactly the well-formed archives; the transcript says exactly what is in the archive.
  \<^item> \<open>PeerRange\<close>, \<open>PeerSemantics\<close>: peer-dependency-semantics.ts.  Ranges are read back with their meaning; the
    analysis accepts exactly the graphs whose dependencies resolve.
  \<^item> \<open>ExactGraph\<close>, \<open>ExactGraphV2\<close>, \<open>V2Facts\<close>: the compilation of package locks in exact-production-graph.ts and
    exact-production-graph-v2.ts, and the validation of payloads by compiling them again.  The edges of a
    compiled node are exactly the dependencies its record lists.
  \<^item> \<open>AcceptPlan\<close>, \<open>AcceptFacts\<close>: the other authorities of exact-production-graph.ts, for candidates, metadata, plans,
    approvals and reviews, with the invariant of their runs.
  \<^item> \<open>ReadOnlyFile\<close>, \<open>ReadOnlyFileFacts\<close>: read-only-artifact-file.ts.  Files hold the bytes that were hashed,
    and failures leave nothing behind.
  \<^item> \<open>Manifest\<close>, \<open>ManifestFacts\<close>: package-manifest-projection.ts.  A manifest says what the graph says.
  \<^item> \<open>Acceptance\<close>, \<open>AcceptanceFacts\<close>: read-only-artifact-acceptance.ts.  Evidence is sound; failures are reported.
  \<^item> \<open>TreeManifest\<close>, \<open>TreeFacts\<close>: tree-manifest.ts.  A manifest is exactly the tree that was walked; a tree that passes the
    check holds the packages of the graph and no other.

  \<^bold>\<open>Parameters.\<close>  The definitions that use them take as arguments: the YAML parser (\<open>LivePolicy\<close>), the
  URL parser (\<open>InstallPlan\<close>, \<open>StageProfile\<close>, \<open>ExactGraph\<close> and later), the formats of the schema library
  (\<open>Schema\<close>), the reader of dates (\<open>AcceptPlan\<close>), the inflater of zlib and the events of the package tar
  (\<open>TarArchive\<close>), the archive inspector and downloader (\<open>StagePlan\<close>), the archive worker (\<open>Acceptance\<close>), the registry,
  file system, child process and upstream server.  Of the hash functions only the length of a
  digest is used: where a theorem speaks of different data with equal hashes, it says that they collide.

  \<^bold>\<open>Fuel and termination.\<close>  The JSON parser and the scanner of manifests for repeated keys take fuel,
  \<open>2 * length s + 2\<close>; every level of nesting consumes a character and takes two units, so it is enough
  and running out is never the reason of a failure (for printed data the inverse shows it).  The
  searches through graphs, the queue of the peer analysis and the loop over the blocks of an archive are total functions
  with measures: the nodes not yet visited, the work not yet done, the bytes not yet read; so is the walk over
  a directory tree, whose measure is the size of what is found.  Loops
  over answers from outside recur over the list of answers and end, as if a read had thrown, when it ends.

  \<^bold>\<open>Not modelled.\<close>
  \<^item> Graph Genesis (src/stage/graph-genesis*.ts): the orchestration of a contained package manager run, with
    processes, sandboxes, network brokers and cleanup of directories; almost every step is a system call.
  \<^item> Of staging: the process of the archive worker and its message protocol (bounded-archive-worker.ts,
    archive-worker-entry.ts, archive-worker-protocol.ts), which \<open>Acceptance\<close> takes as an interface, and the materializer
    (two-pass-materializer.ts), which writes the tree.
  \<^item> src/cli, src/dashboard, src/launch, src/transport: printing, HTTP and child processes; src/db: opening and
    migrating the database, whose tables and constraints are in \<open>Recorder\<close>.
  \<^item> Of modelled files: the preview text of process output (\<open>InstallGuard\<close>), the table of abort
    controllers of the gateway, whose answers are inputs, and the recorder that does nothing.
\<close>

end
